(* ===== verification/Prelude.thy ===== *)
theory Prelude
  imports Main "HOL-Library.Word"
begin

text \<open>
  Shared vocabulary of the development: bytes and fixed-width integers, C strings, buffers with a
  capacity, the little-endian codecs the C files write by hand (put\_u32, get\_u64, \<dots>), and the
  contract of such a codec as a locale, which the wire formats of the components interpret.
\<close>

unbundle bit_operations_syntax

section \<open>Collections of rules\<close>

named_theorems frame_simps \<open>what an operation leaves alone\<close>
named_theorems codec_simps \<open>lengths and round trips of encoders\<close>
named_theorems inv_intros \<open>preservation of invariants\<close>

section \<open>Types\<close>

type_synonym byte = "8 word"
type_synonym u16 = "16 word"
type_synonym u32 = "32 word"
type_synonym u64 = "64 word"
type_synonym bytes = "byte list"

text \<open>A HOL string literal as the bytes of the C literal (without the terminator).\<close>

definition cstr :: "string \<Rightarrow> bytes" where
  "cstr s = map (\<lambda>c. of_nat (of_char c)) s"

text \<open>A C string as seen by strlen: the bytes before the first NUL.\<close>

definition c_strlen :: "bytes \<Rightarrow> nat" where
  "c_strlen s = length (takeWhile (\<lambda>b. b \<noteq> 0) s)"

definition c_string :: "bytes \<Rightarrow> bytes" where
  "c_string s = takeWhile (\<lambda>b. b \<noteq> 0) s"

lemma length_c_string [simp]: "length (c_string s) = c_strlen s"
  by (simp add: c_string_def c_strlen_def)

lemma c_strlen_le: "c_strlen s \<le> length s"
  by (simp add: c_strlen_def length_takeWhile_le)

lemma c_string_no_nul: "0 \<notin> set (c_string s)"
  by (auto simp: c_string_def dest: set_takeWhileD)

lemma c_string_idem [simp]: "c_string (c_string s) = c_string s"
  by (simp add: c_string_def takeWhile_idem)

text \<open>A callee that fills an \<open>n\<close>-byte zeroed buffer: exactly \<open>n\<close> bytes come back.\<close>

definition buf_write :: "nat \<Rightarrow> bytes \<Rightarrow> bytes" where
  "buf_write n bs = take n (bs @ replicate n 0)"

lemma length_buf_write [simp, codec_simps]: "length (buf_write n bs) = n"
  by (simp add: buf_write_def)

lemma buf_write_id [simp]: "length bs = n \<Longrightarrow> buf_write n bs = bs"
  by (simp add: buf_write_def)

text \<open>The slice of \<open>n\<close> bytes at offset \<open>off\<close>.\<close>

definition slice :: "nat \<Rightarrow> nat \<Rightarrow> bytes \<Rightarrow> bytes" where
  "slice off n bs = take n (drop off bs)"

lemma length_slice [simp]: "off + n \<le> length bs \<Longrightarrow> length (slice off n bs) = n"
  by (simp add: slice_def)

lemma slice_0_append [simp]: "length a = n \<Longrightarrow> slice 0 n (a @ b) = a"
  by (simp add: slice_def)

lemma slice_skip: "length a = k \<Longrightarrow> k \<le> off \<Longrightarrow> slice off n (a @ b) = slice (off - k) n b"
  by (simp add: slice_def)

lemma nth_slice: "off + n \<le> length bs \<Longrightarrow> i < n \<Longrightarrow> slice off n bs ! i = bs ! (off + i)"
  by (simp add: slice_def)

lemma slice_eqI:
  assumes "a + n \<le> length f" "a + n \<le> length g" "\<And>i. a \<le> i \<Longrightarrow> i < a + n \<Longrightarrow> f ! i = g ! i"
  shows "slice a n f = slice a n g"
  using assms by (intro nth_equalityI) (simp_all add: nth_slice)

lemma slice_full [simp]: "length a = n \<Longrightarrow> slice 0 n a = a"
  by (simp add: slice_def)

section \<open>Little-endian integers\<close>

definition le_bytes :: "nat \<Rightarrow> 'a::len word \<Rightarrow> bytes" where
  "le_bytes k v = map (\<lambda>i. ucast (drop_bit (8 * i) v)) [0..<k]"

fun le_get :: "nat \<Rightarrow> bytes \<Rightarrow> 'a::len word" where
  "le_get i [] = 0"
| "le_get i (b # bs) = push_bit (8 * i) (ucast b) OR le_get (Suc i) bs"

abbreviation put_u16 :: "u16 \<Rightarrow> bytes" where "put_u16 v \<equiv> le_bytes 2 v"
abbreviation put_u32 :: "u32 \<Rightarrow> bytes" where "put_u32 v \<equiv> le_bytes 4 v"
abbreviation put_u64 :: "u64 \<Rightarrow> bytes" where "put_u64 v \<equiv> le_bytes 8 v"

abbreviation get_u16 :: "bytes \<Rightarrow> u16" where "get_u16 bs \<equiv> le_get 0 (take 2 bs)"
abbreviation get_u32 :: "bytes \<Rightarrow> u32" where "get_u32 bs \<equiv> le_get 0 (take 4 bs)"
abbreviation get_u64 :: "bytes \<Rightarrow> u64" where "get_u64 bs \<equiv> le_get 0 (take 8 bs)"

lemma length_le_bytes [simp, codec_simps]: "length (le_bytes k v) = k"
  by (simp add: le_bytes_def)

lemma bit_le_get:
  "bit (le_get i bs :: 'a::len word) n \<longleftrightarrow>
     n < LENGTH('a) \<and> 8 * i \<le> n \<and> (n div 8 - i) < length bs \<and> bit (bs ! (n div 8 - i)) (n mod 8)"
proof (induction bs arbitrary: i)
  case Nil
  then show ?case by simp
next
  case (Cons b bs)
  show ?case
  proof (cases "n div 8 = i")
    case True
    then have "n - 8 * i = n mod 8" "8 * i \<le> n" "\<not> 8 * Suc i \<le> n" by presburger+
    then show ?thesis
      by (auto simp: Cons.IH bit_or_iff bit_push_bit_iff bit_ucast_iff True)
  next
    case False
    show ?thesis
    proof (cases "8 * Suc i \<le> n")
      case True
      then have ge: "n - 8 * i \<ge> 8" "8 * i \<le> n" "i < n div 8" by presburger+
      then have "\<not> bit b (n - 8 * i)" by (auto dest: bit_imp_le_length)
      moreover obtain d where "n div 8 - i = Suc d" "n div 8 - Suc i = d"
        using ge(3) by (metis Suc_diff_Suc)
      ultimately show ?thesis using True ge(2)
        by (simp add: Cons.IH bit_or_iff bit_push_bit_iff bit_ucast_iff)
    next
      case False
      then have "n < Suc i * 8" by simp
      then have "n div 8 < Suc i" by (rule less_mult_imp_div_less)
      then have "n div 8 < i" using \<open>n div 8 \<noteq> i\<close> by simp
      then have "\<not> 8 * i \<le> n" by (simp add: div_less_iff_less_mult)
      then show ?thesis using False
        by (simp add: Cons.IH bit_or_iff bit_push_bit_iff)
    qed
  qed
qed

lemma le_get_le_bytes:
  assumes "LENGTH('a) \<le> 8 * k"
  shows "le_get 0 (le_bytes k (v :: 'a::len word)) = v"
proof (rule bit_eqI)
  fix n
  assume "possible_bit TYPE('a word) n"
  then have n: "n < LENGTH('a)" by simp
  then have "n < k * 8" using assms by linarith
  then have "n div 8 < k" by (rule less_mult_imp_div_less)
  moreover have "n div 8 * 8 + n mod 8 = n" by simp
  ultimately show "bit (le_get 0 (le_bytes k v) :: 'a word) n = bit v n"
    using n
    by (simp add: bit_le_get le_bytes_def bit_ucast_iff bit_drop_bit_eq mult.commute)
qed

lemma le_bytes_le_get:
  assumes "length bs = k" "8 * k \<le> LENGTH('a)"
  shows "le_bytes k (le_get 0 bs :: 'a::len word) = bs"
proof (rule nth_equalityI)
  show "length (le_bytes k (le_get 0 bs :: 'a word)) = length bs" using assms by simp
  fix i
  assume "i < length (le_bytes k (le_get 0 bs :: 'a word))"
  then have i: "i < k" by simp
  show "le_bytes k (le_get 0 bs :: 'a word) ! i = bs ! i"
  proof (rule bit_eqI)
    fix n
    assume "possible_bit TYPE(byte) n"
    then have n: "n < 8" by simp
    have "(8 * i + n) div 8 = i" "(8 * i + n) mod 8 = n"
      using n by simp_all
    moreover have "8 * i + n < LENGTH('a)" using i n assms(2) by linarith
    ultimately show "bit (le_bytes k (le_get 0 bs :: 'a word) ! i) n = bit (bs ! i) n"
      using i n assms(1)
      by (simp add: le_bytes_def bit_ucast_iff bit_drop_bit_eq bit_le_get)
  qed
qed

lemma get_put_u16 [simp, codec_simps]: "get_u16 (put_u16 v @ r) = v"
  by (simp add: le_get_le_bytes)

lemma get_put_u32 [simp, codec_simps]: "get_u32 (put_u32 v @ r) = v"
  by (simp add: le_get_le_bytes)

lemma get_put_u64 [simp, codec_simps]: "get_u64 (put_u64 v @ r) = v"
  by (simp add: le_get_le_bytes)

lemma get_put_u16' [simp, codec_simps]: "get_u16 (put_u16 v) = v"
  by (simp add: le_get_le_bytes)

lemma get_put_u32' [simp, codec_simps]: "get_u32 (put_u32 v) = v"
  by (simp add: le_get_le_bytes)

lemma get_put_u64' [simp, codec_simps]: "get_u64 (put_u64 v) = v"
  by (simp add: le_get_le_bytes)

lemma le_get_put [simp, codec_simps]:
  "le_get 0 (put_u16 v2) = v2" "le_get 0 (put_u32 v4) = v4" "le_get 0 (put_u64 v8) = v8"
  by (simp_all add: le_get_le_bytes)

lemma put_u32_inj: "put_u32 a = put_u32 b \<Longrightarrow> a = b"
  by (metis get_put_u32')

section \<open>The contract of a self-delimiting codec\<close>

text \<open>
  \<open>enc\<close> writes a value, \<open>dec\<close> reads one back from the front of a buffer and returns what is left.
  A wire format promises that reading what was written gives the value back and leaves the rest.
\<close>

locale codec =
  fixes enc :: "'a \<Rightarrow> bytes"
    and dec :: "bytes \<Rightarrow> ('a \<times> bytes) option"
    and good :: "'a \<Rightarrow> bool"
  assumes dec_enc: "good x \<Longrightarrow> dec (enc x @ rest) = Some (x, rest)"
begin

lemma enc_inj: "good x \<Longrightarrow> good y \<Longrightarrow> enc x = enc y \<Longrightarrow> x = y"
  using dec_enc[of x "[]"] dec_enc[of y "[]"] by simp

lemma enc_prefix_free:
  "good x \<Longrightarrow> good y \<Longrightarrow> enc x @ r = enc y @ r' \<Longrightarrow> x = y \<and> r = r'"
  by (metis dec_enc option.inject prod.inject)

lemma concat_inj:
  "\<lbrakk>list_all good xs; list_all good ys; length xs = length ys;
    concat (map enc xs) @ r = concat (map enc ys) @ r'\<rbrakk> \<Longrightarrow> xs = ys \<and> r = r'"
proof (induction xs arbitrary: ys)
  case Nil
  then show ?case by simp
next
  case (Cons x xs)
  then obtain y ys' where ys: "ys = y # ys'" by (cases ys) auto
  have "enc x @ (concat (map enc xs) @ r) = enc y @ (concat (map enc ys') @ r')"
    using Cons.prems ys by simp
  then have "x = y" "concat (map enc xs) @ r = concat (map enc ys') @ r'"
    using enc_prefix_free Cons.prems ys by auto
  then show ?case using Cons ys by auto
qed

end

definition read_u16 :: "bytes \<Rightarrow> (u16 \<times> bytes) option" where
  "read_u16 bs = (if length bs < 2 then None else Some (get_u16 bs, drop 2 bs))"

definition read_u32 :: "bytes \<Rightarrow> (u32 \<times> bytes) option" where
  "read_u32 bs = (if length bs < 4 then None else Some (get_u32 bs, drop 4 bs))"

definition read_u64 :: "bytes \<Rightarrow> (u64 \<times> bytes) option" where
  "read_u64 bs = (if length bs < 8 then None else Some (get_u64 bs, drop 8 bs))"

interpretation c16: codec put_u16 read_u16 "\<lambda>_. True"
  by unfold_locales (simp add: read_u16_def le_get_le_bytes)

interpretation c32: codec put_u32 read_u32 "\<lambda>_. True"
  by unfold_locales (simp add: read_u32_def le_get_le_bytes)

interpretation c64: codec put_u64 read_u64 "\<lambda>_. True"
  by unfold_locales (simp add: read_u64_def le_get_le_bytes)

end
