(* ===== verification/Fsm.thy ===== *)
theory Fsm
  imports Prelude
begin

text \<open>
  src/src/slot/fsm.c: the life cycle of a slot as a table. The enumerators of slot\_state\_t are
  ordered as their C values (INVALID is -1), which is what the range checks of the code use. The
  table is compared with an inductive specification of the legal steps, and the specification with
  the abstract question the life cycle answers: is there a token, and does it hold a key.
\<close>

section \<open>States and events (include/pqchsm/slot.h)\<close>

datatype slot_state =
    SLOT_ST_INVALID | SLOT_ST_UNINIT | SLOT_ST_EMPTY | SLOT_ST_LOADED | SLOT_ST_IN_USE | SLOT_ST_LOCKED

datatype slot_event =
    SLOT_EV_INIT_TOKEN | SLOT_EV_GENERATE | SLOT_EV_LOAD | SLOT_EV_USE_BEGIN | SLOT_EV_USE_END
  | SLOT_EV_DESTROY | SLOT_EV_ZEROIZE | SLOT_EV_PIN_LOCKOUT | SLOT_EV_SO_UNLOCK

fun state_num :: "slot_state \<Rightarrow> int" where
  "state_num SLOT_ST_INVALID = -1"
| "state_num SLOT_ST_UNINIT = 0"
| "state_num SLOT_ST_EMPTY = 1"
| "state_num SLOT_ST_LOADED = 2"
| "state_num SLOT_ST_IN_USE = 3"
| "state_num SLOT_ST_LOCKED = 4"

lemma state_num_inject: "state_num a = state_num b \<longleftrightarrow> a = b"
  by (cases a; cases b) simp_all

instantiation slot_state :: linorder
begin

definition less_eq_slot_state :: "slot_state \<Rightarrow> slot_state \<Rightarrow> bool" where
  "less_eq_slot_state a b \<longleftrightarrow> state_num a \<le> state_num b"

definition less_slot_state :: "slot_state \<Rightarrow> slot_state \<Rightarrow> bool" where
  "less_slot_state a b \<longleftrightarrow> state_num a < state_num b"

instance
  by standard (auto simp: less_eq_slot_state_def less_slot_state_def state_num_inject)

end

fun event_num :: "slot_event \<Rightarrow> nat" where
  "event_num SLOT_EV_INIT_TOKEN = 0"
| "event_num SLOT_EV_GENERATE = 1"
| "event_num SLOT_EV_LOAD = 2"
| "event_num SLOT_EV_USE_BEGIN = 3"
| "event_num SLOT_EV_USE_END = 4"
| "event_num SLOT_EV_DESTROY = 5"
| "event_num SLOT_EV_ZEROIZE = 6"
| "event_num SLOT_EV_PIN_LOCKOUT = 7"
| "event_num SLOT_EV_SO_UNLOCK = 8"

text \<open>
  The uint32 on the wire, and back for the values an enumerator has.\<close>

definition state_code :: "slot_state \<Rightarrow> u32" where
  "state_code s = of_int (state_num s)"

definition state_of :: "u32 \<Rightarrow> slot_state option" where
  "state_of n =
     (if n = 0 then Some SLOT_ST_UNINIT
      else if n = 1 then Some SLOT_ST_EMPTY
      else if n = 2 then Some SLOT_ST_LOADED
      else if n = 3 then Some SLOT_ST_IN_USE
      else if n = 4 then Some SLOT_ST_LOCKED
      else None)"

lemma state_of_code [simp]: "s \<noteq> SLOT_ST_INVALID \<Longrightarrow> state_of (state_code s) = Some s"
  by (cases s) (simp_all add: state_code_def state_of_def)

lemma state_code_of: "state_of n = Some s \<Longrightarrow> state_code s = n \<and> s \<noteq> SLOT_ST_INVALID"
  by (auto simp: state_of_def state_code_def split: if_splits)

section \<open>The table\<close>

definition TRANSITION :: "slot_state list list" where
  "TRANSITION =
     [[SLOT_ST_EMPTY, SLOT_ST_INVALID, SLOT_ST_INVALID, SLOT_ST_INVALID, SLOT_ST_INVALID,
       SLOT_ST_INVALID, SLOT_ST_UNINIT, SLOT_ST_INVALID, SLOT_ST_INVALID],
      [SLOT_ST_INVALID, SLOT_ST_LOADED, SLOT_ST_LOADED, SLOT_ST_INVALID, SLOT_ST_INVALID,
       SLOT_ST_INVALID, SLOT_ST_UNINIT, SLOT_ST_LOCKED, SLOT_ST_INVALID],
      [SLOT_ST_INVALID, SLOT_ST_INVALID, SLOT_ST_INVALID, SLOT_ST_IN_USE, SLOT_ST_INVALID,
       SLOT_ST_EMPTY, SLOT_ST_UNINIT, SLOT_ST_LOCKED, SLOT_ST_INVALID],
      [SLOT_ST_INVALID, SLOT_ST_INVALID, SLOT_ST_INVALID, SLOT_ST_INVALID, SLOT_ST_LOADED,
       SLOT_ST_INVALID, SLOT_ST_UNINIT, SLOT_ST_LOCKED, SLOT_ST_INVALID],
      [SLOT_ST_INVALID, SLOT_ST_INVALID, SLOT_ST_INVALID, SLOT_ST_INVALID, SLOT_ST_INVALID,
       SLOT_ST_INVALID, SLOT_ST_UNINIT, SLOT_ST_INVALID, SLOT_ST_LOADED]]"

definition slot_fsm_next :: "slot_state \<Rightarrow> slot_event \<Rightarrow> slot_state" where
  "slot_fsm_next cur ev =
     (if cur < SLOT_ST_UNINIT then SLOT_ST_INVALID
      else TRANSITION ! nat (state_num cur) ! event_num ev)"

definition slot_fsm_unlock_target :: "slot_state \<Rightarrow> slot_state" where
  "slot_fsm_unlock_target pre_lock =
     (case pre_lock of
        SLOT_ST_EMPTY \<Rightarrow> SLOT_ST_EMPTY
      | SLOT_ST_LOADED \<Rightarrow> SLOT_ST_LOADED
      | SLOT_ST_IN_USE \<Rightarrow> SLOT_ST_LOADED
      | _ \<Rightarrow> SLOT_ST_EMPTY)"

fun slot_state_name :: "slot_state \<Rightarrow> string" where
  "slot_state_name SLOT_ST_UNINIT = ''UNINIT''"
| "slot_state_name SLOT_ST_EMPTY = ''EMPTY''"
| "slot_state_name SLOT_ST_LOADED = ''LOADED''"
| "slot_state_name SLOT_ST_IN_USE = ''IN_USE''"
| "slot_state_name SLOT_ST_LOCKED = ''LOCKED''"
| "slot_state_name SLOT_ST_INVALID = ''INVALID''"

fun slot_event_name :: "slot_event \<Rightarrow> string" where
  "slot_event_name SLOT_EV_INIT_TOKEN = ''INIT_TOKEN''"
| "slot_event_name SLOT_EV_GENERATE = ''GENERATE''"
| "slot_event_name SLOT_EV_LOAD = ''LOAD''"
| "slot_event_name SLOT_EV_USE_BEGIN = ''USE_BEGIN''"
| "slot_event_name SLOT_EV_USE_END = ''USE_END''"
| "slot_event_name SLOT_EV_DESTROY = ''DESTROY''"
| "slot_event_name SLOT_EV_ZEROIZE = ''ZEROIZE''"
| "slot_event_name SLOT_EV_PIN_LOCKOUT = ''PIN_LOCKOUT''"
| "slot_event_name SLOT_EV_SO_UNLOCK = ''SO_UNLOCK''"

section \<open>The legal steps\<close>

inductive slot_legal :: "slot_state \<Rightarrow> slot_event \<Rightarrow> slot_state \<Rightarrow> bool" where
  init: "slot_legal SLOT_ST_UNINIT SLOT_EV_INIT_TOKEN SLOT_ST_EMPTY"
| generate: "slot_legal SLOT_ST_EMPTY SLOT_EV_GENERATE SLOT_ST_LOADED"
| load: "slot_legal SLOT_ST_EMPTY SLOT_EV_LOAD SLOT_ST_LOADED"
| use_begin: "slot_legal SLOT_ST_LOADED SLOT_EV_USE_BEGIN SLOT_ST_IN_USE"
| use_end: "slot_legal SLOT_ST_IN_USE SLOT_EV_USE_END SLOT_ST_LOADED"
| destroy: "slot_legal SLOT_ST_LOADED SLOT_EV_DESTROY SLOT_ST_EMPTY"
| zeroize: "s \<noteq> SLOT_ST_INVALID \<Longrightarrow> slot_legal s SLOT_EV_ZEROIZE SLOT_ST_UNINIT"
| lockout: "s \<in> {SLOT_ST_EMPTY, SLOT_ST_LOADED, SLOT_ST_IN_USE} \<Longrightarrow>
    slot_legal s SLOT_EV_PIN_LOCKOUT SLOT_ST_LOCKED"
| unlock: "slot_legal SLOT_ST_LOCKED SLOT_EV_SO_UNLOCK SLOT_ST_LOADED"

code_pred slot_legal .

inductive_simps slot_legal_locked: "slot_legal SLOT_ST_LOCKED e t"
inductive_cases slot_legalE: "slot_legal s e t"

lemma slot_fsm_next_INVALID [simp]: "slot_fsm_next SLOT_ST_INVALID e = SLOT_ST_INVALID"
  by (simp add: slot_fsm_next_def less_slot_state_def)

lemmas fsm_table = slot_fsm_next_def TRANSITION_def less_slot_state_def

lemma slot_fsm_next_simps:
  "slot_fsm_next SLOT_ST_UNINIT e =
     (case e of SLOT_EV_INIT_TOKEN \<Rightarrow> SLOT_ST_EMPTY | SLOT_EV_ZEROIZE \<Rightarrow> SLOT_ST_UNINIT
      | _ \<Rightarrow> SLOT_ST_INVALID)"
  "slot_fsm_next SLOT_ST_EMPTY e =
     (case e of SLOT_EV_GENERATE \<Rightarrow> SLOT_ST_LOADED | SLOT_EV_LOAD \<Rightarrow> SLOT_ST_LOADED
      | SLOT_EV_ZEROIZE \<Rightarrow> SLOT_ST_UNINIT | SLOT_EV_PIN_LOCKOUT \<Rightarrow> SLOT_ST_LOCKED
      | _ \<Rightarrow> SLOT_ST_INVALID)"
  "slot_fsm_next SLOT_ST_LOADED e =
     (case e of SLOT_EV_USE_BEGIN \<Rightarrow> SLOT_ST_IN_USE | SLOT_EV_DESTROY \<Rightarrow> SLOT_ST_EMPTY
      | SLOT_EV_ZEROIZE \<Rightarrow> SLOT_ST_UNINIT | SLOT_EV_PIN_LOCKOUT \<Rightarrow> SLOT_ST_LOCKED
      | _ \<Rightarrow> SLOT_ST_INVALID)"
  "slot_fsm_next SLOT_ST_IN_USE e =
     (case e of SLOT_EV_USE_END \<Rightarrow> SLOT_ST_LOADED | SLOT_EV_ZEROIZE \<Rightarrow> SLOT_ST_UNINIT
      | SLOT_EV_PIN_LOCKOUT \<Rightarrow> SLOT_ST_LOCKED | _ \<Rightarrow> SLOT_ST_INVALID)"
  "slot_fsm_next SLOT_ST_LOCKED e =
     (case e of SLOT_EV_ZEROIZE \<Rightarrow> SLOT_ST_UNINIT | SLOT_EV_SO_UNLOCK \<Rightarrow> SLOT_ST_LOADED
      | _ \<Rightarrow> SLOT_ST_INVALID)"
  by (cases e; simp add: fsm_table)+

text \<open>
  the table is exactly the specification of the life cycle: slot\_fsm\_next leads from a state
  by an event to a real state if and only if that is one of the legal steps.
\<close>

theorem fsm_table_legal:
  "slot_fsm_next s e = t \<and> t \<noteq> SLOT_ST_INVALID \<longleftrightarrow> slot_legal s e t"
  by (cases s; cases e; auto simp: slot_fsm_next_simps slot_legal.simps)

section \<open>What the life cycle keeps track of\<close>

text \<open>
  A run of events. An illegal event is refused and the state stays, as every caller of the table
  does (fsm\_apply in slot.c); a lockout remembers where it happened and an unlock goes back there.
\<close>

definition fsm_run1 :: "slot_state \<times> slot_state \<Rightarrow> slot_event \<Rightarrow> slot_state \<times> slot_state" where
  "fsm_run1 st ev =
     (let (cur, pre) = st; nxt = slot_fsm_next cur ev in
      if nxt = SLOT_ST_INVALID then (cur, pre)
      else if ev = SLOT_EV_PIN_LOCKOUT then (nxt, cur)
      else if ev = SLOT_EV_SO_UNLOCK then (slot_fsm_unlock_target pre, pre)
      else (nxt, pre))"

definition fsm_run :: "slot_event list \<Rightarrow> slot_state \<times> slot_state \<Rightarrow> slot_state \<times> slot_state" where
  "fsm_run evs st = foldl fsm_run1 st evs"

datatype key_view = No_Token | No_Key | Key

text \<open>What a history of accepted events says the slot holds.\<close>

fun view_step :: "key_view \<Rightarrow> slot_event \<Rightarrow> key_view" where
  "view_step v SLOT_EV_ZEROIZE = No_Token"
| "view_step No_Token SLOT_EV_INIT_TOKEN = No_Key"
| "view_step No_Key SLOT_EV_GENERATE = Key"
| "view_step No_Key SLOT_EV_LOAD = Key"
| "view_step Key SLOT_EV_DESTROY = No_Key"
| "view_step v _ = v"

fun view_of :: "slot_state \<times> slot_state \<Rightarrow> key_view" where
  "view_of (SLOT_ST_EMPTY, _) = No_Key"
| "view_of (SLOT_ST_LOADED, _) = Key"
| "view_of (SLOT_ST_IN_USE, _) = Key"
| "view_of (SLOT_ST_LOCKED, SLOT_ST_LOADED) = Key"
| "view_of (SLOT_ST_LOCKED, SLOT_ST_IN_USE) = Key"
| "view_of (SLOT_ST_LOCKED, _) = No_Key"
| "view_of _ = No_Token"

definition accepted :: "slot_state \<times> slot_state \<Rightarrow> slot_event \<Rightarrow> bool" where
  "accepted st ev \<longleftrightarrow> slot_fsm_next (fst st) ev \<noteq> SLOT_ST_INVALID"

fun view_run :: "slot_event list \<Rightarrow> slot_state \<times> slot_state \<Rightarrow> key_view \<Rightarrow> key_view" where
  "view_run [] st v = v"
| "view_run (e # es) st v =
     view_run es (fsm_run1 st e) (if accepted st e then view_step v e else v)"

lemma fsm_run1_simulation:
  assumes "fst st \<noteq> SLOT_ST_INVALID" "accepted st e"
  shows "view_of (fsm_run1 st e) = view_step (view_of st) e \<and> fst (fsm_run1 st e) \<noteq> SLOT_ST_INVALID"
  using assms
  by (cases st; cases "fst st"; cases "snd st"; cases e)
     (simp_all add: accepted_def fsm_run1_def slot_fsm_next_simps slot_fsm_unlock_target_def)

lemma fsm_run1_refused: "\<not> accepted st e \<Longrightarrow> fsm_run1 st e = st"
  by (cases st) (simp add: fsm_run1_def accepted_def Let_def)

text \<open>
  the concrete machine refines the key-holding view: after any sequence of events, legal or
  not, lockouts and unlocks included, the state says that a key is present exactly when the
  accepted events generated or loaded one that was not destroyed or zeroized since. In particular
  an unlock never claims a key for a slot that was locked empty.
\<close>

theorem fsm_refines_view:
  assumes "fst st \<noteq> SLOT_ST_INVALID"
  shows "view_of (fsm_run evs st) = view_run evs st (view_of st)"
  using assms
proof (induction evs arbitrary: st)
  case Nil
  then show ?case by (simp add: fsm_run_def)
next
  case (Cons e evs)
  show ?case
  proof (cases "accepted st e")
    case True
    then show ?thesis
      using Cons.IH[of "fsm_run1 st e"] fsm_run1_simulation[OF Cons.prems True]
      by (simp add: fsm_run_def)
  next
    case False
    then show ?thesis
      using Cons.IH[of st] Cons.prems by (simp add: fsm_run_def fsm_run1_refused)
  qed
qed

lemma fsm_refines_view_witness:
  "view_of (fsm_run [SLOT_EV_INIT_TOKEN, SLOT_EV_PIN_LOCKOUT, SLOT_EV_SO_UNLOCK]
      (SLOT_ST_UNINIT, SLOT_ST_EMPTY)) = No_Key"
  using fsm_refines_view[of "(SLOT_ST_UNINIT, SLOT_ST_EMPTY)"
      "[SLOT_EV_INIT_TOKEN, SLOT_EV_PIN_LOCKOUT, SLOT_EV_SO_UNLOCK]"]
  by (simp add: fsm_run1_def accepted_def slot_fsm_next_simps slot_fsm_unlock_target_def)

text \<open>
  a locked slot is left in two ways only: as long as no SO\_UNLOCK and no ZEROIZE arrives, every
  sequence of other events leaves it locked.
\<close>

theorem locked_until_so:
  "SLOT_EV_SO_UNLOCK \<notin> set evs \<and> SLOT_EV_ZEROIZE \<notin> set evs \<Longrightarrow>
     fsm_run evs (SLOT_ST_LOCKED, pre) = (SLOT_ST_LOCKED, pre)"
proof (induction evs)
  case Nil
  then show ?case by (simp add: fsm_run_def)
next
  case (Cons e evs)
  then have "fsm_run1 (SLOT_ST_LOCKED, pre) e = (SLOT_ST_LOCKED, pre)"
    by (cases e) (auto simp: fsm_run1_def slot_fsm_next_simps)
  with Cons show ?case by (simp add: fsm_run_def)
qed

lemma locked_until_so_witness:
  "fsm_run [SLOT_EV_GENERATE, SLOT_EV_USE_BEGIN, SLOT_EV_DESTROY, SLOT_EV_INIT_TOKEN]
     (SLOT_ST_LOCKED, SLOT_ST_LOADED) = (SLOT_ST_LOCKED, SLOT_ST_LOADED)"
  by (rule locked_until_so) simp

end
