(* ===== verification/Hwrng.thy ===== *)
theory Hwrng
  imports Prelude
begin

text \<open>
  src/src/hal/hwrng.c: the driver of the hardware entropy source. The device behind the register
  file is a parameter (the transport's read\_reg and write\_reg over a device state of any type);
  the module's two globals g\_tr and g\_bs are the record \<open>hwrng\<close>. The last section instruments the
  transport with a log of the register accesses, so that the driver's two disciplines (look at
  DATA\_VALID before popping RDATA; throw the batch away on an alarm) are statements about what
  the driver does on the bus, not only about what it returns.
\<close>

section \<open>Registers and state\<close>

definition HWRNG_REG_CTRL :: u32 where "HWRNG_REG_CTRL = 0x00"
definition HWRNG_REG_STATUS :: u32 where "HWRNG_REG_STATUS = 0x04"
definition HWRNG_REG_RDATA :: u32 where "HWRNG_REG_RDATA = 0x08"
definition HWRNG_REG_VERSION :: u32 where "HWRNG_REG_VERSION = 0x20"
definition HWRNG_REG_PARAM0 :: u32 where "HWRNG_REG_PARAM0 = 0x24"
definition HWRNG_REG_PARAM1 :: u32 where "HWRNG_REG_PARAM1 = 0x28"
definition HWRNG_REG_PARAM2 :: u32 where "HWRNG_REG_PARAM2 = 0x2C"

definition HWRNG_CTRL_ENABLE :: u32 where "HWRNG_CTRL_ENABLE = 1"
definition HWRNG_CTRL_ZEROIZE :: u32 where "HWRNG_CTRL_ZEROIZE = 2"
definition HWRNG_CTRL_CLEAR_ALARM :: u32 where "HWRNG_CTRL_CLEAR_ALARM = 4"

definition HWRNG_ST_READY :: u32 where "HWRNG_ST_READY = 1"
definition HWRNG_ST_DATA_VALID :: u32 where "HWRNG_ST_DATA_VALID = 2"
definition HWRNG_ST_ALARM :: u32 where "HWRNG_ST_ALARM = 4"
definition HWRNG_ST_UNDERRUN :: u32 where "HWRNG_ST_UNDERRUN = 0x100"

lemmas hwrng_regs = HWRNG_REG_CTRL_def HWRNG_REG_STATUS_def HWRNG_REG_RDATA_def
  HWRNG_REG_VERSION_def HWRNG_REG_PARAM0_def HWRNG_REG_PARAM1_def HWRNG_REG_PARAM2_def

lemmas hwrng_bits = HWRNG_CTRL_ENABLE_def HWRNG_CTRL_ZEROIZE_def HWRNG_CTRL_CLEAR_ALARM_def
  HWRNG_ST_READY_def HWRNG_ST_DATA_VALID_def HWRNG_ST_ALARM_def HWRNG_ST_UNDERRUN_def

definition HWRNG_POLL_LIMIT :: nat where "HWRNG_POLL_LIMIT = 100000"

datatype hwrng_err =
    HWRNG_OK | HWRNG_ERR_ARG | HWRNG_ERR_ABSENT | HWRNG_ERR_ALARM
  | HWRNG_ERR_TIMEOUT | HWRNG_ERR_PARAM | HWRNG_ERR_VERSION

record 'd hwrng_transport =
  tr_is_hardware :: bool
  write_reg :: "u32 \<Rightarrow> u32 \<Rightarrow> 'd \<Rightarrow> 'd"
  read_reg :: "u32 \<Rightarrow> 'd \<Rightarrow> u32 \<times> 'd"

record 'd hwrng_byte_source =
  bs_is_hardware :: bool
  bs_bytes :: "nat \<Rightarrow> 'd \<Rightarrow> bool \<times> bytes \<times> 'd"

record 'd hwrng =
  g_tr :: "'d hwrng_transport option"
  g_bs :: "'d hwrng_byte_source option"

section \<open>The driver\<close>

definition hwrng_set_transport ::
    "'d hwrng_transport option \<Rightarrow> 'd hwrng \<Rightarrow> 'd \<Rightarrow> 'd hwrng \<times> 'd" where
  "hwrng_set_transport t m d =
     (m\<lparr>g_tr := t\<rparr>,
      case t of None \<Rightarrow> d | Some tr \<Rightarrow> write_reg tr HWRNG_REG_CTRL HWRNG_CTRL_ENABLE d)"

definition hwrng_set_byte_source :: "'d hwrng_byte_source option \<Rightarrow> 'd hwrng \<Rightarrow> 'd hwrng" where
  "hwrng_set_byte_source src m = m\<lparr>g_bs := src\<rparr>"

definition hwrng_available :: "'d hwrng \<Rightarrow> bool" where
  "hwrng_available m \<longleftrightarrow> g_tr m \<noteq> None \<or> g_bs m \<noteq> None"

definition hwrng_is_hardware :: "'d hwrng \<Rightarrow> bool" where
  "hwrng_is_hardware m =
     (case g_bs m of
        Some b \<Rightarrow> bs_is_hardware b
      | None \<Rightarrow> (case g_tr m of None \<Rightarrow> False | Some t \<Rightarrow> tr_is_hardware t))"

definition hwrng_status :: "'d hwrng \<Rightarrow> 'd \<Rightarrow> u32 \<times> 'd" where
  "hwrng_status m d = (case g_tr m of None \<Rightarrow> (0, d) | Some t \<Rightarrow> read_reg t HWRNG_REG_STATUS d)"

definition hwrng_zeroize :: "'d hwrng \<Rightarrow> 'd \<Rightarrow> 'd" where
  "hwrng_zeroize m d =
     (case g_tr m of
        None \<Rightarrow> d
      | Some t \<Rightarrow> write_reg t HWRNG_REG_CTRL (HWRNG_CTRL_ENABLE OR HWRNG_CTRL_ZEROIZE) d)"

definition hwrng_clear_alarm :: "'d hwrng \<Rightarrow> 'd \<Rightarrow> 'd" where
  "hwrng_clear_alarm m d =
     (case g_tr m of
        None \<Rightarrow> d
      | Some t \<Rightarrow> write_reg t HWRNG_REG_CTRL (HWRNG_CTRL_ENABLE OR HWRNG_CTRL_CLEAR_ALARM) d)"

text \<open>The two polling loops. The first argument is the number of polls left.\<close>

fun wait_ready_locked :: "'d hwrng_transport \<Rightarrow> nat \<Rightarrow> 'd \<Rightarrow> hwrng_err \<times> 'd" where
  "wait_ready_locked t k d =
     (if k = 0 then (HWRNG_ERR_TIMEOUT, d)
      else let (s, d1) = read_reg t HWRNG_REG_STATUS d in
        if s AND HWRNG_ST_ALARM \<noteq> 0 then (HWRNG_ERR_ALARM, d1)
        else if s AND HWRNG_ST_READY \<noteq> 0 then (HWRNG_OK, d1)
        else wait_ready_locked t (k - 1) d1)"

fun wait_data_locked :: "'d hwrng_transport \<Rightarrow> nat \<Rightarrow> 'd \<Rightarrow> hwrng_err \<times> 'd" where
  "wait_data_locked t k d =
     (if k = 0 then (HWRNG_ERR_TIMEOUT, d)
      else let (s, d1) = read_reg t HWRNG_REG_STATUS d in
        if s AND HWRNG_ST_ALARM \<noteq> 0 then (HWRNG_ERR_ALARM, d1)
        else if s AND HWRNG_ST_DATA_VALID \<noteq> 0 then (HWRNG_OK, d1)
        else wait_data_locked t (k - 1) d1)"

declare wait_ready_locked.simps [simp del] wait_data_locked.simps [simp del]

definition hwrng_param_ok :: "u32 \<Rightarrow> u32 \<Rightarrow> u32 \<Rightarrow> bool" where
  "hwrng_param_ok p0 p1 p2 \<longleftrightarrow>
     drop_bit 24 p0 AND 0xff = 8 \<and> drop_bit 16 p0 AND 0xff = 8 \<and>
     drop_bit 8 p0 AND 0xff = 17 \<and> p0 AND 0xff = 4 \<and>
     drop_bit 16 p1 AND 0xffff = 793 \<and> p1 AND 0xffff = 41 \<and>
     drop_bit 16 p2 AND 0xffff = 1024 \<and> p2 AND 0xffff = 1024"

definition hwrng_selftest :: "'d hwrng \<Rightarrow> 'd \<Rightarrow> hwrng_err \<times> 'd" where
  "hwrng_selftest m d =
     (case g_tr m of
        None \<Rightarrow> (HWRNG_ERR_ABSENT, d)
      | Some t \<Rightarrow>
          let (v, d1) = read_reg t HWRNG_REG_VERSION d in
          if v \<noteq> 0x00010000 then (HWRNG_ERR_VERSION, d1)
          else let (p0, d2) = read_reg t HWRNG_REG_PARAM0 d1;
                   (p1, d3) = read_reg t HWRNG_REG_PARAM1 d2;
                   (p2, d4) = read_reg t HWRNG_REG_PARAM2 d3 in
            if \<not> hwrng_param_ok p0 p1 p2 then (HWRNG_ERR_PARAM, d4)
            else wait_ready_locked t HWRNG_POLL_LIMIT
                   (write_reg t HWRNG_REG_CTRL HWRNG_CTRL_ENABLE d4))"

text \<open>The word loop of hwrng\_bytes: \<open>n\<close> bytes are still missing.\<close>

fun hwrng_words :: "'d hwrng_transport \<Rightarrow> nat \<Rightarrow> 'd \<Rightarrow> (hwrng_err + bytes) \<times> 'd" where
  "hwrng_words t n d =
     (if n = 0 then (Inr [], d)
      else case wait_data_locked t HWRNG_POLL_LIMIT d of
        (rc, d1) \<Rightarrow>
          if rc \<noteq> HWRNG_OK then (Inl rc, d1)
          else case read_reg t HWRNG_REG_RDATA d1 of
            (w, d2) \<Rightarrow>
              (case hwrng_words t (n - min n 4) d2 of
                 (Inl e, d3) \<Rightarrow> (Inl e, d3)
               | (Inr bs, d3) \<Rightarrow> (Inr (take (min n 4) (put_u32 w) @ bs), d3)))"

declare hwrng_words.simps [simp del]

text \<open>
  The output buffer is an argument (None is NULL, its length is the \<open>n\<close> of the C call) and comes
  back as the driver leaves it: untouched when no source is installed, as the byte source left it
  on that path, cleared at out: when the register path fails.
\<close>

definition hwrng_bytes ::
    "'d hwrng \<Rightarrow> bytes option \<Rightarrow> 'd \<Rightarrow> hwrng_err \<times> bytes \<times> 'd" where
  "hwrng_bytes m out d =
     (case out of None \<Rightarrow> (HWRNG_ERR_ARG, [], d) | Some buf \<Rightarrow>
      let n = length buf in
      if n = 0 then (HWRNG_ERR_ARG, buf, d)
      else case g_bs m of
        Some b \<Rightarrow>
          (case bs_bytes b n d of
             (ok, bs, d1) \<Rightarrow>
               (if ok then HWRNG_OK else HWRNG_ERR_TIMEOUT, buf_write n bs, d1))
      | None \<Rightarrow>
          (case g_tr m of
             None \<Rightarrow> (HWRNG_ERR_ABSENT, buf, d)
           | Some t \<Rightarrow>
               (case wait_ready_locked t HWRNG_POLL_LIMIT d of (rc, d1) \<Rightarrow>
                  if rc \<noteq> HWRNG_OK then (rc, replicate n 0, d1)
                  else (case hwrng_words t n d1 of
                     (Inl e, d2) \<Rightarrow> (e, replicate n 0, d2)
                   | (Inr bs, d2) \<Rightarrow>
                       (case read_reg t HWRNG_REG_STATUS d2 of (s, d3) \<Rightarrow>
                          if s AND (HWRNG_ST_ALARM OR HWRNG_ST_UNDERRUN) \<noteq> 0
                          then (HWRNG_ERR_ALARM, replicate n 0, d3)
                          else (HWRNG_OK, bs, d3))))))"

section \<open>What a call returns\<close>

lemma hwrng_words_result:
  "hwrng_words t n d = (r, d') \<Longrightarrow>
     (case r of Inr bs \<Rightarrow> length bs = n | Inl e \<Rightarrow> e \<noteq> HWRNG_OK)"
proof (induction n arbitrary: d r d' rule: less_induct)
  case (less n)
  have IH: "0 < n \<Longrightarrow> hwrng_words t (n - min n 4) x = (r', y) \<Longrightarrow>
     (case r' of Inr bs \<Rightarrow> length bs = n - min n 4 | Inl e \<Rightarrow> e \<noteq> HWRNG_OK)" for x r' y
    by (rule less.IH) auto
  from less.prems show ?case
    by (subst (asm) hwrng_words.simps)
       (auto split: if_splits prod.splits sum.splits dest!: IH)
qed

lemma length_hwrng_words: "hwrng_words t n d = (Inr bs, d') \<Longrightarrow> length bs = n"
  using hwrng_words_result[of t n d "Inr bs"] by simp

lemma hwrng_words_err: "hwrng_words t n d = (Inl e, d') \<Longrightarrow> e \<noteq> HWRNG_OK"
  using hwrng_words_result[of t n d "Inl e"] by simp

lemma length_hwrng_bytes:
  "hwrng_bytes m (Some buf) d = (rc, out, d') \<Longrightarrow> length out = length buf"
  by (auto simp: hwrng_bytes_def Let_def length_hwrng_words
      split: if_splits option.splits prod.splits sum.splits)

section \<open>The bus log\<close>

datatype bus_access = Rd u32 u32 | Wr u32 u32

text \<open>
  The same transport with a log of its accesses, the latest first.\<close>

definition logged :: "'d hwrng_transport \<Rightarrow> ('d \<times> bus_access list) hwrng_transport" where
  "logged t =
     \<lparr>tr_is_hardware = tr_is_hardware t,
      write_reg = (\<lambda>off v (d, l). (write_reg t off v d, Wr off v # l)),
      read_reg = (\<lambda>off (d, l). case read_reg t off d of (v, d') \<Rightarrow> (v, d', Rd off v # l))\<rparr>"

text \<open>
  Every pop of RDATA in the log comes right after a STATUS read that showed DATA\_VALID and no
  ALARM.
\<close>

fun pops_guarded :: "bus_access list \<Rightarrow> bool" where
  "pops_guarded [] = True"
| "pops_guarded (Rd off v # l) =
     ((off = HWRNG_REG_RDATA \<longrightarrow>
        (case l of Rd off' s # _ \<Rightarrow> off' = HWRNG_REG_STATUS \<and>
             s AND HWRNG_ST_DATA_VALID \<noteq> 0 \<and> s AND HWRNG_ST_ALARM = 0
         | _ \<Rightarrow> False)) \<and> pops_guarded l)"
| "pops_guarded (Wr off v # l) = pops_guarded l"

lemma read_logged [simp]:
  "read_reg (logged t) off (d, l) =
     (case read_reg t off d of (v, d') \<Rightarrow> (v, d', Rd off v # l))"
  by (simp add: logged_def)

lemma status_not_rdata [simp]: "HWRNG_REG_STATUS \<noteq> HWRNG_REG_RDATA"
  by (simp add: hwrng_regs)

lemma wait_ready_guarded:
  "wait_ready_locked (logged t) k (d, l) = (rc, d', l') \<Longrightarrow> pops_guarded l \<Longrightarrow> pops_guarded l'"
proof (induction k arbitrary: d l)
  case 0
  then show ?case by (simp add: wait_ready_locked.simps)
next
  case (Suc k)
  show ?case
    using Suc.prems(1)
    by (subst (asm) wait_ready_locked.simps)
       (auto simp: Suc.prems(2) split: if_splits prod.splits dest!: Suc.IH)
qed

lemma wait_data_guarded:
  "wait_data_locked (logged t) k (d, l) = (rc, d', l') \<Longrightarrow> pops_guarded l \<Longrightarrow>
   pops_guarded l' \<and> (rc = HWRNG_OK \<longrightarrow>
     (\<exists>s l''. l' = Rd HWRNG_REG_STATUS s # l'' \<and> s AND HWRNG_ST_DATA_VALID \<noteq> 0 \<and>
        s AND HWRNG_ST_ALARM = 0))"
proof (induction k arbitrary: d l)
  case 0
  then show ?case by (simp add: wait_data_locked.simps)
next
  case (Suc k)
  show ?case
    using Suc.prems(1)
    by (subst (asm) wait_data_locked.simps)
       (auto simp: Suc.prems(2) split: if_splits prod.splits dest!: Suc.IH)
qed

lemma hwrng_words_guarded:
  "hwrng_words (logged t) n (d, l) = (r, d', l') \<Longrightarrow> pops_guarded l \<Longrightarrow> pops_guarded l'"
proof (induction n arbitrary: d l r d' l' rule: less_induct)
  case (less n)
  show ?case
  proof (cases "n = 0")
    case True
    then show ?thesis using less.prems by (simp add: hwrng_words.simps)
  next
    case False
    obtain rc d1 l1 where w: "wait_data_locked (logged t) HWRNG_POLL_LIMIT (d, l) = (rc, d1, l1)"
      by (metis prod_cases3)
    note g = wait_data_guarded[OF w less.prems(2)]
    show ?thesis
    proof (cases "rc = HWRNG_OK")
      case False
      with less.prems(1) \<open>n \<noteq> 0\<close> w g show ?thesis by (simp add: hwrng_words.simps)
    next
      case True
      obtain v d2 where r: "read_reg t HWRNG_REG_RDATA d1 = (v, d2)" by fastforce
      obtain x d3 l3 where rest:
        "hwrng_words (logged t) (n - min n 4) (d2, Rd HWRNG_REG_RDATA v # l1) = (x, d3, l3)"
        by (metis prod_cases3)
      have "l' = l3"
        using less.prems(1) \<open>n \<noteq> 0\<close> w True r rest
        by (subst (asm) hwrng_words.simps) (auto split: sum.splits)
      moreover have "pops_guarded (Rd HWRNG_REG_RDATA v # l1)" using g True by auto
      ultimately show ?thesis
        using less.IH[OF _ rest] \<open>n \<noteq> 0\<close> by simp
    qed
  qed
qed

text \<open>The data words popped so far, the oldest first.\<close>

fun popped :: "bus_access list \<Rightarrow> u32 list" where
  "popped [] = []"
| "popped (Rd off v # l) = popped l @ (if off = HWRNG_REG_RDATA then [v] else [])"
| "popped (Wr off v # l) = popped l"

lemma wait_ready_popped:
  "wait_ready_locked (logged t) k (d, l) = (rc, d', l') \<Longrightarrow> popped l' = popped l"
proof (induction k arbitrary: d l)
  case 0
  then show ?case by (simp add: wait_ready_locked.simps)
next
  case (Suc k)
  show ?case
    using Suc.prems(1)
    by (subst (asm) wait_ready_locked.simps)
       (auto split: if_splits prod.splits dest!: Suc.IH)
qed

lemma wait_data_popped:
  "wait_data_locked (logged t) k (d, l) = (rc, d', l') \<Longrightarrow> popped l' = popped l"
proof (induction k arbitrary: d l)
  case 0
  then show ?case by (simp add: wait_data_locked.simps)
next
  case (Suc k)
  show ?case
    using Suc.prems(1)
    by (subst (asm) wait_data_locked.simps)
       (auto split: if_splits prod.splits dest!: Suc.IH)
qed

lemma hwrng_words_popped:
  "hwrng_words (logged t) n (d, l) = (Inr bs, d', l') \<Longrightarrow>
     \<exists>ws. popped l' = popped l @ ws \<and> bs = take n (concat (map put_u32 ws)) \<and>
          length ws = (n + 3) div 4"
proof (induction n arbitrary: d l bs d' l' rule: less_induct)
  case (less n)
  show ?case
  proof (cases "n = 0")
    case True
    then show ?thesis using less.prems by (simp add: hwrng_words.simps)
  next
    case False
    obtain rc d1 l1 where w: "wait_data_locked (logged t) HWRNG_POLL_LIMIT (d, l) = (rc, d1, l1)"
      by (metis prod_cases3)
    have ok: "rc = HWRNG_OK"
      using less.prems False w by (subst (asm) hwrng_words.simps) (auto split: if_splits)
    obtain v d2 where r: "read_reg t HWRNG_REG_RDATA d1 = (v, d2)" by fastforce
    obtain bs' where rest:
      "hwrng_words (logged t) (n - min n 4) (d2, Rd HWRNG_REG_RDATA v # l1) = (Inr bs', d', l')"
      and bs: "bs = take (min n 4) (put_u32 v) @ bs'"
      using less.prems False w ok r
      by (subst (asm) hwrng_words.simps) (auto split: sum.splits prod.splits)
    obtain ws where ws: "popped l' = popped (Rd HWRNG_REG_RDATA v # l1) @ ws"
      "bs' = take (n - min n 4) (concat (map put_u32 ws))" "length ws = (n - min n 4 + 3) div 4"
      using less.IH[OF _ rest] False by auto
    have "popped l' = popped l @ v # ws" using ws wait_data_popped[OF w] by simp
    moreover have "bs = take n (concat (map put_u32 (v # ws)))"
      using bs ws(2) by (cases "n < 4") (simp_all add: min_def)
    moreover have "length (v # ws) = (n + 3) div 4"
      using ws(3) False by (cases "n < 4") (auto simp: min_def div_if)
    ultimately show ?thesis by blast
  qed
qed

text \<open>
  hwrng\_bytes never pops the data register blind: on the bus, every read of RDATA directly
  follows a read of STATUS that showed DATA\_VALID and no ALARM, whatever the device does.
\<close>

theorem hwrng_pops_guarded:
  assumes "hwrng_bytes \<lparr>g_tr = Some (logged t), g_bs = None\<rparr> out (d, []) = (rc, buf, d', log)"
  shows "pops_guarded log"
  using assms
  by (auto simp: hwrng_bytes_def Let_def
      split: if_splits option.splits prod.splits sum.splits
      dest!: wait_ready_guarded hwrng_words_guarded)

text \<open>
  a batch is all or nothing. If hwrng\_bytes succeeds on the register path, the buffer holds
  exactly the bytes of the words popped in this call, in order, and the last access was a STATUS
  read with neither ALARM nor UNDERRUN; if it fails, every byte of the buffer is zero.
\<close>

theorem hwrng_batch:
  assumes "hwrng_bytes \<lparr>g_tr = Some (logged t), g_bs = None\<rparr> (Some old) (d, []) = (rc, buf, d', log)"
    and "old \<noteq> []"
  shows "if rc = HWRNG_OK
         then buf = take (length old) (concat (map put_u32 (popped log))) \<and>
              length (popped log) = (length old + 3) div 4 \<and>
              (\<exists>s l. log = Rd HWRNG_REG_STATUS s # l \<and>
                     s AND (HWRNG_ST_ALARM OR HWRNG_ST_UNDERRUN) = 0)
         else buf = replicate (length old) 0"
  using assms
  by (auto simp: hwrng_bytes_def Let_def wait_ready_popped
      split: if_splits option.splits prod.splits sum.splits
      dest!: hwrng_words_popped hwrng_words_err)

end
