(* ===== verification/Env.thy ===== *)
theory Env
  imports Hwrng
begin

text \<open>
  What the program is linked against, and the mutable state all components thread.

  The record \<open>env\<close> collects the parameters of the model: the OpenSSL primitives (KMAC-256,
  SHA3-256, AES-256-GCM, RAND\_bytes), the allocator, the clock, the result of a file operation,
  the algorithm back end (a table of function pointers, include/pqchsm/pqc.h), the installed key
  derivation provider (include/pqchsm/kdr.h), the installed entropy source (include/pqchsm/hwrng.h)
  and the build profile (include/pqchsm/profile.h). KMAC, SHA3 and GCM are functions of their
  arguments; what may differ from call to call (random numbers, time, allocation, I/O, the back
  end) is indexed by a counter, \<open>tick\<close>, that the callers advance. The record \<open>world\<close> is the
  state: that counter, the state of the power-on self-test and the files.
\<close>

section \<open>Algorithms (include/pqchsm/pqc.h)\<close>

datatype pqc_alg =
    PQC_ALG_NONE
  | PQC_ALG_ML_KEM_512 | PQC_ALG_ML_KEM_768 | PQC_ALG_ML_KEM_1024
  | PQC_ALG_ML_DSA_44 | PQC_ALG_ML_DSA_65 | PQC_ALG_ML_DSA_87
  | PQC_ALG_other u32

text \<open>The C enum is an unsigned int: \<open>PQC_ALG_other\<close> holds a number no enumerator has.\<close>

fun alg_code :: "pqc_alg \<Rightarrow> u32" where
  "alg_code PQC_ALG_NONE = 0"
| "alg_code PQC_ALG_ML_KEM_512 = 1"
| "alg_code PQC_ALG_ML_KEM_768 = 2"
| "alg_code PQC_ALG_ML_KEM_1024 = 3"
| "alg_code PQC_ALG_ML_DSA_44 = 4"
| "alg_code PQC_ALG_ML_DSA_65 = 5"
| "alg_code PQC_ALG_ML_DSA_87 = 6"
| "alg_code (PQC_ALG_other n) = n"

definition alg_of :: "u32 \<Rightarrow> pqc_alg" where
  "alg_of n =
     (if n = 0 then PQC_ALG_NONE
      else if n = 1 then PQC_ALG_ML_KEM_512
      else if n = 2 then PQC_ALG_ML_KEM_768
      else if n = 3 then PQC_ALG_ML_KEM_1024
      else if n = 4 then PQC_ALG_ML_DSA_44
      else if n = 5 then PQC_ALG_ML_DSA_65
      else if n = 6 then PQC_ALG_ML_DSA_87
      else PQC_ALG_other n)"

lemma alg_code_of [simp]: "alg_code (alg_of n) = n"
  by (simp add: alg_of_def)

datatype pqc_kind = PQC_KIND_KEM | PQC_KIND_SIG

fun kind_mask :: "pqc_kind \<Rightarrow> u32" where
  "kind_mask PQC_KIND_KEM = 1"
| "kind_mask PQC_KIND_SIG = 2"

datatype pqc_status =
    PQC_ERR_BAD_ARG | PQC_ERR_UNSUPPORTED | PQC_ERR_BACKEND | PQC_ERR_VERIFY | PQC_ERR_SELF_TEST

text \<open>The answer of an operation that may fail: PQC\_OK is \<open>Inr\<close> of what it wrote.\<close>

type_synonym 'a pqc_res = "pqc_status + 'a"

text \<open>
  The back end's function pointers; None is a NULL entry. The last argument of each is the call
  counter. A pair of output buffers is a pair of byte strings, written only on success.
\<close>

record pqc_backend =
  be_keypair :: "(pqc_alg \<Rightarrow> nat \<Rightarrow> (bytes \<times> bytes) pqc_res) option"
  be_keypair_from_seed :: "(pqc_alg \<Rightarrow> bytes \<Rightarrow> nat \<Rightarrow> (bytes \<times> bytes) pqc_res) option"
  be_encaps :: "(pqc_alg \<Rightarrow> bytes \<Rightarrow> nat \<Rightarrow> (bytes \<times> bytes) pqc_res) option"
  be_encaps_derand :: "(pqc_alg \<Rightarrow> bytes \<Rightarrow> bytes \<Rightarrow> nat \<Rightarrow> (bytes \<times> bytes) pqc_res) option"
  be_decaps :: "(pqc_alg \<Rightarrow> bytes \<Rightarrow> bytes \<Rightarrow> nat \<Rightarrow> bytes pqc_res) option"
  be_sign :: "(pqc_alg \<Rightarrow> bytes \<Rightarrow> bytes \<Rightarrow> bytes \<Rightarrow> bytes option \<Rightarrow> nat \<Rightarrow> nat \<Rightarrow> bytes pqc_res) option"
  be_verify :: "(pqc_alg \<Rightarrow> bytes \<Rightarrow> bytes \<Rightarrow> bytes \<Rightarrow> bytes \<Rightarrow> nat \<Rightarrow> unit pqc_res) option"
  be_keypair_hw :: "(pqc_alg \<Rightarrow> nat \<Rightarrow> (bytes \<times> u32) pqc_res) option"
  be_decaps_hw :: "(pqc_alg \<Rightarrow> u32 \<Rightarrow> bytes \<Rightarrow> nat \<Rightarrow> bytes pqc_res) option"
  be_sign_hw :: "(pqc_alg \<Rightarrow> u32 \<Rightarrow> bytes \<Rightarrow> bytes \<Rightarrow> bytes option \<Rightarrow> nat \<Rightarrow> nat \<Rightarrow> bytes pqc_res) option"

section \<open>Key derivation provider (include/pqchsm/kdr.h)\<close>

record kdr_provider =
  kp_derive :: "(bytes \<Rightarrow> bytes \<Rightarrow> nat \<Rightarrow> bytes option) option"
  kp_hardware_backed :: bool
  kp_device_bound :: bool

text \<open>g\_provider points to the built-in stub (the constant g\_stub) or to a provider installed by a
  caller; g\_root and g\_root\_ready are the stub's root key.\<close>

datatype kdr_ref = Stub_Provider | Ext_Provider kdr_provider

record kdr_state =
  g_provider :: "kdr_ref option"
  g_root :: bytes
  g_root_ready :: bool

section \<open>The environment\<close>

record env =
  evp_kmac256 :: "bytes \<Rightarrow> bytes \<Rightarrow> bytes \<Rightarrow> nat \<Rightarrow> bytes option"
  evp_sha3_256 :: "bytes \<Rightarrow> bytes option"
  evp_gcm_encrypt :: "bytes \<Rightarrow> bytes \<Rightarrow> bytes \<Rightarrow> bytes \<Rightarrow> (bytes \<times> bytes) option"
  evp_gcm_decrypt :: "bytes \<Rightarrow> bytes \<Rightarrow> bytes \<Rightarrow> bytes \<Rightarrow> bytes \<Rightarrow> bytes option"
  rand_bytes :: "nat \<Rightarrow> nat \<Rightarrow> bool \<times> bytes"
  malloc_ok :: "nat \<Rightarrow> nat \<Rightarrow> bool"
  clock :: "nat \<Rightarrow> u64"
  io :: "nat \<Rightarrow> nat \<Rightarrow> nat option"
  rng_module :: "nat hwrng"
  native_backend :: pqc_backend
  installed_backend :: "pqc_backend option"
  kdr :: kdr_state
  production :: bool

section \<open>The state\<close>

datatype st_state = ST_UNTESTED | ST_PASSED | ST_FAILED

record world =
  tick :: nat
  st_state :: st_state
  st_failures :: u32
  files :: "bytes \<Rightarrow> bytes option"

definition next_tick :: "'a world_scheme \<Rightarrow> 'a world_scheme" where
  "next_tick w = w\<lparr>tick := Suc (tick w)\<rparr>"

lemma tick_next_tick [simp]: "tick (next_tick w) = Suc (tick w)"
  by (simp add: next_tick_def)

end
