(* ===== verification/Util.thy ===== *)
theory Util
  imports Env
begin

text \<open>
  src/src/util/util.c: constant-time comparison, random bytes (hardware source or RAND\_bytes,
  never a fall-back from one to the other), the secure allocator and the hex codec.
\<close>

section \<open>Memory\<close>

text \<open>pqc\_secure\_zero on an \<open>n\<close>-byte array leaves \<open>n\<close> zero bytes.\<close>

definition pqc_secure_zero :: "nat \<Rightarrow> bytes" where
  "pqc_secure_zero n = replicate n 0"

lemma length_secure_zero [simp]: "length (pqc_secure_zero n) = n"
  by (simp add: pqc_secure_zero_def)

text \<open>The buffer is zeroed before it is handed out; None is NULL.\<close>

definition pqc_secure_alloc :: "env \<Rightarrow> nat \<Rightarrow> 'a world_scheme \<Rightarrow> bytes option \<times> 'a world_scheme" where
  "pqc_secure_alloc E n w =
     (if n = 0 then (None, w)
      else (if malloc_ok E (tick w) n then Some (replicate n 0) else None, next_tick w))"

section \<open>Constant-time comparison\<close>

fun ct_diff :: "bytes \<Rightarrow> bytes \<Rightarrow> nat \<Rightarrow> byte \<Rightarrow> byte" where
  "ct_diff (x # xs) (y # ys) (Suc n) diff = ct_diff xs ys n (diff OR (x XOR y))"
| "ct_diff _ _ _ diff = diff"

definition pqc_ct_equal :: "bytes option \<Rightarrow> bytes option \<Rightarrow> nat \<Rightarrow> bool" where
  "pqc_ct_equal a b n =
     (case (a, b) of (Some x, Some y) \<Rightarrow> ct_diff x y n 0 = 0 | _ \<Rightarrow> False)"

lemma ct_diff_zero_iff:
  "n \<le> length xs \<Longrightarrow> n \<le> length ys \<Longrightarrow>
     ct_diff xs ys n d = 0 \<longleftrightarrow> d = 0 \<and> take n xs = take n ys"
proof (induction xs ys n d rule: ct_diff.induct)
  case (1 x xs y ys n diff)
  have "diff OR (x XOR y) = 0 \<longleftrightarrow> diff = 0 \<and> x = y"
    by (metis or_eq_0_iff xor_self_eq bit.xor_cancel_left word_log_esimps(3) xor.right_neutral
        xor.assoc)
  with 1 show ?case by auto
qed auto

lemma pqc_ct_equal_iff:
  "length a = n \<Longrightarrow> length b = n \<Longrightarrow> pqc_ct_equal (Some a) (Some b) n \<longleftrightarrow> a = b"
  by (simp add: pqc_ct_equal_def ct_diff_zero_iff)

section \<open>Random bytes\<close>

definition INT_MAX :: nat where "INT_MAX = 2147483647"

text \<open>
  Success and the buffer as it is left, which on a failure holds whatever the source wrote; the
  old contents are needed because a source that is not there writes nothing.
\<close>

definition pqc_random_bytes ::
    "env \<Rightarrow> bytes option \<Rightarrow> 'a world_scheme \<Rightarrow> bool \<times> bytes \<times> 'a world_scheme" where
  "pqc_random_bytes E out w =
     (case out of None \<Rightarrow> (False, [], w) | Some buf \<Rightarrow>
      let n = length buf in
      if n = 0 \<or> n > INT_MAX then (False, buf, w)
      else if hwrng_is_hardware (rng_module E) then
        (case hwrng_bytes (rng_module E) (Some buf) (tick w) of
           (rc, bs, t) \<Rightarrow> (rc = HWRNG_OK, bs, w\<lparr>tick := t\<rparr>))
      else (case rand_bytes E (tick w) n of
           (ok, bs) \<Rightarrow> (ok, buf_write n bs, next_tick w)))"

lemma length_pqc_random_bytes:
  "pqc_random_bytes E (Some buf) w = (ok, bs, w') \<Longrightarrow> length bs = length buf"
  by (auto simp: pqc_random_bytes_def Let_def length_hwrng_bytes split: if_splits prod.splits)

section \<open>Hexadecimal\<close>

definition hexval :: "byte \<Rightarrow> byte option" where
  "hexval c =
     (if 0x30 \<le> c \<and> c \<le> 0x39 then Some (c - 0x30)
      else if 0x61 \<le> c \<and> c \<le> 0x66 then Some (c - 0x61 + 10)
      else if 0x41 \<le> c \<and> c \<le> 0x46 then Some (c - 0x41 + 10)
      else None)"

fun hex_pairs :: "bytes \<Rightarrow> bytes option" where
  "hex_pairs (a # b # rest) =
     (case (hexval a, hexval b) of
        (Some hi, Some lo) \<Rightarrow> map_option ((#) (push_bit 4 hi OR lo)) (hex_pairs rest)
      | _ \<Rightarrow> None)"
| "hex_pairs _ = Some []"

text \<open>\<open>hex_len\<close> is None for the C value (size\_t)-1, \<open>use strlen\<close>.\<close>

definition pqc_hex_decode :: "bytes option \<Rightarrow> nat option \<Rightarrow> nat \<Rightarrow> bytes option" where
  "pqc_hex_decode hex hex_len out_cap =
     (case hex of None \<Rightarrow> None | Some h \<Rightarrow>
      let len = (case hex_len of None \<Rightarrow> c_strlen h | Some n \<Rightarrow> n) in
      if len mod 2 \<noteq> 0 then None
      else if len div 2 > out_cap then None
      else hex_pairs (take len h))"

definition hex_digit :: "byte \<Rightarrow> byte" where
  "hex_digit n = (if n < 10 then 0x30 + n else 0x61 + (n - 10))"

text \<open>The text with its terminating NUL.\<close>

definition pqc_hex_encode :: "bytes option \<Rightarrow> nat option \<Rightarrow> bytes option" where
  "pqc_hex_encode inp out_cap =
     (case (inp, out_cap) of
        (Some bs, Some cap) \<Rightarrow>
          if cap < 2 * length bs + 1 then None
          else Some (concat (map (\<lambda>b. [hex_digit (drop_bit 4 b), hex_digit (b AND 0x0f)]) bs) @ [0])
      | _ \<Rightarrow> None)"

lemma hexval_digit:
  assumes "n < 16"
  shows "hexval (hex_digit n) = Some n"
proof -
  have "\<forall>k\<in>set [0..<16]. hexval (hex_digit (of_nat k)) = Some (of_nat k)"
    by (simp add: upt_rec hexval_def hex_digit_def)
  moreover have "unat n \<in> set [0..<16]" using assms by (simp add: word_less_nat_alt)
  ultimately have "hexval (hex_digit (of_nat (unat n))) = Some (of_nat (unat n))" by blast
  then show ?thesis by simp
qed

lemma nibble_less: "drop_bit 4 (b :: byte) < 16" "b AND 0x0f < 16"
proof -
  have "unat b < 2 ^ LENGTH(8)" by (rule unsigned_less)
  then show "drop_bit 4 b < 16"
    by (simp add: word_less_nat_alt drop_bit_eq_div unat_div)
  have "b AND 0x0f = take_bit 4 b" by (simp add: take_bit_eq_mask mask_eq_exp_minus_1)
  then show "b AND 0x0f < 16"
    by (simp add: word_less_nat_alt take_bit_eq_mod unat_mod)
qed

lemma nibbles_join: "push_bit 4 (drop_bit 4 (b :: byte)) OR (b AND 0x0f) = b"
proof -
  have "b AND 0x0f = take_bit 4 b" by (simp add: take_bit_eq_mask mask_eq_exp_minus_1)
  then show ?thesis by (auto intro!: bit_eqI simp: bit_simps)
qed

lemma hex_pairs_encode:
  "hex_pairs (concat (map (\<lambda>b. [hex_digit (drop_bit 4 b), hex_digit (b AND 0x0f)]) bs)) = Some bs"
  by (induction bs) (simp_all add: hexval_digit nibble_less nibbles_join)

text \<open>
  decoding the text that pqc\_hex\_encode writes for a byte string gives the byte string back,
  with an explicit length as with strlen, whenever the two buffers are large enough.
\<close>

theorem hex_roundtrip:
  assumes "2 * length bs + 1 \<le> cap" and "length bs \<le> cap'"
  shows "\<exists>txt. pqc_hex_encode (Some bs) (Some cap) = Some txt \<and>
           length txt = 2 * length bs + 1 \<and>
           pqc_hex_decode (Some txt) None cap' = Some bs \<and>
           pqc_hex_decode (Some txt) (Some (2 * length bs)) cap' = Some bs"
proof -
  define t where
    "t = concat (map (\<lambda>b. [hex_digit (drop_bit 4 b), hex_digit (b AND 0x0f)]) bs)"
  have len: "length t = 2 * length bs" unfolding t_def by (induction bs) simp_all
  have nz: "hex_digit n \<noteq> 0" if "n < 16" for n
    using hexval_digit[OF that] by (auto simp: hexval_def split: if_splits)
  have "\<forall>x\<in>set t. x \<noteq> 0" by (auto simp: t_def nz nibble_less)
  then have "takeWhile (\<lambda>x. x \<noteq> 0) (t @ [0]) = t" by (simp add: takeWhile_append2)
  then have "c_strlen (t @ [0]) = 2 * length bs" by (simp add: c_strlen_def len)
  moreover have "pqc_hex_encode (Some bs) (Some cap) = Some (t @ [0])"
    using assms by (simp add: pqc_hex_encode_def t_def)
  moreover have "hex_pairs (take (2 * length bs) (t @ [0])) = Some bs"
    using hex_pairs_encode[of bs] by (simp add: t_def[symmetric] len)
  ultimately show ?thesis using assms by (simp add: pqc_hex_decode_def len)
qed

lemma hex_roundtrip_witness:
  "\<exists>txt. pqc_hex_encode (Some [0xde, 0x0f]) (Some 5) = Some txt \<and> length txt = 5 \<and>
     pqc_hex_decode (Some txt) None 2 = Some [0xde, 0x0f] \<and>
     pqc_hex_decode (Some txt) (Some 4) 2 = Some [0xde, 0x0f]"
  using hex_roundtrip[of "[0xde, 0x0f]" 5 2] by simp

end
