(* ===== verification/Kdf.thy ===== *)
theory Kdf
  imports Util
begin

text \<open>
  src/src/crypto/kdf.c, src/src/crypto/kdr.c and src/src/crypto/profile.c: the wrappers of OpenSSL's
  KMAC-256 and SHA3-256, the derivation of every sub-key from the device root key, and the gate
  a production build has to pass at start-up. A pointer and its length are two arguments (None is
  NULL); output buffers of these functions are arrays in every caller and are given by their length.
\<close>

section \<open>KMAC-256 and SHA3-256 (kdf.c)\<close>

definition mem :: "bytes option \<Rightarrow> nat \<Rightarrow> bytes" where
  "mem p n = (case p of None \<Rightarrow> [] | Some d \<Rightarrow> take n d)"

lemma mem_simps [simp]: "mem None n = []" "mem (Some d) n = take n d" "mem p 0 = []"
  by (simp_all add: mem_def split: option.splits)

definition pqc_kmac256 ::
    "env \<Rightarrow> bytes option \<Rightarrow> nat \<Rightarrow> bytes option \<Rightarrow> nat \<Rightarrow> bytes option \<Rightarrow> nat \<Rightarrow> bytes option" where
  "pqc_kmac256 E key key_len data data_len custom out_len =
     (if key = None \<or> key_len = 0 then None
      else if data = None \<and> data_len \<noteq> 0 then None
      else if out_len = 0 then None
      else case evp_kmac256 E (mem key key_len) (mem data data_len)
                  (case custom of None \<Rightarrow> [] | Some c \<Rightarrow> c_string c) out_len of
        None \<Rightarrow> None
      | Some bs \<Rightarrow> if length bs \<noteq> out_len then None else Some bs)"

definition pqc_sha3_256 :: "env \<Rightarrow> bytes option \<Rightarrow> nat \<Rightarrow> bytes option" where
  "pqc_sha3_256 E data data_len =
     (if data = None \<and> data_len \<noteq> 0 then None
      else case evp_sha3_256 E (mem data data_len) of
        None \<Rightarrow> None
      | Some bs \<Rightarrow> if length bs \<noteq> 32 then None else Some bs)"

definition pqc_kdf ::
    "env \<Rightarrow> bytes option \<Rightarrow> nat \<Rightarrow> bytes option \<Rightarrow> nat \<Rightarrow> bytes option \<Rightarrow> nat \<Rightarrow> bytes option" where
  "pqc_kdf E ikm ikm_len salt salt_len label out_len =
     (if label = None then None else pqc_kmac256 E ikm ikm_len salt salt_len label out_len)"

text \<open>The calls with whole arrays, which is what the rest of the program makes.\<close>

abbreviation kmac :: "env \<Rightarrow> bytes \<Rightarrow> bytes \<Rightarrow> string \<Rightarrow> nat \<Rightarrow> bytes option" where
  "kmac E key data custom n \<equiv>
     pqc_kmac256 E (Some key) (length key) (Some data) (length data) (Some (cstr custom)) n"

abbreviation sha3 :: "env \<Rightarrow> bytes \<Rightarrow> bytes option" where
  "sha3 E data \<equiv> pqc_sha3_256 E (Some data) (length data)"

lemma pqc_kmac256_length:
  "pqc_kmac256 E key kl data dl custom n = Some bs \<Longrightarrow> length bs = n"
  by (auto simp: pqc_kmac256_def split: if_splits option.splits)

lemma pqc_sha3_256_length: "pqc_sha3_256 E data dl = Some bs \<Longrightarrow> length bs = 32"
  by (auto simp: pqc_sha3_256_def split: if_splits option.splits)

lemma pqc_kdf_length: "pqc_kdf E ikm il salt sl label n = Some bs \<Longrightarrow> length bs = n"
  by (auto simp: pqc_kdf_def pqc_kmac256_length split: if_splits)

section \<open>The root key (kdr.c)\<close>

definition PQC_KDR_LEN :: nat where "PQC_KDR_LEN = 32"

definition KDR_STUB :: bytes where
  "KDR_STUB =
     [0x50, 0x51, 0x43, 0x2d, 0x48, 0x53, 0x4d, 0x20,
      0x53, 0x54, 0x55, 0x42, 0x20, 0x4b, 0x44, 0x52,
      0x20, 0x2d, 0x2d, 0x20, 0x4e, 0x4f, 0x54, 0x20,
      0x53, 0x45, 0x43, 0x52, 0x45, 0x54, 0x21, 0x21]"

definition ensure_root :: "kdr_state \<Rightarrow> kdr_state" where
  "ensure_root k = (if \<not> g_root_ready k then k\<lparr>g_root := KDR_STUB, g_root_ready := True\<rparr> else k)"

definition stub_derive ::
    "env \<Rightarrow> kdr_state \<Rightarrow> bytes \<Rightarrow> bytes option \<Rightarrow> nat \<Rightarrow> nat \<Rightarrow> bytes option \<times> kdr_state" where
  "stub_derive E k label salt salt_len out_len =
     (let k1 = ensure_root k in
      (pqc_kdf E (Some (g_root k1)) PQC_KDR_LEN salt salt_len (Some label) out_len, k1))"

text \<open>NULL in a production build: the stub is not compiled in.\<close>

definition pqc_kdr_provider_stub :: "bool \<Rightarrow> kdr_ref option" where
  "pqc_kdr_provider_stub prd = (if prd then None else Some Stub_Provider)"

definition pqc_kdr_set_provider :: "kdr_ref option \<Rightarrow> kdr_state \<Rightarrow> kdr_state" where
  "pqc_kdr_set_provider p k = k\<lparr>g_provider := p\<rparr>"

definition pqc_kdr_get_provider :: "kdr_state \<Rightarrow> kdr_ref option" where
  "pqc_kdr_get_provider k = g_provider k"

definition pqc_kdr_install_stub :: "bool \<Rightarrow> kdr_state \<Rightarrow> bool \<times> kdr_state" where
  "pqc_kdr_install_stub prd k =
     (if prd then (False, k) else (True, k\<lparr>g_provider := Some Stub_Provider\<rparr>))"

fun ref_hardware_backed :: "kdr_ref \<Rightarrow> bool" where
  "ref_hardware_backed Stub_Provider = False"
| "ref_hardware_backed (Ext_Provider p) = kp_hardware_backed p"

fun ref_device_bound :: "kdr_ref \<Rightarrow> bool" where
  "ref_device_bound Stub_Provider = False"
| "ref_device_bound (Ext_Provider p) = kp_device_bound p"

definition pqc_kdr_is_hardware_backed :: "kdr_state \<Rightarrow> bool" where
  "pqc_kdr_is_hardware_backed k =
     (case pqc_kdr_get_provider k of None \<Rightarrow> False | Some p \<Rightarrow> ref_hardware_backed p)"

definition pqc_kdr_derive_st ::
    "env \<Rightarrow> kdr_state \<Rightarrow> bytes option \<Rightarrow> bytes option \<Rightarrow> nat \<Rightarrow> nat \<Rightarrow> bytes option \<times> kdr_state" where
  "pqc_kdr_derive_st E k label salt salt_len out_len =
     (case label of
        None \<Rightarrow> (None, k)
      | Some l \<Rightarrow>
          if c_string l = [] \<or> out_len = 0 then (None, k)
          else case pqc_kdr_get_provider k of
            None \<Rightarrow> (None, k)
          | Some Stub_Provider \<Rightarrow> stub_derive E k l salt salt_len out_len
          | Some (Ext_Provider p) \<Rightarrow>
              (case kp_derive p of
                 None \<Rightarrow> (None, k)
               | Some f \<Rightarrow>
                   (map_option (buf_write out_len) (f (c_string l) (mem salt salt_len) out_len), k)))"

definition pqc_kdr_set_test_root ::
    "env \<Rightarrow> bytes option \<Rightarrow> nat \<Rightarrow> kdr_state \<Rightarrow> kdr_state" where
  "pqc_kdr_set_test_root E seed seed_len k =
     (if production E then k
      else if pqc_kdr_get_provider k \<noteq> Some Stub_Provider then k
      else if seed = None \<or> seed_len = 0 then k\<lparr>g_root := KDR_STUB, g_root_ready := True\<rparr>
      else case pqc_kdf E seed seed_len None 0 (Some (cstr ''pqc-hsm/test-device-root'')) PQC_KDR_LEN of
        None \<Rightarrow> k
      | Some root \<Rightarrow> k\<lparr>g_root := root, g_root_ready := True\<rparr>)"

text \<open>The derivation the rest of the program uses: a literal label, an array as salt.\<close>

definition pqc_kdr_derive :: "env \<Rightarrow> string \<Rightarrow> bytes \<Rightarrow> nat \<Rightarrow> bytes option" where
  "pqc_kdr_derive E label salt n =
     fst (pqc_kdr_derive_st E (kdr E) (Some (cstr label)) (Some salt) (length salt) n)"

lemma pqc_kdr_derive_st_length:
  "fst (pqc_kdr_derive_st E k l s sl n) = Some bs \<Longrightarrow> length bs = n"
  by (auto simp: pqc_kdr_derive_st_def stub_derive_def Let_def pqc_kdf_length
      split: option.splits if_splits kdr_ref.splits)

lemma pqc_kdr_derive_length: "pqc_kdr_derive E l s n = Some bs \<Longrightarrow> length bs = n"
  by (simp add: pqc_kdr_derive_def pqc_kdr_derive_st_length)

text \<open>
  the lazy initialisation of the stub's root is not observable: a derivation answers the same
  before and after any other derivation ran, so a sub-key depends on the installed provider, the
  label and the salt alone.
\<close>

theorem kdr_derive_stable:
  "fst (pqc_kdr_derive_st E (snd (pqc_kdr_derive_st E k l' s' sl' n')) l s sl n) =
   fst (pqc_kdr_derive_st E k l s sl n)"
proof -
  have "fst (stub_derive E (ensure_root k) l s sl n) = fst (stub_derive E k l s sl n)" for l
    by (simp add: stub_derive_def ensure_root_def)
  moreover have "g_provider (ensure_root k) = g_provider k" by (simp add: ensure_root_def)
  ultimately show ?thesis
    by (auto simp: pqc_kdr_derive_st_def stub_derive_def Let_def pqc_kdr_get_provider_def
        split: option.splits if_splits kdr_ref.splits)
qed

section \<open>The production gate (profile.c)\<close>

definition pqc_profile_is_production :: "env \<Rightarrow> bool" where
  "pqc_profile_is_production E = production E"

text \<open>
  The messages for the operator are reduced to which of them is given.\<close>

datatype startup_msg = No_Provider | Not_Hardware | Hardware_Root | Device_Bound_Only | Public_Constant

definition pqc_profile_startup_check :: "bool \<Rightarrow> kdr_state \<Rightarrow> bool \<times> startup_msg" where
  "pqc_profile_startup_check prd k =
     (case pqc_kdr_get_provider k of
        None \<Rightarrow> (False, No_Provider)
      | Some p \<Rightarrow>
          if prd then
            (if \<not> ref_hardware_backed p then (False, Not_Hardware) else (True, Hardware_Root))
          else
            (if \<not> ref_hardware_backed p
             then (True, if ref_device_bound p then Device_Bound_Only else Public_Constant)
             else (True, Hardware_Root)))"

text \<open>
  The calls through which the process changes the module. A caller that passes a provider it got
  from pqc\_kdr\_provider\_stub gets what that function returns in this build.
\<close>

inductive kdr_step :: "env \<Rightarrow> kdr_state \<Rightarrow> kdr_state \<Rightarrow> bool" for E where
  install_ext: "kdr_step E k (pqc_kdr_set_provider (Some (Ext_Provider p)) k)"
| uninstall: "kdr_step E k (pqc_kdr_set_provider None k)"
| install_stub: "kdr_step E k (snd (pqc_kdr_install_stub (production E) k))"
| install_stub_ptr: "kdr_step E k (pqc_kdr_set_provider (pqc_kdr_provider_stub (production E)) k)"
| test_root: "kdr_step E k (pqc_kdr_set_test_root E seed n k)"
| derive: "kdr_step E k (snd (pqc_kdr_derive_st E k l s sl n))"

definition kdr_start :: kdr_state where
  "kdr_start = \<lparr>g_provider = None, g_root = replicate PQC_KDR_LEN 0, g_root_ready = False\<rparr>"

lemma ensure_root_provider [simp]: "g_provider (ensure_root k) = g_provider k"
  by (simp add: ensure_root_def)

lemma set_test_root_provider [simp]: "g_provider (pqc_kdr_set_test_root E s n k) = g_provider k"
  by (simp add: pqc_kdr_set_test_root_def split: option.splits)

lemma derive_provider [simp]: "g_provider (snd (pqc_kdr_derive_st E k l s sl n)) = g_provider k"
  by (auto simp: pqc_kdr_derive_st_def stub_derive_def Let_def
      split: option.splits kdr_ref.splits)

lemma kdr_step_production:
  "kdr_step E k k' \<Longrightarrow> production E \<Longrightarrow> g_provider k \<noteq> Some Stub_Provider \<Longrightarrow>
   g_provider k' \<noteq> Some Stub_Provider"
  by (induction rule: kdr_step.induct)
     (auto simp: pqc_kdr_set_provider_def pqc_kdr_install_stub_def pqc_kdr_provider_stub_def)

text \<open>
  in a production build no sequence of calls makes the public constant the root of trust, and
  a start-up that is let through runs on a provider that says it is hardware-backed.
\<close>

theorem production_root_is_hardware:
  assumes "(kdr_step E)\<^sup>*\<^sup>* kdr_start k" and "production E"
  shows "pqc_kdr_get_provider k \<noteq> Some Stub_Provider \<and>
         (fst (pqc_profile_startup_check (production E) k) \<longrightarrow> pqc_kdr_is_hardware_backed k)"
proof -
  have "g_provider k \<noteq> Some Stub_Provider"
    using assms(1)
  proof (induction rule: rtranclp_induct)
    case base
    then show ?case by (simp add: kdr_start_def)
  next
    case (step k k')
    then show ?case using kdr_step_production assms(2) by blast
  qed
  then show ?thesis
    using assms(2)
    by (auto simp: pqc_kdr_get_provider_def pqc_profile_startup_check_def
        pqc_kdr_is_hardware_backed_def split: option.splits if_splits)
qed

end
