(* ===== verification/Pqc_Info.thy ===== *)
theory Pqc_Info
  imports Kdf
begin

text \<open>
  src/src/crypto/pqc.c, first part: the table of parameter sets. Everything that needs a key or
  signature length, and every check that an algorithm number is a known one, goes through it.
\<close>

record pqc_alg_info =
  ai_alg :: pqc_alg
  ai_kind :: pqc_kind
  ai_name :: string
  ai_pk_len :: nat
  ai_sk_len :: nat
  ai_ct_len :: nat
  ai_ss_len :: nat
  ai_sig_len :: nat
  ai_seed_len :: nat

definition alg_row ::
    "pqc_alg \<Rightarrow> pqc_kind \<Rightarrow> string \<Rightarrow> nat \<Rightarrow> nat \<Rightarrow> nat \<Rightarrow> nat \<Rightarrow> nat \<Rightarrow> nat \<Rightarrow> pqc_alg_info" where
  "alg_row a k n pk sk ct ss sig seed =
     \<lparr>ai_alg = a, ai_kind = k, ai_name = n, ai_pk_len = pk, ai_sk_len = sk, ai_ct_len = ct,
      ai_ss_len = ss, ai_sig_len = sig, ai_seed_len = seed\<rparr>"

definition g_algs :: "pqc_alg_info list" where
  "g_algs =
     [alg_row PQC_ALG_ML_KEM_512  PQC_KIND_KEM ''ML-KEM-512''   800 1632  768 32    0 64,
      alg_row PQC_ALG_ML_KEM_768  PQC_KIND_KEM ''ML-KEM-768''  1184 2400 1088 32    0 64,
      alg_row PQC_ALG_ML_KEM_1024 PQC_KIND_KEM ''ML-KEM-1024'' 1568 3168 1568 32    0 64,
      alg_row PQC_ALG_ML_DSA_44   PQC_KIND_SIG ''ML-DSA-44''   1312 2560    0  0 2420 32,
      alg_row PQC_ALG_ML_DSA_65   PQC_KIND_SIG ''ML-DSA-65''   1952 4032    0  0 3309 32,
      alg_row PQC_ALG_ML_DSA_87   PQC_KIND_SIG ''ML-DSA-87''   2592 4896    0  0 4627 32]"

definition pqc_alg_info :: "pqc_alg \<Rightarrow> pqc_alg_info option" where
  "pqc_alg_info alg = find (\<lambda>i. ai_alg i = alg) g_algs"

definition pqc_alg_by_name :: "bytes option \<Rightarrow> pqc_alg" where
  "pqc_alg_by_name name =
     (case name of None \<Rightarrow> PQC_ALG_NONE
      | Some s \<Rightarrow>
          (case find (\<lambda>i. cstr (ai_name i) = c_string s) g_algs of
             None \<Rightarrow> PQC_ALG_NONE | Some i \<Rightarrow> ai_alg i))"

lemma pqc_alg_info_simps [simp]:
  "pqc_alg_info PQC_ALG_NONE = None"
  "pqc_alg_info (PQC_ALG_other n) = None"
  "pqc_alg_info PQC_ALG_ML_KEM_512 =
     Some (alg_row PQC_ALG_ML_KEM_512 PQC_KIND_KEM ''ML-KEM-512'' 800 1632 768 32 0 64)"
  "pqc_alg_info PQC_ALG_ML_KEM_768 =
     Some (alg_row PQC_ALG_ML_KEM_768 PQC_KIND_KEM ''ML-KEM-768'' 1184 2400 1088 32 0 64)"
  "pqc_alg_info PQC_ALG_ML_KEM_1024 =
     Some (alg_row PQC_ALG_ML_KEM_1024 PQC_KIND_KEM ''ML-KEM-1024'' 1568 3168 1568 32 0 64)"
  "pqc_alg_info PQC_ALG_ML_DSA_44 =
     Some (alg_row PQC_ALG_ML_DSA_44 PQC_KIND_SIG ''ML-DSA-44'' 1312 2560 0 0 2420 32)"
  "pqc_alg_info PQC_ALG_ML_DSA_65 =
     Some (alg_row PQC_ALG_ML_DSA_65 PQC_KIND_SIG ''ML-DSA-65'' 1952 4032 0 0 3309 32)"
  "pqc_alg_info PQC_ALG_ML_DSA_87 =
     Some (alg_row PQC_ALG_ML_DSA_87 PQC_KIND_SIG ''ML-DSA-87'' 2592 4896 0 0 4627 32)"
  by (simp_all add: pqc_alg_info_def g_algs_def alg_row_def)

lemma alg_row_simps [simp]:
  "ai_alg (alg_row a k n pk sk ct ss sig seed) = a"
  "ai_kind (alg_row a k n pk sk ct ss sig seed) = k"
  "ai_name (alg_row a k n pk sk ct ss sig seed) = n"
  "ai_pk_len (alg_row a k n pk sk ct ss sig seed) = pk"
  "ai_sk_len (alg_row a k n pk sk ct ss sig seed) = sk"
  "ai_ct_len (alg_row a k n pk sk ct ss sig seed) = ct"
  "ai_ss_len (alg_row a k n pk sk ct ss sig seed) = ss"
  "ai_sig_len (alg_row a k n pk sk ct ss sig seed) = sig"
  "ai_seed_len (alg_row a k n pk sk ct ss sig seed) = seed"
  by (simp_all add: alg_row_def)

lemma pqc_alg_info_bounds:
  assumes "pqc_alg_info a = Some i"
  shows "ai_alg i = a" "0 < ai_pk_len i" "0 < ai_sk_len i" "0 < ai_seed_len i"
    "ai_pk_len i \<le> 2592" "ai_sk_len i \<le> 4896" "ai_seed_len i \<le> 64"
    "a \<noteq> PQC_ALG_NONE"
  using assms by (cases a; auto)+

lemma alg_of_code: "pqc_alg_info a \<noteq> None \<or> a = PQC_ALG_NONE \<Longrightarrow> alg_of (alg_code a) = a"
  by (cases a) (auto simp: alg_of_def)

end
