(* ===== verification/Selftest.thy ===== *)
theory Selftest
  imports Pqc_Info
begin

text \<open>
  src/src/util/selftest.c: the five known-answer tests and the state they leave the module in.
  This theory is the view of one thread (no other thread is inside pqc\_self\_test): the state is
  the world's \<open>st_state\<close> and \<open>st_failures\<close>.
\<close>

section \<open>Expected values\<close>

definition SHA3_MSG :: bytes where
  "SHA3_MSG =
     [0x61, 0x62, 0x63]"

definition SHA3_EXP :: bytes where
  "SHA3_EXP =
     [0x3a, 0x98, 0x5d, 0xa7, 0x4f, 0xe2, 0x25, 0xb2, 0x04, 0x5c, 0x17, 0x2d,
      0x6b, 0xd3, 0x90, 0xbd, 0x85, 0x5f, 0x08, 0x6e, 0x3e, 0x9d, 0x52, 0x5b,
      0x46, 0xbf, 0xe2, 0x45, 0x11, 0x43, 0x15, 0x32]"

definition KMAC_KEY :: bytes where
  "KMAC_KEY =
     [0x40, 0x41, 0x42, 0x43, 0x44, 0x45, 0x46, 0x47, 0x48, 0x49, 0x4a, 0x4b,
      0x4c, 0x4d, 0x4e, 0x4f, 0x50, 0x51, 0x52, 0x53, 0x54, 0x55, 0x56, 0x57,
      0x58, 0x59, 0x5a, 0x5b, 0x5c, 0x5d, 0x5e, 0x5f]"

definition KMAC_DATA :: bytes where
  "KMAC_DATA =
     [0x00, 0x01, 0x02, 0x03]"

definition KMAC_EXP :: bytes where
  "KMAC_EXP =
     [0x20, 0xc5, 0x70, 0xc3, 0x13, 0x46, 0xf7, 0x03, 0xc9, 0xac, 0x36, 0xc6,
      0x1c, 0x03, 0xcb, 0x64, 0xc3, 0x97, 0x0d, 0x0c, 0xfc, 0x78, 0x7e, 0x9b,
      0x79, 0x59, 0x9d, 0x27, 0x3a, 0x68, 0xd2, 0xf7, 0xf6, 0x9d, 0x4c, 0xc3,
      0xde, 0x9d, 0x10, 0x4a, 0x35, 0x16, 0x89, 0xf2, 0x7c, 0xf6, 0xf5, 0x95,
      0x1f, 0x01, 0x03, 0xf3, 0x3f, 0x4f, 0x24, 0x87, 0x10, 0x24, 0xd9, 0xc2,
      0x77, 0x73, 0xa8, 0xdd]"

definition GCM_EXP_CT :: bytes where
  "GCM_EXP_CT =
     [0xce, 0xa7, 0x40, 0x3d, 0x4d, 0x60, 0x6b, 0x6e, 0x07, 0x4e, 0xc5, 0xd3,
      0xba, 0xf3, 0x9d, 0x18]"

definition GCM_EXP_TAG :: bytes where
  "GCM_EXP_TAG =
     [0xd0, 0xd1, 0xc8, 0xa7, 0x99, 0x99, 0x6b, 0xf0, 0x26, 0x5b, 0x98, 0xb5,
      0xd4, 0x8a, 0xb9, 0x19]"

definition KEM_SEED :: bytes where
  "KEM_SEED =
     [0xe5, 0x82, 0xb7, 0xd7, 0x5e, 0x6c, 0x80, 0xb0, 0x5a, 0xe3, 0x92, 0xa1,
      0xfc, 0x9f, 0x71, 0x53, 0xb1, 0x23, 0x90, 0xfd, 0x99, 0x93, 0x03, 0x68,
      0xcc, 0x67, 0xa7, 0x68, 0xba, 0xeb, 0xc8, 0xa0, 0x1c, 0xda, 0xcb, 0x87,
      0x40, 0xc0, 0xb8, 0x7c, 0x4a, 0x37, 0x95, 0x75, 0xf1, 0x87, 0xb3, 0x67,
      0xcb, 0xfa, 0x3b, 0x30, 0x0b, 0xf5, 0x91, 0xb1, 0x09, 0xf7, 0x98, 0x16,
      0xe9, 0xcb, 0xe8, 0xf0]"

definition KEM_EXP_DIGEST :: bytes where
  "KEM_EXP_DIGEST =
     [0xed, 0x71, 0x08, 0xe5, 0x24, 0xc6, 0xcc, 0xbd, 0xb5, 0xe4, 0xb8, 0x56,
      0x35, 0x1c, 0x64, 0x69, 0x1c, 0x33, 0xc7, 0x07, 0x8f, 0x13, 0x85, 0xb0,
      0x80, 0xb6, 0x4f, 0x45, 0x07, 0x44, 0x2d, 0x70]"

definition DSA_SEED :: bytes where
  "DSA_SEED =
     [0xa9, 0x91, 0xfd, 0x42, 0xb0, 0x71, 0xd4, 0x9c, 0x48, 0xae, 0x3e, 0x75,
      0xc6, 0x47, 0x45, 0x9e, 0x0d, 0xaa, 0xd1, 0xe1, 0xba, 0x35, 0x6a, 0x04,
      0x80, 0x19, 0x12, 0xd3, 0x29, 0x4b, 0xcf, 0xf8]"

definition DSA_EXP_DIGEST :: bytes where
  "DSA_EXP_DIGEST =
     [0x6d, 0x3c, 0x24, 0xfa, 0xbc, 0xeb, 0x65, 0x7d, 0xa3, 0x93, 0x67, 0x11,
      0xf6, 0x75, 0xc1, 0x77, 0x0b, 0xf0, 0x87, 0x1c, 0xb6, 0x23, 0x48, 0x2b,
      0x33, 0xe4, 0x63, 0xfc, 0x92, 0xfd, 0x90, 0x58]"

section \<open>The tests\<close>

definition st_sha3 :: "env \<Rightarrow> bool" where
  "st_sha3 E =
     (case sha3 E SHA3_MSG of None \<Rightarrow> False | Some out \<Rightarrow> pqc_ct_equal (Some out) (Some SHA3_EXP) 32)"

definition st_kmac :: "env \<Rightarrow> bool" where
  "st_kmac E =
     (case kmac E KMAC_KEY KMAC_DATA ''My Tagged Application'' 64 of
        None \<Rightarrow> False | Some out \<Rightarrow> pqc_ct_equal (Some out) (Some KMAC_EXP) 64)"

definition st_aes_gcm :: "env \<Rightarrow> bool" where
  "st_aes_gcm E =
     (case evp_gcm_encrypt E (replicate 32 0) (replicate 12 0) [] (replicate 16 0) of
        None \<Rightarrow> False
      | Some (ct, tag) \<Rightarrow>
          pqc_ct_equal (Some (buf_write 16 ct)) (Some GCM_EXP_CT) 16 \<and>
          pqc_ct_equal (Some (buf_write 16 tag)) (Some GCM_EXP_TAG) 16)"

definition st_keypair ::
    "env \<Rightarrow> pqc_alg \<Rightarrow> bytes \<Rightarrow> bytes \<Rightarrow> 'a world_scheme \<Rightarrow> bool \<times> 'a world_scheme" where
  "st_keypair E alg seed want w =
     (case (pqc_alg_info alg, be_keypair_from_seed (native_backend E)) of
        (Some info, Some f) \<Rightarrow>
          if length seed \<noteq> ai_seed_len info then (False, w)
          else if \<not> malloc_ok E (tick w) (ai_pk_len info + ai_sk_len info) then (False, next_tick w)
          else (let w1 = next_tick w; w2 = next_tick w1 in
                case f alg seed (tick w1) of
                  Inl _ \<Rightarrow> (False, w2)
                | Inr (pk, sk) \<Rightarrow>
                    (case sha3 E (buf_write (ai_pk_len info) pk @ buf_write (ai_sk_len info) sk) of
                       None \<Rightarrow> (False, w2)
                     | Some d \<Rightarrow> (pqc_ct_equal (Some d) (Some want) 32, w2)))
      | _ \<Rightarrow> (False, w))"

section \<open>Running them\<close>

definition run_all :: "env \<Rightarrow> 'a world_scheme \<Rightarrow> u32 \<times> 'a world_scheme" where
  "run_all E w =
     (let f1 = (if st_sha3 E then 0 else 1 :: u32);
          f2 = (if st_kmac E then 0 else 2);
          f3 = (if st_aes_gcm E then 0 else 4);
          (k, w1) = (if f1 \<noteq> 0 then (False, w)
                     else st_keypair E PQC_ALG_ML_KEM_768 KEM_SEED KEM_EXP_DIGEST w);
          f4 = (if k then 0 else 8);
          (s, w2) = (if f1 \<noteq> 0 then (False, w1)
                     else st_keypair E PQC_ALG_ML_DSA_65 DSA_SEED DSA_EXP_DIGEST w1);
          f5 = (if s then 0 else 16)
      in (f1 OR f2 OR f3 OR f4 OR f5, w2))"

definition pqc_self_test :: "env \<Rightarrow> 'a world_scheme \<Rightarrow> u32 \<times> 'a world_scheme" where
  "pqc_self_test E w =
     (case run_all E w of (fails, w1) \<Rightarrow>
        (fails, w1\<lparr>st_failures := fails,
                    st_state := (if fails = 0 then ST_PASSED else ST_FAILED)\<rparr>))"

definition pqc_self_test_passed :: "env \<Rightarrow> 'a world_scheme \<Rightarrow> bool \<times> 'a world_scheme" where
  "pqc_self_test_passed E w =
     (case st_state w of
        ST_UNTESTED \<Rightarrow> (case pqc_self_test E w of (fails, w1) \<Rightarrow> (fails = 0, w1))
      | ST_PASSED \<Rightarrow> (True, w)
      | ST_FAILED \<Rightarrow> (False, w))"

definition pqc_self_test_failures :: "'a world_scheme \<Rightarrow> u32" where
  "pqc_self_test_failures w = st_failures w"

definition pqc_self_test_force_error :: "env \<Rightarrow> bool \<Rightarrow> 'a world_scheme \<Rightarrow> 'a world_scheme" where
  "pqc_self_test_force_error E on w =
     (if on then w\<lparr>st_state := ST_FAILED, st_failures := 0x20\<rparr>
      else snd (pqc_self_test E (w\<lparr>st_state := ST_UNTESTED, st_failures := 0xFFFFFFFF\<rparr>)))"

section \<open>What the gate guarantees\<close>

text \<open>
  All five tests at once; the keypair tests start from the world they are run in.\<close>

definition kats_ok :: "env \<Rightarrow> 'a world_scheme \<Rightarrow> bool" where
  "kats_ok E w \<longleftrightarrow> st_sha3 E \<and> st_kmac E \<and> st_aes_gcm E \<and>
     (case st_keypair E PQC_ALG_ML_KEM_768 KEM_SEED KEM_EXP_DIGEST w of
        (k, w1) \<Rightarrow> k \<and> fst (st_keypair E PQC_ALG_ML_DSA_65 DSA_SEED DSA_EXP_DIGEST w1))"

lemma run_all_zero_iff: "fst (run_all E w) = 0 \<longleftrightarrow> kats_ok E w"
  by (auto simp: run_all_def kats_ok_def Let_def split: prod.splits)

text \<open>
  the self-test result is exact: no failure bit is set if and only if all five known answers
  came out, and a failed SHA3 test also fails the two key-generation tests that are judged by a
  SHA3 digest. After the run the module serves if and only if no bit is set.
\<close>

theorem self_test_exact:
  "(fst (pqc_self_test E w) = 0 \<longleftrightarrow> kats_ok E w) \<and>
   (\<not> st_sha3 E \<longrightarrow> fst (pqc_self_test E w) AND 0x19 = 0x19) \<and>
   fst (pqc_self_test_passed E (snd (pqc_self_test E w))) = (fst (pqc_self_test E w) = 0)"
proof (intro conjI)
  show "fst (pqc_self_test E w) = 0 \<longleftrightarrow> kats_ok E w"
    by (simp add: pqc_self_test_def run_all_zero_iff[symmetric] split: prod.splits)
  show "\<not> st_sha3 E \<longrightarrow> fst (pqc_self_test E w) AND 0x19 = 0x19"
    by (auto simp: pqc_self_test_def run_all_def Let_def)
  show "fst (pqc_self_test_passed E (snd (pqc_self_test E w))) = (fst (pqc_self_test E w) = 0)"
    by (simp add: pqc_self_test_def pqc_self_test_passed_def split: prod.splits)
qed

end
