(* ===== verification/Pqc.thy ===== *)
theory Pqc
  imports Selftest
begin

text \<open>
  src/src/crypto/pqc.c, second part: the dispatch to the current back end with its checks. An
  output pointer is a bool (it is not NULL), an input pointer an option with its length beside it
  where the code takes one. The calls return PQC\_OK as \<open>Inr\<close> of what the back end wrote.
\<close>

definition pqc_get_backend :: "env \<Rightarrow> pqc_backend option" where
  "pqc_get_backend E =
     (case installed_backend E of Some b \<Rightarrow> Some b | None \<Rightarrow> Some (native_backend E))"

definition has_be :: "env \<Rightarrow> (pqc_backend \<Rightarrow> 'f option) \<Rightarrow> 'f option" where
  "has_be E sel = (case pqc_get_backend E of None \<Rightarrow> None | Some be \<Rightarrow> sel be)"

definition pqc_backend_has_hw_keys_kind :: "env \<Rightarrow> u32 \<Rightarrow> bool" where
  "pqc_backend_has_hw_keys_kind E kinds =
     (case pqc_get_backend E of
        None \<Rightarrow> False
      | Some be \<Rightarrow>
          if kinds = 0 then False
          else if be_keypair_hw be = None then False
          else if kinds AND kind_mask PQC_KIND_KEM \<noteq> 0 \<and> be_decaps_hw be = None then False
          else if kinds AND kind_mask PQC_KIND_SIG \<noteq> 0 \<and> be_sign_hw be = None then False
          else if kinds AND NOT (kind_mask PQC_KIND_KEM OR kind_mask PQC_KIND_SIG) \<noteq> 0 then False
          else True)"

definition pqc_backend_has_hw_keys :: "env \<Rightarrow> bool" where
  "pqc_backend_has_hw_keys E = pqc_backend_has_hw_keys_kind E (kind_mask PQC_KIND_KEM)"

section \<open>Operations by handle\<close>

definition pqc_keypair_hw ::
    "env \<Rightarrow> pqc_alg \<Rightarrow> bool \<Rightarrow> bool \<Rightarrow> 'a world_scheme \<Rightarrow> (bytes \<times> u32) pqc_res \<times> 'a world_scheme" where
  "pqc_keypair_hw E alg pk hw_handle w =
     (if \<not> pk \<or> \<not> hw_handle then (Inl PQC_ERR_BAD_ARG, w)
      else case has_be E be_keypair_hw of
        None \<Rightarrow> (Inl PQC_ERR_UNSUPPORTED, w)
      | Some f \<Rightarrow> (f alg (tick w), next_tick w))"

definition pqc_decaps_hw ::
    "env \<Rightarrow> pqc_alg \<Rightarrow> u32 \<Rightarrow> bytes option \<Rightarrow> bool \<Rightarrow> 'a world_scheme \<Rightarrow> bytes pqc_res \<times> 'a world_scheme" where
  "pqc_decaps_hw E alg h ct ss w =
     (case ct of
        None \<Rightarrow> (Inl PQC_ERR_BAD_ARG, w)
      | Some c \<Rightarrow>
          if \<not> ss then (Inl PQC_ERR_BAD_ARG, w)
          else case has_be E be_decaps_hw of
            None \<Rightarrow> (Inl PQC_ERR_UNSUPPORTED, w)
          | Some f \<Rightarrow> (f alg h c (tick w), next_tick w))"

text \<open>The checks on a message and a context that three entry points share.\<close>

definition bad_msg_ctx :: "bytes option \<Rightarrow> nat \<Rightarrow> bytes option \<Rightarrow> nat \<Rightarrow> bool" where
  "bad_msg_ctx msg msg_len ctx ctx_len \<longleftrightarrow>
     (msg = None \<and> msg_len \<noteq> 0) \<or> (ctx = None \<and> ctx_len \<noteq> 0) \<or> ctx_len > 255"

definition pqc_sign_hw ::
    "env \<Rightarrow> pqc_alg \<Rightarrow> u32 \<Rightarrow> bytes option \<Rightarrow> nat \<Rightarrow> bytes option \<Rightarrow> nat \<Rightarrow> bytes option \<Rightarrow> nat option \<Rightarrow>
     'a world_scheme \<Rightarrow> bytes pqc_res \<times> 'a world_scheme" where
  "pqc_sign_hw E alg h msg msg_len ctx ctx_len rnd sig w =
     (case sig of
        None \<Rightarrow> (Inl PQC_ERR_BAD_ARG, w)
      | Some cap \<Rightarrow>
          if bad_msg_ctx msg msg_len ctx ctx_len then (Inl PQC_ERR_BAD_ARG, w)
          else case pqc_alg_info alg of
            None \<Rightarrow> (Inl PQC_ERR_BAD_ARG, w)
          | Some info \<Rightarrow>
              if ai_kind info \<noteq> PQC_KIND_SIG then (Inl PQC_ERR_BAD_ARG, w)
              else case has_be E be_sign_hw of
                None \<Rightarrow> (Inl PQC_ERR_UNSUPPORTED, w)
              | Some f \<Rightarrow> (f alg h (mem msg msg_len) (mem ctx ctx_len) rnd cap (tick w), next_tick w))"

section \<open>Operations on key bytes\<close>

definition pqc_keypair ::
    "env \<Rightarrow> pqc_alg \<Rightarrow> bool \<Rightarrow> bool \<Rightarrow> 'a world_scheme \<Rightarrow> (bytes \<times> bytes) pqc_res \<times> 'a world_scheme" where
  "pqc_keypair E alg pk sk w =
     (case pqc_self_test_passed E w of (ok, w1) \<Rightarrow>
      if \<not> ok then (Inl PQC_ERR_SELF_TEST, w1)
      else case pqc_alg_info alg of
        None \<Rightarrow> (Inl PQC_ERR_BAD_ARG, w1)
      | Some info \<Rightarrow>
          if \<not> pk \<or> \<not> sk then (Inl PQC_ERR_BAD_ARG, w1)
          else case has_be E be_keypair of
            None \<Rightarrow> (Inl PQC_ERR_UNSUPPORTED, w1)
          | Some f \<Rightarrow> (f alg (tick w1), next_tick w1))"

definition pqc_keypair_from_seed ::
    "env \<Rightarrow> pqc_alg \<Rightarrow> bytes option \<Rightarrow> nat \<Rightarrow> bool \<Rightarrow> bool \<Rightarrow> 'a world_scheme \<Rightarrow>
     (bytes \<times> bytes) pqc_res \<times> 'a world_scheme" where
  "pqc_keypair_from_seed E alg seed seed_len pk sk w =
     (case pqc_self_test_passed E w of (ok, w1) \<Rightarrow>
      if \<not> ok then (Inl PQC_ERR_SELF_TEST, w1)
      else case pqc_alg_info alg of
        None \<Rightarrow> (Inl PQC_ERR_BAD_ARG, w1)
      | Some info \<Rightarrow>
          if seed = None \<or> \<not> pk \<or> \<not> sk then (Inl PQC_ERR_BAD_ARG, w1)
          else if seed_len \<noteq> ai_seed_len info then (Inl PQC_ERR_BAD_ARG, w1)
          else case has_be E be_keypair_from_seed of
            None \<Rightarrow> (Inl PQC_ERR_UNSUPPORTED, w1)
          | Some f \<Rightarrow>
              (map_sum id (\<lambda>(p, s). (buf_write (ai_pk_len info) p, buf_write (ai_sk_len info) s))
                 (f alg (mem seed seed_len) (tick w1)), next_tick w1))"

text \<open>The macro PROLOGUE: the module serves, the algorithm is known and of the wanted kind, the back
  end has the method.\<close>

definition prologue ::
    "env \<Rightarrow> pqc_alg \<Rightarrow> pqc_kind \<Rightarrow> (pqc_backend \<Rightarrow> 'f option) \<Rightarrow> 'a world_scheme \<Rightarrow>
     (pqc_alg_info \<times> 'f) pqc_res \<times> 'a world_scheme" where
  "prologue E alg want_kind sel w =
     (case pqc_self_test_passed E w of (ok, w1) \<Rightarrow>
      if \<not> ok then (Inl PQC_ERR_SELF_TEST, w1)
      else case pqc_alg_info alg of
        None \<Rightarrow> (Inl PQC_ERR_BAD_ARG, w1)
      | Some info \<Rightarrow>
          if ai_kind info \<noteq> want_kind then (Inl PQC_ERR_BAD_ARG, w1)
          else case has_be E sel of
            None \<Rightarrow> (Inl PQC_ERR_UNSUPPORTED, w1)
          | Some f \<Rightarrow> (Inr (info, f), w1))"

definition pqc_encaps ::
    "env \<Rightarrow> pqc_alg \<Rightarrow> bytes option \<Rightarrow> bool \<Rightarrow> bool \<Rightarrow> 'a world_scheme \<Rightarrow>
     (bytes \<times> bytes) pqc_res \<times> 'a world_scheme" where
  "pqc_encaps E alg pk ct ss w =
     (case prologue E alg PQC_KIND_KEM be_encaps w of
        (Inl e, w1) \<Rightarrow> (Inl e, w1)
      | (Inr (info, f), w1) \<Rightarrow>
          (case pk of
             None \<Rightarrow> (Inl PQC_ERR_BAD_ARG, w1)
           | Some p \<Rightarrow>
               if \<not> ct \<or> \<not> ss then (Inl PQC_ERR_BAD_ARG, w1)
               else (f alg p (tick w1), next_tick w1)))"

definition pqc_encaps_derand ::
    "env \<Rightarrow> pqc_alg \<Rightarrow> bytes option \<Rightarrow> bytes option \<Rightarrow> nat \<Rightarrow> bool \<Rightarrow> bool \<Rightarrow> 'a world_scheme \<Rightarrow>
     (bytes \<times> bytes) pqc_res \<times> 'a world_scheme" where
  "pqc_encaps_derand E alg pk m m_len ct ss w =
     (case prologue E alg PQC_KIND_KEM be_encaps_derand w of
        (Inl e, w1) \<Rightarrow> (Inl e, w1)
      | (Inr (info, f), w1) \<Rightarrow>
          (case (pk, m) of
             (Some p, Some r) \<Rightarrow>
               if \<not> ct \<or> \<not> ss \<or> m_len \<noteq> 32 then (Inl PQC_ERR_BAD_ARG, w1)
               else (f alg p (take m_len r) (tick w1), next_tick w1)
           | _ \<Rightarrow> (Inl PQC_ERR_BAD_ARG, w1)))"

definition pqc_decaps ::
    "env \<Rightarrow> pqc_alg \<Rightarrow> bytes option \<Rightarrow> bytes option \<Rightarrow> bool \<Rightarrow> 'a world_scheme \<Rightarrow>
     bytes pqc_res \<times> 'a world_scheme" where
  "pqc_decaps E alg sk ct ss w =
     (case prologue E alg PQC_KIND_KEM be_decaps w of
        (Inl e, w1) \<Rightarrow> (Inl e, w1)
      | (Inr (info, f), w1) \<Rightarrow>
          (case (sk, ct) of
             (Some k, Some c) \<Rightarrow>
               if \<not> ss then (Inl PQC_ERR_BAD_ARG, w1)
               else (f alg k c (tick w1), next_tick w1)
           | _ \<Rightarrow> (Inl PQC_ERR_BAD_ARG, w1)))"

definition pqc_sign ::
    "env \<Rightarrow> pqc_alg \<Rightarrow> bytes option \<Rightarrow> bytes option \<Rightarrow> nat \<Rightarrow> bytes option \<Rightarrow> nat \<Rightarrow> bytes option \<Rightarrow>
     nat option \<Rightarrow> 'a world_scheme \<Rightarrow> bytes pqc_res \<times> 'a world_scheme" where
  "pqc_sign E alg sk msg msg_len ctx ctx_len rnd sig w =
     (case prologue E alg PQC_KIND_SIG be_sign w of
        (Inl e, w1) \<Rightarrow> (Inl e, w1)
      | (Inr (info, f), w1) \<Rightarrow>
          (case (sk, sig) of
             (Some k, Some cap) \<Rightarrow>
               if bad_msg_ctx msg msg_len ctx ctx_len then (Inl PQC_ERR_BAD_ARG, w1)
               else (f alg k (mem msg msg_len) (mem ctx ctx_len) rnd cap (tick w1), next_tick w1)
           | _ \<Rightarrow> (Inl PQC_ERR_BAD_ARG, w1)))"

definition pqc_verify ::
    "env \<Rightarrow> pqc_alg \<Rightarrow> bytes option \<Rightarrow> bytes option \<Rightarrow> nat \<Rightarrow> bytes option \<Rightarrow> nat \<Rightarrow> bytes option \<Rightarrow> nat \<Rightarrow>
     'a world_scheme \<Rightarrow> unit pqc_res \<times> 'a world_scheme" where
  "pqc_verify E alg pk msg msg_len ctx ctx_len sig sig_len w =
     (case prologue E alg PQC_KIND_SIG be_verify w of
        (Inl e, w1) \<Rightarrow> (Inl e, w1)
      | (Inr (info, f), w1) \<Rightarrow>
          (case (pk, sig) of
             (Some p, Some s) \<Rightarrow>
               if bad_msg_ctx msg msg_len ctx ctx_len then (Inl PQC_ERR_BAD_ARG, w1)
               else (f alg p (mem msg msg_len) (mem ctx ctx_len) (take sig_len s) (tick w1), next_tick w1)
           | _ \<Rightarrow> (Inl PQC_ERR_BAD_ARG, w1)))"

section \<open>The gate\<close>

text \<open>An operation that only moves the counter and the self-test state.\<close>

definition only_core :: "'a world_scheme \<Rightarrow> 'a world_scheme \<Rightarrow> bool" where
  "only_core w w' \<longleftrightarrow>
     w' = w\<lparr>tick := tick w', st_state := st_state w', st_failures := st_failures w'\<rparr>"

lemma only_core_refl [simp, frame_simps]: "only_core w w"
  by (simp add: only_core_def)

lemma only_core_trans: "only_core w w1 \<Longrightarrow> only_core w1 w2 \<Longrightarrow> only_core w w2"
  unfolding only_core_def by (cases w, cases w1, cases w2) simp

lemma only_core_next_tick [simp, frame_simps]: "only_core w (next_tick w)"
  by (simp add: only_core_def next_tick_def)

lemma only_core_tick [simp, frame_simps]: "only_core w (w\<lparr>tick := t\<rparr>)"
  by (simp add: only_core_def)

lemma only_core_more: "only_core w w' \<Longrightarrow> world.more w' = world.more w"
  unfolding only_core_def by (cases w, cases w') simp

lemma only_core_files: "only_core w w' \<Longrightarrow> files w' = files w"
  unfolding only_core_def by (cases w, cases w') simp

lemma only_core_st: "only_core w (w\<lparr>st_failures := f, st_state := s\<rparr>)"
  by (simp add: only_core_def)

text \<open>
  Calls that go through PROLOGUE, or check the same things by hand, are refused in the error state
  before the back end is asked.
\<close>

lemma passed_failed_state:
  "st_state w = ST_FAILED \<Longrightarrow> pqc_self_test_passed E w = (False, w)"
  by (simp add: pqc_self_test_passed_def)

text \<open>
  in the error state every operation on key bytes answers PQC\_ERR\_SELF\_TEST and the back end is
  not called (the call counter does not move), whatever the arguments.
\<close>

theorem error_state_blocks:
  assumes "st_state w = ST_FAILED"
  shows "pqc_keypair E a p s w = (Inl PQC_ERR_SELF_TEST, w) \<and>
         pqc_keypair_from_seed E a sd sl p s w = (Inl PQC_ERR_SELF_TEST, w) \<and>
         pqc_encaps E a pk p s w = (Inl PQC_ERR_SELF_TEST, w) \<and>
         pqc_encaps_derand E a pk m ml p s w = (Inl PQC_ERR_SELF_TEST, w) \<and>
         pqc_decaps E a k c s w = (Inl PQC_ERR_SELF_TEST, w) \<and>
         pqc_sign E a k m ml c cl r cap w = (Inl PQC_ERR_SELF_TEST, w) \<and>
         pqc_verify E a pk m ml c cl sg sgl w = (Inl PQC_ERR_SELF_TEST, w)"
  using passed_failed_state[OF assms, of E]
  by (simp_all add: pqc_keypair_def pqc_keypair_from_seed_def pqc_encaps_def
      pqc_encaps_derand_def pqc_decaps_def pqc_sign_def pqc_verify_def prologue_def)

text \<open>
  the operations by handle do not look at the self-test at all: in the error state a back end
  with handle operations is still asked to make a key, to decapsulate and to sign, and its answer
  is passed on.
\<close>

theorem error_state_hw_not_blocked:
  assumes "st_state w = ST_FAILED"
    and "has_be E be_keypair_hw = Some fk" "has_be E be_decaps_hw = Some fd"
    and "has_be E be_sign_hw = Some fs"
    and "pqc_alg_info a = Some i" "ai_kind i = PQC_KIND_SIG"
    and "\<not> bad_msg_ctx m ml c cl"
  shows "pqc_keypair_hw E a True True w = (fk a (tick w), next_tick w) \<and>
         pqc_decaps_hw E a h (Some ct) True w = (fd a h ct (tick w), next_tick w) \<and>
         pqc_sign_hw E a h m ml c cl r (Some cap) w =
           (fs a h (mem m ml) (mem c cl) r cap (tick w), next_tick w)"
  using assms by (simp add: pqc_keypair_hw_def pqc_decaps_hw_def pqc_sign_hw_def)

end
