(* ===== verification/Meta.thy ===== *)
theory Meta
  imports Fsm Pqc
begin

text \<open>
  src/src/slot/meta.c: the 92-byte wire format of a slot's metadata and the KMAC tag over it, with a
  key derived from the device root per slot number.
\<close>

section \<open>The record and its wire format\<close>

definition SLOT_LABEL_MAX :: nat where "SLOT_LABEL_MAX = 32"
definition SLOT_META_VERSION :: u32 where "SLOT_META_VERSION = 1"
definition SLOT_META_WIRE_LEN :: nat where "SLOT_META_WIRE_LEN = 92"
definition SLOT_META_TAG_LEN :: nat where "SLOT_META_TAG_LEN = 32"

record slot_meta =
  m_version :: u32
  m_slot_id :: u32
  m_label :: bytes
  m_alg :: pqc_alg
  m_usage :: u32
  m_policy :: u32
  m_state :: slot_state
  m_use_count :: u64
  m_so_pin_fails :: u32
  m_user_pin_fails :: u32
  m_created_at :: u64
  m_last_used_at :: u64
  m_generation :: u32

definition slot_meta_wire :: "slot_meta \<Rightarrow> bytes" where
  "slot_meta_wire m =
     put_u32 (m_version m) @ put_u32 (m_slot_id m) @ m_label m @ put_u32 (alg_code (m_alg m)) @
     put_u32 (m_usage m) @ put_u32 (m_policy m) @ put_u32 (state_code (m_state m)) @
     put_u64 (m_use_count m) @ put_u32 (m_so_pin_fails m) @ put_u32 (m_user_pin_fails m) @
     put_u64 (m_created_at m) @ put_u64 (m_last_used_at m) @ put_u32 (m_generation m)"

definition slot_meta_serialize :: "slot_meta \<Rightarrow> nat \<Rightarrow> bytes option" where
  "slot_meta_serialize m cap =
     (if cap < SLOT_META_WIRE_LEN then None else Some (slot_meta_wire m))"

definition slot_meta_deserialize :: "bytes \<Rightarrow> nat \<Rightarrow> slot_meta option" where
  "slot_meta_deserialize inp len =
     (if len < SLOT_META_WIRE_LEN then None
      else let alg = alg_of (get_u32 (drop 40 inp)) in
        case state_of (get_u32 (drop 52 inp)) of
          None \<Rightarrow> None
        | Some st \<Rightarrow>
            if alg \<noteq> PQC_ALG_NONE \<and> pqc_alg_info alg = None then None
            else Some
              \<lparr>m_version = get_u32 inp,
               m_slot_id = get_u32 (drop 4 inp),
               m_label = (take SLOT_LABEL_MAX (drop 8 inp))[SLOT_LABEL_MAX - 1 := 0],
               m_alg = alg,
               m_usage = get_u32 (drop 44 inp),
               m_policy = get_u32 (drop 48 inp),
               m_state = st,
               m_use_count = get_u64 (drop 56 inp),
               m_so_pin_fails = get_u32 (drop 64 inp),
               m_user_pin_fails = get_u32 (drop 68 inp),
               m_created_at = get_u64 (drop 72 inp),
               m_last_used_at = get_u64 (drop 80 inp),
               m_generation = get_u32 (drop 88 inp)\<rparr>)"

text \<open>A metadata record as the program builds them.\<close>

definition wf_meta :: "slot_meta \<Rightarrow> bool" where
  "wf_meta m \<longleftrightarrow> length (m_label m) = SLOT_LABEL_MAX \<and> m_label m ! (SLOT_LABEL_MAX - 1) = 0 \<and>
     m_state m \<noteq> SLOT_ST_INVALID \<and>
     (m_alg m = PQC_ALG_NONE \<or> pqc_alg_info (m_alg m) \<noteq> None)"

lemma length_slot_meta_wire:
  "length (m_label m) = SLOT_LABEL_MAX \<Longrightarrow> length (slot_meta_wire m) = SLOT_META_WIRE_LEN"
  by (simp add: slot_meta_wire_def SLOT_LABEL_MAX_def SLOT_META_WIRE_LEN_def)

lemma wf_meta_alg: "wf_meta m \<Longrightarrow> alg_of (alg_code (m_alg m)) = m_alg m"
  by (rule alg_of_code) (auto simp: wf_meta_def)

text \<open>The parts of the wire image, by offset.\<close>

lemma drop_wire:
  assumes "length (m_label m) = SLOT_LABEL_MAX"
  shows "take 4 (slot_meta_wire m @ r) = put_u32 (m_version m)"
    "take 4 (drop 4 (slot_meta_wire m @ r)) = put_u32 (m_slot_id m)"
    "take 32 (drop 8 (slot_meta_wire m @ r)) = m_label m"
    "take 4 (drop 40 (slot_meta_wire m @ r)) = put_u32 (alg_code (m_alg m))"
    "take 4 (drop 44 (slot_meta_wire m @ r)) = put_u32 (m_usage m)"
    "take 4 (drop 48 (slot_meta_wire m @ r)) = put_u32 (m_policy m)"
    "take 4 (drop 52 (slot_meta_wire m @ r)) = put_u32 (state_code (m_state m))"
    "take 8 (drop 56 (slot_meta_wire m @ r)) = put_u64 (m_use_count m)"
    "take 4 (drop 64 (slot_meta_wire m @ r)) = put_u32 (m_so_pin_fails m)"
    "take 4 (drop 68 (slot_meta_wire m @ r)) = put_u32 (m_user_pin_fails m)"
    "take 8 (drop 72 (slot_meta_wire m @ r)) = put_u64 (m_created_at m)"
    "take 8 (drop 80 (slot_meta_wire m @ r)) = put_u64 (m_last_used_at m)"
    "take 4 (drop 88 (slot_meta_wire m @ r)) = put_u32 (m_generation m)"
  using assms by (simp_all add: slot_meta_wire_def SLOT_LABEL_MAX_def)

lemma meta_roundtrip_append:
  assumes "wf_meta m" "SLOT_META_WIRE_LEN \<le> len"
  shows "slot_meta_deserialize (slot_meta_wire m @ r) len = Some m"
proof -
  have lab: "length (m_label m) = SLOT_LABEL_MAX" using assms by (simp add: wf_meta_def)
  define b where "b = slot_meta_wire m @ r"
  note d = drop_wire[OF lab, of r, folded b_def SLOT_LABEL_MAX_def]
  have "(m_label m)[SLOT_LABEL_MAX - 1 := 0] = m_label m"
    using assms(1) by (metis list_update_id wf_meta_def)
  then have "slot_meta_deserialize b len = Some m"
    using assms
    by (auto simp: slot_meta_deserialize_def d le_get_le_bytes wf_meta_alg wf_meta_def)
  then show ?thesis by (simp add: b_def)
qed

text \<open>The wire format is a codec: it reads back, so it is injective and prefix-free.\<close>

definition read_meta :: "bytes \<Rightarrow> (slot_meta \<times> bytes) option" where
  "read_meta bs =
     map_option (\<lambda>m. (m, drop SLOT_META_WIRE_LEN bs)) (slot_meta_deserialize bs (length bs))"

interpretation mw: codec slot_meta_wire read_meta wf_meta
proof
  fix m rest
  assume "wf_meta m"
  moreover from this have "length (slot_meta_wire m) = SLOT_META_WIRE_LEN"
    by (simp add: wf_meta_def length_slot_meta_wire)
  ultimately show "read_meta (slot_meta_wire m @ rest) = Some (m, rest)"
    by (simp add: read_meta_def meta_roundtrip_append)
qed

text \<open>What deserialization accepts is well-formed, and numbers outside the enums are refused.\<close>

lemma deserialize_wf:
  assumes "slot_meta_deserialize inp len = Some m" "SLOT_META_WIRE_LEN \<le> length inp"
  shows "wf_meta m"
  using assms
  by (auto simp: slot_meta_deserialize_def wf_meta_def Let_def SLOT_LABEL_MAX_def
      SLOT_META_WIRE_LEN_def split: option.splits if_splits dest: state_code_of)

text \<open>
  the metadata wire format is exact. A well-formed record takes 92 bytes and reads back as
  itself; a buffer that reads as a record is, up to the forced terminator of the label, the image
  of that record, so every other byte string of that length is refused.
\<close>

theorem meta_wire_exact:
  assumes "wf_meta m" "length inp = SLOT_META_WIRE_LEN" "inp ! 39 = 0"
  shows "slot_meta_deserialize inp SLOT_META_WIRE_LEN = Some m \<longleftrightarrow>
         slot_meta_serialize m SLOT_META_WIRE_LEN = Some inp"
proof
  assume "slot_meta_serialize m SLOT_META_WIRE_LEN = Some inp"
  then show "slot_meta_deserialize inp SLOT_META_WIRE_LEN = Some m"
    using meta_roundtrip_append[OF assms(1) order_refl, of "[]"]
    by (simp add: slot_meta_serialize_def)
next
  assume de: "slot_meta_deserialize inp SLOT_META_WIRE_LEN = Some m"
  have len: "length inp = 92" using assms(2) by (simp add: SLOT_META_WIRE_LEN_def)
  have fld: "put_u32 (get_u32 (drop k inp)) = take 4 (drop k inp)" if "k + 4 \<le> 92" for k
    using that len by (simp add: le_bytes_le_get)
  have fld8: "put_u64 (get_u64 (drop k inp)) = take 8 (drop k inp)" if "k + 8 \<le> 92" for k
    using that len by (simp add: le_bytes_le_get)
  have lab: "(take 32 (drop 8 inp))[31 := 0] = take 32 (drop 8 inp)"
    using len assms(3) by (intro nth_equalityI) (auto simp: nth_list_update)
  have st: "put_u32 (state_code (m_state m)) = take 4 (drop 52 inp)"
    using de fld[of 52]
    by (auto simp: slot_meta_deserialize_def Let_def split: option.splits if_splits dest: state_code_of)
  have "m_alg m = alg_of (get_u32 (drop 40 inp))"
    using de by (auto simp: slot_meta_deserialize_def Let_def split: option.splits if_splits)
  then have al: "put_u32 (alg_code (m_alg m)) = take 4 (drop 40 inp)" using fld[of 40] by simp
  have "slot_meta_wire m =
      take 4 inp @ take 4 (drop 4 inp) @ take 32 (drop 8 inp) @ take 4 (drop 40 inp) @
      take 4 (drop 44 inp) @ take 4 (drop 48 inp) @ take 4 (drop 52 inp) @ take 8 (drop 56 inp) @
      take 4 (drop 64 inp) @ take 4 (drop 68 inp) @ take 8 (drop 72 inp) @ take 8 (drop 80 inp) @
      take 4 (drop 88 inp)"
    using de fld[of 0] fld[of 4] al fld[of 44] fld[of 48] fld8[of 56] fld[of 64] fld[of 68]
      fld8[of 72] fld8[of 80] fld[of 88] st lab
    unfolding slot_meta_wire_def
    by (auto simp: slot_meta_deserialize_def Let_def SLOT_LABEL_MAX_def
        split: option.splits if_splits)
  also have "\<dots> = inp"
  proof -
    have step: "take k (drop n inp) @ drop (k + n) inp = drop n inp" for k n
      by (metis append_take_drop_id drop_drop)
    have "inp = take 4 inp @ drop 4 inp" by simp
    then show ?thesis
      using step[of 4 4] step[of 32 8] step[of 4 40] step[of 4 44] step[of 4 48] step[of 4 52]
        step[of 8 56] step[of 4 64] step[of 4 68] step[of 8 72] step[of 8 80] step[of 4 88] len
      by simp
  qed
  finally show "slot_meta_serialize m SLOT_META_WIRE_LEN = Some inp"
    by (simp add: slot_meta_serialize_def)
qed

section \<open>The integrity tag\<close>

definition derive_meta_key :: "env \<Rightarrow> u32 \<Rightarrow> bytes option" where
  "derive_meta_key E slot_id = pqc_kdr_derive E ''pqc-hsm/slot-meta-key'' (put_u32 slot_id) 32"

definition slot_meta_seal :: "env \<Rightarrow> slot_meta \<Rightarrow> bytes option" where
  "slot_meta_seal E m =
     (case slot_meta_serialize m SLOT_META_WIRE_LEN of
        None \<Rightarrow> None
      | Some wire \<Rightarrow>
          (case derive_meta_key E (m_slot_id m) of
             None \<Rightarrow> None
           | Some key \<Rightarrow> kmac E key wire ''pqc-hsm/slot-meta'' SLOT_META_TAG_LEN))"

definition slot_meta_verify :: "env \<Rightarrow> slot_meta \<Rightarrow> bytes \<Rightarrow> bool" where
  "slot_meta_verify E m tag =
     (case slot_meta_seal E m of
        None \<Rightarrow> False
      | Some want \<Rightarrow> pqc_ct_equal (Some want) (Some tag) SLOT_META_TAG_LEN)"

lemma slot_meta_seal_length: "slot_meta_seal E m = Some t \<Longrightarrow> length t = SLOT_META_TAG_LEN"
  by (auto simp: slot_meta_seal_def pqc_kmac256_length split: option.splits)

lemma slot_meta_verify_iff:
  "length tag = SLOT_META_TAG_LEN \<Longrightarrow> slot_meta_verify E m tag \<longleftrightarrow> slot_meta_seal E m = Some tag"
  by (auto simp: slot_meta_verify_def pqc_ct_equal_iff slot_meta_seal_length split: option.splits)

text \<open>
  Two different MAC inputs, a key and a message each, with the same tag.\<close>

definition kmac_collision :: "env \<Rightarrow> string \<Rightarrow> nat \<Rightarrow> bytes \<times> bytes \<Rightarrow> bytes \<times> bytes \<Rightarrow> bool" where
  "kmac_collision E custom n x y \<longleftrightarrow> x \<noteq> y \<and>
     kmac E (fst x) (snd x) custom n \<noteq> None \<and>
     kmac E (fst x) (snd x) custom n = kmac E (fst y) (snd y) custom n"

definition meta_mac_input :: "env \<Rightarrow> slot_meta \<Rightarrow> bytes \<times> bytes" where
  "meta_mac_input E m =
     (case derive_meta_key E (m_slot_id m) of None \<Rightarrow> [] | Some k \<Rightarrow> k, slot_meta_wire m)"

lemma seal_binds:
  assumes "wf_meta m" "wf_meta m'" "slot_meta_seal E m = Some tag" "slot_meta_seal E m' = Some tag" "m' \<noteq> m"
  shows "kmac_collision E ''pqc-hsm/slot-meta'' SLOT_META_TAG_LEN (meta_mac_input E m) (meta_mac_input E m')"
proof -
  have "slot_meta_wire m' \<noteq> slot_meta_wire m" using assms by (auto dest: mw.enc_inj)
  then show ?thesis
    using assms(3,4)
    by (auto simp: slot_meta_seal_def slot_meta_serialize_def kmac_collision_def meta_mac_input_def
        split: option.splits if_splits)
qed

text \<open>
  the tag binds the whole record to its slot. A tag that was sealed over one record verifies
  for that record, and verifies for a different one (another state, another failure counter, the
  record of another slot) only if KMAC-256 gives the two records' own inputs the same tag.
\<close>

theorem meta_tag_binds:
  assumes "wf_meta m" "wf_meta m'" "slot_meta_seal E m = Some tag"
  shows "slot_meta_verify E m tag \<and>
     (slot_meta_verify E m' tag \<and> m' \<noteq> m \<longrightarrow>
        kmac_collision E ''pqc-hsm/slot-meta'' SLOT_META_TAG_LEN (meta_mac_input E m) (meta_mac_input E m'))"
  using assms seal_binds[OF assms]
  by (auto simp: slot_meta_verify_iff slot_meta_seal_length)

end
