(* ===== verification/Files.thy ===== *)
theory Files
  imports Util
begin

text \<open>
  The file operations the stores are written with. A descriptor is named by the path it was opened
  on (no component renames or unlinks a file it holds open). The environment decides for every
  system call whether it fails and, for a transfer, how many bytes are moved: \<open>io E t n\<close> is None for
  an error of the call number \<open>t\<close> and otherwise the number of bytes of a transfer of \<open>n\<close>. The
  loops io\_pwrite and io\_pread of src/src/audit/audit.c are here, with every short transfer.
\<close>

definition file_of :: "'a world_scheme \<Rightarrow> bytes \<Rightarrow> bytes" where
  "file_of w path = (case files w path of None \<Rightarrow> [] | Some f \<Rightarrow> f)"

definition set_file :: "bytes \<Rightarrow> bytes option \<Rightarrow> 'a world_scheme \<Rightarrow> 'a world_scheme" where
  "set_file path f w = w\<lparr>files := (files w)(path := f)\<rparr>"

definition sys_ok :: "env \<Rightarrow> 'a world_scheme \<Rightarrow> bool \<times> 'a world_scheme" where
  "sys_ok E w = (io E (tick w) 0 \<noteq> None, next_tick w)"

text \<open>Overwriting \<open>bs\<close> at an offset; a gap is filled with zeros.\<close>

definition write_at :: "nat \<Rightarrow> bytes \<Rightarrow> bytes \<Rightarrow> bytes" where
  "write_at off bs f =
     take off (f @ replicate (off - length f) 0) @ bs @ drop (off + length bs) f"

function io_pwrite :: "env \<Rightarrow> bytes \<Rightarrow> bytes \<Rightarrow> nat \<Rightarrow> 'a world_scheme \<Rightarrow> bool \<times> 'a world_scheme" where
  "io_pwrite E path buf off w =
     (if buf = [] then (True, w)
      else case io E (tick w) (length buf) of
        None \<Rightarrow> (False, next_tick w)
      | Some k \<Rightarrow>
          let n = min k (length buf) in
          if n = 0 then (False, next_tick w)
          else io_pwrite E path (drop n buf) (off + n)
                 (set_file path (Some (write_at off (take n buf) (file_of w path))) (next_tick w)))"
  by pat_completeness auto

termination io_pwrite
  by (relation "measure (\<lambda>(E, path, buf, off, w). length buf)") auto

function io_pread :: "env \<Rightarrow> bytes \<Rightarrow> nat \<Rightarrow> nat \<Rightarrow> 'a world_scheme \<Rightarrow> bytes option \<times> 'a world_scheme" where
  "io_pread E path n off w =
     (if n = 0 then (Some [], w)
      else case io E (tick w) n of
        None \<Rightarrow> (None, next_tick w)
      | Some k \<Rightarrow>
          let m = min (min k n) (length (file_of w path) - off) in
          if m = 0 then (None, next_tick w)
          else (case io_pread E path (n - m) (off + m) (next_tick w) of
                  (None, w2) \<Rightarrow> (None, w2)
                | (Some rest, w2) \<Rightarrow> (Some (slice off m (file_of w path) @ rest), w2)))"
  by pat_completeness auto

termination io_pread
  by (relation "measure (\<lambda>(E, path, n, off, w). n)") auto

declare io_pwrite.simps [simp del] io_pread.simps [simp del]

text \<open>One call of write: a short transfer is not continued.\<close>

definition write_once ::
    "env \<Rightarrow> bytes \<Rightarrow> bytes \<Rightarrow> nat \<Rightarrow> 'a world_scheme \<Rightarrow> bool \<times> 'a world_scheme" where
  "write_once E path buf off w =
     (case io E (tick w) (length buf) of
        None \<Rightarrow> (False, next_tick w)
      | Some k \<Rightarrow>
          let n = min k (length buf) in
          (n = length buf,
           set_file path (Some (write_at off (take n buf) (file_of w path))) (next_tick w)))"

section \<open>Frames and results\<close>

lemma file_of_next_tick [simp, frame_simps]: "file_of (next_tick w) p = file_of w p"
  by (simp add: file_of_def next_tick_def)

lemma files_next_tick [simp, frame_simps]: "files (next_tick w) = files w"
  by (simp add: next_tick_def)

lemma file_of_set_file [simp]: "file_of (set_file p f w) q =
   (if q = p then (case f of None \<Rightarrow> [] | Some x \<Rightarrow> x) else file_of w q)"
  by (simp add: file_of_def set_file_def)

lemma files_set_file [simp]: "files (set_file p f w) = (files w)(p := f)"
  by (simp add: set_file_def)

lemma tick_set_file [simp]: "tick (set_file p f w) = tick w"
  by (simp add: set_file_def)

lemma more_set_file [simp]: "world.more (set_file p f w) = world.more w"
  by (simp add: set_file_def)

lemma write_once_result:
  assumes "write_once E p b off w = (ok, w')"
  shows "(ok \<longrightarrow> files w' p = Some (write_at off b (file_of w p))) \<and> world.more w' = world.more w \<and>
    (\<forall>q. q \<noteq> p \<longrightarrow> files w' q = files w q)"
  using assms by (auto simp: write_once_def Let_def next_tick_def split: option.splits)

lemma length_write_at: "length (write_at off bs f) = max (off + length bs) (length f)"
  by (simp add: write_at_def)

lemma nth_write_at:
  "i < max (off + length bs) (length f) \<Longrightarrow> write_at off bs f ! i =
     (if i < off then (if i < length f then f ! i else 0)
      else if i < off + length bs then bs ! (i - off) else f ! i)"
  by (auto simp: write_at_def nth_append min_def not_less)

lemma write_at_empty: "off \<le> length f \<Longrightarrow> write_at off [] f = f"
  by (simp add: write_at_def)

lemma write_at_append:
  "write_at (off + length a) b (write_at off a f) = write_at off (a @ b) f"
  by (cases "off \<le> length f") (simp_all add: write_at_def ac_simps)

text \<open>
  A write either completes, and then the file is the old one overwritten with the whole buffer, or
  fails having overwritten it with a prefix; no other file changes.
\<close>

lemma io_pwrite_result:
  assumes "io_pwrite E path buf off w = (ok, w')"
  shows "\<exists>n t. n \<le> length buf \<and> (ok \<longrightarrow> n = length buf) \<and> tick w \<le> t \<and>
     w' = (if n = 0 then w\<lparr>tick := t\<rparr>
           else w\<lparr>tick := t, files := (files w)(path \<mapsto> write_at off (take n buf) (file_of w path))\<rparr>)"
  using assms
proof (induction E path buf off w rule: io_pwrite.induct)
  case (1 E path buf off w)
  show ?case
  proof (cases "buf = []")
    case True
    then show ?thesis using "1.prems"
      by (intro exI[of _ 0] exI[of _ "tick w"]) (auto simp: io_pwrite.simps)
  next
    case False
    have fails: ?thesis if "ok = False" "w' = next_tick w"
      using that by (intro exI[of _ 0] exI[of _ "Suc (tick w)"]) (simp add: next_tick_def)
    show ?thesis
    proof (cases "io E (tick w) (length buf)")
      case None
      then show ?thesis using "1.prems" False fails by (simp add: io_pwrite.simps[of E path buf])
    next
      case (Some k)
      define n where "n = min k (length buf)"
      show ?thesis
      proof (cases "n = 0")
        case True
        then show ?thesis using "1.prems" False Some fails
          by (simp add: io_pwrite.simps[of E path buf] n_def Let_def)
      next
        case n0: False
        define f where "f = file_of w path"
        define w1 where "w1 = set_file path (Some (write_at off (take n buf) f)) (next_tick w)"
        have rec: "io_pwrite E path (drop n buf) (off + n) w1 = (ok, w')"
          using "1.prems" False Some n0[unfolded n_def]
          by (simp only: io_pwrite.simps[of E path buf] n_def Let_def w1_def f_def if_False
              option.case)
        obtain m t where m: "m \<le> length (drop n buf)" "ok \<longrightarrow> m = length (drop n buf)"
          "tick w1 \<le> t"
          "w' = (if m = 0 then w1\<lparr>tick := t\<rparr> else w1\<lparr>tick := t, files :=
             (files w1)(path \<mapsto> write_at (off + n) (take m (drop n buf)) (file_of w1 path))\<rparr>)"
          using "1.IH"[OF False Some n_def n0] rec unfolding w1_def f_def by blast
        have nle: "n \<le> length buf" by (simp add: n_def)
        then have len: "length (take n buf) = n" by simp
        have app: "write_at (off + n) (take m (drop n buf)) (write_at off (take n buf) f)
            = write_at off (take (n + m) buf) f"
          using write_at_append[of off "take n buf" "take m (drop n buf)" f, unfolded len]
          by (simp add: take_add)
        have w1: "w1 = w\<lparr>tick := Suc (tick w),
            files := (files w)(path \<mapsto> write_at off (take n buf) f)\<rparr>" "file_of w1 path =
            write_at off (take n buf) f"
          by (simp_all add: w1_def set_file_def next_tick_def file_of_def)
        have "w' = w\<lparr>tick := t, files := (files w)(path \<mapsto> write_at off (take (n + m) buf) f)\<rparr>"
          using m(4)[unfolded w1(2) app] by (cases "m = 0") (simp_all add: w1(1))
        then show ?thesis
          using m(1,2,3) n0 w1(1) nle
          by (rule_tac exI[of _ "n + m"], rule_tac exI[of _ t]) (auto simp: f_def)
      qed
    qed
  qed
qed

lemma io_pwrite_ok:
  assumes "io_pwrite E path buf off w = (True, w')" "buf \<noteq> []"
  shows "\<exists>t. w' = w\<lparr>tick := t, files := (files w)(path \<mapsto> write_at off buf (file_of w path))\<rparr>"
  using io_pwrite_result[OF assms(1)] assms(2) by auto

text \<open>A read changes nothing but the counter, and what it returns is what the file holds.\<close>

lemma io_pread_result:
  assumes "io_pread E path n off w = (r, w')"
  shows "(\<exists>t. w' = w\<lparr>tick := t\<rparr>) \<and>
     (case r of None \<Rightarrow> True
      | Some bs \<Rightarrow> bs = slice off n (file_of w path) \<and> length bs = n)"
  using assms
proof (induction E path n off w arbitrary: r w' rule: io_pread.induct)
  case (1 E path n off w)
  have refl: "\<exists>t. w = w\<lparr>tick := t\<rparr>" by (rule exI[of _ "tick w"]) simp
  have nxt: "\<exists>t. next_tick w = w\<lparr>tick := t\<rparr>" by (auto simp: next_tick_def)
  show ?case
  proof (cases "n = 0")
    case True
    then show ?thesis using "1.prems" refl by (auto simp: io_pread.simps slice_def)
  next
    case False
    show ?thesis
    proof (cases "io E (tick w) n")
      case None
      then show ?thesis using "1.prems" False nxt by (auto simp: io_pread.simps[of E path n])
    next
      case (Some k)
      define m where "m = min (min k n) (length (file_of w path) - off)"
      show ?thesis
      proof (cases "m = 0")
        case True
        then show ?thesis using "1.prems" False Some nxt
          by (auto simp: io_pread.simps[of E path n] m_def Let_def)
      next
        case m0: False
        obtain r1 w1 where rec: "io_pread E path (n - m) (off + m) (next_tick w) = (r1, w1)"
          by fastforce
        have IH: "(\<exists>t. w1 = (next_tick w)\<lparr>tick := t\<rparr>) \<and>
           (case r1 of None \<Rightarrow> True
            | Some bs \<Rightarrow> bs = slice (off + m) (n - m) (file_of w path) \<and> length bs = n - m)"
          using "1.IH"[OF False Some m_def m0 rec] by (auto split: option.splits)
        then obtain t where t: "w1 = w\<lparr>tick := t\<rparr>" by (auto simp: next_tick_def)
        have mn: "m \<le> n" "off + m \<le> length (file_of w path)" using m0 by (auto simp: m_def)
        have eq: "(r, w') = (case r1 of None \<Rightarrow> (None, w1)
            | Some rest \<Rightarrow> (Some (slice off m (file_of w path) @ rest), w1))"
          using "1.prems" False Some m0[unfolded m_def] rec[unfolded m_def]
          by (simp only: io_pread.simps[of E path n] m_def Let_def if_False option.case)
             (auto split: option.splits)
        have split: "slice off m f @ slice (off + m) (n - m) f = slice off n f" for f :: bytes
          using mn(1) take_add[of m "n - m" "drop off f"] by (simp add: slice_def add.commute)
        have "length (slice off n (file_of w path)) =
            length (slice off m (file_of w path)) + length (slice (off + m) (n - m) (file_of w path))"
          by (metis split length_append)
        moreover have "length (slice (off + m) (n - m) (file_of w path)) = n - m" if "r1 = Some x" for x
          using conjunct2[OF IH] that by auto
        ultimately have "length (slice off n (file_of w path)) = n" if "r1 = Some x" for x
          using mn that by simp
        then show ?thesis using eq conjunct2[OF IH] t split by (auto split: option.splits)
      qed
    qed
  qed
qed

lemma io_pread_frame: "io_pread E path n off w = (r, w') \<Longrightarrow> \<exists>t. w' = w\<lparr>tick := t\<rparr>"
  using io_pread_result by blast

text \<open>An environment in which every system call succeeds and every transfer is complete.\<close>

definition io_perfect :: "env \<Rightarrow> bool" where
  "io_perfect E \<longleftrightarrow> (\<forall>t n. io E t n = Some n)"

lemma io_pread_perfect:
  assumes "io_perfect E" "off + n \<le> length (file_of w path)"
  shows "fst (io_pread E path n off w) = Some (slice off n (file_of w path))"
proof (cases "n = 0")
  case True
  then show ?thesis by (simp add: io_pread.simps slice_def)
next
  case False
  then show ?thesis using assms
    by (simp add: io_pread.simps[of E path n] io_pread.simps[of E path 0] io_perfect_def)
qed

lemma io_pread_short:
  assumes "length (file_of w path) < off + n" "0 < n"
  shows "fst (io_pread E path n off w) = None"
proof (rule ccontr)
  assume "fst (io_pread E path n off w) \<noteq> None"
  then obtain bs w' where "io_pread E path n off w = (Some bs, w')"
    by (cases "io_pread E path n off w") auto
  then have "length (slice off n (file_of w path)) = n" by (auto dest!: io_pread_result)
  then show False using assms by (simp add: slice_def)
qed

end
