(* ===== verification/Audit_Log.thy ===== *)
theory Audit_Log
  imports Files Kdf
begin

text \<open>
  src/src/audit/audit.c: the append-only log. The file is a 64-byte header (magic, version, count,
  head) followed by 96-byte records, each a 64-byte wire image and the chain hash
  \<open>H_next = SHA3-256 (H_prev @ wire)\<close>. \<open>audit_good\<close> is the abstract statement of an intact file.
\<close>

section \<open>Format\<close>

definition AUDIT_MAGIC :: bytes where "AUDIT_MAGIC = cstr ''PQCHSMAL''"
definition AUDIT_VERSION :: u32 where "AUDIT_VERSION = 1"
definition AUDIT_HDR_LEN :: nat where "AUDIT_HDR_LEN = 64"
definition AUDIT_WIRE_LEN :: nat where "AUDIT_WIRE_LEN = 64"
definition AUDIT_HASH_LEN :: nat where "AUDIT_HASH_LEN = 32"
definition AUDIT_REC_LEN :: nat where "AUDIT_REC_LEN = 96"
definition AUDIT_DETAIL_LEN :: nat where "AUDIT_DETAIL_LEN = 32"
definition AUDIT_MAX :: nat where "AUDIT_MAX = (2 ^ 64 - 1 - 64) div 96"

lemmas audit_consts = AUDIT_HDR_LEN_def AUDIT_WIRE_LEN_def AUDIT_HASH_LEN_def AUDIT_REC_LEN_def
  AUDIT_DETAIL_LEN_def

definition AUDIT_OP_INIT_TOKEN :: u32 where "AUDIT_OP_INIT_TOKEN = 1"
definition AUDIT_OP_LOGIN :: u32 where "AUDIT_OP_LOGIN = 2"
definition AUDIT_OP_LOGIN_FAIL :: u32 where "AUDIT_OP_LOGIN_FAIL = 3"
definition AUDIT_OP_GENERATE :: u32 where "AUDIT_OP_GENERATE = 5"
definition AUDIT_OP_LOAD :: u32 where "AUDIT_OP_LOAD = 6"
definition AUDIT_OP_SIGN :: u32 where "AUDIT_OP_SIGN = 7"
definition AUDIT_OP_DECAPS :: u32 where "AUDIT_OP_DECAPS = 8"
definition AUDIT_OP_DESTROY :: u32 where "AUDIT_OP_DESTROY = 9"
definition AUDIT_OP_ZEROIZE :: u32 where "AUDIT_OP_ZEROIZE = 10"
definition AUDIT_OP_UNLOCK :: u32 where "AUDIT_OP_UNLOCK = 11"
definition AUDIT_OP_LOCKOUT :: u32 where "AUDIT_OP_LOCKOUT = 12"
definition AUDIT_OP_SET_USER_PIN :: u32 where "AUDIT_OP_SET_USER_PIN = 17"

lemmas audit_ops = AUDIT_OP_INIT_TOKEN_def AUDIT_OP_LOGIN_def AUDIT_OP_LOGIN_FAIL_def
  AUDIT_OP_GENERATE_def AUDIT_OP_LOAD_def AUDIT_OP_SIGN_def AUDIT_OP_DECAPS_def
  AUDIT_OP_DESTROY_def AUDIT_OP_ZEROIZE_def AUDIT_OP_UNLOCK_def AUDIT_OP_LOCKOUT_def
  AUDIT_OP_SET_USER_PIN_def

text \<open>The open log; \<open>al_fd\<close> is None when the descriptor is negative.\<close>

record audit_log =
  al_fd :: "bytes option"
  al_count :: u64
  al_head :: bytes

definition genesis_hash :: "env \<Rightarrow> bytes option" where
  "genesis_hash E = sha3 E (cstr ''pqc-hsm/audit/genesis'')"

definition chain_step :: "env \<Rightarrow> bytes \<Rightarrow> bytes \<Rightarrow> bytes option" where
  "chain_step E prev wire = sha3 E (prev @ take AUDIT_WIRE_LEN wire)"

definition hdr_encode :: "u64 \<Rightarrow> bytes \<Rightarrow> bytes" where
  "hdr_encode count head =
     AUDIT_MAGIC @ put_u32 AUDIT_VERSION @ replicate 4 0 @ put_u64 count @ head @ replicate 8 0"

definition hdr_ok :: "bytes \<Rightarrow> bool" where
  "hdr_ok hdr \<longleftrightarrow> take 8 hdr = AUDIT_MAGIC \<and> get_u32 (drop 8 hdr) = AUDIT_VERSION"

definition printable :: "byte \<Rightarrow> byte" where
  "printable c = (if 0x20 \<le> c \<and> c < 0x7f then c else 0x2e)"

definition wire_encode :: "u64 \<Rightarrow> u64 \<Rightarrow> u32 \<Rightarrow> u32 \<Rightarrow> u32 \<Rightarrow> u32 \<Rightarrow> bytes option \<Rightarrow> bytes" where
  "wire_encode seq timestamp op role slot_id result detail =
     put_u64 seq @ put_u64 timestamp @ put_u32 op @ put_u32 role @ put_u32 slot_id @
     put_u32 result @
     buf_write AUDIT_DETAIL_LEN
       (case detail of None \<Rightarrow> [] | Some d \<Rightarrow> map printable (take AUDIT_DETAIL_LEN (c_string d)))"

section \<open>Opening and closing\<close>

definition tmp_of :: "bytes \<Rightarrow> bytes" where
  "tmp_of path = c_string path @ cstr ''.tmp''"

text \<open>fsync\_dir opens and syncs the directory and ignores every result.\<close>

definition fsync_dir :: "'a world_scheme \<Rightarrow> 'a world_scheme" where
  "fsync_dir w = next_tick (next_tick w)"

definition create_genesis :: "env \<Rightarrow> bytes \<Rightarrow> 'a world_scheme \<Rightarrow> bool \<times> 'a world_scheme" where
  "create_genesis E path w =
     (case genesis_hash E of
        None \<Rightarrow> (False, w)
      | Some head \<Rightarrow>
          let tmp = tmp_of path; hdr = hdr_encode 0 head;
              fail = (\<lambda>w. (False, set_file tmp None (next_tick w))) in
          if \<not> malloc_ok E (tick w) (c_strlen path + 8) then (False, next_tick w)
          else (case sys_ok E (next_tick w) of (opened, w2) \<Rightarrow>
            if \<not> opened then fail w2
            else (case io_pwrite E tmp hdr 0 (set_file tmp (Some []) w2) of (wrote, w3) \<Rightarrow>
              if \<not> wrote then fail w3
              else (case sys_ok E w3 of (synced, w4) \<Rightarrow>
                if \<not> synced then fail w4
                else (case sys_ok E w4 of (renamed, w5) \<Rightarrow>
                  if \<not> renamed then fail w5
                  else (True, fsync_dir (set_file tmp None (set_file path (files w5 tmp) w5))))))))"

definition open_rdwr :: "env \<Rightarrow> bytes \<Rightarrow> 'a world_scheme \<Rightarrow> bool \<times> 'a world_scheme" where
  "open_rdwr E path w = (case sys_ok E w of (ok, w1) \<Rightarrow> (ok \<and> files w path \<noteq> None, w1))"

text \<open>The checks on the file of audit\_open, after the descriptor is there.\<close>

definition audit_attach :: "env \<Rightarrow> bytes \<Rightarrow> 'a world_scheme \<Rightarrow> audit_log option \<times> 'a world_scheme" where
  "audit_attach E path w =
     (case io_pread E path AUDIT_HDR_LEN 0 w of
        (None, w1) \<Rightarrow> (None, w1)
      | (Some hdr, w1) \<Rightarrow>
          if \<not> hdr_ok hdr then (None, w1)
          else (case sys_ok E w1 of (ok, w2) \<Rightarrow>
            if \<not> ok then (None, w2)
            else let count = get_u64 (drop 16 hdr); len = length (file_of w2 path) in
              if unat count > AUDIT_MAX then (None, w2)
              else if len \<noteq> AUDIT_HDR_LEN + AUDIT_REC_LEN * unat count then (None, w2)
              else if \<not> malloc_ok E (tick w2) 48 then (None, next_tick w2)
              else (Some \<lparr>al_fd = Some path, al_count = count, al_head = slice 24 AUDIT_HASH_LEN hdr\<rparr>,
                    next_tick w2)))"

text \<open>A failed open of an existing file is an error other than ENOENT.\<close>

definition audit_open :: "env \<Rightarrow> bytes option \<Rightarrow> 'a world_scheme \<Rightarrow> audit_log option \<times> 'a world_scheme" where
  "audit_open E path w =
     (case path of None \<Rightarrow> (None, w) | Some p \<Rightarrow>
      if c_string p = [] then (None, w)
      else (case open_rdwr E p w of (ok, w1) \<Rightarrow>
        if ok then audit_attach E p w1
        else if files w p \<noteq> None then (None, w1)
        else (case create_genesis E p w1 of (created, w2) \<Rightarrow>
          if \<not> created then (None, w2)
          else (case open_rdwr E p w2 of (ok, w3) \<Rightarrow>
            if \<not> ok then (None, w3) else audit_attach E p w3))))"

section \<open>Appending\<close>

definition audit_append ::
    "env \<Rightarrow> audit_log \<Rightarrow> u64 \<Rightarrow> u32 \<Rightarrow> u32 \<Rightarrow> u32 \<Rightarrow> u32 \<Rightarrow> bytes option \<Rightarrow> 'a world_scheme \<Rightarrow>
     bool \<times> audit_log \<times> 'a world_scheme" where
  "audit_append E log timestamp op role slot_id result detail w =
     (case al_fd log of None \<Rightarrow> (False, log, w) | Some path \<Rightarrow>
      if op < AUDIT_OP_INIT_TOKEN \<or> op > AUDIT_OP_SET_USER_PIN then (False, log, w)
      else if unat (al_count log) \<ge> AUDIT_MAX then (False, log, w)
      else let wire = wire_encode (al_count log) timestamp op role slot_id result detail in
        (case chain_step E (al_head log) wire of None \<Rightarrow> (False, log, w) | Some nxt \<Rightarrow>
         (case io_pwrite E path (wire @ nxt) (AUDIT_HDR_LEN + AUDIT_REC_LEN * unat (al_count log)) w of
            (ok1, w1) \<Rightarrow>
          if \<not> ok1 then (False, log, w1)
          else (case sys_ok E w1 of (ok2, w2) \<Rightarrow>
           if \<not> ok2 then (False, log, w2)
           else (case io_pwrite E path (hdr_encode (al_count log + 1) nxt) 0 w2 of (ok3, w3) \<Rightarrow>
            if \<not> ok3 then (False, log, w3)
            else (case sys_ok E w3 of (ok4, w4) \<Rightarrow>
             if \<not> ok4 then (False, log, w4)
             else (True, log\<lparr>al_count := al_count log + 1, al_head := nxt\<rparr>, w4)))))))"

definition audit_head :: "audit_log option \<Rightarrow> bytes option" where
  "audit_head log = map_option al_head log"

definition audit_count :: "audit_log option \<Rightarrow> u64" where
  "audit_count log = (case log of None \<Rightarrow> 0 | Some l \<Rightarrow> al_count l)"

section \<open>Verifying and reading\<close>

text \<open>The loop of audit\_verify\_file: \<open>n\<close> records are left, the next is number \<open>seq\<close>; \<open>Inl\<close> is the
  number reported as bad.\<close>

fun verify_records :: "env \<Rightarrow> bytes \<Rightarrow> nat \<Rightarrow> nat \<Rightarrow> bytes \<Rightarrow> 'a world_scheme \<Rightarrow> (nat + bytes) \<times> 'a world_scheme" where
  "verify_records E path seq 0 cur w = (Inr cur, w)"
| "verify_records E path seq (Suc n) cur w =
     (case io_pread E path AUDIT_REC_LEN (AUDIT_HDR_LEN + AUDIT_REC_LEN * seq) w of
        (None, w1) \<Rightarrow> (Inl seq, w1)
      | (Some rec, w1) \<Rightarrow>
          if get_u64 rec \<noteq> of_nat seq then (Inl seq, w1)
          else (case chain_step E cur rec of
             None \<Rightarrow> (Inl seq, w1)
           | Some want \<Rightarrow>
               if \<not> pqc_ct_equal (Some want) (Some (drop AUDIT_WIRE_LEN rec)) AUDIT_HASH_LEN
               then (Inl seq, w1)
               else verify_records E path (Suc seq) n want w1))"

definition audit_verify_file ::
    "env \<Rightarrow> bytes option \<Rightarrow> 'a world_scheme \<Rightarrow> (nat + unit) \<times> 'a world_scheme" where
  "audit_verify_file E path w =
     (case path of None \<Rightarrow> (Inl 0, w) | Some p \<Rightarrow>
      (case open_rdwr E p w of (opened, w0) \<Rightarrow>
       if \<not> opened then (Inl 0, w0)
       else (case io_pread E p AUDIT_HDR_LEN 0 w0 of
          (None, w1) \<Rightarrow> (Inl 0, w1)
        | (Some hdr, w1) \<Rightarrow>
            if \<not> hdr_ok hdr then (Inl 0, w1)
            else (case sys_ok E w1 of (ok, w2) \<Rightarrow>
              let count = unat (get_u64 (drop 16 hdr)); len = length (file_of w2 p) in
              if \<not> ok \<or> len < AUDIT_HDR_LEN then (Inl 0, w2)
              else let have = (len - AUDIT_HDR_LEN) div AUDIT_REC_LEN in
                if count > AUDIT_MAX \<or> len \<noteq> AUDIT_HDR_LEN + AUDIT_REC_LEN * count
                then (Inl (min have count), w2)
                else (case genesis_hash E of
                   None \<Rightarrow> (Inl 0, w2)
                 | Some g \<Rightarrow>
                     (case verify_records E p 0 count g w2 of
                        (Inl bad, w3) \<Rightarrow> (Inl bad, w3)
                      | (Inr cur, w3) \<Rightarrow>
                          if \<not> pqc_ct_equal (Some cur) (Some (slice 24 AUDIT_HASH_LEN hdr)) AUDIT_HASH_LEN
                          then (Inl count, w3) else (Inr (), w3)))))))"

definition audit_hash_at ::
    "env \<Rightarrow> bytes option \<Rightarrow> u64 \<Rightarrow> 'a world_scheme \<Rightarrow> bytes option \<times> 'a world_scheme" where
  "audit_hash_at E path count w =
     (case path of None \<Rightarrow> (None, w) | Some p \<Rightarrow>
      (case open_rdwr E p w of (opened, w0) \<Rightarrow>
       if \<not> opened then (None, w0)
       else (case io_pread E p AUDIT_HDR_LEN 0 w0 of
          (None, w1) \<Rightarrow> (None, w1)
        | (Some hdr, w1) \<Rightarrow>
            if \<not> hdr_ok hdr then (None, w1)
            else (case sys_ok E w1 of (ok, w2) \<Rightarrow>
              let len = length (file_of w2 p) in
              if \<not> ok \<or> len < AUDIT_HDR_LEN then (None, w2)
              else if unat count > (len - AUDIT_HDR_LEN) div AUDIT_REC_LEN then (None, w2)
              else if count = 0 then (genesis_hash E, w2)
              else (case io_pread E p AUDIT_REC_LEN
                       (AUDIT_HDR_LEN + (unat count - 1) * AUDIT_REC_LEN) w2 of
                      (None, w3) \<Rightarrow> (None, w3)
                    | (Some rec, w3) \<Rightarrow> (Some (drop AUDIT_WIRE_LEN rec), w3))))))"

record audit_entry =
  ae_timestamp :: u64
  ae_op :: u32
  ae_role :: u32
  ae_slot :: u32
  ae_result :: u32
  ae_detail :: bytes

definition audit_read ::
    "env \<Rightarrow> bytes option \<Rightarrow> u64 \<Rightarrow> 'a world_scheme \<Rightarrow> audit_entry option \<times> 'a world_scheme" where
  "audit_read E path seq w =
     (case path of None \<Rightarrow> (None, w) | Some p \<Rightarrow>
      (case open_rdwr E p w of (opened, w0) \<Rightarrow>
       if \<not> opened then (None, w0)
       else (case io_pread E p AUDIT_HDR_LEN 0 w0 of
          (None, w1) \<Rightarrow> (None, w1)
        | (Some hdr, w1) \<Rightarrow>
            if \<not> hdr_ok hdr \<or> seq \<ge> get_u64 (drop 16 hdr) then (None, w1)
            else (case io_pread E p AUDIT_REC_LEN (AUDIT_HDR_LEN + AUDIT_REC_LEN * unat seq) w1 of
               (None, w2) \<Rightarrow> (None, w2)
             | (Some rec, w2) \<Rightarrow>
                 if get_u64 rec \<noteq> seq then (None, w2)
                 else (case (if seq = 0 then (genesis_hash E, w2)
                             else io_pread E p AUDIT_HASH_LEN
                               (AUDIT_HDR_LEN + AUDIT_REC_LEN * (unat seq - 1) + AUDIT_WIRE_LEN) w2) of
                    (None, w3) \<Rightarrow> (None, w3)
                  | (Some prev, w3) \<Rightarrow>
                      (case chain_step E prev rec of
                         None \<Rightarrow> (None, w3)
                       | Some want \<Rightarrow>
                           if \<not> pqc_ct_equal (Some want) (Some (drop AUDIT_WIRE_LEN rec)) AUDIT_HASH_LEN
                           then (None, w3)
                           else (Some \<lparr>ae_timestamp = get_u64 (drop 8 rec), ae_op = get_u32 (drop 16 rec),
                                       ae_role = get_u32 (drop 20 rec), ae_slot = get_u32 (drop 24 rec),
                                       ae_result = get_u32 (drop 28 rec),
                                       ae_detail = slice 32 AUDIT_DETAIL_LEN rec @ [0]\<rparr>, w3)))))))"

end
