(* ===== verification/Slot_State.thy ===== *)
theory Slot_State
  imports Meta Audit_Log
begin

text \<open>
  The state of src/src/slot (slot\_internal.h) and the static helpers of slot.c: slots, the session
  table, the token, the KMAC seal on a slot's metadata, the state machine applied to a slot, PINs,
  the audit call and the persistence hook.

  Locks: the critical sections of the C code are the units of this model; an operation holds its
  slot while it runs and puts it back when it unlocks. The token extends the \<open>world\<close>, so the same
  state carries the call counter, the self-test and the files.
\<close>

section \<open>Types\<close>

datatype hsm_status =
    HSM_OK | HSM_ERR_BAD_ARG | HSM_ERR_BAD_STATE | HSM_ERR_NOT_AUTHORIZED | HSM_ERR_PIN_INCORRECT
  | HSM_ERR_PIN_LOCKED | HSM_ERR_BAD_HANDLE | HSM_ERR_USAGE_DENIED | HSM_ERR_POLICY
  | HSM_ERR_INTEGRITY | HSM_ERR_SLOT_BUSY | HSM_ERR_CRYPTO | HSM_ERR_NOMEM | HSM_ERR_FULL

fun status_code :: "hsm_status \<Rightarrow> u32" where
  "status_code HSM_OK = 0"
| "status_code HSM_ERR_BAD_ARG = 1"
| "status_code HSM_ERR_BAD_STATE = 2"
| "status_code HSM_ERR_NOT_AUTHORIZED = 3"
| "status_code HSM_ERR_PIN_INCORRECT = 4"
| "status_code HSM_ERR_PIN_LOCKED = 5"
| "status_code HSM_ERR_BAD_HANDLE = 6"
| "status_code HSM_ERR_USAGE_DENIED = 7"
| "status_code HSM_ERR_POLICY = 8"
| "status_code HSM_ERR_INTEGRITY = 9"
| "status_code HSM_ERR_SLOT_BUSY = 10"
| "status_code HSM_ERR_CRYPTO = 11"
| "status_code HSM_ERR_NOMEM = 12"
| "status_code HSM_ERR_FULL = 13"

fun hsm_strerror :: "hsm_status \<Rightarrow> string" where
  "hsm_strerror HSM_OK = ''ok''"
| "hsm_strerror HSM_ERR_BAD_ARG = ''bad argument''"
| "hsm_strerror HSM_ERR_BAD_STATE = ''illegal state transition''"
| "hsm_strerror HSM_ERR_NOT_AUTHORIZED = ''not authorized''"
| "hsm_strerror HSM_ERR_PIN_INCORRECT = ''incorrect PIN''"
| "hsm_strerror HSM_ERR_PIN_LOCKED = ''slot locked''"
| "hsm_strerror HSM_ERR_BAD_HANDLE = ''invalid handle''"
| "hsm_strerror HSM_ERR_USAGE_DENIED = ''key usage denied''"
| "hsm_strerror HSM_ERR_POLICY = ''policy denied''"
| "hsm_strerror HSM_ERR_INTEGRITY = ''metadata integrity failure''"
| "hsm_strerror HSM_ERR_SLOT_BUSY = ''slot busy''"
| "hsm_strerror HSM_ERR_CRYPTO = ''crypto failure''"
| "hsm_strerror HSM_ERR_NOMEM = ''out of memory''"
| "hsm_strerror HSM_ERR_FULL = ''no free session''"

text \<open>The answer of an operation: an error, or HSM\_OK with what it wrote.\<close>

type_synonym 'a hsm_res = "hsm_status + 'a"

definition res_status :: "'a hsm_res \<Rightarrow> hsm_status" where
  "res_status r = (case r of Inl e \<Rightarrow> e | Inr _ \<Rightarrow> HSM_OK)"

datatype hsm_role = HSM_ROLE_PUBLIC | HSM_ROLE_SO | HSM_ROLE_USER | HSM_ROLE_other u32

fun role_code :: "hsm_role \<Rightarrow> u32" where
  "role_code HSM_ROLE_PUBLIC = 0"
| "role_code HSM_ROLE_SO = 1"
| "role_code HSM_ROLE_USER = 2"
| "role_code (HSM_ROLE_other n) = n"

definition role_of :: "u32 \<Rightarrow> hsm_role" where
  "role_of n =
     (if n = 0 then HSM_ROLE_PUBLIC else if n = 1 then HSM_ROLE_SO
      else if n = 2 then HSM_ROLE_USER else HSM_ROLE_other n)"

definition KEY_USAGE_ENCAP :: u32 where "KEY_USAGE_ENCAP = 1"
definition KEY_USAGE_DECAP :: u32 where "KEY_USAGE_DECAP = 2"
definition KEY_USAGE_SIGN :: u32 where "KEY_USAGE_SIGN = 4"
definition KEY_USAGE_VERIFY :: u32 where "KEY_USAGE_VERIFY = 8"

definition SLOT_POLICY_EXTRACTABLE :: u32 where "SLOT_POLICY_EXTRACTABLE = 1"
definition SLOT_POLICY_BACKUPABLE :: u32 where "SLOT_POLICY_BACKUPABLE = 2"
definition SLOT_POLICY_INJECTABLE :: u32 where "SLOT_POLICY_INJECTABLE = 4"
definition SLOT_POLICY_SEED_STORAGE :: u32 where "SLOT_POLICY_SEED_STORAGE = 8"

lemmas usage_bits = KEY_USAGE_ENCAP_def KEY_USAGE_DECAP_def KEY_USAGE_SIGN_def KEY_USAGE_VERIFY_def
lemmas policy_bits = SLOT_POLICY_EXTRACTABLE_def SLOT_POLICY_BACKUPABLE_def
  SLOT_POLICY_INJECTABLE_def SLOT_POLICY_SEED_STORAGE_def

definition HSM_PIN_MIN_LEN :: nat where "HSM_PIN_MIN_LEN = 4"
definition HSM_PIN_MAX_LEN :: nat where "HSM_PIN_MAX_LEN = 64"
definition HSM_PIN_MAX_FAILS :: u32 where "HSM_PIN_MAX_FAILS = 3"
definition MAX_SESSIONS :: nat where "MAX_SESSIONS = 16"
definition PIN_SALT_LEN :: nat where "PIN_SALT_LEN = 16"
definition VERIFIER_LEN :: nat where "VERIFIER_LEN = 32"

section \<open>Slots, sessions, token\<close>

text \<open>pk\_len and sk\_len are the lengths of the buffers pk and sk point to (None is NULL).\<close>

record slot =
  sl_meta :: slot_meta
  sl_meta_tag :: bytes
  sl_pre_lock :: slot_state
  sl_pin_key :: bytes
  sl_so_salt :: bytes
  sl_so_verifier :: bytes
  sl_user_salt :: bytes
  sl_user_verifier :: bytes
  sl_has_so_pin :: bool
  sl_has_user_pin :: bool
  sl_hw_handle :: u32
  sl_hw_resident :: bool
  sl_pk :: "bytes option"
  sl_sk :: "bytes option"
  sl_seed :: bytes
  sl_seed_len :: nat
  sl_has_seed :: bool

record session =
  se_open :: bool
  se_slot :: u32
  se_role :: hsm_role
  se_gen :: u32

text \<open>\<open>persist_fn\<close> is the user argument of the installed hook, None when there is no hook.\<close>

record hsm_token = world +
  slots :: "slot list"
  sessions :: "session list"
  session_gen :: u32
  audit :: "audit_log option"
  persist_fn :: "bytes option"
  persist_busy :: bool

type_synonym hook = "bytes \<Rightarrow> hsm_token \<Rightarrow> bool \<times> hsm_token"

abbreviation st_of :: "slot \<Rightarrow> slot_state" where "st_of s \<equiv> m_state (sl_meta s)"

definition set_meta :: "(slot_meta \<Rightarrow> slot_meta) \<Rightarrow> slot \<Rightarrow> slot" where
  "set_meta f s = s\<lparr>sl_meta := f (sl_meta s)\<rparr>"

definition set_slot :: "u32 \<Rightarrow> slot \<Rightarrow> hsm_token \<Rightarrow> hsm_token" where
  "set_slot sid s tok = tok\<lparr>slots := (slots tok)[unat sid := s]\<rparr>"

section \<open>Helpers on one slot\<close>

definition slot_reseal :: "env \<Rightarrow> slot \<Rightarrow> hsm_status \<times> slot" where
  "slot_reseal E s =
     (case slot_meta_seal E (sl_meta s) of
        None \<Rightarrow> (HSM_ERR_CRYPTO, s)
      | Some tag \<Rightarrow> (HSM_OK, s\<lparr>sl_meta_tag := tag\<rparr>))"

definition slot_check_integrity :: "env \<Rightarrow> slot \<Rightarrow> hsm_status" where
  "slot_check_integrity E s =
     (if slot_meta_verify E (sl_meta s) (sl_meta_tag s) then HSM_OK else HSM_ERR_INTEGRITY)"

definition fsm_apply :: "slot \<Rightarrow> slot_event \<Rightarrow> hsm_status \<times> slot" where
  "fsm_apply s ev =
     (let nxt = slot_fsm_next (st_of s) ev in
      if nxt = SLOT_ST_INVALID then (HSM_ERR_BAD_STATE, s)
      else if ev = SLOT_EV_PIN_LOCKOUT
        then (HSM_OK, set_meta (m_state_update (\<lambda>_. nxt)) (s\<lparr>sl_pre_lock := st_of s\<rparr>))
      else if ev = SLOT_EV_SO_UNLOCK
        then (HSM_OK, set_meta (m_state_update (\<lambda>_. slot_fsm_unlock_target (sl_pre_lock s))) s)
      else (HSM_OK, set_meta (m_state_update (\<lambda>_. nxt)) s))"

definition slot_wipe_key_material :: "slot \<Rightarrow> slot" where
  "slot_wipe_key_material s =
     s\<lparr>sl_pk := None, sl_sk := None, sl_seed := pqc_secure_zero 64, sl_seed_len := 0,
       sl_has_seed := False, sl_hw_handle := 0, sl_hw_resident := False\<rparr>"

definition slot_wipe_pins :: "slot \<Rightarrow> slot" where
  "slot_wipe_pins s =
     s\<lparr>sl_pin_key := pqc_secure_zero 32, sl_so_salt := pqc_secure_zero PIN_SALT_LEN,
       sl_so_verifier := pqc_secure_zero VERIFIER_LEN, sl_user_salt := pqc_secure_zero PIN_SALT_LEN,
       sl_user_verifier := pqc_secure_zero VERIFIER_LEN,
       sl_has_so_pin := False, sl_has_user_pin := False\<rparr>"

definition make_handle :: "slot \<Rightarrow> u64" where
  "make_handle s =
     push_bit 32 (ucast (m_generation (sl_meta s))) OR ucast (m_slot_id (sl_meta s) + 1)"

definition validate_usage :: "pqc_alg \<Rightarrow> u32 \<Rightarrow> hsm_status" where
  "validate_usage alg usage =
     (case pqc_alg_info alg of
        None \<Rightarrow> HSM_ERR_BAD_ARG
      | Some info \<Rightarrow>
          if usage = 0 then HSM_ERR_BAD_ARG
          else let allowed = (if ai_kind info = PQC_KIND_KEM
                              then KEY_USAGE_ENCAP OR KEY_USAGE_DECAP
                              else KEY_USAGE_SIGN OR KEY_USAGE_VERIFY) in
            if usage AND NOT allowed \<noteq> 0 then HSM_ERR_USAGE_DENIED else HSM_OK)"

definition pin_verifier ::
    "env \<Rightarrow> bytes \<Rightarrow> u32 \<Rightarrow> hsm_role \<Rightarrow> bytes \<Rightarrow> bytes \<Rightarrow> bytes option" where
  "pin_verifier E pin_key slot_id role salt pin =
     (if c_strlen pin > HSM_PIN_MAX_LEN then None
      else kmac E pin_key (put_u32 slot_id @ put_u32 (role_code role) @ salt @ c_string pin)
             ''pqc-hsm/pin-verifier'' VERIFIER_LEN)"

definition valid_pin :: "bytes option \<Rightarrow> bool" where
  "valid_pin pin =
     (case pin of None \<Rightarrow> False
      | Some p \<Rightarrow> HSM_PIN_MIN_LEN \<le> c_strlen p \<and> c_strlen p \<le> HSM_PIN_MAX_LEN)"

section \<open>The session table\<close>

definition sess_idx :: "u64 \<Rightarrow> nat" where
  "sess_idx sess = unat (ucast sess :: u32)"

definition sess_gen :: "u64 \<Rightarrow> u32" where
  "sess_gen sess = ucast (drop_bit 32 sess)"

definition session_info :: "hsm_token \<Rightarrow> u64 \<Rightarrow> (u32 \<times> hsm_role) hsm_res" where
  "session_info tok sess =
     (if sess = 0 then Inl HSM_ERR_BAD_ARG
      else if sess_idx sess = 0 \<or> sess_idx sess > MAX_SESSIONS then Inl HSM_ERR_BAD_ARG
      else let s = sessions tok ! (sess_idx sess - 1) in
        if se_open s \<and> se_gen s = sess_gen sess then Inr (se_slot s, se_role s)
        else Inl HSM_ERR_BAD_ARG)"

definition require_role :: "hsm_token \<Rightarrow> u64 \<Rightarrow> hsm_role \<Rightarrow> u32 hsm_res" where
  "require_role tok sess need =
     (case session_info tok sess of
        Inl e \<Rightarrow> Inl e
      | Inr (slot, role) \<Rightarrow> if role = need then Inr slot else Inl HSM_ERR_NOT_AUTHORIZED)"

definition set_session_role :: "u64 \<Rightarrow> hsm_role \<Rightarrow> hsm_token \<Rightarrow> hsm_token" where
  "set_session_role sess role tok =
     (if sess_idx sess = 0 \<or> sess_idx sess > MAX_SESSIONS then tok
      else let i = sess_idx sess - 1; s = sessions tok ! i in
        if se_open s \<and> se_gen s = sess_gen sess
        then tok\<lparr>sessions := (sessions tok)[i := s\<lparr>se_role := role\<rparr>]\<rparr> else tok)"

definition drop_sessions_on_slot :: "u32 \<Rightarrow> hsm_token \<Rightarrow> hsm_token" where
  "drop_sessions_on_slot sid tok =
     tok\<lparr>sessions := map (\<lambda>s. if se_open s \<and> se_slot s = sid
                              then s\<lparr>se_role := HSM_ROLE_PUBLIC\<rparr> else s) (sessions tok)\<rparr>"

section \<open>Audit and persistence\<close>

definition hsm_token_attach_audit :: "hsm_token \<Rightarrow> audit_log option \<Rightarrow> hsm_token" where
  "hsm_token_attach_audit tok log = tok\<lparr>audit := log\<rparr>"

definition hsm_token_set_persist_hook :: "hsm_token \<Rightarrow> bytes option \<Rightarrow> hsm_token" where
  "hsm_token_set_persist_hook tok fn = tok\<lparr>persist_fn := fn\<rparr>"

definition slot_persist :: "hook \<Rightarrow> hsm_token \<Rightarrow> bool \<times> hsm_token" where
  "slot_persist H tok =
     (if persist_busy tok then (True, tok)
      else case persist_fn tok of
        None \<Rightarrow> (True, tok)
      | Some user \<Rightarrow>
          (case H user (tok\<lparr>persist_busy := True\<rparr>) of
             (rc, tok1) \<Rightarrow> (rc, tok1\<lparr>persist_busy := False\<rparr>)))"

definition slot_audit ::
    "env \<Rightarrow> u32 \<Rightarrow> hsm_role \<Rightarrow> u32 \<Rightarrow> hsm_status \<Rightarrow> bytes option \<Rightarrow> hsm_token \<Rightarrow> hsm_token" where
  "slot_audit E op role slot result detail tok =
     (case audit tok of
        None \<Rightarrow> tok
      | Some log \<Rightarrow>
          (case audit_append E log (clock E (tick tok)) op (role_code role) slot (status_code result)
                  detail (next_tick tok) of
             (ok, log', tok1) \<Rightarrow> tok1\<lparr>audit := Some log'\<rparr>))"

definition commit_security_state :: "hook \<Rightarrow> hsm_status \<Rightarrow> hsm_token \<Rightarrow> hsm_status \<times> hsm_token" where
  "commit_security_state H stt tok =
     (case slot_persist H tok of
        (ok, tok1) \<Rightarrow> (if \<not> ok \<and> stt = HSM_OK then HSM_ERR_CRYPTO else stt, tok1))"

section \<open>Token life time and queries\<close>

definition blank_meta :: "u32 \<Rightarrow> u32 \<Rightarrow> slot_meta" where
  "blank_meta sid gen =
     \<lparr>m_version = SLOT_META_VERSION, m_slot_id = sid, m_label = replicate SLOT_LABEL_MAX 0,
      m_alg = PQC_ALG_NONE, m_usage = 0, m_policy = 0, m_state = SLOT_ST_UNINIT, m_use_count = 0,
      m_so_pin_fails = 0, m_user_pin_fails = 0, m_created_at = 0, m_last_used_at = 0,
      m_generation = gen\<rparr>"

definition blank_slot :: "u32 \<Rightarrow> slot" where
  "blank_slot sid =
     \<lparr>sl_meta = blank_meta sid 0, sl_meta_tag = replicate SLOT_META_TAG_LEN 0,
      sl_pre_lock = SLOT_ST_EMPTY, sl_pin_key = replicate 32 0,
      sl_so_salt = replicate PIN_SALT_LEN 0, sl_so_verifier = replicate VERIFIER_LEN 0,
      sl_user_salt = replicate PIN_SALT_LEN 0, sl_user_verifier = replicate VERIFIER_LEN 0,
      sl_has_so_pin = False, sl_has_user_pin = False, sl_hw_handle = 0, sl_hw_resident = False,
      sl_pk = None, sl_sk = None, sl_seed = replicate 64 0, sl_seed_len = 0, sl_has_seed = False\<rparr>"

definition blank_session :: session where
  "blank_session = \<lparr>se_open = False, se_slot = 0, se_role = HSM_ROLE_PUBLIC, se_gen = 0\<rparr>"

text \<open>The loop over the slots: stops at the first seal that fails.\<close>

fun new_slots :: "env \<Rightarrow> nat list \<Rightarrow> slot list option" where
  "new_slots E [] = Some []"
| "new_slots E (i # is) =
     (case slot_reseal E (blank_slot (of_nat i)) of
        (HSM_OK, s) \<Rightarrow> map_option ((#) s) (new_slots E is)
      | _ \<Rightarrow> None)"

definition hsm_token_new :: "env \<Rightarrow> nat \<Rightarrow> world \<Rightarrow> hsm_token option \<times> world" where
  "hsm_token_new E n w =
     (if n = 0 \<or> n > 4096 then (None, w)
      else if \<not> malloc_ok E (tick w) 1 then (None, next_tick w)
      else let w1 = next_tick w in
        if \<not> malloc_ok E (tick w1) n then (None, next_tick w1)
        else let w2 = next_tick w1 in
          (map_option
             (\<lambda>sl. world.extend w2
                \<lparr>slots = sl, sessions = replicate MAX_SESSIONS blank_session, session_gen = 0,
                 audit = None, persist_fn = None, persist_busy = False\<rparr>)
             (new_slots E [0..<n]), w2))"

definition hsm_token_slot_count :: "hsm_token option \<Rightarrow> nat" where
  "hsm_token_slot_count tok = (case tok of None \<Rightarrow> 0 | Some t \<Rightarrow> length (slots t))"

definition slot_at :: "hsm_token \<Rightarrow> u32 \<Rightarrow> slot option" where
  "slot_at tok sid = (if unat sid \<ge> length (slots tok) then None else Some (slots tok ! unat sid))"

text \<open>The queries; \<open>out\<close> says whether the output pointer is there.\<close>

definition hsm_slot_get_meta :: "env \<Rightarrow> hsm_token \<Rightarrow> u32 \<Rightarrow> bool \<Rightarrow> slot_meta hsm_res" where
  "hsm_slot_get_meta E tok sid out =
     (case slot_at tok sid of
        None \<Rightarrow> Inl HSM_ERR_BAD_ARG
      | Some s \<Rightarrow>
          if \<not> out then Inl HSM_ERR_BAD_ARG
          else if slot_check_integrity E s = HSM_OK then Inr (sl_meta s)
          else Inl (slot_check_integrity E s))"

definition hsm_slot_get_state :: "env \<Rightarrow> hsm_token \<Rightarrow> u32 \<Rightarrow> bool \<Rightarrow> slot_state hsm_res" where
  "hsm_slot_get_state E tok sid out =
     (case slot_at tok sid of
        None \<Rightarrow> Inl HSM_ERR_BAD_ARG
      | Some s \<Rightarrow>
          if \<not> out then Inl HSM_ERR_BAD_ARG
          else if slot_check_integrity E s = HSM_OK then Inr (st_of s)
          else Inl (slot_check_integrity E s))"

definition hsm_slot_pin_status :: "hsm_token \<Rightarrow> u32 \<Rightarrow> (bool \<times> bool) hsm_res" where
  "hsm_slot_pin_status tok sid =
     (case slot_at tok sid of
        None \<Rightarrow> Inl HSM_ERR_BAD_ARG
      | Some s \<Rightarrow> Inr (sl_has_so_pin s, sl_has_user_pin s))"

definition hsm_slot_meta_tag :: "hsm_token \<Rightarrow> u32 \<Rightarrow> bool \<Rightarrow> bytes hsm_res" where
  "hsm_slot_meta_tag tok sid out =
     (case slot_at tok sid of
        None \<Rightarrow> Inl HSM_ERR_BAD_ARG
      | Some s \<Rightarrow> if \<not> out then Inl HSM_ERR_BAD_ARG else Inr (sl_meta_tag s))"

definition hsm_slot_force_state :: "env \<Rightarrow> hsm_token \<Rightarrow> u32 \<Rightarrow> slot_state \<Rightarrow> hsm_status \<times> hsm_token" where
  "hsm_slot_force_state E tok sid want =
     (case slot_at tok sid of
        None \<Rightarrow> (HSM_ERR_BAD_ARG, tok)
      | Some s \<Rightarrow>
          if want < SLOT_ST_UNINIT then (HSM_ERR_BAD_ARG, tok)
          else case slot_reseal E (set_meta (m_state_update (\<lambda>_. want)) s) of
            (stt, s1) \<Rightarrow> (stt, set_slot sid s1 tok))"

end
