(* ===== verification/Slot_Ops.thy ===== *)
theory Slot_Ops
  imports Slot_State
begin

text \<open>
  The operations of src/src/slot/slot.c. The part of an operation between SLOCK and SUNLOCK is a
  function on the slot and the world (named \<dots>\_locked where the C code has no function of its own
  for it); the public function finds the slot, puts the result back, commits the security state and
  writes the audit record. \<open>E\<close> is the environment and \<open>H\<close> the persistence hook.
\<close>

section \<open>Initialisation and PINs\<close>

definition init_token_locked ::
    "env \<Rightarrow> slot \<Rightarrow> bytes \<Rightarrow> bytes \<Rightarrow> 'a world_scheme \<Rightarrow> hsm_status \<times> slot \<times> 'a world_scheme" where
  "init_token_locked E s label so_pin w =
     (if slot_check_integrity E s \<noteq> HSM_OK then (slot_check_integrity E s, s, w)
      else case fsm_apply s SLOT_EV_INIT_TOKEN of (stt, s1) \<Rightarrow>
        if stt \<noteq> HSM_OK then (stt, s1, w)
        else (case pqc_random_bytes E (Some (sl_pin_key s1)) w of (ok1, key, w1) \<Rightarrow>
          let s2 = s1\<lparr>sl_pin_key := key\<rparr> in
          if \<not> ok1 then (HSM_ERR_CRYPTO, s2, w1)
          else (case pqc_random_bytes E (Some (sl_so_salt s2)) w1 of (ok2, salt, w2) \<Rightarrow>
            let s3 = s2\<lparr>sl_so_salt := salt\<rparr> in
            if \<not> ok2 then (HSM_ERR_CRYPTO, s3, w2)
            else (case pin_verifier E key (m_slot_id (sl_meta s3)) HSM_ROLE_SO salt so_pin of
                None \<Rightarrow> (HSM_ERR_CRYPTO, s3, w2)
              | Some ver \<Rightarrow>
                  let s4 = set_meta (\<lambda>m. m\<lparr>m_label := buf_write SLOT_LABEL_MAX
                                                (take (SLOT_LABEL_MAX - 1) (c_string label)),
                                            m_created_at := clock E (tick w2),
                                            m_so_pin_fails := 0, m_user_pin_fails := 0,
                                            m_use_count := 0\<rparr>)
                             (s3\<lparr>sl_so_verifier := ver, sl_has_so_pin := True\<rparr>) in
                  (case slot_reseal E s4 of (stt, s5) \<Rightarrow> (stt, s5, next_tick w2))))))"

definition hsm_slot_init_token ::
    "env \<Rightarrow> hook \<Rightarrow> hsm_token \<Rightarrow> u32 \<Rightarrow> bytes option \<Rightarrow> bytes option \<Rightarrow> hsm_status \<times> hsm_token" where
  "hsm_slot_init_token E H tok sid label so_pin =
     (case slot_at tok sid of None \<Rightarrow> (HSM_ERR_BAD_ARG, tok) | Some s \<Rightarrow>
      (case (label, so_pin) of
         (Some l, Some pin) \<Rightarrow>
           if \<not> valid_pin so_pin then (HSM_ERR_BAD_ARG, tok)
           else (case init_token_locked E s l pin tok of (stt, s', tok1) \<Rightarrow>
             (case commit_security_state H stt (set_slot sid s' tok1) of (stt', tok2) \<Rightarrow>
               (stt', slot_audit E AUDIT_OP_INIT_TOKEN HSM_ROLE_SO sid stt' label tok2)))
       | _ \<Rightarrow> (HSM_ERR_BAD_ARG, tok)))"

definition set_user_pin_locked ::
    "env \<Rightarrow> slot \<Rightarrow> bytes \<Rightarrow> 'a world_scheme \<Rightarrow> hsm_status \<times> slot \<times> 'a world_scheme" where
  "set_user_pin_locked E s user_pin w =
     (if slot_check_integrity E s \<noteq> HSM_OK then (slot_check_integrity E s, s, w)
      else if st_of s = SLOT_ST_UNINIT then (HSM_ERR_BAD_STATE, s, w)
      else case pqc_random_bytes E (Some (sl_user_salt s)) w of (ok, salt, w1) \<Rightarrow>
        let s1 = s\<lparr>sl_user_salt := salt\<rparr> in
        if \<not> ok then (HSM_ERR_CRYPTO, s1, w1)
        else (case pin_verifier E (sl_pin_key s) (m_slot_id (sl_meta s)) HSM_ROLE_USER salt user_pin of
            None \<Rightarrow> (HSM_ERR_CRYPTO, s1, w1)
          | Some ver \<Rightarrow>
              (case slot_reseal E (set_meta (m_user_pin_fails_update (\<lambda>_. 0))
                      (s1\<lparr>sl_user_verifier := ver, sl_has_user_pin := True\<rparr>)) of
                 (stt, s2) \<Rightarrow> (stt, s2, w1))))"

definition hsm_slot_set_user_pin ::
    "env \<Rightarrow> hook \<Rightarrow> hsm_token \<Rightarrow> u64 \<Rightarrow> bytes option \<Rightarrow> hsm_status \<times> hsm_token" where
  "hsm_slot_set_user_pin E H tok sess user_pin =
     (case require_role tok sess HSM_ROLE_SO of Inl e \<Rightarrow> (e, tok) | Inr sid \<Rightarrow>
      (case user_pin of
         None \<Rightarrow> (HSM_ERR_BAD_ARG, tok)
       | Some pin \<Rightarrow>
           if \<not> valid_pin user_pin then (HSM_ERR_BAD_ARG, tok)
           else (case slot_at tok sid of None \<Rightarrow> (HSM_ERR_BAD_ARG, tok) | Some s \<Rightarrow>
             (case set_user_pin_locked E s pin tok of (stt, s', tok1) \<Rightarrow>
               (case commit_security_state H stt (set_slot sid s' tok1) of (stt', tok2) \<Rightarrow>
                 (stt', slot_audit E AUDIT_OP_SET_USER_PIN HSM_ROLE_SO sid stt' None tok2))))))"

section \<open>Sessions\<close>

text \<open>The first closed entry of the table, as the loop of hsm\_session\_open finds it.\<close>

definition free_index :: "session list \<Rightarrow> nat option" where
  "free_index ss = find (\<lambda>i. \<not> se_open (ss ! i)) [0..<length ss]"

definition hsm_session_open :: "hsm_token \<Rightarrow> u32 \<Rightarrow> bool \<Rightarrow> u64 hsm_res \<times> hsm_token" where
  "hsm_session_open tok sid out =
     (if slot_at tok sid = None \<or> \<not> out then (Inl HSM_ERR_BAD_ARG, tok)
      else case free_index (sessions tok) of
        None \<Rightarrow> (Inl HSM_ERR_FULL, tok)
      | Some i \<Rightarrow>
          let gen = session_gen tok + 1 in
          (Inr (push_bit 32 (ucast gen) OR (of_nat i + 1)),
           tok\<lparr>session_gen := gen,
               sessions := (sessions tok)
                 [i := \<lparr>se_open = True, se_slot = sid, se_role = HSM_ROLE_PUBLIC, se_gen = gen\<rparr>]\<rparr>))"

definition hsm_session_close :: "hsm_token \<Rightarrow> u64 \<Rightarrow> hsm_status \<times> hsm_token" where
  "hsm_session_close tok sess =
     (if sess = 0 then (HSM_ERR_BAD_ARG, tok)
      else if sess_idx sess = 0 \<or> sess_idx sess > MAX_SESSIONS then (HSM_ERR_BAD_ARG, tok)
      else let i = sess_idx sess - 1; s = sessions tok ! i in
        if se_open s \<and> se_gen s = sess_gen sess
        then (HSM_OK, tok\<lparr>sessions := (sessions tok)[i := blank_session]\<rparr>)
        else (HSM_ERR_BAD_ARG, tok))"

definition hsm_session_role :: "hsm_token \<Rightarrow> u64 \<Rightarrow> bool \<Rightarrow> hsm_role hsm_res" where
  "hsm_session_role tok sess out =
     (if \<not> out then Inl HSM_ERR_BAD_ARG
      else map_sum (\<lambda>e. e) snd (session_info tok sess))"

definition hsm_session_logout :: "hsm_token \<Rightarrow> u64 \<Rightarrow> hsm_status \<times> hsm_token" where
  "hsm_session_logout tok sess =
     (case session_info tok sess of
        Inl e \<Rightarrow> (e, tok)
      | Inr _ \<Rightarrow> (HSM_OK, set_session_role sess HSM_ROLE_PUBLIC tok))"

text \<open>The critical section of hsm\_session\_login: status, \<open>login_ok\<close>, \<open>meta_changed\<close>, slot.\<close>

definition login_locked ::
    "env \<Rightarrow> slot \<Rightarrow> hsm_role \<Rightarrow> bytes \<Rightarrow> hsm_status \<times> bool \<times> bool \<times> slot" where
  "login_locked E s role pin =
     (if slot_check_integrity E s \<noteq> HSM_OK then (slot_check_integrity E s, False, False, s)
      else if st_of s = SLOT_ST_UNINIT then (HSM_ERR_BAD_STATE, False, False, s)
      else if st_of s = SLOT_ST_LOCKED \<and> role = HSM_ROLE_USER
        then (HSM_ERR_PIN_LOCKED, False, False, s)
      else
        let so = (role = HSM_ROLE_SO);
            salt = (if so then sl_so_salt s else sl_user_salt s);
            want = (if so then sl_so_verifier s else sl_user_verifier s);
            has = (if so then sl_has_so_pin s else sl_has_user_pin s) in
        if \<not> has then (HSM_ERR_NOT_AUTHORIZED, False, False, s)
        else (case pin_verifier E (sl_pin_key s) (m_slot_id (sl_meta s)) role salt pin of
            None \<Rightarrow> (HSM_ERR_CRYPTO, False, False, s)
          | Some got \<Rightarrow>
              if pqc_ct_equal (Some got) (Some want) VERIFIER_LEN then
                (case slot_reseal E (set_meta (if so then m_so_pin_fails_update (\<lambda>_. 0)
                                               else m_user_pin_fails_update (\<lambda>_. 0)) s) of
                   (stt, s1) \<Rightarrow> (stt, True, True, s1))
              else if so then
                (case slot_reseal E (set_meta (m_so_pin_fails_update (\<lambda>n. n + 1)) s) of
                   (_, s1) \<Rightarrow> (HSM_ERR_PIN_INCORRECT, False, True, s1))
              else
                let s1 = set_meta (m_user_pin_fails_update (\<lambda>n. n + 1)) s in
                if m_user_pin_fails (sl_meta s1) \<ge> HSM_PIN_MAX_FAILS then
                  (case fsm_apply s1 SLOT_EV_PIN_LOCKOUT of (lst, s2) \<Rightarrow>
                    (case slot_reseal E s2 of
                       (_, s3) \<Rightarrow> (if lst = HSM_OK then HSM_ERR_PIN_LOCKED else HSM_ERR_PIN_INCORRECT,
                                   False, True, s3)))
                else (case slot_reseal E s1 of (_, s2) \<Rightarrow> (HSM_ERR_PIN_INCORRECT, False, True, s2))))"

definition hsm_session_login ::
    "env \<Rightarrow> hook \<Rightarrow> hsm_token \<Rightarrow> u64 \<Rightarrow> hsm_role \<Rightarrow> bytes option \<Rightarrow> hsm_status \<times> hsm_token" where
  "hsm_session_login E H tok sess role pin =
     (case session_info tok sess of Inl e \<Rightarrow> (e, tok) | Inr (sid, _) \<Rightarrow>
      (case pin of
         None \<Rightarrow> (HSM_ERR_BAD_ARG, tok)
       | Some p \<Rightarrow>
           if role \<noteq> HSM_ROLE_SO \<and> role \<noteq> HSM_ROLE_USER then (HSM_ERR_BAD_ARG, tok)
           else (case slot_at tok sid of None \<Rightarrow> (HSM_ERR_BAD_ARG, tok) | Some s \<Rightarrow>
             (case login_locked E s role p of (stt, login_ok, meta_changed, s') \<Rightarrow>
               let tok1 = set_slot sid s' tok in
               (case (if meta_changed then commit_security_state H stt tok1 else (stt, tok1)) of
                 (stt', tok2) \<Rightarrow>
                   let tok3 = (if login_ok then set_session_role sess role tok2 else tok2);
                       op = (if login_ok then AUDIT_OP_LOGIN
                             else if stt' = HSM_ERR_PIN_LOCKED then AUDIT_OP_LOCKOUT
                             else AUDIT_OP_LOGIN_FAIL) in
                   (stt', slot_audit E op role sid stt'
                            (Some (cstr (if role = HSM_ROLE_SO then ''SO'' else ''User''))) tok3))))))"

section \<open>Making a key\<close>

text \<open>What installing a key does to the metadata.\<close>

definition key_meta :: "pqc_alg \<Rightarrow> u32 \<Rightarrow> u32 \<Rightarrow> slot_meta \<Rightarrow> slot_meta" where
  "key_meta alg usage policy m =
     m\<lparr>m_alg := alg, m_usage := usage, m_policy := policy, m_use_count := 0, m_last_used_at := 0\<rparr>"

text \<open>The reseal and the handle at the end of both paths of install\_key.\<close>

definition install_finish :: "env \<Rightarrow> slot \<Rightarrow> u64 hsm_res \<times> slot" where
  "install_finish E s =
     (case slot_reseal E s of
        (stt, s1) \<Rightarrow> (if stt \<noteq> HSM_OK then Inl stt else Inr (make_handle s1), s1))"

definition install_hw :: "pqc_alg \<Rightarrow> u32 \<Rightarrow> u32 \<Rightarrow> bytes \<Rightarrow> u32 \<Rightarrow> slot \<Rightarrow> slot" where
  "install_hw alg usage policy hpk hh s =
     set_meta (key_meta alg usage policy)
       ((slot_wipe_key_material s)\<lparr>sl_pk := Some hpk, sl_sk := None, sl_has_seed := False,
          sl_hw_handle := hh, sl_hw_resident := True\<rparr>)"

definition install_sw :: "pqc_alg \<Rightarrow> u32 \<Rightarrow> u32 \<Rightarrow> bytes \<Rightarrow> bytes \<Rightarrow> bytes \<Rightarrow> slot \<Rightarrow> slot" where
  "install_sw alg usage policy pk sk seed s =
     (let s1 = (slot_wipe_key_material s)\<lparr>sl_pk := Some pk\<rparr>;
          s2 = (if policy AND SLOT_POLICY_SEED_STORAGE \<noteq> 0
                then s1\<lparr>sl_seed := buf_write 64 seed, sl_seed_len := length seed,
                         sl_has_seed := True, sl_sk := None\<rparr>
                else s1\<lparr>sl_sk := Some sk\<rparr>)
      in set_meta (key_meta alg usage policy) s2)"

text \<open>The software path: two buffers, a seed (given or random), a key pair from the seed.\<close>

definition install_software ::
    "env \<Rightarrow> slot \<Rightarrow> pqc_alg \<Rightarrow> pqc_alg_info \<Rightarrow> u32 \<Rightarrow> u32 \<Rightarrow> bytes option \<Rightarrow> nat \<Rightarrow> 'a world_scheme \<Rightarrow>
     u64 hsm_res \<times> slot \<times> 'a world_scheme" where
  "install_software E s alg info usage policy seed seed_len w =
     (case pqc_secure_alloc E (ai_pk_len info) w of (a1, w1) \<Rightarrow>
      (case pqc_secure_alloc E (ai_sk_len info) w1 of (a2, w2) \<Rightarrow>
       if a1 = None \<or> a2 = None then (Inl HSM_ERR_NOMEM, s, w2)
       else
         (case (case seed of
                  Some sd \<Rightarrow>
                    if seed_len \<noteq> ai_seed_len info then (Inl HSM_ERR_BAD_ARG, w2)
                    else (Inr (take seed_len sd), w2)
                | None \<Rightarrow>
                    (case pqc_random_bytes E (Some (replicate (ai_seed_len info) 0)) w2 of
                       (ok, bs, w3) \<Rightarrow> (if ok then Inr bs else Inl HSM_ERR_CRYPTO, w3))) of
            (Inl e, w3) \<Rightarrow> (Inl e, s, w3)
          | (Inr local_seed, w3) \<Rightarrow>
              (case pqc_keypair_from_seed E alg (Some local_seed) (ai_seed_len info) True True w3 of
                 (Inl _, w4) \<Rightarrow> (Inl HSM_ERR_CRYPTO, s, w4)
               | (Inr (pk, sk), w4) \<Rightarrow>
                   (case install_finish E (install_sw alg usage policy pk sk local_seed s) of
                      (r, s1) \<Rightarrow> (r, s1, w4))))))"

definition install_key ::
    "env \<Rightarrow> slot \<Rightarrow> pqc_alg \<Rightarrow> u32 \<Rightarrow> u32 \<Rightarrow> bytes option \<Rightarrow> nat \<Rightarrow> 'a world_scheme \<Rightarrow>
     u64 hsm_res \<times> slot \<times> 'a world_scheme" where
  "install_key E s alg usage policy seed seed_len w =
     (if validate_usage alg usage \<noteq> HSM_OK then (Inl (validate_usage alg usage), s, w)
      else case pqc_alg_info alg of None \<Rightarrow> (Inl HSM_ERR_BAD_ARG, s, w) | Some info \<Rightarrow>
        if seed = None \<and> policy AND SLOT_POLICY_SEED_STORAGE = 0 \<and>
           pqc_backend_has_hw_keys_kind E (kind_mask (ai_kind info)) then
          (case pqc_secure_alloc E (ai_pk_len info) w of
             (None, w1) \<Rightarrow> (Inl HSM_ERR_NOMEM, s, w1)
           | (Some _, w1) \<Rightarrow>
               (case pqc_keypair_hw E alg True True w1 of
                  (Inr (hpk, hh), w2) \<Rightarrow>
                    (case install_finish E
                            (install_hw alg usage policy (buf_write (ai_pk_len info) hpk) hh s) of
                       (r, s1) \<Rightarrow> (r, s1, w2))
                | (Inl e, w2) \<Rightarrow>
                    if e = PQC_ERR_UNSUPPORTED
                    then install_software E s alg info usage policy seed seed_len w2
                    else (Inl HSM_ERR_CRYPTO, s, w2)))
        else install_software E s alg info usage policy seed seed_len w)"

definition policy_denied_by_profile :: "env \<Rightarrow> u32 \<Rightarrow> bool" where
  "policy_denied_by_profile E policy \<longleftrightarrow>
     pqc_profile_is_production E \<and> policy AND SLOT_POLICY_SEED_STORAGE \<noteq> 0"

definition create_locked ::
    "env \<Rightarrow> slot \<Rightarrow> pqc_alg \<Rightarrow> u32 \<Rightarrow> u32 \<Rightarrow> bytes option \<Rightarrow> nat \<Rightarrow> slot_event \<Rightarrow> 'a world_scheme \<Rightarrow>
     u64 hsm_res \<times> slot \<times> 'a world_scheme" where
  "create_locked E s alg usage policy seed seed_len ev w =
     (if slot_check_integrity E s \<noteq> HSM_OK then (Inl (slot_check_integrity E s), s, w)
      else case fsm_apply s ev of (stt, s1) \<Rightarrow>
        if stt \<noteq> HSM_OK then (Inl stt, s1, w)
        else (case install_key E s1 alg usage policy seed seed_len w of
            (Inr h, s2, w1) \<Rightarrow> (Inr h, s2, w1)
          | (Inl e, s2, w1) \<Rightarrow>
              (case slot_reseal E (set_meta (m_state_update (\<lambda>_. st_of s)) s2) of
                 (_, s3) \<Rightarrow> (Inl e, s3, w1))))"

text \<open>
  The handle is written before the state is committed, so a caller that ignores the status of a
  failed commit can still read it; the result of the model is the pair of the status the C function
  returns and the handle it wrote, if any.
\<close>

definition create_object ::
    "env \<Rightarrow> hook \<Rightarrow> hsm_token \<Rightarrow> u64 \<Rightarrow> pqc_alg \<Rightarrow> u32 \<Rightarrow> u32 \<Rightarrow> bytes option \<Rightarrow> nat \<Rightarrow> slot_event \<Rightarrow> bool \<Rightarrow>
     hsm_status \<times> u64 option \<times> hsm_token" where
  "create_object E H tok sess alg usage policy seed seed_len ev out =
     (case require_role tok sess HSM_ROLE_USER of Inl e \<Rightarrow> (e, None, tok) | Inr sid \<Rightarrow>
      (case pqc_alg_info alg of None \<Rightarrow> (HSM_ERR_BAD_ARG, None, tok) | Some info \<Rightarrow>
       if \<not> out then (HSM_ERR_BAD_ARG, None, tok)
       else if policy_denied_by_profile E policy then (HSM_ERR_POLICY, None, tok)
       else (case slot_at tok sid of None \<Rightarrow> (HSM_ERR_BAD_ARG, None, tok) | Some s \<Rightarrow>
         (case create_locked E s alg usage policy seed seed_len ev tok of (r, s', tok1) \<Rightarrow>
           (case commit_security_state H (res_status r) (set_slot sid s' tok1) of (stt, tok2) \<Rightarrow>
             (stt, (case r of Inl _ \<Rightarrow> None | Inr h \<Rightarrow> Some h),
              slot_audit E (if ev = SLOT_EV_GENERATE then AUDIT_OP_GENERATE else AUDIT_OP_LOAD)
                HSM_ROLE_USER sid stt (Some (cstr (ai_name info))) tok2))))))"

definition hsm_slot_generate ::
    "env \<Rightarrow> hook \<Rightarrow> hsm_token \<Rightarrow> u64 \<Rightarrow> pqc_alg \<Rightarrow> u32 \<Rightarrow> u32 \<Rightarrow> bool \<Rightarrow> hsm_status \<times> u64 option \<times> hsm_token" where
  "hsm_slot_generate E H tok sess alg usage policy out =
     create_object E H tok sess alg usage policy None 0 SLOT_EV_GENERATE out"

definition hsm_slot_load_seed ::
    "env \<Rightarrow> hook \<Rightarrow> hsm_token \<Rightarrow> u64 \<Rightarrow> pqc_alg \<Rightarrow> u32 \<Rightarrow> u32 \<Rightarrow> bytes option \<Rightarrow> nat \<Rightarrow> bool \<Rightarrow>
     hsm_status \<times> u64 option \<times> hsm_token" where
  "hsm_slot_load_seed E H tok sess alg usage policy seed seed_len out =
     (case pqc_alg_info alg of
        None \<Rightarrow> (HSM_ERR_BAD_ARG, None, tok)
      | Some info \<Rightarrow>
          if seed = None \<or> seed_len \<noteq> ai_seed_len info then (HSM_ERR_BAD_ARG, None, tok)
          else create_object E H tok sess alg usage policy seed seed_len SLOT_EV_LOAD out)"

section \<open>Using a key\<close>

definition check_handle :: "env \<Rightarrow> slot \<Rightarrow> u64 \<Rightarrow> hsm_status" where
  "check_handle E s h =
     (if h = 0 \<or> (ucast h :: u32) \<noteq> m_slot_id (sl_meta s) + 1 \<or>
         (ucast (drop_bit 32 h) :: u32) \<noteq> m_generation (sl_meta s) then HSM_ERR_BAD_HANDLE
      else if st_of s \<noteq> SLOT_ST_LOADED \<and> st_of s \<noteq> SLOT_ST_IN_USE then HSM_ERR_BAD_HANDLE
      else slot_check_integrity E s)"

definition hsm_object_public_key ::
    "env \<Rightarrow> hsm_token \<Rightarrow> u64 \<Rightarrow> u64 \<Rightarrow> nat option \<Rightarrow> bool \<Rightarrow> bytes hsm_res" where
  "hsm_object_public_key E tok sess h out out_len =
     (case session_info tok sess of Inl e \<Rightarrow> Inl e | Inr (sid, _) \<Rightarrow>
      (case slot_at tok sid of None \<Rightarrow> Inl HSM_ERR_BAD_ARG | Some s \<Rightarrow>
        if check_handle E s h \<noteq> HSM_OK then Inl (check_handle E s h)
        else let pk = (case sl_pk s of None \<Rightarrow> [] | Some p \<Rightarrow> p) in
          (case out of
             None \<Rightarrow> Inl HSM_ERR_BAD_ARG
           | Some cap \<Rightarrow> if \<not> out_len \<or> cap < length pk then Inl HSM_ERR_BAD_ARG else Inr pk)))"

text \<open>The private key to use: None for a key in hardware.\<close>

definition borrow_secret ::
    "env \<Rightarrow> slot \<Rightarrow> 'a world_scheme \<Rightarrow> bytes option hsm_res \<times> 'a world_scheme" where
  "borrow_secret E s w =
     (if sl_hw_resident s then (Inr None, w)
      else case sl_sk s of
        Some sk \<Rightarrow> (Inr (Some sk), w)
      | None \<Rightarrow>
          if \<not> sl_has_seed s then (Inl HSM_ERR_BAD_STATE, w)
          else (case pqc_alg_info (m_alg (sl_meta s)) of
              None \<Rightarrow> (Inl HSM_ERR_NOMEM, w)
            | Some info \<Rightarrow>
                (case pqc_secure_alloc E (ai_pk_len info) w of (a1, w1) \<Rightarrow>
                 (case pqc_secure_alloc E (ai_sk_len info) w1 of (a2, w2) \<Rightarrow>
                  if a1 = None \<or> a2 = None then (Inl HSM_ERR_NOMEM, w2)
                  else (case pqc_keypair_from_seed E (m_alg (sl_meta s)) (Some (sl_seed s))
                               (sl_seed_len s) True True w2 of
                      (Inl _, w3) \<Rightarrow> (Inl HSM_ERR_CRYPTO, w3)
                    | (Inr (pk, sk), w3) \<Rightarrow> (Inr (Some sk), w3))))))"

definition begin_use ::
    "env \<Rightarrow> slot \<Rightarrow> u64 \<Rightarrow> u32 \<Rightarrow> 'a world_scheme \<Rightarrow> bytes option hsm_res \<times> slot \<times> 'a world_scheme" where
  "begin_use E s h need_usage w =
     (if check_handle E s h \<noteq> HSM_OK then (Inl (check_handle E s h), s, w)
      else if m_usage (sl_meta s) AND need_usage = 0 then (Inl HSM_ERR_USAGE_DENIED, s, w)
      else case fsm_apply s SLOT_EV_USE_BEGIN of (stt, s1) \<Rightarrow>
        if stt \<noteq> HSM_OK then (Inl stt, s1, w)
        else (case borrow_secret E s1 w of
            (Inl e, w1) \<Rightarrow> (Inl e, snd (fsm_apply s1 SLOT_EV_USE_END), w1)
          | (Inr k, w1) \<Rightarrow> (Inr k, s1, w1)))"

definition end_use ::
    "env \<Rightarrow> slot \<Rightarrow> hsm_status \<Rightarrow> 'a world_scheme \<Rightarrow> hsm_status \<times> slot \<times> 'a world_scheme" where
  "end_use E s op_st w =
     (let s1 = snd (fsm_apply s SLOT_EV_USE_END);
          s2 = (if op_st = HSM_OK
                then set_meta (\<lambda>m. m\<lparr>m_use_count := m_use_count m + 1,
                                     m_last_used_at := clock E (tick w)\<rparr>) s1
                else s1);
          w1 = (if op_st = HSM_OK then next_tick w else w)
      in case slot_reseal E s2 of (rs, s3) \<Rightarrow> (if op_st \<noteq> HSM_OK then op_st else rs, s3, w1))"

text \<open>The signature is written before the use is ended: status and the bytes written, if any.\<close>

definition sign_locked ::
    "env \<Rightarrow> slot \<Rightarrow> u64 \<Rightarrow> bytes option \<Rightarrow> nat \<Rightarrow> bytes option \<Rightarrow> nat \<Rightarrow> nat option \<Rightarrow> bool \<Rightarrow>
     'a world_scheme \<Rightarrow> bool \<times> hsm_status \<times> bytes option \<times> slot \<times> 'a world_scheme" where
  "sign_locked E s h msg msg_len ctx ctx_len sig sig_len w =
     (case begin_use E s h KEY_USAGE_SIGN w of
        (Inl e, s1, w1) \<Rightarrow> (False, e, None, s1, w1)
      | (Inr sk, s1, w1) \<Rightarrow>
          (case (pqc_alg_info (m_alg (sl_meta s1)), sig) of
             (Some info, Some cap) \<Rightarrow>
               if \<not> sig_len \<or> cap < ai_sig_len info then
                 (case end_use E s1 HSM_ERR_BAD_ARG w1 of (stt, s2, w2) \<Rightarrow> (True, stt, None, s2, w2))
               else
                 (case (if sl_hw_resident s1
                        then pqc_sign_hw E (m_alg (sl_meta s1)) (sl_hw_handle s1) msg msg_len
                               ctx ctx_len None sig w1
                        else pqc_sign E (m_alg (sl_meta s1)) sk msg msg_len ctx ctx_len None sig w1) of
                    (r, w2) \<Rightarrow>
                      (case end_use E s1 (case r of Inl _ \<Rightarrow> HSM_ERR_CRYPTO | Inr _ \<Rightarrow> HSM_OK) w2 of
                         (stt, s2, w3) \<Rightarrow>
                           (True, stt, (case r of Inl _ \<Rightarrow> None | Inr bs \<Rightarrow> Some bs), s2, w3)))
           | _ \<Rightarrow> (case end_use E s1 HSM_ERR_BAD_ARG w1 of (stt, s2, w2) \<Rightarrow> (True, stt, None, s2, w2))))"

definition hsm_object_sign ::
    "env \<Rightarrow> hsm_token \<Rightarrow> u64 \<Rightarrow> u64 \<Rightarrow> bytes option \<Rightarrow> nat \<Rightarrow> bytes option \<Rightarrow> nat \<Rightarrow> nat option \<Rightarrow> bool \<Rightarrow>
     hsm_status \<times> bytes option \<times> hsm_token" where
  "hsm_object_sign E tok sess h msg msg_len ctx ctx_len sig sig_len =
     (case require_role tok sess HSM_ROLE_USER of Inl e \<Rightarrow> (e, None, tok) | Inr sid \<Rightarrow>
      (case slot_at tok sid of None \<Rightarrow> (HSM_ERR_BAD_ARG, None, tok) | Some s \<Rightarrow>
        (case sign_locked E s h msg msg_len ctx ctx_len sig sig_len tok of
           (begun, stt, bs, s', tok1) \<Rightarrow>
             let tok2 = set_slot sid s' tok1 in
             (stt, bs, if begun then slot_audit E AUDIT_OP_SIGN HSM_ROLE_USER sid stt None tok2
                       else tok2))))"

definition decaps_locked ::
    "env \<Rightarrow> slot \<Rightarrow> u64 \<Rightarrow> bytes option \<Rightarrow> nat \<Rightarrow> nat option \<Rightarrow> bool \<Rightarrow>
     'a world_scheme \<Rightarrow> bool \<times> hsm_status \<times> bytes option \<times> slot \<times> 'a world_scheme" where
  "decaps_locked E s h ct ct_len ss ss_len w =
     (case begin_use E s h KEY_USAGE_DECAP w of
        (Inl e, s1, w1) \<Rightarrow> (False, e, None, s1, w1)
      | (Inr sk, s1, w1) \<Rightarrow>
          (case (pqc_alg_info (m_alg (sl_meta s1)), ct, ss) of
             (Some info, Some c, Some cap) \<Rightarrow>
               if \<not> ss_len \<or> ct_len \<noteq> ai_ct_len info \<or> cap < ai_ss_len info then
                 (case end_use E s1 HSM_ERR_BAD_ARG w1 of (stt, s2, w2) \<Rightarrow> (True, stt, None, s2, w2))
               else
                 (case (if sl_hw_resident s1
                        then pqc_decaps_hw E (m_alg (sl_meta s1)) (sl_hw_handle s1) ct True w1
                        else pqc_decaps E (m_alg (sl_meta s1)) sk ct True w1) of
                    (r, w2) \<Rightarrow>
                      (case end_use E s1 (case r of Inl _ \<Rightarrow> HSM_ERR_CRYPTO | Inr _ \<Rightarrow> HSM_OK) w2 of
                         (stt, s2, w3) \<Rightarrow>
                           (True, stt,
                            (case r of Inl _ \<Rightarrow> None | Inr bs \<Rightarrow> Some (buf_write (ai_ss_len info) bs)),
                            s2, w3)))
           | _ \<Rightarrow> (case end_use E s1 HSM_ERR_BAD_ARG w1 of (stt, s2, w2) \<Rightarrow> (True, stt, None, s2, w2))))"

definition hsm_object_decaps ::
    "env \<Rightarrow> hsm_token \<Rightarrow> u64 \<Rightarrow> u64 \<Rightarrow> bytes option \<Rightarrow> nat \<Rightarrow> nat option \<Rightarrow> bool \<Rightarrow>
     hsm_status \<times> bytes option \<times> hsm_token" where
  "hsm_object_decaps E tok sess h ct ct_len ss ss_len =
     (case require_role tok sess HSM_ROLE_USER of Inl e \<Rightarrow> (e, None, tok) | Inr sid \<Rightarrow>
      (case slot_at tok sid of None \<Rightarrow> (HSM_ERR_BAD_ARG, None, tok) | Some s \<Rightarrow>
        (case decaps_locked E s h ct ct_len ss ss_len tok of
           (begun, stt, bs, s', tok1) \<Rightarrow>
             let tok2 = set_slot sid s' tok1 in
             (stt, bs, if begun then slot_audit E AUDIT_OP_DECAPS HSM_ROLE_USER sid stt None tok2
                       else tok2))))"

definition destroy_locked :: "env \<Rightarrow> slot \<Rightarrow> u64 \<Rightarrow> hsm_status \<times> slot" where
  "destroy_locked E s h =
     (if check_handle E s h \<noteq> HSM_OK then (check_handle E s h, s)
      else case fsm_apply s SLOT_EV_DESTROY of (stt, s1) \<Rightarrow>
        if stt \<noteq> HSM_OK then (stt, s1)
        else slot_reseal E
               (set_meta (\<lambda>m. m\<lparr>m_alg := PQC_ALG_NONE, m_usage := 0, m_policy := 0,
                                m_generation := m_generation m + 1\<rparr>)
                  (slot_wipe_key_material s1)))"

definition hsm_object_destroy ::
    "env \<Rightarrow> hook \<Rightarrow> hsm_token \<Rightarrow> u64 \<Rightarrow> u64 \<Rightarrow> hsm_status \<times> hsm_token" where
  "hsm_object_destroy E H tok sess h =
     (case require_role tok sess HSM_ROLE_USER of Inl e \<Rightarrow> (e, tok) | Inr sid \<Rightarrow>
      (case slot_at tok sid of None \<Rightarrow> (HSM_ERR_BAD_ARG, tok) | Some s \<Rightarrow>
        (case destroy_locked E s h of (stt, s') \<Rightarrow>
          (case commit_security_state H stt (set_slot sid s' tok) of (stt', tok1) \<Rightarrow>
            (stt', slot_audit E AUDIT_OP_DESTROY HSM_ROLE_USER sid stt' None tok1)))))"

section \<open>Zeroization and unlocking\<close>

definition do_zeroize :: "env \<Rightarrow> slot \<Rightarrow> hsm_status \<times> slot" where
  "do_zeroize E s =
     (case fsm_apply s SLOT_EV_ZEROIZE of (stt, s1) \<Rightarrow>
        if stt \<noteq> HSM_OK then (stt, s1)
        else let s2 = slot_wipe_pins (slot_wipe_key_material s1) in
          slot_reseal E (s2\<lparr>sl_meta := blank_meta (m_slot_id (sl_meta s2)) (m_generation (sl_meta s2) + 1),
                            sl_pre_lock := SLOT_ST_EMPTY\<rparr>))"

text \<open>The common tail of the two zeroize calls.\<close>

definition zeroize_commit ::
    "env \<Rightarrow> hook \<Rightarrow> u32 \<Rightarrow> hsm_role \<Rightarrow> string \<Rightarrow> slot \<Rightarrow> hsm_token \<Rightarrow> hsm_status \<times> hsm_token" where
  "zeroize_commit E H sid role detail s tok =
     (case do_zeroize E s of (stt, s') \<Rightarrow>
        let tok1 = set_slot sid s' tok;
            tok2 = (if stt = HSM_OK then drop_sessions_on_slot sid tok1 else tok1) in
        (case commit_security_state H stt tok2 of (stt', tok3) \<Rightarrow>
           (stt', slot_audit E AUDIT_OP_ZEROIZE role sid stt' (Some (cstr detail)) tok3)))"

definition hsm_slot_zeroize ::
    "env \<Rightarrow> hook \<Rightarrow> hsm_token \<Rightarrow> u64 \<Rightarrow> u32 \<Rightarrow> hsm_status \<times> hsm_token" where
  "hsm_slot_zeroize E H tok sess sid =
     (case require_role tok sess HSM_ROLE_SO of Inl e \<Rightarrow> (e, tok) | Inr own \<Rightarrow>
      (case slot_at tok sid of None \<Rightarrow> (HSM_ERR_BAD_ARG, tok) | Some s \<Rightarrow>
        if own \<noteq> sid then (HSM_ERR_NOT_AUTHORIZED, tok)
        else zeroize_commit E H sid HSM_ROLE_SO ''so'' s tok))"

definition hsm_slot_zeroize_forced :: "env \<Rightarrow> hook \<Rightarrow> hsm_token \<Rightarrow> u32 \<Rightarrow> hsm_status \<times> hsm_token" where
  "hsm_slot_zeroize_forced E H tok sid =
     (case slot_at tok sid of None \<Rightarrow> (HSM_ERR_BAD_ARG, tok) | Some s \<Rightarrow>
        zeroize_commit E H sid HSM_ROLE_PUBLIC ''forced'' s tok)"

definition unlock_locked :: "env \<Rightarrow> slot \<Rightarrow> hsm_status \<times> slot" where
  "unlock_locked E s =
     (if slot_check_integrity E s \<noteq> HSM_OK then (slot_check_integrity E s, s)
      else case fsm_apply s SLOT_EV_SO_UNLOCK of (stt, s1) \<Rightarrow>
        if stt \<noteq> HSM_OK then (stt, s1)
        else slot_reseal E (set_meta (m_user_pin_fails_update (\<lambda>_. 0)) s1))"

definition hsm_slot_unlock ::
    "env \<Rightarrow> hook \<Rightarrow> hsm_token \<Rightarrow> u64 \<Rightarrow> u32 \<Rightarrow> hsm_status \<times> hsm_token" where
  "hsm_slot_unlock E H tok sess sid =
     (case require_role tok sess HSM_ROLE_SO of Inl e \<Rightarrow> (e, tok) | Inr own \<Rightarrow>
      (case slot_at tok sid of None \<Rightarrow> (HSM_ERR_BAD_ARG, tok) | Some s \<Rightarrow>
        if own \<noteq> sid then (HSM_ERR_NOT_AUTHORIZED, tok)
        else (case unlock_locked E s of (stt, s') \<Rightarrow>
          (case commit_security_state H stt (set_slot sid s' tok) of (stt', tok1) \<Rightarrow>
            (stt', slot_audit E AUDIT_OP_UNLOCK HSM_ROLE_SO sid stt' (Some (cstr ''unlock'')) tok1)))))"

end
