(* ===== verification/Slot_Frame.thy ===== *)
theory Slot_Frame
  imports Slot_Ops
begin

text \<open>
  What the operations leave alone. \<open>sec\<close> is the security state of a token: slots, sessions and the
  hook. Cryptography, allocation, the audit log and a well-behaved persistence hook do not touch it,
  so every public operation is its critical section and nothing else.
\<close>

section \<open>The world under the crypto calls\<close>

lemma only_core_st_keypair:
  "st_keypair E alg seed want w = (b, w') \<Longrightarrow> only_core w w'"
  by (auto simp: st_keypair_def Let_def intro: only_core_trans[OF only_core_next_tick only_core_next_tick]
      split: option.splits if_splits sum.splits prod.splits)

lemma only_core_run_all: "run_all E w = (f, w') \<Longrightarrow> only_core w w'"
  by (auto simp: run_all_def Let_def split: prod.splits if_splits
      dest!: only_core_st_keypair intro: only_core_trans)

lemma only_core_passed: "pqc_self_test_passed E w = (b, w') \<Longrightarrow> only_core w w'"
  by (auto simp: pqc_self_test_passed_def pqc_self_test_def split: st_state.splits prod.splits
      dest!: only_core_run_all intro: only_core_trans[OF _ only_core_st])

lemma only_core_prologue: "prologue E alg k sel w = (r, w') \<Longrightarrow> only_core w w'"
  by (auto simp: prologue_def split: prod.splits if_splits option.splits dest!: only_core_passed)

lemma only_core_after: "only_core w w1 \<Longrightarrow> only_core w (next_tick w1)"
  by (rule only_core_trans[OF _ only_core_next_tick])

lemma only_core_calls:
  "pqc_keypair_from_seed E alg seed n p s w = (r1, w') \<Longrightarrow> only_core w w'"
  "pqc_keypair_hw E alg p s w = (r2, w') \<Longrightarrow> only_core w w'"
  "pqc_sign E alg sk msg ml ctx cl rnd sg w = (r3, w') \<Longrightarrow> only_core w w'"
  "pqc_sign_hw E alg h msg ml ctx cl rnd sg w = (r3, w') \<Longrightarrow> only_core w w'"
  "pqc_decaps E alg sk ct s w = (r3, w') \<Longrightarrow> only_core w w'"
  "pqc_decaps_hw E alg h ct s w = (r3, w') \<Longrightarrow> only_core w w'"
  "pqc_random_bytes E out w = (ok, bs, w') \<Longrightarrow> only_core w w'"
  "pqc_secure_alloc E k w = (a, w') \<Longrightarrow> only_core w w'"
  by (auto simp: pqc_keypair_from_seed_def pqc_keypair_hw_def pqc_sign_def pqc_sign_hw_def
      pqc_decaps_def pqc_decaps_hw_def pqc_random_bytes_def pqc_secure_alloc_def Let_def
      split: prod.splits if_splits option.splits sum.splits
      dest!: only_core_passed only_core_prologue intro: only_core_after)

section \<open>The security state\<close>

definition sec :: "hsm_token \<Rightarrow> slot list \<times> session list \<times> u32 \<times> bytes option \<times> bool" where
  "sec tok = (slots tok, sessions tok, session_gen tok, persist_fn tok, persist_busy tok)"

lemma sec_only_core: "only_core tok tok' \<Longrightarrow> sec tok' = sec tok"
  unfolding only_core_def sec_def by (cases tok, cases tok') simp

lemma sec_eqD:
  "sec a = sec b \<Longrightarrow> slots a = slots b"
  "sec a = sec b \<Longrightarrow> sessions a = sessions b"
  "sec a = sec b \<Longrightarrow> session_gen a = session_gen b"
  "sec a = sec b \<Longrightarrow> persist_fn a = persist_fn b"
  "sec a = sec b \<Longrightarrow> persist_busy a = persist_busy b"
  by (simp_all add: sec_def)

text \<open>A persistence hook reads the token and writes files; it must not change the security state.\<close>

definition hook_ok :: "hook \<Rightarrow> bool" where
  "hook_ok H \<longleftrightarrow> (\<forall>u t. sec (snd (H u t)) = sec t)"

lemma more_next_tick [simp]: "world.more (next_tick w) = world.more w"
  by (simp add: next_tick_def)

lemma more_io_pwrite: "io_pwrite E p b off w = (ok, w') \<Longrightarrow> world.more w' = world.more w"
  by (auto dest!: io_pwrite_result split: if_splits)

lemma more_sys_ok: "sys_ok E w = (ok, w') \<Longrightarrow> world.more w' = world.more w"
  by (auto simp: sys_ok_def)

lemma more_audit_append:
  "audit_append E log ts op role sl res detail w = (ok, log', w') \<Longrightarrow> world.more w' = world.more w"
  by (auto simp: audit_append_def Let_def split: option.splits if_splits prod.splits
      dest!: more_io_pwrite more_sys_ok)

lemma sec_more: "world.more a = world.more b \<Longrightarrow> sec a = sec b"
  unfolding sec_def by (cases a, cases b) simp

lemma sec_slot_audit [simp, frame_simps]: "sec (slot_audit E op role sl res detail tok) = sec tok"
proof (cases "audit tok")
  case (Some log)
  obtain ok log' tok1 where a: "audit_append E log (clock E (tick tok)) op (role_code role) sl
      (status_code res) detail (next_tick tok) = (ok, log', tok1)" by (metis prod_cases3)
  have "sec tok1 = sec tok" using more_audit_append[OF a] by (intro sec_more) simp
  then show ?thesis using Some a by (simp add: slot_audit_def sec_def)
qed (simp add: slot_audit_def)

lemma slot_audit_files:
  assumes "\<And>log. audit tok = Some log \<Longrightarrow> al_fd log \<noteq> Some p"
  shows "files (slot_audit E op role sl res det tok) p = files tok p"
proof (cases "audit tok")
  case (Some log)
  then have ne: "al_fd log \<noteq> Some p" using assms by blast
  have w: "q \<noteq> p \<Longrightarrow> io_pwrite E q b off w = (ok, w') \<Longrightarrow> files w' p = files w p"
    for q b off and w w' :: hsm_token and ok
    using io_pwrite_result by fastforce
  show ?thesis
    using Some ne
    by (auto simp: slot_audit_def audit_append_def Let_def sys_ok_def
        split: option.splits prod.splits if_splits dest!: w [rotated])
qed (simp add: slot_audit_def)

text \<open>The file of the audit log, which no call on the token changes.\<close>

definition log_fd :: "hsm_token \<Rightarrow> bytes option" where
  "log_fd tok = (case audit tok of None \<Rightarrow> None | Some log \<Rightarrow> al_fd log)"

lemma append_fd: "audit_append E log ts op role sl res detail w = (ok, log', w') \<Longrightarrow> al_fd log' = al_fd log"
  by (auto simp: audit_append_def Let_def split: option.splits if_splits prod.splits)

lemma log_fd_simps [simp]:
  "log_fd (slot_audit E op role sl res det tok) = log_fd tok" "log_fd (set_slot sid s tok) = log_fd tok"
  "log_fd (tok\<lparr>sessions := ss\<rparr>) = log_fd tok" "log_fd (tok\<lparr>persist_busy := b\<rparr>) = log_fd tok"
  by (auto simp: log_fd_def slot_audit_def set_slot_def split: option.splits prod.splits dest: append_fd)

lemma log_fd_only_core: "only_core tok t \<Longrightarrow> log_fd t = log_fd tok"
  unfolding only_core_def by (cases t, cases tok) (simp add: log_fd_def)

lemma audit_files: "log_fd tok \<noteq> Some p \<Longrightarrow> files (slot_audit E op role sl res det tok) p = files tok p"
  by (rule slot_audit_files) (simp add: log_fd_def)

lemma sec_slot_persist: "hook_ok H \<Longrightarrow> slot_persist H tok = (b, tok') \<Longrightarrow> sec tok' = sec tok"
proof -
  assume ok: "hook_ok H" and p: "slot_persist H tok = (b, tok')"
  have "sec (snd (H u (tok\<lparr>persist_busy := True\<rparr>))) = sec (tok\<lparr>persist_busy := True\<rparr>)" for u
    using ok by (simp add: hook_ok_def)
  then show ?thesis
    using p by (auto simp: slot_persist_def sec_def split: if_splits option.splits prod.splits)
      (metis snd_conv)+
qed

lemma sec_commit: "hook_ok H \<Longrightarrow> commit_security_state H stt tok = (s', tok') \<Longrightarrow> sec tok' = sec tok"
  by (auto simp: commit_security_state_def split: prod.splits dest: sec_slot_persist)

lemma sec_set_slot:
  "sec (set_slot sid s tok) =
     ((slots tok)[unat sid := s], sessions tok, session_gen tok, persist_fn tok, persist_busy tok)"
  by (simp add: sec_def set_slot_def)

lemma sec_set_slot_core:
  "only_core tok tok1 \<Longrightarrow> sec (set_slot sid s tok1) = sec (set_slot sid s tok)"
  using sec_only_core[of tok tok1] by (simp add: sec_set_slot) (simp add: sec_def)

text \<open>The status of a commit: an error stays, a success may become HSM\_ERR\_CRYPTO.\<close>

lemma commit_status:
  "commit_security_state H stt tok = (stt', tok') \<Longrightarrow>
     stt' = HSM_OK \<longleftrightarrow> stt = HSM_OK \<and> fst (slot_persist H tok)"
  by (auto simp: commit_security_state_def split: prod.splits if_splits)

section \<open>Critical sections only move the counter and the self-test\<close>

lemma only_core_install_software:
  "install_software E s alg info us po seed sl w = (r, s', w') \<Longrightarrow> only_core w w'"
  by (auto simp: install_software_def
      split: prod.splits if_splits option.splits sum.splits
      dest!: only_core_calls intro: only_core_trans)

end
