(* ===== verification/Slot_Inv.thy ===== *)
theory Slot_Inv
  imports Slot_Frame
begin

text \<open>
  The invariant of one slot between operations, and its preservation by every critical section of
  slot.c. It says that a slot claims a key exactly when it holds one, that a key is held in one form
  only (expanded, seed, or in hardware), that an uninitialised slot holds no secret, and that a
  slot whose user PIN failed three times is locked.
\<close>

section \<open>The invariant\<close>

definition has_key :: "slot \<Rightarrow> bool" where
  "has_key s \<longleftrightarrow> sl_sk s \<noteq> None \<or> sl_has_seed s \<or> sl_hw_resident s"

definition no_key :: "slot \<Rightarrow> bool" where
  "no_key s \<longleftrightarrow> sl_pk s = None \<and> sl_sk s = None \<and> sl_seed s = replicate 64 0 \<and> sl_seed_len s = 0 \<and>
     \<not> sl_has_seed s \<and> sl_hw_handle s = 0 \<and> \<not> sl_hw_resident s"

definition no_pins :: "slot \<Rightarrow> bool" where
  "no_pins s \<longleftrightarrow> sl_pin_key s = replicate 32 0 \<and>
     sl_so_salt s = replicate PIN_SALT_LEN 0 \<and> sl_so_verifier s = replicate VERIFIER_LEN 0 \<and>
     sl_user_salt s = replicate PIN_SALT_LEN 0 \<and> sl_user_verifier s = replicate VERIFIER_LEN 0 \<and>
     \<not> sl_has_so_pin s \<and> \<not> sl_has_user_pin s"

definition wf_arrays :: "slot \<Rightarrow> bool" where
  "wf_arrays s \<longleftrightarrow> length (sl_meta_tag s) = SLOT_META_TAG_LEN \<and> length (sl_pin_key s) = 32 \<and>
     length (sl_so_salt s) = PIN_SALT_LEN \<and> length (sl_so_verifier s) = VERIFIER_LEN \<and>
     length (sl_user_salt s) = PIN_SALT_LEN \<and> length (sl_user_verifier s) = VERIFIER_LEN \<and>
     length (sl_seed s) = 64"

text \<open>A held key fits its parameter set, usage and policy.\<close>

definition key_ok ::
    "pqc_alg \<Rightarrow> u32 \<Rightarrow> u32 \<Rightarrow> bytes option \<Rightarrow> bytes option \<Rightarrow> bool \<Rightarrow> nat \<Rightarrow> bool \<Rightarrow> bool" where
  "key_ok alg usage policy pk sk has_seed seed_len hw \<longleftrightarrow>
     (\<exists>info p. pqc_alg_info alg = Some info \<and> validate_usage alg usage = HSM_OK \<and>
        pk = Some p \<and> length p = ai_pk_len info \<and>
        (if hw then sk = None \<and> \<not> has_seed
         else if has_seed
           then sk = None \<and> seed_len = ai_seed_len info \<and> policy AND SLOT_POLICY_SEED_STORAGE \<noteq> 0
         else policy AND SLOT_POLICY_SEED_STORAGE = 0 \<and>
              (\<exists>k. sk = Some k \<and> length k = ai_sk_len info)))"

definition key_fits :: "slot \<Rightarrow> bool" where
  "key_fits s \<longleftrightarrow>
     key_ok (m_alg (sl_meta s)) (m_usage (sl_meta s)) (m_policy (sl_meta s)) (sl_pk s) (sl_sk s)
       (sl_has_seed s) (sl_seed_len s) (sl_hw_resident s) \<and>
     (\<not> sl_has_seed s \<longrightarrow> sl_seed_len s = 0) \<and>
     drop (sl_seed_len s) (sl_seed s) = replicate (64 - sl_seed_len s) 0"

abbreviation view :: "slot \<Rightarrow> key_view" where
  "view s \<equiv> view_of (st_of s, sl_pre_lock s)"

definition slot_inv :: "u32 \<Rightarrow> slot \<Rightarrow> bool" where
  "slot_inv sid s \<longleftrightarrow>
     wf_meta (sl_meta s) \<and> m_slot_id (sl_meta s) = sid \<and> wf_arrays s \<and>
     st_of s \<noteq> SLOT_ST_IN_USE \<and>
     (st_of s = SLOT_ST_LOCKED \<longrightarrow> sl_pre_lock s \<in> {SLOT_ST_EMPTY, SLOT_ST_LOADED}) \<and>
     (view s = Key \<longrightarrow> key_fits s) \<and>
     (view s \<noteq> Key \<longrightarrow> no_key s \<and> m_alg (sl_meta s) = PQC_ALG_NONE) \<and>
     (st_of s = SLOT_ST_UNINIT \<longrightarrow> no_pins s) \<and>
     (HSM_PIN_MAX_FAILS \<le> m_user_pin_fails (sl_meta s) \<longrightarrow> st_of s = SLOT_ST_LOCKED)"

text \<open>The device can seal: KMAC and the key derivation answer.\<close>

definition seal_total :: "env \<Rightarrow> bool" where
  "seal_total E \<longleftrightarrow> (\<forall>m. slot_meta_seal E m \<noteq> None)"

definition sealed :: "env \<Rightarrow> slot \<Rightarrow> bool" where
  "sealed E s \<longleftrightarrow> slot_meta_seal E (sl_meta s) = Some (sl_meta_tag s)"

lemma no_key_not_has: "no_key s \<Longrightarrow> \<not> has_key s"
  by (simp add: no_key_def has_key_def)

lemma key_fits_has: "key_fits s \<Longrightarrow> has_key s"
  by (auto simp: key_fits_def key_ok_def has_key_def split: if_splits)

lemma slot_inv_has_key: "slot_inv sid s \<Longrightarrow> has_key s \<longleftrightarrow> view s = Key"
  using key_fits_has no_key_not_has by (auto simp: slot_inv_def)

lemma slot_inv_arrays: "slot_inv sid s \<Longrightarrow> wf_arrays s"
  by (simp add: slot_inv_def)

section \<open>Sealing\<close>

lemma check_integrity_iff:
  "wf_arrays s \<Longrightarrow> slot_check_integrity E s = HSM_OK \<longleftrightarrow> sealed E s"
  by (auto simp: slot_check_integrity_def sealed_def wf_arrays_def slot_meta_verify_iff)

lemma check_integrity_cases: "slot_check_integrity E s \<in> {HSM_OK, HSM_ERR_INTEGRITY}"
  by (simp add: slot_check_integrity_def)

text \<open>A reseal changes the tag only, and leaves a sealed slot when it succeeds.\<close>

lemma slot_reseal_result:
  assumes "slot_reseal E s = (stt, s')"
  shows "\<exists>tag. s' = s\<lparr>sl_meta_tag := tag\<rparr> \<and> (wf_arrays s \<longrightarrow> wf_arrays s') \<and>
     (stt = HSM_OK \<longrightarrow> sealed E s') \<and> stt \<in> {HSM_OK, HSM_ERR_CRYPTO}"
  using assms
  by (auto simp: slot_reseal_def sealed_def wf_arrays_def slot_meta_seal_length split: option.splits
      intro: exI[of _ "sl_meta_tag s"])

lemma slot_reseal_total: "seal_total E \<Longrightarrow> fst (slot_reseal E s) = HSM_OK"
  by (auto simp: slot_reseal_def seal_total_def split: option.splits)

lemma parts_tag [simp, frame_simps]:
  "has_key (s\<lparr>sl_meta_tag := t\<rparr>) = has_key s"
  "no_key (s\<lparr>sl_meta_tag := t\<rparr>) = no_key s"
  "no_pins (s\<lparr>sl_meta_tag := t\<rparr>) = no_pins s"
  "key_fits (s\<lparr>sl_meta_tag := t\<rparr>) = key_fits s"
  by (simp_all add: has_key_def no_key_def no_pins_def key_fits_def)

lemma slot_inv_reseal:
  assumes "slot_inv sid s" "slot_reseal E s = (stt, s')"
  shows "slot_inv sid s'"
proof -
  obtain tag where "s' = s\<lparr>sl_meta_tag := tag\<rparr>" "wf_arrays s \<longrightarrow> wf_arrays s'"
    using slot_reseal_result[OF assms(2)] by blast
  then show ?thesis using assms(1) unfolding slot_inv_def by simp
qed

section \<open>The state machine on a slot\<close>

lemma set_meta_simps [simp]:
  "sl_meta (set_meta f s) = f (sl_meta s)"
  "sl_meta_tag (set_meta f s) = sl_meta_tag s"
  "sl_pre_lock (set_meta f s) = sl_pre_lock s"
  "sl_pin_key (set_meta f s) = sl_pin_key s"
  "sl_so_salt (set_meta f s) = sl_so_salt s"
  "sl_so_verifier (set_meta f s) = sl_so_verifier s"
  "sl_user_salt (set_meta f s) = sl_user_salt s"
  "sl_user_verifier (set_meta f s) = sl_user_verifier s"
  "sl_has_so_pin (set_meta f s) = sl_has_so_pin s"
  "sl_has_user_pin (set_meta f s) = sl_has_user_pin s"
  "sl_hw_handle (set_meta f s) = sl_hw_handle s"
  "sl_hw_resident (set_meta f s) = sl_hw_resident s"
  "sl_pk (set_meta f s) = sl_pk s"
  "sl_sk (set_meta f s) = sl_sk s"
  "sl_seed (set_meta f s) = sl_seed s"
  "sl_seed_len (set_meta f s) = sl_seed_len s"
  "sl_has_seed (set_meta f s) = sl_has_seed s"
  by (simp_all add: set_meta_def)

lemma fsm_apply_cases:
  assumes "fsm_apply s ev = (stt, s')"
  shows "stt = HSM_ERR_BAD_STATE \<and> s' = s \<and> slot_fsm_next (st_of s) ev = SLOT_ST_INVALID \<or>
     stt = HSM_OK \<and> slot_fsm_next (st_of s) ev \<noteq> SLOT_ST_INVALID \<and>
     (\<exists>t p. s' = set_meta (m_state_update (\<lambda>_. t)) (s\<lparr>sl_pre_lock := p\<rparr>) \<and>
        (t, p) = fsm_run1 (st_of s, sl_pre_lock s) ev)"
proof -
  have id: "s\<lparr>sl_pre_lock := sl_pre_lock s\<rparr> = s" by simp
  show ?thesis
    using assms
    by (auto simp: fsm_apply_def fsm_run1_def Let_def id split: if_splits)
qed

lemma slot_fsm_next_events:
  "slot_fsm_next s SLOT_EV_INIT_TOKEN = (if s = SLOT_ST_UNINIT then SLOT_ST_EMPTY else SLOT_ST_INVALID)"
  "slot_fsm_next s SLOT_EV_GENERATE = (if s = SLOT_ST_EMPTY then SLOT_ST_LOADED else SLOT_ST_INVALID)"
  "slot_fsm_next s SLOT_EV_LOAD = (if s = SLOT_ST_EMPTY then SLOT_ST_LOADED else SLOT_ST_INVALID)"
  "slot_fsm_next s SLOT_EV_USE_BEGIN = (if s = SLOT_ST_LOADED then SLOT_ST_IN_USE else SLOT_ST_INVALID)"
  "slot_fsm_next s SLOT_EV_USE_END = (if s = SLOT_ST_IN_USE then SLOT_ST_LOADED else SLOT_ST_INVALID)"
  "slot_fsm_next s SLOT_EV_DESTROY = (if s = SLOT_ST_LOADED then SLOT_ST_EMPTY else SLOT_ST_INVALID)"
  "slot_fsm_next s SLOT_EV_ZEROIZE = (if s = SLOT_ST_INVALID then SLOT_ST_INVALID else SLOT_ST_UNINIT)"
  "slot_fsm_next s SLOT_EV_PIN_LOCKOUT =
     (if s \<in> {SLOT_ST_EMPTY, SLOT_ST_LOADED, SLOT_ST_IN_USE} then SLOT_ST_LOCKED else SLOT_ST_INVALID)"
  "slot_fsm_next s SLOT_EV_SO_UNLOCK = (if s = SLOT_ST_LOCKED then SLOT_ST_LOADED else SLOT_ST_INVALID)"
  by (cases s; simp add: slot_fsm_next_simps)+

lemma fsm_apply_simps:
  "fsm_apply s SLOT_EV_INIT_TOKEN =
     (if st_of s = SLOT_ST_UNINIT then (HSM_OK, set_meta (m_state_update (\<lambda>_. SLOT_ST_EMPTY)) s)
      else (HSM_ERR_BAD_STATE, s))"
  "ev \<in> {SLOT_EV_GENERATE, SLOT_EV_LOAD} \<Longrightarrow> fsm_apply s ev =
     (if st_of s = SLOT_ST_EMPTY then (HSM_OK, set_meta (m_state_update (\<lambda>_. SLOT_ST_LOADED)) s)
      else (HSM_ERR_BAD_STATE, s))"
  "fsm_apply s SLOT_EV_USE_BEGIN =
     (if st_of s = SLOT_ST_LOADED then (HSM_OK, set_meta (m_state_update (\<lambda>_. SLOT_ST_IN_USE)) s)
      else (HSM_ERR_BAD_STATE, s))"
  "fsm_apply s SLOT_EV_USE_END =
     (if st_of s = SLOT_ST_IN_USE then (HSM_OK, set_meta (m_state_update (\<lambda>_. SLOT_ST_LOADED)) s)
      else (HSM_ERR_BAD_STATE, s))"
  "fsm_apply s SLOT_EV_DESTROY =
     (if st_of s = SLOT_ST_LOADED then (HSM_OK, set_meta (m_state_update (\<lambda>_. SLOT_ST_EMPTY)) s)
      else (HSM_ERR_BAD_STATE, s))"
  "fsm_apply s SLOT_EV_ZEROIZE =
     (if st_of s \<noteq> SLOT_ST_INVALID then (HSM_OK, set_meta (m_state_update (\<lambda>_. SLOT_ST_UNINIT)) s)
      else (HSM_ERR_BAD_STATE, s))"
  "fsm_apply s SLOT_EV_PIN_LOCKOUT =
     (if st_of s \<in> {SLOT_ST_EMPTY, SLOT_ST_LOADED, SLOT_ST_IN_USE}
      then (HSM_OK, set_meta (m_state_update (\<lambda>_. SLOT_ST_LOCKED)) (s\<lparr>sl_pre_lock := st_of s\<rparr>))
      else (HSM_ERR_BAD_STATE, s))"
  "fsm_apply s SLOT_EV_SO_UNLOCK =
     (if st_of s = SLOT_ST_LOCKED
      then (HSM_OK, set_meta (m_state_update (\<lambda>_. slot_fsm_unlock_target (sl_pre_lock s))) s)
      else (HSM_ERR_BAD_STATE, s))"
  by (auto simp: fsm_apply_def slot_fsm_next_events Let_def)

section \<open>Preservation\<close>

lemma parts_simps [simp, frame_simps]:
  "has_key (set_meta f s) = has_key s"
  "no_key (set_meta f s) = no_key s"
  "no_pins (set_meta f s) = no_pins s"
  "wf_arrays (set_meta f s) = wf_arrays s"
  "no_key (s\<lparr>sl_pre_lock := p\<rparr>) = no_key s"
  "no_pins (s\<lparr>sl_pre_lock := p\<rparr>) = no_pins s"
  "wf_arrays (s\<lparr>sl_pre_lock := p\<rparr>) = wf_arrays s"
  "key_fits (s\<lparr>sl_pre_lock := p\<rparr>) = key_fits s"
  "no_key (s\<lparr>sl_pin_key := k\<rparr>) = no_key s"
  "no_key (s\<lparr>sl_so_salt := k\<rparr>) = no_key s"
  "no_key (s\<lparr>sl_user_salt := k\<rparr>) = no_key s"
  "no_key (s\<lparr>sl_so_verifier := k, sl_has_so_pin := b\<rparr>) = no_key s"
  "no_key (s\<lparr>sl_user_verifier := k, sl_has_user_pin := b\<rparr>) = no_key s"
  "key_fits (s\<lparr>sl_user_salt := k\<rparr>) = key_fits s"
  "key_fits (s\<lparr>sl_user_verifier := k, sl_has_user_pin := b\<rparr>) = key_fits s"
  by (simp_all add: has_key_def no_key_def no_pins_def wf_arrays_def key_fits_def)

lemma key_fits_meta:
  "\<lbrakk>m_alg (f (sl_meta s)) = m_alg (sl_meta s); m_usage (f (sl_meta s)) = m_usage (sl_meta s);
    m_policy (f (sl_meta s)) = m_policy (sl_meta s)\<rbrakk> \<Longrightarrow> key_fits (set_meta f s) = key_fits s"
  by (simp add: key_fits_def)

lemma label_ok:
  "length (buf_write SLOT_LABEL_MAX (take (SLOT_LABEL_MAX - 1) l)) = SLOT_LABEL_MAX \<and>
   buf_write SLOT_LABEL_MAX (take (SLOT_LABEL_MAX - 1) l) ! (SLOT_LABEL_MAX - 1) = 0"
  by (simp add: buf_write_def SLOT_LABEL_MAX_def nth_append min_def)

lemma wf_meta_state:
  "wf_meta m \<Longrightarrow> t \<noteq> SLOT_ST_INVALID \<Longrightarrow> wf_meta (m\<lparr>m_state := t\<rparr>)"
  by (simp add: wf_meta_def)

lemma wf_meta_counters [simp]:
  "wf_meta (m_so_pin_fails_update f m) = wf_meta m"
  "wf_meta (m_user_pin_fails_update f m) = wf_meta m"
  "wf_meta (m\<lparr>m_use_count := c, m_last_used_at := t\<rparr>) = wf_meta m"
  by (simp_all add: wf_meta_def)

lemma pin_verifier_length: "pin_verifier E k i r s p = Some v \<Longrightarrow> length v = VERIFIER_LEN"
  by (auto simp: pin_verifier_def pqc_kmac256_length split: if_splits)

text \<open>The invariant in each state.\<close>

lemma slot_inv_states:
  "st_of s = SLOT_ST_UNINIT \<Longrightarrow> slot_inv sid s \<longleftrightarrow>
     wf_meta (sl_meta s) \<and> m_slot_id (sl_meta s) = sid \<and> wf_arrays s \<and> no_key s \<and> no_pins s \<and>
     m_alg (sl_meta s) = PQC_ALG_NONE \<and> m_user_pin_fails (sl_meta s) < HSM_PIN_MAX_FAILS"
  "st_of s = SLOT_ST_EMPTY \<Longrightarrow> slot_inv sid s \<longleftrightarrow>
     wf_meta (sl_meta s) \<and> m_slot_id (sl_meta s) = sid \<and> wf_arrays s \<and> no_key s \<and>
     m_alg (sl_meta s) = PQC_ALG_NONE \<and> m_user_pin_fails (sl_meta s) < HSM_PIN_MAX_FAILS"
  "st_of s = SLOT_ST_LOADED \<Longrightarrow> slot_inv sid s \<longleftrightarrow>
     wf_meta (sl_meta s) \<and> m_slot_id (sl_meta s) = sid \<and> wf_arrays s \<and> key_fits s \<and>
     m_user_pin_fails (sl_meta s) < HSM_PIN_MAX_FAILS"
  "st_of s = SLOT_ST_LOCKED \<Longrightarrow> slot_inv sid s \<longleftrightarrow>
     wf_meta (sl_meta s) \<and> m_slot_id (sl_meta s) = sid \<and> wf_arrays s \<and>
     (sl_pre_lock s = SLOT_ST_EMPTY \<and> no_key s \<and> m_alg (sl_meta s) = PQC_ALG_NONE \<or>
      sl_pre_lock s = SLOT_ST_LOADED \<and> key_fits s)"
  "st_of s = SLOT_ST_IN_USE \<Longrightarrow> \<not> slot_inv sid s"
  "st_of s = SLOT_ST_INVALID \<Longrightarrow> \<not> slot_inv sid s"
  by (auto simp: slot_inv_def not_le wf_meta_def)

lemma slot_inv_state_cases:
  assumes "slot_inv sid s"
  obtains "st_of s = SLOT_ST_UNINIT" | "st_of s = SLOT_ST_EMPTY" | "st_of s = SLOT_ST_LOADED"
    | "st_of s = SLOT_ST_LOCKED"
  using assms by (cases "st_of s") (simp_all add: slot_inv_states)

lemma pins_below [simp]: "(0 :: u32) < HSM_PIN_MAX_FAILS" "\<not> HSM_PIN_MAX_FAILS \<le> (0 :: u32)"
  by (simp_all add: HSM_PIN_MAX_FAILS_def)

lemmas reseal_inv = slot_inv_reseal[rotated]

lemma init_token_inv [inv_intros]:
  assumes "slot_inv sid s" "init_token_locked E s label pin w = (stt, s', w')"
  shows "slot_inv sid s'"
proof (cases "st_of s = SLOT_ST_UNINIT")
  case False
  then show ?thesis
    using assms by (auto simp: init_token_locked_def fsm_apply_simps split: if_splits)
next
  case True
  then have inv: "wf_meta (sl_meta s)" "m_slot_id (sl_meta s) = sid" "wf_arrays s" "no_key s"
    "m_user_pin_fails (sl_meta s) < HSM_PIN_MAX_FAILS"
    using assms(1) by (simp_all add: slot_inv_states)
  then show ?thesis
    using assms True label_ok
    by (auto simp: init_token_locked_def fsm_apply_simps Let_def slot_inv_states wf_meta_state
        wf_arrays_def wf_meta_def pin_verifier_length no_key_def
        split: if_splits prod.splits option.splits
        dest!: length_pqc_random_bytes elim!: reseal_inv)
qed

text \<open>Changing the user PIN's salt, verifier and failure counter.\<close>

lemma set_user_pin_inv [inv_intros]:
  assumes inv: "slot_inv sid s" and op: "set_user_pin_locked E s pin w = (stt, s', w')"
  shows "slot_inv sid s'"
proof -
  have salt: "slot_inv sid (s\<lparr>sl_user_salt := k\<rparr>)" if "length k = PIN_SALT_LEN" "st_of s \<noteq> SLOT_ST_UNINIT" for k
    using inv that by (simp add: slot_inv_def wf_arrays_def)
  have ver: "slot_inv sid (set_meta (m_user_pin_fails_update (\<lambda>_. 0))
      (s\<lparr>sl_user_salt := k, sl_user_verifier := v, sl_has_user_pin := True\<rparr>))"
    if "length k = PIN_SALT_LEN" "length v = VERIFIER_LEN" "st_of s \<noteq> SLOT_ST_UNINIT" for k v
    using inv that by (simp add: slot_inv_def wf_arrays_def key_fits_def no_key_def)
  have "length (sl_user_salt s) = PIN_SALT_LEN" using inv by (simp add: slot_inv_def wf_arrays_def)
  then show ?thesis
    using op inv
    by (auto simp: set_user_pin_locked_def Let_def salt ver pin_verifier_length
        split: if_splits prod.splits option.splits
        dest!: length_pqc_random_bytes elim!: reseal_inv)
qed

lemma fails_less: "n < HSM_PIN_MAX_FAILS \<Longrightarrow> \<not> HSM_PIN_MAX_FAILS \<le> n + 1 \<Longrightarrow> n + 1 < HSM_PIN_MAX_FAILS"
  by simp

lemma login_inv [inv_intros]:
  assumes inv: "slot_inv sid s" and op: "login_locked E s role pin = (stt, ok, chg, s')"
    and role: "role = HSM_ROLE_SO \<or> role = HSM_ROLE_USER"
  shows "slot_inv sid s'"
proof -
  have so: "slot_inv sid (set_meta (m_so_pin_fails_update f) s)" for f
    using inv by (simp add: slot_inv_def key_fits_meta)
  have zero: "slot_inv sid (set_meta (m_user_pin_fails_update (\<lambda>_. 0)) s)"
    using inv by (simp add: slot_inv_def key_fits_meta)
  define s1 where "s1 = set_meta (m_user_pin_fails_update (\<lambda>n. n + 1)) s"
  have inc: "slot_inv sid s1" if "\<not> HSM_PIN_MAX_FAILS \<le> m_user_pin_fails (sl_meta s1)"
    using inv that by (simp add: s1_def slot_inv_def key_fits_meta)
  have lock: "slot_inv sid (snd (fsm_apply s1 SLOT_EV_PIN_LOCKOUT))"
    if "st_of s \<noteq> SLOT_ST_UNINIT" "st_of s \<noteq> SLOT_ST_LOCKED"
    using inv that
    by (cases rule: slot_inv_state_cases[OF inv])
       (simp_all add: s1_def fsm_apply_simps slot_inv_states wf_meta_state key_fits_meta)
  show ?thesis
    using op inv so zero inc lock role
    unfolding login_locked_def Let_def s1_def[symmetric]
    by (auto split: if_splits prod.splits option.splits elim!: reseal_inv)
qed

section \<open>Installing a key\<close>

lemma map_sum_Inr_iff: "map_sum f g x = Inr y \<longleftrightarrow> (\<exists>z. x = Inr z \<and> y = g z)"
  by (cases x) auto

lemma keypair_from_seed_length:
  assumes "pqc_keypair_from_seed E alg seed n p q w = (Inr (pk, sk), w')" "pqc_alg_info alg = Some info"
  shows "length pk = ai_pk_len info" "length sk = ai_sk_len info"
  using assms
  by (auto simp: pqc_keypair_from_seed_def map_sum_Inr_iff split: prod.splits if_splits option.splits)

definition pins_of :: "slot \<Rightarrow> bytes list \<times> bool \<times> bool" where
  "pins_of s = ([sl_pin_key s, sl_so_salt s, sl_so_verifier s, sl_user_salt s, sl_user_verifier s],
     sl_has_so_pin s, sl_has_user_pin s)"

lemma pins_simps [simp, frame_simps]:
  "pins_of (s\<lparr>sl_meta_tag := t\<rparr>) = pins_of s"
  "pins_of (set_meta f s) = pins_of s"
  "pins_of (slot_wipe_key_material s) = pins_of s"
  by (simp_all add: pins_of_def slot_wipe_key_material_def)

text \<open>The slot as install\_key leaves it when it has a key: form \<open>f\<close> is hardware or software.\<close>

definition installed :: "pqc_alg \<Rightarrow> u32 \<Rightarrow> u32 \<Rightarrow> slot \<Rightarrow> slot \<Rightarrow> bool" where
  "installed alg usage policy s s' \<longleftrightarrow>
     key_fits s' \<and> sl_meta s' = key_meta alg usage policy (sl_meta s) \<and>
     sl_pre_lock s' = sl_pre_lock s \<and> pins_of s' = pins_of s \<and> (wf_arrays s \<longrightarrow> wf_arrays s')"

lemma install_hw_installed:
  assumes "validate_usage alg usage = HSM_OK" "pqc_alg_info alg = Some info" "length pk = ai_pk_len info"
  shows "installed alg usage policy s (install_hw alg usage policy pk hh s)"
  using assms
  by (simp add: installed_def install_hw_def key_fits_def key_ok_def key_meta_def pins_of_def
      slot_wipe_key_material_def pqc_secure_zero_def wf_arrays_def)

lemma install_sw_installed:
  assumes "validate_usage alg usage = HSM_OK" "pqc_alg_info alg = Some info" "length pk = ai_pk_len info"
    "length sk = ai_sk_len info" "length seed = ai_seed_len info"
  shows "installed alg usage policy s (install_sw alg usage policy pk sk seed s)"
  using assms
  by (simp add: installed_def install_sw_def key_fits_def key_ok_def key_meta_def Let_def pins_of_def
      slot_wipe_key_material_def pqc_secure_zero_def wf_arrays_def buf_write_def pqc_alg_info_bounds)

lemma install_finish_installed:
  assumes "install_finish E s1 = (r, s2)" "installed alg usage policy s s1" "seal_total E"
  shows "r = Inr (make_handle s2) \<and> installed alg usage policy s s2 \<and> sealed E s2"
proof -
  obtain stt where rs: "slot_reseal E s1 = (stt, s2)" "stt = HSM_OK"
    using assms(1,3) slot_reseal_total[of E s1] by (auto simp: install_finish_def split: prod.splits if_splits)
  then obtain tag where "s2 = s1\<lparr>sl_meta_tag := tag\<rparr>" "wf_arrays s1 \<longrightarrow> wf_arrays s2" "sealed E s2"
    using slot_reseal_result[OF rs(1)] by blast
  then show ?thesis
    using assms(1,2) rs by (auto simp: install_finish_def installed_def)
qed

text \<open>install\_key fails and leaves the slot as it was, or installs a key and seals the slot.\<close>

lemma install_software_cases:
  assumes "install_software E s alg info usage policy seed seed_len w = (r, s', w')"
    and "validate_usage alg usage = HSM_OK" "pqc_alg_info alg = Some info" "seal_total E"
    and "\<And>x. seed = Some x \<Longrightarrow> seed_len \<le> length x"
  shows "(\<exists>e. r = Inl e \<and> e \<noteq> HSM_OK \<and> s' = s) \<or>
     (r = Inr (make_handle s') \<and> installed alg usage policy s s' \<and> sealed E s')"
proof -
  have fin: "r = Inr (make_handle s') \<and> installed alg usage policy s s' \<and> sealed E s'"
    if "install_finish E (install_sw alg usage policy pk sk sd s) = (r, s')"
      "pqc_keypair_from_seed E alg (Some sd) (ai_seed_len info) True True w3 = (Inr (pk, sk), w4)"
      "length sd = ai_seed_len info" for pk sk sd w3 w4
    using install_finish_installed[OF that(1) install_sw_installed[OF assms(2,3)]] that(3) assms(3,4)
      keypair_from_seed_length[OF that(2)] by blast
  show ?thesis
    using assms(1,5)
    by (auto simp: install_software_def split: prod.splits if_splits option.splits sum.splits
        dest!: length_pqc_random_bytes dest: fin)
qed

lemma install_key_cases:
  assumes "install_key E s alg usage policy seed seed_len w = (r, s', w')" "seal_total E"
    and "\<And>x. seed = Some x \<Longrightarrow> seed_len \<le> length x"
  shows "(\<exists>e. r = Inl e \<and> e \<noteq> HSM_OK \<and> s' = s) \<or>
     (r = Inr (make_handle s') \<and> installed alg usage policy s s' \<and> sealed E s')"
proof (cases "validate_usage alg usage = HSM_OK")
  case False
  then show ?thesis using assms(1) by (auto simp: install_key_def)
next
  case v: True
  then obtain info where info: "pqc_alg_info alg = Some info"
    by (auto simp: validate_usage_def split: option.splits)
  have hw: "r = Inr (make_handle s') \<and> installed alg usage policy s s' \<and> sealed E s'"
    if "install_finish E (install_hw alg usage policy (buf_write (ai_pk_len info) pk) hh s) = (r, s')"
    for pk hh
    using install_finish_installed[OF that install_hw_installed[OF v info]] assms(2) by simp
  show ?thesis
    using assms(1) v info
    by (auto simp: install_key_def split: prod.splits if_splits option.splits sum.splits
        dest: hw install_software_cases[OF _ v info assms(2,3)])
qed

lemma fsm_apply_create:
  assumes "ev \<in> {SLOT_EV_GENERATE, SLOT_EV_LOAD}" "fsm_apply s ev = (stt, s1)"
  shows "stt = HSM_ERR_BAD_STATE \<and> s1 = s \<and> st_of s \<noteq> SLOT_ST_EMPTY \<or>
         stt = HSM_OK \<and> st_of s = SLOT_ST_EMPTY \<and> s1 = set_meta (m_state_update (\<lambda>_. SLOT_ST_LOADED)) s"
  using fsm_apply_simps(2)[OF assms(1), of s] assms(2) by (auto split: if_splits)

lemma set_state_twice [simp]:
  "set_meta (m_state_update (\<lambda>_. a)) (set_meta (m_state_update (\<lambda>_. b)) s) =
   set_meta (m_state_update (\<lambda>_. a)) s"
  by (simp add: set_meta_def)

lemma set_state_same [simp]: "st_of s = a \<Longrightarrow> set_meta (m_state_update (\<lambda>_. a)) s = s"
  by (cases s, cases "sl_meta s") (simp add: set_meta_def)

text \<open>
  create\_locked either fails and the slot is as before up to its tag (in the old state, with no
  key), or it succeeds from EMPTY with a key installed and the slot sealed.
\<close>

lemma create_locked_cases:
  assumes "create_locked E s alg usage policy seed seed_len ev w = (r, s', w')" "seal_total E"
    and "ev \<in> {SLOT_EV_GENERATE, SLOT_EV_LOAD}" "\<And>x. seed = Some x \<Longrightarrow> seed_len \<le> length x"
  shows "(\<exists>e. r = Inl e \<and> e \<noteq> HSM_OK \<and> (s' = s \<or>
            sealed E s' \<and> (\<exists>tag. s' = s\<lparr>sl_meta_tag := tag\<rparr> \<and> (wf_arrays s \<longrightarrow> wf_arrays s')))) \<or>
     (st_of s = SLOT_ST_EMPTY \<and> slot_check_integrity E s = HSM_OK \<and> r = Inr (make_handle s') \<and>
        installed alg usage policy (set_meta (m_state_update (\<lambda>_. SLOT_ST_LOADED)) s) s' \<and> sealed E s')"
proof (cases "slot_check_integrity E s = HSM_OK \<and> st_of s = SLOT_ST_EMPTY")
  case False
  then show ?thesis
    using assms(1) fsm_apply_create[OF assms(3)]
    by (auto simp: create_locked_def split: if_splits prod.splits) blast+
next
  case True
  let ?s1 = "set_meta (m_state_update (\<lambda>_. SLOT_ST_LOADED)) s"
  have f: "fsm_apply s ev = (HSM_OK, ?s1)" using fsm_apply_simps(2)[OF assms(3)] True by simp
  obtain r1 s2 w1 where k: "install_key E ?s1 alg usage policy seed seed_len w = (r1, s2, w1)"
    by (metis prod_cases3)
  from install_key_cases[OF k assms(2,4)] show ?thesis
  proof
    assume fail: "\<exists>e. r1 = Inl e \<and> e \<noteq> HSM_OK \<and> s2 = ?s1"
    then obtain e where e: "r1 = Inl e" "e \<noteq> HSM_OK" "s2 = ?s1" by blast
    obtain stt s3 where rs: "slot_reseal E s = (stt, s3)" by fastforce
    have "r = Inl e" "s' = s3"
      using assms(1) True f k e rs by (auto simp: create_locked_def)
    moreover have "stt = HSM_OK" using slot_reseal_total[OF assms(2), of s] rs by simp
    ultimately show ?thesis using slot_reseal_result[OF rs] e(2) by blast
  next
    assume "r1 = Inr (make_handle s2) \<and> installed alg usage policy ?s1 s2 \<and> sealed E s2"
    then show ?thesis using assms(1) True f k by (auto simp: create_locked_def)
  qed
qed

lemma slot_inv_tag_wf: "slot_inv sid s \<Longrightarrow> wf_arrays (s\<lparr>sl_meta_tag := tag\<rparr>) \<Longrightarrow> slot_inv sid (s\<lparr>sl_meta_tag := tag\<rparr>)"
  unfolding slot_inv_def by simp

lemma create_inv [inv_intros]:
  assumes inv: "slot_inv sid s"
    and "create_locked E s alg usage policy seed seed_len ev w = (r, s', w')" "seal_total E"
    and "ev \<in> {SLOT_EV_GENERATE, SLOT_EV_LOAD}" "\<And>x. seed = Some x \<Longrightarrow> seed_len \<le> length x"
  shows "slot_inv sid s'"
  using create_locked_cases[OF assms(2-5)]
proof
  assume "\<exists>e. r = Inl e \<and> e \<noteq> HSM_OK \<and> (s' = s \<or>
    sealed E s' \<and> (\<exists>tag. s' = s\<lparr>sl_meta_tag := tag\<rparr> \<and> (wf_arrays s \<longrightarrow> wf_arrays s')))"
  then show ?thesis using inv slot_inv_tag_wf slot_inv_arrays by blast
next
  assume a: "st_of s = SLOT_ST_EMPTY \<and> slot_check_integrity E s = HSM_OK \<and> r = Inr (make_handle s') \<and>
    installed alg usage policy (set_meta (m_state_update (\<lambda>_. SLOT_ST_LOADED)) s) s' \<and> sealed E s'"
  then have st: "st_of s' = SLOT_ST_LOADED" and fits: "key_fits s'" and arr: "wf_arrays s'"
    and meta: "sl_meta s' = key_meta alg usage policy ((sl_meta s)\<lparr>m_state := SLOT_ST_LOADED\<rparr>)"
    using slot_inv_arrays[OF inv] by (simp_all add: installed_def key_meta_def)
  have "pqc_alg_info alg \<noteq> None" using fits meta by (auto simp: key_fits_def key_ok_def key_meta_def)
  then show ?thesis
    using inv a st fits arr meta by (simp add: slot_inv_states wf_meta_def key_meta_def)
qed

section \<open>Using and destroying a key\<close>

abbreviation used :: "u64 \<Rightarrow> u64 \<Rightarrow> slot \<Rightarrow> slot" where
  "used c t s \<equiv> set_meta (\<lambda>m. m\<lparr>m_use_count := c, m_last_used_at := t\<rparr>) s"

abbreviation in_use :: "slot \<Rightarrow> slot" where
  "in_use s \<equiv> set_meta (m_state_update (\<lambda>_. SLOT_ST_IN_USE)) s"

lemma check_handle_OK:
  "check_handle E s h = HSM_OK \<Longrightarrow>
     (st_of s = SLOT_ST_LOADED \<or> st_of s = SLOT_ST_IN_USE) \<and> slot_check_integrity E s = HSM_OK \<and>
     (ucast h :: u32) = m_slot_id (sl_meta s) + 1 \<and> (ucast (drop_bit 32 h) :: u32) = m_generation (sl_meta s)"
  by (auto simp: check_handle_def split: if_splits)

lemma begin_use_cases:
  assumes "begin_use E s h need w = (r, s1, w1)"
  shows "(case r of
      Inl e \<Rightarrow> e \<noteq> HSM_OK \<and> s1 = s
    | Inr k \<Rightarrow> s1 = in_use s \<and> st_of s = SLOT_ST_LOADED \<and> check_handle E s h = HSM_OK \<and>
        m_usage (sl_meta s) AND need \<noteq> 0 \<and> borrow_secret E s1 w = (Inr k, w1))"
proof -
  have b: "e \<noteq> HSM_OK" if "borrow_secret E s2 w = (Inl e, w2)" for s2 e w2
    using that by (auto simp: borrow_secret_def split: if_splits option.splits prod.splits sum.splits)
  have s: "st_of s = SLOT_ST_LOADED \<Longrightarrow> snd (fsm_apply (in_use s) SLOT_EV_USE_END) = s"
    by (simp add: fsm_apply_simps)
  show ?thesis
    using assms b s
    by (auto simp: begin_use_def fsm_apply_simps split: if_splits prod.splits sum.splits)
qed

lemma end_use_cases:
  assumes "end_use E (in_use s) op w = (stt, s2, w2)" "st_of s = SLOT_ST_LOADED"
  shows "\<exists>c t tag. s2 = (used c t s)\<lparr>sl_meta_tag := tag\<rparr> \<and> (wf_arrays s \<longrightarrow> wf_arrays s2) \<and>
     (op \<noteq> HSM_OK \<longrightarrow> stt = op) \<and> (stt = HSM_OK \<longrightarrow> op = HSM_OK \<and> sealed E s2) \<and>
     (seal_total E \<longrightarrow> sealed E s2) \<and>
     (op = HSM_OK \<longrightarrow> c = m_use_count (sl_meta s) + 1 \<and> t = clock E (tick w)) \<and>
     (op \<noteq> HSM_OK \<longrightarrow> c = m_use_count (sl_meta s) \<and> t = m_last_used_at (sl_meta s))"
proof -
  let ?m = "\<lambda>m. if op = HSM_OK then m\<lparr>m_use_count := m_use_count m + 1, m_last_used_at := clock E (tick w)\<rparr> else m"
  let ?c = "if op = HSM_OK then m_use_count (sl_meta s) + 1 else m_use_count (sl_meta s)"
  let ?t = "if op = HSM_OK then clock E (tick w) else m_last_used_at (sl_meta s)"
  have same: "used (m_use_count (sl_meta s)) (m_last_used_at (sl_meta s)) s = s"
    by (cases s, cases "sl_meta s") (simp add: set_meta_def)
  have inc: "set_meta (\<lambda>m. m\<lparr>m_use_count := m_use_count m + 1, m_last_used_at := clock E (tick w)\<rparr>) s =
     used (m_use_count (sl_meta s) + 1) (clock E (tick w)) s"
    by (simp add: set_meta_def)
  obtain rs s3 where r: "slot_reseal E (used ?c ?t s) = (rs, s3)" by fastforce
  have res: "stt = (if op \<noteq> HSM_OK then op else rs)" "s2 = s3"
    using assms r by (auto simp: end_use_def fsm_apply_simps Let_def same inc split: if_splits prod.splits)
  obtain tag where t: "s3 = (used ?c ?t s)\<lparr>sl_meta_tag := tag\<rparr>"
    "wf_arrays (used ?c ?t s) \<longrightarrow> wf_arrays s3" "rs = HSM_OK \<longrightarrow> sealed E s3"
    using slot_reseal_result[OF r] by blast
  have tot: "seal_total E \<longrightarrow> rs = HSM_OK" using slot_reseal_total[of E "used ?c ?t s"] r by simp
  show ?thesis
    by (rule exI[of _ ?c], rule exI[of _ ?t], rule exI[of _ tag]) (use t tot res in auto)
qed

lemma used_inv:
  assumes "slot_inv sid s" "wf_arrays ((used c t s)\<lparr>sl_meta_tag := tag\<rparr>)"
  shows "slot_inv sid ((used c t s)\<lparr>sl_meta_tag := tag\<rparr>)"
  using assms unfolding slot_inv_def by (simp add: key_fits_meta)

text \<open>
  What sign\_locked and decaps\_locked do to the slot: nothing when the use does not begin, else the
  use counter and time of a successful operation, and a new seal.
\<close>

definition use_result ::
    "env \<Rightarrow> slot \<Rightarrow> u64 \<Rightarrow> u32 \<Rightarrow> bool \<Rightarrow> hsm_status \<Rightarrow> bytes option \<Rightarrow> slot \<Rightarrow> bool" where
  "use_result E s h need begun stt bs s' \<longleftrightarrow>
     (if \<not> begun then stt \<noteq> HSM_OK \<and> bs = None \<and> s' = s
      else st_of s = SLOT_ST_LOADED \<and> check_handle E s h = HSM_OK \<and> m_usage (sl_meta s) AND need \<noteq> 0 \<and>
        (stt = HSM_OK \<longrightarrow> bs \<noteq> None \<and> sealed E s') \<and> (seal_total E \<longrightarrow> sealed E s') \<and>
        (\<exists>c t tag. s' = (used c t s)\<lparr>sl_meta_tag := tag\<rparr> \<and> (wf_arrays s \<longrightarrow> wf_arrays s') \<and>
           c = (if bs = None then m_use_count (sl_meta s) else m_use_count (sl_meta s) + 1)))"

lemma use_result_end:
  assumes "end_use E (in_use s) op w = (stt, s', w')" "st_of s = SLOT_ST_LOADED"
    "check_handle E s h = HSM_OK" "m_usage (sl_meta s) AND need \<noteq> 0" "bs \<noteq> None \<longleftrightarrow> op = HSM_OK"
  shows "use_result E s h need True stt bs s'"
proof -
  obtain c t tag where e: "s' = (used c t s)\<lparr>sl_meta_tag := tag\<rparr>" "wf_arrays s \<longrightarrow> wf_arrays s'"
    "stt = HSM_OK \<longrightarrow> op = HSM_OK \<and> sealed E s'" "seal_total E \<longrightarrow> sealed E s'"
    "op = HSM_OK \<longrightarrow> c = m_use_count (sl_meta s) + 1" "op \<noteq> HSM_OK \<longrightarrow> c = m_use_count (sl_meta s)"
    using end_use_cases[OF assms(1,2)] by blast
  have "c = (if bs = None then m_use_count (sl_meta s) else m_use_count (sl_meta s) + 1)"
    using e(5,6) assms(5) by auto
  then show ?thesis
    using assms(2-5) e unfolding use_result_def by auto
qed

lemma sign_locked_result:
  assumes "sign_locked E s h msg ml ctx cl sig sl w = (begun, stt, bs, s', w')"
  shows "use_result E s h KEY_USAGE_SIGN begun stt bs s'"
proof -
  obtain r s1 w1 where b: "begin_use E s h KEY_USAGE_SIGN w = (r, s1, w1)" by (metis prod_cases3)
  show ?thesis
  proof (cases r)
    case (Inl e)
    then show ?thesis
      using assms b begin_use_cases[OF b] by (auto simp: sign_locked_def use_result_def)
  next
    case (Inr k)
    then have s1: "s1 = in_use s" "st_of s = SLOT_ST_LOADED" "check_handle E s h = HSM_OK"
      "m_usage (sl_meta s) AND KEY_USAGE_SIGN \<noteq> 0"
      using begin_use_cases[OF b] by auto
    note fin = use_result_end[OF _ s1(2-4)]
    show ?thesis
      using assms b Inr
      by (auto simp: sign_locked_def s1(1) split: option.splits prod.splits if_splits sum.splits
          intro: fin)
  qed
qed

lemma decaps_locked_result:
  assumes "decaps_locked E s h ct cl ss sl w = (begun, stt, bs, s', w')"
  shows "use_result E s h KEY_USAGE_DECAP begun stt bs s'"
proof -
  obtain r s1 w1 where b: "begin_use E s h KEY_USAGE_DECAP w = (r, s1, w1)" by (metis prod_cases3)
  show ?thesis
  proof (cases r)
    case (Inl e)
    then show ?thesis
      using assms b begin_use_cases[OF b] by (auto simp: decaps_locked_def use_result_def)
  next
    case (Inr k)
    then have s1: "s1 = in_use s" "st_of s = SLOT_ST_LOADED" "check_handle E s h = HSM_OK"
      "m_usage (sl_meta s) AND KEY_USAGE_DECAP \<noteq> 0"
      using begin_use_cases[OF b] by auto
    note fin = use_result_end[OF _ s1(2-4)]
    show ?thesis
      using assms b Inr
      by (auto simp: decaps_locked_def s1(1) split: option.splits prod.splits if_splits sum.splits
          intro: fin)
  qed
qed

lemma use_inv [inv_intros]:
  assumes "slot_inv sid s" "use_result E s h need begun stt bs s'"
  shows "slot_inv sid s'"
  using assms slot_inv_arrays[OF assms(1)]
  by (auto simp: use_result_def split: if_splits intro!: used_inv)

lemma destroy_locked_cases:
  assumes "destroy_locked E s h = (stt, s')"
  shows "s' = s \<and> stt \<noteq> HSM_OK \<or>
     check_handle E s h = HSM_OK \<and> st_of s = SLOT_ST_LOADED \<and>
     slot_reseal E (set_meta (\<lambda>m. m\<lparr>m_alg := PQC_ALG_NONE, m_usage := 0, m_policy := 0,
         m_generation := m_generation m + 1, m_state := SLOT_ST_EMPTY\<rparr>) (slot_wipe_key_material s)) = (stt, s')"
proof -
  have "set_meta (\<lambda>m. m\<lparr>m_alg := PQC_ALG_NONE, m_usage := 0, m_policy := 0, m_generation := m_generation m + 1\<rparr>)
      (slot_wipe_key_material (set_meta (m_state_update (\<lambda>_. SLOT_ST_EMPTY)) s)) =
    set_meta (\<lambda>m. m\<lparr>m_alg := PQC_ALG_NONE, m_usage := 0, m_policy := 0,
      m_generation := m_generation m + 1, m_state := SLOT_ST_EMPTY\<rparr>) (slot_wipe_key_material s)"
    by (simp add: set_meta_def slot_wipe_key_material_def)
  then show ?thesis
    using assms by (auto simp: destroy_locked_def fsm_apply_simps split: if_splits prod.splits)
qed

lemma wipe_no_key [simp]: "no_key (slot_wipe_key_material s)"
  by (simp add: no_key_def slot_wipe_key_material_def pqc_secure_zero_def)

lemma wipe_wf [simp]: "wf_arrays s \<Longrightarrow> wf_arrays (slot_wipe_key_material s)"
  by (simp add: wf_arrays_def slot_wipe_key_material_def)

lemma wipe_meta [simp]:
  "sl_meta (slot_wipe_key_material s) = sl_meta s" "sl_pre_lock (slot_wipe_key_material s) = sl_pre_lock s"
  by (simp_all add: slot_wipe_key_material_def)

lemma destroy_inv [inv_intros]:
  assumes inv: "slot_inv sid s" and op: "destroy_locked E s h = (stt, s')"
  shows "slot_inv sid s'"
  using destroy_locked_cases[OF op]
proof
  assume d: "check_handle E s h = HSM_OK \<and> st_of s = SLOT_ST_LOADED \<and>
     slot_reseal E (set_meta (\<lambda>m. m\<lparr>m_alg := PQC_ALG_NONE, m_usage := 0, m_policy := 0,
         m_generation := m_generation m + 1, m_state := SLOT_ST_EMPTY\<rparr>) (slot_wipe_key_material s)) = (stt, s')"
  then have "slot_inv sid (set_meta (\<lambda>m. m\<lparr>m_alg := PQC_ALG_NONE, m_usage := 0, m_policy := 0,
         m_generation := m_generation m + 1, m_state := SLOT_ST_EMPTY\<rparr>) (slot_wipe_key_material s))"
    using inv by (simp add: slot_inv_states wf_meta_def)
  then show ?thesis using d slot_inv_reseal by blast
qed (use inv in simp)

text \<open>A slot that was zeroized: everything secret is gone and the generation moved on.\<close>

definition zeroized :: "slot \<Rightarrow> slot \<Rightarrow> bool" where
  "zeroized s s' \<longleftrightarrow>
     sl_meta s' = blank_meta (m_slot_id (sl_meta s)) (m_generation (sl_meta s) + 1) \<and>
     no_key s' \<and> no_pins s' \<and> sl_pre_lock s' = SLOT_ST_EMPTY \<and> (wf_arrays s \<longrightarrow> wf_arrays s')"

lemma do_zeroize_cases:
  assumes "do_zeroize E s = (stt, s')"
  shows "if st_of s = SLOT_ST_INVALID then s' = s \<and> stt = HSM_ERR_BAD_STATE
         else zeroized s s' \<and> (stt = HSM_OK \<longrightarrow> sealed E s') \<and> (seal_total E \<longrightarrow> stt = HSM_OK)"
proof (cases "st_of s = SLOT_ST_INVALID")
  case True
  then show ?thesis using assms by (simp add: do_zeroize_def fsm_apply_simps)
next
  case False
  define z where "z = (slot_wipe_pins (slot_wipe_key_material s))
      \<lparr>sl_meta := blank_meta (m_slot_id (sl_meta s)) (m_generation (sl_meta s) + 1), sl_pre_lock := SLOT_ST_EMPTY\<rparr>"
  have "(slot_wipe_pins (slot_wipe_key_material (set_meta f s)))\<lparr>sl_meta := m, sl_pre_lock := p\<rparr> =
      (slot_wipe_pins (slot_wipe_key_material s))\<lparr>sl_meta := m, sl_pre_lock := p\<rparr>" for f m p
    by (simp add: set_meta_def slot_wipe_pins_def slot_wipe_key_material_def)
  then have r: "slot_reseal E z = (stt, s')"
    using assms False
    by (simp add: do_zeroize_def fsm_apply_simps Let_def z_def slot_wipe_pins_def)
  have "zeroized s z"
    by (simp add: z_def zeroized_def no_key_def no_pins_def slot_wipe_pins_def slot_wipe_key_material_def
        pqc_secure_zero_def wf_arrays_def)
  then have "zeroized s s'"
    using slot_reseal_result[OF r] by (auto simp: zeroized_def)
  then show ?thesis
    using False slot_reseal_result[OF r] slot_reseal_total[of E z] r by auto
qed

lemma wf_blank_meta [simp]: "wf_meta (blank_meta i g)"
  by (simp add: wf_meta_def blank_meta_def SLOT_LABEL_MAX_def)

lemma zeroized_inv: "slot_inv sid s \<Longrightarrow> zeroized s s' \<Longrightarrow> slot_inv sid s'"
  using slot_inv_arrays[of sid s]
  by (simp add: zeroized_def slot_inv_def blank_meta_def wf_blank_meta[unfolded blank_meta_def]
      HSM_PIN_MAX_FAILS_def)

lemma zeroize_inv [inv_intros]:
  assumes "slot_inv sid s" "do_zeroize E s = (stt, s')"
  shows "slot_inv sid s'"
  using do_zeroize_cases[OF assms(2)] zeroized_inv[OF assms(1)] assms(1) by (auto split: if_splits)

lemma unlock_locked_cases:
  assumes "unlock_locked E s = (stt, s')"
  shows "s' = s \<and> stt \<noteq> HSM_OK \<or>
     st_of s = SLOT_ST_LOCKED \<and> slot_check_integrity E s = HSM_OK \<and>
     slot_reseal E (set_meta (\<lambda>m. m\<lparr>m_state := slot_fsm_unlock_target (sl_pre_lock s), m_user_pin_fails := 0\<rparr>) s)
       = (stt, s')"
proof -
  show ?thesis
    using assms
    by (auto simp: unlock_locked_def fsm_apply_simps set_meta_def split: if_splits prod.splits)
qed

lemma unlock_inv [inv_intros]:
  assumes inv: "slot_inv sid s" and op: "unlock_locked E s = (stt, s')"
  shows "slot_inv sid s'"
  using unlock_locked_cases[OF op]
proof
  let ?u = "set_meta (\<lambda>m. m\<lparr>m_state := slot_fsm_unlock_target (sl_pre_lock s), m_user_pin_fails := 0\<rparr>) s"
  assume u: "st_of s = SLOT_ST_LOCKED \<and> slot_check_integrity E s = HSM_OK \<and> slot_reseal E ?u = (stt, s')"
  have "slot_inv sid ?u"
    using inv u
    by (auto simp: slot_inv_states slot_fsm_unlock_target_def wf_meta_def key_fits_meta)
  then show ?thesis using u slot_inv_reseal by blast
qed (use inv in simp)

end
