(* ===== verification/Slot_Token.thy ===== *)
theory Slot_Token
  imports Slot_Inv
begin

text \<open>
  The token as a state machine. \<open>tok_exec\<close> runs one public call of slot.c; \<open>permitted\<close> is the specification
  of who may make it; \<open>dev_step\<close> is the abstract device: slots, sessions and the session counter, and what a
  permitted call may do to them. Every call refines a step of the abstract device, so the invariant of the token, the revocation of
  handles and the freshness of sessions are proved on the abstract device once.
\<close>

section \<open>The calls\<close>

datatype tok_op =
    Init u32 "bytes option" "bytes option"
  | Set_User_Pin u64 "bytes option"
  | Session_Open u32 bool
  | Session_Close u64
  | Login u64 hsm_role "bytes option"
  | Logout u64
  | Generate u64 pqc_alg u32 u32 bool
  | Load_Seed u64 pqc_alg u32 u32 "bytes option" nat bool
  | Sign u64 u64 "bytes option" nat "bytes option" nat "nat option" bool
  | Decaps u64 u64 "bytes option" nat "nat option" bool
  | Destroy u64 u64
  | Zeroize u64 u32
  | Zeroize_Forced u32
  | Unlock u64 u32

fun tok_exec :: "env \<Rightarrow> hook \<Rightarrow> tok_op \<Rightarrow> hsm_token \<Rightarrow> hsm_status \<times> hsm_token" where
  "tok_exec E H (Init sid label pin) tok = hsm_slot_init_token E H tok sid label pin"
| "tok_exec E H (Set_User_Pin sess pin) tok = hsm_slot_set_user_pin E H tok sess pin"
| "tok_exec E H (Session_Open sid out) tok =
     (case hsm_session_open tok sid out of (r, tok') \<Rightarrow> (res_status r, tok'))"
| "tok_exec E H (Session_Close sess) tok = hsm_session_close tok sess"
| "tok_exec E H (Login sess role pin) tok = hsm_session_login E H tok sess role pin"
| "tok_exec E H (Logout sess) tok = hsm_session_logout tok sess"
| "tok_exec E H (Generate sess alg usage policy out) tok =
     (case hsm_slot_generate E H tok sess alg usage policy out of (stt, _, tok') \<Rightarrow> (stt, tok'))"
| "tok_exec E H (Load_Seed sess alg usage policy seed n out) tok =
     (case hsm_slot_load_seed E H tok sess alg usage policy seed n out of (stt, _, tok') \<Rightarrow> (stt, tok'))"
| "tok_exec E H (Sign sess h msg ml ctx cl sig sl) tok =
     (case hsm_object_sign E tok sess h msg ml ctx cl sig sl of (stt, _, tok') \<Rightarrow> (stt, tok'))"
| "tok_exec E H (Decaps sess h ct cl ss sl) tok =
     (case hsm_object_decaps E tok sess h ct cl ss sl of (stt, _, tok') \<Rightarrow> (stt, tok'))"
| "tok_exec E H (Destroy sess h) tok = hsm_object_destroy E H tok sess h"
| "tok_exec E H (Zeroize sess sid) tok = hsm_slot_zeroize E H tok sess sid"
| "tok_exec E H (Zeroize_Forced sid) tok = hsm_slot_zeroize_forced E H tok sid"
| "tok_exec E H (Unlock sess sid) tok = hsm_slot_unlock E H tok sess sid"

text \<open>The caller's side of the contract: a seed of \<open>n\<close> bytes has \<open>n\<close> bytes.\<close>

fun op_ok :: "tok_op \<Rightarrow> bool" where
  "op_ok (Load_Seed sess alg usage policy seed n out) =
     (case seed of None \<Rightarrow> True | Some x \<Rightarrow> n \<le> length x)"
| "op_ok _ = True"

fun tok_run :: "env \<Rightarrow> hook \<Rightarrow> tok_op list \<Rightarrow> hsm_token \<Rightarrow> hsm_token" where
  "tok_run E H [] tok = tok"
| "tok_run E H (op # ops) tok = tok_run E H ops (snd (tok_exec E H op tok))"

section \<open>Who may call\<close>

text \<open>The role a call asks for, and the session it is made in.\<close>

fun op_needs :: "tok_op \<Rightarrow> (u64 \<times> hsm_role) option" where
  "op_needs (Set_User_Pin sess pin) = Some (sess, HSM_ROLE_SO)"
| "op_needs (Generate sess alg us po out) = Some (sess, HSM_ROLE_USER)"
| "op_needs (Load_Seed sess alg us po seed n out) = Some (sess, HSM_ROLE_USER)"
| "op_needs (Sign sess h msg ml ctx cl sig sl) = Some (sess, HSM_ROLE_USER)"
| "op_needs (Decaps sess h ct cl ss sl) = Some (sess, HSM_ROLE_USER)"
| "op_needs (Destroy sess h) = Some (sess, HSM_ROLE_USER)"
| "op_needs (Zeroize sess sid) = Some (sess, HSM_ROLE_SO)"
| "op_needs (Unlock sess sid) = Some (sess, HSM_ROLE_SO)"
| "op_needs _ = None"

text \<open>The slot and the role that a session id stands for in a session table.\<close>

definition granted :: "session list \<Rightarrow> u64 \<Rightarrow> (u32 \<times> hsm_role) option" where
  "granted ss sess =
     (if sess = 0 \<or> sess_idx sess = 0 \<or> sess_idx sess > MAX_SESSIONS then None
      else let s = ss ! (sess_idx sess - 1) in
        if se_open s \<and> se_gen s = sess_gen sess then Some (se_slot s, se_role s) else None)"

text \<open>
  The guard of a call that works on slot \<open>i\<close>: initialisation, forced zeroization and opening a session
  are for anyone who names the slot; closing a session, logging in and logging out are for the holder of a
  session on the slot; every other call is for a session that is logged in to the slot in the role it asks
  for, and zeroizing and unlocking must name that slot as well.
\<close>

fun permitted :: "session list \<Rightarrow> tok_op \<Rightarrow> u32 \<Rightarrow> bool" where
  "permitted ss (Init sid label pin) i = (sid = i)"
| "permitted ss (Zeroize_Forced sid) i = (sid = i)"
| "permitted ss (Session_Open sid out) i = (sid = i)"
| "permitted ss (Session_Close sess) i = (\<exists>r. granted ss sess = Some (i, r))"
| "permitted ss (Logout sess) i = (\<exists>r. granted ss sess = Some (i, r))"
| "permitted ss (Login sess role pin) i = (\<exists>r. granted ss sess = Some (i, r))"
| "permitted ss (Set_User_Pin sess pin) i = (granted ss sess = Some (i, HSM_ROLE_SO))"
| "permitted ss (Zeroize sess sid) i = (granted ss sess = Some (i, HSM_ROLE_SO) \<and> sid = i)"
| "permitted ss (Unlock sess sid) i = (granted ss sess = Some (i, HSM_ROLE_SO) \<and> sid = i)"
| "permitted ss (Generate sess alg us po out) i = (granted ss sess = Some (i, HSM_ROLE_USER))"
| "permitted ss (Load_Seed sess alg us po seed n out) i = (granted ss sess = Some (i, HSM_ROLE_USER))"
| "permitted ss (Sign sess h msg ml ctx cl sig sl) i = (granted ss sess = Some (i, HSM_ROLE_USER))"
| "permitted ss (Decaps sess h ct cl ss' sl) i = (granted ss sess = Some (i, HSM_ROLE_USER))"
| "permitted ss (Destroy sess h) i = (granted ss sess = Some (i, HSM_ROLE_USER))"

section \<open>The abstract device\<close>

text \<open>What a call makes a key from, and the key it uses, with the usage it needs.\<close>

fun creates :: "tok_op \<Rightarrow> (pqc_alg \<times> u32 \<times> u32 \<times> bytes option \<times> nat \<times> slot_event) option" where
  "creates (Generate sess alg us po out) = Some (alg, us, po, None, 0, SLOT_EV_GENERATE)"
| "creates (Load_Seed sess alg us po seed n out) = Some (alg, us, po, seed, n, SLOT_EV_LOAD)"
| "creates _ = None"

fun uses :: "tok_op \<Rightarrow> (u64 \<times> u32) option" where
  "uses (Sign sess h msg ml ctx cl sig sl) = Some (h, KEY_USAGE_SIGN)"
| "uses (Decaps sess h ct cl ss sl) = Some (h, KEY_USAGE_DECAP)"
| "uses _ = None"

lemma creates_ok:
  "creates op = Some (alg, us, po, seed, n, ev) \<Longrightarrow> ev \<in> {SLOT_EV_GENERATE, SLOT_EV_LOAD}"
  "creates op = Some (alg, us, po, seed, n, ev) \<Longrightarrow> op_ok op \<Longrightarrow> seed = Some x \<Longrightarrow> n \<le> length x"
  by (cases op; auto)+

text \<open>
  What the critical section of a call does to its slot and the status it ends with; zeroizing and
  logging in, which touch the session table too, are steps of their own.
\<close>

inductive crit :: "env \<Rightarrow> tok_op \<Rightarrow> hsm_status \<Rightarrow> slot \<Rightarrow> slot \<Rightarrow> bool" for E where
  crit_init: "init_token_locked E s l p (w :: hsm_token) = (stt, s', w') \<Longrightarrow>
     crit E (Init sid (Some l) (Some p)) stt s s'"
| crit_user_pin: "set_user_pin_locked E s p (w :: hsm_token) = (stt, s', w') \<Longrightarrow>
     crit E (Set_User_Pin sess (Some p)) stt s s'"
| crit_create: "\<lbrakk>create_locked E s alg us po seed n ev (w :: hsm_token) = (r, s', w');
     creates op = Some (alg, us, po, seed, n, ev); op_ok op\<rbrakk> \<Longrightarrow> crit E op (res_status r) s s'"
| crit_use: "\<lbrakk>use_result E s h need b stt bs s'; uses op = Some (h, need)\<rbrakk> \<Longrightarrow> crit E op stt s s'"
| crit_destroy: "destroy_locked E s h = (stt, s') \<Longrightarrow> crit E (Destroy sess h) stt s s'"
| crit_unlock: "unlock_locked E s = (stt, s') \<Longrightarrow> crit E (Unlock sess sid) stt s s'"

type_synonym dev = "slot list \<times> session list \<times> u32"

abbreviation dev_of :: "hsm_token \<Rightarrow> dev" where
  "dev_of tok \<equiv> (slots tok, sessions tok, session_gen tok)"

definition drop_roles :: "u32 \<Rightarrow> session list \<Rightarrow> session list" where
  "drop_roles sid ss =
     map (\<lambda>s. if se_open s \<and> se_slot s = sid then s\<lparr>se_role := HSM_ROLE_PUBLIC\<rparr> else s) ss"

text \<open>
  A step is labelled by the call and its answer. A step that leaves the device as it is must report an
  error; every other step has the guard of its call, and a call that reports success has done its work:
  its critical section ended in success.
\<close>

inductive dev_step :: "env \<Rightarrow> tok_op \<Rightarrow> hsm_status \<Rightarrow> dev \<Rightarrow> dev \<Rightarrow> bool" for E where
  dev_stay: "stt \<noteq> HSM_OK \<Longrightarrow> dev_step E op stt d d"
| dev_crit: "\<lbrakk>permitted ss op i; unat i < length sl; crit E op st0 (sl ! unat i) s';
     stt = HSM_OK \<longrightarrow> st0 = HSM_OK\<rbrakk> \<Longrightarrow>
     dev_step E op stt (sl, ss, g) (sl[unat i := s'], ss, g)"
| dev_zero: "\<lbrakk>permitted ss op i; unat i < length sl; op = Zeroize sess i \<or> op = Zeroize_Forced i;
     zeroized (sl ! unat i) s'; sealed E s'\<rbrakk> \<Longrightarrow>
     dev_step E op stt (sl, ss, g) (sl[unat i := s'], drop_roles i ss, g)"
| dev_login: "\<lbrakk>permitted ss (Login sess role (Some p)) i; unat i < length sl;
     login_locked E (sl ! unat i) role p = (st0, ok, chg, s'); role = HSM_ROLE_SO \<or> role = HSM_ROLE_USER;
     stt = HSM_OK \<longrightarrow> st0 = HSM_OK; k = sess_idx sess - 1; k < length ss;
     se_open (ss ! k); se_slot (ss ! k) = i\<rbrakk> \<Longrightarrow>
     dev_step E (Login sess role (Some p)) stt (sl, ss, g)
       (sl[unat i := s'], if ok then ss[k := (ss ! k)\<lparr>se_role := role\<rparr>] else ss, g)"
| dev_logout: "\<lbrakk>permitted ss (Logout sess) i; k = sess_idx sess - 1; k < length ss\<rbrakk> \<Longrightarrow>
     dev_step E (Logout sess) stt (sl, ss, g) (sl, ss[k := (ss ! k)\<lparr>se_role := HSM_ROLE_PUBLIC\<rparr>], g)"
| dev_close: "\<lbrakk>permitted ss (Session_Close sess) i; k = sess_idx sess - 1; k < length ss\<rbrakk> \<Longrightarrow>
     dev_step E (Session_Close sess) stt (sl, ss, g) (sl, ss[k := blank_session], g)"
| dev_open: "\<lbrakk>k < length ss; \<not> se_open (ss ! k); unat i < length sl\<rbrakk> \<Longrightarrow>
     dev_step E (Session_Open i True) stt (sl, ss, g)
       (sl, ss[k := \<lparr>se_open = True, se_slot = i, se_role = HSM_ROLE_PUBLIC, se_gen = g + 1\<rparr>], g + 1)"

inductive_cases dev_stepE: "dev_step E op stt (sl, ss, g) d'"

text \<open>Some call, with some answer.\<close>

definition dev_move :: "env \<Rightarrow> dev \<Rightarrow> dev \<Rightarrow> bool" where
  "dev_move E d d' \<longleftrightarrow> (\<exists>op stt. dev_step E op stt d d')"

lemma dev_moveI: "dev_step E op stt d d' \<Longrightarrow> dev_move E d d'"
  unfolding dev_move_def by blast

section \<open>The invariant of the token\<close>

text \<open>
  Every slot keeps its invariant, every open session names a slot, and a session that is logged in
  is logged in to a slot that has that PIN: no login outlives a zeroization.
\<close>

definition session_inv :: "slot list \<Rightarrow> session \<Rightarrow> bool" where
  "session_inv sl s \<longleftrightarrow> (se_open s \<longrightarrow> unat (se_slot s) < length sl \<and>
     (se_role s = HSM_ROLE_PUBLIC \<or>
      se_role s = HSM_ROLE_SO \<and> sl_has_so_pin (sl ! unat (se_slot s)) \<or>
      se_role s = HSM_ROLE_USER \<and> sl_has_user_pin (sl ! unat (se_slot s))))"

definition dev_inv :: "dev \<Rightarrow> bool" where
  "dev_inv d \<longleftrightarrow> (case d of (sl, ss, g) \<Rightarrow>
     length sl \<le> 4096 \<and> length ss = MAX_SESSIONS \<and>
     (\<forall>i < length sl. slot_inv (of_nat i) (sl ! i)) \<and> (\<forall>s \<in> set ss. session_inv sl s))"

definition tok_inv :: "hsm_token \<Rightarrow> bool" where
  "tok_inv tok \<longleftrightarrow> dev_inv (dev_of tok)"

lemma slot_at_Some: "slot_at tok sid = Some s \<longleftrightarrow> unat sid < length (slots tok) \<and> s = slots tok ! unat sid"
  by (auto simp: slot_at_def)

lemma dev_of_sec: "sec a = sec b \<Longrightarrow> dev_of a = dev_of b"
  by (simp add: sec_def)

lemma dev_inv_slot: "dev_inv (sl, ss, g) \<Longrightarrow> unat i < length sl \<Longrightarrow> slot_inv i (sl ! unat i)"
  by (auto simp: dev_inv_def)

lemma dev_inv_session: "dev_inv (sl, ss, g) \<Longrightarrow> k < length ss \<Longrightarrow> session_inv sl (ss ! k)"
  by (auto simp: dev_inv_def)

lemma dev_inv_len: "dev_inv (sl, ss, g) \<Longrightarrow> length ss = MAX_SESSIONS"
  by (simp add: dev_inv_def)

section \<open>Calls refine steps\<close>

lemma info_index:
  assumes "session_info tok sess = Inr (sid, role)" "length (sessions tok) = MAX_SESSIONS"
  shows "\<exists>k < length (sessions tok). k = sess_idx sess - 1 \<and> se_open (sessions tok ! k) \<and>
     se_gen (sessions tok ! k) = sess_gen sess \<and> se_slot (sessions tok ! k) = sid \<and>
     se_role (sessions tok ! k) = role"
  using assms by (auto simp: session_info_def Let_def split: if_splits)

lemma require_role_Inr:
  "require_role tok sess need = Inr sid \<longleftrightarrow> session_info tok sess = Inr (sid, need)"
  by (auto simp: require_role_def split: sum.splits if_splits)

lemma session_info_granted: "session_info tok sess = Inr x \<longleftrightarrow> granted (sessions tok) sess = Some x"
  by (auto simp: session_info_def granted_def Let_def)

lemma role_granted: "require_role tok sess r = Inr sid \<Longrightarrow> granted (sessions tok) sess = Some (sid, r)"
  by (simp add: require_role_Inr session_info_granted)

lemma session_info_err: "session_info tok sess = Inl e \<Longrightarrow> e = HSM_ERR_BAD_ARG"
  by (auto simp: session_info_def Let_def split: if_splits)

lemma require_role_err: "require_role tok sess r = Inl e \<Longrightarrow> e \<noteq> HSM_OK"
  by (auto simp: require_role_def dest: session_info_err split: sum.splits prod.splits if_splits)

lemma commit_ok: "commit_security_state H stt tok = (stt', tok') \<Longrightarrow> stt' = HSM_OK \<longrightarrow> stt = HSM_OK"
  by (auto simp: commit_security_state_def split: prod.splits if_splits)

lemma drop_sessions_eq: "drop_sessions_on_slot sid tok = tok\<lparr>sessions := drop_roles sid (sessions tok)\<rparr>"
  by (simp add: drop_sessions_on_slot_def drop_roles_def)

lemma dev_of_commit: "hook_ok H \<Longrightarrow> commit_security_state H stt tok = (s', tok') \<Longrightarrow> dev_of tok' = dev_of tok"
  using sec_commit dev_of_sec by blast

lemma dev_of_audit: "dev_of (slot_audit E op role sl res detail tok) = dev_of tok"
  using dev_of_sec sec_slot_audit by blast

lemma audit_fields [simp, frame_simps]:
  "slots (slot_audit E op role sl res detail tok) = slots tok"
  "sessions (slot_audit E op role sl res detail tok) = sessions tok"
  "session_gen (slot_audit E op role sl res detail tok) = session_gen tok"
  using dev_of_audit[of E op role sl res detail tok] by blast+

lemma dev_of_only_core: "only_core tok tok' \<Longrightarrow> dev_of tok' = dev_of tok"
  using dev_of_sec sec_only_core by blast

lemma dev_of_set_slot: "dev_of tok1 = dev_of tok \<Longrightarrow>
    dev_of (set_slot sid s tok1) = ((slots tok)[unat sid := s], sessions tok, session_gen tok)"
  by (simp add: set_slot_def)

text \<open>The shape of most calls: a critical section, put back, committed and audited.\<close>

lemma dev_step_crit:
  assumes "slot_at tok sid = Some s" "permitted (sessions tok) op sid" "crit E op st0 s s'"
    "stt = HSM_OK \<longrightarrow> st0 = HSM_OK" "dev_of tok' = dev_of (set_slot sid s' tok)"
  shows "dev_step E op stt (dev_of tok) (dev_of tok')"
  using assms dev_crit[of "sessions tok" op sid "slots tok" E st0 s' stt "session_gen tok"]
  by (simp add: slot_at_Some set_slot_def)

lemma dev_of_put: "only_core tok tok1 \<Longrightarrow> dev_of (set_slot sid s tok1) = dev_of (set_slot sid s tok)"
  using dev_of_only_core[of tok tok1] by (simp add: set_slot_def)

lemma only_core_init: "init_token_locked E s l p w = (stt, s', w') \<Longrightarrow> only_core w w'"
  by (auto simp: init_token_locked_def Let_def split: if_splits prod.splits option.splits
      dest!: only_core_calls(7) intro: only_core_trans only_core_after)

lemma only_core_user_pin: "set_user_pin_locked E s p w = (stt, s', w') \<Longrightarrow> only_core w w'"
  by (auto simp: set_user_pin_locked_def Let_def split: if_splits prod.splits option.splits
      dest!: only_core_calls(7))

lemma only_core_install_key:
  "install_key E s alg us po seed n w = (r, s', w') \<Longrightarrow> only_core w w'"
  by (auto simp: install_key_def split: prod.splits if_splits option.splits sum.splits
      dest!: only_core_calls(2,8) only_core_install_software intro: only_core_trans)

lemma only_core_create: "create_locked E s alg us po seed n ev w = (r, s', w') \<Longrightarrow> only_core w w'"
  by (auto simp: create_locked_def split: prod.splits if_splits sum.splits dest!: only_core_install_key)

lemma only_core_borrow: "borrow_secret E s w = (r, w') \<Longrightarrow> only_core w w'"
  by (auto simp: borrow_secret_def split: prod.splits if_splits option.splits sum.splits
      dest!: only_core_calls(1,8) intro: only_core_trans)

lemma only_core_begin: "begin_use E s h need w = (r, s', w') \<Longrightarrow> only_core w w'"
  by (auto simp: begin_use_def split: prod.splits if_splits sum.splits dest!: only_core_borrow)

lemma only_core_end: "end_use E s op w = (stt, s', w') \<Longrightarrow> only_core w w'"
  by (auto simp: end_use_def Let_def split: prod.splits if_splits)

lemma only_core_sign:
  "sign_locked E s h m ml c cl sg sl w = (b, stt, bs, s', w') \<Longrightarrow> only_core w w'"
  by (auto simp: sign_locked_def split: prod.splits if_splits option.splits sum.splits
      dest!: only_core_begin only_core_end only_core_calls(3,4) intro: only_core_trans)

lemma only_core_decaps:
  "decaps_locked E s h c cl ss sl w = (b, stt, bs, s', w') \<Longrightarrow> only_core w w'"
  by (auto simp: decaps_locked_def split: prod.splits if_splits option.splits sum.splits
      dest!: only_core_begin only_core_end only_core_calls(5,6) intro: only_core_trans)

text \<open>A call that fails its checks leaves the token alone; otherwise it ends in \<open>put\<close>.\<close>

lemma put_step:
  assumes "slot_at tok sid = Some s" "permitted (sessions tok) op sid" "crit E op st0 s s'"
    "only_core tok tok1" "hook_ok H" "commit_security_state H st0 (set_slot sid s' tok1) = (stt, tok2)"
  shows "dev_step E op stt (dev_of tok) (dev_of (slot_audit E aop role sl res detail tok2))"
  by (rule dev_step_crit[OF assms(1,2,3) commit_ok[OF assms(6)]])
     (use dev_of_commit[OF assms(5,6)] dev_of_put[OF assms(4)] in simp)

lemma init_step:
  "hook_ok H \<Longrightarrow> hsm_slot_init_token E H tok sid label pin = (stt, tok') \<Longrightarrow>
     dev_step E (Init sid label pin) stt (dev_of tok) (dev_of tok')"
  by (auto simp: hsm_slot_init_token_def split: option.splits if_splits prod.splits
      intro!: dev_stay intro: put_step[OF _ _ crit_init only_core_init])

lemma user_pin_step:
  "hook_ok H \<Longrightarrow> hsm_slot_set_user_pin E H tok sess pin = (stt, tok') \<Longrightarrow>
     dev_step E (Set_User_Pin sess pin) stt (dev_of tok) (dev_of tok')"
  by (auto simp: hsm_slot_set_user_pin_def role_granted
      split: sum.splits option.splits if_splits prod.splits
      intro!: dev_stay dest: require_role_err intro: put_step[OF _ _ crit_user_pin only_core_user_pin])

lemma create_step:
  assumes "hook_ok H" "create_object E H tok sess alg us po seed n ev out = (stt, h, tok')"
    "creates op = Some (alg, us, po, seed, n, ev)" "op_ok op" "op_needs op = Some (sess, HSM_ROLE_USER)"
    "\<And>ss i. permitted ss op i = (granted ss sess = Some (i, HSM_ROLE_USER))"
  shows "dev_step E op stt (dev_of tok) (dev_of tok')"
  using assms(1,2)
  by (auto simp: create_object_def assms(6) role_granted
      split: sum.splits option.splits if_splits prod.splits
      intro!: dev_stay dest: require_role_err
      intro: put_step[OF _ _ crit_create[OF _ assms(3,4)] only_core_create])

lemma destroy_step:
  "hook_ok H \<Longrightarrow> hsm_object_destroy E H tok sess h = (stt, tok') \<Longrightarrow>
     dev_step E (Destroy sess h) stt (dev_of tok) (dev_of tok')"
  by (auto simp: hsm_object_destroy_def role_granted
      split: sum.splits option.splits if_splits prod.splits
      intro!: dev_stay dest: require_role_err intro: put_step[OF _ _ crit_destroy only_core_refl])

lemma unlock_step:
  "hook_ok H \<Longrightarrow> hsm_slot_unlock E H tok sess sid = (stt, tok') \<Longrightarrow>
     dev_step E (Unlock sess sid) stt (dev_of tok) (dev_of tok')"
  by (auto simp: hsm_slot_unlock_def role_granted
      split: sum.splits option.splits if_splits prod.splits
      intro!: dev_stay dest: require_role_err intro: put_step[OF _ _ crit_unlock only_core_refl])

lemma use_step:
  assumes "slot_at tok sid = Some s" "permitted (sessions tok) op sid" "use_result E s h need b stt bs s'"
    "uses op = Some (h, need)" "only_core tok tok1"
  shows "dev_step E op stt (dev_of tok) (dev_of (set_slot sid s' tok1))"
  by (rule dev_step_crit[OF assms(1,2) crit_use[OF assms(3,4)] _ dev_of_put[OF assms(5)]]) simp

lemma sign_step:
  "hsm_object_sign E tok sess h m ml c cl sg sl = (stt, bs, tok') \<Longrightarrow>
     dev_step E (Sign sess h m ml c cl sg sl) stt (dev_of tok) (dev_of tok')"
  by (auto simp: hsm_object_sign_def Let_def role_granted
      split: sum.splits option.splits if_splits prod.splits
      intro!: dev_stay dest: require_role_err intro!: use_step[OF _ _ sign_locked_result _ only_core_sign])

lemma decaps_step:
  "hsm_object_decaps E tok sess h c cl ss sl = (stt, bs, tok') \<Longrightarrow>
     dev_step E (Decaps sess h c cl ss sl) stt (dev_of tok) (dev_of tok')"
  by (auto simp: hsm_object_decaps_def Let_def role_granted
      split: sum.splits option.splits if_splits prod.splits
      intro!: dev_stay dest: require_role_err intro!: use_step[OF _ _ decaps_locked_result _ only_core_decaps])

lemma zeroize_step:
  assumes "dev_inv (dev_of tok)" "seal_total E" "hook_ok H" "slot_at tok sid = Some s"
    "zeroize_commit E H sid role detail s tok = (stt, tok')"
    "permitted (sessions tok) op sid" "op = Zeroize sess sid \<or> op = Zeroize_Forced sid"
  shows "dev_step E op stt (dev_of tok) (dev_of tok')"
proof -
  have s: "unat sid < length (slots tok)" "s = slots tok ! unat sid"
    using assms(4) by (simp_all add: slot_at_Some)
  have inv: "slot_inv sid s" using dev_inv_slot[OF assms(1) s(1)] s(2) by simp
  obtain st0 s' where z: "do_zeroize E s = (st0, s')" by fastforce
  have r: "zeroized s s'" "sealed E s'" "st0 = HSM_OK"
    using do_zeroize_cases[OF z] assms(2) slot_inv_states(6)[of s sid] inv by (auto split: if_splits)
  obtain stt' tok3 where c: "commit_security_state H st0 (drop_sessions_on_slot sid (set_slot sid s' tok))
      = (stt', tok3)" by fastforce
  have "tok' = slot_audit E AUDIT_OP_ZEROIZE role sid stt' (Some (cstr detail)) tok3"
    using assms(5) z c r(3) by (auto simp: zeroize_commit_def)
  then have "dev_of tok' = ((slots tok)[unat sid := s'], drop_roles sid (sessions tok), session_gen tok)"
    using dev_of_commit[OF assms(3) c] by (simp add: drop_sessions_eq set_slot_def)
  then show ?thesis
    using dev_zero[OF assms(6) s(1) assms(7), of s' E stt "session_gen tok"] s r by simp
qed

lemma set_role_dev:
  assumes "session_info tok sess = Inr (sid, r)" "length (sessions tok) = MAX_SESSIONS"
    "sessions tok2 = sessions tok"
  shows "\<exists>k < length (sessions tok). k = sess_idx sess - 1 \<and> se_open (sessions tok ! k) \<and>
     se_slot (sessions tok ! k) = sid \<and> set_session_role sess role tok2 =
       tok2\<lparr>sessions := (sessions tok)[k := (sessions tok ! k)\<lparr>se_role := role\<rparr>]\<rparr>"
  using assms by (auto simp: session_info_def set_session_role_def Let_def split: if_splits
      intro!: exI[of _ "sess_idx sess - 1"])

lemma login_step:
  assumes inv: "dev_inv (dev_of tok)" and H: "hook_ok H"
    and op: "hsm_session_login E H tok sess role pin = (stt, tok')"
  shows "dev_step E (Login sess role pin) stt (dev_of tok) (dev_of tok')"
proof (cases "tok' = tok \<and> stt \<noteq> HSM_OK")
  case True
  then show ?thesis by (simp add: dev_stay)
next
  case False
  obtain sid r p s where i: "session_info tok sess = Inr (sid, r)" "slot_at tok sid = Some s"
    "role = HSM_ROLE_SO \<or> role = HSM_ROLE_USER" "pin = Some p"
    using op False by (auto simp: hsm_session_login_def dest: session_info_err
        split: sum.splits option.splits if_splits)
  obtain st0 ok chg s' where l: "login_locked E s role p = (st0, ok, chg, s')" by (metis prod_cases4)
  let ?t1 = "set_slot sid s' tok"
  obtain st2 tok2 where c: "(if chg then commit_security_state H st0 ?t1 else (st0, ?t1)) = (st2, tok2)"
    by fastforce
  have d2: "dev_of tok2 = dev_of ?t1"
    using c dev_of_commit[OF H] by (auto split: if_splits)
  have res: "dev_of tok' = dev_of (if ok then set_session_role sess role tok2 else tok2)" "stt = st2"
    using op i l c by (auto simp: hsm_session_login_def Let_def)
  have st: "stt = HSM_OK \<longrightarrow> st0 = HSM_OK" using c commit_ok res(2) by (auto split: if_splits)
  have ss2: "sessions tok2 = sessions tok" using d2 by (simp add: set_slot_def)
  obtain k where k: "k = sess_idx sess - 1" "k < length (sessions tok)" "se_open (sessions tok ! k)"
    "se_slot (sessions tok ! k) = sid" "set_session_role sess role tok2 =
       tok2\<lparr>sessions := (sessions tok)[k := (sessions tok ! k)\<lparr>se_role := role\<rparr>]\<rparr>"
    using set_role_dev[OF i(1) dev_inv_len[OF inv] ss2] by blast
  have "dev_of tok' = ((slots tok)[unat sid := s'],
      if ok then (sessions tok)[k := (sessions tok ! k)\<lparr>se_role := role\<rparr>] else sessions tok, session_gen tok)"
    using res(1) k(5) d2 by (simp add: set_slot_def)
  moreover have "permitted (sessions tok) (Login sess role (Some p)) sid"
    using i(1) by (simp add: session_info_granted)
  ultimately show ?thesis
    using dev_login[OF _ _ _ i(3) st k(1-4)] l i(2,4) by (simp add: slot_at_Some)
qed

lemma logout_step:
  assumes "dev_inv (dev_of tok)" "hsm_session_logout tok sess = (stt, tok')"
  shows "dev_step E (Logout sess) stt (dev_of tok) (dev_of tok')"
proof (cases "session_info tok sess")
  case (Inl e)
  then show ?thesis using assms(2) session_info_err[OF Inl] by (simp add: hsm_session_logout_def dev_stay)
next
  case (Inr x)
  then obtain sid r where x: "session_info tok sess = Inr (sid, r)" by (cases x) auto
  obtain k where k: "k = sess_idx sess - 1" "k < length (sessions tok)"
    "set_session_role sess HSM_ROLE_PUBLIC tok =
      tok\<lparr>sessions := (sessions tok)[k := (sessions tok ! k)\<lparr>se_role := HSM_ROLE_PUBLIC\<rparr>]\<rparr>"
    using set_role_dev[OF x dev_inv_len[OF assms(1)] refl] by blast
  have "tok' = tok\<lparr>sessions := (sessions tok)[k := (sessions tok ! k)\<lparr>se_role := HSM_ROLE_PUBLIC\<rparr>]\<rparr>"
    using assms(2) x k(3) by (simp add: hsm_session_logout_def)
  moreover have "permitted (sessions tok) (Logout sess) sid" using x by (simp add: session_info_granted)
  ultimately show ?thesis using dev_logout[OF _ k(1,2), of sid E stt "slots tok" "session_gen tok"] by simp
qed

lemma close_step:
  assumes "dev_inv (dev_of tok)" "hsm_session_close tok sess = (stt, tok')"
  shows "dev_step E (Session_Close sess) stt (dev_of tok) (dev_of tok')"
proof (cases "session_info tok sess")
  case (Inl e)
  then have "tok' = tok \<and> stt \<noteq> HSM_OK"
    using assms(2) by (auto simp: hsm_session_close_def session_info_def Let_def split: if_splits)
  then show ?thesis by (simp add: dev_stay)
next
  case (Inr x)
  then obtain sid r where x: "session_info tok sess = Inr (sid, r)" by (cases x) auto
  have k: "sess_idx sess - 1 < length (sessions tok)"
    using set_role_dev[OF x dev_inv_len[OF assms(1)] refl] by blast
  have "tok' = tok\<lparr>sessions := (sessions tok)[sess_idx sess - 1 := blank_session]\<rparr>"
    using assms(2) x by (auto simp: hsm_session_close_def session_info_def Let_def split: if_splits)
  moreover have "permitted (sessions tok) (Session_Close sess) sid" using x by (simp add: session_info_granted)
  ultimately show ?thesis using dev_close[OF _ refl k, of sid E stt "slots tok" "session_gen tok"] by simp
qed

lemma free_index_Some: "free_index ss = Some k \<Longrightarrow> k < length ss \<and> \<not> se_open (ss ! k)"
  by (auto simp: free_index_def find_Some_iff)

lemma open_step:
  "hsm_session_open tok sid out = (r, tok') \<Longrightarrow>
     dev_step E (Session_Open sid out) (res_status r) (dev_of tok) (dev_of tok')"
  using free_index_Some
  by (auto simp: hsm_session_open_def Let_def slot_at_def res_status_def split: if_splits option.splits
      intro!: dev_stay dev_open)

lemma zeroize_calls_step:
  assumes "dev_inv (dev_of tok)" "seal_total E" "hook_ok H"
  shows "hsm_slot_zeroize E H tok sess sid = (stt, tok') \<Longrightarrow>
      dev_step E (Zeroize sess sid) stt (dev_of tok) (dev_of tok')"
    and "hsm_slot_zeroize_forced E H tok sid = (stt, tok') \<Longrightarrow>
      dev_step E (Zeroize_Forced sid) stt (dev_of tok) (dev_of tok')"
  using zeroize_step[OF assms]
  by (auto simp: hsm_slot_zeroize_def hsm_slot_zeroize_forced_def role_granted
      split: sum.splits option.splits if_splits intro!: dev_stay dest: require_role_err)

lemma tok_exec_step:
  assumes "tok_inv tok" "seal_total E" "hook_ok H" "op_ok op"
    and "tok_exec E H op tok = (stt, tok')"
  shows "dev_step E op stt (dev_of tok) (dev_of tok')"
proof -
  note inv = assms(1)[unfolded tok_inv_def]
  note z = zeroize_calls_step[OF inv assms(2,3)]
  show ?thesis
  proof (cases op)
    case (Generate sess alg us po out)
    then show ?thesis
      using assms(3-5) create_step[OF assms(3), of E tok sess alg us po None 0 SLOT_EV_GENERATE out]
      by (auto simp: hsm_slot_generate_def split: prod.splits)
  next
    case (Load_Seed sess alg us po seed n out)
    then show ?thesis
      using assms(3-5) create_step[OF assms(3), of E tok sess alg us po seed n SLOT_EV_LOAD out]
      by (auto simp: hsm_slot_load_seed_def split: prod.splits option.splits if_splits intro!: dev_stay)
  qed (use assms(3,4,5) z in \<open>auto split: prod.splits
         intro: init_step user_pin_step open_step close_step[OF inv] login_step[OF inv]
           logout_step[OF inv] sign_step decaps_step destroy_step unlock_step\<close>)
qed

section \<open>Preservation\<close>

lemma crit_inv:
  assumes "crit E op stt s s'" "slot_inv sid s" "seal_total E"
  shows "slot_inv sid s'"
  using assms by cases (auto intro: inv_intros dest: creates_ok)

lemma login_slot_inv:
  "login_locked E s role p = (stt, ok, chg, s') \<Longrightarrow> role = HSM_ROLE_SO \<or> role = HSM_ROLE_USER \<Longrightarrow>
     slot_inv sid s \<Longrightarrow> seal_total E \<Longrightarrow> slot_inv sid s'"
  by (auto intro: inv_intros)

text \<open>Only zeroizing removes a PIN.\<close>

lemma reseal_pins: "slot_reseal E s = (stt, s') \<Longrightarrow>
    sl_has_so_pin s' = sl_has_so_pin s \<and> sl_has_user_pin s' = sl_has_user_pin s"
  by (auto dest: slot_reseal_result)

lemma login_pins:
  "login_locked E s role p = (stt, ok, chg, s') \<Longrightarrow>
     (sl_has_so_pin s \<longrightarrow> sl_has_so_pin s') \<and> (sl_has_user_pin s \<longrightarrow> sl_has_user_pin s')"
  by (auto simp: login_locked_def fsm_apply_simps Let_def
      split: if_splits prod.splits option.splits dest!: reseal_pins)

lemma crit_pins:
  assumes "crit E op stt s s'" "seal_total E"
  shows "(sl_has_so_pin s \<longrightarrow> sl_has_so_pin s') \<and> (sl_has_user_pin s \<longrightarrow> sl_has_user_pin s')"
  using assms
proof cases
  case (crit_init l p w w')
  then show ?thesis
    by (auto simp: init_token_locked_def fsm_apply_simps Let_def
        split: if_splits prod.splits option.splits dest!: reseal_pins)
next
  case (crit_user_pin p w w')
  then show ?thesis
    by (auto simp: set_user_pin_locked_def Let_def
        split: if_splits prod.splits option.splits dest!: reseal_pins)
next
  case (crit_create alg us po seed n ev w r w')
  then show ?thesis
    using create_locked_cases[OF crit_create(2) assms(2) creates_ok[OF crit_create(3)]]
    by (auto simp: installed_def pins_of_def)
next
  case (crit_use h need b bs)
  then show ?thesis by (auto simp: use_result_def split: if_splits)
next
  case crit_destroy
  then show ?thesis
    using destroy_locked_cases[OF crit_destroy(2)] by (auto simp: slot_wipe_key_material_def dest!: reseal_pins)
next
  case crit_unlock
  then show ?thesis
    using unlock_locked_cases[OF crit_unlock(2)] by (auto dest!: reseal_pins)
qed

lemma nth_other_slot [simp]: "(i :: u32) \<noteq> j \<Longrightarrow> sl[unat i := s] ! unat j = sl ! unat j"
  by (simp add: word_unat_eq_iff)

lemma session_inv_slots:
  assumes "session_inv sl s" "length sl' = length sl"
    and "\<And>i. i < length sl \<Longrightarrow> sl_has_so_pin (sl ! i) \<Longrightarrow> sl_has_so_pin (sl' ! i)"
    and "\<And>i. i < length sl \<Longrightarrow> sl_has_user_pin (sl ! i) \<Longrightarrow> sl_has_user_pin (sl' ! i)"
  shows "session_inv sl' s"
  using assms by (auto simp: session_inv_def)

lemma dev_inv_update:
  assumes "dev_inv (sl, ss, g)" "unat (i :: u32) < length sl" "slot_inv i s'" "length ss' = length ss"
    and "\<And>s. s \<in> set ss' \<Longrightarrow> session_inv (sl[unat i := s']) s"
  shows "dev_inv (sl[unat i := s'], ss', g')"
proof -
  have "slot_inv (of_nat j) (sl[unat i := s'] ! j)" if "j < length sl" for j
    using that assms(1,3) by (cases "j = unat i") (simp_all add: dev_inv_def)
  then show ?thesis using assms(1,4,5) by (simp add: dev_inv_def)
qed

lemma pins_update:
  assumes "dev_inv (sl, ss, g)" "s \<in> set ss"
    and "(sl_has_so_pin (sl ! i) \<longrightarrow> sl_has_so_pin s') \<and> (sl_has_user_pin (sl ! i) \<longrightarrow> sl_has_user_pin s')"
  shows "session_inv (sl[i := s']) s"
proof (rule session_inv_slots[of sl s])
  show "session_inv sl s" using assms(1,2) by (simp add: dev_inv_def)
  show "sl_has_so_pin (sl[i := s'] ! j)" if "j < length sl" "sl_has_so_pin (sl ! j)" for j
    using that assms(3) by (cases "i = j") simp_all
  show "sl_has_user_pin (sl[i := s'] ! j)" if "j < length sl" "sl_has_user_pin (sl ! j)" for j
    using that assms(3) by (cases "i = j") simp_all
qed simp

lemma login_ok_pins:
  assumes "login_locked E s role p = (stt, True, chg, s')"
  shows "role = HSM_ROLE_SO \<and> sl_has_so_pin s' \<or> role \<noteq> HSM_ROLE_SO \<and> sl_has_user_pin s'"
  using assms
  by (auto simp: login_locked_def Let_def split: if_splits prod.splits option.splits dest!: reseal_pins)

lemma dev_step_inv:
  assumes "dev_step E op stt d d'" "dev_inv d" "seal_total E"
  shows "dev_inv d'"
  using assms
proof cases
  case (dev_crit ss i sl st0 s' g)
  have inv: "dev_inv (sl, ss, g)" using assms(2) dev_crit(1) by simp
  have "session_inv (sl[unat i := s']) s" if "s \<in> set ss" for s
    using pins_update[OF inv that crit_pins[OF dev_crit(5) assms(3)]] .
  then show ?thesis
    unfolding dev_crit(2)
    by (intro dev_inv_update[OF inv dev_crit(4)] crit_inv[OF dev_crit(5)] dev_inv_slot[OF inv dev_crit(4)]
        assms(3)) simp_all
next
  case (dev_zero ss i sl sess s' g)
  have inv: "dev_inv (sl, ss, g)" using assms(2) dev_zero(1) by simp
  have "session_inv (sl[unat i := s']) s" if m: "s \<in> set (drop_roles i ss)" for s
  proof -
    obtain s0 where s0: "s0 \<in> set ss" "s = (if se_open s0 \<and> se_slot s0 = i
        then s0\<lparr>se_role := HSM_ROLE_PUBLIC\<rparr> else s0)"
      using m by (auto simp: drop_roles_def)
    moreover have "session_inv sl s0" using inv s0(1) by (simp add: dev_inv_def)
    ultimately show ?thesis using nth_other_slot[of i "se_slot s0" sl s']
      by (auto simp: session_inv_def)
  qed
  then show ?thesis
    unfolding dev_zero(2)
    by (intro dev_inv_update[OF inv dev_zero(4)] zeroized_inv[OF dev_inv_slot[OF inv dev_zero(4)] dev_zero(6)])
       (simp_all add: drop_roles_def)
next
  case (dev_login ss sess role p i sl st0 ok chg s' k g)
  have inv: "dev_inv (sl, ss, g)" using assms(2) dev_login(2) by simp
  have old: "session_inv (sl[unat i := s']) s" if "s \<in> set ss" for s
    using pins_update[OF inv that login_pins[OF dev_login(6)]] .
  have "session_inv (sl[unat i := s']) ((ss ! k)\<lparr>se_role := role\<rparr>)" if ok
    using login_ok_pins[of E "sl ! unat i" role p st0 chg s'] that dev_login(5-7,12) by (auto simp: session_inv_def)
  then have "session_inv (sl[unat i := s']) s"
    if "s \<in> set (if ok then ss[k := (ss ! k)\<lparr>se_role := role\<rparr>] else ss)" for s
    using that old set_update_subset_insert by (fastforce split: if_splits)
  then show ?thesis
    unfolding dev_login(3)
    by (intro dev_inv_update[OF inv dev_login(5)] login_slot_inv[OF dev_login(6,7)] dev_inv_slot[OF inv dev_login(5)]
        assms(3)) simp_all
next
  case (dev_logout ss sess i k sl g)
  have inv: "dev_inv (sl, ss, g)" using assms(2) dev_logout(2) by simp
  have "session_inv sl ((ss ! k)\<lparr>se_role := HSM_ROLE_PUBLIC\<rparr>)"
    using dev_inv_session[OF inv dev_logout(6)] by (auto simp: session_inv_def)
  then show ?thesis
    unfolding dev_logout(3) using inv set_update_subset_insert
    by (fastforce simp: dev_inv_def)
next
  case (dev_close ss sess i k sl g)
  then show ?thesis
    using assms(2) set_update_subset_insert[of ss k blank_session]
    by (auto simp: dev_inv_def session_inv_def blank_session_def)
next
  case (dev_open k ss i sl g)
  then show ?thesis
    using assms(2) set_update_subset_insert[of ss k]
    by (fastforce simp: dev_inv_def session_inv_def)
qed simp

end
