(* ===== verification/Machine.thy ===== *)
theory Machine
  imports Prelude
begin

text \<open>
  The contract of a component that is driven call by call: its invariant survives every legal call
  in a good environment, and a counter kept in the state moves on by at most one per call. The
  token, its slots' generations and its session counter interpret these locales.
\<close>

locale machine =
  fixes step :: "'e \<Rightarrow> 'op \<Rightarrow> 's \<Rightarrow> 's"
    and good :: "'e \<Rightarrow> bool"
    and legal :: "'op \<Rightarrow> bool"
    and inv :: "'s \<Rightarrow> bool"
  assumes keep: "good e \<Longrightarrow> legal op \<Longrightarrow> inv s \<Longrightarrow> inv (step e op s)"
begin

lemma run_inv: "good e \<Longrightarrow> list_all legal ops \<Longrightarrow> inv s \<Longrightarrow> inv (fold (step e) ops s)"
  by (induction ops arbitrary: s) (simp_all add: keep)

end

locale counted = machine step good legal inv
  for step :: "'e \<Rightarrow> 'op \<Rightarrow> 's \<Rightarrow> 's" and good legal inv +
  fixes count :: "'s \<Rightarrow> u32"
  assumes tick: "good e \<Longrightarrow> legal op \<Longrightarrow> inv s \<Longrightarrow>
    count (step e op s) = count s \<or> count (step e op s) = count s + 1"
begin

lemma run_count:
  "good e \<Longrightarrow> list_all legal ops \<Longrightarrow> inv s \<Longrightarrow>
     \<exists>n \<le> length ops. count (fold (step e) ops s) = count s + of_nat n"
proof (induction ops arbitrary: s)
  case Nil
  then show ?case by simp
next
  case (Cons op ops)
  then obtain n where "n \<le> length ops"
    "count (fold (step e) ops (step e op s)) = count (step e op s) + of_nat n"
    using keep by (metis list.pred_inject(2))
  moreover have "count (step e op s) = count s \<or> count (step e op s) = count s + 1"
    using Cons.prems tick by simp
  ultimately show ?case
    by (auto intro: exI[of _ n] exI[of _ "Suc n"] simp: algebra_simps)
qed

text \<open>A value the counter has left behind does not come back within \<open>2\<^sup>3\<^sup>2 - 1\<close> calls.\<close>

lemma never_back:
  assumes "good e" "list_all legal ops" "inv s" "count s = c + 1" "length ops < 2 ^ 32 - 1"
  shows "count (fold (step e) ops s) \<noteq> c"
proof
  assume c: "count (fold (step e) ops s) = c"
  obtain n where n: "n \<le> length ops" "count (fold (step e) ops s) = count s + of_nat n"
    using run_count[OF assms(1-3)] by blast
  then have "(of_nat (Suc n) :: u32) = 0" using c assms(4) by (simp add: algebra_simps)
  then have "2 ^ 32 dvd Suc n" by (simp only: word_of_nat_eq_0_iff) simp
  then show False using n(1) assms(5) by (auto dest!: dvd_imp_le)
qed

end

end
