(* ===== verification/Slot_Props.thy ===== *)
theory Slot_Props
  imports Slot_Token Machine
begin

text \<open>
  What the token promises over any history of calls: its invariant from boot on, handles and session
  ids that stay dead once revoked, and the isolation of slots.
\<close>

section \<open>The token is a machine\<close>

definition tok_step :: "env \<times> hook \<Rightarrow> tok_op \<Rightarrow> hsm_token \<Rightarrow> hsm_token" where
  "tok_step e op tok = snd (tok_exec (fst e) (snd e) op tok)"

definition good_env :: "env \<times> hook \<Rightarrow> bool" where
  "good_env e \<longleftrightarrow> seal_total (fst e) \<and> hook_ok (snd e)"

lemma tok_run_fold: "tok_run E H ops tok = fold (tok_step (E, H)) ops tok"
  by (induction ops arbitrary: tok) (simp_all add: tok_step_def)

lemma tok_step_dev:
  "tok_inv tok \<Longrightarrow> good_env e \<Longrightarrow> op_ok op \<Longrightarrow>
     dev_step (fst e) op (fst (tok_exec (fst e) (snd e) op tok)) (dev_of tok) (dev_of (tok_step e op tok))"
  unfolding tok_step_def good_env_def by (metis tok_exec_step prod.collapse)

lemma tok_step_inv: "good_env e \<Longrightarrow> op_ok op \<Longrightarrow> tok_inv tok \<Longrightarrow> tok_inv (tok_step e op tok)"
  using dev_step_inv[OF tok_step_dev] by (simp add: tok_inv_def good_env_def)

interpretation tk: machine tok_step good_env op_ok tok_inv
  by unfold_locales (rule tok_step_inv)

section \<open>Generations\<close>

definition slot_gen :: "nat \<Rightarrow> hsm_token \<Rightarrow> u32" where
  "slot_gen i tok = (if i < length (slots tok) then m_generation (sl_meta (slots tok ! i)) else 0)"

lemma reseal_meta: "slot_reseal E s = (stt, s') \<Longrightarrow> sl_meta s' = sl_meta s"
  by (auto dest: slot_reseal_result)

text \<open>Only destroying a key or zeroizing moves the generation of a slot, and by one.\<close>

lemma login_gen:
  "login_locked E s role p = (stt, ok, chg, s') \<Longrightarrow> m_generation (sl_meta s') = m_generation (sl_meta s)"
  by (auto simp: login_locked_def fsm_apply_simps Let_def
      split: if_splits prod.splits option.splits dest!: reseal_meta)

lemma crit_gen:
  assumes "crit E op stt s s'" "seal_total E"
  shows "m_generation (sl_meta s') = m_generation (sl_meta s) \<or>
     m_generation (sl_meta s') = m_generation (sl_meta s) + 1"
  using assms
proof cases
  case (crit_init l p w w')
  then show ?thesis
    by (auto simp: init_token_locked_def fsm_apply_simps Let_def
        split: if_splits prod.splits option.splits dest!: reseal_meta)
next
  case (crit_user_pin p w w')
  then show ?thesis
    by (auto simp: set_user_pin_locked_def Let_def
        split: if_splits prod.splits option.splits dest!: reseal_meta)
next
  case (crit_create alg us po seed n ev w r w')
  then show ?thesis
    using create_locked_cases[OF crit_create(2) assms(2) creates_ok[OF crit_create(3)]] crit_create(4)
    by (auto simp: installed_def key_meta_def)
next
  case (crit_use h need b bs)
  then show ?thesis by (auto simp: use_result_def split: if_splits)
next
  case crit_destroy
  then show ?thesis using destroy_locked_cases[OF crit_destroy(2)] by (auto dest!: reseal_meta)
next
  case crit_unlock
  then show ?thesis using unlock_locked_cases[OF crit_unlock(2)] by (auto dest!: reseal_meta)
qed

definition dev_gen :: "nat \<Rightarrow> dev \<Rightarrow> u32" where
  "dev_gen i d = (case d of (sl, ss, g) \<Rightarrow> if i < length sl then m_generation (sl_meta (sl ! i)) else 0)"

lemma slot_gen_dev: "slot_gen i tok = dev_gen i (dev_of tok)"
  by (simp add: slot_gen_def dev_gen_def)

lemma dev_gen_update:
  assumes "m_generation (sl_meta s') = m_generation (sl_meta (sl ! k)) \<or>
     m_generation (sl_meta s') = m_generation (sl_meta (sl ! k)) + 1"
  shows "dev_gen i (sl[k := s'], ss', g') = dev_gen i (sl, ss, g) \<or>
     dev_gen i (sl[k := s'], ss', g') = dev_gen i (sl, ss, g) + 1"
  using assms by (cases "i = k") (auto simp: dev_gen_def)

lemma dev_step_gen:
  assumes "dev_step E op stt d d'" "seal_total E"
  shows "dev_gen i d' = dev_gen i d \<or> dev_gen i d' = dev_gen i d + 1"
  using assms
proof cases
  case dev_crit
  then show ?thesis using dev_gen_update[OF crit_gen[OF _ assms(2)]] by blast
next
  case (dev_zero ss k sl sess s' g)
  have "m_generation (sl_meta s') = m_generation (sl_meta (sl ! unat k)) + 1"
    using dev_zero(6) by (simp add: zeroized_def blank_meta_def)
  then show ?thesis unfolding dev_zero(1,2) using dev_gen_update by blast
next
  case dev_login
  then show ?thesis using dev_gen_update[OF disjI1[OF login_gen]] by blast
qed (auto simp: dev_gen_def)

interpretation sg: counted tok_step good_env op_ok tok_inv "slot_gen i" for i
proof unfold_locales
  fix e op s
  assume "good_env e" "op_ok op" "tok_inv s"
  then show "slot_gen i (tok_step e op s) = slot_gen i s \<or> slot_gen i (tok_step e op s) = slot_gen i s + 1"
    unfolding slot_gen_dev by (intro dev_step_gen[of "fst e" op "fst (tok_exec (fst e) (snd e) op s)"] tok_step_dev) (simp_all add: good_env_def)
qed

definition session_count :: "hsm_token \<Rightarrow> u32" where
  "session_count tok = session_gen tok"

lemma dev_step_session_gen:
  "dev_step E op stt (sl, ss, g) (sl', ss', g') \<Longrightarrow> g' = g \<or> g' = g + 1"
  by (cases rule: dev_step.cases, assumption) auto

interpretation sc: counted tok_step good_env op_ok tok_inv session_count
proof unfold_locales
  fix e op s
  assume "good_env e" "op_ok op" "tok_inv s"
  then show "session_count (tok_step e op s) = session_count s \<or>
      session_count (tok_step e op s) = session_count s + 1"
    unfolding session_count_def using dev_step_session_gen tok_step_dev by blast
qed

section \<open>From boot on\<close>

lemma blank_slot_inv: "i \<le> 4096 \<Longrightarrow> slot_inv (of_nat i) (blank_slot (of_nat i))"
  by (simp add: slot_inv_def blank_slot_def blank_meta_def wf_blank_meta[unfolded blank_meta_def]
      wf_arrays_def no_key_def no_pins_def HSM_PIN_MAX_FAILS_def)

lemma new_slots_inv:
  assumes "new_slots E is = Some sl" "\<And>i. i \<in> set is \<Longrightarrow> i \<le> 4096"
  shows "length sl = length is \<and> (\<forall>j < length is. slot_inv (of_nat (is ! j)) (sl ! j) \<and>
     m_generation (sl_meta (sl ! j)) = 0)"
  using assms
proof (induction "is" arbitrary: sl)
  case Nil
  then show ?case by simp
next
  case (Cons i "is")
  obtain stt s where r: "slot_reseal E (blank_slot (of_nat i)) = (stt, s)" by fastforce
  then obtain sl1 where s: "sl = s # sl1" "new_slots E is = Some sl1"
    using Cons.prems(1) by (auto split: hsm_status.splits)
  have "slot_inv (of_nat i) s"
    using slot_inv_reseal[OF blank_slot_inv r] Cons.prems(2) by simp
  moreover have "m_generation (sl_meta s) = 0"
    using reseal_meta[OF r] by (simp add: blank_slot_def blank_meta_def)
  ultimately show ?case
    using Cons.IH[OF s(2)] Cons.prems(2) s(1) by (auto simp: less_Suc_eq_0_disj)
qed

lemma token_new_inv:
  assumes "hsm_token_new E n w = (Some tok, w')"
  shows "tok_inv tok \<and> session_gen tok = 0 \<and> sessions tok = replicate MAX_SESSIONS blank_session \<and>
     length (slots tok) = n"
proof -
  obtain w2 sl where n: "n \<le> 4096" "new_slots E [0..<n] = Some sl"
    "tok = world.extend w2 \<lparr>slots = sl, sessions = replicate MAX_SESSIONS blank_session,
       session_gen = 0, audit = None, persist_fn = None, persist_busy = False\<rparr>"
    using assms by (auto simp: hsm_token_new_def Let_def split: if_splits)
  then have f: "slots tok = sl" "sessions tok = replicate MAX_SESSIONS blank_session" "session_gen tok = 0"
    by (simp_all add: world.extend_def)
  have "length sl = n \<and> (\<forall>j < n. slot_inv (of_nat j) (sl ! j))"
    using new_slots_inv[OF n(2)] n(1) by auto
  then show ?thesis
    using f n(1) by (auto simp: tok_inv_def dev_inv_def session_inv_def blank_session_def)
qed

text \<open>
  C1: whatever calls are made on a new token, in whatever order, its invariant holds: a slot that
  claims a key holds one of its parameter set in exactly one form, a slot that claims none holds
  no key bytes at all, an uninitialised slot holds no PIN data, three failed user PINs mean locked,
  every open session names a slot, and a session that is logged in is logged in to a slot that has a
  PIN for that role: no login outlives a zeroization of its slot. (Replacing the user PIN does not end
  the logins that were made with the old one.) KMAC can always compute a seal, and the persistence hook
  does not change the slots and sessions.
\<close>

theorem token_always_safe:
  assumes "hsm_token_new E n w = (Some tok, w')" "seal_total E" "hook_ok H" "list_all op_ok ops"
  shows "tok_inv (tok_run E H ops tok)"
  unfolding tok_run_fold
  by (rule tk.run_inv) (use assms token_new_inv in \<open>simp_all add: good_env_def\<close>)

section \<open>Authorization\<close>

text \<open>
  A call that needs a role changes nothing and fails unless its session is open and logged in
  to some slot with exactly that role.
\<close>

theorem unauthorized_refused:
  assumes "op_needs op = Some (sess, r)" "\<And>sid. session_info tok sess \<noteq> Inr (sid, r)"
    and "tok_exec E H op tok = (stt, tok')"
  shows "stt \<noteq> HSM_OK \<and> tok' = tok"
proof -
  obtain e where "require_role tok sess r = Inl e"
    using assms(2) require_role_Inr[of tok sess r] by (cases "require_role tok sess r") auto
  then show ?thesis
    using assms(1,3) require_role_err[of tok sess r e]
    by (cases op) (auto simp: hsm_slot_set_user_pin_def hsm_slot_generate_def hsm_slot_load_seed_def
        create_object_def hsm_object_sign_def hsm_object_decaps_def hsm_object_destroy_def
        hsm_slot_zeroize_def hsm_slot_unlock_def split: prod.splits option.splits if_splits)
qed

lemma granted_slot:
  assumes "tok_inv tok" "session_info tok sess = Inr (i, r)"
  shows "slot_at tok i \<noteq> None"
proof -
  obtain k where "k < length (sessions tok)" "se_open (sessions tok ! k)" "se_slot (sessions tok ! k) = i"
    using info_index[OF assms(2)] assms(1) dev_inv_len unfolding tok_inv_def by blast
  then show ?thesis
    using assms(1) dev_inv_session[of "slots tok" "sessions tok" "session_gen tok" k]
    by (auto simp: tok_inv_def session_inv_def slot_at_def)
qed

lemma close_info:
  "hsm_session_close tok sess =
     (case session_info tok sess of
        Inl e \<Rightarrow> (HSM_ERR_BAD_ARG, tok)
      | Inr _ \<Rightarrow> (HSM_OK, tok\<lparr>sessions := (sessions tok)[sess_idx sess - 1 := blank_session]\<rparr>))"
  by (simp add: hsm_session_close_def session_info_def Let_def)

lemma no_session_refused:
  assumes "tok_exec E H op tok = (stt, tok')" "\<And>i r. session_info tok sess \<noteq> Inr (i, r)"
    "op = Session_Close sess \<or> op = Logout sess \<or> op = Login sess role pin"
  shows "stt \<noteq> HSM_OK \<and> tok' = tok"
proof -
  obtain e where "session_info tok sess = Inl e" using assms(2) by (cases "session_info tok sess") auto
  then show ?thesis
    using assms(1,3) session_info_err[of tok sess e] by (auto simp: close_info hsm_session_logout_def hsm_session_login_def)
qed

lemma not_permitted_refused:
  assumes "tok_exec E H op tok = (stt, tok')" "tok_inv tok"
    "\<And>i. permitted (sessions tok) op i \<Longrightarrow> slot_at tok i = None"
  shows "stt \<noteq> HSM_OK \<and> tok' = tok"
proof -
  have n: "\<not> permitted (sessions tok) op i" if "session_info tok sess = Inr (i, r)" for i r sess
    using granted_slot[OF assms(2) that] assms(3)[of i] by auto
  have free: ?thesis
    if "op = Init sid label pin \<or> op = Session_Open sid out \<or> op = Zeroize_Forced sid" for sid label pin out
    using that assms(1,3) by (auto simp: hsm_slot_init_token_def hsm_session_open_def
        hsm_slot_zeroize_forced_def res_status_def split: option.splits if_splits)
  have held: ?thesis
    if "op = Session_Close sess \<or> op = Logout sess \<or> op = Login sess role pin" for sess role pin
  proof (rule no_session_refused[OF assms(1) _ that])
    show "session_info tok sess \<noteq> Inr (i, r)" for i r
      using n[of sess i r] that by (auto simp: session_info_granted)
  qed
  have member: ?thesis if o: "op_needs op = Some (sess, r)" and u: "\<And>s i. op = Unlock s i \<or> op = Zeroize s i \<Longrightarrow> False"
    for sess r
  proof (rule unauthorized_refused[OF o _ assms(1)])
    show "session_info tok sess \<noteq> Inr (i, r)" for i
      using n[of sess i r] o u by (cases op) (auto simp: session_info_granted)
  qed
  have own: ?thesis if o: "op = Unlock sess i \<or> op = Zeroize sess i" for sess i
    using assms(1) n[of sess i] o
    by (auto simp: hsm_slot_unlock_def hsm_slot_zeroize_def require_role_Inr session_info_granted
        split: sum.splits option.splits if_splits dest: require_role_err)
  show ?thesis using free held member own by (cases op) auto
qed

text \<open>
  C38: every public call of slot.c refines one step of the abstract device, labelled by the call and its
  status, and each step has the guard of its call: only the holder of a session that is logged in to a slot
  as User makes, uses or destroys its key, only its security officer sets the user PIN, unlocks or zeroizes
  it, only the holder of a session closes it or changes its login, and to the role of a PIN that the slot
  accepted. Behind its guard a call runs its critical section on that one slot, zeroizes it and ends the
  logins on it, or changes one entry of the session table; it reports success only when that has happened.
  A call whose guard holds for no slot fails and leaves the whole token as it was. The token is one with
  the invariant \<open>tok_inv\<close>, KMAC can always compute a seal, the hook does not change the slots and sessions, and a seed is as long as its
  length says.
\<close>

theorem tok_exec_refines:
  assumes "tok_inv tok" "seal_total E" "hook_ok H" "op_ok op"
    and "tok_exec E H op tok = (stt, tok')"
  shows "dev_step E op stt (dev_of tok) (dev_of tok') \<and>
     ((\<exists>i. unat i < length (slots tok) \<and> permitted (sessions tok) op i) \<or> stt \<noteq> HSM_OK \<and> tok' = tok)"
proof -
  have "stt \<noteq> HSM_OK \<and> tok' = tok"
    if "\<not> (\<exists>i. unat i < length (slots tok) \<and> permitted (sessions tok) op i)"
    by (rule not_permitted_refused[OF assms(5,1)]) (use that in \<open>auto simp: slot_at_def not_less\<close>)
  then show ?thesis using tok_exec_step[OF assms] by blast
qed

section \<open>Isolation\<close>

text \<open>
  The slot a call works on: the one its session is open on, or the one it names.\<close>

definition session_slot :: "hsm_token \<Rightarrow> u64 \<Rightarrow> nat option" where
  "session_slot tok sess = (case session_info tok sess of Inl _ \<Rightarrow> None | Inr (sid, _) \<Rightarrow> Some (unat sid))"

fun op_target :: "hsm_token \<Rightarrow> tok_op \<Rightarrow> nat option" where
  "op_target tok (Init sid label pin) = Some (unat sid)"
| "op_target tok (Zeroize_Forced sid) = Some (unat sid)"
| "op_target tok (Session_Open sid out) = None"
| "op_target tok (Session_Close sess) = None"
| "op_target tok (Logout sess) = None"
| "op_target tok (Login sess role pin) = session_slot tok sess"
| "op_target tok op = (case op_needs op of None \<Rightarrow> None | Some (sess, _) \<Rightarrow> session_slot tok sess)"

definition only_slot :: "nat option \<Rightarrow> hsm_token \<Rightarrow> hsm_token \<Rightarrow> bool" where
  "only_slot t tok tok' \<longleftrightarrow> length (slots tok') = length (slots tok) \<and>
     (\<forall>i. t \<noteq> Some i \<longrightarrow> slots tok' ! i = slots tok ! i)"

lemma only_slot_refl [simp]: "only_slot t tok tok"
  by (simp add: only_slot_def)

lemma only_slot_same [simp]: "slots tok' = slots tok \<Longrightarrow> only_slot t tok tok'"
  by (simp add: only_slot_def)

lemma only_slot_put:
  "slots tok' = (slots tok)[unat sid := s] \<Longrightarrow> only_slot (Some (unat sid)) tok tok'"
  by (auto simp: only_slot_def)

lemma slots_commit: "hook_ok H \<Longrightarrow> commit_security_state H stt tok = (s', tok') \<Longrightarrow> slots tok' = slots tok"
  using dev_of_commit by blast

lemma slots_core: "only_core (tok :: hsm_token) tok1 \<Longrightarrow> slots tok1 = slots tok"
  using dev_of_only_core[of tok tok1] by simp

lemma slots_put [simp]: "slots (set_slot sid s tok) = (slots tok)[unat sid := s]"
  by (simp add: set_slot_def)

lemma slots_role [simp]: "slots (set_session_role sess role tok) = slots tok"
  by (simp add: set_session_role_def Let_def)

lemma slots_drop [simp]: "slots (drop_sessions_on_slot sid tok) = slots tok"
  by (simp add: drop_sessions_on_slot_def)

lemma only_slot_commit:
  assumes "hook_ok H" "commit_security_state H stt (set_slot sid s' tok1) = (stt', tok2)" "only_core tok tok1"
  shows "only_slot (Some (unat sid)) tok (slot_audit E op role sl res detail tok2)"
  by (rule only_slot_put[of _ _ _ s']) (simp add: slots_commit[OF assms(1,2)] slots_core[OF assms(3)])

lemma role_target: "require_role tok sess r = Inr sid \<Longrightarrow> session_slot tok sess = Some (unat sid)"
  by (simp add: require_role_Inr session_slot_def)

lemma info_target: "session_info tok sess = Inr (sid, r) \<Longrightarrow> session_slot tok sess = Some (unat sid)"
  by (simp add: session_slot_def)

lemma create_only_slot:
  "hook_ok H \<Longrightarrow> create_object E H tok sess alg us po seed n ev out = (stt, h, tok') \<Longrightarrow>
     only_slot (session_slot tok sess) tok tok'"
  by (auto simp: create_object_def split: sum.splits option.splits if_splits prod.splits
      dest!: role_target intro!: only_slot_commit[OF _ _ only_core_create])

lemma zeroize_only_slot:
  assumes "hook_ok H" "zeroize_commit E H sid role d s tok = (stt, tok')"
  shows "only_slot (Some (unat sid)) tok tok'"
proof -
  have *: "only_slot (Some (unat sid)) tok (slot_audit E op r sl res det tok2)"
    if "commit_security_state H st0 t = (st1, tok2)" "slots t = (slots tok)[unat sid := s']"
    for st0 t st1 tok2 s' op r sl res det
    by (rule only_slot_put[of _ _ _ s']) (use slots_commit[OF assms(1) that(1)] that(2) in simp)
  show ?thesis
    using assms(2) by (auto simp: zeroize_commit_def Let_def split: prod.splits intro: *)
qed

lemma login_only_slot:
  assumes "hook_ok H" "hsm_session_login E H tok sess role pin = (stt, tok')"
  shows "only_slot (session_slot tok sess) tok tok'"
proof (cases "slots tok' = slots tok")
  case False
  then obtain sid r p s where i: "session_info tok sess = Inr (sid, r)" "slot_at tok sid = Some s" "pin = Some p"
    using assms(2) by (auto simp: hsm_session_login_def split: sum.splits option.splits if_splits)
  obtain st0 ok chg s' where l: "login_locked E s role p = (st0, ok, chg, s')" by (metis prod_cases4)
  obtain st2 tok2 where c: "(if chg then commit_security_state H st0 (set_slot sid s' tok)
      else (st0, set_slot sid s' tok)) = (st2, tok2)" by fastforce
  have "slots tok2 = (slots tok)[unat sid := s']"
    using c slots_commit[OF assms(1)] by (auto split: if_splits)
  then have "slots tok' = (slots tok)[unat sid := s'] \<or> tok' = tok"
    using assms(2) i l c by (auto simp: hsm_session_login_def Let_def split: if_splits)
  then show ?thesis using only_slot_put info_target[OF i(1)] by auto
qed simp

text \<open>
  a call works on at most one slot, the one its session is open on (or the one it names, for
  initialisation and forced zeroization); every other slot keeps every field.
\<close>

theorem slot_isolation:
  assumes "hook_ok H" "tok_exec E H op tok = (stt, tok')"
  shows "length (slots tok') = length (slots tok) \<and>
     (\<forall>i. op_target tok op \<noteq> Some i \<longrightarrow> slots tok' ! i = slots tok ! i)"
proof -
  note c = only_slot_commit[OF assms(1)]
  have "only_slot (op_target tok op) tok tok'"
  proof (cases op)
    case (Init sid label pin)
    then show ?thesis using assms(2)
      by (auto simp: hsm_slot_init_token_def split: option.splits if_splits prod.splits
          intro!: c[OF _ only_core_init])
  next
    case (Set_User_Pin sess pin)
    then show ?thesis using assms(2)
      by (auto simp: hsm_slot_set_user_pin_def split: sum.splits option.splits if_splits prod.splits
          dest!: role_target intro!: c[OF _ only_core_user_pin])
  next
    case (Sign sess h msg ml ctx cl sig sl)
    then show ?thesis using assms(2)
      by (auto simp: hsm_object_sign_def Let_def split: sum.splits option.splits if_splits prod.splits
          dest!: role_target only_core_sign intro!: only_slot_put simp: slots_core)
  next
    case (Decaps sess h ct cl ss sl)
    then show ?thesis using assms(2)
      by (auto simp: hsm_object_decaps_def Let_def split: sum.splits option.splits if_splits prod.splits
          dest!: role_target only_core_decaps intro!: only_slot_put simp: slots_core)
  next
    case (Destroy sess h)
    then show ?thesis using assms(2)
      by (auto simp: hsm_object_destroy_def split: sum.splits option.splits prod.splits
          dest!: role_target intro!: c[OF _ only_core_refl])
  next
    case (Unlock sess sid)
    then show ?thesis using assms(2)
      by (auto simp: hsm_slot_unlock_def split: sum.splits option.splits if_splits prod.splits
          dest!: role_target intro!: c[OF _ only_core_refl])
  next
    case (Zeroize sess sid)
    then show ?thesis using assms
      by (auto simp: hsm_slot_zeroize_def split: sum.splits option.splits if_splits
          dest!: role_target intro: zeroize_only_slot)
  next
    case (Zeroize_Forced sid)
    then show ?thesis using assms
      by (auto simp: hsm_slot_zeroize_forced_def split: option.splits intro: zeroize_only_slot)
  qed (use assms in \<open>auto simp: hsm_session_open_def hsm_session_close_def hsm_session_logout_def
      hsm_slot_generate_def hsm_slot_load_seed_def Let_def
      split: sum.splits option.splits if_splits prod.splits
      intro: create_only_slot login_only_slot\<close>)
  then show ?thesis by (simp add: only_slot_def)
qed

end
