(* ===== verification/Slot_Keys.thy ===== *)
theory Slot_Keys
  imports Slot_Props
begin

text \<open>
  Properties of keys, handles, sessions and PINs of slot.c: revocation, usage, policy, rollback,
  lockout, integrity, zeroization and the fail-closed commit.
\<close>

section \<open>Handles\<close>

abbreviation handle_slot :: "u64 \<Rightarrow> u32" where "handle_slot h \<equiv> ucast h"
abbreviation handle_gen :: "u64 \<Rightarrow> u32" where "handle_gen h \<equiv> ucast (drop_bit 32 h)"

lemma u32_cast_or: "ucast (push_bit 32 (a :: u64) OR b) = (ucast b :: u32)"
proof (rule bit_eqI)
  fix n
  assume "possible_bit TYPE(u32) n"
  then have "n < 32" by simp
  then show "bit (ucast (push_bit 32 a OR b) :: u32) n \<longleftrightarrow> bit (ucast b :: u32) n"
    by (simp add: bit_ucast_iff bit_or_iff bit_push_bit_iff)
qed

lemma u32_u64: "ucast (ucast (a :: u32) :: u64) = a"
proof (rule bit_eqI)
  fix n
  assume "possible_bit TYPE(u32) n"
  then show "bit (ucast (ucast a :: u64) :: u32) n \<longleftrightarrow> bit a n" by (simp add: bit_ucast_iff)
qed

lemma u32_drop_or: "ucast (drop_bit 32 (push_bit 32 (ucast (a :: u32)) OR ucast (b :: u32) :: u64)) = a"
proof (rule bit_eqI)
  fix n
  assume "possible_bit TYPE(u32) n"
  then have n: "n < 32" by simp
  have "\<not> bit b (32 + n)" using bit_imp_le_length[of b "32 + n"] by auto
  then show "bit (ucast (drop_bit 32 (push_bit 32 (ucast a) OR ucast b :: u64)) :: u32) n \<longleftrightarrow> bit a n"
    using n by (simp add: bit_ucast_iff bit_drop_bit_eq bit_or_iff bit_push_bit_iff)
qed

lemma make_handle_parts:
  "handle_slot (make_handle s) = m_slot_id (sl_meta s) + 1"
  "handle_gen (make_handle s) = m_generation (sl_meta s)"
  by (simp_all only: make_handle_def u32_cast_or u32_drop_or u32_u64)

lemma unat_u32: "n \<le> 4096 \<Longrightarrow> unat (of_nat n :: u32) = n"
  by (simp add: unsigned_of_nat take_bit_nat_eq_self)

lemma slot_id_plus1: "i < 4096 \<Longrightarrow> (of_nat i :: u32) + 1 \<noteq> 0"
proof -
  assume "i < 4096"
  then have "unat (of_nat (Suc i) :: u32) = Suc i" by (intro unat_u32) simp
  then show ?thesis by (metis Suc_neq_Zero add.commute of_nat_Suc unat_0)
qed

lemma make_handle_nonzero: "m_slot_id (sl_meta s) + 1 \<noteq> 0 \<Longrightarrow> make_handle s \<noteq> 0"
  by (metis make_handle_parts(1) unsigned_0)

text \<open>
  the handle of a key works on the slot it was made for while the slot is LOADED and sealed,
  and on no other slot.
\<close>

theorem handle_names_slot:
  assumes "tok_inv tok" "i < length (slots tok)" "j < length (slots tok)"
    and "st_of (slots tok ! i) = SLOT_ST_LOADED" "sealed E (slots tok ! i)"
  shows "check_handle E (slots tok ! j) (make_handle (slots tok ! i)) =
     (if i = j then HSM_OK else HSM_ERR_BAD_HANDLE)"
proof -
  have inv: "slot_inv (of_nat k) (slots tok ! k)" "k < 4096" if "k < length (slots tok)" for k
    using assms(1) that by (auto simp: tok_inv_def dev_inv_def)
  have sid: "m_slot_id (sl_meta (slots tok ! k)) = of_nat k" if "k < length (slots tok)" for k
    using inv(1)[OF that] by (simp add: slot_inv_def)
  have nz: "make_handle (slots tok ! i) \<noteq> 0"
    using make_handle_nonzero sid slot_id_plus1 inv(2) assms(2) by simp
  have "(of_nat i :: u32) = of_nat j \<longleftrightarrow> i = j"
    using unat_u32 inv(2)[OF assms(2)] inv(2)[OF assms(3)] by (metis less_imp_le)
  moreover have "slot_check_integrity E (slots tok ! i) = HSM_OK"
    using assms(5) check_integrity_iff[OF slot_inv_arrays[OF inv(1)[OF assms(2)]]] by simp
  ultimately show ?thesis
    using nz sid assms(2-4) by (auto simp: check_handle_def make_handle_parts)
qed

section \<open>Revoked handles\<close>

text \<open>What a handle is good for: nothing, when no slot accepts it.\<close>

definition dead_handle :: "env \<Rightarrow> hook \<Rightarrow> hsm_token \<Rightarrow> u64 \<Rightarrow> bool" where
  "dead_handle E H tok h \<longleftrightarrow>
     (\<forall>sess msg ml ctx cl sig sl. case hsm_object_sign E tok sess h msg ml ctx cl sig sl of
        (stt, bs, _) \<Rightarrow> stt \<noteq> HSM_OK \<and> bs = None) \<and>
     (\<forall>sess ct cl ss sl. case hsm_object_decaps E tok sess h ct cl ss sl of
        (stt, bs, _) \<Rightarrow> stt \<noteq> HSM_OK \<and> bs = None) \<and>
     (\<forall>sess out ol. \<exists>e. hsm_object_public_key E tok sess h out ol = Inl e) \<and>
     (\<forall>sess. fst (hsm_object_destroy E H tok sess h) \<noteq> HSM_OK)"

lemma begin_use_refused: "check_handle E s h \<noteq> HSM_OK \<Longrightarrow> begin_use E s h need w = (Inl (check_handle E s h), s, w)"
  by (simp add: begin_use_def)

lemma session_info_Inl: "session_info tok sess = Inl e \<Longrightarrow> e \<noteq> HSM_OK"
  using session_info_err by fastforce

lemma dead_handleI:
  assumes "\<And>sid s. slot_at tok sid = Some s \<Longrightarrow> check_handle E s h \<noteq> HSM_OK"
  shows "dead_handle E H tok h"
proof -
  have "fst (hsm_object_destroy E H tok sess h) \<noteq> HSM_OK" for sess
    using assms
    by (auto simp: hsm_object_destroy_def destroy_locked_def
        split: sum.splits option.splits prod.splits if_splits dest: commit_status require_role_err)
  moreover have "case hsm_object_sign E tok sess h msg ml ctx cl sig sl of
      (stt, bs, _) \<Rightarrow> stt \<noteq> HSM_OK \<and> bs = None" for sess msg ml ctx cl sig sl
    using assms
    by (auto simp: hsm_object_sign_def sign_locked_def begin_use_refused Let_def
        split: sum.splits option.splits prod.splits dest: require_role_err)
  moreover have "case hsm_object_decaps E tok sess h ct cl ss sl of
      (stt, bs, _) \<Rightarrow> stt \<noteq> HSM_OK \<and> bs = None" for sess ct cl ss sl
    using assms
    by (auto simp: hsm_object_decaps_def decaps_locked_def begin_use_refused Let_def
        split: sum.splits option.splits prod.splits dest: require_role_err)
  moreover have "\<exists>e. hsm_object_public_key E tok sess h out ol = Inl e" for sess out ol
    using assms
    by (auto simp: hsm_object_public_key_def Let_def split: sum.splits option.splits prod.splits)
  ultimately show ?thesis unfolding dead_handle_def by blast
qed

lemma stale_handle_dead:
  assumes "tok_inv tok" "handle_slot h = sid + 1" "unat sid < length (slots tok)"
    "slot_gen (unat sid) tok \<noteq> handle_gen h"
  shows "dead_handle E H tok h"
proof (rule dead_handleI)
  fix i s
  assume "slot_at tok i = Some s"
  then have i: "unat i < length (slots tok)" "s = slots tok ! unat i" by (simp_all add: slot_at_Some)
  have "slot_inv i s" using assms(1) i dev_inv_slot by (auto simp: tok_inv_def)
  then have "m_slot_id (sl_meta s) = i" by (simp add: slot_inv_def)
  then show "check_handle E s h \<noteq> HSM_OK"
    using assms(2,4) i check_handle_OK[of E s h] by (auto simp: slot_gen_def)
qed

lemma length_run: "good_env e \<Longrightarrow> list_all op_ok ops \<Longrightarrow> tok_inv tok \<Longrightarrow>
    length (slots (fold (tok_step e) ops tok)) = length (slots tok)"
proof (induction ops arbitrary: tok)
  case (Cons op ops)
  have "length (slots (tok_step e op tok)) = length (slots tok)"
    using tok_step_dev[of tok e op] Cons.prems by (auto elim!: dev_step.cases)
  then show ?case using Cons tok_step_inv by simp
qed simp

lemma revoked_stays_dead:
  assumes "tok_inv tok" "good_env (E, H)" "list_all op_ok ops" "length ops < 2 ^ 32 - 1"
    "unat sid < length (slots tok)" "handle_slot h = sid + 1" "slot_gen (unat sid) tok = handle_gen h + 1"
  shows "dead_handle E H (tok_run E H ops tok) h"
  unfolding tok_run_fold
proof (rule stale_handle_dead)
  show "tok_inv (fold (tok_step (E, H)) ops tok)" using tk.run_inv assms(1-3) by blast
  show "unat sid < length (slots (fold (tok_step (E, H)) ops tok))"
    using length_run[OF assms(2,3,1)] assms(5) by simp
  show "slot_gen (unat sid) (fold (tok_step (E, H)) ops tok) \<noteq> handle_gen h"
    using sg.never_back[OF assms(2,3,1,7,4)] .
qed (rule assms(6))

text \<open>The hypotheses of the properties below: a sound token and a device that can seal.\<close>

lemma destroy_bumps:
  assumes "hook_ok H" "hsm_object_destroy E H tok sess h = (HSM_OK, tok1)" "tok_inv tok"
  shows "\<exists>sid. unat sid < length (slots tok1) \<and> handle_slot h = sid + 1 \<and>
     slot_gen (unat sid) tok1 = handle_gen h + 1"
proof -
  obtain sid s where r: "require_role tok sess HSM_ROLE_USER = Inr sid" "slot_at tok sid = Some s"
    using assms(2) by (auto simp: hsm_object_destroy_def split: sum.splits option.splits
        dest: require_role_err)
  obtain st0 s' where d: "destroy_locked E s h = (st0, s')" by fastforce
  obtain stt tok2 where c: "commit_security_state H st0 (set_slot sid s' tok) = (stt, tok2)" by fastforce
  have ok: "stt = HSM_OK" "tok1 = slot_audit E AUDIT_OP_DESTROY HSM_ROLE_USER sid HSM_OK None tok2"
    using assms(2) r d c by (auto simp: hsm_object_destroy_def)
  then have "st0 = HSM_OK" using commit_status[OF c] by simp
  then have ch: "check_handle E s h = HSM_OK" "m_generation (sl_meta s') = m_generation (sl_meta s) + 1"
    using destroy_locked_cases[OF d] by (auto dest!: reseal_meta)
  have i: "unat sid < length (slots tok)" "s = slots tok ! unat sid"
    using r(2) by (simp_all add: slot_at_Some)
  then have "m_slot_id (sl_meta s) = sid"
    using assms(3) dev_inv_slot by (auto simp: tok_inv_def slot_inv_def)
  then show ?thesis
    using check_handle_OK[OF ch(1)] ch(2) i slots_commit[OF assms(1) c] ok(2)
    by (intro exI[of _ sid]) (simp add: slot_gen_def)
qed

text \<open>
  C2: after a successful hsm\_object\_destroy the handle is dead: no session can sign, decapsulate,
  read the public key or destroy with it, immediately or after any \<open>2\<^sup>3\<^sup>2 - 2\<close> further calls, even when
  a new key is made in the same slot.
\<close>

theorem destroyed_handle_dead:
  assumes "tok_inv tok" "seal_total E" "hook_ok H"
    and "hsm_object_destroy E H tok sess h = (HSM_OK, tok1)"
    and "list_all op_ok ops" "length ops < 2 ^ 32 - 1"
  shows "dead_handle E H (tok_run E H ops tok1) h"
proof -
  have g: "good_env (E, H)" using assms(2,3) by (simp add: good_env_def)
  have "tok_inv tok1"
    using tok_step_inv[OF g _ assms(1), of "Destroy sess h"] assms(4) by (simp add: tok_step_def)
  then show ?thesis
    using revoked_stays_dead[OF _ g assms(5,6)] destroy_bumps[OF assms(3,4,1)] by blast
qed

section \<open>Zeroization\<close>

lemma drop_roles_public:
  assumes "s \<in> set (drop_roles sid ss)" "se_open s" "se_slot s = sid"
  shows "se_role s = HSM_ROLE_PUBLIC"
proof -
  obtain s0 where "s = (if se_open s0 \<and> se_slot s0 = sid then s0\<lparr>se_role := HSM_ROLE_PUBLIC\<rparr> else s0)"
    using assms(1) unfolding drop_roles_def set_map by blast
  then show ?thesis using assms(2,3) by (cases "se_open s0 \<and> se_slot s0 = sid") simp_all
qed

lemma zeroize_commit_result:
  assumes "seal_total E" "hook_ok H" "slot_at tok sid = Some s" "st_of s \<noteq> SLOT_ST_INVALID"
    "zeroize_commit E H sid role detail s tok = (stt, tok')"
  shows "\<exists>s'. zeroized s s' \<and> sealed E s' \<and> slots tok' = (slots tok)[unat sid := s'] \<and>
     sessions tok' = drop_roles sid (sessions tok) \<and>
     stt = (if fst (slot_persist H (drop_sessions_on_slot sid (set_slot sid s' tok)))
            then HSM_OK else HSM_ERR_CRYPTO)"
proof -
  obtain st0 s' where z: "do_zeroize E s = (st0, s')" by fastforce
  have r: "zeroized s s'" "sealed E s'" "st0 = HSM_OK"
    using do_zeroize_cases[OF z] assms(1,4) by auto
  obtain stt' tok3 where c: "commit_security_state H st0 (drop_sessions_on_slot sid (set_slot sid s' tok))
      = (stt', tok3)" by fastforce
  have t: "tok' = slot_audit E AUDIT_OP_ZEROIZE role sid stt' (Some (cstr detail)) tok3" "stt = stt'"
    using assms(5) z c r(3) by (auto simp: zeroize_commit_def)
  have "dev_of tok3 = dev_of (drop_sessions_on_slot sid (set_slot sid s' tok))"
    using dev_of_commit[OF assms(2) c] .
  then have d: "slots tok' = (slots tok)[unat sid := s']" "sessions tok' = drop_roles sid (sessions tok)"
    using t(1) by (simp_all add: drop_sessions_eq set_slot_def)
  have "stt = (if fst (slot_persist H (drop_sessions_on_slot sid (set_slot sid s' tok)))
      then HSM_OK else HSM_ERR_CRYPTO)"
    using c r(3) t(2) by (auto simp: commit_security_state_def split: prod.splits)
  then show ?thesis using r d by blast
qed


text \<open>
  zeroizing revokes every handle: whatever handle the slot accepted before is dead afterwards,
  for any \<open>2\<^sup>3\<^sup>2 - 2\<close> further calls.
\<close>

theorem zeroized_handles_dead:
  assumes "tok_inv tok" "seal_total E" "hook_ok H" "slot_at tok sid = Some s"
    and "check_handle E s h = HSM_OK" "hsm_slot_zeroize_forced E H tok sid = (stt, tok1)"
    and "list_all op_ok ops" "length ops < 2 ^ 32 - 1"
  shows "dead_handle E H (tok_run E H ops tok1) h"
proof -
  have g: "good_env (E, H)" using assms(2,3) by (simp add: good_env_def)
  have i: "unat sid < length (slots tok)" "s = slots tok ! unat sid"
    using assms(4) by (simp_all add: slot_at_Some)
  have inv: "slot_inv sid s" using assms(1) i dev_inv_slot by (auto simp: tok_inv_def)
  have st: "st_of s \<noteq> SLOT_ST_INVALID" using inv slot_inv_states(6) by blast
  have "zeroize_commit E H sid HSM_ROLE_PUBLIC ''forced'' s tok = (stt, tok1)"
    using assms(4,6) by (simp add: hsm_slot_zeroize_forced_def)
  then obtain s' where z: "zeroized s s'" "slots tok1 = (slots tok)[unat sid := s']"
    using zeroize_commit_result[OF assms(2,3,4) st] by blast
  have "tok_inv tok1"
    using tok_step_inv[OF g _ assms(1), of "Zeroize_Forced sid"] assms(6) by (simp add: tok_step_def)
  moreover have "slot_gen (unat sid) tok1 = handle_gen h + 1" "handle_slot h = sid + 1"
    using check_handle_OK[OF assms(5)] z i inv
    by (simp_all add: slot_gen_def zeroized_def blank_meta_def slot_inv_def)
  ultimately show ?thesis using revoked_stays_dead[OF _ g assms(7,8)] z(2) i by simp
qed

section \<open>Sessions\<close>

text \<open>
  A counter view of the session table: the session counter is \<open>m\<close>, every open entry has the number
  of an earlier open call, and entry \<open>k\<close>, if it is open, one later than \<open>c\<close>.
\<close>

definition entry_fresh :: "nat \<Rightarrow> nat \<Rightarrow> nat \<Rightarrow> nat \<Rightarrow> session \<Rightarrow> bool" where
  "entry_fresh c k m i s \<longleftrightarrow> (se_open s \<longrightarrow>
     (\<exists>j. 1 \<le> j \<and> j \<le> m \<and> (i = k \<longrightarrow> c < j) \<and> se_gen s = of_nat j))"

definition fresh_after :: "nat \<Rightarrow> nat \<Rightarrow> nat \<Rightarrow> dev \<Rightarrow> bool" where
  "fresh_after c k m d \<longleftrightarrow> (case d of (sl, ss, g) \<Rightarrow> g = of_nat m \<and>
     (\<forall>i < length ss. entry_fresh c k m i (ss ! i)))"

lemma entry_fresh_mono: "entry_fresh c k m i s \<Longrightarrow> entry_fresh c k (Suc m) i s"
  by (auto simp: entry_fresh_def intro: le_SucI)

lemma entry_fresh_role [simp]: "entry_fresh c k m i (s\<lparr>se_role := r\<rparr>) = entry_fresh c k m i s"
  by (simp add: entry_fresh_def)

lemma fresh_after_entry:
  assumes "fresh_after c k m (sl, ss, g)" "entry_fresh c k m n e"
  shows "fresh_after c k m (sl', ss[n := e], g)"
proof -
  have "entry_fresh c k m i (ss[n := e] ! i)" if "i < length ss" for i
    using assms that by (cases "i = n") (simp_all add: fresh_after_def)
  then show ?thesis using assms(1) by (simp add: fresh_after_def)
qed

lemma fresh_after_drop: "fresh_after c k m (sl, ss, g) \<Longrightarrow> fresh_after c k m (sl', drop_roles i ss, g)"
  by (simp add: fresh_after_def drop_roles_def)

lemma fresh_after_step:
  assumes "dev_step E op stt d d'" "fresh_after c k m d" "c \<le> m"
  shows "fresh_after c k m d' \<or> fresh_after c k (Suc m) d'"
  using assms
proof cases
  case (dev_login ss sess role p i sl st0 ok chg s' n g)
  then have "entry_fresh c k m n (ss ! n)" using assms(2) by (simp add: fresh_after_def)
  then show ?thesis
    using dev_login(2,3) assms(2) fresh_after_entry entry_fresh_role by (cases ok) (auto simp: fresh_after_def)
next
  case (dev_logout ss sess i n sl g)
  then have "entry_fresh c k m n (ss ! n)" using assms(2) by (simp add: fresh_after_def)
  then show ?thesis using dev_logout(2,3) assms(2) fresh_after_entry by (metis entry_fresh_role)
next
  case (dev_close ss sess i n sl g)
  then show ?thesis
    using assms(2) fresh_after_entry[of c k m sl ss g n blank_session]
    by (simp add: entry_fresh_def blank_session_def)
next
  case (dev_open n ss i sl g)
  let ?e = "\<lparr>se_open = True, se_slot = i, se_role = HSM_ROLE_PUBLIC, se_gen = g + 1\<rparr>"
  have "entry_fresh c k (Suc m) n ?e"
    using assms(2,3) dev_open(2) by (auto simp: entry_fresh_def fresh_after_def intro!: exI[of _ "Suc m"])
  moreover have "fresh_after c k (Suc m) (sl, ss, g + 1)"
    using assms(2) dev_open(2) entry_fresh_mono by (auto simp: fresh_after_def)
  ultimately show ?thesis unfolding dev_open(3) using fresh_after_entry by blast
qed (use assms fresh_after_drop in \<open>auto simp: fresh_after_def\<close>)

lemma fresh_after_run:
  assumes "good_env e" "list_all op_ok ops" "tok_inv tok" "fresh_after c k m (dev_of tok)" "c \<le> m"
  shows "\<exists>m' \<le> m + length ops. m \<le> m' \<and> fresh_after c k m' (dev_of (fold (tok_step e) ops tok))"
  using assms
proof (induction ops arbitrary: tok m)
  case (Cons op ops)
  have "fresh_after c k m (dev_of (tok_step e op tok)) \<or> fresh_after c k (Suc m) (dev_of (tok_step e op tok))"
    using fresh_after_step[OF tok_step_dev] Cons.prems by simp
  then obtain m1 where m1: "m \<le> m1" "m1 \<le> Suc m" "fresh_after c k m1 (dev_of (tok_step e op tok))"
    by (metis le_SucI le_refl)
  have "tok_inv (tok_step e op tok)" using Cons.prems tok_step_inv by simp
  then obtain m' where "m' \<le> m1 + length ops" "m1 \<le> m'"
    "fresh_after c k m' (dev_of (fold (tok_step e) ops (tok_step e op tok)))"
    using Cons.IH[of "tok_step e op tok" m1] Cons.prems m1 by auto
  then show ?case using m1 by (intro exI[of _ m']) auto
qed auto

lemma boot_fresh: "hsm_token_new E n w = (Some tok, w') \<Longrightarrow> fresh_after 0 k 0 (dev_of tok)"
  using token_new_inv[of E n w tok w']
  by (auto simp: fresh_after_def entry_fresh_def blank_session_def)

lemma word32_inj:
  assumes "(of_nat a :: u32) = of_nat b" "a < 2 ^ 32" "b < 2 ^ 32"
  shows "a = b"
proof -
  have "unat (of_nat n :: u32) = n" if "n < 2 ^ 32" for n
    using that by (simp add: unsigned_of_nat take_bit_nat_eq_self)
  then show ?thesis using assms by metis
qed

text \<open>
  a session id that was closed stays closed: from boot on, as long as fewer than \<open>2\<^sup>3\<^sup>2\<close> calls are
  made in all, no later session that reuses the entry of the table makes the old id valid again.
\<close>

theorem closed_session_dead:
  assumes "hsm_token_new E n w = (Some tok0, w')" "seal_total E" "hook_ok H"
    and "list_all op_ok ops1" "list_all op_ok ops2" "length ops1 + length ops2 < 2 ^ 32"
    and "hsm_session_close (tok_run E H ops1 tok0) sess = (HSM_OK, tok1)"
  shows "session_info (tok_run E H ops2 tok1) sess = Inl HSM_ERR_BAD_ARG"
proof (rule ccontr)
  define k where "k = sess_idx sess - 1"
  define t where "t = fold (tok_step (E, H)) ops1 tok0"
  have g: "good_env (E, H)" using assms(2,3) by (simp add: good_env_def)
  have inv0: "tok_inv tok0" using token_new_inv[OF assms(1)] by simp
  have inv: "tok_inv t" unfolding t_def using tk.run_inv g assms(4) inv0 by blast
  obtain m where m: "m \<le> length ops1" "fresh_after 0 0 m (dev_of t)"
    using fresh_after_run[OF g assms(4) inv0 boot_fresh[OF assms(1)], of 0] t_def by auto
  have cl: "hsm_session_close t sess = (HSM_OK, tok1)" using assms(7) by (simp add: tok_run_fold t_def)
  have k: "k < length (sessions t)" "se_open (sessions t ! k)" "se_gen (sessions t ! k) = sess_gen sess"
    "tok1 = t\<lparr>sessions := (sessions t)[k := blank_session]\<rparr>"
    using cl inv by (auto simp: hsm_session_close_def Let_def k_def tok_inv_def dev_inv_def split: if_splits)
  obtain j0 where j0: "j0 \<le> m" "sess_gen sess = of_nat j0"
    using m(2) k(1-3) by (auto simp: fresh_after_def entry_fresh_def)
  have "entry_fresh m k m i ((sessions t)[k := blank_session] ! i)" if "i < length (sessions t)" for i
    using m(2) that
    by (cases "i = k") (auto simp: fresh_after_def entry_fresh_def blank_session_def)
  then have f1: "fresh_after m k m (dev_of tok1)"
    using m(2) k(4) by (simp add: fresh_after_def)
  have inv1: "tok_inv tok1"
    using tok_step_inv[OF g _ inv, of "Session_Close sess"] cl by (simp add: tok_step_def)
  obtain m' where m': "m' \<le> m + length ops2" "fresh_after m k m' (dev_of (tok_run E H ops2 tok1))"
    using fresh_after_run[OF g assms(5) inv1 f1] tok_run_fold by auto
  assume "session_info (tok_run E H ops2 tok1) sess \<noteq> Inl HSM_ERR_BAD_ARG"
  then obtain sid r where si: "session_info (tok_run E H ops2 tok1) sess = Inr (sid, r)"
    using session_info_err by (cases "session_info (tok_run E H ops2 tok1) sess") auto
  have "tok_inv (tok_run E H ops2 tok1)" using tk.run_inv g assms(5) inv1 tok_run_fold by metis
  then have e: "k < length (sessions (tok_run E H ops2 tok1))" "se_open (sessions (tok_run E H ops2 tok1) ! k)"
    "se_gen (sessions (tok_run E H ops2 tok1) ! k) = sess_gen sess"
    using info_index[OF si] by (auto simp: tok_inv_def dev_inv_def k_def)
  then obtain j where "m < j" "j \<le> m'" "sess_gen sess = of_nat j"
    using m'(2) by (auto simp: fresh_after_def entry_fresh_def)
  then show False using j0 m(1) m'(1) assms(6) word32_inj[of j j0] by simp
qed

end
