(* ===== verification/Slot_Policy.thy ===== *)
theory Slot_Policy
  imports Slot_Keys
begin

text \<open>
  What the slot manager enforces: the PIN lockout, key usage, the seed storage policy, rollback of a
  failed creation, refusal of slots whose seal is broken, and the fail-closed commit.
\<close>

section \<open>PIN lockout\<close>

definition user_verifier :: "env \<Rightarrow> slot \<Rightarrow> bytes \<Rightarrow> bytes option" where
  "user_verifier E s p =
     pin_verifier E (sl_pin_key s) (m_slot_id (sl_meta s)) HSM_ROLE_USER (sl_user_salt s) p"

text \<open>
  A guess that is checked and does not match.\<close>

definition wrong_pin :: "env \<Rightarrow> slot \<Rightarrow> bytes \<Rightarrow> bool" where
  "wrong_pin E s p \<longleftrightarrow> (\<exists>v. user_verifier E s p = Some v \<and> v \<noteq> sl_user_verifier s)"

lemma wrong_pin_cong:
  "pins_of s' = pins_of s \<Longrightarrow> m_slot_id (sl_meta s') = m_slot_id (sl_meta s) \<Longrightarrow>
     wrong_pin E s' p = wrong_pin E s p"
  by (simp add: wrong_pin_def user_verifier_def pins_of_def)

definition guessable :: "env \<Rightarrow> u32 \<Rightarrow> slot \<Rightarrow> bool" where
  "guessable E sid s \<longleftrightarrow> slot_inv sid s \<and> sealed E s \<and> sl_has_user_pin s \<and>
     (st_of s = SLOT_ST_EMPTY \<or> st_of s = SLOT_ST_LOADED \<or> st_of s = SLOT_ST_LOCKED)"

lemma guessable_integrity: "guessable E sid s \<Longrightarrow> slot_check_integrity E s = HSM_OK"
  using check_integrity_iff slot_inv_arrays by (auto simp: guessable_def)

lemma locked_refuses:
  "guessable E sid s \<Longrightarrow> st_of s = SLOT_ST_LOCKED \<Longrightarrow>
     login_locked E s HSM_ROLE_USER p = (HSM_ERR_PIN_LOCKED, False, False, s)"
  by (simp add: login_locked_def guessable_integrity)

lemma wrong_guess:
  assumes "guessable E sid s" "seal_total E" "wrong_pin E s p" "st_of s \<noteq> SLOT_ST_LOCKED"
    and "login_locked E s HSM_ROLE_USER p = (stt, ok, chg, s')"
  shows "\<not> ok \<and> stt \<noteq> HSM_OK \<and> guessable E sid s' \<and> pins_of s' = pins_of s \<and>
     m_slot_id (sl_meta s') = m_slot_id (sl_meta s) \<and>
     m_user_pin_fails (sl_meta s') = m_user_pin_fails (sl_meta s) + 1 \<and>
     st_of s' = (if HSM_PIN_MAX_FAILS \<le> m_user_pin_fails (sl_meta s) + 1 then SLOT_ST_LOCKED else st_of s)"
proof -
  obtain v where v: "user_verifier E s p = Some v" "v \<noteq> sl_user_verifier s"
    using assms(3) by (auto simp: wrong_pin_def)
  have inv: "slot_inv sid s" "sl_has_user_pin s" "slot_check_integrity E s = HSM_OK"
    and st: "st_of s = SLOT_ST_EMPTY \<or> st_of s = SLOT_ST_LOADED"
    using assms(1,4) guessable_integrity by (auto simp: guessable_def)
  have len: "length v = VERIFIER_LEN" "length (sl_user_verifier s) = VERIFIER_LEN"
    using pin_verifier_length v(1) slot_inv_arrays[OF inv(1)]
    by (auto simp: user_verifier_def wf_arrays_def)
  have neq: "\<not> pqc_ct_equal (Some v) (Some (sl_user_verifier s)) VERIFIER_LEN"
    using v(2) len by (simp add: pqc_ct_equal_iff)
  have ver: "pin_verifier E (sl_pin_key s) (m_slot_id (sl_meta s)) HSM_ROLE_USER (sl_user_salt s) p = Some v"
    using v(1) by (simp add: user_verifier_def)
  have rs: "\<exists>tag. s2 = s1\<lparr>sl_meta_tag := tag\<rparr> \<and> sealed E s2" if "slot_reseal E s1 = (x, s2)" for s1 s2 x
    using slot_reseal_result[OF that] slot_reseal_total[OF assms(2), of s1] that by auto
  have inv': "slot_inv sid s'" using login_inv[OF inv(1) assms(5)] by simp
  have "\<not> ok \<and> stt \<noteq> HSM_OK \<and> pins_of s' = pins_of s \<and> sealed E s' \<and> sl_has_user_pin s' \<and>
     m_slot_id (sl_meta s') = m_slot_id (sl_meta s) \<and>
     m_user_pin_fails (sl_meta s') = m_user_pin_fails (sl_meta s) + 1 \<and>
     st_of s' = (if HSM_PIN_MAX_FAILS \<le> m_user_pin_fails (sl_meta s) + 1 then SLOT_ST_LOCKED else st_of s)"
    using assms(5) inv st neq ver
    by (auto simp: login_locked_def Let_def fsm_apply_simps pins_of_def
        split: if_splits prod.splits dest!: rs)
  then show ?thesis using inv' st by (auto simp: guessable_def)
qed

text \<open>Guesses of the user PIN of slot \<open>sid\<close>, through any sessions.\<close>

fun guess_all :: "env \<Rightarrow> hook \<Rightarrow> (u64 \<times> bytes) list \<Rightarrow> hsm_token \<Rightarrow> hsm_token" where
  "guess_all E H [] tok = tok"
| "guess_all E H ((sess, p) # gs) tok =
     guess_all E H gs (snd (hsm_session_login E H tok sess HSM_ROLE_USER (Some p)))"

lemma sessions_put [simp]: "sessions (set_slot sid s tok) = sessions tok"
  by (simp add: set_slot_def)

lemma login_no:
  assumes "hook_ok H" "session_info tok sess = Inr (sid, r)" "slot_at tok sid = Some s"
    "login_locked E s HSM_ROLE_USER p = (stt, False, chg, s')" "stt \<noteq> HSM_OK"
    "hsm_session_login E H tok sess HSM_ROLE_USER (Some p) = (stt', tok')"
  shows "stt' = stt \<and> slots tok' = (slots tok)[unat sid := s'] \<and> sessions tok' = sessions tok"
proof -
  obtain st2 tok2 where c: "(if chg then commit_security_state H stt (set_slot sid s' tok)
      else (stt, set_slot sid s' tok)) = (st2, tok2)" by fastforce
  have "dev_of tok2 = dev_of (set_slot sid s' tok)"
    using c dev_of_commit[OF assms(1)] by (auto split: if_splits)
  moreover have "st2 = stt"
    using c assms(5) by (auto simp: commit_security_state_def split: if_splits prod.splits)
  ultimately show ?thesis
    using assms(2-4,6) c by (auto simp: hsm_session_login_def Let_def)
qed

definition guess_state :: "env \<Rightarrow> u32 \<Rightarrow> slot \<Rightarrow> nat \<Rightarrow> session list \<Rightarrow> hsm_token \<Rightarrow> bool" where
  "guess_state E sid s0 n ss tok \<longleftrightarrow> sessions tok = ss \<and> unat sid < length (slots tok) \<and>
     guessable E sid (slots tok ! unat sid) \<and> pins_of (slots tok ! unat sid) = pins_of s0 \<and>
     m_slot_id (sl_meta (slots tok ! unat sid)) = m_slot_id (sl_meta s0) \<and>
     (st_of (slots tok ! unat sid) = SLOT_ST_LOCKED \<or>
      unat (m_user_pin_fails (sl_meta (slots tok ! unat sid))) = n)"

lemma fails_below: "guessable E sid s \<Longrightarrow> st_of s \<noteq> SLOT_ST_LOCKED \<Longrightarrow> unat (m_user_pin_fails (sl_meta s)) < 3"
  using slot_inv_states(2,3)[of s sid]
  by (auto simp: guessable_def HSM_PIN_MAX_FAILS_def word_less_nat_alt)

lemma session_info_cong: "sessions a = sessions b \<Longrightarrow> session_info a sess = session_info b sess"
  by (simp add: session_info_def)

lemma guess_step:
  assumes "guess_state E sid s0 n ss tok" "seal_total E" "hook_ok H" "wrong_pin E s0 p"
    "session_info tok sess = Inr (sid, r)"
    "hsm_session_login E H tok sess HSM_ROLE_USER (Some p) = (stt, tok')"
  shows "guess_state E sid s0 (n + 1) ss tok'"
proof -
  define s where "s = slots tok ! unat sid"
  have g: "guessable E sid s" "pins_of s = pins_of s0" "m_slot_id (sl_meta s) = m_slot_id (sl_meta s0)"
    and sat: "slot_at tok sid = Some s" and ss: "sessions tok = ss"
    using assms(1) by (simp_all add: guess_state_def s_def slot_at_def)
  obtain st0 ok chg s' where l: "login_locked E s HSM_ROLE_USER p = (st0, ok, chg, s')" by (metis prod_cases4)
  have i: "unat sid < length (slots tok)" using assms(1) by (simp add: guess_state_def)
  show ?thesis
  proof (cases "st_of s = SLOT_ST_LOCKED")
    case True
    then have "st0 = HSM_ERR_PIN_LOCKED" "\<not> ok" "s' = s" using l locked_refuses[OF g(1)] by auto
    then have "slots tok' = (slots tok)[unat sid := s]" "sessions tok' = ss"
      using login_no[OF assms(3,5) sat _ _ assms(6)] l ss by auto
    then show ?thesis using True g i by (simp add: guess_state_def)
  next
    case False
    have w: "wrong_pin E s p" using wrong_pin_cong[OF g(2,3)] assms(4) by simp
    note r = wrong_guess[OF g(1) assms(2) w False l]
    then have t: "slots tok' = (slots tok)[unat sid := s']" "sessions tok' = ss"
      using login_no[OF assms(3,5) sat _ _ assms(6)] l ss by auto
    have n: "unat (m_user_pin_fails (sl_meta s)) = n" using assms(1) False by (simp add: guess_state_def s_def)
    then have "unat (m_user_pin_fails (sl_meta s) + 1) = n + 1"
      using fails_below[OF g(1) False] by (simp add: unat_word_ariths)
    then show ?thesis using r t g i by (simp add: guess_state_def)
  qed
qed

text \<open>
  What takes a slot out of the lockout: its security officer's unlock, and zeroization, by the security
  officer or forced.\<close>

fun releases :: "u32 \<Rightarrow> session list \<Rightarrow> tok_op \<Rightarrow> bool" where
  "releases sid ss (Unlock sess i) = permitted ss (Unlock sess i) sid"
| "releases sid ss (Zeroize sess i) = permitted ss (Zeroize sess i) sid"
| "releases sid ss (Zeroize_Forced i) = permitted ss (Zeroize_Forced i) sid"
| "releases sid ss _ = False"

definition locked_out :: "env \<Rightarrow> u32 \<Rightarrow> dev \<Rightarrow> bool" where
  "locked_out E sid d \<longleftrightarrow> unat sid < length (fst d) \<and>
     st_of (fst d ! unat sid) = SLOT_ST_LOCKED \<and> sealed E (fst d ! unat sid)"

lemma reseal_sealed: "seal_total E \<Longrightarrow> slot_reseal E s = (x, s') \<Longrightarrow> sealed E s' \<and> st_of s' = st_of s"
  using slot_reseal_result[of E s x s'] slot_reseal_total[of E s] by auto

lemma sealed_frame [simp]:
  "sealed E (s\<lparr>sl_user_salt := a\<rparr>) = sealed E s"
  by (simp add: sealed_def)

lemma locked_login:
  assumes "login_locked E s role p = (stt, ok, chg, s')" "st_of s = SLOT_ST_LOCKED" "sealed E s" "seal_total E"
    "role = HSM_ROLE_SO \<or> role = HSM_ROLE_USER"
  shows "st_of s' = SLOT_ST_LOCKED \<and> sealed E s'"
  using assms by (auto simp: login_locked_def Let_def split: if_splits prod.splits option.splits
      dest!: reseal_sealed[OF assms(4)])

lemma locked_crit:
  assumes "crit E op stt s s'" "st_of s = SLOT_ST_LOCKED" "sealed E s" "seal_total E"
    "\<And>sess i. op \<noteq> Unlock sess i"
  shows "st_of s' = SLOT_ST_LOCKED \<and> sealed E s'"
  using assms(1)
proof cases
  case (crit_init l p w w' sid)
  then show ?thesis using assms(2,3)
    by (auto simp: init_token_locked_def fsm_apply_simps split: if_splits)
next
  case (crit_user_pin p w w' sess)
  then show ?thesis using assms(2,3)
    by (auto simp: set_user_pin_locked_def Let_def split: if_splits prod.splits option.splits
        dest!: reseal_sealed[OF assms(4)])
next
  case (crit_create alg us po seed n ev w r w')
  then show ?thesis using assms(2,3) creates_ok(1)[OF crit_create(3)]
    by (auto simp: create_locked_def fsm_apply_simps split: if_splits)
next
  case (crit_use h need b bs)
  then show ?thesis using assms(2,3) by (auto simp: use_result_def split: if_splits)
next
  case (crit_destroy h sess)
  then show ?thesis using assms(2,3) by (auto simp: destroy_locked_def check_handle_def split: if_splits)
qed (use assms(5) in simp)

lemma locked_out_step:
  assumes "dev_step E op stt d d'" "locked_out E sid d" "seal_total E" "\<not> releases sid (fst (snd d)) op"
  shows "locked_out E sid d'"
  using assms(1)
proof cases
  case (dev_crit ss i sl st0 s' g)
  show ?thesis
  proof (cases "i = sid")
    case True
    then have "\<And>sess j. op \<noteq> Unlock sess j" using dev_crit(1,3) assms(4) by auto
    then show ?thesis
      using locked_crit[OF dev_crit(5) _ _ assms(3)] dev_crit(1,2) assms(2) True by (auto simp: locked_out_def)
  qed (use dev_crit(1,2) assms(2) in \<open>auto simp: locked_out_def\<close>)
next
  case (dev_zero ss i sl sess s' g)
  then have "i \<noteq> sid" using assms(4) by auto
  then show ?thesis using dev_zero(1,2) assms(2) by (auto simp: locked_out_def)
next
  case (dev_login ss sess role p i sl st0 ok chg s' k g)
  show ?thesis
  proof (cases "i = sid")
    case True
    then show ?thesis
      using locked_login[OF dev_login(6) _ _ assms(3) dev_login(7)] dev_login(2,3) assms(2)
      by (auto simp: locked_out_def)
  qed (use dev_login(2,3) assms(2) in \<open>auto simp: locked_out_def\<close>)
qed (use assms(2) in \<open>auto simp: locked_out_def\<close>)

lemma locked_out_run:
  assumes "tok_inv tok" "good_env (E, H)" "list_all op_ok ops" "locked_out E sid (dev_of tok)"
  shows "locked_out E sid (dev_of (tok_run E H ops tok)) \<or>
     (\<exists>k < length ops. releases sid (sessions (tok_run E H (take k ops) tok)) (ops ! k))"
  using assms
proof (induction ops arbitrary: tok)
  case (Cons op ops)
  show ?case
  proof (cases "releases sid (sessions tok) op")
    case True
    then show ?thesis by (intro disjI2 exI[of _ 0]) simp
  next
    case False
    let ?t = "tok_step (E, H) op tok"
    have "locked_out E sid (dev_of ?t)"
      using locked_out_step[OF tok_step_dev[OF Cons.prems(1,2)]] Cons.prems False
      by (simp add: good_env_def)
    then have "locked_out E sid (dev_of (tok_run E H ops ?t)) \<or>
        (\<exists>k < length ops. releases sid (sessions (tok_run E H (take k ops) ?t)) (ops ! k))"
      using Cons.IH[of ?t] Cons.prems tok_step_inv by simp
    then show ?thesis
    proof
      assume "\<exists>k < length ops. releases sid (sessions (tok_run E H (take k ops) ?t)) (ops ! k)"
      then obtain k where "k < length ops" "releases sid (sessions (tok_run E H (take k ops) ?t)) (ops ! k)"
        by blast
      then show ?thesis by (intro disjI2 exI[of _ "Suc k"]) (simp add: tok_step_def)
    qed (simp add: tok_step_def)
  qed
qed simp

lemma locked_out_refuses:
  assumes "locked_out E sid (dev_of tok)" "tok_inv tok" "hook_ok H" "session_info tok sess = Inr (sid, r)"
  shows "fst (hsm_session_login E H tok sess HSM_ROLE_USER (Some p)) = HSM_ERR_PIN_LOCKED"
proof -
  define s where "s = slots tok ! unat sid"
  have s: "slot_at tok sid = Some s" "st_of s = SLOT_ST_LOCKED" "sealed E s"
    using assms(1) by (simp_all add: locked_out_def s_def slot_at_Some)
  have "slot_inv sid s" using assms(1,2) dev_inv_slot by (auto simp: tok_inv_def locked_out_def s_def)
  then have "login_locked E s HSM_ROLE_USER p = (HSM_ERR_PIN_LOCKED, False, False, s)"
    using s(2,3) check_integrity_iff slot_inv_arrays by (auto simp: login_locked_def)
  from login_no[OF assms(3,4) s(1) this] show ?thesis by (metis hsm_status.distinct(9) prod.collapse)
qed

lemma guess_all_inv:
  "good_env (E, H) \<Longrightarrow> tok_inv tok \<Longrightarrow> tok_inv (guess_all E H gs tok)"
proof (induction gs arbitrary: tok)
  case (Cons x gs)
  obtain sess p where x: "x = (sess, p)" by (cases x)
  have "tok_inv (tok_step (E, H) (Login sess HSM_ROLE_USER (Some p)) tok)"
    using tok_step_inv Cons.prems by simp
  then show ?case using Cons.IH Cons.prems(1) x by (simp add: tok_step_def)
qed simp

text \<open>
  C3: three wrong user PINs, entered one after another in any sessions of the slot, lock it: from
  then on every user login is refused without looking at the PIN, the right one included, and no
  session has gained a role. Whatever calls follow, the slot stays locked and refuses every user login,
  unless one of them was an unlock by a session logged in as its security officer, or a zeroization of it.
  The slot is one with a user PIN and an intact seal, KMAC can always compute a seal, and the persistence
  hook does not change the slots and sessions.
\<close>

theorem pin_lockout:
  assumes "tok_inv tok" "seal_total E" "hook_ok H" "unat sid < length (slots tok)"
    and "sealed E (slots tok ! unat sid)" "sl_has_user_pin (slots tok ! unat sid)"
    and "st_of (slots tok ! unat sid) = SLOT_ST_EMPTY \<or> st_of (slots tok ! unat sid) = SLOT_ST_LOADED"
    and "\<forall>(sess, p) \<in> set gs. (\<exists>r. session_info tok sess = Inr (sid, r)) \<and>
           wrong_pin E (slots tok ! unat sid) p"
    and "3 \<le> length gs" "list_all op_ok ops"
  shows "st_of (slots (guess_all E H gs tok) ! unat sid) = SLOT_ST_LOCKED \<and>
     sessions (guess_all E H gs tok) = sessions tok \<and>
     (\<forall>sess r p. session_info tok sess = Inr (sid, r) \<longrightarrow>
        fst (hsm_session_login E H (guess_all E H gs tok) sess HSM_ROLE_USER (Some p)) = HSM_ERR_PIN_LOCKED) \<and>
     (let now = tok_run E H ops (guess_all E H gs tok) in
        st_of (slots now ! unat sid) = SLOT_ST_LOCKED \<and>
          (\<forall>sess r p. session_info now sess = Inr (sid, r) \<longrightarrow>
             fst (hsm_session_login E H now sess HSM_ROLE_USER (Some p)) = HSM_ERR_PIN_LOCKED) \<or>
        (\<exists>k < length ops. releases sid
           (sessions (tok_run E H (take k ops) (guess_all E H gs tok))) (ops ! k)))"
proof -
  define s0 where "s0 = slots tok ! unat sid"
  define n where "n = unat (m_user_pin_fails (sl_meta s0))"
  have "slot_inv sid s0" using assms(1,4) dev_inv_slot by (auto simp: tok_inv_def s0_def)
  then have init: "guess_state E sid s0 n (sessions tok) tok"
    using assms(4-7) by (auto simp: guess_state_def guessable_def s0_def n_def)
  have run: "guess_state E sid s0 (m + length gs) (sessions tok) (guess_all E H gs t)"
    if "guess_state E sid s0 m (sessions tok) t" "\<forall>(sess, p) \<in> set gs.
      (\<exists>r. session_info tok sess = Inr (sid, r)) \<and> wrong_pin E s0 p" for gs m t
    using that
  proof (induction gs arbitrary: m t)
    case (Cons x gs)
    obtain sess p r where x: "x = (sess, p)" "session_info tok sess = Inr (sid, r)" "wrong_pin E s0 p"
      using Cons.prems(2) by (cases x) auto
    have "session_info t sess = Inr (sid, r)"
      using Cons.prems(1) x(2) session_info_cong[of t tok] by (simp add: guess_state_def)
    then have "guess_state E sid s0 (m + 1) (sessions tok)
        (snd (hsm_session_login E H t sess HSM_ROLE_USER (Some p)))"
      using guess_step[OF Cons.prems(1) assms(2,3) x(3)] by (metis prod.collapse)
    then show ?case using Cons.IH[of "m + 1"] Cons.prems(2) x(1) by simp
  qed simp
  define t where "t = guess_all E H gs tok"
  define s where "s = slots t ! unat sid"
  have fin: "guess_state E sid s0 (n + length gs) (sessions tok) t"
    using run[OF init] assms(8) by (simp add: s0_def t_def)
  then have g: "guessable E sid s" "slot_at t sid = Some s" "sessions t = sessions tok"
    by (simp_all add: guess_state_def s_def slot_at_def)
  have lock: "st_of s = SLOT_ST_LOCKED"
    using fin fails_below[OF g(1)] assms(9) unfolding guess_state_def s_def[symmetric] by linarith
  have e: "good_env (E, H)" using assms(2,3) by (simp add: good_env_def)
  have ti: "tok_inv t" using guess_all_inv[OF e assms(1)] by (simp add: t_def)
  have out: "locked_out E sid (dev_of t)"
    using lock fin by (simp add: locked_out_def guess_state_def guessable_def s_def)
  have now: "st_of (slots u ! unat sid) = SLOT_ST_LOCKED \<and>
      (session_info u sess = Inr (sid, r) \<longrightarrow>
         fst (hsm_session_login E H u sess HSM_ROLE_USER (Some p)) = HSM_ERR_PIN_LOCKED)"
    if "locked_out E sid (dev_of u)" "tok_inv u" for u sess r p
    using that locked_out_refuses[OF that assms(3)] by (simp add: locked_out_def)
  have "tok_inv (tok_run E H ops t)" using tk.run_inv[OF e assms(10) ti] by (simp add: tok_run_fold)
  then have later: "st_of (slots (tok_run E H ops t) ! unat sid) = SLOT_ST_LOCKED \<and>
      (\<forall>sess r p. session_info (tok_run E H ops t) sess = Inr (sid, r) \<longrightarrow>
         fst (hsm_session_login E H (tok_run E H ops t) sess HSM_ROLE_USER (Some p)) = HSM_ERR_PIN_LOCKED) \<or>
      (\<exists>k < length ops. releases sid (sessions (tok_run E H (take k ops) t)) (ops ! k))"
    using locked_out_run[OF ti e assms(10) out] now by blast
  have "st_of (slots t ! unat sid) = SLOT_ST_LOCKED \<and> sessions t = sessions tok \<and>
      (\<forall>sess r p. session_info tok sess = Inr (sid, r) \<longrightarrow>
         fst (hsm_session_login E H t sess HSM_ROLE_USER (Some p)) = HSM_ERR_PIN_LOCKED)"
    using now[OF out ti] g(3) session_info_cong[OF g(3)] by auto
  then show ?thesis using later by (simp add: t_def Let_def)
qed

section \<open>Using a key\<close>

text \<open>
  What a session may use a key for: the facts behind a signature or a shared secret.\<close>

definition use_allowed :: "env \<Rightarrow> hsm_token \<Rightarrow> u64 \<Rightarrow> u64 \<Rightarrow> u32 \<Rightarrow> bool" where
  "use_allowed E tok sess h need \<longleftrightarrow>
     (\<exists>sid s. session_info tok sess = Inr (sid, HSM_ROLE_USER) \<and> slot_at tok sid = Some s \<and>
        st_of s = SLOT_ST_LOADED \<and> slot_check_integrity E s = HSM_OK \<and>
        handle_slot h = m_slot_id (sl_meta s) + 1 \<and> handle_gen h = m_generation (sl_meta s) \<and>
        m_usage (sl_meta s) AND need \<noteq> 0)"

lemma use_resultD:
  assumes "use_result E s h need b stt bs s'" "stt = HSM_OK \<or> bs \<noteq> None"
  shows "b \<and> st_of s = SLOT_ST_LOADED \<and> check_handle E s h = HSM_OK \<and> m_usage (sl_meta s) AND need \<noteq> 0 \<and>
     bs \<noteq> None \<and> m_use_count (sl_meta s') = m_use_count (sl_meta s) + 1 \<and> st_of s' = SLOT_ST_LOADED"
  using assms by (auto simp: use_result_def split: if_splits)

text \<open>The shape of a use at token level: refused without effect, or one locked use.\<close>

definition use_shape ::
    "env \<Rightarrow> hsm_token \<Rightarrow> u64 \<Rightarrow> u64 \<Rightarrow> u32 \<Rightarrow> hsm_status \<Rightarrow> bytes option \<Rightarrow> hsm_token \<Rightarrow> bool" where
  "use_shape E tok sess h need stt bs tok' \<longleftrightarrow>
     stt \<noteq> HSM_OK \<and> bs = None \<and> tok' = tok \<or>
     (\<exists>sid s b s'. session_info tok sess = Inr (sid, HSM_ROLE_USER) \<and> slot_at tok sid = Some s \<and>
        use_result E s h need b stt bs s' \<and> slots tok' = (slots tok)[unat sid := s'])"

lemma object_sign_shape:
  assumes "hsm_object_sign E tok sess h msg ml ctx cl sig sl = (stt, bs, tok')"
  shows "use_shape E tok sess h KEY_USAGE_SIGN stt bs tok'"
proof (cases "\<exists>sid s. require_role tok sess HSM_ROLE_USER = Inr sid \<and> slot_at tok sid = Some s")
  case True
  then obtain sid s where s: "require_role tok sess HSM_ROLE_USER = Inr sid" "slot_at tok sid = Some s" by blast
  obtain b st2 bs2 s' tok1 where l: "sign_locked E s h msg ml ctx cl sig sl tok = (b, st2, bs2, s', tok1)"
    by (metis prod_cases5)
  have "stt = st2" "bs = bs2" "slots tok' = (slots tok)[unat sid := s']"
    using assms s l slots_core[OF only_core_sign[OF l]] by (auto simp: hsm_object_sign_def Let_def)
  then show ?thesis
    using s sign_locked_result[OF l] by (auto simp: use_shape_def require_role_Inr)
qed (use assms in \<open>auto simp: hsm_object_sign_def use_shape_def
    split: sum.splits option.splits dest: require_role_err\<close>)

lemma object_decaps_shape:
  assumes "hsm_object_decaps E tok sess h ct cl ss sl = (stt, bs, tok')"
  shows "use_shape E tok sess h KEY_USAGE_DECAP stt bs tok'"
proof (cases "\<exists>sid s. require_role tok sess HSM_ROLE_USER = Inr sid \<and> slot_at tok sid = Some s")
  case True
  then obtain sid s where s: "require_role tok sess HSM_ROLE_USER = Inr sid" "slot_at tok sid = Some s" by blast
  obtain b st2 bs2 s' tok1 where l: "decaps_locked E s h ct cl ss sl tok = (b, st2, bs2, s', tok1)"
    by (metis prod_cases5)
  have "stt = st2" "bs = bs2" "slots tok' = (slots tok)[unat sid := s']"
    using assms s l slots_core[OF only_core_decaps[OF l]] by (auto simp: hsm_object_decaps_def Let_def)
  then show ?thesis
    using s decaps_locked_result[OF l] by (auto simp: use_shape_def require_role_Inr)
qed (use assms in \<open>auto simp: hsm_object_decaps_def use_shape_def
    split: sum.splits option.splits dest: require_role_err\<close>)

lemma use_shape_allowed:
  assumes "use_shape E tok sess h need stt bs tok'"
  shows "(stt = HSM_OK \<longrightarrow> bs \<noteq> None) \<and> (bs \<noteq> None \<longrightarrow> use_allowed E tok sess h need)"
proof (cases "stt = HSM_OK \<or> bs \<noteq> None")
  case True
  then obtain sid s b s' where s: "session_info tok sess = Inr (sid, HSM_ROLE_USER)"
    "slot_at tok sid = Some s" "use_result E s h need b stt bs s'"
    using assms unfolding use_shape_def by blast
  show ?thesis
    using use_resultD[OF s(3) True] check_handle_OK[of E s h] s(1,2) unfolding use_allowed_def by blast
qed simp

text \<open>
  C4: hsm\_object\_sign writes a signature only for a session logged in as user, on a LOADED slot with
  a good seal, under the slot's current handle and with the SIGN usage, and it writes one whenever
  it reports success. The same holds for hsm\_object\_decaps with the DECAP usage.
\<close>

theorem use_only_if_allowed:
  "(case hsm_object_sign E tok sess h msg ml ctx cl sig sl of (stt, bs, _) \<Rightarrow>
       (stt = HSM_OK \<longrightarrow> bs \<noteq> None) \<and> (bs \<noteq> None \<longrightarrow> use_allowed E tok sess h KEY_USAGE_SIGN)) \<and>
   (case hsm_object_decaps E tok sess h ct ctl ss ssl of (stt, bs, _) \<Rightarrow>
       (stt = HSM_OK \<longrightarrow> bs \<noteq> None) \<and> (bs \<noteq> None \<longrightarrow> use_allowed E tok sess h KEY_USAGE_DECAP))"
  using use_shape_allowed[OF object_sign_shape] use_shape_allowed[OF object_decaps_shape]
  by (simp split: prod.split)

section \<open>Making a key\<close>

lemma create_shape:
  assumes "create_object E H tok sess alg us po seed n ev out = (stt, h, tok')" "hook_ok H"
  shows "stt \<noteq> HSM_OK \<and> h = None \<and> tok' = tok \<or>
     (\<exists>sid s r s' tok1. session_info tok sess = Inr (sid, HSM_ROLE_USER) \<and> slot_at tok sid = Some s \<and>
        \<not> policy_denied_by_profile E po \<and>
        create_locked E s alg us po seed n ev tok = (r, s', tok1) \<and>
        ((\<exists>e. r = Inl e) \<and> h = None \<or> (\<exists>k. r = Inr k \<and> h = Some k)) \<and>
        slots tok' = (slots tok)[unat sid := s'])"
proof (cases "\<exists>sid s info. require_role tok sess HSM_ROLE_USER = Inr sid \<and> slot_at tok sid = Some s \<and>
    pqc_alg_info alg = Some info \<and> out \<and> \<not> policy_denied_by_profile E po")
  case True
  then obtain sid s info where s: "require_role tok sess HSM_ROLE_USER = Inr sid" "slot_at tok sid = Some s"
    "pqc_alg_info alg = Some info" "out" "\<not> policy_denied_by_profile E po" by blast
  obtain r s' tok1 where l: "create_locked E s alg us po seed n ev tok = (r, s', tok1)" by (metis prod_cases3)
  obtain st2 tok2 where c: "commit_security_state H (res_status r) (set_slot sid s' tok1) = (st2, tok2)"
    by fastforce
  have "h = (case r of Inl _ \<Rightarrow> None | Inr k \<Rightarrow> Some k)" "slots tok' = (slots tok)[unat sid := s']"
    using assms(1) s l c slots_commit[OF assms(2) c] slots_core[OF only_core_create[OF l]]
    by (auto simp: create_object_def)
  then show ?thesis using s l by (cases r) (auto simp: require_role_Inr)
qed (use assms in \<open>auto simp: create_object_def
    split: sum.splits option.splits if_splits dest: require_role_err\<close>)

lemma load_seed_create:
  "hsm_slot_load_seed E H tok sess alg us po seed n out = (stt, h, tok') \<Longrightarrow>
     stt \<noteq> HSM_OK \<and> h = None \<and> tok' = tok \<or>
     create_object E H tok sess alg us po seed n SLOT_EV_LOAD out = (stt, h, tok')"
  by (auto simp: hsm_slot_load_seed_def split: option.splits if_splits)

text \<open>
  SEED\_STORAGE keeps the seed and never the expanded private key, a slot without that policy
  keeps no seed, and the production profile makes no key under the policy.
\<close>

theorem seed_storage_policy:
  assumes "tok_inv tok" "seal_total E" "hook_ok H" "op_ok (Load_Seed sess alg us po seed n out)"
    and "hsm_slot_generate E H tok sess alg us po out = (stt, Some h, tok') \<or>
         hsm_slot_load_seed E H tok sess alg us po seed n out = (stt, Some h, tok')"
    and "session_info tok sess = Inr (sid, r)"
  shows "(po AND SLOT_POLICY_SEED_STORAGE \<noteq> 0 \<longrightarrow> \<not> pqc_profile_is_production E \<and>
        sl_sk (slots tok' ! unat sid) = None) \<and>
     (po AND SLOT_POLICY_SEED_STORAGE = 0 \<longrightarrow>
        \<not> sl_has_seed (slots tok' ! unat sid) \<and> sl_seed (slots tok' ! unat sid) = replicate 64 0)"
proof -
  obtain sd k ev where c0: "create_object E H tok sess alg us po sd k ev out = (stt, Some h, tok')"
    and ev: "ev \<in> {SLOT_EV_GENERATE, SLOT_EV_LOAD}" "\<And>x. sd = Some x \<Longrightarrow> k \<le> length x"
    using assms(4,5) load_seed_create unfolding hsm_slot_generate_def by fastforce
  then obtain s v s' tok1 where c: "slot_at tok sid = Some s" "\<not> policy_denied_by_profile E po"
    "create_locked E s alg us po sd k ev tok = (v, s', tok1)" "v \<noteq> Inl HSM_OK" "\<exists>x. v = Inr x"
    "slots tok' = (slots tok)[unat sid := s']"
    using create_shape[OF c0 assms(3)] assms(6) by auto
  then have "key_fits s'" "sl_meta s' = key_meta alg us po ((sl_meta s)\<lparr>m_state := SLOT_ST_LOADED\<rparr>)"
    using create_locked_cases[OF c(3) assms(2) ev] by (auto simp: installed_def)
  then show ?thesis
    using c(1,2,6) by (auto simp: key_fits_def key_ok_def key_meta_def policy_denied_by_profile_def
        slot_at_Some split: if_splits)
qed

text \<open>
  a creation that returns no handle leaves no trace: every slot is as before, the one it was made
  on up to its recomputed seal, whatever failed (the seal, the state, the profile, memory, random
  numbers, the back end).
\<close>

theorem create_rolls_back:
  assumes "seal_total E" "hook_ok H" "op_ok (Load_Seed sess alg us po seed n out)"
    and "hsm_slot_generate E H tok sess alg us po out = (stt, None, tok') \<or>
         hsm_slot_load_seed E H tok sess alg us po seed n out = (stt, None, tok')"
  shows "slots tok' = slots tok \<or>
     (\<exists>sid tag. unat sid < length (slots tok) \<and>
        slots tok' = (slots tok)[unat sid := (slots tok ! unat (sid :: u32))\<lparr>sl_meta_tag := tag\<rparr>])"
proof (cases "tok' = tok")
  case False
  obtain sd k ev where c0: "create_object E H tok sess alg us po sd k ev out = (stt, None, tok')"
    and ev: "ev \<in> {SLOT_EV_GENERATE, SLOT_EV_LOAD}" "\<And>x. sd = Some x \<Longrightarrow> k \<le> length x"
    using assms(3,4) load_seed_create False unfolding hsm_slot_generate_def by fastforce
  then obtain sid s v s' tok1 where c: "slot_at tok sid = Some s"
    "create_locked E s alg us po sd k ev tok = (v, s', tok1)" "\<exists>x. v = Inl x"
    "slots tok' = (slots tok)[unat sid := s']"
    using create_shape[OF c0 assms(2)] False by auto
  then have "s' = s \<or> (\<exists>tag. s' = s\<lparr>sl_meta_tag := tag\<rparr>)"
    using create_locked_cases[OF c(2) assms(1) ev] by auto
  then show ?thesis using c(1,4) by (auto simp: slot_at_Some)
qed simp

end
