(* ===== verification/Slot_Guard.thy ===== *)
theory Slot_Guard
  imports Slot_Policy
begin

text \<open>
  The guards of slot.c that hold whatever happened to the memory or the storage behind the token: a
  slot whose metadata no longer match their seal is frozen, and no call reports success before the
  persistence hook has accepted the state it leaves.
\<close>

section \<open>Broken seals\<close>

fun zeroizes :: "tok_op \<Rightarrow> bool" where
  "zeroizes (Zeroize sess sid) = True"
| "zeroizes (Zeroize_Forced sid) = True"
| "zeroizes op = False"

lemma broken_locked:
  assumes "slot_check_integrity E s \<noteq> HSM_OK"
  shows "init_token_locked E s l p w = (slot_check_integrity E s, s, w)"
    and "set_user_pin_locked E s p w = (slot_check_integrity E s, s, w)"
    and "login_locked E s role p = (slot_check_integrity E s, False, False, s)"
    and "create_locked E s alg us po seed n ev w = (Inl (slot_check_integrity E s), s, w)"
    and "unlock_locked E s = (slot_check_integrity E s, s)"
    and "check_handle E s h \<noteq> HSM_OK"
  using assms
  by (simp_all add: init_token_locked_def set_user_pin_locked_def login_locked_def create_locked_def
      unlock_locked_def check_handle_def)

lemma broken_destroy: "check_handle E s h \<noteq> HSM_OK \<Longrightarrow> destroy_locked E s h = (check_handle E s h, s)"
  by (simp add: destroy_locked_def)

lemma broken_sign: "check_handle E s h \<noteq> HSM_OK \<Longrightarrow>
    sign_locked E s h m ml c cl sg sl w = (False, check_handle E s h, None, s, w)"
  by (simp add: sign_locked_def begin_use_refused)

lemma broken_decaps: "check_handle E s h \<noteq> HSM_OK \<Longrightarrow>
    decaps_locked E s h c cl ss sl w = (False, check_handle E s h, None, s, w)"
  by (simp add: decaps_locked_def begin_use_refused)

lemma put_back: "slot_at tok sid = Some s \<Longrightarrow> set_slot sid s tok = tok"
  by (simp add: set_slot_def slot_at_Some)

definition frozen :: "hsm_status \<Rightarrow> hsm_token \<Rightarrow> hsm_token \<Rightarrow> bool" where
  "frozen stt tok tok' \<longleftrightarrow> stt \<noteq> HSM_OK \<and> dev_of tok' = dev_of tok"

lemma frozen_refl: "e \<noteq> HSM_OK \<Longrightarrow> frozen e tok tok"
  by (simp add: frozen_def)

lemma frozen_commit:
  assumes "hook_ok H" "commit_security_state H e (set_slot sid s tok) = (stt, tok1)"
    "slot_at tok sid = Some s" "e \<noteq> HSM_OK"
  shows "frozen stt tok (slot_audit E op role sl res det tok1)"
  using dev_of_commit[OF assms(1,2)] commit_status[OF assms(2)] put_back[OF assms(3)] assms(4)
  by (simp add: frozen_def)

lemma target_slot:
  assumes "slot_at tok sid = Some s" "slot_check_integrity E (slots tok ! unat sid) \<noteq> HSM_OK"
  shows "slot_check_integrity E s \<noteq> HSM_OK"
  using assms by (simp add: slot_at_Some)

lemma frozen_create:
  assumes "hook_ok H" "session_slot tok sess = Some i" "slot_check_integrity E (slots tok ! i) \<noteq> HSM_OK"
    and "create_object E H tok sess alg us po seed n ev out = (stt, h, tok')"
  shows "frozen stt tok tok'"
proof -
  have "slot_check_integrity E s \<noteq> HSM_OK"
    if "require_role tok sess HSM_ROLE_USER = Inr sid" "slot_at tok sid = Some s" for sid s
    using that assms(2,3) role_target[of tok sess] target_slot by fastforce
  then show ?thesis
    using assms(1,4)
    by (auto simp: create_object_def broken_locked res_status_def
        split: sum.splits option.splits if_splits prod.splits
        dest: require_role_err intro: frozen_refl frozen_commit)
qed

lemma frozen_login:
  assumes "hook_ok H" "session_slot tok sess = Some i" "slot_check_integrity E (slots tok ! i) \<noteq> HSM_OK"
    and "hsm_session_login E H tok sess role p = (stt, tok')"
  shows "frozen stt tok tok'"
proof -
  have "slot_check_integrity E s \<noteq> HSM_OK"
    if "session_info tok sess = Inr (sid, r)" "slot_at tok sid = Some s" for sid s r
    using that assms(2,3) info_target[of tok sess] target_slot by fastforce
  then show ?thesis
    using assms(4)
    by (auto simp: hsm_session_login_def broken_locked Let_def put_back
        split: sum.splits option.splits if_splits prod.splits
        dest: session_info_Inl intro: frozen_refl simp: frozen_def)
qed

text \<open>
  when the metadata of a slot do not match their seal, every call on that slot except
  zeroization fails and changes no slot, no session and no role.
\<close>

theorem broken_seal_freezes:
  assumes "hook_ok H" "op_target tok op = Some i" "\<not> zeroizes op"
    and "slot_check_integrity E (slots tok ! i) \<noteq> HSM_OK" "tok_exec E H op tok = (stt, tok')"
  shows "stt \<noteq> HSM_OK \<and> slots tok' = slots tok \<and> sessions tok' = sessions tok"
proof -
  have r: "slot_check_integrity E s \<noteq> HSM_OK"
    if "require_role tok sess role = Inr sid" "slot_at tok sid = Some s"
      "session_slot tok sess = Some i" for sid s sess role
    using that assms(4) role_target[of tok sess] target_slot by fastforce
  have "frozen stt tok tok'"
  proof (cases op)
    case (Init sid label pin)
    then have "slot_check_integrity E s \<noteq> HSM_OK" if "slot_at tok sid = Some s" for s
      using that assms(2,4) target_slot by simp
    then show ?thesis using assms(1,2,5) Init
      by (auto simp: hsm_slot_init_token_def broken_locked
          split: option.splits if_splits prod.splits
          intro: frozen_refl frozen_commit)
  next
    case (Set_User_Pin sess pin)
    then show ?thesis using assms(1,2,5) r
      by (auto simp: hsm_slot_set_user_pin_def broken_locked
          split: sum.splits option.splits if_splits prod.splits
          dest: require_role_err intro: frozen_refl frozen_commit)
  next
    case (Sign sess h msg ml ctx cl sig sl)
    then show ?thesis using assms(2,5) r
      by (auto simp: hsm_object_sign_def broken_sign broken_locked put_back Let_def
          split: sum.splits option.splits
          dest: require_role_err intro: frozen_refl)
  next
    case (Decaps sess h ct cl ss sl)
    then show ?thesis using assms(2,5) r
      by (auto simp: hsm_object_decaps_def broken_decaps broken_locked put_back Let_def
          split: sum.splits option.splits
          dest: require_role_err intro: frozen_refl)
  next
    case (Destroy sess h)
    then show ?thesis using assms(1,2,5) r
      by (auto simp: hsm_object_destroy_def broken_destroy broken_locked
          split: sum.splits option.splits prod.splits
          dest: require_role_err intro: frozen_refl frozen_commit)
  next
    case (Unlock sess sid)
    then show ?thesis using assms(1,2,5) r
      by (auto simp: hsm_slot_unlock_def broken_locked
          split: sum.splits option.splits if_splits prod.splits
          dest: require_role_err intro: frozen_refl frozen_commit)
  next
    case (Generate sess alg us po out)
    then show ?thesis using assms(1,2,4,5)
      by (auto simp: hsm_slot_generate_def split: prod.splits intro: frozen_create)
  next
    case (Load_Seed sess alg us po seed n out)
    then show ?thesis using assms(1,2,4,5)
      by (auto dest!: load_seed_create split: prod.splits intro: frozen_create frozen_refl)
  next
    case (Login sess role p)
    then show ?thesis using assms frozen_login by simp
  qed (use assms in auto)
  then show ?thesis by (simp add: frozen_def)
qed

section \<open>Fail closed\<close>

fun commits :: "tok_op \<Rightarrow> bool" where
  "commits (Session_Open sid out) = False"
| "commits (Session_Close sess) = False"
| "commits (Logout sess) = False"
| "commits (Sign sess h msg ml ctx cl sig sl) = False"
| "commits (Decaps sess h ct cl ss sl) = False"
| "commits op = True"

text \<open>
  In the course of a call from \<open>tok\<close> to \<open>tok'\<close> the hook accepted a token with the slots of \<open>tok'\<close>, and
  since then no file but the log has changed.\<close>

definition stored :: "hook \<Rightarrow> bytes \<Rightarrow> hsm_token \<Rightarrow> hsm_token \<Rightarrow> bool" where
  "stored H user tok tok' \<longleftrightarrow> (\<exists>t t1. H user t = (True, t1) \<and> slots t = slots tok' \<and> persist_busy t \<and>
     log_fd t = log_fd tok \<and> log_fd tok' = log_fd t1 \<and> (\<forall>q. log_fd t1 \<noteq> Some q \<longrightarrow> files tok' q = files t1 q))"

lemma commit_stored:
  assumes "commit_security_state H stt tok = (HSM_OK, tok1)" "hook_ok H"
    "persist_fn tok = Some user" "\<not> persist_busy tok"
  shows "stored H user tok tok1"
proof -
  have ok: "fst (slot_persist H tok)" using commit_status[OF assms(1)] by simp
  obtain rc t1 where h: "H user (tok\<lparr>persist_busy := True\<rparr>) = (rc, t1)" by fastforce
  have p: "slot_persist H tok = (rc, t1\<lparr>persist_busy := False\<rparr>)"
    using h assms(3,4) by (simp add: slot_persist_def)
  have t: "tok1 = t1\<lparr>persist_busy := False\<rparr>" using assms(1) p by (simp add: commit_security_state_def)
  have "slots tok1 = slots tok" using slots_commit[OF assms(2,1)] .
  then show ?thesis unfolding stored_def using h ok p t
    by (intro exI[of _ "tok\<lparr>persist_busy := True\<rparr>"] exI[of _ t1]) simp
qed

text \<open>What the calls do around the commit.\<close>

lemma stored_from: "stored H user tok1 tok' \<Longrightarrow> log_fd tok1 = log_fd tok \<Longrightarrow> stored H user tok tok'"
  by (simp add: stored_def)

lemma stored_to:
  "stored H user tok tok1 \<Longrightarrow> slots tok' = slots tok1 \<Longrightarrow> log_fd tok' = log_fd tok1 \<Longrightarrow>
     \<forall>q. log_fd tok1 \<noteq> Some q \<longrightarrow> files tok' q = files tok1 q \<Longrightarrow> stored H user tok tok'"
  unfolding stored_def by metis

lemma stored_audit: "stored H user tok tok1 \<Longrightarrow> stored H user tok (slot_audit E op role sl res det tok1)"
  by (erule stored_to) (simp_all add: audit_files)

lemma stored_sessions: "stored H user tok tok1 \<Longrightarrow> stored H user tok (tok1\<lparr>sessions := ss\<rparr>)"
  by (erule stored_to) simp_all

lemma hook_put:
  "only_core (tok :: hsm_token) tok1 \<Longrightarrow> persist_fn (set_slot sid s tok1) = persist_fn tok"
  "only_core tok tok1 \<Longrightarrow> persist_busy (set_slot sid s tok1) = persist_busy tok"
  using sec_only_core[of tok tok1] by (simp_all add: sec_def set_slot_def)

lemma commit_stored_put:
  assumes "commit_security_state H stt (set_slot sid s tok1) = (HSM_OK, tok2)" "hook_ok H"
    "persist_fn tok = Some user" "\<not> persist_busy tok" "only_core tok tok1"
  shows "stored H user tok tok2"
  by (rule stored_from[OF commit_stored[OF assms(1,2)]])
    (use hook_put[OF assms(5)] assms(3,4) log_fd_only_core[OF assms(5)] in simp_all)

lemma stored_create:
  assumes "create_object E H tok sess alg us po seed n ev out = (HSM_OK, h, tok')" "hook_ok H"
    "persist_fn tok = Some user" "\<not> persist_busy tok"
  shows "stored H user tok tok'"
  using assms
  by (auto simp: create_object_def split: sum.splits option.splits if_splits prod.splits
      dest: require_role_err intro: stored_audit commit_stored_put[OF _ _ _ _ only_core_create])

lemma stored_zeroize:
  assumes "zeroize_commit E H sid role det s tok = (HSM_OK, tok')" "hook_ok H"
    "persist_fn tok = Some user" "\<not> persist_busy tok"
  shows "stored H user tok tok'"
proof -
  obtain st0 s' where z: "do_zeroize E s = (st0, s')" by fastforce
  define t where "t = (if st0 = HSM_OK then drop_sessions_on_slot sid (set_slot sid s' tok) else set_slot sid s' tok)"
  obtain stt tok3 where c: "commit_security_state H st0 t = (stt, tok3)" by fastforce
  have t: "persist_fn t = Some user" "\<not> persist_busy t" "log_fd t = log_fd tok"
    using assms(3,4) by (simp_all add: t_def drop_sessions_eq) (simp_all add: set_slot_def)
  have s: "stt = HSM_OK" "tok' = slot_audit E AUDIT_OP_ZEROIZE role sid stt (Some (cstr det)) tok3"
    using assms(1) z c by (auto simp: zeroize_commit_def Let_def t_def)
  show ?thesis
    unfolding s(2) using stored_from[OF commit_stored[OF _ assms(2) t(1,2)] t(3)] c s(1) stored_audit by blast
qed

lemma login_status: "login_locked E s role p = (HSM_OK, ok, chg, s') \<Longrightarrow> chg"
  by (auto simp: login_locked_def Let_def split: if_splits option.splits prod.splits)

lemma stored_login:
  assumes "hsm_session_login E H tok sess role p = (HSM_OK, tok')" "hook_ok H"
    "persist_fn tok = Some user" "\<not> persist_busy tok"
  shows "stored H user tok tok'"
proof -
  obtain sid r pn s where i: "session_info tok sess = Inr (sid, r)" "slot_at tok sid = Some s" "p = Some pn"
    using assms(1) by (auto simp: hsm_session_login_def split: sum.splits option.splits if_splits
        dest: session_info_Inl)
  obtain st0 ok chg s' where l: "login_locked E s role pn = (st0, ok, chg, s')" by (metis prod_cases4)
  obtain st2 tok2 where c: "(if chg then commit_security_state H st0 (set_slot sid s' tok)
      else (st0, set_slot sid s' tok)) = (st2, tok2)" by fastforce
  have o: "st2 = HSM_OK" using assms(1) i l c by (auto simp: hsm_session_login_def Let_def split: if_splits)
  have "chg" using c o login_status l by (auto split: if_splits)
  then have "stored H user tok tok2"
    using c o commit_stored_put[OF _ assms(2-4) only_core_refl] by simp
  then show ?thesis
    using assms(1) i l c
    by (auto simp: hsm_session_login_def Let_def set_session_role_def split: if_splits intro!: stored_audit stored_sessions)
qed

lemma ok_stored:
  assumes "tok_exec E H op tok = (HSM_OK, tok')" "commits op" "hook_ok H"
    and "persist_fn tok = Some user" "\<not> persist_busy tok"
  shows "stored H user tok tok'"
proof (cases op)
  case (Init sid label pin)
  then show ?thesis using assms
    by (auto simp: hsm_slot_init_token_def split: option.splits if_splits prod.splits
        intro: stored_audit commit_stored_put[OF _ _ _ _ only_core_init])
next
  case (Set_User_Pin sess pin)
  then show ?thesis using assms
    by (auto simp: hsm_slot_set_user_pin_def split: sum.splits option.splits if_splits prod.splits
        dest: require_role_err intro: stored_audit commit_stored_put[OF _ _ _ _ only_core_user_pin])
next
  case (Destroy sess h)
  then show ?thesis using assms
    by (auto simp: hsm_object_destroy_def split: sum.splits option.splits prod.splits
        dest: require_role_err intro: stored_audit commit_stored_put[OF _ _ _ _ only_core_refl])
next
  case (Unlock sess sid)
  then show ?thesis using assms
    by (auto simp: hsm_slot_unlock_def split: sum.splits option.splits if_splits prod.splits
        dest: require_role_err intro: stored_audit commit_stored_put[OF _ _ _ _ only_core_refl])
next
  case (Zeroize sess sid)
  then show ?thesis using assms
    by (auto simp: hsm_slot_zeroize_def split: sum.splits option.splits if_splits
        dest: require_role_err intro: stored_zeroize)
next
  case (Zeroize_Forced sid)
  then show ?thesis using assms
    by (auto simp: hsm_slot_zeroize_forced_def split: option.splits intro: stored_zeroize)
next
  case (Login sess role p)
  then show ?thesis using assms stored_login by simp
next
  case (Generate sess alg us po out)
  then show ?thesis using assms
    by (auto simp: hsm_slot_generate_def split: prod.splits intro: stored_create)
next
  case (Load_Seed sess alg us po seed n out)
  then show ?thesis using assms
    by (auto dest!: load_seed_create split: prod.splits intro: stored_create)
qed (use assms(2) in simp_all)

text \<open>
  a call that changes the security state reports HSM\_OK only after the installed persistence hook
  has accepted exactly the slots the call leaves behind, and after that it changes no file but the
  audit log.
\<close>

theorem ok_means_stored:
  assumes "tok_exec E H op tok = (HSM_OK, tok')" "commits op" "hook_ok H"
    and "persist_fn tok = Some user" "\<not> persist_busy tok"
  shows "stored H user tok tok'"
  using assms by (rule ok_stored)

section \<open>Unlocking\<close>

text \<open>
  the security officer's unlock restores the state the lockout interrupted, with the failure
  counter at zero and the key untouched: a slot that was LOADED is LOADED again with the same key.
\<close>

theorem unlock_restores:
  assumes "slot_inv sid s" "seal_total E" "sealed E s" "st_of s = SLOT_ST_LOCKED"
    and "unlock_locked E s = (stt, s')"
  shows "stt = HSM_OK \<and> st_of s' = sl_pre_lock s \<and> m_user_pin_fails (sl_meta s') = 0 \<and>
     sl_pk s' = sl_pk s \<and> sl_sk s' = sl_sk s \<and> sl_seed s' = sl_seed s \<and> sl_hw_handle s' = sl_hw_handle s \<and>
     m_generation (sl_meta s') = m_generation (sl_meta s) \<and> sealed E s' \<and> slot_inv sid s'"
proof -
  have ok: "slot_check_integrity E s = HSM_OK"
    using assms(1,3) check_integrity_iff slot_inv_arrays by blast
  let ?u = "set_meta (\<lambda>m. m\<lparr>m_state := slot_fsm_unlock_target (sl_pre_lock s), m_user_pin_fails := 0\<rparr>) s"
  have u: "slot_reseal E ?u = (stt, s')"
    using assms(4,5) ok by (simp add: unlock_locked_def fsm_apply_simps set_meta_def)
  have pre: "slot_fsm_unlock_target (sl_pre_lock s) = sl_pre_lock s"
    using assms(1,4) by (auto simp: slot_inv_def slot_fsm_unlock_target_def)
  have "stt = HSM_OK" using slot_reseal_total[OF assms(2), of ?u] u by simp
  then show ?thesis
    using slot_reseal_result[OF u] pre unlock_inv[OF assms(1,5)] by auto
qed

section \<open>A failed initialisation\<close>

lemma fst_check_integrity: "slot_check_integrity E s \<noteq> HSM_OK \<Longrightarrow> slot_check_integrity E s = HSM_ERR_INTEGRITY"
  by (auto simp: slot_check_integrity_def)

text \<open>
  hsm\_slot\_init\_token does not roll back: when the random numbers or the PIN verifier fail, the
  slot has already moved to EMPTY and is not resealed, so its metadata carry the tag of the
  uninitialised slot, and the next integrity check can pass only if KMAC-256 gives the old and the
  new metadata the same tag. The slot stays frozen until it is zeroized by force.
\<close>

theorem init_failure_breaks_seal:
  assumes "slot_inv sid s" "seal_total E" "sealed E s" "st_of s = SLOT_ST_UNINIT"
    and "init_token_locked E s label pin w = (HSM_ERR_CRYPTO, s', w')"
  shows "st_of s' = SLOT_ST_EMPTY \<and> sl_meta_tag s' = sl_meta_tag s \<and>
     (slot_check_integrity E s' = HSM_OK \<longrightarrow>
        kmac_collision E ''pqc-hsm/slot-meta'' SLOT_META_TAG_LEN
          (meta_mac_input E (sl_meta s)) (meta_mac_input E (sl_meta s')))"
proof -
  have ok: "slot_check_integrity E s = HSM_OK"
    using assms(1,3) check_integrity_iff slot_inv_arrays by blast
  have tot: "False" if "slot_reseal E x = (HSM_ERR_CRYPTO, y)" for x y
    using slot_reseal_total[OF assms(2), of x] that by simp
  have m: "sl_meta s' = (sl_meta s)\<lparr>m_state := SLOT_ST_EMPTY\<rparr> \<and> sl_meta_tag s' = sl_meta_tag s"
    using assms(4,5) ok
    by (auto simp: init_token_locked_def fsm_apply_simps Let_def dest: tot
        split: if_splits prod.splits option.splits)
  have inv': "slot_inv sid s'" using init_token_inv[OF assms(1,5)] .
  have "kmac_collision E ''pqc-hsm/slot-meta'' SLOT_META_TAG_LEN
      (meta_mac_input E (sl_meta s)) (meta_mac_input E (sl_meta s'))"
    if "slot_check_integrity E s' = HSM_OK"
  proof (rule seal_binds)
    show "wf_meta (sl_meta s)" "wf_meta (sl_meta s')" using assms(1) inv' by (simp_all add: slot_inv_def)
    show "slot_meta_seal E (sl_meta s) = Some (sl_meta_tag s)" using assms(3) by (simp add: sealed_def)
    show "slot_meta_seal E (sl_meta s') = Some (sl_meta_tag s)"
      using that check_integrity_iff[OF slot_inv_arrays[OF inv']] m by (simp add: sealed_def)
    have "st_of s' \<noteq> st_of s" using m assms(4) by simp
    then show "sl_meta s' \<noteq> sl_meta s" by fastforce
  qed
  then show ?thesis using m by simp
qed

end
