(* ===== verification/Wrap.thy ===== *)
theory Wrap
  imports Files Pqc
begin

text \<open>
  src/src/store/wrap.c and include/pqchsm/pwrp\_format.h: key wrapping with AES-256-GCM. The wire
  format is header (16) | nonce (12) | ciphertext | tag (16); the header and the caller's
  associated data are both authenticated. A buffer is a byte string (None is NULL) next to the
  length the caller gives for it.
\<close>

section \<open>The format (pwrp\_format.h)\<close>

definition PWRP_VERSION :: u16 where "PWRP_VERSION = 1"
definition PWRP_ALG_AES256GCM :: u16 where "PWRP_ALG_AES256GCM = 1"
definition PWRP_HDR_LEN :: nat where "PWRP_HDR_LEN = 16"
definition PWRP_NONCE_LEN :: nat where "PWRP_NONCE_LEN = 12"
definition PWRP_TAG_LEN :: nat where "PWRP_TAG_LEN = 16"
definition PWRP_OVERHEAD :: nat where "PWRP_OVERHEAD = PWRP_HDR_LEN + PWRP_NONCE_LEN + PWRP_TAG_LEN"
definition PQC_KEK_LEN :: nat where "PQC_KEK_LEN = 32"

lemmas wrap_consts = PWRP_HDR_LEN_def PWRP_NONCE_LEN_def PWRP_TAG_LEN_def PWRP_OVERHEAD_def PQC_KEK_LEN_def

definition pwrp_hdr_put :: "u32 \<Rightarrow> u32 \<Rightarrow> bytes" where
  "pwrp_hdr_put aad_len pt_len =
     cstr ''PWRP'' @ put_u16 PWRP_VERSION @ put_u16 PWRP_ALG_AES256GCM @ put_u32 aad_len @ put_u32 pt_len"

definition pwrp_hdr_parse :: "bytes \<Rightarrow> (u32 \<times> u32) option" where
  "pwrp_hdr_parse hdr =
     (if take 4 hdr \<noteq> cstr ''PWRP'' then None
      else if get_u16 (drop 4 hdr) \<noteq> PWRP_VERSION then None
      else if get_u16 (drop 6 hdr) \<noteq> PWRP_ALG_AES256GCM then None
      else Some (get_u32 (drop 8 hdr), get_u32 (drop 12 hdr)))"

lemma length_hdr [simp, codec_simps]: "length (pwrp_hdr_put a p) = PWRP_HDR_LEN"
  by (simp add: pwrp_hdr_put_def cstr_def PWRP_HDR_LEN_def)

lemma length_PWRP [simp]: "length (cstr ''PWRP'') = 4"
  by (simp add: cstr_def)

lemma hdr_parse_put: "pwrp_hdr_parse (pwrp_hdr_put a p @ rest) = Some (a, p)"
  by (simp add: pwrp_hdr_parse_def pwrp_hdr_put_def le_get_le_bytes)

definition read_hdr :: "bytes \<Rightarrow> ((u32 \<times> u32) \<times> bytes) option" where
  "read_hdr bs = map_option (\<lambda>x. (x, drop PWRP_HDR_LEN bs)) (pwrp_hdr_parse bs)"

interpretation ph: codec "\<lambda>(a, p). pwrp_hdr_put a p" read_hdr "\<lambda>_. True"
  by unfold_locales (auto simp: read_hdr_def hdr_parse_put)

text \<open>A parsed header is the one the format writes for what it says.\<close>

lemma hdr_parse_exact:
  assumes "pwrp_hdr_parse hdr = Some (a, p)" "PWRP_HDR_LEN \<le> length hdr"
  shows "take PWRP_HDR_LEN hdr = pwrp_hdr_put a p"
proof -
  have l: "length (take n (drop k hdr)) = n" if "k + n \<le> 16" for k n
    using assms(2) that by (simp add: PWRP_HDR_LEN_def)
  have p: "take 4 hdr = cstr ''PWRP''" "get_u16 (drop 4 hdr) = PWRP_VERSION"
    "get_u16 (drop 6 hdr) = PWRP_ALG_AES256GCM" "get_u32 (drop 8 hdr) = a" "get_u32 (drop 12 hdr) = p"
    using assms(1) by (auto simp: pwrp_hdr_parse_def split: if_splits)
  have "take 16 hdr = take 4 hdr @ take 2 (drop 4 hdr) @ take 2 (drop 6 hdr) @ take 4 (drop 8 hdr) @
      take 4 (drop 12 hdr)"
    using take_add[of 4 12 hdr] take_add[of 2 10 "drop 4 hdr"] take_add[of 2 8 "drop 6 hdr"]
      take_add[of 4 4 "drop 8 hdr"] by simp
  moreover have "take 2 (drop 4 hdr) = put_u16 PWRP_VERSION" "take 2 (drop 6 hdr) = put_u16 PWRP_ALG_AES256GCM"
    "take 4 (drop 8 hdr) = put_u32 a" "take 4 (drop 12 hdr) = put_u32 p"
    using p le_bytes_le_get[OF l[of 4 2], where 'a = 16] le_bytes_le_get[OF l[of 6 2], where 'a = 16]
      le_bytes_le_get[OF l[of 8 4], where 'a = 32] le_bytes_le_get[OF l[of 12 4], where 'a = 32]
    by simp_all
  ultimately show ?thesis using p(1) by (simp add: pwrp_hdr_put_def PWRP_HDR_LEN_def)
qed

section \<open>Wrapping\<close>

definition pqc_wrap_blob_len :: "nat \<Rightarrow> nat" where
  "pqc_wrap_blob_len pt_len = pt_len + PWRP_OVERHEAD"

definition pqc_kek_derive :: "env \<Rightarrow> bytes \<Rightarrow> bytes option" where
  "pqc_kek_derive E salt = pqc_kdr_derive E ''pqc-hsm/storage-kek'' salt PQC_KEK_LEN"

text \<open>
  The EVP calls: the ciphertext and the tag of \<open>pt\<close> under the header followed by the caller's data.
  The transfer lengths are those of the C buffers.
\<close>

definition gcm_seal :: "env \<Rightarrow> bytes \<Rightarrow> bytes \<Rightarrow> bytes \<Rightarrow> bytes \<Rightarrow> (bytes \<times> bytes) option" where
  "gcm_seal E kek nonce aad pt =
     map_option (\<lambda>(ct, tag). (buf_write (length pt) ct, buf_write PWRP_TAG_LEN tag))
       (evp_gcm_encrypt E kek nonce aad pt)"

definition gcm_open :: "env \<Rightarrow> bytes \<Rightarrow> bytes \<Rightarrow> bytes \<Rightarrow> bytes \<Rightarrow> bytes \<Rightarrow> bytes option" where
  "gcm_open E kek nonce aad ct tag =
     map_option (buf_write (length ct)) (evp_gcm_decrypt E kek nonce aad ct tag)"

definition pqc_wrap_with_nonce ::
    "env \<Rightarrow> bytes option \<Rightarrow> nat \<Rightarrow> bytes option \<Rightarrow> nat \<Rightarrow> bytes option \<Rightarrow> nat \<Rightarrow> bytes option \<Rightarrow>
     nat option \<Rightarrow> bool \<Rightarrow> bytes option" where
  "pqc_wrap_with_nonce E kek kek_len aad aad_len pt pt_len nonce cap out_len =
     (if kek = None \<or> kek_len \<noteq> PQC_KEK_LEN \<or> cap = None \<or> \<not> out_len \<or> nonce = None then None
      else if pt = None \<and> pt_len \<noteq> 0 \<or> aad = None \<and> aad_len \<noteq> 0 then None
      else if pt_len > INT_MAX \<or> aad_len > INT_MAX then None
      else if the cap < pqc_wrap_blob_len pt_len then None
      else let hdr = pwrp_hdr_put (of_nat aad_len) (of_nat pt_len);
               nn = buf_write PWRP_NONCE_LEN (the nonce) in
        map_option (\<lambda>(ct, tag). hdr @ nn @ ct @ tag)
          (gcm_seal E (mem kek kek_len) nn (hdr @ mem aad aad_len) (mem pt pt_len)))"

definition pqc_wrap ::
    "env \<Rightarrow> bytes option \<Rightarrow> nat \<Rightarrow> bytes option \<Rightarrow> nat \<Rightarrow> bytes option \<Rightarrow> nat \<Rightarrow> nat option \<Rightarrow> bool \<Rightarrow>
     'a world_scheme \<Rightarrow> bytes option \<times> 'a world_scheme" where
  "pqc_wrap E kek kek_len aad aad_len pt pt_len cap out_len w =
     (case pqc_random_bytes E (Some (replicate PWRP_NONCE_LEN 0)) w of
        (ok, nonce, w1) \<Rightarrow>
          (if \<not> ok then None
           else pqc_wrap_with_nonce E kek kek_len aad aad_len pt pt_len (Some nonce) cap out_len, w1))"

text \<open>
  Unwrapping returns the plaintext when the C function returns 0, and what the caller's buffer
  (None for NULL) holds afterwards. The plaintext is written before its tag has been checked, and
  the whole buffer is zeroed when anything after the header checks fails.
\<close>

definition pqc_unwrap ::
    "env \<Rightarrow> bytes option \<Rightarrow> nat \<Rightarrow> bytes option \<Rightarrow> nat \<Rightarrow> bytes option \<Rightarrow> nat \<Rightarrow> bytes option \<Rightarrow> bool \<Rightarrow>
     bytes option \<times> bytes option" where
  "pqc_unwrap E kek kek_len aad aad_len blob blob_len buf out_len =
     (if kek = None \<or> kek_len \<noteq> PQC_KEK_LEN \<or> blob = None \<or> \<not> out_len then (None, buf)
      else if aad = None \<and> aad_len \<noteq> 0 \<or> blob_len < PWRP_OVERHEAD then (None, buf)
      else let b = mem blob blob_len in
        case pwrp_hdr_parse b of
          None \<Rightarrow> (None, buf)
        | Some (hdr_aad_len, hdr_pt_len) \<Rightarrow>
            if hdr_aad_len \<noteq> of_nat aad_len then (None, buf)
            else let ct_len = unat hdr_pt_len in
              if ct_len \<noteq> blob_len - PWRP_OVERHEAD then (None, buf)
              else if ct_len \<noteq> 0 \<and> (case buf of None \<Rightarrow> True | Some p \<Rightarrow> length p < ct_len) then (None, buf)
              else (case gcm_open E (mem kek kek_len) (slice 16 PWRP_NONCE_LEN b)
                           (take PWRP_HDR_LEN b @ mem aad aad_len)
                           (slice 28 ct_len b) (slice (28 + ct_len) PWRP_TAG_LEN b) of
                  None \<Rightarrow> (None, map_option (\<lambda>p. pqc_secure_zero (length p)) buf)
                | Some pt \<Rightarrow> (Some pt, map_option (write_at 0 pt) buf)))"

section \<open>Properties\<close>

text \<open>
  What the code relies on of AES-256-GCM: decryption undoes encryption, with the usual lengths.\<close>

definition gcm_ok :: "env \<Rightarrow> bool" where
  "gcm_ok E \<longleftrightarrow> (\<forall>k n a p ct tag. evp_gcm_encrypt E k n a p = Some (ct, tag) \<longrightarrow>
     length ct = length p \<and> length tag = 16 \<and> evp_gcm_decrypt E k n a ct tag = Some p)"

lemma gcm_seal_open:
  assumes "gcm_ok E" "gcm_seal E k n a p = Some (ct, tag)"
  shows "length ct = length p \<and> length tag = PWRP_TAG_LEN \<and> gcm_open E k n a ct tag = Some p"
  using assms by (auto simp: gcm_ok_def gcm_seal_def gcm_open_def PWRP_TAG_LEN_def)

lemma of_nat_u32: "n \<le> INT_MAX \<Longrightarrow> unat (of_nat n :: u32) = n"
  by (simp add: unsigned_of_nat take_bit_nat_eq_self INT_MAX_def)

lemma wrap_blob:
  assumes "pqc_wrap_with_nonce E (Some kek) (length kek) (Some aad) (length aad) (Some pt) (length pt)
      nonce cap ol = Some blob" "gcm_ok E"
  shows "\<exists>nn ct tag. blob = pwrp_hdr_put (of_nat (length aad)) (of_nat (length pt)) @ nn @ ct @ tag \<and>
     length kek = PQC_KEK_LEN \<and> length aad \<le> INT_MAX \<and> length pt \<le> INT_MAX \<and>
     length nn = PWRP_NONCE_LEN \<and> length ct = length pt \<and> length tag = PWRP_TAG_LEN \<and>
     gcm_open E kek nn (pwrp_hdr_put (of_nat (length aad)) (of_nat (length pt)) @ aad) ct tag = Some pt"
proof -
  let ?h = "pwrp_hdr_put (of_nat (length aad)) (of_nat (length pt))"
  obtain n ct tag where n: "nonce = Some n" and
    g: "gcm_seal E kek (buf_write PWRP_NONCE_LEN n) (?h @ aad) pt = Some (ct, tag)" and
    b: "blob = ?h @ buf_write PWRP_NONCE_LEN n @ ct @ tag" and
    l: "length kek = PQC_KEK_LEN" "length aad \<le> INT_MAX" "length pt \<le> INT_MAX"
    using assms(1) by (auto simp: pqc_wrap_with_nonce_def Let_def not_less split: if_splits)
  show ?thesis
    using gcm_seal_open[OF assms(2) g] b l
    by (intro exI[of _ "buf_write PWRP_NONCE_LEN n"] exI[of _ ct] exI[of _ tag]) simp
qed

lemma unwrap_wrap:
  assumes "pqc_wrap_with_nonce E (Some kek) (length kek) (Some aad) (length aad) (Some pt) (length pt)
      nonce cap ol = Some blob" "gcm_ok E" "length pt \<le> length buf"
  shows "pqc_unwrap E (Some kek) (length kek) (Some aad) (length aad) (Some blob) (length blob) (Some buf) True =
     (Some pt, Some (write_at 0 pt buf))"
proof -
  let ?h = "pwrp_hdr_put (of_nat (length aad)) (of_nat (length pt))"
  obtain nn ct tag where b: "blob = ?h @ nn @ ct @ tag"
    and l: "length kek = PQC_KEK_LEN" "length aad \<le> INT_MAX" "length pt \<le> INT_MAX"
      "length nn = PWRP_NONCE_LEN" "length ct = length pt" "length tag = PWRP_TAG_LEN"
    and o: "gcm_open E kek nn (?h @ aad) ct tag = Some pt"
    using wrap_blob[OF assms(1,2)] by blast
  have s: "slice 16 PWRP_NONCE_LEN blob = nn" "slice 28 (length pt) blob = ct"
    "slice (28 + length pt) PWRP_TAG_LEN blob = tag" "take PWRP_HDR_LEN blob = ?h"
    using l by (simp_all add: b slice_def wrap_consts)
  have len: "length blob = PWRP_OVERHEAD + length pt" using l by (simp add: b PWRP_OVERHEAD_def)
  have p: "pwrp_hdr_parse blob = Some (of_nat (length aad), of_nat (length pt))"
    by (simp add: b hdr_parse_put)
  show ?thesis
    using l(1) len s o p of_nat_u32[OF l(3)] assms(3)
    by (simp add: pqc_unwrap_def Let_def)
qed

text \<open>
  what pqc\_wrap writes, pqc\_unwrap reads back under the same key and associated data, for every
  nonce, every plaintext up to \<open>2\<^sup>3\<^sup>1 - 1\<close> bytes and any buffer large enough.
\<close>

theorem wrap_roundtrip:
  assumes "pqc_wrap E (Some kek) (length kek) (Some aad) (length aad) (Some pt) (length pt) cap ol w = (Some blob, w')"
    and "gcm_ok E" "length pt \<le> length buf"
  shows "fst (pqc_unwrap E (Some kek) (length kek) (Some aad) (length aad) (Some blob) (length blob)
     (Some buf) True) = Some pt \<and> length blob = pqc_wrap_blob_len (length pt)"
proof -
  obtain nonce where n: "pqc_wrap_with_nonce E (Some kek) (length kek) (Some aad) (length aad)
      (Some pt) (length pt) (Some nonce) cap ol = Some blob"
    using assms(1) by (auto simp: pqc_wrap_def split: prod.splits if_splits)
  then show ?thesis
    using unwrap_wrap[OF n assms(2,3)] wrap_blob[OF n assms(2)]
    by (auto simp: pqc_wrap_blob_len_def PWRP_OVERHEAD_def)
qed

lemma unwrap_some:
  assumes "pqc_unwrap E kek kek_len aad aad_len (Some blob) (length blob) buf ol = (Some pt, buf')"
  shows "\<exists>k nn ct tag. kek = Some k \<and>
     blob = pwrp_hdr_put (of_nat aad_len) (of_nat (length pt)) @ nn @ ct @ tag \<and>
     length nn = PWRP_NONCE_LEN \<and> length ct = length pt \<and> length tag = PWRP_TAG_LEN \<and>
     gcm_open E (take kek_len k) nn
       (pwrp_hdr_put (of_nat aad_len) (of_nat (length pt)) @ mem aad aad_len) ct tag = Some pt"
proof -
  obtain k a p where h: "kek = Some k" "PWRP_OVERHEAD \<le> length blob"
    "pwrp_hdr_parse blob = Some (a, p)" "a = of_nat aad_len" "unat p = length blob - PWRP_OVERHEAD"
    and o: "gcm_open E (mem kek kek_len) (slice 16 PWRP_NONCE_LEN blob)
              (take PWRP_HDR_LEN blob @ mem aad aad_len)
              (slice 28 (unat p) blob) (slice (28 + unat p) PWRP_TAG_LEN blob) = Some pt"
    using assms by (auto simp: pqc_unwrap_def Let_def not_less split: if_splits option.splits)
  have lp: "length pt = unat p"
    using o h(2,5) by (auto simp: gcm_open_def wrap_consts)
  then have hdr: "take 16 blob = pwrp_hdr_put (of_nat aad_len) (of_nat (length pt))"
    using hdr_parse_exact[OF h(3)] h(2,4) by (simp add: wrap_consts)
  have "blob = take 16 blob @ slice 16 12 blob @ slice 28 (unat p) blob @ slice (28 + unat p) 16 blob"
    using take_add[of 16 "12 + (unat p + 16)" blob] take_add[of 12 "unat p + 16" "drop 16 blob"]
      take_add[of "unat p" 16 "drop 28 blob"] h(2,5)
    by (simp add: slice_def wrap_consts add.commute)
  then have blob: "blob = pwrp_hdr_put (of_nat aad_len) (of_nat (length pt)) @ slice 16 12 blob @
      slice 28 (unat p) blob @ slice (28 + unat p) 16 blob" using hdr by simp
  have "length (slice 16 12 blob) = PWRP_NONCE_LEN" "length (slice 28 (unat p) blob) = length pt"
    "length (slice (28 + unat p) 16 blob) = PWRP_TAG_LEN"
    using h(2,5) lp by (simp_all add: wrap_consts)
  moreover have "gcm_open E (take kek_len k) (slice 16 12 blob)
      (pwrp_hdr_put (of_nat aad_len) (of_nat (length pt)) @ mem aad aad_len)
      (slice 28 (unat p) blob) (slice (28 + unat p) 16 blob) = Some pt"
    using o hdr h(1) by (simp add: wrap_consts)
  ultimately show ?thesis using h(1) blob by blast
qed

text \<open>
  pqc\_unwrap returns a plaintext only if the blob is exactly a header for these lengths, a nonce,
  a ciphertext and a tag, and the cipher authenticated all of it together with the caller's data;
  and when it returns none, the caller's buffer is as it was or all zero, never the unauthenticated
  plaintext.
\<close>

theorem unwrap_authentic:
  "(case pqc_unwrap E kek kek_len aad aad_len (Some blob) (length blob) buf ol of
      (Some pt, _) \<Rightarrow>
        \<exists>k nn ct tag. kek = Some k \<and>
          blob = pwrp_hdr_put (of_nat aad_len) (of_nat (length pt)) @ nn @ ct @ tag \<and>
          length nn = PWRP_NONCE_LEN \<and> length ct = length pt \<and> length tag = PWRP_TAG_LEN \<and>
          gcm_open E (take kek_len k) nn
            (pwrp_hdr_put (of_nat aad_len) (of_nat (length pt)) @ mem aad aad_len) ct tag = Some pt
    | (None, buf') \<Rightarrow> buf' = buf \<or> buf' = map_option (\<lambda>p. replicate (length p) 0) buf)"
proof (cases "pqc_unwrap E kek kek_len aad aad_len (Some blob) (length blob) buf ol")
  case r: (Pair x buf')
  show ?thesis
  proof (cases x)
    case None
    then show ?thesis using r
      by (auto simp: pqc_unwrap_def Let_def pqc_secure_zero_def split: if_splits option.splits)
  next
    case (Some pt)
    then show ?thesis using r unwrap_some by fastforce
  qed
qed

end
