(* ===== verification/Persist.thy ===== *)
theory Persist
  imports Slot_Guard Wrap
begin

text \<open>
  src/src/slot/persist.c: a slot as an encrypted blob, for the key store and for backups. The
  metadata are in front in clear, and authenticated as associated data of the wrapped payload
  (PINs, interrupted state, public key, private key or seed).
\<close>

section \<open>The payload\<close>

definition PAYLOAD_FIXED :: nat where
  "PAYLOAD_FIXED = 1 + 32 + PIN_SALT_LEN + VERIFIER_LEN + PIN_SALT_LEN + VERIFIER_LEN + 4 + 1 + 4 + 4"

definition PAYLOAD_MAX :: nat where
  "PAYLOAD_MAX = PAYLOAD_FIXED + 2592 + 4896"

definition hsm_slot_blob_max :: nat where
  "hsm_slot_blob_max = SLOT_META_WIRE_LEN + pqc_wrap_blob_len PAYLOAD_MAX"

lemmas payload_consts = PAYLOAD_FIXED_def PAYLOAD_MAX_def PIN_SALT_LEN_def VERIFIER_LEN_def

definition key_kind :: "slot \<Rightarrow> byte" where
  "key_kind s = (if sl_sk s \<noteq> None then 1 else if sl_has_seed s then 2 else 0)"

definition opt_bytes :: "bytes option \<Rightarrow> bytes" where
  "opt_bytes x = (case x of None \<Rightarrow> [] | Some b \<Rightarrow> b)"

definition key_bytes :: "slot \<Rightarrow> bytes" where
  "key_bytes s =
     (if key_kind s = 1 then opt_bytes (sl_sk s)
      else if key_kind s = 2 then take (sl_seed_len s) (sl_seed s) else [])"

definition slot_payload :: "slot \<Rightarrow> bytes" where
  "slot_payload s =
     [(if sl_has_so_pin s then 1 else 0) OR (if sl_has_user_pin s then 2 else 0)] @
     sl_pin_key s @ sl_so_salt s @ sl_so_verifier s @ sl_user_salt s @ sl_user_verifier s @
     put_u32 (state_code (sl_pre_lock s)) @ [key_kind s] @
     put_u32 (of_nat (length (opt_bytes (sl_pk s)))) @ opt_bytes (sl_pk s) @
     put_u32 (of_nat (length (key_bytes s))) @ key_bytes s"

definition slot_serialize_locked ::
    "env \<Rightarrow> slot \<Rightarrow> bytes option \<Rightarrow> nat \<Rightarrow> nat option \<Rightarrow> bool \<Rightarrow> 'a world_scheme \<Rightarrow>
     bytes hsm_res \<times> 'a world_scheme" where
  "slot_serialize_locked E s kek kek_len cap blob_len w =
     (if kek = None \<or> kek_len \<noteq> PQC_KEK_LEN \<or> cap = None \<or> \<not> blob_len then (Inl HSM_ERR_BAD_ARG, w)
      else case slot_meta_serialize (sl_meta s) SLOT_META_WIRE_LEN of
        None \<Rightarrow> (Inl HSM_ERR_CRYPTO, w)
      | Some meta_wire \<Rightarrow>
          (case pqc_secure_alloc E PAYLOAD_MAX w of (buf, w1) \<Rightarrow>
            if buf = None then (Inl HSM_ERR_NOMEM, w1)
            else let payload = slot_payload s in
              if the cap < SLOT_META_WIRE_LEN + pqc_wrap_blob_len (length payload)
              then (Inl HSM_ERR_BAD_ARG, w1)
              else (case pqc_wrap E kek kek_len (Some meta_wire) SLOT_META_WIRE_LEN (Some payload)
                           (length payload) (Some (the cap - SLOT_META_WIRE_LEN)) True w1 of
                  (None, w2) \<Rightarrow> (Inl HSM_ERR_CRYPTO, w2)
                | (Some wrapped, w2) \<Rightarrow> (Inr (meta_wire @ wrapped), w2))))"

text \<open>Walking the payload: the fields, and the checks on lengths that do not need the metadata.\<close>

record payload =
  pl_flags :: byte
  pl_pin_key :: bytes
  pl_so_salt :: bytes
  pl_so_ver :: bytes
  pl_user_salt :: bytes
  pl_user_ver :: bytes
  pl_pre_lock :: slot_state
  pl_kind :: byte
  pl_pk :: bytes
  pl_key :: bytes

definition payload_parse :: "bytes \<Rightarrow> payload option" where
  "payload_parse p =
     (if length p < PAYLOAD_FIXED then None
      else let kind = p ! 133; pk_len = unat (get_u32 (drop 134 p)); rest = drop 138 p in
        case state_of (get_u32 (drop 129 p)) of
          None \<Rightarrow> None
        | Some pre_lock \<Rightarrow>
            if kind > 2 \<or> pk_len > length rest then None
            else let rest2 = drop pk_len rest in
              if length rest2 < 4 then None
              else let key_len = unat (get_u32 rest2); rest3 = drop 4 rest2 in
                if key_len > length rest3 then None
                else Some \<lparr>pl_flags = p ! 0, pl_pin_key = slice 1 32 p, pl_so_salt = slice 33 16 p,
                           pl_so_ver = slice 49 32 p, pl_user_salt = slice 81 16 p,
                           pl_user_ver = slice 97 32 p, pl_pre_lock = pre_lock, pl_kind = kind,
                           pl_pk = take pk_len rest, pl_key = take key_len rest3\<rparr>)"

text \<open>The cross check of the lengths with the parameter set the metadata name.\<close>

definition payload_fits :: "slot_meta \<Rightarrow> payload \<Rightarrow> bool" where
  "payload_fits m p \<longleftrightarrow>
     (if m_alg m \<noteq> PQC_ALG_NONE
      then (case pqc_alg_info (m_alg m) of
              None \<Rightarrow> False
            | Some info \<Rightarrow> length (pl_pk p) = ai_pk_len info \<and>
                (pl_kind p = 1 \<longrightarrow> length (pl_key p) = ai_sk_len info) \<and>
                (pl_kind p = 2 \<longrightarrow> length (pl_key p) = ai_seed_len info))
      else pl_kind p = 0 \<and> pl_pk p = [])"

definition payload_install :: "slot_meta \<Rightarrow> payload \<Rightarrow> slot \<Rightarrow> slot" where
  "payload_install m p s =
     (slot_wipe_pins (slot_wipe_key_material s))
       \<lparr>sl_pk := (if pl_pk p = [] then None else Some (pl_pk p)),
        sl_sk := (if pl_kind p = 1 \<and> pl_key p \<noteq> [] then Some (pl_key p) else None),
        sl_seed := (if pl_kind p = 2 then write_at 0 (pl_key p) (pqc_secure_zero 64) else pqc_secure_zero 64),
        sl_seed_len := (if pl_kind p = 2 then length (pl_key p) else 0),
        sl_has_seed := (pl_kind p = 2),
        sl_pin_key := pl_pin_key p,
        sl_has_so_pin := (pl_flags p AND 1 \<noteq> 0), sl_has_user_pin := (pl_flags p AND 2 \<noteq> 0),
        sl_so_salt := pl_so_salt p, sl_so_verifier := pl_so_ver p,
        sl_user_salt := pl_user_salt p, sl_user_verifier := pl_user_ver p,
        sl_pre_lock := pl_pre_lock p, sl_meta := m\<rparr>"

definition slot_deserialize_locked ::
    "env \<Rightarrow> slot \<Rightarrow> bytes option \<Rightarrow> nat \<Rightarrow> bytes option \<Rightarrow> nat \<Rightarrow> 'a world_scheme \<Rightarrow>
     hsm_status \<times> slot \<times> 'a world_scheme" where
  "slot_deserialize_locked E s kek kek_len blob blob_len w =
     (if kek = None \<or> kek_len \<noteq> PQC_KEK_LEN \<or> blob = None \<or> blob_len < SLOT_META_WIRE_LEN
      then (HSM_ERR_BAD_ARG, s, w)
      else let b = mem blob blob_len in
        case slot_meta_deserialize b SLOT_META_WIRE_LEN of
          None \<Rightarrow> (HSM_ERR_INTEGRITY, s, w)
        | Some meta \<Rightarrow>
            if m_slot_id meta \<noteq> m_slot_id (sl_meta s) \<or> m_version meta \<noteq> SLOT_META_VERSION
            then (HSM_ERR_INTEGRITY, s, w)
            else (case pqc_secure_alloc E PAYLOAD_MAX w of (buf, w1) \<Rightarrow>
              if buf = None then (HSM_ERR_NOMEM, s, w1)
              else (case fst (pqc_unwrap E kek kek_len (Some b) SLOT_META_WIRE_LEN
                              (Some (drop SLOT_META_WIRE_LEN b)) (blob_len - SLOT_META_WIRE_LEN) buf True) of
                  None \<Rightarrow> (HSM_ERR_INTEGRITY, s, w1)
                | Some pt \<Rightarrow>
                    (case payload_parse pt of
                       None \<Rightarrow> (HSM_ERR_INTEGRITY, s, w1)
                     | Some p \<Rightarrow>
                         if \<not> payload_fits meta p then (HSM_ERR_INTEGRITY, s, w1)
                         else (case (if pl_pk p = [] then (Some [], w1)
                                     else pqc_secure_alloc E (length (pl_pk p)) w1) of (a1, w2) \<Rightarrow>
                           if a1 = None then (HSM_ERR_NOMEM, s, w2)
                           else (case (if pl_kind p = 1 \<and> pl_key p \<noteq> []
                                       then pqc_secure_alloc E (length (pl_key p)) w2
                                       else (Some [], w2)) of (a2, w3) \<Rightarrow>
                             if a2 = None then (HSM_ERR_NOMEM, s, w3)
                             else (case slot_reseal E (payload_install meta p s) of
                                     (stt, s') \<Rightarrow> (stt, s', w3))))))))"

definition hsm_slot_serialize ::
    "env \<Rightarrow> hsm_token \<Rightarrow> u32 \<Rightarrow> bytes option \<Rightarrow> nat \<Rightarrow> nat option \<Rightarrow> bool \<Rightarrow> bytes hsm_res \<times> hsm_token" where
  "hsm_slot_serialize E tok sid kek kek_len cap blob_len =
     (case slot_at tok sid of
        None \<Rightarrow> (Inl HSM_ERR_BAD_ARG, tok)
      | Some s \<Rightarrow>
          if slot_check_integrity E s \<noteq> HSM_OK then (Inl (slot_check_integrity E s), tok)
          else slot_serialize_locked E s kek kek_len cap blob_len tok)"

definition hsm_slot_deserialize ::
    "env \<Rightarrow> hsm_token \<Rightarrow> u32 \<Rightarrow> bytes option \<Rightarrow> nat \<Rightarrow> bytes option \<Rightarrow> nat \<Rightarrow> hsm_status \<times> hsm_token" where
  "hsm_slot_deserialize E tok sid kek kek_len blob blob_len =
     (case slot_at tok sid of
        None \<Rightarrow> (HSM_ERR_BAD_ARG, tok)
      | Some s \<Rightarrow>
          (case slot_deserialize_locked E s kek kek_len blob blob_len tok of
             (stt, s', tok1) \<Rightarrow> (stt, set_slot sid s' tok1)))"

section \<open>Round trip\<close>

text \<open>What a slot is stored as: everything except the reference to a key held in hardware.\<close>

definition forget_hw :: "slot \<Rightarrow> slot" where
  "forget_hw s = s\<lparr>sl_hw_handle := 0, sl_hw_resident := False\<rparr>"

definition payload_of :: "slot \<Rightarrow> payload" where
  "payload_of s =
     \<lparr>pl_flags = (if sl_has_so_pin s then 1 else 0) OR (if sl_has_user_pin s then 2 else 0),
      pl_pin_key = sl_pin_key s, pl_so_salt = sl_so_salt s, pl_so_ver = sl_so_verifier s,
      pl_user_salt = sl_user_salt s, pl_user_ver = sl_user_verifier s, pl_pre_lock = sl_pre_lock s,
      pl_kind = key_kind s, pl_pk = opt_bytes (sl_pk s), pl_key = key_bytes s\<rparr>"

lemma parse_payload:
  assumes "wf_arrays s" "sl_pre_lock s \<noteq> SLOT_ST_INVALID"
    and "length (opt_bytes (sl_pk s)) \<le> INT_MAX" "length (key_bytes s) \<le> INT_MAX"
  shows "payload_parse (slot_payload s) = Some (payload_of s)"
proof -
  let ?pk = "opt_bytes (sl_pk s)" and ?k = "key_bytes s"
  define fl :: byte where "fl = (if sl_has_so_pin s then 1 else 0) OR (if sl_has_user_pin s then 2 else 0)"
  define st where "st = put_u32 (state_code (sl_pre_lock s))"
  define tail where "tail = ?pk @ put_u32 (of_nat (length ?k)) @ ?k"
  define lpk where "lpk = put_u32 (of_nat (length ?pk))"
  define p where "p = slot_payload s"
  have p: "p = fl # (sl_pin_key s @ sl_so_salt s @ sl_so_verifier s @ sl_user_salt s @
      sl_user_verifier s @ st @ key_kind s # lpk @ tail)"
    by (simp add: p_def slot_payload_def fl_def st_def tail_def lpk_def)
  have l: "length (sl_pin_key s) = 32" "length (sl_so_salt s) = 16" "length (sl_so_verifier s) = 32"
    "length (sl_user_salt s) = 16" "length (sl_user_verifier s) = 32" "length st = 4" "length lpk = 4"
    using assms(1) by (simp_all add: wf_arrays_def payload_consts st_def lpk_def)
  have d: "drop 129 p = st @ key_kind s # lpk @ tail" "drop 134 p = lpk @ tail" "drop 138 p = tail"
    "p ! 133 = key_kind s" "p ! 0 = fl"
    "slice 1 32 p = sl_pin_key s" "slice 33 16 p = sl_so_salt s" "slice 49 32 p = sl_so_verifier s"
    "slice 81 16 p = sl_user_salt s" "slice 97 32 p = sl_user_verifier s"
    using l by (simp_all add: p slice_def nth_append)
  have len: "PAYLOAD_FIXED \<le> length p" using l by (simp add: p payload_consts tail_def)
  have s: "state_of (get_u32 (drop 129 p)) = Some (sl_pre_lock s)"
    using assms(2) by (simp add: d(1) st_def le_get_le_bytes)
  have n: "unat (get_u32 (drop 134 p)) = length ?pk"
    using of_nat_u32[OF assms(3)] by (simp add: d(2) lpk_def le_get_le_bytes)
  have k: "unat (get_u32 (put_u32 (of_nat (length ?k)) @ ?k)) = length ?k"
    using of_nat_u32[OF assms(4)] by (simp add: le_get_le_bytes)
  have kk: "\<not> key_kind s > 2" by (simp add: key_kind_def)
  have "payload_parse p = Some (payload_of s)"
    unfolding payload_parse_def Let_def s n d(3-10)
    using len k kk by (simp add: tail_def payload_of_def fl_def)
  then show ?thesis by (simp add: p_def)
qed

lemma flags_bits:
  "((if a then 1 else 0) OR (if b then 2 else 0) :: byte) AND 1 \<noteq> 0 \<longleftrightarrow> a"
  "((if a then 1 else 0) OR (if b then 2 else 0) :: byte) AND 2 \<noteq> 0 \<longleftrightarrow> b"
  by (cases a; cases b; simp)+

lemma slot_inv_key:
  assumes "slot_inv sid s"
  shows "no_key s \<or> key_fits s"
  using assms by (auto simp: slot_inv_def)

lemma key_forms:
  assumes "slot_inv sid s"
  obtains (none) "no_key s" "m_alg (sl_meta s) = PQC_ALG_NONE"
  | (hw) info p where "pqc_alg_info (m_alg (sl_meta s)) = Some info" "sl_pk s = Some p"
      "length p = ai_pk_len info" "sl_sk s = None" "\<not> sl_has_seed s" "sl_seed_len s = 0"
      "sl_seed s = replicate 64 0"
  | (seed) info p where "pqc_alg_info (m_alg (sl_meta s)) = Some info" "sl_pk s = Some p"
      "length p = ai_pk_len info" "sl_sk s = None" "sl_has_seed s" "sl_seed_len s = ai_seed_len info"
      "sl_seed s = take (sl_seed_len s) (sl_seed s) @ replicate (64 - sl_seed_len s) 0"
  | (key) info p k where "pqc_alg_info (m_alg (sl_meta s)) = Some info" "sl_pk s = Some p"
      "length p = ai_pk_len info" "sl_sk s = Some k" "length k = ai_sk_len info" "\<not> sl_has_seed s"
      "sl_seed_len s = 0" "sl_seed s = replicate 64 0"
proof (cases "view s = Key")
  case False
  then show ?thesis using assms none by (simp add: slot_inv_def)
next
  case True
  then have k: "key_ok (m_alg (sl_meta s)) (m_usage (sl_meta s)) (m_policy (sl_meta s)) (sl_pk s) (sl_sk s)
       (sl_has_seed s) (sl_seed_len s) (sl_hw_resident s)"
    "\<not> sl_has_seed s \<longrightarrow> sl_seed_len s = 0"
    "drop (sl_seed_len s) (sl_seed s) = replicate (64 - sl_seed_len s) 0"
    using assms by (simp_all add: slot_inv_def key_fits_def)
  have sd: "sl_seed s = take (sl_seed_len s) (sl_seed s) @ replicate (64 - sl_seed_len s) 0"
    using k(3) by (metis append_take_drop_id)
  show ?thesis
  proof (cases "sl_has_seed s")
    case True
    then show ?thesis using k(1) sd seed by (auto simp: key_ok_def split: if_splits)
  next
    case False
    then have z: "sl_seed_len s = 0" "sl_seed s = replicate 64 0" using k(2,3) by auto
    show ?thesis
    proof (cases "sl_hw_resident s")
      case True
      then show ?thesis using k(1) False z hw by (auto simp: key_ok_def)
    next
      case no: False
      obtain i p x where "pqc_alg_info (m_alg (sl_meta s)) = Some i" "sl_pk s = Some p"
        "length p = ai_pk_len i" "sl_sk s = Some x" "length x = ai_sk_len i"
        using k(1) False no by (auto simp: key_ok_def)
      then show ?thesis using False z key by blast
    qed
  qed
qed

text \<open>The payload of a good slot fits its metadata, the buffer and the wrap.\<close>

lemma payload_good:
  assumes "slot_inv sid s"
  shows "payload_fits (sl_meta s) (payload_of s)" "length (opt_bytes (sl_pk s)) \<le> 2592"
    "length (key_bytes s) \<le> 4896"
  using assms slot_inv_arrays[OF assms]
  by (cases rule: key_forms[OF assms];
      auto simp: payload_fits_def payload_of_def key_kind_def key_bytes_def opt_bytes_def no_key_def
        wf_arrays_def dest: pqc_alg_info_bounds)+

lemma install_payload:
  assumes "slot_inv sid s"
  shows "payload_install (sl_meta s) (payload_of s) t = (forget_hw s)\<lparr>sl_meta_tag := sl_meta_tag t\<rparr>"
proof -
  have l: "length (sl_seed s) = 64" using slot_inv_arrays[OF assms] by (simp add: wf_arrays_def)
  have w: "write_at 0 x (replicate 64 0) = x @ replicate (64 - length x) 0" for x :: bytes
    by (simp add: write_at_def)
  show ?thesis
    by (cases rule: key_forms[OF assms])
       (auto simp: payload_install_def payload_of_def forget_hw_def slot_wipe_pins_def
         slot_wipe_key_material_def flags_bits key_kind_def key_bytes_def opt_bytes_def no_key_def
         pqc_secure_zero_def w l min_def dest: pqc_alg_info_bounds intro!: slot.equality)
qed

lemma payload_len: "slot_inv sid s \<Longrightarrow> length (slot_payload s) \<le> PAYLOAD_MAX"
  using payload_good[of sid s] slot_inv_arrays[of sid s]
  by (simp add: slot_payload_def wf_arrays_def payload_consts)

lemma serialize_shape:
  assumes "slot_serialize_locked E s (Some kek) (length kek) cap bl w = (Inr blob, w')" "slot_inv sid s"
  shows "\<exists>wrapped nonce cap'. blob = slot_meta_wire (sl_meta s) @ wrapped \<and> length kek = PQC_KEK_LEN \<and>
     pqc_wrap_with_nonce E (Some kek) (length kek) (Some (slot_meta_wire (sl_meta s)))
       (length (slot_meta_wire (sl_meta s))) (Some (slot_payload s)) (length (slot_payload s))
       (Some nonce) cap' True = Some wrapped"
proof -
  have "length (slot_meta_wire (sl_meta s)) = SLOT_META_WIRE_LEN"
    using assms(2) by (simp add: slot_inv_def wf_meta_def length_slot_meta_wire)
  then show ?thesis
    using assms(1)
    by (auto simp: slot_serialize_locked_def slot_meta_serialize_def pqc_wrap_def Let_def
        split: if_splits option.splits prod.splits)
qed

lemma alloc_Some: "pqc_secure_alloc E n w = (Some b, w') \<Longrightarrow> b = replicate n 0"
  by (auto simp: pqc_secure_alloc_def split: if_splits)

lemma deserialize_serialized:
  assumes "slot_serialize_locked E s (Some kek) (length kek) cap bl w = (Inr blob, w')"
    and "slot_inv sid s" "sl_pre_lock s \<noteq> SLOT_ST_INVALID" "m_version (sl_meta s) = SLOT_META_VERSION"
    and "gcm_ok E" "m_slot_id (sl_meta t) = sid"
    and "slot_deserialize_locked E t (Some kek) (length kek) (Some blob) (length blob) w1 = (stt, t', w2)"
  shows "stt = HSM_ERR_NOMEM \<and> t' = t \<or>
     slot_reseal E ((forget_hw s)\<lparr>sl_meta_tag := sl_meta_tag t\<rparr>) = (stt, t')"
proof -
  define mw where "mw = slot_meta_wire (sl_meta s)"
  have lm: "length mw = SLOT_META_WIRE_LEN" and wf: "wf_meta (sl_meta s)" and sid: "m_slot_id (sl_meta s) = sid"
    using assms(2) by (simp_all add: slot_inv_def wf_meta_def length_slot_meta_wire mw_def)
  obtain wrapped nonce cap' where b: "blob = mw @ wrapped" "length kek = PQC_KEK_LEN"
    and wr: "pqc_wrap_with_nonce E (Some kek) (length kek) (Some mw) (length mw) (Some (slot_payload s))
       (length (slot_payload s)) (Some nonce) cap' True = Some wrapped"
    using serialize_shape[OF assms(1,2)] mw_def by blast
  have meta: "slot_meta_deserialize blob SLOT_META_WIRE_LEN = Some (sl_meta s)"
    using meta_roundtrip_append[OF wf] by (simp add: b mw_def)
  have un: "fst (pqc_unwrap E (Some kek) (length kek) (Some blob) SLOT_META_WIRE_LEN
      (Some (drop SLOT_META_WIRE_LEN blob)) (length blob - SLOT_META_WIRE_LEN)
      (Some (replicate PAYLOAD_MAX 0)) True) = Some (slot_payload s)"
  proof -
    have "pqc_unwrap E (Some kek) (length kek) (Some blob) SLOT_META_WIRE_LEN bl n buf ol =
        pqc_unwrap E (Some kek) (length kek) (Some mw) (length mw) bl n buf ol" for bl n buf ol
    proof -
      have "mem (Some blob) SLOT_META_WIRE_LEN = mem (Some mw) SLOT_META_WIRE_LEN" using lm by (simp add: b)
      then show ?thesis by (simp only: pqc_unwrap_def lm option.distinct)
    qed
    then show ?thesis
      using unwrap_wrap[OF wr assms(5), of "replicate PAYLOAD_MAX 0"] payload_len[OF assms(2)] lm
      by (simp add: b)
  qed
  have ps: "payload_parse (slot_payload s) = Some (payload_of s)"
    using parse_payload[OF slot_inv_arrays[OF assms(2)] assms(3)] payload_good(2,3)[OF assms(2)]
    by (simp add: INT_MAX_def)
  have bl: "\<not> length blob < SLOT_META_WIRE_LEN" using lm by (simp add: b)
  note inst = install_payload[OF assms(2), of t]
  show ?thesis
    using assms(7) b(2) meta bl un ps payload_good(1)[OF assms(2)] sid assms(4,6) inst
    by (auto simp: slot_deserialize_locked_def Let_def split: prod.splits if_splits dest!: alloc_Some)
qed

text \<open>
  a blob that hsm\_slot\_serialize wrote loads, under the same key, into the slot of the same number,
  and gives the slot back: metadata with all counters and the lock state, PINs, public key, and the
  private key or the seed, freshly sealed. Only the reference to a key held in hardware is lost. The
  one way it can fail is running out of memory, and then the slot is untouched.
\<close>

theorem persist_roundtrip:
  assumes "slot_serialize_locked E s (Some kek) (length kek) cap bl w = (Inr blob, w')"
    and "slot_inv sid s" "sl_pre_lock s \<noteq> SLOT_ST_INVALID" "m_version (sl_meta s) = SLOT_META_VERSION"
    and "gcm_ok E" "seal_total E" "m_slot_id (sl_meta t) = sid"
    and "slot_deserialize_locked E t (Some kek) (length kek) (Some blob) (length blob) w1 = (stt, t', w2)"
  shows "stt = HSM_ERR_NOMEM \<and> t' = t \<or>
     stt = HSM_OK \<and> sealed E t' \<and> (\<exists>tag. t' = (forget_hw s)\<lparr>sl_meta_tag := tag\<rparr>)"
  using deserialize_serialized[OF assms(1-5,7,8)]
proof
  assume r: "slot_reseal E ((forget_hw s)\<lparr>sl_meta_tag := sl_meta_tag t\<rparr>) = (stt, t')"
  then show ?thesis
    using slot_reseal_result[OF r] slot_reseal_total[OF assms(6), of "(forget_hw s)\<lparr>sl_meta_tag := sl_meta_tag t\<rparr>"]
    by auto
qed simp

text \<open>
  a slot whose key lives in hardware does not come back empty: it comes back in the same state,
  LOADED, with its public key, but with no private key, no seed and no hardware reference, so it
  claims a key it cannot use.
\<close>

theorem hw_slot_reloads_keyless:
  assumes "slot_serialize_locked E s (Some kek) (length kek) cap bl w = (Inr blob, w')"
    and "slot_inv sid s" "sl_pre_lock s \<noteq> SLOT_ST_INVALID" "m_version (sl_meta s) = SLOT_META_VERSION"
    and "gcm_ok E" "m_slot_id (sl_meta t) = sid"
    and "st_of s = SLOT_ST_LOADED" "sl_hw_resident s"
    and "slot_deserialize_locked E t (Some kek) (length kek) (Some blob) (length blob) w1 = (HSM_OK, t', w2)"
  shows "st_of t' = SLOT_ST_LOADED \<and> sl_pk t' \<noteq> None \<and> \<not> has_key t'"
proof -
  have "key_fits s" using assms(2,7) by (simp add: slot_inv_states)
  then have k: "sl_pk s \<noteq> None" "sl_sk s = None" "\<not> sl_has_seed s"
    using assms(8) by (auto simp: key_fits_def key_ok_def)
  have "slot_reseal E ((forget_hw s)\<lparr>sl_meta_tag := sl_meta_tag t\<rparr>) = (HSM_OK, t')"
    using deserialize_serialized[OF assms(1-6,9)] by simp
  then show ?thesis
    using k assms(7) by (auto simp: forget_hw_def has_key_def dest!: slot_reseal_result)
qed

text \<open>
  a slot takes only its own records: what hsm\_slot\_deserialize installs carries metadata for this
  slot number that were authenticated together with the payload, its key has the length of its
  parameter set, and a record that fails any check leaves the slot as it was.
\<close>

theorem deserialize_checks:
  assumes "slot_deserialize_locked E s kek kek_len (Some blob) (length blob) w = (stt, s', w')"
    and "seal_total E"
  shows "(stt \<noteq> HSM_OK \<longrightarrow> s' = s) \<and>
     (stt = HSM_OK \<longrightarrow> wf_meta (sl_meta s') \<and> m_slot_id (sl_meta s') = m_slot_id (sl_meta s) \<and> sealed E s' \<and>
        (case fst (pqc_unwrap E kek kek_len (Some blob) SLOT_META_WIRE_LEN (Some (drop SLOT_META_WIRE_LEN blob))
             (length blob - SLOT_META_WIRE_LEN) (Some (replicate PAYLOAD_MAX 0)) True) of
           None \<Rightarrow> False
         | Some pt \<Rightarrow>
             (case payload_parse pt of
                None \<Rightarrow> False
              | Some p \<Rightarrow> payload_fits (sl_meta s') p \<and>
                  sl_pk s' = (if pl_pk p = [] then None else Some (pl_pk p)))))"
proof -
  have fin: "stt = HSM_OK \<and> sealed E s' \<and> sl_meta s' = m \<and> sl_pk s' = (if pl_pk p = [] then None else Some (pl_pk p))"
    if "slot_reseal E (payload_install m p s) = (stt, s')" for m p
    using slot_reseal_result[OF that] slot_reseal_total[OF assms(2), of "payload_install m p s"] that
    by (auto simp: payload_install_def)
  show ?thesis
    using assms(1)
    by (auto simp: slot_deserialize_locked_def Let_def
        split: prod.splits if_splits option.splits
        dest!: alloc_Some fin dest: deserialize_wf)
qed

end
