(* ===== verification/Rbanchor.thy ===== *)
theory Rbanchor
  imports Files
begin

text \<open>
  src/src/store/rbanchor.c: the rollback anchor, a number that only moves forward. A provider is a
  pair of functions on the state; the built-in one keeps the number as decimal text in a file next
  to the key store. What the store needs of an anchor is a locale, and the file provider satisfies
  it as long as system calls work.
\<close>

section \<open>The file provider\<close>

text \<open>fprintf of a \<open>%llu\<close>, and fscanf of one (glibc: white space, a sign, digits, saturation).\<close>

function dec_digits :: "nat \<Rightarrow> bytes" where
  "dec_digits n = (if n < 10 then [of_nat (48 + n)] else dec_digits (n div 10) @ [of_nat (48 + n mod 10)])"
  by pat_completeness auto

termination dec_digits
  by (relation "measure id") auto

declare dec_digits.simps [simp del]

definition is_digit :: "byte \<Rightarrow> bool" where
  "is_digit b \<longleftrightarrow> 48 \<le> b \<and> b \<le> 57"

definition is_space :: "byte \<Rightarrow> bool" where
  "is_space b \<longleftrightarrow> b = 32 \<or> 9 \<le> b \<and> b \<le> 13"

definition dec_value :: "bytes \<Rightarrow> nat" where
  "dec_value ds = foldl (\<lambda>n d. 10 * n + (unat d - 48)) 0 ds"

definition scan_u64 :: "bytes \<Rightarrow> u64 option" where
  "scan_u64 s =
     (let t = dropWhile is_space s;
          neg = (case t of [] \<Rightarrow> False | c # _ \<Rightarrow> c = 45);
          u = (case t of [] \<Rightarrow> [] | c # r \<Rightarrow> if c = 45 \<or> c = 43 then r else t);
          ds = takeWhile is_digit u
      in if ds = [] then None
         else if dec_value ds \<ge> 2 ^ 64 then Some (- 1)
         else Some (if neg then - of_nat (dec_value ds) else of_nat (dec_value ds)))"

text \<open>strtol in base ten, which saturates.\<close>

definition c_strtol :: "bytes \<Rightarrow> int" where
  "c_strtol s =
     (let t = dropWhile is_space (c_string s);
          neg = (case t of [] \<Rightarrow> False | c # _ \<Rightarrow> c = 45);
          u = (case t of [] \<Rightarrow> [] | c # r \<Rightarrow> if c = 45 \<or> c = 43 then r else t);
          v = int (dec_value (takeWhile is_digit u))
      in if neg then max (- v) (- (2 ^ 63)) else min v (2 ^ 63 - 1))"

text \<open>The path is cut to the 512-byte buffer, without a check.\<close>

definition anchor_path :: "bytes option \<Rightarrow> bytes" where
  "anchor_path scope =
     take 511 ((case scope of None \<Rightarrow> cstr ''keystore'' | Some s \<Rightarrow> c_string s) @ cstr ''.epoch'')"

definition anchor_tmp :: "bytes option \<Rightarrow> bytes" where
  "anchor_tmp scope = take 543 (anchor_path scope @ cstr ''.tmp'')"

definition fopen_read :: "env \<Rightarrow> bytes \<Rightarrow> 'a world_scheme \<Rightarrow> bytes option \<times> 'a world_scheme" where
  "fopen_read E p w = (case sys_ok E w of (ok, w1) \<Rightarrow> (if ok then files w p else None, w1))"

definition file_read :: "env \<Rightarrow> bytes option \<Rightarrow> 'a world_scheme \<Rightarrow> u64 option \<times> 'a world_scheme" where
  "file_read E scope w =
     (case fopen_read E (anchor_path scope) w of
        (None, w1) \<Rightarrow> (Some 0, w1)
      | (Some text, w1) \<Rightarrow>
          (case sys_ok E w1 of (ok, w2) \<Rightarrow>
             (Some (if ok then (case scan_u64 text of None \<Rightarrow> 0 | Some v \<Rightarrow> v) else 0), w2)))"

text \<open>fprintf only fills the stream's buffer; what fflush, fsync and fclose return is ignored.\<close>

definition file_write :: "env \<Rightarrow> bytes option \<Rightarrow> u64 \<Rightarrow> 'a world_scheme \<Rightarrow> bool \<times> 'a world_scheme" where
  "file_write E scope v w =
     (let p = anchor_path scope; t = anchor_tmp scope in
      case sys_ok E w of (opened, w1) \<Rightarrow>
        if \<not> opened then (False, w1)
        else let w2 = set_file t (Some []) w1 in
          case sys_ok E w2 of (printed, w3) \<Rightarrow>
            if \<not> printed then (False, set_file t None w3)
            else case io_pwrite E t (dec_digits (unat v) @ [10]) 0 w3 of (_, w4) \<Rightarrow>
              case sys_ok E (next_tick w4) of (renamed, w5) \<Rightarrow>
                if \<not> renamed then (False, set_file t None w5)
                else (True, set_file t None (set_file p (files w5 t) w5)))"

definition file_bump :: "env \<Rightarrow> bytes option \<Rightarrow> 'a world_scheme \<Rightarrow> u64 option \<times> 'a world_scheme" where
  "file_bump E scope w =
     (case file_read E scope w of
        (None, w1) \<Rightarrow> (None, w1)
      | (Some cur, w1) \<Rightarrow>
          (case file_write E scope (cur + 1) w1 of
             (ok, w2) \<Rightarrow> (if ok then Some (cur + 1) else None, w2)))"

section \<open>Providers\<close>

record 'w rb_provider =
  rb_hardware :: bool
  rb_read :: "(bytes option \<Rightarrow> 'w \<Rightarrow> u64 option \<times> 'w) option"
  rb_bump :: "(bytes option \<Rightarrow> 'w \<Rightarrow> u64 option \<times> 'w) option"

definition g_file :: "env \<Rightarrow> 'a world_scheme rb_provider" where
  "g_file E = \<lparr>rb_hardware = False, rb_read = Some (file_read E), rb_bump = Some (file_bump E)\<rparr>"

text \<open>g\_provider is NULL until a provider is set; NULL stands for the file provider.\<close>

definition pqc_rbanchor_get_provider ::
    "env \<Rightarrow> 'a world_scheme rb_provider option \<Rightarrow> 'a world_scheme rb_provider" where
  "pqc_rbanchor_get_provider E g = (case g of None \<Rightarrow> g_file E | Some p \<Rightarrow> p)"

definition pqc_rbanchor_is_hardware_monotonic :: "env \<Rightarrow> 'a world_scheme rb_provider option \<Rightarrow> bool" where
  "pqc_rbanchor_is_hardware_monotonic E g = rb_hardware (pqc_rbanchor_get_provider E g)"

definition pqc_rbanchor_read ::
    "env \<Rightarrow> 'a world_scheme rb_provider option \<Rightarrow> bytes option \<Rightarrow> bool \<Rightarrow> 'a world_scheme \<Rightarrow>
     u64 option \<times> 'a world_scheme" where
  "pqc_rbanchor_read E g scope out w =
     (case rb_read (pqc_rbanchor_get_provider E g) of
        None \<Rightarrow> (None, w)
      | Some f \<Rightarrow> if \<not> out then (None, w) else f scope w)"

definition pqc_rbanchor_bump ::
    "env \<Rightarrow> 'a world_scheme rb_provider option \<Rightarrow> bytes option \<Rightarrow> 'a world_scheme \<Rightarrow>
     u64 option \<times> 'a world_scheme" where
  "pqc_rbanchor_bump E g scope w =
     (case rb_bump (pqc_rbanchor_get_provider E g) of
        None \<Rightarrow> (None, w)
      | Some f \<Rightarrow> f scope w)"

section \<open>Decimal round trip\<close>

lemma dec_value_snoc: "dec_value (ds @ [d]) = 10 * dec_value ds + (unat d - 48)"
  by (simp add: dec_value_def)

lemma digit_byte: "k < 10 \<Longrightarrow> is_digit (of_nat (48 + k)) \<and> unat (of_nat (48 + k) :: byte) = 48 + k"
proof -
  assume "k < 10"
  then have "unat (of_nat (48 + k) :: byte) = 48 + k"
    by (simp only: unsigned_of_nat) (simp add: take_bit_nat_eq_self)
  then show ?thesis using \<open>k < 10\<close> by (simp add: is_digit_def word_le_nat_alt)
qed

lemma dec_digits_props: "dec_digits n \<noteq> [] \<and> list_all is_digit (dec_digits n) \<and> dec_value (dec_digits n) = n"
proof (induction n rule: dec_digits.induct)
  case (1 n)
  have d: "is_digit (of_nat (48 + n mod 10)) \<and> unat (of_nat (48 + n mod 10) :: byte) = 48 + n mod 10"
    by (rule digit_byte) simp
  show ?case
  proof (cases "n < 10")
    case True
    then show ?thesis using digit_byte[OF True] by (simp add: dec_digits.simps[of n] dec_value_def)
  next
    case False
    have "dec_value (dec_digits n) = 10 * (n div 10) + n mod 10"
      using 1[OF False] d by (simp add: dec_digits.simps[of n] False dec_value_snoc)
    then show ?thesis using 1[OF False] d by (simp add: dec_digits.simps[of n] False)
  qed
qed

lemma digit_not: "is_digit b \<Longrightarrow> \<not> is_space b \<and> b \<noteq> 45 \<and> b \<noteq> 43"
  by (auto simp: is_digit_def is_space_def word_le_nat_alt)

lemma scan_dec: "scan_u64 (dec_digits (unat v) @ [10]) = Some v"
proof -
  let ?ds = "dec_digits (unat v)"
  obtain c r where c: "?ds = c # r" using dec_digits_props by (cases ?ds) auto
  have dig: "list_all is_digit ?ds" "is_digit c" using dec_digits_props c by (metis list.pred_inject(2))+
  have "dropWhile is_space (?ds @ [10]) = ?ds @ [10]" using c digit_not[OF dig(2)] by simp
  moreover have "takeWhile is_digit (?ds @ [10]) = ?ds"
    using dig(1) by (simp add: takeWhile_append2 list_all_iff is_digit_def)
  moreover have "dec_value ?ds = unat v" using dec_digits_props by blast
  moreover have "unat v < 2 ^ 64" using unsigned_less[of v] by simp
  ultimately show ?thesis
    using c digit_not[OF dig(2)] by (simp add: scan_u64_def Let_def)
qed

section \<open>What an anchor promises\<close>

text \<open>
  A successful bump moves the number on by one from what could be read before, and it is what is read
  from then on; reading changes nothing.
\<close>

locale rollback_anchor =
  fixes read :: "'w \<Rightarrow> u64 option \<times> 'w"
    and bump :: "'w \<Rightarrow> u64 option \<times> 'w"
    and good :: "'w \<Rightarrow> bool"
  assumes bump_next: "good w \<Longrightarrow> bump w = (Some v, w') \<Longrightarrow> \<exists>n. fst (read w) = Some n \<and> v = n + 1"
    and bump_read: "good w \<Longrightarrow> bump w = (Some v, w') \<Longrightarrow> good w' \<and> fst (read w') = Some v"
    and read_same: "good w \<Longrightarrow> read w = (r, w') \<Longrightarrow> good w' \<and> fst (read w') = r"
begin

fun bumps :: "nat \<Rightarrow> 'w \<Rightarrow> 'w option" where
  "bumps 0 w = Some w"
| "bumps (Suc k) w = (case bump w of (None, _) \<Rightarrow> None | (Some _, w') \<Rightarrow> bumps k w')"

lemma bumps_read:
  "good w \<Longrightarrow> fst (read w) = Some n \<Longrightarrow> bumps k w = Some w' \<Longrightarrow>
     good w' \<and> fst (read w') = Some (n + of_nat k)"
proof (induction k arbitrary: w n)
  case 0
  then show ?case by simp
next
  case (Suc k)
  then obtain v w1 where b: "bump w = (Some v, w1)" "bumps k w1 = Some w'"
    by (auto split: prod.splits option.splits)
  have "v = n + 1" using bump_next[OF Suc.prems(1) b(1)] Suc.prems(2) by auto
  then show ?case
    using bump_read[OF Suc.prems(1) b(1)] Suc.IH[OF _ _ b(2), of v] by (simp add: algebra_simps)
qed

end

lemma sys_ok_perfect: "io_perfect E \<Longrightarrow> sys_ok E w = (True, next_tick w)"
  by (simp add: sys_ok_def io_perfect_def)

lemma io_pwrite_perfect:
  assumes "io_perfect E"
  shows "fst (io_pwrite E path buf off w)"
  using assms
proof (induction E path buf off w rule: io_pwrite.induct)
  case (1 E path buf off w)
  then show ?case by (simp add: io_pwrite.simps[of E path buf] io_perfect_def io_pwrite.simps[of E path "[]"])
qed

lemma pwrite_new:
  assumes "io_perfect E" "io_pwrite E p buf 0 w = (ok, w')" "files w p = Some []"
  shows "files w' = (files w)(p \<mapsto> buf)"
proof -
  have ok using io_pwrite_perfect[OF assms(1), of p buf 0 w] assms(2) by simp
  then obtain n t where "n = length buf" "w' = (if n = 0 then w\<lparr>tick := t\<rparr>
      else w\<lparr>tick := t, files := (files w)(p \<mapsto> write_at 0 (take n buf) (file_of w p))\<rparr>)"
    using io_pwrite_result[OF assms(2)] by auto
  then show ?thesis
    using assms(3) by (cases "buf = []") (simp_all add: write_at_def file_of_def fun_upd_idem)
qed

lemma files_tick [simp]: "files (w\<lparr>tick := t\<rparr>) = files w"
  by simp

lemma file_read_perfect:
  assumes "io_perfect E"
  shows "file_read E scope w =
     (Some (case files w (anchor_path scope) of None \<Rightarrow> 0
        | Some text \<Rightarrow> (case scan_u64 text of None \<Rightarrow> 0 | Some v \<Rightarrow> v)),
      (case files w (anchor_path scope) of None \<Rightarrow> next_tick w | Some _ \<Rightarrow> next_tick (next_tick w)))"
  by (simp add: file_read_def fopen_read_def sys_ok_perfect[OF assms] split: option.splits)

lemma file_write_perfect:
  assumes "io_perfect E" "file_write E scope v w = (ok, w')" "anchor_tmp scope \<noteq> anchor_path scope"
  shows "ok \<and> files w' (anchor_path scope) = Some (dec_digits (unat v) @ [10])"
proof -
  let ?t = "anchor_tmp scope" and ?p = "anchor_path scope"
  define w3 where "w3 = next_tick (set_file ?t (Some []) (next_tick w))"
  obtain b w4 where p: "io_pwrite E ?t (dec_digits (unat v) @ [10]) 0 w3 = (b, w4)" by fastforce
  have f4: "files w4 ?t = Some (dec_digits (unat v) @ [10])"
    using pwrite_new[OF assms(1) p] by (simp add: w3_def)
  show ?thesis
    using assms(2,3) p f4
    by (auto simp: file_write_def Let_def sys_ok_perfect[OF assms(1)] w3_def[symmetric])
qed

lemma tmp_differs: "c_strlen scope \<le> 500 \<Longrightarrow> anchor_tmp (Some scope) \<noteq> anchor_path (Some scope)"
proof
  assume "c_strlen scope \<le> 500" "anchor_tmp (Some scope) = anchor_path (Some scope)"
  then have "length (anchor_tmp (Some scope)) = length (anchor_path (Some scope))" by simp
  then show False using \<open>c_strlen scope \<le> 500\<close> by (simp add: anchor_tmp_def anchor_path_def cstr_def)
qed

text \<open>The number in an anchor file; a file that is not there, or holds no number, counts as zero.\<close>

definition anchor_value :: "bytes option \<Rightarrow> u64" where
  "anchor_value f =
     (case f of None \<Rightarrow> 0 | Some text \<Rightarrow> (case scan_u64 text of None \<Rightarrow> 0 | Some v \<Rightarrow> v))"

text \<open>When opening and reading work, a read of the anchor is the number in its file.\<close>

lemma file_read_value:
  assumes "\<forall>t. io E t 0 \<noteq> None"
  shows "fst (file_read E scope w) = Some (anchor_value (files w (anchor_path scope)))"
  using assms by (simp add: file_read_def fopen_read_def sys_ok_def anchor_value_def split: option.splits)

text \<open>The file provider keeps the contract for names that fit its buffer, as long as calls work.\<close>

interpretation fa: rollback_anchor "file_read E (Some scope)" "file_bump E (Some scope)"
    "\<lambda>w :: 'a world_scheme. io_perfect E \<and> c_strlen scope \<le> 500" for E scope
proof
  fix w w' :: "'a world_scheme" and v
  assume g: "io_perfect E \<and> c_strlen scope \<le> 500" and b: "file_bump E (Some scope) w = (Some v, w')"
  obtain n w1 where r: "file_read E (Some scope) w = (Some n, w1)"
    using file_read_perfect g by blast
  obtain ok w2 where f: "file_write E (Some scope) (n + 1) w1 = (ok, w2)" by fastforce
  have v: "v = n + 1" "w' = w2" using b r f by (auto simp: file_bump_def split: if_splits)
  show "\<exists>n. fst (file_read E (Some scope) w) = Some n \<and> v = n + 1" using r v by simp
  have "files w' (anchor_path (Some scope)) = Some (dec_digits (unat v) @ [10])"
    using file_write_perfect[OF _ f tmp_differs] g v by simp
  then show "(io_perfect E \<and> c_strlen scope \<le> 500) \<and> fst (file_read E (Some scope) w') = Some v"
    using g by (simp add: file_read_perfect scan_dec)
next
  fix w w' :: "'a world_scheme" and r
  assume g: "io_perfect E \<and> c_strlen scope \<le> 500" and b: "file_read E (Some scope) w = (r, w')"
  have "files w' = files w" using b g by (auto simp: file_read_perfect split: option.splits)
  then show "(io_perfect E \<and> c_strlen scope \<le> 500) \<and> fst (file_read E (Some scope) w') = r"
    using g b by (auto simp: file_read_perfect)
qed

text \<open>
  the file anchor counts: when system calls work and the name fits its buffer, after any number
  \<open>k\<close> of successful bumps a read returns the first value plus \<open>k\<close> (as a 64-bit number), through
  the decimal text in the file.
\<close>

theorem file_anchor_counts:
  assumes "io_perfect E" "c_strlen scope \<le> 500" "fst (file_read E (Some scope) w) = Some n"
    and "fa.bumps E scope k w = Some w'"
  shows "fst (file_read E (Some scope) w') = Some (n + of_nat k)"
  using fa.bumps_read[of E scope w n k w'] assms by simp

text \<open>
  the file provider never reports an unreadable anchor: when the anchor file cannot be opened, or
  its text is not a number, it reads as zero, so spoiling the file resets the anchor.
\<close>

theorem spoiled_anchor_reads_zero:
  assumes "case files w (anchor_path scope) of None \<Rightarrow> True | Some text \<Rightarrow> scan_u64 text = None"
  shows "fst (file_read E scope w) = Some 0"
  using assms by (auto simp: file_read_def fopen_read_def sys_ok_def split: option.splits if_splits prod.splits)

text \<open>
  the anchor's name is cut to 511 bytes without a check. For a key store whose path is exactly
  511 bytes long the anchor is the key store itself, so advancing the anchor replaces the store by
  a number.
\<close>

theorem long_path_anchor_is_store:
  assumes "c_strlen path = 511" "io_perfect E" "c_string path = path"
    and "file_bump E (Some path) w = (Some v, w')"
  shows "files w' path = Some (dec_digits (unat v) @ [10])"
proof -
  have l: "length path = 511" using length_c_string[of path] assms(1,3) by simp
  have p: "anchor_path (Some path) = path" using l assms(3) by (simp add: anchor_path_def)
  have t: "anchor_tmp (Some path) \<noteq> anchor_path (Some path)"
  proof
    assume "anchor_tmp (Some path) = anchor_path (Some path)"
    then have "length (anchor_tmp (Some path)) = length path" using p by simp
    then show False using l p by (simp add: anchor_tmp_def cstr_def)
  qed
  obtain n w1 where r: "file_read E (Some path) w = (Some n, w1)" using file_read_perfect[OF assms(2)] by blast
  obtain ok w2 where f: "file_write E (Some path) (n + 1) w1 = (ok, w2)" by fastforce
  have "v = n + 1" "w' = w2" using assms(4) r f by (auto simp: file_bump_def split: if_splits)
  then show ?thesis using file_write_perfect[OF assms(2) f t] p by simp
qed

end
