(* ===== verification/Keystore.thy ===== *)
theory Keystore
  imports Persist Rbanchor
begin

text \<open>
  src/src/store/keystore.c: the token on disk. A save takes a fresh salt, wraps every slot, appends a
  MAC over the whole file and replaces the old file by rename; a load checks the MAC, then the epoch
  against the rollback anchor, then loads slot by slot. \<open>g\<close> is the installed anchor provider and
  \<open>crash\<close> the test hook that ends the process after a given number of writes (negative: never); a
  run the hook ends has no status.
\<close>

definition AUDIT_OP_KEK_ROTATE :: u32 where "AUDIT_OP_KEK_ROTATE = 16"

definition KS_MAGIC :: bytes where "KS_MAGIC = cstr ''PQCHSMKS''"
definition HSM_KEYSTORE_VERSION :: u32 where "HSM_KEYSTORE_VERSION = 2"
definition KS_SALT_LEN :: nat where "KS_SALT_LEN = 16"
definition KS_HDR_LEN :: nat where "KS_HDR_LEN = 40"
definition KS_TAG_LEN :: nat where "KS_TAG_LEN = 32"
definition KS_OFF_EPOCH :: nat where "KS_OFF_EPOCH = 32"

lemmas ks_consts = KS_SALT_LEN_def KS_HDR_LEN_def KS_TAG_LEN_def KS_OFF_EPOCH_def

section \<open>Saving\<close>

text \<open>One write of the file, at the end of what is there; the count is g\_write\_count.\<close>

definition ks_write ::
    "env \<Rightarrow> int \<Rightarrow> bytes \<Rightarrow> bytes \<Rightarrow> nat \<Rightarrow> nat \<Rightarrow> 'a world_scheme \<Rightarrow> bool option \<times> 'a world_scheme" where
  "ks_write E crash fd buf off count w =
     (case io_pwrite E fd buf off w of
        (ok, w1) \<Rightarrow>
          (if \<not> ok then Some False
           else if 0 \<le> crash \<and> crash \<le> int (Suc count) then None else Some True, w1))"

fun ks_write_all ::
    "env \<Rightarrow> int \<Rightarrow> bytes \<Rightarrow> bytes list \<Rightarrow> nat \<Rightarrow> nat \<Rightarrow> 'a world_scheme \<Rightarrow> bool option \<times> 'a world_scheme" where
  "ks_write_all E crash fd [] off count w = (Some True, w)"
| "ks_write_all E crash fd (b # bs) off count w =
     (case ks_write E crash fd b off count w of
        (Some True, w1) \<Rightarrow> ks_write_all E crash fd bs (off + length b) (Suc count) w1
      | (r, w1) \<Rightarrow> (r, w1))"

text \<open>The records of a body, cut by their own length fields.\<close>

fun split_records :: "nat \<Rightarrow> bytes \<Rightarrow> bytes list" where
  "split_records 0 bs = []"
| "split_records (Suc n) bs =
     (let rlen = 4 + unat (get_u32 bs) in take rlen bs # split_records n (drop rlen bs))"

fun serialize_all ::
    "env \<Rightarrow> bytes \<Rightarrow> nat list \<Rightarrow> hsm_token \<Rightarrow> bytes hsm_res \<times> hsm_token" where
  "serialize_all E kek [] tok = (Inr [], tok)"
| "serialize_all E kek (i # is) tok =
     (case hsm_slot_serialize E tok (of_nat i) (Some kek) PQC_KEK_LEN (Some hsm_slot_blob_max) True of
        (Inl e, tok1) \<Rightarrow> (Inl e, tok1)
      | (Inr blob, tok1) \<Rightarrow>
          (case serialize_all E kek is tok1 of
             (Inl e, tok2) \<Rightarrow> (Inl e, tok2)
           | (Inr rest, tok2) \<Rightarrow> (Inr (put_u32 (of_nat (length blob)) @ blob @ rest), tok2)))"

definition derive_file_key :: "env \<Rightarrow> bytes \<Rightarrow> bytes option" where
  "derive_file_key E salt = pqc_kdr_derive E ''pqc-hsm/keystore-filemac'' salt 32"

definition ks_header :: "nat \<Rightarrow> bytes \<Rightarrow> u64 \<Rightarrow> bytes" where
  "ks_header n salt epoch =
     KS_MAGIC @ put_u32 HSM_KEYSTORE_VERSION @ put_u32 (of_nat n) @ salt @ put_u64 epoch"

text \<open>Everything after the file has been put together: tmp, fsync, rename, fsync of the directory.\<close>

definition ks_store ::
    "env \<Rightarrow> int \<Rightarrow> bytes \<Rightarrow> nat \<Rightarrow> bytes \<Rightarrow> bytes \<Rightarrow> 'a world_scheme \<Rightarrow> hsm_status option \<times> 'a world_scheme" where
  "ks_store E crash path n body tag w =
     (let tmp = tmp_of path; fail = (\<lambda>st w. (Some st, set_file tmp None (next_tick w))) in
      if \<not> malloc_ok E (tick w) (c_strlen path + 8) then (Some HSM_ERR_NOMEM, next_tick w)
      else case sys_ok E (next_tick w) of (opened, w1) \<Rightarrow>
        if \<not> opened then fail HSM_ERR_BAD_ARG w1
        else case ks_write_all E crash tmp
                    (take KS_HDR_LEN body # split_records n (drop KS_HDR_LEN body) @ [tag]) 0 0
                    (set_file tmp (Some []) w1) of
          (None, w2) \<Rightarrow> (None, w2)
        | (Some False, w2) \<Rightarrow> fail HSM_ERR_CRYPTO w2
        | (Some True, w2) \<Rightarrow>
            (case sys_ok E w2 of (synced, w3) \<Rightarrow>
               if \<not> synced then fail HSM_ERR_CRYPTO w3
               else case sys_ok E w3 of (renamed, w4) \<Rightarrow>
                 if \<not> renamed then fail HSM_ERR_CRYPTO w4
                 else (Some HSM_OK, fsync_dir (set_file tmp None (set_file path (files w4 tmp) w4)))))"

definition ks_audit :: "env \<Rightarrow> hsm_status \<Rightarrow> string \<Rightarrow> hsm_token \<Rightarrow> hsm_status option \<times> hsm_token" where
  "ks_audit E st detail tok =
     (Some st, slot_audit E AUDIT_OP_KEK_ROTATE HSM_ROLE_PUBLIC 0 st (Some (cstr detail)) tok)"

definition keystore_save_impl ::
    "env \<Rightarrow> hsm_token rb_provider option \<Rightarrow> int \<Rightarrow> hsm_token option \<Rightarrow> bytes option \<Rightarrow> string \<Rightarrow>
     hsm_status option \<times> hsm_token option" where
  "keystore_save_impl E g crash tokp pathp detail =
     (case (tokp, pathp) of
        (Some tok, Some path) \<Rightarrow>
          (let n = length (slots tok) in
           case pqc_random_bytes E (Some (replicate KS_SALT_LEN 0)) tok of (ok, salt, t1) \<Rightarrow>
             map_prod id Some
             (if \<not> ok then (Some HSM_ERR_CRYPTO, t1)
              else case (pqc_kek_derive E salt, derive_file_key E salt) of
                (Some kek, Some fkey) \<Rightarrow>
                  (let a1 = malloc_ok E (tick t1) (KS_HDR_LEN + n * (4 + hsm_slot_blob_max)) in
                   case pqc_secure_alloc E hsm_slot_blob_max (next_tick t1) of (a2, t2) \<Rightarrow>
                     if \<not> a1 \<or> a2 = None then ks_audit E HSM_ERR_NOMEM detail t2
                     else case pqc_rbanchor_read E g (Some path) True t2 of
                       (None, t3) \<Rightarrow> ks_audit E HSM_ERR_CRYPTO detail t3
                     | (Some seen, t3) \<Rightarrow>
                         (case serialize_all E kek [0..<n] t3 of
                            (Inl e, t4) \<Rightarrow> ks_audit E e detail t4
                          | (Inr recs, t4) \<Rightarrow>
                              (let body = ks_header n salt (seen + 1) @ recs in
                               case kmac E fkey body ''pqc-hsm/keystore'' KS_TAG_LEN of
                                 None \<Rightarrow> ks_audit E HSM_ERR_CRYPTO detail t4
                               | Some tag \<Rightarrow>
                                   (case ks_store E crash path n body tag t4 of
                                      (None, t5) \<Rightarrow> (None, t5)
                                    | (Some st, t5) \<Rightarrow>
                                        if st \<noteq> HSM_OK then ks_audit E st detail t5
                                        else (case pqc_rbanchor_bump E g (Some path) t5 of
                                          (got, t6) \<Rightarrow>
                                            ks_audit E HSM_OK
                                              (if got \<noteq> Some (seen + 1)
                                               then ''keystore saved but rollback anchor did not advance''
                                               else detail) t6)))))
              | _ \<Rightarrow> (Some HSM_ERR_CRYPTO, t1)))
      | _ \<Rightarrow> (Some HSM_ERR_BAD_ARG, tokp))"

definition hsm_keystore_save ::
    "env \<Rightarrow> hsm_token rb_provider option \<Rightarrow> int \<Rightarrow> hsm_token option \<Rightarrow> bytes option \<Rightarrow>
     hsm_status option \<times> hsm_token option" where
  "hsm_keystore_save E g crash tok path = keystore_save_impl E g crash tok path ''keystore-save''"

text \<open>The first slot whose metadata do not verify stops the rotation.\<close>

fun first_bad_meta :: "env \<Rightarrow> hsm_token \<Rightarrow> nat list \<Rightarrow> hsm_status" where
  "first_bad_meta E tok [] = HSM_OK"
| "first_bad_meta E tok (i # is) =
     (case hsm_slot_get_meta E tok (of_nat i) True of
        Inl e \<Rightarrow> e
      | Inr _ \<Rightarrow> first_bad_meta E tok is)"

definition hsm_keystore_rotate_kek ::
    "env \<Rightarrow> hsm_token rb_provider option \<Rightarrow> int \<Rightarrow> hsm_token option \<Rightarrow> bytes option \<Rightarrow>
     hsm_status option \<times> hsm_token option" where
  "hsm_keystore_rotate_kek E g crash tokp path =
     (let bad = (case tokp of None \<Rightarrow> HSM_OK | Some tok \<Rightarrow> first_bad_meta E tok [0..<length (slots tok)]) in
      if bad \<noteq> HSM_OK then (Some bad, tokp) else keystore_save_impl E g crash tokp path ''kek-rotate'')"

section \<open>Loading\<close>

text \<open>
  The loop over the slots. \<open>st\<close> is the variable of that name: INTEGRITY at the start, and after a
  slot that loaded the HSM\_OK its deserialization returned, which the checks on the next record do
  not set back.
\<close>

fun load_slots ::
    "env \<Rightarrow> bytes \<Rightarrow> bytes \<Rightarrow> nat list \<Rightarrow> nat \<Rightarrow> hsm_status \<Rightarrow> hsm_token \<Rightarrow> hsm_status \<times> hsm_token" where
  "load_slots E kek body [] off st tok =
     (if off \<noteq> length body then HSM_ERR_INTEGRITY else HSM_OK, tok)"
| "load_slots E kek body (i # is) off st tok =
     (if off + 4 > length body then (st, tok)
      else let blen = unat (get_u32 (drop off body)) in
        if blen > length body - (off + 4) then (st, tok)
        else (case hsm_slot_deserialize E tok (of_nat i) (Some kek) PQC_KEK_LEN
                     (Some (slice (off + 4) blen body)) blen of
                (st1, tok1) \<Rightarrow>
                  if st1 \<noteq> HSM_OK then (st1, tok1)
                  else load_slots E kek body is (off + 4 + blen) HSM_OK tok1))"

text \<open>The checks on the file, once it is in memory.\<close>

definition load_checked ::
    "env \<Rightarrow> hsm_token rb_provider option \<Rightarrow> bytes \<Rightarrow> bytes \<Rightarrow> hsm_token \<Rightarrow> hsm_status \<times> hsm_token" where
  "load_checked E g path buf tok =
     (if take 8 buf \<noteq> KS_MAGIC \<or> get_u32 (drop 8 buf) \<noteq> HSM_KEYSTORE_VERSION
      then (HSM_ERR_INTEGRITY, tok)
      else let n_slots = unat (get_u32 (drop 12 buf)); salt = slice 16 KS_SALT_LEN buf;
               body = take (length buf - KS_TAG_LEN) buf in
        if n_slots \<noteq> length (slots tok) then (HSM_ERR_INTEGRITY, tok)
        else case (derive_file_key E salt, pqc_kek_derive E salt) of
          (Some fkey, Some kek) \<Rightarrow>
            (case kmac E fkey body ''pqc-hsm/keystore'' KS_TAG_LEN of
               None \<Rightarrow> (HSM_ERR_CRYPTO, tok)
             | Some want \<Rightarrow>
                 if \<not> pqc_ct_equal (Some want) (Some (drop (length buf - KS_TAG_LEN) buf)) KS_TAG_LEN
                 then (HSM_ERR_INTEGRITY, tok)
                 else (case pqc_rbanchor_read E g (Some path) True tok of
                     (None, tok1) \<Rightarrow> (HSM_ERR_INTEGRITY, tok1)
                   | (Some seen, tok1) \<Rightarrow>
                       if get_u64 (drop KS_OFF_EPOCH buf) < seen then (HSM_ERR_INTEGRITY, tok1)
                       else load_slots E kek body [0..<n_slots] KS_HDR_LEN HSM_ERR_INTEGRITY tok1))
        | _ \<Rightarrow> (HSM_ERR_CRYPTO, tok))"

definition hsm_keystore_load ::
    "env \<Rightarrow> hsm_token rb_provider option \<Rightarrow> hsm_token option \<Rightarrow> bytes option \<Rightarrow>
     hsm_status \<times> hsm_token option" where
  "hsm_keystore_load E g tokp pathp =
     (case (tokp, pathp) of
        (Some tok, Some path) \<Rightarrow>
          (case fopen_read E path tok of
             (None, t1) \<Rightarrow> (HSM_ERR_BAD_ARG, Some t1)
           | (Some buf, t1) \<Rightarrow>
               (case sys_ok E t1 of (sought, t2) \<Rightarrow>
                 if \<not> sought then (HSM_ERR_BAD_ARG, Some t2)
                 else if length buf < KS_HDR_LEN + KS_TAG_LEN then (HSM_ERR_INTEGRITY, Some t2)
                 else if \<not> malloc_ok E (tick t2) (length buf) then (HSM_ERR_NOMEM, Some (next_tick t2))
                 else (case sys_ok E (next_tick t2) of (got, t3) \<Rightarrow>
                   if \<not> got then (HSM_ERR_INTEGRITY, Some t3)
                   else map_prod id Some (load_checked E g path buf t3))))
      | _ \<Rightarrow> (HSM_ERR_BAD_ARG, tokp))"

section \<open>Atomic saves\<close>

lemma ks_write_files:
  assumes "ks_write E crash fd buf off count w = (r, w')"
  shows "\<forall>q. q \<noteq> fd \<longrightarrow> files w' q = files w q"
proof -
  obtain ok where "io_pwrite E fd buf off w = (ok, w')"
    using assms by (auto simp: ks_write_def split: prod.splits)
  then show ?thesis using io_pwrite_result by fastforce
qed

lemma ks_write_ok:
  assumes "ks_write E crash fd buf off count w = (Some True, w')" "files w fd = Some f" "off = length f"
  shows "files w' fd = Some (f @ buf)"
proof -
  have p: "io_pwrite E fd buf off w = (True, w')"
    using assms(1) by (auto simp: ks_write_def split: prod.splits if_splits)
  obtain n t where "n = length buf" "w' = (if n = 0 then w\<lparr>tick := t\<rparr>
      else w\<lparr>tick := t, files := (files w)(fd \<mapsto> write_at off (take n buf) (file_of w fd))\<rparr>)"
    using io_pwrite_result[OF p] by auto
  then show ?thesis
    using assms(2,3) by (cases "buf = []") (simp_all add: write_at_def file_of_def)
qed

lemma ks_write_all_files:
  "ks_write_all E crash fd bs off count w = (r, w') \<Longrightarrow> \<forall>q. q \<noteq> fd \<longrightarrow> files w' q = files w q"
proof (induction bs arbitrary: off count w)
  case (Cons b bs)
  obtain r1 w1 where b: "ks_write E crash fd b off count w = (r1, w1)" by fastforce
  then show ?case
    using Cons ks_write_files[OF b] by (auto split: option.splits bool.splits)
qed simp

lemma ks_write_all_ok:
  "ks_write_all E crash fd bs off count w = (Some True, w') \<Longrightarrow> files w fd = Some f \<Longrightarrow> off = length f \<Longrightarrow>
     files w' fd = Some (f @ concat bs)"
proof (induction bs arbitrary: off count w f)
  case (Cons b bs)
  obtain r1 w1 where b: "ks_write E crash fd b off count w = (r1, w1)" by fastforce
  then have r: "r1 = Some True" "ks_write_all E crash fd bs (off + length b) (Suc count) w1 = (Some True, w')"
    using Cons.prems(1) by (auto split: option.splits bool.splits)
  have "files w1 fd = Some (f @ b)" using ks_write_ok[OF _ Cons.prems(2,3)] b r(1) by simp
  then show ?case using Cons.IH[OF r(2)] Cons.prems(3) by simp
qed simp

text \<open>The records a save cuts the body into are the records it put there.\<close>

lemma wrap_nonce_length:
  "pqc_wrap_with_nonce E kek kl aad al pt pl nonce (Some cap) ol = Some blob \<Longrightarrow> length blob \<le> cap"
  by (auto simp: pqc_wrap_with_nonce_def Let_def gcm_seal_def pqc_wrap_blob_len_def PWRP_OVERHEAD_def
      mem_def split: if_splits option.splits)

lemma serialize_length:
  assumes "hsm_slot_serialize E tok sid kek kl (Some cap) bl = (Inr blob, tok')" "SLOT_META_WIRE_LEN \<le> cap"
    "length (m_label (sl_meta (slots tok ! unat sid))) = SLOT_LABEL_MAX"
  shows "length blob \<le> cap"
  using assms
  by (auto simp: hsm_slot_serialize_def slot_serialize_locked_def slot_meta_serialize_def pqc_wrap_def
      Let_def slot_at_Some length_slot_meta_wire
      split: if_splits option.splits prod.splits dest!: wrap_nonce_length)

lemma only_core_wrap: "pqc_wrap E kek kl aad al pt pl cap ol w = (r, w') \<Longrightarrow> only_core w w'"
  by (auto simp: pqc_wrap_def split: prod.splits dest: only_core_calls(7))

lemma only_core_serialize: "slot_serialize_locked E s kek kl cap bl w = (r, w') \<Longrightarrow> only_core w w'"
  by (auto simp: slot_serialize_locked_def Let_def split: if_splits option.splits prod.splits
      dest!: only_core_calls(8) only_core_wrap intro: only_core_trans)

lemma serialize_core: "hsm_slot_serialize E tok sid kek kl cap bl = (r, tok') \<Longrightarrow> only_core tok tok'"
  by (auto simp: hsm_slot_serialize_def split: option.splits if_splits dest: only_core_serialize)

definition labels_ok :: "hsm_token \<Rightarrow> bool" where
  "labels_ok tok \<longleftrightarrow> (\<forall>s \<in> set (slots tok). length (m_label (sl_meta s)) = SLOT_LABEL_MAX)"

lemma serialize_label:
  assumes "hsm_slot_serialize E tok sid kek kl cap bl = (Inr blob, tok')" "labels_ok tok"
  shows "length (m_label (sl_meta (slots tok ! unat sid))) = SLOT_LABEL_MAX"
  using assms by (auto simp: hsm_slot_serialize_def slot_at_Some labels_ok_def split: option.splits)

lemma blob_max: "SLOT_META_WIRE_LEN \<le> hsm_slot_blob_max" "hsm_slot_blob_max < 2 ^ 32"
  by (simp_all add: hsm_slot_blob_max_def SLOT_META_WIRE_LEN_def pqc_wrap_blob_len_def payload_consts wrap_consts)

lemma unat_u32_less: "n < 2 ^ 32 \<Longrightarrow> unat (of_nat n :: u32) = n"
  by (simp add: unsigned_of_nat take_bit_nat_eq_self)

lemma serialize_all_split:
  assumes "serialize_all E kek is tok = (Inr recs, tok')" "labels_ok tok"
  shows "concat (split_records (length is) recs) = recs \<and> only_core tok tok'"
  using assms
proof (induction "is" arbitrary: tok recs)
  case (Cons i "is")
  obtain blob tok1 where b: "hsm_slot_serialize E tok (of_nat i) (Some kek) PQC_KEK_LEN
      (Some hsm_slot_blob_max) True = (Inr blob, tok1)"
    using Cons.prems(1) by (auto split: prod.splits sum.splits)
  obtain rest where r: "serialize_all E kek is tok1 = (Inr rest, tok')"
    "recs = put_u32 (of_nat (length blob)) @ blob @ rest"
    using Cons.prems(1) b by (auto split: prod.splits sum.splits)
  have core: "only_core tok tok1" using serialize_core[OF b] .
  then have "labels_ok tok1" using Cons.prems(2) slots_core[OF core] by (simp add: labels_ok_def)
  then have ih: "concat (split_records (length is) rest) = rest \<and> only_core tok1 tok'"
    using Cons.IH[OF r(1)] by simp
  have "length blob < 2 ^ 32"
    using serialize_length[OF b blob_max(1) serialize_label[OF b Cons.prems(2)]] blob_max(2) by simp
  then have "unat (get_u32 recs) = length blob" by (simp add: r(2) le_get_le_bytes unat_u32_less)
  then show ?case using ih only_core_trans[OF core] by (simp add: r(2) Let_def)
qed simp

lemma length_ks_header: "length salt = KS_SALT_LEN \<Longrightarrow> length (ks_header n salt epoch) = KS_HDR_LEN"
  by (simp add: ks_header_def ks_consts KS_MAGIC_def cstr_def)

lemma tmp_not_path: "tmp_of path \<noteq> path"
proof
  assume e: "tmp_of path = path"
  have "0 \<notin> set (tmp_of path)" by (auto simp: tmp_of_def cstr_def c_string_no_nul)
  then have "c_string path = path" using e by (simp add: c_string_def takeWhile_eq_all_conv) metis
  moreover have "length (tmp_of path) = length (c_string path) + 4"
    by (simp add: tmp_of_def cstr_def del: length_c_string)
  ultimately show False using e by simp
qed

lemma ks_store_files:
  assumes "serialize_all E kek [0..<n] tok = (Inr recs, tok1)" "labels_ok tok" "length salt = KS_SALT_LEN"
    and "ks_store E crash path n (ks_header n salt epoch @ recs) tag tok1 = (r, tok2)"
  shows "(files tok2 path = files tok path \<or> files tok2 path = Some (ks_header n salt epoch @ recs @ tag)) \<and>
     (r = Some HSM_OK \<longrightarrow> files tok2 path = Some (ks_header n salt epoch @ recs @ tag)) \<and>
     (\<forall>q. q \<noteq> path \<longrightarrow> q \<noteq> tmp_of path \<longrightarrow> files tok2 q = files tok q)"
proof -
  let ?tmp = "tmp_of path" and ?h = "ks_header n salt epoch"
  let ?chunks = "take KS_HDR_LEN (?h @ recs) # split_records n (drop KS_HDR_LEN (?h @ recs)) @ [tag]"
  define w1 where "w1 = next_tick (next_tick tok1)"
  have cc: "concat ?chunks = ?h @ recs @ tag" "only_core tok tok1"
    using serialize_all_split[OF assms(1,2)] length_ks_header[OF assms(3)] by simp_all
  have f0: "files tok1 = files tok" using only_core_files[OF cc(2)] .
  then have f1: "files tok1 = files tok" "files w1 = files tok" by (simp_all add: w1_def)
  obtain rr w2 where wr: "ks_write_all E crash ?tmp ?chunks 0 0 (set_file ?tmp (Some []) w1) = (rr, w2)"
    by fastforce
  have f2: "\<forall>q. q \<noteq> ?tmp \<longrightarrow> files w2 q = files tok q"
    using ks_write_all_files[OF wr] f1 by (simp add: w1_def)
  have f2t: "files w2 ?tmp = Some (?h @ recs @ tag)" if "rr = Some True"
    using ks_write_all_ok[of E crash ?tmp ?chunks 0 0 "set_file ?tmp (Some []) w1" w2 "[]"] wr that cc(1)
    by simp
  show ?thesis
    using assms(4) f1 f2 f2t tmp_not_path[of path] wr
    by (auto simp: ks_store_def Let_def sys_ok_def w1_def[symmetric] fsync_dir_def
        split: if_splits option.splits bool.splits)
qed

section \<open>What a load accepts\<close>

text \<open>
  A file whose MAC, under the key derived from its own salt, covers everything before it.\<close>

definition ks_authentic :: "env \<Rightarrow> nat \<Rightarrow> bytes \<Rightarrow> bool" where
  "ks_authentic E n buf \<longleftrightarrow>
     KS_HDR_LEN + KS_TAG_LEN \<le> length buf \<and> take 8 buf = KS_MAGIC \<and>
     get_u32 (drop 8 buf) = HSM_KEYSTORE_VERSION \<and> unat (get_u32 (drop 12 buf)) = n \<and>
     (\<exists>fkey. derive_file_key E (slice 16 KS_SALT_LEN buf) = Some fkey \<and>
        kmac E fkey (take (length buf - KS_TAG_LEN) buf) ''pqc-hsm/keystore'' KS_TAG_LEN =
          Some (drop (length buf - KS_TAG_LEN) buf))"

definition ks_epoch :: "bytes \<Rightarrow> u64" where
  "ks_epoch buf = get_u64 (drop KS_OFF_EPOCH buf)"

text \<open>Reading the anchor does not touch the slots.\<close>

definition anchor_frame :: "env \<Rightarrow> hsm_token rb_provider option \<Rightarrow> bool" where
  "anchor_frame E g \<longleftrightarrow> (\<forall>scope w. slots (snd (pqc_rbanchor_read E g scope True w)) = slots w)"

lemma ct_equal_tag:
  assumes "pqc_kmac256 E a b c d e KS_TAG_LEN = Some want" "pqc_ct_equal (Some want) (Some x) KS_TAG_LEN"
    "length x = KS_TAG_LEN"
  shows "want = x"
  using assms pqc_kmac256_length[OF assms(1)] by (simp add: pqc_ct_equal_iff)

lemma load_checked_cases:
  assumes "load_checked E g path buf tok = (st, tok')" "KS_HDR_LEN + KS_TAG_LEN \<le> length buf" "anchor_frame E g"
  shows "st \<noteq> HSM_OK \<and> slots tok' = slots tok \<or>
     ks_authentic E (length (slots tok)) buf \<and>
     (\<exists>seen tok1 kek. pqc_rbanchor_read E g (Some path) True tok = (Some seen, tok1) \<and>
        seen \<le> ks_epoch buf \<and>
        load_slots E kek (take (length buf - KS_TAG_LEN) buf) [0..<length (slots tok)] KS_HDR_LEN
          HSM_ERR_INTEGRITY tok1 = (st, tok'))"
proof -
  have fr: "slots tok1 = slots tok" if "pqc_rbanchor_read E g (Some path) True tok = (r, tok1)" for r tok1
    using assms(3) that unfolding anchor_frame_def by (metis snd_conv)
  have l: "length (drop (length buf - KS_TAG_LEN) buf) = KS_TAG_LEN"
    using assms(2) by simp
  note eq = ct_equal_tag[OF _ _ l]
  show ?thesis
    using assms(1,2)
    by (auto simp: load_checked_def Let_def ks_authentic_def ks_epoch_def not_less
        split: if_splits option.splits prod.splits dest: fr eq)
qed

text \<open>Four calls are made before the checks: opening the file, finding its size, a buffer, reading it.\<close>

lemma load_read:
  assumes "hsm_keystore_load E g (Some tok) (Some path) = (st, Some tok')" "st = HSM_OK \<or> slots tok' \<noteq> slots tok"
  shows "\<exists>buf. files tok path = Some buf \<and> KS_HDR_LEN + KS_TAG_LEN \<le> length buf \<and>
     load_checked E g path buf (tok\<lparr>tick := tick tok + 4\<rparr>) = (st, tok')"
proof -
  have four: "next_tick (next_tick (next_tick (next_tick tok))) = tok\<lparr>tick := tick tok + 4\<rparr>"
    by (simp add: next_tick_def)
  show ?thesis
    using assms
    by (auto simp: hsm_keystore_load_def fopen_read_def sys_ok_def map_prod_def not_less four
        split: option.splits if_splits prod.splits)
      (simp_all add: next_tick_def)
qed

lemma load_authentic:
  assumes "hsm_keystore_load E g (Some tok) (Some path) = (st, Some tok')" "anchor_frame E g"
    and "st = HSM_OK \<or> slots tok' \<noteq> slots tok"
  shows "\<exists>buf seen t'. files tok path = Some buf \<and> ks_authentic E (length (slots tok)) buf \<and>
     pqc_rbanchor_read E g (Some path) True (tok\<lparr>tick := tick tok + 4\<rparr>) = (Some seen, t') \<and>
     seen \<le> ks_epoch buf"
proof -
  obtain buf where b: "files tok path = Some buf" "KS_HDR_LEN + KS_TAG_LEN \<le> length buf"
    "load_checked E g path buf (tok\<lparr>tick := tick tok + 4\<rparr>) = (st, tok')"
    using load_read[OF assms(1,3)] by blast
  show ?thesis using load_checked_cases[OF b(3,2) assms(2)] b(1) assms(3) by auto
qed

lemma load_not_behind:
  assumes "hsm_keystore_load E None (Some tok) (Some path) = (st, Some tok')" "anchor_frame E None"
    and "st = HSM_OK \<or> slots tok' \<noteq> slots tok" "\<forall>t. io E t 0 \<noteq> None"
  shows "\<exists>buf. files tok path = Some buf \<and> anchor_value (files tok (anchor_path (Some path))) \<le> ks_epoch buf"
proof -
  obtain buf seen t' where r: "files tok path = Some buf" "seen \<le> ks_epoch buf"
    "file_read E (Some path) (tok\<lparr>tick := tick tok + 4\<rparr>) = (Some seen, t')"
    using load_authentic[OF assms(1-3)]
    by (auto simp: pqc_rbanchor_read_def pqc_rbanchor_get_provider_def g_file_def)
  have "seen = anchor_value (files tok (anchor_path (Some path)))"
    using file_read_value[OF assms(4), of "Some path" "tok\<lparr>tick := tick tok + 4\<rparr>"] r(3) by simp
  then show ?thesis using r(1,2) by auto
qed

text \<open>
  C6: loading is fail-closed. Whatever calls fail, a load that reports success, or that changes any
  slot at all, has read a file of this format with this number of slots whose MAC is right for the
  salt in its header and whose epoch is not behind what the installed rollback anchor answered when the load
  asked it, after the four calls that read the file (an anchor that does not write to slots). For the built-in anchor, as long as opening and reading
  work, that is the number in the anchor file next to the store.
\<close>

theorem load_only_authentic:
  assumes "hsm_keystore_load E g (Some tok) (Some path) = (st, Some tok')" "anchor_frame E g"
    and "st = HSM_OK \<or> slots tok' \<noteq> slots tok"
  shows "\<exists>buf seen t'. files tok path = Some buf \<and> ks_authentic E (length (slots tok)) buf \<and>
     pqc_rbanchor_read E g (Some path) True (tok\<lparr>tick := tick tok + 4\<rparr>) = (Some seen, t') \<and>
     seen \<le> ks_epoch buf \<and>
     (g = None \<longrightarrow> (\<forall>t. io E t 0 \<noteq> None) \<longrightarrow>
        seen = anchor_value (files tok (anchor_path (Some path))))"
proof -
  obtain buf seen t' where r: "files tok path = Some buf" "ks_authentic E (length (slots tok)) buf"
    "pqc_rbanchor_read E g (Some path) True (tok\<lparr>tick := tick tok + 4\<rparr>) = (Some seen, t')" "seen \<le> ks_epoch buf"
    using load_authentic[OF assms] by blast
  have "seen = anchor_value (files tok (anchor_path (Some path)))" if "g = None" "\<forall>t. io E t 0 \<noteq> None"
    using file_read_value[OF that(2), of "Some path" "tok\<lparr>tick := tick tok + 4\<rparr>"] r(3) that(1)
    by (simp add: pqc_rbanchor_read_def pqc_rbanchor_get_provider_def g_file_def)
  then show ?thesis using r by blast
qed

lemma anchor_frame_file: "anchor_frame E None"
  by (auto simp: anchor_frame_def pqc_rbanchor_read_def pqc_rbanchor_get_provider_def g_file_def
      file_read_def fopen_read_def sys_ok_def next_tick_def split: option.splits prod.splits if_splits)

text \<open>
  a replayed key store is refused: when system calls work, a file whose epoch is behind what the
  anchor file says, with however good a MAC, is not loaded and changes no slot.
\<close>

theorem replay_refused:
  assumes "io_perfect E" "files tok path = Some buf" "fst (file_read E (Some path) tok) = Some seen"
    and "ks_epoch buf < seen"
    and "hsm_keystore_load E None (Some tok) (Some path) = (st, Some tok')"
  shows "st \<noteq> HSM_OK \<and> slots tok' = slots tok"
proof (rule ccontr)
  assume "\<not> (st \<noteq> HSM_OK \<and> slots tok' = slots tok)"
  then have ch: "st = HSM_OK \<or> slots tok' \<noteq> slots tok" by simp
  have io: "\<forall>t. io E t 0 \<noteq> None" using assms(1) by (simp add: io_perfect_def)
  have "anchor_value (files tok (anchor_path (Some path))) = seen"
    using file_read_value[OF io, of "Some path" tok] assms(3) by simp
  then show False
    using load_not_behind[OF assms(5) anchor_frame_file ch io] assms(2,4) by auto
qed

lemma only_core_deserialize:
  "slot_deserialize_locked E s kek kl blob bl w = (stt, s', w') \<Longrightarrow> only_core w w'"
  by (auto simp: slot_deserialize_locked_def Let_def split: if_splits option.splits prod.splits
      dest!: only_core_calls(8) intro: only_core_trans)

lemma deserialize_slots:
  assumes "hsm_slot_deserialize E tok sid kek kl blob bl = (st, tok')"
  shows "\<exists>s'. slots tok' = (slots tok)[unat sid := s']"
proof (cases "slot_at tok sid")
  case None
  then have "slots tok' = (slots tok)[unat sid := undefined]"
    using assms by (auto simp: hsm_slot_deserialize_def slot_at_def list_update_beyond split: if_splits)
  then show ?thesis by blast
next
  case (Some s)
  obtain st1 s' t where d: "slot_deserialize_locked E s kek kl blob bl tok = (st1, s', t)"
    by (metis prod_cases3)
  then have "slots tok' = (slots tok)[unat sid := s']"
    using assms Some slots_core[OF only_core_deserialize[OF d]] by (auto simp: hsm_slot_deserialize_def)
  then show ?thesis by blast
qed

text \<open>
  the loop reports success for a store that ends too early: when the records run out after one
  that loaded, the status left from that record, HSM\_OK, is returned, although the remaining slots
  were not loaded.
\<close>

theorem truncated_records_load_ok:
  assumes "off + 4 \<le> length body" "unat (get_u32 (drop off body)) \<le> length body - (off + 4)"
    and "hsm_slot_deserialize E tok (of_nat i) (Some kek) PQC_KEK_LEN
           (Some (slice (off + 4) (unat (get_u32 (drop off body))) body)) (unat (get_u32 (drop off body)))
         = (HSM_OK, tok1)"
    and "length body < off + 4 + unat (get_u32 (drop off body)) + 4"
  shows "load_slots E kek body (i # j # is) off HSM_ERR_INTEGRITY tok = (HSM_OK, tok1)"
  using assms by (simp add: Let_def not_less)

text \<open>
  a load that fails in the middle is not undone: when the record of a later slot is refused, the
  slots before it keep what was loaded into them.
\<close>

theorem failed_load_keeps_earlier_slots:
  assumes "off + 4 \<le> length body" "unat (get_u32 (drop off body)) \<le> length body - (off + 4)"
    and "hsm_slot_deserialize E tok (of_nat i) (Some kek) PQC_KEK_LEN
           (Some (slice (off + 4) (unat (get_u32 (drop off body))) body)) (unat (get_u32 (drop off body)))
         = (HSM_OK, tok1)"
    and "off2 = off + 4 + unat (get_u32 (drop off body))" "off2 + 4 \<le> length body"
    and "unat (get_u32 (drop off2 body)) \<le> length body - (off2 + 4)"
    and "hsm_slot_deserialize E tok1 (of_nat j) (Some kek) PQC_KEK_LEN
           (Some (slice (off2 + 4) (unat (get_u32 (drop off2 body))) body)) (unat (get_u32 (drop off2 body)))
         = (e, tok2)"
    and "e \<noteq> HSM_OK" "(of_nat i :: u32) \<noteq> of_nat j"
  shows "fst (load_slots E kek body (i # j # is) off HSM_ERR_INTEGRITY tok) = e \<and>
     slots (snd (load_slots E kek body (i # j # is) off HSM_ERR_INTEGRITY tok)) ! unat (of_nat i :: u32) =
       slots tok1 ! unat (of_nat i :: u32)"
proof -
  have "slots tok2 ! unat (of_nat i :: u32) = slots tok1 ! unat (of_nat i :: u32)"
    using deserialize_slots[OF assms(7)] assms(9) by auto
  then show ?thesis using assms(1-8) by (simp add: Let_def not_less)
qed

end
