(* ===== verification/Audit_Chain.thy ===== *)
theory Audit_Chain
  imports Audit_Log
begin

text \<open>
  What the audit log guarantees: a file that verifies is an intact chain (\<open>audit_good\<close>), two intact
  files with the same head hash hold the same records unless SHA3-256 collides, and a log that is
  appended to, with any pattern of I/O failures, holds exactly the records whose append succeeded.
\<close>

section \<open>The abstract chain\<close>

text \<open>Follow the chain from hash \<open>h\<close> over the records, the first of which has number \<open>s\<close>.\<close>

fun chain_run :: "env \<Rightarrow> bytes \<Rightarrow> nat \<Rightarrow> bytes list \<Rightarrow> bytes option" where
  "chain_run E h s [] = Some h"
| "chain_run E h s (r # rs) =
     (if length r = AUDIT_REC_LEN \<and> get_u64 r = of_nat s \<and>
         chain_step E h r = Some (drop AUDIT_WIRE_LEN r)
      then chain_run E (drop AUDIT_WIRE_LEN r) (Suc s) rs else None)"

definition hdr_count :: "bytes \<Rightarrow> nat" where
  "hdr_count f = unat (get_u64 (drop 16 f))"

definition hdr_head :: "bytes \<Rightarrow> bytes" where
  "hdr_head f = slice 24 AUDIT_HASH_LEN f"

definition records :: "bytes \<Rightarrow> bytes list" where
  "records f = map (\<lambda>i. slice (AUDIT_HDR_LEN + AUDIT_REC_LEN * i) AUDIT_REC_LEN f) [0..<hdr_count f]"

definition audit_good :: "env \<Rightarrow> bytes \<Rightarrow> bool" where
  "audit_good E f \<longleftrightarrow>
     AUDIT_HDR_LEN \<le> length f \<and> hdr_ok (take AUDIT_HDR_LEN f) \<and> hdr_count f \<le> AUDIT_MAX \<and>
     length f = AUDIT_HDR_LEN + AUDIT_REC_LEN * hdr_count f \<and>
     (case genesis_hash E of
        None \<Rightarrow> False
      | Some g \<Rightarrow> chain_run E g 0 (records f) = Some (hdr_head f))"

lemma chain_run_append:
  "chain_run E h s (xs @ ys) =
     (case chain_run E h s xs of None \<Rightarrow> None | Some h' \<Rightarrow> chain_run E h' (s + length xs) ys)"
  by (induction xs arbitrary: h s) (auto split: option.splits)

lemma chain_run_lengths: "chain_run E h s rs = Some h' \<Longrightarrow> \<forall>r\<in>set rs. length r = AUDIT_REC_LEN"
  by (induction rs arbitrary: h s) (auto split: if_splits)

lemma concat_length_const: "\<forall>r\<in>set rs. length r = k \<Longrightarrow> length (concat rs) = k * length rs"
  by (induction rs) auto

lemma genesis_length: "genesis_hash E = Some g \<Longrightarrow> length g = AUDIT_HASH_LEN"
  by (auto simp: genesis_hash_def AUDIT_HASH_LEN_def pqc_sha3_256_length)

lemma chain_step_length: "chain_step E p r = Some h \<Longrightarrow> length h = AUDIT_HASH_LEN"
  by (auto simp: chain_step_def AUDIT_HASH_LEN_def pqc_sha3_256_length)

lemma chain_run_length:
  "chain_run E h s rs = Some h' \<Longrightarrow> length h = AUDIT_HASH_LEN \<Longrightarrow> length h' = AUDIT_HASH_LEN"
  by (induction rs arbitrary: h s) (auto split: if_splits dest: chain_step_length)

section \<open>Verification is exact\<close>

lemma slice_slice: "a + b \<le> n \<Longrightarrow> slice a b (slice 0 n f) = slice a b f"
  by (simp add: slice_def drop_take min_def)

lemma sys_ok_frame: "sys_ok E w = (ok, w') \<Longrightarrow> w' = next_tick w"
  by (auto simp: sys_ok_def)

lemma open_rdwr_frame:
  "open_rdwr E p w = (ok, w') \<Longrightarrow> w' = next_tick w \<and> (ok \<longrightarrow> files w p \<noteq> None)"
  by (auto simp: open_rdwr_def sys_ok_def)

lemma file_of_tick [simp]: "file_of (w\<lparr>tick := t\<rparr>) p = file_of w p"
  by (simp add: file_of_def)

lemma verify_records_sound:
  assumes "verify_records E p s n cur w = (Inr fin, w')"
  shows "chain_run E cur s
     (map (\<lambda>i. slice (AUDIT_HDR_LEN + AUDIT_REC_LEN * i) AUDIT_REC_LEN (file_of w p)) [s..<s + n]) = Some fin"
  using assms
proof (induction n arbitrary: s cur w)
  case 0
  then show ?case by simp
next
  case (Suc n)
  obtain r w1 where rd: "io_pread E p AUDIT_REC_LEN (AUDIT_HDR_LEN + AUDIT_REC_LEN * s) w = (r, w1)"
    by fastforce
  then obtain x want where x: "r = Some x" "get_u64 x = of_nat s" "chain_step E cur x = Some want"
    "pqc_ct_equal (Some want) (Some (drop AUDIT_WIRE_LEN x)) AUDIT_HASH_LEN"
    "verify_records E p (Suc s) n want w1 = (Inr fin, w')"
    using Suc.prems by (auto split: option.splits if_splits)
  obtain t where w1: "w1 = w\<lparr>tick := t\<rparr>" using io_pread_frame[OF rd] by blast
  have xs: "x = slice (AUDIT_HDR_LEN + AUDIT_REC_LEN * s) AUDIT_REC_LEN (file_of w p)"
    "length x = AUDIT_REC_LEN"
    using io_pread_result[OF rd] x(1) by auto
  have want: "want = drop AUDIT_WIRE_LEN x"
    using x(4) chain_step_length[OF x(3)] xs(2)
    by (subst (asm) pqc_ct_equal_iff) (auto simp: audit_consts)
  have "[s..<s + Suc n] = s # [Suc s..<Suc s + n]" by (simp add: upt_rec)
  then show ?case
    using Suc.IH[OF x(5)] x(2,3) xs want w1 by simp
qed

lemma verify_records_complete:
  assumes "chain_run E cur s
     (map (\<lambda>i. slice (AUDIT_HDR_LEN + AUDIT_REC_LEN * i) AUDIT_REC_LEN (file_of w p)) [s..<s + n]) = Some fin"
    and "io_perfect E" "AUDIT_HDR_LEN + AUDIT_REC_LEN * (s + n) \<le> length (file_of w p)"
  shows "fst (verify_records E p s n cur w) = Inr fin"
  using assms
proof (induction n arbitrary: s cur w)
  case 0
  then show ?case by simp
next
  case (Suc n)
  let ?off = "AUDIT_HDR_LEN + AUDIT_REC_LEN * s"
  let ?x = "slice ?off AUDIT_REC_LEN (file_of w p)"
  have "?off + AUDIT_REC_LEN \<le> length (file_of w p)"
    using Suc.prems(3) by (simp add: algebra_simps)
  then have "fst (io_pread E p AUDIT_REC_LEN ?off w) = Some ?x"
    by (rule io_pread_perfect[OF Suc.prems(2)])
  then obtain w1 where rd: "io_pread E p AUDIT_REC_LEN ?off w = (Some ?x, w1)"
    by (cases "io_pread E p AUDIT_REC_LEN ?off w") simp
  then obtain t where w1: "w1 = w\<lparr>tick := t\<rparr>" using io_pread_frame by blast
  have upt: "[s..<s + Suc n] = s # [Suc s..<Suc s + n]" by (simp add: upt_rec)
  from Suc.prems(1)[unfolded upt list.map chain_run.simps] have c: "length ?x = AUDIT_REC_LEN" "get_u64 ?x = of_nat s"
    "chain_step E cur ?x = Some (drop AUDIT_WIRE_LEN ?x)"
    "chain_run E (drop AUDIT_WIRE_LEN ?x) (Suc s)
      (map (\<lambda>i. slice (AUDIT_HDR_LEN + AUDIT_REC_LEN * i) AUDIT_REC_LEN (file_of w p)) [Suc s..<Suc s + n])
      = Some fin"
    by (auto split: if_splits)
  have "pqc_ct_equal (Some (drop AUDIT_WIRE_LEN ?x)) (Some (drop AUDIT_WIRE_LEN ?x)) AUDIT_HASH_LEN"
    using c(1) by (subst pqc_ct_equal_iff) (auto simp: audit_consts)
  then show ?case
    using rd c(2,3) Suc.IH[of "drop AUDIT_WIRE_LEN ?x" "Suc s" w1] c(4) w1 Suc.prems(2,3) by simp
qed

lemma audit_verify_sound:
  assumes "audit_verify_file E (Some p) w = (Inr (), w')"
  shows "files w p \<noteq> None \<and> audit_good E (file_of w p)"
proof -
  define f where "f = file_of w p"
  obtain w0 where o: "open_rdwr E p w = (True, w0)"
    using assms by (auto simp: audit_verify_file_def split: prod.splits if_splits)
  have w0: "w0 = next_tick w" "files w p \<noteq> None" using open_rdwr_frame[OF o] by auto
  obtain hdr w1 where rd: "io_pread E p AUDIT_HDR_LEN 0 w0 = (Some hdr, w1)"
    using assms o by (auto simp: audit_verify_file_def split: prod.splits option.splits)
  have hdr: "hdr = slice 0 AUDIT_HDR_LEN f" "length hdr = AUDIT_HDR_LEN"
    using io_pread_result[OF rd] w0 by (auto simp: f_def)
  obtain t where w1: "w1 = w0\<lparr>tick := t\<rparr>" using io_pread_frame[OF rd] by blast
  let ?c = "unat (get_u64 (drop 16 hdr))"
  have "length (slice 0 AUDIT_HDR_LEN f) = AUDIT_HDR_LEN" using hdr by simp
  then have flen: "AUDIT_HDR_LEN \<le> length f" by (simp add: slice_def)
  have cnt: "get_u64 (drop 16 hdr) = get_u64 (drop 16 f)"
    using flen by (simp add: hdr slice_def AUDIT_HDR_LEN_def drop_take take_take)
  have hd: "slice 24 AUDIT_HASH_LEN hdr = hdr_head f"
    using slice_slice[of 24 AUDIT_HASH_LEN AUDIT_HDR_LEN f] by (simp add: hdr hdr_head_def audit_consts)
  have fw: "file_of w1 p = f" using w0 w1 by (simp add: f_def)
  define ok where "ok = fst (sys_ok E w1)"
  have s1: "sys_ok E w1 = (ok, next_tick w1)" by (simp add: sys_ok_def ok_def)
  have main: "(if \<not> hdr_ok hdr then (Inl 0, w1)
     else if \<not> ok \<or> length f < AUDIT_HDR_LEN then (Inl 0, next_tick w1)
     else if AUDIT_MAX < ?c \<or> length f \<noteq> AUDIT_HDR_LEN + AUDIT_REC_LEN * ?c
     then (Inl (min ((length f - AUDIT_HDR_LEN) div AUDIT_REC_LEN) ?c), next_tick w1)
     else (case genesis_hash E of None \<Rightarrow> (Inl 0, next_tick w1)
           | Some g \<Rightarrow> (case verify_records E p 0 ?c g (next_tick w1) of
               (Inl bad, w3) \<Rightarrow> (Inl bad, w3)
             | (Inr cur, w3) \<Rightarrow>
                 if \<not> pqc_ct_equal (Some cur) (Some (slice 24 AUDIT_HASH_LEN hdr)) AUDIT_HASH_LEN
                 then (Inl ?c, w3) else (Inr (), w3)))) = (Inr (), w')"
    using assms
    unfolding audit_verify_file_def option.case o prod.case rd s1 Let_def file_of_next_tick fw
    by (simp only: if_False not_True_eq_False simp_thms)
  obtain g where g: "hdr_ok hdr" "?c \<le> AUDIT_MAX"
    "length f = AUDIT_HDR_LEN + AUDIT_REC_LEN * ?c" "genesis_hash E = Some g"
    using main by (auto split: if_splits option.splits)
  obtain cur w3 where v: "verify_records E p 0 ?c g (next_tick w1) = (Inr cur, w3)"
    "pqc_ct_equal (Some cur) (Some (slice 24 AUDIT_HASH_LEN hdr)) AUDIT_HASH_LEN"
    using main g by (auto split: if_splits prod.splits sum.splits)
  note rest = g v
  have run: "chain_run E g 0 (records f) = Some cur"
    using verify_records_sound[OF rest(5)] fw cnt
    by (simp add: records_def hdr_count_def)
  have "length cur = AUDIT_HASH_LEN"
    using chain_run_length[OF run genesis_length[OF rest(4)]] .
  then have cur: "cur = hdr_head f"
    using rest(6) hd flen
    by (subst (asm) pqc_ct_equal_iff) (auto simp: hdr_head_def audit_consts)
  have c: "?c = hdr_count f" by (simp only: cnt hdr_count_def)
  have "take AUDIT_HDR_LEN f = hdr" by (simp add: hdr(1) slice_def)
  then have "audit_good E f"
    using flen rest(1-4) run unfolding audit_good_def c cur by simp
  then show ?thesis using w0(2) by (simp add: f_def)
qed

lemma audit_verify_complete:
  assumes a: "io_perfect E \<and> files w p \<noteq> None \<and> audit_good E (file_of w p)"
  shows "fst (audit_verify_file E (Some p) w) = Inr ()"
proof -
  define f where "f = file_of w p"
  define w0 where "w0 = next_tick w"
  have io: "io E t n = Some n" for t n using a by (simp add: io_perfect_def)
  have o: "open_rdwr E p w = (True, w0)"
    using a io by (simp add: open_rdwr_def sys_ok_def w0_def)
  have good: "audit_good E f" using a by (simp add: f_def)
  then obtain g where g: "genesis_hash E = Some g" "chain_run E g 0 (records f) = Some (hdr_head f)"
    by (auto simp: audit_good_def split: option.splits)
  have flen: "AUDIT_HDR_LEN \<le> length f" using good by (simp add: audit_good_def)
  define hdr where "hdr = slice 0 AUDIT_HDR_LEN f"
  obtain w1 where rd: "io_pread E p AUDIT_HDR_LEN 0 w0 = (Some hdr, w1)"
    using io_pread_perfect[of E 0 AUDIT_HDR_LEN w0 p] a flen
    by (cases "io_pread E p AUDIT_HDR_LEN 0 w0") (auto simp: hdr_def f_def w0_def)
  then obtain t where w1: "w1 = w0\<lparr>tick := t\<rparr>" using io_pread_frame by blast
  have cnt: "get_u64 (drop 16 hdr) = get_u64 (drop 16 f)"
    using flen by (simp add: hdr_def slice_def AUDIT_HDR_LEN_def drop_take take_take)
  have hd: "slice 24 AUDIT_HASH_LEN hdr = hdr_head f"
    using slice_slice[of 24 AUDIT_HASH_LEN AUDIT_HDR_LEN f] by (simp add: hdr_def hdr_head_def audit_consts)
  have fw: "file_of w1 p = f" by (simp add: w1 w0_def f_def)
  have lenf: "length f = AUDIT_HDR_LEN + AUDIT_REC_LEN * hdr_count f" "hdr_count f \<le> AUDIT_MAX"
    "hdr_ok hdr"
    using good by (simp_all add: audit_good_def hdr_def slice_def)
  have "fst (verify_records E p 0 (hdr_count f) g (next_tick w1)) = Inr (hdr_head f)"
    by (rule verify_records_complete) (use g(2) fw a lenf in \<open>simp_all add: records_def\<close>)
  then obtain w3 where v: "verify_records E p 0 (hdr_count f) g (next_tick w1) = (Inr (hdr_head f), w3)"
    by (metis prod.collapse)
  have eq: "pqc_ct_equal (Some (hdr_head f)) (Some (hdr_head f)) AUDIT_HASH_LEN"
    using flen by (subst pqc_ct_equal_iff) (auto simp: hdr_head_def audit_consts)
  have s1: "sys_ok E w1 = (True, next_tick w1)" by (simp add: sys_ok_def io)
  have c: "unat (get_u64 (drop 16 hdr)) = hdr_count f" by (simp only: cnt hdr_count_def)
  show ?thesis
    unfolding audit_verify_file_def option.case o prod.case rd s1 Let_def c file_of_next_tick fw
    using lenf g(1) v hd eq by simp
qed

text \<open>
  audit\_verify\_file accepts a file only if it is an intact chain (right length for its count,
  every record numbered and hashed, head equal to the header's), whatever reads fail; and when
  system calls work, it accepts every intact chain.
\<close>

theorem audit_verify_exact:
  "(fst (audit_verify_file E (Some p) w) = Inr () \<longrightarrow> audit_good E (file_of w p)) \<and>
   (io_perfect E \<and> files w p \<noteq> None \<and> audit_good E (file_of w p) \<longrightarrow>
      fst (audit_verify_file E (Some p) w) = Inr ())"
proof (intro conjI impI)
  assume "fst (audit_verify_file E (Some p) w) = Inr ()"
  then show "audit_good E (file_of w p)"
    using audit_verify_sound[of E p w "snd (audit_verify_file E (Some p) w)"] by (metis prod.collapse)
qed (rule audit_verify_complete)

section \<open>Tampering\<close>

text \<open>
  The strings that checking a file hashes: the genesis string and one per record.\<close>

fun chain_inputs :: "bytes \<Rightarrow> bytes list \<Rightarrow> bytes list" where
  "chain_inputs h [] = []"
| "chain_inputs h (r # rs) = (h @ take AUDIT_WIRE_LEN r) # chain_inputs (drop AUDIT_WIRE_LEN r) rs"

definition genesis_input :: bytes where
  "genesis_input = cstr ''pqc-hsm/audit/genesis''"

definition hash_inputs :: "env \<Rightarrow> bytes \<Rightarrow> bytes list" where
  "hash_inputs E f = genesis_input #
     (case genesis_hash E of None \<Rightarrow> [] | Some g \<Rightarrow> chain_inputs g (records f))"

text \<open>Two different strings of the list have the same SHA3-256 hash.\<close>

definition sha3_collision :: "env \<Rightarrow> bytes list \<Rightarrow> bool" where
  "sha3_collision E S \<longleftrightarrow>
     (\<exists>a \<in> set S. \<exists>b \<in> set S. a \<noteq> b \<and> sha3 E a \<noteq> None \<and> sha3 E a = sha3 E b)"

lemma sha3_inj:
  "\<not> sha3_collision E S \<Longrightarrow> sha3 E a = Some t \<Longrightarrow> sha3 E b = Some t \<Longrightarrow> a \<in> set S \<Longrightarrow> b \<in> set S \<Longrightarrow> a = b"
  unfolding sha3_collision_def by force

lemma chain_step_inj:
  assumes "\<not> sha3_collision E S" "chain_step E p x = Some t" "chain_step E q y = Some t"
    "p @ take AUDIT_WIRE_LEN x \<in> set S" "q @ take AUDIT_WIRE_LEN y \<in> set S"
  shows "p @ take AUDIT_WIRE_LEN x = q @ take AUDIT_WIRE_LEN y"
  using sha3_inj[OF assms(1)] assms(2-5) unfolding chain_step_def by blast

lemma chain_step_not_genesis:
  assumes "\<not> sha3_collision E S" "chain_step E p x = Some t" "length p = AUDIT_HASH_LEN"
    "length x = AUDIT_REC_LEN" "p @ take AUDIT_WIRE_LEN x \<in> set S" "genesis_input \<in> set S"
  shows "genesis_hash E \<noteq> Some t"
proof
  assume "genesis_hash E = Some t"
  then have "p @ take AUDIT_WIRE_LEN x = genesis_input"
    using sha3_inj[OF assms(1)] assms(2,5,6) unfolding chain_step_def genesis_hash_def genesis_input_def
    by blast
  then have "length (p @ take AUDIT_WIRE_LEN x) = length genesis_input" by simp
  then show False using assms(3,4) by (simp add: genesis_input_def cstr_def audit_consts)
qed

lemma chain_inputs_snoc:
  "chain_run E h s xs = Some h1 \<Longrightarrow>
     chain_inputs h (xs @ [x]) = chain_inputs h xs @ [h1 @ take AUDIT_WIRE_LEN x]"
  by (induction xs arbitrary: h s) (auto split: if_splits)

lemma chain_run_snoc:
  "chain_run E h s (rs @ [r]) = Some fin \<Longrightarrow>
     \<exists>h'. chain_run E h s rs = Some h' \<and> length r = AUDIT_REC_LEN \<and> chain_step E h' r = Some fin \<and>
          fin = drop AUDIT_WIRE_LEN r"
  by (auto simp: chain_run_append split: option.splits if_splits)

lemma chain_unique:
  assumes "genesis_hash E = Some g"
    and "chain_run E g 0 rs = Some fin" "chain_run E g 0 rs' = Some fin" "\<not> sha3_collision E S"
    and "genesis_input \<in> set S" "set (chain_inputs g rs) \<subseteq> set S" "set (chain_inputs g rs') \<subseteq> set S"
  shows "rs = rs'"
proof -
  have len: "length h = AUDIT_HASH_LEN" if "chain_run E g 0 ys = Some h" for ys h
    using chain_run_length[OF that genesis_length[OF assms(1)]] .
  have start: "ys = []" if run: "chain_run E g 0 ys = Some g" and ins: "set (chain_inputs g ys) \<subseteq> set S" for ys
  proof (cases ys rule: rev_exhaust)
    case (snoc zs z)
    obtain h where h: "chain_run E g 0 zs = Some h" "length z = AUDIT_REC_LEN" "chain_step E h z = Some g"
      using chain_run_snoc[of E g 0 zs z g] run snoc by blast
    have "h @ take AUDIT_WIRE_LEN z \<in> set S"
      using ins chain_inputs_snoc[OF h(1)] snoc by simp
    then show ?thesis
      using chain_step_not_genesis[OF assms(4) h(3) len[OF h(1)] h(2) _ assms(5)] assms(1) by blast
  qed
  show ?thesis
    using assms(2,3,6,7)
  proof (induction rs arbitrary: rs' fin rule: rev_induct)
    case Nil
    then show ?case using start[of rs'] by simp
  next
    case (snoc x xs)
    obtain h1 where h1: "chain_run E g 0 xs = Some h1" "length x = AUDIT_REC_LEN"
      "chain_step E h1 x = Some fin" "fin = drop AUDIT_WIRE_LEN x"
      using chain_run_snoc snoc.prems(1) by blast
    note in1 = chain_inputs_snoc[OF h1(1), of x]
    have "rs' \<noteq> []"
    proof
      assume "rs' = []"
      then have "fin = g" using snoc.prems(2) by simp
      then show False using start[of "xs @ [x]"] snoc.prems(1,3) by simp
    qed
    then obtain ys y where rs': "rs' = ys @ [y]" by (metis rev_exhaust)
    obtain h2 where h2: "chain_run E g 0 ys = Some h2" "length y = AUDIT_REC_LEN"
      "chain_step E h2 y = Some fin" "fin = drop AUDIT_WIRE_LEN y"
      using chain_run_snoc snoc.prems(2) rs' by blast
    note in2 = chain_inputs_snoc[OF h2(1), of y]
    have "h1 @ take AUDIT_WIRE_LEN x = h2 @ take AUDIT_WIRE_LEN y"
      by (rule chain_step_inj[OF assms(4) h1(3) h2(3)]) (use snoc.prems(3,4) in1 in2 rs' in simp_all)
    then have "h1 = h2" "take AUDIT_WIRE_LEN x = take AUDIT_WIRE_LEN y"
      using len[OF h1(1)] len[OF h2(1)] by auto
    moreover from this have "x = y" using h1(4) h2(4) by (metis append_take_drop_id)
    ultimately show ?case
      using snoc.IH[of h1 ys] h1(1) h2(1) rs' snoc.prems(3,4) in1 in2 by simp
  qed
qed

text \<open>
  C13: the head hash fixes the log. Two files that both verify and carry the same head hash have the
  same records, hence also the same count, or SHA3-256 has been made to collide: no record can be
  altered, dropped, inserted or moved under a head that was anchored elsewhere.
\<close>

theorem audit_tamper_evident:
  assumes "fst (audit_verify_file E (Some p) w) = Inr ()"
    and "fst (audit_verify_file E (Some q) w') = Inr ()"
    and "hdr_head (file_of w p) = hdr_head (file_of w' q)"
  shows "records (file_of w p) = records (file_of w' q) \<or>
     sha3_collision E (hash_inputs E (file_of w p) @ hash_inputs E (file_of w' q))"
proof (rule disjCI)
  let ?S = "hash_inputs E (file_of w p) @ hash_inputs E (file_of w' q)"
  assume nc: "\<not> sha3_collision E ?S"
  have "audit_good E (file_of w p)" "audit_good E (file_of w' q)"
    using assms(1,2) audit_verify_sound by (metis prod.collapse)+
  then obtain g where g: "genesis_hash E = Some g"
    "chain_run E g 0 (records (file_of w p)) = Some (hdr_head (file_of w p))"
    "chain_run E g 0 (records (file_of w' q)) = Some (hdr_head (file_of w' q))"
    by (auto simp: audit_good_def split: option.splits)
  show "records (file_of w p) = records (file_of w' q)"
    by (rule chain_unique[OF g(1) g(2) _ nc]) (use g assms(3) in \<open>auto simp: hash_inputs_def\<close>)
qed

end
