(* ===== verification/Audit_Append.thy ===== *)
theory Audit_Append
  imports Audit_Chain
begin

text \<open>
  Appending under failure. \<open>log_inv\<close> relates an open log, the records whose append succeeded and the
  file: the records are on the disk behind the header and form a chain that ends in the log's head;
  behind them there may be the debris of one append that failed. Every append keeps it, whichever
  system call fails and however few bytes a write moves, and a successful append leaves a file that
  verifies.
\<close>

definition log_inv :: "env \<Rightarrow> bytes \<Rightarrow> audit_log \<Rightarrow> bytes list \<Rightarrow> bytes \<Rightarrow> bool" where
  "log_inv E path log recs f \<longleftrightarrow>
     al_fd log = Some path \<and> unat (al_count log) = length recs \<and> length recs \<le> AUDIT_MAX \<and>
     (case genesis_hash E of None \<Rightarrow> False | Some g \<Rightarrow> chain_run E g 0 recs = Some (al_head log)) \<and>
     AUDIT_HDR_LEN + AUDIT_REC_LEN * length recs \<le> length f \<and>
     length f \<le> AUDIT_HDR_LEN + AUDIT_REC_LEN * (length recs + 1) \<and>
     slice AUDIT_HDR_LEN (AUDIT_REC_LEN * length recs) f = concat recs"

lemma log_inv_lengths:
  assumes "log_inv E path log recs f"
  shows "\<forall>r\<in>set recs. length r = AUDIT_REC_LEN" "length (al_head log) = AUDIT_HASH_LEN"
    "length (concat recs) = AUDIT_REC_LEN * length recs"
proof -
  obtain g where g: "genesis_hash E = Some g" "chain_run E g 0 recs = Some (al_head log)"
    using assms by (auto simp: log_inv_def split: option.splits)
  show r: "\<forall>r\<in>set recs. length r = AUDIT_REC_LEN" using chain_run_lengths[OF g(2)] .
  show "length (al_head log) = AUDIT_HASH_LEN"
    using chain_run_length[OF g(2) genesis_length[OF g(1)]] .
  show "length (concat recs) = AUDIT_REC_LEN * length recs" using concat_length_const[OF r] .
qed

lemma length_wire_encode [simp, codec_simps]: "length (wire_encode s t op ro sl re d) = AUDIT_WIRE_LEN"
  by (simp add: wire_encode_def audit_consts)

lemma length_hdr_encode [simp, codec_simps]:
  "length h = AUDIT_HASH_LEN \<Longrightarrow> length (hdr_encode c h) = AUDIT_HDR_LEN"
  by (simp add: hdr_encode_def AUDIT_MAGIC_def cstr_def audit_consts)

lemma get_seq_wire [simp]: "get_u64 (wire_encode s t op ro sl re d @ x) = s"
  by (simp add: wire_encode_def)

lemma word_nat_of: "x = of_nat (unat x)" for x :: "'a::len word"
  by simp

text \<open>The two places an append writes to: behind the records, and over the header.\<close>

lemma slice_write_behind:
  "a + n \<le> off \<Longrightarrow> a + n \<le> length f \<Longrightarrow> slice a n (write_at off b f) = slice a n f"
  by (rule slice_eqI) (auto simp: length_write_at nth_write_at)

lemma slice_write_before:
  assumes "off + length b \<le> a" "a + n \<le> length f"
  shows "slice a n (write_at off b f) = slice a n f"
  using assms by (intro slice_eqI) (auto simp: length_write_at nth_write_at)

lemma slice_write_same:
  assumes "length b = n"
  shows "slice off n (write_at off b f) = b"
proof -
  have "off + n \<le> length (write_at off b f)" using assms by (simp add: length_write_at)
  then show ?thesis
    using assms by (intro nth_equalityI) (auto simp: nth_slice nth_write_at)
qed

lemma slice_add: "slice a (n + m) f = slice a n f @ slice (a + n) m f"
  unfolding slice_def take_add drop_drop by (simp add: add.commute)

lemma slice_concat:
  "\<forall>r\<in>set rs. length r = k \<Longrightarrow> i < length rs \<Longrightarrow> slice (k * i) k (concat rs) = rs ! i"
proof (induction rs arbitrary: i)
  case (Cons r rs)
  show ?case
  proof (cases i)
    case 0
    then show ?thesis using Cons.prems by simp
  next
    case (Suc j)
    then show ?thesis
      using Cons slice_skip[of r k "k + k * j" k "concat rs"] by simp
  qed
qed simp

lemma write_behind_inv:
  assumes "log_inv E path log recs f" "length b \<le> AUDIT_REC_LEN"
  shows "log_inv E path log recs (write_at (AUDIT_HDR_LEN + AUDIT_REC_LEN * length recs) b f)"
  using assms by (auto simp: log_inv_def slice_write_behind length_write_at)

lemma write_header_inv:
  assumes "log_inv E path log recs f" "length b \<le> AUDIT_HDR_LEN"
  shows "log_inv E path log recs (write_at 0 b f)"
  using assms by (auto simp: log_inv_def slice_write_before length_write_at)

text \<open>Once the record is completely written behind the others, it could be part of the log.\<close>

lemma record_written_inv:
  assumes inv: "log_inv E path log recs f" and room: "length recs < AUDIT_MAX"
    and step: "chain_step E (al_head log) wire = Some nxt" and seq: "get_u64 (wire @ nxt) = al_count log"
    and wl: "length wire = AUDIT_WIRE_LEN"
  shows "log_inv E path (log\<lparr>al_count := al_count log + 1, al_head := nxt\<rparr>) (recs @ [wire @ nxt])
           (write_at (AUDIT_HDR_LEN + AUDIT_REC_LEN * length recs) (wire @ nxt) f)"
proof -
  let ?off = "AUDIT_HDR_LEN + AUDIT_REC_LEN * length recs"
  have cnt: "unat (al_count log) = length recs" using inv by (simp add: log_inv_def)
  have nl: "length nxt = AUDIT_HASH_LEN" using chain_step_length[OF step] .
  have rl: "length (wire @ nxt) = AUDIT_REC_LEN" using wl nl by (simp add: audit_consts)
  have "length recs + 1 < 2 ^ 64" using room by (simp add: AUDIT_MAX_def)
  then have c1: "unat (al_count log + 1) = length recs + 1"
    using cnt by (simp add: unat_word_ariths)
  have seq': "get_u64 (wire @ nxt) = of_nat (length recs)"
    using seq cnt word_nat_of[of "al_count log"] by simp
  obtain g where g: "genesis_hash E = Some g" "chain_run E g 0 recs = Some (al_head log)"
    using inv by (auto simp: log_inv_def split: option.splits)
  have "chain_step E (al_head log) (wire @ nxt) = Some (drop AUDIT_WIRE_LEN (wire @ nxt))"
    using step wl by (simp add: chain_step_def)
  then have run: "chain_run E g 0 (recs @ [wire @ nxt]) = Some nxt"
    using g rl seq' wl by (simp add: chain_run_append)
  have le: "?off \<le> length f" using inv by (simp add: log_inv_def)
  have "slice AUDIT_HDR_LEN (AUDIT_REC_LEN * length recs + AUDIT_REC_LEN) (write_at ?off (wire @ nxt) f)
      = concat recs @ (wire @ nxt)"
  proof -
    have "slice AUDIT_HDR_LEN (AUDIT_REC_LEN * length recs) f = concat recs"
      using inv by (simp add: log_inv_def)
    then show ?thesis
      using le rl slice_write_behind[of AUDIT_HDR_LEN "AUDIT_REC_LEN * length recs" ?off f "wire @ nxt"]
        slice_write_same[of "wire @ nxt" AUDIT_REC_LEN ?off f]
      by (simp add: slice_add)
  qed
  then show ?thesis
    using inv run g(1) c1 room rl le
    by (auto simp: log_inv_def length_write_at add.commute)
qed

text \<open>With its header in place, a file of exactly the right length is intact.\<close>

lemma log_inv_good:
  assumes inv: "log_inv E path log recs f" and len: "length f = AUDIT_HDR_LEN + AUDIT_REC_LEN * length recs"
    and hdr: "take AUDIT_HDR_LEN f = hdr_encode (al_count log) (al_head log)"
  shows "audit_good E f \<and> records f = recs"
proof -
  note l = log_inv_lengths[OF inv]
  obtain rest where f: "f = hdr_encode (al_count log) (al_head log) @ rest"
    using hdr by (metis append_take_drop_id)
  have c: "hdr_count f = length recs"
    using inv l(2) by (simp add: hdr_count_def f hdr_encode_def AUDIT_MAGIC_def cstr_def log_inv_def)
  have h: "hdr_head f = al_head log"
    using l(2) by (simp add: hdr_head_def slice_def f hdr_encode_def AUDIT_MAGIC_def cstr_def AUDIT_HASH_LEN_def)
  have ok: "hdr_ok (take AUDIT_HDR_LEN f)"
    using l(2) by (simp add: hdr hdr_ok_def) (simp add: hdr_encode_def AUDIT_MAGIC_def cstr_def)
  have "slice AUDIT_HDR_LEN (AUDIT_REC_LEN * length recs) f = rest"
    using len l(2) slice_skip[of "hdr_encode (al_count log) (al_head log)" AUDIT_HDR_LEN AUDIT_HDR_LEN
        "AUDIT_REC_LEN * length recs" rest]
    unfolding f by simp
  then have "rest = concat recs" using inv by (simp add: log_inv_def)
  have "slice (AUDIT_HDR_LEN + AUDIT_REC_LEN * i) AUDIT_REC_LEN f = recs ! i" if "i < length recs" for i
  proof -
    have "slice (AUDIT_HDR_LEN + AUDIT_REC_LEN * i) AUDIT_REC_LEN f
        = slice (AUDIT_REC_LEN * i) AUDIT_REC_LEN (concat recs)"
      using l(2) \<open>rest = concat recs\<close> slice_skip[of "hdr_encode (al_count log) (al_head log)"
          AUDIT_HDR_LEN "AUDIT_HDR_LEN + AUDIT_REC_LEN * i" AUDIT_REC_LEN rest]
      unfolding f by simp
    also have "\<dots> = recs ! i"
      by (rule slice_concat[OF l(1) that])
    finally show ?thesis .
  qed
  then have r: "records f = recs" by (intro nth_equalityI) (simp_all add: records_def c)
  then show ?thesis
    using inv ok len c h by (auto simp: audit_good_def log_inv_def split: option.splits)
qed

section \<open>One append\<close>

text \<open>What a failed append may have done to the file, and what a successful one has done.\<close>

lemma audit_append_cases:
  assumes inv: "log_inv E path log recs (file_of w path)"
    and app: "audit_append E log ts op role slot res detail w = (ok, log', w')"
  defines "wire \<equiv> wire_encode (al_count log) ts op role slot res detail"
  shows "(\<forall>p. p \<noteq> path \<longrightarrow> files w' p = files w p) \<and>
    (if ok then
       (\<exists>nxt. log_inv E path log' (recs @ [wire @ nxt]) (file_of w' path) \<and>
              audit_good E (file_of w' path) \<and> records (file_of w' path) = recs @ [wire @ nxt])
     else log' = log \<and> log_inv E path log recs (file_of w' path))"
proof -
  let ?off = "AUDIT_HDR_LEN + AUDIT_REC_LEN * unat (al_count log)"
  have fd: "al_fd log = Some path" and cnt: "unat (al_count log) = length recs"
    using inv by (simp_all add: log_inv_def)
  define f where "f = file_of w path"
  have finv: "log_inv E path log recs f" using inv by (simp add: f_def)
  show ?thesis
  proof (cases "op < AUDIT_OP_INIT_TOKEN \<or> op > AUDIT_OP_SET_USER_PIN \<or> unat (al_count log) \<ge> AUDIT_MAX
      \<or> chain_step E (al_head log) wire = None")
    case True
    then have "ok = False" "log' = log" "w' = w"
      using app fd by (auto simp: audit_append_def wire_def Let_def split: if_splits)
    then show ?thesis using inv by simp
  next
    case False
    then obtain nxt where nxt: "chain_step E (al_head log) wire = Some nxt" by auto
    note nl = chain_step_length[OF nxt]
    have rl: "length (wire @ nxt) = AUDIT_REC_LEN" using nl by (simp add: wire_def audit_consts)
    obtain ok1 w1 where p1: "io_pwrite E path (wire @ nxt) ?off w = (ok1, w1)" by fastforce
    define ok2 where "ok2 = fst (sys_ok E w1)"
    define hdr where "hdr = hdr_encode (al_count log + 1) nxt"
    have hl: "length hdr = AUDIT_HDR_LEN" using nl by (simp add: hdr_def)
    obtain ok3 w3 where p3: "io_pwrite E path hdr 0 (next_tick w1) = (ok3, w3)" by fastforce
    define ok4 where "ok4 = fst (sys_ok E w3)"
    have s: "sys_ok E w1 = (ok2, next_tick w1)" "sys_ok E w3 = (ok4, next_tick w3)"
      by (simp_all add: sys_ok_def ok2_def ok4_def)
    have res: "(ok, log', w') =
       (if \<not> ok1 then (False, log, w1)
        else if \<not> ok2 then (False, log, next_tick w1)
        else if \<not> ok3 then (False, log, w3)
        else if \<not> ok4 then (False, log, next_tick w3)
        else (True, log\<lparr>al_count := al_count log + 1, al_head := nxt\<rparr>, next_tick w3))"
      using app False
      unfolding audit_append_def fd option.case wire_def[symmetric] Let_def nxt p1 prod.case s
        hdr_def[symmetric] p3
      by (auto split: if_splits)
    obtain n1 where n1: "n1 \<le> length (wire @ nxt)" "ok1 \<longrightarrow> n1 = length (wire @ nxt)"
      "file_of w1 path = write_at ?off (take n1 (wire @ nxt)) f" "\<forall>p. p \<noteq> path \<longrightarrow> files w1 p = files w p"
    proof -
      obtain n t where *: "n \<le> length (wire @ nxt)" "ok1 \<longrightarrow> n = length (wire @ nxt)"
        "w1 = (if n = 0 then w\<lparr>tick := t\<rparr> else w\<lparr>tick := t,
           files := (files w)(path \<mapsto> write_at ?off (take n (wire @ nxt)) (file_of w path))\<rparr>)"
        using io_pwrite_result[OF p1] by blast
      have "?off \<le> length f" using finv cnt by (simp add: log_inv_def)
      then show ?thesis
        using that[of n] * by (cases "n = 0") (simp_all add: f_def write_at_empty, simp_all add: file_of_def)
    qed
    obtain n3 where n3: "n3 \<le> length hdr" "ok3 \<longrightarrow> n3 = length hdr"
      "file_of w3 path = write_at 0 (take n3 hdr) (file_of w1 path)" "\<forall>p. p \<noteq> path \<longrightarrow> files w3 p = files w1 p"
    proof -
      obtain n t where *: "n \<le> length hdr" "ok3 \<longrightarrow> n = length hdr"
        "w3 = (if n = 0 then (next_tick w1)\<lparr>tick := t\<rparr> else (next_tick w1)\<lparr>tick := t,
           files := (files (next_tick w1))(path \<mapsto> write_at 0 (take n hdr) (file_of (next_tick w1) path))\<rparr>)"
        using io_pwrite_result[OF p3] by blast
      then show ?thesis
        using that[of n] by (cases "n = 0") (simp_all add: write_at_empty, simp_all add: file_of_def)
    qed
    have i1: "log_inv E path log recs (file_of w1 path)"
      using write_behind_inv[OF finv, of "take n1 (wire @ nxt)"] n1(1,3) rl cnt by simp
    have i3: "log_inv E path log recs (file_of w3 path)"
      using write_header_inv[OF i1, of "take n3 hdr"] n3(1,3) hl by simp
    show ?thesis
    proof (cases ok)
      case False
      then have "log' = log" "w' \<in> {w1, next_tick w1, w3, next_tick w3}"
        using res by (auto split: if_splits)
      then show ?thesis using False i1 i3 n1(4) n3(4) by auto
    next
      case True
      then have w': "ok1" "ok3" "w' = next_tick w3"
        "log' = log\<lparr>al_count := al_count log + 1, al_head := nxt\<rparr>"
        using res by (auto split: if_splits)
      have f1: "file_of w1 path = write_at ?off (wire @ nxt) f" using n1(2,3) w'(1) by simp
      have seq: "get_u64 (wire @ nxt) = al_count log" by (simp add: wire_def wire_encode_def)
      have j1: "log_inv E path log' (recs @ [wire @ nxt]) (file_of w1 path)"
        using record_written_inv[OF finv _ nxt seq] False cnt
        by (simp add: f1 w'(4) wire_def)
      have f3: "file_of w3 path = write_at 0 hdr (file_of w1 path)" using n3(2,3) w'(2) by simp
      have j3: "log_inv E path log' (recs @ [wire @ nxt]) (file_of w3 path)"
        using write_header_inv[OF j1, of hdr] hl by (simp add: f3)
      have l1: "length (file_of w1 path) = AUDIT_HDR_LEN + AUDIT_REC_LEN * length (recs @ [wire @ nxt])"
        using finv rl cnt by (auto simp: f1 length_write_at log_inv_def)
      then have l3: "length (file_of w3 path) = AUDIT_HDR_LEN + AUDIT_REC_LEN * length (recs @ [wire @ nxt])"
        by (simp add: f3 length_write_at hl)
      have "take AUDIT_HDR_LEN (file_of w3 path) = hdr_encode (al_count log') (al_head log')"
        using hl by (simp add: f3 write_at_def w'(4) hdr_def)
      from log_inv_good[OF j3 l3 this] j3 True w'(3) n1(4) n3(4) show ?thesis by auto
    qed
  qed
qed

section \<open>A session of appends\<close>

record append_req =
  rq_ts :: u64
  rq_op :: u32
  rq_role :: u32
  rq_slot :: u32
  rq_result :: u32
  rq_detail :: "bytes option"

text \<open>
  Append a list of requests in turn, whatever fails, collecting the requests that succeeded.\<close>

fun append_all ::
    "env \<Rightarrow> append_req list \<Rightarrow> audit_log \<Rightarrow> 'a world_scheme \<Rightarrow> append_req list \<times> audit_log \<times> 'a world_scheme" where
  "append_all E [] log w = ([], log, w)"
| "append_all E (q # qs) log w =
     (case audit_append E log (rq_ts q) (rq_op q) (rq_role q) (rq_slot q) (rq_result q) (rq_detail q) w of
        (ok, log1, w1) \<Rightarrow>
          (case append_all E qs log1 w1 of
             (done_qs, log2, w2) \<Rightarrow> (if ok then q # done_qs else done_qs, log2, w2)))"

definition req_wire :: "nat \<Rightarrow> append_req \<Rightarrow> bytes" where
  "req_wire s q =
     wire_encode (of_nat s) (rq_ts q) (rq_op q) (rq_role q) (rq_slot q) (rq_result q) (rq_detail q)"

text \<open>The requests from number \<open>s\<close> on are what the records say.\<close>

definition records_say :: "nat \<Rightarrow> append_req list \<Rightarrow> bytes list \<Rightarrow> bool" where
  "records_say s qs rs \<longleftrightarrow>
     length qs = length rs \<and> (\<forall>i<length qs. take AUDIT_WIRE_LEN (rs ! i) = req_wire (s + i) (qs ! i))"

lemma append_all_inv:
  assumes "log_inv E path log recs (file_of w path)"
    and "append_all E qs log w = (dq, log', w')"
  shows "\<exists>new. log_inv E path log' (recs @ new) (file_of w' path) \<and> records_say (length recs) dq new"
  using assms
proof (induction qs arbitrary: log recs w dq)
  case Nil
  then show ?case by (auto simp: records_say_def intro: exI[of _ "[]"])
next
  case (Cons q qs)
  obtain ok log1 w1 where a: "audit_append E log (rq_ts q) (rq_op q) (rq_role q) (rq_slot q)
      (rq_result q) (rq_detail q) w = (ok, log1, w1)" by (metis prod_cases3)
  obtain dq1 where r: "append_all E qs log1 w1 = (dq1, log', w')" "dq = (if ok then q # dq1 else dq1)"
    using Cons.prems(2) a by (auto split: prod.splits)
  have cnt: "al_count log = of_nat (length recs)"
    using Cons.prems(1) word_nat_of[of "al_count log"] by (simp add: log_inv_def)
  show ?case
  proof (cases ok)
    case True
    then obtain nxt where n: "log_inv E path log1 (recs @ [req_wire (length recs) q @ nxt]) (file_of w1 path)"
      using audit_append_cases[OF Cons.prems(1) a] by (auto simp: req_wire_def cnt)
    obtain new where new: "log_inv E path log' ((recs @ [req_wire (length recs) q @ nxt]) @ new) (file_of w' path)"
      "records_say (Suc (length recs)) dq1 new"
      using Cons.IH[OF n r(1)] by auto
    have "records_say (length recs) (q # dq1) ((req_wire (length recs) q @ nxt) # new)"
      using new(2) by (auto simp: records_say_def nth_Cons req_wire_def ac_simps split: nat.splits)
    then show ?thesis
      using new(1) True r(2) by (intro exI[of _ "(req_wire (length recs) q @ nxt) # new"]) simp
  next
    case False
    then have "log1 = log" "log_inv E path log recs (file_of w1 path)"
      using audit_append_cases[OF Cons.prems(1) a] by auto
    then show ?thesis using Cons.IH r False by auto
  qed
qed

text \<open>
  C12: the log is append-only under every failure. After any series of appends to a log in order,
  with any system call failing and any write stopping half way, the records in front are still the
  old ones, followed by exactly the requests whose append reported success, in their order, and
  one more successful append leaves a file that is an intact chain of all of them.
\<close>

theorem audit_append_only:
  assumes "log_inv E path log recs (file_of w path)"
    and "append_all E qs log w = (dq, log1, w1)"
    and "audit_append E log1 ts op role slot res detail w1 = (True, log2, w2)"
  shows "\<exists>new r. audit_good E (file_of w2 path) \<and> records (file_of w2 path) = recs @ new @ [r] \<and>
           records_say (length recs) dq new \<and>
           take AUDIT_WIRE_LEN r = wire_encode (al_count log1) ts op role slot res detail"
proof -
  obtain new where n: "log_inv E path log1 (recs @ new) (file_of w1 path)" "records_say (length recs) dq new"
    using append_all_inv[OF assms(1,2)] by blast
  obtain nxt where "audit_good E (file_of w2 path)"
    "records (file_of w2 path) = (recs @ new) @ [wire_encode (al_count log1) ts op role slot res detail @ nxt]"
    using audit_append_cases[OF n(1) assms(3)] by auto
  then show ?thesis
    using n(2) by (intro exI[of _ new] exI[of _ "wire_encode (al_count log1) ts op role slot res detail @ nxt"])
      simp
qed

end
