(* ===== verification/Example.thy ===== *)
theory Example
  imports Keystore Audit_Append
begin

text \<open>
  A concrete device for the witnesses: primitives that compute (a KMAC that returns the reversed
  input, a cipher that leaves the text alone and tags it with the key), a token of two slots with a
  signing key in the first, and three sessions on it. The theorems named \<dots>\_witness apply a
  property of another theory to it, with all the hypotheses of the property discharged.
\<close>

section \<open>The environment\<close>

definition ex_sig_len :: "pqc_alg \<Rightarrow> nat" where
  "ex_sig_len a = (case pqc_alg_info a of None \<Rightarrow> 0 | Some i \<Rightarrow> ai_sig_len i)"

lemma ex_sig_len_44 [simp]: "ex_sig_len PQC_ALG_ML_DSA_44 = 2420"
  by (simp add: ex_sig_len_def)

definition ex_backend :: pqc_backend where
  "ex_backend =
     \<lparr>be_keypair = None,
      be_keypair_from_seed = Some (\<lambda>a sd t. Inr (sd, rev sd)),
      be_encaps = Some (\<lambda>a p t. Inr (replicate (case pqc_alg_info a of None \<Rightarrow> 0 | Some i \<Rightarrow> ai_ct_len i) 3,
                                   replicate 32 4)),
      be_encaps_derand = None, be_decaps = Some (\<lambda>a k c t. Inr (replicate 32 4)),
      be_sign = Some (\<lambda>a k m c r cap t. Inr (take (min cap (ex_sig_len a)) m)),
      be_verify = Some (\<lambda>a p m c sg t. if sg = take (length sg) m then Inr () else Inl PQC_ERR_VERIFY),
      be_keypair_hw = None, be_decaps_hw = None, be_sign_hw = None\<rparr>"

definition ex_rng :: "nat hwrng" where
  "ex_rng = \<lparr>g_tr = None, g_bs = None\<rparr>"

definition ex_kdr :: kdr_state where
  "ex_kdr = \<lparr>g_provider = Some Stub_Provider, g_root = replicate PQC_KDR_LEN 0, g_root_ready = False\<rparr>"

definition ex_env :: env where
  "ex_env =
     \<lparr>evp_kmac256 = (\<lambda>k d c n. Some (buf_write n (rev d))),
      evp_sha3_256 = (\<lambda>d. Some (buf_write 32 (rev d))),
      evp_gcm_encrypt = (\<lambda>k n a p. Some (p, buf_write 16 k)),
      evp_gcm_decrypt = (\<lambda>k n a c t. if t = buf_write 16 k then Some c else None),
      rand_bytes = (\<lambda>t n. (True, replicate n 7)),
      malloc_ok = (\<lambda>t n. True),
      clock = of_nat,
      io = (\<lambda>t n. Some n),
      rng_module = ex_rng,
      native_backend = ex_backend,
      installed_backend = None,
      kdr = ex_kdr,
      production = False\<rparr>"

definition ex_hook :: hook where
  "ex_hook u t = (True, t)"

lemma ex_env_simps [simp]:
  "evp_kmac256 ex_env k d c n = Some (buf_write n (rev d))"
  "evp_sha3_256 ex_env d = Some (buf_write 32 (rev d))"
  "evp_gcm_encrypt ex_env k nn a p = Some (p, buf_write 16 k)"
  "evp_gcm_decrypt ex_env k nn a p t = (if t = buf_write 16 k then Some p else None)"
  "rand_bytes ex_env i n = (True, replicate n 7)"
  "malloc_ok ex_env i n = True"
  "clock ex_env = of_nat"
  "io ex_env i n = Some n"
  "rng_module ex_env = ex_rng" "native_backend ex_env = ex_backend"
  "installed_backend ex_env = None" "kdr ex_env = ex_kdr" "production ex_env = False"
  by (simp_all add: ex_env_def)

lemma ex_hook_ok: "hook_ok ex_hook"
  by (simp add: hook_ok_def ex_hook_def)

lemma ex_io: "io_perfect ex_env"
  by (simp add: io_perfect_def)

lemma ex_gcm: "gcm_ok ex_env"
  by (simp add: gcm_ok_def)

lemma ex_kmac [simp]:
  "k \<noteq> [] \<Longrightarrow> 0 < n \<Longrightarrow> kmac ex_env k d c n = Some (buf_write n (rev d))"
  by (simp add: pqc_kmac256_def)

text \<open>Sub-keys do not depend on the label in this device.\<close>

definition ex_subkey :: "bytes \<Rightarrow> nat \<Rightarrow> bytes" where
  "ex_subkey salt n = buf_write n (rev salt)"

lemma ex_derive:
  "c_string (cstr l) \<noteq> [] \<Longrightarrow> 0 < n \<Longrightarrow> pqc_kdr_derive ex_env l salt n = Some (ex_subkey salt n)"
  by (simp add: pqc_kdr_derive_def pqc_kdr_derive_st_def pqc_kdr_get_provider_def ex_kdr_def
      stub_derive_def ensure_root_def pqc_kdf_def pqc_kmac256_def PQC_KDR_LEN_def ex_subkey_def)

lemma ex_meta_key: "derive_meta_key ex_env i = Some (ex_subkey (put_u32 i) 32)"
  by (simp add: derive_meta_key_def ex_derive c_string_def cstr_def)

lemma ex_subkey_nonempty: "0 < n \<Longrightarrow> ex_subkey salt n \<noteq> []"
  by (simp add: ex_subkey_def buf_write_def)

lemma ex_seal_meta: "slot_meta_seal ex_env m = Some (buf_write 32 (rev (slot_meta_wire m)))"
  using ex_kmac[OF ex_subkey_nonempty, of 32 32]
  by (simp add: slot_meta_seal_def slot_meta_serialize_def ex_meta_key SLOT_META_TAG_LEN_def)

lemma ex_seal_total: "seal_total ex_env"
  by (simp add: seal_total_def ex_seal_meta)

section \<open>A token\<close>

definition ex_seal :: "slot \<Rightarrow> slot" where
  "ex_seal s = s\<lparr>sl_meta_tag := buf_write 32 (rev (slot_meta_wire (sl_meta s)))\<rparr>"

lemma ex_sealed [simp]: "sealed ex_env (ex_seal s)"
  by (simp add: sealed_def ex_seal_meta ex_seal_def)

lemma ex_seal_parts [simp]:
  "sl_meta (ex_seal s) = sl_meta s" "slot_inv sid (ex_seal s) = (slot_inv sid (s\<lparr>sl_meta_tag := replicate 32 0\<rparr>))"
  "sl_has_user_pin (ex_seal s) = sl_has_user_pin s" "sl_has_so_pin (ex_seal s) = sl_has_so_pin s"
  "sl_sk (ex_seal s) = sl_sk s" "sl_pk (ex_seal s) = sl_pk s" "sl_pre_lock (ex_seal s) = sl_pre_lock s"
  "sl_pin_key (ex_seal s) = sl_pin_key s" "sl_user_salt (ex_seal s) = sl_user_salt s"
  "sl_user_verifier (ex_seal s) = sl_user_verifier s" "sl_hw_resident (ex_seal s) = sl_hw_resident s"
  "sl_has_seed (ex_seal s) = sl_has_seed s"
  by (simp_all add: ex_seal_def slot_inv_def wf_arrays_def SLOT_META_TAG_LEN_def)

text \<open>Slot 0 holds an ML-DSA-44 signing key, with both PINs set; slot 1 is as it left the factory.\<close>

definition ex_meta :: slot_meta where
  "ex_meta = (blank_meta 0 1)\<lparr>m_alg := PQC_ALG_ML_DSA_44, m_usage := KEY_USAGE_SIGN, m_state := SLOT_ST_LOADED\<rparr>"

definition ex_key_slot :: slot where
  "ex_key_slot =
     (blank_slot 0)\<lparr>sl_meta := ex_meta, sl_user_verifier := replicate VERIFIER_LEN 9,
        sl_has_so_pin := True, sl_has_user_pin := True,
        sl_pk := Some (replicate 1312 1), sl_sk := Some (replicate 2560 2)\<rparr>"

definition ex_session :: "hsm_role \<Rightarrow> u32 \<Rightarrow> session" where
  "ex_session role gen = \<lparr>se_open = True, se_slot = 0, se_role = role, se_gen = gen\<rparr>"

text \<open>The session ids: user, security officer, nobody.\<close>

definition ex_user :: u64 where "ex_user = 0x100000001"
definition ex_so :: u64 where "ex_so = 0x200000002"
definition ex_public :: u64 where "ex_public = 0x300000003"

definition ex_world :: world where
  "ex_world = \<lparr>tick = 0, st_state = ST_PASSED, st_failures = 0, files = Map.empty\<rparr>"

definition ex_tok :: hsm_token where
  "ex_tok = world.extend ex_world
     \<lparr>slots = [ex_seal ex_key_slot, ex_seal (blank_slot 1)],
      sessions = [ex_session HSM_ROLE_USER 1, ex_session HSM_ROLE_SO 2, ex_session HSM_ROLE_PUBLIC 3]
                 @ replicate 13 blank_session,
      session_gen = 3, audit = None, persist_fn = Some [], persist_busy = False\<rparr>"

lemma ex_tok_simps [simp]:
  "slots ex_tok = [ex_seal ex_key_slot, ex_seal (blank_slot 1)]"
  "sessions ex_tok = [ex_session HSM_ROLE_USER 1, ex_session HSM_ROLE_SO 2, ex_session HSM_ROLE_PUBLIC 3]
      @ replicate 13 blank_session"
  "session_gen ex_tok = 3" "audit ex_tok = None" "persist_fn ex_tok = Some []" "\<not> persist_busy ex_tok"
  "tick ex_tok = 0" "st_state ex_tok = ST_PASSED" "files ex_tok = Map.empty"
  by (simp_all add: ex_tok_def world.extend_def ex_world_def)

lemma ex_meta_wf: "wf_meta ex_meta"
  by (simp add: wf_meta_def ex_meta_def blank_meta_def SLOT_LABEL_MAX_def)

lemma ex_key_inv: "slot_inv 0 (ex_key_slot\<lparr>sl_meta_tag := replicate 32 0\<rparr>)"
  using ex_meta_wf
  by (simp add: slot_inv_def ex_key_slot_def wf_arrays_def blank_slot_def key_fits_def key_ok_def
      SLOT_META_TAG_LEN_def ex_meta_def blank_meta_def validate_usage_def usage_bits HSM_PIN_MAX_FAILS_def)

lemma ex_blank_inv: "slot_inv 1 ((blank_slot 1)\<lparr>sl_meta_tag := replicate 32 0\<rparr>)"
  by (simp add: slot_inv_states blank_slot_def blank_meta_def wf_meta_def SLOT_LABEL_MAX_def
      wf_arrays_def SLOT_META_TAG_LEN_def no_key_def no_pins_def)

lemma ex_tok_inv: "tok_inv ex_tok"
  using ex_key_inv ex_blank_inv
  by (simp add: tok_inv_def dev_inv_def MAX_SESSIONS_def All_less_Suc session_inv_def ex_session_def
      blank_session_def ex_key_slot_def numeral_2_eq_2)

lemma ex_sessions [simp]:
  "session_info ex_tok ex_user = Inr (0, HSM_ROLE_USER)"
  "session_info ex_tok ex_so = Inr (0, HSM_ROLE_SO)"
  "session_info ex_tok ex_public = Inr (0, HSM_ROLE_PUBLIC)"
  by (simp_all add: session_info_def sess_idx_def sess_gen_def ex_user_def ex_so_def ex_public_def
      MAX_SESSIONS_def ex_session_def)


section \<open>Witnesses for the token\<close>

definition ex_h :: u64 where "ex_h = 0x100000001"

lemma ex_integrity [simp]: "slot_check_integrity ex_env (ex_seal s) = HSM_OK"
  by (simp add: slot_check_integrity_def slot_meta_verify_iff ex_seal_def ex_seal_meta SLOT_META_TAG_LEN_def)

lemma ex_reseal [simp]: "slot_reseal ex_env s = (HSM_OK, ex_seal s)"
  by (simp add: slot_reseal_def ex_seal_meta ex_seal_def)

lemma ex_key_state [simp]:
  "st_of ex_key_slot = SLOT_ST_LOADED" "m_usage (sl_meta ex_key_slot) = KEY_USAGE_SIGN"
  "m_slot_id (sl_meta ex_key_slot) = 0" "m_generation (sl_meta ex_key_slot) = 1"
  "m_alg (sl_meta ex_key_slot) = PQC_ALG_ML_DSA_44" "sl_has_user_pin ex_key_slot"
  "\<not> sl_hw_resident ex_key_slot" "sl_sk ex_key_slot = Some (replicate 2560 2)"
  by (simp_all add: ex_key_slot_def ex_meta_def blank_meta_def blank_slot_def)

lemma ex_handle [simp]: "check_handle ex_env (ex_seal ex_key_slot) ex_h = HSM_OK"
  by (simp add: check_handle_def ex_h_def)

lemma ex_commit [simp]: "commit_security_state ex_hook stt (tok\<lparr>persist_busy := False\<rparr>) = (stt, tok\<lparr>persist_busy := False\<rparr>)"
  by (simp add: commit_security_state_def slot_persist_def ex_hook_def split: option.splits)

lemma ex_commit_tok [simp]: "\<not> persist_busy tok \<Longrightarrow> commit_security_state ex_hook stt tok = (stt, tok)"
  using ex_commit[of stt tok] by (cases tok) simp

lemma slot_audit_none [simp]: "audit tok = None \<Longrightarrow> slot_audit E op role sl res det tok = tok"
  by (simp add: slot_audit_def)

lemma set_slot_simps [simp]:
  "audit (set_slot sid s tok) = audit tok" "persist_busy (set_slot sid s tok) = persist_busy tok"
  "slots (set_slot sid s tok) = (slots tok)[unat sid := s]"
  by (simp_all add: set_slot_def)

lemma ex_slot_0 [simp]: "slot_at ex_tok 0 = Some (ex_seal ex_key_slot)"
  by (simp add: slot_at_def)

lemma ex_destroys: "fst (hsm_object_destroy ex_env ex_hook ex_tok ex_user ex_h) = HSM_OK"
  by (simp add: hsm_object_destroy_def require_role_def destroy_locked_def fsm_apply_simps)

lemma ex_boots: "\<exists>tok w'. hsm_token_new ex_env 2 ex_world = (Some tok, w')"
  by (auto simp: hsm_token_new_def numeral_2_eq_2 Let_def)

lemma token_always_safe_witness:
  "\<exists>tok w'. hsm_token_new ex_env 2 ex_world = (Some tok, w') \<and>
     tok_inv (tok_run ex_env ex_hook
       [Init 0 (Some []) (Some (replicate 4 5)), Session_Open 0 True, Zeroize_Forced 0] tok)"
proof -
  obtain tok w' where t: "hsm_token_new ex_env 2 ex_world = (Some tok, w')" using ex_boots by blast
  show ?thesis
    using t token_always_safe[OF t ex_seal_total ex_hook_ok,
        of "[Init 0 (Some []) (Some (replicate 4 5)), Session_Open 0 True, Zeroize_Forced 0]"]
    by auto
qed

lemma tok_exec_refines_witness:
  "dev_step ex_env (Destroy ex_user ex_h) HSM_OK (dev_of ex_tok)
     (dev_of (snd (tok_exec ex_env ex_hook (Destroy ex_user ex_h) ex_tok))) \<and>
   fst (tok_exec ex_env ex_hook (Destroy ex_public ex_h) ex_tok) \<noteq> HSM_OK \<and>
   snd (tok_exec ex_env ex_hook (Destroy ex_public ex_h) ex_tok) = ex_tok"
proof -
  have ok: "tok_exec ex_env ex_hook (Destroy ex_user ex_h) ex_tok =
      (HSM_OK, snd (tok_exec ex_env ex_hook (Destroy ex_user ex_h) ex_tok))"
    using ex_destroys by (metis prod.collapse tok_exec.simps(11))
  have "\<not> permitted (sessions ex_tok) (Destroy ex_public ex_h) i" for i
    using session_info_granted[of ex_tok ex_public] by auto
  then show ?thesis
    using tok_exec_refines[OF ex_tok_inv ex_seal_total ex_hook_ok _ ok]
      tok_exec_refines[OF ex_tok_inv ex_seal_total ex_hook_ok _ prod.collapse[symmetric], of "Destroy ex_public ex_h"]
    by (simp del: tok_exec.simps permitted.simps)
qed

lemma unauthorized_refused_witness:
  "fst (hsm_object_destroy ex_env ex_hook ex_tok ex_public ex_h) \<noteq> HSM_OK \<and>
   snd (hsm_object_destroy ex_env ex_hook ex_tok ex_public ex_h) = ex_tok"
  using unauthorized_refused[of "Destroy ex_public ex_h" ex_public HSM_ROLE_USER ex_tok ex_env ex_hook
      "fst (tok_exec ex_env ex_hook (Destroy ex_public ex_h) ex_tok)"
      "snd (tok_exec ex_env ex_hook (Destroy ex_public ex_h) ex_tok)"]
  by simp

lemma slot_isolation_witness:
  "slots (snd (tok_exec ex_env ex_hook (Destroy ex_user ex_h) ex_tok)) ! 1 = ex_seal (blank_slot 1)"
  using slot_isolation[OF ex_hook_ok prod.collapse[symmetric], of ex_env "Destroy ex_user ex_h" ex_tok]
  by (simp add: session_slot_def del: tok_exec.simps)

lemma handle_names_slot_witness:
  "check_handle ex_env (slots ex_tok ! 0) (make_handle (slots ex_tok ! 0)) = HSM_OK \<and>
   check_handle ex_env (slots ex_tok ! 1) (make_handle (slots ex_tok ! 0)) = HSM_ERR_BAD_HANDLE"
  using handle_names_slot[OF ex_tok_inv, of 0 0 ex_env] handle_names_slot[OF ex_tok_inv, of 0 1 ex_env]
  by simp

lemma destroyed_handle_dead_witness:
  "fst (hsm_object_destroy ex_env ex_hook ex_tok ex_user ex_h) = HSM_OK \<and>
   dead_handle ex_env ex_hook (tok_run ex_env ex_hook [Generate ex_user PQC_ALG_ML_DSA_44 4 0 True]
     (snd (hsm_object_destroy ex_env ex_hook ex_tok ex_user ex_h))) ex_h"
proof -
  obtain tok1 where d: "hsm_object_destroy ex_env ex_hook ex_tok ex_user ex_h = (HSM_OK, tok1)"
    using ex_destroys by (metis prod.collapse)
  show ?thesis
    using destroyed_handle_dead[OF ex_tok_inv ex_seal_total ex_hook_ok d,
        of "[Generate ex_user PQC_ALG_ML_DSA_44 4 0 True]"] d
    by simp
qed


lemma zeroized_handles_dead_witness:
  "dead_handle ex_env ex_hook (snd (hsm_slot_zeroize_forced ex_env ex_hook ex_tok 0)) ex_h"
  using zeroized_handles_dead[OF ex_tok_inv ex_seal_total ex_hook_ok ex_slot_0 ex_handle
      prod.collapse[symmetric], of "[]"]
  by simp

text \<open>The booted token, and a session opened on it.\<close>

lemma closed_session_dead_witness:
  "\<exists>tok0 w'. hsm_token_new ex_env 2 ex_world = (Some tok0, w') \<and>
     fst (hsm_session_close (tok_run ex_env ex_hook [Session_Open 0 True] tok0) ex_h) = HSM_OK \<and>
     session_info (tok_run ex_env ex_hook [Session_Open 0 True]
       (snd (hsm_session_close (tok_run ex_env ex_hook [Session_Open 0 True] tok0) ex_h))) ex_h =
     Inl HSM_ERR_BAD_ARG"
proof -
  obtain tok0 w' where t: "hsm_token_new ex_env 2 ex_world = (Some tok0, w')" using ex_boots by blast
  then have f: "length (slots tok0) = 2" "sessions tok0 = replicate 16 blank_session"
    "session_gen tok0 = 0"
    by (auto simp: hsm_token_new_def numeral_2_eq_2 Let_def world.extend_def MAX_SESSIONS_def)
  have i: "free_index (replicate 16 blank_session) = Some 0"
    by (simp add: free_index_def MAX_SESSIONS_def blank_session_def upt_rec)
  have c: "fst (hsm_session_close (tok_run ex_env ex_hook [Session_Open 0 True] tok0) ex_h) = HSM_OK"
    by (simp add: hsm_session_open_def slot_at_def f i hsm_session_close_def ex_h_def sess_idx_def
        sess_gen_def MAX_SESSIONS_def Let_def)
  show ?thesis
    using t c closed_session_dead[OF t ex_seal_total ex_hook_ok _ _ _ prod_eqI, of "[Session_Open 0 True]"
        "[Session_Open 0 True]" ex_h "snd (hsm_session_close (tok_run ex_env ex_hook [Session_Open 0 True] tok0) ex_h)"]
    by (simp del: tok_run.simps)
qed

lemma ex_wrong_pin: "wrong_pin ex_env (ex_seal ex_key_slot) [1, 2, 3, 4]"
proof -
  have "sl_user_salt ex_key_slot = replicate 16 0" "sl_pin_key ex_key_slot = replicate 32 0"
    "sl_user_verifier ex_key_slot = replicate 32 9"
    by (simp_all add: ex_key_slot_def blank_slot_def PIN_SALT_LEN_def VERIFIER_LEN_def)
  moreover have "buf_write 32 d \<noteq> replicate 32 9" if "length d = 28" for d
  proof
    assume "buf_write 32 d = replicate 32 9"
    then have "buf_write 32 d ! 31 = 9" by simp
    then show False using that by (simp add: buf_write_def nth_append)
  qed
  ultimately show ?thesis
    by (simp add: wrong_pin_def user_verifier_def pin_verifier_def VERIFIER_LEN_def HSM_PIN_MAX_LEN_def
        c_strlen_def c_string_def pqc_kmac256_def)
qed

lemma pin_lockout_witness:
  "st_of (slots (guess_all ex_env ex_hook (replicate 3 (ex_public, [1, 2, 3, 4])) ex_tok) ! 0) = SLOT_ST_LOCKED \<and>
   fst (hsm_session_login ex_env ex_hook
      (guess_all ex_env ex_hook (replicate 3 (ex_public, [1, 2, 3, 4])) ex_tok) ex_user HSM_ROLE_USER (Some [])) =
     HSM_ERR_PIN_LOCKED"
  using pin_lockout[OF ex_tok_inv ex_seal_total ex_hook_ok, of 0 "replicate 3 (ex_public, [1, 2, 3, 4])"
      "[Session_Open 0 True, Unlock ex_user 0]"] ex_wrong_pin
  by simp

lemma unlock_restores_witness:
  "\<exists>s'. unlock_locked ex_env (ex_seal (set_meta (m_state_update (\<lambda>_. SLOT_ST_LOCKED))
          (ex_key_slot\<lparr>sl_pre_lock := SLOT_ST_LOADED\<rparr>))) = (HSM_OK, s') \<and>
     st_of s' = SLOT_ST_LOADED \<and> sl_sk s' = Some (replicate 2560 2)"
proof -
  define s where "s = ex_seal (set_meta (m_state_update (\<lambda>_. SLOT_ST_LOCKED))
    (ex_key_slot\<lparr>sl_pre_lock := SLOT_ST_LOADED\<rparr>))"
  have inv: "slot_inv 0 s"
    using ex_key_inv
    by (simp add: s_def slot_inv_states(3,4) wf_meta_state wf_arrays_def key_fits_def)
  obtain stt s' where u: "unlock_locked ex_env s = (stt, s')" by (cases "unlock_locked ex_env s")
  have "stt = HSM_OK \<and> st_of s' = SLOT_ST_LOADED \<and> sl_sk s' = Some (replicate 2560 2)"
    using unlock_restores[OF inv ex_seal_total _ _ u] by (simp add: s_def)
  then show ?thesis using u by (simp add: s_def)
qed

text \<open>The same device with slot 0 initialised and still empty.\<close>

definition ex_empty_slot :: slot where
  "ex_empty_slot =
     (blank_slot 0)\<lparr>sl_meta := (blank_meta 0 1)\<lparr>m_state := SLOT_ST_EMPTY\<rparr>,
        sl_has_so_pin := True, sl_has_user_pin := True\<rparr>"

definition ex_empty_tok :: hsm_token where
  "ex_empty_tok = ex_tok\<lparr>slots := [ex_seal ex_empty_slot, ex_seal (blank_slot 1)]\<rparr>"

lemma ex_empty_inv: "slot_inv 0 (ex_empty_slot\<lparr>sl_meta_tag := replicate 32 0\<rparr>)"
  by (simp add: slot_inv_states ex_empty_slot_def blank_slot_def blank_meta_def wf_meta_def
      SLOT_LABEL_MAX_def wf_arrays_def SLOT_META_TAG_LEN_def no_key_def)

lemma ex_empty_tok_inv: "tok_inv ex_empty_tok"
  using ex_empty_inv ex_blank_inv
  by (simp add: tok_inv_def dev_inv_def ex_empty_tok_def MAX_SESSIONS_def All_less_Suc session_inv_def
      ex_session_def blank_session_def ex_empty_slot_def numeral_2_eq_2)

lemma ex_empty_session [simp]: "session_info ex_empty_tok s = session_info ex_tok s"
  by (simp add: session_info_def ex_empty_tok_def)

lemma ex_empty_simps [simp]:
  "slots ex_empty_tok = [ex_seal ex_empty_slot, ex_seal (blank_slot 1)]" "audit ex_empty_tok = None"
  "\<not> persist_busy ex_empty_tok" "st_state ex_empty_tok = ST_PASSED" "st_of ex_empty_slot = SLOT_ST_EMPTY"
  by (simp_all add: ex_empty_tok_def ex_empty_slot_def)

lemma ex_random [simp]:
  "pqc_random_bytes ex_env (Some buf) w =
     (if length buf = 0 \<or> length buf > INT_MAX then (False, buf, w)
      else (True, replicate (length buf) 7, next_tick w))"
  by (simp add: pqc_random_bytes_def Let_def hwrng_is_hardware_def ex_rng_def)

lemma ex_backend [simp]:
  "has_be ex_env be_keypair_from_seed = Some (\<lambda>a sd t. Inr (sd, rev sd))"
  "has_be ex_env be_sign = Some (\<lambda>a k m c r cap t. Inr (take (min cap (ex_sig_len a)) m))"
  "has_be ex_env be_encaps = Some (\<lambda>a p t. Inr (replicate (case pqc_alg_info a of None \<Rightarrow> 0 | Some i \<Rightarrow> ai_ct_len i) 3,
                                             replicate 32 4))"
  "has_be ex_env be_decaps = Some (\<lambda>a k c t. Inr (replicate 32 4))"
  "pqc_backend_has_hw_keys_kind ex_env k = False"
  by (simp_all add: has_be_def pqc_get_backend_def ex_backend_def pqc_backend_has_hw_keys_kind_def)

lemma ex_generates:
  "\<exists>h tok'. hsm_slot_generate ex_env ex_hook ex_empty_tok ex_user PQC_ALG_ML_DSA_44 KEY_USAGE_SIGN
     SLOT_POLICY_SEED_STORAGE True = (HSM_OK, Some h, tok')"
proof -
  have c: "\<exists>h s' w'. create_locked ex_env (ex_seal ex_empty_slot) PQC_ALG_ML_DSA_44 KEY_USAGE_SIGN
      SLOT_POLICY_SEED_STORAGE None 0 SLOT_EV_GENERATE ex_empty_tok = (Inr h, s', w') \<and>
      audit w' = None \<and> \<not> persist_busy w'"
    by (simp add: create_locked_def fsm_apply_simps install_key_def validate_usage_def usage_bits
        policy_bits install_software_def pqc_secure_alloc_def INT_MAX_def pqc_keypair_from_seed_def
        pqc_self_test_passed_def install_finish_def next_tick_def)
  have r: "require_role ex_empty_tok ex_user HSM_ROLE_USER = Inr 0"
    "slot_at ex_empty_tok 0 = Some (ex_seal ex_empty_slot)"
    "\<not> policy_denied_by_profile ex_env SLOT_POLICY_SEED_STORAGE"
    by (simp_all add: require_role_def slot_at_def policy_denied_by_profile_def pqc_profile_is_production_def)
  show ?thesis
    using c by (auto simp: hsm_slot_generate_def create_object_def r res_status_def)
qed

lemma seed_storage_policy_witness:
  "\<exists>h tok'. hsm_slot_generate ex_env ex_hook ex_empty_tok ex_user PQC_ALG_ML_DSA_44 KEY_USAGE_SIGN
      SLOT_POLICY_SEED_STORAGE True = (HSM_OK, Some h, tok') \<and> sl_sk (slots tok' ! 0) = None"
proof -
  obtain h tok' where g: "hsm_slot_generate ex_env ex_hook ex_empty_tok ex_user PQC_ALG_ML_DSA_44
      KEY_USAGE_SIGN SLOT_POLICY_SEED_STORAGE True = (HSM_OK, Some h, tok')"
    using ex_generates by blast
  show ?thesis
    using g seed_storage_policy[OF ex_empty_tok_inv ex_seal_total ex_hook_ok, of ex_user PQC_ALG_ML_DSA_44
        KEY_USAGE_SIGN SLOT_POLICY_SEED_STORAGE None 0 True HSM_OK h tok' 0 HSM_ROLE_USER]
    by (auto simp: policy_bits)
qed

lemma ex_create_refused:
  "\<exists>tok'. hsm_slot_generate ex_env ex_hook ex_tok ex_user PQC_ALG_ML_DSA_44 KEY_USAGE_SIGN 0 True =
     (HSM_ERR_BAD_STATE, None, tok')"
proof -
  have c: "create_locked ex_env (ex_seal ex_key_slot) PQC_ALG_ML_DSA_44 KEY_USAGE_SIGN 0 None 0
      SLOT_EV_GENERATE ex_tok = (Inl HSM_ERR_BAD_STATE, ex_seal ex_key_slot, ex_tok)"
    by (simp add: create_locked_def fsm_apply_simps)
  have r: "require_role ex_tok ex_user HSM_ROLE_USER = Inr 0" "\<not> policy_denied_by_profile ex_env 0"
    by (simp_all add: require_role_def policy_denied_by_profile_def)
  show ?thesis by (simp add: hsm_slot_generate_def create_object_def r c res_status_def)
qed

lemma create_rolls_back_witness:
  "\<exists>tok'. hsm_slot_generate ex_env ex_hook ex_tok ex_user PQC_ALG_ML_DSA_44 KEY_USAGE_SIGN 0 True =
      (HSM_ERR_BAD_STATE, None, tok') \<and> (slots tok' = slots ex_tok \<or>
      (\<exists>sid tag. unat sid < length (slots ex_tok) \<and>
         slots tok' = (slots ex_tok)[unat sid := (slots ex_tok ! unat (sid :: u32))\<lparr>sl_meta_tag := tag\<rparr>]))"
proof -
  obtain tok' where g: "hsm_slot_generate ex_env ex_hook ex_tok ex_user PQC_ALG_ML_DSA_44 KEY_USAGE_SIGN 0
      True = (HSM_ERR_BAD_STATE, None, tok')"
    using ex_create_refused by blast
  show ?thesis
    using g create_rolls_back[OF ex_seal_total ex_hook_ok, of ex_user PQC_ALG_ML_DSA_44 KEY_USAGE_SIGN 0
        None 0 True ex_tok HSM_ERR_BAD_STATE tok']
    by auto
qed

text \<open>Signing with the key in slot 0.\<close>

lemma ex_signs:
  "\<exists>tok'. hsm_object_sign ex_env ex_tok ex_user ex_h (Some [1, 2]) 2 None 0 (Some 2420) True =
     (HSM_OK, Some [1, 2], tok')"
proof -
  have b: "begin_use ex_env (ex_seal ex_key_slot) ex_h KEY_USAGE_SIGN ex_tok =
      (Inr (Some (replicate 2560 2)), set_meta (m_state_update (\<lambda>_. SLOT_ST_IN_USE)) (ex_seal ex_key_slot), ex_tok)"
    by (simp add: begin_use_def fsm_apply_simps borrow_secret_def usage_bits)
  have k: "pqc_sign ex_env PQC_ALG_ML_DSA_44 (Some (replicate 2560 2)) (Some [1, 2]) 2 None 0 None
      (Some 2420) ex_tok = (Inr [1, 2], next_tick ex_tok)"
    by (simp add: pqc_sign_def prologue_def pqc_self_test_passed_def bad_msg_ctx_def)
  have "require_role ex_tok ex_user HSM_ROLE_USER = Inr 0" by (simp add: require_role_def)
  then show ?thesis
    by (simp add: hsm_object_sign_def sign_locked_def b k end_use_def Let_def next_tick_def)
qed

lemma use_only_if_allowed_witness: "use_allowed ex_env ex_tok ex_user ex_h KEY_USAGE_SIGN"
  using ex_signs conjunct1[OF use_only_if_allowed, of ex_env ex_tok ex_user ex_h "Some [1, 2]" 2 None 0
      "Some 2420" True]
  by auto

text \<open>The same device with a slot whose seal is wrong.\<close>

definition ex_broken_tok :: hsm_token where
  "ex_broken_tok = ex_tok\<lparr>slots := [ex_key_slot\<lparr>sl_meta_tag := replicate 32 0xFF\<rparr>, ex_seal (blank_slot 1)]\<rparr>"

lemma ex_broken: "slot_check_integrity ex_env (ex_key_slot\<lparr>sl_meta_tag := replicate 32 0xFF\<rparr>) \<noteq> HSM_OK"
proof -
  have "rev (slot_meta_wire ex_meta) ! 0 = 0"
    by (simp add: slot_meta_wire_def ex_meta_def blank_meta_def le_bytes_def upt_rec rev_nth)
  moreover have "slot_meta_wire ex_meta \<noteq> []" by (simp add: slot_meta_wire_def le_bytes_def)
  ultimately have "buf_write 32 (rev (slot_meta_wire ex_meta)) ! 0 = 0"
    by (simp add: buf_write_def nth_append)
  moreover have "(replicate 32 0xFF :: bytes) ! 0 = 0xFF" by simp
  moreover have "(0 :: byte) \<noteq> 0xFF" by simp
  ultimately have "buf_write 32 (rev (slot_meta_wire ex_meta)) \<noteq> replicate 32 0xFF" by metis
  then show ?thesis
    by (simp add: slot_check_integrity_def slot_meta_verify_iff SLOT_META_TAG_LEN_def ex_seal_meta
        ex_key_slot_def)
qed

lemma broken_seal_freezes_witness:
  "fst (tok_exec ex_env ex_hook (Login ex_so HSM_ROLE_SO (Some [])) ex_broken_tok) \<noteq> HSM_OK \<and>
   slots (snd (tok_exec ex_env ex_hook (Login ex_so HSM_ROLE_SO (Some [])) ex_broken_tok)) = slots ex_broken_tok"
proof -
  have "session_info ex_broken_tok ex_so = session_info ex_tok ex_so"
    by (simp add: session_info_def ex_broken_tok_def)
  then have "op_target ex_broken_tok (Login ex_so HSM_ROLE_SO (Some [])) = Some 0"
    by (simp add: session_slot_def)
  then show ?thesis
    using broken_seal_freezes[OF ex_hook_ok, of ex_broken_tok "Login ex_so HSM_ROLE_SO (Some [])" 0 ex_env]
      ex_broken
    by (auto simp: ex_broken_tok_def simp del: tok_exec.simps intro: prod.collapse[symmetric])
qed

lemma ok_means_stored_witness:
  "stored ex_hook [] ex_tok (snd (hsm_object_destroy ex_env ex_hook ex_tok ex_user ex_h))"
proof -
  obtain tok' where "hsm_object_destroy ex_env ex_hook ex_tok ex_user ex_h = (HSM_OK, tok')"
    using ex_destroys by (metis prod.collapse)
  then show ?thesis
    using ok_means_stored[of ex_env ex_hook "Destroy ex_user ex_h" ex_tok tok' "[]"] ex_hook_ok by simp
qed

text \<open>The device with a dead random number generator.\<close>

abbreviation ex_no_rng :: env where
  "ex_no_rng \<equiv> ex_env\<lparr>rand_bytes := \<lambda>t n. (False, [])\<rparr>"

lemma ex_no_rng_seal: "slot_meta_seal ex_no_rng m = slot_meta_seal ex_env m"
proof -
  have k: "pqc_kmac256 ex_no_rng = pqc_kmac256 ex_env" by (intro ext) (simp add: pqc_kmac256_def)
  have d: "pqc_kdr_derive ex_no_rng = pqc_kdr_derive ex_env"
    by (intro ext) (simp add: pqc_kdr_derive_def pqc_kdr_derive_st_def stub_derive_def pqc_kdf_def k
        pqc_kdr_get_provider_def ex_kdr_def)
  show ?thesis unfolding slot_meta_seal_def derive_meta_key_def k d ..
qed

lemma init_failure_breaks_seal_witness:
  "\<exists>s' w'. init_token_locked ex_no_rng (ex_seal (blank_slot 1)) [] (replicate 4 5) ex_tok =
      (HSM_ERR_CRYPTO, s', w') \<and> st_of s' = SLOT_ST_EMPTY \<and> sl_meta_tag s' = sl_meta_tag (ex_seal (blank_slot 1))"
proof -
  have tot: "seal_total ex_no_rng" using ex_seal_total by (simp add: seal_total_def ex_no_rng_seal)
  have sl: "sealed ex_no_rng (ex_seal (blank_slot 1))"
    using ex_sealed by (simp add: sealed_def ex_no_rng_seal)
  have inv: "slot_inv 1 (ex_seal (blank_slot 1))" using ex_blank_inv by simp
  have st: "st_of (ex_seal (blank_slot 1)) = SLOT_ST_UNINIT" by (simp add: blank_slot_def blank_meta_def)
  have "slot_check_integrity ex_no_rng (ex_seal (blank_slot 1)) = HSM_OK"
    using sl inv check_integrity_iff slot_inv_arrays by blast
  then obtain s' w' where i: "init_token_locked ex_no_rng (ex_seal (blank_slot 1)) [] (replicate 4 5) ex_tok =
      (HSM_ERR_CRYPTO, s', w')"
    using st by (auto simp: init_token_locked_def fsm_apply_simps pqc_random_bytes_def Let_def
        hwrng_is_hardware_def ex_rng_def blank_slot_def INT_MAX_def)
  show ?thesis using i init_failure_breaks_seal[OF inv tot sl st i] by blast
qed

end
