(* ===== verification/Example_Store.thy ===== *)
theory Example_Store
  imports Example
begin

text \<open>
  Witnesses for the components below and beside the token: the entropy source, the root key, the
  dispatch of algorithms, metadata, wrapping, stored slots, the anchor, the key store and the log.
\<close>

section \<open>Entropy, root key, dispatch\<close>

text \<open>A register file that is always ready and hands out the same word.\<close>

definition ex_transport :: "unit hwrng_transport" where
  "ex_transport =
     \<lparr>tr_is_hardware = True, write_reg = (\<lambda>off v d. d),
      read_reg = (\<lambda>off d. (if off = HWRNG_REG_STATUS then HWRNG_ST_READY OR HWRNG_ST_DATA_VALID else 0xAABBCCDD, d))\<rparr>"

lemma ex_fill:
  "hwrng_bytes \<lparr>g_tr = Some (logged ex_transport), g_bs = None\<rparr> (Some [0, 0]) ((), []) =
     (HWRNG_OK, [0xDD, 0xCC], (), [Rd HWRNG_REG_STATUS 3, Rd HWRNG_REG_RDATA 0xAABBCCDD,
        Rd HWRNG_REG_STATUS 3, Rd HWRNG_REG_STATUS 3])"
  by (simp add: hwrng_bytes_def Let_def ex_transport_def logged_def wait_ready_locked.simps
      wait_data_locked.simps hwrng_words.simps HWRNG_POLL_LIMIT_def hwrng_bits hwrng_regs le_bytes_def upt_rec)

lemma hwrng_pops_guarded_witness:
  "pops_guarded [Rd HWRNG_REG_STATUS 3, Rd HWRNG_REG_RDATA 0xAABBCCDD,
     Rd HWRNG_REG_STATUS 3, Rd HWRNG_REG_STATUS 3]"
  by (rule hwrng_pops_guarded[OF ex_fill])

lemma hwrng_batch_witness:
  "[0xDD, 0xCC] = take 2 (concat (map put_u32 (popped [Rd HWRNG_REG_STATUS 3,
     Rd HWRNG_REG_RDATA 0xAABBCCDD, Rd HWRNG_REG_STATUS 3, Rd HWRNG_REG_STATUS 3])))"
  using hwrng_batch[OF ex_fill] by (simp add: numeral_2_eq_2)

definition ex_hw_kdr :: kdr_provider where
  "ex_hw_kdr = \<lparr>kp_derive = Some (\<lambda>l s n. Some (replicate n 1)), kp_hardware_backed = True, kp_device_bound = True\<rparr>"

lemma production_root_is_hardware_witness:
  "\<exists>k. fst (pqc_profile_startup_check True k) \<and> pqc_kdr_get_provider k \<noteq> Some Stub_Provider \<and>
     pqc_kdr_is_hardware_backed k"
proof -
  define E where "E = ex_env\<lparr>production := True\<rparr>"
  define k where "k = pqc_kdr_set_provider (Some (Ext_Provider ex_hw_kdr)) kdr_start"
  have p: "production E" by (simp add: E_def)
  have "kdr_step E kdr_start k" unfolding k_def by (rule kdr_step.install_ext)
  then have r: "(kdr_step E)\<^sup>*\<^sup>* kdr_start k" by blast
  have s: "fst (pqc_profile_startup_check True k)"
    by (simp add: pqc_profile_startup_check_def k_def pqc_kdr_set_provider_def pqc_kdr_get_provider_def ex_hw_kdr_def)
  show ?thesis using production_root_is_hardware[OF r p] p s by auto
qed

definition ex_failed :: world where "ex_failed = ex_world\<lparr>st_state := ST_FAILED\<rparr>"

lemma error_state_blocks_witness:
  "pqc_sign ex_env PQC_ALG_ML_DSA_44 (Some [1]) (Some [2]) 1 None 0 None (Some 2420) ex_failed =
     (Inl PQC_ERR_SELF_TEST, ex_failed)"
  by (intro error_state_blocks[THEN conjunct2, THEN conjunct2, THEN conjunct2, THEN conjunct2,
        THEN conjunct2, THEN conjunct1]) (simp add: ex_failed_def)

lemma self_test_exact_witness: "fst (pqc_self_test ex_env ex_world) AND 0x19 = 0x19"
proof -
  have "\<not> st_sha3 ex_env"
    by (simp add: st_sha3_def pqc_sha3_256_def SHA3_MSG_def SHA3_EXP_def buf_write_def pqc_ct_equal_iff)
  then show ?thesis using self_test_exact[of ex_env ex_world] by blast
qed

definition ex_hw_env :: env where
  "ex_hw_env = ex_env\<lparr>installed_backend := Some (ex_backend
     \<lparr>be_keypair_hw := Some (\<lambda>a t. Inr ([1], 5)), be_decaps_hw := Some (\<lambda>a h c t. Inr [2]),
      be_sign_hw := Some (\<lambda>a h m c r cap t. Inr m)\<rparr>)\<rparr>"

lemma error_state_hw_not_blocked_witness:
  "fst (pqc_sign_hw ex_hw_env PQC_ALG_ML_DSA_44 5 (Some [7]) 1 None 0 None (Some 2420) ex_failed) = Inr [7]"
proof -
  have be: "has_be ex_hw_env be_keypair_hw = Some (\<lambda>a t. Inr ([1], 5))"
    "has_be ex_hw_env be_decaps_hw = Some (\<lambda>a h c t. Inr [2])"
    "has_be ex_hw_env be_sign_hw = Some (\<lambda>a h m c r cap t. Inr m)"
    by (simp_all add: has_be_def pqc_get_backend_def ex_hw_env_def)
  show ?thesis
    using error_state_hw_not_blocked[of ex_failed, OF _ be, of PQC_ALG_ML_DSA_44 _ "Some [7]" 1 None 0 5 "[]" None 2420]
    by (simp add: ex_failed_def bad_msg_ctx_def)
qed

section \<open>Metadata, wrapping, stored slots\<close>

lemma ex_wire_len: "length (slot_meta_wire ex_meta) = SLOT_META_WIRE_LEN"
  using ex_meta_wf by (simp add: length_slot_meta_wire wf_meta_def)

lemma meta_wire_exact_witness:
  "slot_meta_deserialize (slot_meta_wire ex_meta) SLOT_META_WIRE_LEN = Some ex_meta"
proof -
  have "take 32 (drop 8 (slot_meta_wire ex_meta)) = m_label ex_meta"
    using drop_wire(3)[of ex_meta "[]"] ex_meta_wf by (simp add: wf_meta_def)
  moreover have "take 32 (drop 8 (slot_meta_wire ex_meta)) ! 31 = slot_meta_wire ex_meta ! 39"
    using ex_wire_len by (simp add: SLOT_META_WIRE_LEN_def)
  ultimately have "slot_meta_wire ex_meta ! 39 = m_label ex_meta ! 31" by simp
  also have "\<dots> = 0" using ex_meta_wf by (simp add: wf_meta_def SLOT_LABEL_MAX_def)
  finally show ?thesis
    using meta_wire_exact[OF ex_meta_wf ex_wire_len] by (simp add: slot_meta_serialize_def)
qed

lemma meta_tag_binds_witness: "slot_meta_verify ex_env ex_meta (buf_write 32 (rev (slot_meta_wire ex_meta)))"
  using meta_tag_binds[OF ex_meta_wf ex_meta_wf ex_seal_meta] by blast

lemma ex_wrap:
  assumes "length kek = 32" "length pt + 44 \<le> cap" "length pt \<le> INT_MAX" "length aad \<le> INT_MAX"
  shows "pqc_wrap ex_env (Some kek) (length kek) (Some aad) (length aad) (Some pt) (length pt) (Some cap) True w =
     (Some (pwrp_hdr_put (of_nat (length aad)) (of_nat (length pt)) @ replicate 12 7 @ pt @ take 16 kek), next_tick w)"
  using assms
  by (simp add: pqc_wrap_def pqc_wrap_with_nonce_def Let_def gcm_seal_def wrap_consts pqc_wrap_blob_len_def
      INT_MAX_def buf_write_def)

definition ex_kek :: bytes where "ex_kek = replicate 32 1"

lemma length_ex_kek [simp]: "length ex_kek = 32"
  by (simp add: ex_kek_def)

lemma wrap_roundtrip_witness:
  "\<exists>blob w'. pqc_wrap ex_env (Some ex_kek) (length ex_kek) (Some [9]) (length [9 :: byte]) (Some [1, 2, 3])
       (length [1 :: byte, 2, 3]) (Some 100) True ex_world = (Some blob, w') \<and>
     fst (pqc_unwrap ex_env (Some ex_kek) (length ex_kek) (Some [9]) (length [9 :: byte]) (Some blob)
       (length blob) (Some (replicate 10 0)) True) = Some [1, 2, 3]"
proof -
  obtain blob w' where b: "pqc_wrap ex_env (Some ex_kek) (length ex_kek) (Some [9]) (length [9 :: byte])
      (Some [1, 2, 3]) (length [1 :: byte, 2, 3]) (Some 100) True ex_world = (Some blob, w')"
    using ex_wrap[of ex_kek "[1, 2, 3]" 100 "[9]" ex_world] by (simp add: INT_MAX_def)
  show ?thesis using b wrap_roundtrip[OF b ex_gcm, of "replicate 10 0"] by auto
qed

text \<open>Every good slot is stored and loaded in this device.\<close>

lemma ex_alloc [simp]: "0 < n \<Longrightarrow> pqc_secure_alloc ex_env n w = (Some (replicate n 0), next_tick w)"
  by (simp add: pqc_secure_alloc_def)

lemma ex_serialize:
  assumes "slot_inv sid s" "length kek = 32"
  shows "\<exists>blob w'. slot_serialize_locked ex_env s (Some kek) (length kek) (Some hsm_slot_blob_max) True w =
     (Inr blob, w') \<and> length blob \<le> hsm_slot_blob_max"
proof -
  have lm: "length (slot_meta_wire (sl_meta s)) = SLOT_META_WIRE_LEN"
    using assms(1) by (simp add: slot_inv_def wf_meta_def length_slot_meta_wire)
  have pl: "length (slot_payload s) \<le> PAYLOAD_MAX" using payload_len[OF assms(1)] .
  have pos: "0 < PAYLOAD_MAX" by (simp add: payload_consts)
  have cap: "length (slot_payload s) + 44 \<le> hsm_slot_blob_max - SLOT_META_WIRE_LEN"
    using pl by (simp add: hsm_slot_blob_max_def pqc_wrap_blob_len_def wrap_consts)
  have small: "length (slot_payload s) \<le> INT_MAX" "length (slot_meta_wire (sl_meta s)) \<le> INT_MAX"
    using pl lm by (simp_all add: payload_consts INT_MAX_def SLOT_META_WIRE_LEN_def)
  show ?thesis
    using ex_wrap[OF assms(2) cap small, of "next_tick w"] pos lm pl cap
    by (simp add: slot_serialize_locked_def slot_meta_serialize_def PQC_KEK_LEN_def Let_def assms(2)
        pqc_wrap_blob_len_def wrap_consts hsm_slot_blob_max_def)
qed

lemma ex_deserialize:
  assumes "slot_serialize_locked ex_env s (Some kek) (length kek) cap bl w = (Inr blob, w')"
    and "slot_inv sid s" "sl_pre_lock s \<noteq> SLOT_ST_INVALID" "m_version (sl_meta s) = SLOT_META_VERSION"
    and "m_slot_id (sl_meta t) = sid"
  shows "\<exists>t' w2. slot_deserialize_locked ex_env t (Some kek) (length kek) (Some blob) (length blob) w1 =
     (HSM_OK, t', w2)"
proof -
  obtain stt t' w2 where d: "slot_deserialize_locked ex_env t (Some kek) (length kek) (Some blob)
      (length blob) w1 = (stt, t', w2)"
    by (metis prod_cases3)
  have "stt \<noteq> HSM_ERR_NOMEM"
    using d by (auto simp: slot_deserialize_locked_def Let_def pqc_secure_alloc_def payload_consts
        split: if_splits option.splits prod.splits)
  then have "slot_reseal ex_env ((forget_hw s)\<lparr>sl_meta_tag := sl_meta_tag t\<rparr>) = (stt, t')"
    using deserialize_serialized[OF assms(1-4) ex_gcm assms(5) d] by blast
  then show ?thesis using d by simp
qed

lemma ex_key_slot_parts [simp]:
  "sl_pre_lock ex_key_slot = SLOT_ST_EMPTY" "m_version (sl_meta ex_key_slot) = SLOT_META_VERSION"
  by (simp_all add: ex_key_slot_def ex_meta_def blank_meta_def blank_slot_def)

lemma persist_roundtrip_witness:
  "\<exists>blob t' w' w2.
     slot_serialize_locked ex_env (ex_seal ex_key_slot) (Some ex_kek) (length ex_kek) (Some hsm_slot_blob_max)
       True ex_world = (Inr blob, w') \<and>
     slot_deserialize_locked ex_env (blank_slot 0) (Some ex_kek) (length ex_kek) (Some blob) (length blob)
       ex_world = (HSM_OK, t', w2) \<and> (\<exists>tag. t' = (forget_hw (ex_seal ex_key_slot))\<lparr>sl_meta_tag := tag\<rparr>)"
proof -
  have inv: "slot_inv 0 (ex_seal ex_key_slot)" using ex_key_inv by simp
  have f: "sl_pre_lock (ex_seal ex_key_slot) \<noteq> SLOT_ST_INVALID"
    "m_version (sl_meta (ex_seal ex_key_slot)) = SLOT_META_VERSION" "m_slot_id (sl_meta (blank_slot 0)) = 0"
    by (simp_all add: blank_slot_def blank_meta_def)
  obtain blob w' where s: "slot_serialize_locked ex_env (ex_seal ex_key_slot) (Some ex_kek) (length ex_kek)
      (Some hsm_slot_blob_max) True ex_world = (Inr blob, w')"
    using ex_serialize[OF inv length_ex_kek] by blast
  obtain t' w2 where d: "slot_deserialize_locked ex_env (blank_slot 0) (Some ex_kek) (length ex_kek) (Some blob)
      (length blob) ex_world = (HSM_OK, t', w2)"
    using ex_deserialize[OF s inv f] by blast
  show ?thesis
    using s d persist_roundtrip[OF s inv f(1,2) ex_gcm ex_seal_total f(3) d] by blast
qed

text \<open>A slot whose key is in hardware.\<close>

definition ex_hw_slot :: slot where
  "ex_hw_slot = ex_key_slot\<lparr>sl_sk := None, sl_hw_resident := True, sl_hw_handle := 5\<rparr>"

lemma ex_hw_inv: "slot_inv 0 (ex_hw_slot\<lparr>sl_meta_tag := replicate 32 0\<rparr>)"
  using ex_key_inv
  by (auto simp: ex_hw_slot_def slot_inv_states wf_arrays_def key_fits_def key_ok_def split: if_splits)

lemma hw_slot_reloads_keyless_witness:
  "\<exists>blob t' w' w2.
     slot_serialize_locked ex_env (ex_seal ex_hw_slot) (Some ex_kek) (length ex_kek) (Some hsm_slot_blob_max)
       True ex_world = (Inr blob, w') \<and>
     slot_deserialize_locked ex_env (blank_slot 0) (Some ex_kek) (length ex_kek) (Some blob) (length blob)
       ex_world = (HSM_OK, t', w2) \<and> st_of t' = SLOT_ST_LOADED \<and> \<not> has_key t'"
proof -
  have inv: "slot_inv 0 (ex_seal ex_hw_slot)" using ex_hw_inv by simp
  have f: "sl_pre_lock (ex_seal ex_hw_slot) \<noteq> SLOT_ST_INVALID"
    "m_version (sl_meta (ex_seal ex_hw_slot)) = SLOT_META_VERSION" "m_slot_id (sl_meta (blank_slot 0)) = 0"
    "st_of (ex_seal ex_hw_slot) = SLOT_ST_LOADED" "sl_hw_resident (ex_seal ex_hw_slot)"
    by (simp_all add: ex_hw_slot_def blank_slot_def blank_meta_def)
  obtain blob w' where s: "slot_serialize_locked ex_env (ex_seal ex_hw_slot) (Some ex_kek) (length ex_kek)
      (Some hsm_slot_blob_max) True ex_world = (Inr blob, w')"
    using ex_serialize[OF inv length_ex_kek] by blast
  obtain t' w2 where d: "slot_deserialize_locked ex_env (blank_slot 0) (Some ex_kek) (length ex_kek) (Some blob)
      (length blob) ex_world = (HSM_OK, t', w2)"
    using ex_deserialize[OF s inv f(1-3)] by blast
  show ?thesis using s d hw_slot_reloads_keyless[OF s inv f(1,2) ex_gcm f(3-5) d] by blast
qed

lemma deserialize_checks_witness:
  "\<exists>blob t' w' w2.
     slot_serialize_locked ex_env (ex_seal ex_key_slot) (Some ex_kek) (length ex_kek) (Some hsm_slot_blob_max)
       True ex_world = (Inr blob, w') \<and>
     slot_deserialize_locked ex_env (blank_slot 0) (Some ex_kek) (length ex_kek) (Some blob) (length blob)
       ex_world = (HSM_OK, t', w2) \<and> wf_meta (sl_meta t') \<and> sealed ex_env t'"
proof -
  have inv: "slot_inv 0 (ex_seal ex_key_slot)" using ex_key_inv by simp
  have f: "sl_pre_lock (ex_seal ex_key_slot) \<noteq> SLOT_ST_INVALID"
    "m_version (sl_meta (ex_seal ex_key_slot)) = SLOT_META_VERSION" "m_slot_id (sl_meta (blank_slot 0)) = 0"
    by (simp_all add: blank_slot_def blank_meta_def)
  obtain blob w' where s: "slot_serialize_locked ex_env (ex_seal ex_key_slot) (Some ex_kek) (length ex_kek)
      (Some hsm_slot_blob_max) True ex_world = (Inr blob, w')"
    using ex_serialize[OF inv length_ex_kek] by blast
  obtain t' w2 where d: "slot_deserialize_locked ex_env (blank_slot 0) (Some ex_kek) (length ex_kek) (Some blob)
      (length blob) ex_world = (HSM_OK, t', w2)"
    using ex_deserialize[OF s inv, of "blank_slot 0"] f by blast
  show ?thesis using s d deserialize_checks[OF d ex_seal_total] by blast
qed

section \<open>The anchor\<close>

lemma ex_bump:
  assumes "anchor_tmp scope \<noteq> anchor_path scope"
  shows "\<exists>v w'. file_bump ex_env scope w = (Some v, w')"
proof -
  obtain n w1 where r: "file_read ex_env scope w = (Some n, w1)" using file_read_perfect[OF ex_io] by blast
  obtain ok w2 where f: "file_write ex_env scope (n + 1) w1 = (ok, w2)" by fastforce
  show ?thesis using r f file_write_perfect[OF ex_io f assms] by (simp add: file_bump_def)
qed

lemma ex_bumps: "c_strlen scope \<le> 500 \<Longrightarrow> \<exists>w'. fa.bumps ex_env scope k w = Some w'"
proof (induction k arbitrary: w)
  case (Suc k)
  obtain v w1 where b: "file_bump ex_env (Some scope) w = (Some v, w1)"
    using ex_bump[OF tmp_differs[OF Suc.prems]] by blast
  then show ?case using Suc.IH[OF Suc.prems, of w1] by simp
qed simp

lemma file_anchor_counts_witness:
  "\<exists>w'. fa.bumps ex_env [97] 2 ex_world = Some w' \<and> fst (file_read ex_env (Some [97]) w') = Some 2"
proof -
  have c: "c_strlen [97] \<le> 500" by (simp add: c_strlen_def)
  obtain w' where b: "fa.bumps ex_env [97] 2 ex_world = Some w'" using ex_bumps[OF c] by blast
  have z: "fst (file_read ex_env (Some [97]) ex_world) = Some 0"
    by (simp add: file_read_perfect[OF ex_io] ex_world_def)
  show ?thesis using b file_anchor_counts[OF ex_io c z b] by simp
qed

lemma long_path_anchor_is_store_witness:
  "\<exists>v w'. file_bump ex_env (Some (replicate 511 97)) ex_world = (Some v, w') \<and>
     files w' (replicate 511 97) = Some (dec_digits (unat v) @ [10])"
proof -
  have c: "c_strlen (replicate 511 97) = 511" "c_string (replicate 511 97) = replicate 511 97"
    by (simp_all add: c_strlen_def c_string_def)
  have l: "length (anchor_path (Some (replicate 511 97))) = 511" using c(2) by (simp add: anchor_path_def)
  moreover have "length (anchor_tmp (Some (replicate 511 97))) = 515"
    using l by (simp add: anchor_tmp_def cstr_def)
  ultimately have "length (anchor_tmp (Some (replicate 511 97))) \<noteq> length (anchor_path (Some (replicate 511 97)))"
    by simp
  then have "anchor_tmp (Some (replicate 511 97)) \<noteq> anchor_path (Some (replicate 511 97))" by metis
  then obtain v w' where "file_bump ex_env (Some (replicate 511 97)) ex_world = (Some v, w')"
    using ex_bump by metis
  then show ?thesis using long_path_anchor_is_store[OF c(1) ex_io c(2)] by blast
qed

section \<open>The audit log\<close>

definition ex_genesis :: bytes where
  "ex_genesis = buf_write 32 (rev (cstr ''pqc-hsm/audit/genesis''))"

definition ex_log :: audit_log where
  "ex_log = \<lparr>al_fd = Some [97], al_count = 0, al_head = ex_genesis\<rparr>"

definition ex_log_world :: world where
  "ex_log_world = ex_world\<lparr>files := [[97] \<mapsto> hdr_encode 0 ex_genesis]\<rparr>"

lemma ex_sha3 [simp]: "sha3 ex_env d = Some (buf_write 32 (rev d))"
  by (simp add: pqc_sha3_256_def)

lemma ex_genesis_hash: "genesis_hash ex_env = Some ex_genesis"
  by (simp add: genesis_hash_def ex_genesis_def)

lemma ex_log_file [simp]: "file_of ex_log_world [97] = hdr_encode 0 ex_genesis"
  by (simp add: file_of_def ex_log_world_def)

lemma length_ex_genesis [simp]: "length ex_genesis = 32"
  by (simp add: ex_genesis_def)

lemma ex_header: "length (hdr_encode 0 ex_genesis) = 64" "hdr_ok (hdr_encode 0 ex_genesis)"
  "hdr_count (hdr_encode 0 ex_genesis) = 0" "hdr_head (hdr_encode 0 ex_genesis) = ex_genesis"
  by (simp_all add: hdr_encode_def AUDIT_MAGIC_def cstr_def hdr_ok_def hdr_count_def hdr_head_def slice_def
      audit_consts)

lemma ex_log_good: "audit_good ex_env (hdr_encode 0 ex_genesis)"
  using ex_header by (simp add: audit_good_def ex_genesis_hash records_def audit_consts)

lemma audit_verify_exact_witness: "fst (audit_verify_file ex_env (Some [97]) ex_log_world) = Inr ()"
proof -
  have "files ex_log_world [97] \<noteq> None" by (simp add: ex_log_world_def)
  then show ?thesis
    using conjunct2[OF audit_verify_exact, of ex_env ex_log_world "[97]"] ex_io ex_log_good by simp
qed

lemma audit_tamper_evident_witness:
  "records (file_of ex_log_world [97]) = records (file_of ex_log_world [97]) \<or>
     sha3_collision ex_env (hash_inputs ex_env (file_of ex_log_world [97]) @ hash_inputs ex_env (file_of ex_log_world [97]))"
proof -
  have "files ex_log_world [97] \<noteq> None" by (simp add: ex_log_world_def)
  then have v: "fst (audit_verify_file ex_env (Some [97]) ex_log_world) = Inr ()"
    using audit_verify_complete[of ex_env ex_log_world "[97]"] ex_io ex_log_good by simp
  show ?thesis by (rule audit_tamper_evident[OF v v refl])
qed

lemma ex_append:
  assumes "al_fd log = Some p" "unat (al_count log) < AUDIT_MAX"
  shows "\<exists>log2 w2. audit_append ex_env log ts AUDIT_OP_LOGIN role sl res det w = (True, log2, w2)"
proof -
  let ?wire = "wire_encode (al_count log) ts AUDIT_OP_LOGIN role sl res det"
  obtain nxt where n: "chain_step ex_env (al_head log) ?wire = Some nxt"
    by (simp add: chain_step_def pqc_sha3_256_def)
  obtain w1 where p1: "io_pwrite ex_env p (?wire @ nxt) (AUDIT_HDR_LEN + AUDIT_REC_LEN * unat (al_count log)) w =
      (True, w1)"
    using io_pwrite_perfect[OF ex_io] by (metis prod.collapse)
  obtain w3 where p3: "io_pwrite ex_env p (hdr_encode (al_count log + 1) nxt) 0 (next_tick w1) = (True, w3)"
    using io_pwrite_perfect[OF ex_io] by (metis prod.collapse)
  have op: "\<not> (AUDIT_OP_LOGIN < AUDIT_OP_INIT_TOKEN \<or> AUDIT_OP_LOGIN > AUDIT_OP_SET_USER_PIN)"
    by (simp add: audit_ops)
  show ?thesis
    using assms op n p1 p3 by (simp add: audit_append_def Let_def sys_ok_perfect[OF ex_io])
qed

lemma ex_log_inv: "log_inv ex_env [97] ex_log [] (file_of ex_log_world [97])"
  using ex_header(1) by (simp add: log_inv_def ex_log_def ex_genesis_hash audit_consts slice_def)

definition ex_req :: append_req where
  "ex_req = \<lparr>rq_ts = 0, rq_op = AUDIT_OP_LOGIN, rq_role = 1, rq_slot = 0, rq_result = 0, rq_detail = None\<rparr>"

lemma audit_append_only_witness:
  "\<exists>dq log1 w1 log2 w2. append_all ex_env [ex_req] ex_log ex_log_world = (dq, log1, w1) \<and>
     audit_append ex_env log1 0 AUDIT_OP_LOGIN 1 0 0 None w1 = (True, log2, w2) \<and>
     audit_good ex_env (file_of w2 [97])"
proof -
  have m: "1 < AUDIT_MAX" by (simp add: AUDIT_MAX_def)
  obtain log1 w1 where a: "audit_append ex_env ex_log 0 AUDIT_OP_LOGIN 1 0 0 None ex_log_world = (True, log1, w1)"
    using ex_append[of ex_log "[97]" 0 1 0 0 None ex_log_world] m by (fastforce simp: ex_log_def)
  then have q: "append_all ex_env [ex_req] ex_log ex_log_world = ([ex_req], log1, w1)"
    by (simp add: ex_req_def)
  have l: "al_fd log1 = Some [97]" "al_count log1 = 1"
    using a by (auto simp: audit_append_def Let_def ex_log_def split: if_splits option.splits prod.splits)
  obtain log2 w2 where b: "audit_append ex_env log1 0 AUDIT_OP_LOGIN 1 0 0 None w1 = (True, log2, w2)"
    using ex_append[of log1 "[97]" 0 1 0 0 None w1] l m by auto
  show ?thesis using q b audit_append_only[OF ex_log_inv q b] by blast
qed

section \<open>The key store\<close>

definition ex_salt :: bytes where "ex_salt = replicate 16 1"

definition ex_one :: hsm_token where
  "ex_one = ex_tok\<lparr>slots := [ex_seal ex_key_slot]\<rparr>"

abbreviation ex_store_kek :: bytes where "ex_store_kek \<equiv> ex_subkey ex_salt 32"

lemma length_subkey [simp]: "length (ex_subkey s n) = n"
  by (simp add: ex_subkey_def)

lemma ex_file_keys:
  "derive_file_key ex_env salt = Some (ex_subkey salt 32)" "pqc_kek_derive ex_env salt = Some (ex_subkey salt 32)"
  by (simp_all add: derive_file_key_def pqc_kek_derive_def ex_derive c_string_def cstr_def PQC_KEK_LEN_def)

lemma ex_record:
  "\<exists>blob tok1. hsm_slot_serialize ex_env ex_one 0 (Some ex_store_kek) PQC_KEK_LEN (Some hsm_slot_blob_max) True =
     (Inr blob, tok1) \<and> length blob \<le> hsm_slot_blob_max \<and>
     (\<forall>tok. slots tok = [ex_seal ex_key_slot] \<longrightarrow>
        (\<exists>tok'. hsm_slot_deserialize ex_env tok 0 (Some ex_store_kek) PQC_KEK_LEN (Some blob) (length blob) =
           (HSM_OK, tok')))"
proof -
  let ?s = "ex_seal ex_key_slot"
  have inv: "slot_inv 0 ?s" using ex_key_inv by simp
  obtain blob w' where s: "slot_serialize_locked ex_env ?s (Some ex_store_kek) (length ex_store_kek)
      (Some hsm_slot_blob_max) True ex_one = (Inr blob, w')" "length blob \<le> hsm_slot_blob_max"
    using ex_serialize[OF inv length_subkey] by blast
  have "\<exists>t' w2. slot_deserialize_locked ex_env ?s (Some ex_store_kek) (length ex_store_kek) (Some blob)
      (length blob) tok = (HSM_OK, t', w2)" for tok :: hsm_token
    by (rule ex_deserialize[OF s(1) inv]) simp_all
  then have "\<exists>tok'. hsm_slot_deserialize ex_env tok 0 (Some ex_store_kek) PQC_KEK_LEN (Some blob) (length blob) =
      (HSM_OK, tok')" if "slots tok = [?s]" for tok
    using that by (auto simp: hsm_slot_deserialize_def slot_at_def PQC_KEK_LEN_def split: prod.splits)
      (metis fst_conv)
  moreover have "hsm_slot_serialize ex_env ex_one 0 (Some ex_store_kek) PQC_KEK_LEN (Some hsm_slot_blob_max) True =
      (Inr blob, w')"
    using s(1) by (simp add: hsm_slot_serialize_def slot_at_def ex_one_def PQC_KEK_LEN_def)
  ultimately show ?thesis using s(2) by blast
qed

text \<open>A file that loads: one slot, epoch one, no anchor yet.\<close>

lemma ex_file:
  "\<exists>buf. ks_epoch buf = 1 \<and>
     (\<forall>tok. slots tok = [ex_seal ex_key_slot] \<and> files tok = [[97] \<mapsto> buf] \<longrightarrow>
        (\<exists>tok'. hsm_keystore_load ex_env None (Some tok) (Some [97]) = (HSM_OK, Some tok')))"
proof -
  obtain blob where b: "length blob \<le> hsm_slot_blob_max"
    "\<And>tok. slots tok = [ex_seal ex_key_slot] \<Longrightarrow>
        \<exists>tok'. hsm_slot_deserialize ex_env tok 0 (Some ex_store_kek) PQC_KEK_LEN (Some blob) (length blob) =
           (HSM_OK, tok')"
    using ex_record by blast
  define recs where "recs = put_u32 (of_nat (length blob)) @ blob"
  define body where "body = ks_header 1 ex_salt 1 @ recs"
  define tag where "tag = buf_write 32 (rev body)"
  define buf where "buf = body @ tag"
  have salt: "length ex_salt = 16" by (simp add: ex_salt_def)
  have mag: "length KS_MAGIC = 8" by (simp add: KS_MAGIC_def cstr_def)
  have lb: "length body = 44 + length blob" using salt by (simp add: body_def recs_def ks_header_def mag)
  have lt: "length tag = 32" by (simp add: tag_def)
  have nb: "unat (of_nat (length blob) :: u32) = length blob"
    using b(1) blob_max(2) by (intro unat_u32_less) simp
  have f: "take 8 buf = KS_MAGIC" "get_u32 (drop 8 buf) = HSM_KEYSTORE_VERSION" "get_u32 (drop 12 buf) = 1"
    "slice 16 KS_SALT_LEN buf = ex_salt" "get_u64 (drop KS_OFF_EPOCH buf) = 1"
    using mag salt by (simp_all add: buf_def body_def ks_header_def ks_consts slice_def le_get_le_bytes)
  have cut: "take (length buf - KS_TAG_LEN) buf = body" "drop (length buf - KS_TAG_LEN) buf = tag"
    "KS_HDR_LEN + KS_TAG_LEN \<le> length buf"
    using lb lt by (simp_all add: buf_def ks_consts)
  have k: "kmac ex_env ex_store_kek body ''pqc-hsm/keystore'' KS_TAG_LEN = Some tag"
    by (simp add: pqc_kmac256_def ex_subkey_nonempty ks_consts tag_def)
  have eq: "pqc_ct_equal (Some tag) (Some tag) KS_TAG_LEN" using lt by (simp add: pqc_ct_equal_iff ks_consts)
  have body: "get_u32 (drop 40 body) = of_nat (length blob)" "slice 44 (length blob) body = blob"
    using mag salt by (simp_all add: body_def ks_header_def recs_def slice_def le_get_le_bytes)
  have load: "\<exists>tok'. hsm_keystore_load ex_env None (Some tok) (Some [97]) = (HSM_OK, Some tok')"
    if t: "slots tok = [ex_seal ex_key_slot]" "files tok = [[97] \<mapsto> buf]" for tok
  proof -
    define t3 where "t3 = next_tick (next_tick (next_tick (next_tick tok)))"
    have t3: "slots t3 = [ex_seal ex_key_slot]" "files t3 = [[97] \<mapsto> buf]"
      using t by (simp_all add: t3_def next_tick_def)
    have "anchor_path (Some [97]) \<noteq> [97]" by (simp add: anchor_path_def cstr_def c_string_def)
    then have r: "pqc_rbanchor_read ex_env None (Some [97]) True t3 = (Some 0, next_tick t3)"
      using t3 by (simp add: pqc_rbanchor_read_def pqc_rbanchor_get_provider_def g_file_def
          file_read_perfect[OF ex_io])
    obtain tok' where d: "hsm_slot_deserialize ex_env (next_tick t3) 0 (Some ex_store_kek) PQC_KEK_LEN
        (Some blob) (length blob) = (HSM_OK, tok')"
      using b(2)[of "next_tick t3"] t3(1) by (auto simp: next_tick_def)
    have "load_slots ex_env ex_store_kek body [0] KS_HDR_LEN HSM_ERR_INTEGRITY (next_tick t3) = (HSM_OK, tok')"
      using d lb body nb by (simp add: ks_consts)
    then have "load_checked ex_env None [97] buf t3 = (HSM_OK, tok')"
      using f cut k eq r t3(1) by (simp add: load_checked_def Let_def ex_file_keys)
    then show ?thesis
      using t(2) cut(3) by (simp add: hsm_keystore_load_def fopen_read_def sys_ok_perfect[OF ex_io] t3_def not_less)
  qed
  show ?thesis using load f(5) by (intro exI[of _ buf]) (simp add: ks_epoch_def)
qed

lemma load_only_authentic_witness:
  "\<exists>tok tok' buf. hsm_keystore_load ex_env None (Some tok) (Some [97]) = (HSM_OK, Some tok') \<and>
     files tok [97] = Some buf \<and> ks_authentic ex_env (length (slots tok)) buf"
proof -
  obtain buf where "\<forall>tok. slots tok = [ex_seal ex_key_slot] \<and> files tok = [[97] \<mapsto> buf] \<longrightarrow>
      (\<exists>tok'. hsm_keystore_load ex_env None (Some tok) (Some [97]) = (HSM_OK, Some tok'))"
    using ex_file by blast
  moreover have "slots (ex_one\<lparr>files := [[97] \<mapsto> buf]\<rparr>) = [ex_seal ex_key_slot]"
    "files (ex_one\<lparr>files := [[97] \<mapsto> buf]\<rparr>) = [[97] \<mapsto> buf]"
    by (simp_all add: ex_one_def)
  ultimately obtain tok tok' where l: "hsm_keystore_load ex_env None (Some tok) (Some [97]) = (HSM_OK, Some tok')"
    by blast
  show ?thesis using l load_only_authentic[OF l anchor_frame_file] by blast
qed

lemma replay_refused_witness:
  "\<exists>tok st tok' buf. files tok [97] = Some buf \<and> ks_epoch buf = 1 \<and>
     hsm_keystore_load ex_env None (Some tok) (Some [97]) = (st, Some tok') \<and> st \<noteq> HSM_OK \<and> slots tok' = slots tok"
proof -
  obtain buf where e: "ks_epoch buf = 1" using ex_file by blast
  define tok where "tok = ex_one\<lparr>files := [[97] \<mapsto> buf, anchor_path (Some [97]) \<mapsto> [53]]\<rparr>"
  have "anchor_path (Some [97]) \<noteq> [97]" by (simp add: anchor_path_def cstr_def c_string_def)
  then have f: "files tok [97] = Some buf" "files tok (anchor_path (Some [97])) = Some [53]"
    by (simp_all add: tok_def)
  have "scan_u64 [53] = Some 5" by (simp add: scan_u64_def is_space_def is_digit_def dec_value_def)
  then have s: "fst (file_read ex_env (Some [97]) tok) = Some 5"
    by (simp add: file_read_perfect[OF ex_io] f(2))
  have lt: "ks_epoch buf < 5" by (simp add: e)
  have "snd (hsm_keystore_load ex_env None (Some tok) (Some [97])) \<noteq> None"
    by (auto simp: hsm_keystore_load_def split: prod.split option.split)
  then obtain st tok' where l: "hsm_keystore_load ex_env None (Some tok) (Some [97]) = (st, Some tok')"
    by (metis not_Some_eq prod.collapse)
  show ?thesis using f(1) e l replay_refused[OF ex_io f(1) s lt l] by blast
qed

end
