(* ===== verification/Gf256.thy ===== *)
theory Gf256
  imports Prelude
begin

text \<open>
  The arithmetic of src/src/backup/shamir.c: multiplication in GF(256) by eight constant-time
  rounds, and inversion by a fixed chain of multiplications. The theorem of this theory is that
  these two functions on bytes are a field; the type \<open>gf\<close> carries it to the library's class, so
  that the secret sharing is proved with the algebra of fields.
\<close>

section \<open>The C functions\<close>

text \<open>One round on (r, x, y): the masks are 0 or 0xFF.\<close>

definition xtime :: "byte \<Rightarrow> byte" where
  "xtime x = (let hmask = 0 - (drop_bit 7 x AND 1) in push_bit 1 x XOR (0x1b AND hmask))"

fun gf_rounds :: "nat \<Rightarrow> byte \<Rightarrow> byte \<Rightarrow> byte \<Rightarrow> byte" where
  "gf_rounds 0 r x y = r"
| "gf_rounds (Suc n) r x y =
     (let mask = 0 - (y AND 1) in gf_rounds n (r XOR (x AND mask)) (xtime x) (drop_bit 1 y))"

definition gf_mul :: "byte \<Rightarrow> byte \<Rightarrow> byte" where
  "gf_mul a b = gf_rounds 8 0 a b"

definition gf_sqr :: "byte \<Rightarrow> byte" where
  "gf_sqr a = gf_mul a a"

definition gf_inv :: "byte \<Rightarrow> byte" where
  "gf_inv a =
     (let x2 = gf_sqr a; x3 = gf_mul x2 a; x6 = gf_sqr x3; x7 = gf_mul x6 a;
          x14 = gf_sqr x7; x15 = gf_mul x14 a; x30 = gf_sqr x15; x31 = gf_mul x30 a;
          x62 = gf_sqr x31; x63 = gf_mul x62 a; x126 = gf_sqr x63; x127 = gf_mul x126 a
      in gf_sqr x127)"

section \<open>Bits\<close>

lemma and_one_byte: "(y :: byte) AND 1 = (if bit y 0 then 1 else 0)"
  by (rule bit_eqI) (auto simp: bit_and_iff bit_1_iff intro!: gr0I)

lemma mask_byte: "- ((y :: byte) AND 1) = (if bit y 0 then - 1 else 0)"
  unfolding and_one_byte by simp

lemma gf_rounds_Suc:
  "gf_rounds (Suc n) r x y = gf_rounds n (if bit y 0 then r XOR x else r) (xtime x) (drop_bit 1 y)"
  unfolding gf_rounds.simps Let_def diff_0 mask_byte by simp

lemma xtime_if: "xtime x = push_bit 1 x XOR (if bit x 7 then 0x1b else 0)"
  unfolding xtime_def Let_def diff_0 mask_byte by (simp add: bit_drop_bit_eq)

lemma xtime_xor: "xtime (a XOR b) = xtime a XOR xtime b"
  unfolding xtime_if by (rule bit_eqI) (auto simp: bit_simps)

lemma xtime_0 [simp]: "xtime 0 = 0"
  by (simp add: xtime_if)

text \<open>A property of all bytes that XOR keeps is checked on the eight bytes with one bit.\<close>

lemma byte_basis:
  fixes x :: byte
  shows "x = (if bit x 0 then 1 else 0) XOR (if bit x 1 then 2 else 0) XOR
    (if bit x 2 then 4 else 0) XOR (if bit x 3 then 8 else 0) XOR
    (if bit x 4 then 16 else 0) XOR (if bit x 5 then 32 else 0) XOR
    (if bit x 6 then 64 else 0) XOR (if bit x 7 then 128 else 0)" (is "_ = ?r")
proof (rule bit_eqI)
  fix n
  assume "possible_bit TYPE(byte) n"
  then have "n \<in> {0, 1, 2, 3, 4, 5, 6, 7}" by (auto simp: possible_bit_word)
  then show "bit x n = bit ?r n"
    by (elim insertE emptyE) (simp_all add: bit_xor_iff)
qed

lemma byte_induct [case_names zero base xor]:
  fixes x :: byte
  assumes "P 0" and "\<And>i. i \<in> {0, 1, 2, 3, 4, 5, 6, 7} \<Longrightarrow> P ((xtime ^^ i) 1)"
    and "\<And>a b. P a \<Longrightarrow> P b \<Longrightarrow> P (a XOR b)"
  shows "P x"
proof -
  have b: "P 1" "P 2" "P 4" "P 8" "P 16" "P 32" "P 64" "P 128"
    using assms(2) [of 0] assms(2) [of 1] assms(2) [of 2] assms(2) [of 3] assms(2) [of 4]
      assms(2) [of 5] assms(2) [of 6] assms(2) [of 7]
    by (simp_all add: numeral_eq_Suc xtime_if)
  show ?thesis
    by (subst byte_basis) (intro assms(3); simp add: assms(1) b)
qed

section \<open>The ring\<close>

lemma gf_rounds_xor:
  "gf_rounds n (r XOR s) (x XOR z) y = gf_rounds n r x y XOR gf_rounds n s z y"
proof (induction n arbitrary: r s x y z)
  case (Suc n)
  have "(if bit y 0 then (r XOR s) XOR (x XOR z) else r XOR s) =
      (if bit y 0 then r XOR x else r) XOR (if bit y 0 then s XOR z else s)"
    by (simp add: ac_simps)
  then show ?case by (simp only: gf_rounds_Suc xtime_xor Suc.IH)
qed simp

lemma gf_rounds_xor_right:
  "gf_rounds n (r XOR s) x (y XOR z) = gf_rounds n r x y XOR gf_rounds n s x z"
proof (induction n arbitrary: r s x y z)
  case (Suc n)
  have "(if bit (y XOR z) 0 then (r XOR s) XOR x else r XOR s) =
      (if bit y 0 then r XOR x else r) XOR (if bit z 0 then s XOR x else s)"
    by (auto simp: bit_xor_iff ac_simps)
  moreover have "drop_bit 1 (y XOR z) = drop_bit 1 y XOR drop_bit 1 z"
    by simp
  ultimately show ?case by (simp only: gf_rounds_Suc Suc.IH)
qed simp

lemma gf_rounds_xtime: "gf_rounds n (xtime r) (xtime x) y = xtime (gf_rounds n r x y)"
proof (induction n arbitrary: r x y)
  case (Suc n)
  have "(if bit y 0 then xtime r XOR xtime x else xtime r) = xtime (if bit y 0 then r XOR x else r)"
    by (simp add: xtime_xor)
  then show ?case by (simp only: gf_rounds_Suc Suc.IH)
qed simp

lemma gf_mul_xor: "gf_mul (a XOR b) c = gf_mul a c XOR gf_mul b c"
  using gf_rounds_xor [of 8 0 0 a b c] by (simp add: gf_mul_def)

lemma gf_mul_xor_right: "gf_mul a (b XOR c) = gf_mul a b XOR gf_mul a c"
  using gf_rounds_xor_right [of 8 0 0 a b c] by (simp add: gf_mul_def)

lemma gf_mul_0 [simp]: "gf_mul 0 b = 0" "gf_mul a 0 = 0"
  using gf_mul_xor [of a a b] gf_mul_xor_right [of a b b] by simp_all

lemma gf_mul_xtime: "gf_mul ((xtime ^^ i) a) b = (xtime ^^ i) (gf_mul a b)"
proof (induction i)
  case (Suc i)
  have "gf_mul (xtime x) b = xtime (gf_mul x b)" for x
    using gf_rounds_xtime [of 8 0 x b] by (simp add: gf_mul_def)
  then show ?case using Suc by simp
qed simp

lemma gf_rounds_0: "gf_rounds n r x 0 = r"
  by (induction n arbitrary: r x) (simp_all add: gf_rounds_Suc del: gf_rounds.simps(2))

lemma gf_rounds_bit: "i < n \<Longrightarrow> i < 8 \<Longrightarrow> gf_rounds n r x (push_bit i 1) = r XOR (xtime ^^ i) x"
proof (induction n arbitrary: i r x)
  case (Suc n)
  show ?case
  proof (cases i)
    case 0
    have "drop_bit 1 (1 :: byte) = 0" by simp
    then show ?thesis using 0 by (simp add: gf_rounds_Suc gf_rounds_0 del: gf_rounds.simps(2))
  next
    case (Suc j)
    have "drop_bit 1 (push_bit i 1 :: byte) = push_bit j 1" and "\<not> bit (push_bit i 1 :: byte) 0"
      using Suc.prems Suc by (auto intro!: bit_eqI simp: bit_simps)
    then show ?thesis
      using Suc.prems Suc Suc.IH by (simp add: gf_rounds_Suc funpow_swap1 del: gf_rounds.simps(2))
  qed
qed simp

lemma gf_mul_base:
  assumes "i \<in> {0, 1, 2, 3, 4, 5, 6, 7}"
  shows "gf_mul a ((xtime ^^ i) 1) = (xtime ^^ i) a"
proof -
  have "(xtime ^^ i) 1 = push_bit i 1"
    using assms by (elim insertE emptyE) (simp_all add: numeral_eq_Suc xtime_if)
  moreover have "i < 8" using assms by auto
  ultimately show ?thesis by (simp only: gf_mul_def gf_rounds_bit xor_self_eq xor.left_neutral)
qed

lemma gf_mul_1 [simp]: "gf_mul 1 a = a"
  by (induction a rule: byte_induct) (simp_all add: gf_mul_base gf_mul_xor_right)

lemma gf_mul_comm: "gf_mul a b = gf_mul b a"
  by (induction b rule: byte_induct)
    (simp_all add: gf_mul_base gf_mul_xtime gf_mul_xor gf_mul_xor_right)

lemma gf_mul_assoc: "gf_mul (gf_mul a b) c = gf_mul a (gf_mul b c)"
proof (induction c rule: byte_induct)
  case (base i)
  have "gf_mul a ((xtime ^^ i) b) = (xtime ^^ i) (gf_mul a b)"
    by (metis gf_mul_comm gf_mul_xtime)
  then show ?case using base by (simp add: gf_mul_base)
qed (simp_all add: gf_mul_xor_right)

section \<open>The type\<close>

typedef gf = "UNIV :: byte set" morphisms gf_byte GF ..

setup_lifting type_definition_gf

instantiation gf :: comm_ring_1
begin

lift_definition zero_gf :: gf is "0 :: byte" .
lift_definition one_gf :: gf is "1 :: byte" .
lift_definition plus_gf :: "gf \<Rightarrow> gf \<Rightarrow> gf" is "\<lambda>a b. a XOR b" .
lift_definition minus_gf :: "gf \<Rightarrow> gf \<Rightarrow> gf" is "\<lambda>a b. a XOR b" .
lift_definition uminus_gf :: "gf \<Rightarrow> gf" is "\<lambda>a. a" .
lift_definition times_gf :: "gf \<Rightarrow> gf \<Rightarrow> gf" is gf_mul .

instance
proof
  fix a b c :: gf
  show "a + b + c = a + (b + c)" by transfer (rule xor.assoc)
  show "a + b = b + a" by transfer (rule xor.commute)
  show "0 + a = a" by transfer simp
  show "- a + a = 0" by transfer simp
  show "a - b = a + - b" by transfer simp
  show "a * b * c = a * (b * c)" by transfer (rule gf_mul_assoc)
  show "a * b = b * a" by transfer (rule gf_mul_comm)
  show "1 * a = a" by transfer simp
  show "(a + b) * c = a * c + b * c" by transfer (rule gf_mul_xor)
  show "(0 :: gf) \<noteq> 1" by transfer simp
qed

end

lemma GF_inject_iff [simp]: "GF a = GF b \<longleftrightarrow> a = b"
  by (simp add: GF_inject)

lemma GF_xor: "GF (a XOR b) = GF a + GF b"
  by (simp add: plus_gf.abs_eq)

lemma GF_mul: "GF (gf_mul a b) = GF a * GF b"
  by (simp add: times_gf.abs_eq)

lemma GF_0 [simp]: "GF 0 = 0" and GF_1 [simp]: "GF 1 = 1"
  by (simp_all add: zero_gf.abs_eq one_gf.abs_eq)

lemma GF_eq_0 [simp]: "GF a = 0 \<longleftrightarrow> a = 0"
  using GF_inject_iff [of a 0] by simp

lemma GF_gf_byte [simp]: "GF (gf_byte x) = x" and gf_byte_GF [simp]: "gf_byte (GF a) = a"
  by (simp_all add: gf_byte_inverse GF_inverse)

lemma finite_card_gf: "finite (UNIV :: gf set)" "card (UNIV :: gf set) = 256"
proof -
  have b: "bij_betw GF UNIV UNIV"
    by (rule bij_betw_byWitness [of _ gf_byte]) auto
  show "finite (UNIV :: gf set)" using bij_betw_finite [OF b] by simp
  show "card (UNIV :: gf set) = 256" using bij_betw_same_card [OF b] by (simp add: card_word)
qed

section \<open>Inverses\<close>

text \<open>
  The byte 3 generates the multiplicative group: its 255th power is 1 and no power for a proper
  divisor of 255 is. So every byte but 0 is a power of 3, and \<open>a\<^sup>2\<^sup>5\<^sup>4\<close>, which the addition chain
  of \<open>gf_inv\<close> computes, is the inverse of \<open>a\<close>.
\<close>

lemma gf_mul_unfold:
  "gf_mul a b = gf_rounds (Suc (Suc (Suc (Suc (Suc (Suc (Suc (Suc 0)))))))) 0 a b"
  by (simp add: gf_mul_def numeral_eq_Suc)

lemma gen_table:
  "gf_mul 3 3 = 5"
  "gf_mul 5 3 = 15"
  "gf_mul 15 5 = 51"
  "gf_mul 51 51 = 114"
  "gf_mul 114 51 = 53"
  "gf_mul 53 5 = 225"
  "gf_mul 225 225 = 92"
  "gf_mul 92 225 = 12"
  "gf_mul 12 92 = 189"
  "gf_mul 189 189 = 188"
  "gf_mul 188 189 = 1"
  by (simp_all add: gf_mul_unfold gf_rounds_Suc xtime_if del: gf_rounds.simps(2))

abbreviation gen :: gf where
  "gen \<equiv> GF 3"

lemma gen_powers:
  "gen ^ 15 = GF 53" "gen ^ 51 = GF 12" "gen ^ 85 = GF 189" "gen ^ 255 = 1"
proof -
  have p2: "gen ^ 2 = GF 5"
    by (simp only: power2_eq_square GF_mul [symmetric] gen_table)
  have p3: "gen ^ 3 = GF 15"
    using power_add [of gen 2 1]
    by (simp add: p2 GF_mul [symmetric] gen_table)
  have p5: "gen ^ 5 = GF 51"
    using power_add [of gen 3 2]
    by (simp add: p3 p2 GF_mul [symmetric] gen_table)
  have p10: "gen ^ 10 = GF 114"
    using power_add [of gen 5 5]
    by (simp add: p5 GF_mul [symmetric] gen_table)
  have p15: "gen ^ 15 = GF 53"
    using power_add [of gen 10 5]
    by (simp add: p10 p5 GF_mul [symmetric] gen_table)
  have p17: "gen ^ 17 = GF 225"
    using power_add [of gen 15 2]
    by (simp add: p15 p2 GF_mul [symmetric] gen_table)
  have p34: "gen ^ 34 = GF 92"
    using power_add [of gen 17 17]
    by (simp add: p17 GF_mul [symmetric] gen_table)
  have p51: "gen ^ 51 = GF 12"
    using power_add [of gen 34 17]
    by (simp add: p34 p17 GF_mul [symmetric] gen_table)
  have p85: "gen ^ 85 = GF 189"
    using power_add [of gen 51 34]
    by (simp add: p51 p34 GF_mul [symmetric] gen_table)
  have p170: "gen ^ 170 = GF 188"
    using power_add [of gen 85 85]
    by (simp add: p85 GF_mul [symmetric] gen_table)
  have p255: "gen ^ 255 = GF 1"
    using power_add [of gen 170 85]
    by (simp add: p170 p85 GF_mul [symmetric] gen_table)
  show "gen ^ 15 = GF 53" "gen ^ 51 = GF 12" "gen ^ 85 = GF 189" "gen ^ 255 = 1"
    using p15 p51 p85 p255 by simp_all
qed

lemma proper_divisor_255:
  assumes "e dvd 255" "e < (255 :: nat)"
  shows "e dvd 15 \<or> e dvd 51 \<or> e dvd 85"
proof -
  have "\<forall>e \<in> {0..<255 :: nat}. e dvd 255 \<longrightarrow> e dvd 15 \<or> e dvd 51 \<or> e dvd 85" by code_simp
  then show ?thesis using assms by simp
qed

lemma gen_order:
  assumes "gen ^ d = 1" "0 < d"
  shows "255 \<le> d"
proof (rule ccontr)
  assume "\<not> 255 \<le> d"
  define e where "e = gcd d 255"
  obtain x y where "d * x = 255 * y + e"
    using bezout_nat [of d 255] assms(2) unfolding e_def by auto
  then have "(gen ^ d) ^ x = (gen ^ 255) ^ y * gen ^ e"
    by (metis power_add power_mult)
  then have one: "gen ^ e = 1" by (simp add: assms(1) gen_powers)
  have "e dvd 255" unfolding e_def by simp
  moreover have "e < 255"
    using assms(2) \<open>\<not> 255 \<le> d\<close> gcd_le1_nat [of d 255] unfolding e_def by linarith
  ultimately have "e dvd 15 \<or> e dvd 51 \<or> e dvd 85" by (rule proper_divisor_255)
  moreover have "gen ^ n = 1" if "e dvd n" for n
    using that one by (auto simp: power_mult)
  ultimately have "gen ^ 15 = 1 \<or> gen ^ 51 = 1 \<or> gen ^ 85 = 1" by blast
  then show False
    using GF_inject_iff [of _ 1] by (simp add: gen_powers del: GF_inject_iff)
qed

lemma gen_power_unit: "gen ^ i * gen ^ (255 * i - i) = 1"
proof -
  have "i + (255 * i - i) = 255 * i" by simp
  then show ?thesis by (simp only: power_add [symmetric] power_mult gen_powers power_one)
qed

lemma inj_gen: "inj_on (\<lambda>i. gen ^ i) {0..<255}"
proof (rule linorder_inj_onI)
  fix i j :: nat
  assume ij: "i < j" "i \<in> {0..<255}" "j \<in> {0..<255}"
  show "gen ^ i \<noteq> gen ^ j"
  proof
    assume "gen ^ i = gen ^ j"
    also have "gen ^ j = gen ^ i * gen ^ (j - i)"
      using ij(1) by (simp add: power_add [symmetric])
    finally have "gen ^ (255 * i - i) * gen ^ i = gen ^ (255 * i - i) * gen ^ i * gen ^ (j - i)"
      by (simp add: mult.assoc)
    then have "gen ^ (j - i) = 1"
      using gen_power_unit [of i] by (simp add: mult.commute)
    then show False using gen_order [of "j - i"] ij by simp
  qed
qed auto

lemma nonzero_gen:
  assumes "a \<noteq> 0"
  obtains i where "a = gen ^ i"
proof -
  let ?S = "(\<lambda>i. gen ^ i) ` {0..<255}"
  have "0 \<notin> ?S" using gen_power_unit by (metis imageE mult_zero_left zero_neq_one)
  then have "?S \<subseteq> UNIV - {0}" by auto
  moreover have "card ?S = 255" using card_image [OF inj_gen] by simp
  moreover have "card (UNIV - {0 :: gf}) = 255"
    using finite_card_gf by (simp add: card_Diff_singleton)
  ultimately have "?S = UNIV - {0}"
    using finite_card_gf(1) by (intro card_subset_eq) simp_all
  then show ?thesis using assms that by blast
qed

lemma GF_gf_inv: "GF (gf_inv a) = GF a ^ 254"
  unfolding gf_inv_def gf_sqr_def Let_def GF_mul
  by (simp add: power2_eq_square [symmetric] power_Suc2 [symmetric] del: power_Suc)

lemma gf_inv_right: "a \<noteq> 0 \<Longrightarrow> GF a * GF (gf_inv a) = 1"
proof -
  assume "a \<noteq> 0"
  then obtain i where i: "GF a = gen ^ i" using nonzero_gen [of "GF a"] by auto
  have "GF a * GF (gf_inv a) = GF a ^ 255"
    unfolding GF_gf_inv using power_Suc [of "GF a" 254] by simp
  also have "\<dots> = (gen ^ 255) ^ i" unfolding i by (simp only: power_mult [symmetric] mult.commute)
  finally show ?thesis by (simp add: gen_powers)
qed

instantiation gf :: field
begin

lift_definition inverse_gf :: "gf \<Rightarrow> gf" is gf_inv .

definition divide_gf :: "gf \<Rightarrow> gf \<Rightarrow> gf" where
  "divide_gf a b = a * inverse b"

instance
proof
  fix a b :: gf
  show "a \<noteq> 0 \<Longrightarrow> inverse a * a = 1"
    using gf_inv_right [of "gf_byte a"]
    by (metis GF_0 GF_gf_byte inverse_gf.abs_eq mult.commute)
  show "a div b = a * inverse b" by (rule divide_gf_def)
  show "inverse (0 :: gf) = 0"
    by (simp add: inverse_gf.abs_eq GF_gf_inv GF_0 [symmetric] del: GF_0) (simp add: GF_gf_inv)
qed

end

lemma GF_inv: "GF (gf_inv a) = inverse (GF a)"
  by (simp add: inverse_gf.abs_eq)

end
