(* ===== verification/Interp.thy ===== *)
theory Interp
  imports Main
begin

text \<open>
  Polynomials over a field as lists of coefficients, constant term first: as many coefficients as
  points determine one another (a polynomial with too many roots has no coefficient but 0), and
  Lagrange's formula gives the value at 0. Used by the secret sharing of src/src/backup/shamir.c.
\<close>

section \<open>Evaluation and division by a linear factor\<close>

fun peval :: "'a::comm_ring_1 list \<Rightarrow> 'a \<Rightarrow> 'a" where
  "peval [] x = 0"
| "peval (c # cs) x = c + x * peval cs x"

fun pquot :: "'a::comm_ring_1 list \<Rightarrow> 'a \<Rightarrow> 'a list" where
  "pquot [] r = []"
| "pquot [c] r = []"
| "pquot (c # cs) r = peval cs r # pquot cs r"

lemma length_pquot [simp]: "length (pquot cs r) = length cs - 1"
  by (induction cs r rule: pquot.induct) simp_all

lemma peval_pquot: "peval cs x = peval cs r + (x - r) * peval (pquot cs r) x"
proof (induction cs r rule: pquot.induct)
  case (3 c d ds r)
  let ?q = "peval (d # ds)"
  have "peval (c # d # ds) x = c + x * ?q x"
    by (rule peval.simps(2))
  also have "\<dots> = c + x * (?q r + (x - r) * peval (pquot (d # ds) r) x)"
    by (simp only: "3.IH")
  also have "\<dots> = (c + r * ?q r) + (x - r) * (?q r + x * peval (pquot (d # ds) r) x)"
    by (simp add: algebra_simps)
  finally show ?case by (simp only: peval.simps(2) pquot.simps(3))
qed simp_all

lemma pquot_zeros:
  "peval cs r = 0 \<Longrightarrow> set (pquot cs r) \<subseteq> {0} \<Longrightarrow> set cs \<subseteq> {0}"
proof (induction cs r rule: pquot.induct)
  case (3 c d ds r)
  then show ?case by auto
qed simp_all

lemma too_many_roots:
  fixes cs :: "'a::field list"
  assumes "finite S" "length cs \<le> card S" "\<And>x. x \<in> S \<Longrightarrow> peval cs x = 0"
  shows "set cs \<subseteq> {0}"
  using assms
proof (induction "length cs" arbitrary: cs S)
  case (Suc n)
  then obtain r where r: "r \<in> S" by (metis card.empty ex_in_conv le_zero_eq nat.distinct(1))
  have "peval (pquot cs r) x = 0" if "x \<in> S - {r}" for x
    using peval_pquot [of cs x r] Suc.prems(3) that r by auto
  then have "set (pquot cs r) \<subseteq> {0}"
    using Suc.hyps Suc.prems r by (intro Suc.hyps(1) [of _ "S - {r}"]) auto
  then show ?case using pquot_zeros [of cs r] Suc.prems(3) r by blast
qed simp

lemma peval_inj:
  fixes cs ds :: "'a::field list"
  assumes "length cs = length ds" "finite S" "length cs \<le> card S"
    "\<And>x. x \<in> S \<Longrightarrow> peval cs x = peval ds x"
  shows "cs = ds"
proof -
  let ?d = "map2 (-) cs ds"
  have e: "peval ?d x = peval cs x - peval ds x" for x
    using assms(1) by (induction cs ds rule: list_induct2) (simp_all add: right_diff_distrib)
  have "set ?d \<subseteq> {0}"
    using assms e by (intro too_many_roots [of S]) auto
  with assms(1) show ?thesis
    by (induction cs ds rule: list_induct2) auto
qed

section \<open>The functions that n coefficients define\<close>

definition polyfun :: "nat \<Rightarrow> ('a::comm_ring_1 \<Rightarrow> 'a) \<Rightarrow> bool" where
  "polyfun n f \<longleftrightarrow> (\<exists>cs. length cs = n \<and> f = peval cs)"

lemma polyfun_peval [intro]: "polyfun (length cs) (peval cs)"
  by (auto simp: polyfun_def)

lemma polyfun_zero: "polyfun n (\<lambda>x :: 'a::comm_ring_1. 0)"
proof -
  have "peval (replicate n (0 :: 'a)) = (\<lambda>x. 0)" by (induction n) auto
  then show ?thesis unfolding polyfun_def by (intro exI [of _ "replicate n 0"]) simp
qed

lemma polyfun_one: "polyfun 1 (\<lambda>x. 1)"
  unfolding polyfun_def by (rule exI [of _ "[1]"]) auto

lemma polyfun_add:
  assumes "polyfun n f" "polyfun n g"
  shows "polyfun n (\<lambda>x. f x + g x)"
proof -
  obtain cs ds where "length cs = n" "f = peval cs" "length ds = n" "g = peval ds"
    using assms by (auto simp: polyfun_def)
  moreover have "peval (map2 (+) cs ds) x = peval cs x + peval ds x"
    if "length cs = length ds" for cs ds :: "'a list" and x
    using that by (induction cs ds rule: list_induct2) (simp_all add: algebra_simps)
  ultimately show ?thesis
    unfolding polyfun_def by (intro exI [of _ "map2 (+) cs ds"]) auto
qed

lemma polyfun_scale:
  assumes "polyfun n f"
  shows "polyfun n (\<lambda>x. a * f x)"
proof -
  obtain cs where "length cs = n" "f = peval cs" using assms by (auto simp: polyfun_def)
  moreover have "peval (map ((*) a) cs) x = a * peval cs x" for x
    by (induction cs) (simp_all add: algebra_simps)
  ultimately show ?thesis unfolding polyfun_def by (intro exI [of _ "map ((*) a) cs"]) auto
qed

lemma polyfun_linear:
  assumes "polyfun n f"
  shows "polyfun (Suc n) (\<lambda>x. (a * x + b) * f x)"
proof -
  obtain cs where cs: "length cs = n" "f = peval cs" using assms by (auto simp: polyfun_def)
  have "polyfun (Suc n) (\<lambda>x. x * peval cs x)"
    unfolding polyfun_def using cs by (intro exI [of _ "0 # cs"]) auto
  moreover have "polyfun (Suc n) (peval cs)"
  proof -
    have "peval (cs @ [0]) = peval cs" by (rule ext, induction cs) simp_all
    then show ?thesis unfolding polyfun_def using cs(1) by (intro exI [of _ "cs @ [0]"]) simp
  qed
  ultimately have "polyfun (Suc n) (\<lambda>x. a * (x * peval cs x) + b * peval cs x)"
    by (intro polyfun_add polyfun_scale)
  then show ?thesis by (simp add: cs algebra_simps)
qed

lemma polyfun_sum:
  assumes "finite A" "\<And>i. i \<in> A \<Longrightarrow> polyfun n (f i)"
  shows "polyfun n (\<lambda>x. \<Sum>i\<in>A. f i x)"
  using assms by (induction A rule: finite_induct) (simp_all add: polyfun_zero polyfun_add)

lemma polyfun_prod:
  assumes "finite A"
  shows "polyfun (Suc (card A)) (\<lambda>x. \<Prod>i\<in>A. a i * x + b i)"
  using assms
proof (induction A rule: finite_induct)
  case empty
  then show ?case using polyfun_one by simp
next
  case (insert i A)
  then show ?case using polyfun_linear [of "Suc (card A)" _ "a i" "b i"] by simp
qed

lemma polyfun_inj:
  fixes f g :: "'a::field \<Rightarrow> 'a"
  assumes "polyfun n f" "polyfun n g" "finite S" "n \<le> card S" "\<And>x. x \<in> S \<Longrightarrow> f x = g x"
  shows "f = g"
proof -
  obtain cs ds where c: "length cs = n" "f = peval cs" "length ds = n" "g = peval ds"
    using assms(1,2) by (auto simp: polyfun_def)
  then have "cs = ds" using assms by (intro peval_inj [of _ _ S]) simp_all
  then show ?thesis using c by simp
qed

section \<open>Interpolation\<close>

definition lagr :: "('i \<Rightarrow> 'a::field) \<Rightarrow> 'i set \<Rightarrow> 'i \<Rightarrow> 'a \<Rightarrow> 'a" where
  "lagr X A i z = (\<Prod>t\<in>A - {i}. (z - X t) / (X i - X t))"

lemma lagr_point:
  assumes "finite A" "inj_on X A" "i \<in> A" "j \<in> A"
  shows "lagr X A i (X j) = (if i = j then 1 else 0)"
proof (cases "i = j")
  case True
  have "(\<Prod>t\<in>A - {i}. (X i - X t) / (X i - X t)) = (\<Prod>t\<in>A - {i}. 1)"
    using assms by (intro prod.cong) (auto dest: inj_onD)
  then show ?thesis using True by (simp add: lagr_def)
next
  case False
  then have "j \<in> A - {i}" using assms by auto
  then show ?thesis using False assms(1) by (auto simp: lagr_def intro!: prod_zero)
qed

lemma polyfun_lagr:
  assumes "finite A" "i \<in> A"
  shows "polyfun (card A) (lagr X A i)"
proof -
  have "lagr X A i = (\<lambda>z. \<Prod>t\<in>A - {i}. 1 / (X i - X t) * z + - X t / (X i - X t))"
    unfolding lagr_def by (simp add: diff_divide_distrib)
  moreover have "card A = Suc (card (A - {i}))" using assms by (rule card.remove)
  ultimately show ?thesis using assms(1) by (simp only: polyfun_prod finite_Diff)
qed

lemma interpolate:
  assumes "finite A" "inj_on X A"
  shows "polyfun (card A) (\<lambda>z. \<Sum>i\<in>A. Y i * lagr X A i z)"
    and "j \<in> A \<Longrightarrow> (\<Sum>i\<in>A. Y i * lagr X A i (X j)) = Y j"
proof -
  show "polyfun (card A) (\<lambda>z. \<Sum>i\<in>A. Y i * lagr X A i z)"
    using assms by (intro polyfun_sum polyfun_scale polyfun_lagr)
  assume "j \<in> A"
  then have "(\<Sum>i\<in>A. Y i * lagr X A i (X j)) = (\<Sum>i\<in>A. if i = j then Y i else 0)"
    using assms by (intro sum.cong) (auto simp: lagr_point)
  then show "(\<Sum>i\<in>A. Y i * lagr X A i (X j)) = Y j"
    using assms(1) \<open>j \<in> A\<close> by simp
qed

text \<open>Lagrange's formula: enough points give the value anywhere.\<close>

lemma lagrange:
  assumes "finite A" "inj_on X A" "length cs \<le> card A"
  shows "peval cs z = (\<Sum>i\<in>A. peval cs (X i) * lagr X A i z)"
proof -
  have "peval (cs @ replicate n 0) = peval cs" for n
    by (rule ext, induction cs) (induction n, simp_all)
  then have "polyfun (card A) (peval cs)"
    unfolding polyfun_def using assms(3)
    by (intro exI [of _ "cs @ replicate (card A - length cs) 0"]) simp
  moreover have "card (X ` A) = card A" using card_image [OF assms(2)] .
  ultimately have "peval cs = (\<lambda>z. \<Sum>i\<in>A. peval cs (X i) * lagr X A i z)"
    using interpolate [OF assms(1,2)] assms(1) by (intro polyfun_inj [of "card A" _ _ "X ` A"]) auto
  then show ?thesis by metis
qed

text \<open>Any values at fewer points leave the value at 0 free, and then determine the rest.\<close>

lemma free_constant:
  fixes X :: "'i \<Rightarrow> 'a::field"
  assumes "finite A" "inj_on X A" "\<And>i. i \<in> A \<Longrightarrow> X i \<noteq> 0"
  shows "\<exists>!cs. length cs = card A \<and> (\<forall>i\<in>A. peval (c # cs) (X i) = Y i)"
proof -
  let ?Y = "\<lambda>i. (Y i - c) / X i"
  have eq: "peval (c # cs) (X i) = Y i \<longleftrightarrow> peval cs (X i) = ?Y i" if "i \<in> A" for cs i
    using assms(3) [OF that] by (auto simp: field_simps)
  obtain cs where cs: "length cs = card A" "\<And>z. (\<Sum>i\<in>A. ?Y i * lagr X A i z) = peval cs z"
    using interpolate(1) [OF assms(1,2), of ?Y] unfolding polyfun_def by metis
  have val: "peval cs (X i) = ?Y i" if "i \<in> A" for i
    using interpolate(2) [OF assms(1,2) that, of ?Y] unfolding cs(2) .
  show ?thesis
  proof (rule ex1I [of _ cs])
    show "length cs = card A \<and> (\<forall>i\<in>A. peval (c # cs) (X i) = Y i)"
      using cs(1) val eq [of _ cs] by blast
    fix ds
    assume d: "length ds = card A \<and> (\<forall>i\<in>A. peval (c # ds) (X i) = Y i)"
    then have "peval ds (X i) = peval cs (X i)" if "i \<in> A" for i
      using that eq [OF that, of ds] val [OF that] by simp
    then show "ds = cs"
      using d cs(1) assms(1) card_image [OF assms(2)] by (intro peval_inj [of _ _ "X ` A"]) auto
  qed
qed

end
