(* ===== verification/Shamir.thy ===== *)
theory Shamir
  imports Kdf Gf256 Interp
begin

text \<open>
  src/src/backup/shamir.c: M-of-N secret sharing over GF(256), one polynomial for each byte of the
  secret. The caller's two-dimensional buffer is a list of rows of \<open>share_cap\<close> bytes; None is a
  NULL pointer, and a pair of output pointer and capacity is an optional capacity. The theorems:
  any quorum of the lines gives the secret back, fewer lines fit every secret equally well, and no
  line whose checksum does not match is interpolated.
\<close>

section \<open>The lines of a sharing\<close>

definition SHAMIR_MAX_SHARES :: nat where "SHAMIR_MAX_SHARES = 16"
definition SHAMIR_MAX_SECRET :: nat where "SHAMIR_MAX_SECRET = 64"
definition SHAMIR_SHARE_OVERHEAD :: nat where "SHAMIR_SHARE_OVERHEAD = 6"
definition SHAMIR_HDR_LEN :: nat where "SHAMIR_HDR_LEN = 2"
definition SHAMIR_CHECKSUM_LEN :: nat where "SHAMIR_CHECKSUM_LEN = 4"

lemmas shamir_consts =
  SHAMIR_MAX_SHARES_def SHAMIR_MAX_SECRET_def SHAMIR_SHARE_OVERHEAD_def SHAMIR_HDR_LEN_def
  SHAMIR_CHECKSUM_LEN_def

definition share_checksum :: "env \<Rightarrow> bytes \<Rightarrow> nat \<Rightarrow> bytes option" where
  "share_checksum E line secret_len =
     map_option (take SHAMIR_CHECKSUM_LEN)
       (pqc_sha3_256 E (Some line) (SHAMIR_HDR_LEN + secret_len))"

text \<open>The coefficients of degree 1 to \<open>m - 1\<close>, one row of the matrix for each call of the source of
  random bytes; the first failure ends the loop.\<close>

fun split_coefs :: "env \<Rightarrow> nat \<Rightarrow> nat \<Rightarrow> 'a world_scheme \<Rightarrow> bytes list option \<times> 'a world_scheme" where
  "split_coefs E len 0 w = (Some [], w)"
| "split_coefs E len (Suc d) w =
     (case pqc_random_bytes E (Some (replicate len 0)) w of
        (ok, row, w1) \<Rightarrow>
          if \<not> ok then (None, w1)
          else (case split_coefs E len d w1 of (r, w2) \<Rightarrow> (map_option ((#) row) r, w2)))"

text \<open>Horner's rule on the coefficients of one byte, constant term first.\<close>

definition horner :: "byte \<Rightarrow> byte list \<Rightarrow> byte" where
  "horner x cs =
     (case rev cs of [] \<Rightarrow> 0 | c # rest \<Rightarrow> fold (\<lambda>c acc. gf_mul acc x XOR c) rest c)"

definition share_body :: "bytes list \<Rightarrow> nat \<Rightarrow> byte \<Rightarrow> bytes" where
  "share_body coef secret_len x =
     x # of_nat secret_len # map (\<lambda>j. horner x (map (\<lambda>row. row ! j) coef)) [0..<secret_len]"

fun split_lines :: "env \<Rightarrow> bytes list \<Rightarrow> nat \<Rightarrow> byte \<Rightarrow> nat \<Rightarrow> bytes list option" where
  "split_lines E coef len x 0 = Some []"
| "split_lines E coef len x (Suc n) =
     (let line = share_body coef len x in
      case share_checksum E line len of
        None \<Rightarrow> None
      | Some chk \<Rightarrow> map_option ((#) (line @ chk)) (split_lines E coef len (x + 1) n))"

text \<open>Success, the rows, their lengths, the world. A failure after the argument checks zeroes the
  first \<open>n\<close> rows.\<close>

definition shamir_split ::
    "env \<Rightarrow> bytes option \<Rightarrow> byte \<Rightarrow> byte \<Rightarrow> bytes list option \<Rightarrow> nat \<Rightarrow> nat list option \<Rightarrow>
     'a world_scheme \<Rightarrow> bool \<times> bytes list option \<times> nat list option \<times> 'a world_scheme" where
  "shamir_split E secret m n shares share_cap share_lens w =
     (case (secret, shares, share_lens) of
        (Some s, Some rows, Some lens) \<Rightarrow>
          let secret_len = length s;
              line_len = secret_len + SHAMIR_SHARE_OVERHEAD;
              k = unat n;
              fail = (\<lambda>w. (False, Some (replicate k (pqc_secure_zero share_cap) @ drop k rows),
                       Some (replicate k 0 @ drop k lens), w))
          in if secret_len = 0 \<or> secret_len > SHAMIR_MAX_SECRET then (False, shares, share_lens, w)
             else if m < 2 \<or> n < m \<or> unat n > SHAMIR_MAX_SHARES then (False, shares, share_lens, w)
             else if share_cap < line_len then (False, shares, share_lens, w)
             else (case split_coefs E secret_len (unat m - 1) w of
                (None, w1) \<Rightarrow> fail w1
              | (Some coef, w1) \<Rightarrow>
                  (case split_lines E (s # coef) secret_len 1 k of
                     None \<Rightarrow> fail w1
                   | Some lines \<Rightarrow>
                       (True,
                        Some (map2 (\<lambda>line row. line @ drop line_len row) lines (take k rows) @
                          drop k rows),
                        Some (replicate k line_len @ drop k lens), w1)))
      | _ \<Rightarrow> (False, shares, share_lens, w))"

section \<open>Recovery\<close>

text \<open>The check of every line: \<open>sl\<close> is the length of the first one, None before it is known; the
  answer is that length with the indices.\<close>

fun check_lines :: "env \<Rightarrow> nat \<Rightarrow> nat option \<Rightarrow> (bytes \<times> nat) list \<Rightarrow> (nat \<times> byte list) option" where
  "check_lines E cap sl [] = Some (case sl of None \<Rightarrow> 0 | Some l \<Rightarrow> l, [])"
| "check_lines E cap sl ((line, slen) # rest) =
     (let len = slen - SHAMIR_SHARE_OVERHEAD in
      if slen > cap \<or> slen \<le> SHAMIR_SHARE_OVERHEAD then None
      else if len > SHAMIR_MAX_SECRET then None
      else if unat (line ! 1) \<noteq> len then None
      else if sl \<noteq> None \<and> sl \<noteq> Some len then None
      else if line ! 0 = 0 \<or> unat (line ! 0) > SHAMIR_MAX_SHARES then None
      else case share_checksum E line len of
        None \<Rightarrow> None
      | Some chk \<Rightarrow>
          if \<not> pqc_ct_equal (Some chk)
                 (Some (slice (SHAMIR_HDR_LEN + len) SHAMIR_CHECKSUM_LEN line)) SHAMIR_CHECKSUM_LEN
          then None
          else map_option (\<lambda>(l, xs). (l, line ! 0 # xs)) (check_lines E cap (Some len) rest))"

definition basis_at :: "byte list \<Rightarrow> nat \<Rightarrow> byte" where
  "basis_at xs i =
     (case fold (\<lambda>t (num, den). if t = i then (num, den)
                   else (gf_mul num (xs ! t), gf_mul den (xs ! i XOR xs ! t)))
             [0..<length xs] (1, 1) of
        (num, den) \<Rightarrow> gf_mul num (gf_inv den))"

definition combine_byte :: "bytes list \<Rightarrow> byte list \<Rightarrow> nat \<Rightarrow> byte" where
  "combine_byte rows basis j =
     fold (\<lambda>i acc. acc XOR gf_mul (rows ! i ! (SHAMIR_HDR_LEN + j)) (basis ! i))
       [0..<length basis] 0"

definition shamir_combine ::
    "env \<Rightarrow> bytes list option \<Rightarrow> nat \<Rightarrow> nat list option \<Rightarrow> byte \<Rightarrow> nat option \<Rightarrow> bytes option" where
  "shamir_combine E shares share_cap share_lens k out_cap =
     (case (shares, share_lens, out_cap) of
        (Some rows, Some lens, Some cap) \<Rightarrow>
          if k < 1 \<or> unat k > SHAMIR_MAX_SHARES then None
          else if share_cap < SHAMIR_SHARE_OVERHEAD + 1 then None
          else (case check_lines E share_cap None (take (unat k) (zip rows lens)) of
             None \<Rightarrow> None
           | Some (secret_len, xs) \<Rightarrow>
               if \<not> distinct xs then None
               else if cap < secret_len then None
               else let basis = map (basis_at xs) [0..<unat k]
                    in Some (map (combine_byte rows basis) [0..<secret_len]))
      | _ \<Rightarrow> None)"

section \<open>The bytes as polynomials\<close>

lemma gf_minus [simp]: "(a :: gf) - b = a + b" and gf_uminus [simp]: "- (a :: gf) = a"
  by (transfer, simp)+

lemma horner_step:
  "GF (fold (\<lambda>c acc. gf_mul acc x XOR c) cs a) = peval (map GF (rev cs) @ [GF a]) (GF x)"
proof (induction cs arbitrary: a)
  case (Cons c cs)
  have snoc: "peval (ds @ [d + y * z]) y = peval (ds @ [d, z]) y" for ds :: "gf list" and d y z
    by (induction ds) simp_all
  show ?case
    using Cons [of "gf_mul a x XOR c"] snoc [of "map GF (rev cs)" "GF c" "GF x" "GF a"]
    by (simp add: GF_xor GF_mul ac_simps)
qed simp

lemma GF_horner: "GF (horner x cs) = peval (map GF cs) (GF x)"
proof (cases "rev cs")
  case Nil
  then show ?thesis by (simp add: horner_def)
next
  case (Cons c rest)
  then have "cs = rev rest @ [c]" by (metis rev_rev_ident rev.simps(2))
  then show ?thesis by (simp add: horner_def horner_step)
qed

lemma GF_basis:
  assumes "i < length xs"
  shows "GF (basis_at xs i) = lagr (\<lambda>t. GF (xs ! t)) {0..<length xs} i 0"
proof -
  let ?f = "\<lambda>t (num, den). if t = i then (num, den)
    else (gf_mul num (xs ! t), gf_mul den (xs ! i XOR xs ! t))"
  let ?X = "\<lambda>t. GF (xs ! t)"
  have "GF (fst (fold ?f [0..<n] (1, 1))) = (\<Prod>t\<in>{0..<n} - {i}. ?X t) \<and>
      GF (snd (fold ?f [0..<n] (1, 1))) = (\<Prod>t\<in>{0..<n} - {i}. ?X i + ?X t)" for n
  proof (induction n)
    case (Suc n)
    obtain num den where nd: "fold ?f [0..<n] (1, 1) = (num, den)" by fastforce
    have "{0..<Suc n} - {i} = (if n = i then {0..<n} - {i} else insert n ({0..<n} - {i}))"
      by auto
    moreover have "fold ?f [0..<Suc n] (1, 1) = (if n = i then (num, den)
        else (gf_mul num (xs ! n), gf_mul den (xs ! i XOR xs ! n)))"
      using nd by simp
    ultimately show ?case using Suc nd
      by (cases "n = i") (simp_all add: GF_mul GF_xor mult.commute)
  qed simp
  note fg = this [of "length xs"]
  have "lagr ?X {0..<length xs} i 0 =
      (\<Prod>t\<in>{0..<length xs} - {i}. ?X t) * inverse (\<Prod>t\<in>{0..<length xs} - {i}. ?X i + ?X t)"
    by (simp only: lagr_def prod_dividef gf_minus add_0) (rule divide_gf_def)
  then show ?thesis
    using fg by (simp add: basis_at_def case_prod_unfold GF_mul GF_inv)
qed

lemma GF_combine:
  "GF (combine_byte rows basis j) =
     (\<Sum>i\<in>{0..<length basis}. GF (rows ! i ! (SHAMIR_HDR_LEN + j)) * GF (basis ! i))"
proof -
  have "GF (fold (\<lambda>i acc. acc XOR gf_mul (rows ! i ! (SHAMIR_HDR_LEN + j)) (basis ! i)) [0..<n] 0) =
      (\<Sum>i\<in>{0..<n}. GF (rows ! i ! (SHAMIR_HDR_LEN + j)) * GF (basis ! i))" for n
    by (induction n) (simp_all add: GF_xor GF_mul)
  then show ?thesis by (simp add: combine_byte_def)
qed

text \<open>Interpolating the values of one column at distinct points gives its constant term.\<close>

lemma combine_column:
  assumes "distinct xs" "length cs \<le> length xs" "cs \<noteq> []"
    and "\<And>i. i < length xs \<Longrightarrow> rows ! i ! (SHAMIR_HDR_LEN + j) = horner (xs ! i) cs"
  shows "combine_byte rows (map (basis_at xs) [0..<length xs]) j = hd cs"
proof -
  let ?A = "{0..<length xs}" and ?X = "\<lambda>t. GF (xs ! t)"
  have inj: "inj_on ?X ?A"
    using assms(1) by (auto intro!: inj_onI simp: nth_eq_iff_index_eq)
  have "GF (combine_byte rows (map (basis_at xs) [0..<length xs]) j) =
      (\<Sum>i\<in>?A. peval (map GF cs) (?X i) * lagr ?X ?A i 0)"
    unfolding GF_combine by (intro sum.cong) (simp_all add: assms(4) GF_horner GF_basis)
  also have "\<dots> = peval (map GF cs) 0"
    using lagrange [OF _ inj, of "map GF cs" 0] assms(2) by simp
  also have "\<dots> = GF (hd cs)" using assms(3) by (cases cs) simp_all
  finally show ?thesis by simp
qed

section \<open>What a split writes\<close>

lemma length_share_body [simp]: "length (share_body coef len x) = SHAMIR_HDR_LEN + len"
  by (simp add: share_body_def SHAMIR_HDR_LEN_def)

lemma share_checksum_append [simp]:
  "length body = SHAMIR_HDR_LEN + len \<Longrightarrow>
     share_checksum E (body @ rest) len = share_checksum E body len"
  by (simp add: share_checksum_def pqc_sha3_256_def)

lemma length_share_checksum:
  "share_checksum E line len = Some chk \<Longrightarrow> length chk = SHAMIR_CHECKSUM_LEN"
  by (auto simp: share_checksum_def SHAMIR_CHECKSUM_LEN_def dest: pqc_sha3_256_length)

lemma split_coefs_shape:
  "split_coefs E len d w = (Some coef, w') \<Longrightarrow>
     length coef = d \<and> (\<forall>row\<in>set coef. length row = len)"
proof (induction d arbitrary: w w' coef)
  case (Suc d)
  obtain ok row w1 where r: "pqc_random_bytes E (Some (replicate len 0)) w = (ok, row, w1)"
    by (metis prod_cases3)
  obtain c w2 where c: "split_coefs E len d w1 = (c, w2)" by fastforce
  show ?case
    using Suc r c length_pqc_random_bytes [OF r] by (auto split: if_splits)
qed simp

text \<open>A row that holds the line of index \<open>x\<close> (and then whatever the buffer held).\<close>

definition holds_line :: "env \<Rightarrow> bytes list \<Rightarrow> nat \<Rightarrow> byte \<Rightarrow> bytes \<Rightarrow> bool" where
  "holds_line E coef len x row \<longleftrightarrow>
     (\<exists>chk rest. share_checksum E (share_body coef len x) len = Some chk \<and>
        row = share_body coef len x @ chk @ rest)"

lemma split_lines_nth:
  "split_lines E coef len x n = Some lines \<Longrightarrow>
     length lines = n \<and>
     (\<forall>i < n. length (lines ! i) = len + SHAMIR_SHARE_OVERHEAD \<and>
        holds_line E coef len (x + of_nat i) (lines ! i))"
proof (induction n arbitrary: x lines)
  case (Suc n)
  then obtain chk rest where
    c: "share_checksum E (share_body coef len x) len = Some chk"
      "split_lines E coef len (x + 1) n = Some rest"
      "lines = (share_body coef len x @ chk) # rest"
    by (auto simp: Let_def split: option.splits)
  have "holds_line E coef len x (share_body coef len x @ chk)"
    unfolding holds_line_def using c(1) by (intro exI [of _ chk] exI [of _ "[]"]) simp
  then show ?case
    using Suc.IH [OF c(2)] c length_share_checksum [OF c(1)]
    by (auto simp: less_Suc_eq_0_disj ac_simps shamir_consts)
qed simp

lemma holds_line_append [intro]:
  "holds_line E coef len x line \<Longrightarrow> holds_line E coef len x (line @ r)"
  unfolding holds_line_def by (metis append.assoc)

lemma shamir_split_True:
  assumes "shamir_split E (Some s) m n (Some rows) cap (Some lens) w =
      (True, Some rows', Some lens', w')"
    and "unat n \<le> length rows" "\<forall>row\<in>set rows. length row = cap"
  obtains coef where "split_coefs E (length s) (unat m - 1) w = (Some coef, w')"
    "0 < length s" "length s \<le> SHAMIR_MAX_SECRET" "2 \<le> m" "m \<le> n" "unat n \<le> SHAMIR_MAX_SHARES"
    "length s + SHAMIR_SHARE_OVERHEAD \<le> cap"
    "\<And>i. i < unat n \<Longrightarrow> holds_line E (s # coef) (length s) (1 + of_nat i) (rows' ! i)"
    "\<And>i. i < unat n \<Longrightarrow> lens' ! i = length s + SHAMIR_SHARE_OVERHEAD"
    "\<And>i. i < unat n \<Longrightarrow> length (rows' ! i) = cap"
proof -
  let ?L = "length s + SHAMIR_SHARE_OVERHEAD"
  obtain coef lines where
    g: "split_coefs E (length s) (unat m - 1) w = (Some coef, w')"
      "0 < length s" "length s \<le> SHAMIR_MAX_SECRET" "2 \<le> m" "m \<le> n" "unat n \<le> SHAMIR_MAX_SHARES"
      "?L \<le> cap"
    and l: "split_lines E (s # coef) (length s) 1 (unat n) = Some lines"
    and r: "rows' = map2 (\<lambda>line row. line @ drop ?L row) lines (take (unat n) rows) @ drop (unat n) rows"
      "lens' = replicate (unat n) ?L @ drop (unat n) lens"
    using assms(1)
    by (auto simp: shamir_split_def Let_def not_less split: if_splits prod.splits option.splits)
  note ln = split_lines_nth [OF l]
  have row: "rows' ! i = lines ! i @ drop ?L (rows ! i)" if "i < unat n" for i
    using that ln assms(2) by (simp add: r(1) nth_append)
  show ?thesis
  proof (rule that [OF g])
    fix i
    assume i: "i < unat n"
    show "holds_line E (s # coef) (length s) (1 + of_nat i) (rows' ! i)"
      using i ln row by auto
    show "lens' ! i = ?L" using i by (simp add: r(2) nth_append)
    have "rows ! i \<in> set rows" using i assms(2) by simp
    then show "length (rows' ! i) = cap"
      using i ln row assms(3) g(7) by simp
  qed
qed

section \<open>What a combination accepts\<close>

definition good_line :: "env \<Rightarrow> nat \<Rightarrow> nat \<Rightarrow> bytes \<times> nat \<Rightarrow> bool" where
  "good_line E cap len p =
     (case p of (line, slen) \<Rightarrow>
        slen = len + SHAMIR_SHARE_OVERHEAD \<and> slen \<le> cap \<and> 0 < len \<and> len \<le> SHAMIR_MAX_SECRET \<and>
        unat (line ! 1) = len \<and> line ! 0 \<noteq> 0 \<and> unat (line ! 0) \<le> SHAMIR_MAX_SHARES \<and>
        share_checksum E line len = Some (slice (SHAMIR_HDR_LEN + len) SHAMIR_CHECKSUM_LEN line))"

lemma check_lines_iff:
  assumes "\<forall>p\<in>set ls. length (fst p) = cap"
  shows "check_lines E cap sl ls = Some (l, xs) \<longleftrightarrow>
    list_all (good_line E cap l) ls \<and> xs = map (\<lambda>p. fst p ! 0) ls \<and>
    (case sl of None \<Rightarrow> ls = [] \<longrightarrow> l = 0 | Some l' \<Rightarrow> l = l')"
  using assms
proof (induction ls arbitrary: sl xs)
  case Nil
  then show ?case by (auto split: option.splits)
next
  case (Cons p ls)
  obtain line slen where p: "p = (line, slen)" by fastforce
  let ?len = "slen - SHAMIR_SHARE_OVERHEAD"
  have len: "length line = cap" and IH: "check_lines E cap (Some l') ls = Some (l, ys) \<longleftrightarrow>
      list_all (good_line E cap l) ls \<and> ys = map (\<lambda>p. fst p ! 0) ls \<and> l = l'" for ys l'
    using Cons p by simp_all
  have "check_lines E cap sl (p # ls) = Some (l, xs) \<longleftrightarrow>
      good_line E cap ?len p \<and> (sl = None \<or> sl = Some ?len) \<and>
      (\<exists>ys. check_lines E cap (Some ?len) ls = Some (l, ys) \<and> xs = line ! 0 # ys)"
  proof (cases "SHAMIR_SHARE_OVERHEAD < slen \<and> slen \<le> cap")
    case True
    then obtain n where n: "slen = n + SHAMIR_SHARE_OVERHEAD" "0 < n" "?len = n"
      by (metis add.commute less_imp_add_positive add_diff_cancel_left')
    have "pqc_ct_equal (Some chk)
        (Some (slice (SHAMIR_HDR_LEN + n) SHAMIR_CHECKSUM_LEN line)) SHAMIR_CHECKSUM_LEN \<longleftrightarrow>
      chk = slice (SHAMIR_HDR_LEN + n) SHAMIR_CHECKSUM_LEN line"
      if "share_checksum E line n = Some chk" for chk
      using that len True n(1) length_share_checksum [OF that]
      by (intro pqc_ct_equal_iff) (auto simp: shamir_consts)
    then show ?thesis
      using True n
      by (auto simp: p Let_def good_line_def not_less split: option.splits if_splits)
  qed (auto simp: p Let_def good_line_def split: if_splits)
  also have "\<dots> \<longleftrightarrow> l = ?len \<and> good_line E cap l p \<and> (sl = None \<or> sl = Some l) \<and>
      list_all (good_line E cap l) ls \<and> xs = map (\<lambda>p. fst p ! 0) (p # ls)"
    by (auto simp: IH p)
  finally have "check_lines E cap sl (p # ls) = Some (l, xs) \<longleftrightarrow> \<dots>" .
  moreover have "good_line E cap l p \<Longrightarrow> l = ?len" by (simp add: p good_line_def)
  ultimately show ?case by (cases sl) (auto simp del: check_lines.simps)
qed

lemma shamir_combine_eq:
  assumes "k \<noteq> 0" "unat k \<le> SHAMIR_MAX_SHARES" "SHAMIR_SHARE_OVERHEAD < cap"
    "length rows = unat k" "length lens = unat k"
  shows "shamir_combine E (Some rows) cap (Some lens) k (Some out) =
    (case check_lines E cap None (zip rows lens) of
       None \<Rightarrow> None
     | Some (len, xs) \<Rightarrow>
         if distinct xs \<and> len \<le> out
         then Some (map (combine_byte rows (map (basis_at xs) [0..<unat k])) [0..<len])
         else None)"
  using assms by (simp add: shamir_combine_def Let_def not_less not_le split: option.splits)

section \<open>A quorum recovers the secret\<close>

lemma holds_line_good:
  assumes h: "holds_line E (s # coef) (length s) x row" and cap: "length row = cap"
    and s: "0 < length s" "length s \<le> SHAMIR_MAX_SECRET"
    and x: "x \<noteq> 0" "unat x \<le> SHAMIR_MAX_SHARES"
  shows "good_line E cap (length s) (row, length s + SHAMIR_SHARE_OVERHEAD)" "row ! 0 = x"
    and "\<And>j. j < length s \<Longrightarrow>
      row ! (SHAMIR_HDR_LEN + j) = horner x (map (\<lambda>row. row ! j) (s # coef))"
proof -
  obtain chk rest where r: "row = share_body (s # coef) (length s) x @ chk @ rest"
    and c: "share_checksum E (share_body (s # coef) (length s) x) (length s) = Some chk"
    using h by (auto simp: holds_line_def)
  note lc = length_share_checksum [OF c]
  show x0: "row ! 0 = x" unfolding r by (simp add: share_body_def)
  show "row ! (SHAMIR_HDR_LEN + j) = horner x (map (\<lambda>row. row ! j) (s # coef))"
    if "j < length s" for j
    unfolding r using that by (simp add: nth_append) (simp add: share_body_def SHAMIR_HDR_LEN_def)
  have "unat (of_nat (length s) :: byte) = length s"
    using s(2) by (simp add: unat_of_nat SHAMIR_MAX_SECRET_def)
  then have "unat (row ! 1) = length s" unfolding r by (simp add: share_body_def)
  moreover have "slice (SHAMIR_HDR_LEN + length s) SHAMIR_CHECKSUM_LEN row = chk"
    unfolding r using lc by (simp add: slice_def)
  moreover have "share_checksum E row (length s) = Some chk" unfolding r using c by simp
  moreover have "length s + SHAMIR_SHARE_OVERHEAD \<le> cap"
    using cap lc unfolding r by (simp add: shamir_consts)
  ultimately show "good_line E cap (length s) (row, length s + SHAMIR_SHARE_OVERHEAD)"
    using s x by (simp add: good_line_def x0)
qed

lemma share_index:
  assumes "i < unat n" "unat n \<le> SHAMIR_MAX_SHARES"
  shows "(1 + of_nat i :: byte) \<noteq> 0" "unat (1 + of_nat i :: byte) = Suc i"
proof -
  have "unat (of_nat (Suc i) :: byte) = Suc i"
    using assms by (simp add: unat_of_nat SHAMIR_MAX_SHARES_def del: of_nat_Suc)
  then show *: "unat (1 + of_nat i :: byte) = Suc i" by simp
  then show "(1 + of_nat i :: byte) \<noteq> 0" by (metis nat.distinct(1) unat_0)
qed

lemma shamir_any_quorum:
  assumes split: "shamir_split E (Some s) m n (Some rows) cap (Some lens) w =
      (True, Some rows', Some lens', w')"
    and rows: "unat n \<le> length rows" "\<forall>row\<in>set rows. length row = cap"
    and idx: "distinct idx" "\<forall>i\<in>set idx. i < unat n" "unat m \<le> length idx"
    and out: "length s \<le> out"
  shows "shamir_combine E (Some (map ((!) rows') idx)) cap (Some (map ((!) lens') idx))
           (of_nat (length idx)) (Some out) = Some s"
proof -
  obtain coef where
    g: "split_coefs E (length s) (unat m - 1) w = (Some coef, w')"
      "0 < length s" "length s \<le> SHAMIR_MAX_SECRET" "2 \<le> m" "unat n \<le> SHAMIR_MAX_SHARES"
      "length s + SHAMIR_SHARE_OVERHEAD \<le> cap"
    and line: "\<And>i. i < unat n \<Longrightarrow> holds_line E (s # coef) (length s) (1 + of_nat i) (rows' ! i)"
      "\<And>i. i < unat n \<Longrightarrow> lens' ! i = length s + SHAMIR_SHARE_OVERHEAD"
      "\<And>i. i < unat n \<Longrightarrow> length (rows' ! i) = cap"
    using shamir_split_True [OF split rows] by metis
  let ?k = "length idx" and ?xs = "map (\<lambda>i. 1 + of_nat i :: byte) idx"
  have "?k \<le> unat n"
    using idx(1,2) distinct_card [of idx] card_mono [of "{0..<unat n}" "set idx"]
    by (simp add: subset_eq)
  moreover have "2 \<le> unat m" using g(4) by (simp add: word_le_nat_alt)
  ultimately have k: "1 \<le> ?k" "?k \<le> SHAMIR_MAX_SHARES" "unat (of_nat ?k :: byte) = ?k"
    using g(5) idx(3) by (simp_all add: unat_of_nat SHAMIR_MAX_SHARES_def)
  have k0: "of_nat ?k \<noteq> (0 :: byte)" using k(1,3) by (metis not_one_le_zero unat_0)
  have cap: "SHAMIR_SHARE_OVERHEAD < cap" using g(2,6) by linarith
  have good: "i < unat n \<Longrightarrow> good_line E cap (length s) (rows' ! i, lens' ! i) \<and>
      rows' ! i ! 0 = 1 + of_nat i \<and> (\<forall>j < length s. rows' ! i ! (SHAMIR_HDR_LEN + j) =
        horner (1 + of_nat i) (map (\<lambda>row. row ! j) (s # coef)))" for i
    using holds_line_good [OF line(1) line(3) g(2,3)] share_index g(5) line(2) by force
  have zip: "zip (map ((!) rows') idx) (map ((!) lens') idx) = map (\<lambda>i. (rows' ! i, lens' ! i)) idx"
    by (simp add: zip_map_map zip_same_conv_map)
  have chk: "check_lines E cap None (map (\<lambda>i. (rows' ! i, lens' ! i)) idx) = Some (length s, ?xs)"
    using idx(2) good line(3) k(1) by (subst check_lines_iff) (auto simp: list_all_iff)
  have dist: "distinct ?xs"
  proof -
    have "x = y" if "x \<in> set idx" "y \<in> set idx" "1 + of_nat x = (1 + of_nat y :: byte)" for x y
      using that idx(2) share_index(2) [OF _ g(5)] by (metis nat.inject)
    then show ?thesis using idx(1) by (simp add: distinct_map inj_on_def)
  qed
  have "combine_byte (map ((!) rows') idx) (map (basis_at ?xs) [0..<?k]) j = s ! j"
    if "j < length s" for j
    using that idx(2,3) good split_coefs_shape [OF g(1)] \<open>2 \<le> unat m\<close>
      combine_column [OF dist, of "map (\<lambda>row. row ! j) (s # coef)" "map ((!) rows') idx" j]
    by simp
  then have "map (combine_byte (map ((!) rows') idx) (map (basis_at ?xs) [0..<?k])) [0..<length s] = s"
    by (intro nth_equalityI) simp_all
  then show ?thesis
    using k k0 cap dist out by (subst shamir_combine_eq) (simp_all add: zip chk)
qed

text \<open>
  any \<open>k\<close> lines of a sharing, in any order, with \<open>m \<le> k \<le> n\<close>, give the secret back: whatever
  the random coefficients were, for every secret of 1 to 64 bytes and every caller's buffer.
\<close>

theorem shamir_quorum:
  assumes split: "shamir_split E (Some s) m n (Some rows) cap (Some lens) w =
      (True, Some rows', Some lens', w')"
    and rows: "unat n \<le> length rows" "\<forall>row\<in>set rows. length row = cap"
    and idx: "distinct idx" "\<forall>i\<in>set idx. i < unat n" "unat m \<le> length idx"
    and out: "length s \<le> out"
  shows "shamir_combine E (Some (map ((!) rows') idx)) cap (Some (map ((!) lens') idx))
           (of_nat (length idx)) (Some out) = Some s"
  using assms by (rule shamir_any_quorum)

section \<open>Fewer lines fit every secret\<close>

lemma column_unique:
  assumes "finite A" "inj_on X A" "\<And>i. i \<in> A \<Longrightarrow> X i \<noteq> (0 :: byte)"
  shows "\<exists>!cs. length cs = card A \<and> (\<forall>i\<in>A. horner (X i) (c # cs) = Y i)"
proof -
  have eq: "horner (X i) (c # cs) = Y i \<longleftrightarrow> peval (GF c # map GF cs) (GF (X i)) = GF (Y i)" for i cs
    using GF_horner [of "X i" "c # cs"] GF_inject_iff [of _ "Y i"] by (metis list.simps(9))
  have ex1: "\<exists>!gs. length gs = card A \<and> (\<forall>i\<in>A. peval (GF c # gs) (GF (X i)) = GF (Y i))"
    using assms by (intro free_constant) (auto simp: inj_on_def)
  then obtain gs where gs: "length gs = card A" "\<forall>i\<in>A. peval (GF c # gs) (GF (X i)) = GF (Y i)"
    by blast
  have id: "map GF (map gf_byte gs) = gs" by (simp add: comp_def)
  show ?thesis
  proof (rule ex1I [of _ "map gf_byte gs"])
    show "length (map gf_byte gs) = card A \<and> (\<forall>i\<in>A. horner (X i) (c # map gf_byte gs) = Y i)"
      unfolding eq id using gs by simp
    fix cs
    assume "length cs = card A \<and> (\<forall>i\<in>A. horner (X i) (c # cs) = Y i)"
    then have "map GF cs = gs"
      using ex1 gs unfolding eq by (metis length_map)
    then show "cs = map gf_byte gs" by (auto simp: comp_def)
  qed
qed

lemma share_body_eq_iff:
  "share_body c1 len x = share_body c2 len x \<longleftrightarrow>
     (\<forall>j < len. horner x (map (\<lambda>row. row ! j) c1) = horner x (map (\<lambda>row. row ! j) c2))"
  by (auto simp: share_body_def)

lemma matrix_eqI:
  assumes "length a = length b" "\<forall>row\<in>set a. length row = len" "\<forall>row\<in>set b. length row = len"
    and "\<And>j. j < len \<Longrightarrow> map (\<lambda>row. row ! j) a = map (\<lambda>row. row ! j) b"
  shows "a = b"
proof (rule nth_equalityI [OF assms(1)])
  fix d
  assume d: "d < length a"
  have "a ! d ! j = b ! d ! j" if "j < len" for j
    using assms(4) [OF that] d assms(1) by (metis nth_map)
  then show "a ! d = b ! d"
    using assms(1-3) d by (intro nth_equalityI) simp_all
qed

text \<open>
  C11: the lines of \<open>m - 1\<close> custodians fit every secret of the same length, each with exactly one
  choice of the random coefficients, so they say nothing about the secret.
\<close>

theorem shamir_secrecy:
  assumes "I \<subseteq> {0..<unat (n :: byte)}" "unat n \<le> SHAMIR_MAX_SHARES"
    and "card I = length coef" "\<forall>row\<in>set coef. length row = length s" "length t = length s"
  shows "\<exists>!coef'. length coef' = length coef \<and> (\<forall>row\<in>set coef'. length row = length s) \<and>
    (\<forall>i\<in>I. share_body (t # coef') (length s) (1 + of_nat i) =
             share_body (s # coef) (length s) (1 + of_nat i))"
proof -
  let ?X = "\<lambda>i. 1 + of_nat i :: byte" and ?col = "\<lambda>j. map (\<lambda>row. row ! j)" and ?D = "length coef"
  have fin: "finite I" using assms(1) finite_subset by blast
  have idx: "i \<in> I \<Longrightarrow> ?X i \<noteq> 0 \<and> unat (?X i) = Suc i" for i
    using assms(1,2) share_index [of i n] by auto
  have inj: "inj_on ?X I" using idx by (metis (no_types, lifting) inj_onI nat.inject)
  let ?P = "\<lambda>j cs. length cs = ?D \<and>
    (\<forall>i\<in>I. horner (?X i) (t ! j # cs) = horner (?X i) (?col j (s # coef)))"
  have ex1: "\<exists>!cs. ?P j cs" for j
    using column_unique [OF fin inj, of "t ! j"] idx assms(3) by auto
  then obtain c where c: "\<And>j. ?P j (c j)" by metis
  have Peq: "(\<forall>i\<in>I. share_body (t # M) (length s) (?X i) = share_body (s # coef) (length s) (?X i)) \<longleftrightarrow>
      (\<forall>j < length s. ?P j (?col j M))" if "length M = ?D" for M
    using that by (auto simp: share_body_eq_iff)
  let ?M = "map (\<lambda>d. map (\<lambda>j. c j ! d) [0..<length s]) [0..<?D]"
  have col: "?col j ?M = c j" if "j < length s" for j
    using that c [of j] by (intro nth_equalityI) simp_all
  show ?thesis
  proof (rule ex1I [of _ ?M])
    show "length ?M = ?D \<and> (\<forall>row\<in>set ?M. length row = length s) \<and>
      (\<forall>i\<in>I. share_body (t # ?M) (length s) (?X i) = share_body (s # coef) (length s) (?X i))"
      using c col by (subst Peq) auto
    fix M
    assume M: "length M = ?D \<and> (\<forall>row\<in>set M. length row = length s) \<and>
      (\<forall>i\<in>I. share_body (t # M) (length s) (?X i) = share_body (s # coef) (length s) (?X i))"
    then have "?col j M = c j" if "j < length s" for j
      using that ex1 [of j] c [of j] Peq [of M] by blast
    then show "M = ?M"
      using M col by (intro matrix_eqI [of _ _ "length s"]) auto
  qed
qed

section \<open>What is refused\<close>

text \<open>
  a combination answers exactly when every line is well formed for one secret length (lengths,
  index from 1 to 16, and the stored four bytes are the checksum of the rest), the indices are
  distinct and the output is large enough; it cannot tell whether the lines are enough.
\<close>

theorem shamir_combine_exact:
  assumes "length rows = unat k" "length lens = unat k" "\<forall>row\<in>set rows. length row = cap"
  shows "shamir_combine E (Some rows) cap (Some lens) k (Some out) \<noteq> None \<longleftrightarrow>
    1 \<le> unat k \<and> unat k \<le> SHAMIR_MAX_SHARES \<and>
    (\<exists>len \<le> out. list_all (good_line E cap len) (zip rows lens)) \<and>
    distinct (map (\<lambda>row. row ! 0) rows)"
proof (cases "k \<noteq> 0 \<and> unat k \<le> SHAMIR_MAX_SHARES \<and> SHAMIR_SHARE_OVERHEAD < cap")
  case True
  have "length rows = length lens" using assms(1,2) by simp
  then have fst: "map (\<lambda>p. fst p ! 0) (zip rows lens) = map (\<lambda>row. row ! 0) rows"
    by (induction rows lens rule: list_induct2) simp_all
  have ne: "zip rows lens \<noteq> []" using assms True by (auto simp: unat_eq_0)
  have "\<forall>p\<in>set (zip rows lens). length (fst p) = cap"
    using assms(3) by (auto dest: set_zip_leftD)
  note iff = check_lines_iff [OF this, of E None, unfolded fst]
  have "1 \<le> unat k" using True by (metis One_nat_def Suc_leI gr0I unat_eq_0)
  moreover have uniq: "len = len'"
    if "list_all (good_line E cap len) (zip rows lens)"
      "list_all (good_line E cap len') (zip rows lens)" for len len'
    using that ne by (cases "zip rows lens") (auto simp: good_line_def)
  moreover note eq = shamir_combine_eq [of k cap rows lens E out]
  ultimately show ?thesis
  proof (cases "check_lines E cap None (zip rows lens)")
    case None
    then have "\<not> list_all (good_line E cap len) (zip rows lens)" for len
      using iff ne by (metis option.case(1) option.distinct(1))
    then show ?thesis using None True assms(1,2) by (subst eq) simp_all
  next
    case (Some p)
    obtain len xs where p: "p = (len, xs)" by fastforce
    then have g: "list_all (good_line E cap len) (zip rows lens)" "xs = map (\<lambda>row. row ! 0) rows"
      using Some iff by auto
    then have "(\<exists>l \<le> out. list_all (good_line E cap l) (zip rows lens)) \<longleftrightarrow> len \<le> out"
      using uniq by metis
    then show ?thesis
      using Some p g(2) True assms(1,2) \<open>1 \<le> unat k\<close> by (subst eq) auto
  qed
next
  case False
  have "\<not> list_all (good_line E cap len) (zip rows lens)"
    if "\<not> SHAMIR_SHARE_OVERHEAD < cap" "1 \<le> unat k" for len
    using that assms by (cases rows; cases lens) (auto simp: good_line_def)
  then show ?thesis
    using False by (auto simp: shamir_combine_def not_less unat_eq_0)
qed

end
