(* ===== verification/Backup.thy ===== *)
theory Backup
  imports Keystore Shamir
begin

text \<open>
  src/src/backup/backup.c: a backup of the slots whose policy allows it, encrypted under a recovery
  key that exists only as shares. An export draws the recovery key, writes the file and splits the
  key; a restore recombines the shares, checks the file and loads record by record, each slot
  being sealed again with the root key of the device it is restored on.
\<close>

definition AUDIT_OP_BACKUP_EXPORT :: u32 where "AUDIT_OP_BACKUP_EXPORT = 13"
definition AUDIT_OP_RESTORE :: u32 where "AUDIT_OP_RESTORE = 15"

definition HSM_BACKUP_VERSION :: u32 where "HSM_BACKUP_VERSION = 1"
definition HSM_RMK_LEN :: nat where "HSM_RMK_LEN = 32"
definition HSM_SHARE_LEN :: nat where "HSM_SHARE_LEN = HSM_RMK_LEN + 6"
definition BK_MAGIC :: bytes where "BK_MAGIC = cstr ''PQCHSMBK''"
definition BK_SALT_LEN :: nat where "BK_SALT_LEN = 16"
definition BK_HDR_LEN :: nat where "BK_HDR_LEN = 8 + 4 + 4 + BK_SALT_LEN"
definition BK_TAG_LEN :: nat where "BK_TAG_LEN = 32"
definition BK_REC_HDR :: nat where "BK_REC_HDR = 8"

lemmas bk_consts = HSM_RMK_LEN_def HSM_SHARE_LEN_def BK_SALT_LEN_def BK_HDR_LEN_def BK_TAG_LEN_def
  BK_REC_HDR_def

definition derive_from_rmk :: "env \<Rightarrow> bytes \<Rightarrow> bytes \<Rightarrow> string \<Rightarrow> nat \<Rightarrow> bytes option" where
  "derive_from_rmk E rmk salt label out_len =
     pqc_kdf E (Some rmk) HSM_RMK_LEN (Some salt) BK_SALT_LEN (Some (cstr label)) out_len"

abbreviation derive_bek :: "env \<Rightarrow> bytes \<Rightarrow> bytes \<Rightarrow> bytes option" where
  "derive_bek E rmk salt \<equiv> derive_from_rmk E rmk salt ''pqc-hsm/backup-bek'' PQC_KEK_LEN"

abbreviation derive_fkey :: "env \<Rightarrow> bytes \<Rightarrow> bytes \<Rightarrow> bytes option" where
  "derive_fkey E rmk salt \<equiv> derive_from_rmk E rmk salt ''pqc-hsm/backup-filemac'' 32"

section \<open>Export\<close>

text \<open>The loop over the slots: a slot whose metadata do not verify, or whose policy does not allow a
  backup, is skipped; a slot that cannot be serialized ends the export.\<close>

fun backup_records ::
    "env \<Rightarrow> bytes \<Rightarrow> nat list \<Rightarrow> hsm_token \<Rightarrow> (nat \<times> bytes) list hsm_res \<times> hsm_token" where
  "backup_records E bek [] tok = (Inr [], tok)"
| "backup_records E bek (i # is) tok =
     (case hsm_slot_get_meta E tok (of_nat i) True of
        Inl _ \<Rightarrow> backup_records E bek is tok
      | Inr meta \<Rightarrow>
          if m_policy meta AND SLOT_POLICY_BACKUPABLE = 0 then backup_records E bek is tok
          else (case hsm_slot_serialize E tok (of_nat i) (Some bek) PQC_KEK_LEN
                       (Some hsm_slot_blob_max) True of
             (Inl e, tok1) \<Rightarrow> (Inl e, tok1)
           | (Inr blob, tok1) \<Rightarrow>
               (case backup_records E bek is tok1 of
                  (Inl e, tok2) \<Rightarrow> (Inl e, tok2)
                | (Inr rest, tok2) \<Rightarrow> (Inr ((i, blob) # rest), tok2))))"

definition bk_record :: "nat \<times> bytes \<Rightarrow> bytes" where
  "bk_record r = (case r of (i, blob) \<Rightarrow>
     put_u32 (of_nat i) @ put_u32 (of_nat (length blob)) @ blob)"

definition bk_body :: "bytes \<Rightarrow> (nat \<times> bytes) list \<Rightarrow> bytes" where
  "bk_body salt recs =
     BK_MAGIC @ put_u32 HSM_BACKUP_VERSION @ put_u32 (of_nat (length recs)) @ salt @
     concat (map bk_record recs)"

text \<open>tmp, fsync, rename; every failure after the name was built unlinks the temporary file.\<close>

definition bk_store ::
    "env \<Rightarrow> bytes \<Rightarrow> bytes \<Rightarrow> bytes \<Rightarrow> 'a world_scheme \<Rightarrow> hsm_status \<times> 'a world_scheme" where
  "bk_store E path body tag w =
     (let tmp = tmp_of path; fail = (\<lambda>st w. (st, set_file tmp None (next_tick w))) in
      if \<not> malloc_ok E (tick w) (c_strlen path + 8) then (HSM_ERR_NOMEM, next_tick w)
      else case sys_ok E (next_tick w) of (opened, w1) \<Rightarrow>
        if \<not> opened then fail HSM_ERR_BAD_ARG w1
        else case write_once E tmp body 0 (set_file tmp (Some []) w1) of (ok1, w2) \<Rightarrow>
          if \<not> ok1 then fail HSM_ERR_CRYPTO w2
          else case write_once E tmp tag (length body) w2 of (ok2, w3) \<Rightarrow>
            if \<not> ok2 then fail HSM_ERR_CRYPTO w3
            else case sys_ok E w3 of (synced, w4) \<Rightarrow>
              if \<not> synced then fail HSM_ERR_CRYPTO w4
              else case sys_ok E w4 of (renamed, w5) \<Rightarrow>
                if \<not> renamed then fail HSM_ERR_CRYPTO w5
                else (HSM_OK, set_file tmp None (set_file path (files w5 tmp) w5)))"

text \<open>What an export leaves in the caller's buffers: rows, lengths, and the count if it succeeds.\<close>

type_synonym shares = "bytes list option \<times> nat list option"

definition bk_export ::
    "env \<Rightarrow> bytes \<Rightarrow> byte \<Rightarrow> byte \<Rightarrow> shares \<Rightarrow> nat \<Rightarrow> hsm_token \<Rightarrow>
     hsm_status \<times> shares \<times> nat option \<times> hsm_token" where
  "bk_export E path m n sh share_cap tok =
     (let n_slots = length (slots tok);
          a1 = malloc_ok E (tick tok) (BK_HDR_LEN + n_slots * (BK_REC_HDR + hsm_slot_blob_max)) in
      case pqc_secure_alloc E hsm_slot_blob_max (next_tick tok) of (a2, t1) \<Rightarrow>
        if \<not> a1 \<or> a2 = None then (HSM_ERR_NOMEM, sh, None, t1)
        else case pqc_random_bytes E (Some (replicate HSM_RMK_LEN 0)) t1 of (ok1, rmk, t2) \<Rightarrow>
          if \<not> ok1 then (HSM_ERR_CRYPTO, sh, None, t2)
          else case pqc_random_bytes E (Some (replicate BK_SALT_LEN 0)) t2 of (ok2, salt, t3) \<Rightarrow>
            if \<not> ok2 then (HSM_ERR_CRYPTO, sh, None, t3)
            else case (derive_bek E rmk salt, derive_fkey E rmk salt) of
              (Some bek, Some fkey) \<Rightarrow>
                (case backup_records E bek [0..<n_slots] t3 of
                   (Inl e, t4) \<Rightarrow> (e, sh, None, t4)
                 | (Inr recs, t4) \<Rightarrow>
                     (case kmac E fkey (bk_body salt recs) ''pqc-hsm/backup'' BK_TAG_LEN of
                        None \<Rightarrow> (HSM_ERR_CRYPTO, sh, None, t4)
                      | Some tag \<Rightarrow>
                          (case bk_store E path (bk_body salt recs) tag t4 of (st, t5) \<Rightarrow>
                             if st \<noteq> HSM_OK then (st, sh, None, t5)
                             else case shamir_split E (Some rmk) m n (fst sh) share_cap (snd sh) t5 of
                               (ok, rows, lens, t6) \<Rightarrow>
                                 if \<not> ok then (HSM_ERR_CRYPTO, (rows, lens), None,
                                               set_file (tmp_of path) None (set_file path None t6))
                                 else (HSM_OK, (rows, lens), Some (length recs), t6))))
            | _ \<Rightarrow> (HSM_ERR_CRYPTO, sh, None, t3))"

definition hsm_backup_export ::
    "env \<Rightarrow> hsm_token option \<Rightarrow> u64 \<Rightarrow> bytes option \<Rightarrow> byte \<Rightarrow> byte \<Rightarrow> shares \<Rightarrow> nat \<Rightarrow>
     hsm_status \<times> shares \<times> nat option \<times> hsm_token option" where
  "hsm_backup_export E tokp sess pathp m n sh share_cap =
     (case (tokp, pathp) of
        (Some tok, Some path) \<Rightarrow>
          if fst sh = None \<or> snd sh = None \<or> share_cap < HSM_SHARE_LEN then (HSM_ERR_BAD_ARG, sh, None, tokp)
          else if m < 2 \<or> m > n \<or> n > 16 then (HSM_ERR_BAD_ARG, sh, None, tokp)
          else (case hsm_session_role tok sess True of
             Inl e \<Rightarrow> (e, sh, None, tokp)
           | Inr role \<Rightarrow>
               if role \<noteq> HSM_ROLE_SO then (HSM_ERR_NOT_AUTHORIZED, sh, None, tokp)
               else (case bk_export E path m n sh share_cap tok of
                  (st, sh', cnt, tok1) \<Rightarrow>
                    (st, sh', cnt,
                     Some (slot_audit E AUDIT_OP_BACKUP_EXPORT HSM_ROLE_SO 0 st (Some path) tok1))))
      | _ \<Rightarrow> (HSM_ERR_BAD_ARG, sh, None, tokp))"

section \<open>Restore\<close>

text \<open>
  The loop over the records. \<open>st\<close> is the variable of that name: INTEGRITY at the start, and after a
  record that loaded the HSM\_OK its deserialization returned, which the checks on the next record do
  not set back. The count is there when the loop came to its end.
\<close>

fun restore_records ::
    "env \<Rightarrow> bytes \<Rightarrow> bytes \<Rightarrow> nat \<Rightarrow> nat \<Rightarrow> nat \<Rightarrow> hsm_status \<Rightarrow> hsm_token \<Rightarrow>
     hsm_status \<times> nat option \<times> hsm_token" where
  "restore_records E bek body 0 off restored st tok =
     (if off \<noteq> length body then (HSM_ERR_INTEGRITY, None, tok) else (HSM_OK, Some restored, tok))"
| "restore_records E bek body (Suc k) off restored st tok =
     (if off + BK_REC_HDR > length body then (st, None, tok)
      else let slot_id = get_u32 (drop off body); blen = unat (get_u32 (drop (off + 4) body));
               off1 = off + BK_REC_HDR in
        if blen > length body - off1 then (st, None, tok)
        else if unat slot_id \<ge> hsm_token_slot_count (Some tok) then (st, None, tok)
        else (case hsm_slot_deserialize E tok slot_id (Some bek) PQC_KEK_LEN
                     (Some (slice off1 blen body)) blen of
                (st1, tok1) \<Rightarrow>
                  if st1 \<noteq> HSM_OK then (st1, None, tok1)
                  else restore_records E bek body k (off1 + blen) (Suc restored) HSM_OK tok1))"

text \<open>The checks on the file, once it is in memory.\<close>

definition restore_checked ::
    "env \<Rightarrow> bytes \<Rightarrow> bytes \<Rightarrow> hsm_token \<Rightarrow> hsm_status \<times> nat option \<times> hsm_token" where
  "restore_checked E rmk buf tok =
     (if take 8 buf \<noteq> BK_MAGIC \<or> get_u32 (drop 8 buf) \<noteq> HSM_BACKUP_VERSION
      then (HSM_ERR_INTEGRITY, None, tok)
      else let n_recs = unat (get_u32 (drop 12 buf)); salt = slice 16 BK_SALT_LEN buf;
               body = take (length buf - BK_TAG_LEN) buf in
        case (derive_bek E rmk salt, derive_fkey E rmk salt) of
          (Some bek, Some fkey) \<Rightarrow>
            (case kmac E fkey body ''pqc-hsm/backup'' BK_TAG_LEN of
               None \<Rightarrow> (HSM_ERR_CRYPTO, None, tok)
             | Some want \<Rightarrow>
                 if \<not> pqc_ct_equal (Some want) (Some (drop (length buf - BK_TAG_LEN) buf)) BK_TAG_LEN
                 then (HSM_ERR_INTEGRITY, None, tok)
                 else restore_records E bek body n_recs BK_HDR_LEN 0 HSM_ERR_INTEGRITY tok)
        | _ \<Rightarrow> (HSM_ERR_CRYPTO, None, tok))"

definition bk_restore ::
    "env \<Rightarrow> bytes \<Rightarrow> bytes list \<Rightarrow> nat \<Rightarrow> nat list \<Rightarrow> byte \<Rightarrow> hsm_token \<Rightarrow>
     hsm_status \<times> nat option \<times> hsm_token" where
  "bk_restore E path rows share_cap lens k tok =
     (case shamir_combine E (Some rows) share_cap (Some lens) k (Some HSM_RMK_LEN) of
        None \<Rightarrow> (HSM_ERR_INTEGRITY, None, tok)
      | Some rmk \<Rightarrow>
          if length rmk \<noteq> HSM_RMK_LEN then (HSM_ERR_INTEGRITY, None, tok)
          else (case fopen_read E path tok of
             (None, t1) \<Rightarrow> (HSM_ERR_BAD_ARG, None, t1)
           | (Some buf, t1) \<Rightarrow>
               (case sys_ok E t1 of (told, t2) \<Rightarrow>
                 if \<not> told \<or> length buf < BK_HDR_LEN + BK_TAG_LEN then (HSM_ERR_INTEGRITY, None, t2)
                 else if \<not> malloc_ok E (tick t2) (length buf) then (HSM_ERR_NOMEM, None, next_tick t2)
                 else (case sys_ok E (next_tick t2) of (got, t3) \<Rightarrow>
                   if \<not> got then (HSM_ERR_INTEGRITY, None, t3)
                   else restore_checked E rmk buf t3))))"

definition hsm_backup_restore ::
    "env \<Rightarrow> hsm_token option \<Rightarrow> bytes option \<Rightarrow> shares \<Rightarrow> nat \<Rightarrow> byte \<Rightarrow>
     hsm_status \<times> nat option \<times> hsm_token option" where
  "hsm_backup_restore E tokp pathp sh share_cap k =
     (case (tokp, pathp, fst sh, snd sh) of
        (Some tok, Some path, Some rows, Some lens) \<Rightarrow>
          if k = 0 then (HSM_ERR_BAD_ARG, None, tokp)
          else (case bk_restore E path rows share_cap lens k tok of
             (st, cnt, tok1) \<Rightarrow>
               (st, cnt, Some (slot_audit E AUDIT_OP_RESTORE HSM_ROLE_SO 0 st (Some path) tok1)))
      | _ \<Rightarrow> (HSM_ERR_BAD_ARG, None, tokp))"

end
