(* ===== verification/Backup_Props.thy ===== *)
theory Backup_Props
  imports Backup
begin

text \<open>
  What the backup of src/src/backup/backup.c promises: an export leaves the token alone and writes
  only what the policy allows, a restore accepts only a file of the shared key, and an export
  restored by a quorum on any device with the same slots gives the keys back.
\<close>

section \<open>Frames\<close>

lemma serialize_locked_length:
  assumes "slot_serialize_locked E s kek kl (Some cap) bl w = (Inr blob, w')" "SLOT_META_WIRE_LEN \<le> cap"
    "length (m_label (sl_meta s)) = SLOT_LABEL_MAX"
  shows "length blob \<le> cap"
  using assms
  by (auto simp: slot_serialize_locked_def slot_meta_serialize_def pqc_wrap_def Let_def
      length_slot_meta_wire split: if_splits option.splits prod.splits dest!: wrap_nonce_length)

section \<open>The records of an export\<close>

definition backupable :: "env \<Rightarrow> slot \<Rightarrow> bool" where
  "backupable E s \<longleftrightarrow>
     slot_check_integrity E s = HSM_OK \<and> m_policy (sl_meta s) AND SLOT_POLICY_BACKUPABLE \<noteq> 0"

text \<open>A blob that serializing the slot wrote, whatever the state of the call counter.\<close>

definition blob_of :: "env \<Rightarrow> bytes \<Rightarrow> slot \<Rightarrow> bytes \<Rightarrow> bool" where
  "blob_of E bek s blob \<longleftrightarrow>
     (\<exists>t t'. slot_serialize_locked E s (Some bek) PQC_KEK_LEN (Some hsm_slot_blob_max) True
        (t :: hsm_token) = (Inr blob, t'))"

lemma slot_index:
  assumes "length (slots tok) \<le> 4096" "i < length (slots tok)"
  shows "unat (of_nat i :: u32) = i" "slot_at tok (of_nat i) = Some (slots tok ! i)"
proof -
  show *: "unat (of_nat i :: u32) = i" using assms by (intro unat_u32_less) simp
  show "slot_at tok (of_nat i) = Some (slots tok ! i)" using assms(2) by (simp add: slot_at_def *)
qed

lemma backup_records_result:
  assumes "backup_records E bek is tok = (Inr recs, tok')" "length (slots tok) \<le> 4096"
    and "\<forall>i\<in>set is. i < length (slots tok)"
  shows "only_core tok tok' \<and> map fst recs = filter (\<lambda>i. backupable E (slots tok ! i)) is \<and>
     (\<forall>(i, blob)\<in>set recs. blob_of E bek (slots tok ! i) blob)"
  using assms
proof (induction "is" arbitrary: tok recs)
  case (Cons i "is")
  note si = slot_index [OF Cons.prems(2), of i]
  show ?case
  proof (cases "backupable E (slots tok ! i)")
    case False
    then have "backup_records E bek is tok = (Inr recs, tok')"
      using Cons.prems si by (auto simp: hsm_slot_get_meta_def backupable_def split: if_splits)
    then show ?thesis using Cons False by simp
  next
    case True
    then obtain blob tok1 rest where
      s: "hsm_slot_serialize E tok (of_nat i) (Some bek) PQC_KEK_LEN (Some hsm_slot_blob_max) True =
          (Inr blob, tok1)"
      and r: "backup_records E bek is tok1 = (Inr rest, tok')" "recs = (i, blob) # rest"
      using Cons.prems si
      by (auto simp: hsm_slot_get_meta_def backupable_def split: prod.splits sum.splits if_splits)
    have core: "only_core tok tok1" using serialize_core [OF s] .
    have "blob_of E bek (slots tok ! i) blob"
      using s si(2) Cons.prems(3) by (auto simp: hsm_slot_serialize_def blob_of_def split: if_splits)
    then show ?thesis
      using Cons.IH [OF r(1)] Cons.prems(2,3) r(2) True slots_core [OF core] only_core_trans [OF core]
      by auto
  qed
qed simp

lemma blob_of_length:
  assumes "blob_of E bek s blob" "slot_inv sid s"
  shows "length blob < 2 ^ 32"
proof -
  have "length (m_label (sl_meta s)) = SLOT_LABEL_MAX"
    using assms(2) by (simp add: slot_inv_def wf_meta_def)
  then show ?thesis
    using assms(1) blob_max serialize_locked_length unfolding blob_of_def
    by (meson order_le_less_trans)
qed

section \<open>Reading the records back\<close>

text \<open>The same loop on the list of records.\<close>

fun install_list :: "env \<Rightarrow> bytes \<Rightarrow> (nat \<times> bytes) list \<Rightarrow> hsm_token \<Rightarrow> hsm_status \<times> hsm_token" where
  "install_list E bek [] tok = (HSM_OK, tok)"
| "install_list E bek ((i, blob) # recs) tok =
     (case hsm_slot_deserialize E tok (of_nat i) (Some bek) PQC_KEK_LEN (Some blob) (length blob) of
        (st, tok1) \<Rightarrow> if st \<noteq> HSM_OK then (st, tok1) else install_list E bek recs tok1)"

lemma bk_record_front:
  assumes "length blob < 2 ^ 32"
  shows "get_u32 (drop (length pre) (pre @ bk_record (i, blob) @ r)) = of_nat i"
    "unat (get_u32 (drop (length pre + 4) (pre @ bk_record (i, blob) @ r))) = length blob"
    "slice (length pre + BK_REC_HDR) (length blob) (pre @ bk_record (i, blob) @ r) = blob"
proof -
  have "drop (length pre + 4) (pre @ bk_record (i, blob) @ r) =
      put_u32 (of_nat (length blob)) @ blob @ r"
    by (simp add: bk_record_def)
  then show "unat (get_u32 (drop (length pre + 4) (pre @ bk_record (i, blob) @ r))) = length blob"
    using assms by (simp add: le_get_le_bytes unat_u32_less)
qed (simp_all add: bk_record_def le_get_le_bytes slice_def BK_REC_HDR_def)

lemma length_bk_record: "length (bk_record (i, blob)) = BK_REC_HDR + length blob"
  by (simp add: bk_record_def BK_REC_HDR_def)

lemma deserialize_length:
  "hsm_slot_deserialize E tok sid kek kl blob bl = (st, tok') \<Longrightarrow> length (slots tok') = length (slots tok)"
  using deserialize_slots by fastforce

text \<open>One turn of the loop on a record, and its end at a slot the token does not have.\<close>

lemma restore_step:
  assumes "length blob < 2 ^ 32" "i < length (slots tok)" "length (slots tok) \<le> 4096"
    and "hsm_slot_deserialize E tok (of_nat i) (Some bek) PQC_KEK_LEN (Some blob) (length blob) = (st1, tok1)"
  shows "restore_records E bek (pre @ bk_record (i, blob) @ r) (Suc k) (length pre) c st tok =
    (if st1 \<noteq> HSM_OK then (st1, None, tok1)
     else restore_records E bek (pre @ bk_record (i, blob) @ r) k (length (pre @ bk_record (i, blob)))
            (Suc c) HSM_OK tok1)"
proof -
  note fr = bk_record_front [OF assms(1), of pre i r]
  have len: "length (pre @ bk_record (i, blob) @ r) = length pre + BK_REC_HDR + length blob + length r"
    by (simp add: length_bk_record)
  show ?thesis
    using fr assms(2,4) slot_index(1) [OF assms(3,2)] length_bk_record [of i blob]
    by (simp only: restore_records.simps Let_def len hsm_token_slot_count_def) (simp add: add.assoc)
qed

lemma restore_step_out:
  assumes "length blob < 2 ^ 32" "length (slots tok) \<le> i" "i < 2 ^ 32"
  shows "restore_records E bek (pre @ bk_record (i, blob) @ r) (Suc k) (length pre) c st tok = (st, None, tok)"
proof -
  note fr = bk_record_front [OF assms(1), of pre i r]
  have len: "length (pre @ bk_record (i, blob) @ r) = length pre + BK_REC_HDR + length blob + length r"
    by (simp add: length_bk_record)
  show ?thesis
    using fr assms(2) unat_u32_less [OF assms(3)]
    by (simp only: restore_records.simps Let_def len hsm_token_slot_count_def) simp
qed

lemma restore_records_concat:
  assumes "\<forall>(i, blob)\<in>set recs. i < length (slots tok) \<and> length blob < 2 ^ 32"
    and "length (slots tok) \<le> 4096"
  shows "restore_records E bek (pre @ concat (map bk_record recs)) (length recs) (length pre) r st tok =
    (case install_list E bek recs tok of
       (st1, t1) \<Rightarrow> (st1, if st1 = HSM_OK then Some (r + length recs) else None, t1))"
  using assms
proof (induction recs arbitrary: pre r st tok)
  case (Cons rec recs)
  obtain i blob where p: "rec = (i, blob)" by fastforce
  have l: "length blob < 2 ^ 32" "i < length (slots tok)" using Cons.prems p by auto
  obtain st1 tok1 where d: "hsm_slot_deserialize E tok (of_nat i) (Some bek) PQC_KEK_LEN (Some blob)
      (length blob) = (st1, tok1)" by fastforce
  note step = restore_step [OF l Cons.prems(2) d, of pre "concat (map bk_record recs)"]
  note ih = Cons.IH [of tok1 "pre @ bk_record (i, blob)" "Suc r" HSM_OK]
  show ?case
    using step [of "length recs" r st] ih Cons.prems deserialize_length [OF d] d p
    by (simp split: prod.split)
qed simp

section \<open>What a restore puts into the slots\<close>

text \<open>Nothing of a blob depends on the root key of the device.\<close>

lemma serialize_other_device:
  "slot_serialize_locked (E\<lparr>kdr := k\<rparr>) s kek kl cap bl w = slot_serialize_locked E s kek kl cap bl w"
proof -
  have sel: "rand_bytes (E\<lparr>kdr := k\<rparr>) = rand_bytes E" "rng_module (E\<lparr>kdr := k\<rparr>) = rng_module E"
    "malloc_ok (E\<lparr>kdr := k\<rparr>) = malloc_ok E" "evp_gcm_encrypt (E\<lparr>kdr := k\<rparr>) = evp_gcm_encrypt E"
    by simp_all
  show ?thesis
    unfolding slot_serialize_locked_def pqc_wrap_def pqc_wrap_with_nonce_def gcm_seal_def
      pqc_random_bytes_def pqc_secure_alloc_def sel ..
qed

lemma shamir_other_device:
  "shamir_combine (E\<lparr>kdr := k\<rparr>) rows cap lens n out = shamir_combine E rows cap lens n out"
proof -
  have "share_checksum (E\<lparr>kdr := k\<rparr>) = share_checksum E"
    by (intro ext) (simp add: share_checksum_def pqc_sha3_256_def)
  then have "check_lines (E\<lparr>kdr := k\<rparr>) cap sl ls = check_lines E cap sl ls" for cap sl ls
    by (induction E cap sl ls rule: check_lines.induct) (simp_all add: Let_def split: option.split)
  then show ?thesis by (simp only: shamir_combine_def)
qed

lemma derive_other_device: "derive_from_rmk (E\<lparr>kdr := k\<rparr>) = derive_from_rmk E"
  by (intro ext) (simp add: derive_from_rmk_def pqc_kdf_def pqc_kmac256_def)

lemma kmac_other_device: "pqc_kmac256 (E\<lparr>kdr := k\<rparr>) = pqc_kmac256 E"
  by (intro ext) (simp add: pqc_kmac256_def)

definition alloc_total :: "env \<Rightarrow> bool" where
  "alloc_total E \<longleftrightarrow> (\<forall>t n. malloc_ok E t n)"

lemma alloc_total_Some: "alloc_total E \<Longrightarrow> n \<noteq> 0 \<Longrightarrow> fst (pqc_secure_alloc E n w) \<noteq> None"
  by (simp add: alloc_total_def pqc_secure_alloc_def)

lemma deserialize_memory:
  assumes "alloc_total E" "slot_deserialize_locked E s kek kl blob bl w = (stt, s', w')"
  shows "stt \<noteq> HSM_ERR_NOMEM"
proof -
  have a: "pqc_secure_alloc E n w = (None, w') \<Longrightarrow> n = 0" for n and w w' :: "'a world_scheme"
    using alloc_total_Some [OF assms(1), of n w] by (cases "n = 0") simp_all
  have "PAYLOAD_MAX \<noteq> 0" by (simp add: PAYLOAD_MAX_def)
  then show ?thesis
    using assms(2) slot_reseal_result
    by (fastforce simp: slot_deserialize_locked_def Let_def
        split: if_splits option.splits prod.splits dest!: a)
qed

text \<open>A slot as the device that restored it holds it.\<close>

definition restored_copy :: "env \<Rightarrow> slot \<Rightarrow> slot \<Rightarrow> bool" where
  "restored_copy E s s' \<longleftrightarrow> sealed E s' \<and> (\<exists>tag. s' = (forget_hw s)\<lparr>sl_meta_tag := tag\<rparr>)"

definition storable :: "u32 \<Rightarrow> slot \<Rightarrow> bool" where
  "storable sid s \<longleftrightarrow> slot_inv sid s \<and> sl_pre_lock s \<noteq> SLOT_ST_INVALID \<and>
     m_version (sl_meta s) = SLOT_META_VERSION"

definition names_ok :: "slot list \<Rightarrow> bool" where
  "names_ok sl \<longleftrightarrow> length sl \<le> 4096 \<and> (\<forall>i < length sl. m_slot_id (sl_meta (sl ! i)) = of_nat i)"

lemma install_one:
  assumes blob: "blob_of E bek s blob" and s: "storable (of_nat i) s"
    and E: "gcm_ok E" "seal_total (E\<lparr>kdr := k\<rparr>)" "alloc_total E" "length bek = PQC_KEK_LEN"
    and dev: "names_ok (slots dev)" "i < length (slots dev)"
  shows "\<exists>s' dev'. hsm_slot_deserialize (E\<lparr>kdr := k\<rparr>) dev (of_nat i) (Some bek) PQC_KEK_LEN (Some blob)
      (length blob) = (HSM_OK, dev') \<and> restored_copy (E\<lparr>kdr := k\<rparr>) s s' \<and>
      slots dev' = (slots dev)[i := s']"
proof -
  let ?E = "E\<lparr>kdr := k\<rparr>"
  have dl: "length (slots dev) \<le> 4096" and did: "m_slot_id (sl_meta (slots dev ! i)) = of_nat i"
    using dev by (simp_all add: names_ok_def)
  obtain st s' w2 where d: "slot_deserialize_locked ?E (slots dev ! i) (Some bek) (length bek)
      (Some blob) (length blob) dev = (st, s', w2)" by (metis prod_cases3)
  obtain t t' where t: "slot_serialize_locked ?E s (Some bek) (length bek) (Some hsm_slot_blob_max)
      True (t :: hsm_token) = (Inr blob, t')"
    using blob E(4) by (auto simp: blob_of_def serialize_other_device)
  have "alloc_total ?E" "gcm_ok ?E" using E(1,3) by (simp_all add: alloc_total_def gcm_ok_def)
  then have r: "slot_reseal ?E ((forget_hw s)\<lparr>sl_meta_tag := sl_meta_tag (slots dev ! i)\<rparr>) = (st, s')"
    using deserialize_serialized [OF t _ _ _ _ did d] s deserialize_memory [OF _ d]
    by (auto simp: storable_def)
  have ok: "st = HSM_OK" using slot_reseal_total [OF E(2)] r by (metis fst_conv)
  have "restored_copy ?E s s'"
    using slot_reseal_result [OF r] ok by (auto simp: restored_copy_def)
  moreover have "hsm_slot_deserialize ?E dev (of_nat i) (Some bek) PQC_KEK_LEN (Some blob)
      (length blob) = (HSM_OK, set_slot (of_nat i) s' w2)"
    using d ok E(4) slot_index [OF dl dev(2)] by (simp add: hsm_slot_deserialize_def)
  ultimately show ?thesis
    using slots_core [OF only_core_deserialize [OF d]] slot_index(1) [OF dl dev(2)]
    by (intro exI [of _ s'] exI [of _ "set_slot (of_nat i) s' w2"]) simp
qed

lemma install_all:
  assumes E: "gcm_ok E" "seal_total (E\<lparr>kdr := k\<rparr>)" "alloc_total E" "length bek = PQC_KEK_LEN"
    and "\<forall>(i, blob)\<in>set recs. i < length (slots dev) \<and> storable (of_nat i) (src i) \<and> blob_of E bek (src i) blob"
    and "names_ok (slots dev)" "distinct (map fst recs)"
  shows "\<exists>dev'. install_list (E\<lparr>kdr := k\<rparr>) bek recs dev = (HSM_OK, dev') \<and>
    length (slots dev') = length (slots dev) \<and>
    (\<forall>i < length (slots dev). if i \<in> fst ` set recs then restored_copy (E\<lparr>kdr := k\<rparr>) (src i) (slots dev' ! i)
       else slots dev' ! i = slots dev ! i)"
  using assms(5-7)
proof (induction recs arbitrary: dev)
  case (Cons rec recs)
  obtain i blob where p: "rec = (i, blob)" by fastforce
  have i: "i < length (slots dev)" "storable (of_nat i) (src i)" "blob_of E bek (src i) blob"
    using Cons.prems p by auto
  obtain s' dev1 where d: "hsm_slot_deserialize (E\<lparr>kdr := k\<rparr>) dev (of_nat i) (Some bek) PQC_KEK_LEN
      (Some blob) (length blob) = (HSM_OK, dev1)" "restored_copy (E\<lparr>kdr := k\<rparr>) (src i) s'"
      "slots dev1 = (slots dev)[i := s']"
    using install_one [OF i(3,2) E Cons.prems(2) i(1)] by blast
  have "m_slot_id (sl_meta s') = of_nat i"
    using d(2) i(2) by (auto simp: restored_copy_def forget_hw_def storable_def slot_inv_def)
  then have "names_ok (slots dev1)"
    using Cons.prems(2) i(1) by (simp add: names_ok_def d(3) nth_list_update)
  moreover have "\<forall>(j, b)\<in>set recs. j < length (slots dev1) \<and> storable (of_nat j) (src j) \<and>
      blob_of E bek (src j) b"
    using Cons.prems(1) by (auto simp: d(3))
  ultimately obtain dev' where "install_list (E\<lparr>kdr := k\<rparr>) bek recs dev1 = (HSM_OK, dev')"
    "length (slots dev') = length (slots dev1)"
    "\<forall>j < length (slots dev1). if j \<in> fst ` set recs then restored_copy (E\<lparr>kdr := k\<rparr>) (src j) (slots dev' ! j)
       else slots dev' ! j = slots dev1 ! j"
    using Cons.IH [of dev1] Cons.prems(3) by auto
  then show ?case
    using d p Cons.prems(3) by (intro exI [of _ dev']) (auto simp: nth_list_update)
qed simp

section \<open>What an export does\<close>

lemma bk_store_result:
  assumes "bk_store E path body tag w = (st, w')"
  shows "files w' path = (if st = HSM_OK then Some (body @ tag) else files w path) \<and>
    world.more w' = world.more w \<and> (\<forall>q. q \<noteq> path \<longrightarrow> q \<noteq> tmp_of path \<longrightarrow> files w' q = files w q)"
proof -
  let ?t = "tmp_of path" and ?w1 = "set_file (tmp_of path) (Some []) (next_tick (next_tick w))"
  obtain ok2 w2 where 2: "write_once E ?t body 0 ?w1 = (ok2, w2)" by fastforce
  obtain ok3 w3 where 3: "write_once E ?t tag (length body) w2 = (ok3, w3)" by fastforce
  note r = write_once_result [OF 2] write_once_result [OF 3]
  have f: "files w3 ?t = Some (body @ tag)" if "ok2" "ok3"
    using that r by (simp add: file_of_def write_at_def)
  show ?thesis
    using assms 2 3 r f tmp_not_path [of path]
    by (auto simp: bk_store_def Let_def sys_ok_def split: if_splits)
qed

lemma only_core_random: "pqc_random_bytes E out w = (ok, bs, w') \<Longrightarrow> only_core w w'"
  by (rule only_core_calls)

lemma split_coefs_core: "split_coefs E len d w = (r, w') \<Longrightarrow> only_core w w'"
proof (induction d arbitrary: w r w')
  case (Suc d)
  obtain ok row w1 where 1: "pqc_random_bytes E (Some (replicate len 0)) w = (ok, row, w1)"
    by (metis prod_cases3)
  obtain c w2 where 2: "split_coefs E len d w1 = (c, w2)" by fastforce
  show ?case
    using Suc.prems Suc.IH [OF 2] 1 2 only_core_random [OF 1] only_core_trans by (auto split: if_splits)
qed simp

lemma shamir_split_core: "shamir_split E s m n rows cap lens w = (ok, rows', lens', w') \<Longrightarrow> only_core w w'"
  by (auto simp: shamir_split_def Let_def split: option.splits if_splits prod.splits dest: split_coefs_core)

lemma backup_records_core: "backup_records E bek is tok = (r, tok') \<Longrightarrow> only_core tok tok'"
proof (induction "is" arbitrary: tok r tok')
  case (Cons i "is")
  obtain b tok1 where b: "hsm_slot_serialize E tok (of_nat i) (Some bek) PQC_KEK_LEN
      (Some hsm_slot_blob_max) True = (b, tok1)" by fastforce
  obtain c tok2 where c: "backup_records E bek is tok1 = (c, tok2)" by fastforce
  have "only_core tok tok2" using only_core_trans [OF serialize_core [OF b] Cons.IH [OF c]] .
  then show ?case
    using Cons.prems Cons.IH [of tok] serialize_core [OF b] b c
    by (auto split: sum.splits if_splits)
qed simp

lemma serialize_error: "hsm_slot_serialize E tok sid kek kl cap bl = (Inl e, tok') \<Longrightarrow> e \<noteq> HSM_OK"
  by (auto simp: hsm_slot_serialize_def slot_serialize_locked_def Let_def
      split: option.splits if_splits prod.splits)

lemma backup_records_error: "backup_records E bek is tok = (Inl e, tok') \<Longrightarrow> e \<noteq> HSM_OK"
  by (induction E bek "is" tok arbitrary: e tok' rule: backup_records.induct)
    (auto split: sum.splits if_splits prod.splits dest: serialize_error)

text \<open>An export that got as far as the file: what it drew, derived and collected.\<close>

definition prepared ::
    "env \<Rightarrow> hsm_token \<Rightarrow> bytes \<Rightarrow> bytes \<Rightarrow> bytes \<Rightarrow> (nat \<times> bytes) list \<Rightarrow> bytes \<Rightarrow> hsm_token \<Rightarrow> bool" where
  "prepared E tok rmk salt bek recs tag t4 \<longleftrightarrow>
     length rmk = HSM_RMK_LEN \<and> length salt = BK_SALT_LEN \<and> derive_bek E rmk salt = Some bek \<and>
     (\<exists>fkey. derive_fkey E rmk salt = Some fkey \<and>
        kmac E fkey (bk_body salt recs) ''pqc-hsm/backup'' BK_TAG_LEN = Some tag) \<and>
     (\<exists>t3. only_core tok t3 \<and> backup_records E bek [0..<length (slots tok)] t3 = (Inr recs, t4))"

lemma bk_export_cases:
  assumes "bk_export E path m n sh cap tok = (st, sh', cnt, tok')"
  obtains (early) "only_core tok tok'" "st \<noteq> HSM_OK" "sh' = sh"
  | (store) rmk salt bek recs tag t4 where "prepared E tok rmk salt bek recs tag t4"
      "bk_store E path (bk_body salt recs) tag t4 = (st, tok')" "st \<noteq> HSM_OK" "sh' = sh"
  | (split) rmk salt bek recs tag t4 t5 ok rows lens t6 where "prepared E tok rmk salt bek recs tag t4"
      "bk_store E path (bk_body salt recs) tag t4 = (HSM_OK, t5)"
      "shamir_split E (Some rmk) m n (fst sh) cap (snd sh) t5 = (ok, rows, lens, t6)" "sh' = (rows, lens)"
      "if ok then st = HSM_OK \<and> cnt = Some (length recs) \<and> tok' = t6
       else st = HSM_ERR_CRYPTO \<and> tok' = set_file (tmp_of path) None (set_file path None t6)"
proof -
  obtain a2 t1 where 1: "pqc_secure_alloc E hsm_slot_blob_max (next_tick tok) = (a2, t1)" by fastforce
  obtain ok1 rmk t2 where 2: "pqc_random_bytes E (Some (replicate HSM_RMK_LEN 0)) t1 = (ok1, rmk, t2)"
    by (metis prod_cases3)
  obtain ok2 salt t3 where 3: "pqc_random_bytes E (Some (replicate BK_SALT_LEN 0)) t2 = (ok2, salt, t3)"
    by (metis prod_cases3)
  have core: "only_core tok t1" "only_core tok t2" "only_core tok t3"
    using only_core_calls(8) [OF 1] only_core_random [OF 2] only_core_random [OF 3]
    by (blast intro: only_core_trans only_core_next_tick)+
  have len: "length rmk = HSM_RMK_LEN" "length salt = BK_SALT_LEN"
    using length_pqc_random_bytes [OF 2] length_pqc_random_bytes [OF 3] by simp_all
  note eq = assms [unfolded bk_export_def Let_def 1 2 3 prod.case]
  show ?thesis
  proof (cases "malloc_ok E (tick tok) (BK_HDR_LEN + length (slots tok) * (BK_REC_HDR + hsm_slot_blob_max)) \<and>
      a2 \<noteq> None \<and> ok1 \<and> ok2 \<and> derive_bek E rmk salt \<noteq> None \<and> derive_fkey E rmk salt \<noteq> None")
    case False
    then show ?thesis using eq core early by (auto split: if_splits option.splits)
  next
    case True
    then obtain bek fkey where k: "derive_bek E rmk salt = Some bek" "derive_fkey E rmk salt = Some fkey"
      by auto
    obtain r t4 where r: "backup_records E bek [0..<length (slots tok)] t3 = (r, t4)" by fastforce
    have c4: "only_core tok t4" using only_core_trans [OF core(3) backup_records_core [OF r]] .
    show ?thesis
    proof (cases r)
      case (Inl e)
      have "st = e \<and> sh' = sh \<and> tok' = t4" using eq True k r Inl by simp
      then show ?thesis using backup_records_error r Inl c4 early by blast
    next
      case (Inr recs)
      show ?thesis
      proof (cases "kmac E fkey (bk_body salt recs) ''pqc-hsm/backup'' BK_TAG_LEN")
        case None
        then show ?thesis using eq True k r Inr c4 early by simp
      next
        case (Some tag)
        have p: "prepared E tok rmk salt bek recs tag t4"
          using len k r Inr Some core(3) by (auto simp: prepared_def)
        obtain st5 t5 where 5: "bk_store E path (bk_body salt recs) tag t4 = (st5, t5)" by fastforce
        obtain ok rows lens t6 where 6: "shamir_split E (Some rmk) m n (fst sh) cap (snd sh) t5 =
            (ok, rows, lens, t6)" by (metis prod_cases4)
        show ?thesis
          using eq True k r Inr Some 5 6 store [OF p] split [OF p _ 6]
          by (cases "st5 = HSM_OK"; cases ok) simp_all
      qed
    qed
  qed
qed

lemma bk_export_frame:
  assumes "bk_export E path m n sh cap tok = (st, sh', cnt, tok')"
  shows "world.more tok' = world.more tok \<and> (\<forall>q. q \<noteq> path \<longrightarrow> q \<noteq> tmp_of path \<longrightarrow> files tok' q = files tok q) \<and>
    (st \<noteq> HSM_OK \<longrightarrow> files tok' path = files tok path \<or> files tok' path = None)"
  using assms
proof (cases rule: bk_export_cases)
  case early
  then show ?thesis by (simp add: only_core_more only_core_files)
next
  case (store rmk salt bek recs tag t4)
  then have "only_core tok t4"
    unfolding prepared_def using backup_records_core only_core_trans by blast
  then show ?thesis
    using bk_store_result [OF store(2)] store(3) by (simp add: only_core_more only_core_files)
next
  case (split rmk salt bek recs tag t4 t5 ok rows lens t6)
  then have "only_core tok t4"
    unfolding prepared_def using backup_records_core only_core_trans by blast
  then show ?thesis
    using bk_store_result [OF split(2)] shamir_split_core [OF split(3)] split(5)
    by (cases ok) (simp_all add: only_core_more only_core_files)
qed

lemma hsm_backup_export_cases:
  assumes "hsm_backup_export E (Some tok) sess (Some path) m n sh cap = (st, sh', cnt, Some tok')"
  obtains (refused) "tok' = tok" "sh' = sh" "st \<noteq> HSM_OK"
  | (run) sid tok1 where "session_info tok sess = Inr (sid, HSM_ROLE_SO)" "HSM_SHARE_LEN \<le> cap"
      "bk_export E path m n sh cap tok = (st, sh', cnt, tok1)"
      "tok' = slot_audit E AUDIT_OP_BACKUP_EXPORT HSM_ROLE_SO 0 st (Some path) tok1"
proof -
  have e: "st \<noteq> HSM_OK" if "session_info tok sess = Inl st" for st
    using that by (auto simp: session_info_def Let_def split: if_splits)
  obtain st1 sh1 cnt1 tok1 where b: "bk_export E path m n sh cap tok = (st1, sh1, cnt1, tok1)"
    by (metis prod_cases4)
  show ?thesis
    using assms b refused run e
    by (cases "session_info tok sess")
      (auto simp: hsm_backup_export_def hsm_session_role_def split: if_splits option.splits)
qed

section \<open>Only what the policy allows, only for the officer\<close>

text \<open>
  an export is confined. It changes no slot and no session; a call that succeeds, writes a
  file or touches the share buffers was made in a session logged in as security officer; and a
  successful one leaves at the path exactly a header, one record for each slot whose seal is
  intact and whose policy has the backup bit, and the MAC.
\<close>

theorem backup_export_confined:
  assumes "hsm_backup_export E (Some tok) sess (Some path) m n sh cap = (st, sh', cnt, Some tok')"
    and "length (slots tok) \<le> 4096" "\<forall>log. audit tok = Some log \<longrightarrow> al_fd log \<noteq> Some path"
  shows "dev_of tok' = dev_of tok \<and>
    (st = HSM_OK \<or> files tok' \<noteq> files tok \<or> sh' \<noteq> sh \<longrightarrow>
       (\<exists>sid. session_info tok sess = Inr (sid, HSM_ROLE_SO))) \<and>
    (st = HSM_OK \<longrightarrow> (\<exists>salt recs tag bek. files tok' path = Some (bk_body salt recs @ tag) \<and>
       cnt = Some (length recs) \<and>
       map fst recs = filter (\<lambda>i. backupable E (slots tok ! i)) [0..<length (slots tok)] \<and>
       (\<forall>(i, blob)\<in>set recs. blob_of E bek (slots tok ! i) blob)))"
  using assms(1)
proof (cases rule: hsm_backup_export_cases)
  case refused
  then show ?thesis by simp
next
  case (run sid tok1)
  have m: "world.more tok1 = world.more tok" using bk_export_frame [OF run(3)] by simp
  have a: "audit tok1 = audit tok" using m by (cases tok, cases tok1) simp
  have f: "files tok' path = files tok1 path"
    unfolding run(4) using a assms(3) by (intro slot_audit_files) simp
  have "\<exists>salt recs tag bek. files tok1 path = Some (bk_body salt recs @ tag) \<and> cnt = Some (length recs) \<and>
       map fst recs = filter (\<lambda>i. backupable E (slots tok ! i)) [0..<length (slots tok)] \<and>
       (\<forall>(i, blob)\<in>set recs. blob_of E bek (slots tok ! i) blob)" if "st = HSM_OK"
    using run(3)
  proof (cases rule: bk_export_cases)
    case (split rmk salt bek recs tag t4 t5 ok rows lens t6)
    then obtain t3 where t3: "only_core tok t3"
      "backup_records E bek [0..<length (slots tok)] t3 = (Inr recs, t4)"
      by (auto simp: prepared_def)
    have "map fst recs = filter (\<lambda>i. backupable E (slots tok ! i)) [0..<length (slots tok)] \<and>
        (\<forall>(i, blob)\<in>set recs. blob_of E bek (slots tok ! i) blob)"
      using backup_records_result [OF t3(2)] slots_core [OF t3(1)] assms(2) by simp
    moreover have "tok1 = t6" "cnt = Some (length recs)" using split(5) that by (auto split: if_splits)
    moreover have "files t6 path = Some (bk_body salt recs @ tag)"
      using bk_store_result [OF split(2)] only_core_files [OF shamir_split_core [OF split(3)]] by simp
    ultimately show ?thesis by blast
  qed (use that in auto)
  then show ?thesis
    using run m f sec_more [OF m] by (auto simp: sec_def)
qed

section \<open>Restoring what was exported\<close>

lemma bk_body_parts:
  assumes "length salt = BK_SALT_LEN" "length recs \<le> 4096" "length tag = BK_TAG_LEN"
  defines "buf \<equiv> bk_body salt recs @ tag"
  shows "take 8 buf = BK_MAGIC" "get_u32 (drop 8 buf) = HSM_BACKUP_VERSION"
    "unat (get_u32 (drop 12 buf)) = length recs" "slice 16 BK_SALT_LEN buf = salt"
    "take (length buf - BK_TAG_LEN) buf = bk_body salt recs"
    "drop (length buf - BK_TAG_LEN) buf = tag" "BK_HDR_LEN + BK_TAG_LEN \<le> length buf"
    "\<exists>pre. bk_body salt recs = pre @ concat (map bk_record recs) \<and> length pre = BK_HDR_LEN"
proof -
  have m: "length BK_MAGIC = 8" by (simp add: BK_MAGIC_def cstr_def)
  have d: "drop 12 buf = put_u32 (of_nat (length recs)) @ salt @ concat (map bk_record recs) @ tag"
    "drop 8 buf = put_u32 HSM_BACKUP_VERSION @ drop 12 buf"
    "drop 16 buf = salt @ concat (map bk_record recs) @ tag"
    by (simp_all add: buf_def bk_body_def m)
  show "take 8 buf = BK_MAGIC" by (simp add: buf_def bk_body_def m)
  show "get_u32 (drop 8 buf) = HSM_BACKUP_VERSION" unfolding d(2) by (rule get_put_u32)
  show "unat (get_u32 (drop 12 buf)) = length recs"
    unfolding d(1) get_put_u32 using assms(2) by (intro unat_u32_less) simp
  show "slice 16 BK_SALT_LEN buf = salt" using assms(1) by (simp add: slice_def d(3))
  show "take (length buf - BK_TAG_LEN) buf = bk_body salt recs"
    "drop (length buf - BK_TAG_LEN) buf = tag" using assms(3) by (simp_all add: buf_def)
  show "BK_HDR_LEN + BK_TAG_LEN \<le> length buf"
    using assms(1,3) by (simp add: buf_def bk_body_def m BK_HDR_LEN_def)
  show "\<exists>pre. bk_body salt recs = pre @ concat (map bk_record recs) \<and> length pre = BK_HDR_LEN"
    using assms(1) by (intro exI [of _ "BK_MAGIC @ put_u32 HSM_BACKUP_VERSION @
      put_u32 (of_nat (length recs)) @ salt"]) (simp add: bk_body_def m BK_HDR_LEN_def)
qed

lemma restore_written:
  assumes "prepared E tok rmk salt bek recs tag t4" "length recs \<le> 4096"
    and "\<forall>(i, blob)\<in>set recs. i < length (slots dev) \<and> length blob < 2 ^ 32"
    and "length (slots dev) \<le> 4096"
  shows "restore_checked (E\<lparr>kdr := k\<rparr>) rmk (bk_body salt recs @ tag) dev =
    (case install_list (E\<lparr>kdr := k\<rparr>) bek recs dev of
       (st, t) \<Rightarrow> (st, if st = HSM_OK then Some (length recs) else None, t))"
proof -
  obtain fkey where p: "length salt = BK_SALT_LEN" "derive_bek E rmk salt = Some bek"
    "derive_fkey E rmk salt = Some fkey"
    "kmac E fkey (bk_body salt recs) ''pqc-hsm/backup'' BK_TAG_LEN = Some tag"
    using assms(1) by (auto simp: prepared_def)
  have tag: "length tag = BK_TAG_LEN" using pqc_kmac256_length [OF p(4)] .
  note b = bk_body_parts [OF p(1) assms(2) tag]
  obtain pre where pre: "bk_body salt recs = pre @ concat (map bk_record recs)" "length pre = BK_HDR_LEN"
    using b(8) by blast
  note loop = restore_records_concat [OF assms(3,4), of "E\<lparr>kdr := k\<rparr>" bek pre 0 HSM_ERR_INTEGRITY]
  have "restore_checked (E\<lparr>kdr := k\<rparr>) rmk (bk_body salt recs @ tag) dev =
      restore_records (E\<lparr>kdr := k\<rparr>) bek (bk_body salt recs) (length recs) BK_HDR_LEN 0
        HSM_ERR_INTEGRITY dev"
    unfolding restore_checked_def Let_def b(1-6) derive_other_device kmac_other_device p
    using tag by (simp add: pqc_ct_equal_iff p(4))
  then show ?thesis using loop unfolding pre add_0 by simp
qed

lemma shamir_split_pointers:
  assumes "shamir_split E (Some s) m n sh cap ls w = (True, sh', ls', w')"
  obtains rows lens rows' lens' where "sh = Some rows" "ls = Some lens" "sh' = Some rows'" "ls' = Some lens'"
  using assms by (auto simp: shamir_split_def Let_def split: option.splits if_splits prod.splits)

lemma quorum_not_empty:
  assumes "shamir_combine E rows cap lens k out = Some s"
  shows "k \<noteq> 0"
  using assms by (auto simp: shamir_combine_def split: option.splits)

lemma quorum_restores:
  assumes exp: "hsm_backup_export E (Some tok) sess (Some path) m n (Some rows, Some lens) cap =
      (HSM_OK, (Some rows', Some lens'), cnt, Some tok')"
    and rows: "unat n \<le> length rows" "\<forall>row\<in>set rows. length row = cap"
    and src: "length (slots tok) \<le> 4096" "\<forall>i < length (slots tok). storable (of_nat i) (slots tok ! i)"
    and log: "\<forall>log. audit tok = Some log \<longrightarrow> al_fd log \<noteq> Some path"
    and idx: "distinct idx" "\<forall>i\<in>set idx. i < unat n" "unat m \<le> length idx"
    and dev: "names_ok (slots dev)" "length (slots tok) \<le> length (slots dev)" "files dev path2 = files tok' path"
    and env: "gcm_ok E" "seal_total (E\<lparr>kdr := k\<rparr>)" "alloc_total E" "io_perfect E"
    and res: "hsm_backup_restore (E\<lparr>kdr := k\<rparr>) (Some dev) (Some path2)
      (Some (map ((!) rows') idx), Some (map ((!) lens') idx)) cap (of_nat (length idx)) =
      (st, cnt', Some dev')"
  shows "st = HSM_OK \<and> cnt' = cnt \<and> (\<forall>i < length (slots dev).
    if i < length (slots tok) \<and> backupable E (slots tok ! i)
    then restored_copy (E\<lparr>kdr := k\<rparr>) (slots tok ! i) (slots dev' ! i)
    else slots dev' ! i = slots dev ! i)"
proof -
  let ?E = "E\<lparr>kdr := k\<rparr>" and ?n = "length (slots tok)"
  obtain tok1 where b: "bk_export E path m n (Some rows, Some lens) cap tok =
      (HSM_OK, (Some rows', Some lens'), cnt, tok1)"
    and t: "tok' = slot_audit E AUDIT_OP_BACKUP_EXPORT HSM_ROLE_SO 0 HSM_OK (Some path) tok1"
    using exp by (cases rule: hsm_backup_export_cases) auto
  obtain rmk salt bek recs tag t4 t5 where p: "prepared E tok rmk salt bek recs tag t4"
    and s: "bk_store E path (bk_body salt recs) tag t4 = (HSM_OK, t5)"
    and sp: "shamir_split E (Some rmk) m n (Some rows) cap (Some lens) t5 =
      (True, Some rows', Some lens', tok1)" and cnt: "cnt = Some (length recs)"
    using b by (cases rule: bk_export_cases) (auto split: if_splits)
  obtain t3 where t3: "only_core tok t3" "backup_records E bek [0..<?n] t3 = (Inr recs, t4)"
    and len: "length rmk = HSM_RMK_LEN" "derive_bek E rmk salt = Some bek" "length salt = BK_SALT_LEN"
    and fk: "\<exists>fkey. kmac E fkey (bk_body salt recs) ''pqc-hsm/backup'' BK_TAG_LEN = Some tag"
    using p by (auto simp: prepared_def)
  have recs: "map fst recs = filter (\<lambda>i. backupable E (slots tok ! i)) [0..<?n]"
    "\<forall>(i, blob)\<in>set recs. blob_of E bek (slots tok ! i) blob"
    using backup_records_result [OF t3(2)] slots_core [OF t3(1)] src(1) by simp_all
  have fst: "fst ` set recs = {i. i < ?n \<and> backupable E (slots tok ! i)}"
    using arg_cong [OF recs(1), of set] by auto
  then have good: "\<forall>(i, blob)\<in>set recs. i < ?n \<and> storable (of_nat i) (slots tok ! i) \<and>
      blob_of E bek (slots tok ! i) blob"
    using recs(2) src(2) by (metis (no_types, lifting) case_prodD case_prodI2 fst_conv image_eqI mem_Collect_eq)
  have bl: "\<forall>(i, blob)\<in>set recs. i < length (slots dev) \<and> length blob < 2 ^ 32"
    using good dev(2) blob_of_length by (fastforce simp: storable_def)
  have "length recs = length (map fst recs)" by simp
  also have "\<dots> \<le> ?n" unfolding recs(1) by (metis length_filter_le length_upt minus_nat.diff_0)
  finally have "length recs \<le> 4096" using src(1) by simp
  note rw = restore_written [OF p this]
  have a: "audit tok1 = audit tok" using bk_export_frame [OF b] by (cases tok, cases tok1) simp
  then have disk: "files dev path2 = Some (bk_body salt recs @ tag)"
    using bk_store_result [OF s] only_core_files [OF shamir_split_core [OF sp]] dev(3) log
    unfolding t by (subst (asm) slot_audit_files) simp_all
  have io: "io_perfect ?E" "alloc_total ?E" using env by (simp_all add: io_perfect_def alloc_total_def)
  have comb: "shamir_combine ?E (Some (map ((!) rows') idx)) cap (Some (map ((!) lens') idx))
      (of_nat (length idx)) (Some HSM_RMK_LEN) = Some rmk"
    unfolding shamir_other_device using len(1) by (intro shamir_any_quorum [OF sp rows idx]) simp
  have tag: "length tag = BK_TAG_LEN" using fk pqc_kmac256_length by blast
  define w where "w = next_tick (next_tick (next_tick (next_tick dev)))"
  have w: "slots w = slots dev" by (simp add: w_def next_tick_def)
  obtain st1 cnt1 dev1 where rc: "restore_checked ?E rmk (bk_body salt recs @ tag) w = (st1, cnt1, dev1)"
    by (metis prod_cases3)
  have "bk_restore ?E path2 (map ((!) rows') idx) cap (map ((!) lens') idx) (of_nat (length idx)) dev =
      (st1, cnt1, dev1)"
    using rc bk_body_parts(7) [OF len(3) \<open>length recs \<le> 4096\<close> tag]
    by (simp add: bk_restore_def comb len(1) fopen_read_def sys_ok_perfect [OF io(1)] disk
        w_def env(3) [unfolded alloc_total_def])
  then have r: "st = st1" "cnt' = cnt1" "slots dev' = slots dev1"
    using res quorum_not_empty [OF comb] by (auto simp: hsm_backup_restore_def)
  obtain dev2 where i: "install_list ?E bek recs w = (HSM_OK, dev2)"
    "\<forall>i < length (slots dev). if i \<in> fst ` set recs then restored_copy ?E (slots tok ! i) (slots dev2 ! i)
       else slots dev2 ! i = slots dev ! i"
    using install_all [OF env(1-3), of bek recs w "\<lambda>i. slots tok ! i"] good dev(1,2) recs(1) w
      pqc_kdf_length len(2) by (force simp: derive_from_rmk_def)
  show ?thesis
    using r rc rw [of w k] bl i dev(1) cnt unfolding w fst by (auto simp: names_ok_def)
qed

text \<open>
  C7: a backup gives the keys back, also on another device. When an export has succeeded, any \<open>k\<close> of
  the \<open>n\<close> shares with \<open>m \<le> k\<close> restore its file on a device with any other root key and at least as
  many slots: every slot that was exported is there again as it was stored, metadata, PINs, keys and
  seed, sealed for the new device, and no other slot changes. The restoring side is taken with system
  calls, allocations and seals that work, GCM decryption undoes encryption, and the audit log is another
  file than the backup.
\<close>

theorem backup_restores:
  assumes exp: "hsm_backup_export E (Some tok) sess (Some path) m n (Some rows, Some lens) cap =
      (HSM_OK, (Some rows', Some lens'), cnt, Some tok')"
    and rows: "unat n \<le> length rows" "\<forall>row\<in>set rows. length row = cap"
    and src: "length (slots tok) \<le> 4096" "\<forall>i < length (slots tok). storable (of_nat i) (slots tok ! i)"
    and log: "\<forall>log. audit tok = Some log \<longrightarrow> al_fd log \<noteq> Some path"
    and idx: "distinct idx" "\<forall>i\<in>set idx. i < unat n" "unat m \<le> length idx"
    and dev: "names_ok (slots dev)" "length (slots tok) \<le> length (slots dev)" "files dev path2 = files tok' path"
    and env: "gcm_ok E" "seal_total (E\<lparr>kdr := k\<rparr>)" "alloc_total E" "io_perfect E"
    and res: "hsm_backup_restore (E\<lparr>kdr := k\<rparr>) (Some dev) (Some path2)
      (Some (map ((!) rows') idx), Some (map ((!) lens') idx)) cap (of_nat (length idx)) =
      (st, cnt', Some dev')"
  shows "st = HSM_OK \<and> cnt' = cnt \<and> (\<forall>i < length (slots dev).
    if i < length (slots tok) \<and> backupable E (slots tok ! i)
    then restored_copy (E\<lparr>kdr := k\<rparr>) (slots tok ! i) (slots dev' ! i)
    else slots dev' ! i = slots dev ! i)"
  using assms by (rule quorum_restores)

section \<open>What a restore accepts\<close>

text \<open>A file whose MAC, under the key derived from the recovery key and its own salt, covers
  everything before it.\<close>

definition bk_authentic :: "env \<Rightarrow> bytes \<Rightarrow> bytes \<Rightarrow> bool" where
  "bk_authentic E rmk buf \<longleftrightarrow>
     BK_HDR_LEN + BK_TAG_LEN \<le> length buf \<and> take 8 buf = BK_MAGIC \<and>
     get_u32 (drop 8 buf) = HSM_BACKUP_VERSION \<and>
     (\<exists>fkey. derive_fkey E rmk (slice 16 BK_SALT_LEN buf) = Some fkey \<and>
        kmac E fkey (take (length buf - BK_TAG_LEN) buf) ''pqc-hsm/backup'' BK_TAG_LEN =
          Some (drop (length buf - BK_TAG_LEN) buf))"

lemma restore_checked_authentic:
  assumes "restore_checked E rmk buf tok = (st, cnt, tok')" "BK_HDR_LEN + BK_TAG_LEN \<le> length buf"
    and "st = HSM_OK \<or> slots tok' \<noteq> slots tok"
  shows "bk_authentic E rmk buf"
proof -
  have l: "length (drop (length buf - BK_TAG_LEN) buf) = BK_TAG_LEN" using assms(2) by simp
  have eq: "want = drop (length buf - BK_TAG_LEN) buf"
    if "pqc_kmac256 E a b c d e BK_TAG_LEN = Some want"
      "pqc_ct_equal (Some want) (Some (drop (length buf - BK_TAG_LEN) buf)) BK_TAG_LEN"
    for want a b c d e
    using that l pqc_kmac256_length [OF that(1)] by (simp add: pqc_ct_equal_iff)
  show ?thesis
    using assms
    by (auto simp: restore_checked_def Let_def bk_authentic_def
        split: if_splits option.splits dest: eq)
qed

text \<open>
  C8: a restore is fail-closed. Whatever calls fail, a restore that reports success, or that changes
  any slot at all, has recombined the shares to a recovery key under which the MAC of the whole
  file is right.
\<close>

theorem restore_only_authentic:
  assumes "hsm_backup_restore E (Some dev) (Some path) (Some rows, Some lens) cap k = (st, cnt, Some dev')"
    and "st = HSM_OK \<or> slots dev' \<noteq> slots dev"
  shows "\<exists>rmk buf. shamir_combine E (Some rows) cap (Some lens) k (Some HSM_RMK_LEN) = Some rmk \<and>
    files dev path = Some buf \<and> bk_authentic E rmk buf"
proof -
  obtain st1 cnt1 dev1 where b: "bk_restore E path rows cap lens k dev = (st1, cnt1, dev1)"
    by (metis prod_cases3)
  have nt: "slots (next_tick t) = slots t" for t :: hsm_token by (simp add: next_tick_def)
  have "k \<noteq> 0" using assms by (auto simp: hsm_backup_restore_def)
  then have ch: "st1 = HSM_OK \<or> slots dev1 \<noteq> slots dev"
    using assms b by (auto simp: hsm_backup_restore_def)
  then obtain rmk buf t where r: "shamir_combine E (Some rows) cap (Some lens) k (Some HSM_RMK_LEN) = Some rmk"
    "files dev path = Some buf" "BK_HDR_LEN + BK_TAG_LEN \<le> length buf"
    "restore_checked E rmk buf t = (st1, cnt1, dev1)" "slots t = slots dev"
    using b by (auto simp: bk_restore_def fopen_read_def sys_ok_def nt not_less
        split: option.splits if_splits prod.splits)
  then show ?thesis using restore_checked_authentic [OF r(4,3)] ch by auto
qed

section \<open>What goes wrong\<close>

text \<open>
  a restore on a token with fewer slots reports success for a part. When the first record loads
  and the next one names a slot the token does not have, the status left from the first, HSM\_OK, is
  returned, the count is not written and the slots of the other records are missing.
\<close>

theorem smaller_token_restore_ok:
  assumes "length (slots dev) \<le> 4096" "i < length (slots dev)"
    and "length (slots dev) \<le> j" "j < 2 ^ 32" "length b1 < 2 ^ 32" "length b2 < 2 ^ 32"
    and "hsm_slot_deserialize E dev (of_nat i) (Some bek) PQC_KEK_LEN (Some b1) (length b1) = (HSM_OK, dev1)"
    and "length pre = BK_HDR_LEN"
  shows "restore_records E bek (pre @ concat (map bk_record ((i, b1) # (j, b2) # recs)))
      (length ((i, b1) # (j, b2) # recs)) BK_HDR_LEN 0 HSM_ERR_INTEGRITY dev = (HSM_OK, None, dev1)"
proof -
  let ?tail = "concat (map bk_record recs)"
  have "length (slots dev1) \<le> j" using assms(3) deserialize_length [OF assms(7)] by simp
  note out = restore_step_out [OF assms(6) this assms(4), of E bek "pre @ bk_record (i, b1)" ?tail
      "length recs" 1 HSM_OK]
  show ?thesis
    using restore_step [OF assms(5,2,1,7), of pre "bk_record (j, b2) @ ?tail" "Suc (length recs)" 0
        HSM_ERR_INTEGRITY] out assms(8) by simp
qed

text \<open>
  an export that fails after the shares were touched, because the random source fails in the
  split, has deleted the file at the path: the backup that was there before is lost too.
\<close>

theorem failed_split_loses_backup:
  assumes "hsm_backup_export E (Some tok) sess (Some path) m n sh cap = (st, sh', cnt, Some tok')"
    and "st \<noteq> HSM_OK" "sh' \<noteq> sh" "\<forall>log. audit tok = Some log \<longrightarrow> al_fd log \<noteq> Some path"
  shows "files tok' path = None"
  using assms(1)
proof (cases rule: hsm_backup_export_cases)
  case (run sid tok1)
  have "audit tok1 = audit tok" using bk_export_frame [OF run(3)] by (cases tok, cases tok1) simp
  then have "files tok' path = files tok1 path"
    unfolding run(4) using assms(4) by (intro slot_audit_files) simp
  moreover have "files tok1 path = None"
    using run(3)
  proof (cases rule: bk_export_cases)
    case (split rmk salt bek recs tag t4 t5 ok rows lens t6)
    then show ?thesis using assms(2) tmp_not_path [of path] by (auto split: if_splits)
  qed (use assms(3) in auto)
  ultimately show ?thesis by simp
qed (use assms(3) in simp)

end
