(* ===== verification/Example_Backup.thy ===== *)
theory Example_Backup
  imports Example_Store Backup_Props
begin

text \<open>
  Witnesses for secret sharing and backup: on the example device, a slot whose policy allows a backup
  is exported as three shares of which two suffice, and restored on a device with another root key.
\<close>

section \<open>Secret sharing\<close>

lemma ex_checksum [simp]:
  "SHAMIR_HDR_LEN + len \<le> length line \<Longrightarrow>
     share_checksum ex_env line len = Some (take 4 (buf_write 32 (rev (take (SHAMIR_HDR_LEN + len) line))))"
  by (simp add: share_checksum_def pqc_sha3_256_def SHAMIR_CHECKSUM_LEN_def)

lemma ex_draw [simp]:
  "0 < n \<Longrightarrow> n \<le> INT_MAX \<Longrightarrow>
     pqc_random_bytes ex_env (Some (replicate n 0)) w = (True, replicate n 7, next_tick w)"
  by (simp add: pqc_random_bytes_def Let_def hwrng_is_hardware_def ex_rng_def)

lemma ex_split_coefs:
  "0 < len \<Longrightarrow> len \<le> INT_MAX \<Longrightarrow> \<exists>w'. split_coefs ex_env len d w = (Some (replicate d (replicate len 7)), w')"
proof (induction d arbitrary: w)
  case (Suc d)
  then obtain w' where "split_coefs ex_env len d (next_tick w) = (Some (replicate d (replicate len 7)), w')"
    by blast
  then show ?case using Suc.prems by simp
qed simp

lemma ex_split_lines: "\<exists>lines. split_lines ex_env coef len x n = Some lines"
proof (induction n arbitrary: x)
  case (Suc n)
  obtain lines where "split_lines ex_env coef len (x + 1) n = Some lines" using Suc by blast
  then show ?case by (simp add: Let_def)
qed simp

definition ex_rows :: "bytes list" where "ex_rows = replicate 3 (replicate 64 0)"

definition ex_lens :: "nat list" where "ex_lens = [0, 0, 0]"

lemma ex_split:
  assumes "0 < length s" "length s \<le> 58"
  shows "\<exists>rows lens w'. shamir_split ex_env (Some s) 2 3 (Some ex_rows) 64 (Some ex_lens) w =
    (True, Some rows, Some lens, w')"
proof -
  obtain w' where c: "split_coefs ex_env (length s) (Suc 0) w = (Some (replicate (Suc 0) (replicate (length s) 7)), w')"
    using ex_split_coefs [of "length s" "Suc 0" w] assms by (auto simp: INT_MAX_def)
  obtain lines where "split_lines ex_env (s # [replicate (length s) 7]) (length s) 1 3 = Some lines"
    using ex_split_lines by blast
  then show ?thesis using assms c by (simp add: shamir_split_def shamir_consts Let_def)
qed

lemma ex_rows_ok: "unat (3 :: byte) \<le> length ex_rows" "\<forall>row\<in>set ex_rows. length row = 64"
  by (simp_all add: ex_rows_def)

lemma shamir_quorum_witness:
  "\<exists>rows lens w'. shamir_split ex_env (Some [1, 2, 3]) 2 3 (Some ex_rows) 64 (Some ex_lens) ex_world =
      (True, Some rows, Some lens, w') \<and>
    shamir_combine ex_env (Some [rows ! 2, rows ! 0]) 64 (Some [lens ! 2, lens ! 0]) 2 (Some 32) = Some [1, 2, 3]"
proof -
  obtain rows lens w' where s: "shamir_split ex_env (Some [1, 2, 3]) 2 3 (Some ex_rows) 64 (Some ex_lens) ex_world =
      (True, Some rows, Some lens, w')"
    using ex_split [of "[1, 2, 3]" ex_world] by auto
  show ?thesis using s shamir_quorum [OF s ex_rows_ok, of "[2, 0]" 32] by simp
qed

lemma shamir_secrecy_witness:
  "\<exists>!coef'. length coef' = length [[7 :: byte]] \<and> (\<forall>row\<in>set coef'. length row = length [5 :: byte]) \<and>
    (\<forall>i\<in>{1 :: nat}. share_body ([6] # coef') (length [5 :: byte]) (1 + of_nat i) =
       share_body ([5] # [[7]]) (length [5 :: byte]) (1 + of_nat i))"
  using shamir_secrecy [of "{1}" "3 :: byte" "[[7]]" "[5]" "[6]"] by (simp add: SHAMIR_MAX_SHARES_def)

lemma shamir_combine_exact_witness:
  "shamir_combine ex_env (Some [replicate 64 0]) 64 (Some [7]) 1 (Some 32) = None"
proof -
  have "\<not> good_line ex_env 64 len (replicate 64 0, 7)" for len
    by (simp add: good_line_def)
  then show ?thesis
    using shamir_combine_exact [of "[replicate 64 0]" 1 "[7]" 64 ex_env 32] by simp
qed

section \<open>Backup\<close>

definition ex_bk_slot :: slot where
  "ex_bk_slot = ex_key_slot\<lparr>sl_meta := ex_meta\<lparr>m_policy := SLOT_POLICY_BACKUPABLE\<rparr>\<rparr>"

definition ex_bk_tok :: hsm_token where
  "ex_bk_tok = ex_tok\<lparr>slots := [ex_seal ex_bk_slot, ex_seal (blank_slot 1)]\<rparr>"

definition ex_other_kdr :: kdr_state where
  "ex_other_kdr = ex_kdr\<lparr>g_root := replicate 32 9, g_root_ready := True\<rparr>"

lemma ex_bk_simps [simp]:
  "slots ex_bk_tok = [ex_seal ex_bk_slot, ex_seal (blank_slot 1)]" "audit ex_bk_tok = None"
  "session_info ex_bk_tok ex_so = Inr (0, HSM_ROLE_SO)" "files ex_bk_tok = Map.empty"
proof -
  have "sessions ex_bk_tok = sessions ex_tok" by (simp add: ex_bk_tok_def)
  then show "session_info ex_bk_tok ex_so = Inr (0, HSM_ROLE_SO)"
    using ex_sessions(2) by (simp only: session_info_def)
qed (simp_all add: ex_bk_tok_def)

lemma ex_bk_inv: "storable 0 (ex_seal ex_bk_slot)" "storable 1 (ex_seal (blank_slot 1))"
proof -
  have "wf_meta (ex_meta\<lparr>m_policy := SLOT_POLICY_BACKUPABLE\<rparr>)" using ex_meta_wf by (simp add: wf_meta_def)
  then have "slot_inv 0 (ex_bk_slot\<lparr>sl_meta_tag := replicate 32 0\<rparr>)"
    by (simp add: slot_inv_def ex_bk_slot_def ex_key_slot_def wf_arrays_def blank_slot_def key_fits_def
        key_ok_def SLOT_META_TAG_LEN_def ex_meta_def blank_meta_def validate_usage_def usage_bits
        HSM_PIN_MAX_FAILS_def policy_bits)
  then show "storable 0 (ex_seal ex_bk_slot)"
    by (simp add: storable_def ex_bk_slot_def ex_meta_def blank_meta_def)
  show "storable 1 (ex_seal (blank_slot 1))"
    using ex_blank_inv by (simp add: storable_def) (simp add: blank_slot_def blank_meta_def)
qed

lemma ex_bk_storable: "\<forall>i < length (slots ex_bk_tok). storable (of_nat i) (slots ex_bk_tok ! i)"
  using ex_bk_inv by (simp add: All_less_Suc numeral_2_eq_2)

lemma ex_backupable: "backupable ex_env (ex_seal ex_bk_slot)" "\<not> backupable ex_env (ex_seal (blank_slot 1))"
  by (simp_all add: backupable_def ex_bk_slot_def policy_bits blank_slot_def blank_meta_def)

lemma ex_records:
  assumes "slots t = slots ex_bk_tok" "length bek = 32"
  shows "\<exists>blob t'. backup_records ex_env bek [0..<2] t = (Inr [(0, blob)], t')"
proof -
  have inv: "slot_inv 0 (ex_seal ex_bk_slot)" using ex_bk_inv(1) by (simp add: storable_def)
  obtain blob t' where b: "slot_serialize_locked ex_env (ex_seal ex_bk_slot) (Some bek) 32
      (Some hsm_slot_blob_max) True t = (Inr blob, t')"
    using ex_serialize [OF inv assms(2), of t] assms(2) by auto
  then have s: "hsm_slot_serialize ex_env t 0 (Some bek) PQC_KEK_LEN (Some hsm_slot_blob_max) True = (Inr blob, t')"
    using assms(1) by (simp add: hsm_slot_serialize_def slot_at_def PQC_KEK_LEN_def)
  have "slots t' = slots ex_bk_tok" using slots_core [OF serialize_core [OF s]] assms(1) by simp
  then have "backup_records ex_env bek [Suc 0] t' = (Inr [], t')"
    using ex_backupable(2) by (simp add: hsm_slot_get_meta_def slot_at_def backupable_def)
  moreover have "m_policy (sl_meta ex_bk_slot) AND SLOT_POLICY_BACKUPABLE \<noteq> 0"
    using ex_backupable(1) by (simp add: backupable_def)
  ultimately show ?thesis
    using s assms(1) by (simp add: numeral_2_eq_2 upt_rec hsm_slot_get_meta_def slot_at_def)
qed

lemma ex_store: "\<exists>w'. bk_store ex_env path body tag w = (HSM_OK, w')"
  by (simp add: bk_store_def Let_def sys_ok_def write_once_def)

lemma ex_from_rmk: "length rmk = 32 \<Longrightarrow> l \<noteq> [] \<Longrightarrow> 0 < n \<Longrightarrow>
    derive_from_rmk ex_env rmk salt l n = Some (buf_write n (rev (take 16 salt)))"
  by (simp add: derive_from_rmk_def pqc_kdf_def pqc_kmac256_def bk_consts)

lemma ex_export:
  "\<exists>rows lens tok'. hsm_backup_export ex_env (Some ex_bk_tok) ex_so (Some [97]) 2 3 (Some ex_rows, Some ex_lens) 64 =
     (HSM_OK, (Some rows, Some lens), Some 1, Some tok')"
proof -
  define t1 where "t1 = next_tick (next_tick ex_bk_tok)"
  define rmk salt :: bytes where "rmk = replicate HSM_RMK_LEN 7" and "salt = replicate BK_SALT_LEN 7"
  define bek fkey where "bek = buf_write 32 (rev (take 16 salt))" and "fkey = buf_write 32 (rev (take 16 salt))"
  have l: "length rmk = 32" by (simp add: rmk_def bk_consts)
  have r: "pqc_random_bytes ex_env (Some (replicate HSM_RMK_LEN 0)) t1 = (True, rmk, next_tick t1)"
    "pqc_random_bytes ex_env (Some (replicate BK_SALT_LEN 0)) (next_tick t1) = (True, salt, next_tick (next_tick t1))"
    by (simp_all add: rmk_def salt_def bk_consts INT_MAX_def)
  have "slots (next_tick (next_tick t1)) = slots ex_bk_tok" by (simp add: t1_def next_tick_def)
  moreover have "length bek = 32" by (simp add: bek_def)
  ultimately obtain blob t4 where b: "backup_records ex_env bek [0..<2] (next_tick (next_tick t1)) =
      (Inr [(0, blob)], t4)" using ex_records by blast
  have fk: "fkey \<noteq> []" by (simp add: fkey_def buf_write_def)
  obtain tag where k: "kmac ex_env fkey (bk_body salt [(0, blob)]) ''pqc-hsm/backup'' BK_TAG_LEN = Some tag"
    using ex_kmac [OF fk] by (simp add: bk_consts)
  obtain t5 where s: "bk_store ex_env [97] (bk_body salt [(0, blob)]) tag t4 = (HSM_OK, t5)"
    using ex_store by blast
  obtain rows lens t6 where sp: "shamir_split ex_env (Some rmk) 2 3 (Some ex_rows) 64 (Some ex_lens) t5 =
      (True, Some rows, Some lens, t6)"
    using ex_split [of rmk t5] l by auto
  have pos: "0 < hsm_slot_blob_max" using blob_max(1) by (simp add: SLOT_META_WIRE_LEN_def)
  have "bk_export ex_env [97] 2 3 (Some ex_rows, Some ex_lens) 64 ex_bk_tok =
      (HSM_OK, (Some rows, Some lens), Some 1, t6)"
    using r b k s sp pos l
    by (simp add: bk_export_def Let_def t1_def [symmetric] ex_from_rmk PQC_KEK_LEN_def bek_def [symmetric]
        fkey_def numeral_2_eq_2)
  then show ?thesis by (simp add: hsm_backup_export_def ex_rows_def ex_lens_def hsm_session_role_def bk_consts)
qed

lemma backup_export_confined_witness:
  "\<exists>sh' tok'. hsm_backup_export ex_env (Some ex_bk_tok) ex_so (Some [97]) 2 3 (Some ex_rows, Some ex_lens) 64 =
     (HSM_OK, sh', Some 1, Some tok') \<and> dev_of tok' = dev_of ex_bk_tok \<and>
     (\<exists>salt blob tag. files tok' [97] = Some (bk_body salt [(0, blob)] @ tag))"
proof -
  obtain rows lens tok' where e: "hsm_backup_export ex_env (Some ex_bk_tok) ex_so (Some [97]) 2 3
      (Some ex_rows, Some ex_lens) 64 = (HSM_OK, (Some rows, Some lens), Some 1, Some tok')"
    using ex_export by blast
  have "filter (\<lambda>i. backupable ex_env (slots ex_bk_tok ! i)) [0..<length (slots ex_bk_tok)] = [0]"
    using ex_backupable by (simp add: upt_rec)
  then obtain salt recs tag where r: "files tok' [97] = Some (bk_body salt recs @ tag)" "map fst recs = [0]"
    and d: "dev_of tok' = dev_of ex_bk_tok"
    using backup_export_confined [OF e] by auto
  then obtain blob where "recs = [(0, blob)]" by auto
  then show ?thesis using e r d by blast
qed

text \<open>The other device: another root key, blank slots, the backup file copied to it.\<close>

definition ex_other :: env where
  "ex_other = ex_env\<lparr>kdr := ex_other_kdr\<rparr>"

lemma ex_other_derive:
  "c_string (cstr l) \<noteq> [] \<Longrightarrow> 0 < n \<Longrightarrow> pqc_kdr_derive ex_other l salt n = Some (ex_subkey salt n)"
  by (simp add: pqc_kdr_derive_def pqc_kdr_derive_st_def pqc_kdr_get_provider_def ex_kdr_def ex_other_def
      ex_other_kdr_def stub_derive_def ensure_root_def pqc_kdf_def pqc_kmac256_def PQC_KDR_LEN_def
      ex_subkey_def)

lemma ex_other_seal: "seal_total ex_other"
proof -
  have "derive_meta_key ex_other i = Some (ex_subkey (put_u32 i) 32)" for i
    by (simp add: derive_meta_key_def ex_other_derive c_string_def cstr_def)
  then show ?thesis
    using ex_subkey_nonempty [of 32]
    by (simp add: seal_total_def slot_meta_seal_def slot_meta_serialize_def pqc_kmac256_def ex_other_def
        SLOT_META_TAG_LEN_def)
qed

definition ex_dev :: "bytes option \<Rightarrow> hsm_token" where
  "ex_dev f = ex_tok\<lparr>slots := [blank_slot 0, blank_slot 1], files := Map.empty([98] := f)\<rparr>"

lemma ex_dev_simps [simp]:
  "slots (ex_dev f) = [blank_slot 0, blank_slot 1]" "files (ex_dev f) [98] = f" "audit (ex_dev f) = None"
  by (simp_all add: ex_dev_def)

lemma ex_dev_names: "names_ok (slots (ex_dev f))"
  by (simp add: names_ok_def All_less_Suc numeral_2_eq_2 blank_slot_def blank_meta_def)

lemma ex_alloc_total: "alloc_total ex_env"
  by (simp add: alloc_total_def)

lemma restore_result: "\<exists>st cnt dev'. hsm_backup_restore E (Some dev) path sh cap k = (st, cnt, Some dev')"
  by (auto simp: hsm_backup_restore_def split: option.split prod.split)

lemma ex_bk_size:
  "length (slots ex_bk_tok) \<le> 4096" "length (slots ex_bk_tok) \<le> length (slots (ex_dev f))"
  "\<forall>log. audit ex_bk_tok = Some log \<longrightarrow> al_fd log \<noteq> Some [97]"
  by simp_all

lemma backup_restores_witness:
  "\<exists>rows lens tok' dev'. hsm_backup_export ex_env (Some ex_bk_tok) ex_so (Some [97]) 2 3
       (Some ex_rows, Some ex_lens) 64 = (HSM_OK, (Some rows, Some lens), Some 1, Some tok') \<and>
     hsm_backup_restore ex_other (Some (ex_dev (files tok' [97]))) (Some [98])
       (Some [rows ! 2, rows ! 1], Some [lens ! 2, lens ! 1]) 64 2 = (HSM_OK, Some 1, Some dev') \<and>
     restored_copy ex_other (ex_seal ex_bk_slot) (slots dev' ! 0) \<and> slots dev' ! 1 = blank_slot 1"
proof -
  obtain rows lens tok' where e: "hsm_backup_export ex_env (Some ex_bk_tok) ex_so (Some [97]) 2 3
      (Some ex_rows, Some ex_lens) 64 = (HSM_OK, (Some rows, Some lens), Some 1, Some tok')"
    using ex_export by blast
  have idx: "distinct [2, 1 :: nat]" "\<forall>i\<in>set [2, 1]. i < unat (3 :: byte)" "unat (2 :: byte) \<le> length [2, 1 :: nat]"
    by simp_all
  obtain st cnt dev' where r: "hsm_backup_restore (ex_env\<lparr>kdr := ex_other_kdr\<rparr>) (Some (ex_dev (files tok' [97])))
      (Some [98]) (Some (map ((!) rows) [2, 1]), Some (map ((!) lens) [2, 1])) 64 (of_nat (length [2, 1 :: nat])) =
      (st, cnt, Some dev')"
    using restore_result by blast
  show ?thesis
    using backup_restores [OF e ex_rows_ok ex_bk_size(1) ex_bk_storable ex_bk_size(3) idx ex_dev_names
        ex_bk_size(2) _ ex_gcm ex_other_seal [unfolded ex_other_def] ex_alloc_total ex_io r] e r ex_backupable
    by (auto simp: ex_other_def)
qed

lemma restore_only_authentic_witness:
  "\<exists>rows lens tok' rmk buf. hsm_backup_export ex_env (Some ex_bk_tok) ex_so (Some [97]) 2 3
       (Some ex_rows, Some ex_lens) 64 = (HSM_OK, (Some rows, Some lens), Some 1, Some tok') \<and>
     files tok' [97] = Some buf \<and> bk_authentic ex_other rmk buf"
proof -
  obtain rows lens tok' where e: "hsm_backup_export ex_env (Some ex_bk_tok) ex_so (Some [97]) 2 3
      (Some ex_rows, Some ex_lens) 64 = (HSM_OK, (Some rows, Some lens), Some 1, Some tok')"
    using ex_export by blast
  have idx: "distinct [2, 1 :: nat]" "\<forall>i\<in>set [2, 1]. i < unat (3 :: byte)" "unat (2 :: byte) \<le> length [2, 1 :: nat]"
    by simp_all
  obtain st cnt dev' where r: "hsm_backup_restore (ex_env\<lparr>kdr := ex_other_kdr\<rparr>) (Some (ex_dev (files tok' [97])))
      (Some [98]) (Some (map ((!) rows) [2, 1]), Some (map ((!) lens) [2, 1])) 64 (of_nat (length [2, 1 :: nat])) =
      (st, cnt, Some dev')"
    using restore_result by blast
  have "st = HSM_OK"
    using quorum_restores [OF e ex_rows_ok ex_bk_size(1) ex_bk_storable ex_bk_size(3) idx ex_dev_names
        ex_bk_size(2) _ ex_gcm ex_other_seal [unfolded ex_other_def] ex_alloc_total ex_io r]
    by simp
  then show ?thesis
    using restore_only_authentic [OF r] e by (auto simp: ex_other_def)
qed

text \<open>A device with one slot, and a backup whose second record is for slot 1.\<close>

lemma smaller_token_restore_ok_witness:
  "\<exists>b1 dev1. restore_records ex_env ex_kek (replicate 32 0 @ concat (map bk_record [(0, b1), (1, [])]))
     (length [(0 :: nat, b1), (1, [])]) BK_HDR_LEN 0 HSM_ERR_INTEGRITY ((ex_dev None)\<lparr>slots := [blank_slot 0]\<rparr>) =
     (HSM_OK, None, dev1)"
proof -
  define dev where "dev = (ex_dev None)\<lparr>slots := [blank_slot 0]\<rparr>"
  have inv: "slot_inv 0 (ex_seal ex_key_slot)" using ex_key_inv by simp
  obtain b1 w' where s: "slot_serialize_locked ex_env (ex_seal ex_key_slot) (Some ex_kek) (length ex_kek)
      (Some hsm_slot_blob_max) True ex_world = (Inr b1, w')" "length b1 \<le> hsm_slot_blob_max"
    using ex_serialize [OF inv length_ex_kek] by blast
  have id: "m_slot_id (sl_meta (blank_slot 0)) = 0" by (simp add: blank_slot_def blank_meta_def)
  obtain t' w2 where d: "slot_deserialize_locked ex_env (blank_slot 0) (Some ex_kek) (length ex_kek) (Some b1)
      (length b1) dev = (HSM_OK, t', w2)"
    using ex_deserialize [OF s(1) inv _ _ id, of dev] by auto
  then have "hsm_slot_deserialize ex_env dev (of_nat 0) (Some ex_kek) PQC_KEK_LEN (Some b1) (length b1) =
      (HSM_OK, set_slot (of_nat 0) t' w2)"
    by (simp add: hsm_slot_deserialize_def slot_at_def dev_def PQC_KEK_LEN_def)
  moreover have "length b1 < 2 ^ 32" using s(2) blob_max(2) by simp
  ultimately have "restore_records ex_env ex_kek (replicate 32 0 @ concat (map bk_record [(0, b1), (1, [])]))
      (length [(0 :: nat, b1), (1, [])]) BK_HDR_LEN 0 HSM_ERR_INTEGRITY dev = (HSM_OK, None, set_slot (of_nat 0) t' w2)"
    by (intro smaller_token_restore_ok) (simp_all add: dev_def bk_consts)
  then show ?thesis unfolding dev_def by blast
qed

end
