(* ===== verification/Inject.thy ===== *)
theory Inject
  imports Slot_Guard Wrap
begin

text \<open>
  src/src/backup/inject.c: loading a key into the device without its plaintext crossing the link.
  The injecting side encapsulates to the public key of a KEM slot and wraps the seed under a key
  derived from the shared secret, with the header as associated data; the device decapsulates,
  checks, and loads the seed into the slot of the target session. Plaintext loading is behind a
  fuse.
\<close>

definition HSM_INJECT_VERSION :: u32 where "HSM_INJECT_VERSION = 1"
definition IJ_MAGIC :: bytes where "IJ_MAGIC = cstr ''PQCHSMIJ''"
definition IJ_HDR_LEN :: nat where "IJ_HDR_LEN = 32"

section \<open>The injecting side\<close>

definition hsm_inject_blob_len :: "pqc_alg \<Rightarrow> nat \<Rightarrow> nat" where
  "hsm_inject_blob_len kem_alg seed_len =
     (case pqc_alg_info kem_alg of
        None \<Rightarrow> 0
      | Some k \<Rightarrow>
          if ai_kind k \<noteq> PQC_KIND_KEM then 0
          else IJ_HDR_LEN + ai_ct_len k + pqc_wrap_blob_len seed_len)"

definition derive_cek :: "env \<Rightarrow> bytes \<Rightarrow> nat \<Rightarrow> bytes option" where
  "derive_cek E ss ss_len =
     pqc_kdf E (Some ss) ss_len None 0 (Some (cstr ''pqc-hsm/inject-cek'')) PQC_KEK_LEN"

text \<open>The header at its offsets; it is also the associated data of the wrapping.\<close>

definition inject_header :: "pqc_alg \<Rightarrow> pqc_alg \<Rightarrow> u32 \<Rightarrow> u32 \<Rightarrow> nat \<Rightarrow> bytes" where
  "inject_header kem_alg key_alg usage policy ct_len =
     IJ_MAGIC @ put_u32 HSM_INJECT_VERSION @ put_u32 (alg_code kem_alg) @ put_u32 (alg_code key_alg) @
     put_u32 usage @ put_u32 policy @ put_u32 (of_nat ct_len)"

text \<open>
  \<open>cap\<close> is the size of the caller's buffer (None for NULL) and \<open>out\<close> says that blob\_len is there. What
  a failed call leaves in the buffer is not part of the answer.
\<close>

definition hsm_inject_build ::
    "env \<Rightarrow> pqc_alg \<Rightarrow> bytes option \<Rightarrow> nat \<Rightarrow> pqc_alg \<Rightarrow> u32 \<Rightarrow> u32 \<Rightarrow> bytes option \<Rightarrow> nat \<Rightarrow>
     nat option \<Rightarrow> bool \<Rightarrow> 'a world_scheme \<Rightarrow> bytes hsm_res \<times> 'a world_scheme" where
  "hsm_inject_build E kem_alg device_pk device_pk_len key_alg usage policy seed seed_len cap out w =
     (case (pqc_alg_info kem_alg, pqc_alg_info key_alg, device_pk, seed, cap) of
        (Some kem, Some key, Some pk, Some sd, Some n) \<Rightarrow>
          if ai_kind kem \<noteq> PQC_KIND_KEM \<or> \<not> out then (Inl HSM_ERR_BAD_ARG, w)
          else if device_pk_len \<noteq> ai_pk_len kem \<or> seed_len \<noteq> ai_seed_len key then (Inl HSM_ERR_BAD_ARG, w)
          else if n < hsm_inject_blob_len kem_alg seed_len then (Inl HSM_ERR_BAD_ARG, w)
          else
            let hdr = inject_header kem_alg key_alg usage policy (ai_ct_len kem) in
            (case pqc_encaps E kem_alg (Some pk) True True w of
               (Inl _, w1) \<Rightarrow> (Inl HSM_ERR_CRYPTO, w1)
             | (Inr (ct, ss), w1) \<Rightarrow>
                 (case derive_cek E (buf_write (ai_ss_len kem) ss) (ai_ss_len kem) of
                    None \<Rightarrow> (Inl HSM_ERR_CRYPTO, w1)
                  | Some cek \<Rightarrow>
                      (case pqc_wrap E (Some cek) PQC_KEK_LEN (Some hdr) IJ_HDR_LEN (Some sd) seed_len
                              (Some (n - IJ_HDR_LEN - ai_ct_len kem)) True w1 of
                         (None, w2) \<Rightarrow> (Inl HSM_ERR_CRYPTO, w2)
                       | (Some wb, w2) \<Rightarrow> (Inr (hdr @ buf_write (ai_ct_len kem) ct @ wb), w2))))
      | _ \<Rightarrow> (Inl HSM_ERR_BAD_ARG, w))"

section \<open>The device\<close>

text \<open>
  Which slot a session is on, found by asking for every loaded slot's public key with a buffer of 8
  bytes: only HSM\_ERR\_BAD\_HANDLE means that it is another session's slot.
\<close>

fun find_target :: "env \<Rightarrow> hsm_token \<Rightarrow> u64 \<Rightarrow> nat list \<Rightarrow> (u32 \<times> u64 \<times> slot_meta) option" where
  "find_target E tok sess [] = None"
| "find_target E tok sess (i # is) =
     (case hsm_slot_get_meta E tok (of_nat i) True of
        Inl _ \<Rightarrow> find_target E tok sess is
      | Inr m \<Rightarrow>
          if m_state m \<noteq> SLOT_ST_LOADED \<and> m_state m \<noteq> SLOT_ST_IN_USE then find_target E tok sess is
          else let h = push_bit 32 (ucast (m_generation m)) OR of_nat (i + 1) in
            if hsm_object_public_key E tok sess h (Some 8) True = Inl HSM_ERR_BAD_HANDLE
            then find_target E tok sess is
            else Some (of_nat i, h, m))"

definition find_target_slot :: "env \<Rightarrow> hsm_token \<Rightarrow> u64 \<Rightarrow> (u32 \<times> u64 \<times> slot_meta) option" where
  "find_target_slot E tok sess = find_target E tok sess [0..<hsm_token_slot_count (Some tok)]"

definition check_usage :: "pqc_alg \<Rightarrow> u32 \<Rightarrow> hsm_status" where
  "check_usage alg usage =
     (case pqc_alg_info alg of
        None \<Rightarrow> HSM_ERR_BAD_ARG
      | Some info \<Rightarrow>
          if usage = 0 then HSM_ERR_BAD_ARG
          else let allowed = (if ai_kind info = PQC_KIND_KEM then KEY_USAGE_ENCAP OR KEY_USAGE_DECAP
                              else KEY_USAGE_SIGN OR KEY_USAGE_VERIFY) in
            if usage AND NOT allowed \<noteq> 0 then HSM_ERR_USAGE_DENIED else HSM_OK)"

text \<open>Phase 1, authentication: decapsulate, derive the key, unwrap into 64 bytes, check what came out.\<close>

definition inject_open ::
    "env \<Rightarrow> hsm_token \<Rightarrow> u64 \<Rightarrow> u64 \<Rightarrow> bytes \<Rightarrow> nat \<Rightarrow> pqc_alg \<Rightarrow> pqc_alg_info \<Rightarrow> u32 \<Rightarrow>
     bytes hsm_res \<times> hsm_token" where
  "inject_open E tok kem_sess kem_handle b ct_len key_alg key usage =
     (case hsm_object_decaps E tok kem_sess kem_handle (Some (slice IJ_HDR_LEN ct_len b)) ct_len
             (Some 64) True of
        (stt, bs, tok1) \<Rightarrow>
          if stt \<noteq> HSM_OK then (Inl stt, tok1)
          else let ss = (case bs of None \<Rightarrow> [] | Some x \<Rightarrow> x) in
            (case derive_cek E ss (length ss) of
               None \<Rightarrow> (Inl HSM_ERR_CRYPTO, tok1)
             | Some cek \<Rightarrow>
                 (case fst (pqc_unwrap E (Some cek) PQC_KEK_LEN (Some (take IJ_HDR_LEN b)) IJ_HDR_LEN
                              (Some (drop (IJ_HDR_LEN + ct_len) b)) (length b - IJ_HDR_LEN - ct_len)
                              (Some (replicate 64 0)) True) of
                    None \<Rightarrow> (Inl HSM_ERR_INTEGRITY, tok1)
                  | Some seed \<Rightarrow>
                      if length seed \<noteq> ai_seed_len key then (Inl HSM_ERR_INTEGRITY, tok1)
                      else if check_usage key_alg usage \<noteq> HSM_OK then (Inl (check_usage key_alg usage), tok1)
                      else (Inr seed, tok1))))"

text \<open>Phases 2 and 3: the policy of a loaded target, then destroy and load.\<close>

definition inject_commit ::
    "env \<Rightarrow> hook \<Rightarrow> hsm_token \<Rightarrow> u64 \<Rightarrow> pqc_alg \<Rightarrow> u32 \<Rightarrow> u32 \<Rightarrow> bytes \<Rightarrow> bool \<Rightarrow>
     hsm_status \<times> u64 option \<times> hsm_token" where
  "inject_commit E H tok target_sess key_alg usage policy seed out =
     (case find_target_slot E tok target_sess of
        None \<Rightarrow> hsm_slot_load_seed E H tok target_sess key_alg usage policy (Some seed) (length seed) out
      | Some (_, told, tmeta) \<Rightarrow>
          if m_policy tmeta AND SLOT_POLICY_INJECTABLE = 0 then (HSM_ERR_POLICY, None, tok)
          else (case hsm_object_destroy E H tok target_sess told of
             (stt, tok1) \<Rightarrow>
               if stt \<noteq> HSM_OK then (stt, None, tok1)
               else hsm_slot_load_seed E H tok1 target_sess key_alg usage policy (Some seed) (length seed) out))"

definition hsm_inject_apply ::
    "env \<Rightarrow> hook \<Rightarrow> hsm_token option \<Rightarrow> u64 \<Rightarrow> u64 \<Rightarrow> u64 \<Rightarrow> bytes option \<Rightarrow> nat \<Rightarrow> bool \<Rightarrow>
     hsm_status \<times> u64 option \<times> hsm_token option" where
  "hsm_inject_apply E H tokp kem_sess kem_handle target_sess blob blob_len out =
     (case (tokp, blob) of
        (Some tok, Some bl) \<Rightarrow>
          if blob_len < IJ_HDR_LEN then (HSM_ERR_BAD_ARG, None, tokp)
          else let b = take blob_len bl in
            if take 8 b \<noteq> IJ_MAGIC \<or> get_u32 (drop 8 b) \<noteq> HSM_INJECT_VERSION
            then (HSM_ERR_INTEGRITY, None, tokp)
            else let kem_alg = alg_of (get_u32 (drop 12 b)); key_alg = alg_of (get_u32 (drop 16 b));
                     usage = get_u32 (drop 20 b); policy = get_u32 (drop 24 b);
                     ct_len = unat (get_u32 (drop 28 b)) in
              (case (pqc_alg_info kem_alg, pqc_alg_info key_alg) of
                 (Some kem, Some key) \<Rightarrow>
                   if ai_kind kem \<noteq> PQC_KIND_KEM \<or> ct_len \<noteq> ai_ct_len kem \<or> blob_len < IJ_HDR_LEN + ct_len
                   then (HSM_ERR_INTEGRITY, None, tokp)
                   else (case hsm_session_role tok target_sess True of
                      Inl e \<Rightarrow> (e, None, tokp)
                    | Inr _ \<Rightarrow>
                        (case inject_open E tok kem_sess kem_handle b ct_len key_alg key usage of
                           (Inl e, tok1) \<Rightarrow> (e, None, Some tok1)
                         | (Inr seed, tok1) \<Rightarrow>
                             (case inject_commit E H tok1 target_sess key_alg usage policy seed out of
                                (stt, h, tok2) \<Rightarrow> (stt, h, Some tok2))))
               | _ \<Rightarrow> (HSM_ERR_INTEGRITY, None, tokp))
      | _ \<Rightarrow> (HSM_ERR_BAD_ARG, None, tokp))"

section \<open>Manufacturing mode\<close>

text \<open>The two static variables of the file; blowing the fuse is the switch going off.\<close>

record mfg =
  g_mfg_mode :: bool
  g_mfg_blown :: bool

definition mfg_boot :: mfg where
  "mfg_boot = \<lparr>g_mfg_mode = False, g_mfg_blown = False\<rparr>"

definition hsm_inject_set_manufacturing_mode :: "bool \<Rightarrow> mfg \<Rightarrow> int \<times> mfg" where
  "hsm_inject_set_manufacturing_mode on g =
     (if on then (if g_mfg_blown g then (-1, g) else (0, g\<lparr>g_mfg_mode := True\<rparr>))
      else (0, g\<lparr>g_mfg_mode := False, g_mfg_blown := True\<rparr>))"

definition hsm_inject_manufacturing_mode :: "mfg \<Rightarrow> bool" where
  "hsm_inject_manufacturing_mode g = g_mfg_mode g"

definition hsm_inject_plaintext ::
    "env \<Rightarrow> hook \<Rightarrow> mfg \<Rightarrow> hsm_token \<Rightarrow> u64 \<Rightarrow> pqc_alg \<Rightarrow> u32 \<Rightarrow> u32 \<Rightarrow> bytes option \<Rightarrow> nat \<Rightarrow> bool \<Rightarrow>
     hsm_status \<times> u64 option \<times> hsm_token" where
  "hsm_inject_plaintext E H g tok target_sess key_alg usage policy seed seed_len out =
     (if \<not> g_mfg_mode g then (HSM_ERR_POLICY, None, tok)
      else hsm_slot_load_seed E H tok target_sess key_alg usage policy seed seed_len out)"

end
