(* ===== verification/Inject_Props.thy ===== *)
theory Inject_Props
  imports Inject
begin

text \<open>
  What key injection promises: the header survives the trip, the target slot is found exactly,
  nothing but a use of the injection key happens before the blob is authenticated, a key whose
  policy does not allow it is never replaced, what the sender wrapped is what the device commits,
  and the fuse of manufacturing mode stays blown.
\<close>

section \<open>The header\<close>

lemma length_inject_header [simp, codec_simps]: "length (inject_header ka al us po n) = IJ_HDR_LEN"
  by (simp add: inject_header_def IJ_MAGIC_def cstr_def IJ_HDR_LEN_def)

lemma header_fields:
  "take 8 (inject_header ka al us po n @ r) = IJ_MAGIC"
  "get_u32 (drop 8 (inject_header ka al us po n @ r)) = HSM_INJECT_VERSION"
  "get_u32 (drop 12 (inject_header ka al us po n @ r)) = alg_code ka"
  "get_u32 (drop 16 (inject_header ka al us po n @ r)) = alg_code al"
  "get_u32 (drop 20 (inject_header ka al us po n @ r)) = us"
  "get_u32 (drop 24 (inject_header ka al us po n @ r)) = po"
  "get_u32 (drop 28 (inject_header ka al us po n @ r)) = of_nat n"
  by (simp_all add: inject_header_def IJ_MAGIC_def cstr_def le_get_le_bytes)

text \<open>The 32 bytes are determined by the seven fields the device reads.\<close>

lemma header_exact:
  assumes "IJ_HDR_LEN \<le> length b" "take 8 b = IJ_MAGIC" "get_u32 (drop 8 b) = HSM_INJECT_VERSION"
  shows "take IJ_HDR_LEN b = inject_header (alg_of (get_u32 (drop 12 b))) (alg_of (get_u32 (drop 16 b)))
    (get_u32 (drop 20 b)) (get_u32 (drop 24 b)) (unat (get_u32 (drop 28 b) :: u32))"
proof -
  have f: "put_u32 (get_u32 (drop k b)) = take 4 (drop k b)" if "k + 4 \<le> 32" for k
    using le_bytes_le_get[of "take 4 (drop k b)" 4, where 'a = 32] that assms(1)
    by (simp add: IJ_HDR_LEN_def)
  have "take 32 b = take 8 b @ take 4 (drop 8 b) @ take 4 (drop 12 b) @ take 4 (drop 16 b) @
      take 4 (drop 20 b) @ take 4 (drop 24 b) @ take 4 (drop 28 b)"
    using take_add[of 8 24 b] take_add[of 4 20 "drop 8 b"] take_add[of 4 16 "drop 12 b"]
      take_add[of 4 12 "drop 16 b"] take_add[of 4 8 "drop 20 b"] take_add[of 4 4 "drop 24 b"]
    by simp
  then show ?thesis using assms(2,3) f[of 8] by (simp add: inject_header_def f IJ_HDR_LEN_def)
qed

section \<open>Finding the target\<close>

text \<open>The two usage checks of the module agree, so the one before the commit leaves nothing to fail.\<close>

lemma check_usage_eq: "check_usage alg usage = validate_usage alg usage"
  by (simp add: check_usage_def validate_usage_def)

lemma index_handle:
  assumes "i < 4096" "m_slot_id (sl_meta s) = of_nat i"
  shows "push_bit 32 (ucast (m_generation (sl_meta s))) OR of_nat (i + 1) = make_handle s"
proof -
  have "unat (of_nat i + 1 :: u32) = i + 1" using unat_u32[of "i + 1"] assms(1) by (simp add: add.commute)
  then have "(of_nat (i + 1) :: u64) = ucast (of_nat i + 1 :: u32)"
    by (metis of_nat_unat)
  then show ?thesis using assms(2) by (simp add: make_handle_def)
qed

lemma make_handle_refused:
  assumes "m_slot_id (sl_meta s) \<noteq> m_slot_id (sl_meta t)"
  shows "check_handle E t (make_handle s) = HSM_ERR_BAD_HANDLE"
  using assms by (simp add: check_handle_def make_handle_parts)

lemma make_handle_good:
  assumes "m_slot_id (sl_meta s) + 1 \<noteq> 0" "st_of s = SLOT_ST_LOADED" "slot_check_integrity E s = HSM_OK"
  shows "check_handle E s (make_handle s) = HSM_OK"
  using assms make_handle_nonzero by (simp add: check_handle_def make_handle_parts)

lemma slot_facts:
  assumes "tok_inv tok" "i < length (slots tok)"
  shows "i < 4096" "unat (of_nat i :: u32) = i" "m_slot_id (sl_meta (slots tok ! i)) = of_nat i"
    "slot_at tok (of_nat i) = Some (slots tok ! i)" "(of_nat i :: u32) + 1 \<noteq> 0"
    "st_of (slots tok ! i) \<noteq> SLOT_ST_IN_USE" "slot_inv (of_nat i) (slots tok ! i)"
proof -
  show i: "i < 4096" and inv: "slot_inv (of_nat i) (slots tok ! i)"
    using assms by (auto simp: tok_inv_def dev_inv_def)
  show u: "unat (of_nat i :: u32) = i" using i unat_u32 by simp
  show "m_slot_id (sl_meta (slots tok ! i)) = of_nat i" "st_of (slots tok ! i) \<noteq> SLOT_ST_IN_USE"
    using inv by (simp_all add: slot_inv_def)
  show "slot_at tok (of_nat i) = Some (slots tok ! i)" using assms(2) u by (simp add: slot_at_def)
  show "(of_nat i :: u32) + 1 \<noteq> 0" using slot_id_plus1 i by blast
qed

definition injectable_target :: "env \<Rightarrow> slot \<Rightarrow> bool" where
  "injectable_target E s \<longleftrightarrow> st_of s = SLOT_ST_LOADED \<and> slot_check_integrity E s = HSM_OK"

lemma find_target_result:
  assumes "tok_inv tok" "session_info tok sess = Inr (sid, r)" "unat sid < length (slots tok)"
    and "\<forall>i\<in>set is. i < length (slots tok)"
  shows "find_target E tok sess is =
     (if unat sid \<in> set is \<and> injectable_target E (slots tok ! unat sid)
      then Some (sid, make_handle (slots tok ! unat sid), sl_meta (slots tok ! unat sid)) else None)"
  using assms(4)
proof (induction "is")
  case (Cons i "is")
  let ?s = "slots tok ! i"
  have i: "i < length (slots tok)" using Cons.prems by simp
  note f = slot_facts[OF assms(1) i] and g = slot_facts[OF assms(1,3)]
  have h: "push_bit 32 (ucast (m_generation (sl_meta ?s))) OR of_nat (i + 1) = make_handle ?s"
    using index_handle f(1,3) by blast
  have at: "slot_at tok sid = Some (slots tok ! unat sid)" using g(4) by simp
  show ?case
  proof (cases "injectable_target E ?s")
    case False
    then have "find_target E tok sess (i # is) = find_target E tok sess is"
      using f by (auto simp: hsm_slot_get_meta_def injectable_target_def)
    then show ?thesis using Cons False by auto
  next
    case True
    then have m: "hsm_slot_get_meta E tok (of_nat i) True = Inr (sl_meta ?s)" "st_of ?s = SLOT_ST_LOADED"
      using f by (simp_all add: hsm_slot_get_meta_def injectable_target_def)
    show ?thesis
    proof (cases "i = unat sid")
      case False
      then have "m_slot_id (sl_meta ?s) \<noteq> m_slot_id (sl_meta (slots tok ! unat sid))"
        using f(2,3) g(2,3) by metis
      then have "hsm_object_public_key E tok sess (make_handle ?s) (Some 8) True = Inl HSM_ERR_BAD_HANDLE"
        using assms(2) at make_handle_refused by (simp add: hsm_object_public_key_def)
      then show ?thesis using Cons False m h by (simp add: Let_def del: of_nat_add of_nat_Suc)
    next
      case same: True
      have "check_handle E ?s (make_handle ?s) = HSM_OK"
        using True f make_handle_good by (simp add: injectable_target_def)
      then have "hsm_object_public_key E tok sess (make_handle ?s) (Some 8) True \<noteq> Inl HSM_ERR_BAD_HANDLE"
        using assms(2) at same by (simp add: hsm_object_public_key_def Let_def split: if_splits)
      then show ?thesis using True m h same by (simp add: Let_def del: of_nat_add of_nat_Suc)
    qed
  qed
qed simp

lemma find_target_exact:
  assumes "tok_inv tok" "session_info tok sess = Inr (sid, r)"
  shows "unat sid < length (slots tok)" "find_target_slot E tok sess =
     (if injectable_target E (slots tok ! unat sid)
      then Some (sid, make_handle (slots tok ! unat sid), sl_meta (slots tok ! unat sid)) else None)"
proof -
  obtain k where k: "k < length (sessions tok)" "se_open (sessions tok ! k)" "se_slot (sessions tok ! k) = sid"
    using info_index[OF assms(2)] assms(1) by (auto simp: tok_inv_def dev_inv_def)
  then have "session_inv (slots tok) (sessions tok ! k)"
    using assms(1) dev_inv_session by (simp add: tok_inv_def)
  then show n: "unat sid < length (slots tok)" using k by (simp add: session_inv_def)
  show "find_target_slot E tok sess =
     (if injectable_target E (slots tok ! unat sid)
      then Some (sid, make_handle (slots tok ! unat sid), sl_meta (slots tok ! unat sid)) else None)"
    using find_target_result[OF assms n, of "[0..<length (slots tok)]" E] n
    by (simp add: find_target_slot_def hsm_token_slot_count_def)
qed

section \<open>Authentication first\<close>

text \<open>What a slot holds and may be used for, apart from its use counter and seal.\<close>

definition key_of :: "slot \<Rightarrow> bytes option \<times> bytes option \<times> bytes \<times> bool \<times> bool \<times> u32 \<times> pqc_alg \<times> u32 \<times> u32 \<times> u32" where
  "key_of s = (sl_pk s, sl_sk s, sl_seed s, sl_has_seed s, sl_hw_resident s, sl_hw_handle s,
     m_alg (sl_meta s), m_usage (sl_meta s), m_policy (sl_meta s), m_generation (sl_meta s))"

lemma use_result_key:
  "use_result E s h need b stt bs s' \<Longrightarrow> key_of s' = key_of s \<and> st_of s' = st_of s"
  by (auto simp: use_result_def key_of_def split: if_splits)

lemma use_result_target:
  assumes "use_result E s h need b stt bs s'" "seal_total E" "wf_arrays s"
  shows "injectable_target E s' = injectable_target E s"
proof (cases b)
  case True
  then have "st_of s = SLOT_ST_LOADED" "slot_check_integrity E s = HSM_OK" "sealed E s'" "wf_arrays s'"
    using assms check_handle_OK[of E s h] unfolding use_result_def by auto
  then show ?thesis
    using check_integrity_iff use_result_key[OF assms(1)] by (simp add: injectable_target_def)
qed (use assms(1) in \<open>auto simp: use_result_def\<close>)

text \<open>A decapsulation leaves every key where it is, and the session table alone.\<close>

lemma decaps_frame:
  assumes "hsm_object_decaps E tok sess h ct cl ss sl = (stt, bs, tok')" "tok_inv tok" "seal_total E"
  shows "tok_inv tok' \<and> sessions tok' = sessions tok \<and> length (slots tok') = length (slots tok) \<and>
     (\<forall>i < length (slots tok). key_of (slots tok' ! i) = key_of (slots tok ! i) \<and>
        injectable_target E (slots tok' ! i) = injectable_target E (slots tok ! i))"
proof (cases "tok' = tok")
  case False
  then obtain sid s b s' where s: "slot_at tok sid = Some s" "use_result E s h KEY_USAGE_DECAP b stt bs s'"
    "slots tok' = (slots tok)[unat sid := s']"
    using object_decaps_shape[OF assms(1)] unfolding use_shape_def by blast
  have ses: "sessions tok' = sessions tok"
    using assms(1) by (auto simp: hsm_object_decaps_def Let_def set_slot_def
        split: sum.splits option.splits prod.splits if_splits dest!: only_core_decaps dev_of_only_core)
  have inv: "slot_inv sid s" using assms(2) s(1) dev_inv_slot by (auto simp: tok_inv_def slot_at_Some)
  have "dev_step E (Decaps sess h ct cl ss sl) stt (dev_of tok) (dev_of tok')" using decaps_step[OF assms(1)] .
  then have "tok_inv tok'" using dev_step_inv assms(2,3) by (simp add: tok_inv_def)
  then show ?thesis
    using ses s use_result_key[OF s(2)] use_result_target[OF s(2) assms(3) slot_inv_arrays[OF inv]]
    by (auto simp: slot_at_Some nth_list_update)
qed (use assms(2) in simp)

text \<open>
  The blob is exactly a header for these values, a ciphertext, and a wrapping of the seed under the
  key derived from the secret that the injection key finds in the ciphertext; and the seed and the
  usage fit the algorithm. \<open>tok1\<close> is the token after that decapsulation.
\<close>

definition inject_proven ::
    "env \<Rightarrow> hsm_token \<Rightarrow> u64 \<Rightarrow> u64 \<Rightarrow> bytes \<Rightarrow> pqc_alg \<Rightarrow> u32 \<Rightarrow> u32 \<Rightarrow> bytes \<Rightarrow> hsm_token \<Rightarrow> bool" where
  "inject_proven E tok ks kh b al us po seed tok1 \<longleftrightarrow>
     (\<exists>ka ct nn c tag ss cek key.
        b = inject_header ka al us po (length ct) @ ct @
              pwrp_hdr_put (of_nat IJ_HDR_LEN) (of_nat (length seed)) @ nn @ c @ tag \<and>
        hsm_object_decaps E tok ks kh (Some ct) (length ct) (Some 64) True = (HSM_OK, Some ss, tok1) \<and>
        derive_cek E ss (length ss) = Some cek \<and>
        gcm_open E cek nn (pwrp_hdr_put (of_nat IJ_HDR_LEN) (of_nat (length seed)) @
            inject_header ka al us po (length ct)) c tag = Some seed \<and>
        pqc_alg_info al = Some key \<and> length seed = ai_seed_len key \<and> validate_usage al us = HSM_OK)"

lemma derive_cek_length: "derive_cek E ss n = Some cek \<Longrightarrow> length cek = PQC_KEK_LEN"
  by (simp add: derive_cek_def pqc_kdf_length)

lemma decaps_bytes:
  assumes "hsm_object_decaps E tok sess h ct cl ss sl = (HSM_OK, bs, tok')"
  shows "\<exists>x. bs = Some x"
  using use_shape_allowed[OF object_decaps_shape[OF assms]] by (cases bs) simp_all

lemma inject_open_fails:
  assumes "inject_open E tok ks kh b n al key us = (Inl e, tok1)"
  shows "e \<noteq> HSM_OK"
  using assms by (auto simp: inject_open_def Let_def split: if_splits option.splits prod.splits)

lemma inject_open_tok:
  "snd (inject_open E tok ks kh b n al key us) =
     snd (snd (hsm_object_decaps E tok ks kh (Some (slice IJ_HDR_LEN n b)) n (Some 64) True))"
  by (simp add: inject_open_def Let_def split: option.splits prod.splits)

lemma inject_open_seed:
  assumes "inject_open E tok ks kh b n al key us = (Inr seed, tok1)"
  shows "\<exists>ss cek buf.
     hsm_object_decaps E tok ks kh (Some (slice IJ_HDR_LEN n b)) n (Some 64) True = (HSM_OK, Some ss, tok1) \<and>
     derive_cek E ss (length ss) = Some cek \<and>
     pqc_unwrap E (Some cek) PQC_KEK_LEN (Some (take IJ_HDR_LEN b)) IJ_HDR_LEN
       (Some (drop (IJ_HDR_LEN + n) b)) (length b - IJ_HDR_LEN - n) (Some (replicate 64 0)) True =
       (Some seed, buf) \<and>
     length seed = ai_seed_len key \<and> validate_usage al us = HSM_OK"
proof -
  obtain stt bs t where d:
    "hsm_object_decaps E tok ks kh (Some (slice IJ_HDR_LEN n b)) n (Some 64) True = (stt, bs, t)"
    by (metis prod_cases3)
  have ok: "stt = HSM_OK" using assms d by (auto simp: inject_open_def split: if_splits)
  then obtain ss where ss: "bs = Some ss" using decaps_bytes d by blast
  obtain cek where c: "derive_cek E ss (length ss) = Some cek"
    using assms d ok ss by (cases "derive_cek E ss (length ss)") (simp_all add: inject_open_def)
  let ?u = "pqc_unwrap E (Some cek) PQC_KEK_LEN (Some (take IJ_HDR_LEN b)) IJ_HDR_LEN
       (Some (drop (IJ_HDR_LEN + n) b)) (length b - IJ_HDR_LEN - n) (Some (replicate 64 0)) True"
  have u: "fst ?u = Some seed" "length seed = ai_seed_len key" "check_usage al us = HSM_OK" "tok1 = t"
    using assms d ok ss c
    by (simp_all add: inject_open_def del: length_drop split: if_splits option.splits)
  then have "?u = (Some seed, snd ?u)" by (metis prod.collapse)
  then show ?thesis using d ok ss c u check_usage_eq by metis
qed

lemma inject_proven_blob:
  assumes "inject_open E tok ks kh b n al key us = (Inr seed, tok1)" "pqc_alg_info al = Some key"
    and "IJ_HDR_LEN + n \<le> length b" "take IJ_HDR_LEN b = inject_header ka al us po n"
  shows "inject_proven E tok ks kh b al us po seed tok1"
proof -
  let ?ct = "slice IJ_HDR_LEN n b"
  let ?rest = "drop (IJ_HDR_LEN + n) b"
  have ct: "length ?ct = n" using assms(3) by simp
  have b: "b = take IJ_HDR_LEN b @ ?ct @ ?rest"
    by (metis append_take_drop_id drop_drop slice_def add.commute)
  have l: "length (take IJ_HDR_LEN b) = IJ_HDR_LEN" using assms(3) by simp
  obtain ss cek buf where o:
    "hsm_object_decaps E tok ks kh (Some ?ct) n (Some 64) True = (HSM_OK, Some ss, tok1)"
    "derive_cek E ss (length ss) = Some cek"
    "pqc_unwrap E (Some cek) PQC_KEK_LEN (Some (take IJ_HDR_LEN b)) IJ_HDR_LEN
       (Some ?rest) (length b - IJ_HDR_LEN - n) (Some (replicate 64 0)) True = (Some seed, buf)"
    "length seed = ai_seed_len key" "validate_usage al us = HSM_OK"
    using inject_open_seed[OF assms(1)] by blast
  have lr: "length b - IJ_HDR_LEN - n = length ?rest" by simp
  obtain nn c tag where r: "?rest = pwrp_hdr_put (of_nat IJ_HDR_LEN) (of_nat (length seed)) @ nn @ c @ tag"
    "gcm_open E (take PQC_KEK_LEN cek) nn (pwrp_hdr_put (of_nat IJ_HDR_LEN) (of_nat (length seed)) @
       mem (Some (take IJ_HDR_LEN b)) IJ_HDR_LEN) c tag = Some seed"
    using unwrap_some[OF o(3)[unfolded lr]] by blast
  have "take PQC_KEK_LEN cek = cek" using derive_cek_length[OF o(2)] by simp
  then have "gcm_open E cek nn (pwrp_hdr_put (of_nat IJ_HDR_LEN) (of_nat (length seed)) @
       inject_header ka al us po (length ?ct)) c tag = Some seed"
    using r(2) assms(4) ct by simp
  moreover have "b = inject_header ka al us po (length ?ct) @ ?ct @
      pwrp_hdr_put (of_nat IJ_HDR_LEN) (of_nat (length seed)) @ nn @ c @ tag"
    using b assms(4) ct r(1) by metis
  moreover have "hsm_object_decaps E tok ks kh (Some ?ct) (length ?ct) (Some 64) True = (HSM_OK, Some ss, tok1)"
    using o(1) by (simp only: ct)
  ultimately show ?thesis
    using o(2,4,5) assms(2) unfolding inject_proven_def by blast
qed

lemma session_role_err: "hsm_session_role tok sess True = Inl e \<Longrightarrow> e \<noteq> HSM_OK"
  using session_info_Inl by (cases "session_info tok sess") (auto simp: hsm_session_role_def)

lemma inject_apply_cases:
  assumes "hsm_inject_apply E H (Some tok) ks kh ts (Some b) (length b) out = (stt, h, Some tok')"
  shows "stt \<noteq> HSM_OK \<and> h = None \<and>
       (tok' = tok \<or> (\<exists>ct n. tok' = snd (snd (hsm_object_decaps E tok ks kh ct n (Some 64) True)))) \<or>
     (\<exists>al us po seed tok1. inject_proven E tok ks kh b al us po seed tok1 \<and>
       (\<exists>sid r. session_info tok ts = Inr (sid, r)) \<and>
       inject_commit E H tok1 ts al us po seed out = (stt, h, tok'))"
proof -
  let ?ka = "alg_of (get_u32 (drop 12 b))" and ?al = "alg_of (get_u32 (drop 16 b))"
  let ?us = "get_u32 (drop 20 b)" and ?po = "get_u32 (drop 24 b)" and ?n = "unat (get_u32 (drop 28 b) :: u32)"
  show ?thesis
  proof (cases "IJ_HDR_LEN \<le> length b \<and> take 8 b = IJ_MAGIC \<and> get_u32 (drop 8 b) = HSM_INJECT_VERSION \<and>
      (\<exists>kem key. pqc_alg_info ?ka = Some kem \<and> pqc_alg_info ?al = Some key \<and> ai_kind kem = PQC_KIND_KEM \<and>
        ?n = ai_ct_len kem \<and> IJ_HDR_LEN + ?n \<le> length b) \<and> (\<exists>r. hsm_session_role tok ts True = Inr r)")
    case False
    then have "stt \<noteq> HSM_OK \<and> h = None \<and> tok' = tok"
      using assms session_role_err[of tok ts]
      by (auto simp: hsm_inject_apply_def Let_def split: if_splits option.splits sum.splits)
    then show ?thesis by simp
  next
    case True
    then obtain kem key r where k: "pqc_alg_info ?ka = Some kem" "pqc_alg_info ?al = Some key"
      "ai_kind kem = PQC_KIND_KEM" "?n = ai_ct_len kem" "IJ_HDR_LEN + ?n \<le> length b"
      "hsm_session_role tok ts True = Inr r" by blast
    have hd: "take IJ_HDR_LEN b = inject_header ?ka ?al ?us ?po ?n"
      using True header_exact by blast
    have ses: "\<exists>sid r. session_info tok ts = Inr (sid, r)"
      using k(6) by (cases "session_info tok ts") (auto simp: hsm_session_role_def)
    obtain rr tok1 where o: "inject_open E tok ks kh b ?n ?al key ?us = (rr, tok1)" by fastforce
    have ap: "(case rr of Inl e \<Rightarrow> (e, None, Some tok1) | Inr seed \<Rightarrow>
        (case inject_commit E H tok1 ts ?al ?us ?po seed out of (st2, h2, tok2) \<Rightarrow> (st2, h2, Some tok2))) =
        (stt, h, Some tok')"
      using assms True k o by (simp add: hsm_inject_apply_def Let_def)
    show ?thesis
    proof (cases rr)
      case (Inl e)
      have "tok1 = snd (snd (hsm_object_decaps E tok ks kh (Some (slice IJ_HDR_LEN ?n b)) ?n (Some 64) True))"
        using inject_open_tok[of E tok ks kh b ?n ?al key ?us] o by simp
      then show ?thesis using ap Inl o inject_open_fails by auto
    next
      case (Inr seed)
      then have "inject_commit E H tok1 ts ?al ?us ?po seed out = (stt, h, tok')"
        using ap by (simp split: prod.splits)
      then show ?thesis using inject_proven_blob[OF o[unfolded Inr] k(2,5) hd] ses by blast
    qed
  qed
qed

section \<open>The commit\<close>

lemma destroy_frame:
  assumes "hook_ok H" "hsm_object_destroy E H tok sess h = (stt, tok')"
  shows "only_slot (session_slot tok sess) tok tok'" "session_info tok' = session_info tok"
proof -
  show "only_slot (session_slot tok sess) tok tok'"
    using assms by (auto simp: hsm_object_destroy_def split: sum.splits option.splits prod.splits
        dest!: role_target intro!: only_slot_commit[OF _ _ only_core_refl])
  have "sessions tok' = sessions tok"
    using assms by (auto simp: hsm_object_destroy_def set_slot_def
        split: sum.splits option.splits prod.splits dest: dev_of_commit)
  then show "session_info tok' = session_info tok" by (simp add: session_info_def fun_eq_iff)
qed

lemma load_seed_only_slot:
  "hook_ok H \<Longrightarrow> hsm_slot_load_seed E H tok sess al us po seed n out = (stt, h, tok') \<Longrightarrow>
     only_slot (session_slot tok sess) tok tok'"
  using load_seed_create create_only_slot by fastforce

lemma only_slot_trans: "only_slot t a b \<Longrightarrow> only_slot t b c \<Longrightarrow> only_slot t a c"
  by (simp add: only_slot_def)

text \<open>The commit works on the target slot only, and refuses a loaded one that is not injectable.\<close>

lemma inject_commit_frame:
  assumes "inject_commit E H tok ts al us po seed out = (stt, h, tok')" "hook_ok H" "tok_inv tok"
    and "session_info tok ts = Inr (sid, r)"
  shows "only_slot (Some (unat sid)) tok tok' \<and>
     (injectable_target E (slots tok ! unat sid) \<and>
      m_policy (sl_meta (slots tok ! unat sid)) AND SLOT_POLICY_INJECTABLE = 0 \<longrightarrow>
        stt = HSM_ERR_POLICY \<and> h = None \<and> tok' = tok)"
proof -
  note ft = find_target_exact(2)[OF assms(3,4), of E]
  have t: "session_slot tok ts = Some (unat sid)" using info_target[OF assms(4)] .
  have l: "only_slot (Some (unat sid)) t1 t2"
    if "hsm_slot_load_seed E H t1 ts al us po sd n out = (st2, h2, t2)" "session_info t1 = session_info tok"
    for t1 t2 sd n st2 h2
    using load_seed_only_slot[OF assms(2) that(1)] that(2) t by (simp add: session_slot_def)
  show ?thesis
  proof (cases "injectable_target E (slots tok ! unat sid)")
    case False
    then show ?thesis using assms(1) ft l by (auto simp: inject_commit_def)
  next
    case True
    obtain st1 tok1 where d: "hsm_object_destroy E H tok ts (make_handle (slots tok ! unat sid)) = (st1, tok1)"
      by fastforce
    have "only_slot (Some (unat sid)) tok tok1" "session_info tok1 = session_info tok"
      using destroy_frame[OF assms(2) d] t by simp_all
    then show ?thesis
      using assms(1) ft True d by (auto simp: inject_commit_def split: if_splits intro: only_slot_trans l)
  qed
qed

lemma decaps_session:
  assumes "tok1 = snd (snd (hsm_object_decaps E tok ks kh ct n ss sl))" "tok_inv tok" "seal_total E"
  shows "tok_inv tok1" "session_info tok1 = session_info tok" "length (slots tok1) = length (slots tok)"
    "i < length (slots tok) \<Longrightarrow> key_of (slots tok1 ! i) = key_of (slots tok ! i)"
    "i < length (slots tok) \<Longrightarrow> injectable_target E (slots tok1 ! i) = injectable_target E (slots tok ! i)"
proof -
  obtain stt bs t where "hsm_object_decaps E tok ks kh ct n ss sl = (stt, bs, t)" by (metis prod_cases3)
  then have f: "tok_inv tok1" "sessions tok1 = sessions tok" "length (slots tok1) = length (slots tok)"
    "\<forall>i < length (slots tok). key_of (slots tok1 ! i) = key_of (slots tok ! i) \<and>
        injectable_target E (slots tok1 ! i) = injectable_target E (slots tok ! i)"
    using decaps_frame[OF _ assms(2,3)] assms(1) by auto
  then show "tok_inv tok1" "length (slots tok1) = length (slots tok)"
    "i < length (slots tok) \<Longrightarrow> key_of (slots tok1 ! i) = key_of (slots tok ! i)"
    "i < length (slots tok) \<Longrightarrow> injectable_target E (slots tok1 ! i) = injectable_target E (slots tok ! i)"
    by blast+
  show "session_info tok1 = session_info tok" using f(2) by (simp add: session_info_def fun_eq_iff)
qed

lemma inject_proven_tok:
  "inject_proven E tok ks kh b al us po seed tok1 \<Longrightarrow>
     \<exists>ct n. tok1 = snd (snd (hsm_object_decaps E tok ks kh ct n (Some 64) True))"
  unfolding inject_proven_def by (metis snd_conv)

text \<open>
  C9: an injection changes a key only in the slot of the target session, only after the whole blob was
  authenticated, and never a loaded key whose policy does not say INJECTABLE. Whatever bytes are
  sent, every other key, usage, policy and generation of the token stays.
\<close>

theorem inject_authenticates:
  assumes "tok_inv tok" "seal_total E" "hook_ok H"
    and "hsm_inject_apply E H (Some tok) ks kh ts (Some b) (length b) out = (stt, h, Some tok')"
    and "i < length (slots tok)" "key_of (slots tok' ! i) \<noteq> key_of (slots tok ! i)"
  shows "session_slot tok ts = Some i \<and> (\<exists>al us po seed tok1. inject_proven E tok ks kh b al us po seed tok1) \<and>
     (injectable_target E (slots tok ! i) \<longrightarrow> m_policy (sl_meta (slots tok ! i)) AND SLOT_POLICY_INJECTABLE \<noteq> 0)"
proof -
  have "\<not> (tok' = tok \<or> (\<exists>ct n. tok' = snd (snd (hsm_object_decaps E tok ks kh ct n (Some 64) True))))"
    using decaps_session(4)[OF _ assms(1,2,5)] assms(6) by blast
  then obtain al us po seed tok1 sid r where p: "inject_proven E tok ks kh b al us po seed tok1"
    "session_info tok ts = Inr (sid, r)" "inject_commit E H tok1 ts al us po seed out = (stt, h, tok')"
    using inject_apply_cases[OF assms(4)] by blast
  obtain ct n where t1: "tok1 = snd (snd (hsm_object_decaps E tok ks kh ct n (Some 64) True))"
    using inject_proven_tok[OF p(1)] by blast
  note d = decaps_session[OF t1 assms(1,2)]
  note c = inject_commit_frame[OF p(3) assms(3) d(1)]
  have k: "key_of (slots tok1 ! i) = key_of (slots tok ! i)"
    "injectable_target E (slots tok1 ! i) = injectable_target E (slots tok ! i)"
    using d(4,5) assms(5) by blast+
  then have pol: "m_policy (sl_meta (slots tok1 ! i)) = m_policy (sl_meta (slots tok ! i))"
    by (simp add: key_of_def)
  have "i = unat sid" using c[of sid r] p(2) d(2) k assms(6) by (auto simp: only_slot_def)
  moreover from this have "injectable_target E (slots tok ! i) \<longrightarrow>
      m_policy (sl_meta (slots tok ! i)) AND SLOT_POLICY_INJECTABLE \<noteq> 0"
    using c[of sid r] p(2) d(2) k pol assms(6) by auto
  ultimately show ?thesis using p(1) info_target[OF p(2)] by blast
qed

section \<open>A key replaced\<close>

lemma install_finish_keys:
  "install_finish E s = (r, s') \<Longrightarrow> sl_pk s' = sl_pk s \<and> sl_sk s' = sl_sk s \<and> sl_seed s' = sl_seed s \<and>
     sl_has_seed s' = sl_has_seed s"
  by (auto simp: install_finish_def split: prod.splits if_splits dest: slot_reseal_result)

text \<open>The slot holds the key of the seed: its public key, and the seed or the private key as the policy says.\<close>

definition holds_key_of :: "env \<Rightarrow> pqc_alg \<Rightarrow> u32 \<Rightarrow> bytes \<Rightarrow> slot \<Rightarrow> bool" where
  "holds_key_of E al po seed s \<longleftrightarrow>
     (\<exists>pk sk. (\<exists>w w' :: hsm_token.
          pqc_keypair_from_seed E al (Some seed) (length seed) True True w = (Inr (pk, sk), w')) \<and>
        sl_pk s = Some pk \<and>
        (if po AND SLOT_POLICY_SEED_STORAGE \<noteq> 0 then sl_has_seed s \<and> sl_seed s = buf_write 64 seed \<and> sl_sk s = None
         else sl_sk s = Some sk))"

lemma create_from_seed:
  assumes "create_locked E s al us po (Some seed) (length seed) SLOT_EV_LOAD (w :: hsm_token) = (Inr k, s', w')"
  shows "holds_key_of E al po seed s'"
proof -
  obtain s1 info w1 where i: "install_software E s1 al info us po (Some seed) (length seed) w = (Inr k, s', w1)"
    "pqc_alg_info al = Some info"
    using assms by (auto simp: create_locked_def install_key_def split: if_splits prod.splits sum.splits option.splits)
  obtain pk sk and w3 w4 :: hsm_token where g: "length seed = ai_seed_len info"
    "pqc_keypair_from_seed E al (Some seed) (ai_seed_len info) True True w3 = (Inr (pk, sk), w4)"
    "install_finish E (install_sw al us po pk sk seed s1) = (Inr k, s')"
    using i(1) by (auto simp: install_software_def split: if_splits prod.splits sum.splits)
  have "sl_pk s' = Some pk" "if po AND SLOT_POLICY_SEED_STORAGE \<noteq> 0
      then sl_has_seed s' \<and> sl_seed s' = buf_write 64 seed \<and> sl_sk s' = None else sl_sk s' = Some sk"
    using install_finish_keys[OF g(3)] by (simp_all add: install_sw_def Let_def)
  then show ?thesis using g(2) unfolding holds_key_of_def g(1) by blast
qed

text \<open>A successful load into a slot.\<close>

definition freshly_loaded ::
    "env \<Rightarrow> pqc_alg \<Rightarrow> u32 \<Rightarrow> u32 \<Rightarrow> bytes \<Rightarrow> u32 \<Rightarrow> u64 \<Rightarrow> slot \<Rightarrow> bool" where
  "freshly_loaded E al us po seed gen k s \<longleftrightarrow>
     st_of s = SLOT_ST_LOADED \<and> sealed E s \<and> m_alg (sl_meta s) = al \<and> m_usage (sl_meta s) = us \<and>
     m_policy (sl_meta s) = po \<and> m_generation (sl_meta s) = gen \<and> k = make_handle s \<and>
     holds_key_of E al po seed s"

lemma load_seed_fresh:
  assumes "hsm_slot_load_seed E H tok sess al us po (Some seed) (length seed) out = (HSM_OK, h, tok')"
    and "hook_ok H" "seal_total E" "session_info tok sess = Inr (sid, r)"
  shows "\<exists>k. h = Some k \<and> st_of (slots tok ! unat sid) = SLOT_ST_EMPTY \<and> unat sid < length (slots tok) \<and>
     freshly_loaded E al us po seed (slot_gen (unat sid) tok) k (slots tok' ! unat sid)"
proof -
  have c0: "create_object E H tok sess al us po (Some seed) (length seed) SLOT_EV_LOAD out = (HSM_OK, h, tok')"
    using load_seed_create[OF assms(1)] by simp
  obtain s v s' tok1 where c: "slot_at tok sid = Some s"
    "create_locked E s al us po (Some seed) (length seed) SLOT_EV_LOAD tok = (v, s', tok1)"
    "(\<exists>e. v = Inl e) \<and> h = None \<or> (\<exists>k. v = Inr k \<and> h = Some k)" "slots tok' = (slots tok)[unat sid := s']"
    using create_shape[OF c0 assms(2)] assms(4) by auto
  have "v \<noteq> Inl e" for e
    using c0 c(1,2) assms(4) create_locked_cases[OF c(2) assms(3)]
    by (auto simp: create_object_def res_status_def require_role_def
        split: option.splits if_splits prod.splits dest: commit_status)
  then obtain k where k: "v = Inr k" "h = Some k" using c(3) by blast
  have s: "unat sid < length (slots tok)" "s = slots tok ! unat sid" using c(1) by (simp_all add: slot_at_Some)
  have "st_of s = SLOT_ST_EMPTY \<and> k = make_handle s' \<and>
      installed al us po (set_meta (m_state_update (\<lambda>_. SLOT_ST_LOADED)) s) s' \<and> sealed E s'"
    using create_locked_cases[OF c(2) assms(3)] k(1) by auto
  moreover have "holds_key_of E al po seed s'" using create_from_seed c(2) k(1) by blast
  ultimately show ?thesis
    using k(2) s c(4) by (auto simp: freshly_loaded_def installed_def key_meta_def slot_gen_def)
qed

lemma load_seed_inv:
  assumes "hsm_slot_load_seed E H tok sess al us po (Some seed) (length seed) out = (stt, h, tok')"
    and "tok_inv tok" "seal_total E" "hook_ok H"
  shows "tok_inv tok'"
  using tok_step_inv[of "(E, H)" "Load_Seed sess al us po (Some seed) (length seed) out" tok] assms
  by (simp add: tok_step_def good_env_def)

lemma destroy_tok_inv:
  assumes "hsm_object_destroy E H tok sess h = (stt, tok')" "tok_inv tok" "seal_total E" "hook_ok H"
  shows "tok_inv tok'"
  using tok_step_inv[of "(E, H)" "Destroy sess h" tok] assms by (simp add: tok_step_def good_env_def)

text \<open>A commit that reports success: the new key is in, and the handle of the old one is dead.\<close>

lemma inject_commit_ok:
  assumes "inject_commit E H tok ts al us po seed out = (HSM_OK, h, tok')" "hook_ok H" "tok_inv tok" "seal_total E"
    and "session_info tok ts = Inr (sid, r)"
  defines "s \<equiv> slots tok ! unat sid"
  shows "\<exists>k. h = Some k \<and>
     freshly_loaded E al us po seed
       (m_generation (sl_meta s) + (if injectable_target E s then 1 else 0)) k (slots tok' ! unat sid) \<and>
     (injectable_target E s \<longrightarrow> dead_handle E H tok' (make_handle s))"
proof -
  note ft = find_target_exact[OF assms(3,5)]
  have g: "slot_gen (unat sid) tok = m_generation (sl_meta s)" using ft(1) by (simp add: slot_gen_def s_def)
  show ?thesis
  proof (cases "injectable_target E s")
    case False
    then have "hsm_slot_load_seed E H tok ts al us po (Some seed) (length seed) out = (HSM_OK, h, tok')"
      using assms(1) ft(2)[of E] by (simp add: inject_commit_def s_def)
    then show ?thesis using load_seed_fresh[OF _ assms(2,4,5)] False g by fastforce
  next
    case True
    then obtain tok1 where d: "hsm_object_destroy E H tok ts (make_handle s) = (HSM_OK, tok1)"
      and l: "hsm_slot_load_seed E H tok1 ts al us po (Some seed) (length seed) out = (HSM_OK, h, tok')"
      using assms(1) ft(2)[of E]
      by (auto simp: inject_commit_def s_def split: if_splits prod.splits)
    have inv1: "tok_inv tok1" using destroy_tok_inv[OF d assms(3,4,2)] .
    have id: "m_slot_id (sl_meta s) = sid" using slot_facts(3)[OF assms(3) ft(1)] by (simp add: s_def)
    obtain sid' where "handle_slot (make_handle s) = sid' + 1"
      "slot_gen (unat sid') tok1 = handle_gen (make_handle s) + 1" "unat sid' < length (slots tok1)"
      using destroy_bumps[OF assms(2) d assms(3)] by blast
    then have g1: "slot_gen (unat sid) tok1 = m_generation (sl_meta s) + 1" "unat sid < length (slots tok1)"
      using id by (simp_all add: make_handle_parts)
    have ses: "session_info tok1 ts = Inr (sid, r)" using destroy_frame(2)[OF assms(2) d] assms(5) by simp
    obtain k where k: "h = Some k" "freshly_loaded E al us po seed (slot_gen (unat sid) tok1) k (slots tok' ! unat sid)"
      using load_seed_fresh[OF l assms(2,4) ses] by blast
    have n: "unat sid < length (slots tok')"
      using load_seed_only_slot[OF assms(2) l] g1(2) by (simp add: only_slot_def)
    have "slot_gen (unat sid) tok' \<noteq> handle_gen (make_handle s)"
      using k(2) g1(1) n by (simp add: freshly_loaded_def slot_gen_def make_handle_parts)
    then have "dead_handle E H tok' (make_handle s)"
      using stale_handle_dead[OF load_seed_inv[OF l inv1 assms(4,2)] _ n] id by (simp add: make_handle_parts)
    then show ?thesis using k g1 True by simp
  qed
qed

text \<open>
  when hsm\_inject\_apply reports success, the blob was authenticated, the slot of the target
  session is LOADED and sealed with exactly the algorithm, usage and policy of the header and holds
  the key of exactly the wrapped seed, the handle returned is that slot's, and the handle of a key
  that was there before is dead.
\<close>

theorem inject_installs:
  assumes "tok_inv tok" "seal_total E" "hook_ok H" "session_info tok ts = Inr (sid, r)"
    and "hsm_inject_apply E H (Some tok) ks kh ts (Some b) (length b) out = (HSM_OK, h, Some tok')"
  shows "\<exists>al us po seed tok1 k gen. inject_proven E tok ks kh b al us po seed tok1 \<and> h = Some k \<and>
     freshly_loaded E al us po seed gen k (slots tok' ! unat sid) \<and>
     (injectable_target E (slots tok ! unat sid) \<longrightarrow>
        dead_handle E H tok' (make_handle (slots tok ! unat sid)))"
proof -
  obtain al us po seed tok1 where p: "inject_proven E tok ks kh b al us po seed tok1"
    "inject_commit E H tok1 ts al us po seed out = (HSM_OK, h, tok')"
    using inject_apply_cases[OF assms(5)] by blast
  obtain ct n where t1: "tok1 = snd (snd (hsm_object_decaps E tok ks kh ct n (Some 64) True))"
    using inject_proven_tok[OF p(1)] by blast
  note d = decaps_session[OF t1 assms(1,2)]
  note i = find_target_exact(1)[OF assms(1,4)]
  have k: "key_of (slots tok1 ! unat sid) = key_of (slots tok ! unat sid)"
    "injectable_target E (slots tok1 ! unat sid) = injectable_target E (slots tok ! unat sid)"
    using d(4,5) i by blast+
  have "m_slot_id (sl_meta (slots tok1 ! unat sid)) = m_slot_id (sl_meta (slots tok ! unat sid))"
    using slot_facts(3)[OF d(1)] slot_facts(3)[OF assms(1)] i d(3) by simp
  then have "make_handle (slots tok1 ! unat sid) = make_handle (slots tok ! unat sid)"
    using k(1) by (simp add: make_handle_def key_of_def)
  then show ?thesis
    using inject_commit_ok[OF p(2) assms(3) d(1) assms(2), of sid r] d(2) assms(4) p(1) k(2) by metis
qed

section \<open>From the sender to the device\<close>

text \<open>What injection needs of the key encapsulation: both sides end with the same secret.\<close>

definition kem_agrees :: "env \<Rightarrow> pqc_alg \<Rightarrow> bytes \<Rightarrow> bytes \<Rightarrow> bool" where
  "kem_agrees E ka pk sk \<longleftrightarrow>
     (\<exists>fe fd. has_be E be_encaps = Some fe \<and> has_be E be_decaps = Some fd \<and>
        (\<forall>t t' ct ss. fe ka pk t = Inr (ct, ss) \<longrightarrow>
           (\<exists>kem. pqc_alg_info ka = Some kem \<and> length ct = ai_ct_len kem) \<and> fd ka sk ct t' = Inr ss))"

text \<open>A slot ready to decapsulate with the software key \<open>sk\<close>.\<close>

definition kem_ready :: "env \<Rightarrow> hsm_token \<Rightarrow> u64 \<Rightarrow> u64 \<Rightarrow> pqc_alg \<Rightarrow> bytes \<Rightarrow> bool" where
  "kem_ready E tok ks kh ka sk \<longleftrightarrow> st_state tok = ST_PASSED \<and>
     (\<exists>sid s. session_info tok ks = Inr (sid, HSM_ROLE_USER) \<and> slot_at tok sid = Some s \<and>
        st_of s = SLOT_ST_LOADED \<and> check_handle E s kh = HSM_OK \<and>
        m_usage (sl_meta s) AND KEY_USAGE_DECAP \<noteq> 0 \<and> m_alg (sl_meta s) = ka \<and>
        \<not> sl_hw_resident s \<and> sl_sk s = Some sk)"

lemma decaps_ready:
  assumes "kem_ready E tok ks kh ka sk" "pqc_alg_info ka = Some kem" "ai_kind kem = PQC_KIND_KEM"
    and "has_be E be_decaps = Some fd" "fd ka sk ct (tick tok) = Inr ss" "seal_total E"
  shows "\<exists>tok1. hsm_object_decaps E tok ks kh (Some ct) (ai_ct_len kem) (Some 64) True =
     (HSM_OK, Some (buf_write (ai_ss_len kem) ss), tok1)"
proof -
  obtain sid s where s: "session_info tok ks = Inr (sid, HSM_ROLE_USER)" "slot_at tok sid = Some s"
    "st_of s = SLOT_ST_LOADED" "check_handle E s kh = HSM_OK" "m_usage (sl_meta s) AND KEY_USAGE_DECAP \<noteq> 0"
    "m_alg (sl_meta s) = ka" "\<not> sl_hw_resident s" "sl_sk s = Some sk" "st_state tok = ST_PASSED"
    using assms(1) by (auto simp: kem_ready_def)
  have ssl: "ai_ss_len kem \<le> 64" using assms(2) by (cases ka) auto
  have b: "begin_use E s kh KEY_USAGE_DECAP tok = (Inr (Some sk), in_use s, tok)"
    using s by (simp add: begin_use_def fsm_apply_simps borrow_secret_def)
  have d: "pqc_decaps E ka (Some sk) (Some ct) True tok = (Inr ss, next_tick tok)"
    using s(9) assms by (simp add: pqc_decaps_def prologue_def pqc_self_test_passed_def)
  have "fst (end_use E (in_use s) HSM_OK (next_tick tok)) = HSM_OK"
    by (simp add: end_use_def Let_def case_prod_beta slot_reseal_total[OF assms(6)])
  then obtain s2 w2 where e: "end_use E (in_use s) HSM_OK (next_tick tok) = (HSM_OK, s2, w2)"
    by (metis prod.collapse)
  have "decaps_locked E s kh (Some ct) (ai_ct_len kem) (Some 64) True tok =
      (True, HSM_OK, Some (buf_write (ai_ss_len kem) ss), s2, w2)"
    using b d e s assms(2) ssl by (simp add: decaps_locked_def)
  moreover have "require_role tok ks HSM_ROLE_USER = Inr sid" using s(1) require_role_Inr by blast
  ultimately show ?thesis using s(2) by (simp add: hsm_object_decaps_def)
qed

lemma inject_build_cases:
  assumes "hsm_inject_build E ka (Some pk) pl al us po (Some seed) (length seed) cap ol w = (Inr b, w')"
  shows "\<exists>kem key ct ss cek wb w1 n. pqc_alg_info ka = Some kem \<and> pqc_alg_info al = Some key \<and>
     ai_kind kem = PQC_KIND_KEM \<and> length seed = ai_seed_len key \<and>
     pqc_encaps E ka (Some pk) True True w = (Inr (ct, ss), w1) \<and>
     derive_cek E (buf_write (ai_ss_len kem) ss) (ai_ss_len kem) = Some cek \<and>
     fst (pqc_wrap E (Some cek) PQC_KEK_LEN (Some (inject_header ka al us po (ai_ct_len kem))) IJ_HDR_LEN
       (Some seed) (length seed) (Some n) True w1) = Some wb \<and>
     b = inject_header ka al us po (ai_ct_len kem) @ buf_write (ai_ct_len kem) ct @ wb"
proof -
  obtain kem key n where k: "pqc_alg_info ka = Some kem" "pqc_alg_info al = Some key" "cap = Some n"
    "ai_kind kem = PQC_KIND_KEM" "ol" "pl = ai_pk_len kem" "length seed = ai_seed_len key"
    "\<not> n < hsm_inject_blob_len ka (length seed)"
    using assms by (auto simp: hsm_inject_build_def split: option.splits if_splits)
  obtain r w1 where e: "pqc_encaps E ka (Some pk) True True w = (r, w1)" by fastforce
  then obtain ct ss where r: "r = Inr (ct, ss)"
    using assms k by (cases r) (auto simp: hsm_inject_build_def)
  obtain cek where c: "derive_cek E (buf_write (ai_ss_len kem) ss) (ai_ss_len kem) = Some cek"
    using assms k e r by (cases "derive_cek E (buf_write (ai_ss_len kem) ss) (ai_ss_len kem)")
      (auto simp: hsm_inject_build_def Let_def)
  obtain wb w2 where wr: "pqc_wrap E (Some cek) PQC_KEK_LEN (Some (inject_header ka al us po (ai_ct_len kem)))
      IJ_HDR_LEN (Some seed) (length seed) (Some (n - IJ_HDR_LEN - ai_ct_len kem)) True w1 = (wb, w2)" by fastforce
  have "(case wb of None \<Rightarrow> (Inl HSM_ERR_CRYPTO, w2)
      | Some x \<Rightarrow> (Inr (inject_header ka al us po (ai_ct_len kem) @ buf_write (ai_ct_len kem) ct @ x), w2)) =
      (Inr b, w')"
    using assms k e r c wr by (simp add: hsm_inject_build_def Let_def)
  then have "\<exists>x. wb = Some x \<and> b = inject_header ka al us po (ai_ct_len kem) @ buf_write (ai_ct_len kem) ct @ x"
    by (cases wb) simp_all
  then obtain x where x: "wb = Some x"
    "b = inject_header ka al us po (ai_ct_len kem) @ buf_write (ai_ct_len kem) ct @ x" by blast
  have "fst (pqc_wrap E (Some cek) PQC_KEK_LEN (Some (inject_header ka al us po (ai_ct_len kem)))
      IJ_HDR_LEN (Some seed) (length seed) (Some (n - IJ_HDR_LEN - ai_ct_len kem)) True w1) = Some x"
    using wr x(1) by simp
  then show ?thesis using k(1,2,4,7) e[unfolded r] c x(2) by blast
qed

lemma wrap_unwrap:
  assumes "fst (pqc_wrap E (Some cek) (length cek) (Some aad) (length aad) (Some pt) (length pt) cap ol w) = Some wb"
    and "gcm_ok E" "length pt \<le> length buf"
  shows "fst (pqc_unwrap E (Some cek) (length cek) (Some aad) (length aad) (Some wb) (length wb) (Some buf) True) = Some pt"
proof -
  obtain nonce where "pqc_wrap_with_nonce E (Some cek) (length cek) (Some aad) (length aad) (Some pt)
      (length pt) (Some nonce) cap ol = Some wb"
    using assms(1) by (auto simp: pqc_wrap_def split: prod.splits if_splits)
  then show ?thesis using unwrap_wrap[OF _ assms(2,3)] by simp
qed

lemma inject_open_ready:
  assumes "hsm_object_decaps E tok ks kh (Some (slice IJ_HDR_LEN n b)) n (Some 64) True = (HSM_OK, Some ss, tok1)"
    and "derive_cek E ss (length ss) = Some cek"
    and "fst (pqc_unwrap E (Some cek) PQC_KEK_LEN (Some (take IJ_HDR_LEN b)) IJ_HDR_LEN
       (Some (drop (IJ_HDR_LEN + n) b)) (length b - IJ_HDR_LEN - n) (Some (replicate 64 0)) True) = Some seed"
    and "length seed = ai_seed_len key" "validate_usage al us = HSM_OK"
  shows "inject_open E tok ks kh b n al key us = (Inr seed, tok1)"
  using assms by (simp add: inject_open_def check_usage_eq del: length_drop)

lemma inject_delivered:
  assumes "hsm_inject_build E ka (Some pk) (length pk) al us po (Some seed) (length seed) cap True w = (Inr b, w')"
    and "kem_agrees E ka pk sk" "gcm_ok E" "seal_total E" "kem_ready E tok ks kh ka sk"
    and "session_info tok ts = Inr (sid, r)" "validate_usage al us = HSM_OK"
  shows "\<exists>tok1 ct ss. hsm_object_decaps E tok ks kh (Some ct) (length ct) (Some 64) True = (HSM_OK, Some ss, tok1) \<and>
     hsm_inject_apply E H (Some tok) ks kh ts (Some b) (length b) out =
       (case inject_commit E H tok1 ts al us po seed out of (stt, h, tok2) \<Rightarrow> (stt, h, Some tok2))"
proof -
  obtain kem key ct ss cek wb n w1 where k: "pqc_alg_info ka = Some kem" "pqc_alg_info al = Some key"
    "ai_kind kem = PQC_KIND_KEM" "length seed = ai_seed_len key"
    "pqc_encaps E ka (Some pk) True True w = (Inr (ct, ss), w1)"
    "derive_cek E (buf_write (ai_ss_len kem) ss) (ai_ss_len kem) = Some cek"
    "fst (pqc_wrap E (Some cek) PQC_KEK_LEN (Some (inject_header ka al us po (ai_ct_len kem))) IJ_HDR_LEN
       (Some seed) (length seed) (Some n) True w1) = Some wb"
    "b = inject_header ka al us po (ai_ct_len kem) @ buf_write (ai_ct_len kem) ct @ wb"
    using inject_build_cases[OF assms(1)] by blast
  obtain fe fd where f: "has_be E be_encaps = Some fe" "has_be E be_decaps = Some fd"
    "\<And>t t' ct ss. fe ka pk t = Inr (ct, ss) \<Longrightarrow>
       (\<exists>kem. pqc_alg_info ka = Some kem \<and> length ct = ai_ct_len kem) \<and> fd ka sk ct t' = Inr ss"
    using assms(2) by (auto simp: kem_agrees_def)
  have "\<exists>t. fe ka pk t = Inr (ct, ss)"
    using k(5) f(1) by (auto simp: pqc_encaps_def prologue_def split: prod.splits if_splits option.splits)
  then have ct: "length ct = ai_ct_len kem" "fd ka sk ct (tick tok) = Inr ss" using f(3) k(1) by fastforce+
  have b: "b = inject_header ka al us po (ai_ct_len kem) @ ct @ wb"
    using k(8) ct(1) by (simp add: buf_write_def)
  let ?ss = "buf_write (ai_ss_len kem) ss"
  obtain tok1 where d: "hsm_object_decaps E tok ks kh (Some ct) (ai_ct_len kem) (Some 64) True = (HSM_OK, Some ?ss, tok1)"
    using decaps_ready[OF assms(5) k(1,3) f(2) ct(2) assms(4)] by blast
  have kl: "length cek = PQC_KEK_LEN" using derive_cek_length[OF k(6)] .
  have sl: "length seed \<le> length (replicate 64 (0 :: byte))"
    using pqc_alg_info_bounds(7)[OF k(2)] k(4) by simp
  let ?h = "inject_header ka al us po (ai_ct_len kem)"
  have parts: "slice IJ_HDR_LEN (ai_ct_len kem) b = ct" "take IJ_HDR_LEN b = ?h"
    "drop (IJ_HDR_LEN + ai_ct_len kem) b = wb" "length b - IJ_HDR_LEN - ai_ct_len kem = length wb"
    "length b = IJ_HDR_LEN + ai_ct_len kem + length wb"
    using ct(1) by (simp_all add: b slice_def)
  have u: "fst (pqc_unwrap E (Some cek) PQC_KEK_LEN (Some ?h) IJ_HDR_LEN (Some wb) (length wb)
      (Some (replicate 64 0)) True) = Some seed"
    using wrap_unwrap[OF _ assms(3) sl, of cek ?h] k(7) kl by (simp only: length_inject_header)
  have o: "inject_open E tok ks kh b (ai_ct_len kem) al key us = (Inr seed, tok1)"
    using inject_open_ready[of E tok ks kh "ai_ct_len kem" b ?ss tok1 cek seed key al us] d k(4,6) u assms(7)
    by (simp only: parts) simp
  have ctn: "unat (of_nat (ai_ct_len kem) :: u32) = ai_ct_len kem" using k(1) by (cases ka) auto
  have alg: "alg_of (alg_code ka) = ka" "alg_of (alg_code al) = al"
    using alg_of_code k(1,2) by simp_all
  have role: "\<exists>x. hsm_session_role tok ts True = Inr x" using assms(6) by (simp add: hsm_session_role_def)
  have "hsm_inject_apply E H (Some tok) ks kh ts (Some b) (length b) out =
       (case inject_commit E H tok1 ts al us po seed out of (stt, h, tok2) \<Rightarrow> (stt, h, Some tok2))"
    using role o parts(5) header_fields[of ka al us po "ai_ct_len kem" "ct @ wb", folded b] alg ctn k(1-3)
    by (auto simp: hsm_inject_apply_def Let_def)
  then show ?thesis using d ct(1) by metis
qed

text \<open>
  C10: what the sender builds for the public key of a ready KEM slot, the device commits: it runs the
  commit with exactly the algorithm, usage, policy and seed the sender chose, provided the usage
  fits the algorithm (which the sender's side does not check).
\<close>

theorem inject_delivers:
  assumes "hsm_inject_build E ka (Some pk) (length pk) al us po (Some seed) (length seed) cap True w = (Inr b, w')"
    and "kem_agrees E ka pk sk" "gcm_ok E" "seal_total E" "kem_ready E tok ks kh ka sk"
    and "session_info tok ts = Inr (sid, r)" "validate_usage al us = HSM_OK"
  shows "\<exists>tok1 ct ss. hsm_object_decaps E tok ks kh (Some ct) (length ct) (Some 64) True = (HSM_OK, Some ss, tok1) \<and>
     hsm_inject_apply E H (Some tok) ks kh ts (Some b) (length b) out =
       (case inject_commit E H tok1 ts al us po seed out of (stt, h, tok2) \<Rightarrow> (stt, h, Some tok2))"
  by (rule inject_delivered[OF assms])

section \<open>A key lost\<close>

lemma destroy_ready:
  assumes "session_info tok ts = Inr (sid, HSM_ROLE_USER)" "tok_inv tok" "seal_total E" "hook_ok H"
    and "injectable_target E (slots tok ! unat sid)" "unat sid < length (slots tok)"
    and "hsm_object_destroy E H tok ts (make_handle (slots tok ! unat sid)) = (stt, tok1)"
  shows "st_of (slots tok1 ! unat sid) = SLOT_ST_EMPTY \<and> no_key (slots tok1 ! unat sid)"
proof -
  let ?s = "slots tok ! unat sid"
  note f = slot_facts[OF assms(2,6)]
  have at: "slot_at tok sid = Some ?s" using assms(6) by (simp add: slot_at_def)
  obtain st0 s' where d: "destroy_locked E ?s (make_handle ?s) = (st0, s')" by fastforce
  have ch: "check_handle E ?s (make_handle ?s) = HSM_OK"
    using make_handle_good f(3,5) assms(5) by (simp add: injectable_target_def)
  let ?e = "set_meta (\<lambda>m. m\<lparr>m_alg := PQC_ALG_NONE, m_usage := 0, m_policy := 0,
      m_generation := m_generation m + 1\<rparr>)
      (slot_wipe_key_material (set_meta (m_state_update (\<lambda>_. SLOT_ST_EMPTY)) ?s))"
  have r: "slot_reseal E ?e = (st0, s')"
    using d ch assms(5) by (simp add: destroy_locked_def injectable_target_def fsm_apply_simps)
  obtain tag where "s' = ?e\<lparr>sl_meta_tag := tag\<rparr>" using slot_reseal_result[OF r] by blast
  then have e: "st_of s' = SLOT_ST_EMPTY" "no_key s'" by simp_all
  obtain st2 tok2 where c: "commit_security_state H st0 (set_slot sid s' tok) = (st2, tok2)" by fastforce
  have "require_role tok ts HSM_ROLE_USER = Inr sid" using assms(1) require_role_Inr by blast
  then have "slots tok1 = (slots tok)[unat sid := s']"
    using assms(7) at d c slots_commit[OF assms(4) c] by (auto simp: hsm_object_destroy_def)
  then show ?thesis using e assms(6) by simp
qed

text \<open>
  two conditions that can be seen before the commit are not looked at before it: a policy that the
  production profile denies, and a missing output pointer. With either, a loaded injectable key is
  destroyed and the load then fails, so the slot ends up EMPTY with no key at all.
\<close>

theorem inject_loses_key:
  assumes "tok_inv tok" "seal_total E" "hook_ok H" "session_info tok ts = Inr (sid, HSM_ROLE_USER)"
    and "injectable_target E (slots tok ! unat sid)"
    and "m_policy (sl_meta (slots tok ! unat sid)) AND SLOT_POLICY_INJECTABLE \<noteq> 0"
    and "policy_denied_by_profile E po \<or> \<not> out"
    and "inject_commit E H tok ts al us po seed out = (stt, h, tok')"
  shows "stt \<noteq> HSM_OK \<and> h = None \<and> st_of (slots tok' ! unat sid) = SLOT_ST_EMPTY \<and>
     no_key (slots tok' ! unat sid)"
proof -
  note ft = find_target_exact[OF assms(1,4)]
  obtain st1 tok1 where d: "hsm_object_destroy E H tok ts (make_handle (slots tok ! unat sid)) = (st1, tok1)"
    by fastforce
  have e: "st_of (slots tok1 ! unat sid) = SLOT_ST_EMPTY \<and> no_key (slots tok1 ! unat sid)"
    using destroy_ready[OF assms(4,1,2,3,5) ft(1) d] .
  have l: "st2 \<noteq> HSM_OK \<and> h2 = None \<and> t2 = tok1"
    if "hsm_slot_load_seed E H tok1 ts al us po (Some seed) (length seed) out = (st2, h2, t2)" for st2 h2 t2
    using that assms(7)
    by (auto simp: hsm_slot_load_seed_def create_object_def split: option.splits sum.splits if_splits
        dest: require_role_err)
  show ?thesis
    using assms(8,5,6) ft(2)[of E] d e l by (auto simp: inject_commit_def split: if_splits)
qed

section \<open>The fuse\<close>

datatype mfg_op =
    Mfg_Set bool
  | Mfg_Plain u64 pqc_alg u32 u32 "bytes option" nat bool

fun mfg_step :: "env \<times> hook \<Rightarrow> mfg_op \<Rightarrow> mfg \<times> hsm_token \<Rightarrow> mfg \<times> hsm_token" where
  "mfg_step e (Mfg_Set on) (g, tok) = (snd (hsm_inject_set_manufacturing_mode on g), tok)"
| "mfg_step e (Mfg_Plain sess al us po seed n out) (g, tok) =
     (g, snd (snd (hsm_inject_plaintext (fst e) (snd e) g tok sess al us po seed n out)))"

text \<open>Blown and off, and the token as it was.\<close>

definition fuse_inv :: "hsm_token \<Rightarrow> mfg \<times> hsm_token \<Rightarrow> bool" where
  "fuse_inv tok0 s \<longleftrightarrow> g_mfg_blown (fst s) \<and> \<not> g_mfg_mode (fst s) \<and> snd s = tok0"

interpretation mf: machine mfg_step "\<lambda>_. True" "\<lambda>_. True" "fuse_inv tok0" for tok0
proof unfold_locales
  fix e op s
  assume "fuse_inv tok0 s"
  then show "fuse_inv tok0 (mfg_step e op s)"
    by (cases s; cases op)
      (auto simp: fuse_inv_def hsm_inject_set_manufacturing_mode_def hsm_inject_plaintext_def)
qed

text \<open>
  once manufacturing mode has been switched off, it stays off for the life of the process: after
  any later calls, switching it on fails, and a plaintext injection is refused and none has changed
  the token.
\<close>

theorem fuse_stays_blown:
  assumes "hsm_inject_set_manufacturing_mode False g0 = (rc, g)" "fold (mfg_step e) ops (g, tok) = (g', tok')"
  shows "rc = 0 \<and> tok' = tok \<and> \<not> hsm_inject_manufacturing_mode g' \<and>
     hsm_inject_set_manufacturing_mode True g' = (-1, g') \<and>
     hsm_inject_plaintext E H g' tok' sess al us po seed n out = (HSM_ERR_POLICY, None, tok')"
proof -
  have "rc = 0" "fuse_inv tok (g, tok)"
    using assms(1) by (auto simp: hsm_inject_set_manufacturing_mode_def fuse_inv_def)
  moreover from this have "fuse_inv tok (g', tok')"
    using mf.run_inv[of ops tok "(g, tok)" e] assms(2) by (simp add: list.pred_True)
  ultimately show ?thesis
    by (simp add: fuse_inv_def hsm_inject_set_manufacturing_mode_def hsm_inject_plaintext_def
        hsm_inject_manufacturing_mode_def)
qed

end
