(* ===== verification/Example_Inject.thy ===== *)
theory Example_Inject
  imports Example_Store Inject_Props
begin

text \<open>
  Witnesses for key injection: a device whose slot 0 holds a signing key that may be replaced by an
  injection and whose slot 1 holds the injection key, both with a user session.
\<close>

definition ex_ij_slot :: slot where
  "ex_ij_slot = ex_key_slot\<lparr>sl_meta := ex_meta\<lparr>m_policy := SLOT_POLICY_INJECTABLE\<rparr>\<rparr>"

definition ex_kem_slot :: slot where
  "ex_kem_slot =
     (blank_slot 1)\<lparr>sl_meta := (blank_meta 1 1)\<lparr>m_alg := PQC_ALG_ML_KEM_512, m_usage := KEY_USAGE_DECAP,
          m_state := SLOT_ST_LOADED\<rparr>,
        sl_has_so_pin := True, sl_has_user_pin := True,
        sl_pk := Some (replicate 800 1), sl_sk := Some (replicate 1632 2)\<rparr>"

definition ex_kem_session :: session where
  "ex_kem_session = \<lparr>se_open = True, se_slot = 1, se_role = HSM_ROLE_USER, se_gen = 2\<rparr>"

definition ex_ij_tok :: hsm_token where
  "ex_ij_tok = ex_tok\<lparr>slots := [ex_seal ex_ij_slot, ex_seal ex_kem_slot],
     sessions := [ex_session HSM_ROLE_USER 1, ex_kem_session] @ replicate 14 blank_session\<rparr>"

text \<open>The handle of the injection key; its session has the id \<open>ex_so\<close>.\<close>

definition ex_kh :: u64 where "ex_kh = 0x100000002"

lemma ex_ij_simps [simp]:
  "slots ex_ij_tok = [ex_seal ex_ij_slot, ex_seal ex_kem_slot]" "audit ex_ij_tok = None"
  "\<not> persist_busy ex_ij_tok" "st_state ex_ij_tok = ST_PASSED"
  "session_info ex_ij_tok ex_user = Inr (0, HSM_ROLE_USER)"
  "session_info ex_ij_tok ex_so = Inr (1, HSM_ROLE_USER)"
  by (simp_all add: ex_ij_tok_def session_info_def sess_idx_def sess_gen_def ex_user_def ex_so_def
      MAX_SESSIONS_def ex_session_def ex_kem_session_def)

lemma ex_ij_slots [simp]:
  "st_of ex_ij_slot = SLOT_ST_LOADED" "m_policy (sl_meta ex_ij_slot) = SLOT_POLICY_INJECTABLE"
  "m_generation (sl_meta ex_ij_slot) = 1" "m_slot_id (sl_meta ex_ij_slot) = 0"
  "st_of ex_kem_slot = SLOT_ST_LOADED" "m_generation (sl_meta ex_kem_slot) = 1" "m_slot_id (sl_meta ex_kem_slot) = 1"
  "m_usage (sl_meta ex_kem_slot) = KEY_USAGE_DECAP" "m_alg (sl_meta ex_kem_slot) = PQC_ALG_ML_KEM_512"
  "\<not> sl_hw_resident ex_kem_slot" "sl_sk ex_kem_slot = Some (replicate 1632 2)"
  by (simp_all add: ex_ij_slot_def ex_kem_slot_def ex_meta_def blank_meta_def blank_slot_def)

lemma ex_ij_inv: "slot_inv 0 (ex_seal ex_ij_slot)" "slot_inv 1 (ex_seal ex_kem_slot)"
proof -
  have "wf_meta (ex_meta\<lparr>m_policy := SLOT_POLICY_INJECTABLE\<rparr>)" using ex_meta_wf by (simp add: wf_meta_def)
  then have "slot_inv 0 (ex_ij_slot\<lparr>sl_meta_tag := replicate 32 0\<rparr>)"
    by (simp add: slot_inv_def ex_ij_slot_def ex_key_slot_def wf_arrays_def blank_slot_def key_fits_def
        key_ok_def SLOT_META_TAG_LEN_def ex_meta_def blank_meta_def validate_usage_def usage_bits
        HSM_PIN_MAX_FAILS_def policy_bits)
  then show "slot_inv 0 (ex_seal ex_ij_slot)" by simp
  have "wf_meta ((blank_meta 1 1)\<lparr>m_alg := PQC_ALG_ML_KEM_512, m_usage := KEY_USAGE_DECAP, m_state := SLOT_ST_LOADED\<rparr>)"
    by (simp add: wf_meta_def blank_meta_def SLOT_LABEL_MAX_def)
  then have "slot_inv 1 (ex_kem_slot\<lparr>sl_meta_tag := replicate 32 0\<rparr>)"
    by (simp add: slot_inv_def ex_kem_slot_def wf_arrays_def blank_slot_def key_fits_def
        key_ok_def SLOT_META_TAG_LEN_def blank_meta_def validate_usage_def usage_bits HSM_PIN_MAX_FAILS_def)
  then show "slot_inv 1 (ex_seal ex_kem_slot)" by simp
qed

lemma ex_ij_tok_inv: "tok_inv ex_ij_tok"
proof -
  have s: "sessions ex_ij_tok = [ex_session HSM_ROLE_USER 1, ex_kem_session] @ replicate 14 blank_session"
    by (simp add: ex_ij_tok_def)
  have "sl_has_user_pin ex_ij_slot" "sl_has_user_pin ex_kem_slot"
    by (simp_all add: ex_ij_slot_def ex_kem_slot_def)
  then show ?thesis
    using ex_ij_inv s
    by (simp add: tok_inv_def dev_inv_def MAX_SESSIONS_def All_less_Suc session_inv_def ex_session_def
        blank_session_def ex_kem_session_def numeral_2_eq_2 del: ex_seal_parts(2))
qed

lemma ex_target: "injectable_target ex_env (ex_seal ex_ij_slot)"
  by (simp add: injectable_target_def)

section \<open>The fuse and the lost key\<close>

lemma fuse_stays_blown_witness:
  "hsm_inject_plaintext ex_env ex_hook
     (fst (fold (mfg_step (ex_env, ex_hook)) [Mfg_Set True, Mfg_Plain ex_user PQC_ALG_ML_DSA_44 4 0 None 0 True]
        (snd (hsm_inject_set_manufacturing_mode False mfg_boot), ex_ij_tok)))
     ex_ij_tok ex_user PQC_ALG_ML_DSA_44 4 0 None 0 True = (HSM_ERR_POLICY, None, ex_ij_tok)"
proof -
  let ?ops = "[Mfg_Set True, Mfg_Plain ex_user PQC_ALG_ML_DSA_44 4 0 None 0 True]"
  let ?g = "snd (hsm_inject_set_manufacturing_mode False mfg_boot)"
  obtain g' tok' where r: "fold (mfg_step (ex_env, ex_hook)) ?ops (?g, ex_ij_tok) = (g', tok')"
    by (metis surj_pair)
  show ?thesis
    using fuse_stays_blown[OF prod.collapse[symmetric] r, where E = ex_env and H = ex_hook and sess = ex_user
        and al = PQC_ALG_ML_DSA_44 and us = 4 and po = 0 and seed = None and n = 0 and out = True] r
    by (metis fst_conv)
qed

lemma inject_loses_key_witness:
  "\<exists>stt h tok'. inject_commit ex_env ex_hook ex_ij_tok ex_user PQC_ALG_ML_DSA_44 KEY_USAGE_SIGN 0
     (replicate 32 6) False = (stt, h, tok') \<and> stt \<noteq> HSM_OK \<and> no_key (slots tok' ! 0)"
proof -
  obtain stt h tok' where c: "inject_commit ex_env ex_hook ex_ij_tok ex_user PQC_ALG_ML_DSA_44 KEY_USAGE_SIGN 0
     (replicate 32 6) False = (stt, h, tok')" by (metis prod_cases3)
  show ?thesis
    using inject_loses_key[OF ex_ij_tok_inv ex_seal_total ex_hook_ok _ _ _ _ c, of 0] ex_target c
    by (simp add: policy_bits)
qed

section \<open>An injection\<close>

lemma ex_kem: "kem_agrees ex_env PQC_ALG_ML_KEM_512 (replicate 800 1) (replicate 1632 2)"
  by (simp add: kem_agrees_def)

lemma ex_kem_ready: "kem_ready ex_env ex_ij_tok ex_so ex_kh PQC_ALG_ML_KEM_512 (replicate 1632 2)"
  by (simp add: kem_ready_def slot_at_def check_handle_def ex_kh_def usage_bits)

lemma ex_cek: "derive_cek ex_env (replicate 32 4) 32 = Some (replicate 32 0)"
  by (simp add: derive_cek_def pqc_kdf_def pqc_kmac256_def PQC_KEK_LEN_def buf_write_def)

lemma ex_inject_wrap:
  "\<exists>wb. fst (pqc_wrap ex_env (Some (replicate 32 0)) PQC_KEK_LEN (Some (inject_header ka al us po n)) IJ_HDR_LEN
     (Some (replicate 32 6)) 32 (Some 2048) True w) = Some wb"
  by (simp add: pqc_wrap_def pqc_wrap_with_nonce_def wrap_consts IJ_HDR_LEN_def pqc_wrap_blob_len_def
      INT_MAX_def gcm_seal_def Let_def)

abbreviation ex_blob_of :: "bytes \<Rightarrow> bool" where
  "ex_blob_of b \<equiv> \<exists>w'. hsm_inject_build ex_env PQC_ALG_ML_KEM_512 (Some (replicate 800 1))
     (length (replicate 800 (1 :: byte))) PQC_ALG_ML_DSA_44 KEY_USAGE_SIGN 0 (Some (replicate 32 6))
     (length (replicate 32 (6 :: byte))) (Some 2848) True ex_world = (Inr b, w')"

lemma ex_builds: "\<exists>b. ex_blob_of b"
proof -
  let ?h = "inject_header PQC_ALG_ML_KEM_512 PQC_ALG_ML_DSA_44 KEY_USAGE_SIGN 0 768"
  obtain wb w2 where "pqc_wrap ex_env (Some (replicate 32 0)) PQC_KEK_LEN (Some ?h) IJ_HDR_LEN
     (Some (replicate 32 6)) 32 (Some 2048) True (next_tick ex_world) = (Some wb, w2)"
    using ex_inject_wrap[of PQC_ALG_ML_KEM_512 PQC_ALG_ML_DSA_44 KEY_USAGE_SIGN 0 768 "next_tick ex_world"]
    by (metis prod.collapse)
  moreover have "st_state ex_world = ST_PASSED" by (simp add: ex_world_def)
  ultimately show ?thesis
    by (simp add: hsm_inject_build_def hsm_inject_blob_len_def pqc_encaps_def prologue_def
        pqc_self_test_passed_def Let_def ex_cek IJ_HDR_LEN_def pqc_wrap_blob_len_def PWRP_OVERHEAD_def
        wrap_consts)
qed

lemma ex_decaps_frame:
  assumes "hsm_object_decaps ex_env ex_ij_tok ex_so ex_kh (Some ct) n (Some 64) True = (HSM_OK, Some ss, tok1)"
  shows "slots tok1 ! 0 = ex_seal ex_ij_slot \<and> length (slots tok1) = 2 \<and> audit tok1 = None \<and>
     \<not> persist_busy tok1 \<and> st_state tok1 = ST_PASSED"
proof -
  have r: "require_role ex_ij_tok ex_so HSM_ROLE_USER = Inr 1" "slot_at ex_ij_tok 1 = Some (ex_seal ex_kem_slot)"
    by (simp_all add: require_role_def slot_at_def)
  have c: "check_handle ex_env (ex_seal ex_kem_slot) ex_kh = HSM_OK"
    by (simp add: check_handle_def ex_kh_def)
  have b: "begin_use ex_env (ex_seal ex_kem_slot) ex_kh KEY_USAGE_DECAP ex_ij_tok =
      (Inr (Some (replicate 1632 2)), in_use (ex_seal ex_kem_slot), ex_ij_tok)"
    using c by (simp add: begin_use_def fsm_apply_simps borrow_secret_def usage_bits)
  have n: "n = 768"
    using assms by (auto simp: hsm_object_decaps_def r decaps_locked_def b Let_def end_use_def split: if_splits)
  have d: "pqc_decaps ex_env PQC_ALG_ML_KEM_512 (Some (replicate 1632 2)) (Some ct) True ex_ij_tok =
      (Inr (replicate 32 4), next_tick ex_ij_tok)"
    by (simp add: pqc_decaps_def prologue_def pqc_self_test_passed_def)
  obtain s2 where "decaps_locked ex_env (ex_seal ex_kem_slot) ex_kh (Some ct) 768 (Some 64) True ex_ij_tok =
      (True, HSM_OK, Some (buf_write 32 (replicate 32 4)), s2, next_tick (next_tick ex_ij_tok))"
    by (simp add: decaps_locked_def b d end_use_def Let_def)
  then have "tok1 = set_slot 1 s2 (next_tick (next_tick ex_ij_tok))"
    using assms by (simp add: hsm_object_decaps_def r n next_tick_def)
  then show ?thesis by (simp add: set_slot_def next_tick_def)
qed

lemma ex_loads:
  assumes "session_info tok ex_user = Inr (0, HSM_ROLE_USER)" "slot_at tok 0 = Some (ex_seal s)"
    "st_of s = SLOT_ST_EMPTY" "audit tok = None" "\<not> persist_busy tok" "st_state tok = ST_PASSED"
  shows "\<exists>h tok'. hsm_slot_load_seed ex_env ex_hook tok ex_user PQC_ALG_ML_DSA_44 KEY_USAGE_SIGN 0
     (Some (replicate 32 6)) (length (replicate 32 (6 :: byte))) True = (HSM_OK, h, tok')"
proof -
  have c: "\<exists>h s' w'. create_locked ex_env (ex_seal s) PQC_ALG_ML_DSA_44 KEY_USAGE_SIGN 0
      (Some (replicate 32 6)) 32 SLOT_EV_LOAD tok = (Inr h, s', w') \<and> audit w' = None \<and> \<not> persist_busy w'"
    using assms(3-6)
    by (simp add: create_locked_def fsm_apply_simps install_key_def validate_usage_def usage_bits
        install_software_def pqc_secure_alloc_def INT_MAX_def pqc_keypair_from_seed_def
        pqc_self_test_passed_def install_finish_def next_tick_def)
  have "require_role tok ex_user HSM_ROLE_USER = Inr 0" using assms(1) by (simp add: require_role_def)
  then show ?thesis
    using c assms(2)
    by (auto simp: hsm_slot_load_seed_def create_object_def res_status_def policy_denied_by_profile_def)
qed

lemma ex_commits:
  assumes "slots tok ! 0 = ex_seal ex_ij_slot" "length (slots tok) = 2" "audit tok = None"
    "\<not> persist_busy tok" "st_state tok = ST_PASSED" "tok_inv tok"
    "session_info tok ex_user = Inr (0, HSM_ROLE_USER)"
  shows "\<exists>h tok'. inject_commit ex_env ex_hook tok ex_user PQC_ALG_ML_DSA_44 KEY_USAGE_SIGN 0
     (replicate 32 6) True = (HSM_OK, h, tok')"
proof -
  have ft: "find_target_slot ex_env tok ex_user =
      Some (0, make_handle (ex_seal ex_ij_slot), sl_meta ex_ij_slot)"
    using find_target_exact(2)[OF assms(6,7), of ex_env] assms(1) ex_target by simp
  have at: "slot_at tok 0 = Some (ex_seal ex_ij_slot)" using assms(1,2) by (simp add: slot_at_def)
  have ch: "check_handle ex_env (ex_seal ex_ij_slot) (make_handle (ex_seal ex_ij_slot)) = HSM_OK"
    by (rule make_handle_good) simp_all
  define s' where "s' = set_meta (\<lambda>m. m\<lparr>m_alg := PQC_ALG_NONE, m_usage := 0, m_policy := 0,
      m_generation := m_generation m + 1\<rparr>)
      (slot_wipe_key_material (set_meta (m_state_update (\<lambda>_. SLOT_ST_EMPTY)) (ex_seal ex_ij_slot)))"
  have "destroy_locked ex_env (ex_seal ex_ij_slot) (make_handle (ex_seal ex_ij_slot)) = (HSM_OK, ex_seal s')"
    using ch by (simp add: destroy_locked_def fsm_apply_simps s'_def)
  then have d: "hsm_object_destroy ex_env ex_hook tok ex_user (make_handle (ex_seal ex_ij_slot)) =
      (HSM_OK, set_slot 0 (ex_seal s') tok)" "st_of s' = SLOT_ST_EMPTY"
    using assms(3,4,7) at by (simp_all add: hsm_object_destroy_def require_role_def s'_def)
  have "session_info (set_slot 0 (ex_seal s') tok) = session_info tok"
    using destroy_frame(2)[OF ex_hook_ok d(1)] .
  then obtain h tok' where "hsm_slot_load_seed ex_env ex_hook (set_slot 0 (ex_seal s') tok) ex_user PQC_ALG_ML_DSA_44
      KEY_USAGE_SIGN 0 (Some (replicate 32 6)) (length (replicate 32 (6 :: byte))) True = (HSM_OK, h, tok')"
    using ex_loads[of "set_slot 0 (ex_seal s') tok" s'] assms d(2) by (auto simp: slot_at_def set_slot_def)
  then show ?thesis using ft d(1) by (simp add: inject_commit_def policy_bits)
qed

lemma ex_sign_usage: "validate_usage PQC_ALG_ML_DSA_44 KEY_USAGE_SIGN = HSM_OK"
  by (simp add: validate_usage_def usage_bits)

lemmas ex_delivery = ex_kem ex_gcm ex_seal_total ex_kem_ready ex_ij_simps(5) ex_sign_usage

text \<open>The injection as a whole, up to a key that replaces the one in slot 0.\<close>

lemma ex_injects:
  assumes "ex_blob_of b"
  shows "\<exists>h tok'. hsm_inject_apply ex_env ex_hook (Some ex_ij_tok) ex_so ex_kh ex_user (Some b) (length b) True =
       (HSM_OK, h, Some tok') \<and> key_of (slots tok' ! 0) \<noteq> key_of (slots ex_ij_tok ! 0)"
proof -
  obtain w' where w: "hsm_inject_build ex_env PQC_ALG_ML_KEM_512 (Some (replicate 800 1))
     (length (replicate 800 (1 :: byte))) PQC_ALG_ML_DSA_44 KEY_USAGE_SIGN 0 (Some (replicate 32 6))
     (length (replicate 32 (6 :: byte))) (Some 2848) True ex_world = (Inr b, w')"
    using assms by blast
  obtain tok1 ct ss where d: "hsm_object_decaps ex_env ex_ij_tok ex_so ex_kh (Some ct) (length ct) (Some 64) True =
      (HSM_OK, Some ss, tok1)"
    and a: "hsm_inject_apply ex_env ex_hook (Some ex_ij_tok) ex_so ex_kh ex_user (Some b) (length b) True =
      (case inject_commit ex_env ex_hook tok1 ex_user PQC_ALG_ML_DSA_44 KEY_USAGE_SIGN 0 (replicate 32 6) True of
         (stt, h, tok2) \<Rightarrow> (stt, h, Some tok2))"
    using inject_delivered[OF w ex_delivery, of ex_hook True] by blast
  have t1: "tok1 = snd (snd (hsm_object_decaps ex_env ex_ij_tok ex_so ex_kh (Some ct) (length ct) (Some 64) True))"
    using d by simp
  have ses: "session_info tok1 ex_user = Inr (0, HSM_ROLE_USER)"
    using decaps_session(2)[OF t1 ex_ij_tok_inv ex_seal_total] by simp
  have inv: "tok_inv tok1" using decaps_session(1)[OF t1 ex_ij_tok_inv ex_seal_total] .
  have f: "slots tok1 ! 0 = ex_seal ex_ij_slot" using ex_decaps_frame[OF d] by blast
  obtain h tok' where c: "inject_commit ex_env ex_hook tok1 ex_user PQC_ALG_ML_DSA_44 KEY_USAGE_SIGN 0
      (replicate 32 6) True = (HSM_OK, h, tok')"
    using ex_commits[OF _ _ _ _ _ inv ses] ex_decaps_frame[OF d] by metis
  have "m_generation (sl_meta (slots tok' ! 0)) = 1 + 1"
    using inject_commit_ok[OF c ex_hook_ok inv ex_seal_total ses] f ex_target
    by (auto simp: freshly_loaded_def)
  then have "key_of (slots tok' ! 0) \<noteq> key_of (slots ex_ij_tok ! 0)" by (simp add: key_of_def)
  then show ?thesis using a c by simp
qed

lemma inject_delivers_witness:
  "\<exists>b tok1. ex_blob_of b \<and>
     hsm_inject_apply ex_env ex_hook (Some ex_ij_tok) ex_so ex_kh ex_user (Some b) (length b) True =
       (case inject_commit ex_env ex_hook tok1 ex_user PQC_ALG_ML_DSA_44 KEY_USAGE_SIGN 0 (replicate 32 6) True of
          (stt, h, tok2) \<Rightarrow> (stt, h, Some tok2))"
proof -
  obtain b where b: "ex_blob_of b" using ex_builds by blast
  then obtain w' where "hsm_inject_build ex_env PQC_ALG_ML_KEM_512 (Some (replicate 800 1))
     (length (replicate 800 (1 :: byte))) PQC_ALG_ML_DSA_44 KEY_USAGE_SIGN 0 (Some (replicate 32 6))
     (length (replicate 32 (6 :: byte))) (Some 2848) True ex_world = (Inr b, w')" by blast
  from inject_delivers[OF this ex_delivery, of ex_hook True] show ?thesis using b by blast
qed

lemma inject_installs_witness:
  "\<exists>b k tok'. hsm_inject_apply ex_env ex_hook (Some ex_ij_tok) ex_so ex_kh ex_user (Some b) (length b) True =
       (HSM_OK, Some k, Some tok') \<and> k = make_handle (slots tok' ! 0) \<and>
     dead_handle ex_env ex_hook tok' (make_handle (ex_seal ex_ij_slot))"
proof -
  obtain b h tok' where a: "hsm_inject_apply ex_env ex_hook (Some ex_ij_tok) ex_so ex_kh ex_user (Some b)
      (length b) True = (HSM_OK, h, Some tok')"
    using ex_builds ex_injects by meson
  then obtain k where "h = Some k" "k = make_handle (slots tok' ! 0)"
    "dead_handle ex_env ex_hook tok' (make_handle (ex_seal ex_ij_slot))"
    using inject_installs[OF ex_ij_tok_inv ex_seal_total ex_hook_ok _ a, of 0 HSM_ROLE_USER] ex_target
    by (auto simp: freshly_loaded_def)
  then show ?thesis using a by blast
qed

lemma inject_authenticates_witness:
  "\<exists>b al us po seed tok1. ex_blob_of b \<and> inject_proven ex_env ex_ij_tok ex_so ex_kh b al us po seed tok1"
proof -
  obtain b where b: "ex_blob_of b" using ex_builds by blast
  obtain h tok' where a: "hsm_inject_apply ex_env ex_hook (Some ex_ij_tok) ex_so ex_kh ex_user (Some b)
      (length b) True = (HSM_OK, h, Some tok')" "key_of (slots tok' ! 0) \<noteq> key_of (slots ex_ij_tok ! 0)"
    using ex_injects[OF b] by blast
  have "\<exists>al us po seed tok1. inject_proven ex_env ex_ij_tok ex_so ex_kh b al us po seed tok1"
    using inject_authenticates[OF ex_ij_tok_inv ex_seal_total ex_hook_ok a(1) _ a(2)] by simp
  then show ?thesis using b by blast
qed

end
