(* ===== verification/Anchor.thy ===== *)
theory Anchor
  imports Slot_Guard Audit_Append Rbanchor
begin

text \<open>
  src/src/audit/anchor.c: a signature under an identity key of the device over the number of records
  and the head hash of the audit log, in a file that is kept elsewhere. A path and a log are
  options (None is NULL).
\<close>

definition HSM_ANCHOR_VERSION :: u32 where "HSM_ANCHOR_VERSION = 1"
definition HSM_ANCHOR_SIGNED_LEN :: nat where "HSM_ANCHOR_SIGNED_LEN = 64"
definition AN_MAGIC :: bytes where "AN_MAGIC = cstr ''PQCHSMAN''"

section \<open>The file\<close>

record anchor_rec =
  an_alg :: u32
  an_count :: u64
  an_head :: bytes
  an_ts :: u64
  an_pk :: bytes
  an_sig :: bytes

text \<open>The signed prefix.\<close>

definition anchor_prefix :: "u32 \<Rightarrow> u64 \<Rightarrow> bytes \<Rightarrow> u64 \<Rightarrow> bytes" where
  "anchor_prefix alg count head ts =
     AN_MAGIC @ put_u32 HSM_ANCHOR_VERSION @ put_u32 alg @ put_u64 count @ head @ put_u64 ts"

text \<open>fopen, the size, malloc, fread: an empty file counts as unreadable.\<close>

definition slurp :: "env \<Rightarrow> bytes \<Rightarrow> 'a world_scheme \<Rightarrow> bytes option \<times> 'a world_scheme" where
  "slurp E path w =
     (case fopen_read E path w of
        (None, w1) \<Rightarrow> (None, w1)
      | (Some buf, w1) \<Rightarrow>
          (case sys_ok E w1 of (told, w2) \<Rightarrow>
            if \<not> told \<or> buf = [] then (None, w2)
            else if \<not> malloc_ok E (tick w2) (length buf) then (None, next_tick w2)
            else (case sys_ok E (next_tick w2) of (got, w3) \<Rightarrow> (if got then Some buf else None, w3))))"

definition parse_anchor :: "bytes \<Rightarrow> anchor_rec option" where
  "parse_anchor buf =
     (let n = length buf in
      if n < HSM_ANCHOR_SIGNED_LEN + 8 then None
      else if take 8 buf \<noteq> AN_MAGIC then None
      else if get_u32 (drop 8 buf) \<noteq> HSM_ANCHOR_VERSION then None
      else let off = HSM_ANCHOR_SIGNED_LEN; plen = unat (get_u32 (drop off buf)); off1 = off + 4 in
        if plen > n - off1 then None
        else let off2 = off1 + plen in
          if n - off2 < 4 then None
          else let slen = unat (get_u32 (drop off2 buf)); off3 = off2 + 4 in
            if slen \<noteq> n - off3 then None
            else Some \<lparr>an_alg = get_u32 (drop 12 buf), an_count = get_u64 (drop 16 buf),
                       an_head = slice 24 AUDIT_HASH_LEN buf, an_ts = get_u64 (drop 56 buf),
                       an_pk = slice off1 plen buf, an_sig = slice off3 slen buf\<rparr>)"

section \<open>Creating an anchor\<close>

text \<open>The calls of write one after the other, each of which must move everything.\<close>

fun write_chunks :: "env \<Rightarrow> bytes \<Rightarrow> bytes list \<Rightarrow> nat \<Rightarrow> 'a world_scheme \<Rightarrow> bool \<times> 'a world_scheme" where
  "write_chunks E path [] off w = (True, w)"
| "write_chunks E path (c # cs) off w =
     (case write_once E path c off w of
        (ok, w1) \<Rightarrow> if \<not> ok then (False, w1) else write_chunks E path cs (off + length c) w1)"

definition anchor_store ::
    "env \<Rightarrow> bytes \<Rightarrow> bytes list \<Rightarrow> 'a world_scheme \<Rightarrow> hsm_status \<times> 'a world_scheme" where
  "anchor_store E path chunks w =
     (let tmp = tmp_of path; fail = (\<lambda>st w. (st, set_file tmp None (next_tick w))) in
      if \<not> malloc_ok E (tick w) (c_strlen path + 8) then (HSM_ERR_NOMEM, next_tick w)
      else case sys_ok E (next_tick w) of (opened, w1) \<Rightarrow>
        if \<not> opened then fail HSM_ERR_BAD_ARG w1
        else case write_chunks E tmp chunks 0 (set_file tmp (Some []) w1) of (wrote, w2) \<Rightarrow>
          if \<not> wrote then fail HSM_ERR_CRYPTO w2
          else case sys_ok E w2 of (synced, w3) \<Rightarrow>
            if \<not> synced then fail HSM_ERR_CRYPTO w3
            else case sys_ok E w3 of (renamed, w4) \<Rightarrow>
              if \<not> renamed then fail HSM_ERR_CRYPTO w4
              else (HSM_OK, set_file tmp None (set_file path (files w4 tmp) w4)))"

text \<open>The part after the algorithm is known: buffers, public key, signature, file.\<close>

definition anchor_sign ::
    "env \<Rightarrow> bytes \<Rightarrow> hsm_token \<Rightarrow> u64 \<Rightarrow> u64 \<Rightarrow> pqc_alg_info \<Rightarrow> bytes \<Rightarrow> hsm_status \<times> hsm_token" where
  "anchor_sign E path tok sess identity_key info pfx =
     (let a1 = malloc_ok E (tick tok) (ai_pk_len info); t1 = next_tick tok;
          a2 = malloc_ok E (tick t1) (ai_sig_len info); t2 = next_tick t1 in
      if \<not> a1 \<or> \<not> a2 then (HSM_ERR_NOMEM, t2)
      else case hsm_object_public_key E t2 sess identity_key (Some (ai_pk_len info)) True of
        Inl e \<Rightarrow> (e, t2)
      | Inr pk \<Rightarrow>
          (case hsm_object_sign E t2 sess identity_key (Some pfx) HSM_ANCHOR_SIGNED_LEN None 0
                  (Some (ai_sig_len info)) True of
             (stt, bs, t3) \<Rightarrow>
               if stt \<noteq> HSM_OK then (stt, t3)
               else let sig = (case bs of None \<Rightarrow> [] | Some x \<Rightarrow> x) in
                 anchor_store E path
                   [pfx, put_u32 (of_nat (length pk)), pk, put_u32 (of_nat (length sig)), sig] t3))"

definition hsm_audit_anchor_create ::
    "env \<Rightarrow> audit_log option \<Rightarrow> bytes option \<Rightarrow> hsm_token option \<Rightarrow> u64 \<Rightarrow> u64 \<Rightarrow> u64 \<Rightarrow>
     hsm_status \<times> hsm_token option" where
  "hsm_audit_anchor_create E log apath tokp sess identity_key timestamp =
     (case (log, apath, tokp) of
        (Some _, Some path, Some tok) \<Rightarrow>
          (case audit_head log of
             None \<Rightarrow> (HSM_ERR_CRYPTO, tokp)
           | Some head \<Rightarrow>
               (case hsm_slot_get_meta E tok (ucast identity_key - 1) True of
                  Inl e \<Rightarrow> (e, tokp)
                | Inr meta \<Rightarrow>
                    (case pqc_alg_info (m_alg meta) of
                       None \<Rightarrow> (HSM_ERR_BAD_ARG, tokp)
                     | Some info \<Rightarrow>
                         if ai_kind info \<noteq> PQC_KIND_SIG then (HSM_ERR_BAD_ARG, tokp)
                         else (case anchor_sign E path tok sess identity_key info
                                  (anchor_prefix (alg_code (m_alg meta)) (audit_count log) head timestamp) of
                                 (stt, tok1) \<Rightarrow> (stt, Some tok1)))))
      | _ \<Rightarrow> (HSM_ERR_BAD_ARG, tokp))"

section \<open>Checking an anchor\<close>

text \<open>The checks on a parsed anchor: the expected key, the signature, the log, the hash at the count.\<close>

definition anchor_check ::
    "env \<Rightarrow> bytes \<Rightarrow> bytes \<Rightarrow> nat \<Rightarrow> bytes \<Rightarrow> anchor_rec \<Rightarrow> 'a world_scheme \<Rightarrow> u64 hsm_res \<times> 'a world_scheme" where
  "anchor_check E log_path expect_pk expect_pk_len buf a w =
     (let alg = alg_of (an_alg a); bad = (\<lambda>w. (Inl HSM_ERR_INTEGRITY, w)) in
      case pqc_alg_info alg of
        None \<Rightarrow> bad w
      | Some info \<Rightarrow>
          if ai_kind info \<noteq> PQC_KIND_SIG \<or> length (an_pk a) \<noteq> ai_pk_len info then bad w
          else if length (an_pk a) \<noteq> expect_pk_len \<or>
                  \<not> pqc_ct_equal (Some (an_pk a)) (Some expect_pk) (length (an_pk a)) then bad w
          else (case pqc_verify E alg (Some expect_pk) (Some buf) HSM_ANCHOR_SIGNED_LEN None 0
                        (Some (an_sig a)) (length (an_sig a)) w of
             (Inl _, w1) \<Rightarrow> bad w1
           | (Inr _, w1) \<Rightarrow>
               (case audit_verify_file E (Some log_path) w1 of
                  (Inl _, w2) \<Rightarrow> bad w2
                | (Inr _, w2) \<Rightarrow>
                    (case audit_hash_at E (Some log_path) (an_count a) w2 of
                       (None, w3) \<Rightarrow> bad w3
                     | (Some got, w3) \<Rightarrow>
                         if \<not> pqc_ct_equal (Some got) (Some (an_head a)) AUDIT_HASH_LEN then bad w3
                         else (Inr (an_count a), w3)))))"

definition hsm_audit_anchor_verify ::
    "env \<Rightarrow> bytes option \<Rightarrow> bytes option \<Rightarrow> bytes option \<Rightarrow> nat \<Rightarrow> 'a world_scheme \<Rightarrow>
     u64 hsm_res \<times> 'a world_scheme" where
  "hsm_audit_anchor_verify E log_path apath expect_pk expect_pk_len w =
     (case (log_path, apath, expect_pk) of
        (Some lp, Some ap, Some epk) \<Rightarrow>
          if expect_pk_len = 0 then (Inl HSM_ERR_BAD_ARG, w)
          else (case slurp E ap w of
             (None, w1) \<Rightarrow> (Inl HSM_ERR_BAD_ARG, w1)
           | (Some buf, w1) \<Rightarrow>
               (case parse_anchor buf of
                  None \<Rightarrow> (Inl HSM_ERR_INTEGRITY, w1)
                | Some a \<Rightarrow> anchor_check E lp epk expect_pk_len buf a w1))
      | _ \<Rightarrow> (Inl HSM_ERR_BAD_ARG, w))"

text \<open>The algorithm and the public key, unchecked.\<close>

definition hsm_audit_anchor_peek_pk ::
    "env \<Rightarrow> bytes option \<Rightarrow> nat option \<Rightarrow> bool \<Rightarrow> 'a world_scheme \<Rightarrow> (pqc_alg \<times> bytes) hsm_res \<times> 'a world_scheme" where
  "hsm_audit_anchor_peek_pk E apath cap pk_len_out w =
     (case (apath, cap) of
        (Some ap, Some n) \<Rightarrow>
          if \<not> pk_len_out then (Inl HSM_ERR_BAD_ARG, w)
          else (case slurp E ap w of
             (None, w1) \<Rightarrow> (Inl HSM_ERR_BAD_ARG, w1)
           | (Some buf, w1) \<Rightarrow>
               (case parse_anchor buf of
                  None \<Rightarrow> (Inl HSM_ERR_INTEGRITY, w1)
                | Some a \<Rightarrow>
                    (if length (an_pk a) > n then Inl HSM_ERR_BAD_ARG
                     else Inr (alg_of (an_alg a), an_pk a), w1)))
      | _ \<Rightarrow> (Inl HSM_ERR_BAD_ARG, w))"

end
