(* ===== verification/Anchor_Props.thy ===== *)
theory Anchor_Props
  imports Anchor Backup_Props
begin

text \<open>
  What an anchor is worth: its file format is read back exactly, it is replaced as a whole or not at
  all, an anchor that verifies pins the records it covers to the history that was signed, and an
  anchor of a log verifies against every later state of that log.
\<close>

section \<open>The format\<close>

definition anchor_bytes :: "anchor_rec \<Rightarrow> bytes" where
  "anchor_bytes a =
     anchor_prefix (an_alg a) (an_count a) (an_head a) (an_ts a) @
     put_u32 (of_nat (length (an_pk a))) @ an_pk a @
     put_u32 (of_nat (length (an_sig a))) @ an_sig a"

definition anchor_wf :: "anchor_rec \<Rightarrow> bool" where
  "anchor_wf a \<longleftrightarrow> length (an_head a) = AUDIT_HASH_LEN \<and> length (an_pk a) < 2 ^ 32 \<and> length (an_sig a) < 2 ^ 32"

lemma anchor_prefix_length [simp]:
  "length head = AUDIT_HASH_LEN \<Longrightarrow> length (anchor_prefix alg c head ts) = HSM_ANCHOR_SIGNED_LEN"
  by (simp add: anchor_prefix_def AN_MAGIC_def cstr_def HSM_ANCHOR_SIGNED_LEN_def AUDIT_HASH_LEN_def)

lemma anchor_prefix_fields:
  assumes "length head = AUDIT_HASH_LEN"
  shows "take 8 (anchor_prefix alg c head ts @ r) = AN_MAGIC"
    "get_u32 (drop 8 (anchor_prefix alg c head ts @ r)) = HSM_ANCHOR_VERSION"
    "get_u32 (drop 12 (anchor_prefix alg c head ts @ r)) = alg"
    "get_u64 (drop 16 (anchor_prefix alg c head ts @ r)) = c"
    "slice 24 AUDIT_HASH_LEN (anchor_prefix alg c head ts @ r) = head"
    "get_u64 (drop 56 (anchor_prefix alg c head ts @ r)) = ts"
  using assms
  by (simp_all add: anchor_prefix_def AN_MAGIC_def cstr_def le_get_le_bytes slice_def AUDIT_HASH_LEN_def)

lemma parse_anchor_bytes:
  assumes "anchor_wf a"
  shows "parse_anchor (anchor_bytes a) = Some a"
proof -
  let ?p = "anchor_prefix (an_alg a) (an_count a) (an_head a) (an_ts a)"
  let ?pl = "length (an_pk a)" and ?sl = "length (an_sig a)"
  let ?t = "put_u32 (of_nat ?sl) @ an_sig a"
  let ?r = "put_u32 (of_nat ?pl) @ an_pk a @ ?t"
  have w: "length (an_head a) = AUDIT_HASH_LEN" "?pl < 2 ^ 32" "?sl < 2 ^ 32"
    using assms by (simp_all add: anchor_wf_def)
  have b: "anchor_bytes a = ?p @ ?r" by (simp add: anchor_bytes_def)
  have pl: "length ?p = HSM_ANCHOR_SIGNED_LEN" using w by simp
  note f = anchor_prefix_fields[OF w(1), of "an_alg a" "an_count a" "an_ts a" ?r, folded b]
  have d: "drop HSM_ANCHOR_SIGNED_LEN (anchor_bytes a) = ?r"
    "drop (HSM_ANCHOR_SIGNED_LEN + 4) (anchor_bytes a) = an_pk a @ ?t"
    "drop (HSM_ANCHOR_SIGNED_LEN + 4 + ?pl) (anchor_bytes a) = ?t"
    "drop (HSM_ANCHOR_SIGNED_LEN + 4 + ?pl + 4) (anchor_bytes a) = an_sig a"
    using pl by (simp_all add: b)
  have l: "length (anchor_bytes a) = HSM_ANCHOR_SIGNED_LEN + 4 + ?pl + 4 + ?sl"
    using pl by (simp add: b)
  have n: "unat (get_u32 ?r :: u32) = ?pl" "unat (get_u32 ?t :: u32) = ?sl"
    using unat_u32_less w(2,3) by (simp_all add: le_get_le_bytes)
  show ?thesis
    using f(5) unfolding parse_anchor_def Let_def l f d n slice_def by simp
qed

lemma field_at:
  "k + n \<le> length b \<Longrightarrow> drop k b = take n (drop k b) @ drop (k + n) b"
  by (metis append_take_drop_id drop_drop add.commute)

lemma u32_at: "k + 4 \<le> length b \<Longrightarrow> take 4 (drop k b) = put_u32 (get_u32 (drop k b))"
  using le_bytes_le_get[of "take 4 (drop k b)" 4, where 'a = 32] by simp

lemma u64_at: "k + 8 \<le> length b \<Longrightarrow> take 8 (drop k b) = put_u64 (get_u64 (drop k b))"
  using le_bytes_le_get[of "take 8 (drop k b)" 8, where 'a = 64] by simp

lemma u32_bound: "unat (v :: u32) < 2 ^ 32"
  using unsigned_less[of v] by simp

lemma guard_Some: "(if c then None else x) = Some a \<longleftrightarrow> \<not> c \<and> x = Some a"
  by simp

lemma parse_anchor_exact:
  assumes "parse_anchor buf = Some a"
  shows "buf = anchor_bytes a \<and> anchor_wf a"
proof -
  let ?pl = "unat (get_u32 (drop 64 buf) :: u32)"
  let ?sl = "unat (get_u32 (drop (68 + ?pl) buf) :: u32)"
  have e: "HSM_ANCHOR_SIGNED_LEN = 64" "(64 :: nat) + 4 = 68" "(64 :: nat) + 8 = 72" "68 + ?pl + 4 = 72 + ?pl"
    by (simp_all add: HSM_ANCHOR_SIGNED_LEN_def)
  have q: "(if length buf < 72 then None else if take 8 buf \<noteq> AN_MAGIC then None
      else if get_u32 (drop 8 buf) \<noteq> HSM_ANCHOR_VERSION then None
      else if length buf - 68 < ?pl then None else if length buf - (68 + ?pl) < 4 then None
      else if ?sl \<noteq> length buf - (72 + ?pl) then None
      else Some \<lparr>an_alg = get_u32 (drop 12 buf), an_count = get_u64 (drop 16 buf),
        an_head = slice 24 AUDIT_HASH_LEN buf, an_ts = get_u64 (drop 56 buf),
        an_pk = slice 68 ?pl buf, an_sig = slice (72 + ?pl) ?sl buf\<rparr>) = Some a"
    using assms unfolding parse_anchor_def Let_def by (simp only: e)
  note q' = q[unfolded guard_Some option.inject not_less not_not]
  have p: "72 \<le> length buf" "take 8 buf = AN_MAGIC" "get_u32 (drop 8 buf) = HSM_ANCHOR_VERSION"
    "?pl \<le> length buf - 68" "4 \<le> length buf - (68 + ?pl)" "?sl = length buf - (72 + ?pl)"
    by (fact q'[THEN conjunct1] q'[THEN conjunct2, THEN conjunct1] q'[THEN conjunct2, THEN conjunct2, THEN conjunct1] q'[THEN conjunct2, THEN conjunct2, THEN conjunct2, THEN conjunct1] q'[THEN conjunct2, THEN conjunct2, THEN conjunct2, THEN conjunct2, THEN conjunct1] q'[THEN conjunct2, THEN conjunct2, THEN conjunct2, THEN conjunct2, THEN conjunct2, THEN conjunct1])+
  have a: "a = \<lparr>an_alg = get_u32 (drop 12 buf), an_count = get_u64 (drop 16 buf),
        an_head = slice 24 AUDIT_HASH_LEN buf, an_ts = get_u64 (drop 56 buf),
        an_pk = slice 68 ?pl buf, an_sig = slice (72 + ?pl) ?sl buf\<rparr>"
    by (rule q'[THEN conjunct2, THEN conjunct2, THEN conjunct2, THEN conjunct2, THEN conjunct2, THEN conjunct2, symmetric])
  define pl sl where "pl = ?pl" and "sl = ?sl"
  have len: "length buf = 72 + pl + sl" using p(1,4,5,6) by (simp add: pl_def sl_def)
  have f: "an_alg a = get_u32 (drop 12 buf)" "an_count a = get_u64 (drop 16 buf)"
    "an_head a = slice 24 AUDIT_HASH_LEN buf" "an_ts a = get_u64 (drop 56 buf)"
    "an_pk a = slice 68 pl buf" "an_sig a = slice (72 + pl) sl buf"
    by (simp_all add: a pl_def sl_def)
  have n: "length (an_pk a) = pl" "length (an_sig a) = sl" "length (an_head a) = AUDIT_HASH_LEN"
    using len by (simp_all add: f AUDIT_HASH_LEN_def)
  have "buf = take 8 buf @ drop 8 buf" by simp
  also have "drop 8 buf = put_u32 HSM_ANCHOR_VERSION @ drop 12 buf"
    using field_at[of 8 4 buf] u32_at[of 8 buf] p(1,3) by simp
  also have "drop 12 buf = put_u32 (an_alg a) @ drop 16 buf"
    using field_at[of 12 4 buf] u32_at[of 12 buf] p(1) f(1) by simp
  also have "drop 16 buf = put_u64 (an_count a) @ drop 24 buf"
    using field_at[of 16 8 buf] u64_at[of 16 buf] p(1) f(2) by simp
  also have "drop 24 buf = an_head a @ drop 56 buf"
    using field_at[of 24 32 buf] p(1) f(3) by (simp add: slice_def AUDIT_HASH_LEN_def)
  also have "drop 56 buf = put_u64 (an_ts a) @ drop 64 buf"
    using field_at[of 56 8 buf] u64_at[of 56 buf] p(1) f(4) by simp
  also have "drop 64 buf = put_u32 (get_u32 (drop 64 buf)) @ drop 68 buf"
    using field_at[of 64 4 buf] u32_at[of 64 buf] p(1) by simp
  also have "drop 68 buf = an_pk a @ drop (68 + pl) buf"
    using field_at[of 68 pl buf] len f(5) by (simp add: slice_def)
  also have "drop (68 + pl) buf = put_u32 (get_u32 (drop (68 + pl) buf)) @ drop (72 + pl) buf"
    using field_at[of "68 + pl" 4 buf] u32_at[of "68 + pl" buf] len by (simp add: add.commute)
  also have "drop (72 + pl) buf = an_sig a"
    using len f(6) by (simp add: slice_def)
  finally have b: "buf = AN_MAGIC @ put_u32 HSM_ANCHOR_VERSION @ put_u32 (an_alg a) @ put_u64 (an_count a) @
    an_head a @ put_u64 (an_ts a) @ put_u32 (get_u32 (drop 64 buf)) @ an_pk a @
    put_u32 (get_u32 (drop (68 + pl) buf)) @ an_sig a" unfolding p(2) .
  have "(of_nat pl :: u32) = get_u32 (drop 64 buf)" "(of_nat sl :: u32) = get_u32 (drop (68 + pl) buf)"
    by (simp_all add: pl_def sl_def)
  then have "anchor_bytes a = buf"
    using b by (simp only: anchor_bytes_def anchor_prefix_def n append_assoc)
  moreover have "pl < 2 ^ 32" "sl < 2 ^ 32"
    using u32_bound by (simp_all add: pl_def sl_def)
  ultimately show ?thesis using n by (simp add: anchor_wf_def)
qed

text \<open>
  parse\_anchor accepts exactly the files that the format of the header comment describes, and reads
  from them the fields they were written with: no file has two readings, no length can point outside
  the buffer and nothing may follow the signature.
\<close>

theorem anchor_format_exact: "parse_anchor buf = Some a \<longleftrightarrow> buf = anchor_bytes a \<and> anchor_wf a"
  using parse_anchor_exact parse_anchor_bytes by blast

section \<open>An anchor that verifies\<close>

text \<open>Reading and checking a log changes the call counter only, verifying also the self-test state.\<close>

lemma tick_again: "(\<exists>t. w' = w\<lparr>tick := t\<rparr>) \<Longrightarrow> (\<exists>t. w'' = w'\<lparr>tick := t\<rparr>) \<Longrightarrow> \<exists>t. w'' = w\<lparr>tick := t\<rparr>"
  by auto

lemma next_tick_again: "\<exists>t. next_tick w = w\<lparr>tick := t\<rparr>"
  by (auto simp: next_tick_def)

lemma tick_refl: "\<exists>t. w = w\<lparr>tick := t\<rparr>"
  by (rule exI[of _ "tick w"]) simp

lemma verify_records_frame:
  "verify_records E p s n h w = (r, w') \<Longrightarrow> \<exists>t. w' = w\<lparr>tick := t\<rparr>"
proof (induction E p s n h w arbitrary: r w' rule: verify_records.induct)
  case (1 E path seq cur w)
  then show ?case using tick_refl[of w] by simp
next
  case (2 E path seq n cur w)
  obtain a w1 where rd: "io_pread E path AUDIT_REC_LEN (AUDIT_HDR_LEN + AUDIT_REC_LEN * seq) w = (a, w1)"
    by fastforce
  note f = io_pread_frame[OF rd]
  show ?case using 2 rd f tick_again[OF f] by (auto split: option.splits if_splits)
qed

lemma audit_verify_frame:
  assumes "audit_verify_file E p w = (r, w')"
  shows "\<exists>t. w' = w\<lparr>tick := t\<rparr>"
proof (cases p)
  case None
  then show ?thesis using assms tick_refl[of w] by (simp add: audit_verify_file_def)
next
  case (Some path)
  define tk where "tk x \<longleftrightarrow> (\<exists>t. x = w\<lparr>tick := t\<rparr>)" for x
  obtain o0 w0 where o0: "open_rdwr E path w = (o0, w0)" by fastforce
  have f0: "\<exists>t. w0 = w\<lparr>tick := t\<rparr>" using open_rdwr_frame[OF o0] next_tick_again[of w] by simp
  obtain a w1 where rd: "io_pread E path AUDIT_HDR_LEN 0 w0 = (a, w1)" by fastforce
  note f1 = tick_again[OF f0 io_pread_frame[OF rd]]
  obtain b where s: "sys_ok E w1 = (b, next_tick w1)" by (simp add: sys_ok_def)
  note f2 = tick_again[OF f1 next_tick_again[of w1]]
  have f3: "tk (snd (verify_records E path sq n h (next_tick w1)))" for sq n h
    unfolding tk_def using tick_again[OF f2] verify_records_frame by (metis prod.collapse)
  have t: "tk w0" "tk w1" "tk (next_tick w1)" using f0 f1 f2 by (simp_all only: tk_def)
  have pick: "tk (snd (case v of (Inl bad, w3) \<Rightarrow> (Inl bad, w3)
      | (Inr cur, w3) \<Rightarrow> if q cur then (x, w3) else (y, w3)))" if "tk (snd v)" for v q x y
    using that by (auto split: prod.split sum.split)
  have "tk (snd (audit_verify_file E p w))"
    unfolding audit_verify_file_def Some option.case o0 prod.case rd s Let_def
    by (simp add: t f3 pick split: option.split)
  then show ?thesis using assms by (simp add: tk_def)
qed

text \<open>What audit\_hash\_at finds in an intact file: the hash of the chain after so many records.\<close>

lemma chain_run_at:
  assumes "chain_run E h s rs = Some h'" "n \<le> length rs"
  shows "chain_run E h s (take n rs) = Some (if n = 0 then h else drop AUDIT_WIRE_LEN (rs ! (n - 1)))"
  using assms
proof (induction rs arbitrary: h s n)
  case (Cons r rs)
  then show ?case by (cases n) (auto split: if_splits simp: nth_Cons')
qed simp

lemma audit_hash_at_good:
  assumes "audit_hash_at E (Some p) c w = (Some got, w')" "audit_good E (file_of w p)"
    and g: "genesis_hash E = Some g"
  shows "unat c \<le> hdr_count (file_of w p) \<and> chain_run E g 0 (take (unat c) (records (file_of w p))) = Some got"
proof -
  define f where "f = file_of w p"
  have gd: "length f = AUDIT_HDR_LEN + AUDIT_REC_LEN * hdr_count f" "AUDIT_HDR_LEN \<le> length f"
    "chain_run E g 0 (records f) = Some (hdr_head f)"
    using assms(2) g by (simp_all add: audit_good_def f_def)
  have len: "length (records f) = hdr_count f" by (simp add: records_def)
  obtain w0 where o0: "open_rdwr E p w = (True, w0)"
    using assms(1) by (cases "open_rdwr E p w") (auto simp: audit_hash_at_def split: if_splits)
  have w0: "w0 = next_tick w" using open_rdwr_frame[OF o0] by simp
  obtain hdr w1 where rd: "io_pread E p AUDIT_HDR_LEN 0 w0 = (Some hdr, w1)"
    using assms(1) o0 by (auto simp: audit_hash_at_def split: prod.splits option.splits)
  obtain t where w1: "w1 = w0\<lparr>tick := t\<rparr>" using io_pread_frame[OF rd] by blast
  have fw: "file_of w1 p = f" "file_of (next_tick w1) p = f" using w0 w1 by (simp_all add: f_def)
  obtain b where s: "sys_ok E w1 = (b, next_tick w1)" by (simp add: sys_ok_def)
  have d: "(length f - AUDIT_HDR_LEN) div AUDIT_REC_LEN = hdr_count f"
    using gd(1) by (simp add: audit_consts)
  have main: "(if \<not> hdr_ok hdr then (None, w1)
     else if \<not> b \<or> length f < AUDIT_HDR_LEN then (None, next_tick w1)
     else if hdr_count f < unat c then (None, next_tick w1)
     else if c = 0 then (genesis_hash E, next_tick w1)
     else (case io_pread E p AUDIT_REC_LEN (AUDIT_HDR_LEN + (unat c - 1) * AUDIT_REC_LEN) (next_tick w1) of
             (None, w3) \<Rightarrow> (None, w3)
           | (Some rec, w3) \<Rightarrow> (Some (drop AUDIT_WIRE_LEN rec), w3))) = (Some got, w')"
    using assms(1) unfolding audit_hash_at_def option.case o0 prod.case rd s Let_def fw(2) d
    by (simp only: if_False not_True_eq_False simp_thms)
  then have c: "unat c \<le> hdr_count f" by (auto split: if_splits)
  show ?thesis
  proof (cases "c = 0")
    case True
    then show ?thesis using main g c by (auto simp: f_def split: if_splits)
  next
    case False
    then have u: "0 < unat c" by (simp add: unat_gt_0)
    obtain rec w3 where r: "io_pread E p AUDIT_REC_LEN (AUDIT_HDR_LEN + (unat c - 1) * AUDIT_REC_LEN) (next_tick w1)
        = (Some rec, w3)" "got = drop AUDIT_WIRE_LEN rec"
      using main False by (auto split: if_splits option.splits prod.splits)
    have "rec = slice (AUDIT_HDR_LEN + AUDIT_REC_LEN * (unat c - 1)) AUDIT_REC_LEN f"
      using io_pread_result[OF r(1)] fw(2) by (simp add: mult.commute)
    also have "\<dots> = records f ! (unat c - 1)" using nth_upt[of 0 "unat c - 1" "hdr_count f"] u c by (simp add: records_def)
    finally show ?thesis using chain_run_at[OF gd(3), of "unat c"] c len u r(2) by (simp add: f_def)
  qed
qed

lemma slurp_result: "slurp E p w = (r, w1) \<Longrightarrow> files w1 = files w \<and> (r = None \<or> r = files w p)"
  by (auto simp: slurp_def fopen_read_def sys_ok_def split: option.splits prod.splits if_splits)

lemma only_core_verify: "pqc_verify E alg pk m ml c cl sg sl w = (r, w') \<Longrightarrow> only_core w w'"
  by (auto simp: pqc_verify_def split: prod.splits if_splits option.splits sum.splits
      dest!: only_core_prologue intro: only_core_after)

lemma pqc_verify_accepts:
  assumes "pqc_verify E alg (Some pk) (Some m) ml None 0 (Some sg) (length sg) w = (Inr u, w')"
  shows "\<exists>f t. has_be E be_verify = Some f \<and> f alg pk (take ml m) [] sg t = Inr u"
  using assms by (auto simp: pqc_verify_def prologue_def split: prod.splits if_splits option.splits sum.splits)

lemma anchor_check_accepts:
  fixes w :: "'a world_scheme"
  assumes "anchor_check E lp pk (length pk) buf a w = (Inr n, w')"
  shows "an_pk a = pk \<and> n = an_count a \<and>
    (\<exists>f t. has_be E be_verify = Some f \<and>
       f (alg_of (an_alg a)) pk (take HSM_ANCHOR_SIGNED_LEN buf) [] (an_sig a) t = Inr ()) \<and>
    (\<exists>(w1 :: 'a world_scheme) w2 w3 got. files w1 = files w \<and> files w2 = files w \<and>
       audit_verify_file E (Some lp) w1 = (Inr (), w2) \<and>
       audit_hash_at E (Some lp) (an_count a) w2 = (Some got, w3) \<and>
       pqc_ct_equal (Some got) (Some (an_head a)) AUDIT_HASH_LEN)"
proof -
  let ?alg = "alg_of (an_alg a)"
  obtain info where i: "pqc_alg_info ?alg = Some info"
    using assms by (cases "pqc_alg_info ?alg") (auto simp: anchor_check_def Let_def)
  obtain rv w1 where v: "pqc_verify E ?alg (Some pk) (Some buf) HSM_ANCHOR_SIGNED_LEN None 0
      (Some (an_sig a)) (length (an_sig a)) w = (rv, w1)" by fastforce
  obtain ra w2 where l: "audit_verify_file E (Some lp) w1 = (ra, w2)" by fastforce
  obtain rh w3 where h: "audit_hash_at E (Some lp) (an_count a) w2 = (rh, w3)" by fastforce
  note main = assms[unfolded anchor_check_def Let_def i option.case v prod.case l h]
  have g: "length (an_pk a) = length pk" "pqc_ct_equal (Some (an_pk a)) (Some pk) (length (an_pk a))"
    "rv = Inr ()" "ra = Inr ()"
    using main by (auto split: if_splits sum.splits)
  obtain got where got: "rh = Some got" "pqc_ct_equal (Some got) (Some (an_head a)) AUDIT_HASH_LEN"
    "n = an_count a"
    using main by (auto split: if_splits sum.splits option.splits)
  have "an_pk a = pk" using g(1,2) by (subst (asm) pqc_ct_equal_iff) auto
  moreover have "\<exists>f t. has_be E be_verify = Some f \<and>
      f ?alg pk (take HSM_ANCHOR_SIGNED_LEN buf) [] (an_sig a) t = Inr ()"
    using pqc_verify_accepts v g(3) by blast
  moreover have "files w1 = files w" using only_core_files[OF only_core_verify[OF v]] .
  moreover have "files w2 = files w1" using audit_verify_frame[OF l] by auto
  moreover have "audit_verify_file E (Some lp) w1 = (Inr (), w2)"
    "audit_hash_at E (Some lp) (an_count a) w2 = (Some got, w3)"
    using l h g(4) got(1) by simp_all
  ultimately show ?thesis using got(2,3) by metis
qed

lemma anchor_prefix_take:
  "anchor_wf a \<Longrightarrow> take HSM_ANCHOR_SIGNED_LEN (anchor_bytes a) =
     anchor_prefix (an_alg a) (an_count a) (an_head a) (an_ts a)"
  by (simp add: anchor_bytes_def anchor_wf_def)

text \<open>
  C14: an anchor that verifies pins the history. When hsm\_audit\_anchor\_verify accepts, the anchor file is
  one anchor under the expected key whose back end accepted the signature over count, head and time;
  the log is an intact chain of at least that many records; and any history of records that led to
  the signed head is exactly the log's first records, unless SHA3-256 was made to collide. So the
  records an anchor covers can neither be cut off nor rewritten, even by an attacker who recomputes
  the whole chain.
\<close>

theorem anchor_pins_history:
  fixes w :: "'a world_scheme"
  assumes "hsm_audit_anchor_verify E (Some lp) (Some ap) (Some pk) (length pk) w = (Inr n, w')"
  shows "\<exists>a f t g. files w ap = Some (anchor_bytes a) \<and> anchor_wf a \<and> an_pk a = pk \<and> an_count a = n \<and>
    has_be E be_verify = Some f \<and>
    f (alg_of (an_alg a)) pk (anchor_prefix (an_alg a) n (an_head a) (an_ts a)) [] (an_sig a) t = Inr () \<and>
    audit_good E (file_of w lp) \<and> unat n \<le> length (records (file_of w lp)) \<and> genesis_hash E = Some g \<and>
    (\<forall>rs. chain_run E g 0 rs = Some (an_head a) \<longrightarrow>
       rs = take (unat n) (records (file_of w lp)) \<or>
       sha3_collision E (genesis_input # chain_inputs g rs @
         chain_inputs g (take (unat n) (records (file_of w lp)))))"
proof -
  obtain rb w1 where s: "slurp E ap w = (rb, w1)" by fastforce
  obtain buf a where b: "rb = Some buf" "parse_anchor buf = Some a"
    "anchor_check E lp pk (length pk) buf a w1 = (Inr n, w')"
    using assms s by (auto simp: hsm_audit_anchor_verify_def split: if_splits option.splits)
  have fw: "files w1 = files w" "files w ap = Some buf" using slurp_result[OF s] b(1) by auto
  have a: "buf = anchor_bytes a" "anchor_wf a" using parse_anchor_exact[OF b(2)] by auto
  obtain w2 w3 w4 :: "'a world_scheme" and got f t where r: "files w3 = files w1" "an_pk a = pk" "n = an_count a"
    "has_be E be_verify = Some f" "f (alg_of (an_alg a)) pk (take HSM_ANCHOR_SIGNED_LEN buf) [] (an_sig a) t = Inr ()"
    "files w2 = files w1" "audit_verify_file E (Some lp) w2 = (Inr (), w3)"
    "audit_hash_at E (Some lp) (an_count a) w3 = (Some got, w4)"
    "pqc_ct_equal (Some got) (Some (an_head a)) AUDIT_HASH_LEN"
    using anchor_check_accepts[OF b(3)] by blast
  have same: "file_of w2 lp = file_of w lp" "file_of w3 lp = file_of w lp"
    using r(1,6) fw(1) by (simp_all add: file_of_def)
  have good: "audit_good E (file_of w lp)" using audit_verify_sound[OF r(7)] same by simp
  obtain g where g: "genesis_hash E = Some g"
    using good by (auto simp: audit_good_def split: option.splits)
  have at: "unat n \<le> hdr_count (file_of w lp)"
    "chain_run E g 0 (take (unat n) (records (file_of w lp))) = Some got"
    using audit_hash_at_good[OF r(8) _ g] same good r(3) by auto
  have "length got = AUDIT_HASH_LEN" using chain_run_length[OF at(2) genesis_length[OF g]] .
  then have "got = an_head a"
    using r(9) a(2) by (subst (asm) pqc_ct_equal_iff) (auto simp: anchor_wf_def)
  then have "rs = take (unat n) (records (file_of w lp)) \<or>
      sha3_collision E (genesis_input # chain_inputs g rs @ chain_inputs g (take (unat n) (records (file_of w lp))))"
    if "chain_run E g 0 rs = Some (an_head a)" for rs
    using chain_unique[OF g that] at(2) by (auto simp: subset_iff)
  moreover have "unat n \<le> length (records (file_of w lp))" using at(1) by (simp add: records_def)
  ultimately show ?thesis
    using fw(2) a r(2-5) good g by (metis anchor_prefix_take)
qed

section \<open>Creating an anchor\<close>

lemma write_chunks_result:
  assumes "write_chunks E p cs off w = (ok, w')" "files w p = Some f" "length f = off"
  shows "(ok \<longrightarrow> files w' p = Some (f @ concat cs)) \<and> world.more w' = world.more w \<and>
    (\<forall>q. q \<noteq> p \<longrightarrow> files w' q = files w q)"
  using assms
proof (induction cs arbitrary: off w f)
  case (Cons c cs)
  obtain ok1 w1 where o: "write_once E p c off w = (ok1, w1)" by fastforce
  note r = write_once_result[OF o]
  show ?case
  proof (cases ok1)
    case True
    then have "files w1 p = Some (f @ c)" "length (f @ c) = off + length c"
      using r Cons.prems(2,3) by (simp_all add: file_of_def write_at_def)
    then show ?thesis using Cons.IH[of "off + length c" w1 "f @ c"] Cons.prems(1) o True r by auto
  next
    case False
    then show ?thesis using Cons.prems(1) o r by simp
  qed
qed simp

lemma anchor_store_result:
  assumes "anchor_store E path cs w = (st, w')"
  shows "files w' path = (if st = HSM_OK then Some (concat cs) else files w path) \<and>
    world.more w' = world.more w \<and> (\<forall>q. q \<noteq> path \<longrightarrow> q \<noteq> tmp_of path \<longrightarrow> files w' q = files w q)"
proof -
  let ?t = "tmp_of path" and ?w1 = "set_file (tmp_of path) (Some []) (next_tick (next_tick w))"
  obtain ok2 w2 where 2: "write_chunks E ?t cs 0 ?w1 = (ok2, w2)" by fastforce
  note r = write_chunks_result[OF 2, of "[]"]
  show ?thesis
    using assms 2 r tmp_not_path[of path]
    by (auto simp: anchor_store_def Let_def sys_ok_def split: if_splits)
qed

text \<open>The two writers of the repository that replace a file are the same function.\<close>

lemma bk_store_is_anchor_store: "bk_store E path body tag w = anchor_store E path [body, tag] w"
  by (simp add: bk_store_def anchor_store_def Let_def split: prod.split)

text \<open>\<open>sig\<close> is an answer of the back end to a request to sign \<open>m\<close> with the key of the slot.\<close>

definition slot_signs :: "env \<Rightarrow> slot \<Rightarrow> bytes \<Rightarrow> nat \<Rightarrow> bytes \<Rightarrow> bool" where
  "slot_signs E s m cap sig \<longleftrightarrow>
     (if sl_hw_resident s
      then \<exists>f t. has_be E be_sign_hw = Some f \<and>
             f (m_alg (sl_meta s)) (sl_hw_handle s) m [] None cap t = Inr sig
      else \<exists>f sk t (w :: hsm_token) w'. borrow_secret E s w = (Inr (Some sk), w') \<and>
             has_be E be_sign = Some f \<and> f (m_alg (sl_meta s)) sk m [] None cap t = Inr sig)"

lemma borrow_in_use: "borrow_secret E (in_use s) w = borrow_secret E s w"
proof -
  have m: "m_alg (m\<lparr>m_state := x\<rparr>) = m_alg m" for m x by simp
  show ?thesis unfolding borrow_secret_def set_meta_simps m by (rule refl)
qed

lemma alg_info_sig: "pqc_alg_info alg = Some info \<Longrightarrow> ai_kind info = PQC_KIND_SIG \<Longrightarrow> 0 < ai_sig_len info"
  by (cases alg) auto

lemma sign_locked_signs:
  fixes w :: hsm_token
  assumes "sign_locked E s h (Some m) ml None 0 (Some cap) True w = (b, HSM_OK, bs, s', w')"
  shows "\<exists>sig info. bs = Some sig \<and> slot_signs E s (take ml m) cap sig \<and> check_handle E s h = HSM_OK \<and>
    pqc_alg_info (m_alg (sl_meta s)) = Some info \<and> 0 < ai_sig_len info \<and> ai_sig_len info \<le> cap"
proof -
  obtain r s1 w1 where b: "begin_use E s h KEY_USAGE_SIGN w = (r, s1, w1)" by (metis prod_cases3)
  note cs = begin_use_cases[OF b]
  have e: "end_use E x op y = (HSM_OK, x', y') \<Longrightarrow> op = HSM_OK" for x op x' and y y' :: hsm_token
    by (auto simp: end_use_def Let_def split: prod.splits if_splits)
  obtain k where k: "r = Inr k" using assms b cs by (auto simp: sign_locked_def split: sum.splits)
  then have u: "s1 = in_use s" "check_handle E s h = HSM_OK" "borrow_secret E s w = (Inr k, w1)"
    using cs borrow_in_use[of E s w] by auto
  have alg: "m_alg (sl_meta s1) = m_alg (sl_meta s)" "sl_hw_resident s1 = sl_hw_resident s"
    "sl_hw_handle s1 = sl_hw_handle s" by (simp_all add: u(1))
  note main = assms[unfolded sign_locked_def b prod.case k sum.case alg]
  obtain info where i: "pqc_alg_info (m_alg (sl_meta s)) = Some info" "\<not> cap < ai_sig_len info"
    using main by (cases "pqc_alg_info (m_alg (sl_meta s))") (auto split: if_splits prod.splits dest: e)
  obtain rs w2 where sg: "(if sl_hw_resident s
      then pqc_sign_hw E (m_alg (sl_meta s)) (sl_hw_handle s) (Some m) ml None 0 None (Some cap) w1
      else pqc_sign E (m_alg (sl_meta s)) k (Some m) ml None 0 None (Some cap) w1) = (rs, w2)"
    by fastforce
  note main2 = main[unfolded i(1) option.case sg prod.case]
  obtain sig where sig: "rs = Inr sig" "bs = Some sig"
    using main2 i(2) by (cases rs) (auto split: if_splits prod.splits dest: e)
  have "slot_signs E s (take ml m) cap sig \<and> ai_kind info = PQC_KIND_SIG"
  proof (cases "sl_hw_resident s")
    case True
    then show ?thesis using sg sig(1) i(1)
      by (auto simp: slot_signs_def pqc_sign_hw_def split: if_splits option.splits)
  next
    case False
    then show ?thesis using sg sig(1) u(3) i(1)
      by (auto simp: slot_signs_def pqc_sign_def prologue_def split: if_splits option.splits prod.splits sum.splits)
  qed
  then show ?thesis using sig(2) u(2) i alg_info_sig[OF i(1)] by auto
qed

text \<open>
  What a key signs fits the buffer and verifies under its public key: the correctness of the back
  end's algorithm.
\<close>

definition key_pair_works :: "env \<Rightarrow> slot \<Rightarrow> bytes \<Rightarrow> bool" where
  "key_pair_works E s pk \<longleftrightarrow>
     (\<exists>f. has_be E be_verify = Some f \<and>
        (\<forall>m cap sig t. slot_signs E s m cap sig \<longrightarrow>
          length sig \<le> cap \<and> f (m_alg (sl_meta s)) pk m [] sig t = Inr ()))"

definition no_log_at :: "hsm_token \<Rightarrow> bytes \<Rightarrow> bool" where
  "no_log_at tok p \<longleftrightarrow> (\<forall>l. audit tok = Some l \<longrightarrow> al_fd l \<noteq> Some p)"

lemma object_sign_signs:
  assumes "hsm_object_sign E t sess h (Some m) ml None 0 (Some cap) True = (HSM_OK, bs, t')"
  shows "\<exists>sid s sig r info. bs = Some sig \<and> session_info t sess = Inr (sid, r) \<and>
    slot_at t sid = Some s \<and> slot_signs E s (take ml m) cap sig \<and> check_handle E s h = HSM_OK \<and>
    pqc_alg_info (m_alg (sl_meta s)) = Some info \<and> 0 < ai_sig_len info \<and> ai_sig_len info \<le> cap"
proof -
  obtain sid s where s: "require_role t sess HSM_ROLE_USER = Inr sid" "slot_at t sid = Some s"
    using assms by (auto simp: hsm_object_sign_def dest: require_role_err split: sum.splits option.splits)
  obtain b stt bs1 s' t1 where l: "sign_locked E s h (Some m) ml None 0 (Some cap) True t = (b, stt, bs1, s', t1)"
    by (metis prod_cases5)
  have "stt = HSM_OK" "bs = bs1" using assms s l by (auto simp: hsm_object_sign_def Let_def)
  moreover have "session_info t sess = Inr (sid, HSM_ROLE_USER)" using s(1) require_role_Inr by blast
  ultimately show ?thesis using s(2) sign_locked_signs[of E s h m ml cap t b bs1 s' t1] l by auto
qed

lemma object_sign_files:
  assumes "hsm_object_sign E t sess h m ml c cl sg sl = (stt, bs, t')" "no_log_at t p"
  shows "files t' p = files t p"
proof (cases "\<exists>sid s. require_role t sess HSM_ROLE_USER = Inr sid \<and> slot_at t sid = Some s")
  case True
  then obtain sid s where s: "require_role t sess HSM_ROLE_USER = Inr sid" "slot_at t sid = Some s" by blast
  obtain b stt1 bs1 s' t1 where l: "sign_locked E s h m ml c cl sg sl t = (b, stt1, bs1, s', t1)"
    by (metis prod_cases5)
  have core: "only_core t t1" using only_core_sign[OF l] .
  have keep: "files (set_slot sid s' t1) = files t" "audit (set_slot sid s' t1) = audit t"
    using only_core_files[OF core] only_core_more[OF core]
    by (simp_all add: set_slot_def) (cases t, cases t1, simp)
  have "t' = (if b then slot_audit E AUDIT_OP_SIGN HSM_ROLE_USER sid stt1 None (set_slot sid s' t1)
      else set_slot sid s' t1)"
    using assms(1) s l by (auto simp: hsm_object_sign_def Let_def split: if_splits)
  then show ?thesis
    using slot_audit_files[of "set_slot sid s' t1" p] assms(2) keep by (simp add: no_log_at_def)
next
  case False
  then show ?thesis using assms(1) by (auto simp: hsm_object_sign_def split: sum.splits option.splits)
qed

text \<open>The slot of the handle, with the key and the signature that went into the file.\<close>

definition anchored_by :: "env \<Rightarrow> audit_log \<Rightarrow> u64 \<Rightarrow> slot \<Rightarrow> anchor_rec \<Rightarrow> bool" where
  "anchored_by E log ts s a \<longleftrightarrow>
     an_alg a = alg_code (m_alg (sl_meta s)) \<and> an_count a = al_count log \<and> an_head a = al_head log \<and>
     an_ts a = ts \<and> sl_pk s = Some (an_pk a) \<and>
     (\<exists>info. pqc_alg_info (m_alg (sl_meta s)) = Some info \<and> ai_kind info = PQC_KIND_SIG \<and>
        length (an_pk a) = ai_pk_len info \<and>
        slot_signs E s (take HSM_ANCHOR_SIGNED_LEN (anchor_prefix (an_alg a) (an_count a) (an_head a) ts))
          (ai_sig_len info) (an_sig a))"

lemma tok_slot_inv: "tok_inv tok \<Longrightarrow> slot_at tok i = Some s \<Longrightarrow> slot_inv i s"
  by (auto simp: tok_inv_def slot_at_Some intro: dev_inv_slot)

lemma handle_slot:
  assumes "tok_inv tok" "slot_at tok sid = Some s" "check_handle E s h = HSM_OK"
  shows "sid = ucast h - 1"
proof -
  have "m_slot_id (sl_meta s) = sid" using tok_slot_inv[OF assms(1,2)] by (simp add: slot_inv_def)
  then show ?thesis using assms(3) by (simp add: check_handle_def split: if_splits)
qed

lemma public_key_result:
  assumes "tok_inv tok" "hsm_object_public_key E tok sess h (Some n) True = Inr pk"
  shows "\<exists>s info. slot_at tok (ucast h - 1) = Some s \<and> check_handle E s h = HSM_OK \<and> sl_pk s = Some pk \<and>
    pqc_alg_info (m_alg (sl_meta s)) = Some info \<and> length pk = ai_pk_len info"
proof -
  obtain sid r s where s: "session_info tok sess = Inr (sid, r)" "slot_at tok sid = Some s"
    "check_handle E s h = HSM_OK" "pk = (case sl_pk s of None \<Rightarrow> [] | Some p \<Rightarrow> p)"
    using assms(2) by (auto simp: hsm_object_public_key_def Let_def split: sum.splits option.splits if_splits)
  have i: "slot_inv sid s" using tok_slot_inv[OF assms(1) s(2)] .
  have "st_of s = SLOT_ST_LOADED" using s(3) i by (auto simp: check_handle_def slot_inv_def split: if_splits)
  then have "key_fits s" using i by (auto simp: slot_inv_def)
  then show ?thesis using s handle_slot[OF assms(1) s(2,3)] by (auto simp: key_fits_def key_ok_def)
qed

lemma public_key_error: "hsm_object_public_key E tok sess h out ol = Inl e \<Longrightarrow> e \<noteq> HSM_OK"
  by (auto simp: hsm_object_public_key_def Let_def split: sum.splits option.splits if_splits dest: session_info_Inl)

lemma get_meta_error: "hsm_slot_get_meta E tok sid b = Inl e \<Longrightarrow> e \<noteq> HSM_OK"
  by (auto simp: hsm_slot_get_meta_def split: option.splits if_splits)

lemma anchor_sign_result:
  assumes "anchor_sign E path tok sess key info pfx = (stt, tok')" "tok_inv tok" "no_log_at tok path"
  shows "(stt \<noteq> HSM_OK \<longrightarrow> files tok' path = files tok path) \<and>
    (stt = HSM_OK \<longrightarrow> (\<exists>s pk sig. slot_at tok (ucast key - 1) = Some s \<and> check_handle E s key = HSM_OK \<and>
       sl_pk s = Some pk \<and> slot_signs E s (take HSM_ANCHOR_SIGNED_LEN pfx) (ai_sig_len info) sig \<and>
       files tok' path = Some (concat
         [pfx, put_u32 (of_nat (length pk)), pk, put_u32 (of_nat (length sig)), sig])))"
proof -
  define t2 where "t2 = next_tick (next_tick tok)"
  have t2: "files t2 = files tok" "slot_at t2 = slot_at tok" "no_log_at t2 path"
    using assms(3) by (simp_all add: t2_def next_tick_def slot_at_def fun_eq_iff no_log_at_def)
  have "only_core tok t2" unfolding t2_def by (rule only_core_after) simp
  then have i2: "tok_inv t2" using assms(2) dev_of_only_core by (simp add: tok_inv_def)
  show ?thesis
  proof (cases "malloc_ok E (tick tok) (ai_pk_len info) \<and> malloc_ok E (tick (next_tick tok)) (ai_sig_len info)")
    case False
    then show ?thesis using assms(1) t2(1) by (auto simp: anchor_sign_def Let_def t2_def split: if_splits)
  next
    case True
    obtain rp where rp: "hsm_object_public_key E t2 sess key (Some (ai_pk_len info)) True = rp" by simp
    obtain st1 bs t3 where sg: "hsm_object_sign E t2 sess key (Some pfx) HSM_ANCHOR_SIGNED_LEN None 0
        (Some (ai_sig_len info)) True = (st1, bs, t3)" by (metis prod_cases3)
    have main: "(case rp of Inl e \<Rightarrow> (e, t2) | Inr pk \<Rightarrow>
        if st1 \<noteq> HSM_OK then (st1, t3)
        else anchor_store E path [pfx, put_u32 (of_nat (length pk)), pk,
          put_u32 (of_nat (length (case bs of None \<Rightarrow> [] | Some x \<Rightarrow> x))),
          (case bs of None \<Rightarrow> [] | Some x \<Rightarrow> x)] t3) = (stt, tok')"
      using assms(1) True
      unfolding anchor_sign_def Let_def t2_def[symmetric] rp sg prod.case by simp
    note sf = object_sign_files[OF sg t2(3)]
    show ?thesis
    proof (cases rp)
      case (Inl e)
      then have "e \<noteq> HSM_OK" using rp public_key_error by blast
      then show ?thesis using main Inl t2(1) by simp
    next
      case (Inr pk)
      obtain s where s: "slot_at tok (ucast key - 1) = Some s" "check_handle E s key = HSM_OK" "sl_pk s = Some pk"
        using public_key_result[OF i2 rp[unfolded Inr]] t2(2) by auto
      show ?thesis
      proof (cases "st1 = HSM_OK")
        case False
        then show ?thesis using main Inr sf t2(1) by auto
      next
        case True
        then obtain sid s2 sig where g: "bs = Some sig" "slot_at t2 sid = Some s2"
          "slot_signs E s2 (take HSM_ANCHOR_SIGNED_LEN pfx) (ai_sig_len info) sig" "check_handle E s2 key = HSM_OK"
          using object_sign_signs sg by blast
        have same: "s2 = s" using handle_slot[OF i2 g(2,4)] g(2) t2(2) s(1) by simp
        have "anchor_store E path [pfx, put_u32 (of_nat (length pk)), pk, put_u32 (of_nat (length sig)), sig] t3
            = (stt, tok')"
          using main Inr True g(1) by simp
        note st = anchor_store_result[OF this]
        show ?thesis
        proof (cases "stt = HSM_OK")
          case True
          then have "files tok' path = Some (concat
              [pfx, put_u32 (of_nat (length pk)), pk, put_u32 (of_nat (length sig)), sig])"
            using conjunct1[OF st] by (simp only: simp_thms if_True)
          then show ?thesis using True s g(3)[unfolded same]
            by (intro conjI impI exI[of _ s] exI[of _ pk] exI[of _ sig]) simp_all
        next
          case False
          then show ?thesis using st sf t2(1) by simp
        qed
      qed
    qed
  qed
qed

lemma anchor_create_result:
  assumes "hsm_audit_anchor_create E (Some log) (Some path) (Some tok) sess key ts = (stt, Some tok')"
    and "tok_inv tok" "no_log_at tok path"
  shows "(stt \<noteq> HSM_OK \<longrightarrow> files tok' path = files tok path) \<and>
    (stt = HSM_OK \<longrightarrow> (\<exists>s a. slot_at tok (ucast key - 1) = Some s \<and> check_handle E s key = HSM_OK \<and>
       anchored_by E log ts s a \<and> files tok' path = Some (anchor_bytes a)))"
proof (cases "\<exists>meta info. hsm_slot_get_meta E tok (ucast key - 1) True = Inr meta \<and>
    pqc_alg_info (m_alg meta) = Some info \<and> ai_kind info = PQC_KIND_SIG")
  case True
  then obtain meta info where m: "hsm_slot_get_meta E tok (ucast key - 1) True = Inr meta"
    "pqc_alg_info (m_alg meta) = Some info" "ai_kind info = PQC_KIND_SIG" by blast
  let ?pfx = "anchor_prefix (alg_code (m_alg meta)) (al_count log) (al_head log) ts"
  have s: "anchor_sign E path tok sess key info ?pfx = (stt, tok')"
    using assms(1) m by (simp add: hsm_audit_anchor_create_def audit_head_def audit_count_def split: prod.splits)
  note r = anchor_sign_result[OF s assms(2,3)]
  show ?thesis
  proof (cases "stt = HSM_OK")
    case ok: True
    then obtain x pk sig where x: "slot_at tok (ucast key - 1) = Some x" "check_handle E x key = HSM_OK"
      "sl_pk x = Some pk" "slot_signs E x (take HSM_ANCHOR_SIGNED_LEN ?pfx) (ai_sig_len info) sig"
      "files tok' path = Some (concat [?pfx, put_u32 (of_nat (length pk)), pk, put_u32 (of_nat (length sig)), sig])"
      using r by blast
    have mx: "meta = sl_meta x" using m(1) x(1) by (auto simp: hsm_slot_get_meta_def split: if_splits)
    have i: "slot_inv (ucast key - 1) x" using tok_slot_inv[OF assms(2) x(1)] .
    have "st_of x = SLOT_ST_LOADED" using x(2) i by (auto simp: check_handle_def slot_inv_def split: if_splits)
    then have "key_fits x" using i by (auto simp: slot_inv_def)
    then have pl: "length pk = ai_pk_len info" using x(3) m(2) mx by (auto simp: key_fits_def key_ok_def)
    let ?a = "\<lparr>an_alg = alg_code (m_alg meta), an_count = al_count log, an_head = al_head log, an_ts = ts,
      an_pk = pk, an_sig = sig\<rparr>"
    have "anchored_by E log ts x ?a" using x(3,4) m(2,3) pl by (simp add: anchored_by_def mx)
    moreover have "files tok' path = Some (anchor_bytes ?a)" using x(5) by (simp add: anchor_bytes_def)
    ultimately show ?thesis using ok x(1,2) by blast
  qed (use r in simp)
next
  case False
  have "stt \<noteq> HSM_OK \<and> tok' = tok"
    using assms(1) False get_meta_error
    by (auto simp: hsm_audit_anchor_create_def audit_head_def split: sum.splits option.splits if_splits prod.splits)
  then show ?thesis by simp
qed

text \<open>
  an anchor is replaced as a whole or not at all. Whatever allocation, signature or system call
  fails, hsm\_audit\_anchor\_create leaves the old anchor file in place; when it reports success the file
  is exactly one anchor over the log's count and head with the public key of the handle's slot and a
  signature the back end made with that slot's key over the signed prefix.
\<close>

theorem anchor_create_atomic:
  assumes "hsm_audit_anchor_create E (Some log) (Some path) (Some tok) sess key ts = (stt, Some tok')"
    and "tok_inv tok" "no_log_at tok path"
  shows "(stt \<noteq> HSM_OK \<longrightarrow> files tok' path = files tok path) \<and>
    (stt = HSM_OK \<longrightarrow> (\<exists>s a. slot_at tok (ucast key - 1) = Some s \<and> check_handle E s key = HSM_OK \<and>
       anchored_by E log ts s a \<and> files tok' path = Some (anchor_bytes a)))"
  by (rule anchor_create_result[OF assms])

section \<open>An anchor of a log verifies against its later states\<close>

lemma audit_hash_at_complete:
  assumes "io_perfect E" "files w p \<noteq> None" "audit_good E (file_of w p)" "genesis_hash E = Some g"
    and "unat c \<le> hdr_count (file_of w p)"
  shows "\<exists>w'. audit_hash_at E (Some p) c w =
    (chain_run E g 0 (take (unat c) (records (file_of w p))), w')"
proof -
  define f where "f = file_of w p"
  have gd: "length f = AUDIT_HDR_LEN + AUDIT_REC_LEN * hdr_count f" "AUDIT_HDR_LEN \<le> length f"
    "hdr_ok (slice 0 AUDIT_HDR_LEN f)" "chain_run E g 0 (records f) = Some (hdr_head f)"
    using assms(3,4) by (simp_all add: audit_good_def f_def slice_def)
  have len: "length (records f) = hdr_count f" by (simp add: records_def)
  have io: "sys_ok E x = (True, next_tick x)" for x :: "'a world_scheme"
    using assms(1) by (simp add: sys_ok_def io_perfect_def)
  have o0: "open_rdwr E p w = (True, next_tick w)" using assms(2) by (simp add: open_rdwr_def io)
  obtain w1 where rd: "io_pread E p AUDIT_HDR_LEN 0 (next_tick w) = (Some (slice 0 AUDIT_HDR_LEN f), w1)"
    using io_pread_perfect[OF assms(1), of 0 AUDIT_HDR_LEN "next_tick w" p] gd(2)
    by (cases "io_pread E p AUDIT_HDR_LEN 0 (next_tick w)") (auto simp: f_def)
  have fw: "file_of (next_tick w1) p = f" using io_pread_frame[OF rd] by (auto simp: f_def)
  have d: "(length f - AUDIT_HDR_LEN) div AUDIT_REC_LEN = hdr_count f" using gd(1) by (simp add: audit_consts)
  have c: "unat c \<le> hdr_count f" using assms(5) by (simp add: f_def)
  note start = audit_hash_at_def option.case o0 prod.case rd io Let_def fw d
  show ?thesis
  proof (cases "c = 0")
    case True
    then show ?thesis unfolding start using gd(2,3) assms(4) by simp
  next
    case False
    then have u: "0 < unat c" by (simp add: unat_gt_0)
    define o1 where "o1 = AUDIT_HDR_LEN + (unat c - 1) * AUDIT_REC_LEN"
    have o1: "o1 + AUDIT_REC_LEN \<le> length f"
      using u c mult_le_mono1[OF c, of AUDIT_REC_LEN] gd(1)
      by (simp add: o1_def mult.commute diff_mult_distrib2) (simp add: audit_consts)
    obtain w3 where r: "io_pread E p AUDIT_REC_LEN o1 (next_tick w1) = (Some (slice o1 AUDIT_REC_LEN f), w3)"
      using io_pread_perfect[OF assms(1), of o1 AUDIT_REC_LEN "next_tick w1" p] o1 fw
      by (cases "io_pread E p AUDIT_REC_LEN o1 (next_tick w1)") auto
    have "slice o1 AUDIT_REC_LEN f = records f ! (unat c - 1)"
      using nth_upt[of 0 "unat c - 1" "hdr_count f"] u c by (simp add: records_def o1_def mult.commute)
    then have "chain_run E g 0 (take (unat c) (records f)) = Some (drop AUDIT_WIRE_LEN (slice o1 AUDIT_REC_LEN f))"
      using chain_run_at[OF gd(4), of "unat c"] c len u by simp
    then show ?thesis unfolding start o1_def[symmetric] r f_def[symmetric] using gd(2,3) c False by simp
  qed
qed

lemma alg_info_known:
  assumes "pqc_alg_info alg = Some info"
  shows "alg_of (alg_code alg) = alg" "ai_pk_len info < 2 ^ 32" "ai_sig_len info < 2 ^ 32"
  using assms by (cases alg; auto simp: alg_of_def)+

text \<open>The log part of a check: a log that begins with the anchored records has their head at their count.\<close>

lemma log_part_complete:
  fixes w :: "'a world_scheme"
  assumes "log_inv E lp0 log recs f0" "audit_good E (file_of w lp)" "files w lp \<noteq> None"
    and "records (file_of w lp) = recs @ later" "io_perfect E"
  shows "\<exists>(w3 :: 'a world_scheme) w4. audit_verify_file E (Some lp) w = (Inr (), w3) \<and>
    audit_hash_at E (Some lp) (al_count log) w3 = (Some (al_head log), w4)"
proof -
  obtain w3 where l: "audit_verify_file E (Some lp) w = (Inr (), w3)"
    using audit_verify_complete[of E w lp] assms(2,3,5) by (metis prod.collapse)
  have w3: "file_of w3 lp = file_of w lp" "files w3 lp \<noteq> None"
    using audit_verify_frame[OF l] assms(3) by (auto simp: file_of_def)
  obtain g where g: "genesis_hash E = Some g" "chain_run E g 0 recs = Some (al_head log)"
    "unat (al_count log) = length recs"
    using assms(1) by (auto simp: log_inv_def split: option.splits)
  have "length (records (file_of w lp)) = hdr_count (file_of w lp)" by (simp add: records_def)
  then have cnt: "unat (al_count log) \<le> hdr_count (file_of w3 lp)" using assms(4) g(3) w3(1) by simp
  show ?thesis
    using audit_hash_at_complete[OF assms(5) w3(2) _ g(1) cnt] assms(2,4) w3(1) g(2,3) l by auto
qed

lemma anchor_created_verifies:
  assumes "hsm_audit_anchor_create E (Some log) (Some ap) (Some tok) sess key ts = (HSM_OK, Some tok')"
    and "tok_inv tok" "no_log_at tok ap" "log_inv E lp0 log recs f0"
    and "slot_at tok (ucast key - 1) = Some s" "sl_pk s = Some pk" "key_pair_works E s pk"
    and "files w ap = files tok' ap" "audit_good E (file_of w lp)" "files w lp \<noteq> None"
    and "records (file_of w lp) = recs @ later"
    and "io_perfect E" "alloc_total E" "st_state w = ST_PASSED"
  shows "fst (hsm_audit_anchor_verify E (Some lp) (Some ap) (Some pk) (length pk) w) = Inr (al_count log)"
proof -
  obtain a where a: "anchored_by E log ts s a" "files tok' ap = Some (anchor_bytes a)"
    using anchor_create_result[OF assms(1-3)] assms(5) by auto
  obtain info where i: "pqc_alg_info (m_alg (sl_meta s)) = Some info" "ai_kind info = PQC_KIND_SIG"
    "length pk = ai_pk_len info"
    "slot_signs E s (take HSM_ANCHOR_SIGNED_LEN (anchor_prefix (an_alg a) (an_count a) (an_head a) ts))
          (ai_sig_len info) (an_sig a)"
    using a(1) assms(6) by (auto simp: anchored_by_def)
  have fields: "an_alg a = alg_code (m_alg (sl_meta s))" "an_count a = al_count log" "an_head a = al_head log"
    "an_ts a = ts" "an_pk a = pk"
    using a(1) assms(6) by (auto simp: anchored_by_def)
  obtain f where f: "has_be E be_verify = Some f" "length (an_sig a) \<le> ai_sig_len info"
    "\<forall>t. f (m_alg (sl_meta s)) pk (take HSM_ANCHOR_SIGNED_LEN
        (anchor_prefix (an_alg a) (an_count a) (an_head a) ts)) [] (an_sig a) t = Inr ()"
    using assms(7) i(4) unfolding key_pair_works_def by blast
  have wf: "anchor_wf a"
    using log_inv_lengths(2)[OF assms(4)] f(2) i(3) alg_info_known(2,3)[OF i(1)] fields(3,5)
    by (auto simp: anchor_wf_def)
  define buf where "buf = anchor_bytes a"
  have buf: "files w ap = Some buf" "parse_anchor buf = Some a" "buf \<noteq> []"
    using a(2) assms(8) parse_anchor_bytes[OF wf] wf
    by (auto simp: buf_def anchor_bytes_def anchor_prefix_def AN_MAGIC_def cstr_def)
  obtain w1 where s1: "slurp E ap w = (Some buf, w1)" "\<exists>t. w1 = w\<lparr>tick := t\<rparr>"
    using buf(1,3) assms(12,13)
    by (simp add: slurp_def fopen_read_def sys_ok_perfect next_tick_def alloc_total_def) blast
  have v: "pqc_verify E (m_alg (sl_meta s)) (Some pk) (Some buf) HSM_ANCHOR_SIGNED_LEN None 0
      (Some (an_sig a)) (length (an_sig a)) w1 = (Inr (), next_tick w1)"
    using s1(2) assms(14) i f(1,3) anchor_prefix_take[OF wf] log_inv_lengths(2)[OF assms(4)] fields(3,4)
    by (auto simp: pqc_verify_def prologue_def pqc_self_test_passed_def bad_msg_ctx_def buf_def)
  have "file_of (next_tick w1) lp = file_of w lp" "files (next_tick w1) lp = files w lp"
    using s1(2) by (auto simp: next_tick_def file_of_def)
  then obtain w3 w4 where l: "audit_verify_file E (Some lp) (next_tick w1) = (Inr (), w3)"
    and h: "audit_hash_at E (Some lp) (al_count log) w3 = (Some (al_head log), w4)"
    using log_part_complete[of E lp0 log recs f0 "next_tick w1" lp later] assms(4,9-12) by auto
  have eq: "pqc_ct_equal (Some (al_head log)) (Some (al_head log)) AUDIT_HASH_LEN"
    "pqc_ct_equal (Some pk) (Some pk) (length pk)"
    using log_inv_lengths(2)[OF assms(4)] by (simp_all add: pqc_ct_equal_iff)
  have "anchor_check E lp pk (length pk) buf a w1 = (Inr (al_count log), w4)"
    unfolding anchor_check_def Let_def fields alg_info_known(1)[OF i(1)] i(1) option.case v prod.case
      sum.case l h
    using i(2,3) eq by simp
  moreover have "length pk \<noteq> 0" using pqc_alg_info_bounds(2)[OF i(1)] i(3) by simp
  ultimately show ?thesis using s1(1) buf(2) by (simp add: hsm_audit_anchor_verify_def)
qed

text \<open>
  C15: an anchor stays valid while its log only grows. An anchor that was created over an open log with
  the records \<open>recs\<close> verifies, under the public key of the slot, against every intact log that begins
  with those records, and reports their number, on a machine whose system calls and allocations
  succeed and whose back end verifies what it signed.
\<close>

theorem anchor_create_verify:
  assumes "hsm_audit_anchor_create E (Some log) (Some ap) (Some tok) sess key ts = (HSM_OK, Some tok')"
    and "tok_inv tok" "no_log_at tok ap" "log_inv E lp0 log recs f0"
    and "slot_at tok (ucast key - 1) = Some s" "sl_pk s = Some pk" "key_pair_works E s pk"
    and "files w ap = files tok' ap" "audit_good E (file_of w lp)" "files w lp \<noteq> None"
    and "records (file_of w lp) = recs @ later"
    and "io_perfect E" "alloc_total E" "st_state w = ST_PASSED"
  shows "fst (hsm_audit_anchor_verify E (Some lp) (Some ap) (Some pk) (length pk) w) = Inr (al_count log)"
  by (rule anchor_created_verifies[OF assms])

end
