(* ===== verification/Example_Anchor.thy ===== *)
theory Example_Anchor
  imports Anchor_Props Example_Store
begin

text \<open>
  Anchors on the device of Example: an anchor of the empty log under the key of slot 0, created,
  stored and verified.
\<close>

section \<open>Creation succeeds\<close>

lemma write_chunks_perfect:
  "io_perfect E \<Longrightarrow> fst (write_chunks E p cs off w)"
  by (induction cs arbitrary: off w) (simp_all add: write_once_def io_perfect_def Let_def)

lemma anchor_store_perfect:
  assumes "io_perfect E" "alloc_total E"
  shows "fst (anchor_store E path cs w) = HSM_OK"
proof -
  let ?w1 = "set_file (tmp_of path) (Some []) (next_tick (next_tick w))"
  obtain w2 where "write_chunks E (tmp_of path) cs 0 ?w1 = (True, w2)"
    using write_chunks_perfect[OF assms(1), of "tmp_of path" cs 0 ?w1] by (metis prod.collapse)
  then show ?thesis
    using assms by (simp add: anchor_store_def Let_def sys_ok_perfect alloc_total_def)
qed

definition ex_an_pfx :: bytes where
  "ex_an_pfx = anchor_prefix 4 0 ex_genesis 5"

lemma ex_tick_token [simp]:
  "session_info (next_tick tok) = session_info (tok :: hsm_token)" "slot_at (next_tick tok) = slot_at tok"
  "require_role (next_tick tok) = require_role tok" "audit (next_tick tok) = audit tok"
  "slots (next_tick tok) = slots tok" "st_state (next_tick tok) = st_state tok"
  by (simp_all add: fun_eq_iff session_info_def slot_at_def require_role_def next_tick_def)

definition ex_an_tok :: hsm_token where
  "ex_an_tok = next_tick (next_tick ex_tok)"

lemma ex_an_tok_simps [simp]:
  "session_info ex_an_tok = session_info ex_tok" "slot_at ex_an_tok = slot_at ex_tok"
  "require_role ex_an_tok = require_role ex_tok" "audit ex_an_tok = None" "st_state ex_an_tok = ST_PASSED"
  by (simp_all add: ex_an_tok_def)

lemma ex_key_pk [simp]: "sl_pk ex_key_slot = Some (replicate 1312 1)"
  by (simp add: ex_key_slot_def)

lemma ex_an_sign:
  "\<exists>tok'. hsm_object_sign ex_env ex_an_tok ex_user ex_h (Some ex_an_pfx) 64 None 0
     (Some 2420) True = (HSM_OK, Some (take 64 ex_an_pfx), tok')"
proof -
  have b: "begin_use ex_env (ex_seal ex_key_slot) ex_h KEY_USAGE_SIGN ex_an_tok =
      (Inr (Some (replicate 2560 2)), in_use (ex_seal ex_key_slot), ex_an_tok)"
    by (simp add: begin_use_def fsm_apply_simps borrow_secret_def usage_bits)
  have k: "pqc_sign ex_env PQC_ALG_ML_DSA_44 (Some (replicate 2560 2)) (Some ex_an_pfx) 64 None 0 None
      (Some 2420) ex_an_tok = (Inr (take 64 ex_an_pfx), next_tick ex_an_tok)"
    by (simp add: pqc_sign_def prologue_def pqc_self_test_passed_def bad_msg_ctx_def)
  have "require_role ex_tok ex_user HSM_ROLE_USER = Inr 0" by (simp add: require_role_def)
  then show ?thesis
    by (simp add: hsm_object_sign_def sign_locked_def b k end_use_def Let_def next_tick_def)
qed

lemma ex_h_slot [simp]: "ucast ex_h - 1 = (0 :: u32)"
  by (simp add: ex_h_def)

lemma ex_anchors:
  "\<exists>tok'. hsm_audit_anchor_create ex_env (Some ex_log) (Some [98]) (Some ex_tok) ex_user ex_h 5 = (HSM_OK, Some tok')"
proof -
  obtain t3 where sg: "hsm_object_sign ex_env ex_an_tok ex_user ex_h (Some ex_an_pfx) HSM_ANCHOR_SIGNED_LEN None 0
      (Some 2420) True = (HSM_OK, Some (take 64 ex_an_pfx), t3)"
    using ex_an_sign by (auto simp: HSM_ANCHOR_SIGNED_LEN_def)
  have pk: "hsm_object_public_key ex_env ex_an_tok ex_user ex_h (Some 1312) True = Inr (replicate 1312 1)"
    by (simp add: hsm_object_public_key_def Let_def)
  have st: "\<exists>t. anchor_store ex_env [98] cs t3 = (HSM_OK, t)" for cs
    using anchor_store_perfect[OF ex_io, of "[98]" cs t3] by (metis alloc_total_def ex_env_simps(6) prod.collapse)
  obtain tok' where "anchor_sign ex_env [98] ex_tok ex_user ex_h
      (alg_row PQC_ALG_ML_DSA_44 PQC_KIND_SIG ''ML-DSA-44'' 1312 2560 0 0 2420 32) ex_an_pfx = (HSM_OK, tok')"
    using st pk sg by (simp add: anchor_sign_def Let_def ex_an_tok_def[symmetric]) blast
  moreover have "hsm_slot_get_meta ex_env ex_tok (ucast ex_h - 1) True = Inr ex_meta"
    by (simp add: hsm_slot_get_meta_def ex_h_slot) (simp add: ex_key_slot_def)
  ultimately show ?thesis
    by (simp add: hsm_audit_anchor_create_def audit_head_def audit_count_def ex_an_pfx_def ex_meta_def ex_log_def)
qed

lemma ex_no_log: "no_log_at ex_tok p"
  by (simp add: no_log_at_def)

lemma anchor_create_atomic_witness:
  "\<exists>tok' s a. anchored_by ex_env ex_log 5 s a \<and> files (tok' :: hsm_token) [98] = Some (anchor_bytes a)"
  using ex_anchors anchor_create_atomic[OF _ ex_tok_inv ex_no_log] by metis

section \<open>The anchor verifies\<close>

lemma ex_verify: "has_be ex_env be_verify = Some (\<lambda>a p m c sg t. if sg = take (length sg) m then Inr () else Inl PQC_ERR_VERIFY)"
  by (simp add: has_be_def pqc_get_backend_def ex_backend_def)

lemma ex_key_works: "key_pair_works ex_env (ex_seal ex_key_slot) pk"
  by (auto simp: key_pair_works_def slot_signs_def ex_verify min_def)

lemma ex_an_world:
  obtains tok' and w :: world where
    "hsm_audit_anchor_create ex_env (Some ex_log) (Some [98]) (Some ex_tok) ex_user ex_h 5 = (HSM_OK, Some tok')"
    "files w [98] = files tok' [98]" "file_of w [97] = hdr_encode 0 ex_genesis" "files w [97] \<noteq> None"
    "st_state w = ST_PASSED"
proof -
  obtain tok' where c: "hsm_audit_anchor_create ex_env (Some ex_log) (Some [98]) (Some ex_tok) ex_user ex_h 5
      = (HSM_OK, Some tok')"
    using ex_anchors by blast
  let ?w = "ex_log_world\<lparr>files := (files ex_log_world)([98] := files tok' [98])\<rparr>"
  have "files ?w [98] = files tok' [98]" "file_of ?w [97] = hdr_encode 0 ex_genesis" "files ?w [97] \<noteq> None"
    "st_state ?w = ST_PASSED"
    using ex_log_file by (simp_all add: file_of_def ex_log_world_def ex_world_def)
  then show thesis using that[OF c] by blast
qed

lemma ex_no_records: "records (hdr_encode 0 ex_genesis) = [] @ []"
  by (simp add: records_def ex_header)

lemma anchor_create_verify_witness:
  "\<exists>w :: world. fst (hsm_audit_anchor_verify ex_env (Some [97]) (Some [98]) (Some (replicate 1312 1))
     (length (replicate 1312 (1 :: byte))) w) = Inr (al_count ex_log)"
proof -
  obtain tok' and w :: world where w:
    "hsm_audit_anchor_create ex_env (Some ex_log) (Some [98]) (Some ex_tok) ex_user ex_h 5 = (HSM_OK, Some tok')"
    "files w [98] = files tok' [98]" "file_of w [97] = hdr_encode 0 ex_genesis" "files w [97] \<noteq> None"
    "st_state w = ST_PASSED"
    by (rule ex_an_world)
  show ?thesis
    by (rule exI, rule anchor_create_verify[OF w(1) ex_tok_inv ex_no_log ex_log_inv _ _ ex_key_works w(2) _ w(4) _
          ex_io _ w(5), where later = "[]"])
      (simp_all add: w(3) ex_no_records ex_log_good alloc_total_def)
qed

lemma anchor_pins_history_witness:
  "\<exists>(w :: world) a. files w [98] = Some (anchor_bytes a) \<and> an_pk a = replicate 1312 1 \<and> an_count a = al_count ex_log"
proof -
  obtain tok' and w :: world where w:
    "hsm_audit_anchor_create ex_env (Some ex_log) (Some [98]) (Some ex_tok) ex_user ex_h 5 = (HSM_OK, Some tok')"
    "files w [98] = files tok' [98]" "file_of w [97] = hdr_encode 0 ex_genesis" "files w [97] \<noteq> None"
    "st_state w = ST_PASSED"
    by (rule ex_an_world)
  have "fst (hsm_audit_anchor_verify ex_env (Some [97]) (Some [98]) (Some (replicate 1312 1))
      (length (replicate 1312 (1 :: byte))) w) = Inr (al_count ex_log)"
    by (rule anchor_created_verifies[OF w(1) ex_tok_inv ex_no_log ex_log_inv _ _ ex_key_works w(2) _ w(4) _
          ex_io _ w(5), where later = "[]"])
      (simp_all add: w(3) ex_no_records ex_log_good alloc_total_def)
  then obtain w' where "hsm_audit_anchor_verify ex_env (Some [97]) (Some [98]) (Some (replicate 1312 1))
      (length (replicate 1312 (1 :: byte))) w = (Inr (al_count ex_log), w')"
    by (metis prod.collapse)
  from anchor_pins_history[OF this] show ?thesis by blast
qed

end
