(* ===== verification/Dna.thy ===== *)
theory Dna
  imports Kdf
begin

text \<open>
  src/src/crypto/kdr\_dna.c: the root key derived from the device DNA of the FPGA. The register window of
  /dev/secmmio is a parameter: whether it opens and arms, and what each register reads.
\<close>

record dna_state =
  dn_root :: bytes
  dn_ready :: bool

definition dna_start :: dna_state where
  "dna_start = \<lparr>dn_root = replicate PQC_KDR_LEN 0, dn_ready = False\<rparr>"

definition dna_derive :: "env \<Rightarrow> dna_state \<Rightarrow> bytes \<Rightarrow> bytes \<Rightarrow> nat \<Rightarrow> bytes option" where
  "dna_derive E d label salt out_len =
     (if \<not> dn_ready d then None
      else pqc_kdf E (Some (dn_root d)) PQC_KDR_LEN (Some salt) (length salt) (Some label) out_len)"

text \<open>The provider with the root it has at the time.\<close>

definition g_dna :: "env \<Rightarrow> dna_state \<Rightarrow> kdr_ref" where
  "g_dna E d = Ext_Provider \<lparr>kp_derive = Some (dna_derive E d), kp_hardware_backed = False, kp_device_bound = True\<rparr>"

definition set_root_from_dna :: "env \<Rightarrow> bytes option \<Rightarrow> nat \<Rightarrow> dna_state \<Rightarrow> bool \<times> dna_state" where
  "set_root_from_dna E raw len d =
     (if raw = None \<or> len = 0 then (False, d)
      else let acc = fold (OR) (mem raw len) 0; all = fold (AND) (mem raw len) 0xFF in
        if acc = 0 \<or> all = 0xFF then (False, d)
        else case pqc_kdf E raw len None 0 (Some (cstr ''pqc-hsm/kdr-from-device-dna'')) PQC_KDR_LEN of
          None \<Rightarrow> (False, d)
        | Some root \<Rightarrow> (True, \<lparr>dn_root = root, dn_ready = True\<rparr>))"

definition pqc_kdr_install_device_dna_raw ::
    "env \<Rightarrow> bytes option \<Rightarrow> nat \<Rightarrow> dna_state \<Rightarrow> kdr_state \<Rightarrow> bool \<times> dna_state \<times> kdr_state" where
  "pqc_kdr_install_device_dna_raw E dna len d k =
     (case set_root_from_dna E dna len d of
        (False, d1) \<Rightarrow> (False, d1, k)
      | (True, d1) \<Rightarrow> (True, d1, pqc_kdr_set_provider (Some (g_dna E d1)) k))"

section \<open>On the board\<close>

record secmmio =
  sm_open :: bool
  sm_arm :: bool
  sm_rd :: "u32 \<Rightarrow> u32 option"

definition DNA_LO :: u32 where "DNA_LO = 0xFFCA0050"
definition DNA_HI :: u32 where "DNA_HI = 0xFFCA005C"

function dna_words :: "(u32 \<Rightarrow> u32 option) \<Rightarrow> u32 \<Rightarrow> bytes option" where
  "dna_words rd a =
     (if a > DNA_HI then Some []
      else case rd a of
        None \<Rightarrow> None
      | Some v \<Rightarrow> map_option (\<lambda>r. rev (put_u32 v) @ r) (dna_words rd (a + 4)))"
  by pat_completeness auto

termination dna_words
proof (relation "measure (\<lambda>(rd, a). 2 ^ 32 - unat a)")
  fix rd :: "u32 \<Rightarrow> u32 option" and a v
  assume "\<not> a > DNA_HI"
  then have "unat a \<le> 0xFFCA005C" by (simp add: DNA_HI_def word_le_nat_alt not_less)
  moreover from this have "unat (a + 4) = unat a + 4" by (simp add: unat_word_ariths)
  ultimately show "((rd, a + 4), rd, a) \<in> measure (\<lambda>(rd, a). 2 ^ 32 - unat a)" by simp
qed simp

declare dna_words.simps [simp del]

definition read_dna_local :: "secmmio \<Rightarrow> bytes option" where
  "read_dna_local M = (if \<not> sm_open M \<or> \<not> sm_arm M then None else dna_words (sm_rd M) DNA_LO)"

definition pqc_kdr_provider_device_dna :: "env \<Rightarrow> secmmio \<Rightarrow> dna_state \<Rightarrow> kdr_ref option \<times> dna_state" where
  "pqc_kdr_provider_device_dna E M d =
     (if dn_ready d then (Some (g_dna E d), d)
      else case read_dna_local M of
        None \<Rightarrow> (None, d)
      | Some raw \<Rightarrow>
          (case set_root_from_dna E (Some raw) (length raw) d of
             (ok, d1) \<Rightarrow> (if ok then Some (g_dna E d1) else None, d1)))"

definition pqc_kdr_install_device_dna ::
    "env \<Rightarrow> secmmio \<Rightarrow> dna_state \<Rightarrow> kdr_state \<Rightarrow> bool \<times> dna_state \<times> kdr_state" where
  "pqc_kdr_install_device_dna E M d k =
     (case pqc_kdr_provider_device_dna E M d of
        (None, d1) \<Rightarrow> (False, d1, k)
      | (Some p, d1) \<Rightarrow> (True, d1, pqc_kdr_set_provider (Some p) k))"

section \<open>What the root is\<close>

lemma fold_or_zero: "fold (OR) (xs :: bytes) a = 0 \<longleftrightarrow> a = 0 \<and> list_all (\<lambda>b. b = 0) xs"
proof (induction xs arbitrary: a)
  case (Cons x xs)
  have "x OR a = 0 \<longleftrightarrow> x = 0 \<and> a = 0" by (metis or.right_neutral or_eq_0_iff)
  then show ?case using Cons by auto
qed simp

lemma fold_and_ones: "fold (AND) (xs :: bytes) a = - 1 \<longleftrightarrow> a = - 1 \<and> list_all (\<lambda>b. b = - 1) xs"
proof (induction xs arbitrary: a)
  case (Cons x xs)
  have "x AND a = - 1 \<longleftrightarrow> x = - 1 \<and> a = - 1" by (metis and.idem and.left_neutral and_eq_minus_1_iff)
  then show ?case using Cons by auto
qed simp

text \<open>All zeros and all ones are what a failed read looks like.\<close>

definition dna_plausible :: "bytes \<Rightarrow> bool" where
  "dna_plausible raw \<longleftrightarrow> \<not> list_all (\<lambda>b. b = 0) raw \<and> \<not> list_all (\<lambda>b. b = 0xFF) raw"

lemma set_root_exact:
  "set_root_from_dna E (Some raw) (length raw) d =
     (if raw = [] \<or> \<not> dna_plausible raw then (False, d)
      else case pqc_kdf E (Some raw) (length raw) None 0 (Some (cstr ''pqc-hsm/kdr-from-device-dna'')) PQC_KDR_LEN of
        None \<Rightarrow> (False, d)
      | Some root \<Rightarrow> (True, \<lparr>dn_root = root, dn_ready = True\<rparr>))"
proof -
  have ff: "(0xFF :: byte) = - 1" by simp
  show ?thesis
    by (simp add: set_root_from_dna_def Let_def dna_plausible_def ff fold_or_zero fold_and_ones del: numeral_eq_iff)
qed

lemma dna_words_four:
  "dna_words rd DNA_LO = Some raw \<Longrightarrow> \<exists>a b c e. rd 0xFFCA0050 = Some a \<and> rd 0xFFCA0054 = Some b \<and>
     rd 0xFFCA0058 = Some c \<and> rd 0xFFCA005C = Some e \<and> raw = concat (map (\<lambda>v. rev (put_u32 v)) [a, b, c, e])"
  by (simp add: DNA_LO_def DNA_HI_def dna_words.simps[of rd "0xFFCA0050"] dna_words.simps[of rd "0xFFCA0054"]
      dna_words.simps[of rd "0xFFCA0058"] dna_words.simps[of rd "0xFFCA005C"] dna_words.simps[of rd "0xFFCA0060"]
      split: option.splits)

lemma read_length: "read_dna_local M = Some raw \<Longrightarrow> length raw = 16"
  by (auto simp: read_dna_local_def split: if_splits dest!: dna_words_four)

text \<open>The root that some bytes give.\<close>

definition dna_root_of :: "env \<Rightarrow> bytes \<Rightarrow> bytes option" where
  "dna_root_of E raw =
     pqc_kdf E (Some raw) (length raw) None 0 (Some (cstr ''pqc-hsm/kdr-from-device-dna'')) PQC_KDR_LEN"

text \<open>The installs of a process: from the board, or from bytes that the caller has read.\<close>

datatype dna_call = From_Board secmmio | From_Bytes bytes

fun dna_exec :: "env \<Rightarrow> dna_call \<Rightarrow> dna_state \<times> kdr_state \<Rightarrow> bool \<times> dna_state \<times> kdr_state" where
  "dna_exec E (From_Board M) (d, k) = pqc_kdr_install_device_dna E M d k"
| "dna_exec E (From_Bytes raw) (d, k) = pqc_kdr_install_device_dna_raw E (Some raw) (length raw) d k"

fun dna_run :: "env \<Rightarrow> dna_call list \<Rightarrow> dna_state \<times> kdr_state \<Rightarrow> dna_state \<times> kdr_state" where
  "dna_run E [] x = x"
| "dna_run E (c # cs) x = dna_run E cs (snd (dna_exec E c x))"

text \<open>What a call takes the root from, and what the root of a state came from.\<close>

fun dna_source :: "dna_call \<Rightarrow> bytes option" where
  "dna_source (From_Board M) = read_dna_local M"
| "dna_source (From_Bytes raw) = Some raw"

definition genuine :: "env \<Rightarrow> dna_call list \<Rightarrow> dna_state \<Rightarrow> bool" where
  "genuine E cs d \<longleftrightarrow> (dn_ready d \<longrightarrow>
     (\<exists>c \<in> set cs. \<exists>raw. dna_source c = Some raw \<and> dna_plausible raw \<and> dna_root_of E raw = Some (dn_root d)))"

lemma plausible_ne: "dna_plausible raw \<Longrightarrow> raw \<noteq> []"
  by (auto simp: dna_plausible_def)

lemma set_root_cases:
  "set_root_from_dna E (Some raw) (length raw) d = (ok, d') \<Longrightarrow>
     if ok then dna_plausible raw \<and> dn_ready d' \<and> dna_root_of E raw = Some (dn_root d') else d' = d"
  unfolding set_root_exact dna_root_of_def[symmetric] by (auto split: if_splits option.splits)

lemma install_cases:
  assumes "dna_exec E c (d, k) = (ok, d', k')"
  shows "if ok then dn_ready d' \<and> k' = pqc_kdr_set_provider (Some (g_dna E d')) k \<and>
       (d' = d \<and> (\<exists>M. c = From_Board M) \<or>
        (\<exists>raw. dna_source c = Some raw \<and> dna_plausible raw \<and> dna_root_of E raw = Some (dn_root d')))
     else k' = k \<and> d' = d"
  using assms
  by (cases c)
     (auto simp: pqc_kdr_install_device_dna_def pqc_kdr_provider_device_dna_def
        pqc_kdr_install_device_dna_raw_def split: option.splits prod.splits if_splits bool.splits
        dest!: set_root_cases)

lemma genuine_exec:
  "dna_exec E c (d, k) = (ok, d', k') \<Longrightarrow> genuine E cs d \<Longrightarrow> genuine E (cs @ [c]) d'"
  using install_cases[of E c d k ok d' k'] by (auto simp: genuine_def split: if_splits)

lemma genuine_run:
  "dna_run E cs (d, k) = (d', k') \<Longrightarrow> genuine E cs0 d \<Longrightarrow> genuine E (cs0 @ cs) d'"
proof (induction cs arbitrary: cs0 d k)
  case (Cons c cs)
  obtain ok d1 k1 where c: "dna_exec E c (d, k) = (ok, d1, k1)" by (metis prod_cases3)
  show ?case using Cons.IH[of d1 k1 "cs0 @ [c]"] Cons.prems genuine_exec[OF c Cons.prems(2)] c by simp
qed simp

text \<open>
  C40: a device-bound root is derived from device DNA or there is none. Whatever installs came before, an
  install from the board succeeds only with a root that is the KDF of bytes which it read from the four DNA
  registers, or which an earlier install of the same process used, and which are neither all zero nor all
  ones (what a failed read looks like); the first one reads 16 bytes. When it fails, the provider and the
  root stay what they were. The provider never counts as hardware-backed, so the production gate refuses it
  and the development gate lets it through.
\<close>

theorem dna_root_genuine:
  assumes "dna_run E cs (dna_start, k0) = (d, k)" "pqc_kdr_install_device_dna E M d k = (ok, d', k')"
  shows "if ok then
      (\<exists>c \<in> set (cs @ [From_Board M]). \<exists>raw. dna_source c = Some raw \<and> dna_plausible raw \<and>
         dna_root_of E raw = Some (dn_root d')) \<and>
      (cs = [] \<longrightarrow> (\<exists>raw. read_dna_local M = Some raw \<and> length raw = 16 \<and> dna_plausible raw \<and>
         dna_root_of E raw = Some (dn_root d'))) \<and>
      pqc_kdr_get_provider k' = Some (g_dna E d') \<and> dn_ready d' \<and>
      \<not> pqc_kdr_is_hardware_backed k' \<and> \<not> fst (pqc_profile_startup_check True k') \<and>
      fst (pqc_profile_startup_check False k')
    else k' = k \<and> d' = d"
proof -
  have e: "dna_exec E (From_Board M) (d, k) = (ok, d', k')" using assms(2) by simp
  have "genuine E [] dna_start" by (simp add: genuine_def dna_start_def)
  then have g: "genuine E (cs @ [From_Board M]) d'"
    using genuine_exec[OF e] genuine_run[OF assms(1), of "[]"] by simp
  have first: "\<not> dn_ready d" if "cs = []" using assms(1) that by (auto simp: dna_start_def)
  have p: "pqc_kdr_get_provider k' = Some (g_dna E d') \<and> \<not> pqc_kdr_is_hardware_backed k' \<and>
      \<not> fst (pqc_profile_startup_check True k') \<and> fst (pqc_profile_startup_check False k')"
    if "k' = pqc_kdr_set_provider (Some (g_dna E d')) k"
    using that by (auto simp: pqc_kdr_set_provider_def pqc_kdr_get_provider_def pqc_kdr_is_hardware_backed_def
        g_dna_def pqc_profile_startup_check_def)
  show ?thesis
  proof (cases ok)
    case True
    then have r: "dn_ready d'" "k' = pqc_kdr_set_provider (Some (g_dna E d')) k" using install_cases[OF e] by auto
    have "\<exists>raw. read_dna_local M = Some raw \<and> length raw = 16 \<and> dna_plausible raw \<and>
        dna_root_of E raw = Some (dn_root d')" if "cs = []"
      using install_cases[OF e] True first[OF that] r(1) read_length by auto
    then show ?thesis using True g r p by (auto simp: genuine_def)
  qed (use install_cases[OF e] in simp)
qed

end
