(* ===== verification/P11_State.thy ===== *)
theory P11_State
  imports Dna Keystore
begin

text \<open>
  src/src/p11/p11_module.c, the PKCS\#11 front-end: its types, its state and the helpers in front of the
  C\_ functions. CK\_ULONG has 64 bits (LP64). A NULL pointer is None or False, an attribute buffer is the
  list of its bytes next to ulValueLen, and a function returns what it wrote through its pointers. A buffer
  that grows can leave the C language: where its loop does not end, or where it is written past its end, the
  call has a \<open>fault\<close> and no result.
\<close>

section \<open>Constants of the standard\<close>

datatype ck_rv =
    CKR_OK | CKR_ARGUMENTS_BAD | CKR_OPERATION_NOT_INITIALIZED | CKR_USER_NOT_LOGGED_IN | CKR_PIN_INCORRECT
  | CKR_PIN_LOCKED | CKR_OBJECT_HANDLE_INVALID | CKR_KEY_FUNCTION_NOT_PERMITTED | CKR_ACTION_PROHIBITED
  | CKR_DEVICE_ERROR | CKR_OPERATION_ACTIVE | CKR_HOST_MEMORY | CKR_SESSION_COUNT | CKR_GENERAL_ERROR
  | CKR_CRYPTOKI_ALREADY_INITIALIZED | CKR_CRYPTOKI_NOT_INITIALIZED | CKR_BUFFER_TOO_SMALL
  | CKR_SLOT_ID_INVALID | CKR_MECHANISM_INVALID | CKR_PIN_LEN_RANGE | CKR_SESSION_HANDLE_INVALID
  | CKR_SESSION_PARALLEL_NOT_SUPPORTED | CKR_USER_TYPE_INVALID | CKR_TEMPLATE_INCOMPLETE
  | CKR_ATTRIBUTE_VALUE_INVALID | CKR_ATTRIBUTE_SENSITIVE | CKR_ATTRIBUTE_TYPE_INVALID
  | CKR_KEY_TYPE_INCONSISTENT | CKR_SIGNATURE_INVALID | CKR_ENCRYPTED_DATA_LEN_RANGE
  | CKR_KEY_HANDLE_INVALID | CKR_KEY_SIZE_RANGE | CKR_MECHANISM_PARAM_INVALID | CKR_FUNCTION_FAILED
  | CKR_ENCRYPTED_DATA_INVALID

definition CKM_ML_KEM_KEY_PAIR_GEN :: u64 where "CKM_ML_KEM_KEY_PAIR_GEN = 0x0f"
definition CKM_ML_KEM :: u64 where "CKM_ML_KEM = 0x17"
definition CKM_ML_DSA_KEY_PAIR_GEN :: u64 where "CKM_ML_DSA_KEY_PAIR_GEN = 0x1c"
definition CKM_ML_DSA :: u64 where "CKM_ML_DSA = 0x1d"
definition CKM_AES_GCM :: u64 where "CKM_AES_GCM = 0x1087"

lemmas ckm_defs = CKM_ML_KEM_KEY_PAIR_GEN_def CKM_ML_KEM_def CKM_ML_DSA_KEY_PAIR_GEN_def CKM_ML_DSA_def
  CKM_AES_GCM_def

definition CKA_CLASS :: u64 where "CKA_CLASS = 0"
definition CKA_TOKEN :: u64 where "CKA_TOKEN = 1"
definition CKA_PRIVATE :: u64 where "CKA_PRIVATE = 2"
definition CKA_LABEL :: u64 where "CKA_LABEL = 3"
definition CKA_VALUE :: u64 where "CKA_VALUE = 0x11"
definition CKA_KEY_TYPE :: u64 where "CKA_KEY_TYPE = 0x100"
definition CKA_ID :: u64 where "CKA_ID = 0x102"
definition CKA_SENSITIVE :: u64 where "CKA_SENSITIVE = 0x103"
definition CKA_SIGN :: u64 where "CKA_SIGN = 0x108"
definition CKA_VERIFY :: u64 where "CKA_VERIFY = 0x10a"
definition CKA_VALUE_LEN :: u64 where "CKA_VALUE_LEN = 0x161"
definition CKA_EXTRACTABLE :: u64 where "CKA_EXTRACTABLE = 0x162"
definition CKA_PARAMETER_SET :: u64 where "CKA_PARAMETER_SET = 0x61d"
definition CKA_ENCAPSULATE :: u64 where "CKA_ENCAPSULATE = 0x633"
definition CKA_DECAPSULATE :: u64 where "CKA_DECAPSULATE = 0x634"
definition CKA_SEED :: u64 where "CKA_SEED = 0x637"
definition CKA_PQCHSM_BACKUPABLE :: u64 where "CKA_PQCHSM_BACKUPABLE = 0x80000001"
definition CKA_PQCHSM_SEED_STORAGE :: u64 where "CKA_PQCHSM_SEED_STORAGE = 0x80000002"

lemmas cka_defs = CKA_CLASS_def CKA_TOKEN_def CKA_PRIVATE_def CKA_LABEL_def CKA_VALUE_def CKA_KEY_TYPE_def
  CKA_ID_def CKA_SENSITIVE_def CKA_SIGN_def CKA_VERIFY_def CKA_VALUE_LEN_def CKA_EXTRACTABLE_def
  CKA_PARAMETER_SET_def CKA_ENCAPSULATE_def CKA_DECAPSULATE_def CKA_SEED_def CKA_PQCHSM_BACKUPABLE_def
  CKA_PQCHSM_SEED_STORAGE_def

definition CKO_PUBLIC_KEY :: u64 where "CKO_PUBLIC_KEY = 2"
definition CKO_PRIVATE_KEY :: u64 where "CKO_PRIVATE_KEY = 3"
definition CKO_SECRET_KEY :: u64 where "CKO_SECRET_KEY = 4"
definition CKK_GENERIC_SECRET :: u64 where "CKK_GENERIC_SECRET = 0x10"
definition CKK_AES :: u64 where "CKK_AES = 0x1f"
definition CKK_ML_KEM :: u64 where "CKK_ML_KEM = 0x49"
definition CKK_ML_DSA :: u64 where "CKK_ML_DSA = 0x4a"
definition CKK_VENDOR_DEFINED :: u64 where "CKK_VENDOR_DEFINED = 0x80000000"
definition CKU_SO :: u64 where "CKU_SO = 0"
definition CKU_USER :: u64 where "CKU_USER = 1"
definition CKF_SERIAL_SESSION :: u64 where "CKF_SERIAL_SESSION = 4"
definition CKF_RW_SESSION :: u64 where "CKF_RW_SESSION = 2"

text \<open>The value an attribute or a length has when there is none.\<close>

definition CK_UNAVAILABLE_INFORMATION :: u64 where "CK_UNAVAILABLE_INFORMATION = - 1"

lemmas cko_defs = CKO_PUBLIC_KEY_def CKO_PRIVATE_KEY_def CKO_SECRET_KEY_def

record ck_attr =
  at_type :: u64
  at_value :: "bytes option"
  at_len :: u64

section \<open>State\<close>

definition DEFAULT_SLOTS :: u64 where "DEFAULT_SLOTS = 4"
definition MAX_P11_SESSIONS :: nat where "MAX_P11_SESSIONS = 32"
definition MAX_SECRETS :: nat where "MAX_SECRETS = 32"
definition SECRET_MAX_LEN :: nat where "SECRET_MAX_LEN = 64"

text \<open>Handles of objects: the low 12 bits an index, 18 bits of generation, two flags.\<close>

definition P11_IDX_BITS :: nat where "P11_IDX_BITS = 12"
definition P11_IDX_MASK :: u64 where "P11_IDX_MASK = 0xfff"
definition P11_GEN_MASK :: u64 where "P11_GEN_MASK = 0x3ffff"
definition SECRET_BIT :: u64 where "SECRET_BIT = push_bit 30 1"
definition PUB_BIT :: u64 where "PUB_BIT = push_bit 31 1"

text \<open>A buffer that grows: what it holds and its capacity, which is zero exactly for the NULL pointer.\<close>

record p11_buf =
  bf_data :: bytes
  bf_cap :: u64

definition buf_free :: p11_buf where
  "buf_free = \<lparr>bf_data = [], bf_cap = 0\<rparr>"

definition bf_p :: "p11_buf \<Rightarrow> bytes option" where
  "bf_p b = (if bf_cap b = 0 then None else Some (bf_data b))"

text \<open>Doubling the capacity, in the arithmetic of size\_t; None is a loop that does not end.\<close>

partial_function (option) grow_cap :: "u64 \<Rightarrow> u64 \<Rightarrow> u64 option" where
  "grow_cap cap need = (if cap < need then grow_cap (cap * 2) need else Some cap)"

text \<open>
  How a call can fail to come back as C defines it: a loop that does not end, or a copy that runs past the
  end of its buffer.
\<close>

datatype fault = Never_Ends | Out_Of_Bounds

text \<open>The copy at the end of buf\_append, into the room that there is.\<close>

definition buf_copy ::
    "p11_buf \<Rightarrow> bytes option \<Rightarrow> u64 \<Rightarrow> 'a world_scheme \<Rightarrow> fault + bool \<times> p11_buf \<times> 'a world_scheme" where
  "buf_copy b d n w =
     (if length (bf_data b) + unat n > unat (bf_cap b) then Inl Out_Of_Bounds
      else Inr (True, b\<lparr>bf_data := bf_data b @ mem d (unat n)\<rparr>, w))"

text \<open>Whether it worked, the buffer and the state. The sum of the two lengths wraps as a size\_t does.\<close>

definition buf_append ::
    "env \<Rightarrow> p11_buf \<Rightarrow> bytes option \<Rightarrow> u64 \<Rightarrow> 'a world_scheme \<Rightarrow> fault + bool \<times> p11_buf \<times> 'a world_scheme" where
  "buf_append E b d n w =
     (if n = 0 then Inr (True, b, w)
      else let need = of_nat (length (bf_data b)) + n in
        if need > bf_cap b then
          (case grow_cap (if bf_cap b = 0 then 256 else bf_cap b * 2) need of
             None \<Rightarrow> Inl Never_Ends
           | Some cap \<Rightarrow>
               if \<not> malloc_ok E (tick w) (unat cap) then Inr (False, b, next_tick w)
               else buf_copy (b\<lparr>bf_cap := cap\<rparr>) d n (next_tick w))
        else buf_copy b d n w)"

record p11_aead_ctx =
  ac_active :: bool
  ac_key :: u64
  ac_iv :: bytes
  ac_aad :: bytes
  ac_taglen :: u64

definition aead_ctx_reset :: p11_aead_ctx where
  "aead_ctx_reset = \<lparr>ac_active = False, ac_key = 0, ac_iv = [], ac_aad = [], ac_taglen = 0\<rparr>"

record p11_session =
  ps_sess :: u64
  ps_slot :: u64
  ps_in_use :: bool
  find_active :: bool
  ps_found :: "u64 list"
  found_pos :: nat
  sign_active :: bool
  verify_active :: bool
  sign_key :: u64
  verify_key :: u64
  sign_acc :: p11_buf
  verify_acc :: p11_buf
  ps_enc :: p11_aead_ctx
  ps_dec :: p11_aead_ctx

definition blank_p11_session :: p11_session where
  "blank_p11_session =
     \<lparr>ps_sess = 0, ps_slot = 0, ps_in_use = False, find_active = False, ps_found = [], found_pos = 0,
      sign_active = False, verify_active = False, sign_key = 0, verify_key = 0, sign_acc = buf_free,
      verify_acc = buf_free, ps_enc = aead_ctx_reset, ps_dec = aead_ctx_reset\<rparr>"

text \<open>A session key object; the bytes of its value are the first len of its array.\<close>

record p11_secret =
  ko_in_use :: bool
  ko_owner :: u64
  ko_val :: bytes
  ko_key_type :: u64
  ko_sensitive :: bool
  ko_extractable :: bool
  ko_label :: bytes

definition blank_secret :: p11_secret where
  "blank_secret =
     \<lparr>ko_in_use = False, ko_owner = 0, ko_val = [], ko_key_type = 0, ko_sensitive = False, ko_extractable = False,
      ko_label = replicate 32 0\<rparr>"

text \<open>
  The globals of the module. g\_init is set exactly while g\_tok is not NULL, so both are one field: \<open>Inl\<close>
  is the world outside while the module is not initialized. \<open>g_env\<close> holds what C\_Initialize installs
  (entropy source, back end, root key provider), \<open>g_dna_st\<close> the statics of kdr\_dna.c.
\<close>

record p11 =
  g_env :: env
  g_dna_st :: dna_state
  g_tok :: "world + hsm_token"
  g_ks_path :: bytes
  g_audit_path :: bytes
  g_n_slots :: u64
  g_sessions :: "p11_session list"
  g_secrets :: "p11_secret list"

definition p11_start :: "env \<Rightarrow> world \<Rightarrow> p11" where
  "p11_start E w =
     \<lparr>g_env = E, g_dna_st = dna_start, g_tok = Inl w, g_ks_path = [], g_audit_path = [], g_n_slots = DEFAULT_SLOTS,
      g_sessions = replicate MAX_P11_SESSIONS blank_p11_session, g_secrets = replicate MAX_SECRETS blank_secret\<rparr>"

section \<open>Session key objects\<close>

definition secret_idx :: "p11 \<Rightarrow> u64 \<Rightarrow> nat option" where
  "secret_idx P h =
     (if h AND SECRET_BIT = 0 then None
      else let idx = unat (h AND P11_IDX_MASK) in
        if idx = 0 \<or> idx > MAX_SECRETS then None
        else if ko_in_use (g_secrets P ! (idx - 1)) then Some (idx - 1) else None)"

definition secret_at :: "p11 \<Rightarrow> u64 \<Rightarrow> p11_secret option" where
  "secret_at P h = map_option (\<lambda>i. g_secrets P ! i) (secret_idx P h)"

fun first_index :: "('a \<Rightarrow> bool) \<Rightarrow> 'a list \<Rightarrow> nat option" where
  "first_index f [] = None"
| "first_index f (x # xs) = (if f x then Some 0 else map_option Suc (first_index f xs))"

text \<open>The index and the handle of a fresh object.\<close>

definition secret_alloc :: "u64 \<Rightarrow> p11 \<Rightarrow> (nat \<times> u64 \<times> p11) option" where
  "secret_alloc owner P =
     map_option
       (\<lambda>i. (i, SECRET_BIT OR of_nat (Suc i),
             P\<lparr>g_secrets := (g_secrets P)[i := blank_secret\<lparr>ko_in_use := True, ko_owner := owner\<rparr>]\<rparr>))
       (first_index (\<lambda>k. \<not> ko_in_use k) (g_secrets P))"

definition set_secret :: "nat \<Rightarrow> (p11_secret \<Rightarrow> p11_secret) \<Rightarrow> p11 \<Rightarrow> p11" where
  "set_secret i f P = P\<lparr>g_secrets := (g_secrets P)[i := f (g_secrets P ! i)]\<rparr>"

definition secrets_drop_owner :: "u64 \<Rightarrow> p11 \<Rightarrow> p11" where
  "secrets_drop_owner owner P =
     P\<lparr>g_secrets := map (\<lambda>k. if ko_in_use k \<and> (owner = 0 \<or> ko_owner k = owner) then blank_secret else k)
                     (g_secrets P)\<rparr>"

section \<open>AES-GCM\<close>

text \<open>A length passed as an int.\<close>

definition int_len :: "u64 \<Rightarrow> int" where
  "int_len n = sint (ucast n :: u32)"

definition gcm_by_keylen :: "nat \<Rightarrow> bool" where
  "gcm_by_keylen klen \<longleftrightarrow> klen = 16 \<or> klen = 24 \<or> klen = 32"

text \<open>
  The key size picks the cipher; the parameter evp\_gcm\_encrypt takes it from the key. The tag is cut to
  taglen bytes. A negative length is an error of the library.
\<close>

definition aead_seal :: "env \<Rightarrow> bytes \<Rightarrow> p11_aead_ctx \<Rightarrow> bytes option \<Rightarrow> int \<Rightarrow> (bytes \<times> bytes) option" where
  "aead_seal E key c pt n =
     (if \<not> gcm_by_keylen (length key) \<or> n < 0 then None
      else map_option (\<lambda>(ct, tag). (ct, take (unat (ac_taglen c)) tag))
             (evp_gcm_encrypt E key (ac_iv c) (ac_aad c) (mem pt (nat n))))"

definition aead_open :: "env \<Rightarrow> bytes \<Rightarrow> p11_aead_ctx \<Rightarrow> bytes option \<Rightarrow> int \<Rightarrow> bytes \<Rightarrow> bytes option" where
  "aead_open E key c ct n tag =
     (if \<not> gcm_by_keylen (length key) \<or> n < 0 then None
      else evp_gcm_decrypt E key (ac_iv c) (ac_aad c) (mem ct (nat n)) tag)"

section \<open>Small tools\<close>

definition pad_str :: "nat \<Rightarrow> bytes \<Rightarrow> bytes" where
  "pad_str n src = (let s = take n (c_string src) in s @ replicate (n - length s) 32)"

fun map_status :: "hsm_status \<Rightarrow> ck_rv" where
  "map_status HSM_OK = CKR_OK"
| "map_status HSM_ERR_BAD_ARG = CKR_ARGUMENTS_BAD"
| "map_status HSM_ERR_BAD_STATE = CKR_OPERATION_NOT_INITIALIZED"
| "map_status HSM_ERR_NOT_AUTHORIZED = CKR_USER_NOT_LOGGED_IN"
| "map_status HSM_ERR_PIN_INCORRECT = CKR_PIN_INCORRECT"
| "map_status HSM_ERR_PIN_LOCKED = CKR_PIN_LOCKED"
| "map_status HSM_ERR_BAD_HANDLE = CKR_OBJECT_HANDLE_INVALID"
| "map_status HSM_ERR_USAGE_DENIED = CKR_KEY_FUNCTION_NOT_PERMITTED"
| "map_status HSM_ERR_POLICY = CKR_ACTION_PROHIBITED"
| "map_status HSM_ERR_INTEGRITY = CKR_DEVICE_ERROR"
| "map_status HSM_ERR_SLOT_BUSY = CKR_OPERATION_ACTIVE"
| "map_status HSM_ERR_CRYPTO = CKR_DEVICE_ERROR"
| "map_status HSM_ERR_NOMEM = CKR_HOST_MEMORY"
| "map_status HSM_ERR_FULL = CKR_SESSION_COUNT"

definition alg_from_param :: "u64 \<Rightarrow> u64 \<Rightarrow> pqc_alg" where
  "alg_from_param mech pset =
     (if mech = CKM_ML_DSA_KEY_PAIR_GEN \<or> mech = CKM_ML_DSA then
        (if pset = 1 then PQC_ALG_ML_DSA_44 else if pset = 2 then PQC_ALG_ML_DSA_65
         else if pset = 3 then PQC_ALG_ML_DSA_87 else PQC_ALG_NONE)
      else if mech = CKM_ML_KEM_KEY_PAIR_GEN \<or> mech = CKM_ML_KEM then
        (if pset = 1 then PQC_ALG_ML_KEM_512 else if pset = 2 then PQC_ALG_ML_KEM_768
         else if pset = 3 then PQC_ALG_ML_KEM_1024 else PQC_ALG_NONE)
      else PQC_ALG_NONE)"

definition param_from_alg :: "pqc_alg \<Rightarrow> u64" where
  "param_from_alg a =
     (if a = PQC_ALG_ML_DSA_44 \<or> a = PQC_ALG_ML_KEM_512 then 1
      else if a = PQC_ALG_ML_DSA_65 \<or> a = PQC_ALG_ML_KEM_768 then 2
      else if a = PQC_ALG_ML_DSA_87 \<or> a = PQC_ALG_ML_KEM_1024 then 3 else 0)"

definition keytype_from_alg :: "pqc_alg \<Rightarrow> u64" where
  "keytype_from_alg a =
     (case pqc_alg_info a of
        None \<Rightarrow> CKK_VENDOR_DEFINED
      | Some i \<Rightarrow> if ai_kind i = PQC_KIND_KEM then CKK_ML_KEM else CKK_ML_DSA)"

text \<open>The module sets no hook; it saves after a call instead, whatever comes of it.\<close>

definition no_hook :: hook where
  "no_hook user tok = (True, tok)"

definition set_tok :: "hsm_token \<Rightarrow> p11 \<Rightarrow> p11" where
  "set_tok tok P = P\<lparr>g_tok := Inr tok\<rparr>"

definition p11_persist :: "p11 \<Rightarrow> p11" where
  "p11_persist P =
     (case g_tok P of
        Inl _ \<Rightarrow> P
      | Inr tok \<Rightarrow>
          if c_string (g_ks_path P) = [] then P
          else case snd (hsm_keystore_save (g_env P) None (-1) (Some tok) (Some (g_ks_path P))) of
            None \<Rightarrow> P
          | Some tok1 \<Rightarrow> set_tok tok1 P)"

definition sess_at :: "p11 \<Rightarrow> u64 \<Rightarrow> p11_session option" where
  "sess_at P h =
     (if h = 0 \<or> unat h > MAX_P11_SESSIONS then None
      else let s = g_sessions P ! (unat h - 1) in if ps_in_use s then Some s else None)"

definition set_sess :: "u64 \<Rightarrow> p11_session \<Rightarrow> p11 \<Rightarrow> p11" where
  "set_sess h s P = P\<lparr>g_sessions := (g_sessions P)[unat h - 1 := s]\<rparr>"

text \<open>How nearly every function begins.\<close>

definition with_token :: "p11 \<Rightarrow> 'o \<Rightarrow> (hsm_token \<Rightarrow> ck_rv \<times> 'o \<times> p11) \<Rightarrow> ck_rv \<times> 'o \<times> p11" where
  "with_token P no f =
     (case g_tok P of Inl _ \<Rightarrow> (CKR_CRYPTOKI_NOT_INITIALIZED, no, P) | Inr tok \<Rightarrow> f tok)"

definition in_session ::
    "p11 \<Rightarrow> u64 \<Rightarrow> 'o \<Rightarrow> (hsm_token \<Rightarrow> p11_session \<Rightarrow> ck_rv \<times> 'o \<times> p11) \<Rightarrow> ck_rv \<times> 'o \<times> p11" where
  "in_session P h no f =
     with_token P no
       (\<lambda>tok. case sess_at P h of None \<Rightarrow> (CKR_SESSION_HANDLE_INVALID, no, P) | Some s \<Rightarrow> f tok s)"

section \<open>Object handles\<close>

definition slot_of_handle :: "u64 \<Rightarrow> u32" where
  "slot_of_handle h = ucast ((h AND P11_IDX_MASK) - 1)"

definition get_meta :: "p11 \<Rightarrow> hsm_token \<Rightarrow> u32 \<Rightarrow> slot_meta option" where
  "get_meta P tok sid = (case hsm_slot_get_meta (g_env P) tok sid True of Inl _ \<Rightarrow> None | Inr m \<Rightarrow> Some m)"

definition priv_handle :: "p11 \<Rightarrow> hsm_token \<Rightarrow> u32 \<Rightarrow> u64" where
  "priv_handle P tok slot =
     (case get_meta P tok slot of
        None \<Rightarrow> 0
      | Some m \<Rightarrow>
          if m_state m \<noteq> SLOT_ST_LOADED \<and> m_state m \<noteq> SLOT_ST_IN_USE then 0
          else push_bit P11_IDX_BITS (ucast (m_generation m) AND P11_GEN_MASK) OR ucast (slot + 1))"

definition p11_handle_of_core :: "u64 \<Rightarrow> u64" where
  "p11_handle_of_core core =
     (if core = 0 then 0
      else let idx = core AND 0xffffffff in
        if idx = 0 \<or> idx > P11_IDX_MASK then 0
        else push_bit P11_IDX_BITS (drop_bit 32 core AND P11_GEN_MASK) OR idx)"

definition core_handle_of :: "p11 \<Rightarrow> hsm_token \<Rightarrow> u64 \<Rightarrow> u64" where
  "core_handle_of P tok h =
     (if h AND SECRET_BIT \<noteq> 0 then 0
      else let idx = h AND P11_IDX_MASK in
        if idx = 0 then 0
        else case get_meta P tok (ucast (idx - 1)) of
          None \<Rightarrow> 0
        | Some m \<Rightarrow>
            if drop_bit P11_IDX_BITS h AND P11_GEN_MASK \<noteq> ucast (m_generation m) AND P11_GEN_MASK then 0
            else push_bit 32 (ucast (m_generation m)) OR idx)"

section \<open>Templates\<close>

fun find_attr :: "ck_attr list \<Rightarrow> u64 \<Rightarrow> ck_attr option" where
  "find_attr [] ty = None"
| "find_attr (a # as) ty = (if at_type a = ty then Some a else find_attr as ty)"

definition attr_bool :: "ck_attr list \<Rightarrow> u64 \<Rightarrow> bool \<Rightarrow> bool" where
  "attr_bool t ty dflt =
     (case find_attr t ty of
        None \<Rightarrow> dflt
      | Some a \<Rightarrow> if at_value a = None \<or> at_len a \<noteq> 1 then dflt else mem (at_value a) 1 \<noteq> [0])"

definition attr_ulong :: "ck_attr option \<Rightarrow> u64 \<Rightarrow> u64" where
  "attr_ulong ao dflt =
     (case ao of
        None \<Rightarrow> dflt
      | Some a \<Rightarrow> if at_value a = None \<or> at_len a \<noteq> 8 then dflt else get_u64 (mem (at_value a) 8))"

definition fill_attr :: "ck_attr \<Rightarrow> bytes \<Rightarrow> ck_rv \<times> ck_attr" where
  "fill_attr a val =
     (case at_value a of
        None \<Rightarrow> (CKR_OK, a\<lparr>at_len := of_nat (length val)\<rparr>)
      | Some buf \<Rightarrow>
          if unat (at_len a) < length val
          then (CKR_BUFFER_TOO_SMALL, a\<lparr>at_len := CK_UNAVAILABLE_INFORMATION\<rparr>)
          else (CKR_OK, a\<lparr>at_value := Some (write_at 0 val buf), at_len := of_nat (length val)\<rparr>))"

end
