(* ===== verification/P11_Ops.thy ===== *)
theory P11_Ops
  imports P11_State
begin

text \<open>
  The C\_ functions of src/src/p11/p11\_module.c on the module, its slots and sessions, on key pairs and on
  objects. Each returns its CK\_RV, what it wrote through its pointers, and the state it leaves.
\<close>

section \<open>The module\<close>

text \<open>What C\_Initialize finds outside: environment variables, the register window, the daemon's parts.\<close>

record p11_host =
  ev_keystore :: "bytes option"
  ev_home :: "bytes option"
  ev_slots :: "bytes option"
  ev_hwrng :: "bytes option"
  ev_backend :: "bytes option"
  ev_kdr :: "bytes option"
  ev_audit :: "bytes option"
  host_mmio :: secmmio
  host_rng :: "nat hwrng_byte_source"
  host_backend :: pqc_backend

text \<open>A variable that is set and not empty, and one that has a given value.\<close>

definition ev_nonempty :: "bytes option \<Rightarrow> bytes option" where
  "ev_nonempty v = (case v of None \<Rightarrow> None | Some s \<Rightarrow> if c_string s = [] then None else Some (c_string s))"

definition ev_is :: "bytes option \<Rightarrow> string \<Rightarrow> bool" where
  "ev_is v s = (case v of None \<Rightarrow> False | Some x \<Rightarrow> c_string x = cstr s)"

text \<open>The path of the key store, cut to a buffer of 512 bytes, and the number of slots.\<close>

definition init_path :: "p11_host \<Rightarrow> bytes" where
  "init_path V =
     take 511 (case ev_nonempty (ev_keystore V) of
                 Some p \<Rightarrow> p
               | None \<Rightarrow> (case ev_home V of None \<Rightarrow> cstr ''/tmp'' | Some h \<Rightarrow> c_string h) @
                           cstr ''/.pqchsm/keystore.bin'')"

definition init_slots :: "p11_host \<Rightarrow> u64 \<Rightarrow> u64" where
  "init_slots V n =
     (case ev_nonempty (ev_slots V) of
        None \<Rightarrow> n
      | Some s \<Rightarrow> let v = c_strtol s in if 0 < v \<and> v \<le> 64 then of_int v else n)"

text \<open>Entropy source, back end and root key provider; the flag says whether all that was asked for is there.\<close>

definition init_rng :: "p11_host \<Rightarrow> env \<Rightarrow> bool \<times> env" where
  "init_rng V E =
     (if ev_is (ev_hwrng V) ''sdfe'' then
        let E1 = E\<lparr>rng_module := hwrng_set_byte_source (Some (host_rng V)) (rng_module E)\<rparr> in
        (hwrng_is_hardware (rng_module E1), E1)
      else (True, E))"

definition init_backend :: "p11_host \<Rightarrow> env \<Rightarrow> bool \<times> env" where
  "init_backend V E =
     (if ev_is (ev_backend V) ''sdfe'' then
        let E1 = E\<lparr>installed_backend := Some (host_backend V)\<rparr> in
        (pqc_backend_has_hw_keys_kind E1 (kind_mask PQC_KIND_KEM), E1)
      else (True, E))"

definition init_kdr :: "p11_host \<Rightarrow> env \<Rightarrow> dna_state \<Rightarrow> bool \<times> env \<times> dna_state" where
  "init_kdr V E d =
     (if ev_is (ev_kdr V) ''device-dna'' then
        (case pqc_kdr_install_device_dna E (host_mmio V) d (kdr E) of
           (ok, d1, k) \<Rightarrow> (ok, E\<lparr>kdr := k\<rparr>, d1))
      else (case pqc_kdr_install_stub (production E) (kdr E) of (ok, k) \<Rightarrow> (ok, E\<lparr>kdr := k\<rparr>, d)))"

text \<open>
  The token and its key store: a store that does not load is refused if the file can be opened, and counts
  as not being there if it cannot.
\<close>

definition init_token :: "env \<Rightarrow> bytes \<Rightarrow> u64 \<Rightarrow> world \<Rightarrow> ck_rv \<times> (world + hsm_token)" where
  "init_token E path n w =
     (case hsm_token_new E (unat n) w of
        (None, w1) \<Rightarrow> (CKR_HOST_MEMORY, Inl w1)
      | (Some tok, _) \<Rightarrow>
          (case hsm_keystore_load E None (Some tok) (Some path) of
             (st, tp) \<Rightarrow>
               let t1 = (case tp of None \<Rightarrow> tok | Some t \<Rightarrow> t) in
               if st = HSM_OK then (CKR_OK, Inr t1)
               else (case fopen_read E path t1 of
                       (Some _, t2) \<Rightarrow> (CKR_DEVICE_ERROR, Inl (world.truncate t2))
                     | (None, t2) \<Rightarrow> (CKR_OK, Inr t2))))"

text \<open>The log, by default beside the key store; the buffer of the path has 600 bytes.\<close>

definition init_audit_path :: "p11_host \<Rightarrow> bytes \<Rightarrow> bytes option" where
  "init_audit_path V ks =
     (if ev_is (ev_audit V) ''off'' then None
      else Some (take 599 (case ev_nonempty (ev_audit V) of Some p \<Rightarrow> p | None \<Rightarrow> ks @ cstr ''.audit'')))"

definition init_audit :: "env \<Rightarrow> bytes option \<Rightarrow> hsm_token \<Rightarrow> ck_rv \<times> (world + hsm_token)" where
  "init_audit E want tok =
     (case want of
        None \<Rightarrow> (CKR_OK, Inr tok)
      | Some p \<Rightarrow>
          (case audit_open E (Some p) tok of
             (None, t1) \<Rightarrow> (CKR_DEVICE_ERROR, Inl (world.truncate t1))
           | (Some log, t1) \<Rightarrow> (CKR_OK, Inr (hsm_token_attach_audit t1 (Some log)))))"

definition C_Initialize :: "p11_host \<Rightarrow> p11 \<Rightarrow> ck_rv \<times> p11" where
  "C_Initialize V P =
     (case g_tok P of
        Inr _ \<Rightarrow> (CKR_CRYPTOKI_ALREADY_INITIALIZED, P)
      | Inl w \<Rightarrow>
          let path = init_path V; n = init_slots V (g_n_slots P);
              P1 = P\<lparr>g_ks_path := path, g_n_slots := n\<rparr> in
          (case init_rng V (g_env P1) of (ok1, E1) \<Rightarrow>
             let P2 = P1\<lparr>g_env := E1\<rparr> in
             if \<not> ok1 then (CKR_DEVICE_ERROR, P2)
             else case init_backend V E1 of (ok2, E2) \<Rightarrow>
               let P3 = P2\<lparr>g_env := E2\<rparr> in
               if \<not> ok2 then (CKR_DEVICE_ERROR, P3)
               else case init_kdr V E2 (g_dna_st P3) of (ok3, E3, d) \<Rightarrow>
                 let P4 = P3\<lparr>g_env := E3, g_dna_st := d\<rparr> in
                 if \<not> ok3 then (CKR_DEVICE_ERROR, P4)
                 else case init_token E3 path n w of
                   (rv, Inl w1) \<Rightarrow> (rv, P4\<lparr>g_tok := Inl w1\<rparr>)
                 | (_, Inr tok) \<Rightarrow>
                     let P5 = (case init_audit_path V path of None \<Rightarrow> P4 | Some a \<Rightarrow> P4\<lparr>g_audit_path := a\<rparr>) in
                     (case init_audit E3 (init_audit_path V path) tok of
                        (rv, Inl w1) \<Rightarrow> (rv, P5\<lparr>g_tok := Inl w1\<rparr>)
                      | (_, Inr tok1) \<Rightarrow>
                          (CKR_OK, P5\<lparr>g_tok := Inr tok1,
                                      g_sessions := replicate MAX_P11_SESSIONS blank_p11_session\<rparr>))))"

definition C_Finalize :: "bool \<Rightarrow> p11 \<Rightarrow> ck_rv \<times> p11" where
  "C_Finalize reserved P =
     (if reserved then (CKR_ARGUMENTS_BAD, P)
      else case g_tok P of
        Inl _ \<Rightarrow> (CKR_CRYPTOKI_NOT_INITIALIZED, P)
      | Inr _ \<Rightarrow>
          let P1 = p11_persist P in
          (CKR_OK, (secrets_drop_owner 0 P1)
             \<lparr>g_tok := (case g_tok P1 of Inl w \<Rightarrow> Inl w | Inr tok \<Rightarrow> Inl (world.truncate tok)),
              g_sessions := replicate MAX_P11_SESSIONS blank_p11_session\<rparr>))"

section \<open>What there is\<close>

record ck_info =
  ci_version :: "nat \<times> nat"
  ci_manufacturer :: bytes
  ci_description :: bytes
  ci_lib_version :: "nat \<times> nat"

definition P11_MANUFACTURER :: bytes where "P11_MANUFACTURER = cstr ''pqc-hsm prototype''"

definition C_GetInfo :: "bool \<Rightarrow> ck_rv \<times> ck_info option" where
  "C_GetInfo pInfo =
     (if \<not> pInfo then (CKR_ARGUMENTS_BAD, None)
      else (CKR_OK, Some \<lparr>ci_version = (3, 2), ci_manufacturer = pad_str 32 P11_MANUFACTURER,
                          ci_description = pad_str 32 (cstr ''pqc-hsm PKCS#11 v3.2 front-end''),
                          ci_lib_version = (0, 1)\<rparr>))"

text \<open>The list written, if the buffer is there and large enough, and the count.\<close>

definition C_GetSlotList :: "bool \<Rightarrow> u64 option \<Rightarrow> p11 \<Rightarrow> ck_rv \<times> u64 list option \<times> u64 option" where
  "C_GetSlotList pSlotList pulCount P =
     (case pulCount of
        None \<Rightarrow> (CKR_ARGUMENTS_BAD, None, None)
      | Some count \<Rightarrow>
          (case g_tok P of
             Inl _ \<Rightarrow> (CKR_CRYPTOKI_NOT_INITIALIZED, None, None)
           | Inr _ \<Rightarrow>
               let n = g_n_slots P in
               if \<not> pSlotList then (CKR_OK, None, Some n)
               else if count < n then (CKR_BUFFER_TOO_SMALL, None, Some n)
               else (CKR_OK, Some (map of_nat [0..<unat n]), Some n)))"

record ck_slot_info =
  si_description :: bytes
  si_manufacturer :: bytes
  si_flags :: u64
  si_firmware :: "nat \<times> nat"

definition C_GetSlotInfo :: "u64 \<Rightarrow> bool \<Rightarrow> p11 \<Rightarrow> ck_rv \<times> ck_slot_info option" where
  "C_GetSlotInfo slotID pInfo P =
     (if \<not> pInfo then (CKR_ARGUMENTS_BAD, None)
      else case g_tok P of
        Inl _ \<Rightarrow> (CKR_CRYPTOKI_NOT_INITIALIZED, None)
      | Inr _ \<Rightarrow>
          if slotID \<ge> g_n_slots P then (CKR_SLOT_ID_INVALID, None)
          else (CKR_OK, Some \<lparr>si_description = pad_str 64 (cstr ''pqc-hsm software slot '' @ dec_digits (unat slotID)),
                              si_manufacturer = pad_str 32 P11_MANUFACTURER, si_flags = 1,
                              si_firmware = (0, 1)\<rparr>))"

definition CKF_RNG :: u64 where "CKF_RNG = 1"
definition CKF_LOGIN_REQUIRED :: u64 where "CKF_LOGIN_REQUIRED = 4"
definition CKF_USER_PIN_INITIALIZED :: u64 where "CKF_USER_PIN_INITIALIZED = 8"
definition CKF_TOKEN_INITIALIZED :: u64 where "CKF_TOKEN_INITIALIZED = 0x400"
definition CKF_USER_PIN_LOCKED :: u64 where "CKF_USER_PIN_LOCKED = 0x40000"

record ck_token_info =
  ti_label :: bytes
  ti_manufacturer :: bytes
  ti_model :: bytes
  ti_serial :: bytes
  ti_flags :: u64
  ti_max_sessions :: nat
  ti_pin_lens :: "nat \<times> nat"
  ti_firmware :: "nat \<times> nat"

definition token_flags :: "slot_meta \<Rightarrow> bool \<Rightarrow> bool \<Rightarrow> u64" where
  "token_flags m so_set user_set =
     (if m_state m = SLOT_ST_UNINIT then CKF_LOGIN_REQUIRED else CKF_LOGIN_REQUIRED OR CKF_TOKEN_INITIALIZED) OR
     (if user_set then CKF_USER_PIN_INITIALIZED else 0) OR
     (if m_state m = SLOT_ST_LOCKED then CKF_USER_PIN_LOCKED else 0) OR (if so_set then CKF_RNG else 0)"

definition C_GetTokenInfo :: "u64 \<Rightarrow> bool \<Rightarrow> p11 \<Rightarrow> ck_rv \<times> ck_token_info option" where
  "C_GetTokenInfo slotID pInfo P =
     (if \<not> pInfo then (CKR_ARGUMENTS_BAD, None)
      else case g_tok P of
        Inl _ \<Rightarrow> (CKR_CRYPTOKI_NOT_INITIALIZED, None)
      | Inr tok \<Rightarrow>
          if slotID \<ge> g_n_slots P then (CKR_SLOT_ID_INVALID, None)
          else (case get_meta P tok (ucast slotID) of
              None \<Rightarrow> (CKR_DEVICE_ERROR, None)
            | Some m \<Rightarrow>
                let (so_set, user_set) = (case hsm_slot_pin_status tok (ucast slotID) of
                                            Inl _ \<Rightarrow> (False, False) | Inr p \<Rightarrow> p);
                    digits = dec_digits (unat slotID) in
                (CKR_OK, Some \<lparr>ti_label = pad_str 32 (if c_string (m_label m) = [] then cstr ''(uninitialized)''
                                                      else m_label m),
                               ti_manufacturer = pad_str 32 P11_MANUFACTURER,
                               ti_model = pad_str 16 (cstr ''pqc-hsm-sw''),
                               ti_serial = pad_str 16 (replicate (8 - length digits) 48 @ digits),
                               ti_flags = token_flags m so_set user_set, ti_max_sessions = MAX_P11_SESSIONS,
                               ti_pin_lens = (HSM_PIN_MIN_LEN, HSM_PIN_MAX_LEN), ti_firmware = (0, 1)\<rparr>)))"

definition MECHS :: "u64 list" where
  "MECHS = [CKM_ML_DSA_KEY_PAIR_GEN, CKM_ML_DSA, CKM_ML_KEM_KEY_PAIR_GEN, CKM_ML_KEM, CKM_AES_GCM]"

definition C_GetMechanismList :: "u64 \<Rightarrow> bool \<Rightarrow> u64 option \<Rightarrow> p11 \<Rightarrow> ck_rv \<times> u64 list option \<times> u64 option" where
  "C_GetMechanismList slotID pList pulCount P =
     (case pulCount of
        None \<Rightarrow> (CKR_ARGUMENTS_BAD, None, None)
      | Some count \<Rightarrow>
          if slotID \<ge> g_n_slots P then (CKR_SLOT_ID_INVALID, None, None)
          else let n = of_nat (length MECHS) in
            if \<not> pList then (CKR_OK, None, Some n)
            else if count < n then (CKR_BUFFER_TOO_SMALL, None, Some n)
            else (CKR_OK, Some MECHS, Some n))"

text \<open>Flags and the two key sizes.\<close>

definition C_GetMechanismInfo :: "u64 \<Rightarrow> u64 \<Rightarrow> bool \<Rightarrow> p11 \<Rightarrow> ck_rv \<times> (u64 \<times> u64 \<times> u64) option" where
  "C_GetMechanismInfo slotID ty pInfo P =
     (if \<not> pInfo then (CKR_ARGUMENTS_BAD, None)
      else if slotID \<ge> g_n_slots P then (CKR_SLOT_ID_INVALID, None)
      else if ty = CKM_ML_DSA_KEY_PAIR_GEN then (CKR_OK, Some (0x10000, 0, 0))
      else if ty = CKM_ML_DSA then (CKR_OK, Some (0x800 OR 0x2000, 0, 0))
      else if ty = CKM_ML_KEM_KEY_PAIR_GEN then (CKR_OK, Some (0x10000, 0, 0))
      else if ty = CKM_ML_KEM then (CKR_OK, Some (0x10000000 OR 0x20000000, 0, 0))
      else if ty = CKM_AES_GCM then (CKR_OK, Some (0x100 OR 0x200, 16, 32))
      else (CKR_MECHANISM_INVALID, Some (0, 0, 0)))"

end
