(* ===== verification/P11_Objects.thy ===== *)
theory P11_Objects
  imports P11_Ops
begin

text \<open>
  src/src/p11/p11\_module.c: PINs, sessions, key pairs, the search for objects, their attributes and the
  import of objects.
\<close>

section \<open>PINs\<close>

text \<open>A PIN is copied and closed with a NUL.\<close>

definition pin_copy :: "bytes option \<Rightarrow> u64 \<Rightarrow> bytes option" where
  "pin_copy pPin n = Some (mem pPin (unat n) @ [0])"

text \<open>31 bytes of the label, with the blanks at its end made NUL, or the default.\<close>

definition token_label :: "bytes option \<Rightarrow> bytes" where
  "token_label pLabel =
     (let l = (case pLabel of
                 None \<Rightarrow> replicate SLOT_LABEL_MAX 0
               | Some l \<Rightarrow> buf_write SLOT_LABEL_MAX (rev (dropWhile (\<lambda>b. b = 32) (rev (take (SLOT_LABEL_MAX - 1) l)))))
      in if c_string l = [] then cstr ''token'' else l)"

definition C_InitToken :: "u64 \<Rightarrow> bytes option \<Rightarrow> u64 \<Rightarrow> bytes option \<Rightarrow> p11 \<Rightarrow> ck_rv \<times> unit \<times> p11" where
  "C_InitToken slotID pPin ulPinLen pLabel P =
     with_token P () (\<lambda>tok.
       if slotID \<ge> g_n_slots P \<or> pPin = None then (CKR_ARGUMENTS_BAD, (), P)
       else if unat ulPinLen > HSM_PIN_MAX_LEN then (CKR_PIN_LEN_RANGE, (), P)
       else case hsm_slot_init_token (g_env P) no_hook tok (ucast slotID) (Some (token_label pLabel))
                   (pin_copy pPin ulPinLen) of
         (st, tok1) \<Rightarrow>
           let P1 = set_tok tok1 P in
           if st \<noteq> HSM_OK then (if st = HSM_ERR_BAD_STATE then CKR_ACTION_PROHIBITED else map_status st, (), P1)
           else (CKR_OK, (), p11_persist P1))"

definition C_InitPIN :: "u64 \<Rightarrow> bytes option \<Rightarrow> u64 \<Rightarrow> p11 \<Rightarrow> ck_rv \<times> unit \<times> p11" where
  "C_InitPIN h pPin ulPinLen P =
     in_session P h () (\<lambda>tok s.
       if pPin = None \<or> unat ulPinLen > HSM_PIN_MAX_LEN then (CKR_PIN_LEN_RANGE, (), P)
       else case hsm_slot_set_user_pin (g_env P) no_hook tok (ps_sess s) (pin_copy pPin ulPinLen) of
         (st, tok1) \<Rightarrow>
           let P1 = set_tok tok1 P in
           (map_status st, (), if map_status st = CKR_OK then p11_persist P1 else P1))"

section \<open>Sessions\<close>

definition C_OpenSession :: "u64 \<Rightarrow> u64 \<Rightarrow> bool \<Rightarrow> p11 \<Rightarrow> ck_rv \<times> u64 option \<times> p11" where
  "C_OpenSession slotID flags phSession P =
     with_token P None (\<lambda>tok.
       if slotID \<ge> g_n_slots P \<or> \<not> phSession then (CKR_ARGUMENTS_BAD, None, P)
       else if flags AND CKF_SERIAL_SESSION = 0 then (CKR_SESSION_PARALLEL_NOT_SUPPORTED, None, P)
       else case first_index (\<lambda>s. \<not> ps_in_use s) (g_sessions P) of
         None \<Rightarrow> (CKR_SESSION_COUNT, None, P)
       | Some idx \<Rightarrow>
           (case hsm_session_open tok (ucast slotID) True of
              (Inl e, tok1) \<Rightarrow> (map_status e, None, set_tok tok1 P)
            | (Inr hs, tok1) \<Rightarrow>
                (CKR_OK, Some (of_nat (Suc idx)),
                 (set_tok tok1 P)\<lparr>g_sessions := (g_sessions P)[idx :=
                    blank_p11_session\<lparr>ps_in_use := True, ps_sess := hs, ps_slot := slotID\<rparr>]\<rparr>)))"

text \<open>Closing the session at an index: on the token, its buffers and its key objects.\<close>

definition close_at :: "nat \<Rightarrow> p11 \<Rightarrow> p11" where
  "close_at i P =
     (let s = g_sessions P ! i;
          P1 = (case g_tok P of Inl _ \<Rightarrow> P | Inr tok \<Rightarrow> set_tok (snd (hsm_session_close tok (ps_sess s))) P) in
      (secrets_drop_owner (of_nat (Suc i)) P1)\<lparr>g_sessions := (g_sessions P)[i := blank_p11_session]\<rparr>)"

definition C_CloseSession :: "u64 \<Rightarrow> p11 \<Rightarrow> ck_rv \<times> unit \<times> p11" where
  "C_CloseSession h P = in_session P h () (\<lambda>tok s. (CKR_OK, (), close_at (unat h - 1) P))"

definition C_CloseAllSessions :: "u64 \<Rightarrow> p11 \<Rightarrow> ck_rv \<times> unit \<times> p11" where
  "C_CloseAllSessions slotID P =
     (CKR_OK, (), fold (\<lambda>i P. if ps_in_use (g_sessions P ! i) \<and> ps_slot (g_sessions P ! i) = slotID
                              then close_at i P else P) [0..<MAX_P11_SESSIONS] P)"

text \<open>Slot, state and flags.\<close>

definition C_GetSessionInfo :: "u64 \<Rightarrow> bool \<Rightarrow> p11 \<Rightarrow> ck_rv \<times> (u64 \<times> u64 \<times> u64) option \<times> p11" where
  "C_GetSessionInfo h pInfo P =
     in_session P h None (\<lambda>tok s.
       if \<not> pInfo then (CKR_ARGUMENTS_BAD, None, P)
       else let role = (case hsm_session_role tok (ps_sess s) True of Inl _ \<Rightarrow> HSM_ROLE_PUBLIC | Inr r \<Rightarrow> r) in
         (CKR_OK, Some (ps_slot s,
                        if role = HSM_ROLE_SO then 4 else if role = HSM_ROLE_USER then 3 else 2,
                        CKF_SERIAL_SESSION OR CKF_RW_SESSION), P))"

text \<open>Saved also after a failure, which has counted.\<close>

definition C_Login :: "u64 \<Rightarrow> u64 \<Rightarrow> bytes option \<Rightarrow> u64 \<Rightarrow> p11 \<Rightarrow> ck_rv \<times> unit \<times> p11" where
  "C_Login h userType pPin ulPinLen P =
     in_session P h () (\<lambda>tok s.
       if pPin = None \<or> unat ulPinLen > HSM_PIN_MAX_LEN then (CKR_PIN_LEN_RANGE, (), P)
       else if userType \<noteq> CKU_SO \<and> userType \<noteq> CKU_USER then (CKR_USER_TYPE_INVALID, (), P)
       else case hsm_session_login (g_env P) no_hook tok (ps_sess s)
                   (if userType = CKU_SO then HSM_ROLE_SO else HSM_ROLE_USER) (pin_copy pPin ulPinLen) of
         (st, tok1) \<Rightarrow> (map_status st, (), p11_persist (set_tok tok1 P)))"

definition C_Logout :: "u64 \<Rightarrow> p11 \<Rightarrow> ck_rv \<times> unit \<times> p11" where
  "C_Logout h P =
     in_session P h () (\<lambda>tok s.
       case hsm_session_logout tok (ps_sess s) of (st, tok1) \<Rightarrow> (map_status st, (), set_tok tok1 P))"

section \<open>Key pairs\<close>

definition key_usage :: "pqc_alg_info \<Rightarrow> u32" where
  "key_usage info = (if ai_kind info = PQC_KIND_SIG then KEY_USAGE_SIGN else KEY_USAGE_DECAP)"

definition key_policy :: "bool \<Rightarrow> bool \<Rightarrow> u32" where
  "key_policy backupable seed_storage =
     (if backupable then SLOT_POLICY_BACKUPABLE else 0) OR (if seed_storage then SLOT_POLICY_SEED_STORAGE else 0)"

text \<open>An attribute of the private template, else of the public one, else a default.\<close>

definition pair_bool :: "ck_attr list \<Rightarrow> ck_attr list \<Rightarrow> u64 \<Rightarrow> bool \<Rightarrow> bool" where
  "pair_bool pub prv ty dflt = attr_bool prv ty (attr_bool pub ty dflt)"

text \<open>The mechanism is None for a NULL pointer; the answer is the public and the private handle.\<close>

definition C_GenerateKeyPair ::
    "u64 \<Rightarrow> u64 option \<Rightarrow> ck_attr list \<Rightarrow> ck_attr list \<Rightarrow> bool \<Rightarrow> bool \<Rightarrow> p11 \<Rightarrow> ck_rv \<times> (u64 \<times> u64) option \<times> p11" where
  "C_GenerateKeyPair h pMechanism pub prv phPublicKey phPrivateKey P =
     in_session P h None (\<lambda>tok s.
       case pMechanism of
         None \<Rightarrow> (CKR_ARGUMENTS_BAD, None, P)
       | Some mech \<Rightarrow>
           if \<not> phPublicKey \<or> \<not> phPrivateKey then (CKR_ARGUMENTS_BAD, None, P)
           else let a = (case find_attr pub CKA_PARAMETER_SET of
                           None \<Rightarrow> find_attr prv CKA_PARAMETER_SET | Some a \<Rightarrow> Some a);
                    pset = attr_ulong a 0; alg = alg_from_param mech pset in
             (case pqc_alg_info alg of
                None \<Rightarrow> (if pset = 0 then CKR_TEMPLATE_INCOMPLETE else CKR_ATTRIBUTE_VALUE_INVALID, None, P)
              | Some info \<Rightarrow>
                  let policy = key_policy (pair_bool pub prv CKA_PQCHSM_BACKUPABLE True)
                                 (pair_bool pub prv CKA_PQCHSM_SEED_STORAGE False) in
                  (case hsm_slot_generate (g_env P) no_hook tok (ps_sess s) alg (key_usage info) policy True of
                     (st, hh, tok1) \<Rightarrow>
                       if st \<noteq> HSM_OK then (map_status st, None, set_tok tok1 P)
                       else let P1 = p11_persist (set_tok tok1 P);
                                ph = p11_handle_of_core (case hh of None \<Rightarrow> 0 | Some x \<Rightarrow> x) in
                         if ph = 0 then (CKR_GENERAL_ERROR, None, P1)
                         else (CKR_OK, Some (ph OR PUB_BIT, ph), P1))))"

definition C_DestroyObject :: "u64 \<Rightarrow> u64 \<Rightarrow> p11 \<Rightarrow> ck_rv \<times> unit \<times> p11" where
  "C_DestroyObject h hObject P =
     in_session P h () (\<lambda>tok s.
       if hObject AND SECRET_BIT \<noteq> 0 then
         (case secret_idx P hObject of
            None \<Rightarrow> (CKR_OBJECT_HANDLE_INVALID, (), P)
          | Some i \<Rightarrow> (CKR_OK, (), set_secret i (\<lambda>_. blank_secret) P))
       else let core = core_handle_of P tok hObject in
         if core = 0 then (CKR_OBJECT_HANDLE_INVALID, (), P)
         else case hsm_object_destroy (g_env P) no_hook tok (ps_sess s) core of
           (st, tok1) \<Rightarrow>
             let P1 = set_tok tok1 P in
             (map_status st, (), if map_status st = CKR_OK then p11_persist P1 else P1))"

section \<open>Searching\<close>

definition C_FindObjectsInit :: "u64 \<Rightarrow> ck_attr list \<Rightarrow> p11 \<Rightarrow> ck_rv \<times> unit \<times> p11" where
  "C_FindObjectsInit h tmpl P =
     in_session P h () (\<lambda>tok s.
       if find_active s then (CKR_OPERATION_ACTIVE, (), P)
       else let want = attr_ulong (find_attr tmpl CKA_CLASS) (- 1); prv = priv_handle P tok (ucast (ps_slot s));
                found = (if prv = 0 then []
                         else (if want = - 1 \<or> want = CKO_PUBLIC_KEY then [prv OR PUB_BIT] else []) @
                              (if want = - 1 \<or> want = CKO_PRIVATE_KEY then [prv] else [])) in
         (CKR_OK, (), set_sess h (s\<lparr>ps_found := found, found_pos := 0, find_active := True\<rparr>) P))"

definition C_FindObjects :: "u64 \<Rightarrow> bool \<Rightarrow> u64 \<Rightarrow> bool \<Rightarrow> p11 \<Rightarrow> ck_rv \<times> u64 list option \<times> p11" where
  "C_FindObjects h phObject ulMax pulCount P =
     in_session P h None (\<lambda>tok s.
       if \<not> phObject \<or> \<not> pulCount then (CKR_ARGUMENTS_BAD, None, P)
       else if \<not> find_active s then (CKR_OPERATION_NOT_INITIALIZED, None, P)
       else let out = take (unat ulMax) (drop (found_pos s) (ps_found s)) in
         (CKR_OK, Some out, set_sess h (s\<lparr>found_pos := found_pos s + length out\<rparr>) P))"

definition C_FindObjectsFinal :: "u64 \<Rightarrow> p11 \<Rightarrow> ck_rv \<times> unit \<times> p11" where
  "C_FindObjectsFinal h P =
     in_session P h () (\<lambda>tok s.
       (CKR_OK, (), set_sess h (s\<lparr>find_active := False, ps_found := [], found_pos := 0\<rparr>) P))"

section \<open>Attributes\<close>

definition ck_bool :: "bool \<Rightarrow> bytes" where
  "ck_bool b = [if b then 1 else 0]"

definition no_attr :: "ck_rv \<Rightarrow> ck_attr \<Rightarrow> ck_rv \<times> ck_attr" where
  "no_attr rv a = (rv, a\<lparr>at_len := CK_UNAVAILABLE_INFORMATION\<rparr>)"

text \<open>One attribute of a session key object.\<close>

definition secret_attr :: "p11_secret \<Rightarrow> ck_attr \<Rightarrow> ck_rv \<times> ck_attr" where
  "secret_attr k a =
     (let ty = at_type a in
      if ty = CKA_CLASS then fill_attr a (put_u64 CKO_SECRET_KEY)
      else if ty = CKA_KEY_TYPE then fill_attr a (put_u64 (ko_key_type k))
      else if ty = CKA_VALUE_LEN then fill_attr a (put_u64 (of_nat (length (ko_val k))))
      else if ty = CKA_LABEL then fill_attr a (c_string (ko_label k))
      else if ty = CKA_TOKEN then fill_attr a (ck_bool False)
      else if ty = CKA_PRIVATE then fill_attr a (ck_bool True)
      else if ty = CKA_SENSITIVE then fill_attr a (ck_bool (ko_sensitive k))
      else if ty = CKA_EXTRACTABLE then fill_attr a (ck_bool (ko_extractable k))
      else if ty = CKA_VALUE then
        (if \<not> ko_extractable k \<or> ko_sensitive k then no_attr CKR_ATTRIBUTE_SENSITIVE a
         else fill_attr a (ko_val k))
      else no_attr CKR_ATTRIBUTE_TYPE_INVALID a)"

text \<open>One attribute of a key of a slot; only the value of a public key is more than metadata.\<close>

definition key_attr ::
    "env \<Rightarrow> hsm_token \<Rightarrow> u64 \<Rightarrow> u64 \<Rightarrow> bool \<Rightarrow> slot_meta \<Rightarrow> pqc_alg_info \<Rightarrow> ck_attr \<Rightarrow> ck_rv \<times> ck_attr \<times> hsm_token" where
  "key_attr E tok sess core is_pub m info a =
     (let ty = at_type a; ret = (\<lambda>(rv, a'). (rv, a', tok)) in
      if ty = CKA_CLASS then ret (fill_attr a (put_u64 (if is_pub then CKO_PUBLIC_KEY else CKO_PRIVATE_KEY)))
      else if ty = CKA_KEY_TYPE then ret (fill_attr a (put_u64 (keytype_from_alg (m_alg m))))
      else if ty = CKA_PARAMETER_SET then ret (fill_attr a (put_u64 (param_from_alg (m_alg m))))
      else if ty = CKA_LABEL then ret (fill_attr a (c_string (m_label m)))
      else if ty = CKA_ID then ret (fill_attr a [ucast (m_slot_id m)])
      else if ty = CKA_TOKEN then ret (fill_attr a (ck_bool True))
      else if ty = CKA_PRIVATE then ret (fill_attr a (ck_bool (\<not> is_pub)))
      else if ty = CKA_SENSITIVE then ret (fill_attr a (ck_bool (\<not> is_pub)))
      else if ty = CKA_EXTRACTABLE then ret (fill_attr a (ck_bool (m_policy m AND SLOT_POLICY_EXTRACTABLE \<noteq> 0)))
      else if ty = CKA_SIGN then ret (fill_attr a (ck_bool (\<not> is_pub \<and> m_usage m AND KEY_USAGE_SIGN \<noteq> 0)))
      else if ty = CKA_VERIFY then ret (fill_attr a (ck_bool (is_pub \<and> m_usage m AND KEY_USAGE_SIGN \<noteq> 0)))
      else if ty = CKA_DECAPSULATE then ret (fill_attr a (ck_bool (\<not> is_pub \<and> m_usage m AND KEY_USAGE_DECAP \<noteq> 0)))
      else if ty = CKA_ENCAPSULATE then ret (fill_attr a (ck_bool (is_pub \<and> m_usage m AND KEY_USAGE_DECAP \<noteq> 0)))
      else if ty = CKA_PQCHSM_BACKUPABLE then ret (fill_attr a (ck_bool (m_policy m AND SLOT_POLICY_BACKUPABLE \<noteq> 0)))
      else if ty = CKA_PQCHSM_SEED_STORAGE then
        ret (fill_attr a (ck_bool (m_policy m AND SLOT_POLICY_SEED_STORAGE \<noteq> 0)))
      else if ty = CKA_VALUE then
        (if \<not> is_pub then ret (no_attr CKR_ATTRIBUTE_SENSITIVE a)
         else if \<not> malloc_ok E (tick tok) (ai_pk_len info) then (CKR_HOST_MEMORY, a, next_tick tok)
         else case hsm_object_public_key E (next_tick tok) sess core (Some (ai_pk_len info)) True of
           Inl _ \<Rightarrow> (CKR_OBJECT_HANDLE_INVALID, a, next_tick tok)
         | Inr pk \<Rightarrow> (case fill_attr a pk of (rv, a') \<Rightarrow> (rv, a', next_tick tok)))
      else ret (no_attr CKR_ATTRIBUTE_TYPE_INVALID a))"

text \<open>The whole template; the first error is kept.\<close>

definition worse :: "ck_rv \<Rightarrow> ck_rv \<Rightarrow> ck_rv" where
  "worse rv r = (if r \<noteq> CKR_OK \<and> rv = CKR_OK then r else rv)"

fun secret_attrs :: "p11_secret \<Rightarrow> ck_attr list \<Rightarrow> ck_rv \<Rightarrow> ck_rv \<times> ck_attr list" where
  "secret_attrs k [] rv = (rv, [])"
| "secret_attrs k (a # as) rv =
     (case secret_attr k a of (r, a') \<Rightarrow>
        (case secret_attrs k as (worse rv r) of (rv', as') \<Rightarrow> (rv', a' # as')))"

fun key_attrs ::
    "env \<Rightarrow> u64 \<Rightarrow> u64 \<Rightarrow> bool \<Rightarrow> slot_meta \<Rightarrow> pqc_alg_info \<Rightarrow> ck_attr list \<Rightarrow> ck_rv \<Rightarrow> hsm_token \<Rightarrow>
     ck_rv \<times> ck_attr list \<times> hsm_token" where
  "key_attrs E sess core is_pub m info [] rv tok = (rv, [], tok)"
| "key_attrs E sess core is_pub m info (a # as) rv tok =
     (case key_attr E tok sess core is_pub m info a of (r, a', tok1) \<Rightarrow>
        (case key_attrs E sess core is_pub m info as (worse rv r) tok1 of (rv', as', tok2) \<Rightarrow> (rv', a' # as', tok2)))"

definition C_GetAttributeValue ::
    "u64 \<Rightarrow> u64 \<Rightarrow> ck_attr list option \<Rightarrow> p11 \<Rightarrow> ck_rv \<times> ck_attr list option \<times> p11" where
  "C_GetAttributeValue h hObject pTemplate P =
     in_session P h pTemplate (\<lambda>tok s.
       case pTemplate of
         None \<Rightarrow> (CKR_ARGUMENTS_BAD, None, P)
       | Some tmpl \<Rightarrow>
           if hObject AND SECRET_BIT \<noteq> 0 then
             (case secret_at P hObject of
                None \<Rightarrow> (CKR_OBJECT_HANDLE_INVALID, Some tmpl, P)
              | Some k \<Rightarrow> (case secret_attrs k tmpl CKR_OK of (rv, out) \<Rightarrow> (rv, Some out, P)))
           else
             (case get_meta P tok (slot_of_handle hObject) of
                None \<Rightarrow> (CKR_OBJECT_HANDLE_INVALID, Some tmpl, P)
              | Some m \<Rightarrow>
                  (case pqc_alg_info (m_alg m) of
                     None \<Rightarrow> (CKR_OBJECT_HANDLE_INVALID, Some tmpl, P)
                   | Some info \<Rightarrow>
                       (case key_attrs (g_env P) (ps_sess s) (core_handle_of P tok hObject)
                               (hObject AND PUB_BIT \<noteq> 0) m info tmpl CKR_OK tok of
                          (rv, out, tok1) \<Rightarrow> (rv, Some out, set_tok tok1 P)))))"

section \<open>Importing\<close>

text \<open>What the template of a session key object sets besides its value.\<close>

definition secret_fill :: "ck_attr list \<Rightarrow> bytes \<Rightarrow> p11_secret \<Rightarrow> p11_secret" where
  "secret_fill tmpl val k =
     k\<lparr>ko_val := val, ko_key_type := attr_ulong (find_attr tmpl CKA_KEY_TYPE) CKK_GENERIC_SECRET,
       ko_sensitive := attr_bool tmpl CKA_SENSITIVE True, ko_extractable := attr_bool tmpl CKA_EXTRACTABLE False\<rparr>"

definition secret_label :: "ck_attr list \<Rightarrow> p11_secret \<Rightarrow> p11_secret" where
  "secret_label tmpl k =
     (case find_attr tmpl CKA_LABEL of
        None \<Rightarrow> k
      | Some a \<Rightarrow> if at_value a = None then k
                  else k\<lparr>ko_label := buf_write 32 (mem (at_value a) (min (unat (at_len a)) 31))\<rparr>)"

definition create_secret :: "u64 \<Rightarrow> ck_attr list \<Rightarrow> p11 \<Rightarrow> ck_rv \<times> u64 option \<times> p11" where
  "create_secret h tmpl P =
     (case find_attr tmpl CKA_VALUE of
        None \<Rightarrow> (CKR_TEMPLATE_INCOMPLETE, None, P)
      | Some v \<Rightarrow>
          if at_value v = None \<or> at_len v = 0 then (CKR_TEMPLATE_INCOMPLETE, None, P)
          else if unat (at_len v) > SECRET_MAX_LEN then (CKR_ATTRIBUTE_VALUE_INVALID, None, P)
          else (case secret_alloc h P of
              None \<Rightarrow> (CKR_HOST_MEMORY, None, P)
            | Some (i, oh, P1) \<Rightarrow>
                (CKR_OK, Some oh,
                 set_secret i (\<lambda>k. secret_label tmpl (secret_fill tmpl (mem (at_value v) (unat (at_len v))) k)) P1)))"

definition create_from_seed ::
    "p11 \<Rightarrow> hsm_token \<Rightarrow> p11_session \<Rightarrow> ck_attr list \<Rightarrow> ck_rv \<times> u64 option \<times> p11" where
  "create_from_seed P tok s tmpl =
     (if find_attr tmpl CKA_VALUE \<noteq> None then (CKR_ATTRIBUTE_TYPE_INVALID, None, P)
      else case find_attr tmpl CKA_SEED of
        None \<Rightarrow> (CKR_TEMPLATE_INCOMPLETE, None, P)
      | Some sd \<Rightarrow>
          if at_value sd = None then (CKR_TEMPLATE_INCOMPLETE, None, P)
          else let kt = attr_ulong (find_attr tmpl CKA_KEY_TYPE) (- 1);
                   pset = attr_ulong (find_attr tmpl CKA_PARAMETER_SET) 0 in
            if kt \<noteq> CKK_ML_KEM \<and> kt \<noteq> CKK_ML_DSA
            then (if kt = - 1 then CKR_TEMPLATE_INCOMPLETE else CKR_ATTRIBUTE_VALUE_INVALID, None, P)
            else let alg = alg_from_param (if kt = CKK_ML_KEM then CKM_ML_KEM else CKM_ML_DSA) pset in
              (case pqc_alg_info alg of
                 None \<Rightarrow> (if pset = 0 then CKR_TEMPLATE_INCOMPLETE else CKR_ATTRIBUTE_VALUE_INVALID, None, P)
               | Some info \<Rightarrow>
                   if unat (at_len sd) \<noteq> ai_seed_len info then (CKR_ATTRIBUTE_VALUE_INVALID, None, P)
                   else (case hsm_slot_load_seed (g_env P) no_hook tok (ps_sess s) alg (key_usage info)
                           (key_policy (attr_bool tmpl CKA_PQCHSM_BACKUPABLE True)
                              (attr_bool tmpl CKA_PQCHSM_SEED_STORAGE False))
                           (at_value sd) (unat (at_len sd)) True of
                       (st, hh, tok1) \<Rightarrow>
                         if st \<noteq> HSM_OK then (map_status st, None, set_tok tok1 P)
                         else let P1 = p11_persist (set_tok tok1 P);
                                  oh = p11_handle_of_core (case hh of None \<Rightarrow> 0 | Some x \<Rightarrow> x) in
                           (if oh = 0 then CKR_GENERAL_ERROR else CKR_OK, Some oh, P1))))"

definition C_CreateObject ::
    "u64 \<Rightarrow> ck_attr list option \<Rightarrow> bool \<Rightarrow> p11 \<Rightarrow> ck_rv \<times> u64 option \<times> p11" where
  "C_CreateObject h pTemplate phObject P =
     in_session P h None (\<lambda>tok s.
       case pTemplate of
         None \<Rightarrow> (CKR_ARGUMENTS_BAD, None, P)
       | Some tmpl \<Rightarrow>
           if \<not> phObject then (CKR_ARGUMENTS_BAD, None, P)
           else let cls = attr_ulong (find_attr tmpl CKA_CLASS) (- 1) in
             if cls = CKO_SECRET_KEY then create_secret h tmpl P
             else if cls \<noteq> CKO_PRIVATE_KEY
             then (if cls = - 1 then CKR_TEMPLATE_INCOMPLETE else CKR_ATTRIBUTE_VALUE_INVALID, None, P)
             else create_from_seed P tok s tmpl)"

end
