(* ===== verification/P11_Crypt.thy ===== *)
theory P11_Crypt
  imports P11_Objects
begin

text \<open>
  src/src/p11/p11\_module.c: signing and verifying in one and in several parts, encapsulation to session
  key objects, AES-GCM under them, and the two tables of functions. An output buffer is given as a bool
  (NULL or not) next to the length its caller wrote; what is written is the pair of the bytes and the new
  length. A call that would never return answers None as a whole.
\<close>

section \<open>Signing\<close>

type_synonym out_buf = "bytes option \<times> u64 option"

abbreviation no_out :: out_buf where "no_out \<equiv> (None, None)"

definition C_SignInit :: "u64 \<Rightarrow> u64 option \<Rightarrow> u64 \<Rightarrow> p11 \<Rightarrow> ck_rv \<times> unit \<times> p11" where
  "C_SignInit h pMechanism hKey P =
     in_session P h () (\<lambda>tok s.
       case pMechanism of
         None \<Rightarrow> (CKR_ARGUMENTS_BAD, (), P)
       | Some mech \<Rightarrow>
           if mech \<noteq> CKM_ML_DSA then (CKR_MECHANISM_INVALID, (), P)
           else if hKey AND PUB_BIT \<noteq> 0 then (CKR_KEY_TYPE_INCONSISTENT, (), P)
           else (CKR_OK, (), set_sess h (s\<lparr>sign_active := True, sign_key := hKey\<rparr>) P))"

text \<open>The algorithm a handle names, and its parameters, if it is of the kind wanted.\<close>

definition handle_alg :: "p11 \<Rightarrow> hsm_token \<Rightarrow> u64 \<Rightarrow> pqc_kind \<Rightarrow> ck_rv + pqc_alg \<times> pqc_alg_info" where
  "handle_alg P tok hKey kind =
     (case get_meta P tok (slot_of_handle hKey) of
        None \<Rightarrow> Inl CKR_OBJECT_HANDLE_INVALID
      | Some m \<Rightarrow>
          (case pqc_alg_info (m_alg m) of
             None \<Rightarrow> Inl CKR_KEY_TYPE_INCONSISTENT
           | Some info \<Rightarrow> if ai_kind info \<noteq> kind then Inl CKR_KEY_TYPE_INCONSISTENT else Inr (m_alg m, info)))"

definition C_Sign ::
    "u64 \<Rightarrow> bytes option \<Rightarrow> u64 \<Rightarrow> bool \<Rightarrow> u64 option \<Rightarrow> p11 \<Rightarrow> ck_rv \<times> out_buf \<times> p11" where
  "C_Sign h pData ulDataLen pSignature pulSignatureLen P =
     in_session P h no_out (\<lambda>tok s.
       case pulSignatureLen of
         None \<Rightarrow> (CKR_ARGUMENTS_BAD, no_out, P)
       | Some cap \<Rightarrow>
           if \<not> sign_active s then (CKR_OPERATION_NOT_INITIALIZED, no_out, P)
           else case handle_alg P tok (sign_key s) PQC_KIND_SIG of
             Inl rv \<Rightarrow> (rv, no_out, P)
           | Inr (alg, info) \<Rightarrow>
               if \<not> pSignature then (CKR_OK, (None, Some (of_nat (ai_sig_len info))), P)
               else if unat cap < ai_sig_len info
               then (CKR_BUFFER_TOO_SMALL, (None, Some (of_nat (ai_sig_len info))), P)
               else (case hsm_object_sign (g_env P) tok (ps_sess s) (core_handle_of P tok (sign_key s)) pData
                       (unat ulDataLen) None 0 (Some (unat cap)) True of
                   (st, bs, tok1) \<Rightarrow>
                     let P1 = set_tok tok1 P in
                     if st \<noteq> HSM_OK then (map_status st, (bs, None), P1)
                     else (CKR_OK, (bs, Some (of_nat (length (opt_bytes bs)))),
                           p11_persist (set_sess h (s\<lparr>sign_active := False\<rparr>) P1))))"

definition C_SignUpdate :: "u64 \<Rightarrow> bytes option \<Rightarrow> u64 \<Rightarrow> p11 \<Rightarrow> fault + ck_rv \<times> unit \<times> p11" where
  "C_SignUpdate h pPart ulPartLen P =
     (case g_tok P of
        Inl _ \<Rightarrow> Inr (CKR_CRYPTOKI_NOT_INITIALIZED, (), P)
      | Inr tok \<Rightarrow>
          (case sess_at P h of
             None \<Rightarrow> Inr (CKR_SESSION_HANDLE_INVALID, (), P)
           | Some s \<Rightarrow>
               if \<not> sign_active s then Inr (CKR_OPERATION_NOT_INITIALIZED, (), P)
               else if ulPartLen \<noteq> 0 \<and> pPart = None then Inr (CKR_ARGUMENTS_BAD, (), P)
               else (case buf_append (g_env P) (sign_acc s) pPart ulPartLen tok of
                   Inl f \<Rightarrow> Inl f
                 | Inr (ok, b, tok1) \<Rightarrow>
                     let P1 = set_tok tok1 P in
                     Inr (if ok then (CKR_OK, (), set_sess h (s\<lparr>sign_acc := b\<rparr>) P1)
                           else (CKR_HOST_MEMORY, (),
                                 set_sess h (s\<lparr>sign_acc := buf_free, sign_active := False\<rparr>) P1)))))"

definition C_SignFinal :: "u64 \<Rightarrow> bool \<Rightarrow> u64 option \<Rightarrow> p11 \<Rightarrow> ck_rv \<times> out_buf \<times> p11" where
  "C_SignFinal h pSignature pulSignatureLen P =
     in_session P h no_out (\<lambda>tok s.
       case pulSignatureLen of
         None \<Rightarrow> (CKR_ARGUMENTS_BAD, no_out, P)
       | Some cap \<Rightarrow>
           if \<not> sign_active s then (CKR_OPERATION_NOT_INITIALIZED, no_out, P)
           else case handle_alg P tok (sign_key s) PQC_KIND_SIG of
             Inl rv \<Rightarrow> (rv, no_out, P)
           | Inr (alg, info) \<Rightarrow>
               if \<not> pSignature then (CKR_OK, (None, Some (of_nat (ai_sig_len info))), P)
               else if unat cap < ai_sig_len info
               then (CKR_BUFFER_TOO_SMALL, (None, Some (of_nat (ai_sig_len info))), P)
               else (case hsm_object_sign (g_env P) tok (ps_sess s) (core_handle_of P tok (sign_key s))
                       (bf_p (sign_acc s)) (length (bf_data (sign_acc s))) None 0 (Some (unat cap)) True of
                   (st, bs, tok1) \<Rightarrow>
                     let P1 = set_sess h (s\<lparr>sign_acc := buf_free, sign_active := False\<rparr>) (set_tok tok1 P) in
                     if st \<noteq> HSM_OK then (map_status st, (bs, None), P1)
                     else (CKR_OK, (bs, Some (of_nat (length (opt_bytes bs)))), p11_persist P1)))"

section \<open>Verifying\<close>

definition C_VerifyInit :: "u64 \<Rightarrow> u64 option \<Rightarrow> u64 \<Rightarrow> p11 \<Rightarrow> ck_rv \<times> unit \<times> p11" where
  "C_VerifyInit h pMechanism hKey P =
     in_session P h () (\<lambda>tok s.
       case pMechanism of
         None \<Rightarrow> (CKR_ARGUMENTS_BAD, (), P)
       | Some mech \<Rightarrow>
           if mech \<noteq> CKM_ML_DSA then (CKR_MECHANISM_INVALID, (), P)
           else (CKR_OK, (), set_sess h (s\<lparr>verify_active := True, verify_key := hKey\<rparr>) P))"

definition verify_with_pubkey ::
    "p11 \<Rightarrow> hsm_token \<Rightarrow> p11_session \<Rightarrow> u64 \<Rightarrow> bytes option \<Rightarrow> nat \<Rightarrow> bytes option \<Rightarrow> nat \<Rightarrow> ck_rv \<times> hsm_token" where
  "verify_with_pubkey P tok s key data data_len sig sig_len =
     (case handle_alg P tok key PQC_KIND_SIG of
        Inl rv \<Rightarrow> (rv, tok)
      | Inr (alg, info) \<Rightarrow>
          if \<not> malloc_ok (g_env P) (tick tok) (ai_pk_len info) then (CKR_HOST_MEMORY, next_tick tok)
          else (case hsm_object_public_key (g_env P) (next_tick tok) (ps_sess s) (core_handle_of P tok key)
                       (Some (ai_pk_len info)) True of
              Inl _ \<Rightarrow> (CKR_OBJECT_HANDLE_INVALID, next_tick tok)
            | Inr pk \<Rightarrow>
                (case pqc_verify (g_env P) alg (Some pk) data data_len None 0 sig sig_len (next_tick tok) of
                   (r, tok1) \<Rightarrow> (case r of Inr _ \<Rightarrow> CKR_OK | Inl _ \<Rightarrow> CKR_SIGNATURE_INVALID, tok1))))"

definition C_Verify ::
    "u64 \<Rightarrow> bytes option \<Rightarrow> u64 \<Rightarrow> bytes option \<Rightarrow> u64 \<Rightarrow> p11 \<Rightarrow> ck_rv \<times> unit \<times> p11" where
  "C_Verify h pData ulDataLen pSignature ulSignatureLen P =
     in_session P h () (\<lambda>tok s.
       if \<not> verify_active s then (CKR_OPERATION_NOT_INITIALIZED, (), P)
       else case verify_with_pubkey P tok s (verify_key s) pData (unat ulDataLen) pSignature (unat ulSignatureLen) of
         (rv, tok1) \<Rightarrow> (rv, (), set_sess h (s\<lparr>verify_active := False\<rparr>) (set_tok tok1 P)))"

definition C_VerifyUpdate :: "u64 \<Rightarrow> bytes option \<Rightarrow> u64 \<Rightarrow> p11 \<Rightarrow> fault + ck_rv \<times> unit \<times> p11" where
  "C_VerifyUpdate h pPart ulPartLen P =
     (case g_tok P of
        Inl _ \<Rightarrow> Inr (CKR_CRYPTOKI_NOT_INITIALIZED, (), P)
      | Inr tok \<Rightarrow>
          (case sess_at P h of
             None \<Rightarrow> Inr (CKR_SESSION_HANDLE_INVALID, (), P)
           | Some s \<Rightarrow>
               if \<not> verify_active s then Inr (CKR_OPERATION_NOT_INITIALIZED, (), P)
               else if ulPartLen \<noteq> 0 \<and> pPart = None then Inr (CKR_ARGUMENTS_BAD, (), P)
               else (case buf_append (g_env P) (verify_acc s) pPart ulPartLen tok of
                   Inl f \<Rightarrow> Inl f
                 | Inr (ok, b, tok1) \<Rightarrow>
                     let P1 = set_tok tok1 P in
                     Inr (if ok then (CKR_OK, (), set_sess h (s\<lparr>verify_acc := b\<rparr>) P1)
                           else (CKR_HOST_MEMORY, (),
                                 set_sess h (s\<lparr>verify_acc := buf_free, verify_active := False\<rparr>) P1)))))"

definition C_VerifyFinal :: "u64 \<Rightarrow> bytes option \<Rightarrow> u64 \<Rightarrow> p11 \<Rightarrow> ck_rv \<times> unit \<times> p11" where
  "C_VerifyFinal h pSignature ulSignatureLen P =
     in_session P h () (\<lambda>tok s.
       if pSignature = None then (CKR_ARGUMENTS_BAD, (), P)
       else if \<not> verify_active s then (CKR_OPERATION_NOT_INITIALIZED, (), P)
       else case verify_with_pubkey P tok s (verify_key s) (bf_p (verify_acc s)) (length (bf_data (verify_acc s)))
                   pSignature (unat ulSignatureLen) of
         (rv, tok1) \<Rightarrow>
           (rv, (), set_sess h (s\<lparr>verify_acc := buf_free, verify_active := False\<rparr>) (set_tok tok1 P)))"

section \<open>Encapsulation\<close>

text \<open>The shared secret as a new session key object; the ciphertext and its length, and the handle.\<close>

definition C_EncapsulateKey ::
    "u64 \<Rightarrow> u64 option \<Rightarrow> u64 \<Rightarrow> ck_attr list \<Rightarrow> bool \<Rightarrow> u64 option \<Rightarrow> bool \<Rightarrow> p11 \<Rightarrow>
     ck_rv \<times> (out_buf \<times> u64 option) \<times> p11" where
  "C_EncapsulateKey h pMechanism hPublicKey tmpl pCiphertext pulCiphertextLen phKey P =
     in_session P h (no_out, None) (\<lambda>tok s.
       case (pMechanism, pulCiphertextLen) of
         (Some mech, Some cap) \<Rightarrow>
           if mech \<noteq> CKM_ML_KEM then (CKR_MECHANISM_INVALID, (no_out, None), P)
           else if hPublicKey AND PUB_BIT = 0 then (CKR_KEY_TYPE_INCONSISTENT, (no_out, None), P)
           else (case handle_alg P tok hPublicKey PQC_KIND_KEM of
               Inl rv \<Rightarrow> (rv, (no_out, None), P)
             | Inr (alg, info) \<Rightarrow>
                 let ctl = Some (of_nat (ai_ct_len info)) in
                 if \<not> pCiphertext then (CKR_OK, ((None, ctl), None), P)
                 else if unat cap < ai_ct_len info then (CKR_BUFFER_TOO_SMALL, ((None, ctl), None), P)
                 else if \<not> phKey then (CKR_ARGUMENTS_BAD, (no_out, None), P)
                 else if ai_ss_len info > SECRET_MAX_LEN then (CKR_GENERAL_ERROR, (no_out, None), P)
                 else if \<not> malloc_ok (g_env P) (tick tok) (ai_pk_len info)
                 then (CKR_HOST_MEMORY, (no_out, None), set_tok (next_tick tok) P)
                 else (case hsm_object_public_key (g_env P) (next_tick tok) (ps_sess s)
                              (core_handle_of P tok hPublicKey) (Some (ai_pk_len info)) True of
                     Inl e \<Rightarrow> (map_status e, (no_out, None), set_tok (next_tick tok) P)
                   | Inr pk \<Rightarrow>
                       (case pqc_encaps (g_env P) alg (Some pk) True True (next_tick tok) of
                          (Inl _, tok1) \<Rightarrow> (CKR_DEVICE_ERROR, (no_out, None), set_tok tok1 P)
                        | (Inr (ct, ss), tok1) \<Rightarrow>
                            (case secret_alloc h (set_tok tok1 P) of
                               None \<Rightarrow> (CKR_HOST_MEMORY, ((Some ct, None), None), set_tok tok1 P)
                             | Some (i, oh, P1) \<Rightarrow>
                                 (CKR_OK, ((Some ct, ctl), Some oh),
                                  set_secret i (secret_fill tmpl (buf_write (ai_ss_len info) ss)) P1)))))
       | _ \<Rightarrow> (CKR_ARGUMENTS_BAD, (no_out, None), P))"

definition C_DecapsulateKey ::
    "u64 \<Rightarrow> u64 option \<Rightarrow> u64 \<Rightarrow> ck_attr list \<Rightarrow> bytes option \<Rightarrow> u64 \<Rightarrow> bool \<Rightarrow> p11 \<Rightarrow> ck_rv \<times> u64 option \<times> p11" where
  "C_DecapsulateKey h pMechanism hPrivateKey tmpl pCiphertext ulCiphertextLen phKey P =
     in_session P h None (\<lambda>tok s.
       case pMechanism of
         None \<Rightarrow> (CKR_ARGUMENTS_BAD, None, P)
       | Some mech \<Rightarrow>
           if pCiphertext = None \<or> \<not> phKey then (CKR_ARGUMENTS_BAD, None, P)
           else if mech \<noteq> CKM_ML_KEM then (CKR_MECHANISM_INVALID, None, P)
           else if hPrivateKey AND PUB_BIT \<noteq> 0 then (CKR_KEY_TYPE_INCONSISTENT, None, P)
           else (case handle_alg P tok hPrivateKey PQC_KIND_KEM of
               Inl rv \<Rightarrow> (rv, None, P)
             | Inr (alg, info) \<Rightarrow>
                 if unat ulCiphertextLen \<noteq> ai_ct_len info then (CKR_ENCRYPTED_DATA_LEN_RANGE, None, P)
                 else (case hsm_object_decaps (g_env P) tok (ps_sess s) (core_handle_of P tok hPrivateKey)
                              pCiphertext (unat ulCiphertextLen) (Some SECRET_MAX_LEN) True of
                     (st, ss, tok1) \<Rightarrow>
                       let P1 = set_tok tok1 P in
                       if st \<noteq> HSM_OK then (map_status st, None, P1)
                       else (case secret_alloc h P1 of
                           None \<Rightarrow> (CKR_HOST_MEMORY, None, P1)
                         | Some (i, oh, P2) \<Rightarrow>
                             (CKR_OK, Some oh, p11_persist (set_secret i (secret_fill tmpl (opt_bytes ss)) P2))))))"

section \<open>AES-GCM\<close>

text \<open>CK\_GCM\_PARAMS, and a mechanism with the parameter if pParameter points to one of its size.\<close>

record gcm_params =
  gp_iv :: "bytes option"
  gp_iv_len :: u64
  gp_aad :: "bytes option"
  gp_aad_len :: u64
  gp_tag_bits :: u64

record ck_mechanism =
  me_type :: u64
  me_gcm :: "gcm_params option"

text \<open>The answer, the context and the token; the copy of the associated data is allocated.\<close>

definition aead_init ::
    "p11 \<Rightarrow> hsm_token \<Rightarrow> ck_mechanism \<Rightarrow> u64 \<Rightarrow> p11_aead_ctx \<Rightarrow> ck_rv \<times> p11_aead_ctx \<times> hsm_token" where
  "aead_init P tok mech hKey c =
     (if me_type mech \<noteq> CKM_AES_GCM then (CKR_MECHANISM_INVALID, c, tok)
      else if ac_active c then (CKR_OPERATION_ACTIVE, c, tok)
      else case secret_at P hKey of
        None \<Rightarrow> (CKR_KEY_HANDLE_INVALID, c, tok)
      | Some k \<Rightarrow>
          if ko_key_type k \<noteq> CKK_GENERIC_SECRET \<and> ko_key_type k \<noteq> CKK_AES
          then (CKR_KEY_TYPE_INCONSISTENT, c, tok)
          else if \<not> gcm_by_keylen (length (ko_val k)) then (CKR_KEY_SIZE_RANGE, c, tok)
          else (case me_gcm mech of
              None \<Rightarrow> (CKR_MECHANISM_PARAM_INVALID, c, tok)
            | Some p \<Rightarrow>
                if gp_iv p = None \<or> gp_iv_len p < 1 \<or> gp_iv_len p > 16 \<or>
                   gp_tag_bits p mod 8 \<noteq> 0 \<or> gp_tag_bits p < 96 \<or> gp_tag_bits p > 128 \<or>
                   gp_aad_len p \<noteq> 0 \<and> gp_aad p = None
                then (CKR_MECHANISM_PARAM_INVALID, c, tok)
                else let c1 = aead_ctx_reset\<lparr>ac_iv := mem (gp_iv p) (unat (gp_iv_len p)),
                                             ac_taglen := gp_tag_bits p div 8\<rparr>;
                         n = unat (gp_aad_len p);
                         tok1 = (if n = 0 then tok else next_tick tok) in
                  if n \<noteq> 0 \<and> \<not> malloc_ok (g_env P) (tick tok) n then (CKR_HOST_MEMORY, c1, tok1)
                  else (CKR_OK, c1\<lparr>ac_aad := mem (gp_aad p) n, ac_key := hKey, ac_active := True\<rparr>, tok1)))"

definition C_EncryptInit :: "u64 \<Rightarrow> ck_mechanism option \<Rightarrow> u64 \<Rightarrow> p11 \<Rightarrow> ck_rv \<times> unit \<times> p11" where
  "C_EncryptInit h pMechanism hKey P =
     in_session P h () (\<lambda>tok s.
       case pMechanism of
         None \<Rightarrow> (CKR_ARGUMENTS_BAD, (), P)
       | Some mech \<Rightarrow>
           (case aead_init P tok mech hKey (ps_enc s) of
              (rv, c, tok1) \<Rightarrow> (rv, (), set_sess h (s\<lparr>ps_enc := c\<rparr>) (set_tok tok1 P))))"

definition C_DecryptInit :: "u64 \<Rightarrow> ck_mechanism option \<Rightarrow> u64 \<Rightarrow> p11 \<Rightarrow> ck_rv \<times> unit \<times> p11" where
  "C_DecryptInit h pMechanism hKey P =
     in_session P h () (\<lambda>tok s.
       case pMechanism of
         None \<Rightarrow> (CKR_ARGUMENTS_BAD, (), P)
       | Some mech \<Rightarrow>
           (case aead_init P tok mech hKey (ps_dec s) of
              (rv, c, tok1) \<Rightarrow> (rv, (), set_sess h (s\<lparr>ps_dec := c\<rparr>) (set_tok tok1 P))))"

text \<open>The ciphertext goes to the front of the buffer and the tag behind ulDataLen bytes.\<close>

definition C_Encrypt ::
    "u64 \<Rightarrow> bytes option \<Rightarrow> u64 \<Rightarrow> bool \<Rightarrow> u64 option \<Rightarrow> p11 \<Rightarrow> ck_rv \<times> ((bytes \<times> bytes) option \<times> u64 option) \<times> p11" where
  "C_Encrypt h pData ulDataLen pEncryptedData pulEncryptedDataLen P =
     in_session P h (None, None) (\<lambda>tok s.
       case pulEncryptedDataLen of
         None \<Rightarrow> (CKR_ARGUMENTS_BAD, (None, None), P)
       | Some cap \<Rightarrow>
           if \<not> ac_active (ps_enc s) then (CKR_OPERATION_NOT_INITIALIZED, (None, None), P)
           else let need = ulDataLen + ac_taglen (ps_enc s) in
             if \<not> pEncryptedData then (CKR_OK, (None, Some need), P)
             else if cap < need then (CKR_BUFFER_TOO_SMALL, (None, Some need), P)
             else (case secret_at P (ac_key (ps_enc s)) of
                 None \<Rightarrow> (CKR_KEY_HANDLE_INVALID, (None, None), P)
               | Some k \<Rightarrow>
                   (case aead_seal (g_env P) (ko_val k) (ps_enc s) pData (int_len ulDataLen) of
                      None \<Rightarrow> (CKR_FUNCTION_FAILED, (None, None), P)
                    | Some out \<Rightarrow>
                        (CKR_OK, (Some out, Some need), set_sess h (s\<lparr>ps_enc := aead_ctx_reset\<rparr>) P))))"

text \<open>What a failed decryption leaves in the buffer is not part of the answer.\<close>

definition C_Decrypt ::
    "u64 \<Rightarrow> bytes option \<Rightarrow> u64 \<Rightarrow> bool \<Rightarrow> u64 option \<Rightarrow> p11 \<Rightarrow> ck_rv \<times> out_buf \<times> p11" where
  "C_Decrypt h pEncryptedData ulEncryptedDataLen pData pulDataLen P =
     in_session P h no_out (\<lambda>tok s.
       case pulDataLen of
         None \<Rightarrow> (CKR_ARGUMENTS_BAD, no_out, P)
       | Some cap \<Rightarrow>
           if \<not> ac_active (ps_dec s) then (CKR_OPERATION_NOT_INITIALIZED, no_out, P)
           else if ulEncryptedDataLen < ac_taglen (ps_dec s) then (CKR_ENCRYPTED_DATA_LEN_RANGE, no_out, P)
           else let pt_len = ulEncryptedDataLen - ac_taglen (ps_dec s) in
             if \<not> pData then (CKR_OK, (None, Some pt_len), P)
             else if cap < pt_len then (CKR_BUFFER_TOO_SMALL, (None, Some pt_len), P)
             else (case secret_at P (ac_key (ps_dec s)) of
                 None \<Rightarrow> (CKR_KEY_HANDLE_INVALID, no_out, P)
               | Some k \<Rightarrow>
                   let P1 = set_sess h (s\<lparr>ps_dec := aead_ctx_reset\<rparr>) P in
                   (case aead_open (g_env P) (ko_val k) (ps_dec s) pEncryptedData (int_len pt_len)
                           (slice (unat pt_len) (unat (ac_taglen (ps_dec s))) (opt_bytes pEncryptedData)) of
                      None \<Rightarrow> (CKR_ENCRYPTED_DATA_INVALID, no_out, P1)
                    | Some pt \<Rightarrow> (CKR_OK, (Some pt, Some pt_len), P1))))"

section \<open>The tables of functions\<close>

definition function_list :: "string list" where
  "function_list =
     [''C_Initialize'', ''C_Finalize'', ''C_GetInfo'', ''C_GetFunctionList'', ''C_GetSlotList'', ''C_GetSlotInfo'',
      ''C_GetTokenInfo'', ''C_GetMechanismList'', ''C_GetMechanismInfo'', ''C_InitToken'', ''C_InitPIN'',
      ''C_OpenSession'', ''C_CloseSession'', ''C_CloseAllSessions'', ''C_GetSessionInfo'', ''C_Login'',
      ''C_Logout'', ''C_DestroyObject'', ''C_GetAttributeValue'', ''C_FindObjectsInit'', ''C_FindObjects'',
      ''C_FindObjectsFinal'', ''C_SignInit'', ''C_Sign'', ''C_VerifyInit'', ''C_Verify'', ''C_GenerateKeyPair'',
      ''C_CreateObject'', ''C_SignUpdate'', ''C_SignFinal'', ''C_VerifyUpdate'', ''C_VerifyFinal'',
      ''C_EncryptInit'', ''C_Encrypt'', ''C_DecryptInit'', ''C_Decrypt'']"

definition function_list_32 :: "string list" where
  "function_list_32 =
     function_list @ [''C_GetInterfaceList'', ''C_GetInterface'', ''C_EncapsulateKey'', ''C_DecapsulateKey'']"

text \<open>An interface is its name and the table.\<close>

definition g_interface :: "bytes \<times> string list" where
  "g_interface = (cstr ''PKCS 11'', function_list_32)"

definition C_GetInterfaceList :: "bool \<Rightarrow> u64 option \<Rightarrow> ck_rv \<times> (bytes \<times> string list) list option \<times> u64 option" where
  "C_GetInterfaceList pList pulCount =
     (case pulCount of
        None \<Rightarrow> (CKR_ARGUMENTS_BAD, None, None)
      | Some count \<Rightarrow>
          if \<not> pList then (CKR_OK, None, Some 1)
          else if count < 1 then (CKR_BUFFER_TOO_SMALL, None, Some 1)
          else (CKR_OK, Some [g_interface], Some 1))"

definition C_GetInterface ::
    "bytes option \<Rightarrow> (byte \<times> byte) option \<Rightarrow> bool \<Rightarrow> u64 \<Rightarrow> ck_rv \<times> (bytes \<times> string list) option" where
  "C_GetInterface pName pVersion ppInterface flags =
     (if \<not> ppInterface then (CKR_ARGUMENTS_BAD, None)
      else if (case pName of None \<Rightarrow> False | Some n \<Rightarrow> c_string n \<noteq> cstr ''PKCS 11'') then (CKR_ARGUMENTS_BAD, None)
      else if (case pVersion of None \<Rightarrow> False | Some v \<Rightarrow> v \<noteq> (3, 2)) then (CKR_ARGUMENTS_BAD, None)
      else if flags AND NOT 1 \<noteq> 0 then (CKR_ARGUMENTS_BAD, None)
      else if flags AND 1 \<noteq> 0 then (CKR_FUNCTION_FAILED, None)
      else (CKR_OK, Some g_interface))"

definition C_GetFunctionList :: "bool \<Rightarrow> ck_rv \<times> string list option" where
  "C_GetFunctionList ppFunctionList =
     (if \<not> ppFunctionList then (CKR_ARGUMENTS_BAD, None) else (CKR_OK, Some function_list))"

end
