(* ===== verification/P11_Handles.thy ===== *)
theory P11_Handles
  imports P11_Crypt Slot_Keys
begin

text \<open>
  What an object handle of the PKCS\#11 front-end names: exactly the key whose generation has the same low
  18 bits; what the search finds; and the growth of the buffer that collects the parts of a message.
\<close>

section \<open>The growth of a buffer\<close>

lemma grow_step: "grow_cap cap need = (if cap < need then grow_cap (cap * 2) need else Some cap)"
  by (rule grow_cap.simps)

lemma unat_double: "unat (cap :: u64) < 2 ^ 63 \<Longrightarrow> unat (cap * 2) = unat cap * 2"
  by (simp add: unat_word_ariths)

lemma grow_ends:
  assumes "unat need \<le> 2 ^ 63" "0 < unat cap" "unat cap \<le> 2 ^ 63"
  shows "\<exists>c. grow_cap cap need = Some c \<and> need \<le> c \<and> unat c \<le> max (unat cap) (2 * unat need)"
  using assms
proof (induction "2 ^ 63 - unat cap" arbitrary: cap rule: less_induct)
  case less
  show ?case
  proof (cases "cap < need")
    case False
    then have "grow_cap cap need = Some cap" by (simp add: grow_step[of cap need])
    then show ?thesis using False by simp
  next
    case True
    then have b: "unat cap < unat need" by (simp add: word_less_nat_alt)
    then have d: "unat (cap * 2) = unat cap * 2" using unat_double less.prems(1) by simp
    show ?thesis
    proof (cases "unat cap * 2 \<le> 2 ^ 63")
      case True
      have "2 ^ 63 - unat (cap * 2) < 2 ^ 63 - unat cap" using True d less.prems(2) by simp
      then obtain c where "grow_cap (cap * 2) need = Some c" "need \<le> c" "unat c \<le> max (unat (cap * 2)) (2 * unat need)"
        using less.hyps[of "cap * 2"] less.prems d True by auto
      then show ?thesis using \<open>cap < need\<close> b d by (intro exI[of _ c]) (auto simp: grow_step[of cap need])
    next
      case False
      then have "\<not> cap * 2 < need" using d less.prems(1) by (simp add: word_less_nat_alt)
      then have "grow_cap (cap * 2) need = Some (cap * 2)" "need \<le> cap * 2"
        by (simp_all add: grow_step[of "cap * 2" need])
      then have "grow_cap cap need = Some (cap * 2)" "need \<le> cap * 2"
        using \<open>cap < need\<close> by (simp_all add: grow_step[of cap need])
      then show ?thesis using d b by simp
    qed
  qed
qed

text \<open>A capacity of zero stays zero.\<close>

lemma grow_zero: "0 < need \<Longrightarrow> grow_cap 0 need = None"
proof (rule ccontr)
  assume n: "0 < need" and "grow_cap 0 need \<noteq> None"
  then obtain c where "grow_cap 0 need = Some c" by auto
  then have "(0 :: u64) = 0 \<longrightarrow> need = 0"
  proof (rule grow_cap.raw_induct[of "\<lambda>cap need c. cap = 0 \<longrightarrow> need = 0", rotated])
    fix g :: "u64 \<Rightarrow> u64 \<Rightarrow> u64 option" and cap need c :: u64
    assume ih: "\<And>cap need c. g cap need = Some c \<Longrightarrow> cap = 0 \<longrightarrow> need = 0"
      and "(if cap < need then g (cap * 2) need else Some cap) = Some c"
    then show "cap = 0 \<longrightarrow> need = 0" by (cases "cap < need") (auto simp: word_gt_0)
  qed
  then show False using n by simp
qed

lemma grow_never:
  assumes "2 ^ 63 < unat need" "n \<le> 63"
  shows "grow_cap (2 ^ n) need = None"
  using assms(2)
proof (induction "63 - n" arbitrary: n)
  case 0
  then have n: "n = 63" by simp
  have "(2 :: u64) ^ 63 < need" using assms(1) by (simp add: word_less_nat_alt)
  moreover have "(2 :: u64) ^ 63 * 2 = 0" by simp
  ultimately have "grow_cap (2 ^ 63) need = grow_cap 0 need" by (metis grow_step)
  then show ?case using grow_zero[of need] assms(1) by (simp add: n word_less_nat_alt)
next
  case (Suc k)
  then have n: "n < 63" by simp
  have "(2 :: nat) ^ n < 2 ^ 64" using n by (intro power_strict_increasing) simp_all
  then have "unat (of_nat (2 ^ n) :: u64) = 2 ^ n" using n by (simp add: unsigned_of_nat take_bit_nat_eq_self del: of_nat_power)
  then have "unat ((2 :: u64) ^ n) = 2 ^ n" by simp
  then have "(2 :: u64) ^ n < need"
    using assms(1) n power_increasing[of n 63 "2 :: nat"] by (simp add: word_less_nat_alt)
  then have "grow_cap (2 ^ n) need = grow_cap (2 ^ Suc n) need" by (simp add: grow_step[of "2 ^ n" need] mult.commute)
  also have "\<dots> = None" using Suc(2) n by (intro Suc(1)) simp_all
  finally show ?case .
qed

section \<open>What a handle names\<close>

lemma idx_mask: "(x :: u64) AND P11_IDX_MASK = take_bit 12 x"
  by (simp add: P11_IDX_MASK_def take_bit_eq_mask mask_eq_exp_minus_1)

lemma gen_mask: "(x :: u64) AND P11_GEN_MASK = take_bit 18 x"
  by (simp add: P11_GEN_MASK_def take_bit_eq_mask mask_eq_exp_minus_1)

lemma bit_secret: "bit SECRET_BIT n \<longleftrightarrow> n = 30"
  unfolding SECRET_BIT_def bit_push_bit_iff bit_1_iff by (cases "n = 30") auto

lemma bit_pub: "bit PUB_BIT n \<longleftrightarrow> n = 31"
  unfolding PUB_BIT_def bit_push_bit_iff bit_1_iff by (cases "n = 31") auto

text \<open>The parts of a handle, with or without the flag of the public key.\<close>

lemma handle_bits:
  fixes G x :: u64
  assumes "f = 0 \<or> f = PUB_BIT"
  shows "bit (push_bit P11_IDX_BITS (take_bit 18 G) OR take_bit 12 x OR f) n \<longleftrightarrow>
           (if n < 12 then bit x n else if n < 30 then bit G (n - 12) else n = 31 \<and> f = PUB_BIT)"
proof -
  have f: "bit f n \<longleftrightarrow> n = 31 \<and> f = PUB_BIT" using assms bit_pub[of n] by auto
  show ?thesis
    unfolding bit_or_iff f P11_IDX_BITS_def bit_push_bit_iff bit_take_bit_iff by auto
qed

lemma handle_parts:
  fixes G x :: u64
  assumes f: "f = 0 \<or> f = PUB_BIT"
  defines "h \<equiv> push_bit P11_IDX_BITS (take_bit 18 G) OR take_bit 12 x OR f"
  shows "h AND SECRET_BIT = 0" "take_bit 12 h = take_bit 12 x"
    "take_bit 18 (drop_bit P11_IDX_BITS h) = take_bit 18 G"
proof -
  note hb = handle_bits[OF f, of G x, folded h_def]
  show "h AND SECRET_BIT = 0" by (rule bit_eqI) (simp add: bit_and_iff hb bit_secret)
  show "take_bit 12 h = take_bit 12 x" by (rule bit_eqI) (simp add: bit_take_bit_iff hb)
  show "take_bit 18 (drop_bit P11_IDX_BITS h) = take_bit 18 G"
    by (rule bit_eqI) (auto simp: bit_take_bit_iff bit_drop_bit_eq hb P11_IDX_BITS_def)
qed

text \<open>The handle the module gives out for a key: index i, and the generation cut to 18 bits.\<close>

definition issued :: "nat \<Rightarrow> u32 \<Rightarrow> u64" where
  "issued i g = push_bit 32 (ucast g) OR of_nat (Suc i)"

lemma unat_u64: "n < 2 ^ 64 \<Longrightarrow> unat (of_nat n :: u64) = n"
  by (simp add: unsigned_of_nat take_bit_nat_eq_self)

lemma small_index:
  assumes "i < 4095"
  shows "take_bit 12 (of_nat (Suc i) :: u64) = of_nat (Suc i)" "(of_nat (Suc i) :: u64) \<noteq> 0"
    "ucast (of_nat (Suc i) - 1 :: u64) = (of_nat i :: u32)"
proof -
  have u: "unat (of_nat (Suc i) :: u64) = Suc i" using assms by (intro unat_u64) simp
  have "take_bit 12 (Suc i) = Suc i" using assms by (intro take_bit_nat_eq_self) simp
  then have "unat (take_bit 12 (of_nat (Suc i) :: u64)) = unat (of_nat (Suc i) :: u64)"
    unfolding unsigned_take_bit_eq u .
  then show "take_bit 12 (of_nat (Suc i) :: u64) = of_nat (Suc i)" by (rule unsigned_word_eqI)
  show "(of_nat (Suc i) :: u64) \<noteq> 0" using u by (metis Zero_not_Suc unsigned_0)
  have "(of_nat (Suc i) - 1 :: u64) = of_nat i" by simp
  moreover have "unat (of_nat i :: u64) = i" using assms by (intro unat_u64) simp
  ultimately show "ucast (of_nat (Suc i) - 1 :: u64) = (of_nat i :: u32)"
    by (metis unsigned_of_nat of_nat_unat)
qed

lemma core_parts:
  fixes G x :: u64
  assumes "take_bit 12 x = x"
  shows "(push_bit 32 G OR x) AND 0xffffffff = x" "take_bit 18 (drop_bit 32 (push_bit 32 G OR x)) = take_bit 18 G"
proof -
  have x: "bit x n \<longleftrightarrow> n < 12 \<and> bit x n" for n using assms by (metis bit_take_bit_iff)
  have m: "(0xffffffff :: u64) = mask 32" by (simp add: mask_eq_exp_minus_1)
  show "(push_bit 32 G OR x) AND 0xffffffff = x"
  proof (rule bit_eqI)
    fix n
    show "bit ((push_bit 32 G OR x) AND 0xffffffff) n \<longleftrightarrow> bit x n"
      unfolding m bit_and_iff bit_or_iff bit_push_bit_iff bit_mask_iff
      using x[of n] bit_imp_le_length[of x n] by auto
  qed
  show "take_bit 18 (drop_bit 32 (push_bit 32 G OR x)) = take_bit 18 G"
  proof (rule bit_eqI)
    fix n
    show "bit (take_bit 18 (drop_bit 32 (push_bit 32 G OR x))) n \<longleftrightarrow> bit (take_bit 18 G) n"
      unfolding bit_take_bit_iff bit_drop_bit_eq bit_or_iff comp_def bit_push_bit_iff
      using x[of "32 + n"] by auto
  qed
qed

lemma take_18_u32: "take_bit 18 (ucast (a :: u32) :: u64) = take_bit 18 (ucast b) \<longleftrightarrow> take_bit 18 a = take_bit 18 (b :: u32)"
proof -
  have "take_bit 18 (ucast c :: u64) = ucast (take_bit 18 c)" for c :: u32
    by (rule bit_eqI) (auto simp: bit_take_bit_iff bit_ucast_iff)
  moreover have "(ucast c :: u64) = ucast d \<longleftrightarrow> c = d" for c d :: u32 by (metis u32_u64)
  ultimately show ?thesis by simp
qed

text \<open>
  C27: an object handle stands for a key by its index and the low 18 bits of the generation, nothing else.
  The handle the module made for generation \<open>g\<close> of slot \<open>i\<close>, and the public handle made from it, give the
  handle of the key that is in the slot now exactly if the two generations agree modulo \<open>2\<^sup>1\<^sup>8\<close>, and no
  handle otherwise. The 64 bit handle handed on to the token is built from the current generation, so the
  token's own comparison always agrees: after \<open>2\<^sup>1\<^sup>8\<close> generations a handle of a destroyed key is valid again.
\<close>

theorem core_handle_exact:
  assumes "i < 4095" and "get_meta P tok (of_nat i) = Some m"
  shows "p11_handle_of_core (issued i g) \<noteq> 0 \<and>
         core_handle_of P tok (p11_handle_of_core (issued i g)) =
           (if take_bit 18 g = take_bit 18 (m_generation m) then issued i (m_generation m) else 0) \<and>
         core_handle_of P tok (p11_handle_of_core (issued i g) OR PUB_BIT) =
           core_handle_of P tok (p11_handle_of_core (issued i g))"
proof -
  define x :: u64 where "x = of_nat (Suc i)"
  have x: "take_bit 12 x = x" "x \<noteq> 0" "ucast (x - 1) = (of_nat i :: u32)" unfolding x_def by (rule small_index[OF assms(1)])+
  have c: "issued i g' = push_bit 32 (ucast g') OR x" for g' unfolding issued_def x_def ..
  have xm: "\<not> x > P11_IDX_MASK" using x(1) unfolding not_less by (metis idx_mask word_and_le1)
  have nz: "push_bit 32 (ucast g) OR x \<noteq> 0" using x(2) core_parts(1)[OF x(1), of "ucast g"] by auto
  define G :: u64 where "G = ucast g"
  have p: "p11_handle_of_core (issued i g) = push_bit P11_IDX_BITS (take_bit 18 G) OR x"
    using nz xm x(2) unfolding p11_handle_of_core_def c Let_def core_parts(1)[OF x(1)] gen_mask core_parts(2)[OF x(1)] G_def
    by simp
  have q: "core_handle_of P tok (push_bit P11_IDX_BITS (take_bit 18 G) OR x OR f) =
             (if take_bit 18 g = take_bit 18 (m_generation m) then issued i (m_generation m) else 0)"
    if f: "f = 0 \<or> f = PUB_BIT" for f
  proof -
    note hp = handle_parts[OF f, of G x, unfolded x(1)]
    show ?thesis
      unfolding core_handle_of_def Let_def hp idx_mask gen_mask c
      using assms(2) x(2) by (simp add: x(3) G_def take_18_u32)
  qed
  have "push_bit P11_IDX_BITS (take_bit 18 G) OR x \<noteq> 0"
  proof
    assume z: "push_bit P11_IDX_BITS (take_bit 18 G) OR x = 0"
    have "take_bit 12 (push_bit P11_IDX_BITS (take_bit 18 G) OR x) = x"
      using handle_parts(2)[of 0 G x, unfolded x(1) or.right_neutral] by blast
    then show False unfolding z using x(2) by simp
  qed
  moreover note q[of 0] q[of PUB_BIT]
  ultimately show ?thesis unfolding p by (simp add: or.assoc)
qed

end
