(* ===== verification/Proto.thy ===== *)
theory Proto
  imports Keystore
begin

text \<open>
  src/src/proto/proto.c: the device protocol. A request is a frame with a payload of TLV items; the
  dispatcher reads what the command needs from the payload, makes one call on the token and answers
  with a frame that carries the status and TLV items. A payload is a byte list, the pointer into it
  that tlv\_find returns is the value found.
\<close>

section \<open>Numbers of the protocol\<close>

definition MAGIC0 :: byte where "MAGIC0 = 0x50"
definition MAGIC1 :: byte where "MAGIC1 = 0x51"
definition RESP_MARK :: byte where "RESP_MARK = 0xFF"
definition PQC_PROTO_VERSION :: byte where "PQC_PROTO_VERSION = 1"
definition PQC_PROTO_HDR_LEN :: nat where "PQC_PROTO_HDR_LEN = 12"
definition PQC_PROTO_MAX_PAYLOAD :: nat where "PQC_PROTO_MAX_PAYLOAD = 2 ^ 20"

definition CMD_PING :: byte where "CMD_PING = 1"
definition CMD_SLOT_LIST :: byte where "CMD_SLOT_LIST = 2"
definition CMD_SLOT_INFO :: byte where "CMD_SLOT_INFO = 3"
definition CMD_INIT_TOKEN :: byte where "CMD_INIT_TOKEN = 4"
definition CMD_SET_USER_PIN :: byte where "CMD_SET_USER_PIN = 5"
definition CMD_SESSION_OPEN :: byte where "CMD_SESSION_OPEN = 6"
definition CMD_SESSION_CLOSE :: byte where "CMD_SESSION_CLOSE = 7"
definition CMD_LOGIN :: byte where "CMD_LOGIN = 8"
definition CMD_LOGOUT :: byte where "CMD_LOGOUT = 9"
definition CMD_GENERATE :: byte where "CMD_GENERATE = 10"
definition CMD_PUBKEY :: byte where "CMD_PUBKEY = 11"
definition CMD_SIGN :: byte where "CMD_SIGN = 12"
definition CMD_DECAPS :: byte where "CMD_DECAPS = 13"
definition CMD_DESTROY :: byte where "CMD_DESTROY = 14"
definition CMD_ZEROIZE :: byte where "CMD_ZEROIZE = 15"
definition CMD_UNLOCK :: byte where "CMD_UNLOCK = 16"
definition CMD_SAVE :: byte where "CMD_SAVE = 17"
definition CMD_ROTATE_KEK :: byte where "CMD_ROTATE_KEK = 18"

lemmas cmd_defs = CMD_PING_def CMD_SLOT_LIST_def CMD_SLOT_INFO_def CMD_INIT_TOKEN_def
  CMD_SET_USER_PIN_def CMD_SESSION_OPEN_def CMD_SESSION_CLOSE_def CMD_LOGIN_def CMD_LOGOUT_def
  CMD_GENERATE_def CMD_PUBKEY_def CMD_SIGN_def CMD_DECAPS_def CMD_DESTROY_def CMD_ZEROIZE_def
  CMD_UNLOCK_def CMD_SAVE_def CMD_ROTATE_KEK_def

definition TAG_SLOT :: u16 where "TAG_SLOT = 1"
definition TAG_SESSION :: u16 where "TAG_SESSION = 2"
definition TAG_HANDLE :: u16 where "TAG_HANDLE = 3"
definition TAG_ALG :: u16 where "TAG_ALG = 4"
definition TAG_USAGE :: u16 where "TAG_USAGE = 5"
definition TAG_POLICY :: u16 where "TAG_POLICY = 6"
definition TAG_ROLE :: u16 where "TAG_ROLE = 7"
definition TAG_STATE :: u16 where "TAG_STATE = 8"
definition TAG_COUNT :: u16 where "TAG_COUNT = 9"
definition TAG_PIN :: u16 where "TAG_PIN = 16"
definition TAG_LABEL :: u16 where "TAG_LABEL = 17"
definition TAG_DATA :: u16 where "TAG_DATA = 18"
definition TAG_SIG :: u16 where "TAG_SIG = 19"
definition TAG_ERRMSG :: u16 where "TAG_ERRMSG = 20"

lemmas tag_defs = TAG_SLOT_def TAG_SESSION_def TAG_HANDLE_def TAG_ALG_def TAG_USAGE_def
  TAG_POLICY_def TAG_ROLE_def TAG_STATE_def TAG_COUNT_def TAG_PIN_def TAG_LABEL_def TAG_DATA_def
  TAG_SIG_def TAG_ERRMSG_def

section \<open>TLV\<close>

text \<open>\<open>tw_out\<close> is what has been written, the first \<open>len\<close> bytes of the buffer.\<close>

record tlv_writer =
  tw_cap :: nat
  tw_out :: bytes
  tw_err :: bool

definition tlv_init :: "nat \<Rightarrow> tlv_writer" where
  "tlv_init cap = \<lparr>tw_cap = cap, tw_out = [], tw_err = False\<rparr>"

definition tlv_item :: "u16 \<Rightarrow> bytes \<Rightarrow> bytes" where
  "tlv_item tag val = put_u16 tag @ put_u32 (of_nat (length val)) @ val"

definition tlv_put :: "tlv_writer \<Rightarrow> u16 \<Rightarrow> bytes \<Rightarrow> tlv_writer" where
  "tlv_put w tag val =
     (if tw_err w then w
      else if length val > 0xffffffff \<or> length (tw_out w) + 6 + length val > tw_cap w
      then w\<lparr>tw_err := True\<rparr>
      else w\<lparr>tw_out := tw_out w @ tlv_item tag val\<rparr>)"

definition tlv_put_u32 :: "tlv_writer \<Rightarrow> u16 \<Rightarrow> u32 \<Rightarrow> tlv_writer" where
  "tlv_put_u32 w tag v = tlv_put w tag (put_u32 v)"

definition tlv_put_u64 :: "tlv_writer \<Rightarrow> u16 \<Rightarrow> u64 \<Rightarrow> tlv_writer" where
  "tlv_put_u64 w tag v = tlv_put w tag (put_u64 v)"

text \<open>
  The loop of tlv\_find. The step \<open>6 + l\<close> is computed in 32 bits, so it can be smaller than \<open>l\<close>, even
  zero, when the buffer has 4 GiB or more: the outer None is a loop that does not end.
\<close>

partial_function (option) tlv_loop :: "bytes \<Rightarrow> u16 \<Rightarrow> nat \<Rightarrow> bytes option option" where
  "tlv_loop p tag off =
     (if off + 6 \<le> length p then
        let t = get_u16 (drop off p); l = get_u32 (drop (off + 2) p) in
        if unat l > length p - off - 6 then Some None
        else if t = tag then Some (Some (slice (off + 6) (unat l) p))
        else tlv_loop p tag (off + unat (6 + l))
      else Some None)"

text \<open>
  The answer of tlv\_find, when there is one; payloads of frames are below 4 GiB, and there it always
  answers (theorem \<open>tlv_find_exact\<close>).
\<close>

definition tlv_find :: "bytes \<Rightarrow> u16 \<Rightarrow> bytes option" where
  "tlv_find p tag = (case tlv_loop p tag 0 of None \<Rightarrow> None | Some r \<Rightarrow> r)"

definition tlv_get_u32 :: "bytes \<Rightarrow> u16 \<Rightarrow> u32 option" where
  "tlv_get_u32 p tag =
     (case tlv_find p tag of None \<Rightarrow> None | Some v \<Rightarrow> if length v \<noteq> 4 then None else Some (get_u32 v))"

definition tlv_get_u64 :: "bytes \<Rightarrow> u16 \<Rightarrow> u64 option" where
  "tlv_get_u64 p tag =
     (case tlv_find p tag of None \<Rightarrow> None | Some v \<Rightarrow> if length v \<noteq> 8 then None else Some (get_u64 v))"

text \<open>The buffer of get\_str after a success: the value and a NUL.\<close>

definition get_str :: "bytes \<Rightarrow> u16 \<Rightarrow> nat \<Rightarrow> bytes option" where
  "get_str p tag cap =
     (case tlv_find p tag of None \<Rightarrow> None | Some v \<Rightarrow> if length v \<ge> cap then None else Some (v @ [0]))"

section \<open>Frames\<close>

definition proto_magic :: "bytes \<Rightarrow> bool" where
  "proto_magic buf \<longleftrightarrow> buf ! 0 = MAGIC0 \<and> buf ! 1 = MAGIC1 \<and> buf ! 2 = PQC_PROTO_VERSION"

definition pqc_proto_frame_len :: "bytes \<Rightarrow> int" where
  "pqc_proto_frame_len buf =
     (if length buf < PQC_PROTO_HDR_LEN then int PQC_PROTO_HDR_LEN
      else if \<not> proto_magic buf then -1
      else let plen = unat (get_u32 (drop 8 buf)) in
        if plen > PQC_PROTO_MAX_PAYLOAD then -1 else int (PQC_PROTO_HDR_LEN + plen))"

definition proto_frame :: "byte \<Rightarrow> u32 \<Rightarrow> bytes \<Rightarrow> bytes" where
  "proto_frame cmd seq payload =
     [MAGIC0, MAGIC1, PQC_PROTO_VERSION, cmd] @ put_u32 seq @ put_u32 (of_nat (length payload)) @ payload"

text \<open>The buffer and \<open>out_len\<close> as the answer; \<open>out\<close> is the capacity of a buffer that is not NULL.\<close>

definition pqc_proto_build_req :: "byte \<Rightarrow> u32 \<Rightarrow> bytes \<Rightarrow> nat option \<Rightarrow> bool \<Rightarrow> bytes option" where
  "pqc_proto_build_req cmd seq payload out out_len =
     (case out of
        None \<Rightarrow> None
      | Some cap \<Rightarrow>
          if \<not> out_len \<or> length payload > PQC_PROTO_MAX_PAYLOAD then None
          else if cap < PQC_PROTO_HDR_LEN + length payload then None
          else Some (proto_frame cmd seq payload))"

definition pqc_proto_resp_status :: "bytes option \<Rightarrow> (u16 \<times> bytes) option" where
  "pqc_proto_resp_status rp =
     (case rp of
        None \<Rightarrow> None
      | Some resp \<Rightarrow>
          if length resp < PQC_PROTO_HDR_LEN + 2 then None
          else if \<not> proto_magic resp \<or> resp ! 3 \<noteq> RESP_MARK then None
          else let plen = unat (get_u32 (drop 8 resp)) in
            if plen < 2 \<or> plen > length resp - PQC_PROTO_HDR_LEN then None
            else Some (get_u16 (drop PQC_PROTO_HDR_LEN resp), slice (PQC_PROTO_HDR_LEN + 2) (plen - 2) resp))"

section \<open>Dispatch\<close>

text \<open>The writer that goes into a response; a status has 16 bits there.\<close>

definition emit :: "nat \<Rightarrow> u32 \<Rightarrow> hsm_status \<Rightarrow> tlv_writer \<Rightarrow> bytes option" where
  "emit cap seq st w =
     (let plen = 2 + length (tw_out w) in
      if cap < PQC_PROTO_HDR_LEN + plen then None
      else Some ([MAGIC0, MAGIC1, PQC_PROTO_VERSION, RESP_MARK] @ put_u32 seq @ put_u32 (of_nat plen) @
                 put_u16 (ucast (status_code st)) @ tw_out w))"

definition info_of_handle :: "env \<Rightarrow> hsm_token \<Rightarrow> u64 \<Rightarrow> pqc_alg_info option" where
  "info_of_handle E tok handle =
     (case hsm_slot_get_meta E tok (ucast handle - 1) True of
        Inl _ \<Rightarrow> None | Inr m \<Rightarrow> pqc_alg_info (m_alg m))"

text \<open>
  One command: the status, the writer and the token after it. \<open>bad\<close> is the break in front of a call: the
  payload lacks an item.
\<close>

type_synonym cmd_result = "hsm_status \<times> tlv_writer \<times> hsm_token"

definition cmd_slot_list :: "tlv_writer \<Rightarrow> hsm_token \<Rightarrow> cmd_result" where
  "cmd_slot_list w tok =
     (HSM_OK, tlv_put_u64 w TAG_COUNT (of_nat (hsm_token_slot_count (Some tok))), tok)"

definition put_meta :: "slot_meta \<Rightarrow> tlv_writer \<Rightarrow> tlv_writer" where
  "put_meta m w =
     tlv_put_u64 (tlv_put_u32 (tlv_put_u32 (tlv_put_u32 (tlv_put_u32 (tlv_put w
       TAG_LABEL (c_string (m_label m))) TAG_ALG (alg_code (m_alg m))) TAG_STATE (state_code (m_state m)))
       TAG_USAGE (m_usage m)) TAG_POLICY (m_policy m)) TAG_COUNT (m_use_count m)"

definition cmd_slot_info :: "env \<Rightarrow> bytes \<Rightarrow> tlv_writer \<Rightarrow> hsm_token \<Rightarrow> cmd_result" where
  "cmd_slot_info E p w tok =
     (case tlv_get_u32 p TAG_SLOT of
        None \<Rightarrow> (HSM_ERR_BAD_ARG, w, tok)
      | Some sid \<Rightarrow>
          (case hsm_slot_get_meta E tok sid True of
             Inl e \<Rightarrow> (e, w, tok)
           | Inr m \<Rightarrow> (HSM_OK, put_meta m w, tok)))"

definition cmd_init_token :: "env \<Rightarrow> hook \<Rightarrow> bytes \<Rightarrow> tlv_writer \<Rightarrow> hsm_token \<Rightarrow> cmd_result" where
  "cmd_init_token E H p w tok =
     (case (tlv_get_u32 p TAG_SLOT, get_str p TAG_LABEL SLOT_LABEL_MAX, get_str p TAG_PIN (HSM_PIN_MAX_LEN + 1)) of
        (Some sid, Some label, Some pin) \<Rightarrow>
          (case hsm_slot_init_token E H tok sid (Some label) (Some pin) of (st, tok1) \<Rightarrow> (st, w, tok1))
      | _ \<Rightarrow> (HSM_ERR_BAD_ARG, w, tok))"

definition cmd_set_user_pin :: "env \<Rightarrow> hook \<Rightarrow> bytes \<Rightarrow> tlv_writer \<Rightarrow> hsm_token \<Rightarrow> cmd_result" where
  "cmd_set_user_pin E H p w tok =
     (case (tlv_get_u64 p TAG_SESSION, get_str p TAG_PIN (HSM_PIN_MAX_LEN + 1)) of
        (Some sess, Some pin) \<Rightarrow>
          (case hsm_slot_set_user_pin E H tok sess (Some pin) of (st, tok1) \<Rightarrow> (st, w, tok1))
      | _ \<Rightarrow> (HSM_ERR_BAD_ARG, w, tok))"

definition cmd_session_open :: "bytes \<Rightarrow> tlv_writer \<Rightarrow> hsm_token \<Rightarrow> cmd_result" where
  "cmd_session_open p w tok =
     (case tlv_get_u32 p TAG_SLOT of
        None \<Rightarrow> (HSM_ERR_BAD_ARG, w, tok)
      | Some sid \<Rightarrow>
          (case hsm_session_open tok sid True of
             (Inl e, tok1) \<Rightarrow> (e, w, tok1)
           | (Inr s, tok1) \<Rightarrow> (HSM_OK, tlv_put_u64 w TAG_SESSION s, tok1)))"

text \<open>The commands that pass a session on, and those that add a slot or a handle.\<close>

definition cmd_session ::
    "(u64 \<Rightarrow> hsm_token \<Rightarrow> hsm_status \<times> hsm_token) \<Rightarrow> bytes \<Rightarrow> tlv_writer \<Rightarrow> hsm_token \<Rightarrow> cmd_result" where
  "cmd_session f p w tok =
     (case tlv_get_u64 p TAG_SESSION of
        None \<Rightarrow> (HSM_ERR_BAD_ARG, w, tok)
      | Some sess \<Rightarrow> (case f sess tok of (st, tok1) \<Rightarrow> (st, w, tok1)))"

definition cmd_login :: "env \<Rightarrow> hook \<Rightarrow> bytes \<Rightarrow> tlv_writer \<Rightarrow> hsm_token \<Rightarrow> cmd_result" where
  "cmd_login E H p w tok =
     (case (tlv_get_u64 p TAG_SESSION, tlv_get_u32 p TAG_ROLE, get_str p TAG_PIN (HSM_PIN_MAX_LEN + 1)) of
        (Some sess, Some role, Some pin) \<Rightarrow>
          (case hsm_session_login E H tok sess (role_of role) (Some pin) of (st, tok1) \<Rightarrow> (st, w, tok1))
      | _ \<Rightarrow> (HSM_ERR_BAD_ARG, w, tok))"

definition cmd_generate :: "env \<Rightarrow> hook \<Rightarrow> bytes \<Rightarrow> tlv_writer \<Rightarrow> hsm_token \<Rightarrow> cmd_result" where
  "cmd_generate E H p w tok =
     (case (tlv_get_u64 p TAG_SESSION, tlv_get_u32 p TAG_ALG, tlv_get_u32 p TAG_USAGE) of
        (Some sess, Some alg, Some usage) \<Rightarrow>
          let policy = (case tlv_get_u32 p TAG_POLICY of None \<Rightarrow> 0 | Some x \<Rightarrow> x) in
          (case hsm_slot_generate E H tok sess (alg_of alg) usage policy True of
             (st, h, tok1) \<Rightarrow>
               (st, if st = HSM_OK then tlv_put_u64 w TAG_HANDLE (case h of None \<Rightarrow> 0 | Some x \<Rightarrow> x) else w,
                tok1))
      | _ \<Rightarrow> (HSM_ERR_BAD_ARG, w, tok))"

text \<open>The two commands that let the token write into the response buffer, behind an item header.\<close>

definition tlv_room :: "tlv_writer \<Rightarrow> nat" where
  "tlv_room w = (if tw_cap w > length (tw_out w) + 6 then tw_cap w - length (tw_out w) - 6 else 0)"

definition tlv_commit :: "tlv_writer \<Rightarrow> u16 \<Rightarrow> bytes \<Rightarrow> tlv_writer" where
  "tlv_commit w tag val = w\<lparr>tw_out := tw_out w @ tlv_item tag val\<rparr>"

definition too_small :: "env \<Rightarrow> (pqc_alg_info \<Rightarrow> nat) \<Rightarrow> hsm_token \<Rightarrow> u64 \<Rightarrow> nat \<Rightarrow> bool" where
  "too_small E need tok h room =
     (case info_of_handle E tok h of None \<Rightarrow> False | Some ai \<Rightarrow> room < need ai)"

definition cmd_pubkey :: "env \<Rightarrow> bytes \<Rightarrow> tlv_writer \<Rightarrow> hsm_token \<Rightarrow> cmd_result" where
  "cmd_pubkey E p w tok =
     (case (tlv_get_u64 p TAG_SESSION, tlv_get_u64 p TAG_HANDLE) of
        (Some sess, Some h) \<Rightarrow>
          let room = tlv_room w in
          if too_small E ai_pk_len tok h room then (HSM_ERR_NOMEM, w, tok)
          else (case hsm_object_public_key E tok sess h (Some room) True of
             Inl e \<Rightarrow> (e, w, tok)
           | Inr pk \<Rightarrow> (HSM_OK, tlv_commit w TAG_DATA pk, tok))
      | _ \<Rightarrow> (HSM_ERR_BAD_ARG, w, tok))"

definition cmd_sign :: "env \<Rightarrow> bytes \<Rightarrow> tlv_writer \<Rightarrow> hsm_token \<Rightarrow> cmd_result" where
  "cmd_sign E p w tok =
     (case (tlv_find p TAG_DATA, tlv_get_u64 p TAG_SESSION, tlv_get_u64 p TAG_HANDLE) of
        (Some data, Some sess, Some h) \<Rightarrow>
          let room = tlv_room w in
          if too_small E ai_sig_len tok h room then (HSM_ERR_NOMEM, w, tok)
          else (case hsm_object_sign E tok sess h (Some data) (length data) None 0 (Some room) True of
             (st, bs, tok1) \<Rightarrow>
               (st, if st = HSM_OK then tlv_commit w TAG_SIG (case bs of None \<Rightarrow> [] | Some x \<Rightarrow> x) else w, tok1))
      | _ \<Rightarrow> (HSM_ERR_BAD_ARG, w, tok))"

definition cmd_decaps :: "env \<Rightarrow> bytes \<Rightarrow> tlv_writer \<Rightarrow> hsm_token \<Rightarrow> cmd_result" where
  "cmd_decaps E p w tok =
     (case (tlv_find p TAG_DATA, tlv_get_u64 p TAG_SESSION, tlv_get_u64 p TAG_HANDLE) of
        (Some ct, Some sess, Some h) \<Rightarrow>
          (case hsm_object_decaps E tok sess h (Some ct) (length ct) (Some 64) True of
             (st, bs, tok1) \<Rightarrow>
               (st, if st = HSM_OK then tlv_put w TAG_DATA (case bs of None \<Rightarrow> [] | Some x \<Rightarrow> x) else w, tok1))
      | _ \<Rightarrow> (HSM_ERR_BAD_ARG, w, tok))"

definition cmd_destroy :: "env \<Rightarrow> hook \<Rightarrow> bytes \<Rightarrow> tlv_writer \<Rightarrow> hsm_token \<Rightarrow> cmd_result" where
  "cmd_destroy E H p w tok =
     (case (tlv_get_u64 p TAG_SESSION, tlv_get_u64 p TAG_HANDLE) of
        (Some sess, Some h) \<Rightarrow> (case hsm_object_destroy E H tok sess h of (st, tok1) \<Rightarrow> (st, w, tok1))
      | _ \<Rightarrow> (HSM_ERR_BAD_ARG, w, tok))"

definition cmd_on_slot ::
    "(u64 \<Rightarrow> u32 \<Rightarrow> hsm_token \<Rightarrow> hsm_status \<times> hsm_token) \<Rightarrow> bytes \<Rightarrow> tlv_writer \<Rightarrow> hsm_token \<Rightarrow> cmd_result" where
  "cmd_on_slot f p w tok =
     (case (tlv_get_u64 p TAG_SESSION, tlv_get_u32 p TAG_SLOT) of
        (Some sess, Some sid) \<Rightarrow> (case f sess sid tok of (st, tok1) \<Rightarrow> (st, w, tok1))
      | _ \<Rightarrow> (HSM_ERR_BAD_ARG, w, tok))"

text \<open>
  The parameters of the key store: the rollback provider and the crash point of the tests. \<open>Inl\<close> is a
  process that ended at a crash point, with what it left behind.
\<close>

definition cmd_store ::
    "(hsm_token option \<Rightarrow> bytes option \<Rightarrow> hsm_status option \<times> hsm_token option) \<Rightarrow>
     bytes option \<Rightarrow> tlv_writer \<Rightarrow> hsm_token \<Rightarrow> hsm_token + cmd_result" where
  "cmd_store save path w tok =
     (case path of
        None \<Rightarrow> Inr (HSM_ERR_BAD_ARG, w, tok)
      | Some _ \<Rightarrow>
          (case save (Some tok) path of
             (st, tokp) \<Rightarrow>
               let tok1 = (case tokp of None \<Rightarrow> tok | Some t \<Rightarrow> t) in
               (case st of None \<Rightarrow> Inl tok1 | Some e \<Rightarrow> Inr (e, w, tok1))))"

definition proto_command ::
    "env \<Rightarrow> hook \<Rightarrow> hsm_token rb_provider option \<Rightarrow> int \<Rightarrow> bytes option \<Rightarrow> byte \<Rightarrow> bytes \<Rightarrow> tlv_writer \<Rightarrow>
     hsm_token \<Rightarrow> hsm_token + cmd_result" where
  "proto_command E H g crash path cmd p w tok =
     (if cmd = CMD_PING then Inr (HSM_OK, w, tok)
      else if cmd = CMD_SLOT_LIST then Inr (cmd_slot_list w tok)
      else if cmd = CMD_SLOT_INFO then Inr (cmd_slot_info E p w tok)
      else if cmd = CMD_INIT_TOKEN then Inr (cmd_init_token E H p w tok)
      else if cmd = CMD_SET_USER_PIN then Inr (cmd_set_user_pin E H p w tok)
      else if cmd = CMD_SESSION_OPEN then Inr (cmd_session_open p w tok)
      else if cmd = CMD_SESSION_CLOSE then Inr (cmd_session (\<lambda>s t. hsm_session_close t s) p w tok)
      else if cmd = CMD_LOGIN then Inr (cmd_login E H p w tok)
      else if cmd = CMD_LOGOUT then Inr (cmd_session (\<lambda>s t. hsm_session_logout t s) p w tok)
      else if cmd = CMD_GENERATE then Inr (cmd_generate E H p w tok)
      else if cmd = CMD_PUBKEY then Inr (cmd_pubkey E p w tok)
      else if cmd = CMD_SIGN then Inr (cmd_sign E p w tok)
      else if cmd = CMD_DECAPS then Inr (cmd_decaps E p w tok)
      else if cmd = CMD_DESTROY then Inr (cmd_destroy E H p w tok)
      else if cmd = CMD_ZEROIZE then Inr (cmd_on_slot (\<lambda>s i t. hsm_slot_zeroize E H t s i) p w tok)
      else if cmd = CMD_UNLOCK then Inr (cmd_on_slot (\<lambda>s i t. hsm_slot_unlock E H t s i) p w tok)
      else if cmd = CMD_SAVE then cmd_store (hsm_keystore_save E g crash) path w tok
      else if cmd = CMD_ROTATE_KEK then cmd_store (hsm_keystore_rotate_kek E g crash) path w tok
      else Inr (HSM_ERR_BAD_ARG, tlv_put w TAG_ERRMSG (cstr ''unknown command''), tok))"

text \<open>
  The answers of pqc\_proto\_dispatch: the process is gone, -1, or 0 with a response. The server's context is
  its token and the path of its key store.
\<close>

datatype proto_answer = Gone | Refused | Answer bytes

record proto_ctx =
  px_tok :: "hsm_token option"
  px_path :: "bytes option"

definition proto_request :: "bytes \<Rightarrow> bool" where
  "proto_request req \<longleftrightarrow> length req \<ge> PQC_PROTO_HDR_LEN \<and> proto_magic req \<and>
     unat (get_u32 (drop 8 req)) = length req - PQC_PROTO_HDR_LEN"

definition proto_overflow :: "nat \<Rightarrow> cmd_result \<Rightarrow> cmd_result" where
  "proto_overflow cap = (\<lambda>(st, w, tok). if tw_err w then (HSM_ERR_NOMEM, tlv_init cap, tok) else (st, w, tok))"

definition pqc_proto_dispatch ::
    "env \<Rightarrow> hook \<Rightarrow> hsm_token rb_provider option \<Rightarrow> int \<Rightarrow> proto_ctx option \<Rightarrow> bytes option \<Rightarrow> nat option \<Rightarrow> bool \<Rightarrow>
     proto_answer \<times> proto_ctx option" where
  "pqc_proto_dispatch E H g crash ctxp reqp resp resp_len =
     (case (ctxp, reqp, resp) of
        (Some ctx, Some req, Some resp_cap) \<Rightarrow>
          (case px_tok ctx of
             None \<Rightarrow> (Refused, ctxp)
           | Some tok \<Rightarrow>
               if \<not> resp_len \<or> \<not> proto_request req \<or> resp_cap < PQC_PROTO_HDR_LEN + 2 then (Refused, ctxp)
               else let cap = resp_cap - PQC_PROTO_HDR_LEN - 2; seq = get_u32 (drop 4 req) in
                 (case map_sum id (proto_overflow cap)
                         (proto_command E H g crash (px_path ctx) (req ! 3) (drop PQC_PROTO_HDR_LEN req)
                            (tlv_init cap) tok) of
                    Inl tok1 \<Rightarrow> (Gone, Some (ctx\<lparr>px_tok := Some tok1\<rparr>))
                  | Inr (st, w, tok1) \<Rightarrow>
                      (case emit resp_cap seq st w of None \<Rightarrow> Refused | Some bs \<Rightarrow> Answer bs,
                       Some (ctx\<lparr>px_tok := Some tok1\<rparr>))))
      | _ \<Rightarrow> (Refused, ctxp))"

end
