(* ===== verification/Daemon.thy ===== *)
theory Daemon
  imports Proto Dna
begin

text \<open>
  src/cli/pqchsmd.c: the daemon that serves the device protocol on the loopback interface. A connection is
  the list of bytes its peer sends before it closes; what the peer receives is the list of bytes written.
  Signals end the daemon between two connections.
\<close>

definition RESP_CAP :: nat where "RESP_CAP = 2 ^ 21"

section \<open>Connections\<close>

text \<open>The hook of the daemon: every change of the security state is saved at once.\<close>

definition persist_keystore :: "env \<Rightarrow> hook" where
  "persist_keystore E user tok =
     (case hsm_keystore_save E None (-1) (Some tok) (Some user) of
        (st, tokp) \<Rightarrow> (st = Some HSM_OK, case tokp of None \<Rightarrow> tok | Some t \<Rightarrow> t))"

text \<open>What is read, what is left to read, and the state; a read of no bytes is the end of the stream.\<close>

function read_full :: "env \<Rightarrow> bytes \<Rightarrow> nat \<Rightarrow> 'a world_scheme \<Rightarrow> bytes option \<times> bytes \<times> 'a world_scheme" where
  "read_full E inp n w =
     (if n = 0 then (Some [], inp, w)
      else case io E (tick w) n of
        None \<Rightarrow> (None, inp, next_tick w)
      | Some k \<Rightarrow>
          let m = min (min k n) (length inp) in
          if m = 0 then (None, inp, next_tick w)
          else (case read_full E (drop m inp) (n - m) (next_tick w) of
                  (r, inp2, w2) \<Rightarrow> (map_option ((@) (take m inp)) r, inp2, w2)))"
  by pat_completeness auto

termination read_full
  by (relation "measure (\<lambda>(E, inp, n, w). n)") auto

text \<open>Whether everything was written, and what was.\<close>

function write_full :: "env \<Rightarrow> bytes \<Rightarrow> 'a world_scheme \<Rightarrow> bool \<times> bytes \<times> 'a world_scheme" where
  "write_full E buf w =
     (if buf = [] then (True, [], w)
      else case io E (tick w) (length buf) of
        None \<Rightarrow> (False, [], next_tick w)
      | Some k \<Rightarrow>
          let m = min k (length buf) in
          if m = 0 then (False, [], next_tick w)
          else (case write_full E (drop m buf) (next_tick w) of
                  (ok, sent, w2) \<Rightarrow> (ok, take m buf @ sent, w2)))"
  by pat_completeness auto

termination write_full
  by (relation "measure (\<lambda>(E, buf, w). length buf)") auto

declare read_full.simps [simp del] write_full.simps [simp del]

lemma read_full_result:
  "read_full E inp n w = (Some bs, inp2, w2) \<Longrightarrow> inp = bs @ inp2 \<and> length bs = n"
proof (induction E inp n w arbitrary: bs inp2 w2 rule: read_full.induct)
  case (1 E inp n w)
  show ?case
  proof (cases "n = 0")
    case True
    then show ?thesis using 1(2) by (simp add: read_full.simps[of E inp])
  next
    case False
    obtain k where k: "io E (tick w) n = Some k" "min (min k n) (length inp) \<noteq> 0"
      using 1(2) False by (auto simp: read_full.simps[of E inp] Let_def split: option.splits if_splits)
    define m where "m = min (min k n) (length inp)"
    obtain r i3 w3 where r: "read_full E (drop m inp) (n - m) (next_tick w) = (r, i3, w3)"
      by (metis prod_cases3)
    obtain bs2 where b: "r = Some bs2" "bs = take m inp @ bs2" "i3 = inp2"
      using 1(2) False k r by (auto simp: read_full.simps[of E inp n] Let_def m_def[symmetric])
    note ih = 1(1)[OF False k(1) m_def, folded m_def]
    have "drop m inp = bs2 @ inp2 \<and> length bs2 = n - m"
      by (rule ih) (use k(2) r b(1,3) m_def in simp_all)
    then have i: "drop m inp = bs2 @ inp2" "length bs2 = n - m" by simp_all
    have m: "m \<le> length inp" "m \<le> n" by (simp_all add: m_def)
    show ?thesis using i m b(2) append_take_drop_id[of m inp] by (simp add: min_absorb2)
  qed
qed

function serve_conn :: "env \<Rightarrow> bytes option \<Rightarrow> bytes \<Rightarrow> bytes \<Rightarrow> hsm_token \<Rightarrow> bytes \<times> hsm_token" where
  "serve_conn E ks inp out tok =
     (case read_full E inp PQC_PROTO_HDR_LEN tok of
        (None, _, tok1) \<Rightarrow> (out, tok1)
      | (Some hdr, inp1, tok1) \<Rightarrow>
          let total = pqc_proto_frame_len hdr in
          if total < int PQC_PROTO_HDR_LEN \<or> nat total > RESP_CAP then (out, tok1)
          else (case read_full E inp1 (nat total - PQC_PROTO_HDR_LEN) tok1 of
            (None, _, tok2) \<Rightarrow> (out, tok2)
          | (Some body, inp2, tok2) \<Rightarrow>
              (case pqc_proto_dispatch E (persist_keystore E) None (-1)
                      (Some \<lparr>px_tok = Some tok2, px_path = ks\<rparr>) (Some (hdr @ body)) (Some RESP_CAP) True of
                 (a, ctx) \<Rightarrow>
                   let tok3 = (case ctx of None \<Rightarrow> tok2
                               | Some c \<Rightarrow> (case px_tok c of None \<Rightarrow> tok2 | Some t \<Rightarrow> t)) in
                   (case a of
                      Answer resp \<Rightarrow>
                        (case write_full E resp tok3 of (ok, sent, tok4) \<Rightarrow>
                           if \<not> ok then (out @ sent, tok4)
                           else serve_conn E ks inp2 (out @ sent) tok4)
                    | _ \<Rightarrow> (out, tok3)))))"
  by pat_completeness auto

termination serve_conn
  by (relation "measure (\<lambda>(E, ks, inp, out, tok). length inp)")
    (auto simp: PQC_PROTO_HDR_LEN_def dest!: read_full_result[OF sym])

declare serve_conn.simps [simp del]

section \<open>The command line\<close>

text \<open>atoi as glibc has it: the value saturates as a long and is cut to an int.\<close>

definition atoi :: "bytes \<Rightarrow> u32" where
  "atoi s = of_int (c_strtol s)"

record daemon_opts =
  do_port :: u32
  do_slots :: nat
  do_ks :: "bytes option"
  do_audit :: "bytes option"
  do_once :: bool

definition daemon_defaults :: daemon_opts where
  "daemon_defaults = \<lparr>do_port = 9711, do_slots = 4, do_ks = None, do_audit = None, do_once = False\<rparr>"

text \<open>An int becomes a size\_t with its sign.\<close>

fun parse_args :: "bytes list \<Rightarrow> daemon_opts \<Rightarrow> daemon_opts option" where
  "parse_args [] po = Some po"
| "parse_args [a] po = (if c_string a = cstr ''-1'' then Some (po\<lparr>do_once := True\<rparr>) else None)"
| "parse_args (a # v # rest) po =
     (if c_string a = cstr ''-p'' then parse_args rest (po\<lparr>do_port := atoi v\<rparr>)
      else if c_string a = cstr ''-s'' then parse_args rest (po\<lparr>do_slots := unat (scast (atoi v) :: u64)\<rparr>)
      else if c_string a = cstr ''-k'' then parse_args rest (po\<lparr>do_ks := Some v\<rparr>)
      else if c_string a = cstr ''-a'' then parse_args rest (po\<lparr>do_audit := Some v\<rparr>)
      else if c_string a = cstr ''-1'' then parse_args (v # rest) (po\<lparr>do_once := True\<rparr>)
      else None)"

section \<open>Starting\<close>

text \<open>The root of trust, asked for by the environment variable PQCHSM\_KDR, and the profile gate.\<close>

definition boot_root :: "env \<Rightarrow> secmmio \<Rightarrow> bytes option \<Rightarrow> kdr_state option" where
  "boot_root E M kdr_env =
     (let k = (if (case kdr_env of None \<Rightarrow> False | Some v \<Rightarrow> c_string v = cstr ''device-dna'')
               then (case pqc_kdr_install_device_dna E M dna_start kdr_start of
                       (ok, _, k) \<Rightarrow> if ok then Some k else None)
               else (case pqc_kdr_install_stub (production E) kdr_start of
                       (ok, k) \<Rightarrow> if ok then Some k else None)) in
      case k of
        None \<Rightarrow> None
      | Some k \<Rightarrow> if fst (pqc_profile_startup_check (production E) k) then Some k else None)"

text \<open>
  A stat that works says whether the file is there; one that fails for another reason than a missing file
  ends the start.\<close>

definition boot_keystore :: "env \<Rightarrow> bytes option \<Rightarrow> hsm_token \<Rightarrow> bool \<times> hsm_token" where
  "boot_keystore E ks tok =
     (case ks of
        None \<Rightarrow> (True, tok)
      | Some p \<Rightarrow>
          (case sys_ok E tok of (known, t1) \<Rightarrow>
             if \<not> known then (False, t1)
             else if files t1 p \<noteq> None then
               (case hsm_keystore_load E None (Some t1) (Some p) of
                  (st, tp) \<Rightarrow>
                    let t2 = (case tp of None \<Rightarrow> t1 | Some t \<Rightarrow> t) in
                    if st \<noteq> HSM_OK then (False, t2)
                    else (True, hsm_token_set_persist_hook t2 (Some p)))
             else (True, hsm_token_set_persist_hook t1 (Some p))))"

text \<open>The default path is cut to a buffer of 1024 bytes.\<close>

definition audit_want :: "bytes option \<Rightarrow> bytes option \<Rightarrow> bytes option" where
  "audit_want audit_arg ks =
     (case audit_arg of
        Some a \<Rightarrow> (if c_string a \<noteq> cstr ''off'' then Some a else None)
      | None \<Rightarrow> map_option (\<lambda>k. take 1023 (c_string k @ cstr ''.audit'')) ks)"

definition boot_audit :: "env \<Rightarrow> bytes option \<Rightarrow> hsm_token \<Rightarrow> bool \<times> hsm_token" where
  "boot_audit E want tok =
     (case want of
        None \<Rightarrow> (True, tok)
      | Some p \<Rightarrow>
          (case audit_open E (Some p) tok of
             (None, t1) \<Rightarrow> (False, t1)
           | (Some log, t1) \<Rightarrow> (True, hsm_token_attach_audit t1 (Some log))))"

text \<open>socket, bind, listen and the two buffers; on a failure the log is detached before it is closed.\<close>

definition boot_server :: "env \<Rightarrow> hsm_token \<Rightarrow> bool \<times> hsm_token" where
  "boot_server E tok =
     (let fail = (\<lambda>t. (False, hsm_token_attach_audit t None)) in
      case sys_ok E tok of (srv, t1) \<Rightarrow>
        if \<not> srv then fail t1
        else case sys_ok E (next_tick t1) of (bound, t2) \<Rightarrow>
          if \<not> bound then fail t2
          else case sys_ok E t2 of (listening, t3) \<Rightarrow>
            if \<not> listening then fail t3
            else let req = malloc_ok E (tick t3) RESP_CAP; resp = malloc_ok E (tick (next_tick t3)) RESP_CAP;
                     t4 = next_tick (next_tick t3) in
              if \<not> req \<or> \<not> resp then fail t4 else (True, t4))"

text \<open>\<open>Inl\<close> is a start that was refused, with the files it leaves.\<close>

definition daemon_start :: "env \<Rightarrow> secmmio \<Rightarrow> bytes option \<Rightarrow> daemon_opts \<Rightarrow> world \<Rightarrow> world + env \<times> hsm_token" where
  "daemon_start E M kdr_env po w =
     (case boot_root E M kdr_env of
        None \<Rightarrow> Inl w
      | Some k \<Rightarrow>
          let E1 = E\<lparr>kdr := k\<rparr> in
          (case hsm_token_new E1 (do_slots po) w of
             (None, w1) \<Rightarrow> Inl w1
           | (Some tok, _) \<Rightarrow>
               (case boot_keystore E1 (do_ks po) tok of (ok1, t1) \<Rightarrow>
                  if \<not> ok1 then Inl (world.truncate t1)
                  else case boot_audit E1 (audit_want (do_audit po) (do_ks po)) t1 of (ok2, t2) \<Rightarrow>
                    if \<not> ok2 then Inl (world.truncate t2)
                    else case boot_server E1 t2 of (ok3, t3) \<Rightarrow>
                      if \<not> ok3 then Inl (world.truncate t3) else Inr (E1, t3))))"

section \<open>The daemon\<close>

text \<open>Connections are served one after the other, only the first one with the option -1.\<close>

fun serve_all :: "env \<Rightarrow> bytes option \<Rightarrow> bool \<Rightarrow> bytes list \<Rightarrow> hsm_token \<Rightarrow> bytes list \<times> hsm_token" where
  "serve_all E ks once [] tok = ([], tok)"
| "serve_all E ks once (c # cs) tok =
     (case serve_conn E ks c [] tok of (out, tok1) \<Rightarrow>
        if once then ([out], tok1)
        else (case serve_all E ks once cs tok1 of (outs, tok2) \<Rightarrow> (out # outs, tok2)))"

text \<open>Exit code, what each connection received, and the state left behind.\<close>

definition daemon_main ::
    "env \<Rightarrow> secmmio \<Rightarrow> bytes option \<Rightarrow> bytes list \<Rightarrow> bytes list \<Rightarrow> world \<Rightarrow> nat \<times> bytes list \<times> world" where
  "daemon_main E M kdr_env args conns w =
     (case parse_args args daemon_defaults of
        None \<Rightarrow> (2, [], w)
      | Some po \<Rightarrow>
          (case daemon_start E M kdr_env po w of
             Inl w1 \<Rightarrow> (1, [], w1)
           | Inr (E1, tok) \<Rightarrow>
               (case serve_all E1 (do_ks po) (do_once po) conns tok of
                  (outs, tok1) \<Rightarrow> (0, outs, world.truncate tok1))))"

end
