(* ===== verification/Keystore_Frame.thy ===== *)
theory Keystore_Frame
  imports Keystore
begin

text \<open>
  Saving the key store, whatever fails on the way, changes files, the log and the call counter but no
  slot, session or hook of the token.
\<close>

text \<open>A rollback provider reads and writes its counter and leaves the token alone.\<close>

definition rb_frame :: "env \<Rightarrow> hsm_token rb_provider option \<Rightarrow> bool" where
  "rb_frame E g \<longleftrightarrow>
     (\<forall>scope w. sec (snd (pqc_rbanchor_read E g scope True w)) = sec w \<and>
                sec (snd (pqc_rbanchor_bump E g scope w)) = sec w)"

lemma more_file_read: "file_read E scope w = (r, w') \<Longrightarrow> world.more w' = world.more w"
  by (auto simp: file_read_def fopen_read_def sys_ok_def split: option.splits prod.splits if_splits)

lemma more_file_bump: "file_bump E scope w = (r, w') \<Longrightarrow> world.more w' = world.more w"
  by (auto simp: file_bump_def file_write_def Let_def sys_ok_def
      split: option.splits prod.splits if_splits dest!: more_file_read more_io_pwrite)

lemma rb_frame_file: "rb_frame E None"
proof -
  have "sec (snd (file_read E scope w)) = sec w" "sec (snd (file_bump E scope w)) = sec w"
    for scope and w :: hsm_token
    using more_file_read[of E scope w] more_file_bump[of E scope w] sec_more by (metis prod.collapse)+
  then show ?thesis
    by (simp add: rb_frame_def pqc_rbanchor_read_def pqc_rbanchor_bump_def pqc_rbanchor_get_provider_def g_file_def)
qed

lemma more_write_all: "ks_write_all E crash fd bs off count w = (r, w') \<Longrightarrow> world.more w' = world.more w"
proof (induction bs arbitrary: off count w)
  case (Cons b bs)
  obtain r1 w1 where b: "ks_write E crash fd b off count w = (r1, w1)" by fastforce
  have "world.more w1 = world.more w"
    using b by (auto simp: ks_write_def split: prod.splits if_splits dest: more_io_pwrite)
  then show ?case using Cons b by (auto split: option.splits bool.splits)
qed simp

lemma more_ks_store:
  assumes "ks_store E crash path n body tag w = (r, w')"
  shows "world.more w' = world.more w"
proof -
  let ?w1 = "set_file (tmp_of path) (Some []) (next_tick (next_tick w))"
  obtain rw w2 where wr: "ks_write_all E crash (tmp_of path)
      (take KS_HDR_LEN body # split_records n (drop KS_HDR_LEN body) @ [tag]) 0 0 ?w1 = (rw, w2)" by fastforce
  have m: "world.more w2 = world.more w" using more_write_all[OF wr] by simp
  show ?thesis
    using assms m unfolding ks_store_def Let_def sys_ok_def fsync_dir_def prod.case wr
    by (auto split: if_splits option.splits bool.splits)
qed

lemma sec_serialize_all: "serialize_all E kek is tok = (r, tok') \<Longrightarrow> sec tok' = sec tok"
proof (induction "is" arbitrary: tok r)
  case (Cons i js)
  then show ?case
    by (auto split: sum.splits prod.splits dest!: serialize_core sec_only_core)
qed simp

lemma sec_ks_audit: "ks_audit E st d tok = (r, tok') \<Longrightarrow> sec tok' = sec tok"
  by (auto simp: ks_audit_def)

text \<open>Every save, finished or not, leaves the security state as it is.\<close>

lemma sec_store_part:
  assumes "rb_frame E g" "sec tok = c"
    and "(case ks_store E crash path n body tag tok of
        (None, t5) \<Rightarrow> (None, t5)
      | (Some st, t5) \<Rightarrow>
          if st \<noteq> HSM_OK then ks_audit E st detail t5
          else (case pqc_rbanchor_bump E g (Some path) t5 of
            (got, t6) \<Rightarrow> ks_audit E HSM_OK (f got) t6)) = (r, tok')"
  shows "sec tok' = c"
proof -
  obtain rs t5 where k: "ks_store E crash path n body tag tok = (rs, t5)" by fastforce
  have t5: "sec t5 = c" using sec_more[OF more_ks_store[OF k]] assms(2) by simp
  have "sec (snd (pqc_rbanchor_bump E g (Some path) t5)) = c"
    using assms(1) t5 by (simp add: rb_frame_def)
  then show ?thesis
    using assms(3) k t5 by (auto split: option.splits if_splits prod.splits dest!: sec_ks_audit)
qed

lemma map_prod_Some: "map_prod id Some x = (r, tokp) \<Longrightarrow> \<exists>tok'. tokp = Some tok' \<and> x = (r, tok')"
  by (cases x) auto

lemma keystore_save_sec:
  assumes "keystore_save_impl E g crash (Some tok) pathp detail = (r, tokp)" "rb_frame E g"
  shows "\<exists>tok'. tokp = Some tok' \<and> sec tok' = sec tok"
proof (cases pathp)
  case None
  then show ?thesis using assms(1) by (auto simp: keystore_save_impl_def)
next
  case (Some path)
  let ?n = "length (slots tok)"
  obtain ok salt t1 where r1: "pqc_random_bytes E (Some (replicate KS_SALT_LEN 0)) tok = (ok, salt, t1)"
    by (metis prod_cases3)
  have s1: "sec t1 = sec tok" using sec_only_core only_core_calls(7)[OF r1] by blast
  show ?thesis
  proof (cases "ok \<and> pqc_kek_derive E salt \<noteq> None \<and> derive_file_key E salt \<noteq> None")
    case False
    then show ?thesis using assms(1) Some r1 s1
      by (auto simp: keystore_save_impl_def Let_def split: if_splits option.splits)
  next
    case True
    then obtain kek fkey where k: "ok" "pqc_kek_derive E salt = Some kek" "derive_file_key E salt = Some fkey"
      by auto
    obtain a2 t2 where r2: "pqc_secure_alloc E hsm_slot_blob_max (next_tick t1) = (a2, t2)" by fastforce
    have s2: "sec t2 = sec tok"
      using sec_only_core[OF only_core_calls(8)[OF r2]] sec_only_core[OF only_core_next_tick, of t1] s1 by simp
    obtain rd t3 where r3: "pqc_rbanchor_read E g (Some path) True t2 = (rd, t3)" by fastforce
    have s3: "sec t3 = sec tok" using assms(2) r3 s2 unfolding rb_frame_def by (metis snd_conv)
    obtain rs t4 where r4: "serialize_all E kek [0..<?n] t3 = (rs, t4)" by fastforce
    have s4: "sec t4 = sec tok" using sec_serialize_all[OF r4] s3 by simp
    note main = assms(1)[unfolded keystore_save_impl_def Some option.case prod.case Let_def r1 r2 r3 r4 k(2,3)]
    have audit: "sec (snd (ks_audit E e detail t)) = sec t" for e t by (simp add: ks_audit_def)
    show ?thesis
      using map_prod_Some[OF main] k(1) s2 s3 s4 audit
      by (auto split: if_splits option.splits sum.splits dest!: sec_ks_audit sec_store_part[OF assms(2) s4])
  qed
qed

lemma keystore_calls_sec:
  "hsm_keystore_save E g crash (Some tok) pathp = (r, tokp) \<Longrightarrow> rb_frame E g \<Longrightarrow>
     \<exists>tok'. tokp = Some tok' \<and> sec tok' = sec tok"
  "hsm_keystore_rotate_kek E g crash (Some tok) pathp = (r, tokp) \<Longrightarrow> rb_frame E g \<Longrightarrow>
     \<exists>tok'. tokp = Some tok' \<and> sec tok' = sec tok"
  using keystore_save_sec
  by (fastforce simp: hsm_keystore_save_def hsm_keystore_rotate_kek_def Let_def split: if_splits)+

end
