(* ===== verification/Proto_Props.thy ===== *)
theory Proto_Props
  imports Proto Anchor_Props Keystore_Frame
begin

text \<open>
  What the device protocol promises: items are read back as they were written, a frame makes at most
  one call on the token and is refused or answered with a well-formed frame, and data leave only with
  the status HSM\_OK.
\<close>

section \<open>Items\<close>

text \<open>Reading the item at the front of a payload, and all items up to the first malformed one.\<close>

definition tlv_dec :: "bytes \<Rightarrow> ((u16 \<times> bytes) \<times> bytes) option" where
  "tlv_dec p =
     (let l = unat (get_u32 (drop 2 p)) in
      if length p < 6 \<or> l > length p - 6 then None
      else Some ((get_u16 p, take l (drop 6 p)), drop (6 + l) p))"

function tlv_items :: "bytes \<Rightarrow> (u16 \<times> bytes) list" where
  "tlv_items p = (case tlv_dec p of None \<Rightarrow> [] | Some (x, r) \<Rightarrow> x # tlv_items r)"
  by pat_completeness auto

termination tlv_items
  by (relation "measure length") (auto simp: tlv_dec_def Let_def split: if_splits)

declare tlv_items.simps [simp del]

interpretation tv: codec "\<lambda>(t, v). tlv_item t v" tlv_dec "\<lambda>(t, v). length v < 2 ^ 32"
  by unfold_locales
    (auto simp: tlv_dec_def tlv_item_def Let_def unat_u32_less le_get_le_bytes)

lemma tlv_step:
  fixes l :: u32
  assumes "unat l \<le> n - 6" "6 \<le> n" "n < 2 ^ 32"
  shows "unat (6 + l) = 6 + unat l"
proof -
  have "6 + unat l < 2 ^ 32" using assms by simp
  then show ?thesis by (simp add: unat_word_ariths)
qed

lemma tlv_loop_items:
  assumes "length p < 2 ^ 32"
  shows "tlv_loop p tag off = Some (map_of (tlv_items (drop off p)) tag)"
proof (induction "length p - off" arbitrary: off rule: less_induct)
  case less
  let ?q = "drop off p"
  define l where "l = (get_u32 (drop (off + 2) p) :: u32)"
  have e: "get_u32 (drop 2 ?q) = l" "length ?q = length p - off" by (simp_all add: l_def add.commute)
  show ?case
  proof (cases "off + 6 \<le> length p \<and> unat l \<le> length p - off - 6")
    case False
    then show ?thesis
      unfolding tlv_loop.simps[of p tag off] tlv_items.simps[of ?q] l_def[symmetric] tlv_dec_def Let_def e
      by auto
  next
    case True
    have st: "unat (6 + l) = 6 + unat l"
      by (rule tlv_step[of _ "length p - off"]) (use True assms in auto)
    have d: "tlv_dec ?q = Some ((get_u16 ?q, slice (off + 6) (unat l) p), drop (off + unat (6 + l)) p)"
    proof -
      have "\<not> (length p - off < 6 \<or> unat l > length p - off - 6)" using True by auto
      then show ?thesis unfolding tlv_dec_def Let_def e st by (simp add: slice_def ac_simps)
    qed
    have IH: "tlv_loop p tag (off + unat (6 + l)) = Some (map_of (tlv_items (drop (off + unat (6 + l)) p)) tag)"
      by (rule less) (unfold st, use True in linarith)
    show ?thesis
      unfolding tlv_items.simps[of ?q] d tlv_loop.simps[of p tag off] l_def[symmetric] Let_def
      using True IH by auto
  qed
qed

text \<open>
  C18: on every payload a frame can carry tlv\_find ends, and it finds the value of the first item with
  the tag, where items count up to the first one whose length runs over the end: the loop is the
  lookup in the list of items.
\<close>

theorem tlv_find_exact:
  assumes "length p < 2 ^ 32"
  shows "\<exists>r. tlv_loop p tag 0 = Some r \<and> tlv_find p tag = r \<and> r = map_of (tlv_items p) tag"
  using tlv_loop_items[OF assms, of tag 0] by (simp add: tlv_find_def)

text \<open>
  A buffer of 4 GiB can make the loop stand still: an item whose length is \<open>2\<^sup>3\<^sup>2 - 6\<close> is skipped by zero
  bytes. A frame cannot carry such a payload.
\<close>

theorem tlv_loop_stands_still:
  assumes "2 ^ 32 \<le> length p" "get_u32 (drop 2 p) = (0xFFFFFFFA :: u32)" "get_u16 p \<noteq> tag"
  shows "tlv_loop p tag 0 = None"
proof (rule ccontr)
  assume "tlv_loop p tag 0 \<noteq> None"
  then obtain y where "tlv_loop p tag 0 = Some y" by blast
  then have "p = p \<longrightarrow> tag = tag \<longrightarrow> (0 :: nat) \<noteq> 0"
  proof (rule tlv_loop.raw_induct[of "\<lambda>q t off y. q = p \<longrightarrow> t = tag \<longrightarrow> off \<noteq> 0", rotated])
    fix loop q t off z
    assume IH: "\<And>q t off z. loop q t off = Some z \<Longrightarrow> q = p \<longrightarrow> t = tag \<longrightarrow> off \<noteq> 0"
      and body: "(if off + 6 \<le> length q
        then let t' = get_u16 (drop off q); l = get_u32 (drop (off + 2) q)
             in if unat l > length q - off - 6 then Some None
                else if t' = t then Some (Some (slice (off + 6) (unat l) q))
                else loop q t (off + unat (6 + l))
        else Some None) = Some z"
    have big: "6 \<le> length p" "\<not> length p - 6 < unat (0xFFFFFFFA :: u32)" using assms(1) by simp_all
    show "q = p \<longrightarrow> t = tag \<longrightarrow> off \<noteq> 0"
    proof (intro impI notI)
      assume e: "q = p" "t = tag" "off = 0"
      have "loop p tag 0 = Some z"
        using body[unfolded e add_0 drop_0 Let_def] assms(2,3) big by simp
      then show False using IH by blast
    qed
  qed
  then show False by simp
qed

section \<open>What is written\<close>

definition tlv_payload :: "(u16 \<times> bytes) list \<Rightarrow> bytes" where
  "tlv_payload xs = concat (map (\<lambda>(t, v). tlv_item t v) xs)"

definition items_fit :: "(u16 \<times> bytes) list \<Rightarrow> bool" where
  "items_fit xs \<longleftrightarrow> list_all (\<lambda>(t, v). length v < 2 ^ 32) xs"

lemma tlv_items_payload: "items_fit xs \<Longrightarrow> tlv_items (tlv_payload xs) = xs"
proof (induction xs)
  case Nil
  then show ?case by (simp add: tlv_payload_def tlv_items.simps[of "[]"] tlv_dec_def)
next
  case (Cons x xs)
  have "tlv_dec (tlv_payload (x # xs)) = Some (x, tlv_payload xs)"
    using tv.dec_enc[of x] Cons.prems by (cases x) (simp add: tlv_payload_def items_fit_def)
  then show ?case using Cons by (simp add: tlv_items.simps[of "tlv_payload (x # xs)"] items_fit_def)
qed

text \<open>The writer holds whole items within its capacity.\<close>

definition written :: "nat \<Rightarrow> tlv_writer \<Rightarrow> bool" where
  "written cap w \<longleftrightarrow> tw_cap w = cap \<and> length (tw_out w) \<le> cap \<and> (\<exists>xs. items_fit xs \<and> tw_out w = tlv_payload xs)"

lemma tlv_find_payload:
  "items_fit xs \<Longrightarrow> length (tlv_payload xs) < 2 ^ 32 \<Longrightarrow> tlv_find (tlv_payload xs) tag = map_of xs tag"
  using tlv_loop_items[of "tlv_payload xs" tag 0] tlv_items_payload[of xs] by (simp add: tlv_find_def)

lemma tlv_init_parts [simp]: "tw_cap (tlv_init cap) = cap" "tw_out (tlv_init cap) = []" "\<not> tw_err (tlv_init cap)"
  by (simp_all add: tlv_init_def)

lemma written_init [simp]: "written cap (tlv_init cap)"
  by (auto simp: written_def tlv_init_def items_fit_def tlv_payload_def intro: exI[of _ "[]"])

lemma length_tlv_item [simp]: "length (tlv_item t v) = 6 + length v"
  by (simp add: tlv_item_def)

lemma written_item:
  assumes "written cap w" "length v < 2 ^ 32" "length (tw_out w) + 6 + length v \<le> cap"
  shows "written cap (w\<lparr>tw_out := tw_out w @ tlv_item t v\<rparr>)"
proof -
  obtain xs where xs: "items_fit xs" "tw_out w = tlv_payload xs" "tw_cap w = cap"
    using assms(1) by (auto simp: written_def)
  have "tw_out w @ tlv_item t v = tlv_payload (xs @ [(t, v)])" "items_fit (xs @ [(t, v)])"
    using xs assms(2) by (simp_all add: tlv_payload_def items_fit_def)
  moreover have "length (tw_out w @ tlv_item t v) \<le> cap" using assms(3) by simp
  ultimately show ?thesis using xs(3) unfolding written_def by auto
qed

lemma written_put [simp, inv_intros]: "written cap w \<Longrightarrow> written cap (tlv_put w t v)"
  using written_item[of cap w v t] by (auto simp: tlv_put_def written_def)

lemma written_puts [simp, inv_intros]:
  "written cap w \<Longrightarrow> written cap (tlv_put_u32 w t v)" "written cap w \<Longrightarrow> written cap (tlv_put_u64 w t v8)"
  "written cap w \<Longrightarrow> written cap (put_meta m w)"
  by (simp_all add: tlv_put_u32_def tlv_put_u64_def put_meta_def)

lemma written_commit:
  "written cap w \<Longrightarrow> 0 < tlv_room w \<Longrightarrow> length v \<le> tlv_room w \<Longrightarrow> length v < 2 ^ 32 \<Longrightarrow> written cap (tlv_commit w t v)"
  using written_item[of cap w v t]
  by (auto simp: tlv_room_def tlv_commit_def written_def split: if_splits)

text \<open>A result of a command: whole items, and none unless the status is HSM\_OK.\<close>

definition cmd_ok :: "nat \<Rightarrow> cmd_result \<Rightarrow> bool" where
  "cmd_ok cap r \<longleftrightarrow> written cap (fst (snd r)) \<and> (fst r \<noteq> HSM_OK \<longrightarrow> tw_out (fst (snd r)) = [])"

text \<open>Signatures are no longer than the parameter set says.\<close>

definition sig_bounded :: "env \<Rightarrow> bool" where
  "sig_bounded E \<longleftrightarrow> (\<forall>s m cap sig info. slot_signs E s m cap sig \<longrightarrow>
     pqc_alg_info (m_alg (sl_meta s)) = Some info \<longrightarrow> length sig \<le> ai_sig_len info)"

lemma cmd_ok_simple:
  "cmd_ok cap (cmd_slot_list (tlv_init cap) tok)" "cmd_ok cap (cmd_slot_info E p (tlv_init cap) tok)"
  "cmd_ok cap (cmd_init_token E H p (tlv_init cap) tok)" "cmd_ok cap (cmd_set_user_pin E H p (tlv_init cap) tok)"
  "cmd_ok cap (cmd_session_open p (tlv_init cap) tok)" "cmd_ok cap (cmd_session f p (tlv_init cap) tok)"
  "cmd_ok cap (cmd_login E H p (tlv_init cap) tok)" "cmd_ok cap (cmd_generate E H p (tlv_init cap) tok)"
  "cmd_ok cap (cmd_decaps E p (tlv_init cap) tok)" "cmd_ok cap (cmd_destroy E H p (tlv_init cap) tok)"
  "cmd_ok cap (cmd_on_slot f2 p (tlv_init cap) tok)"
  by (auto simp: cmd_ok_def cmd_slot_list_def cmd_slot_info_def cmd_init_token_def cmd_set_user_pin_def
      cmd_session_open_def cmd_session_def cmd_login_def cmd_generate_def cmd_decaps_def cmd_destroy_def
      cmd_on_slot_def Let_def
      split: option.splits sum.splits prod.splits)

lemma cmd_ok_pubkey:
  assumes "tok_inv tok"
  shows "cmd_ok cap (cmd_pubkey E p (tlv_init cap) tok)"
proof (cases "\<exists>sess h pk. tlv_get_u64 p TAG_SESSION = Some sess \<and> tlv_get_u64 p TAG_HANDLE = Some h \<and>
    hsm_object_public_key E tok sess h (Some (tlv_room (tlv_init cap))) True = Inr pk \<and>
    \<not> too_small E ai_pk_len tok h (tlv_room (tlv_init cap))")
  case True
  then obtain sess h pk where c: "tlv_get_u64 p TAG_SESSION = Some sess" "tlv_get_u64 p TAG_HANDLE = Some h"
    "hsm_object_public_key E tok sess h (Some (tlv_room (tlv_init cap))) True = Inr pk"
    "\<not> too_small E ai_pk_len tok h (tlv_room (tlv_init cap))" by blast
  obtain s info where s: "slot_at tok (ucast h - 1) = Some s" "sl_pk s = Some pk"
    "pqc_alg_info (m_alg (sl_meta s)) = Some info" "length pk = ai_pk_len info"
    using public_key_result[OF assms c(3)] by blast
  have "length pk \<le> tlv_room (tlv_init cap)"
    using c(3) by (auto simp: hsm_object_public_key_def Let_def split: sum.splits option.splits if_splits)
  moreover have pos: "0 < length pk" "length pk < 2 ^ 32"
    using s(3,4) pqc_alg_info_bounds(2)[OF s(3)] alg_info_known(2)[OF s(3)] by simp_all
  ultimately have "written cap (tlv_commit (tlv_init cap) TAG_DATA pk)"
    by (intro written_commit written_init less_le_trans[OF pos(1)])
  then show ?thesis using c by (simp add: cmd_ok_def cmd_pubkey_def Let_def)
next
  case False
  then show ?thesis
    by (auto simp: cmd_ok_def cmd_pubkey_def Let_def split: option.splits sum.splits)
qed

lemma cmd_ok_sign:
  assumes "sig_bounded E"
  shows "cmd_ok cap (cmd_sign E p (tlv_init cap) tok)"
proof (cases "tlv_find p TAG_DATA = None \<or> tlv_get_u64 p TAG_SESSION = None \<or> tlv_get_u64 p TAG_HANDLE = None")
  case False
  then obtain m sess h where c: "tlv_find p TAG_DATA = Some m" "tlv_get_u64 p TAG_SESSION = Some sess"
    "tlv_get_u64 p TAG_HANDLE = Some h" by auto
  let ?room = "tlv_room (tlv_init cap)"
  obtain st bs tok1 where sg: "hsm_object_sign E tok sess h (Some m) (length m) None 0 (Some ?room) True = (st, bs, tok1)"
    by (metis prod_cases3)
  show ?thesis
  proof (cases "st = HSM_OK")
    case True
    obtain s sig info where s: "bs = Some sig" "slot_signs E s (take (length m) m) ?room sig"
      "pqc_alg_info (m_alg (sl_meta s)) = Some info" "0 < ai_sig_len info" "ai_sig_len info \<le> ?room"
      using object_sign_signs sg True by blast
    have b: "length sig \<le> ai_sig_len info" using assms s(2,3) unfolding sig_bounded_def by blast
    show ?thesis
    proof (cases "too_small E ai_sig_len tok h ?room")
      case True
      then show ?thesis using c by (simp add: cmd_ok_def cmd_sign_def)
    next
      case False
      have "written cap (tlv_commit (tlv_init cap) TAG_SIG sig)"
        using b s(4,5) alg_info_known(3)[OF s(3)] by (intro written_commit) simp_all
      then show ?thesis using c sg True s(1) False by (simp add: cmd_ok_def cmd_sign_def Let_def)
    qed
  next
    case False
    then show ?thesis using c sg by (auto simp: cmd_ok_def cmd_sign_def Let_def)
  qed
qed (auto simp: cmd_ok_def cmd_sign_def split: option.splits)

section \<open>One frame, one call\<close>

text \<open>The call on the token that a frame asks for, read from its command and its items alone.\<close>

definition proto_op :: "env \<Rightarrow> nat \<Rightarrow> byte \<Rightarrow> bytes \<Rightarrow> hsm_token \<Rightarrow> tok_op option" where
  "proto_op E room cmd p tok =
     (let sess = tlv_get_u64 p TAG_SESSION; sid = tlv_get_u32 p TAG_SLOT; h = tlv_get_u64 p TAG_HANDLE;
          pin = get_str p TAG_PIN (HSM_PIN_MAX_LEN + 1); data = tlv_find p TAG_DATA in
      if cmd = CMD_INIT_TOKEN then
        (case (sid, get_str p TAG_LABEL SLOT_LABEL_MAX, pin) of
           (Some i, Some l, Some x) \<Rightarrow> Some (Init i (Some l) (Some x)) | _ \<Rightarrow> None)
      else if cmd = CMD_SET_USER_PIN then
        (case (sess, pin) of (Some s, Some x) \<Rightarrow> Some (Set_User_Pin s (Some x)) | _ \<Rightarrow> None)
      else if cmd = CMD_SESSION_OPEN then map_option (\<lambda>i. Session_Open i True) sid
      else if cmd = CMD_SESSION_CLOSE then map_option Session_Close sess
      else if cmd = CMD_LOGIN then
        (case (sess, tlv_get_u32 p TAG_ROLE, pin) of
           (Some s, Some r, Some x) \<Rightarrow> Some (Login s (role_of r) (Some x)) | _ \<Rightarrow> None)
      else if cmd = CMD_LOGOUT then map_option Logout sess
      else if cmd = CMD_GENERATE then
        (case (sess, tlv_get_u32 p TAG_ALG, tlv_get_u32 p TAG_USAGE) of
           (Some s, Some a, Some u) \<Rightarrow>
             Some (Generate s (alg_of a) u (case tlv_get_u32 p TAG_POLICY of None \<Rightarrow> 0 | Some x \<Rightarrow> x) True)
         | _ \<Rightarrow> None)
      else if cmd = CMD_SIGN then
        (case (data, sess, h) of
           (Some d, Some s, Some x) \<Rightarrow>
             if too_small E ai_sig_len tok x room then None
             else Some (Sign s x (Some d) (length d) None 0 (Some room) True)
         | _ \<Rightarrow> None)
      else if cmd = CMD_DECAPS then
        (case (data, sess, h) of
           (Some d, Some s, Some x) \<Rightarrow> Some (Decaps s x (Some d) (length d) (Some 64) True) | _ \<Rightarrow> None)
      else if cmd = CMD_DESTROY then
        (case (sess, h) of (Some s, Some x) \<Rightarrow> Some (Destroy s x) | _ \<Rightarrow> None)
      else if cmd = CMD_ZEROIZE then
        (case (sess, sid) of (Some s, Some i) \<Rightarrow> Some (Zeroize s i) | _ \<Rightarrow> None)
      else if cmd = CMD_UNLOCK then
        (case (sess, sid) of (Some s, Some i) \<Rightarrow> Some (Unlock s i) | _ \<Rightarrow> None)
      else None)"

definition stores :: "byte \<Rightarrow> bool" where
  "stores cmd \<longleftrightarrow> cmd = CMD_SAVE \<or> cmd = CMD_ROTATE_KEK"

lemma proto_op_ok: "proto_op E room cmd p tok = Some op \<Longrightarrow> op_ok op"
  by (auto simp: proto_op_def Let_def split: if_splits option.splits)

lemma one_call:
  assumes "proto_command E H g crash path cmd p (tlv_init cap) tok = Inr (st, w, tok1)" "\<not> stores cmd"
  shows "case proto_op E (tlv_room (tlv_init cap)) cmd p tok of
      None \<Rightarrow> tok1 = tok | Some op \<Rightarrow> tok_exec E H op tok = (st, tok1)"
  using assms
  by (auto simp: proto_command_def stores_def proto_op_def Let_def cmd_defs cmd_slot_list_def cmd_slot_info_def
      cmd_init_token_def cmd_set_user_pin_def cmd_session_open_def cmd_session_def cmd_login_def
      cmd_generate_def cmd_pubkey_def cmd_sign_def cmd_decaps_def cmd_destroy_def cmd_on_slot_def res_status_def
      split: if_splits option.splits sum.splits prod.splits)

section \<open>Answers\<close>

definition err_items :: "(u16 \<times> bytes) list" where
  "err_items = [(TAG_ERRMSG, cstr ''unknown command'')]"

text \<open>Whole items, and nothing but the error message unless the status is HSM\_OK.\<close>

definition answer_ok :: "nat \<Rightarrow> hsm_token + cmd_result \<Rightarrow> bool" where
  "answer_ok cap r \<longleftrightarrow>
     (case r of
        Inl _ \<Rightarrow> True
      | Inr (st, w, _) \<Rightarrow>
          written cap w \<and> (st \<noteq> HSM_OK \<longrightarrow> tw_out w = [] \<or> tw_out w = tlv_payload err_items))"

lemma answer_ok_cmd: "cmd_ok cap r \<Longrightarrow> answer_ok cap (Inr r)"
  by (cases r) (simp add: answer_ok_def cmd_ok_def)

lemma answer_ok_store: "answer_ok cap (cmd_store sv path (tlv_init cap) tok)"
  by (simp add: cmd_store_def answer_ok_def Let_def split: option.split prod.split)

lemma answer_ok_plain:
  "answer_ok cap (Inr (HSM_OK, tlv_init cap, tok))"
  "answer_ok cap (Inr (e, tlv_put (tlv_init cap) TAG_ERRMSG (cstr ''unknown command''), tok))"
proof -
  have "tw_out (tlv_put (tlv_init cap) TAG_ERRMSG v) \<in> {[], tlv_item TAG_ERRMSG v}" for v
    by (simp add: tlv_put_def)
  then show "answer_ok cap (Inr (e, tlv_put (tlv_init cap) TAG_ERRMSG (cstr ''unknown command''), tok))"
    by (auto simp: answer_ok_def err_items_def tlv_payload_def)
qed (simp add: answer_ok_def)

lemma command_written:
  assumes "tok_inv tok" "sig_bounded E"
  shows "answer_ok cap (proto_command E H g crash path cmd p (tlv_init cap) tok)"
  using cmd_ok_pubkey[OF assms(1), of cap E p] cmd_ok_sign[OF assms(2), of cap p tok]
  by (simp add: proto_command_def answer_ok_cmd answer_ok_store answer_ok_plain cmd_ok_simple)

lemma emit_answer:
  assumes "length (tw_out w) \<le> cap - 14" "14 \<le> cap" "cap < 2 ^ 32"
  shows "\<exists>bs. emit cap seq st w = Some bs \<and> length bs \<le> cap \<and> get_u32 (drop 4 bs) = seq \<and>
     pqc_proto_resp_status (Some bs) = Some (ucast (status_code st), tw_out w)"
proof -
  define n where "n = 2 + length (tw_out w)"
  have n: "unat (of_nat n :: u32) = n" by (rule unat_u32_less) (use assms n_def in simp)
  let ?bs = "[MAGIC0, MAGIC1, PQC_PROTO_VERSION, RESP_MARK] @ put_u32 seq @ put_u32 (of_nat n) @
      put_u16 (ucast (status_code st)) @ tw_out w"
  have e: "emit cap seq st w = Some ?bs"
    using assms(1,2) by (simp add: emit_def Let_def PQC_PROTO_HDR_LEN_def n_def)
  have d: "get_u32 (drop 4 ?bs) = seq" "get_u32 (drop 8 ?bs) = (of_nat n :: u32)"
    "get_u16 (drop 12 ?bs) = ucast (status_code st)" "drop 14 ?bs = tw_out w" "length ?bs = 12 + n"
    by (simp_all add: le_get_le_bytes n_def)
  have m: "proto_magic ?bs" "?bs ! 3 = RESP_MARK" by (simp_all add: proto_magic_def)
  have s: "slice 14 (n - 2) ?bs = tw_out w" by (simp add: slice_def n_def)
  have "pqc_proto_resp_status (Some ?bs) = Some (ucast (status_code st), tw_out w)"
    unfolding pqc_proto_resp_status_def option.case PQC_PROTO_HDR_LEN_def Let_def d(2,3,5) n
    using m s d(3) by (simp add: n_def)
  then show ?thesis using e d(1,5) assms(1,2) by (intro exI[of _ ?bs]) (simp add: n_def)
qed

text \<open>What a request that is well-formed gets.\<close>

lemma dispatch_answer:
  assumes "px_tok ctx = Some tok" "proto_request req" "14 \<le> cap" "cap < 2 ^ 32" "tok_inv tok" "sig_bounded E"
    and "pqc_proto_dispatch E H g crash (Some ctx) (Some req) (Some cap) True = (a, ctx')"
  shows "case proto_command E H g crash (px_path ctx) (req ! 3) (drop 12 req) (tlv_init (cap - 14)) tok of
      Inl tok1 \<Rightarrow> a = Gone \<and> ctx' = Some (ctx\<lparr>px_tok := Some tok1\<rparr>)
    | Inr (st, w, tok1) \<Rightarrow> ctx' = Some (ctx\<lparr>px_tok := Some tok1\<rparr>) \<and>
       (\<exists>resp st' xs. a = Answer resp \<and> length resp \<le> cap \<and>
        get_u32 (drop 4 resp) = get_u32 (drop 4 req) \<and> items_fit xs \<and>
        pqc_proto_resp_status (Some resp) = Some (ucast (status_code st'), tlv_payload xs) \<and>
        (if tw_err w then st' = HSM_ERR_NOMEM \<and> xs = [] else st' = st \<and> tlv_payload xs = tw_out w) \<and>
        (st' \<noteq> HSM_OK \<longrightarrow> xs = [] \<or> xs = err_items))"
proof -
  let ?r = "proto_command E H g crash (px_path ctx) (req ! 3) (drop 12 req) (tlv_init (cap - 14)) tok"
  have h: "PQC_PROTO_HDR_LEN = 12" "12 + (2 :: nat) = 14" "cap - 12 - 2 = cap - 14"
    by (simp_all add: PQC_PROTO_HDR_LEN_def)
  have main: "(case map_sum id (proto_overflow (cap - 14)) ?r of
      Inl tok1 \<Rightarrow> (Gone, Some (ctx\<lparr>px_tok := Some tok1\<rparr>))
    | Inr (st, w, tok1) \<Rightarrow>
        (case emit cap (get_u32 (drop 4 req)) st w of None \<Rightarrow> Refused | Some bs \<Rightarrow> Answer bs,
         Some (ctx\<lparr>px_tok := Some tok1\<rparr>))) = (a, ctx')"
    using assms(7) unfolding pqc_proto_dispatch_def option.case prod.case assms(1) Let_def h
    using assms(2,3) by simp
  show ?thesis
  proof (cases ?r)
    case (Inl tok1)
    then show ?thesis using main by simp
  next
    case (Inr x)
    obtain st w tok1 where x: "x = (st, w, tok1)" by (metis prod_cases3)
    have w: "written (cap - 14) w" "st \<noteq> HSM_OK \<longrightarrow> tw_out w = [] \<or> tw_out w = tlv_payload err_items"
      using command_written[OF assms(5,6), of "cap - 14" H g crash "px_path ctx" "req ! 3" "drop 12 req"] Inr x
      by (simp_all add: answer_ok_def)
    define v where "v = (if tw_err w then tlv_init (cap - 14) else w)"
    define e where "e = (if tw_err w then HSM_ERR_NOMEM else st)"
    have v: "written (cap - 14) v" using w(1) by (simp add: v_def)
    obtain xs where xs: "items_fit xs" "tw_out v = tlv_payload xs" using v by (auto simp: written_def)
    have len: "length (tw_out v) \<le> cap - 14" using v by (simp add: written_def)
    obtain bs where bs: "emit cap (get_u32 (drop 4 req)) e v = Some bs" "length bs \<le> cap"
      "get_u32 (drop 4 bs) = get_u32 (drop 4 req)"
      "pqc_proto_resp_status (Some bs) = Some (ucast (status_code e), tw_out v)"
      using emit_answer[OF len assms(3,4)] by blast
    have a: "a = Answer bs" "ctx' = Some (ctx\<lparr>px_tok := Some tok1\<rparr>)"
      using main Inr x bs(1) by (auto simp: proto_overflow_def v_def e_def split: if_splits)
    have "e \<noteq> HSM_OK \<longrightarrow> xs = [] \<or> xs = err_items"
    proof
      assume "e \<noteq> HSM_OK"
      then have "tlv_payload xs = tlv_payload [] \<or> tlv_payload xs = tlv_payload err_items"
        using w(2) xs(2) by (auto simp: v_def e_def tlv_payload_def split: if_splits)
      moreover have "items_fit []" "items_fit err_items" by (simp_all add: items_fit_def err_items_def cstr_def)
      ultimately show "xs = [] \<or> xs = err_items" using tlv_items_payload xs(1) by metis
    qed
    moreover have "if tw_err w then e = HSM_ERR_NOMEM \<and> xs = [] else e = st \<and> tlv_payload xs = tw_out w"
    proof (cases "tw_err w")
      case True
      then have "tlv_payload xs = tlv_payload []" using xs(2) by (simp add: v_def tlv_payload_def)
      then have "xs = []" using tlv_items_payload xs(1) by (metis items_fit_def list.pred_inject(1))
      then show ?thesis using True by (simp add: e_def)
    qed (use xs(2) in \<open>simp add: v_def e_def\<close>)
    ultimately show ?thesis
      unfolding Inr x sum.case prod.case using a bs xs
      by (intro conjI exI[of _ bs] exI[of _ e] exI[of _ xs]) simp_all
  qed
qed

text \<open>
  C17: a request is answered or refused, never half of each. Whatever bytes arrive, a frame with a wrong
  magic, version or length, or a buffer without room for a status, is refused and changes nothing;
  every other request is answered, unless a store ends the process. The answer fits the buffer, carries
  the sequence number of the request, decodes into a status and a list of items, and has no items but
  the error message unless the status is HSM\_OK: no data leave with a failed command.
\<close>

theorem proto_answers:
  assumes "pqc_proto_dispatch E H g crash (Some ctx) (Some req) (Some cap) True = (a, ctx')"
    and "px_tok ctx = Some tok" "tok_inv tok" "sig_bounded E" "cap < 2 ^ 32"
  shows "(if proto_request req \<and> PQC_PROTO_HDR_LEN + 2 \<le> cap then a \<noteq> Refused else a = Refused \<and> ctx' = Some ctx) \<and>
    (\<forall>resp. a = Answer resp \<longrightarrow> length resp \<le> cap \<and> get_u32 (drop 4 resp) = get_u32 (drop 4 req) \<and>
       (\<exists>st xs. pqc_proto_resp_status (Some resp) = Some (ucast (status_code st), tlv_payload xs) \<and>
          tlv_items (tlv_payload xs) = xs \<and> (st \<noteq> HSM_OK \<longrightarrow> xs = [] \<or> xs = err_items)))"
proof (cases "proto_request req \<and> 14 \<le> cap")
  case True
  have c: "PQC_PROTO_HDR_LEN + 2 \<le> cap" using True by (simp add: PQC_PROTO_HDR_LEN_def)
  note d = dispatch_answer[OF assms(2) conjunct1[OF True] conjunct2[OF True] assms(5,3,4,1)]
  show ?thesis
  proof (cases "proto_command E H g crash (px_path ctx) (req ! 3) (drop 12 req) (tlv_init (cap - 14)) tok")
    case (Inl tok1)
    then show ?thesis using d True c by simp
  next
    case (Inr x)
    then obtain resp st' xs where x: "a = Answer resp" "length resp \<le> cap" "items_fit xs"
      "get_u32 (drop 4 resp) = get_u32 (drop 4 req)" "st' \<noteq> HSM_OK \<longrightarrow> xs = [] \<or> xs = err_items"
      "pqc_proto_resp_status (Some resp) = Some (ucast (status_code st'), tlv_payload xs)"
      using d by (cases x) auto
    then have "tlv_items (tlv_payload xs) = xs" using tlv_items_payload by blast
    then show ?thesis using x True c by auto
  qed
next
  case False
  then have "a = Refused \<and> ctx' = Some ctx"
    using assms(1,2) by (auto simp: pqc_proto_dispatch_def PQC_PROTO_HDR_LEN_def)
  moreover have "\<not> (proto_request req \<and> PQC_PROTO_HDR_LEN + 2 \<le> cap)"
    using False by (simp add: PQC_PROTO_HDR_LEN_def)
  ultimately show ?thesis by simp
qed

lemma command_Inr:
  assumes "\<not> stores cmd"
  shows "\<exists>st w' tok1. proto_command E H g crash path cmd p w tok = Inr (st, w', tok1)"
proof (cases "proto_command E H g crash path cmd p w tok")
  case (Inl t)
  then show ?thesis using assms by (auto simp: proto_command_def stores_def split: if_splits)
next
  case (Inr r)
  then show ?thesis by (cases r) simp
qed

lemma one_call_dispatch:
  assumes "pqc_proto_dispatch E H g crash (Some ctx) (Some req) (Some cap) True = (a, ctx')"
    and "px_tok ctx = Some tok" "tok_inv tok" "sig_bounded E" "cap < 2 ^ 32"
    and "proto_request req" "14 \<le> cap" "\<not> stores (req ! 3)"
  shows "\<exists>resp st xs tok'. a = Answer resp \<and> ctx' = Some (ctx\<lparr>px_tok := Some tok'\<rparr>) \<and>
    pqc_proto_resp_status (Some resp) = Some (ucast (status_code st), tlv_payload xs) \<and>
    (case proto_op E (tlv_room (tlv_init (cap - 14))) (req ! 3) (drop 12 req) tok of
       None \<Rightarrow> tok' = tok
     | Some op \<Rightarrow> \<exists>e. tok_exec E H op tok = (e, tok') \<and> (st = e \<or> st = HSM_ERR_NOMEM))"
proof -
  obtain st w tok1 where r: "proto_command E H g crash (px_path ctx) (req ! 3) (drop 12 req)
      (tlv_init (cap - 14)) tok = Inr (st, w, tok1)"
    using command_Inr[OF assms(8)] by blast
  note oc = one_call[OF r assms(8)]
  obtain resp st' xs where x: "a = Answer resp" "ctx' = Some (ctx\<lparr>px_tok := Some tok1\<rparr>)"
    "pqc_proto_resp_status (Some resp) = Some (ucast (status_code st'), tlv_payload xs)"
    "if tw_err w then st' = HSM_ERR_NOMEM \<and> xs = [] else st' = st \<and> tlv_payload xs = tw_out w"
    using dispatch_answer[OF assms(2,6,7,5,3,4,1), unfolded r sum.case prod.case] by blast
  show ?thesis
  proof (intro exI conjI)
    show "case proto_op E (tlv_room (tlv_init (cap - 14))) (req ! 3) (drop 12 req) tok of None \<Rightarrow> tok1 = tok
        | Some op \<Rightarrow> \<exists>e. tok_exec E H op tok = (e, tok1) \<and> (st' = e \<or> st' = HSM_ERR_NOMEM)"
      using oc x(4) by (auto split: option.splits if_splits)
  qed (fact x)+
qed

text \<open>
  C16: a frame makes at most one call. Every request but the two store commands either leaves the token
  exactly as it was, or is the one call that its command, session, handle and other items spell out,
  and the status in the answer is the status of that call or HSM\_ERR\_NOMEM.
\<close>

theorem proto_one_call:
  assumes "pqc_proto_dispatch E H g crash (Some ctx) (Some req) (Some cap) True = (a, ctx')"
    and "px_tok ctx = Some tok" "tok_inv tok" "sig_bounded E" "cap < 2 ^ 32"
    and "proto_request req" "14 \<le> cap" "\<not> stores (req ! 3)"
  shows "\<exists>resp st xs tok'. a = Answer resp \<and> ctx' = Some (ctx\<lparr>px_tok := Some tok'\<rparr>) \<and>
    pqc_proto_resp_status (Some resp) = Some (ucast (status_code st), tlv_payload xs) \<and>
    (case proto_op E (tlv_room (tlv_init (cap - 14))) (req ! 3) (drop 12 req) tok of
       None \<Rightarrow> tok' = tok
     | Some op \<Rightarrow> \<exists>e. tok_exec E H op tok = (e, tok') \<and> (st = e \<or> st = HSM_ERR_NOMEM))"
  by (rule one_call_dispatch[OF assms])

text \<open>
  room for the answer is not checked before a key is generated. With 14 to 27 bytes of buffer a
  CMD\_GENERATE that succeeds leaves its key in the slot and answers HSM\_ERR\_NOMEM without the handle.
\<close>

theorem proto_small_buffer_loses_handle:
  assumes "pqc_proto_dispatch E H g crash (Some ctx) (Some req) (Some cap) True = (a, ctx')"
    and "px_tok ctx = Some tok" "tok_inv tok" "sig_bounded E"
    and "proto_request req" "14 \<le> cap" "cap < 28" "req ! 3 = CMD_GENERATE"
    and "proto_op E (tlv_room (tlv_init (cap - 14))) (req ! 3) (drop 12 req) tok = Some op"
    and "tok_exec E H op tok = (HSM_OK, tok')"
  shows "\<exists>resp. a = Answer resp \<and> ctx' = Some (ctx\<lparr>px_tok := Some tok'\<rparr>) \<and>
    pqc_proto_resp_status (Some resp) = Some (ucast (status_code HSM_ERR_NOMEM), [])"
proof -
  have ns: "\<not> stores (req ! 3)" using assms(8) by (simp add: stores_def cmd_defs)
  obtain st w tok1 where r: "proto_command E H g crash (px_path ctx) (req ! 3) (drop 12 req)
      (tlv_init (cap - 14)) tok = Inr (st, w, tok1)"
    using command_Inr[OF ns] by blast
  have st: "st = HSM_OK" "tok1 = tok'" using one_call[OF r ns] assms(9,10) by simp_all
  have "cmd_generate E H (drop 12 req) (tlv_init (cap - 14)) tok = (HSM_OK, w, tok')"
    using r assms(8) st by (simp add: proto_command_def cmd_defs)
  moreover have "proto_op E (tlv_room (tlv_init (cap - 14))) CMD_GENERATE (drop 12 req) tok \<noteq> None"
    using assms(8,9) by simp
  ultimately have "tw_err w"
    using assms(6,7)
    by (auto simp: cmd_generate_def proto_op_def cmd_defs Let_def tlv_put_u64_def tlv_put_def
        split: option.splits prod.splits if_splits)
  then show ?thesis
    using dispatch_answer[OF assms(2,5,6) _ assms(3,4,1)] r st assms(7)
    by (auto simp: tlv_payload_def split: if_splits)
qed

section \<open>The other side\<close>

lemma proto_frame_parts:
  assumes "length p \<le> 2 ^ 20"
  shows "proto_request (proto_frame cmd seq p)" "proto_frame cmd seq p ! 3 = cmd"
    "get_u32 (drop 4 (proto_frame cmd seq p)) = seq" "drop 12 (proto_frame cmd seq p) = p"
    "pqc_proto_frame_len (take 12 (proto_frame cmd seq p)) = int (length (proto_frame cmd seq p))"
proof -
  have n: "unat (of_nat (length p) :: u32) = length p" by (rule unat_u32_less) (use assms in simp)
  let ?f = "proto_frame cmd seq p"
  have d: "get_u32 (drop 8 ?f) = (of_nat (length p) :: u32)" "length ?f = 12 + length p" "proto_magic ?f"
    "get_u32 (drop 8 (take 12 ?f)) = (of_nat (length p) :: u32)" "proto_magic (take 12 ?f)"
    by (simp_all add: proto_frame_def le_get_le_bytes proto_magic_def)
  show "?f ! 3 = cmd" "get_u32 (drop 4 ?f) = seq" "drop 12 ?f = p"
    by (simp_all add: proto_frame_def le_get_le_bytes)
  show "proto_request ?f" using d n by (simp add: proto_request_def PQC_PROTO_HDR_LEN_def)
  show "pqc_proto_frame_len (take 12 ?f) = int (length ?f)"
    unfolding pqc_proto_frame_len_def PQC_PROTO_HDR_LEN_def Let_def d(4) n
    using d(2,5) assms by (simp add: PQC_PROTO_MAX_PAYLOAD_def)
qed

text \<open>
  what a client sends is what the dispatcher reads. A request that pqc\_proto\_build\_req builds from a
  list of items is accepted as a frame, its length is announced by its first 12 bytes, its command and
  sequence number come out, and every tag finds the value the client gave it first.
\<close>

theorem proto_request_roundtrip:
  assumes "pqc_proto_build_req cmd seq (tlv_payload xs) (Some n) True = Some req" "items_fit xs"
  shows "proto_request req \<and> req ! 3 = cmd \<and> get_u32 (drop 4 req) = seq \<and>
    pqc_proto_frame_len (take PQC_PROTO_HDR_LEN req) = int (length req) \<and>
    (\<forall>tag. tlv_find (drop PQC_PROTO_HDR_LEN req) tag = map_of xs tag)"
proof -
  have "length (tlv_payload xs) \<le> 2 ^ 20" "req = proto_frame cmd seq (tlv_payload xs)"
    using assms(1) by (auto simp: pqc_proto_build_req_def PQC_PROTO_MAX_PAYLOAD_def split: if_splits)
  then show ?thesis
    using proto_frame_parts[of "tlv_payload xs" cmd seq] tlv_find_payload[OF assms(2)]
    by (simp add: PQC_PROTO_HDR_LEN_def)
qed

end
