(* ===== verification/Keystore_Props.thy ===== *)
theory Keystore_Props
  imports Keystore_Frame Backup_Props
begin

text \<open>
  What is saved comes back: the records of a key store read one by one, and a save followed by a load
  on a token of the same device.
\<close>

section \<open>Records\<close>

definition ks_record :: "bytes \<Rightarrow> bytes" where
  "ks_record blob = put_u32 (of_nat (length blob)) @ blob"

lemma length_ks_record [simp]: "length (ks_record blob) = 4 + length blob"
  by (simp add: ks_record_def)

lemma serialize_all_result:
  assumes "serialize_all E kek is tok = (Inr recs, tok')" "length (slots tok) \<le> 4096"
    and "\<forall>i\<in>set is. i < length (slots tok)"
  shows "\<exists>rs. recs = concat (map (\<lambda>r. ks_record (snd r)) rs) \<and> map fst rs = is \<and>
    (\<forall>(i, blob)\<in>set rs. blob_of E kek (slots tok ! i) blob)"
  using assms
proof (induction "is" arbitrary: tok recs)
  case (Cons i "is")
  obtain blob tok1 rest where b: "hsm_slot_serialize E tok (of_nat i) (Some kek) PQC_KEK_LEN
      (Some hsm_slot_blob_max) True = (Inr blob, tok1)"
    and r: "serialize_all E kek is tok1 = (Inr rest, tok')" "recs = ks_record blob @ rest"
    using Cons.prems(1) by (auto simp: ks_record_def split: prod.splits sum.splits)
  have core: "slots tok1 = slots tok" using slots_core[OF serialize_core[OF b]] .
  obtain rs where rs: "rest = concat (map (\<lambda>r. ks_record (snd r)) rs)" "map fst rs = is"
    "\<forall>(i, blob)\<in>set rs. blob_of E kek (slots tok ! i) blob"
    using Cons.IH[OF r(1)] Cons.prems(2,3) core by auto
  have "blob_of E kek (slots tok ! i) blob"
    using b slot_index(2)[OF Cons.prems(2), of i] Cons.prems(3)
    by (auto simp: hsm_slot_serialize_def blob_of_def split: if_splits)
  then show ?case using rs r(2) by (intro exI[of _ "(i, blob) # rs"]) simp
qed simp

lemma load_slots_concat:
  assumes "\<forall>(i, blob)\<in>set rs. length blob < 2 ^ 32"
  shows "load_slots E kek (pre @ concat (map (\<lambda>r. ks_record (snd r)) rs)) (map fst rs) (length pre) st tok =
    install_list E kek rs tok"
  using assms
proof (induction rs arbitrary: pre st tok)
  case (Cons r rs)
  obtain i blob where p: "r = (i, blob)" by fastforce
  define rest where "rest = concat (map (\<lambda>r. ks_record (snd r)) rs)"
  let ?body = "pre @ ks_record blob @ rest"
  have l: "unat (get_u32 (drop (length pre) ?body)) = length blob"
    using Cons.prems by (simp add: p ks_record_def le_get_le_bytes unat_u32_less)
  have s: "slice (length pre + 4) (length blob) ?body = blob" by (simp add: slice_def ks_record_def)
  have n: "length ?body = length pre + 4 + length blob + length rest" by (simp add: ks_record_def)
  have ih: "load_slots E kek ((pre @ ks_record blob) @ rest) (map fst rs) (length pre + 4 + length blob) HSM_OK t =
      install_list E kek rs t" for t
    using Cons.IH[of "pre @ ks_record blob" HSM_OK t] Cons.prems
    by (simp add: rest_def ks_record_def add.assoc)
  have "load_slots E kek ?body (i # map fst rs) (length pre) st tok =
      install_list E kek ((i, blob) # rs) tok"
    unfolding load_slots.simps Let_def l s using ih by (simp add: n split: prod.split)
  then show ?case by (simp add: p rest_def)
qed simp

section \<open>A successful save\<close>

lemma serialize_all_error: "serialize_all E kek is tok = (Inl e, tok') \<Longrightarrow> e \<noteq> HSM_OK"
  by (induction "is" arbitrary: tok) (auto split: prod.splits sum.splits dest: serialize_error)

text \<open>What a save that succeeds has done: the file it put in place, and the anchor advanced after it.\<close>

lemma save_steps:
  assumes "keystore_save_impl E g crash (Some tok) (Some path) detail = (Some HSM_OK, Some tok')"
  obtains t1 t2 t3 t4 t5 salt kek fkey seen recs tag got d where
    "length salt = KS_SALT_LEN" "pqc_kek_derive E salt = Some kek" "derive_file_key E salt = Some fkey"
    "only_core tok t2" "pqc_rbanchor_read E g (Some path) True t2 = (Some seen, t3)"
    "serialize_all E kek [0..<length (slots tok)] t3 = (Inr recs, t4)"
    "kmac E fkey (ks_header (length (slots tok)) salt (seen + 1) @ recs) ''pqc-hsm/keystore'' KS_TAG_LEN = Some tag"
    "ks_store E crash path (length (slots tok)) (ks_header (length (slots tok)) salt (seen + 1) @ recs) tag t4 =
       (Some HSM_OK, t5)"
    "pqc_rbanchor_bump E g (Some path) t5 = (got, t1)"
    "tok' = slot_audit E AUDIT_OP_KEK_ROTATE HSM_ROLE_PUBLIC 0 HSM_OK (Some (cstr d)) t1"
proof -
  let ?n = "length (slots tok)"
  obtain ok salt t1 where r1: "pqc_random_bytes E (Some (replicate KS_SALT_LEN 0)) tok = (ok, salt, t1)"
    by (metis prod_cases3)
  have l: "length salt = KS_SALT_LEN" using length_pqc_random_bytes[OF r1] by simp
  have k: "ok" "pqc_kek_derive E salt \<noteq> None" "derive_file_key E salt \<noteq> None"
    using assms r1 by (auto simp: keystore_save_impl_def Let_def split: if_splits option.splits)
  then obtain kek fkey where kk: "pqc_kek_derive E salt = Some kek" "derive_file_key E salt = Some fkey" by auto
  obtain a2 t2 where r2: "pqc_secure_alloc E hsm_slot_blob_max (next_tick t1) = (a2, t2)" by fastforce
  have c2: "only_core tok t2"
    using only_core_trans[OF only_core_calls(7)[OF r1] only_core_trans[OF only_core_next_tick only_core_calls(8)[OF r2]]] .
  obtain rd t3 where r3: "pqc_rbanchor_read E g (Some path) True t2 = (rd, t3)" by fastforce
  obtain rs t4 where r4: "serialize_all E kek [0..<?n] t3 = (rs, t4)" by fastforce
  note main = map_prod_Some[OF assms[unfolded keystore_save_impl_def option.case prod.case Let_def r1 r2 r3 r4 kk]]
  have nok: "ks_audit E e d t \<noteq> (Some HSM_OK, t')" if "e \<noteq> HSM_OK" for e d t t'
    using that by (simp add: ks_audit_def)
  obtain seen where seen: "rd = Some seen"
    using main k(1) nok by (auto split: if_splits option.splits)
  obtain recs where recs: "rs = Inr recs"
    using main k(1) nok seen serialize_all_error r4 by (cases rs) (auto split: if_splits option.splits)
  let ?body = "ks_header ?n salt (seen + 1) @ recs"
  obtain tag where tag: "kmac E fkey ?body ''pqc-hsm/keystore'' KS_TAG_LEN = Some tag"
    using main k(1) nok seen recs by (auto split: if_splits option.splits)
  obtain rk t5 where st: "ks_store E crash path ?n ?body tag t4 = (rk, t5)" by fastforce
  obtain got t6 where b: "pqc_rbanchor_bump E g (Some path) t5 = (got, t6)" by fastforce
  have "rk = Some HSM_OK"
    using main k(1) nok seen recs tag st by (auto split: if_splits option.splits)
  moreover have "\<exists>d. tok' = slot_audit E AUDIT_OP_KEK_ROTATE HSM_ROLE_PUBLIC 0 HSM_OK (Some (cstr d)) t6"
    using main k(1) nok seen recs tag st b by (auto simp: ks_audit_def split: if_splits option.splits)
  ultimately show thesis using that[OF l kk c2] r3 r4 seen recs tag st b by blast
qed

section \<open>What the file holds\<close>

text \<open>A key store file of these slots, at this epoch.\<close>

definition ks_holds :: "env \<Rightarrow> slot list \<Rightarrow> u64 \<Rightarrow> bytes \<Rightarrow> bool" where
  "ks_holds E sl epoch f \<longleftrightarrow>
     (\<exists>salt kek fkey rs tag. let body = ks_header (length sl) salt epoch @ concat (map (\<lambda>r. ks_record (snd r)) rs) in
        length salt = KS_SALT_LEN \<and> pqc_kek_derive E salt = Some kek \<and> derive_file_key E salt = Some fkey \<and>
        map fst rs = [0..<length sl] \<and> (\<forall>(i, blob)\<in>set rs. blob_of E kek (sl ! i) blob) \<and>
        kmac E fkey body ''pqc-hsm/keystore'' KS_TAG_LEN = Some tag \<and> f = body @ tag)"

lemma serialize_all_core: "serialize_all E kek is tok = (r, tok') \<Longrightarrow> only_core tok tok'"
proof (induction "is" arbitrary: tok r)
  case (Cons i "is")
  then show ?case
    by (auto split: prod.splits sum.splits dest!: serialize_core intro: only_core_trans)
qed simp

lemma files_anchor_paths:
  assumes "c_strlen path \<le> 500" "c_string path = path"
  shows "anchor_path (Some path) \<noteq> path" "anchor_tmp (Some path) \<noteq> path"
    "anchor_path (Some path) \<noteq> tmp_of path" "anchor_tmp (Some path) \<noteq> tmp_of path"
proof -
  have l: "length path \<le> 500" using assms length_c_string[of path] by simp
  have e: "anchor_path (Some path) = path @ cstr ''.epoch''" "anchor_tmp (Some path) = path @ cstr ''.epoch.tmp''"
    "tmp_of path = path @ cstr ''.tmp''"
    using l assms(2) by (simp_all add: anchor_path_def anchor_tmp_def tmp_of_def cstr_def)
  show "anchor_path (Some path) \<noteq> path" "anchor_tmp (Some path) \<noteq> path"
    "anchor_path (Some path) \<noteq> tmp_of path" "anchor_tmp (Some path) \<noteq> tmp_of path"
    unfolding e by (auto simp: cstr_def)
qed

lemma file_read_files: "file_read E scope w = (r, w') \<Longrightarrow> files w' = files w"
  by (auto simp: file_read_def fopen_read_def sys_ok_def split: option.splits prod.splits if_splits)

lemma file_bump_files:
  assumes "file_bump E scope w = (r, w')" "q \<noteq> anchor_path scope" "q \<noteq> anchor_tmp scope"
  shows "files w' q = files w q"
proof -
  have w: "files w2 q = files w1 q" if "io_pwrite E (anchor_tmp scope) b off w1 = (ok, w2)"
    for b off ok and w1 w2 :: "'a world_scheme"
    using io_pwrite_result[OF that] assms(3) by fastforce
  have f: "files w2 q = files w1 q" if "file_write E scope v w1 = (ok, w2)" for v ok and w1 w2 :: "'a world_scheme"
    using that assms(2,3) by (auto simp: file_write_def Let_def sys_ok_def split: prod.splits if_splits dest!: w)
  show ?thesis
    using assms(1) file_read_files by (fastforce simp: file_bump_def split: option.splits prod.splits if_splits dest: f)
qed

lemma more_parts:
  assumes "world.more t = world.more (tok :: hsm_token)"
  shows "slots t = slots tok" "audit t = audit tok"
  using assms by (cases t, cases tok, simp)+

lemma more_only_core: "only_core tok t \<Longrightarrow> world.more t = world.more tok"
  unfolding only_core_def by (cases t, cases tok) simp

text \<open>After a successful save the file holds the slots, and the anchor stands at its epoch.\<close>

lemma save_holds:
  assumes "keystore_save_impl E None crash (Some tok) (Some path) detail = (Some HSM_OK, Some tok')"
    and "length (slots tok) \<le> 4096" "labels_ok tok" "c_strlen path \<le> 500" "c_string path = path" "io_perfect E"
    and "\<forall>log. audit tok = Some log \<longrightarrow> al_fd log \<notin> {Some path, Some (anchor_path (Some path))}"
  shows "\<exists>epoch f. files tok' path = Some f \<and> ks_holds E (slots tok) epoch f \<and>
    fst (file_read E (Some path) tok') = Some epoch \<and> log_fd tok' = log_fd tok \<and>
    (audit tok = None \<longrightarrow> audit tok' = None)"
proof -
  let ?n = "length (slots tok)" and ?a = "anchor_path (Some path)"
  obtain t1 t2 t3 t4 t5 salt kek fkey seen recs tag got d where s:
    "length salt = KS_SALT_LEN" "pqc_kek_derive E salt = Some kek" "derive_file_key E salt = Some fkey"
    "only_core tok t2" "pqc_rbanchor_read E None (Some path) True t2 = (Some seen, t3)"
    "serialize_all E kek [0..<?n] t3 = (Inr recs, t4)"
    "kmac E fkey (ks_header ?n salt (seen + 1) @ recs) ''pqc-hsm/keystore'' KS_TAG_LEN = Some tag"
    "ks_store E crash path ?n (ks_header ?n salt (seen + 1) @ recs) tag t4 = (Some HSM_OK, t5)"
    "pqc_rbanchor_bump E None (Some path) t5 = (got, t1)"
    "tok' = slot_audit E AUDIT_OP_KEK_ROTATE HSM_ROLE_PUBLIC 0 HSM_OK (Some (cstr d)) t1"
    by (rule save_steps[OF assms(1)])
  note p = files_anchor_paths[OF assms(4,5)]
  have fr: "file_read E (Some path) t2 = (Some seen, t3)" and fb: "file_bump E (Some path) t5 = (got, t1)"
    using s(5,9) by (simp_all add: pqc_rbanchor_read_def pqc_rbanchor_bump_def pqc_rbanchor_get_provider_def g_file_def)
  have sl: "slots t3 = slots tok" "files t3 = files tok"
    using more_parts(1)[OF more_only_core[OF s(4)]] more_parts(1)[OF more_file_read[OF fr]]
      only_core_files[OF s(4)] file_read_files[OF fr] by simp_all
  obtain rs where rs: "recs = concat (map (\<lambda>r. ks_record (snd r)) rs)" "map fst rs = [0..<?n]"
    "\<forall>(i, blob)\<in>set rs. blob_of E kek (slots tok ! i) blob"
    using serialize_all_result[OF s(6)] sl assms(2) by auto
  have lab: "labels_ok t3" using assms(3) sl by (simp add: labels_ok_def)
  note st = ks_store_files[OF s(6) lab s(1,8)]
  have f5: "files t5 path = Some (ks_header ?n salt (seen + 1) @ recs @ tag)" "files t5 ?a = files tok ?a"
    using st p sl by auto
  have f1: "files t1 path = files t5 path" using file_bump_files[OF fb] p by metis
  have "audit t1 = audit tok"
    using more_parts(2)[OF more_only_core[OF s(4)]] more_parts(2)[OF more_file_read[OF fr]]
      more_parts(2)[OF more_only_core[OF serialize_all_core[OF s(6)]]] more_parts(2)[OF more_ks_store[OF s(8)]]
      more_parts(2)[OF more_file_bump[OF fb]] by simp
  then have fd: "log_fd tok' = log_fd tok" "audit tok = None \<Longrightarrow> audit tok' = None"
    by (simp_all add: s(10)) (simp_all add: log_fd_def slot_audit_def)
  have out: "files tok' path = files t1 path" "files tok' ?a = files t1 ?a"
    using assms(7) \<open>audit t1 = audit tok\<close> slot_audit_files[of t1 path] slot_audit_files[of t1 ?a] by (auto simp: s(10))
  have g: "fst (file_read E (Some path) t2) = Some seen" "fst (file_read E (Some path) t5) = Some seen"
    using fr f5(2) only_core_files[OF s(4)] by (simp_all add: file_read_perfect[OF assms(6)])
  obtain ok t6 where w: "file_write E (Some path) (seen + 1) (snd (file_read E (Some path) t5)) = (ok, t6)" by fastforce
  have wp: "ok" "files t6 ?a = Some (dec_digits (unat (seen + 1)) @ [10])"
    using file_write_perfect[OF assms(6) w tmp_differs[OF assms(4)]] by simp_all
  have "t1 = t6"
    using fb g(2) w wp(1) by (cases "file_read E (Some path) t5") (simp add: file_bump_def)
  then have e: "fst (file_read E (Some path) tok') = Some (seen + 1)"
    using wp(2) out(2) by (simp add: file_read_perfect[OF assms(6)] scan_dec)
  have "ks_holds E (slots tok) (seen + 1) (ks_header ?n salt (seen + 1) @ recs @ tag)"
    unfolding ks_holds_def Let_def using s(1-3,7) rs
    by (intro exI[of _ salt] exI[of _ kek] exI[of _ fkey] exI[of _ rs] exI[of _ tag]) simp
  then show ?thesis using e out(1) f1 f5(1) fd by auto
qed

section \<open>Atomic saves\<close>

text \<open>The files a save may write: the store, the anchor, their temporary files, and the audit log.\<close>

definition save_files :: "hsm_token \<Rightarrow> bytes \<Rightarrow> bytes set" where
  "save_files tok path =
     {path, tmp_of path, anchor_path (Some path), anchor_tmp (Some path)} \<union> set_option (log_fd tok)"

text \<open>What is on disk while a save runs: the store as it was or complete, every other file as it was.\<close>

definition save_state :: "env \<Rightarrow> hsm_token \<Rightarrow> bytes \<Rightarrow> hsm_token \<Rightarrow> bool" where
  "save_state E tok path t \<longleftrightarrow> audit t = audit tok \<and>
     (files t path = files tok path \<or> (\<exists>epoch f. files t path = Some f \<and> ks_holds E (slots tok) epoch f)) \<and>
     (\<forall>q. q \<notin> save_files tok path \<longrightarrow> files t q = files tok q)"

lemma save_state_same:
  "world.more t = world.more tok \<Longrightarrow> files t = files tok \<Longrightarrow> save_state E tok path t"
  using more_parts(2)[of t tok] by (simp add: save_state_def)

lemma save_state_audit:
  assumes "save_state E tok path t" "log_fd tok \<noteq> Some path" "ks_audit E st d t = (r, tok')"
  shows "r = Some st \<and> files tok' path = files t path \<and> (\<forall>q. q \<notin> save_files tok path \<longrightarrow> files tok' q = files tok q)"
proof -
  have "files (slot_audit E op role sl res det t) q = files t q" if "log_fd tok \<noteq> Some q" for op role sl res det q
    using assms(1) that by (intro slot_audit_files) (auto simp: log_fd_def save_state_def split: option.splits)
  then show ?thesis using assms by (auto simp: ks_audit_def save_state_def save_files_def)
qed

lemma save_store:
  assumes "serialize_all E kek [0..<length (slots tok)] t3 = (Inr recs, t4)" "world.more t3 = world.more tok"
    and "files t3 = files tok" "length (slots tok) \<le> 4096" "labels_ok tok" "length salt = KS_SALT_LEN"
    and "pqc_kek_derive E salt = Some kek" "derive_file_key E salt = Some fkey"
    and "kmac E fkey (ks_header (length (slots tok)) salt epoch @ recs) ''pqc-hsm/keystore'' KS_TAG_LEN = Some tag"
    and "ks_store E crash path (length (slots tok)) (ks_header (length (slots tok)) salt epoch @ recs) tag t4 = (rk, t5)"
  shows "save_state E tok path t5 \<and> (rk = Some HSM_OK \<longrightarrow> (\<exists>e f. files t5 path = Some f \<and> ks_holds E (slots tok) e f))"
proof -
  let ?n = "length (slots tok)"
  have sl: "slots t3 = slots tok" using more_parts(1)[OF assms(2)] .
  obtain rs where rs: "recs = concat (map (\<lambda>r. ks_record (snd r)) rs)" "map fst rs = [0..<?n]"
    "\<forall>(i, blob)\<in>set rs. blob_of E kek (slots tok ! i) blob"
    using serialize_all_result[OF assms(1)] sl assms(4) by auto
  have "ks_holds E (slots tok) epoch (ks_header ?n salt epoch @ recs @ tag)"
    unfolding ks_holds_def Let_def using assms(6-9) rs
    by (intro exI[of _ salt] exI[of _ kek] exI[of _ fkey] exI[of _ rs] exI[of _ tag]) simp
  moreover have "labels_ok t3" using assms(5) sl by (simp add: labels_ok_def)
  note st = ks_store_files[OF assms(1) this assms(6,10)]
  have "world.more t5 = world.more tok"
    using more_ks_store[OF assms(10)] more_only_core[OF serialize_all_core[OF assms(1)]] assms(2) by simp
  then have "audit t5 = audit tok" using more_parts(2) by blast
  ultimately show ?thesis using st assms(3) by (auto simp: save_state_def save_files_def)
qed

lemma save_bump:
  assumes "save_state E tok path t5" "pqc_rbanchor_bump E None (Some path) t5 = (got, t6)"
    and "anchor_path (Some path) \<noteq> path" "anchor_tmp (Some path) \<noteq> path"
  shows "save_state E tok path t6 \<and> files t6 path = files t5 path"
proof -
  have fb: "file_bump E (Some path) t5 = (got, t6)"
    using assms(2) by (simp add: pqc_rbanchor_bump_def pqc_rbanchor_get_provider_def g_file_def)
  have "audit t6 = audit t5" using more_parts(2)[OF more_file_bump[OF fb]] .
  then show ?thesis
    using assms(1,3,4) file_bump_files[OF fb] by (auto simp: save_state_def save_files_def)
qed

text \<open>How a save ends.\<close>

definition save_done :: "env \<Rightarrow> hsm_token \<Rightarrow> bytes \<Rightarrow> hsm_status option \<times> hsm_token \<Rightarrow> bool" where
  "save_done E tok path x \<longleftrightarrow>
     (files (snd x) path = files tok path \<or>
        (\<exists>epoch f. files (snd x) path = Some f \<and> ks_holds E (slots tok) epoch f)) \<and>
     (fst x = Some HSM_OK \<longrightarrow> (\<exists>epoch f. files (snd x) path = Some f \<and> ks_holds E (slots tok) epoch f)) \<and>
     (\<forall>q. q \<notin> save_files tok path \<longrightarrow> files (snd x) q = files tok q)"

lemma save_done_audit:
  assumes "save_state E tok path t" "log_fd tok \<noteq> Some path"
    and "st \<noteq> HSM_OK \<or> (\<exists>e f. files t path = Some f \<and> ks_holds E (slots tok) e f)"
  shows "save_done E tok path (ks_audit E st d t)"
proof -
  obtain r t' where a: "ks_audit E st d t = (r, t')" by fastforce
  show ?thesis
    using save_state_audit[OF assms(1,2) a] assms(1,3) by (auto simp: a save_done_def save_state_def)
qed

lemma save_done_fail: "save_state E tok path t \<Longrightarrow> st \<noteq> Some HSM_OK \<Longrightarrow> save_done E tok path (st, t)"
  by (simp add: save_done_def save_state_def)

lemma save_impl_done:
  assumes "keystore_save_impl E None crash (Some tok) (Some path) detail = (r, Some tok')"
    and "length (slots tok) \<le> 4096" "labels_ok tok" "log_fd tok \<noteq> Some path"
    and "anchor_path (Some path) \<noteq> path" "anchor_tmp (Some path) \<noteq> path"
  shows "save_done E tok path (r, tok')"
proof -
  let ?n = "length (slots tok)"
  obtain ok salt t1 where r1: "pqc_random_bytes E (Some (replicate KS_SALT_LEN 0)) tok = (ok, salt, t1)"
    by (metis prod_cases3)
  have l: "length salt = KS_SALT_LEN" using length_pqc_random_bytes[OF r1] by simp
  have c1: "save_state E tok path t1"
    using save_state_same[OF more_only_core[OF only_core_calls(7)[OF r1]] only_core_files[OF only_core_calls(7)[OF r1]]] .
  show ?thesis
  proof (cases "ok \<and> pqc_kek_derive E salt \<noteq> None \<and> derive_file_key E salt \<noteq> None")
    case False
    then show ?thesis using assms(1) r1 save_done_fail[OF c1]
      by (auto simp: keystore_save_impl_def Let_def split: if_splits option.splits)
  next
    case True
    then obtain kek fkey where k: "ok" "pqc_kek_derive E salt = Some kek" "derive_file_key E salt = Some fkey"
      by auto
    obtain a2 t2 where r2: "pqc_secure_alloc E hsm_slot_blob_max (next_tick t1) = (a2, t2)" by fastforce
    have o2: "only_core tok t2"
      using only_core_trans[OF only_core_calls(7)[OF r1] only_core_trans[OF only_core_next_tick only_core_calls(8)[OF r2]]] .
    have c2: "save_state E tok path t2"
      using save_state_same[OF more_only_core[OF o2] only_core_files[OF o2]] .
    obtain rd t3 where r3: "pqc_rbanchor_read E None (Some path) True t2 = (rd, t3)" by fastforce
    have fr: "file_read E (Some path) t2 = (rd, t3)"
      using r3 by (simp add: pqc_rbanchor_read_def pqc_rbanchor_get_provider_def g_file_def)
    have m3: "world.more t3 = world.more tok" "files t3 = files tok"
      using more_file_read[OF fr] file_read_files[OF fr] more_only_core[OF o2] only_core_files[OF o2] by simp_all
    have c3: "save_state E tok path t3" using save_state_same[OF m3] .
    obtain rs t4 where r4: "serialize_all E kek [0..<?n] t3 = (rs, t4)" by fastforce
    have o4: "only_core t3 t4" using serialize_all_core[OF r4] .
    have c4: "save_state E tok path t4"
      using save_state_same[of t4 tok] more_only_core[OF o4] only_core_files[OF o4] m3 by simp
    note fail = save_done_audit[OF _ assms(4)]
    have store: "save_done E tok path x"
      if "rs = Inr recs" "kmac E fkey (ks_header ?n salt ep @ recs) ''pqc-hsm/keystore'' KS_TAG_LEN = Some tag"
        "(case ks_store E crash path ?n (ks_header ?n salt ep @ recs) tag t4 of
          (None, t5) \<Rightarrow> (None, t5)
        | (Some st, t5) \<Rightarrow>
            if st \<noteq> HSM_OK then ks_audit E st detail t5
            else (case pqc_rbanchor_bump E None (Some path) t5 of
              (got, t6) \<Rightarrow> ks_audit E HSM_OK (f got) t6)) = x" for recs tag ep x f
    proof -
      obtain rk t5 where st: "ks_store E crash path ?n (ks_header ?n salt ep @ recs) tag t4 = (rk, t5)" by fastforce
      note c5 = save_store[OF r4[unfolded that(1)] m3 assms(2,3) l k(2,3) that(2) st]
      obtain got t6 where b: "pqc_rbanchor_bump E None (Some path) t5 = (got, t6)" by fastforce
      note c6 = save_bump[OF conjunct1[OF c5] b assms(5,6)]
      have ends: "rk = None \<or> (\<exists>s. rk = Some s \<and> s \<noteq> HSM_OK) \<or> rk = Some HSM_OK" by auto
      have good: "save_done E tok path (ks_audit E HSM_OK d t6)" if "rk = Some HSM_OK" for d
        by (rule fail[OF conjunct1[OF c6]]) (use c5 c6 that in auto)
      have bad: "save_done E tok path (ks_audit E s d t5)" if "s \<noteq> HSM_OK" for s d
        using fail[OF conjunct1[OF c5]] that by blast
      show ?thesis
        using that(3) ends good bad save_done_fail[OF conjunct1[OF c5], of None] by (auto simp: st b)
    qed
    define x where "x = (r, tok')"
    note main = map_prod_Some[OF assms(1)[unfolded keystore_save_impl_def option.case prod.case Let_def r1 r2 r3 r4 k(2,3)],
        simplified, folded x_def]
    have "save_done E tok path x"
    proof (cases "a2 = None \<or> \<not> malloc_ok E (tick t1) (KS_HDR_LEN + ?n * (4 + hsm_slot_blob_max)) \<or> rd = None")
      case True
      then show ?thesis
        using main k(1) fail[OF c2, of HSM_ERR_NOMEM] fail[OF c3, of HSM_ERR_CRYPTO]
        by (auto split: if_splits option.splits)
    next
      case False
      then obtain seen where seen: "rd = Some seen" by auto
      show ?thesis
      proof (cases rs)
        case (Inl e)
        then show ?thesis
          using main k(1) False seen fail[OF c4, of e] serialize_all_error[OF r4[unfolded Inl]] by auto
      next
        case (Inr recs)
        show ?thesis
        proof (cases "kmac E fkey (ks_header ?n salt (seen + 1) @ recs) ''pqc-hsm/keystore'' KS_TAG_LEN")
          case None
          then show ?thesis using main k(1) False seen Inr fail[OF c4, of HSM_ERR_CRYPTO] by auto
        next
          case (Some tag)
          show ?thesis
            by (rule store[OF Inr Some]) (use main k(1) False seen Inr Some in auto)
        qed
      qed
    qed
    then show ?thesis by (simp add: x_def)
  qed
qed

text \<open>
  C5: a save replaces the key store atomically. Whatever system call, allocation or crypto call fails,
  however short a write is, and wherever the crash hook ends the process, the file at the path is afterwards
  either exactly what it was or a complete key store of the token's slots, header, one record for each slot
  and MAC; it is the latter whenever the save reports HSM\_OK. Besides it a save writes only its temporary
  file, the rollback anchor with its temporary file, and the audit log. (For the built-in anchor, a log that
  is not the store itself, and an anchor whose name, cut to its buffer, is not that of the store.)
\<close>

theorem save_atomic:
  assumes "hsm_keystore_save E None crash (Some tok) (Some path) = (r, Some tok')"
    and "length (slots tok) \<le> 4096" "labels_ok tok" "log_fd tok \<noteq> Some path"
    and "anchor_path (Some path) \<noteq> path" "anchor_tmp (Some path) \<noteq> path"
  shows "(files tok' path = files tok path \<or>
        (\<exists>epoch f. files tok' path = Some f \<and> ks_holds E (slots tok) epoch f)) \<and>
     (r = Some HSM_OK \<longrightarrow> (\<exists>epoch f. files tok' path = Some f \<and> ks_holds E (slots tok) epoch f)) \<and>
     (\<forall>q. q \<notin> {path, tmp_of path, anchor_path (Some path), anchor_tmp (Some path)} \<union> set_option (log_fd tok) \<longrightarrow>
        files tok' q = files tok q)"
  using save_impl_done[OF assms(1)[unfolded hsm_keystore_save_def] assms(2-6)]
  by (simp add: save_done_def save_files_def)

section \<open>Loading what was saved\<close>

lemma ks_body_parts:
  fixes salt :: bytes and epoch :: u64 and recs :: bytes
  assumes "length salt = KS_SALT_LEN" "n \<le> 4096" "length tag = KS_TAG_LEN"
  defines "f \<equiv> (ks_header n salt epoch @ recs) @ tag"
  shows "take 8 f = KS_MAGIC" "get_u32 (drop 8 f) = HSM_KEYSTORE_VERSION" "unat (get_u32 (drop 12 f)) = n"
    "slice 16 KS_SALT_LEN f = salt" "get_u64 (drop KS_OFF_EPOCH f) = epoch"
    "take (length f - KS_TAG_LEN) f = ks_header n salt epoch @ recs" "drop (length f - KS_TAG_LEN) f = tag"
    "\<not> length f < KS_HDR_LEN + KS_TAG_LEN"
proof -
  have m: "length KS_MAGIC = 8" by (simp add: KS_MAGIC_def cstr_def)
  show "take 8 f = KS_MAGIC" "get_u32 (drop 8 f) = HSM_KEYSTORE_VERSION" "slice 16 KS_SALT_LEN f = salt"
    using assms(1) by (simp_all add: f_def ks_header_def m le_get_le_bytes slice_def)
  have "drop 12 f = put_u32 (of_nat n) @ salt @ put_u64 epoch @ recs @ tag"
    by (simp add: f_def ks_header_def m)
  then show "unat (get_u32 (drop 12 f)) = n" using assms(2) by (simp add: le_get_le_bytes unat_u32_less)
  have "drop KS_OFF_EPOCH f = put_u64 epoch @ recs @ tag"
    using assms(1) by (simp add: f_def ks_header_def m ks_consts)
  then show "get_u64 (drop KS_OFF_EPOCH f) = epoch" by (simp add: le_get_le_bytes)
  show "take (length f - KS_TAG_LEN) f = ks_header n salt epoch @ recs" "drop (length f - KS_TAG_LEN) f = tag"
    "\<not> length f < KS_HDR_LEN + KS_TAG_LEN"
    using assms(1,3) length_ks_header[OF assms(1), of n epoch] by (simp_all add: f_def)
qed

lemma load_holds:
  assumes holds: "ks_holds E sl epoch f" "files dev path = Some f"
    and anchor: "fst (file_read E (Some path) dev) = Some seen" "seen \<le> epoch"
    and src: "\<forall>i < length sl. storable (of_nat i) (sl ! i)"
    and dev: "names_ok (slots dev)" "length (slots dev) = length sl"
    and env: "gcm_ok E" "seal_total E" "alloc_total E" "io_perfect E"
    and load: "hsm_keystore_load E None (Some dev) (Some path) = (st, Some dev')"
  shows "st = HSM_OK \<and> length (slots dev') = length sl \<and>
    (\<forall>i < length sl. restored_copy E (sl ! i) (slots dev' ! i))"
proof -
  let ?n = "length sl"
  obtain salt kek fkey rs tag where h: "length salt = KS_SALT_LEN" "pqc_kek_derive E salt = Some kek"
    "derive_file_key E salt = Some fkey" "map fst rs = [0..<?n]" "\<forall>(i, blob)\<in>set rs. blob_of E kek (sl ! i) blob"
    "kmac E fkey (ks_header ?n salt epoch @ concat (map (\<lambda>r. ks_record (snd r)) rs)) ''pqc-hsm/keystore'' KS_TAG_LEN = Some tag"
    and f: "f = (ks_header ?n salt epoch @ concat (map (\<lambda>r. ks_record (snd r)) rs)) @ tag"
    using holds(1) unfolding ks_holds_def Let_def by blast
  have n: "?n \<le> 4096" using dev by (simp add: names_ok_def)
  have tag: "length tag = KS_TAG_LEN" using pqc_kmac256_length[OF h(6)] .
  have kek: "length kek = PQC_KEK_LEN" using h(2) pqc_kdr_derive_length by (fastforce simp: pqc_kek_derive_def)
  note b = ks_body_parts[OF h(1) n tag, of epoch "concat (map (\<lambda>r. ks_record (snd r)) rs)", folded f]
  have i: "i \<in> fst ` set rs \<longleftrightarrow> i < ?n" for i using arg_cong[OF h(4), of set] by auto
  have good: "\<forall>(i, blob)\<in>set rs. i < ?n \<and> storable (of_nat i) (sl ! i) \<and> blob_of E kek (sl ! i) blob"
    using h(5) src i by (metis (no_types, lifting) case_prodD case_prodI2 fst_conv image_eqI)
  have small: "\<forall>(i, blob)\<in>set rs. length blob < 2 ^ 32"
    using good blob_of_length by (fastforce simp: storable_def)
  define t where "t = next_tick (next_tick (next_tick (next_tick dev)))"
  have t: "slots t = slots dev" "files t = files dev" by (simp_all add: t_def next_tick_def)
  obtain t2 where rd: "file_read E (Some path) t = (Some seen, t2)"
    using anchor(1) t(2) by (simp add: file_read_perfect[OF env(4)])
  have t2: "slots t2 = slots dev" using more_parts(1)[OF more_file_read[OF rd]] t by simp
  have loop: "load_slots E kek (ks_header ?n salt epoch @ concat (map (\<lambda>r. ks_record (snd r)) rs)) [0..<?n] KS_HDR_LEN
      HSM_ERR_INTEGRITY t2 = install_list E kek rs t2"
    using load_slots_concat[OF small, of E kek "ks_header ?n salt epoch"] length_ks_header[OF h(1)] by (simp add: h(4))
  have ck: "load_checked E None path f t = install_list E kek rs t2"
    unfolding load_checked_def Let_def b h(2,3) t(1) dev(2) option.case prod.case h(6)
    using tag rd loop anchor(2)
    by (simp add: pqc_ct_equal_iff pqc_rbanchor_read_def pqc_rbanchor_get_provider_def g_file_def
        linorder_not_less[symmetric])
  have k: "E\<lparr>kdr := kdr E\<rparr> = E" by simp
  obtain d2 where d2: "install_list E kek rs t2 = (HSM_OK, d2)" "length (slots d2) = ?n"
    "\<forall>j < ?n. if j \<in> fst ` set rs then restored_copy E (sl ! j) (slots d2 ! j) else slots d2 ! j = slots t2 ! j"
    using install_all[where k = "kdr E" and E = E and recs = rs and dev = t2 and src = "\<lambda>i. sl ! i", unfolded k,
        OF env(1-3) kek] good dev h(4) by (auto simp: t2)
  have "hsm_keystore_load E None (Some dev) (Some path) = (HSM_OK, Some d2)"
    using ck d2(1) holds(2) b(8) env(3)
    by (simp add: hsm_keystore_load_def fopen_read_def sys_ok_perfect[OF env(4)] alloc_total_def t_def)
  then show ?thesis using load d2(2,3) i by auto
qed

lemma save_load:
  assumes save: "hsm_keystore_save E None crash (Some tok) (Some path) = (Some HSM_OK, Some tok')"
    and src: "length (slots tok) \<le> 4096" "\<forall>i < length (slots tok). storable (of_nat i) (slots tok ! i)"
    and path: "c_strlen path \<le> 500" "c_string path = path"
    and log: "\<forall>log. audit tok = Some log \<longrightarrow> al_fd log \<notin> {Some path, Some (anchor_path (Some path))}"
    and env: "gcm_ok E" "seal_total E" "alloc_total E" "io_perfect E"
    and dev: "names_ok (slots dev)" "length (slots dev) = length (slots tok)"
      "files dev path = files tok' path" "files dev (anchor_path (Some path)) = files tok' (anchor_path (Some path))"
    and load: "hsm_keystore_load E None (Some dev) (Some path) = (st, Some dev')"
  shows "st = HSM_OK \<and> length (slots dev') = length (slots tok) \<and>
    (\<forall>i < length (slots tok). restored_copy E (slots tok ! i) (slots dev' ! i))"
proof -
  have lab: "labels_ok tok"
    using src(2) by (auto simp: labels_ok_def storable_def slot_inv_def wf_meta_def in_set_conv_nth)
  obtain epoch f where f: "files tok' path = Some f" "ks_holds E (slots tok) epoch f"
    "fst (file_read E (Some path) tok') = Some epoch"
    using save_holds[OF save[unfolded hsm_keystore_save_def] src(1) lab path env(4) log] by blast
  have "fst (file_read E (Some path) dev) = Some epoch"
    using f(3) dev(4) by (simp add: file_read_perfect[OF env(4)])
  then show ?thesis
    using load_holds[OF f(2) _ _ _ src(2) dev(1,2) env load] f(1) dev(3) by simp
qed

text \<open>
  C19: what is saved is loaded. After hsm\_keystore\_save has reported HSM\_OK, a token of the same device
  with the same number of slots that finds the two files, the store and its anchor, loads them with
  HSM\_OK, and every slot is there again as it was stored, freshly sealed: metadata with counters and
  lock state, PINs, public key and private key or seed, all but the reference to a key in hardware. This is
  for a path of at most 500 bytes and an audit log that is neither file, where system calls, allocations and
  seals work, as a save with HSM\_OK and a load that succeeds need, and GCM decryption undoes encryption.
\<close>

theorem keystore_roundtrip:
  assumes "hsm_keystore_save E None crash (Some tok) (Some path) = (Some HSM_OK, Some tok')"
    and "length (slots tok) \<le> 4096" "\<forall>i < length (slots tok). storable (of_nat i) (slots tok ! i)"
    and "c_strlen path \<le> 500" "c_string path = path"
    and "\<forall>log. audit tok = Some log \<longrightarrow> al_fd log \<notin> {Some path, Some (anchor_path (Some path))}"
    and "gcm_ok E" "seal_total E" "alloc_total E" "io_perfect E"
    and "names_ok (slots dev)" "length (slots dev) = length (slots tok)"
      "files dev path = files tok' path" "files dev (anchor_path (Some path)) = files tok' (anchor_path (Some path))"
    and "hsm_keystore_load E None (Some dev) (Some path) = (st, Some dev')"
  shows "st = HSM_OK \<and> length (slots dev') = length (slots tok) \<and>
    (\<forall>i < length (slots tok). restored_copy E (slots tok ! i) (slots dev' ! i))"
  using assms by (rule save_load)

end
