(* ===== verification/Slot_Keep.thy ===== *)
theory Slot_Keep
  imports Slot_Props
begin

text \<open>
  What a slot needs besides its invariant to be loaded again after it was saved: the version of its
  record, and a state in front of a lockout that has a number. Every call keeps both.
\<close>

definition keepable :: "slot \<Rightarrow> bool" where
  "keepable s \<longleftrightarrow> m_version (sl_meta s) = SLOT_META_VERSION \<and> sl_pre_lock s \<noteq> SLOT_ST_INVALID"

lemma keepable_parts:
  "sl_meta s' = sl_meta s \<Longrightarrow> sl_pre_lock s' = sl_pre_lock s \<Longrightarrow> keepable s' = keepable s"
  by (simp add: keepable_def)

lemma keepable_meta: "(\<And>m. m_version (f m) = m_version m) \<Longrightarrow> keepable (set_meta f s) = keepable s"
  by (simp add: keepable_def)

lemma keepable_simps [simp]:
  "keepable (s\<lparr>sl_meta_tag := t\<rparr>) = keepable s" "keepable (slot_wipe_key_material s) = keepable s"
  "keepable (s\<lparr>sl_pin_key := k\<rparr>) = keepable s" "keepable (s\<lparr>sl_so_salt := a\<rparr>) = keepable s"
  "keepable (s\<lparr>sl_user_salt := a\<rparr>) = keepable s"
  "keepable (s\<lparr>sl_pin_key := k, sl_so_salt := a\<rparr>) = keepable s"
  "keepable (s\<lparr>sl_pin_key := k, sl_so_salt := a, sl_so_verifier := v, sl_has_so_pin := b\<rparr>) = keepable s"
  "keepable (s\<lparr>sl_user_salt := a, sl_user_verifier := v, sl_has_user_pin := b\<rparr>) = keepable s"
  "keepable (s\<lparr>sl_user_verifier := v, sl_has_user_pin := b\<rparr>) = keepable s"
  by (simp_all add: keepable_def)

lemma keepable_reseal: "slot_reseal E s = (r, s') \<Longrightarrow> keepable s' = keepable s"
  by (auto simp: slot_reseal_def split: option.splits)

lemma keepable_fsm: "fsm_apply s ev = (r, s') \<Longrightarrow> keepable s \<Longrightarrow> keepable s'"
proof -
  have i: "slot_fsm_next SLOT_ST_INVALID ev = SLOT_ST_INVALID" for ev
    by (cases ev) (simp_all add: slot_fsm_next_events)
  show "fsm_apply s ev = (r, s') \<Longrightarrow> keepable s \<Longrightarrow> keepable s'"
    using i by (auto simp: fsm_apply_def Let_def keepable_def split: if_splits)
qed

lemma keepable_fsm_snd: "keepable s \<Longrightarrow> keepable (snd (fsm_apply s ev))"
  using keepable_fsm by (metis prod.collapse)

lemma keep_init: "init_token_locked E s l p w = (r, s', w') \<Longrightarrow> keepable s \<Longrightarrow> keepable s'"
  by (auto simp: init_token_locked_def Let_def keepable_meta
      split: if_splits prod.splits option.splits dest: keepable_fsm dest!: keepable_reseal)

lemma keep_user_pin: "set_user_pin_locked E s p w = (r, s', w') \<Longrightarrow> keepable s \<Longrightarrow> keepable s'"
  by (auto simp: set_user_pin_locked_def Let_def keepable_meta
      split: if_splits prod.splits option.splits dest: keepable_reseal)

lemma keep_login: "login_locked E s role p = (r, ok, chg, s') \<Longrightarrow> keepable s \<Longrightarrow> keepable s'"
  by (auto simp: login_locked_def Let_def keepable_meta
      split: if_splits prod.splits option.splits dest: keepable_fsm keepable_reseal)

lemma keep_unlock: "unlock_locked E s = (r, s') \<Longrightarrow> keepable s \<Longrightarrow> keepable s'"
  by (auto simp: keepable_meta dest!: unlock_locked_cases keepable_reseal)

lemma keep_destroy: "destroy_locked E s h = (r, s') \<Longrightarrow> keepable s \<Longrightarrow> keepable s'"
  by (auto simp: destroy_locked_def keepable_meta
      split: if_splits prod.splits dest: keepable_fsm dest!: keepable_reseal)

lemma keep_install_hw: "keepable (install_hw alg us po pk hh s) = keepable s"
  by (simp add: install_hw_def keepable_def key_meta_def slot_wipe_key_material_def)

lemma keep_install_sw: "keepable (install_sw alg us po pk sk seed s) = keepable s"
  by (simp add: install_sw_def Let_def keepable_def key_meta_def slot_wipe_key_material_def)

lemma keep_finish: "install_finish E s = (r, s') \<Longrightarrow> keepable s' = keepable s"
  by (auto simp: install_finish_def split: prod.splits dest: keepable_reseal)

lemma keep_install: "install_key E s alg us po seed n w = (r, s', w') \<Longrightarrow> keepable s' = keepable s"
  by (auto simp: install_key_def install_software_def keep_install_hw keep_install_sw
      split: if_splits prod.splits option.splits sum.splits dest!: keep_finish)

lemma keep_create: "create_locked E s alg us po seed n ev w = (r, s', w') \<Longrightarrow> keepable s \<Longrightarrow> keepable s'"
  by (auto simp: create_locked_def keepable_meta
      split: if_splits prod.splits sum.splits dest: keepable_fsm keep_install dest!: keepable_reseal)

lemma keep_use: "use_result E s h need b stt bs s' \<Longrightarrow> keepable s \<Longrightarrow> keepable s'"
  by (auto simp: use_result_def keepable_def split: if_splits)

lemma keep_crit: "crit E op stt s s' \<Longrightarrow> keepable s \<Longrightarrow> keepable s'"
  by (induction rule: crit.induct)
    (auto intro: keep_init keep_user_pin keep_create keep_use keep_destroy keep_unlock)

lemma keep_zeroized: "zeroized s s' \<Longrightarrow> keepable s'"
  by (simp add: zeroized_def keepable_def blank_meta_def)

definition dev_keepable :: "dev \<Rightarrow> bool" where
  "dev_keepable d \<longleftrightarrow> list_all keepable (fst d)"

lemma list_all_update: "list_all P xs \<Longrightarrow> P x \<Longrightarrow> list_all P (xs[i := x])"
  by (auto simp: list_all_iff dest: set_update_subset_insert[THEN subsetD])

lemma keep_dev_step: "dev_step E op stt d d' \<Longrightarrow> dev_keepable d \<Longrightarrow> dev_keepable d'"
proof (induction rule: dev_step.induct)
  case (dev_crit ss op i sl st0 s' stt g)
  then have "keepable (sl ! unat i)" by (simp add: dev_keepable_def list_all_length)
  then show ?case using dev_crit keep_crit by (auto simp: dev_keepable_def intro: list_all_update)
next
  case (dev_zero ss op i sl sess s' stt g)
  then show ?case using keep_zeroized by (auto simp: dev_keepable_def intro: list_all_update)
next
  case (dev_login ss sess role p i sl st0 ok chg s' stt k g)
  then have "keepable (sl ! unat i)" by (simp add: dev_keepable_def list_all_length)
  then show ?case using dev_login keep_login by (auto simp: dev_keepable_def intro: list_all_update)
qed (simp_all add: dev_keepable_def)

lemma keep_new_slots: "new_slots E is = Some sl \<Longrightarrow> list_all keepable sl"
proof (induction "is" arbitrary: sl)
  case (Cons i "is")
  obtain stt s where r: "slot_reseal E (blank_slot (of_nat i)) = (stt, s)" by fastforce
  have "keepable s" using keepable_reseal[OF r] by (simp add: keepable_def blank_slot_def blank_meta_def)
  then show ?case using Cons r by (auto split: hsm_status.splits)
qed simp

lemma keep_token_new: "hsm_token_new E n w = (Some tok, w') \<Longrightarrow> dev_keepable (dev_of tok)"
  using keep_new_slots by (auto simp: hsm_token_new_def Let_def dev_keepable_def world.extend_def split: if_splits)

end
