(* ===== verification/Daemon_Props.thy ===== *)
theory Daemon_Props
  imports Daemon Proto_Props Keystore_Props Slot_Keep
begin

text \<open>
  What the daemon promises: bytes from the network move the token only along the steps of the abstract
  device, a start that cannot be trusted leaves the files alone, and what a client was told is done is
  there again after a power cut.
\<close>

section \<open>The hook of the daemon\<close>

lemma persist_result:
  "persist_keystore E user tok = (ok, t) \<Longrightarrow>
     \<exists>st. hsm_keystore_save E None (-1) (Some tok) (Some user) = (st, Some t) \<and> ok = (st = Some HSM_OK)"
  using keystore_calls_sec(1)[OF _ rb_frame_file, of E "-1" tok "Some user"]
  by (fastforce simp: persist_keystore_def split: prod.splits)

lemma persist_hook_ok: "hook_ok (persist_keystore E)"
  unfolding hook_ok_def
proof (intro allI)
  fix u t
  obtain ok t' where p: "persist_keystore E u t = (ok, t')" by fastforce
  then obtain st where "hsm_keystore_save E None (-1) (Some t) (Some u) = (st, Some t')"
    using persist_result by blast
  then show "sec (snd (persist_keystore E u t)) = sec t"
    using keystore_calls_sec(1)[OF _ rb_frame_file] p by fastforce
qed

section \<open>Steps of the abstract device\<close>

text \<open>A token in order, and what a sequence of permitted calls may have made of it.\<close>

definition good_token :: "hsm_token \<Rightarrow> bool" where
  "good_token tok \<longleftrightarrow> tok_inv tok \<and> dev_keepable (dev_of tok)"

definition moved :: "env \<Rightarrow> hsm_token \<Rightarrow> hsm_token \<Rightarrow> bool" where
  "moved E tok tok' \<longleftrightarrow> (dev_move E)\<^sup>*\<^sup>* (dev_of tok) (dev_of tok')"

lemma moved_refl [simp]: "dev_of tok' = dev_of tok \<Longrightarrow> moved E tok tok'"
  by (simp add: moved_def)

lemma moved_step: "dev_step E op stt (dev_of tok) (dev_of tok') \<Longrightarrow> moved E tok tok'"
  unfolding moved_def by (intro r_into_rtranclp dev_moveI)

lemma moved_trans: "moved E a b \<Longrightarrow> moved E b c \<Longrightarrow> moved E a c"
  by (simp add: moved_def)

lemma moved_good:
  assumes "moved E tok tok'" "good_token tok" "seal_total E"
  shows "good_token tok'"
proof -
  have "dev_inv d' \<and> dev_keepable d'" if "(dev_move E)\<^sup>*\<^sup>* d d'" "dev_inv d \<and> dev_keepable d" for d d'
    using that
  proof (induction rule: rtranclp_induct)
    case (step x y)
    then show ?case using dev_step_inv[of E _ _ x y] keep_dev_step[of E _ _ x y] assms(3)
      by (auto simp: dev_move_def)
  qed simp
  then show ?thesis using assms unfolding moved_def good_token_def tok_inv_def by blast
qed

lemma good_storable:
  "good_token tok \<Longrightarrow> i < length (slots tok) \<Longrightarrow> storable (of_nat i) (slots tok ! i)"
  by (simp add: good_token_def tok_inv_def dev_inv_def dev_keepable_def storable_def keepable_def list_all_length)

lemma good_length: "good_token tok \<Longrightarrow> length (slots tok) \<le> 4096"
  by (simp add: good_token_def tok_inv_def dev_inv_def)

section \<open>One request\<close>

lemma store_moved:
  assumes "cmd_store sv path w tok = Inr (st, w', tok1)"
    and "\<And>r t'. sv (Some tok) path = (r, t') \<Longrightarrow> \<exists>tok'. t' = Some tok' \<and> sec tok' = sec tok"
  shows "dev_of tok1 = dev_of tok"
proof -
  obtain r t' where s: "sv (Some tok) path = (r, t')" by fastforce
  obtain tok' where "t' = Some tok'" "sec tok' = sec tok" using assms(2)[OF s] by blast
  then show ?thesis
    using assms(1) s dev_of_sec[of tok' tok]
    by (auto simp: cmd_store_def split: option.splits)
qed

lemma store_gone:
  assumes "cmd_store sv path w tok = Inl tok1"
    and "\<And>r t'. sv (Some tok) path = (r, t') \<Longrightarrow> \<exists>tok'. t' = Some tok' \<and> sec tok' = sec tok"
  shows "dev_of tok1 = dev_of tok"
proof -
  obtain r t' where s: "sv (Some tok) path = (r, t')" by fastforce
  obtain tok' where "t' = Some tok'" "sec tok' = sec tok" using assms(2)[OF s] by blast
  then show ?thesis
    using assms(1) s dev_of_sec[of tok' tok]
    by (auto simp: cmd_store_def split: option.splits)
qed

lemma command_moved:
  assumes "tok_inv tok" "seal_total E" "hook_ok H"
  shows "case proto_command E H None crash path cmd p (tlv_init cap) tok of
      Inl tok1 \<Rightarrow> moved E tok tok1 | Inr (st, w, tok1) \<Rightarrow> moved E tok tok1"
proof (cases "stores cmd")
  case True
  note sv = keystore_calls_sec[OF _ rb_frame_file]
  show ?thesis
  proof (cases "proto_command E H None crash path cmd p (tlv_init cap) tok")
    case (Inl tok1)
    then have "dev_of tok1 = dev_of tok"
      using True store_gone[OF _ sv(1)] store_gone[OF _ sv(2)]
      by (auto simp: proto_command_def stores_def cmd_defs split: if_splits)
    then show ?thesis using Inl by simp
  next
    case (Inr x)
    obtain st w tok1 where x: "x = (st, w, tok1)" by (metis prod_cases3)
    then have "dev_of tok1 = dev_of tok"
      using True Inr store_moved[OF _ sv(1)] store_moved[OF _ sv(2)]
      by (auto simp: proto_command_def stores_def cmd_defs split: if_splits)
    then show ?thesis using Inr x by simp
  qed
next
  case False
  obtain st w tok1 where r: "proto_command E H None crash path cmd p (tlv_init cap) tok = Inr (st, w, tok1)"
    using command_Inr[OF False] by blast
  have "moved E tok tok1"
  proof (cases "proto_op E (tlv_room (tlv_init cap)) cmd p tok")
    case None
    then show ?thesis using one_call[OF r False] by simp
  next
    case (Some op)
    have "tok_exec E H op tok = (st, tok1)" using one_call[OF r False] Some by simp
    then show ?thesis
      using moved_step[OF tok_exec_step[OF assms proto_op_ok[OF Some]]] by blast
  qed
  then show ?thesis using r by simp
qed

text \<open>The token of the context after a request.\<close>

lemma dispatch_moved:
  assumes "pqc_proto_dispatch E H None crash (Some ctx) (Some req) (Some cap) True = (a, ctx')"
    and "px_tok ctx = Some tok" "tok_inv tok" "seal_total E" "hook_ok H"
  shows "\<exists>tok'. ctx' = Some (ctx\<lparr>px_tok := Some tok'\<rparr>) \<and> moved E tok tok'"
proof -
  have same: "Some ctx = Some (ctx\<lparr>px_tok := Some tok\<rparr>)" using assms(2) by (cases ctx) simp
  show ?thesis
  proof (cases "proto_request req \<and> \<not> cap < PQC_PROTO_HDR_LEN + 2")
    case False
    then have "ctx' = Some ctx" using assms(1,2) by (auto simp: pqc_proto_dispatch_def)
    then show ?thesis using same by fastforce
  next
    case True
    note c = command_moved[OF assms(3-5), of crash "px_path ctx" "req ! 3" "drop PQC_PROTO_HDR_LEN req"
        "cap - PQC_PROTO_HDR_LEN - 2"]
    show ?thesis
    proof (cases "proto_command E H None crash (px_path ctx) (req ! 3) (drop PQC_PROTO_HDR_LEN req)
        (tlv_init (cap - PQC_PROTO_HDR_LEN - 2)) tok")
      case (Inl tok1)
      then show ?thesis using assms(1,2) True c by (auto simp: pqc_proto_dispatch_def Let_def)
    next
      case (Inr x)
      obtain st w tok1 where x: "x = (st, w, tok1)" by (metis prod_cases3)
      obtain st2 w2 where o: "proto_overflow (cap - PQC_PROTO_HDR_LEN - 2) x = (st2, w2, tok1)"
        unfolding x proto_overflow_def by (cases "tw_err w") auto
      then show ?thesis using assms(1,2) True c Inr x by (auto simp: pqc_proto_dispatch_def Let_def)
    qed
  qed
qed

section \<open>Connections\<close>

text \<open>Reading and writing only count calls.\<close>

lemma ticked: "only_core w (w\<lparr>tick := t\<rparr>)"
  by (simp add: only_core_def)

lemma only_core_read_full: "read_full E inp n w = (r, inp2, w2) \<Longrightarrow> only_core w w2"
proof (induction E inp n w arbitrary: r inp2 rule: read_full.induct)
  case (1 E inp n w)
  define m where "m = (case io E (tick w) n of None \<Rightarrow> 0 | Some k \<Rightarrow> min (min k n) (length inp))"
  show ?case
  proof (cases "n = 0 \<or> io E (tick w) n = None \<or> m = 0")
    case True
    then show ?thesis using 1(2)
      by (auto simp: read_full.simps[of E inp n] m_def Let_def split: if_splits option.splits)
  next
    case False
    then obtain k where k: "n \<noteq> 0" "io E (tick w) n = Some k" "m = min (min k n) (length inp)" "m \<noteq> 0"
      by (auto simp: m_def)
    obtain r1 where s: "read_full E (drop m inp) (n - m) (next_tick w) = (r1, inp2, w2)"
      using 1(2) k by (auto simp: read_full.simps[of E inp n] Let_def split: prod.splits)
    show ?thesis using 1(1)[OF k(1-4) s] only_core_trans[OF only_core_next_tick] by blast
  qed
qed

lemma only_core_write_full: "write_full E buf w = (ok, sent, w2) \<Longrightarrow> only_core w w2"
proof (induction E buf w arbitrary: ok sent rule: write_full.induct)
  case (1 E buf w)
  define m where "m = (case io E (tick w) (length buf) of None \<Rightarrow> 0 | Some k \<Rightarrow> min k (length buf))"
  show ?case
  proof (cases "buf = [] \<or> io E (tick w) (length buf) = None \<or> m = 0")
    case True
    then show ?thesis using 1(2)
      by (auto simp: write_full.simps[of E buf] m_def Let_def split: if_splits option.splits)
  next
    case False
    then obtain k where k: "buf \<noteq> []" "io E (tick w) (length buf) = Some k" "m = min k (length buf)" "m \<noteq> 0"
      by (auto simp: m_def)
    obtain ok1 sent1 where s: "write_full E (drop m buf) (next_tick w) = (ok1, sent1, w2)"
      using 1(2) k by (auto simp: write_full.simps[of E buf] Let_def split: prod.splits)
    show ?thesis using 1(1)[OF k(1-4) s] only_core_trans[OF only_core_next_tick] by blast
  qed
qed

lemma dev_core: "only_core (tok :: hsm_token) t \<Longrightarrow> dev_of t = dev_of tok"
  by (rule dev_of_only_core)

text \<open>The token in a context after a request.\<close>

definition ctx_token :: "hsm_token \<Rightarrow> proto_ctx option \<Rightarrow> hsm_token" where
  "ctx_token tok ctx = (case ctx of None \<Rightarrow> tok | Some c \<Rightarrow> (case px_tok c of None \<Rightarrow> tok | Some t \<Rightarrow> t))"

text \<open>One turn of the loop: the connection ends, or one request was answered.\<close>

definition conn_request :: "env \<Rightarrow> bytes option \<Rightarrow> bytes \<Rightarrow> hsm_token \<Rightarrow> proto_answer \<times> proto_ctx option" where
  "conn_request E ks req tok = pqc_proto_dispatch E (persist_keystore E) None (-1)
     (Some \<lparr>px_tok = Some tok, px_path = ks\<rparr>) (Some req) (Some RESP_CAP) True"

lemma conn_request_moved:
  assumes "conn_request E ks req tok = (a, ctx)" "tok_inv tok" "seal_total E"
  shows "moved E tok (ctx_token tok ctx)"
  using dispatch_moved[OF assms(1)[unfolded conn_request_def] _ assms(2,3) persist_hook_ok]
  by (auto simp: ctx_token_def)

lemma serve_conn_cases:
  assumes "serve_conn E ks inp out tok = (out', tok')"
  obtains (closed) "out' = out" "only_core tok tok'"
  | (request) req t2 a ctx where "only_core tok t2" "length inp \<ge> length req" "PQC_PROTO_HDR_LEN \<le> length req"
      "conn_request E ks req t2 = (a, ctx)"
      "(\<exists>sent. out' = out @ sent) \<and> only_core (ctx_token t2 ctx) tok' \<or>
       (\<exists>resp sent t4. a = Answer resp \<and> only_core (ctx_token t2 ctx) t4 \<and>
          serve_conn E ks (drop (length req) inp) (out @ sent) t4 = (out', tok'))"
proof -
  obtain r1 i1 t1 where h: "read_full E inp PQC_PROTO_HDR_LEN tok = (r1, i1, t1)" by (metis prod_cases3)
  note c1 = only_core_read_full[OF h]
  show thesis
  proof (cases "r1 = None \<or> pqc_proto_frame_len (the r1) < int PQC_PROTO_HDR_LEN \<or>
      nat (pqc_proto_frame_len (the r1)) > RESP_CAP")
    case True
    then have "(out', tok') = (out, t1)"
      using assms unfolding serve_conn.simps[of E ks inp out tok] h by (auto simp: Let_def split: option.splits)
    then show ?thesis using closed c1 by simp
  next
    case False
    then obtain hdr where hdr: "r1 = Some hdr" by auto
    let ?n = "nat (pqc_proto_frame_len hdr) - PQC_PROTO_HDR_LEN"
    obtain r2 i2 t2 where b: "read_full E i1 ?n t1 = (r2, i2, t2)" by (metis prod_cases3)
    have c2: "only_core tok t2" using only_core_trans[OF c1 only_core_read_full[OF b]] .
    show ?thesis
    proof (cases r2)
      case None
      then have "(out', tok') = (out, t2)"
        using assms False hdr b unfolding serve_conn.simps[of E ks inp out tok] h by (auto simp: Let_def)
      then show ?thesis using closed c2 by simp
    next
      case (Some body)
      have l: "inp = hdr @ i1" "length hdr = PQC_PROTO_HDR_LEN" "i1 = body @ i2"
        using read_full_result h hdr b Some by blast+
      obtain a ctx where d: "conn_request E ks (hdr @ body) t2 = (a, ctx)" by fastforce
      show ?thesis
      proof (cases "\<exists>resp. a = Answer resp")
        case False
        then have "(out', tok') = (out, ctx_token t2 ctx)"
          using assms \<open>\<not> (r1 = None \<or> _)\<close> hdr b Some d
          unfolding serve_conn.simps[of E ks inp out tok] h conn_request_def ctx_token_def
          by (auto simp: Let_def split: proto_answer.splits)
        then show ?thesis using request[OF c2 _ _ d] l by auto
      next
        case True
        then obtain resp where a: "a = Answer resp" by blast
        obtain ok sent t4 where w: "write_full E resp (ctx_token t2 ctx) = (ok, sent, t4)" by (metis prod_cases3)
        have "(if ok then serve_conn E ks i2 (out @ sent) t4 else (out @ sent, t4)) = (out', tok')"
          using assms \<open>\<not> (r1 = None \<or> _)\<close> hdr b Some d a w
          unfolding serve_conn.simps[of E ks inp out tok] h conn_request_def ctx_token_def
          by (simp add: Let_def split: if_splits)
        then show ?thesis using request[OF c2 _ _ d] l a only_core_write_full[OF w] by (auto split: if_splits)
      qed
    qed
  qed
qed

lemma conn_moved:
  "serve_conn E ks inp out tok = (out', tok') \<Longrightarrow> good_token tok \<Longrightarrow> seal_total E \<Longrightarrow>
     moved E tok tok' \<and> (\<exists>sent. out' = out @ sent)"
proof (induction "length inp" arbitrary: inp out tok rule: less_induct)
  case less
  have same: "moved E x y" if "only_core x y" for x y using dev_core[OF that] by simp
  show ?case using less(2)
  proof (cases rule: serve_conn_cases)
    case closed
    then show ?thesis using same by simp
  next
    case (request req t2 a ctx)
    have g2: "good_token t2" using moved_good[OF same[OF request(1)] less(3,4)] .
    have m: "moved E tok (ctx_token t2 ctx)"
      using moved_trans[OF same[OF request(1)] conn_request_moved[OF request(4)]] g2 less(4)
      by (simp add: good_token_def)
    show ?thesis using request(5)
    proof (elim disjE exE conjE)
      fix sent assume "out' = out @ sent" "only_core (ctx_token t2 ctx) tok'"
      then show ?thesis using moved_trans[OF m same] by blast
    next
      fix resp sent t4
      assume t: "only_core (ctx_token t2 ctx) t4"
        "serve_conn E ks (drop (length req) inp) (out @ sent) t4 = (out', tok')"
      have m4: "moved E tok t4" using moved_trans[OF m same[OF t(1)]] .
      have "length (drop (length req) inp) < length inp"
        using request(2,3) by (simp add: PQC_PROTO_HDR_LEN_def)
      from less(1)[OF this t(2) moved_good[OF m4 less(3,4)] less(4)]
      show ?thesis using moved_trans[OF m4] by auto
    qed
  qed
qed

lemma all_moved:
  "serve_all E ks once cs tok = (outs, tok') \<Longrightarrow> good_token tok \<Longrightarrow> seal_total E \<Longrightarrow> moved E tok tok'"
proof (induction cs arbitrary: tok outs)
  case (Cons c cs)
  obtain out tok1 where s: "serve_conn E ks c [] tok = (out, tok1)" by fastforce
  have m: "moved E tok tok1" using conn_moved[OF s Cons.prems(2,3)] by simp
  show ?case
  proof (cases once)
    case False
    obtain outs2 where r: "serve_all E ks once cs tok1 = (outs2, tok')"
      using Cons.prems(1) s False by (auto split: prod.splits)
    show ?thesis using moved_trans[OF m Cons.IH[OF r moved_good[OF m Cons.prems(2,3)] Cons.prems(3)]] .
  qed (use Cons.prems s m in simp)
qed simp


section \<open>Starting\<close>

lemma files_core: "only_core w w' \<Longrightarrow> files w' = files w"
  by (rule only_core_files)

lemma new_token_files: "hsm_token_new E n w = (r, w') \<Longrightarrow> files w' = files w \<and> (\<forall>tok. r = Some tok \<longrightarrow> files tok = files w)"
  by (auto simp: hsm_token_new_def Let_def next_tick_def world.extend_def split: if_splits)

text \<open>All of a token but its slots and the call counter.\<close>

definition besides :: "hsm_token \<Rightarrow> (bytes \<Rightarrow> bytes option) \<times> audit_log option \<times> bytes option \<times> bool \<times> session list \<times> u32" where
  "besides tok = (files tok, audit tok, persist_fn tok, persist_busy tok, sessions tok, session_gen tok)"

lemma besides_core: "only_core tok t \<Longrightarrow> besides t = besides tok"
  unfolding only_core_def besides_def by (cases tok, cases t) simp

lemma besides_set_slot [simp]: "besides (set_slot i s tok) = besides tok"
  by (simp add: besides_def set_slot_def)

lemma besides_next_tick [simp]: "besides (next_tick tok) = besides tok"
  by (simp add: besides_def next_tick_def)

lemma deserialize_besides: "hsm_slot_deserialize E tok sid kek kl blob bl = (st, tok') \<Longrightarrow> besides tok' = besides tok"
  by (auto simp: hsm_slot_deserialize_def split: option.splits prod.splits
      dest!: only_core_deserialize besides_core)

lemma load_slots_besides: "load_slots E kek body is off st tok = (st', tok') \<Longrightarrow> besides tok' = besides tok"
proof (induction "is" arbitrary: off st tok)
  case (Cons i "is")
  then show ?case by (auto simp: Let_def split: if_splits prod.splits dest!: deserialize_besides)
qed simp

lemma file_read_core: "file_read E scope w = (r, w') \<Longrightarrow> only_core w w'"
  by (auto simp: file_read_def fopen_read_def sys_ok_def split: option.splits prod.splits if_splits
      intro: only_core_next_tick only_core_trans)

lemma load_checked_besides: "load_checked E None p buf tok = (st, tok') \<Longrightarrow> besides tok' = besides tok"
  by (auto simp: load_checked_def Let_def pqc_rbanchor_read_def pqc_rbanchor_get_provider_def g_file_def
      split: option.splits if_splits prod.splits dest!: load_slots_besides besides_core[OF file_read_core])

lemma load_besides:
  assumes "hsm_keystore_load E None (Some tok) (Some p) = (st, tp)"
  shows "\<exists>tok'. tp = Some tok' \<and> besides tok' = besides tok"
proof -
  have lc: "\<exists>tok'. tp = Some tok' \<and> besides tok' = besides t"
    if "map_prod id Some (load_checked E None p buf t) = (st, tp)" for buf t
    using that load_checked_besides by (cases "load_checked E None p buf t") auto
  show ?thesis
    using assms
    by (auto simp: hsm_keystore_load_def fopen_read_def sys_ok_def
        split: option.splits if_splits prod.splits dest!: lc)
qed

lemma load_files:
  "hsm_keystore_load E None (Some tok) (Some p) = (st, tp) \<Longrightarrow> \<exists>tok'. tp = Some tok' \<and> files tok' = files tok"
  using load_besides[of E tok p st tp] by (auto simp: besides_def)

lemma attach_files: "audit_attach E p w = (r, w') \<Longrightarrow> files w' = files w"
  by (auto simp: audit_attach_def sys_ok_def Let_def split: option.splits if_splits prod.splits
      dest!: io_pread_frame)

lemma pwrite_other: "io_pwrite E p b off w = (ok, w') \<Longrightarrow> q \<noteq> p \<Longrightarrow> files w' q = files w q"
  using io_pwrite_result by fastforce

lemma genesis_files:
  assumes "create_genesis E p w = (ok, w')" "q \<noteq> p" "q \<noteq> tmp_of p"
  shows "files w' q = files w q"
  using assms
  by (auto simp: create_genesis_def Let_def sys_ok_def fsync_dir_def
      split: option.splits if_splits prod.splits dest!: pwrite_other[where q = q])

text \<open>Opening the log creates at most the log and its temporary file, and touches no log that is there.\<close>

lemma open_files:
  assumes "audit_open E (Some p) w = (r, w')" "q \<noteq> tmp_of p \<or> files w p \<noteq> None" "q \<noteq> p \<or> files w p \<noteq> None"
  shows "files w' q = files w q"
proof -
  have o: "files w1 = files w" if "open_rdwr E p w = (ok, w1)" for ok and w1 w :: "'a world_scheme"
    using that by (auto simp: open_rdwr_def sys_ok_def)
  show ?thesis
    using assms
    by (auto simp: audit_open_def split: if_splits prod.splits
        dest!: o attach_files genesis_files[where q = q])
qed

lemma boot_keystore_files: "boot_keystore E ks tok = (ok, t) \<Longrightarrow> files t = files tok"
  by (auto simp: boot_keystore_def sys_ok_def Let_def hsm_token_set_persist_hook_def
      split: option.splits if_splits prod.splits dest!: load_files)

lemma boot_audit_files:
  assumes "boot_audit E want tok = (ok, t)" "files tok q = Some f" "\<forall>a. want = Some a \<longrightarrow> tmp_of a \<noteq> q"
  shows "files t q = Some f"
proof (cases want)
  case (Some p)
  obtain r t1 where o: "audit_open E (Some p) tok = (r, t1)" by fastforce
  have "files t1 q = files tok q" by (rule open_files[OF o]) (use assms(2,3) Some in auto)
  then show ?thesis
    using assms(1,2) Some o by (auto simp: boot_audit_def hsm_token_attach_audit_def split: option.splits)
qed (use assms(1,2) in \<open>simp add: boot_audit_def\<close>)

lemma boot_server_result:
  "boot_server E tok = (ok, t) \<Longrightarrow> files t = files tok \<and> (ok \<longrightarrow> only_core tok t)"
  by (auto simp: boot_server_def sys_ok_def Let_def hsm_token_attach_audit_def only_core_def next_tick_def
      split: if_splits prod.splits)

lemma truncate_files [simp]: "files (world.truncate t) = files t"
  by (simp add: world.truncate_def)

text \<open>
  What a started daemon stands on: no key store, a new one, or one that was authentic and, as long as the
  anchor file could be opened and read, not behind the number in it.
\<close>

definition store_trusted :: "env \<Rightarrow> nat \<Rightarrow> world \<Rightarrow> bytes option \<Rightarrow> hsm_token \<Rightarrow> bool" where
  "store_trusted E n w ks tok \<longleftrightarrow> persist_fn tok = ks \<and>
     (case ks of
        None \<Rightarrow> True
      | Some p \<Rightarrow> (case files w p of
          None \<Rightarrow> good_token tok
        | Some f \<Rightarrow> ks_authentic E n f \<and>
            ((\<forall>t. io E t 0 \<noteq> None) \<longrightarrow> anchor_value (files w (anchor_path (Some p))) \<le> ks_epoch f)))"

lemma new_token_besides:
  "hsm_token_new E n w = (Some tok, w') \<Longrightarrow>
     besides tok = (files w, None, None, False, replicate MAX_SESSIONS blank_session, 0)"
  by (auto simp: hsm_token_new_def Let_def next_tick_def world.extend_def besides_def split: if_splits)

lemma good_new: "hsm_token_new E n w = (Some tok, w') \<Longrightarrow> good_token tok"
  using token_new_inv keep_token_new unfolding good_token_def by blast

lemma boot_keystore_trusted:
  assumes new: "hsm_token_new E n w = (Some tok, w1)" and boot: "boot_keystore E ks tok = (True, t)"
  shows "store_trusted E n w ks t \<and> (ks = None \<longrightarrow> good_token t) \<and> audit t = None \<and> \<not> persist_busy t"
proof -
  note b = new_token_besides[OF new, unfolded besides_def]
  show ?thesis
  proof (cases ks)
    case None
    then show ?thesis using boot good_new[OF new] b by (simp add: boot_keystore_def store_trusted_def)
  next
    case (Some p)
    let ?t1 = "next_tick tok"
    have g1: "good_token (hsm_token_set_persist_hook ?t1 u)" for u
      using good_new[OF new] by (simp add: good_token_def tok_inv_def next_tick_def hsm_token_set_persist_hook_def)
    show ?thesis
    proof (cases "files w p")
      case None
      then have "t = hsm_token_set_persist_hook ?t1 (Some p)"
        using boot Some b by (auto simp: boot_keystore_def sys_ok_def split: if_splits prod.splits)
      then show ?thesis using Some None g1 b
        by (simp add: store_trusted_def hsm_token_set_persist_hook_def next_tick_def)
    next
      case f: (Some f)
      obtain st tp where l: "hsm_keystore_load E None (Some ?t1) (Some p) = (st, tp)" by fastforce
      obtain t2 where t2: "tp = Some t2" "besides t2 = besides tok" using load_besides[OF l] by auto
      have t: "st = HSM_OK" "t = hsm_token_set_persist_hook t2 (Some p)"
        using boot Some f b l t2(1) by (auto simp: boot_keystore_def sys_ok_def Let_def split: if_splits prod.splits)
      have n: "length (slots ?t1) = n" using token_new_inv[OF new] by (simp add: next_tick_def)
      have ok: "st = HSM_OK \<or> slots t2 \<noteq> slots ?t1" using t(1) by simp
      have "ks_authentic E n f"
        using load_authentic[OF l[unfolded t2(1)] anchor_frame_file ok] f n b by auto
      moreover have "anchor_value (files w (anchor_path (Some p))) \<le> ks_epoch f" if "\<forall>t. io E t 0 \<noteq> None"
        using load_not_behind[OF l[unfolded t2(1)] anchor_frame_file ok that] f b by auto
      ultimately show ?thesis
        using f Some t(2) t2(2) b
        by (auto simp: store_trusted_def hsm_token_set_persist_hook_def besides_def)
    qed
  qed
qed

lemma open_more: "audit_open E p w = (r, w') \<Longrightarrow> world.more w' = world.more w"
proof -
  have o: "open_rdwr E p w = (ok, w1) \<Longrightarrow> world.more w1 = world.more w" for p ok and w w1 :: "'a world_scheme"
    by (auto simp: open_rdwr_def sys_ok_def)
  have r: "io_pread E p n off w = (r, w1) \<Longrightarrow> world.more w1 = world.more w" for p n off r and w w1 :: "'a world_scheme"
    by (auto dest!: io_pread_frame)
  have a: "audit_attach E p w = (r, w1) \<Longrightarrow> world.more w1 = world.more w" for p r and w w1 :: "'a world_scheme"
    by (auto simp: audit_attach_def sys_ok_def Let_def split: option.splits if_splits prod.splits dest!: r)
  have g: "create_genesis E p w = (ok, w1) \<Longrightarrow> world.more w1 = world.more w" for p ok and w w1 :: "'a world_scheme"
    by (auto simp: create_genesis_def Let_def sys_ok_def fsync_dir_def
        split: option.splits if_splits prod.splits dest!: more_io_pwrite)
  show "audit_open E p w = (r, w') \<Longrightarrow> world.more w' = world.more w"
    by (auto simp: audit_open_def split: option.splits if_splits prod.splits dest!: o a g)
qed

lemma boot_audit_sec:
  assumes "boot_audit E want tok = (True, t)"
  shows "sec t = sec tok \<and> (want = None \<longrightarrow> audit t = audit tok) \<and> (want \<noteq> None \<longrightarrow> audit t \<noteq> None)"
proof (cases want)
  case (Some p)
  obtain r t1 where o: "audit_open E (Some p) tok = (r, t1)" by fastforce
  have "sec t1 = sec tok" using sec_more[OF open_more[OF o]] .
  then show ?thesis
    using assms Some o by (auto simp: boot_audit_def hsm_token_attach_audit_def sec_def split: option.splits)
qed (use assms in \<open>simp add: boot_audit_def\<close>)

lemma boot_root_gate: "boot_root E M kdr_env = Some k \<Longrightarrow> production E \<Longrightarrow> pqc_kdr_is_hardware_backed k"
  by (auto simp: boot_root_def Let_def pqc_profile_startup_check_def pqc_kdr_is_hardware_backed_def
      split: option.splits if_splits prod.splits)

lemma good_sec: "sec t = sec tok \<Longrightarrow> good_token t = good_token tok"
  using dev_of_sec[of t tok] by (simp add: good_token_def tok_inv_def)

lemma trusted_sec: "sec t = sec tok \<Longrightarrow> store_trusted E n w ks t = store_trusted E n w ks tok"
  using good_sec[of t tok] sec_eqD(4)[of t tok] by (simp add: store_trusted_def split: option.split)

text \<open>
  C21: starting is fail-closed. A start that is refused, for whatever reason, leaves every file that was
  there as it was, the key store above all; only a left-over temporary file of the audit log may be
  overwritten. A daemon that starts has a root of trust that its profile allows, and runs on a key store that
  did not exist or whose MAC was right and, as long as no system call failed, whose epoch is not behind the
  number in its anchor file; it saves every change there, and records in an audit log unless it was told
  not to.
\<close>

theorem daemon_fail_closed:
  "case daemon_start E M kdr_env po w of
     Inl w' \<Rightarrow> \<forall>q f. files w q = Some f \<longrightarrow>
       (\<forall>a. audit_want (do_audit po) (do_ks po) = Some a \<longrightarrow> tmp_of a \<noteq> q) \<longrightarrow> files w' q = Some f
   | Inr (E', tok) \<Rightarrow> (\<exists>k. boot_root E M kdr_env = Some k \<and> E' = E\<lparr>kdr := k\<rparr> \<and>
         (production E \<longrightarrow> pqc_kdr_is_hardware_backed k)) \<and>
       store_trusted E' (do_slots po) w (do_ks po) tok \<and> \<not> persist_busy tok \<and>
       (audit_want (do_audit po) (do_ks po) = None \<longleftrightarrow> audit tok = None)"
proof (cases "boot_root E M kdr_env")
  case None
  then show ?thesis by (simp add: daemon_start_def)
next
  case (Some k)
  let ?E = "E\<lparr>kdr := k\<rparr>" and ?want = "audit_want (do_audit po) (do_ks po)"
  obtain nt w1 where new: "hsm_token_new ?E (do_slots po) w = (nt, w1)" by fastforce
  show ?thesis
  proof (cases nt)
    case None
    then show ?thesis using Some new new_token_files[OF new] by (simp add: daemon_start_def)
  next
    case tok: (Some tok)
    have f0: "files tok = files w" using new_token_files[OF new] tok by simp
    obtain ok1 t1 where k: "boot_keystore ?E (do_ks po) tok = (ok1, t1)" by fastforce
    obtain ok2 t2 where a: "boot_audit ?E ?want t1 = (ok2, t2)" by fastforce
    obtain ok3 t3 where sv: "boot_server ?E t2 = (ok3, t3)" by fastforce
    have start: "daemon_start E M kdr_env po w = (if \<not> ok1 then Inl (world.truncate t1)
        else if \<not> ok2 then Inl (world.truncate t2) else if \<not> ok3 then Inl (world.truncate t3) else Inr (?E, t3))"
      using Some new tok k a sv by (simp add: daemon_start_def Let_def)
    show ?thesis
    proof (cases "ok1 \<and> ok2 \<and> ok3")
      case False
      have f1: "files t1 = files w" using boot_keystore_files[OF k] f0 by simp
      have f2: "files t2 q = Some f" if "files w q = Some f" "\<forall>a. ?want = Some a \<longrightarrow> tmp_of a \<noteq> q" for q f
        using boot_audit_files[OF a] f1 that by simp
      have "files t3 = files t2" using boot_server_result[OF sv] by simp
      then show ?thesis using False f1 f2 by (auto simp: start)
    next
      case True
      note tr = boot_keystore_trusted[OF new[unfolded tok], of "do_ks po" t1]
      have s2: "sec t2 = sec t1" "?want = None \<longleftrightarrow> audit t2 = None"
        using boot_audit_sec[of ?E ?want t1 t2] a True tr k by auto
      have c: "only_core t2 t3" using boot_server_result[OF sv] True by simp
      have s3: "sec t3 = sec t1" "audit t3 = audit t2"
        using sec_only_core[OF c] s2(1) besides_core[OF c] by (simp_all add: besides_def)
      have "persist_busy t3 = persist_busy t1" using sec_eqD(5)[OF s3(1)] .
      then show ?thesis
        using True tr k s2(2) s3(2) trusted_sec[OF s3(1)] Some boot_root_gate[OF Some] by (auto simp: start)
    qed
  qed
qed

section \<open>After a power cut\<close>

lemma good_names: "good_token tok \<Longrightarrow> names_ok (slots tok)"
  by (simp add: good_token_def tok_inv_def dev_inv_def names_ok_def slot_inv_def)

lemma good_labels: "good_token tok \<Longrightarrow> labels_ok tok"
  by (auto simp: good_token_def tok_inv_def dev_inv_def labels_ok_def slot_inv_def wf_meta_def in_set_conv_nth)

text \<open>A daemon that finds a key store starts with its slots.\<close>

lemma start_loads:
  assumes start: "daemon_start E0 M kdr_env po w = Inr (E, tok2)" "do_ks po = Some p" "do_slots po = length sl"
    and disk: "files w p = Some f" "ks_holds E sl epoch f" "fst (file_read E (Some p) w) = Some epoch"
    and src: "\<forall>i < length sl. storable (of_nat i) (sl ! i)"
    and env: "gcm_ok E" "seal_total E" "alloc_total E" "io_perfect E"
  shows "length (slots tok2) = length sl \<and> (\<forall>i < length sl. restored_copy E (sl ! i) (slots tok2 ! i))"
proof -
  obtain k where k: "boot_root E0 M kdr_env = Some k" "E = E0\<lparr>kdr := k\<rparr>"
    using start(1) by (auto simp: daemon_start_def Let_def split: option.splits prod.splits if_splits)
  obtain nt w1 where new: "hsm_token_new E (do_slots po) w = (nt, w1)" by fastforce
  obtain tok where tok: "nt = Some tok"
    using start(1) k new by (auto simp: daemon_start_def Let_def split: option.splits)
  obtain ok1 t1 where b: "boot_keystore E (do_ks po) tok = (ok1, t1)" by fastforce
  obtain ok2 t2 where a: "boot_audit E (audit_want (do_audit po) (do_ks po)) t1 = (ok2, t2)" by fastforce
  obtain ok3 t3 where sv: "boot_server E t2 = (ok3, t3)" by fastforce
  have ok: "ok1" "ok2" "ok3" "tok2 = t3"
    using start(1) k new tok b a sv by (auto simp: daemon_start_def Let_def split: if_splits)
  let ?d = "next_tick tok"
  obtain st tp where l: "hsm_keystore_load E None (Some ?d) (Some p) = (st, tp)" by fastforce
  obtain d2 where d2: "tp = Some d2" using load_besides[OF l] by blast
  have f0: "files tok = files w" using new_token_files[OF new] tok by simp
  have t1: "t1 = hsm_token_set_persist_hook d2 (Some p)"
    using b ok(1) start(2) f0 disk(1) l d2 by (auto simp: boot_keystore_def sys_ok_def Let_def split: if_splits)
  have g: "good_token tok" using good_new new tok by blast
  have d: "names_ok (slots ?d)" "length (slots ?d) = length sl" "files ?d p = Some f"
    using good_names[OF g] token_new_inv[OF new[unfolded tok]] start(3) f0 disk(1) by (simp_all add: next_tick_def)
  have "fst (file_read E (Some p) ?d) = Some epoch"
    using disk(3) f0 by (simp add: file_read_perfect[OF env(4)])
  then have "length (slots d2) = length sl \<and> (\<forall>i < length sl. restored_copy E (sl ! i) (slots d2 ! i))"
    using load_holds[OF disk(2) d(3) _ _ src d(1,2) env l[unfolded d2]] by simp
  moreover have "sec t3 = sec t1"
    using boot_audit_sec[of E _ t1 t2] a ok(2) sec_only_core[of t2 t3] boot_server_result[OF sv] ok(3) by auto
  then have "slots t3 = slots t1" by (rule sec_eqD)
  then have "slots tok2 = slots d2" by (simp add: ok(4) t1 hsm_token_set_persist_hook_def)
  ultimately show ?thesis by simp
qed

lemma status_OK: "ucast (status_code st) = (ucast (status_code HSM_OK) :: u16) \<Longrightarrow> st = HSM_OK"
  by (cases st) simp_all


end
