(* ===== verification/P11_Calls.thy ===== *)
theory P11_Calls
  imports P11_Handles Daemon_Props
begin

text \<open>
  The PKCS\#11 front-end as a machine: one call after the other. Its tables stay well formed, and between
  C\_Initialize and C\_Finalize it moves the token only along the calls of slot.c.
\<close>

section \<open>The calls\<close>

datatype p11_call =
    Initialize p11_host
  | Finalize bool
  | InitToken u64 "bytes option" u64 "bytes option"
  | InitPIN u64 "bytes option" u64
  | OpenSession u64 u64 bool
  | CloseSession u64
  | CloseAllSessions u64
  | P11_Login u64 u64 "bytes option" u64
  | P11_Logout u64
  | GenerateKeyPair u64 "u64 option" "ck_attr list" "ck_attr list" bool bool
  | DestroyObject u64 u64
  | FindObjectsInit u64 "ck_attr list"
  | FindObjects u64 bool u64 bool
  | FindObjectsFinal u64
  | GetAttributeValue u64 u64 "ck_attr list option"
  | CreateObject u64 "ck_attr list option" bool
  | SignInit u64 "u64 option" u64
  | P11_Sign u64 "bytes option" u64 bool "u64 option"
  | SignUpdate u64 "bytes option" u64
  | SignFinal u64 bool "u64 option"
  | VerifyInit u64 "u64 option" u64
  | P11_Verify u64 "bytes option" u64 "bytes option" u64
  | VerifyUpdate u64 "bytes option" u64
  | VerifyFinal u64 "bytes option" u64
  | EncapsulateKey u64 "u64 option" u64 "ck_attr list" bool "u64 option" bool
  | DecapsulateKey u64 "u64 option" u64 "ck_attr list" "bytes option" u64 bool
  | EncryptInit u64 "ck_mechanism option" u64
  | Encrypt u64 "bytes option" u64 bool "u64 option"
  | DecryptInit u64 "ck_mechanism option" u64
  | Decrypt u64 "bytes option" u64 bool "u64 option"

definition drop_out :: "ck_rv \<times> 'o \<times> p11 \<Rightarrow> (ck_rv \<times> p11) option" where
  "drop_out r = (case r of (rv, _, P) \<Rightarrow> Some (rv, P))"

definition returned :: "fault + ck_rv \<times> 'o \<times> p11 \<Rightarrow> (ck_rv \<times> p11) option" where
  "returned r = (case r of Inl _ \<Rightarrow> None | Inr x \<Rightarrow> drop_out x)"

text \<open>
  One call; the calls that change nothing are left out. None is a call that does not come back as C defines
  it: it never ends, or has written past the end of a buffer.
\<close>

fun p11_exec :: "p11_call \<Rightarrow> p11 \<Rightarrow> (ck_rv \<times> p11) option" where
  "p11_exec (Initialize V) P = Some (C_Initialize V P)"
| "p11_exec (Finalize r) P = Some (C_Finalize r P)"
| "p11_exec (InitToken sid pin n lab) P = drop_out (C_InitToken sid pin n lab P)"
| "p11_exec (InitPIN h pin n) P = drop_out (C_InitPIN h pin n P)"
| "p11_exec (OpenSession sid fl ph) P = drop_out (C_OpenSession sid fl ph P)"
| "p11_exec (CloseSession h) P = drop_out (C_CloseSession h P)"
| "p11_exec (CloseAllSessions sid) P = drop_out (C_CloseAllSessions sid P)"
| "p11_exec (P11_Login h u pin n) P = drop_out (C_Login h u pin n P)"
| "p11_exec (P11_Logout h) P = drop_out (C_Logout h P)"
| "p11_exec (GenerateKeyPair h m pub prv p1 p2) P = drop_out (C_GenerateKeyPair h m pub prv p1 p2 P)"
| "p11_exec (DestroyObject h k) P = drop_out (C_DestroyObject h k P)"
| "p11_exec (FindObjectsInit h t) P = drop_out (C_FindObjectsInit h t P)"
| "p11_exec (FindObjects h p1 n p2) P = drop_out (C_FindObjects h p1 n p2 P)"
| "p11_exec (FindObjectsFinal h) P = drop_out (C_FindObjectsFinal h P)"
| "p11_exec (GetAttributeValue h k t) P = drop_out (C_GetAttributeValue h k t P)"
| "p11_exec (CreateObject h t p1) P = drop_out (C_CreateObject h t p1 P)"
| "p11_exec (SignInit h m k) P = drop_out (C_SignInit h m k P)"
| "p11_exec (P11_Sign h d n s sl) P = drop_out (C_Sign h d n s sl P)"
| "p11_exec (SignUpdate h d n) P = returned (C_SignUpdate h d n P)"
| "p11_exec (SignFinal h s sl) P = drop_out (C_SignFinal h s sl P)"
| "p11_exec (VerifyInit h m k) P = drop_out (C_VerifyInit h m k P)"
| "p11_exec (P11_Verify h d n s sl) P = drop_out (C_Verify h d n s sl P)"
| "p11_exec (VerifyUpdate h d n) P = returned (C_VerifyUpdate h d n P)"
| "p11_exec (VerifyFinal h s sl) P = drop_out (C_VerifyFinal h s sl P)"
| "p11_exec (EncapsulateKey h m k t c cl p1) P = drop_out (C_EncapsulateKey h m k t c cl p1 P)"
| "p11_exec (DecapsulateKey h m k t c cl p1) P = drop_out (C_DecapsulateKey h m k t c cl p1 P)"
| "p11_exec (EncryptInit h m k) P = drop_out (C_EncryptInit h m k P)"
| "p11_exec (Encrypt h d n e el) P = drop_out (C_Encrypt h d n e el P)"
| "p11_exec (DecryptInit h m k) P = drop_out (C_DecryptInit h m k P)"
| "p11_exec (Decrypt h e el d dl) P = drop_out (C_Decrypt h e el d dl P)"

fun p11_run :: "p11_call list \<Rightarrow> p11 \<Rightarrow> p11 option" where
  "p11_run [] P = Some P"
| "p11_run (c # cs) P = Option.bind (p11_exec c P) (\<lambda>(rv, P'). p11_run cs P')"

text \<open>
  The caller's side: what is said to be a buffer of n bytes is one; a template that brings a
  seed brings all of it.
\<close>

definition attr_real :: "ck_attr \<Rightarrow> bool" where
  "attr_real a \<longleftrightarrow> (case at_value a of None \<Rightarrow> True | Some v \<Rightarrow> unat (at_len a) \<le> length v)"

fun call_ok :: "p11_call \<Rightarrow> bool" where
  "call_ok (CreateObject h t p1) = (case t of None \<Rightarrow> True | Some as \<Rightarrow> list_all attr_real as)"
| "call_ok _ = True"

definition inside :: "p11_call \<Rightarrow> bool" where
  "inside c \<longleftrightarrow> (case c of Initialize V \<Rightarrow> False | Finalize r \<Rightarrow> False | _ \<Rightarrow> True)"

section \<open>The token under the module\<close>

text \<open>The same environment, the module still initialized, and a token that moved along its own calls.\<close>

definition led :: "p11 \<Rightarrow> p11 \<Rightarrow> bool" where
  "led P P' \<longleftrightarrow> g_env P' = g_env P \<and>
     (case g_tok P of
        Inl w \<Rightarrow> g_tok P' = Inl w
      | Inr tok \<Rightarrow> \<exists>tok'. g_tok P' = Inr tok' \<and>
          (good_token tok \<and> seal_total (g_env P) \<longrightarrow> moved (g_env P) tok tok'))"

lemma led_refl [simp, intro]: "led P P"
  by (simp add: led_def split: sum.split)

lemma led_trans: "led P Q \<Longrightarrow> led Q R \<Longrightarrow> led P R"
  unfolding led_def by (auto split: sum.splits intro: moved_trans dest: moved_good)

lemma no_hook_ok: "hook_ok no_hook"
  by (simp add: hook_ok_def no_hook_def)

lemma led_exec:
  assumes "g_tok P = Inr tok" "tok_exec (g_env P) no_hook op tok = (st, tok')" "op_ok op"
  shows "led P (set_tok tok' P)"
  using assms moved_step[OF tok_exec_step[OF _ _ no_hook_ok assms(3,2)]]
  by (auto simp: led_def set_tok_def good_token_def)

lemma led_dev: "g_tok P = Inr tok \<Longrightarrow> dev_of t = dev_of tok \<Longrightarrow> led P (set_tok t P)"
  by (simp add: led_def set_tok_def)

lemma led_core: "g_tok P = Inr tok \<Longrightarrow> only_core tok t \<Longrightarrow> led P (set_tok t P)"
  by (rule led_dev) (simp_all add: dev_core)

lemma led_tables [intro!]:
  "led P Q \<Longrightarrow> led P (Q\<lparr>g_sessions := x\<rparr>)"
  "led P Q \<Longrightarrow> led P (Q\<lparr>g_secrets := y\<rparr>)"
  "led P Q \<Longrightarrow> led P (set_sess h s Q)"
  "led P Q \<Longrightarrow> led P (set_secret i f Q)"
  "led P Q \<Longrightarrow> led P (secrets_drop_owner o' Q)"
  by (auto simp: led_def set_sess_def set_secret_def secrets_drop_owner_def split: sum.splits)

lemma led_persist [intro!]: "led P Q \<Longrightarrow> led P (p11_persist Q)"
proof (rule led_trans)
  show "led Q (p11_persist Q)"
  proof (cases "g_tok Q")
    case (Inr tok)
    obtain r tp where s: "hsm_keystore_save (g_env Q) None (-1) (Some tok) (Some (g_ks_path Q)) = (r, tp)" by fastforce
    obtain t where "tp = Some t" "sec t = sec tok" using keystore_calls_sec(1)[OF s rb_frame_file] by blast
    then show ?thesis
      using Inr s dev_of_sec[of t tok] by (auto simp: p11_persist_def intro: led_dev[OF Inr])
  qed (simp add: p11_persist_def)
qed

lemma led_ops:
  assumes "g_tok P = Inr tok"
  shows "hsm_slot_init_token (g_env P) no_hook tok sid lab pin = (st, t) \<Longrightarrow> led P (set_tok t P)"
    "hsm_slot_set_user_pin (g_env P) no_hook tok se pin = (st, t) \<Longrightarrow> led P (set_tok t P)"
    "hsm_session_open tok sid True = (r, t) \<Longrightarrow> led P (set_tok t P)"
    "hsm_session_close tok se = (st, t) \<Longrightarrow> led P (set_tok t P)"
    "hsm_session_login (g_env P) no_hook tok se role pin = (st, t) \<Longrightarrow> led P (set_tok t P)"
    "hsm_session_logout tok se = (st, t) \<Longrightarrow> led P (set_tok t P)"
    "hsm_slot_generate (g_env P) no_hook tok se a us po True = (st, hh, t) \<Longrightarrow> led P (set_tok t P)"
    "hsm_object_destroy (g_env P) no_hook tok se ho = (st, t) \<Longrightarrow> led P (set_tok t P)"
    "hsm_object_sign (g_env P) tok se ho m ml None 0 cap True = (st, bs, t) \<Longrightarrow> led P (set_tok t P)"
    "hsm_object_decaps (g_env P) tok se ho c cl cap True = (st, bs, t) \<Longrightarrow> led P (set_tok t P)"
    "hsm_slot_load_seed (g_env P) no_hook tok se a us po (Some sd) n True = (st, hh, t) \<Longrightarrow> n \<le> length sd \<Longrightarrow>
       led P (set_tok t P)"
  using led_exec[OF assms, of "Init sid lab pin"] led_exec[OF assms, of "Set_User_Pin se pin"]
    led_exec[OF assms, of "Session_Open sid True"] led_exec[OF assms, of "Session_Close se"]
    led_exec[OF assms, of "Login se role pin"] led_exec[OF assms, of "Logout se"]
    led_exec[OF assms, of "Generate se a us po True"] led_exec[OF assms, of "Destroy se ho"]
    led_exec[OF assms, of "Sign se ho m ml None 0 cap True"] led_exec[OF assms, of "Decaps se ho c cl cap True"]
    led_exec[OF assms, of "Load_Seed se a us po (Some sd) n True"]
  by simp_all

abbreviation after :: "'r \<times> 'o \<times> p11 \<Rightarrow> p11" where "after r \<equiv> snd (snd r)"

lemma led_with_token: "(\<And>tok. g_tok P = Inr tok \<Longrightarrow> led P (after (f tok))) \<Longrightarrow> led P (after (with_token P no f))"
  by (simp add: with_token_def split: sum.split)

lemma led_in_session:
  "(\<And>tok s. g_tok P = Inr tok \<Longrightarrow> sess_at P h = Some s \<Longrightarrow> led P (after (f tok s))) \<Longrightarrow>
   led P (after (in_session P h no f))"
  unfolding in_session_def by (rule led_with_token) (simp split: option.split)

lemma led_branches:
  "(c \<Longrightarrow> led P (after a)) \<Longrightarrow> (\<not> c \<Longrightarrow> led P (after b)) \<Longrightarrow> led P (after (if c then a else b))"
  "(x = None \<Longrightarrow> led P (after a)) \<Longrightarrow> (\<And>y. x = Some y \<Longrightarrow> led P (after (f y))) \<Longrightarrow>
     led P (after (case x of None \<Rightarrow> a | Some y \<Rightarrow> f y))"
  "(\<And>u v w. t = (u, v, w) \<Longrightarrow> led P (after (g u v w))) \<Longrightarrow> led P (after (case t of (u, v, w) \<Rightarrow> g u v w))"
  by (simp_all split: option.split prod.split)

lemmas led_splits = prod.split option.split sum.split if_split

lemma led_pins:
  "led P (after (C_InitToken sid pin n lab P))"
  "led P (after (C_InitPIN h pin n P))"
  "led P (after (C_OpenSession sid fl ph P))"
  "led P (after (C_GetSessionInfo h pi P))"
  "led P (after (C_Login h u pin n P))"
  "led P (after (C_Logout h P))"
  unfolding C_InitToken_def C_InitPIN_def C_OpenSession_def C_GetSessionInfo_def C_Login_def C_Logout_def Let_def
  by (intro led_in_session led_with_token;
      auto split: led_splits intro: led_ops(1,2,3,5,6))+

lemma led_close_at: "led P (close_at i P)"
  unfolding close_at_def Let_def by (auto split: sum.split prod.split simp: case_prod_unfold intro: led_ops(4) prod.collapse[symmetric])

lemma led_fold: "(\<And>i Q. led Q (f i Q)) \<Longrightarrow> led P (fold f is P)"
  by (induction "is" arbitrary: P) (auto intro: led_trans)

lemma only_core_encaps: "pqc_encaps E alg pk c s w = (r, w') \<Longrightarrow> only_core w w'"
  by (auto simp: pqc_encaps_def Let_def split: prod.splits if_splits option.splits sum.splits
      dest!: only_core_passed only_core_prologue intro: only_core_after)

lemma led_encaps: "g_tok P = Inr tok \<Longrightarrow> pqc_encaps E alg pk c s (next_tick tok) = (r, t) \<Longrightarrow> led P (set_tok t P)"
  by (rule led_core, assumption) (rule only_core_trans[OF only_core_next_tick only_core_encaps])

lemma led_tick: "g_tok P = Inr tok \<Longrightarrow> led P (set_tok (next_tick tok) P)"
  by (rule led_core, assumption, rule only_core_next_tick)

lemma led_verify: "g_tok P = Inr tok \<Longrightarrow> verify_with_pubkey P tok s k d n sg m = (rv, t) \<Longrightarrow> led P (set_tok t P)"
  by (rule led_core)
     (auto simp: verify_with_pubkey_def split: if_splits option.splits sum.splits prod.splits
       dest!: only_core_verify intro: only_core_trans[OF only_core_next_tick])

lemma led_append: "g_tok P = Inr tok \<Longrightarrow> buf_append E b d n tok = Inr (ok, b', t) \<Longrightarrow> led P (set_tok t P)"
  by (rule led_core) (auto simp: buf_append_def buf_copy_def Let_def split: if_splits option.splits)

lemma led_aead_init: "g_tok P = Inr tok \<Longrightarrow> aead_init P tok m k c = (rv, c', t) \<Longrightarrow> led P (set_tok t P)"
  by (rule led_core) (auto simp: aead_init_def Let_def split: if_splits option.splits)

lemma led_key_attr: "key_attr E tok se co pb m info a = (rv, a', t) \<Longrightarrow> only_core tok t"
  by (auto simp: key_attr_def Let_def split: if_splits sum.splits prod.splits)

lemma led_key_attrs: "key_attrs E se co pb m info as rv tok = (rv', as', t) \<Longrightarrow> only_core tok t"
  by (induction as arbitrary: rv tok rv' as' t)
     (auto split: prod.splits dest: led_key_attr intro: only_core_trans)

lemma alloc_result: "secret_alloc ow P = Some (i, oh, Q) \<Longrightarrow> \<exists>x. Q = P\<lparr>g_secrets := x\<rparr>"
  by (auto simp: secret_alloc_def)

lemma led_objects:
  "led P (after (C_CloseSession h P))"
  "led P (after (C_CloseAllSessions sid P))"
  "led P (after (C_GenerateKeyPair h m pub prv p1 p2 P))"
  "led P (after (C_DestroyObject h k P))"
  "led P (after (C_FindObjectsInit h t P))"
  "led P (after (C_FindObjects h p3 n p4 P))"
  "led P (after (C_FindObjectsFinal h P))"
  "led P (after (C_GetAttributeValue h k to P))"
  unfolding C_CloseSession_def C_CloseAllSessions_def C_GenerateKeyPair_def C_DestroyObject_def C_FindObjectsInit_def
    C_FindObjects_def C_FindObjectsFinal_def C_GetAttributeValue_def Let_def snd_conv
  by (intro led_in_session led_fold;
      auto split: led_splits intro: led_close_at led_ops(7,8) led_core dest: led_key_attrs)+

lemma seed_real: "list_all attr_real t \<Longrightarrow> find_attr t ty = Some a \<Longrightarrow> at_value a = Some v \<Longrightarrow> unat (at_len a) \<le> length v"
  by (induction t) (auto simp: attr_real_def split: if_splits)

lemma led_create_secret: "led P (after (create_secret h t P))"
  unfolding create_secret_def by (auto split: led_splits dest!: alloc_result)

lemma led_create_seed:
  assumes "list_all attr_real t" "g_tok P = Inr tok"
  shows "led P (after (create_from_seed P tok s t))"
proof (cases "find_attr t CKA_SEED")
  case (Some sd)
  show ?thesis
  proof (cases "at_value sd")
    case (Some v)
    then have "unat (at_len sd) \<le> length v" using seed_real[OF assms(1) \<open>find_attr t CKA_SEED = Some sd\<close>] by simp
    then have L: "hsm_slot_load_seed (g_env P) no_hook tok (ps_sess s) a us po (Some v) (unat (at_len sd)) True = (st, hh, t') \<Longrightarrow>
        led P (set_tok t' P)" for a us po st hh t'
      by (rule led_ops(11)[OF assms(2), rotated])
    show ?thesis
      unfolding create_from_seed_def Let_def \<open>find_attr t CKA_SEED = Some sd\<close> option.case Some
      by (intro led_branches) (auto simp: L)
  qed (simp add: create_from_seed_def Some)
qed (simp add: create_from_seed_def)

lemma led_create:
  assumes "case t of None \<Rightarrow> True | Some as \<Rightarrow> list_all attr_real as"
  shows "led P (after (C_CreateObject h t p1 P))"
  using assms unfolding C_CreateObject_def Let_def
  by (intro led_in_session) (auto simp: led_create_secret led_create_seed split: led_splits)

lemma led_signing:
  "led P (after (C_SignInit h mo k P))"
  "led P (after (C_Sign h d n sg sl P))"
  "led P (after (C_SignFinal h sg sl P))"
  "led P (after (C_VerifyInit h mo k P))"
  "led P (after (C_Verify h d n so m P))"
  "led P (after (C_VerifyFinal h so m P))"
  unfolding C_SignInit_def C_Sign_def C_SignFinal_def C_VerifyInit_def C_Verify_def C_VerifyFinal_def Let_def
  by (intro led_in_session; auto split: led_splits intro: led_ops(9) led_verify)+

lemma led_updates:
  "C_SignUpdate h d n P = Inr r \<Longrightarrow> led P (after r)"
  "C_VerifyUpdate h d n P = Inr r \<Longrightarrow> led P (after r)"
  unfolding C_SignUpdate_def C_VerifyUpdate_def Let_def
  by (auto split: sum.splits option.splits if_splits prod.splits intro: led_append)

lemma led_kem:
  "led P (after (C_EncapsulateKey h m k t c cl p1 P))"
  "led P (after (C_DecapsulateKey h m k t co n p1 P))"
  unfolding C_EncapsulateKey_def C_DecapsulateKey_def Let_def
  by (intro led_in_session;
      auto split: led_splits intro: led_ops(10) led_encaps led_tick dest!: alloc_result)+

lemma led_aead:
  "led P (after (C_EncryptInit h me k P))"
  "led P (after (C_DecryptInit h me k P))"
  "led P (after (C_Encrypt h d n e el P))"
  "led P (after (C_Decrypt h d n e el P))"
  unfolding C_EncryptInit_def C_DecryptInit_def C_Encrypt_def C_Decrypt_def Let_def
  by (intro led_in_session; auto split: led_splits intro: led_aead_init)+

lemma returned_Some: "returned r = Some x \<Longrightarrow> \<exists>y. r = Inr y \<and> drop_out y = Some x"
  by (auto simp: returned_def split: sum.splits)

lemma drop_out_after: "drop_out r = Some (rv, P') \<Longrightarrow> after r = P'"
  by (auto simp: drop_out_def split: prod.splits)

lemma exec_led:
  assumes "p11_exec c P = Some (rv, P')" "inside c" "call_ok c"
  shows "led P P'"
  using assms
  by (cases c)
     (auto simp: inside_def dest!: returned_Some drop_out_after
       intro: led_pins led_objects led_create led_signing led_updates led_kem led_aead)

lemma run_led:
  "p11_run cs P = Some P' \<Longrightarrow> list_all inside cs \<Longrightarrow> list_all call_ok cs \<Longrightarrow> led P P'"
proof (induction cs arbitrary: P)
  case (Cons c cs)
  then obtain rv Q where q: "p11_exec c P = Some (rv, Q)" "p11_run cs Q = Some P'"
    by (auto simp: bind_eq_Some_conv)
  show ?case using led_trans[OF exec_led[OF q(1)] Cons.IH[OF q(2)]] Cons.prems(2,3) by simp
qed simp


end
