(* ===== verification/P11_Wf.thy ===== *)
theory P11_Wf
  imports P11_Calls
begin

text \<open>
  The type of the module's state: what its tables always look like, whatever calls have been made.
\<close>

section \<open>Well-formed tables\<close>

text \<open>A buffer has no memory, or a power of two bytes from 256 on and not more in use than that.\<close>

definition buf_ok :: "p11_buf \<Rightarrow> bool" where
  "buf_ok b \<longleftrightarrow> (bf_cap b = 0 \<and> bf_data b = []) \<or>
     (\<exists>k \<in> {8..63}. bf_cap b = 2 ^ k \<and> length (bf_data b) \<le> 2 ^ k)"

definition aead_ok :: "p11_aead_ctx \<Rightarrow> bool" where
  "aead_ok c \<longleftrightarrow> (ac_active c \<longrightarrow> length (ac_iv c) \<le> 16 \<and> 12 \<le> ac_taglen c \<and> ac_taglen c \<le> 16)"

definition sess_ok :: "u64 \<Rightarrow> p11_session \<Rightarrow> bool" where
  "sess_ok n s \<longleftrightarrow>
     (if ps_in_use s
      then ps_slot s < n \<and> length (ps_found s) \<le> 2 \<and> found_pos s \<le> length (ps_found s) \<and>
           buf_ok (sign_acc s) \<and> buf_ok (verify_acc s) \<and> aead_ok (ps_enc s) \<and> aead_ok (ps_dec s)
      else s = blank_p11_session)"

definition secret_ok :: "p11_secret \<Rightarrow> bool" where
  "secret_ok k \<longleftrightarrow>
     (if ko_in_use k then length (ko_val k) \<le> SECRET_MAX_LEN \<and> length (ko_label k) = 32 else k = blank_secret)"

definition owned :: "p11_session list \<Rightarrow> p11_secret \<Rightarrow> bool" where
  "owned S k \<longleftrightarrow> (ko_in_use k \<longrightarrow> (\<exists>j < MAX_P11_SESSIONS. ko_owner k = of_nat (Suc j) \<and> ps_in_use (S ! j)))"

definition p11_wf :: "p11 \<Rightarrow> bool" where
  "p11_wf P \<longleftrightarrow>
     length (g_sessions P) = MAX_P11_SESSIONS \<and> length (g_secrets P) = MAX_SECRETS \<and>
     0 < g_n_slots P \<and> g_n_slots P \<le> 64 \<and>
     (\<forall>s \<in> set (g_sessions P). sess_ok (g_n_slots P) s) \<and>
     (\<forall>k \<in> set (g_secrets P). secret_ok k \<and> owned (g_sessions P) k) \<and>
     (\<forall>w. g_tok P = Inl w \<longrightarrow> (\<forall>s \<in> set (g_sessions P). \<not> ps_in_use s))"

lemma sizes [simp]: "MAX_P11_SESSIONS = 32" "MAX_SECRETS = 32"
  by (simp_all add: MAX_P11_SESSIONS_def MAX_SECRETS_def)

lemma buf_ok_free [simp]: "buf_ok buf_free"
  by (simp add: buf_ok_def buf_free_def)

lemma aead_ok_reset [simp]: "aead_ok aead_ctx_reset"
  by (simp add: aead_ok_def aead_ctx_reset_def)

lemma blank_idle [simp]: "\<not> ps_in_use blank_p11_session" "\<not> ko_in_use blank_secret"
  by (simp_all add: blank_p11_session_def blank_secret_def)

lemma sess_ok_blank [simp]: "sess_ok n blank_p11_session" "secret_ok blank_secret"
  by (simp_all add: sess_ok_def secret_ok_def)

lemma owned_idle [simp]: "\<not> ko_in_use k \<Longrightarrow> owned S k"
  by (simp add: owned_def)

section \<open>Buffers\<close>

lemma grow_power:
  "grow_cap (2 ^ k) need = Some c \<Longrightarrow> k \<in> {8..63} \<Longrightarrow> \<exists>j \<in> {8..63}. c = 2 ^ j \<and> need \<le> c"
proof (induction "63 - k" arbitrary: k)
  case 0
  then have k: "k = 63" by simp
  show ?case
  proof (cases "2 ^ k < need")
    case True
    have "(2 :: u64) ^ k * 2 = 0" by (simp add: k)
    then have "grow_cap (2 ^ k) need = grow_cap 0 need" using True grow_step[of "2 ^ k" need] by simp
    moreover have "0 < need" using True by (rule order_le_less_trans[rotated]) simp
    ultimately show ?thesis using 0 grow_zero[of need] by simp
  next
    case False
    then show ?thesis using 0 grow_step[of "2 ^ k" need] by (intro bexI[of _ k]) auto
  qed
next
  case (Suc m)
  show ?case
  proof (cases "2 ^ k < need")
    case True
    have "grow_cap (2 ^ k) need = grow_cap (2 ^ Suc k) need"
      using True grow_step[of "2 ^ k" need] by (simp add: mult.commute)
    then show ?thesis using Suc(1)[of "Suc k"] Suc(2-4) by auto
  next
    case False
    then show ?thesis using Suc grow_step[of "2 ^ k" need] by (intro bexI[of _ k]) auto
  qed
qed

lemma unat_pow: "k \<le> 63 \<Longrightarrow> unat ((2 :: u64) ^ k) = 2 ^ k"
proof -
  assume "k \<le> 63"
  then have "(2 :: nat) ^ k < 2 ^ 64" by (intro power_strict_increasing) simp_all
  then show ?thesis using unat_u64[of "2 ^ k"] by simp
qed

lemma pow63: "k \<le> 63 \<Longrightarrow> (2 :: nat) ^ k \<le> 2 ^ 63"
  by (intro power_increasing) simp_all

lemma buf_ok_size: "buf_ok b \<Longrightarrow> length (bf_data b) \<le> 2 ^ 63 \<and> length (bf_data b) \<le> unat (bf_cap b)"
  using pow63 unat_pow by (fastforce simp: buf_ok_def intro: order_trans)

lemma need_exact:
  fixes n :: u64
  assumes "buf_ok b" "length (bf_data b) + unat n < 2 ^ 64"
  shows "unat (of_nat (length (bf_data b)) + n) = length (bf_data b) + unat n"
proof -
  have "length (bf_data b) < 2 ^ 64" using buf_ok_size[OF assms(1)] by simp
  then have "unat (of_nat (length (bf_data b)) :: u64) = length (bf_data b)" by (rule unat_u64)
  then show ?thesis using assms(2) by (simp add: unat_word_ariths)
qed

lemma length_mem: "length (mem d n) \<le> n"
  by (simp add: mem_def split: option.split)

text \<open>Where the doubling starts.\<close>

definition first_cap :: "p11_buf \<Rightarrow> u64" where
  "first_cap b = (if bf_cap b = 0 then 256 else bf_cap b * 2)"

lemma first_cap_cases:
  assumes "buf_ok b"
  obtains k where "k \<in> {8..63}" "first_cap b = 2 ^ k" "unat (bf_cap b) \<le> 2 ^ k"
  | "first_cap b = 0" "unat (bf_cap b) = 2 ^ 63"
proof -
  consider "bf_cap b = 0" | k where "k \<in> {8..63}" "bf_cap b = 2 ^ k" using assms by (auto simp: buf_ok_def)
  then show thesis
  proof cases
    case 1
    then show thesis using that(1)[of 8] by (simp add: first_cap_def)
  next
    case (2 k)
    then have u: "unat (bf_cap b) = 2 ^ k" using unat_pow[of k] by simp
    then have nz: "bf_cap b \<noteq> 0" by (metis power_not_zero unat_0 zero_neq_numeral)
    show thesis
    proof (cases "k = 63")
      case True
      then show thesis using that(2) nz 2 u by (simp add: first_cap_def)
    next
      case False
      then show thesis using that(1)[of "Suc k"] nz 2 u by (simp add: first_cap_def mult.commute)
    qed
  qed
qed

lemma copy_Inr:
  "buf_copy b d n w = Inr (ok, b', w') \<longleftrightarrow> length (bf_data b) + unat n \<le> unat (bf_cap b) \<and> ok \<and>
     b' = b\<lparr>bf_data := bf_data b @ mem d (unat n)\<rparr> \<and> w' = w"
  by (auto simp: buf_copy_def)

lemma buf_ok_copy:
  assumes "bf_cap b = 2 ^ k" "k \<in> {8..63}" "length (bf_data b) + unat n \<le> unat (bf_cap b)"
  shows "buf_ok (b\<lparr>bf_data := bf_data b @ mem d (unat n)\<rparr>)"
  using assms length_mem[of d "unat n"] unat_pow[of k] by (auto simp: buf_ok_def intro!: bexI[of _ k])

lemma grown_cap:
  assumes "buf_ok b" "grow_cap (first_cap b) need = Some c" "need > bf_cap b"
  shows "\<exists>j \<in> {8..63}. c = 2 ^ j \<and> need \<le> c"
  using assms(1)
proof (cases rule: first_cap_cases)
  case (1 k)
  then show ?thesis using assms(2) grow_power[of k need c] by simp
next
  case 2
  have "0 < need" using assms(3) by (rule order_le_less_trans[rotated]) simp
  then show ?thesis using 2 assms(2) grow_zero by simp
qed

text \<open>A buffer that came back is in order, however long the part was.\<close>

lemma append_ok:
  assumes "buf_append E b d n w = Inr (ok, b', w')" "buf_ok b"
  shows "buf_ok b'"
proof (cases "n = 0")
  case True
  then show ?thesis using assms by (simp add: buf_append_def)
next
  case False
  define need where "need = of_nat (length (bf_data b)) + n"
  show ?thesis
  proof (cases "need > bf_cap b")
    case True
    then obtain c where c: "grow_cap (first_cap b) need = Some c"
      "b' = b \<or> buf_copy (b\<lparr>bf_cap := c\<rparr>) d n (next_tick w) = Inr (ok, b', w')"
      using assms(1) \<open>n \<noteq> 0\<close>
      by (auto simp: buf_append_def Let_def need_def[symmetric] first_cap_def[symmetric] split: option.splits if_splits)
    obtain j where "j \<in> {8..63}" "c = 2 ^ j" using grown_cap[OF assms(2) c(1) True] by blast
    then show ?thesis using c(2) assms(2) buf_ok_copy[of "b\<lparr>bf_cap := c\<rparr>" j n d] by (auto simp: copy_Inr)
  next
    case False
    then have cp: "buf_copy b d n w = Inr (ok, b', w')"
      using assms(1) \<open>n \<noteq> 0\<close> by (simp add: buf_append_def Let_def need_def[symmetric])
    have "0 < unat n" using \<open>n \<noteq> 0\<close> by (simp add: unat_gt_0)
    then have "bf_cap b \<noteq> 0" using cp by (auto simp: copy_Inr)
    then obtain k where k: "k \<in> {8..63}" "bf_cap b = 2 ^ k" using assms(2) unfolding buf_ok_def by blast
    show ?thesis using cp buf_ok_copy[OF k(2,1), of n d] by (simp add: copy_Inr)
  qed
qed

text \<open>How adding a part ends: the sum of the lengths decides.\<close>

lemma append_short:
  assumes "buf_ok b" "length (bf_data b) + unat n \<le> 2 ^ 63"
  shows "\<exists>x. buf_append E b d n w = Inr x"
proof (cases "n = 0")
  case False
  define need where "need = of_nat (length (bf_data b)) + n"
  have u: "unat need = length (bf_data b) + unat n"
    unfolding need_def by (rule need_exact[OF assms(1)]) (use assms(2) in simp)
  show ?thesis
  proof (cases "need > bf_cap b")
    case True
    have "grow_cap (first_cap b) need \<noteq> None"
      using assms(1)
    proof (cases rule: first_cap_cases)
      case (1 k)
      then show ?thesis using grow_ends[of need "2 ^ k"] u assms(2) unat_pow[of k] pow63[of k] by auto
    next
      case 2
      then show ?thesis using True u assms(2) by (simp add: word_less_nat_alt)
    qed
    then obtain c where c: "grow_cap (first_cap b) need = Some c" by blast
    then have "need \<le> c" using grown_cap[OF assms(1) c True] by blast
    then show ?thesis
      using c u False True
      by (auto simp: buf_append_def Let_def need_def[symmetric] first_cap_def[symmetric] buf_copy_def word_le_nat_alt)
  next
    case no: False
    then have "length (bf_data b) + unat n \<le> unat (bf_cap b)" using u by (simp add: word_less_nat_alt)
    then show ?thesis using False no by (auto simp: buf_append_def Let_def need_def[symmetric] buf_copy_def)
  qed
qed (auto simp: buf_append_def)

lemma append_long:
  assumes "buf_ok b" "2 ^ 63 < length (bf_data b) + unat n" "length (bf_data b) + unat n < 2 ^ 64"
  shows "buf_append E b d n w = Inl Never_Ends"
proof -
  define need where "need = of_nat (length (bf_data b)) + n"
  have u: "unat need = length (bf_data b) + unat n" unfolding need_def by (rule need_exact[OF assms(1,3)])
  have big: "2 ^ 63 < unat need" using u assms(2) by simp
  have "unat (bf_cap b) \<le> 2 ^ 63" using assms(1) unat_pow pow63 by (auto simp: buf_ok_def)
  then have cap: "need > bf_cap b" using big by (simp add: word_less_nat_alt)
  have nz: "n \<noteq> 0" using assms(2) buf_ok_size[OF assms(1)] by auto
  have "grow_cap (first_cap b) need = None"
    using assms(1)
  proof (cases rule: first_cap_cases)
    case (1 k)
    then show ?thesis using grow_never[OF big, of k] by simp
  next
    case 2
    have "0 < need" using cap by (rule order_le_less_trans[rotated]) simp
    then show ?thesis using 2 grow_zero by simp
  qed
  then show ?thesis using cap nz by (simp add: buf_append_def Let_def need_def[symmetric] first_cap_def[symmetric])
qed

lemma append_wraps:
  assumes "buf_ok b" "2 ^ 64 \<le> length (bf_data b) + unat n"
  shows "buf_append E b d n w = Inl Out_Of_Bounds"
proof -
  define need where "need = of_nat (length (bf_data b)) + n"
  have l: "length (bf_data b) \<le> unat (bf_cap b)" "length (bf_data b) < 2 ^ 64" using buf_ok_size[OF assms(1)] by simp_all
  have m: "unat (of_nat (length (bf_data b)) :: u64) = length (bf_data b)" by (rule unat_u64[OF l(2)])
  have n: "unat n < 2 ^ 64" using unsigned_less[of n] by simp
  have "unat need = (length (bf_data b) + unat n) mod 2 ^ 64" by (simp add: need_def unat_word_ariths m)
  also have "\<dots> = length (bf_data b) + unat n - 2 ^ 64" using assms(2) l(2) n by (simp add: mod_if)
  also have "\<dots> < length (bf_data b)" using assms(2) n by simp
  finally have "\<not> need > bf_cap b" using l(1) by (simp add: word_less_nat_alt)
  moreover have "n \<noteq> 0" using assms(2) l(2) by auto
  moreover have "unat (bf_cap b) < 2 ^ 64" using unsigned_less[of "bf_cap b"] by simp
  ultimately show ?thesis
    using assms(2) by (simp add: buf_append_def Let_def need_def[symmetric] buf_copy_def)
qed

lemma append_ends:
  assumes "buf_ok b"
  shows "buf_append E b d n w = Inl Never_Ends \<longleftrightarrow>
      2 ^ 63 < length (bf_data b) + unat n \<and> length (bf_data b) + unat n < 2 ^ 64"
    and "buf_append E b d n w = Inl Out_Of_Bounds \<longleftrightarrow> 2 ^ 64 \<le> length (bf_data b) + unat n"
proof -
  consider "length (bf_data b) + unat n \<le> 2 ^ 63"
    | "2 ^ 63 < length (bf_data b) + unat n" "length (bf_data b) + unat n < 2 ^ 64"
    | "2 ^ 64 \<le> length (bf_data b) + unat n" by linarith
  then have "(buf_append E b d n w = Inl Never_Ends \<longleftrightarrow>
      2 ^ 63 < length (bf_data b) + unat n \<and> length (bf_data b) + unat n < 2 ^ 64) \<and>
      (buf_append E b d n w = Inl Out_Of_Bounds \<longleftrightarrow> 2 ^ 64 \<le> length (bf_data b) + unat n)"
  proof cases
    case 1
    then show ?thesis using append_short[OF assms 1, of E d w] by auto
  next
    case 2
    then show ?thesis using append_long[OF assms 2, of E d w] by simp
  next
    case 3
    then show ?thesis using append_wraps[OF assms 3, of E d w] by simp
  qed
  then show "buf_append E b d n w = Inl Never_Ends \<longleftrightarrow>
      2 ^ 63 < length (bf_data b) + unat n \<and> length (bf_data b) + unat n < 2 ^ 64"
    and "buf_append E b d n w = Inl Out_Of_Bounds \<longleftrightarrow> 2 ^ 64 \<le> length (bf_data b) + unat n" by blast+
qed

section \<open>Every call keeps the tables well formed\<close>

lemma wf_session:
  assumes "p11_wf P" "sess_at P h = Some s"
  shows "unat h - 1 < 32" "of_nat (Suc (unat h - 1)) = h" "g_sessions P ! (unat h - 1) = s" "ps_in_use s"
    "sess_ok (g_n_slots P) s"
proof -
  have h: "h \<noteq> 0" "unat h \<le> 32" "g_sessions P ! (unat h - 1) = s" "ps_in_use s"
    using assms(2) by (auto simp: sess_at_def Let_def split: if_splits)
  then have u: "Suc (unat h - 1) = unat h" by (simp add: unat_gt_0 Suc_diff_1)
  show i: "unat h - 1 < 32" using h u by simp
  then have "g_sessions P ! (unat h - 1) \<in> set (g_sessions P)"
    using assms(1) by (intro nth_mem) (simp add: p11_wf_def)
  then show "sess_ok (g_n_slots P) s" using assms(1) h(3) by (auto simp: p11_wf_def)
  show "of_nat (Suc (unat h - 1)) = h" unfolding u by simp
  show "g_sessions P ! (unat h - 1) = s" "ps_in_use s" by (rule h(3), rule h(4))
qed

lemma sess_at_set_tok [simp]: "sess_at (set_tok t P) h = sess_at P h"
  by (simp add: sess_at_def set_tok_def)

lemma n_slots_same [simp]:
  "g_n_slots (set_tok t P) = g_n_slots P" "g_n_slots (set_sess h s P) = g_n_slots P"
  by (simp_all add: set_tok_def set_sess_def)

lemma wf_set_tok [intro!]: "p11_wf P \<Longrightarrow> p11_wf (set_tok t P)"
  by (simp add: p11_wf_def set_tok_def)

lemma wf_persist [intro!]: "p11_wf P \<Longrightarrow> p11_wf (p11_persist P)"
  by (auto simp: p11_persist_def split: sum.split option.split)

lemma owned_update: "owned S k \<Longrightarrow> ps_in_use s \<Longrightarrow> owned (S[i := s]) k"
  unfolding owned_def by (metis nth_list_update_eq nth_list_update_neq list_update_beyond not_less)

lemma in_set_update: "x \<in> set (xs[i := y]) \<Longrightarrow> x = y \<or> x \<in> set xs"
  using set_update_subset_insert[of xs i y] by blast

lemma wf_new_session:
  assumes "p11_wf P" "g_tok P = Inr tok" "sess_ok (g_n_slots P) s" "ps_in_use s"
  shows "p11_wf (P\<lparr>g_sessions := (g_sessions P)[i := s]\<rparr>)"
  using assms by (auto simp: p11_wf_def owned_update dest!: in_set_update)

lemma wf_set_sess:
  assumes "p11_wf P" "sess_at P h = Some s0" "sess_ok (g_n_slots P) s" "ps_in_use s"
  shows "p11_wf (set_sess h s P)"
proof -
  have "s0 \<in> set (g_sessions P)"
    using wf_session[OF assms(1,2)] nth_mem[of "unat h - 1" "g_sessions P"] assms(1) by (simp add: p11_wf_def)
  then obtain tok where "g_tok P = Inr tok"
    using assms(1) wf_session(4)[OF assms(1,2)] by (cases "g_tok P") (auto simp: p11_wf_def)
  then show ?thesis using wf_new_session[OF assms(1)] assms(3,4) by (simp add: set_sess_def)
qed

text \<open>A session that is in use and well formed may take the place of the one that was there.\<close>

definition live :: "u64 \<Rightarrow> p11_session \<Rightarrow> bool" where
  "live n s \<longleftrightarrow> ps_in_use s \<and> sess_ok n s"

lemma wf_live [intro!]:
  "p11_wf P \<Longrightarrow> sess_at P h \<noteq> None \<Longrightarrow> live (g_n_slots P) s \<Longrightarrow> p11_wf (set_sess h s P)"
  unfolding live_def by (auto intro: wf_set_sess)

lemma wf_set_secret:
  assumes "p11_wf P" "secret_ok k" "owned (g_sessions P) k"
  shows "p11_wf (P\<lparr>g_secrets := (g_secrets P)[i := k]\<rparr>)"
  using assms by (auto simp: p11_wf_def dest!: in_set_update)

lemma first_index_bound: "first_index f xs = Some i \<Longrightarrow> i < length xs \<and> f (xs ! i)"
  by (induction xs arbitrary: i) (auto split: if_splits)

text \<open>A new key object of an open session, filled in.\<close>

lemma wf_alloc:
  assumes "p11_wf P" "sess_at P h \<noteq> None" "secret_alloc h P = Some (i, oh, Q)"
    and "\<And>k. secret_ok k \<Longrightarrow> ko_in_use k \<Longrightarrow> secret_ok (f k) \<and> ko_in_use (f k) \<and> ko_owner (f k) = ko_owner k"
  shows "p11_wf (set_secret i f Q)"
proof -
  let ?k = "blank_secret\<lparr>ko_in_use := True, ko_owner := h\<rparr>"
  have q: "Q = P\<lparr>g_secrets := (g_secrets P)[i := ?k]\<rparr>" "i < length (g_secrets P)"
    using assms(3) first_index_bound by (auto simp: secret_alloc_def)
  have k: "secret_ok ?k" "ko_in_use ?k" "ko_owner ?k = h" by (simp_all add: secret_ok_def blank_secret_def)
  obtain s where "sess_at P h = Some s" using assms(2) by blast
  note s = wf_session[OF assms(1) this]
  have "owned (g_sessions P) (f ?k)"
    using assms(4)[OF k(1,2)] k(3) s unfolding owned_def by (metis sizes(1))
  then have "p11_wf (P\<lparr>g_secrets := (g_secrets P)[i := f ?k]\<rparr>)"
    using wf_set_secret[OF assms(1)] assms(4)[OF k(1,2)] by blast
  then show ?thesis using q by (simp add: set_secret_def)
qed

lemma wf_close_at:
  assumes "p11_wf P"
  shows "p11_wf (close_at i P)"
proof -
  define P1 where "P1 = (case g_tok P of Inl _ \<Rightarrow> P
    | Inr tok \<Rightarrow> set_tok (snd (hsm_session_close tok (ps_sess (g_sessions P ! i)))) P)"
  have p1: "p11_wf P1" "g_sessions P1 = g_sessions P"
    using assms(1) by (auto simp: P1_def split: sum.split) (simp add: set_tok_def)
  let ?o = "of_nat (Suc i) :: u64" and ?S = "(g_sessions P)[i := blank_p11_session]"
  have keep: "owned ?S k" if "owned (g_sessions P) k" "ko_in_use k \<Longrightarrow> ?o \<noteq> 0 \<and> ko_owner k \<noteq> ?o" for k
    using that unfolding owned_def by (metis nth_list_update_neq)
  have "p11_wf ((secrets_drop_owner ?o P1)\<lparr>g_sessions := ?S\<rparr>)"
    using p1 keep unfolding p11_wf_def secrets_drop_owner_def
    by (auto dest!: in_set_update)
  then show ?thesis by (simp add: close_at_def Let_def P1_def)
qed

lemma wf_with_token:
  "p11_wf P \<Longrightarrow> (\<And>tok. g_tok P = Inr tok \<Longrightarrow> p11_wf (after (f tok))) \<Longrightarrow> p11_wf (after (with_token P no f))"
  by (simp add: with_token_def split: sum.split)

lemma wf_in_session:
  "p11_wf P \<Longrightarrow>
   (\<And>tok s. g_tok P = Inr tok \<Longrightarrow> sess_at P h = Some s \<Longrightarrow> live (g_n_slots P) s \<Longrightarrow>
      p11_wf (after (f tok s))) \<Longrightarrow>
   p11_wf (after (in_session P h no f))"
  unfolding in_session_def live_def by (rule wf_with_token) (auto split: option.split dest: wf_session)

lemma wf_branches:
  "(c \<Longrightarrow> p11_wf (after a)) \<Longrightarrow> (\<not> c \<Longrightarrow> p11_wf (after b)) \<Longrightarrow> p11_wf (after (if c then a else b))"
  "(x = None \<Longrightarrow> p11_wf (after a)) \<Longrightarrow> (\<And>y. x = Some y \<Longrightarrow> p11_wf (after (f y))) \<Longrightarrow>
     p11_wf (after (case x of None \<Rightarrow> a | Some y \<Rightarrow> f y))"
  "(\<And>u v w. t = (u, v, w) \<Longrightarrow> p11_wf (after (g u v w))) \<Longrightarrow> p11_wf (after (case t of (u, v, w) \<Rightarrow> g u v w))"
  by (simp_all split: option.split prod.split)

text \<open>A session that is in use stays well formed under these changes of its fields.\<close>

lemma sess_fields:
  assumes "live n s"
  shows "live n (s\<lparr>sign_active := a, sign_key := k\<rparr>)" "live n (s\<lparr>sign_active := a\<rparr>)"
    "live n (s\<lparr>verify_active := a, verify_key := k\<rparr>)" "live n (s\<lparr>verify_active := a\<rparr>)"
    "buf_ok b \<Longrightarrow> live n (s\<lparr>sign_acc := b\<rparr>)" "buf_ok b \<Longrightarrow> live n (s\<lparr>verify_acc := b\<rparr>)"
    "buf_ok b \<Longrightarrow> live n (s\<lparr>sign_acc := b, sign_active := a\<rparr>)"
    "buf_ok b \<Longrightarrow> live n (s\<lparr>verify_acc := b, verify_active := a\<rparr>)"
    "aead_ok c \<Longrightarrow> live n (s\<lparr>ps_enc := c\<rparr>)" "aead_ok c \<Longrightarrow> live n (s\<lparr>ps_dec := c\<rparr>)"
    "length fo \<le> 2 \<Longrightarrow> live n (s\<lparr>ps_found := fo, found_pos := 0, find_active := a\<rparr>)"
    "live n (s\<lparr>find_active := a, ps_found := [], found_pos := 0\<rparr>)"
    "live n (s\<lparr>found_pos := found_pos s + min (length (ps_found s) - found_pos s) m\<rparr>)"
  using assms by (auto simp: live_def sess_ok_def min_def)

lemma wf_pins:
  assumes "p11_wf P"
  shows "p11_wf (after (C_InitToken sid pin n lab P))" "p11_wf (after (C_InitPIN h pin n P))"
    "p11_wf (after (C_GetSessionInfo h pi P))" "p11_wf (after (C_Login h u pin n P))" "p11_wf (after (C_Logout h P))"
  unfolding C_InitToken_def C_InitPIN_def C_GetSessionInfo_def C_Login_def C_Logout_def Let_def
  by (intro wf_in_session[OF assms] wf_with_token[OF assms]; auto split: led_splits intro: assms)+

lemma wf_open:
  assumes "p11_wf P"
  shows "p11_wf (after (C_OpenSession sid fl ph P))"
proof -
  have n: "p11_wf ((set_tok t P)\<lparr>g_sessions := (g_sessions P)[i :=
      blank_p11_session\<lparr>ps_in_use := True, ps_sess := hs, ps_slot := sid\<rparr>]\<rparr>)"
    if "g_tok P = Inr tok" "sid < g_n_slots P" for t i hs tok
    using wf_new_session[OF wf_set_tok[OF assms], where s = "blank_p11_session\<lparr>ps_in_use := True, ps_sess := hs, ps_slot := sid\<rparr>"]
      that by (simp add: set_tok_def sess_ok_def blank_p11_session_def)
  show ?thesis
    unfolding C_OpenSession_def by (rule wf_with_token[OF assms]) (auto split: led_splits intro: n assms)
qed

lemma wf_drop_secret: "p11_wf P \<Longrightarrow> p11_wf (set_secret i (\<lambda>_. blank_secret) P)"
  unfolding set_secret_def by (rule wf_set_secret) simp_all

lemma wf_fold: "p11_wf P \<Longrightarrow> (\<And>i Q. p11_wf Q \<Longrightarrow> p11_wf (f i Q)) \<Longrightarrow> p11_wf (fold f is P)"
  by (induction "is" arbitrary: P) simp_all

lemma wf_objects:
  assumes "p11_wf P"
  shows "p11_wf (after (C_CloseSession h P))" "p11_wf (after (C_CloseAllSessions sid P))"
    "p11_wf (after (C_GenerateKeyPair h m pub prv p1 p2 P))" "p11_wf (after (C_DestroyObject h k P))"
    "p11_wf (after (C_FindObjectsInit h t P))" "p11_wf (after (C_FindObjects h p3 n p4 P))"
    "p11_wf (after (C_FindObjectsFinal h P))" "p11_wf (after (C_GetAttributeValue h k to P))"
  unfolding C_CloseSession_def C_CloseAllSessions_def C_GenerateKeyPair_def C_DestroyObject_def C_FindObjectsInit_def
    C_FindObjects_def C_FindObjectsFinal_def C_GetAttributeValue_def Let_def snd_conv
  by (intro wf_in_session[OF assms] wf_fold[OF assms];
      auto split: led_splits intro: assms wf_close_at wf_drop_secret simp: sess_fields)+

lemma wf_inits:
  assumes "p11_wf P"
  shows "p11_wf (after (C_SignInit h mo k P))" "p11_wf (after (C_VerifyInit h mo k P))"
    "p11_wf (after (C_Verify h d n so m P))" "p11_wf (after (C_VerifyFinal h so m P))"
  unfolding C_SignInit_def C_VerifyInit_def C_Verify_def C_VerifyFinal_def Let_def
  by (intro wf_in_session[OF assms]; auto split: led_splits intro: assms simp: sess_fields)+

lemma wf_signing:
  assumes "p11_wf P"
  shows "p11_wf (after (C_Sign h d n sg sl P))" "p11_wf (after (C_SignFinal h sg sl P))"
  unfolding C_Sign_def C_SignFinal_def Let_def
  by (intro wf_in_session[OF assms]; auto split: led_splits intro: assms simp: sess_fields)+

lemma live_bufs: "live n s \<Longrightarrow> buf_ok (sign_acc s)" "live n s \<Longrightarrow> buf_ok (verify_acc s)"
  "live n s \<Longrightarrow> aead_ok (ps_enc s)" "live n s \<Longrightarrow> aead_ok (ps_dec s)"
  by (simp_all add: live_def sess_ok_def)

lemma wf_live_at: "p11_wf P \<Longrightarrow> sess_at P h = Some s \<Longrightarrow> live (g_n_slots P) s"
  by (simp add: live_def wf_session)

lemma append_nothing [simp]: "buf_append E b d 0 w = Inr (True, b, w)"
  by (simp add: buf_append_def)

lemma live_append:
  "buf_append E (sign_acc s) d n w = Inr (ok, b, w') \<Longrightarrow> live m s \<Longrightarrow> live m (s\<lparr>sign_acc := b\<rparr>)"
  "buf_append E (verify_acc s) d n w = Inr (ok, b, w') \<Longrightarrow> live m s \<Longrightarrow> live m (s\<lparr>verify_acc := b\<rparr>)"
  by (auto intro!: sess_fields(5,6) intro: append_ok live_bufs)

lemma wf_updates:
  assumes "p11_wf P"
  shows "C_SignUpdate h d n P = Inr r \<Longrightarrow> p11_wf (after r)"
    "C_VerifyUpdate h d n P = Inr r \<Longrightarrow> p11_wf (after r)"
proof -
  note l = live_append wf_live_at[OF assms]
  have s: "live (g_n_slots P) (s\<lparr>sign_acc := b\<rparr>)"
    if "buf_append E (sign_acc s) d n tok = Inr (ok, b, t)" "sess_at P h = Some s" for E d s ok b and tok t :: hsm_token
    using l(1)[OF that(1)] l(3)[OF that(2)] .
  have v: "live (g_n_slots P) (s\<lparr>verify_acc := b\<rparr>)"
    if "buf_append E (verify_acc s) d n tok = Inr (ok, b, t)" "sess_at P h = Some s" for E d s ok b and tok t :: hsm_token
    using l(2)[OF that(1)] l(3)[OF that(2)] .
  show "C_SignUpdate h d n P = Inr r \<Longrightarrow> p11_wf (after r)" "C_VerifyUpdate h d n P = Inr r \<Longrightarrow> p11_wf (after r)"
    unfolding C_SignUpdate_def C_VerifyUpdate_def Let_def
    by (auto split: sum.splits option.splits if_splits prod.splits simp: sess_fields wf_live_at assms s v)
qed

lemma aead_init_ok: "aead_init P tok m k c = (rv, c', t) \<Longrightarrow> aead_ok c \<Longrightarrow> aead_ok c'"
proof -
  have tag: "12 \<le> t div 8 \<and> t div 8 \<le> 16" if "\<not> t < 96" "\<not> 128 < t" for t :: u64
    using that unfolding not_less by (auto simp: word_le_nat_alt unat_div)
  have iv: "min m (unat n) \<le> 16" if "\<not> 16 < n" for m and n :: u64
    using that by (simp add: word_less_nat_alt)
  show "aead_init P tok m k c = (rv, c', t) \<Longrightarrow> aead_ok c \<Longrightarrow> aead_ok c'"
    using tag iv by (auto simp: aead_init_def aead_ok_def Let_def aead_ctx_reset_def split: if_splits option.splits)
qed

lemma wf_aead:
  assumes "p11_wf P"
  shows "p11_wf (after (C_EncryptInit h me k P))" "p11_wf (after (C_DecryptInit h me k P))"
    "p11_wf (after (C_Encrypt h d n e el P))" "p11_wf (after (C_Decrypt h d n e el P))"
  unfolding C_EncryptInit_def C_DecryptInit_def C_Encrypt_def C_Decrypt_def Let_def
  by (intro wf_in_session[OF assms];
      auto split: led_splits intro: assms simp: sess_fields live_bufs dest: aead_init_ok)+

lemma decaps_size: "hsm_object_decaps E tok se ho c cl (Some cap) True = (HSM_OK, bs, t) \<Longrightarrow> length (opt_bytes bs) \<le> cap"
  by (auto simp: hsm_object_decaps_def decaps_locked_def opt_bytes_def split: sum.splits option.splits prod.splits if_splits)

lemma fill_ok: "length v \<le> SECRET_MAX_LEN \<Longrightarrow> secret_ok k \<Longrightarrow> ko_in_use k \<Longrightarrow>
  secret_ok (secret_fill t v k) \<and> ko_in_use (secret_fill t v k) \<and> ko_owner (secret_fill t v k) = ko_owner k"
  by (simp add: secret_ok_def secret_fill_def)

lemma secret_label_ok: "secret_ok k \<Longrightarrow> ko_in_use k \<Longrightarrow>
  secret_ok (secret_label t k) \<and> ko_in_use (secret_label t k) \<and> ko_owner (secret_label t k) = ko_owner k"
  by (simp add: secret_ok_def secret_label_def split: option.split)

lemma wf_create:
  assumes "p11_wf P"
  shows "p11_wf (after (C_CreateObject h t p1 P))"
proof -
  have seed: "p11_wf (after (create_from_seed P tok s as))" for tok s as
    unfolding create_from_seed_def Let_def by (intro wf_branches) (auto intro: assms)
  have secret: "p11_wf (after (create_secret h as P))" if "sess_at P h = Some s" for s as
  proof -
    have v: "length (mem v (unat n)) \<le> SECRET_MAX_LEN" if "\<not> SECRET_MAX_LEN < unat n" for v n
      using that length_mem[of v "unat n"] by simp
    show ?thesis
      unfolding create_secret_def
      by (auto split: led_splits intro: assms intro!: wf_alloc[OF assms] simp: that fill_ok secret_label_ok v)
  qed
  show ?thesis
    unfolding C_CreateObject_def Let_def
    by (rule wf_in_session[OF assms]) (auto split: led_splits simp: assms seed secret)
qed

lemma wf_kem:
  assumes "p11_wf P"
  shows "p11_wf (after (C_EncapsulateKey h m k t c cl p1 P))" "p11_wf (after (C_DecapsulateKey h m k t co n p1 P))"
  unfolding C_EncapsulateKey_def C_DecapsulateKey_def Let_def
  by (intro wf_in_session[OF assms];
      auto split: led_splits intro!: wf_alloc[OF wf_set_tok[OF assms]] simp: fill_ok intro: assms dest: decaps_size)+

lemma wf_finalize:
  assumes "p11_wf P"
  shows "p11_wf (snd (C_Finalize r P))"
proof -
  have q: "p11_wf (p11_persist P)" using assms by (rule wf_persist)
  have "ko_in_use k \<Longrightarrow> k \<in> set (g_secrets (secrets_drop_owner 0 Q)) \<Longrightarrow> False" for k Q
    by (auto simp: secrets_drop_owner_def split: if_splits)
  then have "\<forall>k \<in> set (g_secrets (secrets_drop_owner 0 (p11_persist P))). secret_ok k \<and> owned S k" for S
    using q by (auto simp: p11_wf_def secrets_drop_owner_def split: if_splits)
  then show ?thesis
    using assms q by (auto simp: C_Finalize_def p11_wf_def Let_def split: sum.split) (auto simp: secrets_drop_owner_def)
qed

lemma slots_range: "0 < n \<Longrightarrow> n \<le> 64 \<Longrightarrow> 0 < init_slots V n \<and> init_slots V n \<le> 64"
proof -
  have "0 < (of_int v :: u64) \<and> (of_int v :: u64) \<le> 64" if "0 < v" "v \<le> 64" for v
  proof -
    have "uint (of_int v :: u64) = v" using that by (simp add: unsigned_of_int take_bit_int_eq_self)
    then show ?thesis using that by (simp add: word_less_def word_le_def)
  qed
  then show "0 < n \<Longrightarrow> n \<le> 64 \<Longrightarrow> ?thesis" by (auto simp: init_slots_def Let_def split: option.split)
qed

lemma wf_other:
  "p11_wf P \<Longrightarrow> g_tok P = Inl w \<Longrightarrow> 0 < n \<Longrightarrow> n \<le> 64 \<Longrightarrow> g_sessions Q = g_sessions P \<Longrightarrow> g_secrets Q = g_secrets P \<Longrightarrow>
   g_n_slots Q = n \<Longrightarrow> p11_wf Q"
proof -
  assume a: "p11_wf P" "g_tok P = Inl w" "0 < n" "n \<le> 64" "g_sessions Q = g_sessions P" "g_secrets Q = g_secrets P" "g_n_slots Q = n"
  have "\<forall>s \<in> set (g_sessions P). s = blank_p11_session" using a(1,2) by (auto simp: p11_wf_def sess_ok_def)
  then have "\<forall>s \<in> set (g_sessions P). sess_ok n s" by (metis sess_ok_blank(1))
  then show ?thesis using a by (auto simp: p11_wf_def)
qed

lemma no_keys_idle:
  assumes "p11_wf P" "g_tok P = Inl w" "k \<in> set (g_secrets P)"
  shows "\<not> ko_in_use k"
proof
  assume "ko_in_use k"
  then obtain j where "j < 32" "ps_in_use (g_sessions P ! j)" using assms(1,3) by (auto simp: p11_wf_def owned_def)
  moreover have "g_sessions P ! j \<in> set (g_sessions P)" using assms(1) \<open>j < 32\<close> by (intro nth_mem) (simp add: p11_wf_def)
  ultimately show False using assms(1,2) by (auto simp: p11_wf_def)
qed

lemma initialize_shape:
  assumes "g_tok P = Inl w" "C_Initialize V P = (rv, Q)"
  shows "g_secrets Q = g_secrets P \<and> g_n_slots Q = init_slots V (g_n_slots P) \<and>
    (g_sessions Q = g_sessions P \<or> g_sessions Q = replicate MAX_P11_SESSIONS blank_p11_session)"
  using assms
  by (auto simp: C_Initialize_def Let_def split: prod.splits if_splits sum.splits option.splits)

lemma wf_initialize:
  assumes "p11_wf P"
  shows "p11_wf (snd (C_Initialize V P))"
proof (cases "g_tok P")
  case (Inl w)
  obtain rv Q where i: "C_Initialize V P = (rv, Q)" by fastforce
  note sh = initialize_shape[OF Inl i]
  have n: "0 < init_slots V (g_n_slots P) \<and> init_slots V (g_n_slots P) \<le> 64"
    using assms by (intro slots_range) (simp_all add: p11_wf_def)
  have "p11_wf Q"
  proof (cases "g_sessions Q = g_sessions P")
    case True
    then show ?thesis using wf_other[OF assms Inl _ _ True, of "init_slots V (g_n_slots P)"] n sh by blast
  next
    case False
    then have "g_sessions Q = replicate MAX_P11_SESSIONS blank_p11_session" using sh by blast
    then show ?thesis
      using n sh assms no_keys_idle[OF assms Inl] by (auto simp: p11_wf_def)
  qed
  then show ?thesis using i by simp
qed (simp add: C_Initialize_def assms)

lemma wf_ends: "C_Initialize V P = (rv, Q) \<Longrightarrow> p11_wf P \<Longrightarrow> p11_wf Q" "C_Finalize r P = (rv, Q) \<Longrightarrow> p11_wf P \<Longrightarrow> p11_wf Q"
  using wf_initialize[of P V] wf_finalize[of P r] by simp_all

lemma exec_wf:
  assumes "p11_exec c P = Some (rv, P')" "call_ok c" "p11_wf P"
  shows "p11_wf P'"
  using assms
  by (cases c)
     (auto dest!: returned_Some drop_out_after
       intro: wf_pins wf_open wf_objects wf_create wf_inits wf_signing wf_updates wf_kem wf_aead
       simp: wf_ends)

lemma wf_start: "p11_wf (p11_start E w)"
  by (auto simp: p11_wf_def p11_start_def DEFAULT_SLOTS_def)

text \<open>The module is a machine in the sense of theory Machine; a call that does not return leaves it where it was.\<close>

definition p11_step :: "unit \<Rightarrow> p11_call \<Rightarrow> p11 \<Rightarrow> p11" where
  "p11_step u c P = (case p11_exec c P of None \<Rightarrow> P | Some (rv, P') \<Rightarrow> P')"

interpretation pm: machine p11_step "\<lambda>u. True" call_ok p11_wf
  by unfold_locales (auto simp: p11_step_def intro: exec_wf split: option.split)

lemma run_fold: "p11_run cs P = Some P' \<Longrightarrow> P' = fold (p11_step u) cs P"
  by (induction cs arbitrary: P) (auto simp: p11_step_def bind_eq_Some_conv)

text \<open>
  C24: the tables of the module are always well formed. Whatever calls are made from the start, with
  whatever handles, lengths and templates (but that an attribute with a value is as long as it says), as long
  as they come back, in every state: a session that is not in use holds nothing at all; one that is in use
  names an existing slot, has found at most two objects and handed out no more than those, collects messages
  in buffers of 0 or a power of two bytes that are large enough, and has AES-GCM parameters in range; a
  session key object has at most 64 bytes and belongs to a session that is open, and without the module being
  initialized there is none of either. (The calls that do not come back are those of C31: a part of a message
  that makes the lengths wrap is copied past the end of its buffer, and one that makes them pass \<open>2\<^sup>6\<^sup>3\<close>
  never ends.)
\<close>

theorem p11_tables_typed:
  assumes "p11_run cs (p11_start E w) = Some P" "list_all call_ok cs"
  shows "p11_wf P \<and> (\<forall>w'. g_tok P = Inl w' \<longrightarrow> g_secrets P = replicate MAX_SECRETS blank_secret)"
proof -
  have wf: "p11_wf P"
    unfolding run_fold[OF assms(1), of "()"] by (rule pm.run_inv) (simp_all add: assms(2) wf_start)
  moreover have "g_secrets P = replicate MAX_SECRETS blank_secret" if "g_tok P = Inl w'" for w'
  proof -
    have "\<forall>k \<in> set (g_secrets P). k = blank_secret"
      using no_keys_idle[OF wf that] wf by (auto simp: p11_wf_def secret_ok_def)
    moreover have "length (g_secrets P) = MAX_SECRETS" using wf by (simp add: p11_wf_def)
    ultimately show ?thesis by (metis replicate_eqI)
  qed
  ultimately show ?thesis by blast
qed

text \<open>
  C31: whether a call that adds a part to a message comes back depends, once it has a session with that
  operation in progress and a part, on nothing but the sum of the lengths, in any state the
  module can be in and for any length at all. Up to \<open>2\<^sup>6\<^sup>3\<close> bytes the call returns. Beyond that, and below
  \<open>2\<^sup>6\<^sup>4\<close>, the loop that doubles the capacity of the buffer passes through zero and never ends, while the lock
  of the module is held. From \<open>2\<^sup>6\<^sup>4\<close> on the sum wraps, the buffer is not made larger, and the part is copied
  past its end. The same holds for C\_SignUpdate and for C\_VerifyUpdate.
\<close>

theorem update_terminates:
  assumes "p11_wf P"
  shows "(C_SignUpdate h d n P = Inl Never_Ends \<longleftrightarrow> (\<exists>tok s. g_tok P = Inr tok \<and> sess_at P h = Some s \<and> sign_active s \<and>
            (n \<noteq> 0 \<longrightarrow> d \<noteq> None) \<and> 2 ^ 63 < length (bf_data (sign_acc s)) + unat n \<and>
            length (bf_data (sign_acc s)) + unat n < 2 ^ 64)) \<and>
         (C_SignUpdate h d n P = Inl Out_Of_Bounds \<longleftrightarrow> (\<exists>tok s. g_tok P = Inr tok \<and> sess_at P h = Some s \<and> sign_active s \<and>
            (n \<noteq> 0 \<longrightarrow> d \<noteq> None) \<and> 2 ^ 64 \<le> length (bf_data (sign_acc s)) + unat n)) \<and>
         (C_VerifyUpdate h d n P = Inl Never_Ends \<longleftrightarrow> (\<exists>tok s. g_tok P = Inr tok \<and> sess_at P h = Some s \<and> verify_active s \<and>
            (n \<noteq> 0 \<longrightarrow> d \<noteq> None) \<and> 2 ^ 63 < length (bf_data (verify_acc s)) + unat n \<and>
            length (bf_data (verify_acc s)) + unat n < 2 ^ 64)) \<and>
         (C_VerifyUpdate h d n P = Inl Out_Of_Bounds \<longleftrightarrow> (\<exists>tok s. g_tok P = Inr tok \<and> sess_at P h = Some s \<and> verify_active s \<and>
            (n \<noteq> 0 \<longrightarrow> d \<noteq> None) \<and> 2 ^ 64 \<le> length (bf_data (verify_acc s)) + unat n))"
proof (cases "g_tok P")
  case (Inr tok)
  show ?thesis
  proof (cases "sess_at P h")
    case (Some s)
    note l = live_bufs[OF wf_live_at[OF assms Some]]
    have sign: "C_SignUpdate h d n P = Inl f \<longleftrightarrow>
        sign_active s \<and> (n \<noteq> 0 \<longrightarrow> d \<noteq> None) \<and> buf_append (g_env P) (sign_acc s) d n tok = Inl f" for f
      by (auto simp: C_SignUpdate_def Inr Some Let_def split: sum.splits prod.splits)
    have verify: "C_VerifyUpdate h d n P = Inl f \<longleftrightarrow>
        verify_active s \<and> (n \<noteq> 0 \<longrightarrow> d \<noteq> None) \<and> buf_append (g_env P) (verify_acc s) d n tok = Inl f" for f
      by (auto simp: C_VerifyUpdate_def Inr Some Let_def split: sum.splits prod.splits)
    show ?thesis unfolding sign verify append_ends[OF l(1)] append_ends[OF l(2)] by (simp add: Inr Some)
  qed (simp add: C_SignUpdate_def C_VerifyUpdate_def Inr)
qed (simp add: C_SignUpdate_def C_VerifyUpdate_def)

end
