(* ===== verification/P11_Props.thy ===== *)
theory P11_Props
  imports P11_Wf
begin

text \<open>
  What the PKCS\#11 front-end promises about key values, messages in several parts, AES-GCM and its start.
\<close>

section \<open>Values of keys are not read\<close>

text \<open>The same object with another value of the same length.\<close>

definition revalue :: "bytes \<Rightarrow> p11_secret \<Rightarrow> p11_secret" where
  "revalue v k = k\<lparr>ko_val := v\<rparr>"

lemma secret_attr_revalue:
  assumes "\<not> ko_extractable k \<or> ko_sensitive k" "length v = length (ko_val k)"
  shows "secret_attr (revalue v k) a = secret_attr k a"
  using assms by (simp add: secret_attr_def revalue_def Let_def)

lemma secret_attrs_revalue:
  assumes "\<not> ko_extractable k \<or> ko_sensitive k" "length v = length (ko_val k)"
  shows "secret_attrs (revalue v k) as rv = secret_attrs k as rv"
  by (induction as arbitrary: rv) (simp_all add: secret_attr_revalue[OF assms])

lemma set_secret_simps [simp]:
  "g_tok (set_secret i f P) = g_tok P" "g_env (set_secret i f P) = g_env P" "g_sessions (set_secret i f P) = g_sessions P"
  "sess_at (set_secret i f P) h = sess_at P h" "get_meta (set_secret i f P) tok sid = get_meta P tok sid"
  by (simp_all add: set_secret_def sess_at_def get_meta_def)

lemma core_handle_same [simp]: "core_handle_of (set_secret i f P) tok h = core_handle_of P tok h"
  by (simp add: core_handle_of_def Let_def)

lemma set_secret_tok: "set_tok t (set_secret i f P) = set_secret i f (set_tok t P)"
  by (simp add: set_tok_def set_secret_def)

lemma secret_at_revalue:
  assumes "i < length (g_secrets P)"
  shows "secret_at (set_secret i (revalue v) P) h =
    (case secret_idx P h of None \<Rightarrow> None
     | Some j \<Rightarrow> Some (if j = i then revalue v (g_secrets P ! i) else g_secrets P ! j))"
proof -
  have "ko_in_use ((g_secrets P)[i := revalue v (g_secrets P ! i)] ! j) = ko_in_use (g_secrets P ! j)" for j
    using assms by (cases "j = i") (simp_all add: revalue_def)
  then have "secret_idx (set_secret i (revalue v) P) h = secret_idx P h"
    by (simp add: secret_idx_def set_secret_def Let_def)
  then show ?thesis
    using assms by (auto simp: secret_at_def set_secret_def nth_list_update split: option.split)
qed

lemma if_pair: "(if c then (a, b) else (a', b')) = (if c then a else a', if c then b else b')"
  by simp

lemma private_attr:
  "key_attr E' tok' se' co' False m info a =
     (fst (key_attr E tok se co False m info a), fst (snd (key_attr E tok se co False m info a)), tok')"
  unfolding key_attr_def Let_def case_prod_unfold not_False_eq_True if_True
  by (simp only: if_pair fst_conv snd_conv if_cancel)

text \<open>
  C26: the value of a key object that is sensitive or not extractable cannot be read, and neither can a
  private key. Two states of the module that differ in nothing but the value of such an object give, for
  every handle and template, the same return code and the same attributes; and the attributes of a private
  key are those its metadata alone determine, whatever the token holds.
\<close>

theorem value_never_read:
  assumes "i < length (g_secrets P)" "length v = length (ko_val (g_secrets P ! i))"
    and "\<not> ko_extractable (g_secrets P ! i) \<or> ko_sensitive (g_secrets P ! i)"
  shows "(case (C_GetAttributeValue h ob t P, C_GetAttributeValue h ob t (set_secret i (revalue v) P)) of
            ((rv, out, Q), (rv', out', Q')) \<Rightarrow> rv' = rv \<and> out' = out \<and> Q' = set_secret i (revalue v) Q) \<and>
         (case key_attr E tok se core False m info a of (rv, a', tok') \<Rightarrow>
            tok' = tok \<and> (\<forall>E' tok' se' core'. key_attr E' tok' se' core' False m info a = (rv, a', tok')))"
proof
  let ?P = "set_secret i (revalue v) P"
  note s = secret_at_revalue[OF assms(1), of v]
  have "g_secrets P ! i = k \<Longrightarrow> secret_attrs (revalue v k) as CKR_OK = secret_attrs k as CKR_OK" for as k
    using secret_attrs_revalue assms(2,3) by blast
  then show "case (C_GetAttributeValue h ob t P, C_GetAttributeValue h ob t ?P) of
      ((rv, out, Q), (rv', out', Q')) \<Rightarrow> rv' = rv \<and> out' = out \<and> Q' = set_secret i (revalue v) Q"
    by (auto simp: C_GetAttributeValue_def in_session_def with_token_def s secret_at_def[of P] set_secret_tok
        split: sum.splits option.splits prod.splits)
  obtain rv a' t' where x: "key_attr E tok se core False m info a = (rv, a', t')" by (metis prod_cases3)
  have "key_attr E' tok' se' core' False m info a = (rv, a', tok')" for E' tok' se' core'
    using private_attr[where E = E and tok = tok and se = se and co = core and E' = E' and tok' = tok' and
        se' = se' and co' = core' and m = m and info = info and a = a] unfolding x fst_conv snd_conv .
  moreover from this[of E tok se core] have "t' = tok" unfolding x by simp
  ultimately show "case key_attr E tok se core False m info a of (rv, a', tok') \<Rightarrow>
      tok' = tok \<and> (\<forall>E' tok' se' core'. key_attr E' tok' se' core' False m info a = (rv, a', tok'))"
    unfolding x prod.case by blast
qed

section \<open>Messages in several parts\<close>

lemma sess_at_persist [simp]: "sess_at (p11_persist P) h = sess_at P h"
  by (simp add: p11_persist_def split: sum.split option.split)

lemma sess_at_set:
  assumes "p11_wf P" "sess_at P h = Some s0" "ps_in_use s"
  shows "sess_at (set_sess h s P) h = Some s" "sess_at (set_sess h s (set_tok t P)) h = Some s"
proof -
  have "unat h - 1 < length (g_sessions P)" using wf_session(1)[OF assms(1,2)] assms(1) by (simp add: p11_wf_def)
  then show "sess_at (set_sess h s P) h = Some s" "sess_at (set_sess h s (set_tok t P)) h = Some s"
    using assms(2,3) by (auto simp: sess_at_def set_sess_def set_tok_def Let_def split: if_splits)
qed

text \<open>The parts of a message, one call of C\_SignUpdate each, all accepted.\<close>

fun sign_parts :: "u64 \<Rightarrow> bytes list \<Rightarrow> p11 \<Rightarrow> p11 option" where
  "sign_parts h [] P = Some P"
| "sign_parts h (d # ds) P =
     (case C_SignUpdate h (Some d) (of_nat (length d)) P of
        Inl _ \<Rightarrow> None
      | Inr (rv, _, P') \<Rightarrow> if rv = CKR_OK then sign_parts h ds P' else None)"

lemma append_data:
  "buf_append E b (Some d) (of_nat (length d)) w = Inr (True, b', w') \<Longrightarrow> length d < 2 ^ 64 \<Longrightarrow> bf_data b' = bf_data b @ d"
  by (auto simp: buf_append_def buf_copy_def Let_def unat_u64 word_of_nat_eq_0_iff dest: nat_dvd_not_less
      split: if_splits option.splits)

lemma sign_update_adds:
  assumes "C_SignUpdate h (Some d) (of_nat (length d)) P = Inr (CKR_OK, u, Q)" "p11_wf P" "sess_at P h = Some s"
    and "length d < 2 ^ 63"
  shows "\<exists>s'. sess_at Q h = Some s' \<and> bf_data (sign_acc s') = bf_data (sign_acc s) @ d \<and>
    sign_active s' \<and> sign_key s' = sign_key s \<and> ps_sess s' = ps_sess s \<and> g_env Q = g_env P \<and> p11_wf Q"
proof -
  obtain b t where b: "buf_append (g_env P) (sign_acc s) (Some d) (of_nat (length d)) (projr (g_tok P)) = Inr (True, b, t)"
    "sign_active s" "Q = set_sess h (s\<lparr>sign_acc := b\<rparr>) (set_tok t P)"
    using assms(1,3) by (auto simp: C_SignUpdate_def Let_def split: sum.splits option.splits if_splits prod.splits)
  have "bf_data b = bf_data (sign_acc s) @ d" using append_data[OF b(1)] assms(4) by simp
  moreover have "p11_wf Q" using wf_updates(1)[OF assms(2,1)] by simp
  moreover have "g_env Q = g_env P" by (simp add: b(3) set_sess_def set_tok_def)
  ultimately show ?thesis
    using sess_at_set(2)[OF assms(2,3), of "s\<lparr>sign_acc := b\<rparr>" t] wf_session(4)[OF assms(2,3)] b(2,3) by simp
qed

lemma sign_parts_add:
  "sign_parts h ds P = Some Q \<Longrightarrow> p11_wf P \<Longrightarrow> sess_at P h = Some s \<Longrightarrow> \<forall>d \<in> set ds. length d < 2 ^ 63 \<Longrightarrow>
   \<exists>s'. sess_at Q h = Some s' \<and> bf_data (sign_acc s') = bf_data (sign_acc s) @ concat ds \<and>
     sign_key s' = sign_key s \<and> ps_sess s' = ps_sess s \<and> p11_wf Q"
proof (induction ds arbitrary: P s)
  case (Cons d ds)
  then obtain u P' where u: "C_SignUpdate h (Some d) (of_nat (length d)) P = Inr (CKR_OK, u, P')" "sign_parts h ds P' = Some Q"
    by (auto split: sum.splits prod.splits if_splits)
  obtain s1 where s1: "sess_at P' h = Some s1" "bf_data (sign_acc s1) = bf_data (sign_acc s) @ d"
    "sign_key s1 = sign_key s" "ps_sess s1 = ps_sess s" "p11_wf P'"
    using sign_update_adds[OF u(1) Cons.prems(2,3)] Cons.prems(4) by auto
  show ?case using Cons.IH[OF u(2) s1(5,1)] Cons.prems(4) s1(2-4) by auto
qed simp

lemma final_is_sign:
  assumes "sess_at Q h = Some s" "unat n = length (bf_data (sign_acc s))"
  shows "fst (C_SignFinal h sg sl Q) = fst (C_Sign h (bf_p (sign_acc s)) n sg sl Q) \<and>
    fst (snd (C_SignFinal h sg sl Q)) = fst (snd (C_Sign h (bf_p (sign_acc s)) n sg sl Q))"
proof (cases "g_tok Q")
  case (Inr tok)
  show ?thesis
  proof (cases "sl = None \<or> \<not> sign_active s \<or> (\<exists>rv. handle_alg Q tok (sign_key s) PQC_KIND_SIG = Inl rv)")
    case True
    then show ?thesis by (cases sl) (auto simp: C_SignFinal_def C_Sign_def in_session_def with_token_def Inr assms(1))
  next
    case False
    then obtain cap alg info where c: "sl = Some cap" "sign_active s" "handle_alg Q tok (sign_key s) PQC_KIND_SIG = Inr (alg, info)"
      by (cases "handle_alg Q tok (sign_key s) PQC_KIND_SIG") auto
    obtain st bs t where st: "hsm_object_sign (g_env Q) tok (ps_sess s) (core_handle_of Q tok (sign_key s)) (bf_p (sign_acc s))
        (length (bf_data (sign_acc s))) None 0 (Some (unat cap)) True = (st, bs, t)" by (metis prod_cases3)
    show ?thesis
      by (simp add: C_SignFinal_def C_Sign_def in_session_def with_token_def Inr assms c st Let_def)
  qed
qed (simp add: C_SignFinal_def C_Sign_def in_session_def with_token_def)

text \<open>
  C28: signing in several parts is signing their concatenation. After the parts of a message have been
  accepted, C\_SignFinal returns exactly what C\_Sign returns for all the bytes the session has collected:
  what was there before, and then the parts in their order; same return code, same signature, same length.
\<close>

theorem multipart_is_oneshot:
  assumes "sign_parts h ds P = Some Q" "p11_wf P" "sess_at P h = Some s" "\<forall>d \<in> set ds. length d < 2 ^ 63"
  shows "\<exists>s'. sess_at Q h = Some s' \<and> sign_key s' = sign_key s \<and>
    bf_data (sign_acc s') = bf_data (sign_acc s) @ concat ds \<and>
    (case (C_SignFinal h sg sl Q, C_Sign h (bf_p (sign_acc s')) (of_nat (length (bf_data (sign_acc s')))) sg sl Q) of
       ((rv, out, Q1), (rv', out', Q2)) \<Rightarrow> rv' = rv \<and> out' = out)"
proof -
  obtain s' where s': "sess_at Q h = Some s'" "bf_data (sign_acc s') = bf_data (sign_acc s) @ concat ds"
    "sign_key s' = sign_key s" "p11_wf Q"
    using sign_parts_add[OF assms] by blast
  have "length (bf_data (sign_acc s')) < 2 ^ 64"
    using buf_ok_size[OF live_bufs(1)[OF wf_live_at[OF s'(4,1)]]] by simp
  then have n: "unat (of_nat (length (bf_data (sign_acc s'))) :: u64) = length (bf_data (sign_acc s'))" by (rule unat_u64)
  have "case (C_SignFinal h sg sl Q, C_Sign h (bf_p (sign_acc s')) (of_nat (length (bf_data (sign_acc s')))) sg sl Q) of
       ((rv, out, Q1), (rv', out', Q2)) \<Rightarrow> rv' = rv \<and> out' = out"
    unfolding case_prod_unfold prod.case fst_conv snd_conv using final_is_sign[OF s'(1) n, of sg sl] by simp
  then show ?thesis by (intro exI[of _ s'] conjI s'(1-3))
qed

lemma sign_init_keeps:
  assumes "p11_wf P" "sess_at P h = Some s"
  shows "\<exists>s'. sess_at (after (C_SignInit h mo k P)) h = Some s' \<and> sign_acc s' = sign_acc s \<and>
    (fst (C_SignInit h mo k P) = CKR_OK \<longrightarrow> sign_key s' = k)"
  using assms(2) sess_at_set(1)[OF assms] wf_session(4)[OF assms]
  by (auto simp: C_SignInit_def in_session_def with_token_def split: sum.split option.split)

lemma sign_keeps:
  assumes "p11_wf P" "sess_at P h = Some s"
  shows "\<exists>s'. sess_at (after (C_Sign h d n sg sl P)) h = Some s' \<and> sign_acc s' = sign_acc s"
  using assms(2) sess_at_set(2)[OF assms] wf_session(4)[OF assms]
  by (auto simp: C_Sign_def in_session_def with_token_def Let_def split: sum.split option.split prod.split)

text \<open>
  C29: the parts of an abandoned message do not go away. Neither C\_SignInit nor C\_Sign touches what the
  session has collected, whatever they return. So after a part \<open>a\<close> and a signature of something else in one
  call, a new operation, with the key that C\_SignInit named, that collects \<open>c\<close> ends in a C\_SignFinal that
  returns exactly what C\_Sign returns for the old bytes, \<open>a\<close> and \<open>c\<close>: the same code, the same signature, the
  same length, of a message nobody asked to be signed. (The parts are shorter than \<open>2\<^sup>6\<^sup>3\<close> bytes, and the tables
  of the module are well formed.)
\<close>

theorem stale_part_signed:
  assumes "p11_wf P" "sess_at P h = Some s" "length a < 2 ^ 63" "length c < 2 ^ 63"
    and "C_SignUpdate h (Some a) (of_nat (length a)) P = Inr (CKR_OK, u, P1)"
    and "P2 = after (C_Sign h d n sg sl P1)" and "C_SignInit h mo k P2 = (rv, o3, P3)"
    and "C_SignUpdate h (Some c) (of_nat (length c)) P3 = Inr (CKR_OK, u', P4)"
  shows "\<exists>s'. sess_at P4 h = Some s' \<and> bf_data (sign_acc s') = bf_data (sign_acc s) @ a @ c \<and>
    (rv = CKR_OK \<longrightarrow> sign_key s' = k) \<and>
    (case (C_SignFinal h fs fl P4,
           C_Sign h (bf_p (sign_acc s')) (of_nat (length (bf_data (sign_acc s) @ a @ c))) fs fl P4) of
       ((rv1, out1, _), (rv2, out2, _)) \<Rightarrow> rv1 = rv2 \<and> out1 = out2)"
proof -
  obtain s1 where s1: "sess_at P1 h = Some s1" "bf_data (sign_acc s1) = bf_data (sign_acc s) @ a" "p11_wf P1"
    using sign_update_adds[OF assms(5,1,2,3)] by blast
  have w2: "p11_wf P2" unfolding assms(6) by (rule wf_signing(1)[OF s1(3)])
  obtain s2 where s2: "sess_at P2 h = Some s2" "sign_acc s2 = sign_acc s1" using sign_keeps[OF s1(3,1)] assms(6) by blast
  have w3: "p11_wf P3" using wf_inits(1)[OF w2, of h mo k] assms(7) by simp
  obtain s3 where s3: "sess_at P3 h = Some s3" "sign_acc s3 = sign_acc s2" "rv = CKR_OK \<longrightarrow> sign_key s3 = k"
    using sign_init_keeps[OF w2 s2(1), of mo k] assms(7) by auto
  obtain s' where s': "sess_at P4 h = Some s'" "bf_data (sign_acc s') = bf_data (sign_acc s) @ a @ c"
    "sign_key s' = sign_key s3" "p11_wf P4"
    using sign_update_adds[OF assms(8) w3 s3(1) assms(4)] s1(2) s2(2) s3(2) by auto
  have "length (bf_data (sign_acc s')) < 2 ^ 64"
    using buf_ok_size[OF live_bufs(1)[OF wf_live_at[OF s'(4,1)]]] by simp
  then have n: "unat (of_nat (length (bf_data (sign_acc s'))) :: u64) = length (bf_data (sign_acc s'))" by (rule unat_u64)
  have "case (C_SignFinal h fs fl P4, C_Sign h (bf_p (sign_acc s')) (of_nat (length (bf_data (sign_acc s) @ a @ c))) fs fl P4) of
       ((rv1, out1, _), (rv2, out2, _)) \<Rightarrow> rv1 = rv2 \<and> out1 = out2"
    unfolding s'(2)[symmetric] case_prod_unfold prod.case fst_conv snd_conv
    using final_is_sign[OF s'(1) n, of fs fl] by simp
  then show ?thesis using s' s3(3) by (intro exI[of _ s']) simp
qed

section \<open>AES-GCM\<close>

text \<open>AES-GCM as documented: a ciphertext as long as the text, 16 bytes of tag, and any of its prefixes of 12 bytes or more opens it.\<close>

definition gcm_tags_ok :: "env \<Rightarrow> bool" where
  "gcm_tags_ok E \<longleftrightarrow> (\<forall>k iv aad p c t n. evp_gcm_encrypt E k iv aad p = Some (c, t) \<longrightarrow> 12 \<le> n \<longrightarrow> n \<le> 16 \<longrightarrow>
     length c = length p \<and> length t = 16 \<and> evp_gcm_decrypt E k iv aad c (take n t) = Some p)"

text \<open>The parameters an operation was started with.\<close>

lemma aead_init_result:
  assumes "aead_init P tok m hk c = (CKR_OK, c', t)"
  shows "\<exists>k p. secret_at P hk = Some k \<and> me_gcm m = Some p \<and> gcm_by_keylen (length (ko_val k)) \<and> ac_active c' \<and>
    ac_key c' = hk \<and> ac_iv c' = mem (gp_iv p) (unat (gp_iv_len p)) \<and> ac_aad c' = mem (gp_aad p) (unat (gp_aad_len p)) \<and>
    ac_taglen c' = gp_tag_bits p div 8"
  using assms by (auto simp: aead_init_def aead_ctx_reset_def Let_def split: if_splits option.splits)

lemma secret_at_set [simp]: "secret_at (set_sess h s (set_tok t P)) k = secret_at P k"
  by (simp add: secret_at_def secret_idx_def set_sess_def set_tok_def Let_def)

lemma encrypt_init_result:
  assumes "C_EncryptInit h (Some m) hk P = (CKR_OK, u, Q)" "p11_wf P"
  shows "\<exists>s t k p. sess_at Q h = Some s \<and> g_tok Q = Inr t \<and> g_env Q = g_env P \<and> p11_wf Q \<and>
    secret_at P hk = Some k \<and> secret_at Q hk = Some k \<and> me_gcm m = Some p \<and> gcm_by_keylen (length (ko_val k)) \<and>
    ac_active (ps_enc s) \<and> ac_key (ps_enc s) = hk \<and> ac_iv (ps_enc s) = mem (gp_iv p) (unat (gp_iv_len p)) \<and>
    ac_aad (ps_enc s) = mem (gp_aad p) (unat (gp_aad_len p)) \<and> ac_taglen (ps_enc s) = gp_tag_bits p div 8"
proof -
  obtain tok s c t where i: "g_tok P = Inr tok" "sess_at P h = Some s" "aead_init P tok m hk (ps_enc s) = (CKR_OK, c, t)"
    "Q = set_sess h (s\<lparr>ps_enc := c\<rparr>) (set_tok t P)"
    using assms(1) by (auto simp: C_EncryptInit_def in_session_def with_token_def split: sum.splits option.splits prod.splits)
  have "p11_wf Q" using wf_aead(1)[OF assms(2), of h "Some m" hk] assms(1) by simp
  moreover have "sess_at Q h = Some (s\<lparr>ps_enc := c\<rparr>)"
    using sess_at_set(2)[OF assms(2) i(2)] wf_session(4)[OF assms(2) i(2)] i(4) by simp
  moreover have "g_tok Q = Inr t" "g_env Q = g_env P" by (simp_all add: i(4) set_sess_def set_tok_def)
  ultimately show ?thesis using aead_init_result[OF i(3)] i(4) by auto
qed

lemma decrypt_init_result:
  assumes "C_DecryptInit h (Some m) hk P = (CKR_OK, u, Q)" "p11_wf P"
  shows "\<exists>s t k p. sess_at Q h = Some s \<and> g_tok Q = Inr t \<and> g_env Q = g_env P \<and> p11_wf Q \<and>
    secret_at P hk = Some k \<and> secret_at Q hk = Some k \<and> me_gcm m = Some p \<and> gcm_by_keylen (length (ko_val k)) \<and>
    ac_active (ps_dec s) \<and> ac_key (ps_dec s) = hk \<and> ac_iv (ps_dec s) = mem (gp_iv p) (unat (gp_iv_len p)) \<and>
    ac_aad (ps_dec s) = mem (gp_aad p) (unat (gp_aad_len p)) \<and> ac_taglen (ps_dec s) = gp_tag_bits p div 8"
proof -
  obtain tok s c t where i: "g_tok P = Inr tok" "sess_at P h = Some s" "aead_init P tok m hk (ps_dec s) = (CKR_OK, c, t)"
    "Q = set_sess h (s\<lparr>ps_dec := c\<rparr>) (set_tok t P)"
    using assms(1) by (auto simp: C_DecryptInit_def in_session_def with_token_def split: sum.splits option.splits prod.splits)
  have "p11_wf Q" using wf_aead(2)[OF assms(2), of h "Some m" hk] assms(1) by simp
  moreover have "sess_at Q h = Some (s\<lparr>ps_dec := c\<rparr>)"
    using sess_at_set(2)[OF assms(2) i(2)] wf_session(4)[OF assms(2) i(2)] i(4) by simp
  moreover have "g_tok Q = Inr t" "g_env Q = g_env P" by (simp_all add: i(4) set_sess_def set_tok_def)
  ultimately show ?thesis using aead_init_result[OF i(3)] i(4) by auto
qed

lemma short_int: "n < 2 ^ 31 \<Longrightarrow> int_len (of_nat n) = int n"
proof -
  assume n: "n < 2 ^ 31"
  have "take_bit 64 n = n" using n by (intro take_bit_nat_eq_self) simp
  then have "(ucast (of_nat n :: u64) :: u32) = of_nat n" by (simp add: unsigned_of_nat)
  moreover have "sint (of_nat n :: u32) = int n"
    using n by (simp add: signed_of_nat signed_take_bit_int_eq_self)
  ultimately show ?thesis by (simp add: int_len_def)
qed

text \<open>
  C30: what one side encrypts the other side reads. When two modules hold key objects of the same value, as
  after an encapsulation and a decapsulation, and start AES-GCM with the same parameters, then any text
  shorter than \<open>2\<^sup>3\<^sup>1\<close> bytes that C\_Encrypt has turned into a ciphertext with its tag behind it is what
  C\_Decrypt returns for them, for every length of the tag the module accepts.
\<close>

theorem gcm_delivers:
  assumes "p11_wf P" "C_EncryptInit h (Some m) ke P = (CKR_OK, u, P1)"
    and "C_Encrypt h (Some d) (of_nat (length d)) True (Some cap) P1 = (CKR_OK, (Some (ct, tag), len), P2)"
    and "p11_wf R" "C_DecryptInit g (Some m) kd R = (CKR_OK, u', R1)"
    and "map_option ko_val (secret_at P ke) = map_option ko_val (secret_at R kd)"
    and "gcm_tags_ok (g_env P)" "g_env R = g_env P" "length d < 2 ^ 31"
  shows "\<exists>R2. len = Some (of_nat (length (ct @ tag))) \<and>
    C_Decrypt g (Some (ct @ tag)) (of_nat (length (ct @ tag))) True (Some (of_nat (length d))) R1 =
      (CKR_OK, (Some d, Some (of_nat (length d))), R2)"
proof -
  obtain s t k p where e: "sess_at P1 h = Some s" "g_tok P1 = Inr t" "g_env P1 = g_env P" "p11_wf P1"
    "secret_at P ke = Some k" "secret_at P1 ke = Some k" "me_gcm m = Some p" "gcm_by_keylen (length (ko_val k))"
    "ac_active (ps_enc s)" "ac_key (ps_enc s) = ke" "ac_iv (ps_enc s) = mem (gp_iv p) (unat (gp_iv_len p))"
    "ac_aad (ps_enc s) = mem (gp_aad p) (unat (gp_aad_len p))" "ac_taglen (ps_enc s) = gp_tag_bits p div 8"
    using encrypt_init_result[OF assms(2,1)] by blast
  obtain s' t' k' p' where r: "sess_at R1 g = Some s'" "g_tok R1 = Inr t'" "g_env R1 = g_env R" "p11_wf R1"
    "secret_at R kd = Some k'" "secret_at R1 kd = Some k'" "me_gcm m = Some p'" "gcm_by_keylen (length (ko_val k'))"
    "ac_active (ps_dec s')" "ac_key (ps_dec s') = kd" "ac_iv (ps_dec s') = mem (gp_iv p') (unat (gp_iv_len p'))"
    "ac_aad (ps_dec s') = mem (gp_aad p') (unat (gp_aad_len p'))" "ac_taglen (ps_dec s') = gp_tag_bits p' div 8"
    using decrypt_init_result[OF assms(5,4)] by blast
  have same: "p' = p" "ko_val k' = ko_val k" using e r assms(6) by simp_all
  define T where "T = ac_taglen (ps_enc s)"
  have T: "12 \<le> unat T" "unat T \<le> 16"
    using live_bufs(3)[OF wf_live_at[OF e(4,1)]] e(9) by (simp_all add: T_def aead_ok_def word_le_nat_alt)
  define n :: u64 where "n = of_nat (length d)"
  have n: "unat n = length d" unfolding n_def using assms(9) by (intro unat_u64) simp
  have int: "int_len n = int (length d)" unfolding n_def by (rule short_int[OF assms(9)])
  obtain tg where enc: "evp_gcm_encrypt (g_env P) (ko_val k) (ac_iv (ps_enc s)) (ac_aad (ps_enc s)) d = Some (ct, tg)"
    "tag = take (unat T) tg" "len = Some (n + T)"
    using assms(3) e
    by (auto simp: C_Encrypt_def in_session_def with_token_def Let_def aead_seal_def n_def[symmetric] int T_def
        split: if_splits option.splits prod.splits)
  have gcm: "length ct = length d" "length tg = 16"
    "evp_gcm_decrypt (g_env P) (ko_val k) (ac_iv (ps_enc s)) (ac_aad (ps_enc s)) ct (take (unat T) tg) = Some d"
    using assms(7) enc(1) T unfolding gcm_tags_ok_def by blast+
  have len: "length (ct @ tag) = length d + unat T" using gcm T enc(2) by simp
  then have lw: "(of_nat (length (ct @ tag)) :: u64) = n + T" by (simp add: n_def)
  have "unat (n + T) = length d + unat T" using n T assms(9) by (simp add: unat_word_ariths)
  then have le: "\<not> n + T < T" by (simp add: word_less_nat_alt)
  have sl: "slice (length d) (unat T) (ct @ tag) = tag" "take (length d) (ct @ tag) = ct"
    using gcm enc(2) T by (simp_all add: slice_def)
  have dec: "aead_open (g_env P) (ko_val k) (ps_dec s') (Some (ct @ tag)) (int (length d)) tag = Some d"
    using gcm(3) e r same enc(2) sl by (simp add: aead_open_def)
  have "\<exists>R2. C_Decrypt g (Some (ct @ tag)) (n + T) True (Some n) R1 = (CKR_OK, (Some d, Some n), R2)"
    using dec le r e same assms(8) n int sl
    by (simp add: C_Decrypt_def in_session_def with_token_def Let_def T_def[symmetric] opt_bytes_def)
  then show ?thesis using enc(3) lw by (simp add: n_def)
qed

section \<open>Starting\<close>

text \<open>
  A key store whose MAC is right and that, as long as the anchor file could be opened and read, is not behind
  the number in it.
\<close>

definition store_authentic :: "env \<Rightarrow> nat \<Rightarrow> bytes \<Rightarrow> world \<Rightarrow> bool" where
  "store_authentic E n path w \<longleftrightarrow> (\<exists>buf. files w path = Some buf \<and> ks_authentic E n buf \<and>
     ((\<forall>t. io E t 0 \<noteq> None) \<longrightarrow> anchor_value (files w (anchor_path (Some path))) \<le> ks_epoch buf))"

lemma fopen_core: "fopen_read E p w = (r, w') \<Longrightarrow> only_core w w'"
  by (auto simp: fopen_read_def sys_ok_def)

lemma init_token_result:
  assumes "init_token E path n w = (rv, r)"
  shows "case r of Inl w' \<Rightarrow> rv \<noteq> CKR_OK \<and> files w' = files w
    | Inr tok \<Rightarrow> rv = CKR_OK \<and> files tok = files w \<and> audit tok = None \<and>
        (store_authentic E (unat n) path w \<or> good_token tok \<and> (io_perfect E \<longrightarrow> files w path = None))"
proof -
  obtain nt w1 where new: "hsm_token_new E (unat n) w = (nt, w1)" by fastforce
  show ?thesis
  proof (cases nt)
    case None
    then show ?thesis using assms new new_token_files[OF new] by (auto simp: init_token_def)
  next
    case (Some t0)
    note b0 = new_token_besides[OF new[unfolded Some]]
    obtain st tp where l: "hsm_keystore_load E None (Some t0) (Some path) = (st, tp)" by fastforce
    obtain t1 where t1: "tp = Some t1" "besides t1 = besides t0" using load_besides[OF l] by auto
    obtain f t2 where f: "fopen_read E path t1 = (f, t2)" by fastforce
    have c: "only_core t1 t2" by (rule fopen_core[OF f])
    have b2: "besides t2 = besides t0" using besides_core[OF c] t1(2) by simp
    have r: "(rv, r) = (if st = HSM_OK then (CKR_OK, Inr t1)
        else case f of Some _ \<Rightarrow> (CKR_DEVICE_ERROR, Inl (world.truncate t2)) | None \<Rightarrow> (CKR_OK, Inr t2))"
      using assms new Some l t1(1) f by (cases f) (auto simp: init_token_def Let_def)
    have auth: "store_authentic E (unat n) path w" if "st = HSM_OK \<or> slots t1 \<noteq> slots t0"
    proof -
      have "length (slots t0) = unat n" using token_new_inv[OF new[unfolded Some]] by simp
      moreover have "files t0 = files w" using b0 by (simp add: besides_def)
      ultimately show ?thesis
        using load_authentic[OF l[unfolded t1(1)] anchor_frame_file that]
          load_not_behind[OF l[unfolded t1(1)] anchor_frame_file that] by (auto simp: store_authentic_def)
    qed
    show ?thesis
    proof (cases "st = HSM_OK")
      case True
      then show ?thesis using r auth t1(2) b0 by (auto simp: besides_def)
    next
      case st: False
      show ?thesis
      proof (cases f)
        case None
        have "good_token t2" if "slots t1 = slots t0"
        proof -
          have "sec t1 = sec t0" using that t1(2) by (simp add: sec_def besides_def)
          then show ?thesis using good_new[OF new[unfolded Some]] good_sec sec_only_core[OF c] by metis
        qed
        moreover have "files w path = None" if "io_perfect E"
          using f None b0 t1(2) that by (simp add: fopen_read_def sys_ok_perfect besides_def)
        moreover have "files t2 = files w" "audit t2 = None" using b2 b0 by (simp_all add: besides_def)
        ultimately show ?thesis using r st None auth by auto
      next
        case (Some x)
        then show ?thesis using r st b2 b0 by (auto simp: besides_def)
      qed
    qed
  qed
qed

lemma init_audit_result:
  assumes "init_audit E want tok = (rv, r)" "audit tok = None"
  shows "case r of Inl w' \<Rightarrow> rv \<noteq> CKR_OK \<and>
      (\<forall>q f. files tok q = Some f \<longrightarrow> (\<forall>a. want = Some a \<longrightarrow> tmp_of a \<noteq> q) \<longrightarrow> files w' q = Some f)
    | Inr t \<Rightarrow> rv = CKR_OK \<and> sec t = sec tok \<and> (want = None \<longleftrightarrow> audit t = None)"
proof (cases want)
  case (Some p)
  obtain l t1 where o: "audit_open E (Some p) tok = (l, t1)" by fastforce
  have "files t1 q = Some f" if "files tok q = Some f" "tmp_of p \<noteq> q" for q f
    using open_files[OF o, of q] that by auto
  moreover have "sec t1 = sec tok" using sec_more[OF open_more[OF o]] .
  ultimately show ?thesis
    using assms(1) Some o by (auto simp: init_audit_def hsm_token_attach_audit_def sec_def split: option.splits)
qed (use assms in \<open>auto simp: init_audit_def\<close>)

lemma init_kdr_production:
  assumes "init_kdr V E d = (True, E', d')" "production E"
  shows "\<exists>p. g_provider (kdr E') = Some (Ext_Provider p) \<and> kp_device_bound p \<and> \<not> kp_hardware_backed p"
  using assms
  by (auto simp: init_kdr_def pqc_kdr_install_stub_def pqc_kdr_install_device_dna_def pqc_kdr_provider_device_dna_def
      pqc_kdr_set_provider_def g_dna_def split: if_splits prod.splits option.splits)

lemma init_env_production:
  "init_rng V E = (ok, E') \<Longrightarrow> production E' = production E"
  "init_backend V E = (ok, E') \<Longrightarrow> production E' = production E"
  "init_kdr V E d = (ok, E', d') \<Longrightarrow> production E' = production E"
  by (auto simp: init_rng_def init_backend_def init_kdr_def Let_def split: if_splits prod.splits)


end
