(* ===== verification/Example_Proto.thy ===== *)
theory Example_Proto
  imports Proto_Props Example
begin

text \<open>
  Frames on the device of Example: a key is destroyed over the wire, and one is generated with a
  response buffer that has no room for its handle.
\<close>

lemma ex_sig_bounded: "sig_bounded ex_env"
proof -
  have "has_be ex_env be_sign_hw = None"
    by (simp add: has_be_def pqc_get_backend_def ex_backend_def)
  then show ?thesis by (auto simp: sig_bounded_def slot_signs_def ex_sig_len_def split: if_splits)
qed

definition ex_ctx :: "hsm_token \<Rightarrow> proto_ctx" where
  "ex_ctx tok = \<lparr>px_tok = Some tok, px_path = None\<rparr>"

lemma ex_ctx_tok [simp]: "px_tok (ex_ctx tok) = Some tok"
  by (simp add: ex_ctx_def)

definition ex_destroy_items :: "(u16 \<times> bytes) list" where
  "ex_destroy_items = [(TAG_SESSION, put_u64 ex_user), (TAG_HANDLE, put_u64 ex_h)]"

definition ex_generate_items :: "(u16 \<times> bytes) list" where
  "ex_generate_items = [(TAG_SESSION, put_u64 ex_user), (TAG_ALG, put_u32 (alg_code PQC_ALG_ML_DSA_44)),
     (TAG_USAGE, put_u32 KEY_USAGE_SIGN), (TAG_POLICY, put_u32 SLOT_POLICY_SEED_STORAGE)]"

definition ex_frame :: "byte \<Rightarrow> (u16 \<times> bytes) list \<Rightarrow> bytes" where
  "ex_frame cmd xs = proto_frame cmd 7 (tlv_payload xs)"

lemma ex_items [simp]:
  "items_fit ex_destroy_items" "length (tlv_payload ex_destroy_items) = 28"
  "items_fit ex_generate_items" "length (tlv_payload ex_generate_items) = 44"
  by (simp_all add: items_fit_def ex_destroy_items_def ex_generate_items_def tlv_payload_def)

lemma ex_frames [simp]:
  "proto_request (ex_frame cmd ex_destroy_items)" "ex_frame cmd ex_destroy_items ! 3 = cmd"
  "drop 12 (ex_frame cmd ex_destroy_items) = tlv_payload ex_destroy_items"
  "proto_request (ex_frame cmd ex_generate_items)" "ex_frame cmd ex_generate_items ! 3 = cmd"
  "drop 12 (ex_frame cmd ex_generate_items) = tlv_payload ex_generate_items"
  using proto_frame_parts[of "tlv_payload ex_destroy_items"] proto_frame_parts[of "tlv_payload ex_generate_items"]
  by (simp_all add: ex_frame_def)

lemma ex_finds [simp]:
  "tlv_find (tlv_payload ex_destroy_items) tag =
     (if tag = TAG_SESSION then Some (put_u64 ex_user) else if tag = TAG_HANDLE then Some (put_u64 ex_h) else None)"
  "tlv_find (tlv_payload ex_generate_items) tag =
     (if tag = TAG_SESSION then Some (put_u64 ex_user) else if tag = TAG_ALG then Some (put_u32 (alg_code PQC_ALG_ML_DSA_44))
      else if tag = TAG_USAGE then Some (put_u32 KEY_USAGE_SIGN)
      else if tag = TAG_POLICY then Some (put_u32 SLOT_POLICY_SEED_STORAGE) else None)"
  by (subst tlv_find_payload, simp, simp, simp add: ex_destroy_items_def ex_generate_items_def)+

lemma ex_destroy_op:
  "proto_op ex_env room CMD_DESTROY (tlv_payload ex_destroy_items) tok = Some (Destroy ex_user ex_h)"
  by (simp add: proto_op_def cmd_defs tlv_get_u64_def tag_defs le_get_le_bytes)

lemma ex_generate_op:
  "proto_op ex_env room CMD_GENERATE (tlv_payload ex_generate_items) tok =
     Some (Generate ex_user PQC_ALG_ML_DSA_44 KEY_USAGE_SIGN SLOT_POLICY_SEED_STORAGE True)"
  by (simp add: proto_op_def cmd_defs tlv_get_u64_def tlv_get_u32_def tag_defs le_get_le_bytes alg_of_def)

lemma tlv_find_exact_witness:
  "tlv_loop (tlv_payload ex_destroy_items) TAG_HANDLE 0 = Some (Some (put_u64 ex_h))"
  using tlv_find_exact[of "tlv_payload ex_destroy_items" TAG_HANDLE] by (simp add: tag_defs)

definition ex_dispatch :: "hsm_token \<Rightarrow> bytes \<Rightarrow> nat \<Rightarrow> proto_answer \<times> proto_ctx option" where
  "ex_dispatch tok req cap = pqc_proto_dispatch ex_env ex_hook None (-1) (Some (ex_ctx tok)) (Some req) (Some cap) True"

lemma ex_dispatch_eq:
  "pqc_proto_dispatch ex_env ex_hook None (-1) (Some (ex_ctx tok)) (Some req) (Some cap) True =
     (fst (ex_dispatch tok req cap), snd (ex_dispatch tok req cap))"
  by (simp add: ex_dispatch_def)

lemma proto_answers_witness:
  "fst (ex_dispatch ex_tok (ex_frame CMD_DESTROY ex_destroy_items) 64) \<noteq> Refused"
  using proto_answers[OF ex_dispatch_eq ex_ctx_tok ex_tok_inv ex_sig_bounded, of 64
      "ex_frame CMD_DESTROY ex_destroy_items"]
  by (simp add: PQC_PROTO_HDR_LEN_def)

lemma proto_one_call_witness:
  "snd (ex_dispatch ex_tok (ex_frame CMD_DESTROY ex_destroy_items) 64) =
     Some ((ex_ctx ex_tok)\<lparr>px_tok := Some (snd (hsm_object_destroy ex_env ex_hook ex_tok ex_user ex_h))\<rparr>)"
  using proto_one_call[OF ex_dispatch_eq ex_ctx_tok ex_tok_inv ex_sig_bounded, of 64
      "ex_frame CMD_DESTROY ex_destroy_items"]
  by (auto simp: stores_def ex_destroy_op) (auto simp: cmd_defs)

lemma proto_small_buffer_loses_handle_witness:
  "\<exists>resp. fst (ex_dispatch ex_empty_tok (ex_frame CMD_GENERATE ex_generate_items) 20) = Answer resp \<and>
     pqc_proto_resp_status (Some resp) = Some (ucast (status_code HSM_ERR_NOMEM), [])"
proof -
  obtain h tok' where g: "hsm_slot_generate ex_env ex_hook ex_empty_tok ex_user PQC_ALG_ML_DSA_44
      KEY_USAGE_SIGN SLOT_POLICY_SEED_STORAGE True = (HSM_OK, Some h, tok')"
    using ex_generates by blast
  then have x: "tok_exec ex_env ex_hook (Generate ex_user PQC_ALG_ML_DSA_44 KEY_USAGE_SIGN
      SLOT_POLICY_SEED_STORAGE True) ex_empty_tok = (HSM_OK, tok')"
    by simp
  show ?thesis
    using proto_small_buffer_loses_handle[OF ex_dispatch_eq ex_ctx_tok ex_empty_tok_inv ex_sig_bounded, of
        "ex_frame CMD_GENERATE ex_generate_items" 20 _ tok'] x
    by (auto simp: ex_generate_op simp del: tok_exec.simps)
qed

lemma proto_request_roundtrip_witness:
  "proto_request (ex_frame CMD_DESTROY ex_destroy_items) \<and>
   tlv_find (drop PQC_PROTO_HDR_LEN (ex_frame CMD_DESTROY ex_destroy_items)) TAG_HANDLE = Some (put_u64 ex_h)"
proof -
  have "pqc_proto_build_req CMD_DESTROY 7 (tlv_payload ex_destroy_items) (Some 100) True =
      Some (ex_frame CMD_DESTROY ex_destroy_items)"
    by (simp add: pqc_proto_build_req_def ex_frame_def PQC_PROTO_MAX_PAYLOAD_def PQC_PROTO_HDR_LEN_def)
  then show ?thesis
    using proto_request_roundtrip[OF _ ex_items(1)] by (auto simp: ex_destroy_items_def tag_defs)
qed

end
