(* ===== verification/Example_Daemon.thy ===== *)
theory Example_Daemon
  imports Daemon_Props Example_Proto Example_Backup
begin

text \<open>
  The daemon on the device of Example: a key store at the path a, a request that destroys the key of
  slot 0, a power cut after the answer, and a second start on the files it left.
\<close>

section \<open>Saving succeeds\<close>

lemma ks_write_all_perfect:
  "io_perfect E \<Longrightarrow> crash < 0 \<Longrightarrow> fst (ks_write_all E crash fd bs off count w) = Some True"
proof (induction bs arbitrary: off count w)
  case (Cons b bs)
  obtain w1 where "io_pwrite E fd b off w = (True, w1)"
    using io_pwrite_perfect[OF Cons.prems(1), of fd b off w] by (metis prod.collapse)
  then show ?case using Cons by (simp add: ks_write_def)
qed simp

lemma ks_store_perfect:
  assumes "io_perfect E" "alloc_total E" "crash < 0"
  shows "fst (ks_store E crash path n body tag w) = Some HSM_OK"
proof -
  let ?bs = "take KS_HDR_LEN body # split_records n (drop KS_HDR_LEN body) @ [tag]"
    and ?w1 = "set_file (tmp_of path) (Some []) (next_tick (next_tick w))"
  obtain w2 where "ks_write_all E crash (tmp_of path) ?bs 0 0 ?w1 = (Some True, w2)"
    using ks_write_all_perfect[OF assms(1,3), of "tmp_of path" ?bs 0 0 ?w1] by (metis prod.collapse)
  then show ?thesis
    using assms unfolding ks_store_def Let_def by (simp add: sys_ok_perfect alloc_total_def)
qed

definition ex_good :: "slot list \<Rightarrow> bool" where
  "ex_good sl \<longleftrightarrow> length sl \<le> 4096 \<and>
     (\<forall>i < length sl. storable (of_nat i) (sl ! i) \<and> slot_check_integrity ex_env (sl ! i) = HSM_OK)"

lemma ex_serialize_all:
  assumes "length kek = 32" "\<forall>i\<in>set is. i < length (slots tok)" "ex_good (slots tok)"
  shows "\<exists>recs tok'. serialize_all ex_env kek is tok = (Inr recs, tok')"
  using assms
proof (induction "is" arbitrary: tok)
  case (Cons i "is")
  have i: "i < length (slots tok)" "length (slots tok) \<le> 4096" "slot_inv (of_nat i) (slots tok ! i)"
    "slot_check_integrity ex_env (slots tok ! i) = HSM_OK"
    using Cons.prems by (simp_all add: ex_good_def storable_def)
  obtain blob tok1 where "slot_serialize_locked ex_env (slots tok ! i) (Some kek) (length kek)
      (Some hsm_slot_blob_max) True tok = (Inr blob, tok1)"
    using ex_serialize[OF i(3) assms(1)] by blast
  then have b: "hsm_slot_serialize ex_env tok (of_nat i) (Some kek) PQC_KEK_LEN (Some hsm_slot_blob_max) True =
      (Inr blob, tok1)"
    using i(4) slot_index(2)[OF i(2,1)] by (simp add: hsm_slot_serialize_def PQC_KEK_LEN_def assms(1))
  have "slots tok1 = slots tok" using slots_core[OF serialize_core[OF b]] .
  then obtain recs tok2 where "serialize_all ex_env kek is tok1 = (Inr recs, tok2)"
    using Cons.IH[of tok1] Cons.prems by auto
  then show ?case by (simp add: b)
qed simp

lemma ex_saves:
  assumes "ex_good (slots tok)"
  shows "\<exists>tok'. hsm_keystore_save ex_env None (-1) (Some tok) (Some path) = (Some HSM_OK, Some tok')"
proof -
  let ?n = "length (slots tok)" and ?salt = "replicate 16 (7 :: byte)"
  have r1: "pqc_random_bytes ex_env (Some (replicate KS_SALT_LEN 0)) tok = (True, ?salt, next_tick tok)"
    by (simp add: ks_consts INT_MAX_def)
  define t2 where "t2 = next_tick (next_tick (next_tick tok))"
  have k: "pqc_kek_derive ex_env ?salt = Some (ex_subkey ?salt 32)"
    "derive_file_key ex_env ?salt = Some (ex_subkey ?salt 32)"
    by (simp_all add: pqc_kek_derive_def derive_file_key_def ex_derive c_string_def cstr_def PQC_KEK_LEN_def)
  obtain seen t3 where fr: "file_read ex_env (Some path) t2 = (Some seen, t3)"
    using file_read_perfect[OF ex_io, of "Some path" t2] by blast
  have rd: "pqc_rbanchor_read ex_env None (Some path) True t2 = (Some seen, t3)" "slots t3 = slots tok"
    using fr more_parts(1)[OF more_file_read[OF fr]]
    by (simp_all add: pqc_rbanchor_read_def pqc_rbanchor_get_provider_def g_file_def t2_def next_tick_def)
  obtain recs t4 where s: "serialize_all ex_env (ex_subkey ?salt 32) [0..<?n] t3 = (Inr recs, t4)"
    using ex_serialize_all[of "ex_subkey ?salt 32" "[0..<?n]" t3] rd(2) assms by (auto simp: ex_subkey_def)
  obtain tag where tag: "kmac ex_env (ex_subkey ?salt 32) (ks_header ?n ?salt (seen + 1) @ recs)
      ''pqc-hsm/keystore'' KS_TAG_LEN = Some tag"
    by (rule that[OF ex_kmac]) (simp_all add: ex_subkey_nonempty ks_consts)
  obtain t5 where st: "ks_store ex_env (-1) path ?n (ks_header ?n ?salt (seen + 1) @ recs) tag t4 = (Some HSM_OK, t5)"
    using ks_store_perfect[OF ex_io ex_alloc_total, of "-1" path ?n "ks_header ?n ?salt (seen + 1) @ recs" tag t4]
    by (metis prod.collapse neg_less_0_iff_less zero_less_one)
  obtain got t6 where b: "pqc_rbanchor_bump ex_env None (Some path) t5 = (got, t6)" by fastforce
  have a: "pqc_secure_alloc ex_env hsm_slot_blob_max (next_tick (next_tick tok)) = (Some (replicate hsm_slot_blob_max 0), t2)"
    using blob_max(1) by (simp add: t2_def SLOT_META_WIRE_LEN_def)
  show ?thesis
    unfolding hsm_keystore_save_def keystore_save_impl_def option.case prod.case Let_def r1 k a rd(1) s sum.case tag st b
    by (simp add: ks_audit_def)
qed

section \<open>Back from the files\<close>

lemma ex_keepable [simp]: "keepable (ex_seal s) = keepable s"
  by (simp add: ex_seal_def)

lemma ex_tok_storable:
  "storable 0 (ex_seal ex_key_slot)" "storable 1 (ex_seal (blank_slot 1))"
  using ex_key_inv ex_blank_inv by (simp_all add: storable_def blank_slot_def blank_meta_def)

lemma ex_good_tok: "ex_good [ex_seal ex_key_slot, ex_seal (blank_slot 1)]"
  using ex_tok_storable by (simp add: ex_good_def numeral_2_eq_2 All_less_Suc)

lemma ex_path [simp]: "c_strlen [97] = 1" "c_string [97] = [97]"
  by (simp_all add: c_strlen_def c_string_def)

text \<open>A save that is cut off at its second write, and the file as it then is.\<close>

lemma save_atomic_witness:
  "\<exists>r tok'. hsm_keystore_save ex_env None 2 (Some ex_tok) (Some [97]) = (r, Some tok') \<and>
     (files tok' [97] = files ex_tok [97] \<or>
        (\<exists>epoch f. files tok' [97] = Some f \<and> ks_holds ex_env (slots ex_tok) epoch f)) \<and>
     files tok' [98] = files ex_tok [98]"
proof -
  obtain r tp where r: "hsm_keystore_save ex_env None 2 (Some ex_tok) (Some [97]) = (r, tp)" by fastforce
  obtain tok' where t: "tp = Some tok'" using keystore_calls_sec(1)[OF r rb_frame_file] by blast
  have l: "labels_ok ex_tok" "length (slots ex_tok) \<le> 4096" "log_fd ex_tok = None"
    using ex_good_tok
    by (auto simp: labels_ok_def ex_good_def storable_def slot_inv_def wf_meta_def in_set_conv_nth log_fd_def)
  have p: "anchor_path (Some [97]) = [97] @ cstr ''.epoch''" "anchor_tmp (Some [97]) = [97] @ cstr ''.epoch.tmp''"
    "tmp_of [97] = [97] @ cstr ''.tmp''"
    by (simp_all add: anchor_path_def anchor_tmp_def tmp_of_def cstr_def c_string_def)
  show ?thesis
    using save_atomic[OF r[unfolded t] l(2,1)] r t l(3) by (simp add: p cstr_def)
qed

lemma keystore_roundtrip_witness:
  "\<exists>tok' dev'. hsm_keystore_save ex_env None (-1) (Some ex_tok) (Some [97]) = (Some HSM_OK, Some tok') \<and>
     hsm_keystore_load ex_env None (Some (ex_tok\<lparr>slots := [blank_slot 0, blank_slot 1], files := files tok'\<rparr>))
       (Some [97]) = (HSM_OK, Some dev') \<and>
     restored_copy ex_env (ex_seal ex_key_slot) (slots dev' ! 0)"
proof -
  obtain tok' where s: "hsm_keystore_save ex_env None (-1) (Some ex_tok) (Some [97]) = (Some HSM_OK, Some tok')"
    using ex_saves[of ex_tok "[97]"] ex_good_tok by auto
  define dev where "dev = ex_tok\<lparr>slots := [blank_slot 0, blank_slot 1], files := files tok'\<rparr>"
  have d: "names_ok (slots dev)" "length (slots dev) = 2" "files dev = files tok'"
    using ex_dev_names by (simp_all add: dev_def)
  obtain st tp where l: "hsm_keystore_load ex_env None (Some dev) (Some [97]) = (st, tp)" by fastforce
  obtain dev' where dev': "tp = Some dev'" using load_besides[OF l] by blast
  have "st = HSM_OK \<and> restored_copy ex_env (slots ex_tok ! 0) (slots dev' ! 0)"
    using keystore_roundtrip[OF s _ _ _ _ _ ex_gcm ex_seal_total ex_alloc_total ex_io d(1), of st dev'] d l dev'
      ex_tok_storable
    by (simp add: numeral_2_eq_2 All_less_Suc)
  then show ?thesis using s l dev' by (simp add: dev_def)
qed

section \<open>The daemon\<close>

definition ex_mmio :: secmmio where
  "ex_mmio = \<lparr>sm_open = True, sm_arm = True, sm_rd = (\<lambda>a. Some 5)\<rparr>"

lemma dna_root_genuine_witness:
  "\<exists>d k. pqc_kdr_install_device_dna ex_env ex_mmio dna_start kdr_start = (True, d, k) \<and>
     \<not> fst (pqc_profile_startup_check True k)"
proof -
  let ?raw = "concat (map (\<lambda>v. rev (put_u32 v)) [5, 5, 5, 5])"
  have w: "dna_words (\<lambda>a. Some 5) DNA_LO = Some ?raw"
    by (simp add: DNA_LO_def DNA_HI_def dna_words.simps[of _ "0xFFCA0050"] dna_words.simps[of _ "0xFFCA0054"]
        dna_words.simps[of _ "0xFFCA0058"] dna_words.simps[of _ "0xFFCA005C"] dna_words.simps[of _ "0xFFCA0060"])
  have r: "read_dna_local ex_mmio = Some ?raw" by (simp add: read_dna_local_def ex_mmio_def w)
  have pl: "dna_plausible ?raw" by (simp add: dna_plausible_def le_bytes_def upt_rec)
  have "?raw \<noteq> []" by (simp add: le_bytes_def upt_rec)
  then have "fst (set_root_from_dna ex_env (Some ?raw) (length ?raw) dna_start)"
    unfolding set_root_exact using pl by (simp add: pqc_kdf_def pqc_kmac256_def PQC_KDR_LEN_def c_string_def cstr_def)
  then have i: "fst (pqc_kdr_install_device_dna ex_env ex_mmio dna_start kdr_start)"
    by (simp add: pqc_kdr_install_device_dna_def pqc_kdr_provider_device_dna_def r dna_start_def split: prod.split)
      (metis fst_conv)
  then obtain d k where k: "pqc_kdr_install_device_dna ex_env ex_mmio dna_start kdr_start = (True, d, k)"
    by (metis prod_cases3 fst_conv)
  show ?thesis using k dna_root_genuine[OF _ k, of "[]" kdr_start] by auto
qed

lemma ex_good_token: "good_token (ex_tok\<lparr>persist_fn := p\<rparr>)"
  using ex_tok_inv
  by (simp add: good_token_def tok_inv_def dev_keepable_def keepable_def ex_key_slot_def ex_meta_def blank_slot_def
      blank_meta_def)


definition ex_opts :: daemon_opts where
  "ex_opts = daemon_defaults\<lparr>do_slots := 2, do_ks := Some [97], do_audit := Some (cstr ''off'')\<rparr>"

lemma ex_opts_simps [simp]:
  "do_slots ex_opts = 2" "do_ks ex_opts = Some [97]" "audit_want (do_audit ex_opts) ks = None"
  by (simp_all add: ex_opts_def audit_want_def cstr_def c_string_def)

lemma ex_boot_root: "boot_root ex_env M None = Some ex_kdr"
  by (simp add: boot_root_def pqc_kdr_install_stub_def kdr_start_def ex_kdr_def pqc_profile_startup_check_def
      pqc_kdr_get_provider_def)

lemma ex_starts:
  assumes "hsm_token_new ex_env 2 w = (Some tok, w1)" "boot_keystore ex_env (Some [97]) tok = (True, t1)"
  shows "\<exists>tok2. daemon_start ex_env M None ex_opts w = Inr (ex_env, tok2)"
proof -
  have e: "ex_env\<lparr>kdr := ex_kdr\<rparr> = ex_env" by (simp add: ex_env_def)
  show ?thesis
    unfolding daemon_start_def ex_boot_root option.case Let_def e
    by (simp add: assms boot_audit_def boot_server_def sys_ok_perfect[OF ex_io] Let_def)
qed

lemma ex_new: "\<exists>tok w1. hsm_token_new ex_env 2 w = (Some tok, w1) \<and> files tok = files w"
  by (auto simp: hsm_token_new_def numeral_2_eq_2 Let_def world.extend_def next_tick_def)

lemma daemon_fail_closed_witness:
  "\<exists>tok. daemon_start ex_env ex_mmio None ex_opts ex_world = Inr (ex_env, tok) \<and> \<not> persist_busy tok \<and> audit tok = None"
proof -
  obtain tok w1 where n: "hsm_token_new ex_env 2 ex_world = (Some tok, w1)" "files tok = Map.empty"
    using ex_new[of ex_world] by (auto simp: ex_world_def)
  then obtain t1 where "boot_keystore ex_env (Some [97]) tok = (True, t1)"
    by (simp add: boot_keystore_def sys_ok_perfect[OF ex_io])
  then obtain tok2 where "daemon_start ex_env ex_mmio None ex_opts ex_world = Inr (ex_env, tok2)"
    using ex_starts n(1) by blast
  then show ?thesis using daemon_fail_closed[where E = ex_env and M = ex_mmio and kdr_env = None and po = ex_opts and w = ex_world] by auto
qed

section \<open>A power cut\<close>

definition ex_dtok :: hsm_token where
  "ex_dtok = ex_tok\<lparr>persist_fn := Some [97]\<rparr>"

definition ex_destroyed :: slot where
  "ex_destroyed = snd (destroy_locked ex_env (ex_seal ex_key_slot) ex_h)"

lemma ex_dtok_simps [simp]:
  "slots ex_dtok = slots ex_tok" "persist_fn ex_dtok = Some [97]" "\<not> persist_busy ex_dtok" "audit ex_dtok = None"
  "session_info ex_dtok s = session_info ex_tok s" "slot_at ex_dtok i = slot_at ex_tok i"
  by (simp_all add: ex_dtok_def session_info_def slot_at_def)

lemma ex_dtok_good: "good_token ex_dtok"
  unfolding ex_dtok_def by (rule ex_good_token)

text \<open>The request, and the save before its answer.\<close>

definition ex_req :: bytes where
  "ex_req = ex_frame CMD_DESTROY ex_destroy_items"

lemma ex_destroy_locked: "destroy_locked ex_env (ex_seal ex_key_slot) ex_h = (HSM_OK, ex_destroyed)"
  by (simp add: ex_destroyed_def destroy_locked_def fsm_apply_simps)

lemma ex_destroyed_good: "ex_good [ex_destroyed, ex_seal (blank_slot 1)]"
proof -
  let ?t = "set_slot 0 ex_destroyed ex_dtok"
  have "tok_exec ex_env ex_hook (Destroy ex_user ex_h) ex_dtok = (HSM_OK, ?t)"
    by (simp add: hsm_object_destroy_def require_role_def ex_destroy_locked)
  then have "dev_step ex_env (Destroy ex_user ex_h) HSM_OK (dev_of ex_dtok) (dev_of ?t)"
    using tok_exec_step[OF _ ex_seal_total ex_hook_ok, of ex_dtok "Destroy ex_user ex_h"] ex_dtok_good
    by (simp add: good_token_def del: tok_exec.simps)
  then have g: "good_token ?t"
    using moved_good[OF moved_step ex_dtok_good ex_seal_total, of _ _ ?t] by blast
  have s: "storable 0 ex_destroyed" using good_storable[OF g, of 0] by simp
  have "slot_check_integrity ex_env ex_destroyed = HSM_OK"
    by (simp add: ex_destroyed_def destroy_locked_def fsm_apply_simps)
  then show ?thesis using s ex_tok_storable by (simp add: ex_good_def numeral_2_eq_2 All_less_Suc)
qed

lemma ex_confirmed:
  "\<exists>s s1. hsm_keystore_save ex_env None (-1) (Some s) (Some [97]) = (Some HSM_OK, Some s1) \<and>
     slots s = [ex_destroyed, ex_seal (blank_slot 1)] \<and> audit s = None \<and> slots s1 = slots s \<and>
     hsm_object_destroy ex_env (persist_keystore ex_env) ex_dtok ex_user ex_h = (HSM_OK, s1\<lparr>persist_busy := False\<rparr>)"
proof -
  define s where "s = (set_slot 0 ex_destroyed ex_dtok)\<lparr>persist_busy := True\<rparr>"
  have sl: "slots s = [ex_destroyed, ex_seal (blank_slot 1)]" "audit s = None"
    by (simp_all add: s_def set_slot_def)
  obtain s1 where v: "hsm_keystore_save ex_env None (-1) (Some s) (Some [97]) = (Some HSM_OK, Some s1)"
    using ex_saves[of s "[97]"] ex_destroyed_good by (auto simp: sl(1))
  then have h: "persist_keystore ex_env [97] s = (True, s1)" by (simp add: persist_keystore_def)
  have lab: "labels_ok s"
    using ex_destroyed_good
    by (auto simp: labels_ok_def sl(1)[symmetric] ex_good_def storable_def slot_inv_def wf_meta_def in_set_conv_nth)
  have n: "length (slots s) \<le> 4096" by (simp add: sl(1))
  have a: "audit s1 = None"
    using save_holds[OF v[unfolded hsm_keystore_save_def] n lab _ _ ex_io] sl(2) by auto
  have "commit_security_state (persist_keystore ex_env) HSM_OK (set_slot 0 ex_destroyed ex_dtok) =
      (HSM_OK, s1\<lparr>persist_busy := False\<rparr>)"
    using h by (simp add: commit_security_state_def slot_persist_def s_def set_slot_def)
  then have "hsm_object_destroy ex_env (persist_keystore ex_env) ex_dtok ex_user ex_h =
      (HSM_OK, s1\<lparr>persist_busy := False\<rparr>)"
    by (simp add: hsm_object_destroy_def require_role_def ex_destroy_locked a)
  moreover have "sec (snd (persist_keystore ex_env [97] s)) = sec s"
    using persist_hook_ok[of ex_env] unfolding hook_ok_def by blast
  then have "slots s1 = slots s" by (simp add: h sec_def)
  ultimately show ?thesis using v sl by blast
qed

lemma ex_answer:
  assumes "hsm_object_destroy ex_env (persist_keystore ex_env) ex_dtok ex_user ex_h = (HSM_OK, tok')"
  shows "\<exists>resp items. conn_request ex_env (Some [97]) ex_req ex_dtok =
      (Answer resp, Some \<lparr>px_tok = Some tok', px_path = Some [97]\<rparr>) \<and>
      pqc_proto_resp_status (Some resp) = Some (ucast (status_code HSM_OK), items)"
proof -
  obtain a ctx where d: "pqc_proto_dispatch ex_env (persist_keystore ex_env) None (-1)
      (Some \<lparr>px_tok = Some ex_dtok, px_path = Some [97]\<rparr>) (Some ex_req) (Some RESP_CAP) True = (a, ctx)"
    by fastforce
  have c: "proto_command ex_env (persist_keystore ex_env) None (-1) (Some [97]) (ex_req ! 3) (drop 12 ex_req)
      (tlv_init (RESP_CAP - 14)) ex_dtok = Inr (HSM_OK, tlv_init (RESP_CAP - 14), tok')"
    using assms
    by (simp add: ex_req_def proto_command_def cmd_destroy_def cmd_defs tlv_get_u64_def tag_defs le_get_le_bytes)
  show ?thesis
    using dispatch_answer[OF _ _ _ _ _ ex_sig_bounded d] ex_dtok_good c d
    by (auto simp: conn_request_def good_token_def RESP_CAP_def tlv_init_def ex_req_def)
qed


end
