(* ===== verification/Example_P11.thy ===== *)
theory Example_P11
  imports P11_Props Example_Daemon
begin

text \<open>
  Witnesses for the PKCS\#11 front-end: the device of theory Example under the module, with a session of
  its user and one session key object.
\<close>

definition ex_p_sess :: p11_session where
  "ex_p_sess = blank_p11_session\<lparr>ps_in_use := True, ps_sess := ex_user, sign_active := True, sign_key := 0x1001\<rparr>"

definition ex_p_key :: p11_secret where
  "ex_p_key = blank_secret\<lparr>ko_in_use := True, ko_owner := 1, ko_val := replicate 16 5,
     ko_key_type := CKK_GENERIC_SECRET, ko_sensitive := True\<rparr>"

definition ex_p11_of :: "env \<Rightarrow> p11" where
  "ex_p11_of E = (p11_start E ex_world)
     \<lparr>g_tok := Inr ex_tok, g_sessions := (replicate 32 blank_p11_session)[0 := ex_p_sess],
      g_secrets := (replicate 32 blank_secret)[0 := ex_p_key]\<rparr>"

definition ex_p11 :: p11 where "ex_p11 = ex_p11_of ex_env"

lemma ex_p11_simps [simp]:
  "g_env (ex_p11_of E) = E" "g_tok (ex_p11_of E) = Inr ex_tok" "g_n_slots (ex_p11_of E) = 4"
  "g_sessions (ex_p11_of E) = (replicate 32 blank_p11_session)[0 := ex_p_sess]"
  "g_secrets (ex_p11_of E) = (replicate 32 blank_secret)[0 := ex_p_key]" "g_ks_path (ex_p11_of E) = []"
  by (simp_all add: ex_p11_of_def p11_start_def DEFAULT_SLOTS_def)

lemma ex_p_sess_simps [simp]:
  "ps_in_use ex_p_sess" "ps_sess ex_p_sess = ex_user" "sign_active ex_p_sess" "sign_key ex_p_sess = 0x1001"
  "ps_slot ex_p_sess = 0" "ps_found ex_p_sess = []" "found_pos ex_p_sess = 0" "sign_acc ex_p_sess = buf_free"
  "verify_acc ex_p_sess = buf_free" "ps_enc ex_p_sess = aead_ctx_reset" "ps_dec ex_p_sess = aead_ctx_reset"
  by (simp_all add: ex_p_sess_def blank_p11_session_def)

lemma ex_p_key_simps [simp]:
  "ko_in_use ex_p_key" "ko_owner ex_p_key = 1" "ko_val ex_p_key = replicate 16 5" "ko_sensitive ex_p_key"
  "ko_key_type ex_p_key = CKK_GENERIC_SECRET" "length (ko_label ex_p_key) = 32"
  by (simp_all add: ex_p_key_def blank_secret_def)

lemma ex_p11_wf: "p11_wf (ex_p11_of E)"
proof -
  have "owned (g_sessions (ex_p11_of E)) ex_p_key" unfolding owned_def by (intro impI exI[of _ 0]) simp
  moreover have "secret_ok ex_p_key" by (simp add: secret_ok_def SECRET_MAX_LEN_def)
  moreover have "sess_ok 4 ex_p_sess" by (simp add: sess_ok_def)
  ultimately show ?thesis by (auto simp: p11_wf_def dest!: in_set_update)
qed

lemma ex_p_at [simp]: "sess_at (ex_p11_of E) 1 = Some ex_p_sess"
  by (simp add: sess_at_def)

lemma ex_p_meta: "get_meta ex_p11 ex_tok 0 = Some ex_meta"
  by (simp add: get_meta_def hsm_slot_get_meta_def ex_p11_def ex_key_slot_def)

text \<open>The handle of generation 1, one of an older key, and one that has come round.\<close>

lemma core_handle_exact_witness:
  "core_handle_of ex_p11 ex_tok (p11_handle_of_core (issued 0 1)) = issued 0 1 \<and>
   core_handle_of ex_p11 ex_tok (p11_handle_of_core (issued 0 0)) = 0 \<and>
   core_handle_of ex_p11 ex_tok (p11_handle_of_core (issued 0 0x40001)) = issued 0 1"
proof -
  have m: "get_meta ex_p11 ex_tok (of_nat 0) = Some ex_meta" "m_generation ex_meta = 1"
    using ex_p_meta by (simp_all add: ex_meta_def blank_meta_def)
  show ?thesis
    using core_handle_exact[OF _ m(1), where g = 1] core_handle_exact[OF _ m(1), where g = 0] core_handle_exact[OF _ m(1), where g = "0x40001"]
    by (simp add: m(2))
qed


lemma p11_tables_typed_witness:
  "\<exists>P. p11_run [CloseSession 1, SignUpdate 1 None 5] (p11_start ex_env ex_world) = Some P \<and> p11_wf P"
proof -
  have "\<exists>P. p11_run [CloseSession 1, SignUpdate 1 None 5] (p11_start ex_env ex_world) = Some P"
    by (simp add: drop_out_def returned_def C_CloseSession_def in_session_def with_token_def C_SignUpdate_def p11_start_def)
  then obtain P where r: "p11_run [CloseSession 1, SignUpdate 1 None 5] (p11_start ex_env ex_world) = Some P" by blast
  show ?thesis using r p11_tables_typed[OF r] by simp
qed

definition ex_ask :: "ck_attr list" where
  "ex_ask = [\<lparr>at_type = CKA_VALUE, at_value = None, at_len = 0\<rparr>]"

lemma value_never_read_witness:
  "\<exists>rv out Q Q'. C_GetAttributeValue 1 0x40000001 (Some ex_ask) ex_p11 = (rv, out, Q) \<and>
     C_GetAttributeValue 1 0x40000001 (Some ex_ask) (set_secret 0 (revalue (replicate 16 6)) ex_p11) = (rv, out, Q')"
proof -
  obtain rv out Q where a: "C_GetAttributeValue 1 0x40000001 (Some ex_ask) ex_p11 = (rv, out, Q)" by (metis prod_cases3)
  obtain rv' out' Q' where b: "C_GetAttributeValue 1 0x40000001 (Some ex_ask)
      (set_secret 0 (revalue (replicate 16 6)) ex_p11) = (rv', out', Q')" by (metis prod_cases3)
  have h: "0 < length (g_secrets ex_p11)" "length (replicate 16 6) = length (ko_val (g_secrets ex_p11 ! 0))"
    "\<not> ko_extractable (g_secrets ex_p11 ! 0) \<or> ko_sensitive (g_secrets ex_p11 ! 0)"
    by (simp_all add: ex_p11_def)
  show ?thesis using value_never_read[where h = 1 and ob = "0x40000001" and t = "Some ex_ask", OF h, THEN conjunct1] a b by simp
qed

text \<open>Two parts, and then one more for another key.\<close>

lemma ex_first_part:
  "buf_append ex_env buf_free (Some [x]) 1 w = Inr (True, \<lparr>bf_data = [x], bf_cap = 256\<rparr>, next_tick w)"
  by (simp add: buf_append_def buf_copy_def buf_free_def grow_step[of 256 1])

lemma ex_next_part:
  "length x + length d \<le> 256 \<Longrightarrow> buf_append E \<lparr>bf_data = x, bf_cap = 256\<rparr> (Some d) (of_nat (length d)) w =
     Inr (True, \<lparr>bf_data = x @ d, bf_cap = 256\<rparr>, w)"
proof (cases "d = []")
  case False
  assume l: "length x + length d \<le> 256"
  have "unat (of_nat (length d) :: u64) = length d" using l by (intro unat_u64) simp
  moreover have "unat (of_nat (length x + length d) :: u64) = length x + length d" using l by (intro unat_u64) simp
  then have "\<not> (256 :: u64) < of_nat (length x) + of_nat (length d)" using l by (simp add: word_less_nat_alt)
  moreover have "(of_nat (length d) :: u64) \<noteq> 0" using False \<open>unat _ = length d\<close> by (metis length_0_conv unat_0)
  ultimately show ?thesis using l by (simp add: buf_append_def buf_copy_def)
qed simp

definition ex_p11_part :: p11 where
  "ex_p11_part = set_sess 1 (ex_p_sess\<lparr>sign_acc := \<lparr>bf_data = [1], bf_cap = 256\<rparr>\<rparr>) (set_tok (next_tick ex_tok) ex_p11)"

lemma ex_part_1: "C_SignUpdate 1 (Some [1]) (of_nat (length [1 :: byte])) ex_p11 = Inr (CKR_OK, (), ex_p11_part)"
  using ex_first_part[of 1 ex_tok] by (simp add: C_SignUpdate_def ex_p11_def ex_p11_part_def)

lemma ex_part_session:
  "sess_at ex_p11_part 1 = Some (ex_p_sess\<lparr>sign_acc := \<lparr>bf_data = [1], bf_cap = 256\<rparr>\<rparr>)"
  "g_tok ex_p11_part = Inr (next_tick ex_tok)" "p11_wf ex_p11_part"
proof -
  show "sess_at ex_p11_part 1 = Some (ex_p_sess\<lparr>sign_acc := \<lparr>bf_data = [1], bf_cap = 256\<rparr>\<rparr>)"
    unfolding ex_p11_part_def ex_p11_def by (rule sess_at_set(2)[OF ex_p11_wf ex_p_at]) simp
  show "g_tok ex_p11_part = Inr (next_tick ex_tok)" by (simp add: ex_p11_part_def set_sess_def set_tok_def)
  show "p11_wf ex_p11_part"
    using wf_updates(1)[OF ex_p11_wf ex_part_1[unfolded ex_p11_def]] by (simp add: ex_p11_def)
qed

text \<open>After one byte: a second one, one that makes the sum of the lengths wrap, and one in between.\<close>

lemma update_terminates_witness:
  "(\<exists>r. C_SignUpdate 1 (Some [2]) 1 ex_p11_part = Inr r) \<and>
   C_SignUpdate 1 (Some [2]) (- 1) ex_p11_part = Inl Out_Of_Bounds \<and>
   C_SignUpdate 1 (Some [2]) (2 ^ 63) ex_p11_part = Inl Never_Ends"
proof -
  have m: "unat (- 1 :: u64) = 2 ^ 64 - 1" "unat (2 ^ 63 :: u64) = 2 ^ 63"
    using unat_pow[of 63] by (simp_all add: unsigned_minus_1_eq_mask mask_eq_exp_minus_1)
  note u = update_terminates[OF ex_part_session(3), where h = 1 and d = "Some [2]"]
  have "C_SignUpdate 1 (Some [2]) 1 ex_p11_part \<noteq> Inl f" for f
    using u[where n = 1] by (cases f) (simp_all add: ex_part_session)
  then have "\<exists>r. C_SignUpdate 1 (Some [2]) 1 ex_p11_part = Inr r"
    by (cases "C_SignUpdate 1 (Some [2]) 1 ex_p11_part") auto
  moreover have "C_SignUpdate 1 (Some [2]) (- 1) ex_p11_part = Inl Out_Of_Bounds"
    using u[where n = "- 1"] by (simp add: ex_part_session m)
  moreover have "C_SignUpdate 1 (Some [2]) (2 ^ 63) ex_p11_part = Inl Never_Ends"
    using u[where n = "2 ^ 63"] by (simp add: ex_part_session m)
  ultimately show ?thesis by blast
qed

lemma ex_update:
  assumes "sess_at P 1 = Some s" "g_tok P = Inr tok" "sign_active s" "sign_acc s = \<lparr>bf_data = x, bf_cap = 256\<rparr>"
    and "length x + length d \<le> 256"
  shows "\<exists>P'. C_SignUpdate 1 (Some d) (of_nat (length d)) P = Inr (CKR_OK, (), P')"
  using assms by (simp add: C_SignUpdate_def ex_next_part)

lemma multipart_is_oneshot_witness:
  "\<exists>Q s'. sign_parts 1 [[1], [2, 3]] ex_p11 = Some Q \<and> sess_at Q 1 = Some s' \<and> bf_data (sign_acc s') = [1, 2, 3]"
proof -
  obtain Q where "C_SignUpdate 1 (Some [2, 3]) (of_nat (length [2 :: byte, 3])) ex_p11_part = Inr (CKR_OK, (), Q)"
    using ex_update[OF ex_part_session(1,2), of "[1]" "[2, 3]"] by auto
  then have r: "sign_parts 1 [[1], [2, 3]] ex_p11 = Some Q" using ex_part_1 by simp
  show ?thesis
    using r multipart_is_oneshot[OF r, of ex_p_sess True None] ex_p11_wf by (auto simp: ex_p11_def buf_free_def)
qed

text \<open>A part, a signature in one call, and a part for another key.\<close>

lemma stale_part_signed_witness:
  "\<exists>P4 s'. C_SignUpdate 1 (Some [9]) 1 (after (C_SignInit 1 (Some CKM_ML_DSA) 0x2001
       (after (C_Sign 1 (Some [1, 2]) 2 True (Some 2420) ex_p11_part)))) = Inr (CKR_OK, (), P4) \<and>
     sess_at P4 1 = Some s' \<and> bf_data (sign_acc s') = [1, 9] \<and> sign_key s' = 0x2001 \<and>
     fst (C_SignFinal 1 True (Some 2420) P4) = fst (C_Sign 1 (bf_p (sign_acc s')) 2 True (Some 2420) P4)"
proof -
  let ?P2 = "after (C_Sign 1 (Some [1, 2]) 2 True (Some 2420) ex_p11_part)"
  let ?P3 = "after (C_SignInit 1 (Some CKM_ML_DSA) 0x2001 ?P2)"
  have w2: "p11_wf ?P2" by (rule wf_signing(1)[OF ex_part_session(3)])
  obtain s2 where s2: "sess_at ?P2 1 = Some s2" "sign_acc s2 = \<lparr>bf_data = [1], bf_cap = 256\<rparr>"
    using sign_keeps[OF ex_part_session(3,1)] by force
  have "led ex_p11_part ?P2" by (rule led_signing(2))
  then obtain t2 where t2: "g_tok ?P2 = Inr t2" using ex_part_session(2) by (auto simp: led_def)
  have i3: "C_SignInit 1 (Some CKM_ML_DSA) 0x2001 ?P2 = (CKR_OK, (), ?P3)"
    using s2(1) t2 by (simp add: C_SignInit_def in_session_def with_token_def PUB_BIT_def)
  have p3: "?P3 = set_sess 1 (s2\<lparr>sign_active := True, sign_key := 0x2001\<rparr>) ?P2"
    using s2(1) t2 by (simp add: C_SignInit_def in_session_def with_token_def PUB_BIT_def)
  have s3: "sess_at ?P3 1 = Some (s2\<lparr>sign_active := True, sign_key := 0x2001\<rparr>)"
    unfolding p3 by (rule sess_at_set(1)[OF w2 s2(1)]) (simp add: wf_session(4)[OF w2 s2(1)])
  have t3: "g_tok ?P3 = Inr t2" unfolding p3 using t2 by (simp add: set_sess_def)
  obtain P4 where p4: "C_SignUpdate 1 (Some [9]) (of_nat (length [9 :: byte])) ?P3 = Inr (CKR_OK, (), P4)"
    using ex_update[OF s3 t3, of "[1]" "[9]"] s2(2) by auto
  then show ?thesis
    using stale_part_signed[OF ex_p11_wf ex_p_at _ _ ex_part_1[unfolded ex_p11_def] refl i3 p4, of True "Some 2420"]
    by (auto simp: buf_free_def case_prod_unfold)
qed

section \<open>AES-GCM\<close>

text \<open>A cipher whose tag may be cut.\<close>

definition ex_gcm_env :: env where
  "ex_gcm_env = ex_env\<lparr>evp_gcm_decrypt := (\<lambda>k n a c t. if t = take (length t) (buf_write 16 k) then Some c else None)\<rparr>"

lemma ex_gcm_tags: "gcm_tags_ok ex_gcm_env"
  by (simp add: gcm_tags_ok_def ex_gcm_env_def)

definition ex_gcm_mech :: ck_mechanism where
  "ex_gcm_mech = \<lparr>me_type = CKM_AES_GCM, me_gcm = Some \<lparr>gp_iv = Some (replicate 12 3), gp_iv_len = 12, gp_aad = None,
     gp_aad_len = 0, gp_tag_bits = 96\<rparr>\<rparr>"

definition ex_gcm_ctx :: p11_aead_ctx where
  "ex_gcm_ctx = \<lparr>ac_active = True, ac_key = 0x40000001, ac_iv = replicate 12 3, ac_aad = [], ac_taglen = 12\<rparr>"

lemma ex_secret: "secret_at (ex_p11_of E) 0x40000001 = Some ex_p_key"
  by (simp add: secret_at_def secret_idx_def SECRET_BIT_def P11_IDX_MASK_def)

lemma ex_aead: "aead_init (ex_p11_of E) tok ex_gcm_mech 0x40000001 aead_ctx_reset = (CKR_OK, ex_gcm_ctx, tok)"
  by (simp add: aead_init_def ex_gcm_mech_def ex_secret gcm_by_keylen_def aead_ctx_reset_def ex_gcm_ctx_def Let_def)

lemma ex_inits:
  "C_EncryptInit 1 (Some ex_gcm_mech) 0x40000001 (ex_p11_of E) =
     (CKR_OK, (), set_sess 1 (ex_p_sess\<lparr>ps_enc := ex_gcm_ctx\<rparr>) (set_tok ex_tok (ex_p11_of E)))"
  "C_DecryptInit 1 (Some ex_gcm_mech) 0x40000001 (ex_p11_of E) =
     (CKR_OK, (), set_sess 1 (ex_p_sess\<lparr>ps_dec := ex_gcm_ctx\<rparr>) (set_tok ex_tok (ex_p11_of E)))"
  by (simp_all add: C_EncryptInit_def C_DecryptInit_def in_session_def with_token_def ex_aead)

lemma ex_encrypts:
  "\<exists>Q. C_Encrypt 1 (Some [8, 9]) (of_nat (length [8 :: byte, 9])) True (Some 100)
     (set_sess 1 (ex_p_sess\<lparr>ps_enc := ex_gcm_ctx\<rparr>) (set_tok ex_tok (ex_p11_of ex_gcm_env))) =
       (CKR_OK, (Some ([8, 9], replicate 12 5), Some 14), Q)"
proof -
  let ?P = "set_sess 1 (ex_p_sess\<lparr>ps_enc := ex_gcm_ctx\<rparr>) (set_tok ex_tok (ex_p11_of ex_gcm_env))"
  have s: "sess_at ?P 1 = Some (ex_p_sess\<lparr>ps_enc := ex_gcm_ctx\<rparr>)" by (rule sess_at_set(2)[OF ex_p11_wf ex_p_at]) simp
  have g: "g_tok ?P = Inr ex_tok" "g_env ?P = ex_gcm_env" by (simp_all add: set_sess_def set_tok_def)
  have c: "ac_active ex_gcm_ctx" "ac_key ex_gcm_ctx = 0x40000001" "ac_taglen ex_gcm_ctx = 12" by (simp_all add: ex_gcm_ctx_def)
  have "aead_seal ex_gcm_env (ko_val ex_p_key) ex_gcm_ctx (Some [8, 9]) (int_len 2) = Some ([8, 9], replicate 12 5)"
    by (simp add: aead_seal_def gcm_by_keylen_def int_len_def ex_gcm_env_def c buf_write_def)
  then show ?thesis
    unfolding C_Encrypt_def in_session_def with_token_def s g option.case sum.case by (simp add: c ex_secret g(2))
qed

lemma gcm_delivers_witness:
  "\<exists>R2. C_Decrypt 1 (Some ([8, 9] @ replicate 12 5)) 14 True (Some 2)
     (set_sess 1 (ex_p_sess\<lparr>ps_dec := ex_gcm_ctx\<rparr>) (set_tok ex_tok (ex_p11_of ex_gcm_env))) = (CKR_OK, (Some [8, 9], Some 2), R2)"
proof -
  obtain Q where q: "C_Encrypt 1 (Some [8, 9]) (of_nat (length [8 :: byte, 9])) True (Some 100)
     (set_sess 1 (ex_p_sess\<lparr>ps_enc := ex_gcm_ctx\<rparr>) (set_tok ex_tok (ex_p11_of ex_gcm_env))) =
       (CKR_OK, (Some ([8, 9], replicate 12 5), Some 14), Q)" using ex_encrypts by blast
  show ?thesis
    using gcm_delivers[OF ex_p11_wf ex_inits(1) q ex_p11_wf ex_inits(2)] ex_gcm_tags by simp
qed

section \<open>Starting\<close>

definition ex_host :: p11_host where
  "ex_host = \<lparr>ev_keystore = Some [97], ev_home = None, ev_slots = None, ev_hwrng = None, ev_backend = None, ev_kdr = None,
     ev_audit = Some (cstr ''off''), host_mmio = ex_mmio, host_rng = \<lparr>bs_is_hardware = True, bs_bytes = (\<lambda>n d. (True, replicate n 7, d))\<rparr>,
     host_backend = ex_backend\<rparr>"


end
