(* ===== verification/Fpga_Bus.thy ===== *)
theory Fpga_Bus
  imports Prelude "HOL-Library.Monad_Syntax"
begin

text \<open>
  src/service/pqchsm\_fpgad.c, first part: the daemon that owns the FPGA, its registers, the access
  to them with the sticky flag hw\_fault, the conversation with the trusted application, the TRNG,
  the packed byte ports and one run of the ML-KEM and of the ML-DSA core. Everything behind the
  process (the ioctls of /dev/secmmio, the TEE client library, the two clocks, malloc) is a
  parameter over a state of any type. Log lines are left out, the register reads in their arguments
  are kept.
\<close>

section \<open>Registers\<close>

definition PL_BASE :: u32 where "PL_BASE = 0x80000000"
definition CORE_VERSION :: u32 where "CORE_VERSION = 0x00010000"

definition TR_CTRL :: u32 where "TR_CTRL = 0x00"
definition TR_STATUS :: u32 where "TR_STATUS = 0x04"
definition TR_RDATA :: u32 where "TR_RDATA = 0x08"
definition TR_VERSION :: u32 where "TR_VERSION = 0x20"
definition TRS_DVALID :: u32 where "TRS_DVALID = 2"
definition TRS_STARTUP :: u32 where "TRS_STARTUP = 32"

definition SY_VER :: u32 where "SY_VER = 0x20000"
definition SY_CTRL :: u32 where "SY_CTRL = 0x20004"
definition SYC_ZEROIZE :: u32 where "SYC_ZEROIZE = 1"
definition SY_STATUS :: u32 where "SY_STATUS = 0x20008"
definition SY_ALG :: u32 where "SY_ALG = 0x2000C"
definition SY_SLOT :: u32 where "SY_SLOT = 0x20010"
definition SY_CMD :: u32 where "SY_CMD = 0x20014"
definition SY_HASHIN :: u32 where "SY_HASHIN = 0x20018"
definition SY_DIN0 :: u32 where "SY_DIN0 = 0x20020"
definition SY_DOUT0 :: u32 where "SY_DOUT0 = 0x20030"
definition SY_DIG0 :: u32 where "SY_DIG0 = 0x20040"
definition SYC_HSTART :: u32 where "SYC_HSTART = 4"
definition SYC_HFINAL :: u32 where "SYC_HFINAL = 8"
definition SY_ALG_SM3 :: u32 where "SY_ALG_SM3 = 3"
definition SYS_DONE :: u32 where "SYS_DONE = 2"
definition SYS_KRDY :: u32 where "SYS_KRDY = 4"
definition SYS_KVOK :: u32 where "SYS_KVOK = 8"

definition MK_VER :: u32 where "MK_VER = 0x30000"
definition MK_CTRL :: u32 where "MK_CTRL = 0x30004"
definition MK_STATUS :: u32 where "MK_STATUS = 0x30008"
definition MK_MODE :: u32 where "MK_MODE = 0x3000C"
definition MK_INDATA :: u32 where "MK_INDATA = 0x30010"
definition MK_INPTR :: u32 where "MK_INPTR = 0x30014"
definition MK_OUTDAT :: u32 where "MK_OUTDAT = 0x30018"
definition MK_OUTLEN :: u32 where "MK_OUTLEN = 0x3001C"
definition MK_KEYSTAT :: u32 where "MK_KEYSTAT = 0x30030"
definition MK_INDATA4 :: u32 where "MK_INDATA4 = 0x30040"
definition MK_OUTDAT4 :: u32 where "MK_OUTDAT4 = 0x30044"
definition MKC_START :: u32 where "MKC_START = 1"
definition MKC_ZEROIZE :: u32 where "MKC_ZEROIZE = 2"
definition MKC_INRST :: u32 where "MKC_INRST = 4"
definition MKC_SEEDCLR :: u32 where "MKC_SEEDCLR = 0x40"
definition MKS_EXPWIPE :: u32 where "MKS_EXPWIPE = 1"
definition MKM_CHAIN :: u32 where "MKM_CHAIN = 0x10"
definition MKM_SEED_STAGED :: u32 where "MKM_SEED_STAGED = 0x400"
definition MKS_DONE :: u32 where "MKS_DONE = 2"
definition MKS_WIPING :: u32 where "MKS_WIPING = 16"
definition MKS_PARER :: u32 where "MKS_PARER = 32"

definition MD_VER :: u32 where "MD_VER = 0x60000"
definition MD_CTRL :: u32 where "MD_CTRL = 0x60004"
definition MD_MODE :: u32 where "MD_MODE = 0x60008"
definition MD_STATUS :: u32 where "MD_STATUS = 0x6000C"
definition MD_INDATA :: u32 where "MD_INDATA = 0x60010"
definition MD_INPTR :: u32 where "MD_INPTR = 0x60014"
definition MD_OUTDAT :: u32 where "MD_OUTDAT = 0x60018"
definition MD_OUTPTR :: u32 where "MD_OUTPTR = 0x6001C"
definition MD_OUTLEN :: u32 where "MD_OUTLEN = 0x60020"
definition MD_MSGLEN :: u32 where "MD_MSGLEN = 0x60024"
definition MD_CTXLEN :: u32 where "MD_CTXLEN = 0x60028"
definition MD_KEYSTAT :: u32 where "MD_KEYSTAT = 0x6002C"
definition MD_INDATA4 :: u32 where "MD_INDATA4 = 0x60040"
definition MD_OUTDAT4 :: u32 where "MD_OUTDAT4 = 0x60044"
definition MDS_EXPWIPE :: u32 where "MDS_EXPWIPE = 1"
definition MDC_START :: u32 where "MDC_START = 1"
definition MDC_CLEAR :: u32 where "MDC_CLEAR = 2"
definition MDC_ZEROIZE :: u32 where "MDC_ZEROIZE = 4"
definition MDC_SEEDCLR :: u32 where "MDC_SEEDCLR = 0x40"
definition MDS_DONE :: u32 where "MDS_DONE = 2"
definition MDS_VEROK :: u32 where "MDS_VEROK = 4"
definition MDS_PARER :: u32 where "MDS_PARER = 8"
definition MDS_LENER :: u32 where "MDS_LENER = 16"
definition MDS_WIPING :: u32 where "MDS_WIPING = 64"
definition MDO_KEYGEN :: u32 where "MDO_KEYGEN = 0"
definition MDO_SIGN :: u32 where "MDO_SIGN = 1"
definition MDO_VERIFY :: u32 where "MDO_VERIFY = 2"
definition MDM_CHAIN :: u32 where "MDM_CHAIN = 0x10"
definition MDM_SEED_STAGED :: u32 where "MDM_SEED_STAGED = 0x400"

lemmas fpga_regs = PL_BASE_def CORE_VERSION_def
  TR_CTRL_def TR_STATUS_def TR_RDATA_def TR_VERSION_def TRS_DVALID_def TRS_STARTUP_def
  SY_VER_def SY_CTRL_def SYC_ZEROIZE_def SY_STATUS_def SY_ALG_def SY_SLOT_def SY_CMD_def
  SY_HASHIN_def SY_DIN0_def SY_DOUT0_def SY_DIG0_def SYC_HSTART_def SYC_HFINAL_def SY_ALG_SM3_def
  SYS_DONE_def SYS_KRDY_def SYS_KVOK_def
  MK_VER_def MK_CTRL_def MK_STATUS_def MK_MODE_def MK_INDATA_def MK_INPTR_def MK_OUTDAT_def
  MK_OUTLEN_def MK_KEYSTAT_def MK_INDATA4_def MK_OUTDAT4_def MKC_START_def MKC_ZEROIZE_def
  MKC_INRST_def MKC_SEEDCLR_def MKS_EXPWIPE_def MKM_CHAIN_def MKM_SEED_STAGED_def MKS_DONE_def
  MKS_WIPING_def MKS_PARER_def
  MD_VER_def MD_CTRL_def MD_MODE_def MD_STATUS_def MD_INDATA_def MD_INPTR_def MD_OUTDAT_def
  MD_OUTPTR_def MD_OUTLEN_def MD_MSGLEN_def MD_CTXLEN_def MD_KEYSTAT_def MD_INDATA4_def
  MD_OUTDAT4_def MDS_EXPWIPE_def MDC_START_def MDC_CLEAR_def MDC_ZEROIZE_def MDC_SEEDCLR_def
  MDS_DONE_def MDS_VEROK_def MDS_PARER_def MDS_LENER_def MDS_WIPING_def MDO_KEYGEN_def
  MDO_SIGN_def MDO_VERIFY_def MDM_CHAIN_def MDM_SEED_STAGED_def

section \<open>The world and the state\<close>

text \<open>
  One command to the trusted application with its parameters; the answer is the contents of the
  output buffer, or nothing when the library does not return TEEC\_SUCCESS.
\<close>

datatype tee_param = TeeValue u32 u32 | TeeIn bytes | TeeOut nat

type_synonym tee_req = "u32 \<times> tee_param list"

record 'd fenv =
  mmio_rd :: "u32 \<Rightarrow> 'd \<Rightarrow> u32 option \<times> 'd"
  mmio_wr :: "u32 \<Rightarrow> u32 \<Rightarrow> 'd \<Rightarrow> bool \<times> 'd"
  tee_init :: "'d \<Rightarrow> bool \<times> 'd"
  tee_session :: "'d \<Rightarrow> bool \<times> 'd"
  tee_invoke :: "tee_req \<Rightarrow> 'd \<Rightarrow> bytes option \<times> 'd"
  tee_close :: "'d \<Rightarrow> 'd"
  tee_fini :: "'d \<Rightarrow> 'd"
  clock_ms :: "'d \<Rightarrow> int \<times> 'd"
  time_s :: "'d \<Rightarrow> int \<times> 'd"
  heap_ok :: "'d \<Rightarrow> bool \<times> 'd"
  sock_io :: "nat \<Rightarrow> 'd \<Rightarrow> nat \<times> 'd"
  acl_text :: "'d \<Rightarrow> bytes option \<times> 'd"

definition PL_KEY_SLOTS :: nat where "PL_KEY_SLOTS = 16"
definition MLDSA_KEY_SLOTS :: nat where "MLDSA_KEY_SLOTS = 8"
definition SEED_BLOB_MAX :: nat where "SEED_BLOB_MAX = 128"

record key_ent =
  ke_used :: bool
  ke_pset :: u32
  ke_blob :: bytes

record rl_ent =
  rl_ip :: u32
  rl_fails :: int
  rl_since :: int

record 'd fpgad =
  dv :: 'd
  hw_fault :: bool
  g_tee_open :: bool
  kem_keys :: "key_ent list"
  dsa_keys :: "key_ent list"
  rl_tab :: "rl_ent list"
  rl_next :: nat

section \<open>Register access\<close>

text \<open>hw\_rd, hw\_rd\_abs and hw\_wr report a refused access; rd and wr make it stick.\<close>

definition hw_rd_abs :: "'d fenv \<Rightarrow> u32 \<Rightarrow> 'd fpgad \<Rightarrow> u32 option \<times> 'd fpgad" where
  "hw_rd_abs E a s = (case mmio_rd E a (dv s) of (v, d) \<Rightarrow> (v, s\<lparr>dv := d\<rparr>))"

definition hw_rd :: "'d fenv \<Rightarrow> u32 \<Rightarrow> 'd fpgad \<Rightarrow> u32 option \<times> 'd fpgad" where
  "hw_rd E off s = hw_rd_abs E (PL_BASE + off) s"

definition hw_wr :: "'d fenv \<Rightarrow> u32 \<Rightarrow> u32 \<Rightarrow> 'd fpgad \<Rightarrow> bool \<times> 'd fpgad" where
  "hw_wr E off v s = (case mmio_wr E (PL_BASE + off) v (dv s) of (ok, d) \<Rightarrow> (ok, s\<lparr>dv := d\<rparr>))"

definition rd :: "'d fenv \<Rightarrow> u32 \<Rightarrow> 'd fpgad \<Rightarrow> u32 \<times> 'd fpgad" where
  "rd E off s =
     (case hw_rd E off s of
        (None, s1) \<Rightarrow> (0, s1\<lparr>hw_fault := True\<rparr>)
      | (Some v, s1) \<Rightarrow> (v, s1))"

definition wr :: "'d fenv \<Rightarrow> u32 \<Rightarrow> u32 \<Rightarrow> 'd fpgad \<Rightarrow> 'd fpgad" where
  "wr E off v s = (case hw_wr E off v s of (ok, s1) \<Rightarrow> if ok then s1 else s1\<lparr>hw_fault := True\<rparr>)"

text \<open>
  The wait loops that give up as soon as an access failed: at most \<open>k\<close> reads, then the check that
  reads the register once more.
\<close>

fun spin :: "'d fenv \<Rightarrow> u32 \<Rightarrow> u32 \<Rightarrow> nat \<Rightarrow> 'd fpgad \<Rightarrow> 'd fpgad" where
  "spin E reg b k s =
     (if k = 0 \<or> hw_fault s then s
      else case rd E reg s of (v, s1) \<Rightarrow> if v AND b \<noteq> 0 then s1 else spin E reg b (k - 1) s1)"

definition spin_check :: "'d fenv \<Rightarrow> u32 \<Rightarrow> u32 \<Rightarrow> nat \<Rightarrow> 'd fpgad \<Rightarrow> bool \<times> 'd fpgad" where
  "spin_check E reg b k s = (case rd E reg (spin E reg b k s) of (v, s1) \<Rightarrow> (v AND b \<noteq> 0, s1))"

text \<open>wait\_exp\_idle and wait\_not\_wiping have the same body: the bit must be seen clear.\<close>

fun wait_clear :: "'d fenv \<Rightarrow> u32 \<Rightarrow> u32 \<Rightarrow> nat \<Rightarrow> 'd fpgad \<Rightarrow> bool \<times> 'd fpgad" where
  "wait_clear E reg b k s =
     (if k = 0 then (False, s)
      else case rd E reg s of (v, s1) \<Rightarrow>
        if hw_fault s1 then (False, s1)
        else if v AND b = 0 then (True, s1)
        else wait_clear E reg b (k - 1) s1)"

declare spin.simps [simp del] wait_clear.simps [simp del]

definition wait_exp_idle :: "'d fenv \<Rightarrow> u32 \<Rightarrow> u32 \<Rightarrow> 'd fpgad \<Rightarrow> bool \<times> 'd fpgad" where
  "wait_exp_idle E keystat_reg b s = wait_clear E keystat_reg b 200000 s"

definition wait_not_wiping :: "'d fenv \<Rightarrow> u32 \<Rightarrow> u32 \<Rightarrow> 'd fpgad \<Rightarrow> bool \<times> 'd fpgad" where
  "wait_not_wiping E reg b s = wait_clear E reg b 200000 s"

section \<open>The trusted application\<close>

definition TA_PQCHSM_CMD_KEK_SET :: u32 where "TA_PQCHSM_CMD_KEK_SET = 2"
definition TA_PQCHSM_CMD_SEED_TO_PL :: u32 where "TA_PQCHSM_CMD_SEED_TO_PL = 9"
definition TA_PQCHSM_CMD_SEED_NEW :: u32 where "TA_PQCHSM_CMD_SEED_NEW = 10"
definition TA_PQCHSM_CMD_SEED_REPLAY :: u32 where "TA_PQCHSM_CMD_SEED_REPLAY = 11"
definition TA_PQCHSM_CMD_SYMKEY_NEW :: u32 where "TA_PQCHSM_CMD_SYMKEY_NEW = 12"
definition TA_PQCHSM_CMD_SYMKEY_LOAD :: u32 where "TA_PQCHSM_CMD_SYMKEY_LOAD = 13"
definition TA_PQCHSM_CMD_SYMKEY_KAT :: u32 where "TA_PQCHSM_CMD_SYMKEY_KAT = 14"
definition SEED_TGT_MLKEM :: u32 where "SEED_TGT_MLKEM = 0"
definition SEED_TGT_MLDSA :: u32 where "SEED_TGT_MLDSA = 1"

lemmas ta_codes = TA_PQCHSM_CMD_KEK_SET_def TA_PQCHSM_CMD_SEED_TO_PL_def
  TA_PQCHSM_CMD_SEED_NEW_def TA_PQCHSM_CMD_SEED_REPLAY_def TA_PQCHSM_CMD_SYMKEY_NEW_def
  TA_PQCHSM_CMD_SYMKEY_LOAD_def TA_PQCHSM_CMD_SYMKEY_KAT_def SEED_TGT_MLKEM_def SEED_TGT_MLDSA_def

definition kek_salt :: bytes where "kek_salt = cstr ''pqchsm-b2-kek-v1''"

definition tee_session_open :: "'d fenv \<Rightarrow> 'd fpgad \<Rightarrow> bool \<times> 'd fpgad" where
  "tee_session_open E s =
     (if g_tee_open s then (True, s)
      else case tee_init E (dv s) of (ok, d1) \<Rightarrow>
        if \<not> ok then (False, s\<lparr>dv := d1\<rparr>)
        else case tee_session E d1 of (ok, d2) \<Rightarrow>
          if \<not> ok then (False, s\<lparr>dv := tee_fini E d2\<rparr>)
          else case tee_invoke E (TA_PQCHSM_CMD_KEK_SET, [TeeIn kek_salt]) d2 of
            (None, d3) \<Rightarrow> (False, s\<lparr>dv := tee_fini E (tee_close E d3)\<rparr>)
          | (Some _, d3) \<Rightarrow> (True, s\<lparr>dv := d3, g_tee_open := True\<rparr>))"

text \<open>The commands return the bytes of the output buffer, none for an input buffer.\<close>

definition ta_cmd :: "'d fenv \<Rightarrow> u32 \<Rightarrow> tee_param list \<Rightarrow> 'd fpgad \<Rightarrow> bytes option \<times> 'd fpgad" where
  "ta_cmd E cmd ps s =
     (case tee_session_open E s of (ok, s1) \<Rightarrow>
        if \<not> ok then (None, s1)
        else case tee_invoke E (cmd, ps) (dv s1) of (r, d) \<Rightarrow> (r, s1\<lparr>dv := d\<rparr>))"

definition ta_seed_new :: "'d fenv \<Rightarrow> u32 \<Rightarrow> nat \<Rightarrow> 'd fpgad \<Rightarrow> bytes option \<times> 'd fpgad" where
  "ta_seed_new E target cap s =
     ta_cmd E TA_PQCHSM_CMD_SEED_NEW [TeeValue target 0, TeeOut cap] s"

definition ta_seed_replay :: "'d fenv \<Rightarrow> u32 \<Rightarrow> bytes \<Rightarrow> 'd fpgad \<Rightarrow> bool \<times> 'd fpgad" where
  "ta_seed_replay E target blob s =
     (case ta_cmd E TA_PQCHSM_CMD_SEED_REPLAY [TeeValue target 0, TeeIn blob] s of
        (r, s1) \<Rightarrow> (r \<noteq> None, s1))"

definition sec_seed_load :: "'d fenv \<Rightarrow> u32 \<Rightarrow> 'd fpgad \<Rightarrow> bool \<times> 'd fpgad" where
  "sec_seed_load E target s =
     (case ta_cmd E TA_PQCHSM_CMD_SEED_TO_PL [TeeValue target 0] s of (r, s1) \<Rightarrow> (r \<noteq> None, s1))"

definition ta_symkey_cmd ::
    "'d fenv \<Rightarrow> u32 \<Rightarrow> u32 \<Rightarrow> u32 \<Rightarrow> tee_param list \<Rightarrow> 'd fpgad \<Rightarrow> bytes option \<times> 'd fpgad" where
  "ta_symkey_cmd E cmd a b mem s = ta_cmd E cmd (TeeValue a b # mem) s"

section \<open>The TRNG\<close>

text \<open>\<open>n\<close> bytes are still missing; a word gives its low bytes first.\<close>

fun trng_words :: "'d fenv \<Rightarrow> nat \<Rightarrow> 'd fpgad \<Rightarrow> bytes option \<times> 'd fpgad" where
  "trng_words E n s =
     (if n = 0 then (Some [], s)
      else case spin_check E TR_STATUS TRS_DVALID 20000000 s of (ok, s1) \<Rightarrow>
        if \<not> ok then (None, s1)
        else case rd E TR_RDATA s1 of (w, s2) \<Rightarrow>
          case trng_words E (n - min n 4) s2 of
            (None, s3) \<Rightarrow> (None, s3)
          | (Some bs, s3) \<Rightarrow> (Some (take (min n 4) (put_u32 w) @ bs), s3))"

declare trng_words.simps [simp del]

definition trng_bytes :: "'d fenv \<Rightarrow> nat \<Rightarrow> 'd fpgad \<Rightarrow> bytes option \<times> 'd fpgad" where
  "trng_bytes E n s =
     (case spin_check E TR_STATUS TRS_STARTUP 20000000 (wr E TR_CTRL 1 s) of (ok, s1) \<Rightarrow>
        if \<not> ok then (None, s1) else trng_words E n s1)"

section \<open>The packed ports\<close>

text \<open>Four bytes at a time, the tail byte by byte; both loops stop at the first failed access.\<close>

fun feed_packed :: "'d fenv \<Rightarrow> u32 \<Rightarrow> u32 \<Rightarrow> bytes \<Rightarrow> 'd fpgad \<Rightarrow> 'd fpgad" where
  "feed_packed E reg4 reg1 (a # b # c # d # bs) s =
     (if hw_fault s then s
      else feed_packed E reg4 reg1 bs
             (wr E reg4 (ucast a OR push_bit 8 (ucast b) OR push_bit 16 (ucast c)
                          OR push_bit 24 (ucast d)) s))"
| "feed_packed E reg4 reg1 (a # bs) s =
     (if hw_fault s then s else feed_packed E reg4 reg1 bs (wr E reg1 (ucast a) s))"
| "feed_packed E reg4 reg1 [] s = s"

text \<open>
  The bytes read. After a failed access the rest of the buffer is not written and the list is
  shorter; no such buffer is sent, because the request is then answered SDR\_HARDFAIL.
\<close>

fun drain_packed :: "'d fenv \<Rightarrow> u32 \<Rightarrow> u32 \<Rightarrow> nat \<Rightarrow> 'd fpgad \<Rightarrow> bytes \<times> 'd fpgad" where
  "drain_packed E reg4 reg1 n s =
     (if n = 0 \<or> hw_fault s then ([], s)
      else if 4 \<le> n then
        (case rd E reg4 s of (v, s1) \<Rightarrow>
           case drain_packed E reg4 reg1 (n - 4) s1 of (bs, s2) \<Rightarrow>
             ([ucast (v AND 0xFF), ucast (drop_bit 8 v AND 0xFF), ucast (drop_bit 16 v AND 0xFF),
               ucast (drop_bit 24 v AND 0xFF)] @ bs, s2))
      else
        (case rd E reg1 s of (v, s1) \<Rightarrow>
           case drain_packed E reg4 reg1 (n - 1) s1 of (bs, s2) \<Rightarrow> (ucast v # bs, s2)))"

declare drain_packed.simps [simp del]

section \<open>ML-KEM\<close>

definition mlkem_len :: "u32 \<Rightarrow> nat \<times> nat \<times> nat" where
  "mlkem_len pset =
     (let k = (if pset = 0 then 2 else if pset = 1 then 3 else 4);
          du = (if pset = 2 then 11 else 10); d = (if pset = 2 then 5 else 4) in
      (384 * k + 32, 768 * k + 96, 32 * (du * k + d)))"

abbreviation ek_len :: "u32 \<Rightarrow> nat" where "ek_len pset \<equiv> fst (mlkem_len pset)"
abbreviation ct_len :: "u32 \<Rightarrow> nat" where "ct_len pset \<equiv> snd (snd (mlkem_len pset))"

text \<open>
  The wait of mlkem\_run\_raw: at most \<open>k\<close> reads, which go on after a failed access. The result
  says whether the loop was left (by DONE or at its end) or the parameters were refused.
\<close>

fun mlkem_wait :: "'d fenv \<Rightarrow> nat \<Rightarrow> 'd fpgad \<Rightarrow> bool \<times> 'd fpgad" where
  "mlkem_wait E k s =
     (if k = 0 then (True, s)
      else case rd E MK_STATUS s of (st, s1) \<Rightarrow>
        if st AND MKS_PARER \<noteq> 0 then (False, s1)
        else if st AND MKS_DONE \<noteq> 0 then (True, s1)
        else mlkem_wait E (k - 1) s1)"

declare mlkem_wait.simps [simp del]

text \<open>\<open>Inl\<close> the code of an error, \<open>Inr\<close> the length the core reports and the bytes read.\<close>

definition mlkem_run ::
    "'d fenv \<Rightarrow> u32 \<Rightarrow> u32 \<Rightarrow> u32 \<Rightarrow> bytes \<Rightarrow> nat \<Rightarrow> 'd fpgad \<Rightarrow> (int + nat \<times> bytes) \<times> 'd fpgad" where
  "mlkem_run E mode pset mode_extra inp out_cap s =
     (case wait_exp_idle E MK_KEYSTAT MKS_EXPWIPE s of (idle, s1) \<Rightarrow>
        if \<not> idle then (Inl (- 1), s1)
        else
          let s2 = wr E MK_MODE (mode OR push_bit 2 pset OR mode_extra) s1;
              s3 = wr E MK_CTRL MKC_INRST s2;
              s4 = feed_packed E MK_INDATA4 MK_INDATA inp s3 in
          case rd E MK_INPTR s4 of (p, s5) \<Rightarrow>
            if p \<noteq> of_nat (length inp) then (Inl (- 1), snd (rd E MK_INPTR s5))
            else case mlkem_wait E 3000000 (wr E MK_CTRL MKC_START s5) of (ok, s6) \<Rightarrow>
              if \<not> ok then (Inl (- 2), s6)
              else case rd E MK_STATUS s6 of (st, s7) \<Rightarrow>
                if st AND MKS_DONE = 0 then (Inl (- 3), s7)
                else case rd E MK_OUTLEN s7 of (n, s8) \<Rightarrow>
                  if unat n > out_cap then (Inl (- 4), s8)
                  else case drain_packed E MK_OUTDAT4 MK_OUTDAT (unat n) s8 of (bs, s9) \<Rightarrow>
                    (Inr (unat n, bs), s9))"

section \<open>ML-DSA\<close>

definition mldsa_len :: "u32 \<Rightarrow> nat \<times> nat \<times> nat" where
  "mldsa_len pset =
     ([1312, 1952, 2592] ! unat pset, [2560, 4032, 4896] ! unat pset, [2420, 3309, 4627] ! unat pset)"

abbreviation pk_len :: "u32 \<Rightarrow> nat" where "pk_len pset \<equiv> fst (mldsa_len pset)"
abbreviation sig_len :: "u32 \<Rightarrow> nat" where "sig_len pset \<equiv> snd (snd (mldsa_len pset))"

definition mldsa_timeout_ms :: "u32 \<Rightarrow> u32 \<Rightarrow> nat \<Rightarrow> int" where
  "mldsa_timeout_ms op pset in_len =
     (if op = MDO_SIGN then 10000 else 2000) * (int (unat pset) + 1) + int (in_len div 8)"

definition now_ms :: "'d fenv \<Rightarrow> 'd fpgad \<Rightarrow> int \<times> 'd fpgad" where
  "now_ms E s = (case clock_ms E (dv s) of (t, d) \<Rightarrow> (t, s\<lparr>dv := d\<rparr>))"

text \<open>
  The wait of mldsa\_run\_raw has no bound of its own: it ends with an answer of the core, a failed
  access, or the clock, which is looked at every 4096 polls. The first component is an error code,
  the second the last STATUS; \<open>None\<close> is a wait that does not end.
\<close>

partial_function (option) mldsa_wait ::
    "'d fenv \<Rightarrow> int \<Rightarrow> u32 \<Rightarrow> u32 \<Rightarrow> 'd fpgad \<Rightarrow> (int option \<times> u32 \<times> 'd fpgad) option" where
  "mldsa_wait E deadline i st s =
     (if hw_fault s then Some (None, st, s)
      else let r = rd E MD_STATUS s in
        if fst r AND (MDS_PARER OR MDS_LENER) \<noteq> 0 then Some (Some (- 2), r)
        else if fst r AND MDS_DONE \<noteq> 0 then Some (None, r)
        else if i AND 0xFFF = 0xFFF then
          (let c = now_ms E (snd r) in
           if deadline < fst c then Some (Some (- 3), fst r, snd c)
           else mldsa_wait E deadline (i + 1) (fst r) (snd c))
        else mldsa_wait E deadline (i + 1) (fst r) (snd r))"

text \<open>The length, the bytes and verify\_ok of one run.\<close>

definition mldsa_finish ::
    "'d fenv \<Rightarrow> nat \<Rightarrow> u32 \<Rightarrow> 'd fpgad \<Rightarrow> (int + nat \<times> bytes \<times> bool) \<times> 'd fpgad" where
  "mldsa_finish E out_cap st s =
     (if hw_fault s \<or> st AND MDS_DONE = 0 then (Inl (- 3), s)
      else case rd E MD_OUTLEN s of (n, s1) \<Rightarrow>
        if unat n > out_cap then (Inl (- 4), s1)
        else case drain_packed E MD_OUTDAT4 MD_OUTDAT (unat n) s1 of (bs, s2) \<Rightarrow>
          if hw_fault s2 then (Inl (- 3), s2)
          else (Inr (unat n, bs, st AND MDS_VEROK \<noteq> 0), s2))"

definition mldsa_load ::
    "'d fenv \<Rightarrow> bytes \<Rightarrow> u32 \<Rightarrow> u32 \<Rightarrow> 'd fpgad \<Rightarrow> 'd fpgad" where
  "mldsa_load E inp msg_len ctx_len s =
     (let s1 = wr E MD_CTRL MDC_CLEAR s;
          s2 = wr E MD_INPTR 0 s1;
          s3 = wr E MD_OUTPTR 0 s2;
          s4 = wr E MD_MSGLEN msg_len s3;
          s5 = wr E MD_CTXLEN ctx_len s4 in
      feed_packed E MD_INDATA4 MD_INDATA inp s5)"

definition mldsa_run ::
    "'d fenv \<Rightarrow> u32 \<Rightarrow> u32 \<Rightarrow> u32 \<Rightarrow> bytes \<Rightarrow> u32 \<Rightarrow> u32 \<Rightarrow> nat \<Rightarrow> 'd fpgad \<Rightarrow>
     ((int + nat \<times> bytes \<times> bool) \<times> 'd fpgad) option" where
  "mldsa_run E op pset mode_extra inp msg_len ctx_len out_cap s =
     (case wait_exp_idle E MD_KEYSTAT MDS_EXPWIPE
             (wr E MD_MODE (op OR push_bit 2 pset OR mode_extra) s) of (idle, s1) \<Rightarrow>
        if \<not> idle then Some (Inl (- 1), s1)
        else let s2 = mldsa_load E inp msg_len ctx_len s1 in
          if hw_fault s2 then Some (Inl (- 3), s2)
          else case rd E MD_INPTR s2 of (p, s3) \<Rightarrow>
            if p \<noteq> of_nat (length inp) then Some (Inl (- 1), snd (rd E MD_INPTR s3))
            else case now_ms E (wr E MD_CTRL MDC_START s3) of (t, s4) \<Rightarrow>
              do {
                (err, st, s5) \<leftarrow> mldsa_wait E (t + mldsa_timeout_ms op pset (length inp)) 0 0 s4;
                case err of
                  Some e \<Rightarrow> Some (Inl e, s5)
                | None \<Rightarrow> Some (mldsa_finish E out_cap st s5)
              })"

end
