(* ===== verification/Fpga_Sym.thy ===== *)
theory Fpga_Sym
  imports Fpga_Bus
begin

text \<open>
  src/service/pqchsm\_fpgad.c, second part: the symmetric core. One block goes through the hardware
  with a key named by its slot; the chaining of the five modes of operation, the counter and the
  exclusive ors are the daemon's own. SM3 hashes one message, byte by byte.
\<close>

section \<open>One block\<close>

definition be_word :: "bytes \<Rightarrow> u32" where
  "be_word b =
     push_bit 24 (ucast (b ! 0)) OR push_bit 16 (ucast (b ! 1)) OR push_bit 8 (ucast (b ! 2))
       OR ucast (b ! 3)"

definition be_word_bytes :: "u32 \<Rightarrow> bytes" where
  "be_word_bytes w = [ucast (drop_bit 24 w), ucast (drop_bit 16 w), ucast (drop_bit 8 w), ucast w]"

text \<open>\<open>n\<close> consecutive registers, written from and read into big-endian bytes.\<close>

fun wr_be :: "'d fenv \<Rightarrow> u32 \<Rightarrow> nat \<Rightarrow> bytes \<Rightarrow> 'd fpgad \<Rightarrow> 'd fpgad" where
  "wr_be E reg 0 inp s = s"
| "wr_be E reg (Suc n) inp s = wr_be E (reg + 4) n (drop 4 inp) (wr E reg (be_word inp) s)"

fun rd_be :: "'d fenv \<Rightarrow> u32 \<Rightarrow> nat \<Rightarrow> 'd fpgad \<Rightarrow> bytes \<times> 'd fpgad" where
  "rd_be E reg 0 s = ([], s)"
| "rd_be E reg (Suc n) s =
     (case rd E reg s of (w, s1) \<Rightarrow>
        case rd_be E (reg + 4) n s1 of (bs, s2) \<Rightarrow> (be_word_bytes w @ bs, s2))"

definition sym_block ::
    "'d fenv \<Rightarrow> u32 \<Rightarrow> u32 \<Rightarrow> bool \<Rightarrow> bytes \<Rightarrow> 'd fpgad \<Rightarrow> (int + bytes) \<times> 'd fpgad" where
  "sym_block E alg slot dec inp s =
     (let s1 = wr E SY_ALG (alg OR (if dec then 4 else 0)) s;
          s2 = wr E SY_SLOT slot s1 in
      case rd E SY_STATUS s2 of (st, s3) \<Rightarrow>
        if st AND SYS_KVOK = 0 then (Inl (- 1), s3)
        else case spin_check E SY_STATUS SYS_KRDY 200000 (wr E SY_CMD 1 s3) of (ok, s4) \<Rightarrow>
          if \<not> ok then (Inl (- 2), s4)
          else case spin_check E SY_STATUS SYS_DONE 200000
                      (wr E SY_CMD 2 (wr_be E SY_DIN0 4 inp s4)) of (ok, s5) \<Rightarrow>
            if \<not> ok then (Inl (- 3), s5)
            else case rd_be E SY_DOUT0 4 s5 of (out, s6) \<Rightarrow> (Inr out, s6))"

section \<open>Modes of operation\<close>

definition PQCS_MODE_ECB :: u32 where "PQCS_MODE_ECB = 0"
definition PQCS_MODE_CBC :: u32 where "PQCS_MODE_CBC = 1"
definition PQCS_MODE_CTR :: u32 where "PQCS_MODE_CTR = 2"
definition PQCS_MODE_CFB :: u32 where "PQCS_MODE_CFB = 3"
definition PQCS_MODE_OFB :: u32 where "PQCS_MODE_OFB = 4"

lemmas pqcs_modes = PQCS_MODE_ECB_def PQCS_MODE_CBC_def PQCS_MODE_CTR_def PQCS_MODE_CFB_def
  PQCS_MODE_OFB_def

text \<open>The increment runs from the last byte and stops at the first byte that does not wrap.\<close>

fun inc_le :: "bytes \<Rightarrow> bytes" where
  "inc_le [] = []"
| "inc_le (b # bs) = (if b + 1 \<noteq> 0 then (b + 1) # bs else 0 # inc_le bs)"

definition ctr_inc :: "bytes \<Rightarrow> bytes" where
  "ctr_inc ctr = rev (inc_le (rev ctr))"

definition xor_bytes :: "bytes \<Rightarrow> bytes \<Rightarrow> bytes" where
  "xor_bytes a b = map2 (XOR) a b"

text \<open>
  One pass of the loop on the next block of the input: what is sent to the hardware and in which
  direction, and, from the block that comes back, the output and the new feedback. The last block
  may be short in CTR, CFB and OFB.
\<close>

definition blk_in :: "u32 \<Rightarrow> bool \<Rightarrow> bytes \<Rightarrow> bytes \<Rightarrow> bool \<times> bytes" where
  "blk_in mode dec fb x =
     (if mode = PQCS_MODE_ECB then (dec, x)
      else if mode = PQCS_MODE_CBC then (if dec then (True, x) else (False, xor_bytes x fb))
      else (False, fb))"

definition blk_out :: "u32 \<Rightarrow> bool \<Rightarrow> bytes \<Rightarrow> bytes \<Rightarrow> bytes \<Rightarrow> bytes \<times> bytes" where
  "blk_out mode dec fb x y =
     (if mode = PQCS_MODE_ECB then (y, fb)
      else if mode = PQCS_MODE_CBC then (if dec then (xor_bytes y fb, x) else (y, y))
      else if mode = PQCS_MODE_CTR then (xor_bytes x y, ctr_inc fb)
      else if mode = PQCS_MODE_OFB then (xor_bytes x y, y)
      else let ct = (if dec then x else xor_bytes x y) in
        (if dec then xor_bytes x y else ct, if length x = 16 then ct else fb))"

function sym_crypt_loop ::
    "'d fenv \<Rightarrow> u32 \<Rightarrow> u32 \<Rightarrow> bool \<Rightarrow> u32 \<Rightarrow> bytes \<Rightarrow> bytes \<Rightarrow> 'd fpgad \<Rightarrow> bytes option \<times> 'd fpgad" where
  "sym_crypt_loop E alg slot dec mode fb inp s =
     (if inp = [] then (Some [], s)
      else if mode > PQCS_MODE_OFB then (None, s)
      else
        let x = take 16 inp; (d, b) = blk_in mode dec fb x in
        case sym_block E alg slot d b s of
          (Inl _, s1) \<Rightarrow> (None, s1)
        | (Inr y, s1) \<Rightarrow>
            let (out, fb1) = blk_out mode dec fb x y in
            case sym_crypt_loop E alg slot dec mode fb1 (drop 16 inp) s1 of
              (None, s2) \<Rightarrow> (None, s2)
            | (Some bs, s2) \<Rightarrow> (Some (out @ bs), s2))"
  by pat_completeness auto

termination sym_crypt_loop
  by (relation "measure (\<lambda>(E, alg, slot, dec, mode, fb, inp, s). length inp)") auto

declare sym_crypt_loop.simps [simp del]

definition sym_crypt ::
    "'d fenv \<Rightarrow> u32 \<Rightarrow> u32 \<Rightarrow> bool \<Rightarrow> u32 \<Rightarrow> bytes \<Rightarrow> bytes \<Rightarrow> 'd fpgad \<Rightarrow> bytes option \<times> 'd fpgad" where
  "sym_crypt E alg slot dec mode iv inp s = sym_crypt_loop E alg slot dec mode iv inp s"

section \<open>SM3\<close>

fun sm3_feed :: "'d fenv \<Rightarrow> bytes \<Rightarrow> 'd fpgad \<Rightarrow> bool \<times> 'd fpgad" where
  "sm3_feed E [] s = (True, s)"
| "sm3_feed E (b # bs) s =
     (let s1 = wr E SY_HASHIN (ucast b) s in if hw_fault s1 then (False, s1) else sm3_feed E bs s1)"

definition sym_sm3 :: "'d fenv \<Rightarrow> bytes \<Rightarrow> 'd fpgad \<Rightarrow> (int + bytes) \<times> 'd fpgad" where
  "sym_sm3 E inp s =
     (case sm3_feed E inp (wr E SY_CMD SYC_HSTART (wr E SY_ALG SY_ALG_SM3 s)) of (ok, s1) \<Rightarrow>
        if \<not> ok then (Inl (- 1), s1)
        else case spin_check E SY_STATUS SYS_DONE 200000 (wr E SY_CMD SYC_HFINAL s1) of (ok, s2) \<Rightarrow>
          if \<not> ok then (Inl (- 2), s2)
          else case rd_be E SY_DIG0 8 s2 of (out, s3) \<Rightarrow> (Inr out, s3))"

end
