(* ===== verification/Fpga_Ops.thy ===== *)
theory Fpga_Ops
  imports Fpga_Sym
begin

text \<open>
  src/service/pqchsm\_fpgad.c, third part: the two handle tables, the cleaned seed commands, the end
  of a session and the operations of handle\_op. A reply is a status and the bytes of the output
  buffer; \<open>None\<close> is a request that never returns (the ML-DSA wait).
\<close>

section \<open>Status codes and the request\<close>

definition SDR_OK :: u32 where "SDR_OK = 0"
definition SDR_UNKNOWERR :: u32 where "SDR_UNKNOWERR = 0x01000001"
definition SDR_INARGERR :: u32 where "SDR_INARGERR = 0x01000004"
definition SDR_KEYNOTEXIST :: u32 where "SDR_KEYNOTEXIST = 0x01000005"
definition SDR_HARDFAIL :: u32 where "SDR_HARDFAIL = 0x01000006"
definition SDR_VERIFYFAIL :: u32 where "SDR_VERIFYFAIL = 0x01000008"
definition SDR_NOTSUPPORT :: u32 where "SDR_NOTSUPPORT = 0x01000009"

lemmas sdr_codes = SDR_OK_def SDR_UNKNOWERR_def SDR_INARGERR_def SDR_KEYNOTEXIST_def
  SDR_HARDFAIL_def SDR_VERIFYFAIL_def SDR_NOTSUPPORT_def

definition PQCS_MAGIC :: u32 where "PQCS_MAGIC = 0x53434750"
definition PQCS_MAXPAY :: u32 where "PQCS_MAXPAY = 16384"
definition PQCS_SYMKEY_BLOB_MAX :: u32 where "PQCS_SYMKEY_BLOB_MAX = 128"
definition PQCS_SYM_KAT_SLOT :: u32 where "PQCS_SYM_KAT_SLOT = 7"

definition OP_PING :: u32 where "OP_PING = 1"
definition OP_RANDOM :: u32 where "OP_RANDOM = 2"
definition OP_MLKEM_KEYGEN :: u32 where "OP_MLKEM_KEYGEN = 3"
definition OP_MLKEM_ENCAPS :: u32 where "OP_MLKEM_ENCAPS = 4"
definition OP_MLKEM_DECAPS :: u32 where "OP_MLKEM_DECAPS = 5"
definition OP_IMPORT_KEY :: u32 where "OP_IMPORT_KEY = 6"
definition OP_SYM_BLOCK :: u32 where "OP_SYM_BLOCK = 7"
definition OP_MLDSA_KEYGEN :: u32 where "OP_MLDSA_KEYGEN = 9"
definition OP_MLDSA_SIGN :: u32 where "OP_MLDSA_SIGN = 10"
definition OP_MLDSA_VERIFY :: u32 where "OP_MLDSA_VERIFY = 11"
definition OP_SYM_CRYPT :: u32 where "OP_SYM_CRYPT = 12"
definition OP_SM3 :: u32 where "OP_SM3 = 13"
definition OP_DEVICE_DNA :: u32 where "OP_DEVICE_DNA = 14"
definition OP_SYMKEY_GEN :: u32 where "OP_SYMKEY_GEN = 15"
definition OP_SYMKEY_LOAD :: u32 where "OP_SYMKEY_LOAD = 16"
definition OP_SYMKEY_KAT :: u32 where "OP_SYMKEY_KAT = 17"
definition OP_PQC_BLOB_EXPORT :: u32 where "OP_PQC_BLOB_EXPORT = 18"
definition OP_PQC_BLOB_IMPORT :: u32 where "OP_PQC_BLOB_IMPORT = 19"

lemmas fpga_ops = OP_PING_def OP_RANDOM_def OP_MLKEM_KEYGEN_def OP_MLKEM_ENCAPS_def
  OP_MLKEM_DECAPS_def OP_IMPORT_KEY_def OP_SYM_BLOCK_def OP_MLDSA_KEYGEN_def OP_MLDSA_SIGN_def
  OP_MLDSA_VERIFY_def OP_SYM_CRYPT_def OP_SM3_def OP_DEVICE_DNA_def OP_SYMKEY_GEN_def
  OP_SYMKEY_LOAD_def OP_SYMKEY_KAT_def OP_PQC_BLOB_EXPORT_def OP_PQC_BLOB_IMPORT_def

record pqcs_req =
  pq_magic :: u32
  pq_op :: u32
  pq_a0 :: u32
  pq_a1 :: u32
  pq_len :: u32

type_synonym reply = "u32 \<times> bytes"

section \<open>Handle tables and sessions\<close>

definition no_key :: key_ent where
  "no_key = \<lparr>ke_used = False, ke_pset = 0, ke_blob = []\<rparr>"

definition keys_wipe :: "'d fpgad \<Rightarrow> 'd fpgad" where
  "keys_wipe s = s\<lparr>kem_keys := replicate PL_KEY_SLOTS no_key,
                   dsa_keys := replicate MLDSA_KEY_SLOTS no_key\<rparr>"

definition first_free :: "key_ent list \<Rightarrow> nat" where
  "first_free ks = length (takeWhile ke_used ks)"

definition key_live :: "key_ent list \<Rightarrow> u32 \<Rightarrow> bool" where
  "key_live ks h \<longleftrightarrow> unat h < length ks \<and> ke_used (ks ! unat h)"

definition seed_clr :: "'d fenv \<Rightarrow> u32 \<Rightarrow> 'd fpgad \<Rightarrow> bool \<times> 'd fpgad" where
  "seed_clr E tgt s =
     (let (status, wiping, keystat, expwipe, ctrl, clr) =
        (if tgt = SEED_TGT_MLKEM
         then (MK_STATUS, MKS_WIPING, MK_KEYSTAT, MKS_EXPWIPE, MK_CTRL, MKC_SEEDCLR)
         else (MD_STATUS, MDS_WIPING, MD_KEYSTAT, MDS_EXPWIPE, MD_CTRL, MDC_SEEDCLR)) in
      case wait_not_wiping E status wiping s of (ok, s1) \<Rightarrow>
        if \<not> ok then (False, s1)
        else case wait_exp_idle E keystat expwipe s1 of (ok, s2) \<Rightarrow>
          if \<not> ok then (False, s2)
          else let s3 = wr E ctrl clr s2 in (\<not> hw_fault s3, s3))"

definition seed_new_clean :: "'d fenv \<Rightarrow> u32 \<Rightarrow> nat \<Rightarrow> 'd fpgad \<Rightarrow> bytes option \<times> 'd fpgad" where
  "seed_new_clean E tgt cap s =
     (case seed_clr E tgt s of (ok, s1) \<Rightarrow>
        if \<not> ok then (None, s1)
        else case ta_seed_new E tgt cap s1 of
          (None, s2) \<Rightarrow> (None, snd (seed_clr E tgt s2))
        | (Some blob, s2) \<Rightarrow> (Some blob, s2))"

definition seed_replay_clean :: "'d fenv \<Rightarrow> u32 \<Rightarrow> bytes \<Rightarrow> 'd fpgad \<Rightarrow> bool \<times> 'd fpgad" where
  "seed_replay_clean E tgt blob s =
     (case seed_clr E tgt s of (ok, s1) \<Rightarrow>
        if \<not> ok then (False, s1)
        else case ta_seed_replay E tgt blob s1 of (ok, s2) \<Rightarrow>
          if \<not> ok then (False, snd (seed_clr E tgt s2)) else (True, s2))"

definition session_end :: "'d fenv \<Rightarrow> 'd fpgad \<Rightarrow> 'd fpgad" where
  "session_end E s =
     (let s1 = keys_wipe s;
          s2 = (case wait_not_wiping E MK_STATUS MKS_WIPING s1 of (ok, t) \<Rightarrow>
                  if ok then wr E MK_CTRL MKC_ZEROIZE t else t);
          s3 = (case wait_not_wiping E MD_STATUS MDS_WIPING s2 of (ok, t) \<Rightarrow>
                  if ok then wr E MD_CTRL MDC_ZEROIZE t else t);
          s4 = wr E SY_CTRL SYC_ZEROIZE s3;
          s5 = snd (rd E SY_STATUS s4);
          s6 = snd (wait_not_wiping E MK_STATUS MKS_WIPING s5) in
      snd (wait_not_wiping E MD_STATUS MDS_WIPING s6))"

section \<open>Information and random bytes\<close>

definition hex_digit :: "u32 \<Rightarrow> byte" where
  "hex_digit v = (if v < 10 then 48 + ucast v else 87 + ucast v)"

definition hex8 :: "u32 \<Rightarrow> bytes" where
  "hex8 v = map (\<lambda>i. hex_digit (drop_bit (4 * i) v AND 15)) (rev [0..<8])"

text \<open>C leaves the order of the three reads open; the model takes them from left to right.\<close>

definition op_ping :: "'d fenv \<Rightarrow> 'd fpgad \<Rightarrow> reply \<times> 'd fpgad" where
  "op_ping E s =
     (case rd E MK_VER s of (a, s1) \<Rightarrow>
        case rd E SY_VER s1 of (b, s2) \<Rightarrow>
          case rd E MD_VER s2 of (c, s3) \<Rightarrow>
            ((SDR_OK, cstr ''pqchsm_fpgad on FPGA  mlkem=0x'' @ hex8 a @ cstr '' sym=0x'' @ hex8 b
                        @ cstr '' mldsa=0x'' @ hex8 c), s3))"

fun dna_words :: "'d fenv \<Rightarrow> nat \<Rightarrow> u32 \<Rightarrow> 'd fpgad \<Rightarrow> bytes option \<times> 'd fpgad" where
  "dna_words E 0 a s = (Some [], s)"
| "dna_words E (Suc n) a s =
     (case hw_rd_abs E a s of
        (None, s1) \<Rightarrow> (None, s1)
      | (Some w, s1) \<Rightarrow>
          (case dna_words E n (a + 4) s1 of
             (None, s2) \<Rightarrow> (None, s2)
           | (Some bs, s2) \<Rightarrow> (Some (be_word_bytes w @ bs), s2)))"

definition op_device_dna :: "'d fenv \<Rightarrow> 'd fpgad \<Rightarrow> reply \<times> 'd fpgad" where
  "op_device_dna E s =
     (case dna_words E 4 0xFFCA0050 s of
        (None, s1) \<Rightarrow> ((SDR_HARDFAIL, []), s1)
      | (Some bs, s1) \<Rightarrow> ((SDR_OK, bs), s1))"

definition op_random :: "'d fenv \<Rightarrow> pqcs_req \<Rightarrow> 'd fpgad \<Rightarrow> reply \<times> 'd fpgad" where
  "op_random E q s =
     (if pq_a0 q = 0 \<or> pq_a0 q > PQCS_MAXPAY then ((SDR_INARGERR, []), s)
      else case trng_bytes E (unat (pq_a0 q)) s of
        (None, s1) \<Rightarrow> ((SDR_HARDFAIL, []), s1)
      | (Some bs, s1) \<Rightarrow> ((SDR_OK, bs), s1))"

section \<open>ML-KEM\<close>

definition op_mlkem_keygen :: "'d fenv \<Rightarrow> pqcs_req \<Rightarrow> 'd fpgad \<Rightarrow> reply \<times> 'd fpgad" where
  "op_mlkem_keygen E q s =
     (if pq_a0 q > 2 then ((SDR_INARGERR, []), s)
      else let h = first_free (kem_keys s) in
        if h = PL_KEY_SLOTS then ((SDR_UNKNOWERR, []), s)
        else case seed_new_clean E SEED_TGT_MLKEM SEED_BLOB_MAX s of
          (None, s1) \<Rightarrow> ((SDR_HARDFAIL, []), s1)
        | (Some blob, s1) \<Rightarrow>
            let s2 = s1\<lparr>kem_keys := (kem_keys s1)[h := (kem_keys s1 ! h)\<lparr>ke_blob := blob\<rparr>]\<rparr> in
            case mlkem_run E 0 (pq_a0 q) (MKM_CHAIN OR MKM_SEED_STAGED) [] 4900 s2 of
              (Inl _, s3) \<Rightarrow> ((SDR_HARDFAIL, []), s3)
            | (Inr (n, buf), s3) \<Rightarrow>
                if n \<noteq> ek_len (pq_a0 q) then ((SDR_HARDFAIL, []), s3)
                else ((SDR_OK, put_u32 (of_nat h) @ take (ek_len (pq_a0 q)) buf),
                      s3\<lparr>kem_keys := (kem_keys s3)
                           [h := (kem_keys s3 ! h)\<lparr>ke_used := True, ke_pset := pq_a0 q\<rparr>]\<rparr>))"

definition op_mlkem_encaps :: "'d fenv \<Rightarrow> pqcs_req \<Rightarrow> bytes \<Rightarrow> 'd fpgad \<Rightarrow> reply \<times> 'd fpgad" where
  "op_mlkem_encaps E q pay s =
     (if pq_a0 q > 2 then ((SDR_INARGERR, []), s)
      else let eklen = ek_len (pq_a0 q) in
        if unat (pq_len q) \<noteq> eklen \<or> eklen + 32 > 1700 then ((SDR_INARGERR, []), s)
        else case trng_bytes E 32 s of
          (None, s1) \<Rightarrow> ((SDR_HARDFAIL, []), s1)
        | (Some m, s1) \<Rightarrow>
            (case mlkem_run E 1 (pq_a0 q) 0 (m @ take eklen pay) 1700 s1 of
               (Inl _, s2) \<Rightarrow> ((SDR_HARDFAIL, []), s2)
             | (Inr (n, buf), s2) \<Rightarrow>
                 if n \<noteq> 32 + ct_len (pq_a0 q) then ((SDR_HARDFAIL, []), s2) else ((SDR_OK, buf), s2)))"

definition op_mlkem_decaps :: "'d fenv \<Rightarrow> pqcs_req \<Rightarrow> bytes \<Rightarrow> 'd fpgad \<Rightarrow> reply \<times> 'd fpgad" where
  "op_mlkem_decaps E q pay s =
     (if \<not> key_live (kem_keys s) (pq_a0 q) then ((SDR_KEYNOTEXIST, []), s)
      else let k = kem_keys s ! unat (pq_a0 q); ctlen = ct_len (ke_pset k) in
        if unat (pq_len q) \<noteq> ctlen \<or> ctlen > 4800 then ((SDR_INARGERR, []), s)
        else case seed_replay_clean E SEED_TGT_MLKEM (ke_blob k) s of (ok, s1) \<Rightarrow>
          if \<not> ok then ((SDR_HARDFAIL, []), s1)
          else case mlkem_run E 2 (ke_pset k) (MKM_CHAIN OR MKM_SEED_STAGED) (take ctlen pay)
                      (unat PQCS_MAXPAY) s1 of
            (Inl _, s2) \<Rightarrow> ((SDR_HARDFAIL, []), s2)
          | (Inr (n, buf), s2) \<Rightarrow> ((SDR_OK, buf), s2))"

section \<open>ML-DSA\<close>

definition op_mldsa_keygen :: "'d fenv \<Rightarrow> pqcs_req \<Rightarrow> 'd fpgad \<Rightarrow> (reply \<times> 'd fpgad) option" where
  "op_mldsa_keygen E q s =
     (if pq_a0 q > 2 then Some ((SDR_INARGERR, []), s)
      else let h = first_free (dsa_keys s) in
        if h = MLDSA_KEY_SLOTS then Some ((SDR_UNKNOWERR, []), s)
        else case seed_new_clean E SEED_TGT_MLDSA SEED_BLOB_MAX s of
          (None, s1) \<Rightarrow> Some ((SDR_HARDFAIL, []), s1)
        | (Some blob, s1) \<Rightarrow>
            let s2 = s1\<lparr>dsa_keys := (dsa_keys s1)[h := (dsa_keys s1 ! h)\<lparr>ke_blob := blob\<rparr>]\<rparr> in
            do {
              (r, s3) \<leftarrow> mldsa_run E MDO_KEYGEN (pq_a0 q) (MDM_CHAIN OR MDM_SEED_STAGED) [] 0 0
                           (unat PQCS_MAXPAY - 4) s2;
              case r of
                Inl _ \<Rightarrow> Some ((SDR_HARDFAIL, []), s3)
              | Inr (n, buf, _) \<Rightarrow>
                  if n \<noteq> pk_len (pq_a0 q) then Some ((SDR_HARDFAIL, []), s3)
                  else Some ((SDR_OK, put_u32 (of_nat h) @ buf),
                             s3\<lparr>dsa_keys := (dsa_keys s3)
                                  [h := (dsa_keys s3 ! h)\<lparr>ke_used := True, ke_pset := pq_a0 q\<rparr>]\<rparr>)
            })"

definition op_mldsa_sign ::
    "'d fenv \<Rightarrow> pqcs_req \<Rightarrow> bytes \<Rightarrow> 'd fpgad \<Rightarrow> (reply \<times> 'd fpgad) option" where
  "op_mldsa_sign E q pay s =
     (if \<not> key_live (dsa_keys s) (pq_a0 q) then Some ((SDR_KEYNOTEXIST, []), s)
      else if pq_a1 q \<noteq> 0 then Some ((SDR_INARGERR, []), s)
      else if 32 + pq_len q > PQCS_MAXPAY then Some ((SDR_INARGERR, []), s)
      else let k = dsa_keys s ! unat (pq_a0 q) in
        case heap_ok E (dv s) of (got, d) \<Rightarrow>
          let s0 = s\<lparr>dv := d\<rparr> in
          if \<not> got then Some ((SDR_UNKNOWERR, []), s0)
          else case trng_bytes E 32 s0 of
            (None, s1) \<Rightarrow> Some ((SDR_HARDFAIL, []), s1)
          | (Some rnd, s1) \<Rightarrow>
              (case seed_replay_clean E SEED_TGT_MLDSA (ke_blob k) s1 of (ok, s2) \<Rightarrow>
                 if \<not> ok then Some ((SDR_HARDFAIL, []), s2)
                 else do {
                   (r, s3) \<leftarrow> mldsa_run E MDO_SIGN (ke_pset k) (MDM_CHAIN OR MDM_SEED_STAGED)
                                (rnd @ pay) (pq_len q) 0 (unat PQCS_MAXPAY) s2;
                   case r of
                     Inl _ \<Rightarrow> Some ((SDR_HARDFAIL, []), s3)
                   | Inr (n, buf, _) \<Rightarrow>
                       if n \<noteq> sig_len (ke_pset k) then Some ((SDR_HARDFAIL, []), s3)
                       else Some ((SDR_OK, buf), s3)
                 }))"

definition op_mldsa_verify ::
    "'d fenv \<Rightarrow> pqcs_req \<Rightarrow> bytes \<Rightarrow> 'd fpgad \<Rightarrow> (reply \<times> 'd fpgad) option" where
  "op_mldsa_verify E q pay s =
     (if pq_a0 q > 2 then Some ((SDR_INARGERR, []), s)
      else if pq_a1 q \<noteq> 0 then Some ((SDR_INARGERR, []), s)
      else let pklen = pk_len (pq_a0 q); siglen = sig_len (pq_a0 q) in
        if unat (pq_len q) < pklen + siglen then Some ((SDR_INARGERR, []), s)
        else do {
          (r, s1) \<leftarrow> mldsa_run E MDO_VERIFY (pq_a0 q) 0 pay
                       (of_nat (unat (pq_len q) - pklen - siglen)) 0 (unat PQCS_MAXPAY) s;
          case r of
            Inl _ \<Rightarrow> Some ((SDR_HARDFAIL, []), s1)
          | Inr (_, _, good) \<Rightarrow> Some ((if good then SDR_OK else SDR_VERIFYFAIL, []), s1)
        })"

section \<open>Symmetric keys, blobs and blocks\<close>

definition op_symkey_gen :: "'d fenv \<Rightarrow> pqcs_req \<Rightarrow> 'd fpgad \<Rightarrow> reply \<times> 'd fpgad" where
  "op_symkey_gen E q s =
     (if pq_a0 q \<ge> PQCS_SYM_KAT_SLOT \<or> (pq_a1 q \<noteq> 16 \<and> pq_a1 q \<noteq> 32) then ((SDR_INARGERR, []), s)
      else case ta_symkey_cmd E TA_PQCHSM_CMD_SYMKEY_NEW (pq_a0 q) (pq_a1 q)
                  [TeeOut (unat PQCS_SYMKEY_BLOB_MAX)] s of
        (None, s1) \<Rightarrow> ((SDR_HARDFAIL, []), s1)
      | (Some blob, s1) \<Rightarrow> ((SDR_OK, blob), s1))"

definition op_symkey_load :: "'d fenv \<Rightarrow> pqcs_req \<Rightarrow> bytes \<Rightarrow> 'd fpgad \<Rightarrow> reply \<times> 'd fpgad" where
  "op_symkey_load E q pay s =
     (if pq_a0 q \<ge> PQCS_SYM_KAT_SLOT \<or> pq_len q = 0 \<or> pq_len q > PQCS_SYMKEY_BLOB_MAX
      then ((SDR_INARGERR, []), s)
      else case ta_symkey_cmd E TA_PQCHSM_CMD_SYMKEY_LOAD (pq_a0 q) 0 [TeeIn pay] s of
        (None, s1) \<Rightarrow> ((SDR_KEYNOTEXIST, []), s1)
      | (Some _, s1) \<Rightarrow> ((SDR_OK, []), s1))"

definition op_symkey_kat :: "'d fenv \<Rightarrow> pqcs_req \<Rightarrow> 'd fpgad \<Rightarrow> reply \<times> 'd fpgad" where
  "op_symkey_kat E q s =
     (case ta_symkey_cmd E TA_PQCHSM_CMD_SYMKEY_KAT PQCS_SYM_KAT_SLOT (pq_a0 q) [] s of
        (None, s1) \<Rightarrow> ((SDR_INARGERR, []), s1)
      | (Some _, s1) \<Rightarrow> ((SDR_OK, []), s1))"

definition op_blob_export :: "pqcs_req \<Rightarrow> 'd fpgad \<Rightarrow> reply" where
  "op_blob_export q s =
     (if pq_a0 q = 0 \<and> key_live (kem_keys s) (pq_a1 q)
      then (SDR_OK, ke_blob (kem_keys s ! unat (pq_a1 q)))
      else if pq_a0 q = 1 \<and> key_live (dsa_keys s) (pq_a1 q)
      then (SDR_OK, ke_blob (dsa_keys s ! unat (pq_a1 q)))
      else (SDR_KEYNOTEXIST, []))"

definition op_blob_import :: "pqcs_req \<Rightarrow> bytes \<Rightarrow> 'd fpgad \<Rightarrow> reply \<times> 'd fpgad" where
  "op_blob_import q pay s =
     (if pq_a0 q > 1 \<or> pq_a1 q > 2 \<or> pq_len q = 0 \<or> unat (pq_len q) > SEED_BLOB_MAX
      then ((SDR_INARGERR, []), s)
      else let k = \<lparr>ke_used = True, ke_pset = pq_a1 q, ke_blob = pay\<rparr> in
        if pq_a0 q = 0 then
          (let h = first_free (kem_keys s) in
           if h = PL_KEY_SLOTS then ((SDR_UNKNOWERR, []), s)
           else ((SDR_OK, put_u32 (of_nat h)), s\<lparr>kem_keys := (kem_keys s)[h := k]\<rparr>))
        else
          (let h = first_free (dsa_keys s) in
           if h = MLDSA_KEY_SLOTS then ((SDR_UNKNOWERR, []), s)
           else ((SDR_OK, put_u32 (of_nat h)), s\<lparr>dsa_keys := (dsa_keys s)[h := k]\<rparr>)))"

definition op_sym_block :: "'d fenv \<Rightarrow> pqcs_req \<Rightarrow> bytes \<Rightarrow> 'd fpgad \<Rightarrow> reply \<times> 'd fpgad" where
  "op_sym_block E q pay s =
     (let slot = pq_a1 q AND 0xFF; dec = drop_bit 8 (pq_a1 q) AND 1 in
      if pq_len q \<noteq> 16 then ((SDR_INARGERR, []), s)
      else if pq_a0 q > 2 \<or> slot > 7 then ((SDR_INARGERR, []), s)
      else case sym_block E (pq_a0 q) slot (dec \<noteq> 0) pay s of
        (Inl _, s1) \<Rightarrow> ((SDR_HARDFAIL, []), s1)
      | (Inr out, s1) \<Rightarrow> ((SDR_OK, out), s1))"

definition op_sm3 :: "'d fenv \<Rightarrow> pqcs_req \<Rightarrow> bytes \<Rightarrow> 'd fpgad \<Rightarrow> reply \<times> 'd fpgad" where
  "op_sm3 E q pay s =
     (if pq_len q = 0 \<or> pq_len q > PQCS_MAXPAY then ((SDR_INARGERR, []), s)
      else case sym_sm3 E pay s of
        (Inl _, s1) \<Rightarrow> ((SDR_HARDFAIL, []), s1)
      | (Inr out, s1) \<Rightarrow> ((SDR_OK, out), s1))"

definition op_sym_crypt :: "'d fenv \<Rightarrow> pqcs_req \<Rightarrow> bytes \<Rightarrow> 'd fpgad \<Rightarrow> reply \<times> 'd fpgad" where
  "op_sym_crypt E q pay s =
     (let alg = pq_a0 q AND 0xFF; dec = drop_bit 8 (pq_a0 q) AND 1;
          mode = drop_bit 16 (pq_a0 q) AND 0xFF; slot = pq_a1 q AND 0xFF; dlen = pq_len q - 16 in
      if alg > 2 \<or> slot > 7 \<or> mode > PQCS_MODE_OFB then ((SDR_INARGERR, []), s)
      else if pq_len q < 16 then ((SDR_INARGERR, []), s)
      else if dlen = 0 then ((SDR_INARGERR, []), s)
      else if (mode = PQCS_MODE_ECB \<or> mode = PQCS_MODE_CBC) \<and> dlen mod 16 \<noteq> 0
      then ((SDR_INARGERR, []), s)
      else if dlen > PQCS_MAXPAY then ((SDR_INARGERR, []), s)
      else case sym_crypt E alg slot (dec \<noteq> 0) mode (take 16 pay) (drop 16 pay) s of
        (None, s1) \<Rightarrow> ((SDR_HARDFAIL, []), s1)
      | (Some out, s1) \<Rightarrow> ((SDR_OK, out), s1))"

section \<open>The dispatcher\<close>

definition handle_op ::
    "'d fenv \<Rightarrow> pqcs_req \<Rightarrow> bytes \<Rightarrow> 'd fpgad \<Rightarrow> (reply \<times> 'd fpgad) option" where
  "handle_op E q pay s =
     (let c = pq_op q in
      if c = OP_PING then Some (op_ping E s)
      else if c = OP_DEVICE_DNA then Some (op_device_dna E s)
      else if c = OP_RANDOM then Some (op_random E q s)
      else if c = OP_MLKEM_KEYGEN then Some (op_mlkem_keygen E q s)
      else if c = OP_MLKEM_ENCAPS then Some (op_mlkem_encaps E q pay s)
      else if c = OP_MLKEM_DECAPS then Some (op_mlkem_decaps E q pay s)
      else if c = OP_MLDSA_KEYGEN then op_mldsa_keygen E q s
      else if c = OP_MLDSA_SIGN then op_mldsa_sign E q pay s
      else if c = OP_MLDSA_VERIFY then op_mldsa_verify E q pay s
      else if c = OP_IMPORT_KEY then Some ((SDR_NOTSUPPORT, []), s)
      else if c = OP_SYMKEY_GEN then Some (op_symkey_gen E q s)
      else if c = OP_SYMKEY_LOAD then Some (op_symkey_load E q pay s)
      else if c = OP_PQC_BLOB_EXPORT then Some (op_blob_export q s, s)
      else if c = OP_PQC_BLOB_IMPORT then Some (op_blob_import q pay s)
      else if c = OP_SYMKEY_KAT then Some (op_symkey_kat E q s)
      else if c = OP_SYM_BLOCK then Some (op_sym_block E q pay s)
      else if c = OP_SM3 then Some (op_sm3 E q pay s)
      else if c = OP_SYM_CRYPT then Some (op_sym_crypt E q pay s)
      else Some ((SDR_INARGERR, []), s))"

end
