(* ===== verification/Fpga_Daemon.thy ===== *)
theory Fpga_Daemon
  imports Fpga_Ops
begin

text \<open>
  src/service/pqchsm\_fpgad.c, last part, and the access list of src/service/pqcs\_tls.c: one request
  and one connection, the limit on failed handshakes, the start with its self tests, and the loop
  over the connections. A connection is the bytes it delivers before it ends and, for a remote one,
  the outcome of its TLS handshake.
\<close>

section \<open>One request\<close>

definition serve_req ::
    "'d fenv \<Rightarrow> pqcs_req \<Rightarrow> bytes \<Rightarrow> 'd fpgad \<Rightarrow> (reply \<times> 'd fpgad) option" where
  "serve_req E q pay s =
     (case wait_not_wiping E MK_STATUS MKS_WIPING (s\<lparr>hw_fault := False\<rparr>) of (ok, s1) \<Rightarrow>
        if \<not> ok then Some ((SDR_HARDFAIL, []), s1)
        else case wait_not_wiping E MD_STATUS MDS_WIPING s1 of (ok, s2) \<Rightarrow>
          if \<not> ok then Some ((SDR_HARDFAIL, []), s2)
          else do {
            ((st, body), s3) \<leftarrow> handle_op E q pay (s2\<lparr>hw_fault := False\<rparr>);
            if hw_fault s3 \<and> st = SDR_OK then Some ((SDR_HARDFAIL, []), s3)
            else Some ((st, body), s3)
          })"

section \<open>One connection\<close>

text \<open>
  read\_all and write\_all, and their TLS twins: \<open>sock_io\<close> says how many bytes the next call moves,
  nothing for an error, a timeout or the end.
\<close>

function read_all :: "'d fenv \<Rightarrow> nat \<Rightarrow> bytes \<Rightarrow> 'd fpgad \<Rightarrow> bytes option \<times> bytes \<times> 'd fpgad" where
  "read_all E n inp s =
     (if n = 0 then (Some [], inp, s)
      else case sock_io E n (dv s) of (k, d) \<Rightarrow>
        let r = min k (min n (length inp)); s1 = s\<lparr>dv := d\<rparr> in
        if r = 0 then (None, inp, s1)
        else case read_all E (n - r) (drop r inp) s1 of
          (None, rest, s2) \<Rightarrow> (None, rest, s2)
        | (Some bs, rest, s2) \<Rightarrow> (Some (take r inp @ bs), rest, s2))"
  by pat_completeness auto

termination read_all
  by (relation "measure (\<lambda>(E, n, inp, s). n)") auto

declare read_all.simps [simp del]

function write_all :: "'d fenv \<Rightarrow> bytes \<Rightarrow> 'd fpgad \<Rightarrow> bool \<times> bytes \<times> 'd fpgad" where
  "write_all E bs s =
     (if bs = [] then (True, [], s)
      else case sock_io E (length bs) (dv s) of (k, d) \<Rightarrow>
        let r = min k (length bs); s1 = s\<lparr>dv := d\<rparr> in
        if r = 0 then (False, [], s1)
        else case write_all E (drop r bs) s1 of
          (ok, sent, s2) \<Rightarrow> (ok, take r bs @ sent, s2))"
  by pat_completeness auto

termination write_all
  by (relation "measure (\<lambda>(E, bs, s). length bs)") auto

declare write_all.simps [simp del]

definition parse_req :: "bytes \<Rightarrow> pqcs_req" where
  "parse_req h =
     \<lparr>pq_magic = get_u32 h, pq_op = get_u32 (drop 4 h), pq_a0 = get_u32 (drop 8 h),
      pq_a1 = get_u32 (drop 12 h), pq_len = get_u32 (drop 16 h)\<rparr>"

definition resp_bytes :: "reply \<Rightarrow> bytes" where
  "resp_bytes r = put_u32 PQCS_MAGIC @ put_u32 (fst r) @ put_u32 (of_nat (length (snd r)) :: u32)"

text \<open>The head of the answer, then its body; the first short write ends the connection.\<close>

definition send_reply :: "'d fenv \<Rightarrow> reply \<Rightarrow> 'd fpgad \<Rightarrow> bool \<times> bytes \<times> 'd fpgad" where
  "send_reply E r s =
     (case write_all E (resp_bytes r) s of (ok, sent, s1) \<Rightarrow>
        if \<not> ok then (False, sent, s1)
        else case write_all E (snd r) s1 of (ok2, sent2, s2) \<Rightarrow> (ok2, sent @ sent2, s2))"

lemma read_all_result:
  "read_all E n inp s = (Some bs, inp', s') \<Longrightarrow> inp = bs @ inp' \<and> length bs = n"
proof (induction E n inp s arbitrary: bs inp' s' rule: read_all.induct)
  case (1 E n inp s)
  obtain k d where io: "sock_io E n (dv s) = (k, d)" by fastforce
  show ?case
  proof (cases "n = 0")
    case True
    then show ?thesis using "1.prems" by (simp add: read_all.simps)
  next
    case False
    define r where "r = min k (min n (length inp))"
    have r: "r \<noteq> 0" using "1.prems" False io by (auto simp: read_all.simps Let_def r_def split: if_splits)
    obtain bs2 where rest: "read_all E (n - r) (drop r inp) (s\<lparr>dv := d\<rparr>) = (Some bs2, inp', s')"
      and bs: "bs = take r inp @ bs2"
      using "1.prems" False io r
      by (subst (asm) (2) read_all.simps)
        (auto simp: Let_def r_def[symmetric] split: option.splits prod.splits if_splits)
    have "drop r inp = bs2 @ inp' \<and> length bs2 = n - r"
      using "1.IH"[OF False io[symmetric] r_def refl r rest] by simp
    moreover have "r \<le> n" "r \<le> length inp" by (simp_all add: r_def)
    moreover have "inp = take r inp @ drop r inp" by simp
    ultimately show ?thesis using bs by auto
  qed
qed

text \<open>\<open>None\<close>: a request on the connection never returned.\<close>

function serve_conn ::
    "'d fenv \<Rightarrow> bytes \<Rightarrow> bytes \<Rightarrow> 'd fpgad \<Rightarrow> (bytes \<times> 'd fpgad) option" where
  "serve_conn E inp out s =
     (case read_all E 20 inp s of
        (None, _, s1) \<Rightarrow> Some (out, s1)
      | (Some hdr, inp1, s1) \<Rightarrow>
          (let q = parse_req hdr in
           if pq_magic q \<noteq> PQCS_MAGIC \<or> pq_len q > PQCS_MAXPAY then Some (out, s1)
           else (case read_all E (unat (pq_len q)) inp1 s1 of
               (None, _, s2) \<Rightarrow> Some (out, s2)
             | (Some pay, inp2, s2) \<Rightarrow>
                 (case serve_req E q pay s2 of
                    None \<Rightarrow> None
                  | Some (r, s3) \<Rightarrow>
                      (case send_reply E r s3 of (ok, sent, s4) \<Rightarrow>
                         if \<not> ok then Some (out @ sent, s4)
                         else serve_conn E inp2 (out @ sent) s4)))))"
  by pat_completeness auto

termination serve_conn
  by (relation "measure (\<lambda>(E, inp, out, s). length inp)")
    (auto dest!: read_all_result[OF sym])

declare serve_conn.simps [simp del]

section \<open>Failed handshakes\<close>

definition RL_SLOTS :: nat where "RL_SLOTS = 16"
definition RL_MAX_FAILS :: int where "RL_MAX_FAILS = 8"
definition RL_WINDOW_S :: int where "RL_WINDOW_S = 60"

definition rl_find :: "u32 \<Rightarrow> rl_ent list \<Rightarrow> nat" where
  "rl_find ip tab = length (takeWhile (\<lambda>e. rl_ip e \<noteq> ip \<or> rl_since e = 0) tab)"

definition rl_allow :: "'d fenv \<Rightarrow> u32 \<Rightarrow> 'd fpgad \<Rightarrow> bool \<times> 'd fpgad" where
  "rl_allow E ip s =
     (case time_s E (dv s) of (now, d) \<Rightarrow>
        let s1 = s\<lparr>dv := d\<rparr>; i = rl_find ip (rl_tab s1) in
        if i = length (rl_tab s1) then (True, s1)
        else
          let e = rl_tab s1 ! i;
              e1 = (if now - rl_since e > RL_WINDOW_S then e\<lparr>rl_fails := 0, rl_since := now\<rparr> else e) in
          (rl_fails e1 < RL_MAX_FAILS, s1\<lparr>rl_tab := (rl_tab s1)[i := e1]\<rparr>))"

definition rl_fail :: "'d fenv \<Rightarrow> u32 \<Rightarrow> 'd fpgad \<Rightarrow> 'd fpgad" where
  "rl_fail E ip s =
     (case time_s E (dv s) of (now, d) \<Rightarrow>
        let s1 = s\<lparr>dv := d\<rparr>; i = rl_find ip (rl_tab s1) in
        if i < length (rl_tab s1)
        then s1\<lparr>rl_tab := (rl_tab s1)
                  [i := (rl_tab s1 ! i)\<lparr>rl_fails := rl_fails (rl_tab s1 ! i) + 1\<rparr>]\<rparr>
        else s1\<lparr>rl_tab := (rl_tab s1)[rl_next s1 := \<lparr>rl_ip = ip, rl_fails = 1, rl_since = now\<rparr>],
                rl_next := (rl_next s1 + 1) mod RL_SLOTS\<rparr>)"

section \<open>The access list\<close>

text \<open>fgets into a buffer of \<open>n + 1\<close> bytes: the rest of a longer line is the next piece.\<close>

definition fgets_piece :: "nat \<Rightarrow> bytes \<Rightarrow> bytes" where
  "fgets_piece n f = take n (takeWhile (\<lambda>b. b \<noteq> 10) f @ (if 10 \<in> set f then [10] else []))"

definition is_blank :: "byte \<Rightarrow> bool" where "is_blank b \<longleftrightarrow> b = 32 \<or> b = 9"
definition is_trail :: "byte \<Rightarrow> bool" where "is_trail b \<longleftrightarrow> b = 10 \<or> b = 13 \<or> b = 32 \<or> b = 9"

text \<open>The name on a line, none for an empty line or a comment.\<close>

definition acl_name :: "bytes \<Rightarrow> bytes option" where
  "acl_name line =
     (let p = dropWhile is_blank (c_string line) in
      if p = [] \<or> hd p = 35 \<or> hd p = 10 \<or> hd p = 13 then None
      else Some (rev (dropWhile is_trail (rev p))))"

lemma fgets_piece_shortens: "f \<noteq> [] \<Longrightarrow> 0 < n \<Longrightarrow> length f - length (fgets_piece n f) < length f"
  by (cases f) (auto simp: fgets_piece_def)

function acl_lines :: "bytes \<Rightarrow> bytes \<Rightarrow> bool" where
  "acl_lines cn f =
     (if f = [] then False
      else if acl_name (fgets_piece 255 f) = Some cn then True
      else acl_lines cn (drop (length (fgets_piece 255 f)) f))"
  by pat_completeness auto

termination acl_lines
  by (relation "measure (\<lambda>(cn, f). length f)") (auto intro: fgets_piece_shortens)

declare acl_lines.simps [simp del]

text \<open>\<open>None\<close>: the file could not be opened.\<close>

definition pqcs_tls_acl_allows :: "bytes option \<Rightarrow> bytes \<Rightarrow> bool" where
  "pqcs_tls_acl_allows acl cn = (case acl of None \<Rightarrow> True | Some f \<Rightarrow> acl_lines cn f)"

section \<open>Accepting\<close>

datatype handshake = SslNull | SslRefused | SslNoName | SslName bytes

datatype peer = PeerLocal | PeerRemote u32 handshake

definition admit :: "'d fenv \<Rightarrow> peer \<Rightarrow> 'd fpgad \<Rightarrow> bool \<times> 'd fpgad" where
  "admit E p s =
     (case p of
        PeerLocal \<Rightarrow> (True, s)
      | PeerRemote ip hs \<Rightarrow>
          (case rl_allow E ip s of (ok, s1) \<Rightarrow>
             if \<not> ok then (False, s1)
             else case hs of
               SslNull \<Rightarrow> (False, s1)
             | SslRefused \<Rightarrow> (False, rl_fail E ip s1)
             | SslNoName \<Rightarrow> (False, rl_fail E ip s1)
             | SslName cn \<Rightarrow>
                 (case acl_text E (dv s1) of (acl, d) \<Rightarrow>
                    let s2 = s1\<lparr>dv := d\<rparr> in
                    if pqcs_tls_acl_allows acl (take 127 (c_string cn)) then (True, s2)
                    else (False, rl_fail E ip s2))))"

definition close_session :: "'d fenv \<Rightarrow> 'd fpgad \<Rightarrow> 'd fpgad" where
  "close_session E s = (session_end E (s\<lparr>hw_fault := False\<rparr>))\<lparr>hw_fault := False\<rparr>"

text \<open>One turn of the accept loop; a refused peer gets nothing and leaves no session to end.\<close>

definition accept_one ::
    "'d fenv \<Rightarrow> peer \<times> bytes \<Rightarrow> 'd fpgad \<Rightarrow> (bytes \<times> 'd fpgad) option" where
  "accept_one E c s =
     (case admit E (fst c) s of (ok, s1) \<Rightarrow>
        if \<not> ok then Some ([], s1)
        else do { (out, s2) \<leftarrow> serve_conn E (snd c) [] s1; Some (out, close_session E s2) })"

fun accept_loop ::
    "'d fenv \<Rightarrow> (peer \<times> bytes) list \<Rightarrow> 'd fpgad \<Rightarrow> (bytes list \<times> 'd fpgad) option" where
  "accept_loop E [] s = Some ([], s)"
| "accept_loop E (c # cs) s =
     do { (out, s1) \<leftarrow> accept_one E c s;
          (outs, s2) \<leftarrow> accept_loop E cs s1;
          Some (out # outs, s2) }"

section \<open>Starting\<close>

text \<open>What the operating system says at the start; errno of the SEED ioctl, nothing if it worked.\<close>

record fpgad_os =
  os_pl_state :: "bytes option"
  os_open :: bool
  os_arm :: bool
  os_seed_ns :: "int option"
  os_creds :: "bool list"
  os_tls_ctx :: bool
  os_unix :: "bool list"
  os_tcp :: "bool list"

definition ENOTTY :: int where "ENOTTY = 25"

definition strstr :: "bytes \<Rightarrow> bytes \<Rightarrow> bool" where
  "strstr s pat \<longleftrightarrow> list_ex (\<lambda>i. take (length pat) (drop i s) = pat) [0..<Suc (length s)]"

definition fpgad_init :: "'d \<Rightarrow> 'd fpgad" where
  "fpgad_init d =
     \<lparr>dv = d, hw_fault = False, g_tee_open = False, kem_keys = replicate PL_KEY_SLOTS no_key,
      dsa_keys = replicate MLDSA_KEY_SLOTS no_key,
      rl_tab = replicate RL_SLOTS \<lparr>rl_ip = 0, rl_fails = 0, rl_since = 0\<rparr>, rl_next = 0\<rparr>"

text \<open>The self tests: the way to the core, the way that must be closed, the way of the seeds.\<close>

definition self_test :: "'d fenv \<Rightarrow> int option \<Rightarrow> 'd fpgad \<Rightarrow> bool \<times> 'd fpgad" where
  "self_test E seed_ns s =
     (case hw_rd E TR_VERSION s of (v, s1) \<Rightarrow>
        if v \<noteq> Some CORE_VERSION then (False, s1)
        else if seed_ns = None \<or> seed_ns = Some ENOTTY then (False, s1)
        else case sec_seed_load E SEED_TGT_MLKEM s1 of (ok, s2) \<Rightarrow>
          if \<not> ok then (False, s2) else (True, snd (hw_wr E MK_CTRL MKC_SEEDCLR s2)))"

text \<open>An exit code, or the daemon and whether it listens on the TCP port.\<close>

definition fpgad_start :: "'d fenv \<Rightarrow> fpgad_os \<Rightarrow> 'd \<Rightarrow> nat + bool \<times> 'd fpgad" where
  "fpgad_start E os d =
     (case os_pl_state os of
        None \<Rightarrow> Inl 2
      | Some f \<Rightarrow>
          if f = [] \<or> \<not> strstr (c_string (fgets_piece 63 f)) (cstr ''operating'')
          then Inl 2
          else if \<not> os_open os \<or> \<not> os_arm os then Inl 2
          else case self_test E (os_seed_ns os) (fpgad_init d) of (ok, s) \<Rightarrow>
            if \<not> ok then Inl 2
            else if \<not> list_all id (os_unix os) then Inl 1
            else Inr (list_all id (os_creds os) \<and> os_tls_ctx os \<and> list_all id (os_tcp os), s))"

definition fpgad_main ::
    "'d fenv \<Rightarrow> fpgad_os \<Rightarrow> (peer \<times> bytes) list \<Rightarrow> 'd \<Rightarrow> nat + (bytes list \<times> 'd fpgad) option" where
  "fpgad_main E os conns d =
     (case fpgad_start E os d of
        Inl code \<Rightarrow> Inl code
      | Inr (tcp, s) \<Rightarrow> Inr (accept_loop E (filter (\<lambda>c. tcp \<or> fst c = PeerLocal) conns) s))"

end
