(* ===== verification/Fpga_Keep.thy ===== *)
theory Fpga_Keep
  imports Fpga_Daemon
begin

text \<open>
  What every access of the FPGA daemon to the outside keeps, every operation keeps. The locale
  \<open>bus_keep\<close> is the interface between the primitives (a register read, a register write, a command
  to the trusted application, a look at the clock, an allocation) and the operations built from
  them; \<open>bus_keep_keys\<close> adds the two handle tables. The interpretations at the end give the facts
  the properties rest on: a failed access sticks, the drivers leave the tables alone, and a log of
  the accesses shows a failure only under the flag.
\<close>

named_theorems keep_intros \<open>operations keep what the primitives keep\<close>

lemma feed_packed_induction:
  assumes "\<And>off v s. P s \<Longrightarrow> P (wr E off v s)" and "P s"
  shows "P (feed_packed E r4 r1 bs s)"
  using assms by (induction E r4 r1 bs s rule: feed_packed.induct) auto

lemma mldsa_wait_induction:
  assumes "mldsa_wait E dl i st s = Some r"
    and "\<And>t. P t \<Longrightarrow> P (snd (rd E MD_STATUS t))" and "\<And>t. P t \<Longrightarrow> P (snd (now_ms E t))" and "P s"
  shows "P (snd (snd r))"
proof -
  have "(\<forall>t. P t \<longrightarrow> P (snd (rd E MD_STATUS t))) \<longrightarrow> (\<forall>t. P t \<longrightarrow> P (snd (now_ms E t))) \<longrightarrow>
    P s \<longrightarrow> P (snd (snd r))"
    using assms(1)
    by (rule mldsa_wait.raw_induct[of "\<lambda>E dl i st s r.
      (\<forall>t. P t \<longrightarrow> P (snd (rd E MD_STATUS t))) \<longrightarrow> (\<forall>t. P t \<longrightarrow> P (snd (now_ms E t))) \<longrightarrow> P s \<longrightarrow>
      P (snd (snd r))", rotated]) (auto simp: Let_def split: if_splits)
  then show ?thesis using assms(2-4) by blast
qed

lemma pred_bind:
  "(\<And>a b. x = Some (a, b) \<Longrightarrow> pred_option Q (f (a, b))) \<Longrightarrow> pred_option Q (Option.bind x f)"
  by (cases x) auto

locale bus_keep =
  fixes E :: "'d fenv" and P :: "'d fpgad \<Rightarrow> bool"
  assumes rd_keep [keep_intros]: "P s \<Longrightarrow> P (snd (rd E off s))"
    and wr_keep [keep_intros]: "P s \<Longrightarrow> P (wr E off v s)"
    and init_keep: "P s \<Longrightarrow> P (s\<lparr>dv := snd (tee_init E (dv s))\<rparr>)"
    and session_keep: "P s \<Longrightarrow> P (s\<lparr>dv := snd (tee_session E (dv s))\<rparr>)"
    and invoke_keep: "P s \<Longrightarrow> P (s\<lparr>dv := snd (tee_invoke E r (dv s))\<rparr>)"
    and close_keep: "P s \<Longrightarrow> P (s\<lparr>dv := tee_close E (dv s)\<rparr>)"
    and fini_keep: "P s \<Longrightarrow> P (s\<lparr>dv := tee_fini E (dv s)\<rparr>)"
    and clock_keep: "P s \<Longrightarrow> P (s\<lparr>dv := snd (clock_ms E (dv s))\<rparr>)"
    and heap_keep: "P s \<Longrightarrow> P (s\<lparr>dv := snd (heap_ok E (dv s))\<rparr>)"
    and open_keep: "P s \<Longrightarrow> P (s\<lparr>g_tee_open := True\<rparr>)"
begin

lemma now_ms_keep [keep_intros]: "P s \<Longrightarrow> P (snd (now_ms E s))"
  using clock_keep[of s] by (simp add: now_ms_def split_beta)

lemma spin_keep [keep_intros]: "P s \<Longrightarrow> P (spin E reg b k s)"
proof (induction k arbitrary: s)
  case (Suc k)
  then show ?case using rd_keep by (subst spin.simps) (auto simp: split_beta)
qed (simp add: spin.simps)

lemma spin_check_keep [keep_intros]: "P s \<Longrightarrow> P (snd (spin_check E reg b k s))"
  by (simp add: spin_check_def split_beta keep_intros)

lemma wait_clear_keep [keep_intros]: "P s \<Longrightarrow> P (snd (wait_clear E reg b k s))"
proof (induction k arbitrary: s)
  case (Suc k)
  then show ?case using rd_keep by (subst wait_clear.simps) (auto simp: split_beta)
qed (simp add: wait_clear.simps)

lemma wait_keep [keep_intros]:
  "P s \<Longrightarrow> P (snd (wait_exp_idle E reg b s))"
  "P s \<Longrightarrow> P (snd (wait_not_wiping E reg b s))"
  by (simp_all add: wait_exp_idle_def wait_not_wiping_def keep_intros)

lemma tee_session_open_keep [keep_intros]: "P s \<Longrightarrow> P (snd (tee_session_open E s))"
proof -
  assume p: "P s"
  define s1 where "s1 = s\<lparr>dv := snd (tee_init E (dv s))\<rparr>"
  define s2 where "s2 = s1\<lparr>dv := snd (tee_session E (dv s1))\<rparr>"
  define s3 where "s3 = s2\<lparr>dv := snd (tee_invoke E (TA_PQCHSM_CMD_KEK_SET, [TeeIn kek_salt]) (dv s2))\<rparr>"
  have "P s1" using init_keep[OF p] by (simp add: s1_def)
  moreover have "P s2" using session_keep[OF \<open>P s1\<close>] by (simp add: s2_def)
  moreover have "P s3" using invoke_keep[OF \<open>P s2\<close>] by (simp add: s3_def)
  moreover have "P (s3\<lparr>g_tee_open := True\<rparr>)" using \<open>P s3\<close> by (rule open_keep)
  moreover have "P (s2\<lparr>dv := tee_fini E (dv s2)\<rparr>)" using \<open>P s2\<close> by (rule fini_keep)
  moreover have "P (s3\<lparr>dv := tee_fini E (tee_close E (dv s3))\<rparr>)"
    using fini_keep[OF close_keep[OF \<open>P s3\<close>]] by simp
  ultimately show ?thesis
    using p by (simp add: tee_session_open_def split_beta s1_def s2_def s3_def split: option.splits)
qed

lemma ta_keep [keep_intros]:
  "P s \<Longrightarrow> P (snd (ta_cmd E cmd ps s))"
  "P s \<Longrightarrow> P (snd (ta_seed_new E tgt cap s))"
  "P s \<Longrightarrow> P (snd (ta_seed_replay E tgt blob s))"
  "P s \<Longrightarrow> P (snd (ta_symkey_cmd E cmd a b ps s))"
proof -
  show cmd: "P s \<Longrightarrow> P (snd (ta_cmd E cmd ps s))" for cmd ps
    using invoke_keep[OF tee_session_open_keep] tee_session_open_keep
    by (simp add: ta_cmd_def split_beta)
  then show "P s \<Longrightarrow> P (snd (ta_seed_new E tgt cap s))"
    "P s \<Longrightarrow> P (snd (ta_seed_replay E tgt blob s))"
    "P s \<Longrightarrow> P (snd (ta_symkey_cmd E cmd a b ps s))"
    by (simp_all add: ta_seed_new_def ta_seed_replay_def ta_symkey_cmd_def split_beta)
qed

lemma trng_words_keep [keep_intros]: "P s \<Longrightarrow> P (snd (trng_words E n s))"
proof (induction n arbitrary: s rule: less_induct)
  case (less n)
  show ?case
  proof (cases "n = 0")
    case False
    then have "n - min n 4 < n" by simp
    then show ?thesis using less False
      by (subst trng_words.simps) (auto simp: split_beta keep_intros split: option.splits)
  qed (use less.prems in \<open>simp add: trng_words.simps\<close>)
qed

lemma trng_bytes_keep [keep_intros]: "P s \<Longrightarrow> P (snd (trng_bytes E n s))"
  by (simp add: trng_bytes_def split_beta keep_intros)

lemma feed_packed_keep [keep_intros]: "P s \<Longrightarrow> P (feed_packed E r4 r1 bs s)"
  by (rule feed_packed_induction) (rule wr_keep)

lemma drain_packed_keep [keep_intros]: "P s \<Longrightarrow> P (snd (drain_packed E r4 r1 n s))"
proof (induction n arbitrary: s rule: less_induct)
  case (less n)
  show ?case
  proof (cases "n = 0")
    case False
    then have "n - 4 < n" "n - 1 < n" by simp_all
    then show ?thesis using less False rd_keep
      by (subst drain_packed.simps) (auto simp: split_beta)
  qed (use less.prems in \<open>simp add: drain_packed.simps\<close>)
qed

lemma mlkem_wait_keep [keep_intros]: "P s \<Longrightarrow> P (snd (mlkem_wait E k s))"
proof (induction k arbitrary: s)
  case (Suc k)
  then show ?case using rd_keep by (subst mlkem_wait.simps) (auto simp: split_beta)
qed (simp add: mlkem_wait.simps)

lemma mlkem_run_keep [keep_intros]: "P s \<Longrightarrow> P (snd (mlkem_run E mode ps ex inp cap s))"
  by (simp add: mlkem_run_def split_beta Let_def keep_intros)

lemma mldsa_wait_keep: "mldsa_wait E dl i st s = Some r \<Longrightarrow> P s \<Longrightarrow> P (snd (snd r))"
  by (erule mldsa_wait_induction) (auto intro: keep_intros)

lemma mldsa_finish_keep [keep_intros]: "P s \<Longrightarrow> P (snd (mldsa_finish E cap st s))"
  by (simp add: mldsa_finish_def split_beta keep_intros)

lemma mldsa_load_keep [keep_intros]: "P s \<Longrightarrow> P (mldsa_load E inp ml cl s)"
  by (simp add: mldsa_load_def Let_def keep_intros)

lemma mldsa_finish_keep': "mldsa_finish E cap st s = (r, s') \<Longrightarrow> P s \<Longrightarrow> P s'"
  using mldsa_finish_keep[of s cap st] by simp

lemma mldsa_run_keep:
  assumes "mldsa_run E op ps ex inp ml cl cap s = Some (r, s')" and "P s"
  shows "P s'"
  using assms
  by (auto simp: mldsa_run_def Let_def split_beta Option.bind_eq_Some_conv keep_intros
      split: if_splits option.splits dest!: mldsa_wait_keep intro: keep_intros
      dest: mldsa_finish_keep')

lemma wr_be_keep [keep_intros]: "P s \<Longrightarrow> P (wr_be E reg n inp s)"
  by (induction n arbitrary: reg inp s) (simp_all add: keep_intros)

lemma rd_be_keep [keep_intros]: "P s \<Longrightarrow> P (snd (rd_be E reg n s))"
  by (induction n arbitrary: reg s) (simp_all add: keep_intros split_beta)

lemma sym_block_keep [keep_intros]: "P s \<Longrightarrow> P (snd (sym_block E alg slot dec inp s))"
  by (simp add: sym_block_def split_beta Let_def keep_intros)

lemma sym_crypt_keep [keep_intros]: "P s \<Longrightarrow> P (snd (sym_crypt E alg slot dec mode iv inp s))"
proof -
  have "P s \<Longrightarrow> P (snd (sym_crypt_loop E alg slot dec mode fb inp s))" for fb
  proof (induction "length inp" arbitrary: fb inp s rule: less_induct)
    case less
    show ?case
    proof (cases "inp = []")
      case False
      then have "length (drop 16 inp) < length inp" by simp
      then show ?thesis using less False sym_block_keep
        by (subst sym_crypt_loop.simps) (simp add: split_beta Let_def split: sum.splits option.splits)
    qed (use less.prems in \<open>simp add: sym_crypt_loop.simps\<close>)
  qed
  then show "P s \<Longrightarrow> P (snd (sym_crypt E alg slot dec mode iv inp s))"
    by (simp add: sym_crypt_def)
qed

lemma sym_sm3_keep [keep_intros]: "P s \<Longrightarrow> P (snd (sym_sm3 E inp s))"
proof -
  have feed: "P s \<Longrightarrow> P (snd (sm3_feed E inp s))" for s
    by (induction inp arbitrary: s) (simp_all add: Let_def keep_intros)
  then show "P s \<Longrightarrow> P (snd (sym_sm3 E inp s))"
    by (simp add: sym_sm3_def split_beta keep_intros)
qed

lemma seed_keep [keep_intros]:
  "P s \<Longrightarrow> P (snd (seed_clr E tgt s))"
  "P s \<Longrightarrow> P (snd (seed_new_clean E tgt cap s))"
  "P s \<Longrightarrow> P (snd (seed_replay_clean E tgt blob s))"
proof -
  show clr: "P s \<Longrightarrow> P (snd (seed_clr E tgt s))" for s
    by (simp add: seed_clr_def split_beta Let_def keep_intros)
  show "P s \<Longrightarrow> P (snd (seed_new_clean E tgt cap s))"
    "P s \<Longrightarrow> P (snd (seed_replay_clean E tgt blob s))"
    by (simp_all add: seed_new_clean_def seed_replay_clean_def split_beta clr keep_intros
        split: option.splits)
qed

end

locale bus_keep_keys = bus_keep E P
  for E :: "'d fenv" and P +
  assumes kem_keep [keep_intros]: "P s \<Longrightarrow> P (s\<lparr>kem_keys := ks\<rparr>)"
    and dsa_keep [keep_intros]: "P s \<Longrightarrow> P (s\<lparr>dsa_keys := ks\<rparr>)"
    and abs_keep: "hw_rd_abs E a s = (Some v, s') \<Longrightarrow> P s \<Longrightarrow> P s'"
begin

lemma op_keep [keep_intros]:
  "P s \<Longrightarrow> P (snd (op_ping E s))"
  "P s \<Longrightarrow> P (snd (op_random E q s))"
  "P s \<Longrightarrow> P (snd (op_mlkem_keygen E q s))"
  "P s \<Longrightarrow> P (snd (op_mlkem_encaps E q pay s))"
  "P s \<Longrightarrow> P (snd (op_mlkem_decaps E q pay s))"
  "P s \<Longrightarrow> P (snd (op_symkey_gen E q s))"
  "P s \<Longrightarrow> P (snd (op_symkey_load E q pay s))"
  "P s \<Longrightarrow> P (snd (op_symkey_kat E q s))"
  "P s \<Longrightarrow> P (snd (op_blob_import q pay s))"
  "P s \<Longrightarrow> P (snd (op_sym_block E q pay s))"
  "P s \<Longrightarrow> P (snd (op_sm3 E q pay s))"
  "P s \<Longrightarrow> P (snd (op_sym_crypt E q pay s))"
  by (simp_all add: op_ping_def op_random_def op_mlkem_keygen_def op_mlkem_encaps_def
      op_mlkem_decaps_def op_symkey_gen_def op_symkey_load_def op_symkey_kat_def op_blob_import_def
      op_sym_block_def op_sm3_def op_sym_crypt_def split_beta Let_def keep_intros
      split: option.splits sum.splits)

lemma dna_words_keep: "dna_words E n a s = (Some bs, s') \<Longrightarrow> P s \<Longrightarrow> P s'"
proof (induction n arbitrary: a s bs)
  case (Suc n)
  then show ?case by (auto split: prod.splits option.splits dest: abs_keep)
qed simp

lemma mldsa_op_keep:
  "P s \<Longrightarrow> pred_option (\<lambda>x. P (snd x)) (op_mldsa_keygen E q s)"
  "P s \<Longrightarrow> pred_option (\<lambda>x. P (snd x)) (op_mldsa_sign E q pay s)"
  "P s \<Longrightarrow> pred_option (\<lambda>x. P (snd x)) (op_mldsa_verify E q pay s)"
  unfolding op_mldsa_keygen_def op_mldsa_sign_def op_mldsa_verify_def
  by (auto simp: Let_def split_beta split: option.splits sum.splits
      dest!: mldsa_run_keep intro!: pred_bind keep_intros heap_keep)

lemma handle_op_keep:
  assumes "handle_op E q pay s = Some ((st, body), s')" "P s" "pq_op q = OP_DEVICE_DNA \<Longrightarrow> st = SDR_OK"
  shows "P s'"
proof -
  show ?thesis
  proof (cases "pq_op q = OP_DEVICE_DNA")
    case True
    then show ?thesis using assms
      by (auto simp: handle_op_def fpga_ops op_device_dna_def sdr_codes split: prod.splits option.splits
          dest: dna_words_keep)
  next
    case False
    then have "pred_option (\<lambda>x. P (snd x)) (handle_op E q pay s)"
      using assms(2) by (simp add: handle_op_def Let_def mldsa_op_keep op_keep)
    then show ?thesis using assms(1) by simp
  qed
qed

end

end
