(* ===== verification/Fpga_Props.thy ===== *)
theory Fpga_Props
  imports Fpga_Keep
begin

text \<open>
  What the FPGA daemon guarantees: an answer SDR\_OK means that every access to the hardware worked,
  handles keep their keys within a session and die with it, and every request is answered when the
  clock goes on. The interpretations of \<open>bus_keep\<close> on the model come first.
\<close>

section \<open>Interpretations\<close>

lemma bus_defs_dv:
  "snd (hw_rd E off s) = s\<lparr>dv := snd (mmio_rd E (PL_BASE + off) (dv s))\<rparr>"
  "snd (hw_wr E off v s) = s\<lparr>dv := snd (mmio_wr E (PL_BASE + off) v (dv s))\<rparr>"
  by (simp_all add: hw_rd_def hw_rd_abs_def hw_wr_def split_beta)

lemma rd_eq:
  "rd E off s =
     (let r = mmio_rd E (PL_BASE + off) (dv s); s1 = s\<lparr>dv := snd r\<rparr> in
      case fst r of None \<Rightarrow> (0, s1\<lparr>hw_fault := True\<rparr>) | Some v \<Rightarrow> (v, s1))"
  by (simp add: rd_def hw_rd_def hw_rd_abs_def split_beta Let_def split: option.splits)

lemma wr_eq:
  "wr E off v s =
     (let r = mmio_wr E (PL_BASE + off) v (dv s); s1 = s\<lparr>dv := snd r\<rparr> in
      if fst r then s1 else s1\<lparr>hw_fault := True\<rparr>)"
  by (simp add: wr_def hw_wr_def split_beta Let_def)

text \<open>A failed access sticks until the flag is cleared.\<close>

interpretation sticky: bus_keep E "\<lambda>s. hw_fault s" for E :: "'d fenv"
  by unfold_locales (simp_all add: rd_eq wr_eq Let_def split: option.splits)

text \<open>The drivers leave the handle tables and the handshake table alone.\<close>

interpretation tables: bus_keep E "\<lambda>s. kem_keys s = K \<and> dsa_keys s = D" for E :: "'d fenv" and K D
  by unfold_locales (simp_all add: rd_eq wr_eq Let_def split: option.splits)

text \<open>The environment with a log of the accesses, the latest first.\<close>

datatype acc = AccRd u32 "u32 option" | AccWr u32 u32 bool

fun acc_ok :: "acc \<Rightarrow> bool" where
  "acc_ok (AccRd _ v) \<longleftrightarrow> v \<noteq> None"
| "acc_ok (AccWr _ _ ok) \<longleftrightarrow> ok"

definition watched :: "'d fenv \<Rightarrow> ('d \<times> acc list) fenv" where
  "watched E =
     \<lparr>mmio_rd = (\<lambda>a w. case mmio_rd E a (fst w) of (v, d) \<Rightarrow> (v, d, AccRd a v # snd w)),
      mmio_wr = (\<lambda>a v w. case mmio_wr E a v (fst w) of (ok, d) \<Rightarrow> (ok, d, AccWr a v ok # snd w)),
      tee_init = (\<lambda>w. case tee_init E (fst w) of (ok, d) \<Rightarrow> (ok, d, snd w)),
      tee_session = (\<lambda>w. case tee_session E (fst w) of (ok, d) \<Rightarrow> (ok, d, snd w)),
      tee_invoke = (\<lambda>r w. case tee_invoke E r (fst w) of (x, d) \<Rightarrow> (x, d, snd w)),
      tee_close = (\<lambda>w. (tee_close E (fst w), snd w)),
      tee_fini = (\<lambda>w. (tee_fini E (fst w), snd w)),
      clock_ms = (\<lambda>w. case clock_ms E (fst w) of (t, d) \<Rightarrow> (t, d, snd w)),
      time_s = (\<lambda>w. case time_s E (fst w) of (t, d) \<Rightarrow> (t, d, snd w)),
      heap_ok = (\<lambda>w. case heap_ok E (fst w) of (ok, d) \<Rightarrow> (ok, d, snd w)),
      sock_io = (\<lambda>n w. case sock_io E n (fst w) of (k, d) \<Rightarrow> (k, d, snd w)),
      acl_text = (\<lambda>w. case acl_text E (fst w) of (x, d) \<Rightarrow> (x, d, snd w))\<rparr>"

abbreviation accs :: "('d \<times> acc list) fpgad \<Rightarrow> acc list" where "accs s \<equiv> snd (dv s)"

text \<open>A failed access is under the flag.\<close>

interpretation flagged: bus_keep_keys "watched E" "\<lambda>s. hw_fault s \<or> list_all acc_ok (accs s)"
  for E :: "'d fenv"
  by unfold_locales
    (auto simp: rd_eq wr_eq watched_def Let_def split_beta hw_rd_abs_def split: option.splits if_splits)

text \<open>The log only grows, by accesses that include those of \<open>X\<close> once they are made.\<close>

definition log_since :: "acc list \<Rightarrow> acc set \<Rightarrow> ('d \<times> acc list) fpgad \<Rightarrow> bool" where
  "log_since L X s \<longleftrightarrow> (\<exists>l. accs s = l @ L \<and> X \<subseteq> set l)"

lemma log_since_Cons: "accs s = a # accs t \<Longrightarrow> log_since L X t \<Longrightarrow> log_since L X s"
  unfolding log_since_def by (metis append_Cons insert_subset list.simps(15) subset_insertI2)

lemma log_since_same: "accs s = accs t \<Longrightarrow> log_since L X t \<Longrightarrow> log_since L X s"
  by (simp add: log_since_def)

interpretation grows: bus_keep "watched E" "log_since L X" for E :: "'d fenv" and L X
proof unfold_locales
  show "log_since L X s \<Longrightarrow> log_since L X (snd (rd (watched E) off s))" for s off
    by (rule log_since_Cons[of _ "AccRd (PL_BASE + off) (fst (mmio_rd E (PL_BASE + off) (fst (dv s))))" s])
      (auto simp: rd_eq watched_def Let_def split_beta split: option.splits)
  show "log_since L X s \<Longrightarrow> log_since L X (wr (watched E) off v s)" for s off v
    by (rule log_since_Cons[of _ "AccWr (PL_BASE + off) v
          (fst (mmio_wr E (PL_BASE + off) v (fst (dv s))))" s]) (auto simp: wr_eq watched_def Let_def split_beta)
qed (auto simp: log_since_def watched_def split_beta)

section \<open>OK means that every access worked\<close>

lemma wait_clear_ok: "wait_clear E reg b k s = (True, s') \<Longrightarrow> \<not> hw_fault s'"
proof (induction k arbitrary: s)
  case (Suc k)
  then show ?case by (subst (asm) (2) wait_clear.simps) (auto split: prod.splits if_splits)
qed (simp add: wait_clear.simps)

text \<open>An error carries no body, whatever an operation has already put into its buffer.\<close>

lemma pred_option_some: "pred_option Q x \<Longrightarrow> x = Some a \<Longrightarrow> Q a"
  by simp

lemma mldsa_op_error:
  "pred_option (\<lambda>x. fst (fst x) = SDR_OK \<or> snd (fst x) = []) (op_mldsa_keygen E q s)"
  "pred_option (\<lambda>x. fst (fst x) = SDR_OK \<or> snd (fst x) = []) (op_mldsa_sign E q pay s)"
  "pred_option (\<lambda>x. fst (fst x) = SDR_OK \<or> snd (fst x) = []) (op_mldsa_verify E q pay s)"
  unfolding op_mldsa_keygen_def op_mldsa_sign_def op_mldsa_verify_def
  by (auto simp: Let_def split_beta split: option.splits sum.splits intro!: pred_bind)

lemma op_error:
  "fst (fst (op_ping E s)) = SDR_OK \<or> snd (fst (op_ping E s)) = []"
  "fst (fst (op_device_dna E s)) = SDR_OK \<or> snd (fst (op_device_dna E s)) = []"
  "fst (fst (op_random E q s)) = SDR_OK \<or> snd (fst (op_random E q s)) = []"
  "fst (fst (op_mlkem_keygen E q s)) = SDR_OK \<or> snd (fst (op_mlkem_keygen E q s)) = []"
  "fst (fst (op_mlkem_encaps E q pay s)) = SDR_OK \<or> snd (fst (op_mlkem_encaps E q pay s)) = []"
  "fst (fst (op_mlkem_decaps E q pay s)) = SDR_OK \<or> snd (fst (op_mlkem_decaps E q pay s)) = []"
  "fst (fst (op_symkey_gen E q s)) = SDR_OK \<or> snd (fst (op_symkey_gen E q s)) = []"
  "fst (fst (op_symkey_load E q pay s)) = SDR_OK \<or> snd (fst (op_symkey_load E q pay s)) = []"
  "fst (fst (op_symkey_kat E q s)) = SDR_OK \<or> snd (fst (op_symkey_kat E q s)) = []"
  "fst (op_blob_export q s) = SDR_OK \<or> snd (op_blob_export q s) = []"
  "fst (fst (op_blob_import q pay s)) = SDR_OK \<or> snd (fst (op_blob_import q pay s)) = []"
  "fst (fst (op_sym_block E q pay s)) = SDR_OK \<or> snd (fst (op_sym_block E q pay s)) = []"
  "fst (fst (op_sm3 E q pay s)) = SDR_OK \<or> snd (fst (op_sm3 E q pay s)) = []"
  "fst (fst (op_sym_crypt E q pay s)) = SDR_OK \<or> snd (fst (op_sym_crypt E q pay s)) = []"
  by (auto simp: op_ping_def op_device_dna_def op_random_def op_mlkem_keygen_def op_mlkem_encaps_def
      op_mlkem_decaps_def op_symkey_gen_def op_symkey_load_def op_symkey_kat_def op_blob_export_def
      op_blob_import_def op_sym_block_def op_sm3_def op_sym_crypt_def Let_def split_beta
      split: option.splits sum.splits)

lemma handle_op_error:
  assumes "handle_op E q pay s = Some ((st, body), s')"
  shows "st = SDR_OK \<or> body = []"
proof -
  have "pred_option (\<lambda>x. fst (fst x) = SDR_OK \<or> snd (fst x) = []) (handle_op E q pay s)"
    by (simp add: handle_op_def Let_def op_error mldsa_op_error)
  then show ?thesis using assms by simp
qed

text \<open>
  C32: an answer of the FPGA daemon is complete or empty. When a request is answered SDR\_OK, every access to
  the hardware made for it, from the first look at the two cores on, was carried out: no byte of the answer
  stems from a register that could not be read, although the operations go on with zeros after a failed read.
  Any other answer has no body, whatever the operation had already put into its buffer.
\<close>

theorem ok_means_bus_ok:
  assumes "serve_req (watched E) q pay s = Some ((st, body), s')" "accs s = []"
  shows "if st = SDR_OK then list_all acc_ok (accs s') else body = []"
proof -
  let ?W = "watched E"
  obtain ok1 s1 where w1: "wait_not_wiping ?W MK_STATUS MKS_WIPING (s\<lparr>hw_fault := False\<rparr>) = (ok1, s1)"
    by fastforce
  obtain ok2 s2 where w2: "wait_not_wiping ?W MD_STATUS MDS_WIPING s1 = (ok2, s2)" by fastforce
  have "hw_fault s1 \<or> list_all acc_ok (accs s1)"
    using flagged.wait_keep(2)[of "s\<lparr>hw_fault := False\<rparr>" E MK_STATUS MKS_WIPING] w1 assms(2) by simp
  then have f2: "hw_fault s2 \<or> list_all acc_ok (accs s2)"
    using flagged.wait_keep(2)[of s1 E MD_STATUS MDS_WIPING] w2 by simp
  show ?thesis
  proof (cases "ok1 \<and> ok2")
    case False
    then show ?thesis using assms(1) w1 w2 by (auto simp: serve_req_def sdr_codes split: if_splits)
  next
    case True
    then have "\<not> hw_fault s2" using wait_clear_ok w2 by (simp add: wait_not_wiping_def)
    then have log2: "list_all acc_ok (accs (s2\<lparr>hw_fault := False\<rparr>))" using f2 by simp
    have "handle_op ?W q pay (s2\<lparr>hw_fault := False\<rparr>) \<noteq> None"
      using assms(1) True w1 w2
      by (cases "handle_op ?W q pay (s2\<lparr>hw_fault := False\<rparr>)") (auto simp: serve_req_def)
    then obtain st0 body0 s3 where
      h3: "handle_op ?W q pay (s2\<lparr>hw_fault := False\<rparr>) = Some ((st0, body0), s3)" by auto
    then have st: "(st, body) = (if hw_fault s3 \<and> st0 = SDR_OK then (SDR_HARDFAIL, []) else (st0, body0))"
      and [simp]: "s3 = s'"
      using assms(1) True w1 w2 by (auto simp: serve_req_def split: if_splits)
    note h = h3[simplified]
    show ?thesis
    proof (cases "st0 = SDR_OK")
      case True
      then have "hw_fault s' \<or> list_all acc_ok (accs s')"
        using flagged.handle_op_keep[OF h] log2 by simp
      then show ?thesis using st True by (simp add: sdr_codes split: if_splits)
    next
      case False
      then show ?thesis using st handle_op_error[OF h] by auto
    qed
  qed
qed

section \<open>Handles\<close>

text \<open>A table changes only where no key is used.\<close>

definition keys_kept :: "key_ent list \<Rightarrow> key_ent list \<Rightarrow> bool" where
  "keys_kept ks ks' \<longleftrightarrow> length ks' = length ks \<and> (\<forall>i < length ks. ke_used (ks ! i) \<longrightarrow> ks' ! i = ks ! i)"

definition handles_kept :: "'d fpgad \<Rightarrow> 'd fpgad \<Rightarrow> bool" where
  "handles_kept s s' \<longleftrightarrow>
     keys_kept (kem_keys s) (kem_keys s') \<and> keys_kept (dsa_keys s) (dsa_keys s')"

lemma keys_kept_refl [simp]: "keys_kept ks ks"
  by (simp add: keys_kept_def)

lemma keys_kept_trans: "keys_kept a b \<Longrightarrow> keys_kept b c \<Longrightarrow> keys_kept a c"
  by (simp add: keys_kept_def)

lemma handles_kept_refl [simp]: "handles_kept s s"
  by (simp add: handles_kept_def)

lemma handles_kept_trans: "handles_kept a b \<Longrightarrow> handles_kept b c \<Longrightarrow> handles_kept a c"
  by (auto simp: handles_kept_def intro: keys_kept_trans)

lemma first_free_unused: "first_free ks < length ks \<Longrightarrow> \<not> ke_used (ks ! first_free ks)"
  unfolding first_free_def using nth_length_takeWhile by blast

lemma keys_kept_free [simp]:
  "keys_kept ks (ks[first_free ks := k])"
  using first_free_unused[of ks] by (auto simp: keys_kept_def intro!: nth_list_update_neq)

lemma keys_kept_free2 [simp]: "keys_kept ks (ks[first_free ks := k, first_free ks := k'])"
  by simp

text \<open>The drivers, as rewrite rules on the tables.\<close>

lemmas tables_simps [frame_simps] =
  tables.trng_bytes_keep[OF conjI[OF refl refl]] tables.mlkem_run_keep[OF conjI[OF refl refl]]
  tables.seed_keep(2,3)[OF conjI[OF refl refl]] tables.ta_keep(4)[OF conjI[OF refl refl]]
  tables.sym_block_keep[OF conjI[OF refl refl]] tables.sym_crypt_keep[OF conjI[OF refl refl]]
  tables.sym_sm3_keep[OF conjI[OF refl refl]] tables.rd_keep[OF conjI[OF refl refl]]
  tables.wait_keep[OF conjI[OF refl refl]]

lemmas tables_mldsa = tables.mldsa_run_keep[OF _ conjI[OF refl refl]]

lemma dna_words_tables:
  "kem_keys (snd (dna_words E n a s)) = kem_keys s \<and> dsa_keys (snd (dna_words E n a s)) = dsa_keys s"
  by (induction n arbitrary: a s) (simp_all add: hw_rd_abs_def split_beta split: option.splits)

lemma op_handles:
  "handles_kept s (snd (op_ping E s))"
  "handles_kept s (snd (op_device_dna E s))"
  "handles_kept s (snd (op_random E q s))"
  "handles_kept s (snd (op_mlkem_keygen E q s))"
  "handles_kept s (snd (op_mlkem_encaps E q pay s))"
  "handles_kept s (snd (op_mlkem_decaps E q pay s))"
  "handles_kept s (snd (op_symkey_gen E q s))"
  "handles_kept s (snd (op_symkey_load E q pay s))"
  "handles_kept s (snd (op_symkey_kat E q s))"
  "handles_kept s (snd (op_blob_import q pay s))"
  "handles_kept s (snd (op_sym_block E q pay s))"
  "handles_kept s (snd (op_sm3 E q pay s))"
  "handles_kept s (snd (op_sym_crypt E q pay s))"
  by (auto simp: handles_kept_def op_ping_def op_device_dna_def op_random_def op_mlkem_keygen_def
      op_mlkem_encaps_def op_mlkem_decaps_def op_symkey_gen_def op_symkey_load_def op_symkey_kat_def
      op_blob_import_def op_sym_block_def op_sm3_def op_sym_crypt_def Let_def split_beta frame_simps
      dna_words_tables split: option.splits sum.splits)

lemma mldsa_op_handles:
  "pred_option (\<lambda>x. handles_kept s (snd x)) (op_mldsa_keygen E q s)"
  "pred_option (\<lambda>x. handles_kept s (snd x)) (op_mldsa_sign E q pay s)"
  "pred_option (\<lambda>x. handles_kept s (snd x)) (op_mldsa_verify E q pay s)"
  unfolding op_mldsa_keygen_def op_mldsa_sign_def op_mldsa_verify_def
  by (auto simp: handles_kept_def Let_def split_beta frame_simps split: option.splits sum.splits
      dest!: tables_mldsa intro!: pred_bind)

lemma handle_op_handles: "pred_option (\<lambda>x. handles_kept s (snd x)) (handle_op E q pay s)"
  by (simp add: handle_op_def Let_def op_handles mldsa_op_handles)

lemma serve_req_handles:
  assumes "serve_req E q pay s = Some (r, s')"
  shows "handles_kept s s'"
proof -
  obtain ok1 s1 where w1: "wait_not_wiping E MK_STATUS MKS_WIPING (s\<lparr>hw_fault := False\<rparr>) = (ok1, s1)"
    by fastforce
  obtain ok2 s2 where w2: "wait_not_wiping E MD_STATUS MDS_WIPING s1 = (ok2, s2)" by fastforce
  have t1: "handles_kept s s1"
    using tables_simps(11)[of E MK_STATUS MKS_WIPING "s\<lparr>hw_fault := False\<rparr>"] w1
    by (simp add: handles_kept_def)
  have t2: "handles_kept s1 (s2\<lparr>hw_fault := False\<rparr>)" "handles_kept s1 s2"
    using tables_simps(11)[of E MD_STATUS MDS_WIPING s1] w2 by (simp_all add: handles_kept_def)
  have t3: "handles_kept (s2\<lparr>hw_fault := False\<rparr>) s'" if "ok1" "ok2"
    using handle_op_handles[of "s2\<lparr>hw_fault := False\<rparr>" E q pay] assms that w1 w2
    by (cases "handle_op E q pay (s2\<lparr>hw_fault := False\<rparr>)") (auto simp: serve_req_def split: if_splits)
  show ?thesis
    using assms t1 t2 t3 w1 w2
    by (cases ok1; cases ok2) (auto simp: serve_req_def intro: handles_kept_trans)
qed

text \<open>The requests of one connection, one after the other.\<close>

fun serve_reqs :: "'d fenv \<Rightarrow> (pqcs_req \<times> bytes) list \<Rightarrow> 'd fpgad \<Rightarrow> 'd fpgad option" where
  "serve_reqs E [] s = Some s"
| "serve_reqs E ((q, pay) # rs) s =
     (case serve_req E q pay s of None \<Rightarrow> None | Some (_, s1) \<Rightarrow> serve_reqs E rs s1)"

lemma serve_reqs_handles: "serve_reqs E rs s = Some s' \<Longrightarrow> handles_kept s s'"
proof (induction rs arbitrary: s)
  case (Cons r rs)
  then show ?case
    by (cases r) (auto split: option.splits intro: handles_kept_trans serve_req_handles)
qed simp

lemma drain_packed_length: "drain_packed E r4 r1 n s = (bs, s') \<Longrightarrow> \<not> hw_fault s' \<Longrightarrow> length bs = n"
proof (induction n arbitrary: s bs rule: less_induct)
  case (less n)
  have ok: "\<not> hw_fault s" using less.prems sticky.drain_packed_keep[of s E r4 r1 n] by auto
  show ?case
  proof (cases "n = 0")
    case False
    have IH: "drain_packed E r4 r1 m t = (cs, s') \<Longrightarrow> m < n \<Longrightarrow> length cs = m" for m t cs
      using less by blast
    show ?thesis
      using less.prems(1)[unfolded drain_packed.simps[of E r4 r1 n s]] False ok
      by (auto dest: IH split: prod.splits if_splits)
  qed (use less.prems in \<open>simp add: drain_packed.simps\<close>)
qed

lemma mlkem_run_length:
  assumes "mlkem_run E mode ps ex inp cap s = (Inr (n, bs), s')" "\<not> hw_fault s'"
  shows "length bs = n"
  using assms by (auto simp: mlkem_run_def Let_def drain_packed_length split: prod.splits if_splits)

lemma key_ent_full: "x\<lparr>ke_blob := b, ke_used := u, ke_pset := p\<rparr> = \<lparr>ke_used = u, ke_pset = p, ke_blob = b\<rparr>"
  for x :: key_ent
  by (cases x) simp

text \<open>What a successful generation of an ML-KEM key does to the table and answers.\<close>

lemma mlkem_keygen_ok:
  assumes "op_mlkem_keygen E q s = ((SDR_OK, body), s')" "length (kem_keys s) = PL_KEY_SLOTS" "\<not> hw_fault s'"
  shows "\<exists>h blob d ek.
     pq_a0 q \<le> 2 \<and> h < PL_KEY_SLOTS \<and> \<not> ke_used (kem_keys s ! h) \<and>
     fst (tee_invoke E (TA_PQCHSM_CMD_SEED_NEW, [TeeValue SEED_TGT_MLKEM 0, TeeOut SEED_BLOB_MAX]) d)
       = Some blob \<and>
     kem_keys s' = (kem_keys s)[h := \<lparr>ke_used = True, ke_pset = pq_a0 q, ke_blob = blob\<rparr>] \<and>
     body = put_u32 (of_nat h) @ ek \<and> length ek = ek_len (pq_a0 q)"
proof -
  let ?h = "first_free (kem_keys s)"
  let ?L = "ek_len (pq_a0 q)"
  have le: "?h \<le> length (kem_keys s)" by (simp add: first_free_def length_takeWhile_le)
  have a0: "\<not> pq_a0 q > 2" and h: "?h \<noteq> PL_KEY_SLOTS"
    using assms(1) by (auto simp: op_mlkem_keygen_def sdr_codes Let_def split: if_splits)
  obtain blob s1 where new: "seed_new_clean E SEED_TGT_MLKEM SEED_BLOB_MAX s = (Some blob, s1)"
    using assms(1) a0 h
    by (cases "seed_new_clean E SEED_TGT_MLKEM SEED_BLOB_MAX s")
      (auto simp: op_mlkem_keygen_def sdr_codes Let_def split: option.splits)
  define s2 where "s2 = s1\<lparr>kem_keys := (kem_keys s1)[?h := (kem_keys s1 ! ?h)\<lparr>ke_blob := blob\<rparr>]\<rparr>"
  obtain r s3 where run: "mlkem_run E 0 (pq_a0 q) (MKM_CHAIN OR MKM_SEED_STAGED) [] 4900 s2 = (r, s3)"
    by fastforce
  obtain buf where r: "r = Inr (?L, buf)" and body: "body = put_u32 (of_nat ?h) @ take ?L buf"
    and s': "s' = s3\<lparr>kem_keys := (kem_keys s3)
                [?h := (kem_keys s3 ! ?h)\<lparr>ke_used := True, ke_pset := pq_a0 q\<rparr>]\<rparr>"
    using assms(1) a0 h new run
    by (auto simp: op_mlkem_keygen_def sdr_codes Let_def s2_def split: sum.splits if_splits)
  have "length buf = ?L" using mlkem_run_length[OF run[unfolded r]] assms(3) s' by simp
  moreover have "kem_keys s1 = kem_keys s" using tables_simps(3)[of E SEED_TGT_MLKEM SEED_BLOB_MAX s] new by simp
  moreover have "kem_keys s3 = kem_keys s2"
    using tables_simps(2)[of E 0 "pq_a0 q" "MKM_CHAIN OR MKM_SEED_STAGED" "[]" 4900 s2] run by simp
  ultimately have "length (take ?L buf) = ?L"
    "kem_keys s' = (kem_keys s)[?h := \<lparr>ke_used = True, ke_pset = pq_a0 q, ke_blob = blob\<rparr>]"
    using s' le h assms(2) by (simp_all add: s2_def key_ent_full)
  moreover have "\<exists>d. fst (tee_invoke E (TA_PQCHSM_CMD_SEED_NEW,
      [TeeValue SEED_TGT_MLKEM 0, TeeOut SEED_BLOB_MAX]) d) = Some blob"
    using new by (auto simp: seed_new_clean_def ta_seed_new_def ta_cmd_def split: prod.splits option.splits if_splits)
      (metis fst_conv)+
  moreover have "?h < PL_KEY_SLOTS" using le h assms(2) by simp
  moreover have "\<not> ke_used (kem_keys s ! ?h)"
    using first_free_unused \<open>?h < PL_KEY_SLOTS\<close> assms(2) by simp
  ultimately show ?thesis using body a0 by (metis linorder_not_less)
qed

text \<open>The answer of serve\_req to a request that went well is the answer of the operation.\<close>

lemma serve_req_ok:
  assumes "serve_req E q pay s = Some ((SDR_OK, body), s')"
  shows "\<exists>t. handle_op E q pay t = Some ((SDR_OK, body), s') \<and> \<not> hw_fault s' \<and>
    kem_keys t = kem_keys s \<and> dsa_keys t = dsa_keys s"
proof -
  obtain ok1 s1 where w1: "wait_not_wiping E MK_STATUS MKS_WIPING (s\<lparr>hw_fault := False\<rparr>) = (ok1, s1)"
    by fastforce
  obtain ok2 s2 where w2: "wait_not_wiping E MD_STATUS MDS_WIPING s1 = (ok2, s2)" by fastforce
  have "ok1" "ok2" using assms w1 w2 by (auto simp: serve_req_def sdr_codes split: if_splits)
  then have "handle_op E q pay (s2\<lparr>hw_fault := False\<rparr>) = Some ((SDR_OK, body), s') \<and> \<not> hw_fault s'"
    using assms w1 w2
    by (cases "handle_op E q pay (s2\<lparr>hw_fault := False\<rparr>)") (auto simp: serve_req_def sdr_codes split: if_splits)
  then show ?thesis
    using tables_simps(11)[of E MK_STATUS MKS_WIPING "s\<lparr>hw_fault := False\<rparr>"] w1
      tables_simps(11)[of E MD_STATUS MDS_WIPING s1] w2
    by (intro exI[of _ "s2\<lparr>hw_fault := False\<rparr>"]) simp
qed

text \<open>
  C33: a handle names the key it was given for, as long as the connection lasts. When the FPGA daemon answers
  an ML-KEM key generation with SDR\_OK, the answer is a handle that was free and exactly the bytes of the
  public key, none of a private key behind it; and after any further requests of the connection, whatever they
  are and however they end, the handle is live, with the parameter set asked for and the very blob the trusted
  application returned for a SEED\_NEW command.
\<close>

theorem handle_keeps_its_key:
  assumes "serve_req E q pay s = Some ((SDR_OK, body), s1)" "pq_op q = OP_MLKEM_KEYGEN"
    and "length (kem_keys s) = PL_KEY_SLOTS" "serve_reqs E rs s1 = Some s2"
  shows "\<exists>h ek blob d.
     body = put_u32 h @ ek \<and> length ek = ek_len (pq_a0 q) \<and> \<not> key_live (kem_keys s) h \<and>
     key_live (kem_keys s2) h \<and>
     kem_keys s2 ! unat h = \<lparr>ke_used = True, ke_pset = pq_a0 q, ke_blob = blob\<rparr> \<and>
     fst (tee_invoke E (TA_PQCHSM_CMD_SEED_NEW, [TeeValue SEED_TGT_MLKEM 0, TeeOut SEED_BLOB_MAX]) d)
       = Some blob"
proof -
  obtain t where t: "handle_op E q pay t = Some ((SDR_OK, body), s1)" "\<not> hw_fault s1"
    "kem_keys t = kem_keys s"
    using serve_req_ok[OF assms(1)] by blast
  have op: "op_mlkem_keygen E q t = ((SDR_OK, body), s1)"
    using t(1) assms(2) by (simp add: handle_op_def fpga_ops)
  have len: "length (kem_keys t) = PL_KEY_SLOTS" using t(3) assms(3) by simp
  obtain h blob d ek where g: "h < PL_KEY_SLOTS" "\<not> ke_used (kem_keys t ! h)"
    "fst (tee_invoke E (TA_PQCHSM_CMD_SEED_NEW, [TeeValue SEED_TGT_MLKEM 0, TeeOut SEED_BLOB_MAX]) d)
       = Some blob"
    "kem_keys s1 = (kem_keys t)[h := \<lparr>ke_used = True, ke_pset = pq_a0 q, ke_blob = blob\<rparr>]"
    "body = put_u32 (of_nat h) @ ek" "length ek = ek_len (pq_a0 q)"
    using mlkem_keygen_ok[OF op len t(2)] by blast
  have u: "unat (of_nat h :: u32) = h" using g(1) by (simp add: PL_KEY_SLOTS_def unat_of_nat)
  have "keys_kept (kem_keys s1) (kem_keys s2)"
    using serve_reqs_handles[OF assms(4)] by (simp add: handles_kept_def)
  then have "length (kem_keys s2) = PL_KEY_SLOTS"
    "kem_keys s2 ! h = \<lparr>ke_used = True, ke_pset = pq_a0 q, ke_blob = blob\<rparr>"
    using g(1,4) len by (simp_all add: keys_kept_def)
  then show ?thesis using g u t(3)
    by (intro exI[of _ "of_nat h"] exI[of _ ek] exI[of _ blob] exI[of _ d]) (simp add: key_live_def)
qed

section \<open>The end of a session\<close>

definition no_keys :: "'d fpgad \<Rightarrow> bool" where
  "no_keys s \<longleftrightarrow> kem_keys s = replicate PL_KEY_SLOTS no_key \<and> dsa_keys s = replicate MLDSA_KEY_SLOTS no_key"

lemma no_keys_dead: "no_keys s \<Longrightarrow> \<not> key_live (kem_keys s) h \<and> \<not> key_live (dsa_keys s) h"
  by (auto simp: no_keys_def key_live_def no_key_def)

lemma no_keys_refused:
  assumes "no_keys s" "pq_op q \<in> {OP_MLKEM_DECAPS, OP_MLDSA_SIGN, OP_PQC_BLOB_EXPORT}"
  shows "handle_op E q pay s = Some ((SDR_KEYNOTEXIST, []), s)"
  using assms no_keys_dead[OF assms(1)]
  by (auto simp: handle_op_def fpga_ops op_mlkem_decaps_def op_mldsa_sign_def op_blob_export_def)

interpretation wiped: bus_keep E "no_keys" for E :: "'d fenv"
  by unfold_locales (simp_all add: no_keys_def rd_eq wr_eq Let_def split: option.splits)

lemma session_end_wiped: "no_keys (session_end E s)"
proof -
  have "no_keys (keys_wipe s)" by (simp add: no_keys_def keys_wipe_def)
  then show ?thesis
    by (simp add: session_end_def Let_def split_beta wiped.wait_keep wiped.rd_keep wiped.wr_keep)
qed

lemma close_session_wiped: "no_keys (close_session E s)"
  using session_end_wiped[of E "s\<lparr>hw_fault := False\<rparr>"] by (simp add: close_session_def no_keys_def)

lemma rl_tables [frame_simps]:
  "kem_keys (snd (rl_allow E ip s)) = kem_keys s" "dsa_keys (snd (rl_allow E ip s)) = dsa_keys s"
  "kem_keys (rl_fail E ip s) = kem_keys s" "dsa_keys (rl_fail E ip s) = dsa_keys s"
  by (simp_all add: rl_allow_def rl_fail_def Let_def split_beta)

lemma admit_tables [frame_simps]:
  "kem_keys (snd (admit E p s)) = kem_keys s" "dsa_keys (snd (admit E p s)) = dsa_keys s"
  by (simp_all add: admit_def split_beta Let_def frame_simps split: peer.split handshake.split)

lemma accept_one_wiped:
  assumes "accept_one E c s = Some (out, s')" "no_keys s"
  shows "no_keys s'"
  using assms admit_tables[of E "fst c" s] close_session_wiped
  by (auto simp: accept_one_def split_beta no_keys_def[of s] no_keys_def[of "snd (admit E (fst c) s)"]
      Option.bind_eq_Some_conv split: if_splits)

lemma accept_loop_wiped: "accept_loop E cs s = Some (outs, s') \<Longrightarrow> no_keys s \<Longrightarrow> no_keys s'"
proof (induction cs arbitrary: s outs)
  case (Cons c cs)
  then show ?case by (auto simp: Option.bind_eq_Some_conv dest: accept_one_wiped)
qed simp

text \<open>The command that erases the symmetric core comes whatever happened before.\<close>

lemma log_since_wr:
  "log_since L X s \<Longrightarrow> \<exists>ok. log_since L (insert (AccWr (PL_BASE + off) v ok) X) (wr (watched E) off v s)"
  by (auto simp: log_since_def wr_eq watched_def Let_def split_beta)

lemma session_end_erases:
  "\<exists>ok. log_since (accs s) {AccWr (PL_BASE + SY_CTRL) SYC_ZEROIZE ok} (session_end (watched E) s)"
proof -
  let ?W = "watched E"
  have start: "log_since (accs s) {} (keys_wipe s)" by (simp add: log_since_def keys_wipe_def)
  define s3 where "s3 = (let s1 = keys_wipe s;
      s2 = (case wait_not_wiping ?W MK_STATUS MKS_WIPING s1 of (ok, t) \<Rightarrow>
              if ok then wr ?W MK_CTRL MKC_ZEROIZE t else t) in
      case wait_not_wiping ?W MD_STATUS MDS_WIPING s2 of (ok, t) \<Rightarrow>
        if ok then wr ?W MD_CTRL MDC_ZEROIZE t else t)"
  have "log_since (accs s) {} s3"
    using start by (simp add: s3_def Let_def split_beta grows.wait_keep grows.wr_keep)
  then obtain ok where
    "log_since (accs s) {AccWr (PL_BASE + SY_CTRL) SYC_ZEROIZE ok} (wr ?W SY_CTRL SYC_ZEROIZE s3)"
    using log_since_wr by blast
  then have "log_since (accs s) {AccWr (PL_BASE + SY_CTRL) SYC_ZEROIZE ok} (session_end ?W s)"
    by (simp add: session_end_def s3_def Let_def grows.wait_keep grows.rd_keep)
  then show ?thesis by blast
qed

text \<open>
  C34: a session leaves nothing behind. When the FPGA daemon is done with a connection it had admitted, both
  handle tables are empty, so that every handle of it or of anyone before is refused with SDR\_KEYNOTEXIST and
  without touching the hardware; and after the last access made for the client the daemon has sent the erase
  command to the symmetric core, the one that also clears the key register, whether or not the two other cores
  could be seen idle and whatever failed before.
\<close>

theorem session_leaves_nothing:
  assumes "accept_one (watched E) c s = Some (out, s')" "admit (watched E) (fst c) s = (True, s1)"
    and "pq_op q \<in> {OP_MLKEM_DECAPS, OP_MLDSA_SIGN, OP_PQC_BLOB_EXPORT}"
  shows "handle_op E' q pay s' = Some ((SDR_KEYNOTEXIST, []), s') \<and>
    (\<exists>s2 l ok. serve_conn (watched E) (snd c) [] s1 = Some (out, s2) \<and> accs s' = l @ accs s2 \<and>
      AccWr (PL_BASE + SY_CTRL) SYC_ZEROIZE ok \<in> set l)"
proof -
  obtain s2 where s2: "serve_conn (watched E) (snd c) [] s1 = Some (out, s2)"
    and s': "s' = close_session (watched E) s2"
    using assms(1,2) by (auto simp: accept_one_def Option.bind_eq_Some_conv)
  have "log_since (accs s2) {AccWr (PL_BASE + SY_CTRL) SYC_ZEROIZE ok} s'"
    if "log_since (accs s2) {AccWr (PL_BASE + SY_CTRL) SYC_ZEROIZE ok}
      (session_end (watched E) (s2\<lparr>hw_fault := False\<rparr>))" for ok
    using that s' by (simp add: log_since_def close_session_def)
  then have "\<exists>s2 l ok. serve_conn (watched E) (snd c) [] s1 = Some (out, s2) \<and> accs s' = l @ accs s2 \<and>
      AccWr (PL_BASE + SY_CTRL) SYC_ZEROIZE ok \<in> set l"
    using s2 session_end_erases[of "s2\<lparr>hw_fault := False\<rparr>" E] by (auto simp: log_since_def)
  moreover have "handle_op E' q pay s' = Some ((SDR_KEYNOTEXIST, []), s')"
    using no_keys_refused[OF close_session_wiped assms(3)] s' by blast
  ultimately show ?thesis by blast
qed

section \<open>Every request is answered\<close>

text \<open>The clock shows the milliseconds of a time that goes on with every register read.\<close>

definition clock_fair :: "'d fenv \<Rightarrow> ('d \<Rightarrow> nat) \<Rightarrow> bool" where
  "clock_fair E T \<longleftrightarrow>
     (\<forall>d. fst (clock_ms E d) = int (T d div 1000000) \<and> T d \<le> T (snd (clock_ms E d)) \<and>
        (\<forall>a. T d < T (snd (mmio_rd E a d))))"

lemma rd_time: "clock_fair E T \<Longrightarrow> T (dv s) < T (dv (snd (rd E off s)))"
  by (auto simp: clock_fair_def rd_eq Let_def split: option.splits)

lemma poll_count: "unat (i AND 0xFFF) \<le> 4095"
  "i AND 0xFFF \<noteq> 0xFFF \<Longrightarrow> unat ((i + 1) AND 0xFFF) = unat (i AND 0xFFF) + 1" for i :: u32
proof -
  have u: "unat (j AND 0xFFF) = unat j mod 4096" for j :: u32
  proof -
    have "j AND 0xFFF = take_bit 12 j" by (simp add: take_bit_eq_mask mask_eq_exp_minus_1)
    then have "unat (j AND 0xFFF) = take_bit 12 (unat j)" by (simp only: unsigned_take_bit_eq)
    then show ?thesis by (simp add: take_bit_eq_mod)
  qed
  show "unat (i AND 0xFFF) \<le> 4095" by (simp add: u)
  assume "i AND 0xFFF \<noteq> 0xFFF"
  then have "unat (i AND 0xFFF) \<noteq> unat (0xFFF :: u32)" using word_unat_eq_iff by blast
  moreover have "unat (0xFFF :: u32) = 4095" by simp
  ultimately have n: "unat i mod 4096 \<noteq> 4095" by (simp only: u) simp
  have "unat (i + 1) mod 4096 = (unat i + 1) mod 4294967296 mod 4096" by (simp add: unat_word_ariths)
  also have "\<dots> = (unat i + 1) mod 4096" by (rule mod_mod_cancel) simp
  also have "\<dots> = unat i mod 4096 + 1" using n by (simp add: mod_Suc)
  finally show "unat ((i + 1) AND 0xFFF) = unat (i AND 0xFFF) + 1" by (simp add: u)
qed

lemma mldsa_wait_ends:
  assumes "clock_fair E T"
  shows "mldsa_wait E dl i st s \<noteq> None"
proof (induction "4096 * (nat ((dl + 1) * 1000000) - T (dv s)) + (4095 - unat (i AND 0xFFF))"
    arbitrary: i st s rule: less_induct)
  case less
  define m where "m = nat ((dl + 1) * 1000000)"
  let ?r = "rd E MD_STATUS s"
  let ?c = "now_ms E (snd ?r)"
  have t1: "T (dv s) < T (dv (snd ?r))" by (rule rd_time[OF assms])
  have t2: "T (dv (snd ?r)) \<le> T (dv (snd ?c))" and t3: "fst ?c = int (T (dv (snd ?r)) div 1000000)"
    using assms by (simp_all add: clock_fair_def now_ms_def split_beta)
  have IH: "mldsa_wait E dl (i + 1) st' s' \<noteq> None"
    if "4096 * (m - T (dv s')) + (4095 - unat ((i + 1) AND 0xFFF))
          < 4096 * (m - T (dv s)) + (4095 - unat (i AND 0xFFF))" for st' s'
    using less that unfolding m_def by blast
  show ?case
  proof (cases "T (dv s) < m")
    case True
    have "mldsa_wait E dl (i + 1) st' s' \<noteq> None" if "T (dv s) < T (dv s')" for st' s'
    proof (rule IH)
      have "m - T (dv s') + 1 \<le> m - T (dv s)" using that True by linarith
      then show "4096 * (m - T (dv s')) + (4095 - unat ((i + 1) AND 0xFFF))
          < 4096 * (m - T (dv s)) + (4095 - unat (i AND 0xFFF))" by linarith
    qed
    then show ?thesis using t1 t2 by (subst mldsa_wait.simps) (auto simp: Let_def)
  next
    case False
    then have late: "i AND 0xFFF = 0xFFF \<Longrightarrow> dl < fst ?c" using t1 t3 by (simp add: m_def) 
    have "mldsa_wait E dl (i + 1) st' s' \<noteq> None" if "T (dv s) < T (dv s')" "i AND 0xFFF \<noteq> 0xFFF" for st' s'
      using IH[of s' st'] False that poll_count[of i] poll_count(1)[of "i + 1"] by simp
    then show ?thesis using t1 t2 late by (subst mldsa_wait.simps) (auto simp: Let_def)
  qed
qed

text \<open>A value in the option type that is there, kept apart from the rules for \<open>None\<close>.\<close>

definition returns :: "'a option \<Rightarrow> bool" where "returns x \<longleftrightarrow> x \<noteq> None"

lemma returns_Some [simp]: "returns (Some x)"
  by (simp add: returns_def)

lemma returns_bind: "returns x \<Longrightarrow> (\<And>a. x = Some a \<Longrightarrow> returns (f a)) \<Longrightarrow> returns (Option.bind x f)"
  by (cases x) (auto simp: returns_def)

lemma mldsa_run_ends: "clock_fair E T \<Longrightarrow> returns (mldsa_run E op ps ex inp ml cl cap s)"
  unfolding mldsa_run_def
  by (auto simp: Let_def split_beta returns_def[symmetric] mldsa_wait_ends[unfolded returns_def[symmetric]]
      split: option.splits intro!: returns_bind)

lemma handle_op_ends:
  assumes "clock_fair E T"
  shows "returns (handle_op E q pay s)"
proof -
  note run = mldsa_run_ends[OF assms]
  have "returns (op_mldsa_keygen E q s)" "returns (op_mldsa_sign E q pay s)"
    "returns (op_mldsa_verify E q pay s)"
    unfolding op_mldsa_keygen_def op_mldsa_sign_def op_mldsa_verify_def
    by (auto simp: Let_def split_beta run split: option.splits sum.splits intro!: returns_bind)
  then show ?thesis by (simp add: handle_op_def Let_def)
qed

lemma serve_req_ends: "clock_fair E T \<Longrightarrow> returns (serve_req E q pay s)"
  unfolding serve_req_def
  by (auto simp: split_beta handle_op_ends split: prod.splits intro!: returns_bind)

lemma serve_conn_ends:
  assumes "clock_fair E T"
  shows "returns (serve_conn E inp out s)"
proof (induction "length inp" arbitrary: inp out s rule: less_induct)
  case less
  have IH: "returns (serve_conn E inp2 out' s')" if "length inp2 < length inp" for inp2 out' s'
    using less that by blast
  have req: "serve_req E q pay t \<noteq> None" for q pay t
    using serve_req_ends[OF assms, of q pay t] by (simp add: returns_def)
  show ?case
    by (subst serve_conn.simps)
      (auto simp: Let_def req split: prod.splits option.splits dest!: read_all_result intro!: IH)
qed

text \<open>
  C35: the FPGA daemon always comes back to its accept loop. If the monotonic clock goes on while registers are
  read, then whatever peers connect, whatever they send, and whatever the cores answer or fail to answer, every
  request ends, every connection ends once its peer has gone, and the daemon serves all of them: the only wait
  in it without a bound of its own, the one for the ML-DSA core, is cut off by the clock.
\<close>

theorem fpgad_always_returns:
  assumes "clock_fair E T"
  shows "accept_loop E cs s \<noteq> None"
proof -
  have "returns (accept_loop E cs s)"
  proof (induction cs arbitrary: s)
    case (Cons c cs)
    have "returns (accept_one E c s)"
      using serve_conn_ends[OF assms] by (auto simp: accept_one_def split_beta intro!: returns_bind)
    then show ?case using Cons by (auto simp: split_beta intro!: returns_bind)
  qed simp
  then show ?thesis by (simp add: returns_def)
qed

end
