(* ===== verification/Fpga_Modes.thy ===== *)
theory Fpga_Modes
  imports Fpga_Props
begin

text \<open>
  The data paths of the FPGA daemon: the packed ports move exactly the bytes they are given, and the
  five modes of operation the daemon builds on the single-block core are inverse to themselves.
\<close>

section \<open>The packed ports\<close>

text \<open>
  What the ports of a core are documented to do. An input port takes one byte, or a word as four
  bytes with the low one first; an output port gives the next byte, or the next four if there are
  as many.
\<close>

definition in_port :: "'d fenv \<Rightarrow> u32 \<Rightarrow> u32 \<Rightarrow> ('d \<Rightarrow> bytes) \<Rightarrow> bool" where
  "in_port E reg4 reg1 got \<longleftrightarrow>
     (\<forall>d v. fst (mmio_wr E (PL_BASE + reg4) v d) \<and>
        got (snd (mmio_wr E (PL_BASE + reg4) v d)) = got d @ put_u32 v \<and>
        fst (mmio_wr E (PL_BASE + reg1) v d) \<and>
        got (snd (mmio_wr E (PL_BASE + reg1) v d)) = got d @ [ucast v])"

definition out_port :: "'d fenv \<Rightarrow> u32 \<Rightarrow> u32 \<Rightarrow> ('d \<Rightarrow> bytes) \<Rightarrow> bool" where
  "out_port E reg4 reg1 rest \<longleftrightarrow>
     (\<forall>d. (4 \<le> length (rest d) \<longrightarrow>
            fst (mmio_rd E (PL_BASE + reg4) d) = Some (get_u32 (rest d)) \<and>
            rest (snd (mmio_rd E (PL_BASE + reg4) d)) = drop 4 (rest d)) \<and>
          (rest d \<noteq> [] \<longrightarrow>
            fst (mmio_rd E (PL_BASE + reg1) d) = Some (ucast (hd (rest d))) \<and>
            rest (snd (mmio_rd E (PL_BASE + reg1) d)) = drop 1 (rest d)))"

lemma put_packed:
  "put_u32 (ucast a OR push_bit 8 (ucast b) OR push_bit 16 (ucast c) OR push_bit 24 (ucast d))
     = [a, b, c, d]"
proof -
  have "ucast a OR push_bit 8 (ucast b) OR push_bit 16 (ucast c) OR push_bit 24 (ucast d)
    = (le_get 0 [a, b, c, d] :: u32)" by (simp add: or.assoc)
  moreover have "put_u32 (le_get 0 [a, b, c, d]) = [a, b, c, d]" by (rule le_bytes_le_get) simp_all
  ultimately show ?thesis by (simp only:)
qed

lemma byte_word [simp]: "ucast (ucast b :: u32) = (b :: byte)"
  by (auto intro!: bit_eqI simp: bit_ucast_iff)

lemma bytes_of_word:
  "[ucast (v AND 0xFF), ucast (drop_bit 8 v AND 0xFF), ucast (drop_bit 16 v AND 0xFF),
    ucast (drop_bit 24 v AND 0xFF)] = put_u32 v" for v :: u32
proof -
  have m: "ucast (w AND 0xFF) = (ucast w :: byte)" for w :: u32
  proof -
    have "w AND 0xFF = take_bit 8 w" by (simp add: take_bit_eq_mask mask_eq_exp_minus_1)
    then show ?thesis by (auto intro!: bit_eqI simp: bit_ucast_iff bit_take_bit_iff)
  qed
  have "[0..<4] = [0, 1, 2, 3 :: nat]" by (simp add: upt_rec)
  then show ?thesis by (simp add: m le_bytes_def)
qed

lemma feed_packed_exact:
  assumes "in_port E r4 r1 got" "\<not> hw_fault s"
  shows "got (dv (feed_packed E r4 r1 bs s)) = got (dv s) @ bs \<and> \<not> hw_fault (feed_packed E r4 r1 bs s)"
  using assms
proof (induction E r4 r1 bs s rule: feed_packed.induct)
  case (1 E r4 r1 a b c d bs s)
  then show ?case by (simp add: put_packed wr_eq Let_def in_port_def)
qed (simp_all add: wr_eq Let_def in_port_def)

lemma drain_packed_exact:
  assumes "out_port E r4 r1 rest" "\<not> hw_fault s" "n \<le> length (rest (dv s))"
  shows "fst (drain_packed E r4 r1 n s) = take n (rest (dv s)) \<and>
    rest (dv (snd (drain_packed E r4 r1 n s))) = drop n (rest (dv s)) \<and>
    \<not> hw_fault (snd (drain_packed E r4 r1 n s))"
  using assms
proof (induction n arbitrary: s rule: less_induct)
  case (less n)
  show ?case
  proof (cases "n = 0")
    case True
    then show ?thesis using less.prems(2) by (simp add: drain_packed.simps)
  next
    case False
    define k where "k = (if 4 \<le> n then 4 else 1 :: nat)"
    define r where "r = rd E (if 4 \<le> n then r4 else r1) s"
    have ne: "rest (dv s) \<noteq> []" using less.prems(3) False by auto
    have r: "\<not> hw_fault (snd r)" "rest (dv (snd r)) = drop k (rest (dv s))"
      "fst r = (if 4 \<le> n then get_u32 (rest (dv s)) else ucast (hd (rest (dv s))))"
      using less.prems ne by (auto simp: r_def k_def rd_eq Let_def out_port_def)
    have IH: "fst (drain_packed E r4 r1 (n - k) (snd r)) = take (n - k) (drop k (rest (dv s)))"
      "rest (dv (snd (drain_packed E r4 r1 (n - k) (snd r)))) = drop n (rest (dv s))"
      "\<not> hw_fault (snd (drain_packed E r4 r1 (n - k) (snd r)))"
      using less.IH[of "n - k" "snd r"] less.prems(1,3) r(1,2) False by (auto simp: k_def)
    have first: "(if 4 \<le> n then put_u32 (fst r) else [ucast (fst r)]) = take k (rest (dv s))"
    proof (cases "4 \<le> n")
      case True
      then have "length (take 4 (rest (dv s))) = 4" using less.prems(3) by simp
      then have "put_u32 (le_get 0 (take 4 (rest (dv s)))) = take 4 (rest (dv s))"
        by (intro le_bytes_le_get) simp_all
      then show ?thesis using True r(3) by (simp add: k_def)
    next
      case False
      then show ?thesis using ne r(3) by (cases "rest (dv s)") (simp_all add: k_def)
    qed
    have "drain_packed E r4 r1 n s =
      (take k (rest (dv s)) @ fst (drain_packed E r4 r1 (n - k) (snd r)),
       snd (drain_packed E r4 r1 (n - k) (snd r)))"
      using False less.prems(2) first
      by (subst drain_packed.simps) (simp add: split_beta r_def k_def bytes_of_word split: if_splits)
    moreover have "take k (rest (dv s)) @ take (n - k) (drop k (rest (dv s))) = take n (rest (dv s))"
      using False by (subst take_add[symmetric]) (simp add: k_def)
    ultimately show ?thesis using IH by simp
  qed
qed

text \<open>
  C37: the packed ports move the bytes they are given, in order, for every length. When the ports behave as
  documented (a word is four bytes with the low one first), feeding a buffer through the packed port with the
  single-byte port for the tail leaves in the core exactly the bytes that feeding them one by one would leave,
  and draining n bytes returns the next n bytes of the output and consumes no other, also when n is not a
  multiple of four, as for the 4627 bytes of the largest ML-DSA signature.
\<close>

theorem packed_ports_exact:
  assumes "in_port E i4 i1 got" "out_port E o4 o1 rest" "\<not> hw_fault s" "n \<le> length (rest (dv s))"
  shows "got (dv (feed_packed E i4 i1 bs s)) = got (dv s) @ bs \<and>
    (\<exists>s'. drain_packed E o4 o1 n s = (take n (rest (dv s)), s') \<and> rest (dv s') = drop n (rest (dv s)) \<and>
        \<not> hw_fault s')"
  using feed_packed_exact[OF assms(1,3)] drain_packed_exact[OF assms(2-4)]
  by (simp add: prod_eq_iff)

section \<open>The modes of operation\<close>

text \<open>
  What the core is documented to do as long as \<open>I\<close> holds of the daemon (the slot holds a key, nothing
  fails): one block in, one block out, encrypted by a permutation \<open>F False\<close> whose inverse is \<open>F True\<close>.
\<close>

definition block_perm :: "(bool \<Rightarrow> bytes \<Rightarrow> bytes) \<Rightarrow> bool" where
  "block_perm F \<longleftrightarrow>
     (\<forall>b. length b = 16 \<longrightarrow>
        length (F False b) = 16 \<and> length (F True b) = 16 \<and> F True (F False b) = b)"

definition sym_core ::
    "'d fenv \<Rightarrow> u32 \<Rightarrow> u32 \<Rightarrow> (bool \<Rightarrow> bytes \<Rightarrow> bytes) \<Rightarrow> ('d fpgad \<Rightarrow> bool) \<Rightarrow> bool" where
  "sym_core E alg slot F I \<longleftrightarrow>
     block_perm F \<and>
     (\<forall>b s dec. length b = 16 \<longrightarrow> I s \<longrightarrow>
        (\<exists>s'. sym_block E alg slot dec b s = (Inr (F dec b), s') \<and> I s'))"

text \<open>The modes over a block function, without the hardware.\<close>

function mode_stream :: "(bool \<Rightarrow> bytes \<Rightarrow> bytes) \<Rightarrow> u32 \<Rightarrow> bool \<Rightarrow> bytes \<Rightarrow> bytes \<Rightarrow> bytes" where
  "mode_stream F mode dec fb inp =
     (if inp = [] then []
      else
        let x = take 16 inp; (d, b) = blk_in mode dec fb x;
            (out, fb1) = blk_out mode dec fb x (F d b) in
        out @ mode_stream F mode dec fb1 (drop 16 inp))"
  by pat_completeness auto

termination mode_stream
  by (relation "measure (\<lambda>(F, mode, dec, fb, inp). length inp)") auto

declare mode_stream.simps [simp del]

text \<open>Blocks the modes take: ECB and CBC want them whole.\<close>

definition mode_fits :: "u32 \<Rightarrow> nat \<Rightarrow> bool" where
  "mode_fits mode n \<longleftrightarrow> mode \<le> PQCS_MODE_OFB \<and> (mode \<le> PQCS_MODE_CBC \<longrightarrow> 16 dvd n)"

lemma length_xor_bytes [simp]: "length (xor_bytes a b) = min (length a) (length b)"
  by (simp add: xor_bytes_def)

lemma xor_bytes_cancel: "length a \<le> length b \<Longrightarrow> xor_bytes (xor_bytes a b) b = a"
  by (rule nth_equalityI) (simp_all add: xor_bytes_def xor.assoc)

lemma length_ctr_inc [simp]: "length (ctr_inc c) = length c"
proof -
  have "length (inc_le bs) = length bs" for bs by (induction bs) auto
  then show ?thesis by (simp add: ctr_inc_def)
qed

lemma mode_cases:
  assumes "mode \<le> PQCS_MODE_OFB"
  shows "mode = PQCS_MODE_ECB \<or> mode = PQCS_MODE_CBC \<or> mode = PQCS_MODE_CTR \<or> mode = PQCS_MODE_CFB \<or>
    mode = PQCS_MODE_OFB"
proof -
  have "unat mode \<le> 4" using assms by (simp add: word_le_nat_alt pqcs_modes)
  moreover have e: "mode = of_nat (unat mode)" by simp
  ultimately have "unat mode = 0 \<or> unat mode = 1 \<or> unat mode = 2 \<or> unat mode = 3 \<or> unat mode = 4" by linarith
  then have "mode = of_nat 0 \<or> mode = of_nat 1 \<or> mode = of_nat 2 \<or> mode = of_nat 3 \<or> mode = of_nat 4"
    using e by metis
  then show ?thesis by (simp add: pqcs_modes)
qed

text \<open>One block: what goes to the core has 16 bytes, and decryption takes back output and feedback.\<close>

lemma whole_block: "16 dvd n \<Longrightarrow> 0 < n \<Longrightarrow> n \<le> 16 \<Longrightarrow> n = (16 :: nat)"
  by (auto dest: dvd_imp_le)

lemma blk_in_length:
  assumes "mode_fits mode (length x)" "x \<noteq> []" "length x \<le> 16" "length fb = 16"
  shows "length (snd (blk_in mode dec fb x)) = 16"
  using assms whole_block[of "length x"] by (auto simp: blk_in_def mode_fits_def pqcs_modes split: if_splits)

lemma blk_round:
  assumes F: "block_perm F"
    and "mode_fits mode (length x)" "x \<noteq> []" "length x \<le> 16" "length fb = 16"
    and "blk_in mode False fb x = (d, b)" "blk_out mode False fb x (F d b) = (out, fb1)"
  shows "length out = length x" "length fb1 = 16"
    and "blk_in mode True fb out = (d', b') \<Longrightarrow> blk_out mode True fb out (F d' b') = (x, fb1)"
proof -
  have full: "mode \<le> PQCS_MODE_CBC \<Longrightarrow> length x = 16"
    using assms(2-4) whole_block[of "length x"] by (auto simp: mode_fits_def)
  have m: "mode \<le> PQCS_MODE_OFB" using assms(2) by (simp add: mode_fits_def)
  have "\<not> d" using assms(6) by (auto simp: blk_in_def split: if_splits)
  moreover have "length b = 16" using blk_in_length[OF assms(2-5), of False] assms(6) by simp
  ultimately have y: "length (F d b) = 16" "F True (F d b) = b" "F d b = F False b"
    using F by (simp_all add: block_perm_def)
  show len: "length out = length x" and "length fb1 = 16"
    using mode_cases[OF m] full y(1) assms(4-7)
    by (auto simp: blk_in_def blk_out_def pqcs_modes Let_def split: if_splits)
  show "blk_in mode True fb out = (d', b') \<Longrightarrow> blk_out mode True fb out (F d' b') = (x, fb1)"
    using mode_cases[OF m] full y len assms(4-7) xor_bytes_cancel[of x fb] xor_bytes_cancel[of x "F d b"]
    by (auto simp: blk_in_def blk_out_def pqcs_modes Let_def split: if_splits)
qed

text \<open>The next block and the rest.\<close>

lemma mode_fits_split:
  assumes "mode_fits mode (length inp)" "inp \<noteq> []"
  shows "mode_fits mode (length (take 16 inp))" "mode_fits mode (length (drop 16 inp))"
    "take 16 inp \<noteq> []" "length (take 16 inp) \<le> 16" "length (drop 16 inp) < length inp"
  using assms by (auto simp: mode_fits_def min_def dvd_minus_self dest: dvd_imp_le)

lemma mode_stream_length:
  assumes F: "block_perm F"
    and "mode_fits mode (length inp)" "length fb = 16"
  shows "length (mode_stream F mode False fb inp) = length inp"
  using assms(2,3)
proof (induction "length inp" arbitrary: inp fb rule: less_induct)
  case less
  show ?case
  proof (cases "inp = []")
    case False
    note sp = mode_fits_split[OF less.prems(1) False]
    obtain d b out fb1 where b: "blk_in mode False fb (take 16 inp) = (d, b)"
      "blk_out mode False fb (take 16 inp) (F d b) = (out, fb1)" by fastforce
    note r = blk_round[OF F sp(1,3,4) less.prems(2) b]
    have "length (mode_stream F mode False fb1 (drop 16 inp)) = length (drop 16 inp)"
      using less.hyps[OF sp(5) sp(2) r(2)] .
    then show ?thesis using False b r(1) by (subst mode_stream.simps) simp
  qed (simp add: mode_stream.simps)
qed

lemma mode_stream_round:
  assumes F: "block_perm F"
    and "mode_fits mode (length inp)" "length fb = 16"
  shows "mode_stream F mode True fb (mode_stream F mode False fb inp) = inp"
  using assms(2,3)
proof (induction "length inp" arbitrary: inp fb rule: less_induct)
  case less
  show ?case
  proof (cases "inp = []")
    case False
    note sp = mode_fits_split[OF less.prems(1) False]
    obtain d b out fb1 where b: "blk_in mode False fb (take 16 inp) = (d, b)"
      "blk_out mode False fb (take 16 inp) (F d b) = (out, fb1)" by fastforce
    note r = blk_round[OF F sp(1,3,4) less.prems(2) b]
    let ?c = "mode_stream F mode False fb1 (drop 16 inp)"
    have c: "mode_stream F mode False fb inp = out @ ?c"
      using False b by (subst mode_stream.simps) simp
    have "length ?c = length (drop 16 inp)" using mode_stream_length[OF F sp(2) r(2)] .
    then have tk: "take 16 (out @ ?c) = out" "drop 16 (out @ ?c) = ?c" "out @ ?c \<noteq> []"
      using r(1) False by (auto simp: min_def split: if_splits)
    obtain d' b' where b': "blk_in mode True fb out = (d', b')" by fastforce
    have "mode_stream F mode True fb (out @ ?c) = take 16 inp @ mode_stream F mode True fb1 ?c"
      using mode_stream.simps[of F mode True fb "out @ ?c"] tk r(3)[OF b'] b'
      by (simp only: Let_def prod.case if_False)
    then show ?thesis using less.hyps[OF sp(5) sp(2) r(2)] c by simp
  qed (simp add: mode_stream.simps)
qed

text \<open>On a core that does its job the loop computes the stream.\<close>

lemma sym_crypt_loop_stream:
  assumes "sym_core E alg slot F I" "mode_fits mode (length inp)" "length fb = 16" "I s"
  shows "\<exists>s'. sym_crypt_loop E alg slot dec mode fb inp s = (Some (mode_stream F mode dec fb inp), s') \<and> I s'"
  using assms(2-)
proof (induction "length inp" arbitrary: inp fb s rule: less_induct)
  case less
  show ?case
  proof (cases "inp = []")
    case True
    then show ?thesis using less.prems(3) by (simp add: sym_crypt_loop.simps mode_stream.simps)
  next
    case False
    note sp = mode_fits_split[OF less.prems(1) False]
    let ?x = "take 16 inp"
    obtain d b where b: "blk_in mode dec fb ?x = (d, b)" by fastforce
    then have lb: "length b = 16" using blk_in_length[OF sp(1,3,4) less.prems(2), of dec] by simp
    obtain s1 where blk: "sym_block E alg slot d b s = (Inr (F d b), s1)" "I s1"
      using assms(1) lb less.prems(3) unfolding sym_core_def by blast
    obtain out fb1 where o: "blk_out mode dec fb ?x (F d b) = (out, fb1)" by fastforce
    have lF: "length (F d b) = 16" using assms(1) lb by (cases d) (simp_all add: sym_core_def block_perm_def)
    have fb1: "length fb1 = 16"
    proof -
      have "mode \<le> PQCS_MODE_CBC \<Longrightarrow> length ?x = 16"
        using sp(1,3,4) whole_block[of "length ?x"] by (auto simp: mode_fits_def)
      then show ?thesis using o lF less.prems(2)
        by (auto simp: blk_out_def pqcs_modes Let_def split: if_splits)
    qed
    obtain s2 where "sym_crypt_loop E alg slot dec mode fb1 (drop 16 inp) s1
        = (Some (mode_stream F mode dec fb1 (drop 16 inp)), s2)" "I s2"
      using less.hyps[OF sp(5) sp(2) fb1 blk(2)] by blast
    moreover have "\<not> mode > PQCS_MODE_OFB" using less.prems(1) by (auto simp: mode_fits_def not_less)
    ultimately show ?thesis using False b blk o
      by (subst sym_crypt_loop.simps, subst mode_stream.simps) (simp add: Let_def)
  qed
qed

text \<open>The fields of the request word and the length, as the dispatcher reads them.\<close>

lemma set_dec_bit:
  "(w OR 0x100) AND 0xFF = w AND 0xFF" "drop_bit 8 (w OR 0x100) AND 1 \<noteq> 0"
  "drop_bit 16 (w OR 0x100) AND 0xFF = drop_bit 16 w AND 0xFF" for w :: u32
proof -
  have b: "bit (0x100 :: u32) n \<longleftrightarrow> n = 8" for n
  proof -
    have "(0x100 :: u32) = push_bit 8 1" by simp
    then show ?thesis by (simp only: bit_push_bit_iff) (auto simp: bit_1_iff)
  qed
  have m: "(0xFF :: u32) = mask 8" by (simp add: mask_eq_exp_minus_1)
  show "(w OR 0x100) AND 0xFF = w AND 0xFF" "drop_bit 16 (w OR 0x100) AND 0xFF = drop_bit 16 w AND 0xFF"
    unfolding m by (rule bit_eqI, auto simp only: bit_and_iff bit_or_iff bit_mask_iff bit_drop_bit_eq o_apply b)+
  have "bit (drop_bit 8 (w OR 0x100) AND 1) 0"
    by (simp add: bit_and_iff bit_or_iff bit_drop_bit_eq b)
  then show "drop_bit 8 (w OR 0x100) AND 1 \<noteq> 0" by auto
qed

lemma whole_words: "w mod 16 = 0 \<longleftrightarrow> 16 dvd unat w" for w :: u32
proof -
  have "unat (w mod 16) = unat w mod 16" by (simp add: unat_mod)
  then show ?thesis by (metis dvd_eq_mod_eq_0 unsigned_eq_0_iff)
qed

text \<open>Behind its checks the operation is the mode.\<close>

lemma op_sym_crypt_run:
  assumes "\<not> (pq_a0 q AND 0xFF > 2 \<or> pq_a1 q AND 0xFF > 7 \<or> drop_bit 16 (pq_a0 q) AND 0xFF > PQCS_MODE_OFB)"
    and "\<not> pq_len q < 16" "pq_len q - 16 \<noteq> 0"
    and "\<not> ((drop_bit 16 (pq_a0 q) AND 0xFF = PQCS_MODE_ECB \<or> drop_bit 16 (pq_a0 q) AND 0xFF = PQCS_MODE_CBC)
      \<and> (pq_len q - 16) mod 16 \<noteq> 0)"
    and "\<not> pq_len q - 16 > PQCS_MAXPAY"
    and "sym_crypt E (pq_a0 q AND 0xFF) (pq_a1 q AND 0xFF) (drop_bit 8 (pq_a0 q) AND 1 \<noteq> 0)
      (drop_bit 16 (pq_a0 q) AND 0xFF) (take 16 pay) (drop 16 pay) s = (Some out, s1)"
  shows "op_sym_crypt E q pay s = ((SDR_OK, out), s1)"
  unfolding op_sym_crypt_def Let_def assms(6)
  using assms(1-5) by (simp only: if_False simp_thms prod.case option.case)

lemma mode_fits_checked:
  fixes alg slot :: u32
  assumes "\<not> (alg > 2 \<or> slot > 7 \<or> mode > PQCS_MODE_OFB)"
    and "\<not> ((mode = PQCS_MODE_ECB \<or> mode = PQCS_MODE_CBC) \<and> w mod 16 \<noteq> 0)"
    and "w mod 16 = 0 \<longleftrightarrow> 16 dvd unat w" "unat w = n"
  shows "mode_fits mode n"
proof -
  have m: "mode \<le> PQCS_MODE_OFB" using assms(1) by (simp add: not_less)
  then show ?thesis using mode_cases[OF m] assms(2-4)
    by (auto simp: mode_fits_def pqcs_modes word_le_nat_alt)
qed

text \<open>
  C36: what was encrypted is decrypted. When the symmetric core computes, for the key of the slot, a block
  permutation and its inverse, then whatever SYM\_CRYPT request the FPGA daemon has answered with SDR\_OK, in any
  of the modes ECB, CBC, CTR, CFB and OFB and for data of any length the mode takes, the answer has the length
  of the data, and the same request with the decryption bit set and the same IV, made at any later time while
  the core still holds the key, returns exactly the data.
\<close>

theorem crypt_roundtrip:
  assumes "sym_core E (pq_a0 q AND 0xFF) (pq_a1 q AND 0xFF) F I" "I s" "I s2"
    and "pq_op q = OP_SYM_CRYPT" "\<not> bit (pq_a0 q) 8" "length pay = unat (pq_len q)"
    and "handle_op E q pay s = Some ((SDR_OK, c), s1)"
  shows "length c = length pay - 16 \<and>
    (\<exists>s3. handle_op E (q\<lparr>pq_a0 := pq_a0 q OR 0x100\<rparr>) (take 16 pay @ c) s2
       = Some ((SDR_OK, drop 16 pay), s3))"
proof -
  let ?alg = "pq_a0 q AND 0xFF" and ?slot = "pq_a1 q AND 0xFF"
  let ?mode = "drop_bit 16 (pq_a0 q) AND 0xFF" and ?q = "q\<lparr>pq_a0 := pq_a0 q OR 0x100\<rparr>"
  have enc: "drop_bit 8 (pq_a0 q) AND 1 = 0"
    using assms(5) by (auto intro!: bit_eqI simp: bit_and_iff bit_drop_bit_eq bit_1_iff)
  have dec: "(pq_a0 q OR 0x100) AND 0xFF = ?alg" "drop_bit 8 (pq_a0 q OR 0x100) AND 1 \<noteq> 0"
    "drop_bit 16 (pq_a0 q OR 0x100) AND 0xFF = ?mode"
    by (rule set_dec_bit)+
  have op: "op_sym_crypt E q pay s = ((SDR_OK, c), s1)"
    using assms(4,7) by (simp add: handle_op_def fpga_ops)
  have checks: "\<not> (?alg > 2 \<or> ?slot > 7 \<or> ?mode > PQCS_MODE_OFB)" "\<not> pq_len q < 16" "pq_len q - 16 \<noteq> 0"
    "\<not> ((?mode = PQCS_MODE_ECB \<or> ?mode = PQCS_MODE_CBC) \<and> (pq_len q - 16) mod 16 \<noteq> 0)"
    "\<not> pq_len q - 16 > PQCS_MAXPAY"
    using op by (auto simp: op_sym_crypt_def Let_def sdr_codes split: if_splits)
  have len: "16 \<le> length pay" using checks(2) assms(6) by (simp add: word_less_nat_alt)
  have dlen: "unat (pq_len q - 16) = length (drop 16 pay)"
    using len assms(6) by (simp add: unat_sub word_le_nat_alt)
  have fits: "mode_fits ?mode (length (drop 16 pay))"
    using checks(1,4) whole_words[of "pq_len q - 16"] dlen by (rule mode_fits_checked)
  have lenfb: "length (take 16 pay) = 16" using len by simp
  note run = sym_crypt_loop_stream[OF assms(1) _ lenfb]
  obtain s' where "sym_crypt E ?alg ?slot False ?mode (take 16 pay) (drop 16 pay) s =
      (Some (mode_stream F ?mode False (take 16 pay) (drop 16 pay)), s')"
    using run[OF fits assms(2), of False] by (auto simp: sym_crypt_def)
  then have "sym_crypt E ?alg ?slot (drop_bit 8 (pq_a0 q) AND 1 \<noteq> 0) ?mode (take 16 pay) (drop 16 pay) s =
      (Some (mode_stream F ?mode False (take 16 pay) (drop 16 pay)), s')" using enc by simp
  then have c: "c = mode_stream F ?mode False (take 16 pay) (drop 16 pay)"
    using op op_sym_crypt_run[OF checks, of E pay s] by simp
  have F: "block_perm F" using assms(1) by (simp add: sym_core_def)
  have lc: "length c = length (drop 16 pay)" using mode_stream_length[OF F fits lenfb] c by simp
  then have fits2: "mode_fits ?mode (length c)" using fits by simp
  obtain s3 where "sym_crypt E ?alg ?slot True ?mode (take 16 pay) c s2 = (Some (drop 16 pay), s3)"
    using run[OF fits2 assms(3), of True] mode_stream_round[OF F fits lenfb] c
    by (auto simp: sym_crypt_def)
  moreover have "take 16 (take 16 pay @ c) = take 16 pay" "drop 16 (take 16 pay @ c) = c"
    using lenfb by simp_all
  ultimately have "op_sym_crypt E ?q (take 16 pay @ c) s2 = ((SDR_OK, drop 16 pay), s3)"
    using len dec checks op_sym_crypt_run[of ?q E "take 16 pay @ c" s2] by simp
  then have "handle_op E ?q (take 16 pay @ c) s2 = Some ((SDR_OK, drop 16 pay), s3)"
    using assms(4) by (simp add: handle_op_def fpga_ops)
  then show ?thesis using lc by auto
qed

end
