(* ===== verification/Example_Fpga.thy ===== *)
theory Example_Fpga
  imports Fpga_Modes
begin

text \<open>
  Three small boards: one whose registers always give the same answer while time goes on, one with
  byte ports, and one with a block core that rotates the four words of a block. They show that the
  hypotheses of the properties of the FPGA daemon can hold.
\<close>

section \<open>A board that answers\<close>

definition ex_reg :: "u32 \<Rightarrow> u32" where
  "ex_reg a =
     (if a = PL_BASE + MK_STATUS then MKS_DONE
      else if a = PL_BASE + MD_STATUS then MDS_DONE
      else if a = PL_BASE + MK_OUTLEN then 800
      else 0)"

definition ex_board :: "nat fenv" where
  "ex_board =
     \<lparr>mmio_rd = (\<lambda>a t. (Some (ex_reg a), Suc t)), mmio_wr = (\<lambda>a v t. (True, t)),
      tee_init = (\<lambda>t. (True, t)), tee_session = (\<lambda>t. (True, t)),
      tee_invoke = (\<lambda>r t. (Some (replicate 76 7), t)), tee_close = id, tee_fini = id,
      clock_ms = (\<lambda>t. (int (t div 1000000), t)), time_s = (\<lambda>t. (1, t)),
      heap_ok = (\<lambda>t. (True, t)), sock_io = (\<lambda>n t. (n, t)), acl_text = (\<lambda>t. (None, t))\<rparr>"

lemma ex_rd [simp]: "rd ex_board off s = (ex_reg (PL_BASE + off), s\<lparr>dv := Suc (dv s)\<rparr>)"
  by (simp add: rd_eq ex_board_def Let_def)

lemma ex_wr [simp]: "wr ex_board off v s = s"
  by (simp add: wr_eq ex_board_def Let_def)

lemma ex_wait [simp]:
  "wait_not_wiping ex_board MK_STATUS MKS_WIPING s =
     (\<not> hw_fault s, s\<lparr>dv := Suc (dv s)\<rparr>)"
  "wait_not_wiping ex_board MD_STATUS MDS_WIPING s =
     (\<not> hw_fault s, s\<lparr>dv := Suc (dv s)\<rparr>)"
  "wait_exp_idle ex_board MK_KEYSTAT MKS_EXPWIPE s =
     (\<not> hw_fault s, s\<lparr>dv := Suc (dv s)\<rparr>)"
  by (simp_all add: wait_not_wiping_def wait_exp_idle_def wait_clear.simps ex_reg_def fpga_regs)

lemma ex_drain: "\<exists>bs t. drain_packed ex_board r4 r1 n s = (bs, s\<lparr>dv := t\<rparr>)"
proof (induction n arbitrary: s rule: less_induct)
  case (less n)
  show ?case
  proof (cases "n = 0 \<or> hw_fault s")
    case True
    then show ?thesis by (intro exI[of _ "[]"] exI[of _ "dv s"]) (simp add: drain_packed.simps)
  next
    case False
    define m where "m = (if 4 \<le> n then n - 4 else n - 1)"
    have "m < n" using False by (auto simp: m_def)
    then obtain bs t where "drain_packed ex_board r4 r1 m (s\<lparr>dv := Suc (dv s)\<rparr>) = (bs, s\<lparr>dv := t\<rparr>)"
      using less.IH[of m "s\<lparr>dv := Suc (dv s)\<rparr>"] by auto
    then show ?thesis using False
      by (subst drain_packed.simps) (auto simp: m_def split: if_splits)
  qed
qed

lemma ex_run:
  assumes "\<not> hw_fault s"
  shows "\<exists>bs t. mlkem_run ex_board 0 0 (MKM_CHAIN OR MKM_SEED_STAGED) [] 4900 s = (Inr (800, bs), s\<lparr>dv := t\<rparr>)"
proof -
  have wait: "mlkem_wait ex_board 3000000 u = (True, u\<lparr>dv := Suc (dv u)\<rparr>)" for u
    by (subst mlkem_wait.simps) (simp add: ex_reg_def fpga_regs)
  obtain bs t where d: "drain_packed ex_board MK_OUTDAT4 MK_OUTDAT 800
      (s\<lparr>dv := Suc (Suc (Suc (Suc (Suc (dv s)))))\<rparr>) = (bs, s\<lparr>dv := t\<rparr>)"
    using ex_drain[of MK_OUTDAT4 MK_OUTDAT 800 "s\<lparr>dv := Suc (Suc (Suc (Suc (Suc (dv s)))))\<rparr>"] by auto
  have regs: "ex_reg (PL_BASE + MK_INPTR) = 0" "ex_reg (PL_BASE + MK_STATUS) AND MKS_DONE \<noteq> 0"
    "ex_reg (PL_BASE + MK_OUTLEN) = 800"
    by (simp_all add: ex_reg_def fpga_regs)
  show ?thesis
    using assms d regs by (simp add: mlkem_run_def Let_def wait) (rule exI, rule refl)
qed

definition ex_fpgad :: "nat fpgad" where "ex_fpgad = fpgad_init 0"

definition ex_req :: "u32 \<Rightarrow> pqcs_req" where
  "ex_req op = \<lparr>pq_magic = PQCS_MAGIC, pq_op = op, pq_a0 = 0, pq_a1 = 0, pq_len = 0\<rparr>"

section \<open>An answer, a key, an end\<close>

abbreviation ex_logged :: "(nat \<times> acc list) fpgad" where "ex_logged \<equiv> fpgad_init (0, [])"

lemma ex_watched_rd [simp]:
  "rd (watched ex_board) off s =
     (ex_reg (PL_BASE + off),
      s\<lparr>dv := (Suc (fst (dv s)), AccRd (PL_BASE + off) (Some (ex_reg (PL_BASE + off))) # accs s)\<rparr>)"
  by (simp add: rd_eq ex_board_def watched_def Let_def)

lemma ex_ping: "\<exists>body s'. serve_req (watched ex_board) (ex_req OP_PING) [] ex_logged = Some ((SDR_OK, body), s')"
proof -
  have w: "wait_not_wiping (watched ex_board) r b s =
      (True, s\<lparr>dv := (Suc (fst (dv s)), AccRd (PL_BASE + r) (Some (ex_reg (PL_BASE + r))) # accs s)\<rparr>)"
    if "ex_reg (PL_BASE + r) AND b = 0" "\<not> hw_fault s" for r b s
    using that by (simp add: wait_not_wiping_def wait_clear.simps)
  have "ex_reg (PL_BASE + MK_STATUS) AND MKS_WIPING = 0" "ex_reg (PL_BASE + MD_STATUS) AND MDS_WIPING = 0"
    by (simp_all add: ex_reg_def fpga_regs)
  then show ?thesis
    by (simp add: serve_req_def w handle_op_def op_ping_def fpgad_init_def ex_req_def)
qed

theorem ok_means_bus_ok_witness:
  "\<exists>body s'. serve_req (watched ex_board) (ex_req OP_PING) [] ex_logged = Some ((SDR_OK, body), s') \<and>
     list_all acc_ok (accs s')"
proof -
  obtain body s' where p: "serve_req (watched ex_board) (ex_req OP_PING) [] ex_logged = Some ((SDR_OK, body), s')"
    using ex_ping by blast
  have "accs ex_logged = []" by (simp add: fpgad_init_def)
  from ok_means_bus_ok[OF p this] p show ?thesis by auto
qed

lemma ex_tee [simp]:
  "tee_invoke ex_board r d = (Some (replicate 76 7), d)" "tee_init ex_board d = (True, d)"
  "tee_session ex_board d = (True, d)"
  by (simp_all add: ex_board_def)

lemma ex_seed:
  assumes "\<not> hw_fault s" "\<not> g_tee_open s"
  shows "\<exists>t. seed_new_clean ex_board SEED_TGT_MLKEM SEED_BLOB_MAX s =
     (Some (replicate 76 7), s\<lparr>dv := t, g_tee_open := True\<rparr>)"
  using assms
  by (simp add: seed_new_clean_def seed_clr_def ta_seed_new_def ta_cmd_def tee_session_open_def Let_def)
    (rule exI, rule refl)

lemma ex_keygen_op:
  assumes "\<not> hw_fault s" "\<not> g_tee_open s" "kem_keys s = replicate PL_KEY_SLOTS no_key"
  shows "\<exists>body s1. op_mlkem_keygen ex_board (ex_req OP_MLKEM_KEYGEN) s = ((SDR_OK, body), s1) \<and> \<not> hw_fault s1"
proof -
  have free: "first_free (kem_keys s) = 0" using assms(3) by (simp add: first_free_def no_key_def PL_KEY_SLOTS_def)
  obtain t where sd: "seed_new_clean ex_board SEED_TGT_MLKEM SEED_BLOB_MAX s =
     (Some (replicate 76 7), s\<lparr>dv := t, g_tee_open := True\<rparr>)"
    using ex_seed[OF assms(1,2)] by blast
  define u where "u = s\<lparr>dv := t, g_tee_open := True,
     kem_keys := (kem_keys s)[0 := (kem_keys s ! 0)\<lparr>ke_blob := replicate 76 7\<rparr>]\<rparr>"
  have "\<not> hw_fault u" using assms(1) by (simp add: u_def)
  then obtain bs t2 where run: "mlkem_run ex_board 0 0 (MKM_CHAIN OR MKM_SEED_STAGED) [] 4900 u =
      (Inr (800, bs), u\<lparr>dv := t2\<rparr>)"
    using ex_run by blast
  have "ek_len 0 = 800" by (simp add: mlkem_len_def)
  then show ?thesis
    using run assms(1) free sd
    by (simp add: op_mlkem_keygen_def ex_req_def Let_def PL_KEY_SLOTS_def u_def)
qed

lemma ex_keygen:
  "\<exists>body s1. serve_req ex_board (ex_req OP_MLKEM_KEYGEN) [] ex_fpgad = Some ((SDR_OK, body), s1)"
proof -
  define s where "s = ex_fpgad\<lparr>dv := 2\<rparr>"
  have "\<not> hw_fault s" "\<not> g_tee_open s" "kem_keys s = replicate PL_KEY_SLOTS no_key"
    by (simp_all add: s_def ex_fpgad_def fpgad_init_def)
  then obtain body s1 where "op_mlkem_keygen ex_board (ex_req OP_MLKEM_KEYGEN) s = ((SDR_OK, body), s1)"
    "\<not> hw_fault s1"
    using ex_keygen_op by blast
  moreover have "ex_fpgad\<lparr>hw_fault := False\<rparr> = ex_fpgad" "\<not> hw_fault ex_fpgad" "dv ex_fpgad = 0"
    "ex_fpgad\<lparr>dv := Suc (Suc 0), hw_fault := False\<rparr> = s"
    by (simp_all add: s_def ex_fpgad_def fpgad_init_def)
  ultimately show ?thesis
    by (simp add: serve_req_def handle_op_def fpga_ops ex_req_def)
qed

text \<open>The key is still there after the client has asked for its blob and then pinged the daemon.\<close>

theorem handle_keeps_its_key_witness:
  "\<exists>body s1 s2 h blob.
     serve_req ex_board (ex_req OP_MLKEM_KEYGEN) [] ex_fpgad = Some ((SDR_OK, body), s1) \<and>
     serve_reqs ex_board [(ex_req OP_PQC_BLOB_EXPORT, []), (ex_req OP_PING, [])] s1 = Some s2 \<and>
     key_live (kem_keys s2) h \<and> kem_keys s2 ! unat h = \<lparr>ke_used = True, ke_pset = 0, ke_blob = blob\<rparr>"
proof -
  obtain body s1 where g: "serve_req ex_board (ex_req OP_MLKEM_KEYGEN) [] ex_fpgad = Some ((SDR_OK, body), s1)"
    using ex_keygen by blast
  have "clock_fair ex_board id" by (simp add: clock_fair_def ex_board_def)
  then have returns: "serve_req ex_board q pay s \<noteq> None" for q pay s
    using serve_req_ends[of ex_board id q pay s] by (simp add: returns_def)
  have "serve_reqs ex_board rs t \<noteq> None" for rs t
    by (induction rs arbitrary: t) (auto simp: returns split: option.splits)
  then obtain s2 where r: "serve_reqs ex_board [(ex_req OP_PQC_BLOB_EXPORT, []), (ex_req OP_PING, [])] s1 = Some s2"
    by blast
  have "pq_op (ex_req OP_MLKEM_KEYGEN) = OP_MLKEM_KEYGEN" "length (kem_keys ex_fpgad) = PL_KEY_SLOTS"
    by (simp_all add: ex_req_def ex_fpgad_def fpgad_init_def)
  from handle_keeps_its_key[OF g this r] g r show ?thesis by (auto simp: ex_req_def)
qed

theorem session_leaves_nothing_witness:
  "\<exists>s'. accept_one (watched ex_board) (PeerLocal, []) ex_logged = Some ([], s') \<and>
     handle_op (watched ex_board) (ex_req OP_MLKEM_DECAPS) [] s' = Some ((SDR_KEYNOTEXIST, []), s') \<and>
     (\<exists>ok. AccWr (PL_BASE + SY_CTRL) SYC_ZEROIZE ok \<in> set (accs s'))"
proof -
  have ad: "admit (watched ex_board) (fst (PeerLocal, [] :: bytes)) ex_logged = (True, ex_logged)"
    by (simp add: admit_def)
  then obtain s' where acc: "accept_one (watched ex_board) (PeerLocal, []) ex_logged = Some ([], s')"
    by (simp add: accept_one_def serve_conn.simps read_all.simps split_beta)
  have "pq_op (ex_req OP_MLKEM_DECAPS) \<in> {OP_MLKEM_DECAPS, OP_MLDSA_SIGN, OP_PQC_BLOB_EXPORT}"
    by (simp add: ex_req_def)
  from session_leaves_nothing[OF acc ad this, of "watched ex_board" "[]"] acc show ?thesis by auto
qed

theorem fpgad_always_returns_witness:
  "accept_loop ex_board [(PeerLocal, put_u32 PQCS_MAGIC @ put_u32 OP_PING @ replicate 12 0),
     (PeerRemote 1 SslRefused, [])] ex_fpgad \<noteq> None"
proof -
  have "clock_fair ex_board id" by (simp add: clock_fair_def ex_board_def)
  then show ?thesis by (rule fpgad_always_returns)
qed

section \<open>Byte ports\<close>

definition ex_fifo :: "(bytes \<times> bytes) fenv" where
  "ex_fifo =
     \<lparr>mmio_rd = (\<lambda>a d. if a = PL_BASE + MK_OUTDAT4 then (Some (get_u32 (snd d)), fst d, drop 4 (snd d))
                   else (Some (ucast (hd (snd d))), fst d, drop 1 (snd d))),
      mmio_wr = (\<lambda>a v d. if a = PL_BASE + MK_INDATA4 then (True, fst d @ put_u32 v, snd d)
                   else (True, fst d @ [ucast v], snd d)),
      tee_init = Pair True, tee_session = Pair True, tee_invoke = (\<lambda>r d. (None, d)), tee_close = id,
      tee_fini = id, clock_ms = Pair 0, time_s = Pair 0, heap_ok = Pair True, sock_io = (\<lambda>n d. (0, d)),
      acl_text = Pair None\<rparr>"

lemma ex_init [simp]: "hw_fault (fpgad_init d) = False" "dv (fpgad_init d) = d"
  by (simp_all add: fpgad_init_def)

theorem packed_ports_exact_witness:
  "fst (dv (feed_packed ex_fifo MK_INDATA4 MK_INDATA [1, 2, 3, 4, 5, 6] (fpgad_init ([], []))))
     = [1, 2, 3, 4, 5, 6] \<and>
   (\<exists>s'. drain_packed ex_fifo MK_OUTDAT4 MK_OUTDAT 7 (fpgad_init ([], replicate 9 3)) = (replicate 7 3, s'))"
proof -
  have i: "in_port ex_fifo MK_INDATA4 MK_INDATA fst"
    by (simp add: in_port_def ex_fifo_def fpga_regs del: le_get.simps)
  have o: "out_port ex_fifo MK_OUTDAT4 MK_OUTDAT snd"
    by (simp add: out_port_def ex_fifo_def fpga_regs del: le_get.simps)
  show ?thesis
    using packed_ports_exact[OF i o, of "fpgad_init ([], [])" 0 "[1, 2, 3, 4, 5, 6]"]
      packed_ports_exact[OF i o, of "fpgad_init ([], replicate 9 3)" 7 "[]"]
    by (auto simp: take_replicate simp del: feed_packed.simps)
qed

section \<open>A block core\<close>

text \<open>The core turns the four words of a block one way to encrypt and the other way to decrypt.\<close>

record ex_core =
  ec_dec :: bool
  ec_din :: "u32 list"

definition ex_rot :: "bool \<Rightarrow> bytes \<Rightarrow> bytes" where
  "ex_rot dec b = (if dec then drop 12 b @ take 12 b else drop 4 b @ take 4 b)"

definition ex_sym :: "ex_core fenv" where
  "ex_sym =
     \<lparr>mmio_rd = (\<lambda>a d.
        (Some (if a = PL_BASE + SY_DOUT0 then ec_din d ! (if ec_dec d then 3 else 1)
          else if a = PL_BASE + SY_DOUT0 + 4 then ec_din d ! (if ec_dec d then 0 else 2)
          else if a = PL_BASE + SY_DOUT0 + 8 then ec_din d ! (if ec_dec d then 1 else 3)
          else if a = PL_BASE + SY_DOUT0 + 12 then ec_din d ! (if ec_dec d then 2 else 0)
          else 14), d)),
      mmio_wr = (\<lambda>a v d.
        (True,
          if a = PL_BASE + SY_ALG then d\<lparr>ec_dec := bit v 2\<rparr>
          else if a = PL_BASE + SY_DIN0 then d\<lparr>ec_din := (ec_din d)[0 := v]\<rparr>
          else if a = PL_BASE + SY_DIN0 + 4 then d\<lparr>ec_din := (ec_din d)[1 := v]\<rparr>
          else if a = PL_BASE + SY_DIN0 + 8 then d\<lparr>ec_din := (ec_din d)[2 := v]\<rparr>
          else if a = PL_BASE + SY_DIN0 + 12 then d\<lparr>ec_din := (ec_din d)[3 := v]\<rparr>
          else d)),
      tee_init = Pair True, tee_session = Pair True, tee_invoke = (\<lambda>r d. (None, d)), tee_close = id,
      tee_fini = id, clock_ms = Pair 0, time_s = Pair 0, heap_ok = Pair True, sock_io = (\<lambda>n d. (0, d)),
      acl_text = Pair None\<rparr>"

definition ex_sym_inv :: "ex_core fpgad \<Rightarrow> bool" where
  "ex_sym_inv s \<longleftrightarrow> \<not> hw_fault s \<and> length (ec_din (dv s)) = 4"

lemma be_word_round: "4 \<le> length b \<Longrightarrow> be_word_bytes (be_word b) = take 4 b"
proof -
  assume "4 \<le> length b"
  then obtain b0 b1 b2 b3 r where b: "b = b0 # b1 # b2 # b3 # r"
    by (auto simp: numeral_eq_Suc Suc_le_length_iff)
  have le: "[ucast w, ucast (drop_bit 8 w), ucast (drop_bit 16 w), ucast (drop_bit 24 w)] = put_u32 w" for w :: u32
  proof -
    have "[0..<4] = [0, 1, 2, 3 :: nat]" by (simp add: upt_rec)
    then show ?thesis by (simp add: le_bytes_def)
  qed
  have "put_u32 (be_word b) = [b3, b2, b1, b0]"
    using put_packed[of b3 b2 b1 b0] by (simp add: b be_word_def or.commute or.left_commute)
  then show ?thesis using le[of "be_word b"] by (simp add: be_word_bytes_def b)
qed

lemmas ex_sym_ports =
  arg_cong[OF ex_sym_def, of mmio_rd, simplified fenv.simps] arg_cong[OF ex_sym_def, of mmio_wr, simplified fenv.simps]

lemma ex_sym_wr: "wr ex_sym off v u = u\<lparr>dv := snd (mmio_wr ex_sym (PL_BASE + off) v (dv u))\<rparr>"
  by (simp add: wr_eq Let_def ex_sym_def)

lemma ex_sym_rd: "rd ex_sym off u = (the (fst (mmio_rd ex_sym (PL_BASE + off) (dv u))), u)"
  by (simp add: rd_eq Let_def ex_sym_def)

lemma four_words:
  "wr_be E reg 4 b u = wr E (reg + 12) (be_word (drop 12 b)) (wr E (reg + 8) (be_word (drop 8 b))
     (wr E (reg + 4) (be_word (drop 4 b)) (wr E reg (be_word b) u)))"
  "rd_be ex_sym reg 4 u =
     (be_word_bytes (fst (rd ex_sym reg u)) @ be_word_bytes (fst (rd ex_sym (reg + 4) u)) @
      be_word_bytes (fst (rd ex_sym (reg + 8) u)) @ be_word_bytes (fst (rd ex_sym (reg + 12) u)), u)"
proof -
  have four: "(4 :: nat) = Suc (Suc (Suc (Suc 0)))" by simp
  show "wr_be E reg 4 b u = wr E (reg + 12) (be_word (drop 12 b)) (wr E (reg + 8) (be_word (drop 8 b))
     (wr E (reg + 4) (be_word (drop 4 b)) (wr E reg (be_word b) u)))"
    "rd_be ex_sym reg 4 u =
     (be_word_bytes (fst (rd ex_sym reg u)) @ be_word_bytes (fst (rd ex_sym (reg + 4) u)) @
      be_word_bytes (fst (rd ex_sym (reg + 8) u)) @ be_word_bytes (fst (rd ex_sym (reg + 12) u)), u)"
    by (subst four, simp add: ex_sym_rd add.assoc)+
qed

lemma ex_sym_block:
  assumes "\<not> hw_fault s" "ec_din (dv s) = [x0, x1, x2, x3]"
  shows "sym_block ex_sym 0 0 dec b s =
    (Inr (let w = [be_word b, be_word (drop 4 b), be_word (drop 8 b), be_word (drop 12 b)] in
       be_word_bytes (w ! (if dec then 3 else 1)) @ be_word_bytes (w ! (if dec then 0 else 2)) @
       be_word_bytes (w ! (if dec then 1 else 3)) @ be_word_bytes (w ! (if dec then 2 else 0))),
     s\<lparr>dv := \<lparr>ec_dec = dec, ec_din = [be_word b, be_word (drop 4 b), be_word (drop 8 b), be_word (drop 12 b)]\<rparr>\<rparr>)"
proof -
  have rdS: "rd ex_sym SY_STATUS u = (14, u)" for u
    by (simp add: ex_sym_rd ex_sym_ports fpga_regs)
  have spin: "spin_check ex_sym SY_STATUS SYS_KRDY 200000 u = (True, u)"
    "spin_check ex_sym SY_STATUS SYS_DONE 200000 u = (True, u)" if "\<not> hw_fault u" for u
    using that by (simp_all add: spin_check_def spin.simps rdS SYS_KRDY_def SYS_DONE_def)
  have alg: "wr ex_sym SY_ALG 4 s = s\<lparr>dv := (dv s)\<lparr>ec_dec := True\<rparr>\<rparr>"
    "wr ex_sym SY_ALG 0 s = s\<lparr>dv := (dv s)\<lparr>ec_dec := False\<rparr>\<rparr>"
    by (simp_all add: ex_sym_wr ex_sym_ports fpga_regs)
  have other: "wr ex_sym SY_SLOT v u = u" "wr ex_sym SY_CMD v u = u" for u v
    by (simp_all add: ex_sym_wr ex_sym_ports fpga_regs)
  have din: "wr_be ex_sym SY_DIN0 4 b (s\<lparr>dv := (dv s)\<lparr>ec_dec := e\<rparr>\<rparr>) =
      s\<lparr>dv := \<lparr>ec_dec = e, ec_din = [be_word b, be_word (drop 4 b), be_word (drop 8 b), be_word (drop 12 b)]\<rparr>\<rparr>" for e
    using assms(2) by (cases "dv s") (simp add: four_words ex_sym_wr ex_sym_ports fpga_regs)
  show ?thesis
    using assms(1) by (cases dec; simp add: sym_block_def Let_def alg other rdS SYS_KVOK_def spin din;
        simp add: four_words ex_sym_rd ex_sym_ports fpga_regs)
qed

lemma ex_sym_core: "sym_core ex_sym 0 0 ex_rot ex_sym_inv"
proof -
  have "block_perm ex_rot" by (auto simp: block_perm_def ex_rot_def)
  moreover have "\<exists>s'. sym_block ex_sym 0 0 dec b s = (Inr (ex_rot dec b), s') \<and> ex_sym_inv s'"
    if len: "length b = 16" and inv: "ex_sym_inv s" for b s dec
  proof -
    obtain x0 x1 x2 x3 where x: "ec_din (dv s) = [x0, x1, x2, x3]"
      using inv by (auto simp: ex_sym_inv_def numeral_eq_Suc length_Suc_conv)
    have "take 12 b = take 4 b @ take 8 (drop 4 b)" "take 8 (drop 4 b) = take 4 (drop 4 b) @ take 4 (drop 8 b)"
      "take 12 (drop 4 b) = take 8 (drop 4 b) @ take 4 (drop 12 b)"
      using take_add[of 4 8 b] take_add[of 4 4 "drop 4 b"] take_add[of 8 4 "drop 4 b"] by simp_all
    moreover have "take 12 (drop 4 b) = drop 4 b" "take 4 (drop 12 b) = drop 12 b" using len by simp_all
    ultimately show ?thesis
      using ex_sym_block[of s x0 x1 x2 x3 dec b] x inv len
      by (simp add: ex_sym_inv_def ex_rot_def be_word_round Let_def)
  qed
  ultimately show ?thesis unfolding sym_core_def by blast
qed

text \<open>Five bytes in counter mode, there and back.\<close>

definition ex_crypt_req :: pqcs_req where
  "ex_crypt_req = \<lparr>pq_magic = PQCS_MAGIC, pq_op = OP_SYM_CRYPT, pq_a0 = 0x20000, pq_a1 = 0, pq_len = 21\<rparr>"

definition ex_crypt_pay :: bytes where "ex_crypt_pay = map of_nat [0..<21]"

definition ex_sym_fpgad :: "ex_core fpgad" where
  "ex_sym_fpgad = fpgad_init \<lparr>ec_dec = False, ec_din = [0, 0, 0, 0]\<rparr>"

theorem crypt_roundtrip_witness:
  "\<exists>c s1 s3. handle_op ex_sym ex_crypt_req ex_crypt_pay ex_sym_fpgad = Some ((SDR_OK, c), s1) \<and> length c = 5 \<and>
     handle_op ex_sym (ex_crypt_req\<lparr>pq_a0 := 0x20100\<rparr>) (take 16 ex_crypt_pay @ c) ex_sym_fpgad
       = Some ((SDR_OK, drop 16 ex_crypt_pay), s3)"
proof -
  let ?q = ex_crypt_req
  have fields: "pq_a0 ?q AND 0xFF = 0" "pq_a1 ?q AND 0xFF = 0" "drop_bit 16 (pq_a0 ?q) AND 0xFF = PQCS_MODE_CTR"
    "drop_bit 8 (pq_a0 ?q) AND 1 = 0" "pq_len ?q = 21" "pq_op ?q = OP_SYM_CRYPT" "\<not> bit (pq_a0 ?q) 8"
    "pq_a0 ?q OR 0x100 = 0x20100"
    by (simp_all add: ex_crypt_req_def pqcs_modes)
  have inv: "ex_sym_inv ex_sym_fpgad" by (simp add: ex_sym_inv_def ex_sym_fpgad_def)
  have len: "length ex_crypt_pay = 21" by (simp add: ex_crypt_pay_def)
  have "mode_fits PQCS_MODE_CTR (length (drop 16 ex_crypt_pay))" by (simp add: mode_fits_def pqcs_modes word_le_nat_alt)
  then obtain c s1 where "sym_crypt ex_sym 0 0 False PQCS_MODE_CTR (take 16 ex_crypt_pay) (drop 16 ex_crypt_pay)
      ex_sym_fpgad = (Some c, s1)"
    using sym_crypt_loop_stream[OF ex_sym_core _ _ inv, of PQCS_MODE_CTR "drop 16 ex_crypt_pay" "take 16 ex_crypt_pay" False]
      len by (auto simp: sym_crypt_def)
  then have "op_sym_crypt ex_sym ?q ex_crypt_pay ex_sym_fpgad = ((SDR_OK, c), s1)"
    by (intro op_sym_crypt_run) (simp_all add: fields pqcs_modes PQCS_MAXPAY_def)
  then have run: "handle_op ex_sym ?q ex_crypt_pay ex_sym_fpgad = Some ((SDR_OK, c), s1)"
    by (simp add: handle_op_def fpga_ops fields)
  have core: "sym_core ex_sym (pq_a0 ?q AND 0xFF) (pq_a1 ?q AND 0xFF) ex_rot ex_sym_inv"
    using ex_sym_core fields by simp
  have "length ex_crypt_pay = unat (pq_len ?q)" using len fields by simp
  from crypt_roundtrip[OF core inv inv fields(6,7) this run] run fields(8) len show ?thesis by auto
qed

end
