(* ===== verification/Spec2Isabelle.thy ===== *)
theory Spec2Isabelle
  imports Example_Backup Example_Inject Example_Anchor Example_P11 Example_Fpga
begin

text \<open>
  A verification library for the core of pqc-crypto-module, a software and FPGA hardware security
  module for ML-KEM and ML-DSA keys, written in C. The paths below are those of the C files in the
  repository, under src/.

  Parts and how they interact. The token (src/slot/slot.c) holds a fixed array of slots and a table
  of 16 sessions. A slot has metadata, sealed by a KMAC under a key derived from the device root key
  (src/slot/meta.c, src/crypto/kdr.c), a life-cycle state (src/slot/fsm.c), two PIN verifiers and at
  most one key: expanded, as a seed, or in the hardware. Calls go through a session; a use checks the
  seal, the handle, the usage and the state, and then calls the algorithm dispatch (src/crypto/pqc.c),
  which is gated by the power-on self-test (src/util/selftest.c). Changes of the security state are
  committed by a persistence hook, in practice the key store (src/store/keystore.c), which serializes
  every slot (src/slot/persist.c) with AES-256-GCM (src/store/wrap.c), puts a MAC over the file,
  replaces it by rename and advances a rollback anchor (src/store/rbanchor.c). Every call is recorded
  in a hash-chained log (src/audit/audit.c), whose head can be signed with a key of the device and kept
  elsewhere (src/audit/anchor.c). A backup (src/backup/backup.c) holds the slots whose policy
  allows it, encrypted under a recovery key that exists only as shares (src/backup/shamir.c). A key can be injected into a slot from outside,
  wrapped for a KEM key of the device (src/backup/inject.c). The token is driven from outside by a frame
  protocol (src/proto/proto.c), which the daemon src/cli/pqchsmd.c serves on the loopback interface, or
  by a process that loads the PKCS\#11 library (src/p11/p11\_module.c), which keeps a table of 32 sessions,
  each with its own operations in progress, and a table of 32 session key objects over one token.
  Random numbers come from OpenSSL or from
  the driver of the hardware source (src/hal/hwrng.c). On the board a second daemon (service/pqchsm\_fpgad.c at
  the root of the repository) owns the FPGA: it serves one client at a time, drives the TRNG, the ML-KEM, ML-DSA
  and symmetric cores register by register, asks the trusted application for seeds and keys as encrypted blobs,
  and keeps two tables of handles that live as long as the connection.

  Theories, from the bottom.
  \<^item> Prelude: bytes, C strings, buffers, little-endian integers, the locale \<open>codec\<close> of wire formats.
    Machine: the locales \<open>machine\<close> (an invariant kept by every call) and \<open>counted\<close> (a 32-bit counter
    that moves by at most one per call, so that a value it left does not come back).
  \<^item> Hwrng: the driver over any register transport, and the same driver on a logged bus.
  \<^item> Env: what the program is linked against, as the record \<open>env\<close>, and the state \<open>world\<close> all components
    thread (a counter of external calls, the self-test, the files). Util, Kdf, Pqc\_Info, Selftest, Pqc:
    src/util/util.c, src/crypto/kdf.c, kdr.c and profile.c, the table of parameter sets, selftest.c
    and the dispatch.
  \<^item> Fsm: the transition table, its specification as an inductive relation and its refinement of the
    abstract view \<open>a key is present\<close>. Meta: the 92-byte record and its seal.
  \<^item> Files: system calls that may fail or be short. Audit\_Log: the C functions of audit.c. Audit\_Chain:
    what an intact file is, that verification decides it and what a forged log would need.
    Audit\_Append: the log is append-only under every failure.
  \<^item> Slot\_State and Slot\_Ops: slot\_internal.h and all of slot.c; a critical section of the C code is a
    function on one slot, named after the call it belongs to. Slot\_Frame: what calls leave alone.
    Slot\_Inv: the invariant of one slot, kept by each critical section. Slot\_Token: all calls as one
    data type, with the session and role each one asks for (\<open>permitted\<close>), the abstract device \<open>dev_step\<close>, whose
    steps are labelled by the call and its status and guarded by \<open>permitted\<close>, and the refinement. Slot\_Props, Slot\_Keys, Slot\_Policy,
    Slot\_Guard: the properties of the token, handles and sessions, PINs and policies, and of seals
    and commits.
  \<^item> Wrap, Persist, Rbanchor, Keystore: the files of src/store and src/slot/persist.c. The locale
    \<open>rollback_anchor\<close> is what the store needs of an anchor; the file provider satisfies it.
  \<^item> Gf256: the two functions on bytes of shamir.c and the proof that they are a field, carried to the
    library's class by the type \<open>gf\<close>. Interp: polynomials and Lagrange's formula over any field.
    Shamir: split and combine. Backup and Backup\_Props: export and restore, and what they promise.
  \<^item> Inject and Inject\_Props: both sides of inject.c and its manufacturing switch; what an injection can
    change, what a successful one installs, the delivery from sender to device, and the fuse.
  \<^item> Anchor and Anchor\_Props: the signed head of the log; its file format, what an anchor that verifies
    says about the log, and that an anchor stays valid while its log only grows.
  \<^item> Proto: TLV items, frames and every command of the dispatcher. Keystore\_Frame: a save leaves the
    slots and sessions alone. Proto\_Props: items and frames are read back as written, a request makes at
    most one call on the token, and every answer is well-formed and within its buffer.
  \<^item> Keystore\_Props: a save replaces the file at once or not at all, and a save followed by a load. Dna:
    src/src/crypto/kdr\_dna.c, the root key from the device DNA, over any sequence of installs. Slot\_Keep: what every call keeps of a slot so that it can be stored. Daemon and Daemon\_Props: the
    daemon with its command line, start and connections; nothing sent over the network leaves the calls of
    the token, a start is fail-closed, and what was answered with HSM\_OK is there after a power cut.
  \<^item> P11\_State, P11\_Ops, P11\_Objects, P11\_Crypt: p11\_module.c, its state and helpers, the module with its
    start and end, sessions and objects, and the cryptographic calls; the record \<open>p11\<close> has the globals of
    the C file. P11\_Handles: what an object handle names, and the growth of a buffer. P11\_Calls: all calls
    as one data type, and that they move the token only along its own calls. P11\_Wf: what the tables always
    look like, and when a call returns; the module interprets the locale \<open>machine\<close>. P11\_Props: key values
    are not read, a message in parts, AES-GCM between two modules, and the start.
  \<^item> Fpga\_Bus, Fpga\_Sym, Fpga\_Ops, Fpga\_Daemon: pqchsm\_fpgad.c, the access to the hardware with its sticky
    failure flag, the symmetric core with the modes of operation, the operations with the handle tables, and
    requests, connections, handshake limit, access list (pqcs\_tls.c) and start; the record \<open>fpgad\<close> has the globals
    of the C file, the record \<open>fenv\<close> what is behind the process. Fpga\_Keep: the locale \<open>bus_keep\<close>, what every
    access keeps every operation keeps. Fpga\_Props: its interpretations, what SDR\_OK means, handles and the end
    of a session, and that every request is answered. Fpga\_Modes: the packed ports and the modes of operation.
  \<^item> Example, Example\_Store, Example\_Backup, Example\_Inject, Example\_Anchor, Example\_Proto, Example\_Daemon,
    Example\_P11 and Example\_Fpga: concrete devices on which every property
    with hypotheses is applied.

  Correspondence. A pointer argument is an option or a bool (None or False for NULL), next to its
  length where the C function takes one; an output buffer is the value returned, and its capacity an
  argument where the code checks it. Integers have the width of the C type (u32, u64), so counters
  and generations wrap. Status codes are data types, and a function that writes a result only on
  success returns a sum. The persistence hook is a function on the token; the theorems about calls
  ask that it does not change the slots and sessions (\<open>hook_ok\<close>), which hsm\_keystore\_save satisfies
  because it only reads them. KMAC-256, SHA3-256 and AES-256-GCM are functions of their arguments
  without any assumption but \<open>gcm_ok\<close> (decryption undoes encryption) where a round trip needs it;
  what cryptography would add is stated as an explicit collision on the inputs the program hashed.
  Whether an allocation, a random draw or a system call succeeds is a function of the call counter,
  so every error path of the source can be taken.

  Loops and bounds. Loops over buffers recurse on lengths; the two polling loops have the fuel
  HWRNG\_POLL\_LIMIT = 100000 of the C code; io\_pwrite and io\_pread and the decimal printer terminate by
  a measure. The loop that doubles a buffer in the PKCS\#11 module is a partial function, and adding a part to a
  message returns a \<open>fault\<close> in place of a result: Never\_Ends where that loop does not end, Out\_Of\_Bounds where the sum
  of the lengths wraps and the copy goes past the end of the buffer; \<open>update_terminates\<close> says for which sizes
  either one is, and the properties of the module are about the calls that return. The polls of the FPGA daemon have the counts of the C code
  (200000, 3000000 and 20000000 reads); the one wait it leaves to the clock, for ML-DSA, is a partial function
  too, and \<open>fpgad_always_returns\<close> shows that it ends when the clock goes on while registers are read. Handles and session ids carry 32-bit generations: the statements that a revoked one stays
  dead hold for fewer than \<open>2\<^sup>3\<^sup>2 - 1\<close> further calls, the bound at which the counter could come round.

  Not modelled: interleavings of threads inside one call (the critical sections are atomic and a call
  runs to its end; one race this hides is recorded as a finding; the lock of the PKCS\#11 module makes its calls
  atomic), the accelerator transports and the clients of the FPGA daemon (src/hal/accel\_*, sdfe,
  service/libsdfe.c), which are device and socket I/O, the log lines of that daemon and the set-up of OpenSSL in
  service/pqcs\_tls.c, the command line tools, the simulated entropy core and the
  vector reader for tests (src/hal/hwrng\_stub.c, src/util/kat.c), the native and hardware back ends, which are
  parameters behind the table of function pointers, the RPMB provider, and the vendored
  algorithm code. Freeing memory has no effect in the model except where the code wipes a buffer it
  keeps.
\<close>

end
